(* ===== verification/Js_Prelude.thy ===== *)
theory Js_Prelude
  imports Main "HOL-Library.AList" "HOL-Library.Multiset"
begin

text \<open>
  What the TypeScript sources use of their language and its standard library, shared by every
  component: optional strings and their truthiness, \<open>trim\<close>, \<open>slice\<close>, the
  insertion-ordered \<open>Map\<close>, \<open>localeCompare\<close>, comparator chains written with
  \<open>||\<close>, the stable \<open>Array.prototype.sort\<close>, and results that are either a thrown
  error or a value. Strings are ASCII (\<^typ>\<open>string\<close>); numbers that are integers in the code
  are \<^typ>\<open>int\<close> or \<^typ>\<open>nat\<close>.
\<close>

named_theorems js_simps \<open>unfolding rules of the JavaScript library functions\<close>

subsection \<open>Errors as values\<close>

text \<open>
  A thrown \<open>AppError\<close> carries its HTTP status and its code
  (\<open>packages/engine-core/src/errors.ts\<close>); the human-readable message is not modelled.
\<close>

datatype app_error = AppError nat string

type_synonym 'a js_result = "app_error + 'a"

fun getErrorCode :: "app_error \<Rightarrow> string" where
  "getErrorCode (AppError st c) = c"

fun getErrorStatusCode :: "app_error \<Rightarrow> nat" where
  "getErrorStatusCode (AppError st c) = st"

definition hasAppErrorCode :: "app_error \<Rightarrow> string \<Rightarrow> nat option \<Rightarrow> bool" where
  "hasAppErrorCode e c st \<longleftrightarrow>
     getErrorCode e = c \<and> (st = None \<or> st = Some (getErrorStatusCode e))"

subsection \<open>Optional strings\<close>

text \<open>
  A string is falsy when it is empty, an absent one too. The spread
  \<open>...(x ? { field: x } : {})\<close> keeps the field exactly when \<open>x\<close> is truthy, which is
  \<open>keep_truthy\<close>.
\<close>

definition truthy :: "string option \<Rightarrow> bool" where
  "truthy x \<longleftrightarrow> x \<noteq> None \<and> x \<noteq> Some []"

definition keep_truthy :: "string option \<Rightarrow> string option" where
  "keep_truthy x = (if truthy x then x else None)"

definition or_else :: "'a option \<Rightarrow> 'a \<Rightarrow> 'a" where
  "or_else x d = (case x of None \<Rightarrow> d | Some v \<Rightarrow> v)"

definition or_opt :: "'a option \<Rightarrow> 'a option \<Rightarrow> 'a option" where
  "or_opt x y = (case x of None \<Rightarrow> y | Some v \<Rightarrow> Some v)"

lemma truthy_simps [simp]:
  "\<not> truthy None" "truthy (Some s) \<longleftrightarrow> s \<noteq> []"
  by (auto simp: truthy_def)

lemma keep_truthy_simps [simp]:
  "keep_truthy None = None"
  "keep_truthy (Some s) = (if s = [] then None else Some s)"
  by (auto simp: keep_truthy_def)

lemma keep_truthy_idem [simp]: "keep_truthy (keep_truthy x) = keep_truthy x"
  by (cases x) auto

lemma keep_truthy_not_Some_Nil [simp]: "keep_truthy x \<noteq> Some []"
  by (cases x) auto

lemma or_else_simps [simp]: "or_else None d = d" "or_else (Some v) d = v"
  by (auto simp: or_else_def)

lemma or_opt_simps [simp]: "or_opt None y = y" "or_opt (Some v) y = Some v"
  by (auto simp: or_opt_def)

subsection \<open>String functions\<close>

definition is_js_space :: "char \<Rightarrow> bool" where
  "is_js_space c \<longleftrightarrow>
     c \<in> {CHR '' '', CHR 0x09, CHR 0x0A, CHR 0x0B, CHR 0x0C, CHR 0x0D, CHR 0xA0}"

definition js_trim :: "string \<Rightarrow> string" where
  "js_trim s = rev (dropWhile is_js_space (rev (dropWhile is_js_space s)))"

lemma js_trim_Nil [simp]: "js_trim [] = []"
  by (simp add: js_trim_def)

lemma dropWhile_idem_hd: "(xs = [] \<or> \<not> P (hd xs)) \<Longrightarrow> dropWhile P xs = xs"
  by (cases xs) auto

lemma js_trim_idem [simp]: "js_trim (js_trim s) = js_trim s"
proof -
  let ?P = is_js_space
  define t where "t = dropWhile ?P s"
  define u where "u = rev (dropWhile ?P (rev t))"
  have trim: "js_trim s = u" by (simp add: js_trim_def t_def u_def)
  have "dropWhile ?P u = u"
  proof (rule dropWhile_idem_hd)
    show "u = [] \<or> \<not> ?P (hd u)"
    proof (cases "u = []")
      case False
      obtain v where v: "t = u @ v"
        using takeWhile_dropWhile_id [of ?P "rev t"]
        by (metis rev_append rev_rev_ident u_def)
      with False have "t \<noteq> []" "hd t = hd u" by auto
      then show ?thesis unfolding t_def
        by (metis hd_dropWhile)
    qed simp
  qed
  moreover have "dropWhile ?P (rev u) = rev u"
  proof (rule dropWhile_idem_hd)
    show "rev u = [] \<or> \<not> ?P (hd (rev u))"
      unfolding u_def using hd_dropWhile [of ?P "rev t"] by (auto)
  qed
  ultimately show ?thesis
    by (simp add: trim) (simp add: js_trim_def)
qed

subsection \<open>Slices and the first index\<close>

definition js_slice :: "nat \<Rightarrow> nat \<Rightarrow> 'a list \<Rightarrow> 'a list" where
  "js_slice i j xs = take (j - i) (drop i xs)"

fun find_index :: "('a \<Rightarrow> bool) \<Rightarrow> 'a list \<Rightarrow> nat option" where
  "find_index P [] = None"
| "find_index P (x # xs) = (if P x then Some 0 else map_option Suc (find_index P xs))"

lemma set_js_slice: "set (js_slice i j xs) \<subseteq> set xs"
  by (auto simp: js_slice_def dest: in_set_takeD in_set_dropD)

lemma length_js_slice: "length (js_slice i j xs) \<le> j - i"
  by (simp add: js_slice_def)

lemma find_index_None [simp]: "find_index P xs = None \<longleftrightarrow> (\<forall>x\<in>set xs. \<not> P x)"
  by (induction xs) auto

lemma find_index_Some:
  "find_index P xs = Some i \<Longrightarrow> i < length xs \<and> P (xs ! i) \<and> (\<forall>j<i. \<not> P (xs ! j))"
proof (induction xs arbitrary: i)
  case (Cons x xs)
  then show ?case
    by (auto split: if_splits simp: nth_Cons split: nat.splits)
qed simp

lemma find_index_split:
  assumes "find_index P xs = Some i"
  shows "xs = take i xs @ xs ! i # drop (Suc i) xs"
  using find_index_Some [OF assms] by (simp add: id_take_nth_drop)

subsection \<open>The insertion-ordered Map\<close>

text \<open>
  A JavaScript \<open>Map\<close> iterates in insertion order, and setting a key that is present
  keeps its place: \<^const>\<open>AList.update\<close> on an association list. \<open>get\<close> is
  \<^const>\<open>map_of\<close> and \<open>delete\<close> is \<^const>\<open>AList.delete\<close>. A well-formed map has distinct
  keys.
\<close>

type_synonym ('k, 'v) jmap = "('k \<times> 'v) list"

definition jmap_wf :: "('k, 'v) jmap \<Rightarrow> bool" where
  "jmap_wf m \<longleftrightarrow> distinct (map fst m)"

definition jmap_values :: "('k, 'v) jmap \<Rightarrow> 'v list" where
  "jmap_values m = map snd m"

lemma jmap_wf_empty [simp]: "jmap_wf []"
  by (simp add: jmap_wf_def)

lemma jmap_wf_update [simp]: "jmap_wf m \<Longrightarrow> jmap_wf (AList.update k v m)"
  by (simp add: jmap_wf_def distinct_update)

lemma jmap_wf_delete [simp]: "jmap_wf m \<Longrightarrow> jmap_wf (AList.delete k m)"
  by (simp add: jmap_wf_def distinct_delete)

lemma jmap_wf_filter [simp]: "jmap_wf m \<Longrightarrow> jmap_wf (filter P m)"
  by (simp add: jmap_wf_def distinct_map_filter)

lemma jmap_get_set: "map_of (AList.update k v m) k' = (if k' = k then Some v else map_of m k')"
  by (simp add: update_conv)

lemma jmap_get_delete: "map_of (AList.delete k m) k' = (if k' = k then None else map_of m k')"
  by (simp add: delete_conv')

lemma jmap_get_values: "jmap_wf m \<Longrightarrow> v \<in> set (jmap_values m) \<longleftrightarrow> (\<exists>k. map_of m k = Some v)"
  by (force simp: jmap_wf_def jmap_values_def map_of_eq_Some_iff image_iff)

lemma jmap_wf_delete_all [simp]: "jmap_wf m \<Longrightarrow> jmap_wf (fold AList.delete ks m)"
  by (induction ks arbitrary: m) auto

lemma jmap_get_delete_all:
  "map_of (fold AList.delete ks m) k = (if k \<in> set ks then None else map_of m k)"
  by (induction ks arbitrary: m) (auto simp: jmap_get_delete)

lemmas jmap_simps = jmap_get_set jmap_get_delete jmap_get_delete_all

subsection \<open>Decimal numbers\<close>

text \<open>
  \<open>String(n)\<close> of a non-negative integer and \<open>Number.parseInt(s, 10)\<close>: white space is
  skipped, a sign is read, then the longest run of digits; without a digit the result is
  \<open>NaN\<close>, here \<^const>\<open>None\<close>.
\<close>

definition digit_char :: "nat \<Rightarrow> char" where
  "digit_char d = char_of (48 + d)"

definition digit_value :: "char \<Rightarrow> nat option" where
  "digit_value c = (let n = of_char c :: nat in if 48 \<le> n \<and> n \<le> 57 then Some (n - 48) else None)"

fun js_show :: "nat \<Rightarrow> string" where
  "js_show n = (if n < 10 then [digit_char n] else js_show (n div 10) @ [digit_char (n mod 10)])"

declare js_show.simps [simp del]

fun parse_digits :: "nat \<Rightarrow> string \<Rightarrow> nat" where
  "parse_digits acc [] = acc"
| "parse_digits acc (c # cs) =
     (case digit_value c of None \<Rightarrow> acc | Some d \<Rightarrow> parse_digits (10 * acc + d) cs)"

definition parse_unsigned :: "string \<Rightarrow> nat option" where
  "parse_unsigned s =
     (case s of [] \<Rightarrow> None
      | c # cs \<Rightarrow> (case digit_value c of None \<Rightarrow> None | Some d \<Rightarrow> Some (parse_digits d cs)))"

definition js_parseInt :: "string \<Rightarrow> int option" where
  "js_parseInt s =
     (let t = dropWhile is_js_space s in
      if t \<noteq> [] \<and> hd t = CHR ''-'' then map_option (\<lambda>n. - int n) (parse_unsigned (tl t))
      else if t \<noteq> [] \<and> hd t = CHR ''+'' then map_option int (parse_unsigned (tl t))
      else map_option int (parse_unsigned t))"

lemma digit_value_char [simp]: "d < 10 \<Longrightarrow> digit_value (digit_char d) = Some d"
  by (simp add: digit_value_def digit_char_def Let_def of_char_of)

lemma parse_digits_show_append:
  "parse_digits 0 (js_show n @ cs) = parse_digits n cs"
proof (induction n arbitrary: cs rule: js_show.induct)
  case (1 n)
  show ?case
  proof (cases "n < 10")
    case True
    then show ?thesis by (simp add: js_show.simps [of n])
  next
    case False
    have "parse_digits 0 (js_show n @ cs) = parse_digits 0 (js_show (n div 10) @ digit_char (n mod 10) # cs)"
      using False by (simp add: js_show.simps [of n])
    also have "\<dots> = parse_digits (n div 10) (digit_char (n mod 10) # cs)"
      using "1.IH" False by simp
    finally show ?thesis by simp
  qed
qed

lemma js_show_hd: "\<exists>d < 10. \<exists>cs. js_show n = digit_char d # cs"
proof (induction n rule: js_show.induct)
  case (1 n)
  then show ?case
    by (cases "n < 10") (auto simp: js_show.simps [of n])
qed

lemma js_show_not_Nil [simp]: "js_show n \<noteq> []"
  using js_show_hd [of n] by auto

lemma digit_char_plain:
  assumes "d < 10"
  shows "\<not> is_js_space (digit_char d)" "digit_char d \<noteq> CHR ''-''" "digit_char d \<noteq> CHR ''+''"
proof -
  have n: "(of_char (digit_char d) :: nat) = 48 + d"
    using assms by (simp add: digit_char_def of_char_of)
  then show "\<not> is_js_space (digit_char d)" "digit_char d \<noteq> CHR ''-''" "digit_char d \<noteq> CHR ''+''"
    using assms by (auto simp: is_js_space_def)
qed

text \<open>Printing a natural number and parsing it again gives it back.\<close>

lemma js_parseInt_show [simp]: "js_parseInt (js_show n) = Some (int n)"
proof -
  obtain d cs where d: "d < 10" and cs: "js_show n = digit_char d # cs"
    using js_show_hd by blast
  have "parse_digits 0 (js_show n) = n"
    using parse_digits_show_append [of n "[]"] by simp
  then have "parse_digits d cs = n" using d by (simp add: cs)
  then show ?thesis
    using d digit_char_plain [OF d]
    by (simp add: js_parseInt_def cs parse_unsigned_def)
qed

subsection \<open>Effects\<close>

text \<open>
  An asynchronous method runs to completion before the next step of the model: it takes the
  state of the services it uses and gives either a thrown error or a value, with the state it
  leaves. Effects made before a throw stay.
\<close>

type_synonym ('s, 'a) act = "'s \<Rightarrow> 'a js_result \<times> 's"

definition act_return :: "'a \<Rightarrow> ('s, 'a) act" where
  "act_return x s = (Inr x, s)"

definition act_throw :: "app_error \<Rightarrow> ('s, 'a) act" where
  "act_throw e s = (Inl e, s)"

definition act_bind :: "('s, 'a) act \<Rightarrow> ('a \<Rightarrow> ('s, 'b) act) \<Rightarrow> ('s, 'b) act" where
  "act_bind m f s = (case m s of (Inl e, s') \<Rightarrow> (Inl e, s') | (Inr x, s') \<Rightarrow> f x s')"

definition act_catch :: "('s, 'a) act \<Rightarrow> (app_error \<Rightarrow> ('s, 'a) act) \<Rightarrow> ('s, 'a) act" where
  "act_catch m h s = (case m s of (Inl e, s') \<Rightarrow> h e s' | (Inr x, s') \<Rightarrow> (Inr x, s'))"

lemmas act_defs [js_simps] = act_return_def act_throw_def act_bind_def act_catch_def

subsection \<open>Comparators\<close>

text \<open>
  The chain \<open>a || b\<close> of two comparison results takes the second one when the first is 0.
\<close>

definition js_or :: "int \<Rightarrow> int \<Rightarrow> int" where
  "js_or a b = (if a \<noteq> 0 then a else b)"

text \<open>
  \<open>Array.prototype.sort\<close> is stable; with a consistent comparator its result is determined,
  and insertion from the right computes it.
\<close>

fun insert_by :: "('a \<Rightarrow> 'a \<Rightarrow> int) \<Rightarrow> 'a \<Rightarrow> 'a list \<Rightarrow> 'a list" where
  "insert_by cmp x [] = [x]"
| "insert_by cmp x (y # ys) = (if cmp x y \<le> 0 then x # y # ys else y # insert_by cmp x ys)"

definition js_sort :: "('a \<Rightarrow> 'a \<Rightarrow> int) \<Rightarrow> 'a list \<Rightarrow> 'a list" where
  "js_sort cmp xs = foldr (insert_by cmp) xs []"

lemma js_sort_Nil [simp]: "js_sort cmp [] = []"
  by (simp add: js_sort_def)

lemma js_sort_Cons [simp]: "js_sort cmp (x # xs) = insert_by cmp x (js_sort cmp xs)"
  by (simp add: js_sort_def)

lemma mset_insert_by [simp]: "mset (insert_by cmp x ys) = add_mset x (mset ys)"
  by (induction ys) auto

lemma mset_js_sort [simp]: "mset (js_sort cmp xs) = mset xs"
  by (induction xs) auto

lemma set_js_sort [simp]: "set (js_sort cmp xs) = set xs"
  by (metis mset_js_sort set_mset_mset)

lemma length_js_sort [simp]: "length (js_sort cmp xs) = length xs"
  by (metis mset_js_sort size_mset)

lemma distinct_js_sort [simp]: "distinct (js_sort cmp xs) = distinct xs"
  by (metis mset_eq_imp_distinct_iff mset_js_sort)

lemma distinct_map_js_sort: "distinct (map f (js_sort cmp xs)) = distinct (map f xs)"
  by (metis mset_eq_imp_distinct_iff mset_js_sort mset_map)

lemma js_sort_Nil_iff [simp]: "js_sort cmp xs = [] \<longleftrightarrow> xs = []"
  by (metis length_0_conv length_js_sort)

lemma js_sort_id: "sorted_wrt (\<lambda>a b. cmp a b \<le> 0) xs \<Longrightarrow> js_sort cmp xs = xs"
proof (induction xs)
  case (Cons x xs)
  then show ?case by (cases xs) auto
qed simp

text \<open>An element that goes before all others comes out first, whatever its place.\<close>

lemma js_sort_least:
  assumes "\<forall>a\<in>set A. 0 < cmp a t" and "\<forall>b\<in>set B. cmp t b \<le> 0"
  shows "js_sort cmp (A @ t # B) = t # js_sort cmp (A @ B)"
  using assms(1)
proof (induction A)
  case Nil
  show ?case
  proof (cases "js_sort cmp B")
    case (Cons b bs)
    then have "b \<in> set B" by (metis list.set_intros(1) set_js_sort)
    with assms(2) Cons show ?thesis by simp
  qed simp
qed simp

lemma find_split:
  "find P xs = Some e \<Longrightarrow> \<exists>A B. xs = A @ e # B \<and> P e \<and> (\<forall>a\<in>set A. \<not> P a)"
proof (induction xs)
  case (Cons x xs)
  show ?case
  proof (cases "P x")
    case True
    with Cons.prems show ?thesis by (intro exI [of _ "[]"] exI [of _ xs]) auto
  next
    case False
    with Cons obtain A B where "xs = A @ e # B" "P e" "\<forall>a\<in>set A. \<not> P a" by auto
    with False show ?thesis by (intro exI [of _ "x # A"] exI [of _ B]) auto
  qed
qed simp

text \<open>
  The contract of a comparator: swapping the arguments flips the sign, and \<open>\<le> 0\<close> is
  transitive. Every comparator of the sources that is sorted with is an interpretation.
\<close>

locale comparator =
  fixes cmp :: "'a \<Rightarrow> 'a \<Rightarrow> int"
  assumes cmp_flip: "sgn (cmp y x) = - sgn (cmp x y)"
    and cmp_trans: "cmp x y \<le> 0 \<Longrightarrow> cmp y z \<le> 0 \<Longrightarrow> cmp x z \<le> 0"
begin

lemma cmp_refl: "cmp x x = 0"
  using cmp_flip [of x x] by (simp add: sgn_if split: if_splits)

lemma cmp_pos_iff: "0 < cmp x y \<longleftrightarrow> cmp y x < 0"
  using cmp_flip [of y x] by (auto simp: sgn_if split: if_splits)

lemma cmp_zero_sym: "cmp x y = 0 \<longleftrightarrow> cmp y x = 0"
  using cmp_flip [of y x] by (auto simp: sgn_if split: if_splits)

lemma cmp_total: "cmp x y \<le> 0 \<or> cmp y x \<le> 0"
  using cmp_pos_iff [of x y] by linarith

lemma cmp_zero_trans: "cmp x y = 0 \<Longrightarrow> cmp y z = 0 \<Longrightarrow> cmp x z = 0"
  by (metis cmp_trans cmp_zero_sym cmp_pos_iff order.refl linorder_neqE_linordered_idom not_less)

lemma cmp_less_trans: "cmp x y < 0 \<Longrightarrow> cmp y z \<le> 0 \<Longrightarrow> cmp x z < 0"
  by (metis cmp_trans cmp_pos_iff linorder_not_le order.strict_implies_order)

lemma cmp_le_less_trans: "cmp x y \<le> 0 \<Longrightarrow> cmp y z < 0 \<Longrightarrow> cmp x z < 0"
  by (metis cmp_trans cmp_pos_iff linorder_not_le order.strict_implies_order)

lemma sorted_insert_by:
  "sorted_wrt (\<lambda>a b. cmp a b \<le> 0) ys \<Longrightarrow> sorted_wrt (\<lambda>a b. cmp a b \<le> 0) (insert_by cmp x ys)"
proof (induction ys)
  case (Cons y ys)
  have set_ins: "set (insert_by cmp x zs) = insert x (set zs)" for zs
    by (metis mset_insert_by set_mset_add_mset_insert set_mset_mset)
  show ?case
  proof (cases "cmp x y \<le> 0")
    case True
    with Cons.prems show ?thesis by (auto intro: cmp_trans)
  next
    case False
    then have "cmp y x \<le> 0" using cmp_total by blast
    with False Cons show ?thesis by (auto simp: set_ins)
  qed
qed simp

lemma sorted_js_sort: "sorted_wrt (\<lambda>a b. cmp a b \<le> 0) (js_sort cmp xs)"
  by (induction xs) (auto intro: sorted_insert_by)

lemma filter_insert_by:
  "filter (\<lambda>z. cmp a z = 0) (insert_by cmp x ys) = filter (\<lambda>z. cmp a z = 0) (x # ys)"
proof (induction ys)
  case (Cons y ys)
  show ?case
  proof (cases "cmp x y \<le> 0")
    case False
    then have "\<not> (cmp a x = 0 \<and> cmp a y = 0)"
      using cmp_zero_trans [of x a y] cmp_zero_sym [of a x] by auto
    with False Cons show ?thesis by auto
  qed simp
qed simp

text \<open>Stability: elements that compare equal keep their order.\<close>

lemma stable_js_sort: "filter (\<lambda>z. cmp a z = 0) (js_sort cmp xs) = filter (\<lambda>z. cmp a z = 0) xs"
  by (induction xs) (simp_all add: filter_insert_by)

lemma hd_js_sort_least: "x \<in> set xs \<Longrightarrow> cmp (hd (js_sort cmp xs)) x \<le> 0"
proof -
  assume x: "x \<in> set xs"
  then obtain y ys where yys: "js_sort cmp xs = y # ys"
    by (metis empty_iff empty_set list.exhaust set_js_sort)
  with sorted_js_sort [of xs] have "\<forall>z\<in>set ys. cmp y z \<le> 0" by simp
  moreover from x yys have "x = y \<or> x \<in> set ys" by (metis set_ConsD set_js_sort)
  ultimately show ?thesis using yys cmp_refl [of y] by auto
qed

text \<open>The first element with a property in a sorted list is a least one with it.\<close>

lemma find_js_sort_least:
  assumes "find P (js_sort cmp xs) = Some x"
  shows "x \<in> set xs \<and> P x \<and> (\<forall>y\<in>set xs. P y \<longrightarrow> cmp x y \<le> 0)"
proof -
  obtain A B where AB: "js_sort cmp xs = A @ x # B" "P x" "\<forall>a\<in>set A. \<not> P a"
    using find_split [OF assms] by blast
  have s: "set xs = insert x (set A \<union> set B)"
    using arg_cong [OF AB(1), of set] by simp
  have "\<forall>b\<in>set B. cmp x b \<le> 0"
    using sorted_js_sort [of xs] by (simp add: AB(1) sorted_wrt_append)
  with s AB(2,3) cmp_refl [of x] show ?thesis by auto
qed

end

lemma comparator_diff: "comparator (\<lambda>x y. f x - f y)"
  by unfold_locales (auto simp: sgn_if)

lemma comparator_diff_desc: "comparator (\<lambda>x y. f y - f x)"
  by unfold_locales (auto simp: sgn_if)

lemma comparator_on: "comparator cmp \<Longrightarrow> comparator (\<lambda>x y. cmp (f x) (f y))"
  unfolding comparator_def by blast

lemma comparator_desc: "comparator cmp \<Longrightarrow> comparator (\<lambda>x y. cmp y x)"
proof unfold_locales
  fix x y z
  assume c: "comparator cmp"
  show "sgn (cmp x y) = - sgn (cmp y x)" by (rule comparator.cmp_flip [OF c])
  show "cmp y x \<le> 0 \<Longrightarrow> cmp z y \<le> 0 \<Longrightarrow> cmp z x \<le> 0"
    using comparator.cmp_trans [OF c, of z y x] by blast
qed

lemma comparator_or:
  assumes "comparator c" and "comparator d"
  shows "comparator (\<lambda>x y. js_or (c x y) (d x y))"
proof
  fix x y z
  show "sgn (js_or (c y x) (d y x)) = - sgn (js_or (c x y) (d x y))"
    using comparator.cmp_flip [OF assms(1), of y x] comparator.cmp_flip [OF assms(2), of y x]
    by (auto simp: js_or_def sgn_if split: if_splits)
  assume "js_or (c x y) (d x y) \<le> 0" and "js_or (c y z) (d y z) \<le> 0"
  then consider "c x y < 0" "c y z \<le> 0" | "c x y = 0" "c y z < 0"
    | "c x y = 0" "c y z = 0" "d x y \<le> 0" "d y z \<le> 0"
    by (auto simp: js_or_def split: if_splits)
  then show "js_or (c x z) (d x z) \<le> 0"
  proof cases
    case 1
    then have "c x z < 0" by (rule comparator.cmp_less_trans [OF assms(1)])
    then show ?thesis by (simp add: js_or_def)
  next
    case 2
    have "c x y \<le> 0" using 2 by simp
    from comparator.cmp_le_less_trans [OF assms(1) this 2(2)] have "c x z < 0" .
    then show ?thesis by (simp add: js_or_def)
  next
    case 3
    then show ?thesis
      using comparator.cmp_zero_trans [OF assms(1) 3(1,2)]
        comparator.cmp_trans [OF assms(2) 3(3,4)]
      by (simp add: js_or_def)
  qed
qed

subsection \<open>localeCompare\<close>

text \<open>
  \<open>String.prototype.localeCompare\<close> without arguments is the default ICU collation. On ASCII
  strings it compares the primary weights from left to right (white space and punctuation below
  digits below letters, letters without regard to case) and, if they agree, the tertiary weights
  (lower case before upper case); the other control characters are ignored. The order of
  punctuation is that of the CLDR root collation. Other characters get a weight above all
  of ASCII: the sources compare identifiers, timestamps and paths only.
\<close>

definition collation_alphabet :: string where
  "collation_alphabet =
     [CHR 0x09, CHR 0x0A, CHR 0x0B, CHR 0x0C, CHR 0x0D, CHR 0x20] @
     ''_-,;:!?.'' @ [CHR 0x27, CHR 0x22] @ ''()[]{}@*/'' @ [CHR 0x5C] @ ''&#%'' @ [CHR 0x60] @
     ''^+<=>|~$0123456789abcdefghijklmnopqrstuvwxyz''"

definition is_upper :: "char \<Rightarrow> bool" where
  "is_upper c \<longleftrightarrow> c \<in> set ''ABCDEFGHIJKLMNOPQRSTUVWXYZ''"

definition to_lower :: "char \<Rightarrow> char" where
  "to_lower c = (if is_upper c then char_of ((of_char c :: nat) + 32) else c)"

definition primary_weight :: "char \<Rightarrow> nat" where
  "primary_weight c =
     (case find_index (\<lambda>d. d = to_lower c) collation_alphabet of
        Some i \<Rightarrow> Suc i
      | None \<Rightarrow> if (of_char c :: nat) < 128 then 0 else of_char c)"

definition tertiary_weight :: "char \<Rightarrow> nat" where
  "tertiary_weight c = (if is_upper c then 1 else 0)"

fun lex_compare :: "nat list \<Rightarrow> nat list \<Rightarrow> int" where
  "lex_compare [] [] = 0"
| "lex_compare [] (y # ys) = -1"
| "lex_compare (x # xs) [] = 1"
| "lex_compare (x # xs) (y # ys) = (if x < y then -1 else if y < x then 1 else lex_compare xs ys)"

definition collated :: "string \<Rightarrow> string" where
  "collated s = filter (\<lambda>c. primary_weight c \<noteq> 0) s"

definition localeCompare :: "string \<Rightarrow> string \<Rightarrow> int" where
  "localeCompare a b =
     js_or (lex_compare (map primary_weight (collated a)) (map primary_weight (collated b)))
       (lex_compare (map tertiary_weight (collated a)) (map tertiary_weight (collated b)))"

lemma lex_compare_flip: "lex_compare ys xs = - lex_compare xs ys"
  by (induction xs ys rule: lex_compare.induct) auto

lemma lex_compare_trans: "lex_compare xs ys \<le> 0 \<Longrightarrow> lex_compare ys zs \<le> 0 \<Longrightarrow> lex_compare xs zs \<le> 0"
proof (induction xs ys arbitrary: zs rule: lex_compare.induct)
  case 1
  then show ?case by simp
next
  case (2 y ys)
  then show ?case by (cases zs) auto
next
  case (3 x xs)
  then show ?case by simp
next
  case (4 x xs y ys)
  from "4.prems"(2) obtain z zs' where zs: "zs = z # zs'" by (cases zs) auto
  consider "x < y" | "y < x" | "x = y" by linarith
  then show ?case
  proof cases
    case 1
    with "4.prems"(2) have "y \<le> z" by (auto simp: zs split: if_splits)
    with 1 show ?thesis by (simp add: zs)
  next
    case 2
    with "4.prems"(1) show ?thesis by simp
  next
    case 3
    with "4.prems" "4.IH" [of zs'] show ?thesis by (simp add: zs split: if_splits)
  qed
qed

lemma comparator_lex: "comparator lex_compare"
proof unfold_locales
  fix x y z :: "nat list"
  show "sgn (lex_compare y x) = - sgn (lex_compare x y)"
    using lex_compare_flip [of y x] by simp
  show "lex_compare x y \<le> 0 \<Longrightarrow> lex_compare y z \<le> 0 \<Longrightarrow> lex_compare x z \<le> 0"
    by (rule lex_compare_trans)
qed

interpretation lc: comparator localeCompare
  unfolding localeCompare_def
  by (intro comparator_or comparator_on [OF comparator_lex])

lemma lex_compare_zero_iff: "lex_compare xs ys = 0 \<longleftrightarrow> xs = ys"
  by (induction xs ys rule: lex_compare.induct) auto

text \<open>
  Comparators of the sources are chains of differences and of \<open>localeCompare\<close>; these
  rules prove each of them a comparator.
\<close>

lemmas comparator_intros =
  comparator_or comparator_diff comparator_diff_desc
  comparator_on [OF lc.comparator_axioms] comparator_desc [OF comparator_on [OF lc.comparator_axioms]]

end
