(* ===== verification/Contracts.thy ===== *)
theory Contracts
  imports Js_Prelude
begin

text \<open>
  The data the services exchange: the zod schemas of \<open>packages/api-contracts/src\<close> (runs, run
  steps, sessions, messages) and the record types of \<open>packages/engine-core/src/types\<close>
  (session events, agent tasks, pending-queue entries) and of
  \<open>engine/engine-messages.ts\<close>. Each record field keeps its name behind a prefix; an
  optional field is an option. Timestamps are ISO-8601 strings. Free-form JSON is \<open>json\<close>.
\<close>

datatype json =
    JNull
  | JBool bool
  | JNum int
  | JStr string
  | JArr "json list"
  | JObj "(string \<times> json) list"

fun json_field :: "string \<Rightarrow> json \<Rightarrow> json option" where
  "json_field k (JObj kvs) = map_of kvs k"
| "json_field k _ = None"

subsection \<open>Runs and run steps\<close>

datatype run_status =
  Queued | Running | WaitingTool | Completed | Failed | Cancelled | TimedOut

datatype trigger_type = TriggerMessage | TriggerManualAction | TriggerApiAction | TriggerHook | TriggerSystem

record run =
  run_id :: string
  run_workspaceId :: string
  run_sessionId :: "string option"
  run_parentRunId :: "string option"
  run_initiatorRef :: "string option"
  run_triggerType :: trigger_type
  run_triggerRef :: "string option"
  run_agentName :: "string option"
  run_effectiveAgentName :: string
  run_switchCount :: "nat option"
  run_status :: run_status
  run_cancelRequestedAt :: "string option"
  run_startedAt :: "string option"
  run_heartbeatAt :: "string option"
  run_endedAt :: "string option"
  run_createdAt :: string
  run_errorCode :: "string option"
  run_errorMessage :: "string option"
  run_metadata :: "json option"

datatype step_type = StepModelCall | StepToolCall | StepAgentSwitch | StepAgentDelegate | StepHook | StepSystem

datatype step_status = StepQueued | StepRunning | StepCompleted | StepFailed | StepCancelled

record run_step =
  step_id :: string
  step_runId :: string
  step_seq :: nat
  step_stepType :: step_type
  step_name :: "string option"
  step_agentName :: "string option"
  step_status :: step_status
  step_input :: "json option"
  step_output :: "json option"
  step_startedAt :: "string option"
  step_endedAt :: "string option"

subsection \<open>Sessions and workspaces\<close>

datatype session_status = SessionActive | SessionArchived | SessionClosed

record session =
  session_id :: string
  session_workspaceId :: string
  session_parentSessionId :: "string option"
  session_subjectRef :: string
  session_modelRef :: "string option"
  session_agentName :: "string option"
  session_activeAgentName :: string
  session_workspaceMemory :: "json option"
  session_title :: "string option"
  session_status :: session_status
  session_lastRunAt :: "string option"
  session_createdAt :: string
  session_updatedAt :: string

datatype agent_mode = AgentPrimary | AgentSubagent | AgentAll

record agent_definition =
  agent_name :: string
  agent_mode :: agent_mode

text \<open>
  Of a workspace record and of an agent only what the modelled code reads is a field; the rest of
  the record is opaque.
\<close>

record workspace_record =
  ws_id :: string
  ws_defaultAgent :: "string option"
  ws_agents :: "(string \<times> agent_definition) list"
  ws_workspaceModels :: "(string \<times> json) list"
  ws_createdAt :: string
  ws_updatedAt :: string
  ws_definition :: json

subsection \<open>Messages\<close>

datatype role = RoleSystem | RoleUser | RoleAssistant | RoleTool

datatype message_origin = OriginUser | OriginEngine | OriginHook | OriginTool | OriginSystem

datatype message_mode = ModePrompt | ModeTaskNotification

datatype tool_output =
    OutText string "json option"
  | OutJson json "json option"
  | OutExecutionDenied "string option" "json option"
  | OutErrorText string "json option"
  | OutErrorJson json "json option"
  | OutContent "json list" "json option"

datatype message_part =
    TextPart string "json option"
  | ImagePart string "string option" "json option"
  | FilePart string "string option" string "json option"
  | ReasoningPart string "json option"
  | ToolCallPart string string json "json option" "bool option"
  | ToolResultPart string string tool_output "json option"
  | ToolApprovalRequestPart string string
  | ToolApprovalResponsePart string bool "string option" "bool option"

datatype content = ContentText string | ContentParts "message_part list"

record message =
  msg_id :: string
  msg_sessionId :: string
  msg_runId :: "string option"
  msg_role :: role
  msg_origin :: "message_origin option"
  msg_mode :: "message_mode option"
  msg_content :: content
  msg_metadata :: "json option"
  msg_createdAt :: string

subsection \<open>Engine messages\<close>

text \<open>
  The kinds of the list \<open>RUNTIME_MESSAGE_KINDS\<close>, and any other value, which a message can carry as its
  \<open>runtimeKind\<close>. Of the metadata's free keys \<open>modelCallStepSeq\<close> is read.
\<close>

datatype engine_kind =
    KSystemNote | KUserInput | KAssistantText | KAssistantReasoning | KToolCall | KToolResult
  | KToolApprovalRequest | KToolApprovalResponse | KTaskNotification | KCompactBoundary
  | KCompactSummary | KRuntimeReminder | KHandoffSummary | KAgentSwitchNote | KOther json

record engine_metadata =
  em_runtimeKind :: "engine_kind option"
  em_agentName :: "string option"
  em_effectiveAgentName :: "string option"
  em_synthetic :: "bool option"
  em_visibleInTranscript :: "bool option"
  em_eligibleForModelContext :: "bool option"
  em_compactedAt :: "string option"
  em_compactBoundaryId :: "string option"
  em_summaryForBoundaryId :: "string option"
  em_source :: "message_origin option"
  em_tags :: "string list option"
  em_modelCallStepSeq :: "int option"
  em_extra :: "json option"

record engine_message =
  eng_id :: string
  eng_sessionId :: string
  eng_runId :: "string option"
  eng_role :: role
  eng_origin :: "message_origin option"
  eng_mode :: "message_mode option"
  eng_kind :: engine_kind
  eng_content :: content
  eng_createdAt :: string
  eng_metadata :: "engine_metadata option"

subsection \<open>Session events, agent tasks and the pending-run queue\<close>

datatype event_name =
    EvRunQueued | EvQueueUpdated | EvRunStarted | EvMessageDelta | EvMessageCompleted
  | EvAgentSwitchRequested | EvAgentSwitched | EvAgentDelegateStarted | EvAgentDelegateCompleted
  | EvAgentDelegateFailed | EvHookNotice | EvToolStarted | EvToolCompleted | EvToolFailed
  | EvEngineLog | EvRunCompleted | EvRunFailed | EvRunCancelled

text \<open>What is appended: an event without its id, cursor and time.\<close>

record event_input =
  evi_sessionId :: string
  evi_runId :: "string option"
  evi_event :: event_name
  evi_data :: json

record session_event = event_input +
  ev_id :: string
  ev_cursor :: string
  ev_createdAt :: string

datatype task_status = TaskQueued | TaskRunning | TaskCompleted | TaskFailed | TaskCancelled | TaskTimedOut

record agent_task =
  task_taskId :: string
  task_workspaceId :: string
  task_parentSessionId :: string
  task_parentRunId :: string
  task_childSessionId :: string
  task_childRunId :: string
  task_toolUseId :: "string option"
  task_targetAgentName :: string
  task_parentAgentName :: string
  task_status :: task_status
  task_description :: "string option"
  task_handoffSummary :: "string option"
  task_outputRef :: string
  task_outputFile :: "string option"
  task_finalText :: "string option"
  task_errorMessage :: "string option"
  task_usage :: "json option"
  task_taskState :: "json option"
  task_notifiedAt :: "string option"
  task_createdAt :: string
  task_updatedAt :: string

datatype notification_status = NotePending | NoteConsumed

record task_notification =
  note_id :: string
  note_workspaceId :: string
  note_parentSessionId :: string
  note_parentRunId :: string
  note_taskId :: string
  note_toolUseId :: "string option"
  note_childRunId :: string
  note_childSessionId :: string
  note_completed :: bool
  note_content :: string
  note_metadata :: json
  note_status :: notification_status
  note_createdAt :: string
  note_consumedAt :: "string option"

record pending_entry =
  pend_sessionId :: string
  pend_runId :: string
  pend_position :: int
  pend_createdAt :: string

subsection \<open>Active runs\<close>

text \<open>The statuses of a run that is queued or executing; the others are terminal.\<close>

definition active_status :: "run_status \<Rightarrow> bool" where
  "active_status s \<longleftrightarrow> s = Queued \<or> s = Running \<or> s = WaitingTool"

definition terminal_status :: "run_status \<Rightarrow> bool" where
  "terminal_status s \<longleftrightarrow> \<not> active_status s"

lemma terminal_status_iff:
  "terminal_status s \<longleftrightarrow> s \<in> {Completed, Failed, Cancelled, TimedOut}"
  by (cases s) (auto simp: terminal_status_def active_status_def)

end
