(* ===== verification/Message_Projection.thy ===== *)
theory Message_Projection
  imports Contracts
begin

text \<open>
  \<open>packages/engine-core/src/engine/message-projections.ts\<close>: how the stored engine messages of
  a session become the messages of the transcript, of the model's context, of compaction and of the
  debug view. The model view applies the latest compact boundary, drops composite assistant messages
  whose tool calls were stored again on their own, hoists memory notes after the leading system
  messages, clears or truncates old tool results and merges adjacent tool-call messages.
\<close>

datatype projection_view = ViewTranscript | ViewModel | ViewCompact | ViewDebug | ViewExport

record projected_metadata =
  pm_hiddenFromTranscript :: "bool option"
  pm_hiddenFromModel :: "bool option"
  pm_truncated :: "bool option"
  pm_compacted :: "bool option"
  pm_notes :: "string list option"

record projected_message =
  pj_view :: projection_view
  pj_role :: role
  pj_mode :: "message_mode option"
  pj_semanticType :: engine_kind
  pj_sourceMessageIds :: "string list"
  pj_content :: content
  pj_metadata :: "projected_metadata option"

record projection_context =
  pc_sessionId :: string
  pc_activeAgentName :: string
  pc_modelRef :: "string option"
  pc_provider :: "string option"
  pc_includeReasoning :: "bool option"
  pc_includeToolResults :: "bool option"
  pc_toolResultSoftLimitChars :: "int option"
  pc_applyCompactBoundary :: "bool option"
  pc_injectRuntimeReminder :: "bool option"

record projection_result =
  pr_messages :: "projected_message list"
  pr_hiddenMessageIds :: "string list"
  pr_truncatedMessageIds :: "string list"
  pr_appliedCompactBoundaryId :: "string option"
  pr_injectedNotes :: "string list"

definition no_metadata :: projected_metadata where
  "no_metadata = \<lparr>pm_hiddenFromTranscript = None, pm_hiddenFromModel = None, pm_truncated = None,
     pm_compacted = None, pm_notes = None\<rparr>"

definition copyNotes :: "string list option \<Rightarrow> string \<Rightarrow> string list" where
  "copyNotes notes note = or_else notes [] @ [note]"

text \<open>\<open>message.metadata?.f\<close>, for a field that is itself optional.\<close>

definition meta :: "(engine_metadata \<Rightarrow> 'a option) \<Rightarrow> engine_message \<Rightarrow> 'a option" where
  "meta f m = Option.bind (eng_metadata m) f"

definition isEligibleForModelContext :: "engine_message \<Rightarrow> bool" where
  "isEligibleForModelContext m \<longleftrightarrow> meta em_eligibleForModelContext m \<noteq> Some False"

definition isTransientMemoryContextNote :: "engine_message \<Rightarrow> bool" where
  "isTransientMemoryContextNote m \<longleftrightarrow>
     eng_role m = RoleSystem \<and> eng_kind m = KSystemNote \<and> meta em_synthetic m = Some True \<and>
     meta em_eligibleForModelContext m = Some True \<and>
     (case meta em_tags m of None \<Rightarrow> False
      | Some tags \<Rightarrow> ''session-memory'' \<in> set tags \<or> ''workspace-memory'' \<in> set tags)"

fun isToolCallPart :: "message_part \<Rightarrow> bool" where
  "isToolCallPart (ToolCallPart _ _ _ _ _) = True"
| "isToolCallPart _ = False"

fun isToolResultPart :: "message_part \<Rightarrow> bool" where
  "isToolResultPart (ToolResultPart _ _ _ _) = True"
| "isToolResultPart _ = False"

fun part_toolCallId :: "message_part \<Rightarrow> string" where
  "part_toolCallId (ToolCallPart i _ _ _ _) = i"
| "part_toolCallId (ToolResultPart i _ _ _) = i"
| "part_toolCallId (ToolApprovalRequestPart _ i) = i"
| "part_toolCallId _ = []"

fun contentToolCallIds :: "content \<Rightarrow> string list" where
  "contentToolCallIds (ContentText _) = []"
| "contentToolCallIds (ContentParts ps) = map part_toolCallId (filter isToolCallPart ps)"

fun contentToolResultIds :: "content \<Rightarrow> string list" where
  "contentToolResultIds (ContentText _) = []"
| "contentToolResultIds (ContentParts ps) = map part_toolCallId (filter isToolResultPart ps)"

fun isPureToolCallContent :: "content \<Rightarrow> bool" where
  "isPureToolCallContent (ContentText _) = False"
| "isPureToolCallContent (ContentParts ps) = (ps \<noteq> [] \<and> list_all isToolCallPart ps)"

fun is_parts :: "content \<Rightarrow> bool" where
  "is_parts (ContentText _) = False"
| "is_parts (ContentParts _) = True"

definition isPureToolCallMessage :: "engine_message \<Rightarrow> bool" where
  "isPureToolCallMessage m \<longleftrightarrow>
     \<not> (eng_role m \<noteq> RoleAssistant \<or> \<not> is_parts (eng_content m)) \<and> isPureToolCallContent (eng_content m)"

definition removeDuplicateCompositeToolCallMessages :: "engine_message list \<Rightarrow> engine_message list" where
  "removeDuplicateCompositeToolCallMessages messages =
     (let canonicalToolCallIds =
            concat (map (\<lambda>m. if isPureToolCallMessage m then contentToolCallIds (eng_content m) else []) messages);
          toolResultIds = concat (map (\<lambda>m. contentToolResultIds (eng_content m)) messages)
      in if canonicalToolCallIds = [] \<or> toolResultIds = [] then messages
         else filter (\<lambda>m.
             if isPureToolCallMessage m \<or> eng_role m \<noteq> RoleAssistant \<or> \<not> is_parts (eng_content m) then True
             else \<not> list_ex (\<lambda>i. i \<in> set canonicalToolCallIds \<and> i \<in> set toolResultIds)
                    (contentToolCallIds (eng_content m))) messages)"

text \<open>The scan from the end for the last index, \<^const>\<open>None\<close> for \<open>-1\<close>.\<close>

definition findLatestCompactBoundaryIndex :: "engine_message list \<Rightarrow> nat option" where
  "findLatestCompactBoundaryIndex messages =
     map_option (\<lambda>k. length messages - 1 - k) (find_index (\<lambda>m. eng_kind m = KCompactBoundary) (rev messages))"

definition readCompactThroughMessageId :: "engine_message \<Rightarrow> string option" where
  "readCompactThroughMessageId boundaryMessage =
     (case meta em_extra boundaryMessage of
        None \<Rightarrow> None
      | Some extra \<Rightarrow>
          (case json_field ''compactThroughMessageId'' extra of Some (JStr i) \<Rightarrow> Some i | _ \<Rightarrow> None))"

definition findSummaryForBoundary :: "engine_message list \<Rightarrow> string \<Rightarrow> engine_message option" where
  "findSummaryForBoundary messages boundaryId =
     find (\<lambda>m. eng_kind m = KCompactSummary \<and>
        (meta em_summaryForBoundaryId m = Some boundaryId \<or> meta em_compactBoundaryId m = Some boundaryId)) messages"

definition applyLatestCompactBoundary :: "engine_message list \<Rightarrow> engine_message list \<times> string option" where
  "applyLatestCompactBoundary messages =
     (case findLatestCompactBoundaryIndex messages of
        None \<Rightarrow> (messages, None)
      | Some boundaryIndex \<Rightarrow>
          let boundaryMessage = messages ! boundaryIndex;
              compactThroughMessageId = readCompactThroughMessageId boundaryMessage
          in if \<not> truthy compactThroughMessageId
             then (drop (boundaryIndex + 1) messages, Some (eng_id boundaryMessage))
             else case find_index (\<lambda>m. Some (eng_id m) = compactThroughMessageId) messages of
                None \<Rightarrow> (drop (boundaryIndex + 1) messages, Some (eng_id boundaryMessage))
              | Some compactThroughIndex \<Rightarrow>
                  let summaryMessage = findSummaryForBoundary messages (eng_id boundaryMessage);
                      recentMessages =
                        filter (\<lambda>m. eng_kind m \<noteq> KCompactBoundary \<and> Some (eng_id m) \<noteq> map_option eng_id summaryMessage)
                          (drop (compactThroughIndex + 1) messages)
                  in ((case summaryMessage of None \<Rightarrow> [] | Some s \<Rightarrow> [s]) @ recentMessages,
                      Some (eng_id boundaryMessage)))"

fun split_leading :: "bool \<Rightarrow> engine_message list \<Rightarrow> engine_message list \<times> engine_message list" where
  "split_leading stillLeading [] = ([], [])"
| "split_leading stillLeading (m # ms) =
     (if isTransientMemoryContextNote m then split_leading stillLeading ms
      else if stillLeading \<and> eng_role m = RoleSystem
        then (case split_leading stillLeading ms of (leading, remaining) \<Rightarrow> (m # leading, remaining))
      else (case split_leading False ms of (leading, remaining) \<Rightarrow> (leading, m # remaining)))"

definition hoistTransientMemoryContextNotes :: "engine_message list \<Rightarrow> engine_message list" where
  "hoistTransientMemoryContextNotes messages =
     (let transientMemoryNotes = filter isTransientMemoryContextNote messages
      in if transientMemoryNotes = [] then messages
         else case split_leading True messages of
           (leadingSystemMessages, remainingMessages) \<Rightarrow>
             leadingSystemMessages @ transientMemoryNotes @ remainingMessages)"

definition projectGenericMessage :: "engine_message \<Rightarrow> projection_view \<Rightarrow> projected_message" where
  "projectGenericMessage m view =
     \<lparr>pj_view = view, pj_role = eng_role m, pj_mode = eng_mode m, pj_semanticType = eng_kind m,
      pj_sourceMessageIds = [eng_id m], pj_content = eng_content m, pj_metadata = None\<rparr>"

text \<open>
  \<open>toolResultContent\<close> of \<open>execution-message-content.ts\<close>, on an output that is a string:
  \<open>normalizeToolResultOutput\<close> wraps it as a text output.
\<close>

definition toolResultContent :: "string \<Rightarrow> string \<Rightarrow> string \<Rightarrow> content" where
  "toolResultContent toolCallId toolName output =
     ContentParts [ToolResultPart toolCallId toolName (OutText output None) None]"

fun find_result :: "content \<Rightarrow> (string \<times> string \<times> tool_output) option" where
  "find_result (ContentText _) = None"
| "find_result (ContentParts ps) =
     (case find isToolResultPart ps of Some (ToolResultPart i n out _) \<Rightarrow> Some (i, n, out) | _ \<Rightarrow> None)"

fun text_output :: "tool_output \<Rightarrow> string option" where
  "text_output (OutText v _) = Some v"
| "text_output (OutErrorText v _) = Some v"
| "text_output _ = None"

definition truncation_note :: "int \<Rightarrow> string" where
  "truncation_note limit = ''tool result truncated to '' @ js_show (nat limit) @ '' chars''"

definition clear_compacted :: "engine_message \<Rightarrow> content \<times> projected_metadata option \<times> bool" where
  "clear_compacted m =
     (if eng_kind m = KToolResult \<and> truthy (meta em_compactedAt m)
      then (case find_result (eng_content m) of
              Some (i, n, _) \<Rightarrow>
                (toolResultContent i n ''[Old tool result content cleared]'',
                 Some (no_metadata\<lparr>pm_compacted := Some True,
                         pm_notes := Some [''tool result compacted for model context'']\<rparr>), True)
            | None \<Rightarrow> (eng_content m, None, False))
      else (eng_content m, None, False))"

definition truncate_result ::
    "engine_message \<Rightarrow> projection_context \<Rightarrow> content \<times> projected_metadata option \<times> bool \<Rightarrow>
     content \<times> projected_metadata option \<times> bool" where
  "truncate_result m ctx st =
     (let (content, metadata, truncated) = st;
          limit = or_else (pc_toolResultSoftLimitChars ctx) 0
      in if eng_kind m = KToolResult \<and> \<not> truncated \<and> limit > 0
         then (case find_result content of
                 Some (i, n, out) \<Rightarrow>
                   (case text_output out of
                      Some v \<Rightarrow>
                        if int (length v) > limit
                        then (toolResultContent i n (take (nat limit) v @ ''...''),
                              Some ((or_else metadata no_metadata)\<lparr>pm_truncated := Some True,
                                pm_notes := Some (copyNotes (Option.bind metadata pm_notes) (truncation_note limit))\<rparr>),
                              True)
                        else st
                    | None \<Rightarrow> st)
               | None \<Rightarrow> st)
         else st)"

definition buildModelMessage :: "engine_message \<Rightarrow> projection_context \<Rightarrow> projected_message option \<times> bool" where
  "buildModelMessage m ctx =
     (if eng_kind m = KCompactBoundary then (None, False)
      else if eng_kind m = KAssistantReasoning \<and> pc_includeReasoning ctx = Some False then (None, False)
      else if eng_kind m = KToolResult \<and> pc_includeToolResults ctx = Some False then (None, False)
      else case truncate_result m ctx (clear_compacted m) of
        (content, metadata, truncated) \<Rightarrow>
          (Some \<lparr>pj_view = ViewModel, pj_role = eng_role m, pj_mode = eng_mode m,
             pj_semanticType = eng_kind m, pj_sourceMessageIds = [eng_id m], pj_content = content,
             pj_metadata = metadata\<rparr>, truncated))"

fun content_parts :: "content \<Rightarrow> message_part list" where
  "content_parts (ContentText _) = []"
| "content_parts (ContentParts ps) = ps"

definition merge_step :: "projected_message list \<Rightarrow> projected_message \<Rightarrow> projected_message list" where
  "merge_step merged m =
     (if merged \<noteq> [] \<and> pj_role (last merged) = RoleAssistant \<and> pj_role m = RoleAssistant \<and>
         isPureToolCallContent (pj_content (last merged)) \<and> isPureToolCallContent (pj_content m)
      then butlast merged @
             [(last merged)\<lparr>pj_content := ContentParts (content_parts (pj_content (last merged)) @ content_parts (pj_content m)),
                pj_sourceMessageIds := pj_sourceMessageIds (last merged) @ pj_sourceMessageIds m\<rparr>]
      else merged @ [m])"

definition mergeAdjacentPureToolCallModelMessages :: "projected_message list \<Rightarrow> projected_message list" where
  "mergeAdjacentPureToolCallModelMessages messages = foldl merge_step [] messages"

definition projectToTranscript :: "engine_message list \<Rightarrow> projection_result" where
  "projectToTranscript ms =
     \<lparr>pr_messages = map (\<lambda>m. projectGenericMessage m ViewTranscript)
        (filter (\<lambda>m. meta em_visibleInTranscript m \<noteq> Some False) ms),
      pr_hiddenMessageIds = map eng_id (filter (\<lambda>m. meta em_visibleInTranscript m = Some False) ms),
      pr_truncatedMessageIds = [], pr_appliedCompactBoundaryId = None, pr_injectedNotes = []\<rparr>"

definition model_selection :: "engine_message list \<Rightarrow> projection_context \<Rightarrow> engine_message list \<times> string option" where
  "model_selection ms ctx =
     (let (bounded, boundaryId) =
            (if pc_applyCompactBoundary ctx \<noteq> Some False then applyLatestCompactBoundary ms else (ms, None))
      in (hoistTransientMemoryContextNotes (removeDuplicateCompositeToolCallMessages bounded), boundaryId))"

text \<open>The callback of \<open>flatMap\<close>: the message of the model, or none when the source is hidden.\<close>

definition project_one :: "projection_context \<Rightarrow> engine_message \<Rightarrow> projected_message option \<times> bool" where
  "project_one ctx m =
     (if \<not> isEligibleForModelContext m then (None, False) else buildModelMessage m ctx)"

definition runtimeReminder :: projected_message where
  "runtimeReminder =
     \<lparr>pj_view = ViewModel, pj_role = RoleSystem, pj_mode = None, pj_semanticType = KRuntimeReminder,
      pj_sourceMessageIds = [],
      pj_content = ContentText ''Continue from the current task state. Re-read files or rerun tools if prior outputs were compacted.'',
      pj_metadata = None\<rparr>"

definition projectToModel :: "engine_message list \<Rightarrow> projection_context \<Rightarrow> projection_result" where
  "projectToModel ms ctx =
     (let (messages, boundaryId) = model_selection ms ctx;
          projected = List.map_filter (\<lambda>m. fst (project_one ctx m)) messages;
          safe = mergeAdjacentPureToolCallModelMessages projected;
          remind = pc_injectRuntimeReminder ctx = Some True
      in \<lparr>pr_messages = (if remind then safe @ [runtimeReminder] else safe),
          pr_hiddenMessageIds = map eng_id (filter (\<lambda>m. fst (project_one ctx m) = None) messages),
          pr_truncatedMessageIds =
            map eng_id (filter (\<lambda>m. fst (project_one ctx m) \<noteq> None \<and> snd (project_one ctx m)) messages),
          pr_appliedCompactBoundaryId = keep_truthy boundaryId,
          pr_injectedNotes = (if remind then [''runtime reminder injected''] else [])\<rparr>)"

definition projectToDebug :: "engine_message list \<Rightarrow> projection_result" where
  "projectToDebug ms =
     \<lparr>pr_messages = map (\<lambda>m.
        \<lparr>pj_view = ViewDebug, pj_role = eng_role m, pj_mode = None, pj_semanticType = eng_kind m,
         pj_sourceMessageIds = [eng_id m], pj_content = eng_content m,
         pj_metadata = Some (no_metadata
           \<lparr>pm_hiddenFromModel := (if meta em_eligibleForModelContext m = Some False then Some True else None),
            pm_hiddenFromTranscript := (if meta em_visibleInTranscript m = Some False then Some True else None),
            pm_compacted := (if truthy (meta em_compactedAt m) then Some True else None)\<rparr>)\<rparr>) ms,
      pr_hiddenMessageIds = [], pr_truncatedMessageIds = [], pr_appliedCompactBoundaryId = None,
      pr_injectedNotes = []\<rparr>"

definition projectToCompact :: "engine_message list \<Rightarrow> projection_context \<Rightarrow> projection_result" where
  "projectToCompact ms ctx =
     (let r = projectToModel ms (ctx\<lparr>pc_injectRuntimeReminder := Some False\<rparr>)
      in r\<lparr>pr_messages := map (\<lambda>m. m\<lparr>pj_view := ViewCompact\<rparr>) (pr_messages r)\<rparr>)"

subsection \<open>Sources of the projected messages\<close>

lemma sources_merge_step:
  "concat (map pj_sourceMessageIds (merge_step merged m)) =
     concat (map pj_sourceMessageIds merged) @ pj_sourceMessageIds m"
  by (cases merged rule: rev_cases) (simp_all add: merge_step_def)

lemma sources_foldl_merge:
  "concat (map pj_sourceMessageIds (foldl merge_step acc ms)) =
     concat (map pj_sourceMessageIds acc) @ concat (map pj_sourceMessageIds ms)"
  by (induction ms arbitrary: acc) (simp_all add: sources_merge_step)

lemma project_one_source: "fst (project_one ctx m) = Some p \<Longrightarrow> pj_sourceMessageIds p = [eng_id m]"
  unfolding project_one_def buildModelMessage_def
  by (cases "truncate_result m ctx (clear_compacted m)") (auto split: if_splits)

lemma sources_map_filter:
  "concat (map pj_sourceMessageIds (List.map_filter (\<lambda>m. fst (project_one ctx m)) ms)) =
     map eng_id (filter (\<lambda>m. fst (project_one ctx m) \<noteq> None) ms)"
  by (induction ms) (auto simp: List.map_filter_simps project_one_source split: option.split)

text \<open>
  C34: The model projection accounts for every selected message exactly once and in order: the
  source ids of the projected messages are the ids of the selected messages that are eligible and
  not left out by kind, and the diagnostics list the ids of all the others.
\<close>

theorem model_projection_accounts_for_all:
  "concat (map pj_sourceMessageIds (pr_messages (projectToModel ms ctx))) =
     map eng_id (filter (\<lambda>m. fst (project_one ctx m) \<noteq> None) (fst (model_selection ms ctx))) \<and>
   pr_hiddenMessageIds (projectToModel ms ctx) =
     map eng_id (filter (\<lambda>m. fst (project_one ctx m) = None) (fst (model_selection ms ctx)))"
  by (simp add: projectToModel_def mergeAdjacentPureToolCallModelMessages_def split_def Let_def
      sources_foldl_merge sources_map_filter runtimeReminder_def)

subsection \<open>Merging tool calls\<close>

definition pure_call :: "projected_message \<Rightarrow> bool" where
  "pure_call m \<longleftrightarrow> pj_role m = RoleAssistant \<and> isPureToolCallContent (pj_content m)"

definition no_adjacent_calls :: "projected_message list \<Rightarrow> bool" where
  "no_adjacent_calls ms \<longleftrightarrow> successively (\<lambda>a b. \<not> (pure_call a \<and> pure_call b)) ms"

lemma pure_content_parts: "isPureToolCallContent c \<Longrightarrow> c = ContentParts (content_parts c)"
  by (cases c) auto

lemma pure_append:
  "isPureToolCallContent c \<Longrightarrow> isPureToolCallContent d \<Longrightarrow>
     isPureToolCallContent (ContentParts (content_parts c @ content_parts d)) \<and>
     contentToolCallIds (ContentParts (content_parts c @ content_parts d)) =
       contentToolCallIds c @ contentToolCallIds d"
  by (cases c; cases d) auto

lemma merge_step_cases:
  "(\<exists>pre l. merged = pre @ [l] \<and> pure_call l \<and> pure_call m \<and>
      (\<exists>l'. merge_step merged m = pre @ [l'] \<and> pure_call l' \<and>
         contentToolCallIds (pj_content l') = contentToolCallIds (pj_content l) @ contentToolCallIds (pj_content m))) \<or>
   (merge_step merged m = merged @ [m] \<and> (merged = [] \<or> \<not> (pure_call (last merged) \<and> pure_call m)))"
proof (cases "merged \<noteq> [] \<and> pure_call (last merged) \<and> pure_call m")
  case True
  define l where "l = last merged"
  define l' where "l' = l\<lparr>pj_content := ContentParts (content_parts (pj_content l) @ content_parts (pj_content m)),
                pj_sourceMessageIds := pj_sourceMessageIds l @ pj_sourceMessageIds m\<rparr>"
  have pl: "pure_call l" and pm: "pure_call m" using True by (auto simp: l_def)
  have "merged = butlast merged @ [l]" using True by (simp add: l_def)
  moreover have "merge_step merged m = butlast merged @ [l']"
    using True by (simp add: merge_step_def pure_call_def l'_def l_def)
  moreover have "pure_call l'" "contentToolCallIds (pj_content l') =
      contentToolCallIds (pj_content l) @ contentToolCallIds (pj_content m)"
    using pure_append [of "pj_content l" "pj_content m"] pl pm by (auto simp: pure_call_def l'_def)
  ultimately show ?thesis using pl pm by blast
next
  case False
  then show ?thesis by (auto simp: merge_step_def pure_call_def)
qed

lemma no_adjacent_merge_step: "no_adjacent_calls merged \<Longrightarrow> no_adjacent_calls (merge_step merged m)"
  using merge_step_cases [of merged m]
  by (auto simp: no_adjacent_calls_def successively_append_iff)

lemma calls_merge_step:
  "concat (map (\<lambda>p. contentToolCallIds (pj_content p)) (merge_step merged m)) =
     concat (map (\<lambda>p. contentToolCallIds (pj_content p)) merged) @ contentToolCallIds (pj_content m)"
  using merge_step_cases [of merged m] by auto

lemma merge_foldl:
  "no_adjacent_calls acc \<Longrightarrow> no_adjacent_calls (foldl merge_step acc ms) \<and>
     concat (map (\<lambda>p. contentToolCallIds (pj_content p)) (foldl merge_step acc ms)) =
     concat (map (\<lambda>p. contentToolCallIds (pj_content p)) acc) @
     concat (map (\<lambda>p. contentToolCallIds (pj_content p)) ms)"
  by (induction ms arbitrary: acc) (simp_all add: no_adjacent_merge_step calls_merge_step)

text \<open>
  The messages sent to the model never hold two assistant messages in a row that are tool
  calls only (providers refuse them): such runs are merged into one, which keeps every tool call
  of the projected messages, in order.
\<close>

theorem model_projection_merges_tool_calls:
  "no_adjacent_calls (pr_messages (projectToModel ms ctx)) \<and>
   concat (map (\<lambda>p. contentToolCallIds (pj_content p)) (pr_messages (projectToModel ms ctx))) =
     concat (map (\<lambda>p. contentToolCallIds (pj_content p))
       (List.map_filter (\<lambda>m. fst (project_one ctx m)) (fst (model_selection ms ctx))))"
proof -
  define projected where
    "projected = List.map_filter (\<lambda>m. fst (project_one ctx m)) (fst (model_selection ms ctx))"
  have "no_adjacent_calls []" by (simp add: no_adjacent_calls_def)
  note merged = merge_foldl [OF this, of projected]
  have reminder: "\<not> pure_call runtimeReminder" "contentToolCallIds (pj_content runtimeReminder) = []"
    by (simp_all add: pure_call_def runtimeReminder_def)
  have "pr_messages (projectToModel ms ctx) =
      foldl merge_step [] projected @ (if pc_injectRuntimeReminder ctx = Some True then [runtimeReminder] else [])"
    by (simp add: projectToModel_def mergeAdjacentPureToolCallModelMessages_def split_def Let_def projected_def)
  with merged reminder show ?thesis
    by (simp add: no_adjacent_calls_def successively_append_iff projected_def [symmetric])
qed

subsection \<open>Hoisting memory notes\<close>

lemma split_leading_filter:
  "split_leading b ms = (lead, rest) \<Longrightarrow>
     lead @ rest = filter (\<lambda>m. \<not> isTransientMemoryContextNote m) ms \<and>
     (\<forall>m\<in>set lead. eng_role m = RoleSystem) \<and> (b \<longrightarrow> rest = [] \<or> eng_role (hd rest) \<noteq> RoleSystem) \<and>
     (\<not> b \<longrightarrow> lead = [])"
proof (induction ms arbitrary: b lead rest)
  case (Cons m ms)
  consider "isTransientMemoryContextNote m" | "\<not> isTransientMemoryContextNote m" "b" "eng_role m = RoleSystem"
    | "\<not> isTransientMemoryContextNote m" "\<not> (b \<and> eng_role m = RoleSystem)" by blast
  then show ?case
  proof cases
    case 1
    with Cons.prems have "split_leading b ms = (lead, rest)" by simp
    from Cons.IH [OF this] 1 show ?thesis by simp
  next
    case 2
    with Cons.prems obtain lead' where "split_leading b ms = (lead', rest)" "lead = m # lead'"
      by (cases "split_leading b ms") auto
    with Cons.IH [of b lead' rest] 2 show ?thesis by simp
  next
    case 3
    with Cons.prems obtain rest' where "split_leading False ms = (lead, rest')" "rest = m # rest'"
      by (cases "split_leading False ms") auto
    with Cons.IH [of False lead rest'] 3 show ?thesis by auto
  qed
qed simp

text \<open>
  Hoisting keeps every message, keeps the memory notes in order and the other messages in
  order, and puts the notes right after the leading block of system messages.
\<close>

theorem hoist_places_memory_notes:
  "\<exists>leading remaining.
     hoistTransientMemoryContextNotes ms = leading @ filter isTransientMemoryContextNote ms @ remaining \<and>
     leading @ remaining = filter (\<lambda>m. \<not> isTransientMemoryContextNote m) ms \<and>
     (\<forall>m\<in>set leading. eng_role m = RoleSystem) \<and>
     (remaining = [] \<or> eng_role (hd remaining) \<noteq> RoleSystem)"
proof -
  obtain lead rest where s: "split_leading True ms = (lead, rest)" by fastforce
  note split = split_leading_filter [OF s]
  have "hoistTransientMemoryContextNotes ms = lead @ filter isTransientMemoryContextNote ms @ rest"
  proof (cases "filter isTransientMemoryContextNote ms = []")
    case True
    then have "filter (\<lambda>m. \<not> isTransientMemoryContextNote m) ms = ms"
      by (simp add: filter_empty_conv filter_id_conv)
    with True split show ?thesis by (simp add: hoistTransientMemoryContextNotes_def)
  next
    case False
    then show ?thesis by (simp add: hoistTransientMemoryContextNotes_def Let_def s)
  qed
  with split show ?thesis by blast
qed

subsection \<open>Compact boundaries\<close>

lemma find_index_append_absent:
  "\<forall>x\<in>set A. \<not> P x \<Longrightarrow> P t \<Longrightarrow> find_index P (A @ t # B) = Some (length A)"
  by (induction A) auto

lemma latest_boundary:
  assumes "eng_kind b = KCompactBoundary" and "\<forall>m\<in>set C. eng_kind m \<noteq> KCompactBoundary"
  shows "findLatestCompactBoundaryIndex (A @ b # C) = Some (length A)"
proof -
  have "find_index (\<lambda>m. eng_kind m = KCompactBoundary) (rev C @ b # rev A) = Some (length (rev C))"
    by (rule find_index_append_absent) (use assms in auto)
  then show ?thesis by (simp add: findLatestCompactBoundaryIndex_def)
qed

definition summary_list :: "engine_message list \<Rightarrow> engine_message \<Rightarrow> engine_message list" where
  "summary_list ms b = (case findSummaryForBoundary ms (eng_id b) of None \<Rightarrow> [] | Some s \<Rightarrow> [s])"

text \<open>
  When the latest compact boundary \<open>b\<close> names a message \<open>t\<close> before it, the model sees the
  summary of that boundary followed by exactly the messages after \<open>t\<close>, without boundaries and
  without the summary again: nothing up to \<open>t\<close> reaches the model but the summary, and nothing
  after \<open>t\<close> is lost.
\<close>

theorem compact_boundary_window:
  assumes b: "eng_kind b = KCompactBoundary" and last: "\<forall>m\<in>set C. eng_kind m \<noteq> KCompactBoundary"
    and ids: "distinct (map eng_id (A @ t # B @ b # C))"
    and t: "readCompactThroughMessageId b = Some (eng_id t)" "eng_id t \<noteq> []"
  shows "applyLatestCompactBoundary (A @ t # B @ b # C) =
    (summary_list (A @ t # B @ b # C) b @
       filter (\<lambda>m. eng_kind m \<noteq> KCompactBoundary \<and> m \<notin> set (summary_list (A @ t # B @ b # C) b)) (B @ C),
     Some (eng_id b))"
proof -
  define ms where "ms = A @ t # B @ b # C"
  have idx: "findLatestCompactBoundaryIndex ms = Some (length (A @ t # B))"
    using latest_boundary [OF b last, of "A @ t # B"] by (simp add: ms_def)
  have nth: "ms ! length (A @ t # B) = b"
    using nth_append_length [of "A @ t # B" b C] by (simp add: ms_def)
  have through: "find_index (\<lambda>m. Some (eng_id m) = readCompactThroughMessageId b) ms = Some (length A)"
    unfolding ms_def by (rule find_index_append_absent) (use t ids in \<open>auto simp: image_iff\<close>)
  have dropped: "drop (length A + 1) ms = B @ b # C" by (simp add: ms_def)
  have eq: "filter (\<lambda>m. eng_kind m \<noteq> KCompactBoundary \<and>
        Some (eng_id m) \<noteq> map_option eng_id (findSummaryForBoundary ms (eng_id b))) (B @ b # C) =
      filter (\<lambda>m. eng_kind m \<noteq> KCompactBoundary \<and> m \<notin> set (summary_list ms b)) (B @ C)"
  proof (cases "findSummaryForBoundary ms (eng_id b)")
    case None
    then show ?thesis using b by (simp add: summary_list_def)
  next
    case (Some s)
    then have "s \<in> set ms" unfolding findSummaryForBoundary_def by (auto simp: find_Some_iff)
    then have "eng_id m = eng_id s \<longleftrightarrow> m = s" if "m \<in> set ms" for m
      using ids that unfolding ms_def [symmetric] by (auto simp: distinct_map inj_on_def)
    then have "eng_id m = eng_id s \<longleftrightarrow> m = s" if "m \<in> set (B @ C)" for m
      using that by (auto simp: ms_def)
    then have "filter (\<lambda>m. eng_kind m \<noteq> KCompactBoundary \<and> eng_id m \<noteq> eng_id s) (B @ C) =
        filter (\<lambda>m. eng_kind m \<noteq> KCompactBoundary \<and> m \<noteq> s) (B @ C)"
      by (intro filter_cong) auto
    then show ?thesis using b Some by (simp add: summary_list_def)
  qed
  show ?thesis
    using idx nth through dropped eq t
    unfolding ms_def [symmetric]
    by (simp add: applyLatestCompactBoundary_def Let_def summary_list_def split: option.split)
qed

definition projection_example :: "string \<Rightarrow> role \<Rightarrow> engine_kind \<Rightarrow> content \<Rightarrow> engine_message" where
  "projection_example i r k c =
     \<lparr>eng_id = i, eng_sessionId = ''s'', eng_runId = None, eng_role = r, eng_origin = None,
      eng_mode = None, eng_kind = k, eng_content = c, eng_createdAt = ''t'', eng_metadata = None\<rparr>"

definition example_metadata :: engine_metadata where
  "example_metadata = \<lparr>em_runtimeKind = None, em_agentName = None, em_effectiveAgentName = None,
     em_synthetic = None, em_visibleInTranscript = None, em_eligibleForModelContext = None,
     em_compactedAt = None, em_compactBoundaryId = None, em_summaryForBoundaryId = None,
     em_source = None, em_tags = None, em_modelCallStepSeq = None, em_extra = None\<rparr>"

definition boundary_example :: engine_message where
  "boundary_example = (projection_example ''b'' RoleSystem KCompactBoundary (ContentText []))
     \<lparr>eng_metadata := Some (example_metadata\<lparr>em_extra := Some (JObj [(''compactThroughMessageId'', JStr ''t'')])\<rparr>)\<rparr>"

definition summary_example :: engine_message where
  "summary_example = (projection_example ''s'' RoleSystem KCompactSummary (ContentText ''sum''))
     \<lparr>eng_metadata := Some (example_metadata\<lparr>em_summaryForBoundaryId := Some ''b''\<rparr>)\<rparr>"

theorem compact_boundary_window_witness:
  "map eng_id (fst (applyLatestCompactBoundary
     (let u = (\<lambda>i. projection_example i RoleUser KUserInput (ContentText i))
      in [u ''a''] @ u ''t'' # [u ''k''] @ boundary_example # [summary_example, u ''n'']))) = [''s'', ''k'', ''n'']"
proof -
  let ?u = "\<lambda>i. projection_example i RoleUser KUserInput (ContentText i)"
  have "eng_kind boundary_example = KCompactBoundary"
    "\<forall>m\<in>set [summary_example, ?u ''n'']. eng_kind m \<noteq> KCompactBoundary"
    "distinct (map eng_id ([?u ''a''] @ ?u ''t'' # [?u ''k''] @ boundary_example # [summary_example, ?u ''n'']))"
    "readCompactThroughMessageId boundary_example = Some (eng_id (?u ''t''))" "eng_id (?u ''t'') \<noteq> []"
    by code_simp+
  from compact_boundary_window [OF this]
  show ?thesis by (simp only: Let_def) code_simp
qed

definition memory_note_example :: engine_message where
  "memory_note_example = (projection_example ''n'' RoleSystem KSystemNote (ContentText ''memory''))
     \<lparr>eng_metadata := Some (example_metadata\<lparr>em_synthetic := Some True, em_eligibleForModelContext := Some True,
        em_tags := Some [''session-memory'']\<rparr>)\<rparr>"

theorem hoist_places_memory_notes_witness:
  "map eng_id (hoistTransientMemoryContextNotes
     [projection_example ''s'' RoleSystem KSystemNote (ContentText ''s''),
      projection_example ''u'' RoleUser KUserInput (ContentText ''u''), memory_note_example]) = [''s'', ''n'', ''u'']"
proof -
  let ?s = "projection_example ''s'' RoleSystem KSystemNote (ContentText ''s'')"
  let ?u = "projection_example ''u'' RoleUser KUserInput (ContentText ''u'')"
  have memo: "isTransientMemoryContextNote memory_note_example" "\<not> isTransientMemoryContextNote ?s"
    "\<not> isTransientMemoryContextNote ?u" by code_simp+
  have role: "eng_role ?s = RoleSystem" "eng_role ?u = RoleUser" by code_simp+
  obtain l r where h: "hoistTransientMemoryContextNotes [?s, ?u, memory_note_example] = l @ [memory_note_example] @ r"
    "l @ r = [?s, ?u]" "\<forall>m\<in>set l. eng_role m = RoleSystem" "r = [] \<or> eng_role (hd r) \<noteq> RoleSystem"
    using hoist_places_memory_notes [of "[?s, ?u, memory_note_example]"] memo by auto
  have "l = [?s] \<and> r = [?u]"
    using h(2-4) role by (cases l) (auto simp: append_eq_Cons_conv Cons_eq_append_conv)
  then show ?thesis using h(1) by (simp add: projection_example_def memory_note_example_def)
qed

subsection \<open>Tool calls stored twice\<close>

text \<open>
  Removing composite messages drops only assistant messages, and only those that repeat a
  call stored on its own and answered; afterwards an answered call that a message of calls only
  holds is in no composite message. Every tool result stays.
\<close>

theorem duplicate_calls_are_removed:
  "(\<forall>m\<in>set ms. m \<notin> set (removeDuplicateCompositeToolCallMessages ms) \<longrightarrow>
      eng_role m = RoleAssistant \<and> \<not> isPureToolCallMessage m \<and>
      (\<exists>p\<in>set ms. isPureToolCallMessage p \<and>
         set (contentToolCallIds (eng_content p)) \<inter> set (contentToolCallIds (eng_content m)) \<noteq> {})) \<and>
   (\<forall>m\<in>set (removeDuplicateCompositeToolCallMessages ms). \<forall>p\<in>set ms. \<forall>r\<in>set ms. \<forall>i.
      eng_role m = RoleAssistant \<and> i \<in> set (contentToolCallIds (eng_content m)) \<and>
      isPureToolCallMessage p \<and> i \<in> set (contentToolCallIds (eng_content p)) \<and>
      i \<in> set (contentToolResultIds (eng_content r)) \<longrightarrow> isPureToolCallMessage m)"
  (is "?dropped \<and> ?left")
proof -
  define can where "can = concat (map (\<lambda>m. if isPureToolCallMessage m then contentToolCallIds (eng_content m) else []) ms)"
  define res where "res = concat (map (\<lambda>m. contentToolResultIds (eng_content m)) ms)"
  have can: "i \<in> set can \<longleftrightarrow> (\<exists>p\<in>set ms. isPureToolCallMessage p \<and> i \<in> set (contentToolCallIds (eng_content p)))" for i
    by (auto simp: can_def)
  have res: "i \<in> set res \<longleftrightarrow> (\<exists>r\<in>set ms. i \<in> set (contentToolResultIds (eng_content r)))" for i
    by (auto simp: res_def)
  have kept: "m \<in> set (removeDuplicateCompositeToolCallMessages ms) \<longleftrightarrow> m \<in> set ms \<and>
     (isPureToolCallMessage m \<or> eng_role m \<noteq> RoleAssistant \<or>
      (\<forall>i\<in>set (contentToolCallIds (eng_content m)). i \<in> set can \<longrightarrow> i \<notin> set res))" for m
    unfolding removeDuplicateCompositeToolCallMessages_def Let_def can_def [symmetric] res_def [symmetric]
    by (cases "eng_content m") (auto simp: list_ex_iff)
  have ?dropped unfolding kept can by blast
  moreover have ?left
  proof (intro ballI allI impI, elim conjE)
    fix m p r i
    assume "m \<in> set (removeDuplicateCompositeToolCallMessages ms)" "p \<in> set ms" "r \<in> set ms"
      "eng_role m = RoleAssistant" "i \<in> set (contentToolCallIds (eng_content m))"
      "isPureToolCallMessage p" "i \<in> set (contentToolCallIds (eng_content p))"
      "i \<in> set (contentToolResultIds (eng_content r))"
    moreover from this have "i \<in> set can" "i \<in> set res" unfolding can res by blast+
    ultimately show "isPureToolCallMessage m" unfolding kept by blast
  qed
  ultimately show ?thesis by blast
qed

theorem duplicate_calls_are_removed_witness:
  "map eng_id (removeDuplicateCompositeToolCallMessages
     [projection_example ''m1'' RoleAssistant KAssistantText (ContentParts [TextPart ''x'' None, ToolCallPart ''c'' ''Read'' JNull None None]),
      projection_example ''m2'' RoleAssistant KToolCall (ContentParts [ToolCallPart ''c'' ''Read'' JNull None None]),
      projection_example ''m3'' RoleTool KToolResult (ContentParts [ToolResultPart ''c'' ''Read'' (OutText ''r'' None) None])])
   = [''m2'', ''m3'']"
proof -
  let ?ms = "[projection_example ''m1'' RoleAssistant KAssistantText (ContentParts [TextPart ''x'' None, ToolCallPart ''c'' ''Read'' JNull None None]),
      projection_example ''m2'' RoleAssistant KToolCall (ContentParts [ToolCallPart ''c'' ''Read'' JNull None None]),
      projection_example ''m3'' RoleTool KToolResult (ContentParts [ToolResultPart ''c'' ''Read'' (OutText ''r'' None) None])]"
  have "isPureToolCallMessage (?ms ! 0) = False" "eng_role (?ms ! 0) = RoleAssistant"
    "''c'' \<in> set (contentToolCallIds (eng_content (?ms ! 0)))" "isPureToolCallMessage (?ms ! 1)"
    "''c'' \<in> set (contentToolCallIds (eng_content (?ms ! 1)))" "''c'' \<in> set (contentToolResultIds (eng_content (?ms ! 2)))"
    by code_simp+
  moreover have "?ms ! 1 \<in> set ?ms" "?ms ! 2 \<in> set ?ms" by simp_all
  ultimately have "?ms ! 0 \<notin> set (removeDuplicateCompositeToolCallMessages ?ms)"
    using duplicate_calls_are_removed [of ?ms] by blast
  moreover have "map eng_id (removeDuplicateCompositeToolCallMessages ?ms) = [''m2'', ''m3'']" by code_simp
  ultimately show ?thesis by simp
qed

text \<open>
  A composite message is dropped whole as soon as one of its calls is repeated: a call of it that
  is stored nowhere else goes with it, although its result stays.
\<close>

lemma composite_drop_orphans_result:
  "\<exists>ms. (''d'' \<in> set (concat (map (\<lambda>m. contentToolCallIds (eng_content m)) ms))) \<and>
     ''d'' \<notin> set (concat (map (\<lambda>m. contentToolCallIds (eng_content m)) (removeDuplicateCompositeToolCallMessages ms))) \<and>
     ''d'' \<in> set (concat (map (\<lambda>m. contentToolResultIds (eng_content m)) (removeDuplicateCompositeToolCallMessages ms)))"
  by (rule exI [of _ "let call = (\<lambda>i. ToolCallPart i ''Read'' JNull None None);
        result = (\<lambda>i. ToolResultPart i ''Read'' (OutText ''r'' None) None) in
      [projection_example ''m1'' RoleAssistant KAssistantText (ContentParts [call ''c'', call ''d'', TextPart ''x'' None]),
       projection_example ''m2'' RoleAssistant KToolCall (ContentParts [call ''c'']),
       projection_example ''m3'' RoleTool KToolResult (ContentParts [result ''c'', result ''d''])]"]) code_simp

subsection \<open>Truncated results\<close>

text \<open>
  With a soft limit, no text of a tool result that reaches the model is longer than the limit
  and the three dots, the notice for cleared results apart; every truncated text is a prefix of the
  stored one.
\<close>

theorem tool_result_soft_limit:
  assumes limit: "pc_toolResultSoftLimitChars ctx = Some n" "n > 0"
    and kind: "eng_kind m = KToolResult" and out: "buildModelMessage m ctx = (Some p, trunc)"
    and found: "find_result (pj_content p) = Some (i, tool, result)" "text_output result = Some v"
  shows "(length v \<le> nat n + 3 \<or> v = ''[Old tool result content cleared]'') \<and>
         (trunc \<or> pj_content p = eng_content m)"
proof -
  obtain c md tr where cl: "clear_compacted m = (c, md, tr)" by (cases "clear_compacted m")
  have tr: "truncate_result m ctx (c, md, tr) = (pj_content p, pj_metadata p, trunc)"
    using out cl kind
    by (auto simp: buildModelMessage_def split: if_splits prod.splits)
  have cleared: "tr \<Longrightarrow> \<exists>i tool. c = toolResultContent i tool ''[Old tool result content cleared]''"
    and kept: "\<not> tr \<Longrightarrow> c = eng_content m"
    using cl by (auto simp: clear_compacted_def split: if_splits option.splits)
  have "length v \<le> nat n + 3 \<or> v = ''[Old tool result content cleared]''"
  proof (cases tr)
    case True
    with tr have "pj_content p = c" by (simp add: truncate_result_def)
    with cleared [OF True] found show ?thesis by (auto simp: toolResultContent_def)
  next
    case False
    have "pj_content p = fst (truncate_result m ctx (c, md, tr))" using tr by simp
    then show ?thesis
      using False limit kind found
      by (auto simp: truncate_result_def toolResultContent_def Let_def split: if_splits option.splits prod.splits)
  qed
  moreover have "trunc \<or> pj_content p = eng_content m"
    using tr kept cleared
    by (cases tr) (auto simp: truncate_result_def Let_def split: if_splits option.splits prod.splits)
  ultimately show ?thesis by blast
qed

definition context_example :: projection_context where
  "context_example = \<lparr>pc_sessionId = ''s'', pc_activeAgentName = ''build'', pc_modelRef = None,
     pc_provider = None, pc_includeReasoning = None, pc_includeToolResults = None,
     pc_toolResultSoftLimitChars = Some 4, pc_applyCompactBoundary = None,
     pc_injectRuntimeReminder = None\<rparr>"

definition truncation_example :: engine_message where
  "truncation_example = projection_example ''m'' RoleTool KToolResult (toolResultContent ''c'' ''Read'' ''long output'')"

definition truncated_example :: projected_message where
  "truncated_example = the (fst (buildModelMessage truncation_example context_example))"

theorem tool_result_soft_limit_witness:
  "find_result (pj_content truncated_example) = Some (''c'', ''Read'', OutText ''long...'' None) \<and>
   length ''long...'' \<le> 7"
proof -
  have c: "pc_toolResultSoftLimitChars context_example = Some 4" "(4::int) > 0"
    "eng_kind truncation_example = KToolResult"
    by code_simp+
  have "fst (buildModelMessage truncation_example context_example) \<noteq> None"
    "snd (buildModelMessage truncation_example context_example)" by code_simp+
  then have out: "buildModelMessage truncation_example context_example = (Some truncated_example, True)"
    unfolding truncated_example_def by (cases "buildModelMessage truncation_example context_example") auto
  have found: "find_result (pj_content truncated_example) = Some (''c'', ''Read'', OutText ''long...'' None)"
    "text_output (OutText ''long...'' None) = Some ''long...''" by code_simp+
  have "length ''long...'' \<le> nat 4 + 3 \<or> ''long...'' = ''[Old tool result content cleared]''"
    using tool_result_soft_limit [OF c out found] by blast
  with found show ?thesis by simp
qed

end
