(* ===== verification/Memory_Repos.thy ===== *)
theory Memory_Repos
  imports Contracts
begin

text \<open>
  The in-memory repositories of \<open>packages/storage-memory/src/index.ts\<close> for workspaces,
  sessions, messages, engine messages, runs, run steps, agent tasks and their notifications.
  The state of each is its private \<open>Map\<close> (two of them for messages and steps), in insertion
  order. A method that throws gives \<^const>\<open>Inl\<close> and leaves the state; values are copied, so the
  sharing of stored objects with the caller is not modelled. Cursors of pages are those of
  \<open>packages/engine-core/src/utils.ts\<close>.
\<close>

definition parseCursor :: "string option \<Rightarrow> nat" where
  "parseCursor cursor =
     (if \<not> truthy cursor then 0
      else case js_parseInt (the cursor) of None \<Rightarrow> 0 | Some n \<Rightarrow> if n \<ge> 0 then nat n else 0)"

definition page_of :: "string option \<Rightarrow> nat \<Rightarrow> 'a list \<Rightarrow> 'a list" where
  "page_of cursor pageSize xs =
     (let startIndex = parseCursor cursor in js_slice startIndex (startIndex + pageSize) xs)"

definition not_found :: "string \<Rightarrow> app_error" where
  "not_found code = AppError 404 code"

subsection \<open>Workspaces\<close>

type_synonym workspace_repo = "(string, workspace_record) jmap"

definition wsr_create :: "workspace_record \<Rightarrow> workspace_repo \<Rightarrow> workspace_record \<times> workspace_repo" where
  "wsr_create inp m = (inp, AList.update (ws_id inp) inp m)"

definition wsr_upsert :: "workspace_record \<Rightarrow> workspace_repo \<Rightarrow> workspace_record \<times> workspace_repo" where
  "wsr_upsert inp m = (inp, AList.update (ws_id inp) inp m)"

definition wsr_getById :: "string \<Rightarrow> workspace_repo \<Rightarrow> workspace_record option" where
  "wsr_getById i m = map_of m i"

definition wsr_cmp :: "workspace_record \<Rightarrow> workspace_record \<Rightarrow> int" where
  "wsr_cmp left right =
     js_or (localeCompare (ws_updatedAt right) (ws_updatedAt left))
       (localeCompare (ws_createdAt right) (ws_createdAt left))"

definition wsr_list :: "nat \<Rightarrow> string option \<Rightarrow> workspace_repo \<Rightarrow> workspace_record list" where
  "wsr_list pageSize cursor m = page_of cursor pageSize (js_sort wsr_cmp (jmap_values m))"

subsection \<open>Sessions\<close>

type_synonym session_repo = "(string, session) jmap"

definition ssr_create :: "session \<Rightarrow> session_repo \<Rightarrow> session \<times> session_repo" where
  "ssr_create inp m = (inp, AList.update (session_id inp) inp m)"

definition ssr_getById :: "string \<Rightarrow> session_repo \<Rightarrow> session option" where
  "ssr_getById i m = map_of m i"

definition ssr_update :: "session \<Rightarrow> (session_repo, session) act" where
  "ssr_update inp m =
     (if map_of m (session_id inp) = None then act_throw (not_found ''session_not_found'') m
      else act_return inp (AList.update (session_id inp) inp m))"

definition ssr_cmp :: "session \<Rightarrow> session \<Rightarrow> int" where
  "ssr_cmp left right =
     js_or (localeCompare (session_updatedAt right) (session_updatedAt left))
       (localeCompare (session_createdAt right) (session_createdAt left))"

definition ssr_listByWorkspaceId :: "string \<Rightarrow> nat \<Rightarrow> string option \<Rightarrow> session_repo \<Rightarrow> session list" where
  "ssr_listByWorkspaceId wid pageSize cursor m =
     page_of cursor pageSize
       (js_sort ssr_cmp (filter (\<lambda>s. session_workspaceId s = wid) (jmap_values m)))"

definition ssr_listChildrenByParentSessionId :: "string \<Rightarrow> nat \<Rightarrow> string option \<Rightarrow> session_repo \<Rightarrow> session list" where
  "ssr_listChildrenByParentSessionId pid pageSize cursor m =
     page_of cursor pageSize
       (js_sort ssr_cmp (filter (\<lambda>s. session_parentSessionId s = Some pid) (jmap_values m)))"

subsection \<open>Messages\<close>

record message_repo =
  mr_items :: "(string, message) jmap"
  mr_sessionMessageIds :: "(string, string list) jmap"

definition compareMessages :: "string \<times> string \<Rightarrow> string \<times> string \<Rightarrow> int" where
  "compareMessages left right =
     js_or (localeCompare (fst left) (fst right)) (localeCompare (snd left) (snd right))"

definition message_key :: "message \<Rightarrow> string \<times> string" where
  "message_key m = (msg_createdAt m, msg_id m)"

definition message_cmp :: "message \<Rightarrow> message \<Rightarrow> int" where
  "message_cmp left right = compareMessages (message_key left) (message_key right)"

definition listSortedSessionMessages :: "string \<Rightarrow> message_repo \<Rightarrow> message list" where
  "listSortedSessionMessages sid r =
     js_sort message_cmp
       (List.map_filter (map_of (mr_items r)) (or_else (map_of (mr_sessionMessageIds r) sid) []))"

definition mr_create :: "message \<Rightarrow> message_repo \<Rightarrow> message \<times> message_repo" where
  "mr_create inp r =
     (let existing = or_else (map_of (mr_sessionMessageIds r) (msg_sessionId inp)) []
      in (inp, r\<lparr>mr_items := AList.update (msg_id inp) inp (mr_items r),
                 mr_sessionMessageIds :=
                   AList.update (msg_sessionId inp) (existing @ [msg_id inp]) (mr_sessionMessageIds r)\<rparr>))"

definition mr_getById :: "string \<Rightarrow> message_repo \<Rightarrow> message option" where
  "mr_getById i r = map_of (mr_items r) i"

definition mr_update :: "message \<Rightarrow> (message_repo, message) act" where
  "mr_update inp r =
     (if map_of (mr_items r) (msg_id inp) = None then act_throw (not_found ''message_not_found'') r
      else act_return inp (r\<lparr>mr_items := AList.update (msg_id inp) inp (mr_items r)\<rparr>))"

definition mr_listBySessionId :: "string \<Rightarrow> message_repo \<Rightarrow> message list" where
  "mr_listBySessionId sid r = listSortedSessionMessages sid r"

text \<open>
  A page cursor is the base64url encoding of a JSON object with the two strings
  \<open>createdAt\<close> and \<open>id\<close>. Decoding bytes and parsing JSON are Node's
  (\<open>decode\<close>: \<^const>\<open>None\<close> when they throw); the checks are the code's.
\<close>

definition parseMessagePageCursor :: "(string \<Rightarrow> json option) \<Rightarrow> string option \<Rightarrow> (string \<times> string) option js_result" where
  "parseMessagePageCursor decode cursor =
     (if \<not> truthy cursor then Inr None
      else case decode (the cursor) of
        None \<Rightarrow> Inl (AppError 400 ''invalid_cursor'')
      | Some parsed \<Rightarrow>
          (case (json_field ''createdAt'' parsed, json_field ''id'' parsed) of
             (Some (JStr c), Some (JStr i)) \<Rightarrow>
               if c = [] \<or> i = [] then Inl (AppError 400 ''invalid_cursor'') else Inr (Some (c, i))
           | _ \<Rightarrow> Inl (AppError 400 ''invalid_cursor'')))"

datatype page_direction = Forward | Backward

record message_page =
  page_items :: "message list"
  page_hasMore :: bool
  page_totalCount :: nat

definition message_page_at :: "page_direction \<Rightarrow> nat \<Rightarrow> (string \<times> string) option \<Rightarrow> message list \<Rightarrow> message_page" where
  "message_page_at direction pageSize cursor items =
     (let filtered =
            (case cursor of
               None \<Rightarrow> items
             | Some c \<Rightarrow> filter (\<lambda>m. let comparison = compareMessages (message_key m) c in
                   if direction = Backward then comparison < 0 else comparison > 0) items)
      in if direction = Backward then
           let page = drop (length filtered - (pageSize + 1)) filtered;
               hasMore = length page > pageSize
           in \<lparr>page_items = (if hasMore then drop 1 page else page),
               page_hasMore = hasMore, page_totalCount = length items\<rparr>
         else
           let page = take (pageSize + 1) filtered;
               hasMore = length page > pageSize
           in \<lparr>page_items = (if hasMore then take pageSize page else page),
               page_hasMore = hasMore, page_totalCount = length items\<rparr>)"

definition mr_listPageBySessionId ::
    "(string \<Rightarrow> json option) \<Rightarrow> string \<Rightarrow> nat \<Rightarrow> string option \<Rightarrow> page_direction option \<Rightarrow>
     message_repo \<Rightarrow> message_page js_result" where
  "mr_listPageBySessionId decode sid pageSize cursor direction r =
     (let items = listSortedSessionMessages sid r
      in case parseMessagePageCursor decode cursor of
           Inl e \<Rightarrow> Inl e
         | Inr c \<Rightarrow> Inr (message_page_at (or_else direction Forward) pageSize c items))"

definition mr_deleteBySessionId :: "string \<Rightarrow> message_repo \<Rightarrow> message_repo" where
  "mr_deleteBySessionId sid r =
     (let messageIds = or_else (map_of (mr_sessionMessageIds r) sid) []
      in r\<lparr>mr_items := fold AList.delete messageIds (mr_items r),
           mr_sessionMessageIds := AList.delete sid (mr_sessionMessageIds r)\<rparr>)"

definition mr_deleteBySessionIds :: "string list \<Rightarrow> message_repo \<Rightarrow> message_repo" where
  "mr_deleteBySessionIds sids r = fold mr_deleteBySessionId sids r"

subsection \<open>Engine messages\<close>

type_synonym engine_message_repo = "(string, engine_message list) jmap"

definition emr_replaceBySessionId :: "string \<Rightarrow> engine_message list \<Rightarrow> engine_message_repo \<Rightarrow> engine_message_repo" where
  "emr_replaceBySessionId sid msgs m = AList.update sid msgs m"

definition emr_listBySessionId :: "string \<Rightarrow> engine_message_repo \<Rightarrow> engine_message list" where
  "emr_listBySessionId sid m = or_else (map_of m sid) []"

definition emr_deleteBySessionIds :: "string list \<Rightarrow> engine_message_repo \<Rightarrow> engine_message_repo" where
  "emr_deleteBySessionIds sids m = fold AList.delete sids m"

subsection \<open>Runs\<close>

type_synonym run_repo = "(string, run) jmap"

definition rr_create :: "run \<Rightarrow> run_repo \<Rightarrow> run \<times> run_repo" where
  "rr_create inp m = (inp, AList.update (run_id inp) inp m)"

definition rr_getById :: "string \<Rightarrow> run_repo \<Rightarrow> run option" where
  "rr_getById i m = map_of m i"

definition rr_update :: "run \<Rightarrow> (run_repo, run) act" where
  "rr_update inp m =
     (if map_of m (run_id inp) = None then act_throw (not_found ''run_not_found'') m
      else act_return inp (AList.update (run_id inp) inp m))"

definition rr_cmp :: "run \<Rightarrow> run \<Rightarrow> int" where
  "rr_cmp left right =
     js_or (localeCompare (run_createdAt right) (run_createdAt left))
       (localeCompare (run_id right) (run_id left))"

definition rr_listBySessionId :: "string \<Rightarrow> run_repo \<Rightarrow> run list" where
  "rr_listBySessionId sid m =
     js_sort rr_cmp (filter (\<lambda>r. run_sessionId r = Some sid) (jmap_values m))"

definition rr_listPageBySessionId :: "string \<Rightarrow> nat \<Rightarrow> string option \<Rightarrow> run_repo \<Rightarrow> run list" where
  "rr_listPageBySessionId sid pageSize cursor m = page_of cursor pageSize (rr_listBySessionId sid m)"

definition rr_hasActiveRunForSession :: "string \<Rightarrow> string list \<Rightarrow> run_repo \<Rightarrow> bool" where
  "rr_hasActiveRunForSession sid excludedRunIds m \<longleftrightarrow>
     list_ex (\<lambda>r. run_sessionId r = Some sid \<and>
        (run_status r = Queued \<or> run_status r = Running \<or> run_status r = WaitingTool) \<and>
        run_id r \<notin> set excludedRunIds \<and> \<not> truthy (run_cancelRequestedAt r)) (jmap_values m)"

text \<open>The operator \<open><=\<close> on strings compares code units.\<close>

definition js_string_le :: "string \<Rightarrow> string \<Rightarrow> bool" where
  "js_string_le a b \<longleftrightarrow> lex_compare (map of_char a) (map of_char b) \<le> 0"

definition rr_candidateTimestamp :: "run \<Rightarrow> string" where
  "rr_candidateTimestamp r = or_else (or_opt (run_heartbeatAt r) (run_startedAt r)) (run_createdAt r)"

definition rr_listRecoverableActiveRuns :: "string \<Rightarrow> int \<Rightarrow> run_repo \<Rightarrow> run list" where
  "rr_listRecoverableActiveRuns staleBefore limit m =
     take (nat (max 1 limit))
       (js_sort (\<lambda>left right. localeCompare (rr_candidateTimestamp left) (rr_candidateTimestamp right))
         (filter (\<lambda>r. (run_status r = Running \<or> run_status r = WaitingTool) \<and>
            js_string_le (rr_candidateTimestamp r) staleBefore) (jmap_values m)))"

definition rr_deleteBySessionIds :: "string list \<Rightarrow> run_repo \<Rightarrow> string list \<times> run_repo" where
  "rr_deleteBySessionIds sids m =
     (let doomed = (\<lambda>r. truthy (run_sessionId r) \<and> the (run_sessionId r) \<in> set sids)
      in (map fst (filter (\<lambda>p. doomed (snd p)) m), filter (\<lambda>p. \<not> doomed (snd p)) m))"

definition rr_deleteByWorkspaceId :: "string \<Rightarrow> run_repo \<Rightarrow> string list \<times> run_repo" where
  "rr_deleteByWorkspaceId wid m =
     (map fst (filter (\<lambda>p. run_workspaceId (snd p) = wid) m),
      filter (\<lambda>p. run_workspaceId (snd p) \<noteq> wid) m)"

subsection \<open>Run steps\<close>

record step_repo =
  sr_items :: "(string, run_step) jmap"
  sr_runStepIds :: "(string, string list) jmap"

definition sr_create :: "run_step \<Rightarrow> step_repo \<Rightarrow> run_step \<times> step_repo" where
  "sr_create inp r =
     (let existing = or_else (map_of (sr_runStepIds r) (step_runId inp)) []
      in (inp, r\<lparr>sr_items := AList.update (step_id inp) inp (sr_items r),
                 sr_runStepIds := AList.update (step_runId inp) (existing @ [step_id inp]) (sr_runStepIds r)\<rparr>))"

definition sr_update :: "run_step \<Rightarrow> (step_repo, run_step) act" where
  "sr_update inp r =
     (if map_of (sr_items r) (step_id inp) = None then act_throw (not_found ''run_step_not_found'') r
      else act_return inp (r\<lparr>sr_items := AList.update (step_id inp) inp (sr_items r)\<rparr>))"

definition sr_listByRunId :: "string \<Rightarrow> step_repo \<Rightarrow> run_step list" where
  "sr_listByRunId runId r =
     List.map_filter (map_of (sr_items r)) (or_else (map_of (sr_runStepIds r) runId) [])"

definition sr_listPageByRunId :: "string \<Rightarrow> nat \<Rightarrow> string option \<Rightarrow> step_repo \<Rightarrow> run_step list" where
  "sr_listPageByRunId runId pageSize cursor r = page_of cursor pageSize (sr_listByRunId runId r)"

definition sr_deleteByRunId :: "string \<Rightarrow> step_repo \<Rightarrow> step_repo" where
  "sr_deleteByRunId runId r =
     (let stepIds = or_else (map_of (sr_runStepIds r) runId) []
      in r\<lparr>sr_items := fold AList.delete stepIds (sr_items r),
           sr_runStepIds := AList.delete runId (sr_runStepIds r)\<rparr>)"

definition sr_deleteByRunIds :: "string list \<Rightarrow> step_repo \<Rightarrow> step_repo" where
  "sr_deleteByRunIds runIds r = fold sr_deleteByRunId runIds r"

subsection \<open>Agent tasks and notifications\<close>

type_synonym task_repo = "(string, agent_task) jmap"

record task_update =
  tu_taskId :: string
  tu_status :: task_status
  tu_updatedAt :: string
  tu_toolUseId :: "string option"
  tu_outputRef :: "string option"
  tu_outputFile :: "string option"
  tu_finalText :: "string option"
  tu_errorMessage :: "string option"
  tu_usage :: "json option"
  tu_taskState :: "json option"
  tu_notifiedAt :: "string option"

definition tr_upsert :: "agent_task \<Rightarrow> task_repo \<Rightarrow> agent_task \<times> task_repo" where
  "tr_upsert inp m = (inp, AList.update (task_taskId inp) inp m)"

definition tr_getByTaskId :: "string \<Rightarrow> task_repo \<Rightarrow> agent_task option" where
  "tr_getByTaskId i m = map_of m i"

definition tr_merge :: "agent_task \<Rightarrow> task_update \<Rightarrow> agent_task" where
  "tr_merge t u =
     t\<lparr>task_status := tu_status u,
       task_updatedAt := tu_updatedAt u,
       task_toolUseId := or_opt (tu_toolUseId u) (task_toolUseId t),
       task_outputRef := or_else (tu_outputRef u) (task_outputRef t),
       task_outputFile := or_opt (tu_outputFile u) (task_outputFile t),
       task_finalText := or_opt (tu_finalText u) (task_finalText t),
       task_errorMessage := or_opt (tu_errorMessage u) (task_errorMessage t),
       task_usage := or_opt (tu_usage u) (task_usage t),
       task_taskState := or_opt (tu_taskState u) (task_taskState t),
       task_notifiedAt := or_opt (tu_notifiedAt u) (task_notifiedAt t)\<rparr>"

definition tr_update :: "task_update \<Rightarrow> (task_repo, agent_task) act" where
  "tr_update u m =
     (case map_of m (tu_taskId u) of
        None \<Rightarrow> act_throw (not_found ''agent_task_not_found'') m
      | Some t \<Rightarrow> let next = tr_merge t u in act_return next (AList.update (tu_taskId u) next m))"

definition tr_deleteByWorkspaceId :: "string \<Rightarrow> task_repo \<Rightarrow> task_repo" where
  "tr_deleteByWorkspaceId wid m = filter (\<lambda>p. task_workspaceId (snd p) \<noteq> wid) m"

definition tr_deleteBySessionIds :: "string list \<Rightarrow> task_repo \<Rightarrow> task_repo" where
  "tr_deleteBySessionIds sids m =
     filter (\<lambda>p. \<not> (task_parentSessionId (snd p) \<in> set sids \<or> task_childSessionId (snd p) \<in> set sids)) m"

type_synonym notification_repo = "(string, task_notification) jmap"

definition nr_create :: "task_notification \<Rightarrow> notification_repo \<Rightarrow> task_notification \<times> notification_repo" where
  "nr_create inp m = (inp, AList.update (note_id inp) inp m)"

definition nr_cmp :: "task_notification \<Rightarrow> task_notification \<Rightarrow> int" where
  "nr_cmp left right =
     js_or (localeCompare (note_createdAt left) (note_createdAt right))
       (localeCompare (note_id left) (note_id right))"

definition nr_listPendingBySessionId :: "string \<Rightarrow> notification_repo \<Rightarrow> task_notification list" where
  "nr_listPendingBySessionId sid m =
     js_sort nr_cmp
       (filter (\<lambda>n. note_parentSessionId n = sid \<and> note_status n = NotePending) (jmap_values m))"

definition nr_markConsumed :: "string list \<Rightarrow> string \<Rightarrow> notification_repo \<Rightarrow> notification_repo" where
  "nr_markConsumed ids consumedAt m =
     fold (\<lambda>i m. case map_of m i of None \<Rightarrow> m
        | Some n \<Rightarrow> AList.update i (n\<lparr>note_status := NoteConsumed, note_consumedAt := Some consumedAt\<rparr>) m) ids m"

definition nr_deleteByWorkspaceId :: "string \<Rightarrow> notification_repo \<Rightarrow> notification_repo" where
  "nr_deleteByWorkspaceId wid m = filter (\<lambda>p. note_workspaceId (snd p) \<noteq> wid) m"

definition nr_deleteBySessionIds :: "string list \<Rightarrow> notification_repo \<Rightarrow> notification_repo" where
  "nr_deleteBySessionIds sids m =
     filter (\<lambda>p. \<not> (note_parentSessionId (snd p) \<in> set sids \<or> note_childSessionId (snd p) \<in> set sids)) m"

end
