(* ===== verification/Event_Store.thy ===== *)
theory Event_Store
  imports Contracts
begin

text \<open>
  \<open>InMemorySessionEventStore\<close> of \<open>packages/storage-memory/src/index.ts\<close>: the events of
  each session with their cursors, the listeners of each session and the next cursor of each
  session. A listener is a number; \<open>append\<close> also gives the listeners it called, in order.
  The fresh id and the time of an append are arguments.
\<close>

record event_store =
  es_events :: "(string, session_event list) jmap"
  es_listeners :: "(string, nat list) jmap"
  es_next :: "(string, nat) jmap"

definition es_empty :: event_store where
  "es_empty = \<lparr>es_events = [], es_listeners = [], es_next = []\<rparr>"

definition es_append :: "string \<Rightarrow> string \<Rightarrow> event_input \<Rightarrow> event_store \<Rightarrow> session_event \<times> nat list \<times> event_store" where
  "es_append newId now inp st =
     (let sid = evi_sessionId inp;
          currentEvents = or_else (map_of (es_events st) sid) [];
          nextCursor = or_else (map_of (es_next st) sid) 0;
          event = event_input.extend inp
            \<lparr>ev_id = newId, ev_cursor = js_show nextCursor, ev_createdAt = now\<rparr>;
          st' = st\<lparr>es_events := AList.update sid (currentEvents @ [event]) (es_events st),
                   es_next := AList.update sid (nextCursor + 1) (es_next st)\<rparr>
      in (event, or_else (map_of (es_listeners st) sid) [], st'))"

definition es_normalizedCursor :: "string option \<Rightarrow> int" where
  "es_normalizedCursor cursor =
     (let parsed = (if truthy cursor then js_parseInt (the cursor) else Some (-1))
      in case parsed of Some c \<Rightarrow> if c \<ge> -1 then c else -1 | None \<Rightarrow> -1)"

definition es_listSince :: "string \<Rightarrow> string option \<Rightarrow> string option \<Rightarrow> int option \<Rightarrow> event_store \<Rightarrow> session_event list" where
  "es_listSince sid cursor runId limit st =
     (let normalizedCursor = es_normalizedCursor cursor;
          events = or_else (map_of (es_events st) sid) [];
          filtered = filter (\<lambda>e.
            (case js_parseInt (ev_cursor e) of None \<Rightarrow> False | Some c \<Rightarrow> c > normalizedCursor) \<and>
            (\<not> truthy runId \<or> evi_runId e = runId)) events
      in case limit of None \<Rightarrow> filtered | Some n \<Rightarrow> take (nat (max 1 n)) filtered)"

fun es_deleteById_in :: "string \<Rightarrow> (string, session_event list) jmap \<Rightarrow> (string, session_event list) jmap" where
  "es_deleteById_in eventId [] = []"
| "es_deleteById_in eventId ((sid, events) # rest) =
     (let nextEvents = filter (\<lambda>e. ev_id e \<noteq> eventId) events in
      if length nextEvents \<noteq> length events then (sid, nextEvents) # rest
      else (sid, events) # es_deleteById_in eventId rest)"

definition es_deleteById :: "string \<Rightarrow> event_store \<Rightarrow> event_store" where
  "es_deleteById eventId st = st\<lparr>es_events := es_deleteById_in eventId (es_events st)\<rparr>"

definition es_subscribe :: "string \<Rightarrow> nat \<Rightarrow> event_store \<Rightarrow> event_store" where
  "es_subscribe sid l st =
     (let ls = or_else (map_of (es_listeners st) sid) [];
          ls' = (if l \<in> set ls then ls else ls @ [l])
      in st\<lparr>es_listeners := AList.update sid ls' (es_listeners st)\<rparr>)"

definition es_unsubscribe :: "string \<Rightarrow> nat \<Rightarrow> event_store \<Rightarrow> event_store" where
  "es_unsubscribe sid l st =
     (case map_of (es_listeners st) sid of
        None \<Rightarrow> st
      | Some current \<Rightarrow>
          let ls' = removeAll l current in
          st\<lparr>es_listeners := (if ls' = [] then AList.delete sid (es_listeners st)
                              else AList.update sid ls' (es_listeners st))\<rparr>)"

definition es_deleteBySessionIds :: "string list \<Rightarrow> event_store \<Rightarrow> event_store" where
  "es_deleteBySessionIds sids st =
     st\<lparr>es_events := fold AList.delete sids (es_events st),
        es_listeners := fold AList.delete sids (es_listeners st),
        es_next := fold AList.delete sids (es_next st)\<rparr>"

subsection \<open>The invariant\<close>

text \<open>
  The cursors of a session's events are printed numbers, strictly increasing and below the
  next one.
\<close>

definition es_log :: "event_store \<Rightarrow> string \<Rightarrow> session_event list" where
  "es_log st sid = or_else (map_of (es_events st) sid) []"

definition es_bound :: "event_store \<Rightarrow> string \<Rightarrow> nat" where
  "es_bound st sid = or_else (map_of (es_next st) sid) 0"

definition es_cursor :: "session_event \<Rightarrow> int" where
  "es_cursor e = or_else (js_parseInt (ev_cursor e)) (-1)"

definition es_wf :: "event_store \<Rightarrow> bool" where
  "es_wf st \<longleftrightarrow> jmap_wf (es_events st) \<and>
     (\<forall>sid. sorted_wrt (\<lambda>a b. es_cursor a < es_cursor b) (es_log st sid) \<and>
       (\<forall>e\<in>set (es_log st sid).
          \<exists>n < es_bound st sid. ev_cursor e = js_show n \<and> evi_sessionId e = sid))"

lemma es_wf_empty: "es_wf es_empty"
  by (simp add: es_wf_def es_empty_def es_log_def)

lemma es_append_log:
  "es_log (snd (snd (es_append i t inp st))) sid =
     (if sid = evi_sessionId inp then es_log st sid @ [fst (es_append i t inp st)] else es_log st sid)"
  "es_bound (snd (snd (es_append i t inp st))) sid =
     (if sid = evi_sessionId inp then Suc (es_bound st sid) else es_bound st sid)"
  by (auto simp: es_append_def Let_def es_log_def es_bound_def jmap_simps)

lemma es_append_event:
  "ev_cursor (fst (es_append i t inp st)) = js_show (es_bound st (evi_sessionId inp))"
  "evi_sessionId (fst (es_append i t inp st)) = evi_sessionId inp"
  "ev_id (fst (es_append i t inp st)) = i"
  by (simp_all add: es_append_def Let_def es_bound_def event_input.extend_def)

lemma es_cursor_shown: "ev_cursor e = js_show n \<Longrightarrow> es_cursor e = int n"
  by (simp add: es_cursor_def)

lemma es_wf_append:
  assumes "es_wf st" shows "es_wf (snd (snd (es_append i t inp st)))"
proof -
  let ?st' = "snd (snd (es_append i t inp st))"
  let ?e = "fst (es_append i t inp st)"
  have ok: "sorted_wrt (\<lambda>a b. es_cursor a < es_cursor b) (es_log ?st' sid) \<and>
      (\<forall>e\<in>set (es_log ?st' sid). \<exists>n < es_bound ?st' sid. ev_cursor e = js_show n \<and> evi_sessionId e = sid)" for sid
  proof (cases "sid = evi_sessionId inp")
    case True
    have old: "\<forall>e\<in>set (es_log st sid). \<exists>n < es_bound st sid. ev_cursor e = js_show n \<and> evi_sessionId e = sid"
      using assms by (simp add: es_wf_def)
    then have "\<forall>e\<in>set (es_log st sid). es_cursor e < es_cursor ?e"
      using True by (auto simp: es_cursor_shown es_append_event es_cursor_shown [OF es_append_event(1)])
    moreover have "\<exists>n < Suc (es_bound st sid). ev_cursor ?e = js_show n \<and> evi_sessionId ?e = sid"
      using True by (auto simp: es_append_event)
    moreover have "\<forall>e\<in>set (es_log st sid). \<exists>n < Suc (es_bound st sid). ev_cursor e = js_show n \<and> evi_sessionId e = sid"
      using old less_SucI by blast
    ultimately show ?thesis
      using True assms by (simp add: es_append_log sorted_wrt_append es_wf_def)
  next
    case False
    with assms show ?thesis by (simp add: es_append_log es_wf_def)
  qed
  have "jmap_wf (es_events ?st')" using assms by (simp add: es_append_def Let_def es_wf_def)
  with ok show ?thesis unfolding es_wf_def by blast
qed

lemma es_log_cursor: "es_wf st \<Longrightarrow> e \<in> set (es_log st sid) \<Longrightarrow> js_parseInt (ev_cursor e) = Some (es_cursor e) \<and> 0 \<le> es_cursor e"
  unfolding es_wf_def using es_cursor_shown by fastforce

lemma es_deleteById_in_log:
  "jmap_wf m \<Longrightarrow> map_of (es_deleteById_in i m) sid = map_of m sid \<or>
     map_of (es_deleteById_in i m) sid = map_option (filter (\<lambda>e. ev_id e \<noteq> i)) (map_of m sid)"
proof (induction m)
  case (Cons a m)
  have "jmap_wf m" using Cons.prems by (simp add: jmap_wf_def)
  from Cons.IH [OF this] show ?case by (cases a) (auto simp: Let_def)
qed simp

lemma es_deleteById_in_keys [simp]: "map fst (es_deleteById_in i m) = map fst m"
  by (induction i m rule: es_deleteById_in.induct) (auto simp: Let_def)

lemma es_wf_shrink:
  assumes wf: "es_wf st" and "jmap_wf (es_events st')"
    and "\<And>sid. es_log st' sid = [] \<or>
      (\<exists>P. es_log st' sid = filter P (es_log st sid)) \<and> es_bound st' sid = es_bound st sid"
  shows "es_wf st'"
proof -
  have "sorted_wrt (\<lambda>a b. es_cursor a < es_cursor b) (es_log st' sid) \<and>
      (\<forall>e\<in>set (es_log st' sid). \<exists>n < es_bound st' sid. ev_cursor e = js_show n \<and> evi_sessionId e = sid)" for sid
    using assms(3) [of sid]
  proof (elim disjE conjE exE)
    fix P assume "es_log st' sid = filter P (es_log st sid)" "es_bound st' sid = es_bound st sid"
    then show ?thesis using wf by (auto simp: es_wf_def sorted_wrt_filter)
  qed simp
  with assms(2) show ?thesis unfolding es_wf_def by blast
qed

lemma es_wf_deleteById: assumes "es_wf st" shows "es_wf (es_deleteById i st)"
proof (rule es_wf_shrink [OF assms])
  have jwf: "jmap_wf (es_events st)" using assms by (simp add: es_wf_def)
  then show "jmap_wf (es_events (es_deleteById i st))" by (simp add: es_deleteById_def jmap_wf_def)
  fix sid
  have "es_bound (es_deleteById i st) sid = es_bound st sid" by (simp add: es_deleteById_def es_bound_def)
  moreover have "\<exists>P. es_log (es_deleteById i st) sid = filter P (es_log st sid)"
    using es_deleteById_in_log [OF jwf, of i sid]
  proof
    assume "map_of (es_deleteById_in i (es_events st)) sid = map_of (es_events st) sid"
    then have "es_log (es_deleteById i st) sid = filter (\<lambda>_. True) (es_log st sid)"
      by (simp add: es_log_def es_deleteById_def)
    then show ?thesis by blast
  next
    assume "map_of (es_deleteById_in i (es_events st)) sid =
      map_option (filter (\<lambda>e. ev_id e \<noteq> i)) (map_of (es_events st) sid)"
    then have "es_log (es_deleteById i st) sid = filter (\<lambda>e. ev_id e \<noteq> i) (es_log st sid)"
      by (cases "map_of (es_events st) sid") (simp_all add: es_log_def es_deleteById_def)
    then show ?thesis by blast
  qed
  ultimately show "es_log (es_deleteById i st) sid = [] \<or>
      (\<exists>P. es_log (es_deleteById i st) sid = filter P (es_log st sid)) \<and>
      es_bound (es_deleteById i st) sid = es_bound st sid" by blast
qed

lemma es_deleteBySessionIds_log:
  "es_log (es_deleteBySessionIds sids st) sid = (if sid \<in> set sids then [] else es_log st sid)"
  "es_bound (es_deleteBySessionIds sids st) sid = (if sid \<in> set sids then 0 else es_bound st sid)"
  by (simp_all add: es_deleteBySessionIds_def es_log_def es_bound_def jmap_get_delete_all)

lemma es_wf_deleteBySessionIds: assumes "es_wf st" shows "es_wf (es_deleteBySessionIds sids st)"
proof (rule es_wf_shrink [OF assms])
  show "jmap_wf (es_events (es_deleteBySessionIds sids st))"
    using assms by (simp add: es_deleteBySessionIds_def es_wf_def)
  fix sid
  have "es_log st sid = filter (\<lambda>_. True) (es_log st sid)" by simp
  then show "es_log (es_deleteBySessionIds sids st) sid = [] \<or>
      (\<exists>P. es_log (es_deleteBySessionIds sids st) sid = filter P (es_log st sid)) \<and>
      es_bound (es_deleteBySessionIds sids st) sid = es_bound st sid"
    unfolding es_deleteBySessionIds_log by (cases "sid \<in> set sids") (auto intro: exI [of _ "\<lambda>_. True"])
qed

subsection \<open>Sequences of operations\<close>

datatype es_op =
    EsAppend string string event_input
  | EsDeleteById string
  | EsDeleteSessions "string list"
  | EsSubscribe string nat
  | EsUnsubscribe string nat

fun es_step :: "es_op \<Rightarrow> event_store \<Rightarrow> event_store" where
  "es_step (EsAppend i t inp) st = snd (snd (es_append i t inp st))"
| "es_step (EsDeleteById i) st = es_deleteById i st"
| "es_step (EsDeleteSessions sids) st = es_deleteBySessionIds sids st"
| "es_step (EsSubscribe sid l) st = es_subscribe sid l st"
| "es_step (EsUnsubscribe sid l) st = es_unsubscribe sid l st"

lemma es_wf_step: "es_wf st \<Longrightarrow> es_wf (es_step x st)"
proof (cases x)
  case (EsSubscribe sid l)
  assume "es_wf st"
  then show ?thesis
    by (simp add: EsSubscribe es_subscribe_def Let_def es_wf_def es_log_def es_bound_def)
next
  case (EsUnsubscribe sid l)
  assume "es_wf st"
  then show ?thesis
    by (simp add: EsUnsubscribe es_unsubscribe_def Let_def es_wf_def es_log_def es_bound_def split: option.split)
qed (auto intro: es_wf_append es_wf_deleteById es_wf_deleteBySessionIds)

lemma es_wf_run: "es_wf st \<Longrightarrow> es_wf (fold es_step xs st)"
  by (induction xs arbitrary: st) (auto intro: es_wf_step)

text \<open>Reading from a cursor gives the suffix after the event that has it.\<close>

lemma es_filter_suffix:
  assumes "sorted_wrt (\<lambda>a b. es_cursor a < es_cursor b) (A @ e # B)"
  shows "filter (\<lambda>x. es_cursor x > es_cursor e) (A @ e # B) = B"
proof -
  have "\<forall>a\<in>set A. es_cursor a < es_cursor e" "\<forall>b\<in>set B. es_cursor e < es_cursor b"
    using assms by (auto simp: sorted_wrt_append)
  then show ?thesis by (auto simp: filter_empty_conv filter_id_conv)
qed

text \<open>
  C32: A client that reconnects with the cursor of the last event it saw misses nothing and sees
  nothing twice: after any sequence of appends, deletions and (un)subscriptions,
  \<open>listSince\<close> with the cursor of an event of the session gives the events appended after it,
  all of them, in order, cut at the read limit when there is one.
\<close>

theorem list_since_resumes_after_cursor:
  assumes "es_log (fold es_step xs es_empty) sid = A @ e # B"
  shows "es_listSince sid (Some (ev_cursor e)) None limit (fold es_step xs es_empty) =
           (case limit of None \<Rightarrow> B | Some n \<Rightarrow> take (nat (max 1 n)) B)"
proof -
  let ?st = "fold es_step xs es_empty"
  have wf: "es_wf ?st" by (rule es_wf_run [OF es_wf_empty])
  have cur: "js_parseInt (ev_cursor x) = Some (es_cursor x) \<and> 0 \<le> es_cursor x" if "x \<in> set (A @ e # B)" for x
    using es_log_cursor [OF wf, of x sid] that assms by simp
  obtain n where "ev_cursor e = js_show n"
    using wf assms by (auto simp: es_wf_def) (metis Un_iff list.set_intros(1) set_append)
  then have "es_normalizedCursor (Some (ev_cursor e)) = es_cursor e"
    using cur [of e] by (simp add: es_normalizedCursor_def)
  moreover have "filter (\<lambda>x. (case js_parseInt (ev_cursor x) of None \<Rightarrow> False | Some c \<Rightarrow> c > es_cursor e) \<and>
        (\<not> truthy None \<or> evi_runId x = None)) (A @ e # B) = B" (is "filter ?P _ = _")
  proof -
    have "filter ?P (A @ e # B) = filter (\<lambda>x. es_cursor x > es_cursor e) (A @ e # B)"
      using cur by (intro filter_cong) auto
    also have "\<dots> = B" using wf assms by (intro es_filter_suffix) (metis es_wf_def)
    finally show ?thesis .
  qed
  ultimately show ?thesis
    using assms unfolding es_listSince_def Let_def es_log_def by (simp only:)
qed

definition es_example_input :: event_input where
  "es_example_input = \<lparr>evi_sessionId = ''s'', evi_runId = None, evi_event = EvRunQueued, evi_data = JNull\<rparr>"

definition es_example_ops :: "es_op list" where
  "es_example_ops =
     [EsAppend ''a'' ''t'' es_example_input, EsAppend ''b'' ''t'' es_example_input,
      EsDeleteById ''a'', EsAppend ''c'' ''t'' es_example_input]"

theorem list_since_resumes_after_cursor_witness:
  "map ev_id (es_listSince ''s'' (Some ''1'') None None (fold es_step es_example_ops es_empty)) = [''c'']"
proof -
  have log: "es_log (fold es_step es_example_ops es_empty) ''s'' =
    [] @ event_input.extend es_example_input \<lparr>ev_id = ''b'', ev_cursor = ''1'', ev_createdAt = ''t''\<rparr> #
      [event_input.extend es_example_input \<lparr>ev_id = ''c'', ev_cursor = ''2'', ev_createdAt = ''t''\<rparr>]"
    by code_simp
  from list_since_resumes_after_cursor [OF this, of None]
  show ?thesis by (simp add: event_input.extend_def es_example_input_def)
qed

end
