(* ===== verification/Pending_Queue.thy ===== *)
theory Pending_Queue
  imports Contracts
begin

text \<open>
  The queue of runs waiting for their session, \<open>InMemorySessionPendingRunQueueRepository\<close> of
  \<open>packages/storage-memory/src/index.ts\<close>. The state is the private map from a session to its
  entries. The contract \<open>SessionPendingRunQueueRepository\<close> of
  \<open>packages/engine-core/src/types/storage.ts\<close> is the locale \<open>pending_run_queue\<close>: an
  abstract list of run ids per session. Its interpretation \<open>pq\<close> shows that the map with
  integer positions implements those lists.
\<close>

type_synonym pending_queue = "(string, pending_entry list) jmap"

subsection \<open>The contract\<close>

locale pending_run_queue =
  fixes order :: "'s \<Rightarrow> string \<Rightarrow> string list"
    and wf :: "'s \<Rightarrow> bool"
    and enq :: "string \<Rightarrow> string \<Rightarrow> string \<Rightarrow> 's \<Rightarrow> 's"
    and prom :: "string \<Rightarrow> 's \<Rightarrow> 's"
    and deq :: "string \<Rightarrow> 's \<Rightarrow> string option \<times> 's"
    and rem :: "string \<Rightarrow> 's \<Rightarrow> 's"
  assumes wf_enq: "wf q \<Longrightarrow> wf (enq sid r t q)"
    and wf_prom: "wf q \<Longrightarrow> wf (prom r q)"
    and wf_deq: "wf q \<Longrightarrow> wf (snd (deq sid q))"
    and wf_rem: "wf q \<Longrightarrow> wf (rem r q)"
    and order_distinct: "wf q \<Longrightarrow> distinct (order q sid)"
    and order_disjoint: "wf q \<Longrightarrow> r \<in> set (order q sid) \<Longrightarrow> r \<in> set (order q sid') \<Longrightarrow> sid = sid'"
    and order_enq: "wf q \<Longrightarrow> \<forall>s. r \<notin> set (order q s) \<Longrightarrow>
          order (enq sid r t q) = (order q)(sid := order q sid @ [r])"
    and order_enq_dup: "wf q \<Longrightarrow> r \<in> set (order q s) \<Longrightarrow> order (enq sid r t q) = order q"
    and order_prom: "wf q \<Longrightarrow> r \<in> set (order q sid) \<Longrightarrow>
          order (prom r q) = (order q)(sid := r # remove1 r (order q sid))"
    and order_prom_absent: "wf q \<Longrightarrow> \<forall>s. r \<notin> set (order q s) \<Longrightarrow> order (prom r q) = order q"
    and deq_empty: "wf q \<Longrightarrow> order q sid = [] \<Longrightarrow> fst (deq sid q) = None \<and> order (snd (deq sid q)) = order q"
    and deq_some: "wf q \<Longrightarrow> order q sid = r # rs \<Longrightarrow>
          fst (deq sid q) = Some r \<and> order (snd (deq sid q)) = (order q)(sid := rs)"
    and order_rem: "wf q \<Longrightarrow> order (rem r q) = (\<lambda>s. remove1 r (order q s))"
begin

text \<open>A promoted run is the next one its session takes.\<close>

lemma promote_then_dequeue:
  assumes "wf q" and "r \<in> set (order q sid)"
  shows "fst (deq sid (prom r q)) = Some r"
    and "order (snd (deq sid (prom r q))) = (order q)(sid := remove1 r (order q sid))"
proof -
  have "order (prom r q) sid = r # remove1 r (order q sid)"
    using order_prom [OF assms] by simp
  from deq_some [OF wf_prom [OF assms(1)] this] order_prom [OF assms]
  show "fst (deq sid (prom r q)) = Some r"
    and "order (snd (deq sid (prom r q))) = (order q)(sid := remove1 r (order q sid))"
    by simp_all
qed

lemma enqueue_mem:
  assumes "wf q" shows "\<exists>s. r \<in> set (order (enq sid r t q) s)"
proof (cases "\<exists>s. r \<in> set (order q s)")
  case True
  with assms show ?thesis using order_enq_dup by metis
next
  case False
  with assms have "order (enq sid r t q) = (order q)(sid := order q sid @ [r])"
    using order_enq by blast
  then show ?thesis by (intro exI [of _ sid]) simp
qed

text \<open>Enqueueing the same run twice is enqueueing it once.\<close>

lemma enqueue_twice:
  assumes "wf q"
  shows "order (enq sid' r t' (enq sid r t q)) = order (enq sid r t q)"
  using enqueue_mem [OF assms, of r sid t] order_enq_dup [OF wf_enq [OF assms]] by metis

text \<open>Taking runs until the session has none gives them in queue order.\<close>

fun drain :: "nat \<Rightarrow> string \<Rightarrow> 's \<Rightarrow> string list \<times> 's" where
  "drain 0 sid q = ([], q)"
| "drain (Suc n) sid q =
     (case deq sid q of (None, q') \<Rightarrow> ([], q')
      | (Some r, q') \<Rightarrow> (let (rs, q'') = drain n sid q' in (r # rs, q'')))"

lemma drain_order: "wf q \<Longrightarrow> fst (drain n sid q) = take n (order q sid)"
proof (induction n arbitrary: q)
  case (Suc n)
  show ?case
  proof (cases "order q sid")
    case Nil
    then show ?thesis
      using deq_empty [OF Suc.prems Nil] by (auto split: prod.splits option.splits)
  next
    case (Cons r rs)
    obtain q' where q': "deq sid q = (Some r, q')" and o: "order q' sid = rs"
      using deq_some [OF Suc.prems Cons] by (cases "deq sid q") auto
    moreover have "wf q'" using wf_deq [OF Suc.prems, of sid] q' by simp
    ultimately show ?thesis
      using Suc.IH [of q'] Cons by (cases "drain n sid q'") simp
  qed
qed simp

end

subsection \<open>The in-memory repository\<close>

definition pq_position_cmp :: "pending_entry \<Rightarrow> pending_entry \<Rightarrow> int" where
  "pq_position_cmp left right = pend_position left - pend_position right"

fun pq_getByRunId :: "string \<Rightarrow> pending_queue \<Rightarrow> pending_entry option" where
  "pq_getByRunId r [] = None"
| "pq_getByRunId r ((sid, items) # q) =
     (case find (\<lambda>c. pend_runId c = r) items of Some e \<Rightarrow> Some e | None \<Rightarrow> pq_getByRunId r q)"

definition pq_enqueue :: "string \<Rightarrow> string \<Rightarrow> string \<Rightarrow> pending_queue \<Rightarrow> pending_entry \<times> pending_queue" where
  "pq_enqueue sid r createdAt q =
     (case pq_getByRunId r q of
        Some e \<Rightarrow> (e, q)
      | None \<Rightarrow>
          let items = or_else (map_of q sid) [];
              position = (if items = [] then 0 else pend_position (last items));
              entry = \<lparr>pend_sessionId = sid, pend_runId = r, pend_position = position + 1,
                       pend_createdAt = createdAt\<rparr>
          in (entry, AList.update sid (items @ [entry]) q))"

definition pq_listBySessionId :: "string \<Rightarrow> pending_queue \<Rightarrow> pending_entry list" where
  "pq_listBySessionId sid q = js_sort pq_position_cmp (or_else (map_of q sid) [])"

fun update_first :: "('a \<Rightarrow> bool) \<Rightarrow> ('a \<Rightarrow> 'a) \<Rightarrow> 'a list \<Rightarrow> 'a list" where
  "update_first P f [] = []"
| "update_first P f (x # xs) = (if P x then f x # xs else x # update_first P f xs)"

definition pq_promote :: "string \<Rightarrow> pending_queue \<Rightarrow> pending_queue" where
  "pq_promote r q =
     (case pq_getByRunId r q of
        None \<Rightarrow> q
      | Some entry \<Rightarrow>
          (case map_of q (pend_sessionId entry) of
             None \<Rightarrow> q
           | Some items \<Rightarrow>
               let minPosition =
                     foldl (\<lambda>lowest c. min lowest (pend_position c)) (pend_position entry) items;
                   items' =
                     update_first (\<lambda>c. pend_runId c = r)
                       (\<lambda>c. c\<lparr>pend_position := minPosition - 1\<rparr>) items
               in AList.update (pend_sessionId entry) (js_sort pq_position_cmp items') q))"

definition pq_dequeueNext :: "string \<Rightarrow> pending_queue \<Rightarrow> pending_entry option \<times> pending_queue" where
  "pq_dequeueNext sid q =
     (case or_else (map_of q sid) [] of
        [] \<Rightarrow> (None, q)
      | items \<Rightarrow>
          (case js_sort pq_position_cmp items of
             [] \<Rightarrow> (None, q)
           | e # rest \<Rightarrow>
               (Some e, if rest = [] then AList.delete sid q else AList.update sid rest q)))"

fun pq_remove_in :: "string \<Rightarrow> pending_queue \<Rightarrow> pending_queue \<Rightarrow> pending_queue" where
  "pq_remove_in r [] q = q"
| "pq_remove_in r ((sid, items) # rest) q =
     (let nextItems = filter (\<lambda>c. pend_runId c \<noteq> r) items in
      if length nextItems = length items then pq_remove_in r rest q
      else if nextItems = [] then AList.delete sid q
      else AList.update sid nextItems q)"

definition pq_remove :: "string \<Rightarrow> pending_queue \<Rightarrow> pending_queue" where
  "pq_remove r q = pq_remove_in r q q"

definition pq_deleteBySessionIds :: "string list \<Rightarrow> pending_queue \<Rightarrow> pending_queue" where
  "pq_deleteBySessionIds sids q = fold AList.delete sids q"

subsection \<open>The invariant\<close>

text \<open>
  A session's entries are stored in increasing order of position, belong to that session and to
  different runs, and no run waits in two sessions.
\<close>

definition pq_items :: "pending_queue \<Rightarrow> string \<Rightarrow> pending_entry list" where
  "pq_items q sid = or_else (map_of q sid) []"

definition pq_runs :: "pending_queue \<Rightarrow> string \<Rightarrow> string list" where
  "pq_runs q sid = map pend_runId (pq_items q sid)"

definition pq_items_ok :: "string \<Rightarrow> pending_entry list \<Rightarrow> bool" where
  "pq_items_ok sid items \<longleftrightarrow>
     sorted_wrt (\<lambda>a b. pend_position a < pend_position b) items \<and>
     (\<forall>e\<in>set items. pend_sessionId e = sid) \<and> distinct (map pend_runId items)"

definition pq_wf :: "pending_queue \<Rightarrow> bool" where
  "pq_wf q \<longleftrightarrow> jmap_wf q \<and> (\<forall>sid. pq_items_ok sid (pq_items q sid)) \<and>
     (\<forall>s s' r. r \<in> set (pq_runs q s) \<longrightarrow> r \<in> set (pq_runs q s') \<longrightarrow> s = s')"

definition pq_order :: "pending_queue \<Rightarrow> string \<Rightarrow> string list" where
  "pq_order q sid = map pend_runId (pq_listBySessionId sid q)"

lemma pq_items_simps [simp]:
  "pq_items [] sid = []"
  "pq_items ((k, xs) # q) = (pq_items q)(k := xs)"
  "pq_items (AList.update k xs q) = (pq_items q)(k := xs)"
  "pq_items (AList.delete k q) = (pq_items q)(k := [])"
  by (auto simp: pq_items_def fun_eq_iff jmap_simps)

lemma pq_runs_upd: "pq_items q' = (pq_items q)(k := xs) \<Longrightarrow> pq_runs q' = (pq_runs q)(k := map pend_runId xs)"
  by (auto simp: pq_runs_def fun_eq_iff)

lemma pq_runs_simps [simp]:
  "pq_runs [] sid = []"
  "pq_runs ((k, xs) # q) = (pq_runs q)(k := map pend_runId xs)"
  by (auto simp: pq_runs_def fun_eq_iff)

lemma pq_sort_id: "pq_items_ok sid items \<Longrightarrow> js_sort pq_position_cmp items = items"
  by (rule js_sort_id)
    (auto simp: pq_items_ok_def pq_position_cmp_def elim: sorted_wrt_mono_rel [rotated])

lemma pq_wf_items: "pq_wf q \<Longrightarrow> pq_items_ok sid (pq_items q sid)"
  by (simp add: pq_wf_def)

lemma pq_wf_unique:
  "pq_wf q \<Longrightarrow> r \<in> set (pq_runs q s) \<Longrightarrow> r \<in> set (pq_runs q s') \<Longrightarrow> s = s'"
  unfolding pq_wf_def by blast

lemma pq_order_runs: "pq_wf q \<Longrightarrow> pq_order q = pq_runs q"
  using pq_sort_id [OF pq_wf_items]
  by (simp add: fun_eq_iff pq_order_def pq_listBySessionId_def pq_items_def pq_runs_def)

lemma pq_wf_empty: "pq_wf []"
  by (simp add: pq_wf_def pq_items_ok_def)

text \<open>
  Storing a checked list for one session keeps the invariant when its runs wait nowhere else.
\<close>

lemma pq_wf_store:
  assumes wf: "pq_wf q" and "jmap_wf q'" and items: "pq_items q' = (pq_items q)(sid := xs)"
    and "pq_items_ok sid xs"
    and fresh: "\<And>r s. r \<in> pend_runId ` set xs \<Longrightarrow> s \<noteq> sid \<Longrightarrow> r \<notin> set (pq_runs q s)"
  shows "pq_wf q'"
proof -
  have runs: "pq_runs q' = (pq_runs q)(sid := map pend_runId xs)"
    by (rule pq_runs_upd [OF items])
  have "s = s'" if rs: "r \<in> set (pq_runs q' s)" "r \<in> set (pq_runs q' s')" for r s s'
  proof (rule ccontr)
    assume ne: "s \<noteq> s'"
    consider "s = sid" "s' \<noteq> sid" | "s \<noteq> sid" "s' = sid" | "s \<noteq> sid" "s' \<noteq> sid"
      using ne by blast
    then show False
    proof cases
      case 1
      with rs fresh [of r s'] show False by (simp add: runs)
    next
      case 2
      with rs fresh [of r s] show False by (simp add: runs)
    next
      case 3
      with rs ne pq_wf_unique [OF wf, of r s s'] show False by (simp add: runs)
    qed
  qed
  moreover have "pq_items_ok s (pq_items q' s)" for s
    using assms(4) pq_wf_items [OF wf, of s] by (simp add: items)
  ultimately show ?thesis using assms(2) unfolding pq_wf_def by blast
qed

lemma pq_getByRunId_None:
  "jmap_wf q \<Longrightarrow> pq_getByRunId r q = None \<longleftrightarrow> (\<forall>s. r \<notin> set (pq_runs q s))"
proof (induction q)
  case (Cons a q)
  obtain sid items where a: "a = (sid, items)" by (cases a)
  have empty: "pq_runs q sid = []" and wf: "jmap_wf q"
    using Cons.prems by (auto simp: jmap_wf_def a pq_runs_def pq_items_def map_of_eq_None_iff [THEN iffD2])
  have f: "find (\<lambda>c. pend_runId c = r) items = None \<longleftrightarrow> r \<notin> pend_runId ` set items"
    by (auto simp: find_None_iff)
  have "(\<forall>s. r \<notin> set (pq_runs (a # q) s)) \<longleftrightarrow>
      r \<notin> pend_runId ` set items \<and> (\<forall>s. r \<notin> set (pq_runs q s))"
    using empty by (auto simp: a)
  moreover have "pq_getByRunId r (a # q) = None \<longleftrightarrow>
      find (\<lambda>c. pend_runId c = r) items = None \<and> pq_getByRunId r q = None"
    by (simp add: a split: option.splits)
  ultimately show ?case using f Cons.IH [OF wf] by blast
qed simp

lemma pq_getByRunId_Some:
  "jmap_wf q \<Longrightarrow> pq_getByRunId r q = Some e \<Longrightarrow>
     \<exists>sid. find (\<lambda>c. pend_runId c = r) (pq_items q sid) = Some e"
proof (induction q)
  case (Cons a q)
  obtain sid items where a: "a = (sid, items)" by (cases a)
  have empty: "pq_items q sid = []" and wf: "jmap_wf q"
    using Cons.prems(1) by (auto simp: jmap_wf_def a pq_items_def map_of_eq_None_iff [THEN iffD2])
  show ?case
  proof (cases "find (\<lambda>c. pend_runId c = r) items")
    case None
    with Cons.prems(2) obtain s where s: "find (\<lambda>c. pend_runId c = r) (pq_items q s) = Some e"
      using Cons.IH [OF wf] by (auto simp: a)
    then have "s \<noteq> sid" using empty by auto
    with s show ?thesis by (intro exI [of _ s]) (simp add: a)
  next
    case (Some e')
    with Cons.prems(2) show ?thesis by (intro exI [of _ sid]) (simp add: a)
  qed
qed simp

text \<open>The entry found for a run, with the session's list split around it.\<close>

lemma pq_lookup:
  assumes "pq_wf q" and "pq_getByRunId r q = Some e"
  obtains A B where "pq_items q (pend_sessionId e) = A @ e # B" and "pend_runId e = r"
    and "\<forall>a\<in>set A. pend_runId a \<noteq> r" and "\<forall>b\<in>set B. pend_runId b \<noteq> r"
    and "map_of q (pend_sessionId e) = Some (A @ e # B)"
proof -
  obtain sid where "find (\<lambda>c. pend_runId c = r) (pq_items q sid) = Some e"
    using pq_getByRunId_Some [OF _ assms(2)] assms(1) by (auto simp: pq_wf_def)
  from find_split [OF this] obtain A B where split: "pq_items q sid = A @ e # B" "pend_runId e = r"
      "\<forall>a\<in>set A. pend_runId a \<noteq> r"
    by auto
  have ok: "pq_items_ok sid (A @ e # B)"
    using pq_wf_items [OF assms(1), of sid] split by simp
  then have sid: "pend_sessionId e = sid" and B: "\<forall>b\<in>set B. pend_runId b \<noteq> r"
    using split(2) by (auto simp: pq_items_ok_def) (metis image_eqI)
  have "map_of q sid = Some (A @ e # B)"
    using split(1) by (cases "map_of q sid") (auto simp: pq_items_def)
  then show thesis using that [of A B] split B sid by simp
qed

lemma pq_getByRunId_mem:
  assumes wf: "pq_wf q" and r: "r \<in> set (pq_runs q sid)"
  shows "\<exists>e. pq_getByRunId r q = Some e \<and> pend_sessionId e = sid"
proof -
  have "pq_getByRunId r q \<noteq> None"
    using pq_getByRunId_None [of q r] wf r by (auto simp: pq_wf_def)
  then obtain e where e: "pq_getByRunId r q = Some e" by auto
  from wf e obtain A B where "pq_items q (pend_sessionId e) = A @ e # B" "pend_runId e = r"
    by (rule pq_lookup)
  then have "r \<in> set (pq_runs q (pend_sessionId e))" by (simp add: pq_runs_def)
  then have "pend_sessionId e = sid" by (rule pq_wf_unique [OF wf _ r])
  with e show ?thesis by blast
qed

subsection \<open>The operations keep the invariant and implement the lists\<close>

lemma pq_enqueue_known:
  "pq_getByRunId r q = Some e \<Longrightarrow> pq_enqueue sid r t q = (e, q)"
  by (simp add: pq_enqueue_def)

lemma pq_enqueue_fresh:
  assumes wf: "pq_wf q" and fresh: "\<forall>s. r \<notin> set (pq_runs q s)"
  shows "pq_wf (snd (pq_enqueue sid r t q))"
    and "pq_runs (snd (pq_enqueue sid r t q)) = (pq_runs q)(sid := pq_runs q sid @ [r])"
proof -
  let ?items = "pq_items q sid"
  define entry where "entry = \<lparr>pend_sessionId = sid, pend_runId = r,
    pend_position = (if ?items = [] then 0 else pend_position (last ?items)) + 1, pend_createdAt = t\<rparr>"
  have none: "pq_getByRunId r q = None"
    using pq_getByRunId_None [of q r] wf fresh by (simp add: pq_wf_def)
  have q': "snd (pq_enqueue sid r t q) = AList.update sid (?items @ [entry]) q"
    by (simp add: pq_enqueue_def none Let_def entry_def pq_items_def)
  have ok: "pq_items_ok sid ?items" by (rule pq_wf_items [OF wf])
  have lt: "\<forall>e\<in>set ?items. pend_position e < pend_position entry"
  proof
    fix e assume e: "e \<in> set ?items"
    then have "?items = butlast ?items @ [last ?items]" by (metis append_butlast_last_id list.distinct(1) list.set_cases)
    with ok have "\<forall>a\<in>set (butlast ?items). pend_position a < pend_position (last ?items)"
      by (metis pq_items_ok_def sorted_wrt_append list.set_intros(1))
    moreover from e have "e \<in> set (butlast ?items) \<or> e = last ?items"
      by (metis \<open>?items = butlast ?items @ [last ?items]\<close> Un_iff empty_iff empty_set set_ConsD set_append)
    ultimately show "pend_position e < pend_position entry"
      using e by (auto simp: entry_def)
  qed
  have "r \<notin> set (map pend_runId ?items)" using fresh by (simp add: pq_runs_def)
  with ok lt have ok': "pq_items_ok sid (?items @ [entry])"
    by (auto simp: pq_items_ok_def sorted_wrt_append entry_def)
  show "pq_wf (snd (pq_enqueue sid r t q))"
  proof (rule pq_wf_store [OF wf _ _ ok'])
    show "jmap_wf (snd (pq_enqueue sid r t q))" using wf by (simp add: q' pq_wf_def)
    show "pq_items (snd (pq_enqueue sid r t q)) = (pq_items q)(sid := ?items @ [entry])" by (simp add: q')
    fix r' s assume "r' \<in> pend_runId ` set (?items @ [entry])" and s: "s \<noteq> sid"
    then have "r' = r \<or> r' \<in> set (pq_runs q sid)" by (auto simp: entry_def pq_runs_def)
    then show "r' \<notin> set (pq_runs q s)" using fresh s pq_wf_unique [OF wf] by blast
  qed
  show "pq_runs (snd (pq_enqueue sid r t q)) = (pq_runs q)(sid := pq_runs q sid @ [r])"
    by (subst pq_runs_upd [where k = sid and q = q and xs = "?items @ [entry]"])
      (simp_all add: q' entry_def pq_runs_def)
qed

lemma update_first_split:
  "\<forall>a\<in>set A. \<not> P a \<Longrightarrow> P e \<Longrightarrow> update_first P f (A @ e # B) = A @ f e # B"
  by (induction A) auto

lemma foldl_min_le:
  fixes m :: int
  shows "foldl (\<lambda>l c. min l (g c)) m xs \<le> m \<and> (\<forall>x\<in>set xs. foldl (\<lambda>l c. min l (g c)) m xs \<le> g x)"
proof (induction xs arbitrary: m)
  case (Cons x xs)
  from Cons.IH [of "min m (g x)"] show ?case by auto
qed simp

lemma pq_promote_order:
  assumes wf: "pq_wf q" and r: "r \<in> set (pq_runs q sid)"
  shows "pq_wf (pq_promote r q)"
    and "pq_runs (pq_promote r q) = (pq_runs q)(sid := r # remove1 r (pq_runs q sid))"
proof -
  obtain e where e: "pq_getByRunId r q = Some e" and sid: "pend_sessionId e = sid"
    using pq_getByRunId_mem [OF wf r] by blast
  obtain A B where AB: "pq_items q sid = A @ e # B" "pend_runId e = r"
      "\<forall>a\<in>set A. pend_runId a \<noteq> r" "\<forall>b\<in>set B. pend_runId b \<noteq> r" "map_of q sid = Some (A @ e # B)"
    by (rule pq_lookup [OF wf e, unfolded sid])
  define m where "m = foldl (\<lambda>l c. min l (pend_position c)) (pend_position e) (A @ e # B)"
  define e' where "e' = e\<lparr>pend_position := m - 1\<rparr>"
  have ok: "pq_items_ok sid (A @ e # B)" using pq_wf_items [OF wf, of sid] AB(1) by simp
  have m: "\<forall>x\<in>set (A @ B). m - 1 < pend_position x"
  proof
    fix x assume "x \<in> set (A @ B)"
    then have "x \<in> set (A @ e # B)" by auto
    then have "m \<le> pend_position x" unfolding m_def
      by (rule bspec [OF conjunct2 [OF foldl_min_le [where g = pend_position]]])
    then show "m - 1 < pend_position x" by simp
  qed
  have okAB: "pq_items_ok sid (A @ B)" using ok
    by (auto simp: pq_items_ok_def sorted_wrt_append)
  have "js_sort pq_position_cmp (A @ e' # B) = e' # js_sort pq_position_cmp (A @ B)"
  proof (rule js_sort_least)
    show "\<forall>a\<in>set A. 0 < pq_position_cmp a e'" using m by (auto simp: pq_position_cmp_def e'_def)
    show "\<forall>b\<in>set B. pq_position_cmp e' b \<le> 0"
      using m by (auto simp: pq_position_cmp_def e'_def intro: order.strict_implies_order)
  qed
  then have sorted: "js_sort pq_position_cmp (A @ e' # B) = e' # A @ B"
    by (simp add: pq_sort_id [OF okAB])
  have q': "pq_promote r q = AList.update sid (e' # A @ B) q"
    using AB sid
    by (simp add: pq_promote_def e Let_def update_first_split m_def [symmetric] e'_def [symmetric] sorted
        del: foldl_append foldl_Cons)
  have ok': "pq_items_ok sid (e' # A @ B)"
  proof -
    have "\<forall>x\<in>set (A @ B). pend_position e' < pend_position x" using m by (auto simp: e'_def)
    moreover have "r \<notin> set (map pend_runId (A @ B))" using AB(3,4) by auto
    moreover have "pend_runId e' = r" "pend_sessionId e' = sid" using AB(2) sid by (simp_all add: e'_def)
    ultimately show ?thesis using okAB by (simp add: pq_items_ok_def)
  qed
  show "pq_wf (pq_promote r q)"
  proof (rule pq_wf_store [OF wf _ _ ok'])
    show "jmap_wf (pq_promote r q)" using wf by (simp add: q' pq_wf_def)
    show "pq_items (pq_promote r q) = (pq_items q)(sid := e' # A @ B)" by (simp add: q')
    fix r' s assume "r' \<in> pend_runId ` set (e' # A @ B)" and s: "s \<noteq> sid"
    then have "r' \<in> set (pq_runs q sid)" using AB(1) by (auto simp: e'_def pq_runs_def)
    then show "r' \<notin> set (pq_runs q s)" using s pq_wf_unique [OF wf] by blast
  qed
  have "remove1 r (map pend_runId (A @ e # B)) = map pend_runId (A @ B)"
    using AB(2,3) by (auto simp: remove1_append image_iff)
  then show "pq_runs (pq_promote r q) = (pq_runs q)(sid := r # remove1 r (pq_runs q sid))"
    using AB(1,2) by (subst pq_runs_upd [where k = sid and q = q and xs = "e' # A @ B"])
      (simp_all add: q' e'_def pq_runs_def)
qed

lemma pq_promote_absent:
  "pq_wf q \<Longrightarrow> \<forall>s. r \<notin> set (pq_runs q s) \<Longrightarrow> pq_promote r q = q"
  using pq_getByRunId_None [of q r] by (simp add: pq_promote_def pq_wf_def)

lemma pq_dequeue_empty:
  assumes wf: "pq_wf q" and "pq_runs q sid = []"
  shows "pq_dequeueNext sid q = (None, q)"
proof -
  have "or_else (map_of q sid) [] = []"
    using assms(2) by (simp add: pq_runs_def pq_items_def)
  then show ?thesis by (simp add: pq_dequeueNext_def)
qed

lemma pq_dequeue_head:
  assumes wf: "pq_wf q" and r: "pq_runs q sid = r # rs"
  shows "map_option pend_runId (fst (pq_dequeueNext sid q)) = Some r"
    and "pq_wf (snd (pq_dequeueNext sid q))"
    and "pq_runs (snd (pq_dequeueNext sid q)) = (pq_runs q)(sid := rs)"
proof -
  from r obtain e rest where items: "pq_items q sid = e # rest" and e: "pend_runId e = r" "map pend_runId rest = rs"
    by (auto simp: pq_runs_def)
  have ok: "pq_items_ok sid (e # rest)" using pq_wf_items [OF wf, of sid] items by simp
  let ?q' = "if rest = [] then AList.delete sid q else AList.update sid rest q"
  have q': "pq_dequeueNext sid q = (Some e, ?q')"
    using items pq_sort_id [OF ok] by (simp add: pq_dequeueNext_def pq_items_def)
  have store: "pq_items ?q' = (pq_items q)(sid := rest)" by auto
  show "map_option pend_runId (fst (pq_dequeueNext sid q)) = Some r" by (simp add: q' e)
  have "pq_wf ?q'"
  proof (rule pq_wf_store [OF wf _ store])
    show "jmap_wf ?q'" using wf by (simp add: pq_wf_def)
    show "pq_items_ok sid rest" using ok by (simp add: pq_items_ok_def)
    fix r' s assume "r' \<in> pend_runId ` set rest" and s: "s \<noteq> sid"
    then have "r' \<in> set (pq_runs q sid)" using items by (auto simp: pq_runs_def)
    then show "r' \<notin> set (pq_runs q s)" using s pq_wf_unique [OF wf] by blast
  qed
  then show "pq_wf (snd (pq_dequeueNext sid q))" by (simp add: q')
  show "pq_runs (snd (pq_dequeueNext sid q)) = (pq_runs q)(sid := rs)"
    using pq_runs_upd [OF store] e(2) by (simp add: q')
qed

lemma pq_remove_in_cases:
  "(pq_remove_in r rest q = q \<and> (\<forall>(s, items)\<in>set rest. \<forall>c\<in>set items. pend_runId c \<noteq> r)) \<or>
   (\<exists>sid items. (sid, items) \<in> set rest \<and> r \<in> pend_runId ` set items \<and>
      pq_remove_in r rest q =
        (let next = filter (\<lambda>c. pend_runId c \<noteq> r) items in
         if next = [] then AList.delete sid q else AList.update sid next q))"
proof (induction rest)
  case (Cons a rest)
  obtain sid items where a: "a = (sid, items)" by (cases a)
  show ?case
  proof (cases "r \<in> pend_runId ` set items")
    case False
    then have none: "\<forall>c\<in>set items. pend_runId c \<noteq> r" by auto
    then have "filter (\<lambda>c. pend_runId c \<noteq> r) items = items" by (simp add: filter_True)
    then have step: "pq_remove_in r (a # rest) q = pq_remove_in r rest q" by (simp add: a)
    from Cons.IH show ?thesis
    proof (elim disjE exE conjE)
      assume "pq_remove_in r rest q = q" "\<forall>(s, items)\<in>set rest. \<forall>c\<in>set items. pend_runId c \<noteq> r"
      with none show ?thesis by (intro disjI1) (simp only: step, simp add: a)
    next
      fix s xs assume "(s, xs) \<in> set rest" "r \<in> pend_runId ` set xs"
        and "pq_remove_in r rest q = (let next = filter (\<lambda>c. pend_runId c \<noteq> r) xs in
          if next = [] then AList.delete s q else AList.update s next q)"
      then show ?thesis by (intro disjI2 exI [of _ s] exI [of _ xs]) (simp add: step)
    qed
  next
    case True
    then have "length (filter (\<lambda>c. pend_runId c \<noteq> r) items) \<noteq> length items"
      using length_filter_less [of _ items "\<lambda>c. pend_runId c \<noteq> r"] by fastforce
    with True show ?thesis by (intro disjI2 exI [of _ sid] exI [of _ items]) (simp add: a Let_def)
  qed
qed simp

lemma remove1_filter: "distinct (map f xs) \<Longrightarrow> remove1 r (map f xs) = map f (filter (\<lambda>c. f c \<noteq> r) xs)"
proof (induction xs)
  case (Cons x xs)
  then show ?case by (auto simp: filter_id_conv image_iff intro!: arg_cong [where f = "map f"] sym [OF filter_True])
qed simp

lemma pq_remove_order:
  assumes wf: "pq_wf q"
  shows "pq_wf (pq_remove r q)" and "pq_runs (pq_remove r q) = (\<lambda>s. remove1 r (pq_runs q s))"
proof -
  have jwf: "jmap_wf q" using wf by (simp add: pq_wf_def)
  have mem: "pq_items q sid = items" if "(sid, items) \<in> set q" for sid items
    using that jwf by (simp add: pq_items_def jmap_wf_def)
  consider (absent) "pq_remove r q = q" "\<forall>s. r \<notin> set (pq_runs q s)"
    | (found) sid items where "pq_items q sid = items" "r \<in> set (pq_runs q sid)"
        "pq_remove r q = (let next = filter (\<lambda>c. pend_runId c \<noteq> r) items in
           if next = [] then AList.delete sid q else AList.update sid next q)"
  proof -
    have abs: "\<forall>s. r \<notin> set (pq_runs q s)"
      if h: "\<forall>(s, items)\<in>set q. \<forall>c\<in>set items. pend_runId c \<noteq> r"
    proof
      fix s show "r \<notin> set (pq_runs q s)"
      proof (cases "map_of q s")
        case (Some items)
        then have "(s, items) \<in> set q" by (rule map_of_SomeD)
        with h Some show ?thesis by (auto simp: pq_runs_def pq_items_def)
      qed (simp add: pq_runs_def pq_items_def)
    qed
    from pq_remove_in_cases [of r q q] show thesis
    proof (elim disjE conjE exE)
      assume "pq_remove_in r q q = q" and "\<forall>(s, items)\<in>set q. \<forall>c\<in>set items. pend_runId c \<noteq> r"
      then show thesis using absent abs by (simp add: pq_remove_def)
    next
      fix sid items
      assume in_q: "(sid, items) \<in> set q" and r: "r \<in> pend_runId ` set items"
        and eq: "pq_remove_in r q q = (let next = filter (\<lambda>c. pend_runId c \<noteq> r) items in
           if next = [] then AList.delete sid q else AList.update sid next q)"
      show thesis
      proof (rule found)
        show items: "pq_items q sid = items" by (rule mem [OF in_q])
        show "r \<in> set (pq_runs q sid)" using r by (simp add: pq_runs_def items)
        show "pq_remove r q = (let next = filter (\<lambda>c. pend_runId c \<noteq> r) items in
           if next = [] then AList.delete sid q else AList.update sid next q)"
          using eq by (simp add: pq_remove_def)
      qed
    qed
  qed
  then have "pq_wf (pq_remove r q) \<and> pq_runs (pq_remove r q) = (\<lambda>s. remove1 r (pq_runs q s))"
  proof cases
    case absent
    with wf show ?thesis by (auto simp: remove1_idem fun_eq_iff)
  next
    case (found sid items)
    let ?next = "filter (\<lambda>c. pend_runId c \<noteq> r) items"
    have ok: "pq_items_ok sid items" using pq_wf_items [OF wf, of sid] found(1) by simp
    have store: "pq_items (pq_remove r q) = (pq_items q)(sid := ?next)"
      by (simp add: found(3) Let_def)
    have "pq_wf (pq_remove r q)"
    proof (rule pq_wf_store [OF wf _ store])
      show "jmap_wf (pq_remove r q)" using jwf by (simp add: found(3) Let_def)
      show "pq_items_ok sid ?next" using ok
        by (auto simp: pq_items_ok_def sorted_wrt_filter distinct_map_filter)
      fix r' s assume "r' \<in> pend_runId ` set ?next" and s: "s \<noteq> sid"
      then have "r' \<in> set (pq_runs q sid)" using found(1) by (auto simp: pq_runs_def)
      then show "r' \<notin> set (pq_runs q s)" using s pq_wf_unique [OF wf] by blast
    qed
    moreover have "remove1 r (pq_runs q s) = ((pq_runs q)(sid := map pend_runId ?next)) s" for s
    proof (cases "s = sid")
      case True
      then show ?thesis using ok found(1) by (simp add: pq_runs_def pq_items_ok_def remove1_filter)
    next
      case False
      then have "r \<notin> set (pq_runs q s)" using found(2) pq_wf_unique [OF wf] by blast
      with False show ?thesis by (simp add: remove1_idem)
    qed
    ultimately show ?thesis using pq_runs_upd [OF store] by (simp add: fun_eq_iff)
  qed
  then show "pq_wf (pq_remove r q)" and "pq_runs (pq_remove r q) = (\<lambda>s. remove1 r (pq_runs q s))"
    by simp_all
qed

lemma pq_items_deleteBySessionIds:
  "pq_items (pq_deleteBySessionIds sids q) = (\<lambda>s. if s \<in> set sids then [] else pq_items q s)"
  by (auto simp: pq_items_def pq_deleteBySessionIds_def jmap_get_delete_all fun_eq_iff)

lemma pq_deleteBySessionIds_wf:
  assumes wf: "pq_wf q" shows "pq_wf (pq_deleteBySessionIds sids q)"
proof -
  have "jmap_wf (pq_deleteBySessionIds sids q)"
    using wf by (simp add: pq_deleteBySessionIds_def pq_wf_def)
  moreover have "pq_items_ok s []" for s by (simp add: pq_items_ok_def)
  moreover have "pq_runs (pq_deleteBySessionIds sids q) = (\<lambda>s. if s \<in> set sids then [] else pq_runs q s)"
    by (auto simp: pq_runs_def pq_items_deleteBySessionIds fun_eq_iff)
  ultimately show ?thesis
    using wf by (auto simp: pq_wf_def pq_items_deleteBySessionIds)
qed

subsection \<open>The repository implements the contract\<close>

definition pq_enq :: "string \<Rightarrow> string \<Rightarrow> string \<Rightarrow> pending_queue \<Rightarrow> pending_queue" where
  "pq_enq sid r t q = snd (pq_enqueue sid r t q)"

definition pq_deq :: "string \<Rightarrow> pending_queue \<Rightarrow> string option \<times> pending_queue" where
  "pq_deq sid q = (case pq_dequeueNext sid q of (e, q') \<Rightarrow> (map_option pend_runId e, q'))"

lemma pq_deq_simps:
  "fst (pq_deq sid q) = map_option pend_runId (fst (pq_dequeueNext sid q))"
  "snd (pq_deq sid q) = snd (pq_dequeueNext sid q)"
  by (simp_all add: pq_deq_def split: prod.splits)

lemma pq_enq_known:
  assumes wf: "pq_wf q" and "r \<in> set (pq_runs q s)"
  shows "pq_enq sid r t q = q"
  using pq_getByRunId_mem [OF assms] by (auto simp: pq_enq_def pq_enqueue_known)

lemma pq_wf_enq: "pq_wf q \<Longrightarrow> pq_wf (pq_enq sid r t q)"
  using pq_enq_known pq_enqueue_fresh(1) by (metis pq_enq_def)

lemma pq_wf_prom: "pq_wf q \<Longrightarrow> pq_wf (pq_promote r q)"
  using pq_promote_absent pq_promote_order(1) by metis

lemma pq_wf_deq: "pq_wf q \<Longrightarrow> pq_wf (snd (pq_deq sid q))"
  using pq_dequeue_empty pq_dequeue_head(2) by (cases "pq_runs q sid") (auto simp: pq_deq_simps)

interpretation pq: pending_run_queue pq_order pq_wf pq_enq pq_promote pq_deq pq_remove
proof unfold_locales
  fix q sid sid' r rs t assume wf: "pq_wf q"
  show "pq_wf (pq_enq sid r t q)" by (rule pq_wf_enq [OF wf])
  show "pq_wf (pq_promote r q)" by (rule pq_wf_prom [OF wf])
  show "pq_wf (snd (pq_deq sid q))" by (rule pq_wf_deq [OF wf])
  show "pq_wf (pq_remove r q)" by (rule pq_remove_order(1) [OF wf])
  show "distinct (pq_order q sid)"
    using pq_wf_items [OF wf, of sid] by (simp add: pq_order_runs wf pq_runs_def pq_items_ok_def)
  show "r \<in> set (pq_order q sid) \<Longrightarrow> r \<in> set (pq_order q sid') \<Longrightarrow> sid = sid'"
    using pq_wf_unique [OF wf] by (simp add: pq_order_runs wf)
  show "\<forall>s. r \<notin> set (pq_order q s) \<Longrightarrow> pq_order (pq_enq sid r t q) = (pq_order q)(sid := pq_order q sid @ [r])"
    using pq_enqueue_fresh [OF wf] by (simp add: pq_order_runs wf pq_wf_enq) (simp add: pq_enq_def)
  show "r \<in> set (pq_order q sid') \<Longrightarrow> pq_order (pq_enq sid r t q) = pq_order q"
    using pq_enq_known [OF wf] by (simp add: pq_order_runs wf)
  show "r \<in> set (pq_order q sid) \<Longrightarrow> pq_order (pq_promote r q) = (pq_order q)(sid := r # remove1 r (pq_order q sid))"
    using pq_promote_order(2) [OF wf] by (simp add: pq_order_runs wf pq_wf_prom)
  show "\<forall>s. r \<notin> set (pq_order q s) \<Longrightarrow> pq_order (pq_promote r q) = pq_order q"
    using pq_promote_absent [OF wf] by (simp add: pq_order_runs wf)
  show "pq_order q sid = [] \<Longrightarrow> fst (pq_deq sid q) = None \<and> pq_order (snd (pq_deq sid q)) = pq_order q"
    using pq_dequeue_empty [OF wf] by (simp add: pq_order_runs wf pq_deq_simps)
  show "pq_order q sid = r # rs \<Longrightarrow> fst (pq_deq sid q) = Some r \<and> pq_order (snd (pq_deq sid q)) = (pq_order q)(sid := rs)"
    using pq_dequeue_head [OF wf] pq_wf_deq [OF wf, of sid]
    by (simp add: pq_order_runs wf pq_deq_simps)
  show "pq_order (pq_remove r q) = (\<lambda>s. remove1 r (pq_order q s))"
    using pq_remove_order [OF wf] by (simp add: pq_order_runs wf)
qed

subsection \<open>Sequences of operations\<close>

text \<open>
  The specification keeps one list of pairs (session, run) in the order in which the runs will
  be taken. Every sequence of operations gives the same answers on it as on the repository.
\<close>

datatype pq_op = PqEnqueue string string string | PqPromote string | PqDequeue string | PqRemove string

fun pq_step :: "pq_op \<Rightarrow> pending_queue \<Rightarrow> string option \<times> pending_queue" where
  "pq_step (PqEnqueue sid r t) q = (None, pq_enq sid r t q)"
| "pq_step (PqPromote r) q = (None, pq_promote r q)"
| "pq_step (PqDequeue sid) q = pq_deq sid q"
| "pq_step (PqRemove r) q = (None, pq_remove r q)"

fun pq_spec_step :: "pq_op \<Rightarrow> (string \<times> string) list \<Rightarrow> string option \<times> (string \<times> string) list" where
  "pq_spec_step (PqEnqueue sid r t) ps = (None, if r \<in> snd ` set ps then ps else ps @ [(sid, r)])"
| "pq_spec_step (PqPromote r) ps =
     (None, (case find (\<lambda>p. snd p = r) ps of None \<Rightarrow> ps | Some p \<Rightarrow> p # remove1 p ps))"
| "pq_spec_step (PqDequeue sid) ps =
     (case find (\<lambda>p. fst p = sid) ps of None \<Rightarrow> (None, ps) | Some p \<Rightarrow> (Some (snd p), remove1 p ps))"
| "pq_spec_step (PqRemove r) ps = (None, filter (\<lambda>p. snd p \<noteq> r) ps)"

fun pq_exec :: "pq_op list \<Rightarrow> pending_queue \<Rightarrow> string option list \<times> pending_queue" where
  "pq_exec [] q = ([], q)"
| "pq_exec (x # xs) q =
     (let (a, q') = pq_step x q; (as, q'') = pq_exec xs q' in (a # as, q''))"

fun pq_spec_exec :: "pq_op list \<Rightarrow> (string \<times> string) list \<Rightarrow> string option list \<times> (string \<times> string) list" where
  "pq_spec_exec [] ps = ([], ps)"
| "pq_spec_exec (x # xs) ps =
     (let (a, ps') = pq_spec_step x ps; (as, ps'') = pq_spec_exec xs ps' in (a # as, ps''))"

definition pq_spec_order :: "(string \<times> string) list \<Rightarrow> string \<Rightarrow> string list" where
  "pq_spec_order ps sid = map snd (filter (\<lambda>p. fst p = sid) ps)"

definition pq_sim :: "pending_queue \<Rightarrow> (string \<times> string) list \<Rightarrow> bool" where
  "pq_sim q ps \<longleftrightarrow> pq_wf q \<and> distinct (map snd ps) \<and> pq_order q = pq_spec_order ps"

lemma pq_spec_order_mem: "r \<in> set (pq_spec_order ps sid) \<longleftrightarrow> (sid, r) \<in> set ps"
  by (force simp: pq_spec_order_def)

lemma pq_spec_order_append [simp]:
  "pq_spec_order (ps @ qs) sid = pq_spec_order ps sid @ pq_spec_order qs sid"
  by (simp add: pq_spec_order_def)

lemma pq_spec_order_Cons [simp]:
  "pq_spec_order ((s, r) # qs) sid = (if s = sid then r # pq_spec_order qs sid else pq_spec_order qs sid)"
  by (simp add: pq_spec_order_def)

lemma pq_spec_split:
  assumes "distinct (map snd ps)" and "ps = A @ (s, r) # B"
  shows "remove1 (s, r) ps = A @ B" and "remove1 r (pq_spec_order ps s) = pq_spec_order (A @ B) s"
proof -
  have "(s, r) \<notin> set A" and "r \<notin> snd ` set A" using assms by (auto simp: image_iff)
  then have "r \<notin> set (pq_spec_order A s)" by (force simp: pq_spec_order_mem)
  with \<open>(s, r) \<notin> set A\<close> show "remove1 (s, r) ps = A @ B"
    and "remove1 r (pq_spec_order ps s) = pq_spec_order (A @ B) s"
    by (simp_all add: assms(2) remove1_append)
qed

lemma pq_spec_remove: "distinct (map snd ps) \<Longrightarrow>
    pq_spec_order (filter (\<lambda>p. snd p \<noteq> r) ps) sid = remove1 r (pq_spec_order ps sid)"
proof (induction ps)
  case (Cons p ps)
  obtain s x where p: "p = (s, x)" by (cases p)
  from Cons.prems have d: "distinct (map snd ps)" and x: "x \<notin> snd ` set ps" by (auto simp: p)
  have "x = r \<Longrightarrow> filter (\<lambda>p. snd p \<noteq> r) ps = ps" using x by (auto simp: filter_id_conv)
  moreover have "x = r \<Longrightarrow> r \<notin> set (pq_spec_order ps sid)" using x by (force simp: pq_spec_order_mem)
  ultimately show ?case using Cons.IH [OF d] by (auto simp: p remove1_idem)
qed (simp add: pq_spec_order_def)

lemma pq_sim_step:
  assumes "pq_sim q ps"
  shows "fst (pq_step x q) = fst (pq_spec_step x ps)" and "pq_sim (snd (pq_step x q)) (snd (pq_spec_step x ps))"
proof -
  have wf: "pq_wf q" and d: "distinct (map snd ps)" and o: "pq_order q = pq_spec_order ps"
    using assms by (auto simp: pq_sim_def)
  have "fst (pq_step x q) = fst (pq_spec_step x ps) \<and> pq_sim (snd (pq_step x q)) (snd (pq_spec_step x ps))"
  proof (cases x)
    case (PqEnqueue sid r t)
    have mem: "r \<in> snd ` set ps \<longleftrightarrow> (\<exists>s. r \<in> set (pq_order q s))"
      by (force simp: o pq_spec_order_mem)
    show ?thesis
    proof (cases "r \<in> snd ` set ps")
      case True
      then obtain s where "r \<in> set (pq_order q s)" using mem by blast
      then have "pq_order (pq_enq sid r t q) = pq_order q" by (rule pq.order_enq_dup [OF wf])
      with True show ?thesis using wf d o pq.wf_enq [OF wf] by (simp add: PqEnqueue pq_sim_def)
    next
      case False
      then have "pq_order (pq_enq sid r t q) = (pq_order q)(sid := pq_order q sid @ [r])"
        using mem by (intro pq.order_enq [OF wf]) blast
      with False show ?thesis using wf d o pq.wf_enq [OF wf]
        by (auto simp: PqEnqueue pq_sim_def fun_eq_iff pq_spec_order_def)
    qed
  next
    case (PqPromote r)
    show ?thesis
    proof (cases "find (\<lambda>p. snd p = r) ps")
      case None
      then have "\<forall>s. r \<notin> set (pq_order q s)" by (force simp: find_None_iff o pq_spec_order_mem)
      then have "pq_order (pq_promote r q) = pq_order q" by (rule pq.order_prom_absent [OF wf])
      with None show ?thesis using wf d o pq.wf_prom [OF wf] by (simp add: PqPromote pq_sim_def)
    next
      case (Some p)
      obtain s r' where "p = (s, r')" by (cases p)
      with find_split [OF Some] obtain A B where ps: "ps = A @ (s, r) # B" and p: "p = (s, r)" by auto
      have "r \<in> set (pq_order q s)" by (simp add: o pq_spec_order_mem ps)
      from pq.order_prom [OF wf this] pq_spec_split [OF d ps]
      have "pq_order (pq_promote r q) = pq_spec_order (p # remove1 p ps)"
        by (auto simp: o p ps fun_eq_iff)
      moreover have "distinct (map snd (p # remove1 p ps))"
        using d pq_spec_split(1) [OF d ps] by (auto simp: p ps)
      ultimately show ?thesis using pq.wf_prom [OF wf] by (simp add: PqPromote Some pq_sim_def)
    qed
  next
    case (PqDequeue sid)
    show ?thesis
    proof (cases "find (\<lambda>p. fst p = sid) ps")
      case None
      then have "pq_order q sid = []" by (auto simp: find_None_iff o pq_spec_order_def filter_empty_conv)
      from pq.deq_empty [OF wf this] pq.wf_deq [OF wf, of sid] None
      show ?thesis using d o by (simp add: PqDequeue pq_sim_def)
    next
      case (Some p)
      obtain s r where "p = (s, r)" by (cases p)
      with find_split [OF Some] obtain A B where ps: "ps = A @ (sid, r) # B" and p: "p = (sid, r)"
        and A: "\<forall>a\<in>set A. fst a \<noteq> sid" by auto
      have A0: "pq_spec_order A sid = []" using A by (auto simp: pq_spec_order_def filter_empty_conv)
      have "pq_order q sid = r # pq_spec_order B sid" by (simp add: o ps A0)
      from pq.deq_some [OF wf this] pq_spec_split [OF d ps]
      have "fst (pq_deq sid q) = Some r" and "pq_order (snd (pq_deq sid q)) = pq_spec_order (remove1 p ps)"
        by (auto simp: o p ps A0 fun_eq_iff)
      moreover have "distinct (map snd (remove1 p ps))" using d pq_spec_split(1) [OF d ps] by (auto simp: p ps)
      ultimately show ?thesis using pq.wf_deq [OF wf] by (simp add: PqDequeue Some pq_sim_def p)
    qed
  next
    case (PqRemove r)
    have "pq_order (pq_remove r q) = pq_spec_order (filter (\<lambda>p. snd p \<noteq> r) ps)"
      using pq.order_rem [OF wf, of r] pq_spec_remove [OF d, of r] by (simp add: o fun_eq_iff)
    then show ?thesis using pq.wf_rem [OF wf, of r] d by (simp add: PqRemove pq_sim_def distinct_map_filter)
  qed
  then show "fst (pq_step x q) = fst (pq_spec_step x ps)" and "pq_sim (snd (pq_step x q)) (snd (pq_spec_step x ps))"
    by simp_all
qed

lemma pq_sim_exec:
  "pq_sim q ps \<Longrightarrow>
     fst (pq_exec xs q) = fst (pq_spec_exec xs ps) \<and> pq_sim (snd (pq_exec xs q)) (snd (pq_spec_exec xs ps))"
proof (induction xs arbitrary: q ps)
  case (Cons x xs)
  note step = pq_sim_step [OF Cons.prems, of x]
  from Cons.IH [OF step(2)] step(1) show ?case
    by (cases "pq_step x q"; cases "pq_spec_step x ps"; cases "pq_exec xs (snd (pq_step x q))";
        cases "pq_spec_exec xs (snd (pq_spec_step x ps))") simp
qed simp

text \<open>
  C23: Whatever runs are enqueued, promoted, taken and removed, and in whatever order, the
  in-memory pending-run repository answers exactly as one list of (session, run) pairs would:
  first in first out per session, a run at most once over all sessions, a promoted run first.
\<close>

theorem pending_queue_refines_list:
  "fst (pq_exec xs []) = fst (pq_spec_exec xs []) \<and>
   pq_order (snd (pq_exec xs [])) = pq_spec_order (snd (pq_spec_exec xs []))"
proof -
  have "pq_sim [] []"
    by (auto simp: pq_sim_def pq_wf_empty pq_order_runs pq_runs_def pq_spec_order_def fun_eq_iff)
  from pq_sim_exec [OF this, of xs] show ?thesis by (simp add: pq_sim_def)
qed

text \<open>
  The \<open>guide\<close> operation moves a waiting run to the front: after \<open>promote\<close> the
  next run its session dequeues is that run, the other waiting runs of the session keep their
  order and no other session's queue changes.
\<close>

theorem promoted_run_is_next:
  assumes "pq_wf q" and "r \<in> set (pq_order q sid)"
  shows "fst (pq_deq sid (pq_promote r q)) = Some r \<and>
         pq_order (snd (pq_deq sid (pq_promote r q))) = (pq_order q)(sid := remove1 r (pq_order q sid))"
  using pq.promote_then_dequeue [OF assms] by simp

definition pq_example :: pending_queue where
  "pq_example = pq_enq ''s'' ''c'' ''t'' (pq_enq ''s'' ''b'' ''t'' (pq_enq ''s'' ''a'' ''t'' []))"

theorem promoted_run_is_next_witness:
  "fst (pq_deq ''s'' (pq_promote ''c'' pq_example)) = Some ''c''"
proof -
  have wf: "pq_wf pq_example" by (simp add: pq_example_def pq.wf_enq pq_wf_empty)
  have "''c'' \<in> set (pq_order pq_example ''s'')" by code_simp
  from promoted_run_is_next [OF wf this] show ?thesis by simp
qed

end
