(* ===== verification/Memory_Store.thy ===== *)
theory Memory_Store
  imports Memory_Repos Event_Store Pending_Queue
begin

text \<open>
  \<open>createMemoryRuntimePersistence\<close> of \<open>packages/storage-memory/src/index.ts\<close>: the
  repositories put together, and the deletions of a session and of a workspace, which cascade
  over all of them. Invariant \<open>db_wf\<close> says how the two maps of messages and of steps belong
  together; the properties say what a deletion leaves.
\<close>

record memory_db =
  db_workspaces :: workspace_repo
  db_sessions :: session_repo
  db_messages :: message_repo
  db_engineMessages :: engine_message_repo
  db_runs :: run_repo
  db_steps :: step_repo
  db_tasks :: task_repo
  db_notifications :: notification_repo
  db_events :: event_store
  db_pending :: pending_queue

definition createMemoryRuntimePersistence :: memory_db where
  "createMemoryRuntimePersistence =
     \<lparr>db_workspaces = [], db_sessions = [], db_messages = \<lparr>mr_items = [], mr_sessionMessageIds = []\<rparr>,
      db_engineMessages = [], db_runs = [], db_steps = \<lparr>sr_items = [], sr_runStepIds = []\<rparr>,
      db_tasks = [], db_notifications = [], db_events = es_empty, db_pending = []\<rparr>"

definition deleteSessionArtifacts :: "string \<Rightarrow> memory_db \<Rightarrow> memory_db" where
  "deleteSessionArtifacts sid db =
     (let (deletedRunIds, runs') = rr_deleteBySessionIds [sid] (db_runs db)
      in db\<lparr>db_runs := runs',
            db_events := es_deleteBySessionIds [sid] (db_events db),
            db_pending := pq_deleteBySessionIds [sid] (db_pending db),
            db_messages := mr_deleteBySessionIds [sid] (db_messages db),
            db_engineMessages := emr_deleteBySessionIds [sid] (db_engineMessages db),
            db_steps := sr_deleteByRunIds deletedRunIds (db_steps db),
            db_tasks := tr_deleteBySessionIds [sid] (db_tasks db),
            db_notifications := nr_deleteBySessionIds [sid] (db_notifications db)\<rparr>)"

definition ssr_delete :: "string \<Rightarrow> memory_db \<Rightarrow> memory_db" where
  "ssr_delete sid db =
     (if map_of (db_sessions db) sid = None then db
      else let db' = deleteSessionArtifacts sid db
           in db'\<lparr>db_sessions := AList.delete sid (db_sessions db')\<rparr>)"

definition ssr_deleteByWorkspaceId :: "string \<Rightarrow> memory_db \<Rightarrow> string list \<times> memory_db" where
  "ssr_deleteByWorkspaceId wid db =
     (let deletedSessionIds =
            map session_id (filter (\<lambda>s. session_workspaceId s = wid) (jmap_values (db_sessions db)))
      in (deletedSessionIds, fold ssr_delete deletedSessionIds db))"

definition wsr_delete :: "string \<Rightarrow> memory_db \<Rightarrow> memory_db" where
  "wsr_delete wid db =
     (let db1 = snd (ssr_deleteByWorkspaceId wid db);
          (deletedRunIds, runs') = rr_deleteByWorkspaceId wid (db_runs db1);
          db2 = db1\<lparr>db_runs := runs',
                   db_steps := sr_deleteByRunIds deletedRunIds (db_steps db1),
                   db_tasks := tr_deleteByWorkspaceId wid (db_tasks db1),
                   db_notifications := nr_deleteByWorkspaceId wid (db_notifications db1)\<rparr>
      in db2\<lparr>db_workspaces := AList.delete wid (db_workspaces db2)\<rparr>)"

subsection \<open>Well-formed stores\<close>

definition mr_wf :: "message_repo \<Rightarrow> bool" where
  "mr_wf r \<longleftrightarrow> jmap_wf (mr_items r) \<and>
     (\<forall>i m. map_of (mr_items r) i = Some m \<longrightarrow>
        msg_id m = i \<and> i \<in> set (or_else (map_of (mr_sessionMessageIds r) (msg_sessionId m)) [])) \<and>
     (\<forall>sid i. i \<in> set (or_else (map_of (mr_sessionMessageIds r) sid) []) \<longrightarrow>
        (\<exists>m. map_of (mr_items r) i = Some m \<and> msg_sessionId m = sid))"

definition sr_wf :: "step_repo \<Rightarrow> bool" where
  "sr_wf r \<longleftrightarrow> jmap_wf (sr_items r) \<and>
     (\<forall>i s. map_of (sr_items r) i = Some s \<longrightarrow>
        step_id s = i \<and> i \<in> set (or_else (map_of (sr_runStepIds r) (step_runId s)) [])) \<and>
     (\<forall>rid i. i \<in> set (or_else (map_of (sr_runStepIds r) rid) []) \<longrightarrow>
        (\<exists>s. map_of (sr_items r) i = Some s \<and> step_runId s = rid))"

definition keyed :: "('v \<Rightarrow> string) \<Rightarrow> (string, 'v) jmap \<Rightarrow> bool" where
  "keyed f m \<longleftrightarrow> jmap_wf m \<and> (\<forall>k v. map_of m k = Some v \<longrightarrow> f v = k)"

definition db_wf :: "memory_db \<Rightarrow> bool" where
  "db_wf db \<longleftrightarrow> keyed ws_id (db_workspaces db) \<and> keyed session_id (db_sessions db) \<and>
     mr_wf (db_messages db) \<and> keyed run_id (db_runs db) \<and> sr_wf (db_steps db) \<and>
     keyed task_taskId (db_tasks db) \<and> keyed note_id (db_notifications db) \<and>
     es_wf (db_events db) \<and> pq_wf (db_pending db)"

lemma keyed_filter: "keyed f m \<Longrightarrow> keyed f (filter P m)"
  unfolding keyed_def jmap_wf_def
  by (auto simp: map_of_eq_Some_iff distinct_map_filter)

lemma keyed_update: "keyed f m \<Longrightarrow> keyed f (AList.update (f v) v m)"
  by (auto simp: keyed_def jmap_get_set)

lemma keyed_delete: "keyed f m \<Longrightarrow> keyed f (AList.delete k m)"
  by (auto simp: keyed_def jmap_get_delete split: if_splits)

lemma keyed_empty: "keyed f []"
  by (simp add: keyed_def)

lemma map_of_filter_snd:
  "jmap_wf m \<Longrightarrow> map_of (filter (\<lambda>p. P (snd p)) m) k =
     (case map_of m k of None \<Rightarrow> None | Some v \<Rightarrow> if P v then Some v else None)"
proof (induction m)
  case (Cons a m)
  then have "jmap_wf m" and "map_of m (fst a) = None"
    by (auto simp: jmap_wf_def map_of_eq_None_iff)
  moreover from this(1) have "k = fst a \<Longrightarrow> map_of (filter (\<lambda>p. P (snd p)) m) k = None"
    using Cons.IH \<open>map_of m (fst a) = None\<close> by simp
  ultimately show ?case using Cons.IH by auto
qed simp

lemma db_wf_empty: "db_wf createMemoryRuntimePersistence"
  by (simp add: db_wf_def createMemoryRuntimePersistence_def keyed_empty mr_wf_def sr_wf_def
      es_wf_empty pq_wf_empty)

subsection \<open>Deleting messages and steps\<close>

lemma mr_delete_items:
  assumes "mr_wf r"
  shows "map_of (mr_items (mr_deleteBySessionId sid r)) i =
      (case map_of (mr_items r) i of None \<Rightarrow> None | Some m \<Rightarrow> if msg_sessionId m = sid then None else Some m)"
    and "or_else (map_of (mr_sessionMessageIds (mr_deleteBySessionId sid r)) s) [] =
      (if s = sid then [] else or_else (map_of (mr_sessionMessageIds r) s) [])"
proof -
  let ?ids = "or_else (map_of (mr_sessionMessageIds r) sid) []"
  have mem: "i \<in> set ?ids \<longleftrightarrow> (\<exists>m. map_of (mr_items r) i = Some m \<and> msg_sessionId m = sid)"
    using assms unfolding mr_wf_def by blast
  show "map_of (mr_items (mr_deleteBySessionId sid r)) i =
      (case map_of (mr_items r) i of None \<Rightarrow> None | Some m \<Rightarrow> if msg_sessionId m = sid then None else Some m)"
    using mem by (auto simp: mr_deleteBySessionId_def Let_def jmap_get_delete_all split: option.splits)
  show "or_else (map_of (mr_sessionMessageIds (mr_deleteBySessionId sid r)) s) [] =
      (if s = sid then [] else or_else (map_of (mr_sessionMessageIds r) s) [])"
    by (simp add: mr_deleteBySessionId_def Let_def jmap_get_delete)
qed

lemma mr_wf_delete: assumes "mr_wf r" shows "mr_wf (mr_deleteBySessionId sid r)"
proof -
  have "jmap_wf (mr_items (mr_deleteBySessionId sid r))"
    using assms by (simp add: mr_deleteBySessionId_def Let_def mr_wf_def)
  moreover have "msg_id m = i \<and> i \<in> set (or_else (map_of (mr_sessionMessageIds (mr_deleteBySessionId sid r)) (msg_sessionId m)) [])"
    if "map_of (mr_items (mr_deleteBySessionId sid r)) i = Some m" for i m
  proof -
    have m: "map_of (mr_items r) i = Some m" and n: "msg_sessionId m \<noteq> sid"
      using that by (auto simp: mr_delete_items [OF assms] split: option.splits if_splits)
    then show ?thesis using assms by (simp add: mr_delete_items [OF assms] mr_wf_def)
  qed
  moreover have "\<exists>m. map_of (mr_items (mr_deleteBySessionId sid r)) i = Some m \<and> msg_sessionId m = k"
    if "i \<in> set (or_else (map_of (mr_sessionMessageIds (mr_deleteBySessionId sid r)) k) [])" for k i
  proof -
    have k: "k \<noteq> sid" and i: "i \<in> set (or_else (map_of (mr_sessionMessageIds r) k) [])"
      using that by (auto simp: mr_delete_items [OF assms] split: if_splits)
    obtain m where "map_of (mr_items r) i = Some m" "msg_sessionId m = k"
      using assms i unfolding mr_wf_def by blast
    then show ?thesis using k by (auto simp: mr_delete_items [OF assms])
  qed
  ultimately show ?thesis unfolding mr_wf_def by blast
qed

lemma sr_delete_items:
  assumes "sr_wf r"
  shows "map_of (sr_items (sr_deleteByRunId rid r)) i =
      (case map_of (sr_items r) i of None \<Rightarrow> None | Some s \<Rightarrow> if step_runId s = rid then None else Some s)"
    and "or_else (map_of (sr_runStepIds (sr_deleteByRunId rid r)) k) [] =
      (if k = rid then [] else or_else (map_of (sr_runStepIds r) k) [])"
proof -
  let ?ids = "or_else (map_of (sr_runStepIds r) rid) []"
  have mem: "i \<in> set ?ids \<longleftrightarrow> (\<exists>m. map_of (sr_items r) i = Some m \<and> step_runId m = rid)"
    using assms unfolding sr_wf_def by blast
  show "map_of (sr_items (sr_deleteByRunId rid r)) i =
      (case map_of (sr_items r) i of None \<Rightarrow> None | Some s \<Rightarrow> if step_runId s = rid then None else Some s)"
    using mem by (auto simp: sr_deleteByRunId_def Let_def jmap_get_delete_all split: option.splits)
  show "or_else (map_of (sr_runStepIds (sr_deleteByRunId rid r)) k) [] =
      (if k = rid then [] else or_else (map_of (sr_runStepIds r) k) [])"
    by (simp add: sr_deleteByRunId_def Let_def jmap_get_delete)
qed

lemma sr_wf_delete: assumes "sr_wf r" shows "sr_wf (sr_deleteByRunId rid r)"
proof -
  have "jmap_wf (sr_items (sr_deleteByRunId rid r))"
    using assms by (simp add: sr_deleteByRunId_def Let_def sr_wf_def)
  moreover have "step_id m = i \<and> i \<in> set (or_else (map_of (sr_runStepIds (sr_deleteByRunId rid r)) (step_runId m)) [])"
    if "map_of (sr_items (sr_deleteByRunId rid r)) i = Some m" for i m
  proof -
    have m: "map_of (sr_items r) i = Some m" and n: "step_runId m \<noteq> rid"
      using that by (auto simp: sr_delete_items [OF assms] split: option.splits if_splits)
    then show ?thesis using assms by (simp add: sr_delete_items [OF assms] sr_wf_def)
  qed
  moreover have "\<exists>m. map_of (sr_items (sr_deleteByRunId rid r)) i = Some m \<and> step_runId m = k"
    if "i \<in> set (or_else (map_of (sr_runStepIds (sr_deleteByRunId rid r)) k) [])" for k i
  proof -
    have k: "k \<noteq> rid" and i: "i \<in> set (or_else (map_of (sr_runStepIds r) k) [])"
      using that by (auto simp: sr_delete_items [OF assms] split: if_splits)
    obtain m where "map_of (sr_items r) i = Some m" "step_runId m = k"
      using assms i unfolding sr_wf_def by blast
    then show ?thesis using k by (auto simp: sr_delete_items [OF assms])
  qed
  ultimately show ?thesis unfolding sr_wf_def by blast
qed

lemma sr_deleteByRunIds_items:
  "sr_wf r \<Longrightarrow> sr_wf (sr_deleteByRunIds rids r) \<and>
     map_of (sr_items (sr_deleteByRunIds rids r)) i =
      (case map_of (sr_items r) i of None \<Rightarrow> None | Some s \<Rightarrow> if step_runId s \<in> set rids then None else Some s)"
proof (induction rids arbitrary: r)
  case Nil
  then show ?case by (simp add: sr_deleteByRunIds_def split: option.split)
next
  case (Cons rid rids)
  have "sr_deleteByRunIds (rid # rids) r = sr_deleteByRunIds rids (sr_deleteByRunId rid r)"
    by (simp add: sr_deleteByRunIds_def)
  with Cons.IH [OF sr_wf_delete [OF Cons.prems]] show ?case
    by (auto simp: sr_delete_items [OF Cons.prems] split: option.split)
qed

lemma map_filter_kept:
  assumes "\<And>i. i \<in> set ids \<Longrightarrow> f i = g i"
  shows "List.map_filter f ids = List.map_filter g ids"
  using assms
proof (induction ids)
  case (Cons i ids)
  from Cons.prems have "f i = g i" by simp
  moreover have "List.map_filter f ids = List.map_filter g ids" using Cons.prems by (intro Cons.IH) simp
  ultimately show ?case by (simp add: List.map_filter_simps split: option.split)
qed (simp add: List.map_filter_simps)

lemma sr_deleteByRunIds_list:
  assumes "sr_wf r"
  shows "sr_listByRunId k (sr_deleteByRunIds rids r) = (if k \<in> set rids then [] else sr_listByRunId k r)"
  using assms
proof (induction rids arbitrary: r)
  case Nil
  show ?case by (simp add: sr_deleteByRunIds_def)
next
  case (Cons rid rids)
  have e: "sr_deleteByRunIds (rid # rids) r = sr_deleteByRunIds rids (sr_deleteByRunId rid r)"
    by (simp add: sr_deleteByRunIds_def)
  have "sr_listByRunId k (sr_deleteByRunId rid r) = (if k = rid then [] else sr_listByRunId k r)"
  proof (cases "k = rid")
    case True
    then show ?thesis
      by (simp add: sr_listByRunId_def sr_delete_items [OF Cons.prems] List.map_filter_simps)
  next
    case False
    have "List.map_filter (map_of (sr_items (sr_deleteByRunId rid r))) (or_else (map_of (sr_runStepIds r) k) []) =
          List.map_filter (map_of (sr_items r)) (or_else (map_of (sr_runStepIds r) k) [])"
    proof (rule map_filter_kept)
      fix i assume "i \<in> set (or_else (map_of (sr_runStepIds r) k) [])"
      then obtain s where "map_of (sr_items r) i = Some s" "step_runId s = k"
        using Cons.prems unfolding sr_wf_def by blast
      then show "map_of (sr_items (sr_deleteByRunId rid r)) i = map_of (sr_items r) i"
        using False by (simp add: sr_delete_items [OF Cons.prems])
    qed
    then show ?thesis using False by (simp add: sr_listByRunId_def sr_delete_items [OF Cons.prems])
  qed
  then show ?case using Cons.IH [OF sr_wf_delete [OF Cons.prems, of rid]] by (auto simp: e)
qed

lemma mr_delete_list:
  assumes "mr_wf r"
  shows "mr_listBySessionId s (mr_deleteBySessionId sid r) = (if s = sid then [] else mr_listBySessionId s r)"
proof (cases "s = sid")
  case True
  then show ?thesis
    by (simp add: mr_listBySessionId_def listSortedSessionMessages_def mr_delete_items [OF assms]
        List.map_filter_simps)
next
  case False
  have "List.map_filter (map_of (mr_items (mr_deleteBySessionId sid r))) (or_else (map_of (mr_sessionMessageIds r) s) []) =
        List.map_filter (map_of (mr_items r)) (or_else (map_of (mr_sessionMessageIds r) s) [])"
  proof (rule map_filter_kept)
    fix i assume "i \<in> set (or_else (map_of (mr_sessionMessageIds r) s) [])"
    then obtain m where "map_of (mr_items r) i = Some m" "msg_sessionId m = s"
      using assms unfolding mr_wf_def by blast
    then show "map_of (mr_items (mr_deleteBySessionId sid r)) i = map_of (mr_items r) i"
      using False by (simp add: mr_delete_items [OF assms])
  qed
  then show ?thesis
    using False by (simp add: mr_listBySessionId_def listSortedSessionMessages_def mr_delete_items [OF assms])
qed

subsection \<open>Deleting a session\<close>

definition run_of_session :: "string \<Rightarrow> memory_db \<Rightarrow> string \<Rightarrow> bool" where
  "run_of_session sid db rid \<longleftrightarrow>
     (case map_of (db_runs db) rid of None \<Rightarrow> False | Some r \<Rightarrow> run_sessionId r = Some sid)"

text \<open>The store without a session: what every lookup answers after its deletion.\<close>

definition without_session :: "string \<Rightarrow> memory_db \<Rightarrow> memory_db \<Rightarrow> bool" where
  "without_session sid db db' \<longleftrightarrow>
     db_workspaces db' = db_workspaces db \<and>
     (\<forall>s. ssr_getById s (db_sessions db') = (if s = sid then None else ssr_getById s (db_sessions db))) \<and>
     (\<forall>s. mr_listBySessionId s (db_messages db') = (if s = sid then [] else mr_listBySessionId s (db_messages db))) \<and>
     (\<forall>s. emr_listBySessionId s (db_engineMessages db') =
        (if s = sid then [] else emr_listBySessionId s (db_engineMessages db))) \<and>
     (\<forall>r. rr_getById r (db_runs db') = (if run_of_session sid db r then None else rr_getById r (db_runs db))) \<and>
     (\<forall>r. sr_listByRunId r (db_steps db') = (if run_of_session sid db r then [] else sr_listByRunId r (db_steps db))) \<and>
     (\<forall>s. es_log (db_events db') s = (if s = sid then [] else es_log (db_events db) s)) \<and>
     (\<forall>s. pq_order (db_pending db') s = (if s = sid then [] else pq_order (db_pending db) s)) \<and>
     db_tasks db' = filter (\<lambda>p. task_parentSessionId (snd p) \<noteq> sid \<and> task_childSessionId (snd p) \<noteq> sid) (db_tasks db) \<and>
     db_notifications db' =
       filter (\<lambda>p. note_parentSessionId (snd p) \<noteq> sid \<and> note_childSessionId (snd p) \<noteq> sid) (db_notifications db)"

lemma ssr_delete_present:
  assumes "map_of (db_sessions db) sid \<noteq> None"
  shows "ssr_delete sid db =
     db\<lparr>db_sessions := AList.delete sid (db_sessions db),
        db_runs := snd (rr_deleteBySessionIds [sid] (db_runs db)),
        db_events := es_deleteBySessionIds [sid] (db_events db),
        db_pending := AList.delete sid (db_pending db),
        db_messages := mr_deleteBySessionId sid (db_messages db),
        db_engineMessages := AList.delete sid (db_engineMessages db),
        db_steps := sr_deleteByRunIds (fst (rr_deleteBySessionIds [sid] (db_runs db))) (db_steps db),
        db_tasks := tr_deleteBySessionIds [sid] (db_tasks db),
        db_notifications := nr_deleteBySessionIds [sid] (db_notifications db)\<rparr>"
  unfolding ssr_delete_def if_not_P [OF assms]
  by (simp add: deleteSessionArtifacts_def Let_def pq_deleteBySessionIds_def
      mr_deleteBySessionIds_def emr_deleteBySessionIds_def split_def)

lemma pq_wf_deleteSession: assumes "pq_wf q" shows "pq_wf (AList.delete sid q)"
  by (rule pq_wf_store [OF assms, of _ sid "[]"])
    (use assms in \<open>auto simp: pq_wf_def pq_items_ok_def\<close>)

lemma rr_deleted_runs:
  assumes "keyed run_id m" and "sid \<noteq> []"
  shows "rid \<in> set (fst (rr_deleteBySessionIds [sid] m)) \<longleftrightarrow>
           (\<exists>r. map_of m rid = Some r \<and> run_sessionId r = Some sid)"
    and "map_of (snd (rr_deleteBySessionIds [sid] m)) rid =
           (case map_of m rid of None \<Rightarrow> None | Some r \<Rightarrow> if run_sessionId r = Some sid then None else Some r)"
proof -
  have wf: "jmap_wf m" using assms(1) by (simp add: keyed_def)
  have doomed: "(truthy (run_sessionId r) \<and> the (run_sessionId r) \<in> set [sid]) = (run_sessionId r = Some sid)" for r
    using assms(2) by (cases "run_sessionId r") auto
  show "rid \<in> set (fst (rr_deleteBySessionIds [sid] m)) \<longleftrightarrow>
           (\<exists>r. map_of m rid = Some r \<and> run_sessionId r = Some sid)"
    using wf unfolding rr_deleteBySessionIds_def Let_def doomed
    by (force simp: jmap_wf_def map_of_eq_Some_iff)
  show "map_of (snd (rr_deleteBySessionIds [sid] m)) rid =
           (case map_of m rid of None \<Rightarrow> None | Some r \<Rightarrow> if run_sessionId r = Some sid then None else Some r)"
    using map_of_filter_snd [OF wf, of "\<lambda>r. \<not> (truthy (run_sessionId r) \<and> the (run_sessionId r) \<in> set [sid])" rid]
    by (auto simp: rr_deleteBySessionIds_def Let_def doomed simp del: list.set split: option.split)
qed

lemma db_wf_ssr_delete: assumes "db_wf db" shows "db_wf (ssr_delete sid db)"
proof (cases "map_of (db_sessions db) sid = None")
  case True
  with assms show ?thesis by (simp add: ssr_delete_def)
next
  case False
  show ?thesis
    unfolding ssr_delete_present [OF False] using assms
    by (simp add: db_wf_def keyed_delete mr_wf_delete pq_wf_deleteSession es_wf_deleteBySessionIds
        sr_deleteByRunIds_items tr_deleteBySessionIds_def nr_deleteBySessionIds_def keyed_filter
        rr_deleteBySessionIds_def Let_def)
qed

text \<open>
  C22: Deleting a stored session removes everything that belongs to it, and nothing else: its
  messages and engine messages, its runs and their steps, its events, its waiting runs, and the
  agent tasks and notifications that name it as parent or child; every other row stays, and the
  store stays well formed.
\<close>

theorem session_delete_cascades:
  assumes "db_wf db" and "sid \<noteq> []" and "map_of (db_sessions db) sid \<noteq> None"
  shows "db_wf (ssr_delete sid db) \<and> without_session sid db (ssr_delete sid db)"
proof -
  have runs: "keyed run_id (db_runs db)" and mr: "mr_wf (db_messages db)" and sr: "sr_wf (db_steps db)"
    and pq: "pq_wf (db_pending db)" using assms(1) by (auto simp: db_wf_def)
  note del = rr_deleted_runs [OF runs assms(2)]
  have "pq_order (AList.delete sid (db_pending db)) = (pq_order (db_pending db))(sid := [])"
    using pq_runs_upd [of "AList.delete sid (db_pending db)" "db_pending db" sid "[]"]
    by (simp add: pq_order_runs pq pq_wf_deleteSession)
  then have "without_session sid db (ssr_delete sid db)"
    unfolding ssr_delete_present [OF assms(3)] without_session_def
    by (auto simp: ssr_getById_def jmap_get_delete mr_delete_list [OF mr] emr_listBySessionId_def
        rr_getById_def del sr_deleteByRunIds_list [OF sr] es_deleteBySessionIds_log
        tr_deleteBySessionIds_def nr_deleteBySessionIds_def run_of_session_def split: option.split)
  with db_wf_ssr_delete [OF assms(1)] show ?thesis by blast
qed

definition store_example :: memory_db where
  "store_example =
     (let s = (\<lambda>i. \<lparr>session_id = i, session_workspaceId = ''w'', session_parentSessionId = None,
                 session_subjectRef = ''u'', session_modelRef = None, session_agentName = None,
                 session_activeAgentName = ''build'', session_workspaceMemory = None,
                 session_title = None, session_status = SessionActive, session_lastRunAt = None,
                 session_createdAt = ''t'', session_updatedAt = ''t''\<rparr>);
          r = (\<lambda>i sid. \<lparr>run_id = i, run_workspaceId = ''w'', run_sessionId = Some sid,
                 run_parentRunId = None, run_initiatorRef = None, run_triggerType = TriggerMessage,
                 run_triggerRef = None, run_agentName = None, run_effectiveAgentName = ''build'',
                 run_switchCount = None, run_status = Queued, run_cancelRequestedAt = None,
                 run_startedAt = None, run_heartbeatAt = None, run_endedAt = None,
                 run_createdAt = ''t'', run_errorCode = None, run_errorMessage = None,
                 run_metadata = None\<rparr>)
      in createMemoryRuntimePersistence
           \<lparr>db_sessions := snd (ssr_create (s ''a'') (snd (ssr_create (s ''b'') []))),
            db_runs := snd (rr_create (r ''r1'' ''a'') (snd (rr_create (r ''r2'' ''b'') [])))\<rparr>)"

lemma db_wf_store_example: "db_wf store_example"
  using db_wf_empty
  by (simp add: db_wf_def store_example_def Let_def ssr_create_def rr_create_def keyed_def jmap_wf_def)

theorem session_delete_cascades_witness:
  "without_session ''a'' store_example (ssr_delete ''a'' store_example) \<and>
   map fst (db_runs (ssr_delete ''a'' store_example)) = [''r2'']"
proof
  have "map_of (db_sessions store_example) ''a'' \<noteq> None" by code_simp
  with session_delete_cascades [OF db_wf_store_example, of "''a''"]
  show "without_session ''a'' store_example (ssr_delete ''a'' store_example)" by simp
  show "map fst (db_runs (ssr_delete ''a'' store_example)) = [''r2'']" by code_simp
qed

subsection \<open>Deleting a workspace\<close>

lemma ssr_delete_runs_sessions:
  assumes "db_wf db" and "sid \<noteq> []" and "map_of (db_sessions db) sid \<noteq> None"
  shows "map_of (db_sessions (ssr_delete sid db)) k = (if k = sid then None else map_of (db_sessions db) k)"
    and "map_of (db_runs (ssr_delete sid db)) k =
      (case map_of (db_runs db) k of None \<Rightarrow> None | Some r \<Rightarrow> if run_sessionId r = Some sid then None else Some r)"
  using rr_deleted_runs [of "db_runs db" sid] assms(1,2)
  by (simp_all add: ssr_delete_present [OF assms(3)] jmap_get_delete db_wf_def)

lemma fold_ssr_delete:
  assumes "db_wf db" and "distinct sids"
    and "\<And>sid. sid \<in> set sids \<Longrightarrow> sid \<noteq> [] \<and> map_of (db_sessions db) sid \<noteq> None"
  shows "db_wf (fold ssr_delete sids db) \<and>
    (\<forall>k. map_of (db_sessions (fold ssr_delete sids db)) k = (if k \<in> set sids then None else map_of (db_sessions db) k)) \<and>
    (\<forall>k. map_of (db_runs (fold ssr_delete sids db)) k =
      (case map_of (db_runs db) k of None \<Rightarrow> None
       | Some r \<Rightarrow> if \<exists>sid\<in>set sids. run_sessionId r = Some sid then None else Some r))"
  using assms
proof (induction sids arbitrary: db)
  case Nil
  then show ?case by (simp split: option.split)
next
  case (Cons sid sids)
  have sid: "sid \<noteq> []" "map_of (db_sessions db) sid \<noteq> None" using Cons.prems(3) by auto
  note one = ssr_delete_runs_sessions [OF Cons.prems(1) sid]
  have "\<And>s. s \<in> set sids \<Longrightarrow> s \<noteq> [] \<and> map_of (db_sessions (ssr_delete sid db)) s \<noteq> None"
    using Cons.prems(2,3) unfolding one by auto
  with Cons.IH [OF db_wf_ssr_delete [OF Cons.prems(1)]] Cons.prems(2)
  show ?case by (auto simp: one split: option.split)
qed

text \<open>
  Deleting a workspace leaves a well-formed store without that workspace, without any
  session of it and without any run that ran in it or in one of its sessions; all other
  workspaces, sessions and runs stay.
\<close>

theorem workspace_delete_cascades:
  assumes "db_wf db" and "map_of (db_sessions db) [] = None"
  shows "db_wf (wsr_delete wid db) \<and>
    (\<forall>k. wsr_getById k (db_workspaces (wsr_delete wid db)) =
       (if k = wid then None else wsr_getById k (db_workspaces db))) \<and>
    (\<forall>k. ssr_getById k (db_sessions (wsr_delete wid db)) =
       (case ssr_getById k (db_sessions db) of None \<Rightarrow> None
        | Some s \<Rightarrow> if session_workspaceId s = wid then None else Some s)) \<and>
    (\<forall>k. rr_getById k (db_runs (wsr_delete wid db)) =
       (case rr_getById k (db_runs db) of None \<Rightarrow> None
        | Some r \<Rightarrow> if run_workspaceId r = wid \<or>
              (\<exists>sid s. run_sessionId r = Some sid \<and> ssr_getById sid (db_sessions db) = Some s \<and>
                       session_workspaceId s = wid)
            then None else Some r))"
proof -
  define sids where
    "sids = map session_id (filter (\<lambda>s. session_workspaceId s = wid) (jmap_values (db_sessions db)))"
  let ?db1 = "fold ssr_delete sids db"
  have kw: "keyed session_id (db_sessions db)" using assms(1) by (simp add: db_wf_def)
  then have jw: "jmap_wf (db_sessions db)" and ids: "\<And>k v. map_of (db_sessions db) k = Some v \<Longrightarrow> session_id v = k"
    by (auto simp: keyed_def)
  have mem: "sid \<in> set sids \<longleftrightarrow> (\<exists>s. map_of (db_sessions db) sid = Some s \<and> session_workspaceId s = wid)" for sid
  proof
    assume "sid \<in> set sids"
    then obtain s where s: "s \<in> set (jmap_values (db_sessions db))" "session_workspaceId s = wid" "session_id s = sid"
      by (auto simp: sids_def)
    from s(1) obtain k where k: "map_of (db_sessions db) k = Some s" by (auto simp: jmap_get_values [OF jw])
    then have "k = sid" using ids [of k s] s(3) by simp
    then show "\<exists>s. map_of (db_sessions db) sid = Some s \<and> session_workspaceId s = wid" using k s(2) by blast
  next
    assume "\<exists>s. map_of (db_sessions db) sid = Some s \<and> session_workspaceId s = wid"
    then obtain s where s: "map_of (db_sessions db) sid = Some s" "session_workspaceId s = wid" by blast
    then have "s \<in> set (jmap_values (db_sessions db))" by (auto simp: jmap_get_values [OF jw])
    then show "sid \<in> set sids" using s ids [of sid s] by (auto simp: sids_def)
  qed
  have "map session_id (jmap_values (db_sessions db)) = map fst (db_sessions db)"
    using jw ids by (auto simp: jmap_values_def jmap_wf_def map_of_eq_Some_iff)
  then have dist: "distinct sids" using jw unfolding sids_def by (intro distinct_map_filter) (simp add: jmap_wf_def)
  have "\<And>sid. sid \<in> set sids \<Longrightarrow> sid \<noteq> [] \<and> map_of (db_sessions db) sid \<noteq> None"
    unfolding mem using assms(2) by auto
  note fold = fold_ssr_delete [OF assms(1) dist this]
  then have wf1: "db_wf ?db1" by blast
  have ws1: "db_workspaces (fold ssr_delete sids d) = db_workspaces d" for sids d
    by (induction sids arbitrary: d) (auto simp: ssr_delete_def deleteSessionArtifacts_def Let_def split_def)
  have w: "wsr_delete wid db =
     ?db1\<lparr>db_workspaces := AList.delete wid (db_workspaces db),
          db_runs := snd (rr_deleteByWorkspaceId wid (db_runs ?db1)),
          db_steps := sr_deleteByRunIds (fst (rr_deleteByWorkspaceId wid (db_runs ?db1))) (db_steps ?db1),
          db_tasks := tr_deleteByWorkspaceId wid (db_tasks ?db1),
          db_notifications := nr_deleteByWorkspaceId wid (db_notifications ?db1)\<rparr>"
    by (simp add: wsr_delete_def ssr_deleteByWorkspaceId_def Let_def split_def ws1 sids_def [symmetric])
  have wf: "db_wf (wsr_delete wid db)"
    unfolding w using wf1 assms(1)
    by (simp add: db_wf_def keyed_delete rr_deleteByWorkspaceId_def keyed_filter sr_deleteByRunIds_items
        tr_deleteByWorkspaceId_def nr_deleteByWorkspaceId_def)
  have "jmap_wf (db_runs ?db1)" using wf1 by (simp add: db_wf_def keyed_def)
  note runs = map_of_filter_snd [OF this, of "\<lambda>r. run_workspaceId r \<noteq> wid"]
  have "map_of (db_runs (wsr_delete wid db)) k =
      (case map_of (db_runs db) k of None \<Rightarrow> None
        | Some r \<Rightarrow> if run_workspaceId r = wid \<or> (\<exists>sid\<in>set sids. run_sessionId r = Some sid)
            then None else Some r)" for k
    using fold unfolding w by (simp add: rr_deleteByWorkspaceId_def runs split: option.split)
  moreover have "map_of (db_sessions (wsr_delete wid db)) k = (if k \<in> set sids then None else map_of (db_sessions db) k)" for k
    using fold unfolding w by simp
  moreover have "map_of (db_workspaces (wsr_delete wid db)) k = (if k = wid then None else map_of (db_workspaces db) k)" for k
    unfolding w by (simp add: jmap_get_delete)
  ultimately show ?thesis
    using wf unfolding wsr_getById_def ssr_getById_def rr_getById_def mem Bex_def
    by (auto split: option.split)
qed

theorem workspace_delete_cascades_witness:
  "db_sessions (wsr_delete ''w'' store_example) = [] \<and>
   ssr_getById ''a'' (db_sessions (wsr_delete ''w'' store_example)) = None"
proof -
  have "map_of (db_sessions store_example) [] = None" by code_simp
  from workspace_delete_cascades [OF db_wf_store_example this, of "''w''"]
  have *: "ssr_getById ''a'' (db_sessions (wsr_delete ''w'' store_example)) =
     (case ssr_getById ''a'' (db_sessions store_example) of None \<Rightarrow> None
        | Some s \<Rightarrow> if session_workspaceId s = ''w'' then None else Some s)" by blast
  have "ssr_getById ''a'' (db_sessions (wsr_delete ''w'' store_example)) = None"
    unfolding * by code_simp
  moreover have "db_sessions (wsr_delete ''w'' store_example) = []" by code_simp
  ultimately show ?thesis by simp
qed

end
