(* ===== verification/Engine_State.thy ===== *)
theory Engine_State
  imports Memory_Store
begin

text \<open>
  The state the services of \<open>packages/engine-core/src/engine\<close> work on: the persistence, the
  optional archive (the calls of \<open>archiveSessionTree\<close>), the calls of \<open>enqueueRun\<close> and
  of \<open>requestRunCancellation\<close> in order, the abort controllers of the runs being processed with
  whether they were aborted, the runs taken from their worker after a drain timeout, and the
  sources of times and of fresh ids, which are read at a counter: \<open>nowIso()\<close> and \<open>createId(prefix)\<close> are the values of two arbitrary
  functions there.
\<close>

record engine_state =
  st_db :: memory_db
  st_archive :: "(string \<times> string list) list option"
  st_dispatched :: "(string \<times> string) list"
  st_cancelRequests :: "string list"
  st_runAbortControllers :: "(string \<times> bool) list"
  st_drainTimeoutRecoveredRuns :: "string list"
  st_clock :: "nat \<Rightarrow> string"
  st_ids :: "nat \<Rightarrow> string"
  st_tick :: nat

type_synonym 'a eng = "(engine_state, 'a) act"

definition nowIso :: "string eng" where
  "nowIso st = (Inr (st_clock st (st_tick st)), st\<lparr>st_tick := st_tick st + 1\<rparr>)"

definition createId :: "string \<Rightarrow> string eng" where
  "createId prefix st = (Inr (prefix @ ''_'' @ st_ids st (st_tick st)), st\<lparr>st_tick := st_tick st + 1\<rparr>)"

definition on_runs :: "(run_repo, 'a) act \<Rightarrow> 'a eng" where
  "on_runs f st =
     (let (res, runs) = f (db_runs (st_db st)) in (res, st\<lparr>st_db := st_db st\<lparr>db_runs := runs\<rparr>\<rparr>))"

definition on_steps :: "(step_repo, 'a) act \<Rightarrow> 'a eng" where
  "on_steps f st =
     (let (res, steps) = f (db_steps (st_db st)) in (res, st\<lparr>st_db := st_db st\<lparr>db_steps := steps\<rparr>\<rparr>))"

definition on_sessions :: "(session_repo, 'a) act \<Rightarrow> 'a eng" where
  "on_sessions f st =
     (let (res, ss) = f (db_sessions (st_db st)) in (res, st\<lparr>st_db := st_db st\<lparr>db_sessions := ss\<rparr>\<rparr>))"

definition on_messages :: "(message_repo, 'a) act \<Rightarrow> 'a eng" where
  "on_messages f st =
     (let (res, ms) = f (db_messages (st_db st)) in (res, st\<lparr>st_db := st_db st\<lparr>db_messages := ms\<rparr>\<rparr>))"

definition on_pending :: "(pending_queue \<Rightarrow> 'a \<times> pending_queue) \<Rightarrow> 'a eng" where
  "on_pending f st =
     (let (res, q) = f (db_pending (st_db st)) in (Inr res, st\<lparr>st_db := st_db st\<lparr>db_pending := q\<rparr>\<rparr>))"

definition read_db :: "(memory_db \<Rightarrow> 'a) \<Rightarrow> 'a eng" where
  "read_db f st = (Inr (f (st_db st)), st)"

text \<open>A method of a repository that cannot throw, as an action.\<close>

definition total :: "('s \<Rightarrow> 'a \<times> 's) \<Rightarrow> ('s, 'a) act" where
  "total f s = (let (x, s') = f s in (Inr x, s'))"

definition appendEvent :: "event_input \<Rightarrow> session_event eng" where
  "appendEvent inp =
     act_bind (createId ''evt'') (\<lambda>i. act_bind nowIso (\<lambda>t st.
       case es_append i t inp (db_events (st_db st)) of
         (event, listeners, ev') \<Rightarrow> (Inr event, st\<lparr>st_db := st_db st\<lparr>db_events := ev'\<rparr>\<rparr>)))"

definition enqueueRun :: "string \<Rightarrow> string \<Rightarrow> unit eng" where
  "enqueueRun sid rid st = (Inr (), st\<lparr>st_dispatched := st_dispatched st @ [(sid, rid)]\<rparr>)"

definition requestRunCancellation :: "string \<Rightarrow> unit eng" where
  "requestRunCancellation rid st = (Inr (), st\<lparr>st_cancelRequests := st_cancelRequests st @ [rid]\<rparr>)"

text \<open>The loop \<open>for (const x of xs) await f(x)\<close>.\<close>

fun for_each :: "('a \<Rightarrow> unit eng) \<Rightarrow> 'a list \<Rightarrow> unit eng" where
  "for_each f [] = act_return ()"
| "for_each f (x # xs) = act_bind (f x) (\<lambda>_. for_each f xs)"

subsection \<open>Evaluation of actions\<close>

lemma act_bind_run [simp]: "act_bind m f s = (case m s of (Inl e, s') \<Rightarrow> (Inl e, s') | (Inr x, s') \<Rightarrow> f x s')"
  by (simp add: act_bind_def)

lemma act_return_run [simp]: "act_return x s = (Inr x, s)"
  by (simp add: act_return_def)

lemma act_throw_run [simp]: "act_throw e s = (Inl e, s)"
  by (simp add: act_throw_def)

lemma act_catch_run [simp]: "act_catch m h s = (case m s of (Inl e, s') \<Rightarrow> h e s' | (Inr x, s') \<Rightarrow> (Inr x, s'))"
  by (simp add: act_catch_def)

lemma nowIso_run [simp]: "nowIso st = (Inr (st_clock st (st_tick st)), st\<lparr>st_tick := st_tick st + 1\<rparr>)"
  by (simp add: nowIso_def)

lemma createId_run [simp]:
  "createId p st = (Inr (p @ ''_'' @ st_ids st (st_tick st)), st\<lparr>st_tick := st_tick st + 1\<rparr>)"
  by (simp add: createId_def)

lemma read_db_run [simp]: "read_db f st = (Inr (f (st_db st)), st)"
  by (simp add: read_db_def)

lemma enqueueRun_run [simp]: "enqueueRun sid rid st = (Inr (), st\<lparr>st_dispatched := st_dispatched st @ [(sid, rid)]\<rparr>)"
  by (simp add: enqueueRun_def)

lemma requestRunCancellation_run [simp]:
  "requestRunCancellation rid st = (Inr (), st\<lparr>st_cancelRequests := st_cancelRequests st @ [rid]\<rparr>)"
  by (simp add: requestRunCancellation_def)

text \<open>
  Appending an event always succeeds and changes only the events and the counter.
\<close>

lemma appendEvent_run:
  "\<exists>e ev'. appendEvent inp st =
     (Inr e, st\<lparr>st_tick := st_tick st + 2, st_db := st_db st\<lparr>db_events := ev'\<rparr>\<rparr>) \<and>
     ev' = snd (snd (es_append (''evt_'' @ st_ids st (st_tick st)) (st_clock st (st_tick st + 1)) inp (db_events (st_db st))))"
  by (auto simp: appendEvent_def split_def)

end
