(* ===== verification/Run_State.thy ===== *)
theory Run_State
  imports Engine_State
begin

text \<open>
  The life of a run: \<open>packages/engine-core/src/engine/run-state.ts\<close> (statuses and the
  transitions between them) and \<open>engine/run-steps.ts\<close> (the numbered steps of a run).
  The methods take the run as their caller last read it, as in the code: the check of a transition
  is against that snapshot.
\<close>

fun canTransitionRunStatus :: "run_status \<Rightarrow> run_status \<Rightarrow> bool" where
  "canTransitionRunStatus frm to =
     (if frm = to then True
      else case frm of
        Queued \<Rightarrow> to = Running \<or> to = Cancelled \<or> to = Failed
      | Running \<Rightarrow> to = WaitingTool \<or> to = Completed \<or> to = Failed \<or> to = Cancelled \<or> to = TimedOut
      | WaitingTool \<Rightarrow> to = Running \<or> to = Completed \<or> to = Failed \<or> to = Cancelled \<or> to = TimedOut
      | _ \<Rightarrow> False)"

declare canTransitionRunStatus.simps [simp del]

lemma canTransition_refl [simp]: "canTransitionRunStatus s s"
  by (simp add: canTransitionRunStatus.simps)

lemma canTransition_terminal: "terminal_status s \<Longrightarrow> canTransitionRunStatus s t \<longleftrightarrow> t = s"
  by (cases s; cases t) (simp_all add: canTransitionRunStatus.simps terminal_status_iff)

lemma canTransition_Queued: "canTransitionRunStatus Queued t \<longleftrightarrow> t \<in> {Queued, Running, Cancelled, Failed}"
  by (cases t) (simp_all add: canTransitionRunStatus.simps)

definition isRunNotFoundError :: "app_error \<Rightarrow> bool" where
  "isRunNotFoundError e \<longleftrightarrow> hasAppErrorCode e ''run_not_found'' (Some 404)"

definition getRun :: "string \<Rightarrow> run eng" where
  "getRun rid =
     act_bind (read_db (\<lambda>db. rr_getById rid (db_runs db))) (\<lambda>r.
       case r of None \<Rightarrow> act_throw (AppError 404 ''run_not_found'') | Some run \<Rightarrow> act_return run)"

text \<open>A patch of some fields of a run is the function that sets them.\<close>

definition updateRun :: "run \<Rightarrow> (run \<Rightarrow> run) \<Rightarrow> run eng" where
  "updateRun run patch = on_runs (rr_update (patch run))"

definition setRunStatus :: "run \<Rightarrow> run_status \<Rightarrow> (run \<Rightarrow> run) \<Rightarrow> run eng" where
  "setRunStatus run nextStatus patch =
     (if \<not> canTransitionRunStatus (run_status run) nextStatus
      then act_throw (AppError 409 ''invalid_run_transition'')
      else updateRun run (\<lambda>r. (patch r)\<lparr>run_status := nextStatus\<rparr>))"

definition setRunStatusIfPossible :: "string \<Rightarrow> run_status \<Rightarrow> unit eng" where
  "setRunStatusIfPossible rid nextStatus =
     act_catch
       (act_bind (getRun rid) (\<lambda>run.
          if run_status run = nextStatus \<or> \<not> canTransitionRunStatus (run_status run) nextStatus
          then act_return ()
          else act_bind (setRunStatus run nextStatus id) (\<lambda>_. act_return ())))
       (\<lambda>e. if isRunNotFoundError e then act_return () else act_throw e)"

definition refreshRunHeartbeat :: "string \<Rightarrow> unit eng" where
  "refreshRunHeartbeat rid =
     act_catch
       (act_bind (getRun rid) (\<lambda>run.
          if run_status run \<noteq> Running \<and> run_status run \<noteq> WaitingTool then act_return ()
          else act_bind nowIso (\<lambda>t.
            act_bind (updateRun run (run_heartbeatAt_update (\<lambda>_. Some t))) (\<lambda>_. act_return ()))))
       (\<lambda>e. if isRunNotFoundError e then act_return () else act_throw e)"

definition markRunTimedOut :: "run \<Rightarrow> nat option \<Rightarrow> run eng" where
  "markRunTimedOut run runTimeoutMs =
     (if run_status run = TimedOut then act_return run
      else act_bind nowIso (\<lambda>t.
        setRunStatus run TimedOut (\<lambda>r. r\<lparr>run_endedAt := Some t,
          run_errorCode := Some ''run_timed_out'',
          run_errorMessage := Some (case runTimeoutMs of
             Some n \<Rightarrow> ''Run exceeded configured timeout of '' @ js_show n @ ''ms.''
           | None \<Rightarrow> ''Run exceeded the configured timeout.'')\<rparr>)))"

subsection \<open>Steps\<close>

record step_input =
  si_runId :: string
  si_stepType :: step_type
  si_name :: "string option"
  si_agentName :: "string option"
  si_input :: "json option"

definition startRunStep :: "step_input \<Rightarrow> run_step eng" where
  "startRunStep inp =
     act_bind (read_db (\<lambda>db. sr_listByRunId (si_runId inp) (db_steps db))) (\<lambda>existingSteps.
     act_bind (createId ''step'') (\<lambda>i. act_bind nowIso (\<lambda>t.
       on_steps (total (sr_create
         \<lparr>step_id = i, step_runId = si_runId inp, step_seq = length existingSteps + 1,
          step_stepType = si_stepType inp, step_name = keep_truthy (si_name inp),
          step_agentName = keep_truthy (si_agentName inp), step_status = StepRunning,
          step_input = si_input inp, step_output = None, step_startedAt = Some t,
          step_endedAt = None\<rparr>)))))"

definition completeRunStep :: "run_step \<Rightarrow> step_status \<Rightarrow> json option \<Rightarrow> run_step eng" where
  "completeRunStep step status output =
     act_bind nowIso (\<lambda>t.
       on_steps (sr_update (step\<lparr>step_status := status,
          step_output := (case output of None \<Rightarrow> step_output step | Some out \<Rightarrow> Some out),
          step_endedAt := Some t\<rparr>)))"

definition recordSystemStep :: "run \<Rightarrow> string \<Rightarrow> json option \<Rightarrow> run_step eng" where
  "recordSystemStep run name output =
     act_bind (startRunStep \<lparr>si_runId = run_id run, si_stepType = StepSystem, si_name = Some name,
         si_agentName = keep_truthy (Some (run_effectiveAgentName run)), si_input = None\<rparr>)
       (\<lambda>step. completeRunStep step StepCompleted output)"

definition markRunCancelled :: "string \<Rightarrow> run \<Rightarrow> unit eng" where
  "markRunCancelled sid run =
     act_bind
       (if run_status run = Cancelled then act_return run
        else act_bind nowIso (\<lambda>t.
          act_bind (case run_cancelRequestedAt run of Some c \<Rightarrow> act_return c | None \<Rightarrow> nowIso) (\<lambda>c.
            setRunStatus run Cancelled (\<lambda>r. r\<lparr>run_endedAt := Some t, run_cancelRequestedAt := Some c\<rparr>))))
     (\<lambda>cancelledRun.
       act_bind (recordSystemStep cancelledRun ''run.cancelled'' (Some (JObj [(''status'', JStr ''cancelled'')]))) (\<lambda>_.
       act_bind (appendEvent \<lparr>evi_sessionId = sid, evi_runId = Some (run_id cancelledRun), evi_event = EvRunCancelled,
          evi_data = JObj [(''runId'', JStr (run_id cancelledRun)), (''sessionId'', JStr sid), (''status'', JStr ''cancelled'')]\<rparr>)
         (\<lambda>_. act_return ())))"

subsection \<open>The status machine\<close>

text \<open>
  A call of one of the methods, with the run its caller hands over: the run as it was read at any earlier time, or
  any other. A patch leaves the id of the run, and may set its status.
\<close>

datatype run_call =
    SetStatus run run_status "run \<Rightarrow> run"
  | SetStatusIfPossible string run_status
  | Heartbeat string
  | TimeOut run "nat option"
  | Cancel string run
  | Update run "run \<Rightarrow> run"

definition same_id :: "(run \<Rightarrow> run) \<Rightarrow> run \<Rightarrow> run" where
  "same_id patch r = (patch r)\<lparr>run_id := run_id r\<rparr>"

fun run_exec :: "run_call \<Rightarrow> engine_state \<Rightarrow> engine_state" where
  "run_exec (SetStatus run s patch) st = snd (setRunStatus run s (same_id patch) st)"
| "run_exec (SetStatusIfPossible rid s) st = snd (setRunStatusIfPossible rid s st)"
| "run_exec (Heartbeat rid) st = snd (refreshRunHeartbeat rid st)"
| "run_exec (TimeOut run ms) st = snd (markRunTimedOut run ms st)"
| "run_exec (Cancel sid run) st = snd (markRunCancelled sid run st)"
| "run_exec (Update run patch) st = snd (updateRun run (same_id patch) st)"

fun run_trace :: "run_call list \<Rightarrow> engine_state \<Rightarrow> engine_state list" where
  "run_trace [] st = [st]"
| "run_trace (x # xs) st = st # run_trace xs (run_exec x st)"

definition status_of :: "string \<Rightarrow> engine_state \<Rightarrow> run_status option" where
  "status_of rid st = map_option run_status (rr_getById rid (db_runs (st_db st)))"

definition status_moves :: "run_status option \<Rightarrow> run_status option \<Rightarrow> bool" where
  "status_moves a b \<longleftrightarrow>
     (case (a, b) of (None, None) \<Rightarrow> True | (Some s, Some t) \<Rightarrow> canTransitionRunStatus s t | _ \<Rightarrow> False)"

text \<open>
  A call is regular for a run unless it hands over that run with a status that is not the stored one, or is an
  \<open>updateRun\<close> whose patch changes the status: those two can move the status anywhere.
\<close>

fun handed_over :: "run_call \<Rightarrow> run option" where
  "handed_over (SetStatus run s patch) = Some run"
| "handed_over (SetStatusIfPossible rid s) = None"
| "handed_over (Heartbeat rid) = None"
| "handed_over (TimeOut run ms) = Some run"
| "handed_over (Cancel sid run) = Some run"
| "handed_over (Update run patch) = Some run"

definition stale_call :: "string \<Rightarrow> run_call \<Rightarrow> engine_state \<Rightarrow> bool" where
  "stale_call rid x st \<longleftrightarrow>
     (case handed_over x of
        None \<Rightarrow> False
      | Some run \<Rightarrow> run_id run = rid \<and> status_of rid st \<noteq> None \<and> status_of rid st \<noteq> Some (run_status run))"

definition overriding_call :: "string \<Rightarrow> run_call \<Rightarrow> bool" where
  "overriding_call rid x \<longleftrightarrow>
     (case x of Update run patch \<Rightarrow> run_id run = rid \<and> run_status (patch run) \<noteq> run_status run | _ \<Rightarrow> False)"

definition regular_call :: "string \<Rightarrow> run_call \<Rightarrow> engine_state \<Rightarrow> bool" where
  "regular_call rid x st \<longleftrightarrow> \<not> stale_call rid x st \<and> \<not> overriding_call rid x"

definition runs_of :: "engine_state \<Rightarrow> run_repo" where
  "runs_of st = db_runs (st_db st)"

definition good_step :: "engine_state \<Rightarrow> engine_state \<Rightarrow> bool" where
  "good_step st st' \<longleftrightarrow> keyed run_id (runs_of st') \<and> (\<forall>rid. status_moves (status_of rid st) (status_of rid st'))"

lemma status_moves_refl [simp]: "status_moves a a"
  by (cases a) (simp_all add: status_moves_def)

lemma status_moves_Some [simp]: "status_moves (Some s) (Some t) = canTransitionRunStatus s t"
  by (simp add: status_moves_def)

lemma good_step_same: "keyed run_id (runs_of st) \<Longrightarrow> runs_of st' = runs_of st \<Longrightarrow> good_step st st'"
  by (simp add: good_step_def runs_of_def status_of_def)

lemma getRun_run:
  "getRun rid st = (case map_of (runs_of st) rid of
     None \<Rightarrow> (Inl (AppError 404 ''run_not_found''), st) | Some r \<Rightarrow> (Inr r, st))"
  by (simp add: getRun_def rr_getById_def runs_of_def split: option.split)

lemma updateRun_stored:
  assumes "map_of (runs_of st) (run_id run) \<noteq> None" and "run_id (patch run) = run_id run"
  shows "updateRun run patch st = (Inr (patch run),
     st\<lparr>st_db := st_db st\<lparr>db_runs := AList.update (run_id run) (patch run) (runs_of st)\<rparr>\<rparr>)"
  using assms by (simp add: updateRun_def on_runs_def rr_update_def runs_of_def split_def)

lemma good_step_update:
  assumes "keyed run_id (runs_of st)" and "map_of (runs_of st) rid = Some run"
    and "run_id run' = rid" and "canTransitionRunStatus (run_status run) (run_status run')"
    and "runs_of st' = AList.update rid run' (runs_of st)"
  shows "good_step st st'"
  unfolding good_step_def
proof (intro conjI allI)
  show "keyed run_id (runs_of st')"
    using keyed_update [OF assms(1), of run'] assms(3,5) by simp
  fix k
  show "status_moves (status_of k st) (status_of k st')"
  proof (cases "k = rid")
    case True
    then have "status_of k st = Some (run_status run)" "status_of k st' = Some (run_status run')"
      using assms(2,5) by (simp_all add: status_of_def rr_getById_def runs_of_def jmap_get_set)
    with assms(4) show ?thesis by (simp add: status_moves_def)
  next
    case False
    then have "status_of k st' = status_of k st"
      using assms(5) by (simp add: status_of_def rr_getById_def runs_of_def jmap_get_set)
    then show ?thesis by simp
  qed
qed

lemma keyed_id: "keyed run_id m \<Longrightarrow> map_of m rid = Some run \<Longrightarrow> run_id run = rid"
  by (auto simp: keyed_def)

lemma setRunStatus_step:
  assumes k: "keyed run_id (runs_of st)" and r: "map_of (runs_of st) rid = Some run"
    and p: "run_id (patch run) = run_id run"
  shows "good_step st (snd (setRunStatus run s patch st))"
proof (cases "canTransitionRunStatus (run_status run) s")
  case True
  have i: "run_id run = rid" by (rule keyed_id [OF k r])
  let ?run' = "(patch run)\<lparr>run_status := s\<rparr>"
  have "setRunStatus run s patch st = (Inr ?run',
      st\<lparr>st_db := st_db st\<lparr>db_runs := AList.update rid ?run' (runs_of st)\<rparr>\<rparr>)"
    using updateRun_stored [of st run "\<lambda>r. (patch r)\<lparr>run_status := s\<rparr>"] True r p i
    by (simp add: setRunStatus_def)
  then show ?thesis
    using True p i by (intro good_step_update [OF k r, of ?run']) (simp_all add: runs_of_def)
next
  case False
  then show ?thesis using k by (simp add: setRunStatus_def good_step_same)
qed

lemma steps_keep_runs:
  "runs_of (snd (startRunStep inp st)) = runs_of st"
  "runs_of (snd (completeRunStep step s out st)) = runs_of st"
  "runs_of (snd (appendEvent e st)) = runs_of st"
  by (auto simp: startRunStep_def completeRunStep_def on_steps_def runs_of_def split_def Let_def appendEvent_def)

lemma recordSystemStep_keeps_runs: "runs_of (snd (recordSystemStep run name out st)) = runs_of st"
proof -
  obtain res st1 where "startRunStep \<lparr>si_runId = run_id run, si_stepType = StepSystem, si_name = Some name,
      si_agentName = keep_truthy (Some (run_effectiveAgentName run)), si_input = None\<rparr> st = (res, st1)"
    by fastforce
  moreover from this have "runs_of st1 = runs_of st" by (metis snd_conv steps_keep_runs(1))
  ultimately show ?thesis
    by (cases res) (simp_all add: recordSystemStep_def steps_keep_runs del: keep_truthy_simps)
qed

lemma cancelled_tail_keeps_runs:
  "runs_of (snd (act_bind (recordSystemStep run name out) (\<lambda>_. act_bind (appendEvent e) (\<lambda>_. act_return ())) st)) = runs_of st"
proof -
  obtain res st1 where r: "recordSystemStep run name out st = (res, st1)" by fastforce
  then have r1: "runs_of st1 = runs_of st" by (metis snd_conv recordSystemStep_keeps_runs)
  obtain res2 st2 where e: "appendEvent e st1 = (res2, st2)" by fastforce
  then have "runs_of st2 = runs_of st1" by (metis snd_conv steps_keep_runs(3))
  with r r1 e show ?thesis by (cases res; cases res2) simp_all
qed

lemma good_step_tail: "good_step st st1 \<Longrightarrow> runs_of st2 = runs_of st1 \<Longrightarrow> good_step st st2"
  by (simp add: good_step_def runs_of_def status_of_def)

lemma runs_of_tick [simp]: "runs_of (st\<lparr>st_tick := n\<rparr>) = runs_of st"
  by (simp add: runs_of_def)

lemma good_step_tick: "good_step (st\<lparr>st_tick := n\<rparr>) st' \<Longrightarrow> good_step st st'"
  by (simp add: good_step_def runs_of_def status_of_def)

lemma setRunStatus_step_tick:
  assumes "keyed run_id (runs_of st)" and "map_of (runs_of st) rid = Some run"
    and "run_id (patch run) = run_id run"
  shows "good_step st (snd (setRunStatus run s patch (st\<lparr>st_tick := n\<rparr>)))"
  by (rule good_step_tick [where st = st and n = n], rule setRunStatus_step [of _ rid]) (use assms in simp_all)

text \<open>A write of a run that was handed over concerns that run only.\<close>

definition good_for :: "run \<Rightarrow> engine_state \<Rightarrow> engine_state \<Rightarrow> bool" where
  "good_for run st st' \<longleftrightarrow> keyed run_id (runs_of st') \<and>
     (\<forall>rid. run_id run \<noteq> rid \<or> status_of rid st = None \<or> status_of rid st = Some (run_status run) \<longrightarrow>
        status_moves (status_of rid st) (status_of rid st'))"

lemma good_for_same: "keyed run_id (runs_of st) \<Longrightarrow> runs_of st' = runs_of st \<Longrightarrow> good_for run st st'"
  by (simp add: good_for_def runs_of_def status_of_def)

lemma good_for_tail: "good_for run st st1 \<Longrightarrow> runs_of st2 = runs_of st1 \<Longrightarrow> good_for run st st2"
  by (simp add: good_for_def runs_of_def status_of_def)

lemma good_for_tick: "good_for run (st\<lparr>st_tick := n\<rparr>) st' \<Longrightarrow> good_for run st st'"
  by (simp add: good_for_def runs_of_def status_of_def)

lemma updateRun_good:
  assumes k: "keyed run_id (runs_of st)" and p: "run_id (patch run) = run_id run"
    and move: "canTransitionRunStatus (run_status run) (run_status (patch run))"
  shows "good_for run st (snd (updateRun run patch st))"
proof (cases "map_of (runs_of st) (run_id run)")
  case None
  then have "runs_of (snd (updateRun run patch st)) = runs_of st"
    using p by (simp add: updateRun_def on_runs_def rr_update_def runs_of_def act_throw_def)
  with k show ?thesis by (rule good_for_same)
next
  case (Some old)
  let ?st = "snd (updateRun run patch st)"
  have "map_of (runs_of st) (run_id run) \<noteq> None" using Some by simp
  from updateRun_stored [of st run patch, OF this p] have r: "runs_of ?st = AList.update (run_id run) (patch run) (runs_of st)"
    by (simp add: runs_of_def)
  have "keyed run_id (runs_of ?st)" using keyed_update [OF k, of "patch run"] p by (simp add: r)
  moreover have "status_of rid ?st = (if rid = run_id run then Some (run_status (patch run)) else status_of rid st)" for rid
    using r by (simp add: status_of_def rr_getById_def runs_of_def jmap_get_set)
  moreover have "status_of (run_id run) st = Some (run_status old)"
    using Some by (simp add: status_of_def rr_getById_def runs_of_def)
  ultimately show ?thesis
    using move by (simp add: good_for_def status_moves_Some)
qed

lemma setRunStatus_good:
  assumes "keyed run_id (runs_of st)" "run_id (patch run) = run_id run"
  shows "good_for run st (snd (setRunStatus run s patch st))"
  using assms by (simp add: setRunStatus_def good_for_same updateRun_good)

lemma setRunStatus_good_tick:
  assumes "keyed run_id (runs_of st)" "run_id (patch run) = run_id run"
  shows "good_for run st (snd (setRunStatus run s patch (st\<lparr>st_tick := n\<rparr>)))"
  by (rule good_for_tick [where n = n], rule setRunStatus_good) (use assms in simp_all)

lemma run_exec_SetStatus: "keyed run_id (runs_of st) \<Longrightarrow> good_for run st (run_exec (SetStatus run s patch) st)"
  by (simp add: setRunStatus_good same_id_def)

lemma run_exec_IfPossible:
  assumes "keyed run_id (runs_of st)" shows "good_step st (run_exec (SetStatusIfPossible rid s) st)"
proof (cases "map_of (runs_of st) rid")
  case None
  then show ?thesis using assms
    by (simp add: setRunStatusIfPossible_def getRun_run good_step_same isRunNotFoundError_def hasAppErrorCode_def)
next
  case (Some run)
  obtain res st1 where r: "setRunStatus run s id st = (res, st1)" by fastforce
  with setRunStatus_step [OF assms Some, of id s] have "good_step st st1" by simp
  with r Some show ?thesis
    by (cases res) (auto simp: setRunStatusIfPossible_def getRun_run good_step_same assms)
qed

lemma run_exec_Heartbeat:
  assumes "keyed run_id (runs_of st)" shows "good_step st (run_exec (Heartbeat rid) st)"
proof (cases "map_of (runs_of st) rid")
  case None
  then show ?thesis using assms
    by (simp add: refreshRunHeartbeat_def getRun_run good_step_same isRunNotFoundError_def hasAppErrorCode_def)
next
  case (Some run)
  have i: "run_id run = rid" by (rule keyed_id [OF assms Some])
  let ?t = "st_clock st (st_tick st)" and ?st = "st\<lparr>st_tick := Suc (st_tick st)\<rparr>"
  have u: "updateRun run (run_heartbeatAt_update (\<lambda>_. Some ?t)) ?st = (Inr (run\<lparr>run_heartbeatAt := Some ?t\<rparr>),
     ?st\<lparr>st_db := st_db ?st\<lparr>db_runs := AList.update rid (run\<lparr>run_heartbeatAt := Some ?t\<rparr>) (runs_of ?st)\<rparr>\<rparr>)"
    using updateRun_stored [of ?st run "run_heartbeatAt_update (\<lambda>_. Some ?t)"] i Some by simp
  show ?thesis
  proof (cases "run_status run = Running \<or> run_status run = WaitingTool")
    case True
    then show ?thesis
      using Some i
      by (auto simp: refreshRunHeartbeat_def getRun_run u runs_of_def
          intro!: good_step_update [OF assms Some, of "run\<lparr>run_heartbeatAt := Some ?t\<rparr>"])
  next
    case False
    then show ?thesis using Some by (simp add: refreshRunHeartbeat_def getRun_run good_step_same assms)
  qed
qed

lemma run_exec_TimeOut: "keyed run_id (runs_of st) \<Longrightarrow> good_for run st (run_exec (TimeOut run ms) st)"
  by (simp add: markRunTimedOut_def good_for_same setRunStatus_good_tick)

lemma run_exec_Cancel:
  assumes k: "keyed run_id (runs_of st)"
  shows "good_for run st (run_exec (Cancel sid run) st)"
proof -
  define head where "head = (if run_status run = Cancelled then act_return run
        else act_bind nowIso (\<lambda>t.
          act_bind (case run_cancelRequestedAt run of Some c \<Rightarrow> act_return c | None \<Rightarrow> nowIso) (\<lambda>c.
            setRunStatus run Cancelled (\<lambda>r. r\<lparr>run_endedAt := Some t, run_cancelRequestedAt := Some c\<rparr>))))"
  obtain res st1 where h: "head st = (res, st1)" by fastforce
  have "good_for run st (snd (head st))"
    using setRunStatus_good_tick [OF k] k by (simp add: head_def good_for_same split: option.split)
  then have g: "good_for run st st1" by (simp add: h)
  define tail where "tail = (\<lambda>c. act_bind (recordSystemStep c ''run.cancelled'' (Some (JObj [(''status'', JStr ''cancelled'')]))) (\<lambda>_.
       act_bind (appendEvent \<lparr>evi_sessionId = sid, evi_runId = Some (run_id c), evi_event = EvRunCancelled,
          evi_data = JObj [(''runId'', JStr (run_id c)), (''sessionId'', JStr sid), (''status'', JStr ''cancelled'')]\<rparr>)
         (\<lambda>_. act_return ())))"
  have "markRunCancelled sid run = act_bind head tail"
    by (simp only: markRunCancelled_def head_def tail_def)
  then have e: "run_exec (Cancel sid run) st = snd (act_bind head tail st)" by simp
  show ?thesis
  proof (cases res)
    case (Inl x)
    then show ?thesis using g h unfolding e by simp
  next
    case (Inr c)
    then have "run_exec (Cancel sid run) st = snd (tail c st1)" using h unfolding e by simp
    then show ?thesis using good_for_tail [OF g cancelled_tail_keeps_runs] by (simp only: tail_def)
  qed
qed

lemma run_exec_Update:
  assumes k: "keyed run_id (runs_of st)"
  shows "keyed run_id (runs_of (run_exec (Update run patch) st))"
    and "regular_call rid (Update run patch) st \<Longrightarrow>
      status_moves (status_of rid st) (status_of rid (run_exec (Update run patch) st))"
proof -
  have u: "updateRun run (same_id patch) st = updateRun run (\<lambda>_. same_id patch run) st" by (simp add: updateRun_def)
  have id: "run_id (same_id patch run) = run_id run" and s: "run_status (same_id patch run) = run_status (patch run)"
    by (simp_all add: same_id_def)
  have "keyed run_id (runs_of (snd (updateRun run (same_id patch) st)))"
  proof (cases "map_of (runs_of st) (run_id run)")
    case None
    then show ?thesis using k id by (simp add: updateRun_def on_runs_def rr_update_def runs_of_def act_throw_def)
  next
    case (Some old)
    then show ?thesis
      using updateRun_stored [of st run "same_id patch"] keyed_update [OF k, of "same_id patch run"] id by (simp add: runs_of_def)
  qed
  then show "keyed run_id (runs_of (run_exec (Update run patch) st))" by simp
  show "status_moves (status_of rid st) (status_of rid (run_exec (Update run patch) st))" if "regular_call rid (Update run patch) st"
  proof (cases "run_id run = rid")
    case True
    then have "run_status (same_id patch run) = run_status run" using that s by (simp add: regular_call_def overriding_call_def)
    then have "good_for run st (run_exec (Update run patch) st)" using updateRun_good [OF k, of "same_id patch" run] id by simp
    then show ?thesis using that True by (auto simp: good_for_def regular_call_def stale_call_def)
  next
    case False
    have "status_of rid (snd (updateRun run (same_id patch) st)) = status_of rid st"
      using False id by (simp add: updateRun_def on_runs_def rr_update_def act_throw_def act_return_def status_of_def rr_getById_def jmap_get_set)
    then show ?thesis by simp
  qed
qed

lemma run_exec_step:
  assumes k: "keyed run_id (runs_of st)"
  shows "keyed run_id (runs_of (run_exec x st)) \<and>
    (regular_call rid x st \<longrightarrow> status_moves (status_of rid st) (status_of rid (run_exec x st)))"
proof -
  have good: ?thesis if "good_step st (run_exec x st)" using that by (simp add: good_step_def)
  have handed: ?thesis if "good_for run st (run_exec x st)" "handed_over x = Some run" for run
    using that by (auto simp: good_for_def regular_call_def stale_call_def)
  show ?thesis
  proof (cases x)
    case (SetStatus run s patch)
    then show ?thesis using handed run_exec_SetStatus [OF k] by simp
  next
    case (SetStatusIfPossible i s)
    then show ?thesis using good run_exec_IfPossible [OF k] by simp
  next
    case (Heartbeat i)
    then show ?thesis using good run_exec_Heartbeat [OF k] by simp
  next
    case (TimeOut run ms)
    then show ?thesis using handed run_exec_TimeOut [OF k] by simp
  next
    case (Cancel sid run)
    then show ?thesis using handed run_exec_Cancel [OF k] by simp
  next
    case (Update run patch)
    then show ?thesis using run_exec_Update [OF k] by blast
  qed
qed

lemma hd_run_trace [simp]: "run_trace xs st \<noteq> [] \<and> hd (run_trace xs st) = st"
  by (cases xs) simp_all

lemma run_trace_nth: "i \<le> length xs \<Longrightarrow> run_trace xs st ! i = fold run_exec (take i xs) st"
  by (induction xs arbitrary: st i) (auto simp: nth_Cons split: nat.split)

lemma length_run_trace [simp]: "length (run_trace xs st) = Suc (length xs)"
  by (induction xs arbitrary: st) auto

lemma keyed_fold: "keyed run_id (runs_of st) \<Longrightarrow> keyed run_id (runs_of (fold run_exec xs st))"
  by (induction xs arbitrary: st) (simp_all add: run_exec_step)

lemma run_trace_step:
  assumes k: "keyed run_id (runs_of st)" and i: "i < length xs" and r: "regular_call rid (xs ! i) (run_trace xs st ! i)"
  shows "status_moves (status_of rid (run_trace xs st ! i)) (status_of rid (run_trace xs st ! Suc i))"
proof -
  have "run_trace xs st ! Suc i = run_exec (xs ! i) (run_trace xs st ! i)"
    using i by (simp add: run_trace_nth take_Suc_conv_app_nth)
  moreover have "keyed run_id (runs_of (run_trace xs st ! i))" using keyed_fold [OF k] i by (simp add: run_trace_nth)
  ultimately show ?thesis using run_exec_step r by metis
qed

lemma run_trace_moves:
  assumes k: "keyed run_id (runs_of st)" and r: "\<And>i. i < length xs \<Longrightarrow> regular_call rid (xs ! i) (run_trace xs st ! i)"
  shows "successively status_moves (map (status_of rid) (run_trace xs st))"
  unfolding successively_conv_nth using run_trace_step [OF k _ r] by simp

lemma status_moves_terminal:
  "successively status_moves ss \<Longrightarrow> ss \<noteq> [] \<Longrightarrow> hd ss = Some s \<Longrightarrow> terminal_status s \<Longrightarrow> set ss = {Some s}"
proof (induction ss)
  case (Cons a ss)
  show ?case
  proof (cases ss)
    case (Cons b bs)
    with Cons.prems have "status_moves (Some s) b" by simp
    then have "b = Some s"
      using Cons.prems(4) by (cases b) (auto simp: status_moves_def canTransition_terminal)
    with Cons.IH Cons.prems Cons show ?thesis by (simp add: successively_Cons)
  qed (use Cons.prems in simp)
qed simp

lemma status_moves_running:
  "successively status_moves ss \<Longrightarrow> ss \<noteq> [] \<Longrightarrow> hd ss = Some Queued \<Longrightarrow> Some Running \<notin> set ss \<Longrightarrow>
     set ss \<subseteq> {Some Queued, Some Cancelled, Some Failed}"
proof (induction ss)
  case (Cons a ss)
  show ?case
  proof (cases ss)
    case (Cons b bs)
    with Cons.prems have m: "status_moves (Some Queued) b" "b \<noteq> Some Running" by auto
    then obtain t where b: "b = Some t" "t \<in> {Queued, Cancelled, Failed}"
      by (cases b) (auto simp: status_moves_def canTransition_Queued)
    have s: "successively status_moves ss" using Cons.prems(1) by (cases ss) auto
    show ?thesis
    proof (cases "t = Queued")
      case True
      with Cons.IH [OF s] Cons.prems b Cons show ?thesis by simp
    next
      case False
      with b have "terminal_status t" by (auto simp: terminal_status_iff)
      then have "set ss = {Some t}" using status_moves_terminal [OF s] b Cons by simp
      with Cons.prems b show ?thesis by auto
    qed
  qed (use Cons.prems in simp)
qed simp

text \<open>
  C9: Over any sequence of calls of the six methods of the run state service, on any runs handed over, the status of a
  run moves along the allowed transitions, except by a call that hands the run over with a status that is no longer the
  stored one, and by an \<open>updateRun\<close> whose patch sets another status (as recovery does to requeue a run). Where
  neither happens to a run, a terminal status is kept, and a queued run is completed, times out or waits for a tool only
  after it ran.
\<close>

theorem run_status_life_cycle:
  assumes "keyed run_id (runs_of st)"
  shows "(\<forall>i<length xs.
      status_moves (status_of rid (run_trace xs st ! i)) (status_of rid (run_trace xs st ! Suc i)) \<or>
      stale_call rid (xs ! i) (run_trace xs st ! i) \<or> overriding_call rid (xs ! i)) \<and>
    ((\<forall>i<length xs. \<not> stale_call rid (xs ! i) (run_trace xs st ! i) \<and> \<not> overriding_call rid (xs ! i)) \<longrightarrow>
      (\<forall>s. status_of rid st = Some s \<and> terminal_status s \<longrightarrow>
         (\<forall>st'\<in>set (run_trace xs st). status_of rid st' = Some s)) \<and>
      (\<forall>st'\<in>set (run_trace xs st). status_of rid st = Some Queued \<and>
          status_of rid st' \<in> {Some Completed, Some TimedOut, Some WaitingTool} \<longrightarrow>
         (\<exists>mid\<in>set (run_trace xs st). status_of rid mid = Some Running)))"
proof (intro conjI impI)
  show "\<forall>i<length xs. status_moves (status_of rid (run_trace xs st ! i)) (status_of rid (run_trace xs st ! Suc i)) \<or>
      stale_call rid (xs ! i) (run_trace xs st ! i) \<or> overriding_call rid (xs ! i)"
    using run_trace_step [OF assms] by (auto simp: regular_call_def)
next
  let ?ss = "map (status_of rid) (run_trace xs st)"
  assume "\<forall>i<length xs. \<not> stale_call rid (xs ! i) (run_trace xs st ! i) \<and> \<not> overriding_call rid (xs ! i)"
  then have m: "successively status_moves ?ss" by (intro run_trace_moves [OF assms]) (simp add: regular_call_def)
  have h: "?ss \<noteq> []" "hd ?ss = status_of rid st" by (simp_all add: hd_map)
  show "\<forall>s. status_of rid st = Some s \<and> terminal_status s \<longrightarrow> (\<forall>st'\<in>set (run_trace xs st). status_of rid st' = Some s)"
    using status_moves_terminal [OF m h(1)] h(2) by force
  have "\<exists>mid\<in>set (run_trace xs st). status_of rid mid = Some Running"
    if "status_of rid st = Some Queued" "st' \<in> set (run_trace xs st)"
      "status_of rid st' \<in> {Some Completed, Some TimedOut, Some WaitingTool}" for st'
  proof (rule ccontr)
    assume "\<not> ?thesis"
    then have "Some Running \<notin> set ?ss" by force
    from status_moves_running [OF m h(1) _ this] h(2) that(1)
    have "status_of rid st' \<in> {Some Queued, Some Cancelled, Some Failed}" using that(2) by auto
    with that(3) show False by auto
  qed
  then show "\<forall>st'\<in>set (run_trace xs st). status_of rid st = Some Queued \<and>
      status_of rid st' \<in> {Some Completed, Some TimedOut, Some WaitingTool} \<longrightarrow>
      (\<exists>mid\<in>set (run_trace xs st). status_of rid mid = Some Running)" by blast
qed

definition engine_example :: engine_state where
  "engine_example = \<lparr>st_db = store_example, st_archive = None, st_dispatched = [], st_cancelRequests = [],
     st_runAbortControllers = [], st_drainTimeoutRecoveredRuns = [], st_clock = (\<lambda>n. ''t''), st_ids = js_show, st_tick = 0\<rparr>"

definition example_run :: run where
  "example_run = the (rr_getById ''r1'' (db_runs store_example))"

definition example_calls :: "run_call list" where
  "example_calls = [SetStatus example_run Running id, SetStatusIfPossible ''r1'' Completed,
     Cancel ''a'' (example_run\<lparr>run_status := Completed\<rparr>)]"

theorem run_status_life_cycle_witness:
  "status_of ''r1'' (last (run_trace example_calls engine_example)) = Some Completed \<and>
   (\<exists>mid\<in>set (run_trace example_calls engine_example). status_of ''r1'' mid = Some Running)"
proof -
  let ?xs = example_calls
  have k: "keyed run_id (runs_of engine_example)"
    using db_wf_store_example by (simp add: runs_of_def engine_example_def db_wf_def)
  have "list_all (\<lambda>i. \<not> stale_call ''r1'' (?xs ! i) (run_trace ?xs engine_example ! i) \<and> \<not> overriding_call ''r1'' (?xs ! i)) [0, 1, 2]"
    by code_simp
  moreover have "i \<in> set [0, 1, 2]" if "i < length ?xs" for i using that by (auto simp: example_calls_def)
  ultimately have regular: "\<forall>i<length ?xs. \<not> stale_call ''r1'' (?xs ! i) (run_trace ?xs engine_example ! i) \<and> \<not> overriding_call ''r1'' (?xs ! i)"
    unfolding list_all_iff by blast
  have "status_of ''r1'' engine_example = Some Queued"
    "status_of ''r1'' (last (run_trace ?xs engine_example)) = Some Completed" by code_simp+
  moreover have "last (run_trace ?xs engine_example) \<in> set (run_trace ?xs engine_example)"
    using hd_run_trace last_in_set by blast
  ultimately show ?thesis using run_status_life_cycle [OF k, of ?xs "''r1''"] regular by blast
qed

text \<open>
  The check of a transition is against the run the caller hands over: a caller that still holds a queued
  run may start it although the stored run is cancelled.
\<close>

lemma stale_snapshot_restarts_run:
  "fst (getRun ''r1'' engine_example) = Inr example_run \<and>
   map (status_of ''r1'') (run_trace [Cancel ''a'' example_run, SetStatus example_run Running id] engine_example) =
     [Some Queued, Some Cancelled, Some Running]"
  by code_simp

subsection \<open>Numbering of steps\<close>

definition steps_numbered :: "step_repo \<Rightarrow> bool" where
  "steps_numbered r \<longleftrightarrow> sr_wf r \<and>
     (\<forall>rid. map step_seq (sr_listByRunId rid r) = [1..<Suc (length (sr_listByRunId rid r))] \<and>
            distinct (or_else (map_of (sr_runStepIds r) rid) []))"

lemma sr_list_all:
  assumes "sr_wf r"
  shows "map step_id (sr_listByRunId rid r) = or_else (map_of (sr_runStepIds r) rid) []"
proof -
  have "map step_id (List.map_filter (map_of (sr_items r)) ids) = ids"
    if "\<And>i. i \<in> set ids \<Longrightarrow> \<exists>s. map_of (sr_items r) i = Some s \<and> step_id s = i" for ids
    using that
  proof (induction ids)
    case (Cons i ids)
    from Cons.prems [of i] obtain s where "map_of (sr_items r) i = Some s" "step_id s = i" by auto
    moreover have "map step_id (List.map_filter (map_of (sr_items r)) ids) = ids"
      using Cons.prems by (intro Cons.IH) simp
    ultimately show ?case by (simp add: List.map_filter_simps)
  qed (simp add: List.map_filter_simps)
  moreover have "\<And>i. i \<in> set (or_else (map_of (sr_runStepIds r) rid) []) \<Longrightarrow>
      \<exists>s. map_of (sr_items r) i = Some s \<and> step_id s = i"
    using assms unfolding sr_wf_def by blast
  ultimately show ?thesis by (simp add: sr_listByRunId_def)
qed

lemma map_filter_snoc:
  "List.map_filter f (xs @ [x]) = List.map_filter f xs @ (case f x of None \<Rightarrow> [] | Some y \<Rightarrow> [y])"
  by (induction xs) (simp_all add: List.map_filter_simps split: option.split)

lemma sr_create_fresh:
  assumes wf: "sr_wf r" and fresh: "map_of (sr_items r) (step_id s) = None"
  shows "sr_wf (snd (sr_create s r))"
    and "sr_listByRunId k (snd (sr_create s r)) =
      (if k = step_runId s then sr_listByRunId k r @ [s] else sr_listByRunId k r)"
    and "or_else (map_of (sr_runStepIds (snd (sr_create s r))) k) [] =
      (if k = step_runId s then or_else (map_of (sr_runStepIds r) k) [] @ [step_id s]
       else or_else (map_of (sr_runStepIds r) k) [])"
proof -
  let ?r = "snd (sr_create s r)"
  have items: "map_of (sr_items ?r) i = (if i = step_id s then Some s else map_of (sr_items r) i)" for i
    by (simp add: sr_create_def Let_def jmap_get_set)
  show ids: "or_else (map_of (sr_runStepIds ?r) k) [] =
      (if k = step_runId s then or_else (map_of (sr_runStepIds r) k) [] @ [step_id s]
       else or_else (map_of (sr_runStepIds r) k) [])" for k
    by (simp add: sr_create_def Let_def jmap_get_set)
  have old: "i \<noteq> step_id s" if "i \<in> set (or_else (map_of (sr_runStepIds r) k) [])" for i k
    using wf fresh that unfolding sr_wf_def by fastforce
  have "jmap_wf (sr_items ?r)" using wf by (simp add: sr_create_def Let_def sr_wf_def)
  moreover have "step_id m = i \<and> i \<in> set (or_else (map_of (sr_runStepIds ?r) (step_runId m)) [])"
    if "map_of (sr_items ?r) i = Some m" for i m
  proof (cases "i = step_id s")
    case True
    then have "m = s" using that by (simp add: items)
    then show ?thesis using True by (simp add: ids)
  next
    case False
    then have "map_of (sr_items r) i = Some m" using that by (simp add: items)
    then have "step_id m = i \<and> i \<in> set (or_else (map_of (sr_runStepIds r) (step_runId m)) [])"
      using wf unfolding sr_wf_def by blast
    then show ?thesis by (cases "step_runId m = step_runId s") (simp_all add: ids)
  qed
  moreover have "\<exists>m. map_of (sr_items ?r) i = Some m \<and> step_runId m = k"
    if "i \<in> set (or_else (map_of (sr_runStepIds ?r) k) [])" for k i
  proof (cases "i = step_id s")
    case True
    then have "k = step_runId s" using that old [of i k] by (auto simp: ids split: if_splits)
    with True show ?thesis by (simp add: items)
  next
    case False
    then have "i \<in> set (or_else (map_of (sr_runStepIds r) k) [])" using that by (auto simp: ids split: if_splits)
    with wf False show ?thesis unfolding sr_wf_def items by auto
  qed
  ultimately show "sr_wf ?r" unfolding sr_wf_def by blast
  have "List.map_filter (map_of (sr_items ?r)) (or_else (map_of (sr_runStepIds r) k) []) =
        List.map_filter (map_of (sr_items r)) (or_else (map_of (sr_runStepIds r) k) [])"
    by (rule map_filter_kept) (use old in \<open>auto simp: items\<close>)
  then show "sr_listByRunId k ?r =
      (if k = step_runId s then sr_listByRunId k r @ [s] else sr_listByRunId k r)"
    by (cases "k = step_runId s") (simp_all add: sr_listByRunId_def ids map_filter_snoc items)
qed

lemma sr_update_stored:
  assumes wf: "sr_wf r" and old: "map_of (sr_items r) (step_id s) = Some t"
    and same: "step_runId s = step_runId t"
  shows "sr_update s r = (Inr s, r\<lparr>sr_items := AList.update (step_id s) s (sr_items r)\<rparr>)"
    and "sr_wf (snd (sr_update s r))"
    and "map step_seq (sr_listByRunId k (snd (sr_update s r))) =
      map (\<lambda>x. if step_id x = step_id s then step_seq s else step_seq x) (sr_listByRunId k r)"
proof -
  let ?r = "r\<lparr>sr_items := AList.update (step_id s) s (sr_items r)\<rparr>"
  show u: "sr_update s r = (Inr s, ?r)" using old by (simp add: sr_update_def)
  have items: "map_of (sr_items ?r) i = (if i = step_id s then Some s else map_of (sr_items r) i)" for i
    by (simp add: jmap_get_set)
  have t: "step_id t = step_id s" using wf old unfolding sr_wf_def by blast
  have "jmap_wf (sr_items ?r)" using wf by (simp add: sr_wf_def)
  moreover have "step_id m = i \<and> i \<in> set (or_else (map_of (sr_runStepIds ?r) (step_runId m)) [])"
    if "map_of (sr_items ?r) i = Some m" for i m
  proof (cases "i = step_id s")
    case True
    then have "m = s" using that by (simp add: jmap_get_set)
    with wf old same True show ?thesis unfolding sr_wf_def by auto
  next
    case False
    then have "map_of (sr_items r) i = Some m" using that by (simp add: jmap_get_set)
    then show ?thesis using wf unfolding sr_wf_def by simp
  qed
  moreover have "\<exists>m. map_of (sr_items ?r) i = Some m \<and> step_runId m = k"
    if "i \<in> set (or_else (map_of (sr_runStepIds ?r) k) [])" for k i
  proof -
    from wf that obtain m where "map_of (sr_items r) i = Some m" "step_runId m = k"
      unfolding sr_wf_def by fastforce
    then show ?thesis using old same unfolding items by (cases "i = step_id s") auto
  qed
  ultimately show "sr_wf (snd (sr_update s r))" unfolding u snd_conv sr_wf_def by blast
  have "map step_seq (List.map_filter (map_of (sr_items ?r)) ids) =
      map (\<lambda>x. if step_id x = step_id s then step_seq s else step_seq x) (List.map_filter (map_of (sr_items r)) ids)"
    for ids
  proof (induction ids)
    case (Cons i ids)
    consider "i = step_id s" | "i \<noteq> step_id s" "map_of (sr_items r) i = None"
      | x where "i \<noteq> step_id s" "map_of (sr_items r) i = Some x" by fastforce
    then show ?case
    proof cases
      case 1
      with Cons.IH old t show ?thesis by (simp add: List.map_filter_simps jmap_get_set)
    next
      case 2
      with Cons.IH show ?thesis by (simp add: List.map_filter_simps jmap_get_set)
    next
      case (3 x)
      moreover from 3 have "step_id x = i" using wf unfolding sr_wf_def by blast
      ultimately show ?thesis using Cons.IH by (simp add: List.map_filter_simps jmap_get_set)
    qed
  qed (simp add: List.map_filter_simps)
  then show "map step_seq (sr_listByRunId k (snd (sr_update s r))) =
      map (\<lambda>x. if step_id x = step_id s then step_seq s else step_seq x) (sr_listByRunId k r)"
    by (simp add: u sr_listByRunId_def)
qed

text \<open>
  Starting a step with a fresh id, completing a stored step and recording a system step keep
  the steps of every run numbered 1, 2, ... in the order they were started, and starting returns
  the new last step.
\<close>

theorem run_steps_stay_numbered:
  assumes num: "steps_numbered (db_steps (st_db st))"
    and fresh: "map_of (sr_items (db_steps (st_db st))) (''step_'' @ st_ids st (st_tick st)) = None"
  shows "\<exists>step st'. startRunStep inp st = (Inr step, st') \<and> steps_numbered (db_steps (st_db st')) \<and>
      sr_listByRunId (si_runId inp) (db_steps (st_db st')) = sr_listByRunId (si_runId inp) (db_steps (st_db st)) @ [step] \<and>
      (\<exists>done st''. completeRunStep step s out st' = (Inr done, st'') \<and> steps_numbered (db_steps (st_db st'')) \<and>
         step_seq done = step_seq step \<and> step_status done = s)"
proof -
  let ?r = "db_steps (st_db st)" and ?rid = "si_runId inp"
  define step where "step = \<lparr>step_id = ''step_'' @ st_ids st (st_tick st), step_runId = ?rid,
     step_seq = length (sr_listByRunId ?rid ?r) + 1, step_stepType = si_stepType inp,
     step_name = keep_truthy (si_name inp), step_agentName = keep_truthy (si_agentName inp),
     step_status = StepRunning, step_input = si_input inp, step_output = None,
     step_startedAt = Some (st_clock st (st_tick st + 1)), step_endedAt = None\<rparr>"
  define st' where "st' = st\<lparr>st_tick := st_tick st + 2, st_db := st_db st\<lparr>db_steps := snd (sr_create step ?r)\<rparr>\<rparr>"
  have start: "startRunStep inp st = (Inr step, st')"
    by (simp add: startRunStep_def on_steps_def total_def sr_create_def Let_def step_def st'_def)
  have wf: "sr_wf ?r" using num by (simp add: steps_numbered_def)
  have fresh': "map_of (sr_items ?r) (step_id step) = None" using fresh by (simp add: step_def)
  note new = sr_create_fresh [OF wf fresh']
  have runid: "step_runId step = ?rid" by (simp add: step_def)
  have notin: "step_id step \<notin> set (or_else (map_of (sr_runStepIds ?r) ?rid) [])"
    using wf fresh' unfolding sr_wf_def by fastforce
  have num': "steps_numbered (snd (sr_create step ?r))"
    using num new notin by (auto simp: steps_numbered_def step_def)
  let ?done = "step\<lparr>step_status := s, step_output := (case out of None \<Rightarrow> step_output step | Some x \<Rightarrow> Some x),
      step_endedAt := Some (st_clock st' (st_tick st'))\<rparr>"
  let ?r' = "snd (sr_create step ?r)"
  have stored: "map_of (sr_items ?r') (step_id ?done) = Some step"
    by (simp add: sr_create_def Let_def jmap_get_set)
  have same: "step_runId ?done = step_runId step" by simp
  note upd = sr_update_stored [OF new(1) stored same]
  have complete: "completeRunStep step s out st' = (Inr ?done,
      st'\<lparr>st_tick := st_tick st' + 1, st_db := st_db st'\<lparr>db_steps := snd (sr_update ?done ?r')\<rparr>\<rparr>)"
    using upd(1) by (simp add: completeRunStep_def on_steps_def st'_def)
  have seqs: "map step_seq (sr_listByRunId k (snd (sr_update ?done ?r'))) = map step_seq (sr_listByRunId k ?r')" for k
  proof -
    have "step_seq x = step_seq step" if "x \<in> set (sr_listByRunId k ?r')" "step_id x = step_id step" for x
    proof -
      have "map_of (sr_items ?r') (step_id x) = Some x"
        using that(1) new(1) unfolding sr_listByRunId_def sr_wf_def
        by (auto simp: List.map_filter_def)
      with that(2) stored show ?thesis by simp
    qed
    then show ?thesis using upd(3) by simp
  qed
  have "or_else (map_of (sr_runStepIds (snd (sr_update ?done ?r'))) k) [] = or_else (map_of (sr_runStepIds ?r') k) []" for k
    using upd(1) by simp
  then have num'': "steps_numbered (snd (sr_update ?done ?r'))"
    unfolding steps_numbered_def
  proof (intro conjI allI)
    fix k
    have "length (sr_listByRunId k (snd (sr_update ?done ?r'))) = length (sr_listByRunId k ?r')"
      using seqs [of k] by (rule map_eq_imp_length_eq)
    then show "map step_seq (sr_listByRunId k (snd (sr_update ?done ?r'))) =
        [1..<Suc (length (sr_listByRunId k (snd (sr_update ?done ?r'))))]"
      using num' by (simp only: seqs) (simp add: steps_numbered_def)
  qed (use upd(2) num' in \<open>simp_all add: steps_numbered_def\<close>)
  have "\<exists>done st''. completeRunStep step s out st' = (Inr done, st'') \<and> steps_numbered (db_steps (st_db st'')) \<and>
         step_seq done = step_seq step \<and> step_status done = s"
    unfolding complete using num'' by simp
  moreover have "steps_numbered (db_steps (st_db st'))" using num' by (simp add: st'_def)
  moreover have "sr_listByRunId ?rid (db_steps (st_db st')) = sr_listByRunId ?rid ?r @ [step]"
    using new(2) [of ?rid] runid by (simp add: st'_def)
  ultimately show ?thesis using start by blast
qed

theorem run_steps_stay_numbered_witness:
  "\<exists>step st'. startRunStep \<lparr>si_runId = ''r1'', si_stepType = StepSystem, si_name = None,
       si_agentName = None, si_input = None\<rparr> engine_example = (Inr step, st') \<and>
     steps_numbered (db_steps (st_db st')) \<and> sr_listByRunId ''r1'' (db_steps (st_db st')) = [step]"
proof -
  have s: "db_steps (st_db engine_example) = \<lparr>sr_items = [], sr_runStepIds = []\<rparr>" by code_simp
  have n: "steps_numbered (db_steps (st_db engine_example))"
    by (simp add: s steps_numbered_def sr_wf_def sr_listByRunId_def List.map_filter_simps)
  have f: "map_of (sr_items (db_steps (st_db engine_example))) (''step_'' @ st_ids engine_example (st_tick engine_example)) = None"
    by (simp add: s)
  have l: "sr_listByRunId ''r1'' (db_steps (st_db engine_example)) = []"
    by (simp add: s sr_listByRunId_def List.map_filter_simps)
  show ?thesis
    using run_steps_stay_numbered [OF n f, of "\<lparr>si_runId = ''r1'', si_stepType = StepSystem, si_name = None,
       si_agentName = None, si_input = None\<rparr>" StepCompleted None] l by fastforce
qed

end
