(* ===== verification/Model_Resolver.thy ===== *)
theory Model_Resolver
  imports Contracts
begin

text \<open>
  \<open>packages/engine-core/src/engine/model-resolver.ts\<close>: how the model reference of a session
  becomes canonical (\<open>platform/name\<close> or \<open>workspace/name\<close>) and how a run resolves one. The
  platform models are configuration; a model definition is opaque JSON with a \<open>provider\<close>
  field. Names of properties every JavaScript object inherits are not model names here.
\<close>

record resolved_model =
  rm_model :: string
  rm_canonicalModelRef :: string
  rm_provider :: "json option"
  rm_modelDefinition :: "json option"

definition starts_with :: "string \<Rightarrow> string \<Rightarrow> bool" where
  "starts_with s p \<longleftrightarrow> take (length p) s = p"

definition with_definition :: "string \<Rightarrow> string \<Rightarrow> json option \<Rightarrow> resolved_model" where
  "with_definition model canonical d =
     \<lparr>rm_model = model, rm_canonicalModelRef = canonical,
      rm_provider = Option.bind d (json_field ''provider''), rm_modelDefinition = d\<rparr>"

definition resolveModelForRun ::
    "string \<Rightarrow> (string \<times> json) list \<Rightarrow> workspace_record \<Rightarrow> string option \<Rightarrow> resolved_model js_result" where
  "resolveModelForRun defaultModel platformModels workspace modelRef =
     (if \<not> truthy modelRef then
        Inr (with_definition defaultModel (''platform/'' @ defaultModel) (map_of platformModels defaultModel))
      else let ref = the modelRef in
        if starts_with ref ''platform/'' then
          let platformModelName = drop (length ''platform/'') ref in
          Inr (with_definition platformModelName ref (map_of platformModels platformModelName))
        else if starts_with ref ''workspace/'' then
          let workspaceModelName = drop (length ''workspace/'') ref in
          case map_of (ws_workspaceModels workspace) workspaceModelName of
            None \<Rightarrow> Inl (AppError 404 ''model_not_found'')
          | Some d \<Rightarrow> Inr (with_definition ref ref (Some d))
        else if map_of (ws_workspaceModels workspace) ref \<noteq> None then
          Inr (with_definition (''workspace/'' @ ref) (''workspace/'' @ ref) (map_of (ws_workspaceModels workspace) ref))
        else if map_of platformModels ref \<noteq> None then
          Inr (with_definition ref (''platform/'' @ ref) (map_of platformModels ref))
        else Inr (with_definition ref ref None))"

definition normalizeSessionModelRef ::
    "(string \<times> json) list \<Rightarrow> workspace_record \<Rightarrow> string option \<Rightarrow> string option js_result" where
  "normalizeSessionModelRef platformModels workspace modelRef =
     (let candidate = map_option js_trim modelRef in
      if \<not> truthy candidate then Inr None
      else let c = the candidate in
        if starts_with c ''platform/'' then
          (if map_of platformModels (drop (length ''platform/'') c) = None
           then Inl (AppError 404 ''model_not_found'') else Inr (Some c))
        else if starts_with c ''workspace/'' then
          (if map_of (ws_workspaceModels workspace) (drop (length ''workspace/'') c) = None
           then Inl (AppError 404 ''model_not_found'') else Inr (Some c))
        else if map_of (ws_workspaceModels workspace) c \<noteq> None then Inr (Some (''workspace/'' @ c))
        else if map_of platformModels c \<noteq> None then Inr (Some (''platform/'' @ c))
        else Inl (AppError 404 ''model_not_found''))"

lemma starts_with_append [simp]: "starts_with (p @ s) p"
  by (simp add: starts_with_def)

lemma not_both_prefixes: "starts_with s ''platform/'' \<Longrightarrow> \<not> starts_with s ''workspace/''"
  by (cases s) (auto simp: starts_with_def)

text \<open>A trimmed string behind a prefix that starts with a letter stays trimmed.\<close>

lemma js_trim_last:
  assumes "js_trim s \<noteq> []" shows "\<not> is_js_space (last (js_trim s))"
proof -
  let ?u = "dropWhile is_js_space (rev (dropWhile is_js_space s))"
  have "?u \<noteq> []" using assms by (simp add: js_trim_def)
  then have "\<not> is_js_space (hd ?u)" by (rule hd_dropWhile)
  then show ?thesis using \<open>?u \<noteq> []\<close> by (simp add: js_trim_def last_rev)
qed

lemma js_trim_plain:
  assumes "s \<noteq> []" and "\<not> is_js_space (hd s)" and "\<not> is_js_space (last s)"
  shows "js_trim s = s"
proof -
  have "dropWhile is_js_space s = s" by (rule dropWhile_idem_hd) (use assms in simp)
  moreover have "dropWhile is_js_space (rev s) = rev s"
    by (rule dropWhile_idem_hd) (use assms in \<open>simp add: hd_rev\<close>)
  ultimately show ?thesis by (simp add: js_trim_def)
qed

lemma js_trim_prefixed:
  assumes "js_trim s \<noteq> []" and "p \<noteq> []" and "\<not> is_js_space (hd p)"
  shows "js_trim (p @ js_trim s) = p @ js_trim s"
  by (rule js_trim_plain) (use assms js_trim_last [OF assms(1)] in auto)

text \<open>
  A model reference that was normalised for a session normalises to itself, and a run resolves
  it to that same canonical reference with the definition of a configured model.
\<close>

theorem normalized_model_ref_is_canonical:
  assumes "normalizeSessionModelRef platformModels workspace modelRef = Inr (Some r)"
  shows "normalizeSessionModelRef platformModels workspace (Some r) = Inr (Some r) \<and>
    (\<exists>m. resolveModelForRun defaultModel platformModels workspace (Some r) = Inr m \<and>
       rm_canonicalModelRef m = r \<and> rm_modelDefinition m \<noteq> None)"
proof -
  obtain s where s: "modelRef = Some s" and ne: "js_trim s \<noteq> []"
    using assms by (cases modelRef) (auto simp: normalizeSessionModelRef_def split: if_splits)
  define c where "c = js_trim s"
  have c: "js_trim c = c" "c \<noteq> []" using ne by (simp_all add: c_def)
  have pre: "js_trim (''workspace/'' @ c) = ''workspace/'' @ c" "js_trim (''platform/'' @ c) = ''platform/'' @ c"
    unfolding c_def by (rule js_trim_prefixed [OF ne]; simp add: is_js_space_def)+
  have n: "(if starts_with c ''platform/'' then
          (if map_of platformModels (drop (length ''platform/'') c) = None
           then Inl (AppError 404 ''model_not_found'') else Inr (Some c))
        else if starts_with c ''workspace/'' then
          (if map_of (ws_workspaceModels workspace) (drop (length ''workspace/'') c) = None
           then Inl (AppError 404 ''model_not_found'') else Inr (Some c))
        else if map_of (ws_workspaceModels workspace) c \<noteq> None then Inr (Some (''workspace/'' @ c))
        else if map_of platformModels c \<noteq> None then Inr (Some (''platform/'' @ c))
        else Inl (AppError 404 ''model_not_found'')) = (Inr (Some r) :: string option js_result)"
    using assms ne by (simp add: s normalizeSessionModelRef_def Let_def c_def [symmetric])
  then consider "starts_with c ''platform/''" "r = c" "map_of platformModels (drop (length ''platform/'') c) \<noteq> None"
    | "\<not> starts_with c ''platform/''" "starts_with c ''workspace/''" "r = c" "map_of (ws_workspaceModels workspace) (drop (length ''workspace/'') c) \<noteq> None"
    | "r = ''workspace/'' @ c" "map_of (ws_workspaceModels workspace) c \<noteq> None"
    | "r = ''platform/'' @ c" "map_of platformModels c \<noteq> None"
    by (auto split: if_splits)
  then show ?thesis
  proof cases
    case 1
    then show ?thesis using c
      by (simp add: normalizeSessionModelRef_def resolveModelForRun_def Let_def with_definition_def)
  next
    case 2
    then show ?thesis using c
      by (auto simp: normalizeSessionModelRef_def resolveModelForRun_def Let_def with_definition_def)
  next
    case 3
    have "\<not> starts_with r ''platform/''" "starts_with r ''workspace/''" "drop (length ''workspace/'') r = c"
      by (simp_all add: 3 starts_with_def)
    then show ?thesis using 3(2) pre(1) unfolding 3(1)
      by (auto simp: normalizeSessionModelRef_def resolveModelForRun_def Let_def with_definition_def)
  next
    case 4
    have "starts_with r ''platform/''" "drop (length ''platform/'') r = c" by (simp_all add: 4 starts_with_def)
    then show ?thesis using 4(2) pre(2) unfolding 4(1)
      by (auto simp: normalizeSessionModelRef_def resolveModelForRun_def Let_def with_definition_def)
  qed
qed

theorem normalized_model_ref_is_canonical_witness:
  "normalizeSessionModelRef [(''gpt'', JNull)]
     \<lparr>ws_id = ''w'', ws_defaultAgent = None, ws_agents = [], ws_workspaceModels = [], ws_createdAt = [],
      ws_updatedAt = [], ws_definition = JNull\<rparr> (Some ''platform/gpt'') = Inr (Some ''platform/gpt'')"
proof -
  let ?w = "\<lparr>ws_id = ''w'', ws_defaultAgent = None, ws_agents = [], ws_workspaceModels = [], ws_createdAt = [],
      ws_updatedAt = [], ws_definition = JNull\<rparr>"
  have "normalizeSessionModelRef [(''gpt'', JNull)] ?w (Some '' gpt '') = Inr (Some ''platform/gpt'')"
    by code_simp
  from normalized_model_ref_is_canonical [OF this] show ?thesis by blast
qed

end
