(* ===== verification/Session_Records.thy ===== *)
theory Session_Records
  imports Run_State Model_Resolver
begin

text \<open>
  \<open>packages/engine-core/src/engine/session-records.ts\<close> and \<open>session-creation.ts\<close>:
  creating and updating a session, deleting a session with its descendants, the paged listings, the
  context of a message and the queue of a session. The client's model normaliser and the codec of
  message cursors are arguments; \<open>visit\<close> takes the depth of the call stack, since it recurses
  along the parent links.
\<close>

definition getSession :: "string \<Rightarrow> session eng" where
  "getSession sid =
     act_bind (read_db (\<lambda>db. ssr_getById sid (db_sessions db))) (\<lambda>s.
       case s of None \<Rightarrow> act_throw (AppError 404 ''session_not_found'') | Some session \<Rightarrow> act_return session)"

definition getWorkspaceRecord :: "string \<Rightarrow> workspace_record eng" where
  "getWorkspaceRecord wid =
     act_bind (read_db (\<lambda>db. wsr_getById wid (db_workspaces db))) (\<lambda>w.
       case w of None \<Rightarrow> act_throw (AppError 404 ''workspace_not_found'') | Some workspace \<Rightarrow> act_return workspace)"

subsection \<open>Creating a session\<close>

definition agent_name_cmp :: "agent_definition \<Rightarrow> agent_definition \<Rightarrow> int" where
  "agent_name_cmp left right = localeCompare (agent_name left) (agent_name right)"

definition resolveWorkspaceDefaultAgentName :: "workspace_record \<Rightarrow> string option" where
  "resolveWorkspaceDefaultAgentName workspace =
     (if truthy (ws_defaultAgent workspace) then ws_defaultAgent workspace
      else let assistantAgent = map_of (ws_agents workspace) ''assistant'';
               candidates = js_sort agent_name_cmp
                 (filter (\<lambda>a. agent_mode a = AgentPrimary \<or> agent_mode a = AgentAll) (map snd (ws_agents workspace)))
           in case assistantAgent of
                Some a \<Rightarrow> if agent_mode a \<noteq> AgentSubagent then Some (agent_name a)
                  else (case candidates of [] \<Rightarrow> None | b # _ \<Rightarrow> Some (agent_name b))
              | None \<Rightarrow> (case candidates of [] \<Rightarrow> None | b # _ \<Rightarrow> Some (agent_name b)))"

record session_input =
  ci_title :: "string option"
  ci_agentName :: "string option"
  ci_modelRef :: "string option"
  ci_workspaceMemory :: "json option"

definition buildSessionRecord ::
    "(workspace_record \<Rightarrow> string option \<Rightarrow> string option js_result) \<Rightarrow> workspace_record \<Rightarrow> string \<Rightarrow>
     session_input \<Rightarrow> session eng" where
  "buildSessionRecord normalizeModelRef workspace subjectRef inp =
     (let activeAgentName = or_opt (ci_agentName inp) (resolveWorkspaceDefaultAgentName workspace) in
      case normalizeModelRef workspace (ci_modelRef inp) of
        Inl e \<Rightarrow> act_throw e
      | Inr modelRef \<Rightarrow>
          if \<not> truthy activeAgentName then act_throw (AppError 409 ''missing_default_agent'')
          else let name = the activeAgentName; initialAgent = map_of (ws_agents workspace) name in
            if length (ws_agents workspace) > 0 \<and> initialAgent = None
            then act_throw (AppError 404 ''agent_not_found'')
            else if map_option agent_mode initialAgent = Some AgentSubagent
            then act_throw (AppError 409 ''invalid_session_agent_target'')
            else act_bind nowIso (\<lambda>now. act_bind (createId ''ses'') (\<lambda>i.
              act_return \<lparr>session_id = i, session_workspaceId = ws_id workspace, session_parentSessionId = None,
                session_subjectRef = subjectRef, session_modelRef = keep_truthy modelRef,
                session_agentName = ci_agentName inp, session_activeAgentName = name,
                session_workspaceMemory = ci_workspaceMemory inp, session_title = ci_title inp,
                session_status = SessionActive, session_lastRunAt = None, session_createdAt = now,
                session_updatedAt = now\<rparr>)))"

subsection \<open>Updating a session\<close>

text \<open>An absent field is \<^const>\<open>None\<close>; the two nullable ones are \<open>Some None\<close> for \<open>null\<close>.\<close>

record session_update =
  up_title :: "string option"
  up_activeAgentName :: "string option"
  up_modelRef :: "string option option"
  up_workspaceMemory :: "json option option"

definition sessionHasStarted :: "string \<Rightarrow> bool eng" where
  "sessionHasStarted sid = read_db (\<lambda>db.
     length (mr_listBySessionId sid (db_messages db)) > 0 \<or> length (rr_listBySessionId sid (db_runs db)) > 0)"

definition nextActiveAgent :: "workspace_record \<Rightarrow> session \<Rightarrow> string option \<Rightarrow> string js_result" where
  "nextActiveAgent workspace s name =
     (case name of
        None \<Rightarrow> Inr (session_activeAgentName s)
      | Some n \<Rightarrow> (case map_of (ws_agents workspace) n of
           None \<Rightarrow> Inl (AppError 404 ''agent_not_found'')
         | Some targetAgent \<Rightarrow>
             if agent_mode targetAgent = AgentSubagent then Inl (AppError 409 ''invalid_session_agent_target'')
             else Inr n))"

definition nextModelRef ::
    "(workspace_record \<Rightarrow> string option \<Rightarrow> string option js_result) \<Rightarrow> workspace_record \<Rightarrow> session \<Rightarrow>
     string option option \<Rightarrow> string option eng" where
  "nextModelRef normalizeModelRef workspace s modelRef =
     (case modelRef of
        None \<Rightarrow> act_return (session_modelRef s)
      | Some m \<Rightarrow>
          (case (case m of None \<Rightarrow> Inr None | Some r \<Rightarrow> normalizeModelRef workspace (Some r)) of
             Inl e \<Rightarrow> act_throw e
           | Inr normalizedModelRef \<Rightarrow>
               if normalizedModelRef \<noteq> session_modelRef s
               then act_bind (sessionHasStarted (session_id s)) (\<lambda>started.
                 if started then act_throw (AppError 409 ''session_model_locked'')
                 else act_return normalizedModelRef)
               else act_return normalizedModelRef))"

definition updateSession ::
    "(workspace_record \<Rightarrow> string option \<Rightarrow> string option js_result) \<Rightarrow> string \<Rightarrow> session_update \<Rightarrow> session eng" where
  "updateSession normalizeModelRef sid inp =
     act_bind (getSession sid) (\<lambda>s.
     act_bind (getWorkspaceRecord (session_workspaceId s)) (\<lambda>workspace.
       case nextActiveAgent workspace s (up_activeAgentName inp) of
         Inl e \<Rightarrow> act_throw e
       | Inr agent \<Rightarrow>
         act_bind (nextModelRef normalizeModelRef workspace s (up_modelRef inp)) (\<lambda>modelRef.
         act_bind nowIso (\<lambda>now.
           on_sessions (ssr_update
             (s\<lparr>session_title := or_opt (up_title inp) (session_title s),
                session_activeAgentName := agent, session_updatedAt := now,
                session_workspaceMemory := (case up_workspaceMemory inp of
                   None \<Rightarrow> session_workspaceMemory s | Some m \<Rightarrow> m),
                session_modelRef := keep_truthy modelRef\<rparr>))))))"

subsection \<open>Deleting a session\<close>

lemma page_of_show [simp]: "page_of (Some (js_show n)) k xs = take k (drop n xs)"
  by (simp add: page_of_def parseCursor_def Let_def js_slice_def)

function listAllWorkspaceSessions :: "string \<Rightarrow> nat \<Rightarrow> session_repo \<Rightarrow> session list" where
  "listAllWorkspaceSessions wid offset m =
     (let page = ssr_listByWorkspaceId wid 200 (Some (js_show offset)) m
      in if length page < 200 then page else page @ listAllWorkspaceSessions wid (offset + 200) m)"
  by auto

termination
proof (relation "measure (\<lambda>(wid, offset, m). length m - offset)")
  fix wid offset and m :: session_repo and page
  assume page: "page = ssr_listByWorkspaceId wid 200 (Some (js_show offset)) m" and "\<not> length page < 200"
  have "length (js_sort ssr_cmp (filter (\<lambda>s. session_workspaceId s = wid) (jmap_values m))) \<le> length m"
    by (simp add: jmap_values_def)
  then have "length page \<le> length m - offset" by (simp add: page ssr_listByWorkspaceId_def)
  with \<open>\<not> length page < 200\<close>
  show "((wid, offset + 200, m), (wid, offset, m)) \<in> measure (\<lambda>(wid, offset, m). length m - offset)" by simp
qed simp

declare listAllWorkspaceSessions.simps [simp del]

definition childSessionIdsByParentId :: "session list \<Rightarrow> (string, string list) jmap" where
  "childSessionIdsByParentId workspaceSessions =
     fold (\<lambda>c m. if \<not> truthy (session_parentSessionId c) then m
        else let p = the (session_parentSessionId c) in
          AList.update p (or_else (map_of m p) [] @ [session_id c]) m) workspaceSessions []"

fun concat_some :: "'a list option list \<Rightarrow> 'a list option" where
  "concat_some [] = Some []"
| "concat_some (None # xs) = None"
| "concat_some (Some x # xs) = map_option ((@) x) (concat_some xs)"

fun visit :: "nat \<Rightarrow> (string, string list) jmap \<Rightarrow> string \<Rightarrow> string list option" where
  "visit 0 children target = None"
| "visit (Suc depth) children target =
     map_option (\<lambda>order. order @ [target])
       (concat_some (map (visit depth children) (or_else (map_of children target) [])))"

definition archiveSessionTree :: "string \<Rightarrow> string list \<Rightarrow> unit eng" where
  "archiveSessionTree root order st =
     (Inr (), st\<lparr>st_archive := map_option (\<lambda>log. log @ [(root, order)]) (st_archive st)\<rparr>)"

definition deleteOne :: "string \<Rightarrow> unit eng" where
  "deleteOne sid st = (Inr (), st\<lparr>st_db := ssr_delete sid (st_db st)\<rparr>)"

definition deleteSession :: "nat \<Rightarrow> string \<Rightarrow> unit eng" where
  "deleteSession depth sid =
     act_bind (getSession sid) (\<lambda>s.
     act_bind (getWorkspaceRecord (session_workspaceId s)) (\<lambda>workspace.
     act_bind (read_db (\<lambda>db. listAllWorkspaceSessions (session_workspaceId s) 0 (db_sessions db))) (\<lambda>workspaceSessions.
       case visit depth (childSessionIdsByParentId workspaceSessions) sid of
         None \<Rightarrow> act_throw (AppError 500 ''RangeError'')
       | Some deletionOrder \<Rightarrow>
           act_bind (archiveSessionTree sid deletionOrder) (\<lambda>_. for_each deleteOne deletionOrder))))"

subsection \<open>Listings\<close>

record 'a page_result =
  res_items :: "'a list"
  res_nextCursor :: "string option"

definition listWorkspaceSessions :: "string \<Rightarrow> nat \<Rightarrow> string option \<Rightarrow> session page_result eng" where
  "listWorkspaceSessions wid pageSize cursor =
     act_bind (getWorkspaceRecord wid) (\<lambda>_.
     act_bind (read_db (\<lambda>db. ssr_listByWorkspaceId wid pageSize cursor (db_sessions db))) (\<lambda>items.
       act_return \<lparr>res_items = items, res_nextCursor =
         (if length items = pageSize then Some (js_show (parseCursor cursor + pageSize)) else None)\<rparr>))"

definition listChildSessions :: "string \<Rightarrow> nat \<Rightarrow> string option \<Rightarrow> session page_result eng" where
  "listChildSessions pid pageSize cursor =
     act_bind (getSession pid) (\<lambda>_.
     act_bind (read_db (\<lambda>db. ssr_listChildrenByParentSessionId pid pageSize cursor (db_sessions db))) (\<lambda>items.
       act_return \<lparr>res_items = items, res_nextCursor =
         (if length items = pageSize then Some (js_show (parseCursor cursor + pageSize)) else None)\<rparr>))"

record message_list_result = "message page_result" +
  res_totalCount :: nat

definition lift_result :: "'a js_result \<Rightarrow> 'a eng" where
  "lift_result r st = (r, st)"

definition listPage ::
    "(string \<Rightarrow> json option) \<Rightarrow> string \<Rightarrow> nat \<Rightarrow> string option \<Rightarrow> page_direction \<Rightarrow> message_page eng" where
  "listPage decode sid pageSize cursor direction =
     act_bind (read_db (\<lambda>db. mr_listPageBySessionId decode sid pageSize cursor (Some direction) (db_messages db))) lift_result"

definition listSessionMessages ::
    "(string \<times> string \<Rightarrow> string) \<Rightarrow> (string \<Rightarrow> json option) \<Rightarrow> string \<Rightarrow> nat \<Rightarrow> string option \<Rightarrow>
     page_direction \<Rightarrow> message_list_result eng" where
  "listSessionMessages encode decode sid pageSize cursor direction =
     act_bind (getSession sid) (\<lambda>_.
     act_bind (listPage decode sid pageSize cursor direction) (\<lambda>page.
       let boundaryMessage = (if page_items page = [] then None
             else Some (if direction = Backward then hd (page_items page) else last (page_items page)));
           nextCursor = (if page_hasMore page then map_option (\<lambda>m. encode (message_key m)) boundaryMessage else None)
       in act_return \<lparr>res_items = page_items page, res_nextCursor = nextCursor,
            res_totalCount = page_totalCount page\<rparr>))"

definition getSessionMessage :: "string \<Rightarrow> string \<Rightarrow> message eng" where
  "getSessionMessage sid mid =
     act_bind (getSession sid) (\<lambda>_.
     act_bind (read_db (\<lambda>db. mr_getById mid (db_messages db))) (\<lambda>m.
       case m of
         None \<Rightarrow> act_throw (AppError 404 ''message_not_found'')
       | Some message \<Rightarrow> if msg_sessionId message \<noteq> sid then act_throw (AppError 404 ''message_not_found'')
           else act_return message))"

record message_context =
  ctx_anchor :: message
  ctx_before :: "message list"
  ctx_after :: "message list"
  ctx_hasMoreBefore :: bool
  ctx_hasMoreAfter :: bool

definition getSessionMessageContext ::
    "(string \<times> string \<Rightarrow> string) \<Rightarrow> (string \<Rightarrow> json option) \<Rightarrow> string \<Rightarrow> string \<Rightarrow> nat \<Rightarrow> nat \<Rightarrow> message_context eng" where
  "getSessionMessageContext encode decode sid mid before after =
     act_bind (getSessionMessage sid mid) (\<lambda>anchor.
       let anchorCursor = Some (encode (message_key anchor));
           empty = act_return \<lparr>page_items = [], page_hasMore = False, page_totalCount = 0\<rparr>
       in act_bind (if before > 0 then listPage decode sid before anchorCursor Backward else empty) (\<lambda>beforePage.
          act_bind (if after > 0 then listPage decode sid after anchorCursor Forward else empty) (\<lambda>afterPage.
            act_return \<lparr>ctx_anchor = anchor, ctx_before = page_items beforePage, ctx_after = page_items afterPage,
              ctx_hasMoreBefore = page_hasMore beforePage, ctx_hasMoreAfter = page_hasMore afterPage\<rparr>)))"

definition cut_page :: "nat \<Rightarrow> string option \<Rightarrow> 'a list \<Rightarrow> 'a page_result" where
  "cut_page pageSize cursor xs =
     (let hasMore = length xs > pageSize
      in \<lparr>res_items = (if hasMore then take pageSize xs else xs),
          res_nextCursor = (if hasMore then Some (js_show (parseCursor cursor + pageSize)) else None)\<rparr>)"

definition listSessionRuns :: "string \<Rightarrow> nat \<Rightarrow> string option \<Rightarrow> run page_result eng" where
  "listSessionRuns sid pageSize cursor =
     act_bind (getSession sid) (\<lambda>_.
     act_bind (read_db (\<lambda>db. rr_listPageBySessionId sid (pageSize + 1) cursor (db_runs db))) (\<lambda>runs.
       act_return (cut_page pageSize cursor runs)))"

definition listRunSteps :: "string \<Rightarrow> nat \<Rightarrow> string option \<Rightarrow> run_step page_result eng" where
  "listRunSteps rid pageSize cursor =
     act_bind (getRun rid) (\<lambda>_.
     act_bind (read_db (\<lambda>db. sr_listPageByRunId rid (pageSize + 1) cursor (db_steps db))) (\<lambda>steps.
       act_return (cut_page pageSize cursor steps)))"

subsection \<open>The queue of a session\<close>

record queued_run =
  qr_runId :: string
  qr_messageId :: string
  qr_content :: string
  qr_createdAt :: string
  qr_position :: nat

fun join_with :: "string \<Rightarrow> string list \<Rightarrow> string" where
  "join_with sep [] = []"
| "join_with sep [x] = x"
| "join_with sep (x # xs) = x @ sep @ join_with sep xs"

fun part_text :: "message_part \<Rightarrow> string option" where
  "part_text (TextPart t _) = Some t"
| "part_text _ = None"

definition plural :: "nat \<Rightarrow> string \<Rightarrow> string list" where
  "plural n what = (if n > 0 then [js_show n @ '' '' @ what @ (if n = 1 then [] else ''s'')] else [])"

definition newlines :: string where
  "newlines = [CHR 0x0A, CHR 0x0A]"

fun summarizeContentForDisplay :: "content \<Rightarrow> string" where
  "summarizeContentForDisplay (ContentText t) = t"
| "summarizeContentForDisplay (ContentParts ps) =
     (let txt = join_with newlines (filter (\<lambda>t. length t > 0) (map js_trim (List.map_filter part_text ps)));
          imageCount = length (filter (\<lambda>p. case p of ImagePart _ _ _ \<Rightarrow> True | _ \<Rightarrow> False) ps);
          fileCount = length (filter (\<lambda>p. case p of FilePart _ _ _ _ \<Rightarrow> True | _ \<Rightarrow> False) ps);
          attachmentSummary = join_with '', '' (plural imageCount ''image'' @ plural fileCount ''file'')
      in if txt \<noteq> [] \<and> attachmentSummary \<noteq> [] then txt @ newlines @ attachmentSummary
         else if txt \<noteq> [] then txt else attachmentSummary)"

definition removeQueuedRunBestEffort :: "string \<Rightarrow> unit eng" where
  "removeQueuedRunBestEffort rid = on_pending (\<lambda>q. ((), pq_remove rid q))"

definition heal_entry :: "bool \<Rightarrow> string \<Rightarrow> unit eng" where
  "heal_entry healStaleEntries rid = (if healStaleEntries then removeQueuedRunBestEffort rid else act_return ())"

fun collect_entries :: "string \<Rightarrow> bool \<Rightarrow> pending_entry list \<Rightarrow> queued_run list \<Rightarrow> queued_run list eng" where
  "collect_entries sid heal [] items = act_return items"
| "collect_entries sid heal (entry # entries) items =
     act_bind (read_db (\<lambda>db. rr_getById (pend_runId entry) (db_runs db))) (\<lambda>run.
       let messageId = (case run of
             Some r \<Rightarrow> if run_triggerType r = TriggerMessage then run_triggerRef r else None | None \<Rightarrow> None)
       in if run = None \<or> run_sessionId (the run) \<noteq> Some sid \<or> run_status (the run) \<noteq> Queued \<or> \<not> truthy messageId
          then act_bind (heal_entry heal (pend_runId entry)) (\<lambda>_. collect_entries sid heal entries items)
          else act_bind (read_db (\<lambda>db. mr_getById (the messageId) (db_messages db))) (\<lambda>message.
            case message of
              None \<Rightarrow> collect_entries sid heal entries items
            | Some m \<Rightarrow>
                if msg_sessionId m \<noteq> sid
                then act_bind (heal_entry heal (pend_runId entry)) (\<lambda>_. collect_entries sid heal entries items)
                else collect_entries sid heal entries
                  (items @ [\<lparr>qr_runId = pend_runId entry, qr_messageId = the messageId,
                     qr_content = summarizeContentForDisplay (msg_content m),
                     qr_createdAt = pend_createdAt entry, qr_position = length items + 1\<rparr>])))"

definition collectSessionQueuedRuns :: "string \<Rightarrow> bool \<Rightarrow> queued_run list eng" where
  "collectSessionQueuedRuns sid healStaleEntries =
     act_bind (read_db (\<lambda>db. pq_listBySessionId sid (db_pending db))) (\<lambda>entries.
       collect_entries sid healStaleEntries entries [])"

definition listSessionQueuedRuns :: "string \<Rightarrow> queued_run list eng" where
  "listSessionQueuedRuns sid = act_bind (getSession sid) (\<lambda>_. collectSessionQueuedRuns sid True)"

subsection \<open>Message pages\<close>

interpretation mc: comparator message_cmp
  unfolding message_cmp_def compareMessages_def message_key_def fst_conv snd_conv
  by (intro comparator_intros)

definition sorted_messages :: "string \<Rightarrow> engine_state \<Rightarrow> message list" where
  "sorted_messages sid st = listSortedSessionMessages sid (db_messages (st_db st))"

text \<open>
  The codec of cursors: what \<open>JSON.stringify\<close> and base64url print, decoding parses back, and
  it is never empty.
\<close>

definition cursor_codec :: "(string \<times> string \<Rightarrow> string) \<Rightarrow> (string \<Rightarrow> json option) \<Rightarrow> bool" where
  "cursor_codec encode decode \<longleftrightarrow>
     (\<forall>c i. encode (c, i) \<noteq> [] \<and>
        decode (encode (c, i)) = Some (JObj [(''createdAt'', JStr c), (''id'', JStr i)]))"

text \<open>Messages have a time and an id, and no two of them compare equal.\<close>

definition pageable :: "message list \<Rightarrow> bool" where
  "pageable ms \<longleftrightarrow> sorted_wrt (\<lambda>a b. message_cmp a b \<noteq> 0) ms \<and>
     (\<forall>m\<in>set ms. msg_createdAt m \<noteq> [] \<and> msg_id m \<noteq> [])"

lemma pageable_less: "pageable (sorted_messages sid st) \<Longrightarrow> sorted_wrt (\<lambda>a b. message_cmp a b < 0) (sorted_messages sid st)"
proof -
  assume p: "pageable (sorted_messages sid st)"
  have "sorted_wrt (\<lambda>a b. message_cmp a b \<le> 0) (sorted_messages sid st)"
    by (simp add: sorted_messages_def listSortedSessionMessages_def mc.sorted_js_sort)
  with p show ?thesis
    unfolding pageable_def sorted_wrt_iff_nth_less by (auto simp: order_less_le)
qed

lemma filter_none: "(\<And>x. x \<in> set xs \<Longrightarrow> \<not> P x) \<Longrightarrow> filter P xs = []"
  by (simp add: filter_empty_conv)

lemma filter_all: "(\<And>x. x \<in> set xs \<Longrightarrow> P x) \<Longrightarrow> filter P xs = xs"
  by (simp add: filter_id_conv)

lemma message_cmp_flip: "message_cmp x y < 0 \<longleftrightarrow> message_cmp y x > 0"
  using mc.cmp_flip [of x y] by (auto simp: sgn_if split: if_splits)

lemma filter_around:
  assumes "sorted_wrt (\<lambda>a b. message_cmp a b < 0) (A @ m # B)"
  shows "filter (\<lambda>x. compareMessages (message_key x) (message_key m) > 0) (A @ m # B) = B"
    and "filter (\<lambda>x. compareMessages (message_key x) (message_key m) < 0) (A @ m # B) = A"
proof -
  have A: "\<And>x. x \<in> set A \<Longrightarrow> message_cmp x m < 0" and B: "\<And>x. x \<in> set B \<Longrightarrow> message_cmp m x < 0"
    using assms by (auto simp: sorted_wrt_append)
  have B': "\<And>x. x \<in> set B \<Longrightarrow> message_cmp x m > 0" using B message_cmp_flip by blast
  have z: "message_cmp m m = 0" by (rule mc.cmp_refl)
  show "filter (\<lambda>x. compareMessages (message_key x) (message_key m) > 0) (A @ m # B) = B"
    unfolding message_cmp_def [symmetric]
  proof -
    have "filter (\<lambda>x. message_cmp x m > 0) A = []" by (rule filter_none) (use A in force)
    moreover have "filter (\<lambda>x. message_cmp x m > 0) B = B" by (rule filter_all) (rule B')
    ultimately show "filter (\<lambda>x. message_cmp x m > 0) (A @ m # B) = B" using z by simp
  qed
  show "filter (\<lambda>x. compareMessages (message_key x) (message_key m) < 0) (A @ m # B) = A"
    unfolding message_cmp_def [symmetric]
  proof -
    have "filter (\<lambda>x. message_cmp x m < 0) A = A" by (rule filter_all) (rule A)
    moreover have "filter (\<lambda>x. message_cmp x m < 0) B = []" by (rule filter_none) (use B' in force)
    ultimately show "filter (\<lambda>x. message_cmp x m < 0) (A @ m # B) = A" using z by simp
  qed
qed

lemma parse_cursor:
  assumes "cursor_codec encode decode" and "msg_createdAt m \<noteq> []" and "msg_id m \<noteq> []"
  shows "parseMessagePageCursor decode (Some (encode (message_key m))) = Inr (Some (message_key m))"
proof -
  have "encode (message_key m) \<noteq> []"
    "decode (encode (message_key m)) = Some (JObj [(''createdAt'', JStr (msg_createdAt m)), (''id'', JStr (msg_id m))])"
    using assms(1) by (simp_all add: cursor_codec_def message_key_def)
  then show ?thesis using assms(2,3) by (simp add: parseMessagePageCursor_def message_key_def)
qed

lemma listPage_after:
  assumes "cursor_codec encode decode" and p: "pageable (sorted_messages sid st)"
    and L: "sorted_messages sid st = A @ m # B"
  shows "listPage decode sid k (Some (encode (message_key m))) Forward st =
      (Inr \<lparr>page_items = take k B, page_hasMore = (length B > k), page_totalCount = length (A @ m # B)\<rparr>, st)"
    and "listPage decode sid k (Some (encode (message_key m))) Backward st =
      (Inr \<lparr>page_items = drop (length A - k) A, page_hasMore = (length A > k), page_totalCount = length (A @ m # B)\<rparr>, st)"
proof -
  have m: "msg_createdAt m \<noteq> []" "msg_id m \<noteq> []" using p by (auto simp: L pageable_def)
  note parse = parse_cursor [OF assms(1) m]
  have "sorted_wrt (\<lambda>a b. message_cmp a b < 0) (A @ m # B)" using pageable_less [OF p] by (simp add: L)
  note around = filter_around [OF this]
  have L': "listSortedSessionMessages sid (db_messages (st_db st)) = A @ m # B" using L by (simp add: sorted_messages_def)
  show "listPage decode sid k (Some (encode (message_key m))) Forward st =
      (Inr \<lparr>page_items = take k B, page_hasMore = (length B > k), page_totalCount = length (A @ m # B)\<rparr>, st)"
    by (simp add: listPage_def mr_listPageBySessionId_def parse L' message_page_at_def around Let_def lift_result_def del: filter_append filter.simps)
  show "listPage decode sid k (Some (encode (message_key m))) Backward st =
      (Inr \<lparr>page_items = drop (length A - k) A, page_hasMore = (length A > k), page_totalCount = length (A @ m # B)\<rparr>, st)"
    by (cases "length A > k")
      (simp_all add: listPage_def mr_listPageBySessionId_def parse L' message_page_at_def around Let_def lift_result_def
        Suc_diff_Suc del: filter_append filter.simps)
qed

lemma listPage_first:
  "listPage decode sid k None Forward st =
     (Inr \<lparr>page_items = take k (sorted_messages sid st), page_hasMore = (length (sorted_messages sid st) > k),
        page_totalCount = length (sorted_messages sid st)\<rparr>, st)"
  by (simp add: listPage_def mr_listPageBySessionId_def parseMessagePageCursor_def message_page_at_def Let_def
      lift_result_def sorted_messages_def)

text \<open>A client that follows \<open>nextCursor\<close> until there is none.\<close>

fun walk_pages :: "(string \<times> string \<Rightarrow> string) \<Rightarrow> (string \<Rightarrow> json option) \<Rightarrow> string \<Rightarrow> nat \<Rightarrow> nat \<Rightarrow>
    string option \<Rightarrow> engine_state \<Rightarrow> message list option" where
  "walk_pages encode decode sid k 0 cursor st = None"
| "walk_pages encode decode sid k (Suc n) cursor st =
     (case listSessionMessages encode decode sid k cursor Forward st of
        (Inl e, st') \<Rightarrow> None
      | (Inr r, st') \<Rightarrow>
          (case res_nextCursor r of
             None \<Rightarrow> Some (res_items r)
           | Some c \<Rightarrow> map_option ((@) (res_items r)) (walk_pages encode decode sid k n (Some c) st')))"

lemma listSessionMessages_page:
  assumes "ssr_getById sid (db_sessions (st_db st)) \<noteq> None"
    and "listPage decode sid k c Forward st = (Inr \<lparr>page_items = take k B, page_hasMore = (length B > k), page_totalCount = n\<rparr>, st)"
    and "k > 0"
  shows "listSessionMessages encode decode sid k c Forward st =
    (Inr \<lparr>res_items = take k B, res_nextCursor = (if length B > k then Some (encode (message_key (last (take k B)))) else None),
          res_totalCount = n\<rparr>, st)"
  using assms by (auto simp: listSessionMessages_def getSession_def Let_def)

lemma walk_from:
  assumes s: "ssr_getById sid (db_sessions (st_db st)) \<noteq> None" and codec: "cursor_codec encode decode"
    and p: "pageable (sorted_messages sid st)" and k: "k > 0"
  shows "sorted_messages sid st = A @ m # B \<Longrightarrow> n > length B \<Longrightarrow>
    walk_pages encode decode sid k n (Some (encode (message_key m))) st = Some B"
proof (induction n arbitrary: A m B)
  case (Suc n)
  note page = listSessionMessages_page [OF s listPage_after(1) [OF codec p Suc.prems(1)] k]
  show ?case
  proof (cases "length B > k")
    case True
    let ?m = "last (take k B)"
    have "take k B \<noteq> []" using True k by auto
    then have split: "A @ m # B = (A @ m # butlast (take k B)) @ ?m # drop k B"
      using append_butlast_last_id [of "take k B"] append_take_drop_id [of k B] by (metis append.assoc append_Cons append_Nil)
    have "walk_pages encode decode sid k n (Some (encode (message_key ?m))) st = Some (drop k B)"
    proof (rule Suc.IH)
      show "sorted_messages sid st = (A @ m # butlast (take k B)) @ ?m # drop k B"
        unfolding Suc.prems(1) by (rule split)
      show "length (drop k B) < n" using Suc.prems(2) k True by simp
    qed
    then show ?thesis using True by (simp add: page)
  next
    case False
    then show ?thesis by (simp add: page)
  qed
qed simp

text \<open>
  C33: A client that reads the messages of a session page by page, following \<open>nextCursor\<close>,
  gets every message exactly once and in order, whatever the page size, and stops by itself.
\<close>

theorem message_pages_cover_session:
  assumes "ssr_getById sid (db_sessions (st_db st)) \<noteq> None" and "cursor_codec encode decode"
    and "pageable (sorted_messages sid st)" and "k > 0" and "n > length (sorted_messages sid st)"
  shows "walk_pages encode decode sid k n None st = Some (sorted_messages sid st)"
proof -
  let ?L = "sorted_messages sid st"
  obtain n' where n: "n = Suc n'" using assms(5) by (cases n) auto
  note page = listSessionMessages_page [OF assms(1) listPage_first assms(4)]
  show ?thesis
  proof (cases "length ?L > k")
    case True
    let ?m = "last (take k ?L)"
    have "take k ?L \<noteq> []" using True assms(4) by auto
    then have split: "?L = butlast (take k ?L) @ ?m # drop k ?L"
      using append_butlast_last_id [of "take k ?L"] append_take_drop_id [of k ?L] by (metis append.assoc append_Cons append_Nil)
    have "walk_pages encode decode sid k n' (Some (encode (message_key ?m))) st = Some (drop k ?L)"
      by (rule walk_from [OF assms(1-4) split]) (use assms(4,5) n True in simp)
    then show ?thesis using True by (simp add: n page)
  next
    case False
    then show ?thesis by (simp add: n page)
  qed
qed

text \<open>
  The context of a message is a window of the session's messages around it: the messages
  right before it and right after it, in order, with as many as asked for if there are so many.
\<close>

theorem message_context_is_window:
  assumes "ssr_getById sid (db_sessions (st_db st)) \<noteq> None" and codec: "cursor_codec encode decode"
    and p: "pageable (sorted_messages sid st)" and wf: "mr_wf (db_messages (st_db st))"
    and m: "mr_getById mid (db_messages (st_db st)) = Some m" "msg_sessionId m = sid"
  shows "\<exists>A B. sorted_messages sid st = A @ m # B \<and>
    getSessionMessageContext encode decode sid mid before after st =
      (Inr \<lparr>ctx_anchor = m, ctx_before = drop (length A - before) A, ctx_after = take after B,
            ctx_hasMoreBefore = (before > 0 \<and> length A > before),
            ctx_hasMoreAfter = (after > 0 \<and> length B > after)\<rparr>, st)"
proof -
  have "mid \<in> set (or_else (map_of (mr_sessionMessageIds (db_messages (st_db st))) sid) [])"
    using wf m unfolding mr_wf_def mr_getById_def by blast
  then have "m \<in> set (sorted_messages sid st)"
    using m(1) by (auto simp: sorted_messages_def listSortedSessionMessages_def mr_getById_def List.map_filter_def
        intro!: image_eqI [of _ _ mid])
  then obtain A B where L: "sorted_messages sid st = A @ m # B" by (meson split_list)
  have g: "getSessionMessage sid mid st = (Inr m, st)"
    using assms(1) m by (auto simp: getSessionMessage_def getSession_def)
  note page = listPage_after [OF codec p L]
  show ?thesis
    by (intro exI [of _ A] exI [of _ B] conjI L)
      (simp add: getSessionMessageContext_def g Let_def page)
qed

definition unary :: "string \<times> string \<Rightarrow> string" where
  "unary p = replicate (length (fst p)) CHR ''1'' @ CHR ''0'' # fst p @ snd p"

definition decode_unary :: "string \<Rightarrow> json option" where
  "decode_unary s =
     (let n = length (takeWhile (\<lambda>c. c = CHR ''1'') s); rest = drop (Suc n) s
      in Some (JObj [(''createdAt'', JStr (take n rest)), (''id'', JStr (drop n rest))]))"

lemma unary_codec: "cursor_codec unary decode_unary"
proof -
  have "takeWhile (\<lambda>c. c = CHR ''1'') (replicate n CHR ''1'' @ CHR ''0'' # s) = replicate n CHR ''1''" for n s
    by (induction n) auto
  then show ?thesis by (simp add: cursor_codec_def unary_def decode_unary_def Let_def)
qed

definition message_example :: "string \<Rightarrow> string \<Rightarrow> message" where
  "message_example i t = \<lparr>msg_id = i, msg_sessionId = ''a'', msg_runId = None, msg_role = RoleUser,
     msg_origin = None, msg_mode = None, msg_content = ContentText i, msg_metadata = None, msg_createdAt = t\<rparr>"

definition messages_example :: engine_state where
  "messages_example = engine_example\<lparr>st_db := store_example\<lparr>db_messages :=
     fold (\<lambda>m r. snd (mr_create m r)) [message_example ''m2'' ''t2'', message_example ''m1'' ''t1'', message_example ''m3'' ''t2'']
       (db_messages store_example)\<rparr>\<rparr>"

lemma messages_example_facts:
  "ssr_getById ''a'' (db_sessions (st_db messages_example)) \<noteq> None"
  "map msg_id (sorted_messages ''a'' messages_example) = [''m1'', ''m2'', ''m3'']"
  "pageable (sorted_messages ''a'' messages_example)"
proof -
  show "ssr_getById ''a'' (db_sessions (st_db messages_example)) \<noteq> None" by code_simp
  have s: "sorted_messages ''a'' messages_example =
      [message_example ''m1'' ''t1'', message_example ''m2'' ''t2'', message_example ''m3'' ''t2'']" by code_simp
  show "map msg_id (sorted_messages ''a'' messages_example) = [''m1'', ''m2'', ''m3'']"
    by (simp add: s message_example_def)
  have "message_cmp (message_example ''m1'' ''t1'') (message_example ''m2'' ''t2'') \<noteq> 0"
    "message_cmp (message_example ''m1'' ''t1'') (message_example ''m3'' ''t2'') \<noteq> 0"
    "message_cmp (message_example ''m2'' ''t2'') (message_example ''m3'' ''t2'') \<noteq> 0" by code_simp+
  then show "pageable (sorted_messages ''a'' messages_example)"
    by (simp add: s pageable_def) (simp add: message_example_def)
qed

theorem message_pages_cover_session_witness:
  "map_option (map msg_id) (walk_pages unary decode_unary ''a'' 2 4 None messages_example) = Some [''m1'', ''m2'', ''m3'']"
proof -
  have "length (sorted_messages ''a'' messages_example) = 3"
    using messages_example_facts(2) by (metis One_nat_def Suc_1 length_map list.size(3,4) numeral_3_eq_3 add.commute plus_1_eq_Suc)
  then have "walk_pages unary decode_unary ''a'' 2 4 None messages_example = Some (sorted_messages ''a'' messages_example)"
    by (intro message_pages_cover_session messages_example_facts unary_codec) simp_all
  then show ?thesis by (simp add: messages_example_facts)
qed

theorem message_context_is_window_witness:
  "\<exists>c. getSessionMessageContext unary decode_unary ''a'' ''m2'' 5 5 messages_example = (Inr c, messages_example) \<and>
     map msg_id (ctx_before c @ ctx_anchor c # ctx_after c) = [''m1'', ''m2'', ''m3'']"
proof -
  have m: "mr_getById ''m2'' (db_messages (st_db messages_example)) = Some (message_example ''m2'' ''t2'')"
    "msg_sessionId (message_example ''m2'' ''t2'') = ''a''" by code_simp+
  have "mr_items (db_messages (st_db messages_example)) =
      map (\<lambda>m. (msg_id m, m)) [message_example ''m2'' ''t2'', message_example ''m1'' ''t1'', message_example ''m3'' ''t2'']"
    "mr_sessionMessageIds (db_messages (st_db messages_example)) = [(''a'', [''m2'', ''m1'', ''m3''])]"
    by code_simp+
  then have wf: "mr_wf (db_messages (st_db messages_example))"
    by (auto simp: mr_wf_def jmap_wf_def message_example_def or_else_def split: if_splits)
  from message_context_is_window [OF messages_example_facts(1) unary_codec messages_example_facts(3) wf m, of 5 5]
  obtain A B where L: "sorted_messages ''a'' messages_example = A @ message_example ''m2'' ''t2'' # B"
    and c: "getSessionMessageContext unary decode_unary ''a'' ''m2'' 5 5 messages_example =
      (Inr \<lparr>ctx_anchor = message_example ''m2'' ''t2'', ctx_before = drop (length A - 5) A, ctx_after = take 5 B,
            ctx_hasMoreBefore = (5 > (0::nat) \<and> length A > 5),
            ctx_hasMoreAfter = (5 > (0::nat) \<and> length B > 5)\<rparr>, messages_example)" by blast
  have ids: "map msg_id A @ ''m2'' # map msg_id B = [''m1'', ''m2'', ''m3'']"
    using messages_example_facts(2) by (simp add: L message_example_def)
  have "length A + length B = 2" using arg_cong [OF ids, of length] by simp
  then have "drop (length A - 5) A = A" "take 5 B = B" by simp_all
  with c ids show ?thesis by (simp add: message_example_def)
qed

subsection \<open>Deleting a tree of sessions\<close>

lemma listAll_drop:
  "listAllWorkspaceSessions wid offset m =
     drop offset (js_sort ssr_cmp (filter (\<lambda>s. session_workspaceId s = wid) (jmap_values m)))"
proof (induction wid offset m rule: listAllWorkspaceSessions.induct)
  case (1 wid offset m)
  let ?L = "js_sort ssr_cmp (filter (\<lambda>s. session_workspaceId s = wid) (jmap_values m))"
  have page: "ssr_listByWorkspaceId wid 200 (Some (js_show offset)) m = take 200 (drop offset ?L)"
    by (simp add: ssr_listByWorkspaceId_def)
  show ?case
  proof (cases "length (take 200 (drop offset ?L)) < 200")
    case True
    then have "length ?L - offset < 200" by (simp add: min_def split: if_splits)
    then show ?thesis by (subst listAllWorkspaceSessions.simps) (simp add: page Let_def)
  next
    case False
    then have "listAllWorkspaceSessions wid (offset + 200) m = drop (offset + 200) ?L"
      using 1 [OF refl] by (simp only: page) simp
    then show ?thesis
      using False append_take_drop_id [of 200 "drop offset ?L"]
      by (subst listAllWorkspaceSessions.simps) (simp add: page Let_def add.commute)
  qed
qed

lemma children_fold:
  "p \<noteq> [] \<Longrightarrow> or_else (map_of (fold (\<lambda>c m. if \<not> truthy (session_parentSessionId c) then m
        else let p = the (session_parentSessionId c) in
          AList.update p (or_else (map_of m p) [] @ [session_id c]) m) ss m) p) [] =
     or_else (map_of m p) [] @ map session_id (filter (\<lambda>c. session_parentSessionId c = Some p) ss)"
  by (induction ss arbitrary: m) (auto simp: Let_def jmap_get_set truthy_def)

definition child_edge :: "memory_db \<Rightarrow> string \<Rightarrow> string \<Rightarrow> string \<Rightarrow> bool" where
  "child_edge db wid p c \<longleftrightarrow> p \<noteq> [] \<and>
     (\<exists>s. map_of (db_sessions db) c = Some s \<and> session_workspaceId s = wid \<and> session_parentSessionId s = Some p)"

inductive descendant :: "memory_db \<Rightarrow> string \<Rightarrow> string \<Rightarrow> string \<Rightarrow> bool" for db wid root where
  self: "descendant db wid root root"
| child: "descendant db wid root p \<Longrightarrow> child_edge db wid p c \<Longrightarrow> descendant db wid root c"

lemma descendant_trans:
  "descendant db wid b c \<Longrightarrow> descendant db wid a b \<Longrightarrow> descendant db wid a c"
  by (induction rule: descendant.induct) (auto intro: descendant.child)

lemma descendant_cases_down:
  "descendant db wid root x \<Longrightarrow> x = root \<or> (\<exists>c. child_edge db wid root c \<and> descendant db wid c x)"
  by (induction rule: descendant.induct) (auto intro: descendant.intros)

lemma children_map:
  assumes "keyed session_id (db_sessions db)" and "target \<noteq> []"
  shows "set (or_else (map_of (childSessionIdsByParentId (listAllWorkspaceSessions wid 0 (db_sessions db))) target) []) =
     {c. child_edge db wid target c}"
proof -
  have wf: "jmap_wf (db_sessions db)" using assms(1) by (simp add: keyed_def)
  have k: "\<And>k v. map_of (db_sessions db) k = Some v \<Longrightarrow> session_id v = k" using assms(1) by (simp add: keyed_def)
  have "set (or_else (map_of (childSessionIdsByParentId (listAllWorkspaceSessions wid 0 (db_sessions db))) target) []) =
     session_id ` {s. (\<exists>k. map_of (db_sessions db) k = Some s) \<and> session_workspaceId s = wid \<and> session_parentSessionId s = Some target}"
    unfolding childSessionIdsByParentId_def children_fold [OF assms(2)]
    by (auto simp: listAll_drop jmap_get_values [OF wf])
  also have "\<dots> = {c. child_edge db wid target c}"
    using k assms(2) unfolding child_edge_def by (auto simp: image_iff)
  finally show ?thesis .
qed

text \<open>Every listed session comes after its children.\<close>

definition children_first :: "(string \<Rightarrow> string \<Rightarrow> bool) \<Rightarrow> string list \<Rightarrow> bool" where
  "children_first edge order \<longleftrightarrow>
     (\<forall>p c. p \<in> set order \<and> edge p c \<longrightarrow> (\<exists>xs ys. order = xs @ p # ys \<and> c \<in> set xs))"

lemma children_first_append:
  "children_first e xs \<Longrightarrow> children_first e ys \<Longrightarrow> children_first e (xs @ ys)"
  unfolding children_first_def
proof (intro allI impI, elim conjE)
  fix p c
  assume xs: "\<forall>p c. p \<in> set xs \<and> e p c \<longrightarrow> (\<exists>as bs. xs = as @ p # bs \<and> c \<in> set as)"
    and ys: "\<forall>p c. p \<in> set ys \<and> e p c \<longrightarrow> (\<exists>as bs. ys = as @ p # bs \<and> c \<in> set as)"
    and p: "p \<in> set (xs @ ys)" and e: "e p c"
  from p consider "p \<in> set xs" | "p \<in> set ys" by auto
  then show "\<exists>as bs. xs @ ys = as @ p # bs \<and> c \<in> set as"
  proof cases
    case 1
    with xs e obtain as bs where "xs = as @ p # bs" "c \<in> set as" by blast
    then show ?thesis by (intro exI [of _ as] exI [of _ "bs @ ys"]) simp
  next
    case 2
    with ys e obtain as bs where "ys = as @ p # bs" "c \<in> set as" by blast
    then show ?thesis by (intro exI [of _ "xs @ as"] exI [of _ bs]) simp
  qed
qed

lemma concat_some_Some:
  "(\<And>x. x \<in> set xs \<Longrightarrow> f x \<noteq> None) \<Longrightarrow> concat_some (map f xs) = Some (concat (map (\<lambda>x. the (f x)) xs))"
proof (induction xs)
  case (Cons x xs)
  from Cons.prems [of x] obtain y where "f x = Some y" by auto
  moreover have "concat_some (map f xs) = Some (concat (map (\<lambda>x. the (f x)) xs))"
    using Cons.prems by (intro Cons.IH) simp
  ultimately show ?case by simp
qed simp

lemma visit_order:
  assumes kids: "\<And>t. t \<noteq> [] \<Longrightarrow> set (or_else (map_of m t) []) = {c. child_edge db wid t c}"
    and rank: "\<And>p c. child_edge db wid p c \<Longrightarrow> rank c < (rank p :: nat)"
    and ids: "\<And>p c. child_edge db wid p c \<Longrightarrow> c \<noteq> []"
  shows "rank target < depth \<Longrightarrow> target \<noteq> [] \<Longrightarrow> \<exists>order. visit depth m target = Some order \<and>
      set order = {x. descendant db wid target x} \<and> children_first (child_edge db wid) order \<and> last order = target"
proof (induction depth arbitrary: target)
  case (Suc depth)
  let ?cs = "or_else (map_of m target) []"
  let ?f = "\<lambda>c. the (visit depth m c)"
  have sub: "visit depth m c \<noteq> None \<and> set (?f c) = {x. descendant db wid c x} \<and> children_first (child_edge db wid) (?f c)"
    if "c \<in> set ?cs" for c
  proof -
    have "child_edge db wid target c" using that kids [OF Suc.prems(2)] by simp
    with rank ids Suc.prems(1) Suc.IH [of c] show ?thesis by fastforce
  qed
  have v: "visit (Suc depth) m target = Some (concat (map ?f ?cs) @ [target])"
    using concat_some_Some [of ?cs "visit depth m"] sub by simp
  have "set (concat (map ?f ?cs)) = {x. \<exists>c. child_edge db wid target c \<and> descendant db wid c x}"
    using sub kids [OF Suc.prems(2)] by auto
  moreover have "{x. descendant db wid target x} =
      insert target {x. \<exists>c. child_edge db wid target c \<and> descendant db wid c x}"
  proof (intro set_eqI iffI)
    fix x assume "x \<in> {x. descendant db wid target x}"
    then show "x \<in> insert target {x. \<exists>c. child_edge db wid target c \<and> descendant db wid c x}"
      using descendant_cases_down [of db wid target x] by simp
  next
    fix x assume "x \<in> insert target {x. \<exists>c. child_edge db wid target c \<and> descendant db wid c x}"
    then consider "x = target" | c where "child_edge db wid target c" "descendant db wid c x" by blast
    then show "x \<in> {x. descendant db wid target x}"
    proof cases
      case 1
      then show ?thesis by (simp add: descendant.self)
    next
      case 2
      then show ?thesis using descendant_trans [OF 2(2) descendant.child [OF descendant.self 2(1)]] by simp
    qed
  qed
  ultimately have s: "set (concat (map ?f ?cs) @ [target]) = {x. descendant db wid target x}" by simp
  have subs: "children_first (child_edge db wid) (concat (map ?f cs))" if "set cs \<subseteq> set ?cs" for cs
    using that
  proof (induction cs)
    case Nil
    show ?case by (simp add: children_first_def)
  next
    case (Cons c cs)
    then show ?case using sub by (auto intro!: children_first_append)
  qed
  have "children_first (child_edge db wid) (concat (map ?f ?cs) @ [target])"
    unfolding children_first_def
  proof (intro allI impI, elim conjE)
    fix p c assume p: "p \<in> set (concat (map ?f ?cs) @ [target])" and e: "child_edge db wid p c"
    show "\<exists>xs ys. concat (map ?f ?cs) @ [target] = xs @ p # ys \<and> c \<in> set xs"
    proof (cases "p \<in> set (concat (map ?f ?cs))")
      case True
      with subs [of ?cs] e obtain xs ys where "concat (map ?f ?cs) = xs @ p # ys" "c \<in> set xs"
        unfolding children_first_def by blast
      then show ?thesis by (intro exI [of _ xs] exI [of _ "ys @ [target]"]) simp
    next
      case False
      then have "p = target" using p by auto
      then have "c \<in> set (concat (map ?f ?cs))"
        using e kids [OF Suc.prems(2)] sub descendant.self by fastforce
      with \<open>p = target\<close> show ?thesis by blast
    qed
  qed
  with v s show ?case by auto
qed simp

lemma for_each_delete: "for_each deleteOne order st = (Inr (), st\<lparr>st_db := fold ssr_delete order (st_db st)\<rparr>)"
  by (induction order arbitrary: st) (simp_all add: deleteOne_def)

lemma fold_ssr_delete_sessions:
  "db_wf db \<Longrightarrow> db_wf (fold ssr_delete order db) \<and>
     map_of (db_sessions (fold ssr_delete order db)) k = (if k \<in> set order then None else map_of (db_sessions db) k)"
proof (induction order arbitrary: db)
  case (Cons sid order)
  have "map_of (db_sessions (ssr_delete sid db)) k = (if k = sid then None else map_of (db_sessions db) k)"
    by (cases "map_of (db_sessions db) sid = None")
      (simp_all add: ssr_delete_def deleteSessionArtifacts_def Let_def split_def jmap_get_delete)
  with Cons.IH [OF db_wf_ssr_delete [OF Cons.prems, of sid]] show ?case by auto
qed simp

text \<open>
  When the parent links of a workspace's sessions have no cycle, deleting a session returns and
  removes exactly that session and its descendants in the workspace; every other session stays, the
  store stays well formed, and the archive gets the deleted sessions once, children before parents.
\<close>

theorem delete_session_removes_tree:
  assumes wf: "db_wf (st_db st)" and s: "ssr_getById sid (db_sessions (st_db st)) = Some s" and "sid \<noteq> []"
    and w: "wsr_getById (session_workspaceId s) (db_workspaces (st_db st)) \<noteq> None"
    and rank: "\<And>p c. child_edge (st_db st) (session_workspaceId s) p c \<Longrightarrow> c \<noteq> [] \<and> rank c < (rank p :: nat)"
    and depth: "rank sid < depth"
  shows "\<exists>order st'. deleteSession depth sid st = (Inr (), st') \<and> db_wf (st_db st') \<and>
     (\<forall>k. ssr_getById k (db_sessions (st_db st')) =
        (if k \<in> set order then None else ssr_getById k (db_sessions (st_db st)))) \<and>
     set order = {x. descendant (st_db st) (session_workspaceId s) sid x} \<and> last order = sid \<and>
     children_first (child_edge (st_db st) (session_workspaceId s)) order \<and>
     st_archive st' = map_option (\<lambda>log. log @ [(sid, order)]) (st_archive st)"
proof -
  let ?db = "st_db st" and ?wid = "session_workspaceId s"
  let ?m = "childSessionIdsByParentId (listAllWorkspaceSessions ?wid 0 (db_sessions ?db))"
  have k: "keyed session_id (db_sessions ?db)" using wf by (simp add: db_wf_def)
  obtain order where o: "visit depth ?m sid = Some order" "set order = {x. descendant ?db ?wid sid x}"
    "children_first (child_edge ?db ?wid) order" "last order = sid"
    using visit_order [of ?m ?db ?wid rank, OF children_map [OF k]] rank depth assms(3) by blast
  obtain ws where ws: "wsr_getById ?wid (db_workspaces ?db) = Some ws" using w by blast
  have "deleteSession depth sid st = (Inr (), st\<lparr>st_archive := map_option (\<lambda>log. log @ [(sid, order)]) (st_archive st),
      st_db := fold ssr_delete order ?db\<rparr>)"
    by (simp add: deleteSession_def getSession_def s getWorkspaceRecord_def ws o archiveSessionTree_def for_each_delete)
  then show ?thesis
    using fold_ssr_delete_sessions [OF wf] o by (intro exI [of _ order]) (simp add: ssr_getById_def)
qed

definition tree_example :: engine_state where
  "tree_example = engine_example\<lparr>st_archive := Some [],
     st_db := store_example
       \<lparr>db_workspaces := [(''w'', \<lparr>ws_id = ''w'', ws_defaultAgent = None, ws_agents = [], ws_workspaceModels = [],
          ws_createdAt = [], ws_updatedAt = [], ws_definition = JNull\<rparr>)],
        db_sessions := map (\<lambda>(k, s). (k, if k = ''b'' then s\<lparr>session_parentSessionId := Some ''a''\<rparr> else s))
          (db_sessions store_example)\<rparr>\<rparr>"

lemma tree_example_sessions:
  "db_sessions (st_db tree_example) =
     [(''b'', (the (map_of (db_sessions store_example) ''b''))\<lparr>session_parentSessionId := Some ''a''\<rparr>),
      (''a'', the (map_of (db_sessions store_example) ''a''))]"
  by code_simp

theorem delete_session_removes_tree_witness:
  "\<exists>st'. deleteSession 5 ''a'' tree_example = (Inr (), st') \<and>
     ssr_getById ''a'' (db_sessions (st_db st')) = None \<and> st_archive st' = Some [(''a'', [''b'', ''a''])]"
proof -
  let ?s = "the (map_of (db_sessions store_example) ''a'')"
  have parts: "session_id ?s = ''a''" "session_workspaceId ?s = ''w''" "session_parentSessionId ?s = None"
    "session_id (the (map_of (db_sessions store_example) ''b'')) = ''b''" by code_simp+
  have wf: "db_wf (st_db tree_example)"
  proof -
    have "keyed session_id (db_sessions (st_db tree_example))"
      using parts by (auto simp: keyed_def jmap_wf_def tree_example_sessions split: if_splits)
    moreover have "keyed ws_id (db_workspaces (st_db tree_example))"
      by (auto simp: keyed_def jmap_wf_def tree_example_def split: if_splits)
    ultimately show ?thesis using db_wf_store_example by (simp add: db_wf_def tree_example_def)
  qed
  have s: "ssr_getById ''a'' (db_sessions (st_db tree_example)) = Some ?s"
    by (simp add: ssr_getById_def tree_example_sessions)
  have w: "wsr_getById (session_workspaceId ?s) (db_workspaces (st_db tree_example)) \<noteq> None"
    unfolding parts by code_simp
  define rank :: "string \<Rightarrow> nat" where "rank k = (if k = ''a'' then 1 else 0)" for k
  have rank: "c \<noteq> [] \<and> rank c < rank p" if "child_edge (st_db tree_example) (session_workspaceId ?s) p c" for p c
    using that parts unfolding child_edge_def tree_example_sessions rank_def by (auto split: if_splits)
  have depth: "rank ''a'' < 5" by (simp add: rank_def)
  obtain order st' where d: "deleteSession 5 ''a'' tree_example = (Inr (), st')" "last order = ''a''"
      "ssr_getById ''a'' (db_sessions (st_db st')) = (if ''a'' \<in> set order then None else ssr_getById ''a'' (db_sessions (st_db tree_example)))"
      "set order = {x. descendant (st_db tree_example) (session_workspaceId ?s) ''a'' x}"
    using delete_session_removes_tree [OF wf s _ w rank depth] by auto
  have "''a'' \<in> set order" unfolding d(4) by (simp add: descendant.self)
  moreover have "st_archive (snd (deleteSession 5 ''a'' tree_example)) = Some [(''a'', [''b'', ''a''])]" by code_simp
  ultimately show ?thesis using d by simp
qed

subsection \<open>Updating and creating\<close>

lemma nextActiveAgent_ok:
  "nextActiveAgent workspace s name = Inr agent \<Longrightarrow>
     agent = session_activeAgentName s \<or> (\<exists>a. map_of (ws_agents workspace) agent = Some a \<and> agent_mode a \<noteq> AgentSubagent)"
  by (auto simp: nextActiveAgent_def split: option.splits if_splits)

lemma nextModelRef_ok:
  assumes "nextModelRef norm workspace s ref st = (Inr r, st')"
  shows "st' = st \<and> (fst (sessionHasStarted (session_id s) st) = Inr True \<longrightarrow> r = session_modelRef s)"
  using assms
  by (auto simp: nextModelRef_def lift_result_def sessionHasStarted_def split: option.splits sum.splits if_splits)

text \<open>
  An update that succeeds stores a session with the same id and workspace; once the session has
  a message or a run its model reference does not change any more; and the active agent is the old
  one or an agent of the workspace that is not a subagent.
\<close>

theorem update_session_keeps_model_lock:
  assumes s: "ssr_getById sid (db_sessions (st_db st)) = Some s" and id: "session_id s = sid"
    and ok: "updateSession norm sid inp st = (Inr s', st')"
  shows "ssr_getById sid (db_sessions (st_db st')) = Some s' \<and> session_id s' = sid \<and>
     session_workspaceId s' = session_workspaceId s \<and>
     (fst (sessionHasStarted sid st) = Inr True \<longrightarrow> session_modelRef s' = keep_truthy (session_modelRef s)) \<and>
     (\<exists>w. wsr_getById (session_workspaceId s) (db_workspaces (st_db st)) = Some w \<and>
        (session_activeAgentName s' = session_activeAgentName s \<or>
         (\<exists>a. map_of (ws_agents w) (session_activeAgentName s') = Some a \<and> agent_mode a \<noteq> AgentSubagent)))"
proof -
  have g: "getSession sid st = (Inr s, st)" using s by (simp add: getSession_def)
  obtain w where w: "wsr_getById (session_workspaceId s) (db_workspaces (st_db st)) = Some w"
    using ok by (cases "wsr_getById (session_workspaceId s) (db_workspaces (st_db st))")
      (auto simp: updateSession_def g getWorkspaceRecord_def)
  obtain agent where a: "nextActiveAgent w s (up_activeAgentName inp) = Inr agent"
    using ok by (cases "nextActiveAgent w s (up_activeAgentName inp)")
      (auto simp: updateSession_def g getWorkspaceRecord_def w)
  obtain r st1 where m: "nextModelRef norm w s (up_modelRef inp) st = (Inr r, st1)"
    using ok by (cases "nextModelRef norm w s (up_modelRef inp) st"; cases "fst (nextModelRef norm w s (up_modelRef inp) st)")
      (auto simp: updateSession_def g getWorkspaceRecord_def w a)
  note r = nextModelRef_ok [OF m]
  have "s' = s\<lparr>session_title := or_opt (up_title inp) (session_title s),
                session_activeAgentName := agent, session_updatedAt := st_clock st (st_tick st),
                session_workspaceMemory := (case up_workspaceMemory inp of
                   None \<Rightarrow> session_workspaceMemory s | Some m \<Rightarrow> m),
                session_modelRef := keep_truthy r\<rparr> \<and>
      ssr_getById sid (db_sessions (st_db st')) = Some s'"
    using ok r s id
    by (auto simp: updateSession_def g getWorkspaceRecord_def w a m on_sessions_def ssr_update_def ssr_getById_def
        jmap_get_set split_def split: if_splits)
  then show ?thesis using r id w nextActiveAgent_ok [OF a] by simp
qed

theorem update_session_keeps_model_lock_witness:
  "\<exists>s' st'. updateSession (\<lambda>w r. Inr r) ''a'' \<lparr>up_title = Some ''t'', up_activeAgentName = None, up_modelRef = None,
       up_workspaceMemory = None\<rparr> tree_example = (Inr s', st') \<and> session_modelRef s' = None"
proof -
  let ?s = "the (map_of (db_sessions store_example) ''a'')"
  let ?u = "updateSession (\<lambda>w r. Inr r) ''a'' \<lparr>up_title = Some ''t'', up_activeAgentName = None, up_modelRef = None,
       up_workspaceMemory = None\<rparr> tree_example"
  have s: "ssr_getById ''a'' (db_sessions (st_db tree_example)) = Some ?s"
    by (simp add: ssr_getById_def tree_example_sessions)
  have p: "session_id ?s = ''a''" "keep_truthy (session_modelRef ?s) = None" by code_simp+
  have "(case fst ?u of Inl e \<Rightarrow> False | Inr x \<Rightarrow> True)" by code_simp
  then obtain s' where u: "?u = (Inr s', snd ?u)" by (cases ?u) (auto split: sum.splits)
  have "fst (sessionHasStarted ''a'' tree_example) = Inr True" by code_simp
  with update_session_keeps_model_lock [OF s p(1) u] p(2) have "session_modelRef s' = None" by simp
  with u show ?thesis by blast
qed

text \<open>
  A session is created only with an active agent of the workspace (any name when the workspace
  defines no agents), never with a subagent; without a name the default agent is taken.
\<close>

theorem created_session_has_primary_agent:
  assumes "buildSessionRecord norm workspace subjectRef inp st = (Inr s, st')"
  shows "session_activeAgentName s \<noteq> [] \<and>
     Some (session_activeAgentName s) = or_opt (ci_agentName inp) (resolveWorkspaceDefaultAgentName workspace) \<and>
     (case map_of (ws_agents workspace) (session_activeAgentName s) of
        Some a \<Rightarrow> agent_mode a \<noteq> AgentSubagent | None \<Rightarrow> ws_agents workspace = []) \<and>
     norm workspace (ci_modelRef inp) \<noteq> Inl (AppError 404 ''model_not_found'') \<and>
     st_db st' = st_db st"
  using assms
  by (auto simp: buildSessionRecord_def Let_def truthy_def split: sum.splits if_splits option.splits)

definition agents_example :: workspace_record where
  "agents_example = \<lparr>ws_id = ''w'', ws_defaultAgent = None,
     ws_agents = [(''plan'', \<lparr>agent_name = ''plan'', agent_mode = AgentPrimary\<rparr>),
                  (''explore'', \<lparr>agent_name = ''explore'', agent_mode = AgentSubagent\<rparr>),
                  (''build'', \<lparr>agent_name = ''build'', agent_mode = AgentAll\<rparr>)],
     ws_workspaceModels = [], ws_createdAt = [], ws_updatedAt = [], ws_definition = JNull\<rparr>"

theorem created_session_has_primary_agent_witness:
  "\<exists>s st'. buildSessionRecord (\<lambda>w r. Inr r) agents_example ''u''
      \<lparr>ci_title = None, ci_agentName = None, ci_modelRef = None, ci_workspaceMemory = None\<rparr> engine_example = (Inr s, st') \<and>
     session_activeAgentName s = ''build''"
proof -
  let ?b = "buildSessionRecord (\<lambda>w r. Inr r) agents_example ''u''
      \<lparr>ci_title = None, ci_agentName = None, ci_modelRef = None, ci_workspaceMemory = None\<rparr> engine_example"
  have "(case fst ?b of Inl e \<Rightarrow> False | Inr x \<Rightarrow> True)" by code_simp
  then obtain s where b: "?b = (Inr s, snd ?b)" by (cases ?b) (auto split: sum.splits)
  have "resolveWorkspaceDefaultAgentName agents_example = Some ''build''" by code_simp
  with created_session_has_primary_agent [OF b] have "session_activeAgentName s = ''build''" by simp
  with b show ?thesis by blast
qed

subsection \<open>The queue of a session\<close>

definition listable :: "memory_db \<Rightarrow> string \<Rightarrow> string \<Rightarrow> bool" where
  "listable db sid rid \<longleftrightarrow>
     (\<exists>r m. rr_getById rid (db_runs db) = Some r \<and> run_sessionId r = Some sid \<and> run_status r = Queued \<and>
        run_triggerType r = TriggerMessage \<and> truthy (run_triggerRef r) \<and>
        mr_getById (the (run_triggerRef r)) (db_messages db) = Some m \<and> msg_sessionId m = sid)"

text \<open>An entry is kept although it cannot be listed only when its message is not stored.\<close>

definition stale :: "memory_db \<Rightarrow> string \<Rightarrow> string \<Rightarrow> bool" where
  "stale db sid rid \<longleftrightarrow> \<not> listable db sid rid \<and>
     \<not> (\<exists>r. rr_getById rid (db_runs db) = Some r \<and> run_sessionId r = Some sid \<and> run_status r = Queued \<and>
        run_triggerType r = TriggerMessage \<and> truthy (run_triggerRef r) \<and>
        mr_getById (the (run_triggerRef r)) (db_messages db) = None)"

definition set_pending :: "pending_queue \<Rightarrow> engine_state \<Rightarrow> engine_state" where
  "set_pending q st = st\<lparr>st_db := st_db st\<lparr>db_pending := q\<rparr>\<rparr>"

lemma listable_pending [simp]:
  "listable (st_db (set_pending q st)) = listable (st_db st)" "stale (st_db (set_pending q st)) = stale (st_db st)"
  by (simp_all add: fun_eq_iff listable_def stale_def set_pending_def)

lemma set_pending_id: "set_pending (db_pending (st_db st)) st = st"
  by (simp add: set_pending_def)

lemma set_pending_twice [simp]: "set_pending q (set_pending q' st) = set_pending q st"
  by (simp add: set_pending_def)

lemma set_pending_pending [simp]: "db_pending (st_db (set_pending q st)) = q"
  by (simp add: set_pending_def)

lemma collect_step:
  "\<exists>new. collect_entries sid heal (e # es) items st =
     collect_entries sid heal es (items @ new)
       (set_pending (if heal \<and> stale (st_db st) sid (pend_runId e) then pq_remove (pend_runId e) (db_pending (st_db st))
                     else db_pending (st_db st)) st) \<and>
     map qr_runId new = (if listable (st_db st) sid (pend_runId e) then [pend_runId e] else []) \<and>
     map qr_position new = (if listable (st_db st) sid (pend_runId e) then [length items + 1] else [])"
proof -
  let ?db = "st_db st" and ?rid = "pend_runId e"
  have heal: "heal_entry heal ?rid st =
      (Inr (), set_pending (if heal then pq_remove ?rid (db_pending ?db) else db_pending ?db) st)"
    by (simp add: heal_entry_def removeQueuedRunBestEffort_def on_pending_def set_pending_def)
  consider (bad) "rr_getById ?rid (db_runs ?db) = None"
    | (run) r where "rr_getById ?rid (db_runs ?db) = Some r" by (cases "rr_getById ?rid (db_runs ?db)") auto
  then show ?thesis
  proof cases
    case bad
    then have "\<not> listable ?db sid ?rid" "stale ?db sid ?rid" by (auto simp: listable_def stale_def)
    with bad show ?thesis by (intro exI [of _ "[]"]) (simp add: heal)
  next
    case run
    show ?thesis
    proof (cases "run_sessionId r = Some sid \<and> run_status r = Queued \<and> run_triggerType r = TriggerMessage \<and> truthy (run_triggerRef r)")
      case False
      then have "\<not> listable ?db sid ?rid" "stale ?db sid ?rid" using run by (auto simp: listable_def stale_def)
      with run False show ?thesis
        by (intro exI [of _ "[]"]) (auto simp: heal Let_def)
    next
      case True
      show ?thesis
      proof (cases "mr_getById (the (run_triggerRef r)) (db_messages ?db)")
        case None
        then have "\<not> listable ?db sid ?rid" "\<not> stale ?db sid ?rid" using run True by (auto simp: listable_def stale_def)
        with run True None show ?thesis by (intro exI [of _ "[]"]) (simp add: set_pending_id Let_def)
      next
        case (Some m)
        show ?thesis
        proof (cases "msg_sessionId m = sid")
          case True2: True
          then have "listable ?db sid ?rid" "\<not> stale ?db sid ?rid" using run True Some by (auto simp: listable_def stale_def)
          with run True Some True2 show ?thesis
            by (intro exI [of _ "[\<lparr>qr_runId = ?rid, qr_messageId = the (run_triggerRef r),
                     qr_content = summarizeContentForDisplay (msg_content m),
                     qr_createdAt = pend_createdAt e, qr_position = length items + 1\<rparr>]"]) (simp add: set_pending_id Let_def)
        next
          case False
          then have "\<not> listable ?db sid ?rid" "stale ?db sid ?rid" using run True Some by (auto simp: listable_def stale_def)
          with run True Some False show ?thesis
            by (intro exI [of _ "[]"]) (auto simp: heal Let_def)
        qed
      qed
    qed
  qed
qed

lemma collect_all:
  "\<exists>new. collect_entries sid heal es items st =
     (Inr (items @ new),
      set_pending (if heal then fold pq_remove (filter (stale (st_db st) sid) (map pend_runId es)) (db_pending (st_db st))
                   else db_pending (st_db st)) st) \<and>
     map qr_runId new = filter (listable (st_db st) sid) (map pend_runId es) \<and>
     map qr_position new = [Suc (length items)..<Suc (length items + length new)]"
proof (induction es arbitrary: items st)
  case Nil
  then show ?case by (simp add: set_pending_id)
next
  case (Cons e es)
  obtain new where new: "collect_entries sid heal (e # es) items st =
     collect_entries sid heal es (items @ new)
       (set_pending (if heal \<and> stale (st_db st) sid (pend_runId e) then pq_remove (pend_runId e) (db_pending (st_db st))
                     else db_pending (st_db st)) st)"
     "map qr_runId new = (if listable (st_db st) sid (pend_runId e) then [pend_runId e] else [])"
     "map qr_position new = (if listable (st_db st) sid (pend_runId e) then [length items + 1] else [])"
    using collect_step by blast
  let ?st = "set_pending (if heal \<and> stale (st_db st) sid (pend_runId e) then pq_remove (pend_runId e) (db_pending (st_db st))
                     else db_pending (st_db st)) st"
  obtain more where more: "collect_entries sid heal es (items @ new) ?st =
     (Inr ((items @ new) @ more),
      set_pending (if heal then fold pq_remove (filter (stale (st_db ?st) sid) (map pend_runId es)) (db_pending (st_db ?st))
                   else db_pending (st_db ?st)) ?st)"
     "map qr_runId more = filter (listable (st_db ?st) sid) (map pend_runId es)"
     "map qr_position more = [Suc (length (items @ new))..<Suc (length (items @ new) + length more)]"
    using Cons.IH by blast
  have len: "length new = (if listable (st_db st) sid (pend_runId e) then 1 else 0)"
    using arg_cong [OF new(2), of length] by simp
  show ?case
    by (rule exI [of _ "new @ more"])
      (use new more len in \<open>simp add: upt_conv_Cons del: upt_Suc collect_entries.simps\<close>)
qed

lemma pq_order_remove_all: "pq_wf q \<Longrightarrow> pq_wf (fold pq_remove rs q) \<and>
    pq_order (fold pq_remove rs q) s = filter (\<lambda>r. r \<notin> set rs) (pq_order q s)"
proof (induction rs arbitrary: q)
  case (Cons r rs)
  have "pq_order (pq_remove r q) s = filter (\<lambda>x. x \<noteq> r) (pq_order q s)"
    using pq.order_rem [OF Cons.prems, of r] pq.order_distinct [OF Cons.prems, of s]
    by (simp add: distinct_remove1_removeAll removeAll_filter_not_eq eq_commute)
  with Cons.IH [OF pq.wf_rem [OF Cons.prems, of r]] show ?case
    by (auto intro!: filter_cong)
qed simp

text \<open>
  Listing the queued runs of a session returns exactly the waiting entries whose run is still a
  queued message run of that session with its message stored, in queue order and numbered from 1,
  and takes the stale entries of the session out of the queue; other sessions' queues stay.
\<close>

theorem listing_queue_heals_it:
  assumes "ssr_getById sid (db_sessions (st_db st)) \<noteq> None" and wf: "pq_wf (db_pending (st_db st))"
  shows "\<exists>items st'. listSessionQueuedRuns sid st = (Inr items, st') \<and>
    map qr_runId items = filter (listable (st_db st) sid) (pq_order (db_pending (st_db st)) sid) \<and>
    map qr_position items = [1..<Suc (length items)] \<and>
    pq_order (db_pending (st_db st')) sid = filter (\<lambda>r. \<not> stale (st_db st) sid r) (pq_order (db_pending (st_db st)) sid) \<and>
    (\<forall>s. s \<noteq> sid \<longrightarrow> pq_order (db_pending (st_db st')) s = pq_order (db_pending (st_db st)) s)"
proof -
  let ?q = "db_pending (st_db st)" and ?es = "pq_listBySessionId sid (db_pending (st_db st))"
  let ?stale = "filter (stale (st_db st) sid) (map pend_runId ?es)"
  obtain new where new: "collect_entries sid True ?es [] st = (Inr new, set_pending (fold pq_remove ?stale ?q) st)"
    "map qr_runId new = filter (listable (st_db st) sid) (map pend_runId ?es)"
    "map qr_position new = [1..<Suc (length new)]"
    using collect_all [of sid True ?es "[]" st] by auto
  have order: "map pend_runId ?es = pq_order ?q sid" by (simp add: pq_order_def)
  have l: "listSessionQueuedRuns sid st = (Inr new, set_pending (fold pq_remove ?stale ?q) st)"
    using assms(1) new(1) by (auto simp: listSessionQueuedRuns_def getSession_def collectSessionQueuedRuns_def)
  have "pq_order (fold pq_remove ?stale ?q) sid = filter (\<lambda>r. \<not> stale (st_db st) sid r) (pq_order ?q sid)"
    using pq_order_remove_all [OF wf, of ?stale sid] unfolding order by (auto intro: filter_cong)
  moreover have "pq_order (fold pq_remove ?stale ?q) s = pq_order ?q s" if "s \<noteq> sid" for s
  proof -
    have "r \<notin> set ?stale" if "r \<in> set (pq_order ?q s)" for r
      using that \<open>s \<noteq> sid\<close> pq.order_disjoint [OF wf, of r s sid] unfolding order by auto
    then show ?thesis using pq_order_remove_all [OF wf, of ?stale s] by (simp add: filter_id_conv)
  qed
  ultimately show ?thesis using l new(2,3) order
    by (intro exI [of _ new] exI [of _ "set_pending (fold pq_remove ?stale ?q) st"]) simp
qed

definition queue_example :: engine_state where
  "queue_example = messages_example\<lparr>st_db := st_db messages_example
     \<lparr>db_pending := pq_enq ''a'' ''gone'' ''t'' (pq_enq ''a'' ''r1'' ''t'' []),
      db_runs := map (\<lambda>(k, r). (k, r\<lparr>run_triggerRef := Some ''m1''\<rparr>)) (db_runs store_example)\<rparr>\<rparr>"

theorem listing_queue_heals_it_witness:
  "\<exists>items st'. listSessionQueuedRuns ''a'' queue_example = (Inr items, st') \<and>
     map qr_runId items = [''r1''] \<and> pq_order (db_pending (st_db st')) ''a'' = [''r1'']"
proof -
  have s: "ssr_getById ''a'' (db_sessions (st_db queue_example)) \<noteq> None" by code_simp
  have wf: "pq_wf (db_pending (st_db queue_example))"
    by (simp add: queue_example_def pq.wf_enq pq_wf_empty)
  have o: "pq_order (db_pending (st_db queue_example)) ''a'' = [''r1'', ''gone'']" by code_simp
  have r: "rr_getById ''r1'' (db_runs (st_db queue_example)) \<noteq> None"
    "map_option run_sessionId (rr_getById ''r1'' (db_runs (st_db queue_example))) = Some (Some ''a'')"
    "map_option run_status (rr_getById ''r1'' (db_runs (st_db queue_example))) = Some Queued"
    "map_option run_triggerType (rr_getById ''r1'' (db_runs (st_db queue_example))) = Some TriggerMessage"
    "map_option run_triggerRef (rr_getById ''r1'' (db_runs (st_db queue_example))) = Some (Some ''m1'')"
    "mr_getById ''m1'' (db_messages (st_db queue_example)) = Some (message_example ''m1'' ''t1'')"
    "rr_getById ''gone'' (db_runs (st_db queue_example)) = None" by code_simp+
  have l: "listable (st_db queue_example) ''a'' ''r1''" "\<not> listable (st_db queue_example) ''a'' ''gone''"
    using r by (auto simp: listable_def message_example_def)
  then have "\<not> stale (st_db queue_example) ''a'' ''r1''" "stale (st_db queue_example) ''a'' ''gone''"
    using r by (auto simp: stale_def)
  with l listing_queue_heals_it [OF s wf] show ?thesis by (auto simp: o)
qed

end
