(* ===== verification/Message_Creation.thy ===== *)
theory Message_Creation
  imports Session_Records
begin

text \<open>
  \<open>packages/engine-core/src/engine/session-message-creation.ts\<close> and the queue operations of
  \<open>session-engine.ts\<close>: a user message creates a run that is dispatched at once when its session
  is idle and waits in the session's queue otherwise; \<open>interrupt\<close> and \<open>guide\<close> move it to
  the front and cancel what runs. \<open>enqueueRun\<close> and \<open>requestRunCancellation\<close> are logged.
  The entries of the queue are shared objects: \<open>promote\<close> changes the position its caller sees.
\<close>

definition RESERVED_MESSAGE_METADATA_KEYS :: "string list" where
  "RESERVED_MESSAGE_METADATA_KEYS =
     [''runtimeKind'', ''origin'', ''mode'', ''source'', ''synthetic'', ''taskNotification'',
      ''pendingTaskNotificationId'', ''delegatedUpdate'', ''delegatedChildRunId'',
      ''delegatedChildSessionId'', ''delegatedTaskId'', ''delegatedToolUseId'', ''outputRef'', ''outputFile'']"

definition sanitizeUserMessageMetadata :: "(string \<times> json) list option \<Rightarrow> (string \<times> json) list option" where
  "sanitizeUserMessageMetadata metadata =
     (case metadata of None \<Rightarrow> None
      | Some entries \<Rightarrow>
          let sanitized = filter (\<lambda>e. fst e \<notin> set RESERVED_MESSAGE_METADATA_KEYS) entries
          in if length sanitized > 0 then Some sanitized else None)"

datatype running_run_behavior = BehaviorQueue | BehaviorInterrupt

record message_request =
  mi_content :: content
  mi_metadata :: "(string \<times> json) list option"
  mi_workspaceMemory :: "json option"
  mi_runningRunBehavior :: "running_run_behavior option"

datatype delivery = ActiveRunDelivery | SessionQueueDelivery

record message_accepted =
  acc_messageId :: string
  acc_runId :: string
  acc_run :: run
  acc_delivery :: delivery
  acc_queuedPosition :: "int option"
  acc_createdAt :: string

datatype queue_action = ActEnqueued | ActPromoted | ActDequeued | ActRemoved

fun action_name :: "queue_action \<Rightarrow> string" where
  "action_name ActEnqueued = ''enqueued''"
| "action_name ActPromoted = ''promoted''"
| "action_name ActDequeued = ''dequeued''"
| "action_name ActRemoved = ''removed''"

definition queued_run_json :: "queued_run \<Rightarrow> json" where
  "queued_run_json q = JObj [(''runId'', JStr (qr_runId q)), (''messageId'', JStr (qr_messageId q)),
     (''content'', JStr (qr_content q)), (''createdAt'', JStr (qr_createdAt q)),
     (''position'', JNum (int (qr_position q)))]"

definition appendQueueUpdatedEvent :: "string \<Rightarrow> string \<Rightarrow> queue_action \<Rightarrow> int option \<Rightarrow> unit eng" where
  "appendQueueUpdatedEvent sid rid action queuedPosition =
     act_bind (collectSessionQueuedRuns sid False) (\<lambda>items.
     act_bind (appendEvent \<lparr>evi_sessionId = sid, evi_runId = Some rid, evi_event = EvQueueUpdated,
        evi_data = JObj ([(''runId'', JStr rid), (''action'', JStr (action_name action)),
            (''items'', JArr (map queued_run_json items))] @
          (case queuedPosition of None \<Rightarrow> [] | Some p \<Rightarrow> [(''queuedPosition'', JNum p)]))\<rparr>) (\<lambda>_. act_return ()))"

definition getSessionQueueState :: "string \<Rightarrow> string list \<Rightarrow> (bool \<times> string list) eng" where
  "getSessionQueueState sid excludeRunIds = read_db (\<lambda>db.
     let pendingRunIds = map pend_runId (pq_listBySessionId sid (db_pending db));
         activeRunExclusions = excludeRunIds @ pendingRunIds
     in (rr_hasActiveRunForSession sid activeRunExclusions (db_runs db), pendingRunIds))"

definition interruptActiveSessionRuns :: "string \<Rightarrow> string list \<Rightarrow> unit eng" where
  "interruptActiveSessionRuns sid queuedRunIds =
     act_bind (read_db (\<lambda>db. rr_listBySessionId sid (db_runs db))) (\<lambda>runs.
       let activeRuns = filter (\<lambda>r. (run_status r = Queued \<or> run_status r = Running \<or> run_status r = WaitingTool) \<and>
             run_id r \<notin> set queuedRunIds \<and> \<not> truthy (run_cancelRequestedAt r)) runs
       in for_each (\<lambda>r. requestRunCancellation (run_id r)) activeRuns)"

definition retimestampQueuedMessageForDispatch :: "string \<Rightarrow> string \<Rightarrow> string \<Rightarrow> unit eng" where
  "retimestampQueuedMessageForDispatch rid sid dispatchAt =
     act_bind (read_db (\<lambda>db. rr_getById rid (db_runs db))) (\<lambda>run.
       case run of
         None \<Rightarrow> act_return ()
       | Some r \<Rightarrow>
           if run_sessionId r \<noteq> Some sid \<or> run_triggerType r \<noteq> TriggerMessage \<or> \<not> truthy (run_triggerRef r)
           then act_return ()
           else act_bind (read_db (\<lambda>db. mr_getById (the (run_triggerRef r)) (db_messages db))) (\<lambda>message.
             case message of
               None \<Rightarrow> act_return ()
             | Some m \<Rightarrow>
                 if msg_sessionId m \<noteq> sid then act_return ()
                 else act_bind (on_messages (mr_update (m\<lparr>msg_runId := Some rid, msg_createdAt := dispatchAt\<rparr>)))
                   (\<lambda>_. act_return ())))"

definition dispatchNextQueuedRun :: "string \<Rightarrow> string option eng" where
  "dispatchNextQueuedRun sid =
     act_bind (getSessionQueueState sid []) (\<lambda>(hasActiveRun, pendingRunIds).
       if hasActiveRun then act_return None
       else act_bind (on_pending (pq_dequeueNext sid)) (\<lambda>next.
         case next of
           None \<Rightarrow> act_return None
         | Some nextQueuedRun \<Rightarrow>
             act_bind nowIso (\<lambda>dispatchAt.
             act_bind (retimestampQueuedMessageForDispatch (pend_runId nextQueuedRun) sid dispatchAt) (\<lambda>_.
             act_bind (appendQueueUpdatedEvent sid (pend_runId nextQueuedRun) ActDequeued (Some (pend_position nextQueuedRun))) (\<lambda>_.
             act_bind (enqueueRun sid (pend_runId nextQueuedRun)) (\<lambda>_.
               act_return (Some (pend_runId nextQueuedRun))))))))"

definition new_message :: "string \<Rightarrow> string \<Rightarrow> string \<Rightarrow> string \<Rightarrow> message_request \<Rightarrow> message" where
  "new_message messageId sid runId now inp =
     \<lparr>msg_id = messageId, msg_sessionId = sid, msg_runId = Some runId, msg_role = RoleUser,
      msg_origin = Some OriginUser, msg_mode = Some ModePrompt, msg_content = mi_content inp,
      msg_metadata = map_option JObj (sanitizeUserMessageMetadata (mi_metadata inp)), msg_createdAt = now\<rparr>"

definition new_run :: "string \<Rightarrow> session \<Rightarrow> string \<Rightarrow> string \<Rightarrow> string \<Rightarrow> message_request \<Rightarrow> run" where
  "new_run runId s subjectRef messageId now inp =
     \<lparr>run_id = runId, run_workspaceId = session_workspaceId s, run_sessionId = Some (session_id s),
      run_parentRunId = None, run_initiatorRef = Some subjectRef, run_triggerType = TriggerMessage,
      run_triggerRef = Some messageId, run_agentName = Some (session_activeAgentName s),
      run_effectiveAgentName = session_activeAgentName s, run_switchCount = Some 0, run_status = Queued,
      run_cancelRequestedAt = None, run_startedAt = None, run_heartbeatAt = None, run_endedAt = None,
      run_createdAt = now, run_errorCode = None, run_errorMessage = None,
      run_metadata = (case mi_workspaceMemory inp of None \<Rightarrow> None | Some w \<Rightarrow> Some (JObj [(''workspaceMemory'', w)]))\<rparr>"

definition enqueuePending :: "string \<Rightarrow> string \<Rightarrow> string \<Rightarrow> pending_entry eng" where
  "enqueuePending sid rid createdAt = on_pending (pq_enqueue sid rid createdAt)"

text \<open>\<open>promote\<close>, then the position the shared entry has.\<close>

definition promotePending :: "string \<Rightarrow> pending_entry \<Rightarrow> int eng" where
  "promotePending rid entry =
     on_pending (\<lambda>q. let q' = pq_promote rid q
                     in (pend_position (or_else (pq_getByRunId rid q') entry), q'))"

text \<open>
  \<open>createSessionMessage\<close> in its two halves: storing the run, the message and the first event,
  then delivering the run to the run queue or to the session's queue.
\<close>

record stored_message =
  sm_sessionId :: string
  sm_messageId :: string
  sm_run :: run
  sm_now :: string

definition storeMessageRun :: "string \<Rightarrow> string \<Rightarrow> message_request \<Rightarrow> stored_message eng" where
  "storeMessageRun sid subjectRef inp =
     act_bind (getSession sid) (\<lambda>session.
     act_bind nowIso (\<lambda>now. act_bind (createId ''msg'') (\<lambda>messageId. act_bind (createId ''run'') (\<lambda>runId.
     let message = new_message messageId sid runId now inp;
         run = new_run runId session subjectRef messageId now inp
     in act_bind (on_runs (total (rr_create run))) (\<lambda>_.
        act_bind (on_messages (total (mr_create message))) (\<lambda>_.
        act_bind (appendEvent \<lparr>evi_sessionId = session_id session, evi_runId = Some runId, evi_event = EvRunQueued,
          evi_data = JObj [(''runId'', JStr runId), (''sessionId'', JStr (session_id session)), (''status'', JStr ''queued'')]\<rparr>) (\<lambda>_.
        act_return \<lparr>sm_sessionId = session_id session, sm_messageId = messageId, sm_run = run, sm_now = now\<rparr>)))))))"

definition accepted :: "stored_message \<Rightarrow> delivery \<Rightarrow> int option \<Rightarrow> message_accepted" where
  "accepted sm d position = \<lparr>acc_messageId = sm_messageId sm, acc_runId = run_id (sm_run sm), acc_run = sm_run sm,
     acc_delivery = d, acc_queuedPosition = position, acc_createdAt = sm_now sm\<rparr>"

definition deliverInterrupting :: "stored_message \<Rightarrow> bool \<Rightarrow> string list \<Rightarrow> message_accepted eng" where
  "deliverInterrupting sm hasActiveRun pendingRunIds =
     (let sid = sm_sessionId sm; runId = run_id (sm_run sm) in
      act_bind (enqueuePending sid runId (sm_now sm)) (\<lambda>queuedEntry.
      act_bind (promotePending runId queuedEntry) (\<lambda>position.
      act_bind (appendQueueUpdatedEvent sid runId ActPromoted (Some position)) (\<lambda>_.
      act_bind (if hasActiveRun then interruptActiveSessionRuns sid (pendingRunIds @ [runId])
                else act_bind (dispatchNextQueuedRun sid) (\<lambda>_. act_return ())) (\<lambda>_.
        act_return (accepted sm SessionQueueDelivery (Some position)))))))"

definition deliverQueued :: "stored_message \<Rightarrow> message_accepted eng" where
  "deliverQueued sm =
     (let sid = sm_sessionId sm; runId = run_id (sm_run sm) in
      act_bind (enqueuePending sid runId (sm_now sm)) (\<lambda>queuedEntry.
      act_bind (appendQueueUpdatedEvent sid runId ActEnqueued (Some (pend_position queuedEntry))) (\<lambda>_.
        act_return (accepted sm SessionQueueDelivery (Some (pend_position queuedEntry))))))"

definition deliverMessage :: "running_run_behavior \<Rightarrow> stored_message \<Rightarrow> message_accepted eng" where
  "deliverMessage behavior sm =
     (let sid = sm_sessionId sm; runId = run_id (sm_run sm) in
      act_bind (getSessionQueueState sid [runId]) (\<lambda>(hasActiveRun, pendingRunIds).
        if behavior = BehaviorInterrupt then
          (if hasActiveRun \<or> length pendingRunIds > 0 then deliverInterrupting sm hasActiveRun pendingRunIds
           else act_bind (enqueueRun sid runId) (\<lambda>_. act_return (accepted sm ActiveRunDelivery None)))
        else if hasActiveRun \<or> length pendingRunIds > 0 then deliverQueued sm
        else act_bind (enqueueRun sid runId) (\<lambda>_. act_return (accepted sm ActiveRunDelivery None))))"

definition createSessionMessage :: "string \<Rightarrow> string \<Rightarrow> message_request \<Rightarrow> message_accepted eng" where
  "createSessionMessage sid subjectRef inp =
     act_bind (storeMessageRun sid subjectRef inp)
       (deliverMessage (or_else (mi_runningRunBehavior inp) BehaviorQueue))"

definition createSession ::
    "(workspace_record \<Rightarrow> string option \<Rightarrow> string option js_result) \<Rightarrow> string \<Rightarrow> string \<Rightarrow> session_input \<Rightarrow> session eng" where
  "createSession normalizeModelRef wid subjectRef inp =
     act_bind (getWorkspaceRecord wid) (\<lambda>workspace.
     act_bind (buildSessionRecord normalizeModelRef workspace subjectRef inp) (\<lambda>s.
       on_sessions (total (ssr_create s))))"

text \<open>\<open>session-engine.ts\<close> computes the same state of the queue from the listed runs.\<close>

definition engineQueueState :: "string \<Rightarrow> (bool \<times> string list) eng" where
  "engineQueueState sid = read_db (\<lambda>db.
     let runs = rr_listBySessionId sid (db_runs db);
         pendingRunIds = map pend_runId (pq_listBySessionId sid (db_pending db))
     in (list_ex (\<lambda>r. (run_status r = Queued \<or> run_status r = Running \<or> run_status r = WaitingTool) \<and>
            run_id r \<notin> set pendingRunIds \<and> \<not> truthy (run_cancelRequestedAt r)) runs, pendingRunIds))"

definition promoteAndRun :: "string \<Rightarrow> pending_entry \<Rightarrow> unit eng" where
  "promoteAndRun rid queueEntry =
     act_bind (engineQueueState (pend_sessionId queueEntry)) (\<lambda>(hasActiveRun, pendingRunIds).
     act_bind (promotePending rid queueEntry) (\<lambda>position.
     act_bind (appendQueueUpdatedEvent (pend_sessionId queueEntry) rid ActPromoted (Some position)) (\<lambda>_.
       if hasActiveRun then interruptActiveSessionRuns (pend_sessionId queueEntry) pendingRunIds
       else act_bind (dispatchNextQueuedRun (pend_sessionId queueEntry)) (\<lambda>_. act_return ()))))"

definition guideQueuedRun :: "string \<Rightarrow> unit eng" where
  "guideQueuedRun rid =
     act_bind (read_db (\<lambda>db. pq_getByRunId rid (db_pending db))) (\<lambda>entry.
       case entry of
         Some e \<Rightarrow> promoteAndRun rid e
       | None \<Rightarrow>
           act_bind (read_db (\<lambda>db. rr_getById rid (db_runs db))) (\<lambda>run.
             let runSession = Option.bind run run_sessionId in
             act_bind (if truthy runSession
                then read_db (\<lambda>db. find (\<lambda>e. pend_runId e = rid) (pq_listBySessionId (the runSession) (db_pending db)))
                else act_return None) (\<lambda>found.
               case found of
                 Some e \<Rightarrow> promoteAndRun rid e
               | None \<Rightarrow>
                   if truthy runSession \<and> map_option run_triggerType run = Some TriggerMessage then act_return ()
                   else act_throw (AppError 404 ''queued_run_not_found''))))"

subsection \<open>What the steps leave alone\<close>

definition view :: "engine_state \<Rightarrow> run_repo \<times> pending_queue \<times> session_repo \<times> (string \<times> string) list \<times> string list" where
  "view st = (db_runs (st_db st), db_pending (st_db st), db_sessions (st_db st), st_dispatched st, st_cancelRequests st)"

text \<open>An action that returns normally and changes nothing of the view.\<close>

definition quiet :: "'a eng \<Rightarrow> engine_state \<Rightarrow> bool" where
  "quiet m st \<longleftrightarrow> (\<exists>x st'. m st = (Inr x, st') \<and> view st' = view st)"

lemma quietE: "quiet m st \<Longrightarrow> (\<And>x st'. m st = (Inr x, st') \<Longrightarrow> view st' = view st \<Longrightarrow> P) \<Longrightarrow> P"
  unfolding quiet_def by blast

text \<open>The same, and the messages stay.\<close>

definition still :: "'a eng \<Rightarrow> engine_state \<Rightarrow> bool" where
  "still m st \<longleftrightarrow> (\<exists>x st'. m st = (Inr x, st') \<and> view st' = view st \<and> db_messages (st_db st') = db_messages (st_db st))"

lemma stillE: "still m st \<Longrightarrow> (\<And>x st'. m st = (Inr x, st') \<Longrightarrow> view st' = view st \<Longrightarrow>
    db_messages (st_db st') = db_messages (st_db st) \<Longrightarrow> P) \<Longrightarrow> P"
  unfolding still_def by blast

lemma still_appendEvent: "still (appendEvent e) st"
  using appendEvent_run [of e st] by (auto simp: still_def view_def)

lemma collect_quiet: "\<exists>items. collectSessionQueuedRuns sid False st = (Inr items, st)"
  using collect_all [of sid False "pq_listBySessionId sid (db_pending (st_db st))" "[]" st]
  by (auto simp: collectSessionQueuedRuns_def set_pending_id)

lemma still_appendQueueUpdated: "still (appendQueueUpdatedEvent sid rid a p) st"
proof -
  obtain items where "collectSessionQueuedRuns sid False st = (Inr items, st)" using collect_quiet by blast
  then have a: "appendQueueUpdatedEvent sid rid a p st =
      act_bind (appendEvent \<lparr>evi_sessionId = sid, evi_runId = Some rid, evi_event = EvQueueUpdated,
        evi_data = JObj ([(''runId'', JStr rid), (''action'', JStr (action_name a)),
            (''items'', JArr (map queued_run_json items))] @
          (case p of None \<Rightarrow> [] | Some p \<Rightarrow> [(''queuedPosition'', JNum p)]))\<rparr>) (\<lambda>_. act_return ()) st"
    by (simp add: appendQueueUpdatedEvent_def)
  show ?thesis
    by (rule stillE [OF still_appendEvent [of "\<lparr>evi_sessionId = sid, evi_runId = Some rid, evi_event = EvQueueUpdated,
        evi_data = JObj ([(''runId'', JStr rid), (''action'', JStr (action_name a)),
            (''items'', JArr (map queued_run_json items))] @
          (case p of None \<Rightarrow> [] | Some p \<Rightarrow> [(''queuedPosition'', JNum p)]))\<rparr>" st]]) (simp add: still_def a)
qed

lemma quiet_retimestamp:
  assumes "mr_wf (db_messages (st_db st))"
  shows "quiet (retimestampQueuedMessageForDispatch rid sid t) st"
proof (cases "rr_getById rid (db_runs (st_db st))")
  case (Some r)
  show ?thesis
  proof (cases "mr_getById (the (run_triggerRef r)) (db_messages (st_db st))")
    case None
    with Some show ?thesis by (simp add: retimestampQueuedMessageForDispatch_def quiet_def)
  next
    case (Some m)
    then have "msg_id m = the (run_triggerRef r)" using assms by (auto simp: mr_wf_def mr_getById_def)
    with Some \<open>rr_getById rid _ = Some r\<close> show ?thesis
      by (auto simp: retimestampQueuedMessageForDispatch_def quiet_def on_messages_def mr_update_def mr_getById_def view_def)
  qed
qed (simp add: retimestampQueuedMessageForDispatch_def quiet_def)

subsection \<open>Runs in flight\<close>

definition live :: "run_repo \<Rightarrow> string \<Rightarrow> string \<Rightarrow> bool" where
  "live runs sid rid \<longleftrightarrow> (\<exists>r. map_of runs rid = Some r \<and> run_sessionId r = Some sid \<and>
     active_status (run_status r) \<and> \<not> truthy (run_cancelRequestedAt r))"

text \<open>The runs of a session that are active, not being cancelled and not waiting in its queue.\<close>

definition flying :: "string \<Rightarrow> engine_state \<Rightarrow> string set" where
  "flying sid st = {rid. live (db_runs (st_db st)) sid rid \<and> rid \<notin> set (pq_order (db_pending (st_db st)) sid)}"

lemma hasActive_iff:
  assumes "keyed run_id runs"
  shows "rr_hasActiveRunForSession sid excl runs \<longleftrightarrow> (\<exists>rid. live runs sid rid \<and> rid \<notin> set excl)"
proof -
  have wf: "jmap_wf runs" and k: "\<And>k v. map_of runs k = Some v \<Longrightarrow> run_id v = k"
    using assms by (auto simp: keyed_def)
  have "rr_hasActiveRunForSession sid excl runs \<longleftrightarrow>
      (\<exists>r\<in>set (jmap_values runs). run_sessionId r = Some sid \<and> active_status (run_status r) \<and>
         run_id r \<notin> set excl \<and> \<not> truthy (run_cancelRequestedAt r))"
    by (simp add: rr_hasActiveRunForSession_def list_ex_iff active_status_def)
  also have "\<dots> \<longleftrightarrow> (\<exists>rid r. map_of runs rid = Some r \<and> run_sessionId r = Some sid \<and> active_status (run_status r) \<and>
         run_id r \<notin> set excl \<and> \<not> truthy (run_cancelRequestedAt r))"
    unfolding Bex_def jmap_get_values [OF wf] by blast
  also have "\<dots> \<longleftrightarrow> (\<exists>rid r. map_of runs rid = Some r \<and> run_sessionId r = Some sid \<and> active_status (run_status r) \<and>
         rid \<notin> set excl \<and> \<not> truthy (run_cancelRequestedAt r))"
    using k by metis
  also have "\<dots> \<longleftrightarrow> (\<exists>rid. live runs sid rid \<and> rid \<notin> set excl)" unfolding live_def by blast
  finally show ?thesis .
qed

lemma queue_state:
  assumes "keyed run_id (db_runs (st_db st))"
  shows "getSessionQueueState sid excl st =
    (Inr (\<exists>rid. live (db_runs (st_db st)) sid rid \<and> rid \<notin> set excl \<and> rid \<notin> set (pq_order (db_pending (st_db st)) sid),
          pq_order (db_pending (st_db st)) sid), st)"
  by (simp add: getSessionQueueState_def Let_def hasActive_iff [OF assms] pq_order_def)

lemma pq_enqueue_enq: "snd (pq_enqueue sid r t q) = pq_enq sid r t q"
  by (simp add: pq_enq_def)

lemma dequeue_facts:
  assumes "pq_wf q" and "pq_order q sid = r # rs"
  shows "\<exists>e q'. pq_dequeueNext sid q = (Some e, q') \<and> pend_runId e = r \<and> pq_wf q' \<and> pq_order q' = (pq_order q)(sid := rs)"
  using pq.deq_some [OF assms] pq.wf_deq [OF assms(1), of sid]
  by (cases "pq_dequeueNext sid q"; cases "fst (pq_dequeueNext sid q)") (auto simp: pq_deq_def)

text \<open>Dispatching from an idle session takes the head of its queue.\<close>

lemma dispatch_head:
  assumes k: "keyed run_id (db_runs (st_db st))" and wf: "pq_wf (db_pending (st_db st))"
    and m: "mr_wf (db_messages (st_db st))"
    and idle: "flying sid st = {}" and o: "pq_order (db_pending (st_db st)) sid = r # rs"
  shows "\<exists>st' q'. dispatchNextQueuedRun sid st = (Inr (Some r), st') \<and>
     view st' = (db_runs (st_db st), q', db_sessions (st_db st), st_dispatched st @ [(sid, r)], st_cancelRequests st) \<and>
     pq_wf q' \<and> pq_order q' = (pq_order (db_pending (st_db st)))(sid := rs)"
proof -
  let ?db = "st_db st"
  have q: "getSessionQueueState sid [] st = (Inr (False, pq_order (db_pending ?db) sid), st)"
    using idle by (auto simp: queue_state [OF k] flying_def)
  obtain e q' where e: "pq_dequeueNext sid (db_pending ?db) = (Some e, q')" "pend_runId e = r"
    "pq_wf q'" "pq_order q' = (pq_order (db_pending ?db))(sid := rs)"
    using dequeue_facts [OF wf o] by blast
  define st1 where "st1 = st\<lparr>st_db := ?db\<lparr>db_pending := q'\<rparr>, st_tick := st_tick st + 1\<rparr>"
  have "mr_wf (db_messages (st_db st1))" using m by (simp add: st1_def)
  from quiet_retimestamp [OF this, of r sid "st_clock st (st_tick st)"] obtain x2 st2 where
    s2: "retimestampQueuedMessageForDispatch r sid (st_clock st (st_tick st)) st1 = (Inr x2, st2)" "view st2 = view st1"
    by (rule quietE)
  obtain x3 st3 where s3: "appendQueueUpdatedEvent sid r ActDequeued (Some (pend_position e)) st2 = (Inr x3, st3)" "view st3 = view st2"
    using still_appendQueueUpdated by (rule stillE)
  have "dispatchNextQueuedRun sid st = (Inr (Some r), st3\<lparr>st_dispatched := st_dispatched st3 @ [(sid, r)]\<rparr>)"
    using e s2 s3 by (simp add: dispatchNextQueuedRun_def q on_pending_def st1_def)
  moreover have "view (st3\<lparr>st_dispatched := st_dispatched st3 @ [(sid, r)]\<rparr>) =
      (db_runs ?db, q', db_sessions ?db, st_dispatched st @ [(sid, r)], st_cancelRequests st)"
    using s2(2) s3(2) by (simp add: view_def st1_def)
  ultimately show ?thesis using e by blast
qed

lemma dispatch_nothing:
  assumes k: "keyed run_id (db_runs (st_db st))" and wf: "pq_wf (db_pending (st_db st))"
    and "flying sid st \<noteq> {} \<or> pq_order (db_pending (st_db st)) sid = []"
  shows "\<exists>st'. dispatchNextQueuedRun sid st = (Inr None, st') \<and> flying sid st' = flying sid st \<and>
     pq_order (db_pending (st_db st')) = pq_order (db_pending (st_db st)) \<and> st_dispatched st' = st_dispatched st"
proof (cases "flying sid st \<noteq> {}")
  case True
  then have "getSessionQueueState sid [] st = (Inr (True, pq_order (db_pending (st_db st)) sid), st)"
    by (auto simp: queue_state [OF k] flying_def)
  then show ?thesis by (simp add: dispatchNextQueuedRun_def)
next
  case False
  then have q: "getSessionQueueState sid [] st = (Inr (False, pq_order (db_pending (st_db st)) sid), st)"
    by (auto simp: queue_state [OF k] flying_def)
  obtain q' where q': "pq_dequeueNext sid (db_pending (st_db st)) = (None, q')" "pq_order q' = pq_order (db_pending (st_db st))"
    using pq.deq_empty [OF wf, of sid] assms(3) False by (cases "pq_dequeueNext sid (db_pending (st_db st))") (auto simp: pq_deq_def)
  then show ?thesis by (simp add: dispatchNextQueuedRun_def q on_pending_def flying_def)
qed

text \<open>
  When nothing of a session is in flight, dispatching takes exactly the head of its queue, hands
  it to the run queue and leaves the others waiting in order; otherwise it dispatches nothing.
\<close>

theorem dispatch_takes_queue_head:
  assumes "keyed run_id (db_runs (st_db st))" and "pq_wf (db_pending (st_db st))" and "mr_wf (db_messages (st_db st))"
  shows "\<exists>st'. dispatchNextQueuedRun sid st =
      (Inr (if flying sid st = {} then (case pq_order (db_pending (st_db st)) sid of [] \<Rightarrow> None | r # _ \<Rightarrow> Some r) else None), st') \<and>
    st_dispatched st' = st_dispatched st @
      (if flying sid st = {} then (case pq_order (db_pending (st_db st)) sid of [] \<Rightarrow> [] | r # _ \<Rightarrow> [(sid, r)]) else []) \<and>
    pq_order (db_pending (st_db st')) = (pq_order (db_pending (st_db st)))
      (sid := (if flying sid st = {} then tl (pq_order (db_pending (st_db st)) sid) else pq_order (db_pending (st_db st)) sid))"
proof (cases "flying sid st = {} \<and> pq_order (db_pending (st_db st)) sid \<noteq> []")
  case True
  then obtain r rs where o: "pq_order (db_pending (st_db st)) sid = r # rs" by (cases "pq_order (db_pending (st_db st)) sid") auto
  with dispatch_head [OF assms _ o] True show ?thesis by (auto simp: view_def)
next
  case False
  then have "flying sid st \<noteq> {} \<or> pq_order (db_pending (st_db st)) sid = []" by blast
  from dispatch_nothing [OF assms(1,2) this] obtain st' where
    "dispatchNextQueuedRun sid st = (Inr None, st')"
    "pq_order (db_pending (st_db st')) = pq_order (db_pending (st_db st))" "st_dispatched st' = st_dispatched st" by blast
  then show ?thesis using False by (intro exI [of _ st']) (auto simp: fun_upd_idem)
qed

lemma queue_example_wf:
  "keyed run_id (db_runs (st_db queue_example))" "pq_wf (db_pending (st_db queue_example))"
  "mr_wf (db_messages (st_db queue_example))"
proof -
  have "keyed run_id (db_runs store_example)" using db_wf_store_example by (simp add: db_wf_def)
  moreover have "db_runs (st_db queue_example) = map (\<lambda>(k, r). (k, r\<lparr>run_triggerRef := Some ''m1''\<rparr>)) (db_runs store_example)"
    by (simp add: queue_example_def)
  ultimately show "keyed run_id (db_runs (st_db queue_example))"
    by (auto simp: keyed_def jmap_wf_def map_of_map o_def case_prod_unfold)
  show "pq_wf (db_pending (st_db queue_example))"
    by (simp add: queue_example_def pq.wf_enq pq_wf_empty)
  have "mr_items (db_messages (st_db queue_example)) =
      map (\<lambda>m. (msg_id m, m)) [message_example ''m2'' ''t2'', message_example ''m1'' ''t1'', message_example ''m3'' ''t2'']"
    "mr_sessionMessageIds (db_messages (st_db queue_example)) = [(''a'', [''m2'', ''m1'', ''m3''])]" by code_simp+
  then show "mr_wf (db_messages (st_db queue_example))"
    by (auto simp: mr_wf_def jmap_wf_def message_example_def or_else_def split: if_splits)
qed

lemma queue_example_flying: "flying ''a'' queue_example = {}"
proof -
  have o: "pq_order (db_pending (st_db queue_example)) ''a'' = [''r1'', ''gone'']" by code_simp
  have runs: "map fst (db_runs (st_db queue_example)) = [''r2'', ''r1'']"
    "map_option run_sessionId (map_of (db_runs (st_db queue_example)) ''r2'') = Some (Some ''b'')" by code_simp+
  have "rid = ''r1''" if "map_of (db_runs (st_db queue_example)) rid = Some r" "run_sessionId r = Some ''a''" for rid r
  proof -
    have "rid \<in> set (map fst (db_runs (st_db queue_example)))" using map_of_SomeD [OF that(1)] by force
    then have "rid = ''r2'' \<or> rid = ''r1''" by (simp add: runs)
    moreover have "rid \<noteq> ''r2''" using that runs(2) by auto
    ultimately show ?thesis by blast
  qed
  then show ?thesis by (auto simp: flying_def live_def o)
qed

theorem dispatch_takes_queue_head_witness:
  "\<exists>st'. dispatchNextQueuedRun ''a'' queue_example = (Inr (Some ''r1''), st') \<and> st_dispatched st' = [(''a'', ''r1'')]"
proof -
  have "pq_order (db_pending (st_db queue_example)) ''a'' = [''r1'', ''gone'']" "st_dispatched queue_example = []"
    by code_simp+
  then show ?thesis
    using dispatch_takes_queue_head [OF queue_example_wf, of "''a''"] by (auto simp: queue_example_flying)
qed

subsection \<open>One run of a session at a time\<close>

lemma mr_wf_create:
  assumes wf: "mr_wf r" and fresh: "map_of (mr_items r) (msg_id m) = None"
  shows "mr_wf (snd (mr_create m r))"
proof -
  let ?r = "snd (mr_create m r)"
  have items: "map_of (mr_items ?r) i = (if i = msg_id m then Some m else map_of (mr_items r) i)" for i
    by (simp add: mr_create_def Let_def jmap_get_set)
  have ids: "or_else (map_of (mr_sessionMessageIds ?r) k) [] =
      (if k = msg_sessionId m then or_else (map_of (mr_sessionMessageIds r) k) [] @ [msg_id m]
       else or_else (map_of (mr_sessionMessageIds r) k) [])" for k
    by (simp add: mr_create_def Let_def jmap_get_set)
  have old: "i \<noteq> msg_id m" if "i \<in> set (or_else (map_of (mr_sessionMessageIds r) k) [])" for i k
    using wf fresh that unfolding mr_wf_def by fastforce
  have "jmap_wf (mr_items ?r)" using wf by (simp add: mr_create_def Let_def mr_wf_def)
  moreover have "msg_id x = i \<and> i \<in> set (or_else (map_of (mr_sessionMessageIds ?r) (msg_sessionId x)) [])"
    if "map_of (mr_items ?r) i = Some x" for i x
  proof (cases "i = msg_id m")
    case True
    then have "x = m" using that by (simp add: items)
    then show ?thesis using True by (simp add: ids)
  next
    case False
    then have "map_of (mr_items r) i = Some x" using that by (simp add: items)
    then have "msg_id x = i \<and> i \<in> set (or_else (map_of (mr_sessionMessageIds r) (msg_sessionId x)) [])"
      using wf unfolding mr_wf_def by blast
    then show ?thesis by (cases "msg_sessionId x = msg_sessionId m") (simp_all add: ids)
  qed
  moreover have "\<exists>x. map_of (mr_items ?r) i = Some x \<and> msg_sessionId x = k"
    if "i \<in> set (or_else (map_of (mr_sessionMessageIds ?r) k) [])" for k i
  proof (cases "i = msg_id m")
    case True
    then have "k = msg_sessionId m" using that old [of i k] by (auto simp: ids split: if_splits)
    with True show ?thesis by (simp add: items)
  next
    case False
    then have "i \<in> set (or_else (map_of (mr_sessionMessageIds r) k) [])" using that by (auto simp: ids split: if_splits)
    with wf False show ?thesis unfolding mr_wf_def items by auto
  qed
  ultimately show ?thesis unfolding mr_wf_def by blast
qed

lemma live_create:
  assumes "map_of runs (run_id r) = None" and "run_sessionId r = Some sid" and "run_status r = Queued" and "run_cancelRequestedAt r = None"
  shows "live (AList.update (run_id r) r runs) sid = (\<lambda>k. k = run_id r \<or> live runs sid k)"
  using assms by (auto simp: live_def jmap_get_set fun_eq_iff active_status_def)

lemma interrupt_requests:
  assumes "keyed run_id (db_runs (st_db st))"
  shows "\<exists>reqs. interruptActiveSessionRuns sid queued st = (Inr (), st\<lparr>st_cancelRequests := st_cancelRequests st @ reqs\<rparr>) \<and>
     set reqs = {rid. live (db_runs (st_db st)) sid rid \<and> rid \<notin> set queued}"
proof -
  have wf: "jmap_wf (db_runs (st_db st))" and k: "\<And>k v. map_of (db_runs (st_db st)) k = Some v \<Longrightarrow> run_id v = k"
    using assms by (auto simp: keyed_def)
  have f: "for_each (\<lambda>r. requestRunCancellation (run_id r)) rs st =
      (Inr (), st\<lparr>st_cancelRequests := st_cancelRequests st @ map run_id rs\<rparr>)" for rs :: "run list"
    by (induction rs arbitrary: st) simp_all
  let ?rs = "filter (\<lambda>r. (run_status r = Queued \<or> run_status r = Running \<or> run_status r = WaitingTool) \<and>
             run_id r \<notin> set queued \<and> \<not> truthy (run_cancelRequestedAt r)) (rr_listBySessionId sid (db_runs (st_db st)))"
  have "x \<in> set (map run_id ?rs) \<longleftrightarrow> live (db_runs (st_db st)) sid x \<and> x \<notin> set queued" for x
  proof
    assume "x \<in> set (map run_id ?rs)"
    then obtain r where r: "run_id r = x" "r \<in> set (jmap_values (db_runs (st_db st)))" "run_sessionId r = Some sid"
      "active_status (run_status r)" "x \<notin> set queued" "\<not> truthy (run_cancelRequestedAt r)"
      by (auto simp: rr_listBySessionId_def active_status_def)
    then obtain j where "map_of (db_runs (st_db st)) j = Some r" by (auto simp: jmap_get_values [OF wf])
    with r k show "live (db_runs (st_db st)) sid x \<and> x \<notin> set queued" unfolding live_def by blast
  next
    assume "live (db_runs (st_db st)) sid x \<and> x \<notin> set queued"
    then obtain r where r: "map_of (db_runs (st_db st)) x = Some r" "run_sessionId r = Some sid"
      "active_status (run_status r)" "\<not> truthy (run_cancelRequestedAt r)" "x \<notin> set queued" unfolding live_def by blast
    then have "r \<in> set (jmap_values (db_runs (st_db st)))" "run_id r = x" using k by (auto simp: jmap_get_values [OF wf])
    with r show "x \<in> set (map run_id ?rs)" by (auto simp: rr_listBySessionId_def active_status_def image_iff)
  qed
  then have "set (map run_id ?rs) = {rid. live (db_runs (st_db st)) sid rid \<and> rid \<notin> set queued}" by blast
  moreover have "interruptActiveSessionRuns sid queued st =
      (Inr (), st\<lparr>st_cancelRequests := st_cancelRequests st @ map run_id ?rs\<rparr>)"
    by (simp add: interruptActiveSessionRuns_def Let_def f)
  ultimately show ?thesis by blast
qed

definition new_run_id :: "engine_state \<Rightarrow> string" where
  "new_run_id st = ''run_'' @ st_ids st (st_tick st + 2)"

definition new_message_id :: "engine_state \<Rightarrow> string" where
  "new_message_id st = ''msg_'' @ st_ids st (st_tick st + 1)"

text \<open>What has happened to the runs, the queue and the requests of session \<open>sid\<close>.\<close>

definition outcome :: "string \<Rightarrow> engine_state \<Rightarrow> engine_state \<Rightarrow> string set \<Rightarrow> string list \<Rightarrow> (string \<times> string) list \<Rightarrow> string set \<Rightarrow> bool" where
  "outcome sid st st' fly queue dispatched cancelled \<longleftrightarrow>
     flying sid st' = fly \<and> pq_order (db_pending (st_db st')) sid = queue \<and>
     st_dispatched st' = st_dispatched st @ dispatched \<and>
     (\<exists>reqs. st_cancelRequests st' = st_cancelRequests st @ reqs \<and> set reqs = cancelled)"

lemma outcome_view:
  assumes "view st2 = view st1" and "outcome sid st st1 f q d c" shows "outcome sid st st2 f q d c"
proof -
  have "db_runs (st_db st2) = db_runs (st_db st1)" "db_pending (st_db st2) = db_pending (st_db st1)"
    "st_dispatched st2 = st_dispatched st1" "st_cancelRequests st2 = st_cancelRequests st1"
    using assms(1) by (simp_all add: view_def)
  moreover from this have "flying sid st2 = flying sid st1" by (simp add: flying_def)
  ultimately show ?thesis using assms(2) by (simp add: outcome_def)
qed

text \<open>The state right after the run, its message and the first event are stored.\<close>

lemma created_state:
  assumes k: "keyed run_id (db_runs (st_db st))" and m: "mr_wf (db_messages (st_db st))"
    and s: "ssr_getById sid (db_sessions (st_db st)) = Some s" "session_id s = sid"
    and fresh: "map_of (db_runs (st_db st)) (new_run_id st) = None"
      "map_of (mr_items (db_messages (st_db st))) (new_message_id st) = None"
  shows "\<exists>sm st4. storeMessageRun sid subj inp st = (Inr sm, st4) \<and> sm_sessionId sm = sid \<and> run_id (sm_run sm) = new_run_id st \<and>
     keyed run_id (db_runs (st_db st4)) \<and> mr_wf (db_messages (st_db st4)) \<and>
     live (db_runs (st_db st4)) sid = (\<lambda>x. x = new_run_id st \<or> live (db_runs (st_db st)) sid x) \<and>
     db_pending (st_db st4) = db_pending (st_db st) \<and> st_dispatched st4 = st_dispatched st \<and>
     st_cancelRequests st4 = st_cancelRequests st"
proof -
  define now where "now = st_clock st (st_tick st)"
  define runId where "runId = new_run_id st"
  define messageId where "messageId = new_message_id st"
  define run where "run = new_run runId s subj messageId now inp"
  define msg where "msg = new_message messageId sid runId now inp"
  define st3 where "st3 = st\<lparr>st_tick := st_tick st + 3, st_db := (st_db st)\<lparr>db_runs := AList.update (run_id run) run (db_runs (st_db st)),
     db_messages := snd (mr_create msg (db_messages (st_db st)))\<rparr>\<rparr>"
  have ids: "run_id run = runId" "msg_id msg = messageId" by (simp_all add: run_def msg_def new_run_def new_message_def)
  define ev where "ev = \<lparr>evi_sessionId = sid, evi_runId = Some runId, evi_event = EvRunQueued,
          evi_data = JObj [(''runId'', JStr runId), (''sessionId'', JStr sid), (''status'', JStr ''queued'')]\<rparr>"
  obtain x st4 where st4: "appendEvent ev st3 = (Inr x, st4)"
     "view st4 = view st3" "db_messages (st_db st4) = db_messages (st_db st3)"
    using still_appendEvent by (rule stillE)
  have g: "getSession sid st = (Inr s, st)" using s by (simp add: getSession_def)
  have runs: "db_runs (st_db st4) = AList.update runId run (db_runs (st_db st))"
    using st4(2) by (simp add: view_def st3_def ids)
  have c: "st\<lparr>st_tick := st_tick st + 3, st_db := (st_db st)\<lparr>db_runs := snd (rr_create run (db_runs (st_db st))),
     db_messages := snd (mr_create msg (db_messages (st_db st)))\<rparr>\<rparr> = st3"
    by (simp add: st3_def rr_create_def)
  have r: "''run'' @ ''_'' @ st_ids st (Suc (Suc (st_tick st))) = runId" "''msg'' @ ''_'' @ st_ids st (Suc (st_tick st)) = messageId"
    by (simp_all add: runId_def messageId_def new_run_id_def new_message_id_def)
  have store: "storeMessageRun sid subj inp st =
      (Inr \<lparr>sm_sessionId = sid, sm_messageId = messageId, sm_run = run, sm_now = now\<rparr>, st4)"
    using st4(1) c r
    by (simp add: storeMessageRun_def g on_runs_def on_messages_def total_def Let_def s(2) split_def
        run_def [symmetric] msg_def [symmetric] now_def [symmetric] ev_def [symmetric] eval_nat_numeral del: append_Cons)
  have "keyed run_id (db_runs (st_db st4))" unfolding runs using keyed_update [OF k, of run] by (simp add: ids)
  moreover have "mr_wf (db_messages (st_db st4))"
    using mr_wf_create [OF m, of msg] fresh(2) st4(3) by (simp add: ids st3_def messageId_def)
  moreover have "live (db_runs (st_db st4)) sid = (\<lambda>x. x = runId \<or> live (db_runs (st_db st)) sid x)"
    unfolding runs using live_create [of "db_runs (st_db st)" run sid] fresh(1) s(2)
    by (simp add: ids runId_def) (simp add: run_def new_run_def)
  moreover have "db_pending (st_db st4) = db_pending (st_db st)" "st_dispatched st4 = st_dispatched st"
     "st_cancelRequests st4 = st_cancelRequests st" using st4(2) by (simp_all add: view_def st3_def)
  ultimately show ?thesis
    using store by (intro exI [of _ "\<lparr>sm_sessionId = sid, sm_messageId = messageId, sm_run = run, sm_now = now\<rparr>"] exI [of _ st4])
      (simp add: ids runId_def)
qed

text \<open>Queueing the new run behind the others, or in front of them, takes it out of flight.\<close>

lemma enqueue_new:
  assumes wf: "pq_wf (db_pending (st_db st))" and fresh: "\<And>s. rid \<notin> set (pq_order (db_pending (st_db st)) s)"
  shows "\<exists>e st'. enqueuePending sid rid t st = (Inr e, st') \<and> pq_wf (db_pending (st_db st')) \<and>
     pq_order (db_pending (st_db st')) = (pq_order (db_pending (st_db st)))(sid := pq_order (db_pending (st_db st)) sid @ [rid]) \<and>
     st' = st\<lparr>st_db := (st_db st)\<lparr>db_pending := db_pending (st_db st')\<rparr>\<rparr>"
  using pq.wf_enq [OF wf, of sid rid t] pq.order_enq [OF wf, of rid sid t] fresh
  by (cases "pq_enqueue sid rid t (db_pending (st_db st))") (auto simp: enqueuePending_def on_pending_def pq_enq_def)

lemma promote_last:
  assumes wf: "pq_wf (db_pending (st_db st))" and o: "pq_order (db_pending (st_db st)) sid = rs @ [rid]"
  shows "\<exists>p st'. promotePending rid e st = (Inr p, st') \<and> pq_wf (db_pending (st_db st')) \<and>
     pq_order (db_pending (st_db st')) = (pq_order (db_pending (st_db st)))(sid := rid # rs) \<and>
     st' = st\<lparr>st_db := (st_db st)\<lparr>db_pending := db_pending (st_db st')\<rparr>\<rparr>"
proof -
  have mem: "rid \<in> set (pq_order (db_pending (st_db st)) sid)" by (simp add: o)
  have "rid \<notin> set rs" using pq.order_distinct [OF wf, of sid] by (simp add: o)
  then have "remove1 rid (rs @ [rid]) = rs" by (simp add: remove1_append)
  then show ?thesis
    using pq.wf_prom [OF wf, of rid] pq.order_prom [OF wf mem]
    by (simp add: promotePending_def on_pending_def Let_def o)
qed

text \<open>
  C11: A user message to a session never puts a second run in flight. If the session is idle (nothing
  in flight and nothing waiting) its run is handed to the run queue; otherwise the run waits at the
  end of the session's queue. An interrupting message to a busy session puts its run in front of the
  queue and requests the cancellation of exactly the runs in flight; with waiting runs but none in
  flight its run is dispatched before them.
\<close>

theorem message_delivery_is_single_flight:
  assumes k: "keyed run_id (db_runs (st_db st))" and wf: "pq_wf (db_pending (st_db st))" and m: "mr_wf (db_messages (st_db st))"
    and s: "ssr_getById sid (db_sessions (st_db st)) = Some s" "session_id s = sid"
    and fresh: "map_of (db_runs (st_db st)) (new_run_id st) = None"
      "map_of (mr_items (db_messages (st_db st))) (new_message_id st) = None"
      "\<And>s. new_run_id st \<notin> set (pq_order (db_pending (st_db st)) s)"
  shows "\<exists>acc st'. createSessionMessage sid subj inp st = (Inr acc, st') \<and> acc_runId acc = new_run_id st \<and>
     (let F = flying sid st; Q = pq_order (db_pending (st_db st)) sid; r = new_run_id st in
      if F = {} \<and> Q = [] then acc_delivery acc = ActiveRunDelivery \<and> outcome sid st st' {r} [] [(sid, r)] {}
      else acc_delivery acc = SessionQueueDelivery \<and>
        (if or_else (mi_runningRunBehavior inp) BehaviorQueue = BehaviorQueue then outcome sid st st' F (Q @ [r]) [] {}
         else if F \<noteq> {} then outcome sid st st' F (r # Q) [] F
         else outcome sid st st' {r} Q [(sid, r)] {}))"
proof -
  define F where "F = flying sid st"
  define Q where "Q = pq_order (db_pending (st_db st)) sid"
  define r where "r = new_run_id st"
  obtain sm st4 where c: "storeMessageRun sid subj inp st = (Inr sm, st4)" "sm_sessionId sm = sid" "run_id (sm_run sm) = r"
      "keyed run_id (db_runs (st_db st4))" "mr_wf (db_messages (st_db st4))"
      "live (db_runs (st_db st4)) sid = (\<lambda>x. x = r \<or> live (db_runs (st_db st)) sid x)"
      "db_pending (st_db st4) = db_pending (st_db st)" "st_dispatched st4 = st_dispatched st"
      "st_cancelRequests st4 = st_cancelRequests st"
    using created_state [OF k m s fresh(1,2)] unfolding r_def by blast
  have rQ: "r \<notin> set Q" using fresh(3) by (simp add: r_def Q_def)
  have rL: "\<not> live (db_runs (st_db st)) sid r" using fresh(1) by (simp add: live_def r_def)
  then have rF: "r \<notin> F" by (simp add: F_def flying_def)
  have fly4: "{x. (x = r \<or> live (db_runs (st_db st)) sid x) \<and> x \<notin> set (Q' :: string list)} =
      (if r \<in> set Q' then {} else {r}) \<union> {x. live (db_runs (st_db st)) sid x \<and> x \<notin> set Q'}" for Q' by auto
  have qs: "getSessionQueueState sid [r] st4 = (Inr (F \<noteq> {}, Q), st4)"
    using rL by (auto simp: queue_state [OF c(4)] c(6,7) F_def Q_def flying_def)
  have qwf: "pq_wf (db_pending (st_db st4))" using wf c(7) by simp
  have free: "\<And>s. r \<notin> set (pq_order (db_pending (st_db st4)) s)" using fresh(3) c(7) by (simp add: r_def)
  obtain e st5 where e: "enqueuePending sid r (sm_now sm) st4 = (Inr e, st5)" "pq_wf (db_pending (st_db st5))"
      "pq_order (db_pending (st_db st5)) = (pq_order (db_pending (st_db st)))(sid := Q @ [r])"
      "st5 = st4\<lparr>st_db := (st_db st4)\<lparr>db_pending := db_pending (st_db st5)\<rparr>\<rparr>"
    using enqueue_new [OF qwf free, of sid "sm_now sm"] c(7) unfolding Q_def by auto
  have same5: "db_runs (st_db st5) = db_runs (st_db st4)" "db_messages (st_db st5) = db_messages (st_db st4)"
    "st_dispatched st5 = st_dispatched st" "st_cancelRequests st5 = st_cancelRequests st"
    by (subst e(4); simp add: c)+
  have F: "{x. live (db_runs (st_db st)) sid x \<and> x \<notin> set Q} = F" by (simp add: F_def Q_def flying_def)
  have Fr: "{x. live (db_runs (st_db st)) sid x \<and> x \<notin> set Q \<and> x \<noteq> r} = F" using rF by (auto simp: F_def Q_def flying_def)
  have idle: "\<exists>st'. deliverMessage b sm st4 = (Inr (accepted sm ActiveRunDelivery None), st') \<and>
      outcome sid st st' {r} [] [(sid, r)] {}" if "F = {}" "Q = []" for b
  proof -
    have "flying sid (st4\<lparr>st_dispatched := st_dispatched st4 @ [(sid, r)]\<rparr>) = {r}"
      using that F by (simp add: flying_def c(6,7) Q_def [symmetric] fly4)
    then have "outcome sid st (st4\<lparr>st_dispatched := st_dispatched st4 @ [(sid, r)]\<rparr>) {r} [] [(sid, r)] {}"
      using that by (simp add: outcome_def c(7-9) Q_def [symmetric])
    then show ?thesis using that by (simp add: deliverMessage_def c(2,3) qs Let_def)
  qed
  have queued: "\<exists>p st'. deliverMessage BehaviorQueue sm st4 = (Inr (accepted sm SessionQueueDelivery (Some p)), st') \<and>
      outcome sid st st' F (Q @ [r]) [] {}" if "F \<noteq> {} \<or> Q \<noteq> []"
  proof -
    obtain x6 st6 where s6: "appendQueueUpdatedEvent sid r ActEnqueued (Some (pend_position e)) st5 = (Inr x6, st6)" "view st6 = view st5"
      using still_appendQueueUpdated by (rule stillE)
    have "flying sid st5 = F" using rL by (auto simp: flying_def same5 c(6) e(3) F_def Q_def)
    then have "outcome sid st st5 F (Q @ [r]) [] {}" by (simp add: outcome_def e(3) same5)
    from outcome_view [OF s6(2) this] show ?thesis
      using that s6(1) e(1) by (auto simp: deliverMessage_def deliverQueued_def c(2,3) qs Let_def)
  qed
  obtain p st6 where p: "promotePending r e st5 = (Inr p, st6)" "pq_wf (db_pending (st_db st6))"
      "pq_order (db_pending (st_db st6)) = (pq_order (db_pending (st_db st)))(sid := r # Q)"
      "st6 = st5\<lparr>st_db := (st_db st5)\<lparr>db_pending := db_pending (st_db st6)\<rparr>\<rparr>"
    using promote_last [OF e(2), of sid Q r e] by (auto simp: e(3))
  have same6: "db_runs (st_db st6) = db_runs (st_db st4)" "db_messages (st_db st6) = db_messages (st_db st4)"
    "st_dispatched st6 = st_dispatched st" "st_cancelRequests st6 = st_cancelRequests st"
    by (subst p(4); simp add: same5)+
  obtain x7 st7 where s7: "appendQueueUpdatedEvent sid r ActPromoted (Some p) st6 = (Inr x7, st7)" "view st7 = view st6"
      "db_messages (st_db st7) = db_messages (st_db st6)"
    using still_appendQueueUpdated by (rule stillE)
  have same7: "db_runs (st_db st7) = db_runs (st_db st4)" "db_pending (st_db st7) = db_pending (st_db st6)"
    "st_dispatched st7 = st_dispatched st" "st_cancelRequests st7 = st_cancelRequests st"
    using s7(2) by (simp_all add: view_def same6)
  have fly7: "flying sid st7 = F"
    using rL by (auto simp: flying_def same7 c(6) p(3) F_def Q_def)
  have interrupting: "deliverInterrupting sm (F \<noteq> {}) Q st4 =
      act_bind (if F \<noteq> {} then interruptActiveSessionRuns sid (Q @ [r])
                else act_bind (dispatchNextQueuedRun sid) (\<lambda>_. act_return ())) (\<lambda>_.
        act_return (accepted sm SessionQueueDelivery (Some p))) st7"
    using e(1) p(1) s7(1) by (simp add: deliverInterrupting_def c(2,3) Let_def)
  have front: "\<exists>st'. deliverMessage BehaviorInterrupt sm st4 = (Inr (accepted sm SessionQueueDelivery (Some p)), st') \<and>
      (if F \<noteq> {} then outcome sid st st' F (r # Q) [] F else outcome sid st st' {r} Q [(sid, r)] {})" if "F \<noteq> {} \<or> Q \<noteq> []"
  proof (cases "F = {}")
    case False
    have k7: "keyed run_id (db_runs (st_db st7))" using c(4) same7 by simp
    obtain reqs where i: "interruptActiveSessionRuns sid (Q @ [r]) st7 =
        (Inr (), st7\<lparr>st_cancelRequests := st_cancelRequests st7 @ reqs\<rparr>)"
       "set reqs = {x. live (db_runs (st_db st7)) sid x \<and> x \<notin> set (Q @ [r])}"
      using interrupt_requests [OF k7] by blast
    have "set reqs = F" using i(2) Fr rL by (auto simp: same7 c(6))
    moreover have "flying sid (st7\<lparr>st_cancelRequests := st_cancelRequests st7 @ reqs\<rparr>) = F"
      using fly7 by (simp add: flying_def)
    ultimately have "outcome sid st (st7\<lparr>st_cancelRequests := st_cancelRequests st7 @ reqs\<rparr>) F (r # Q) [] F"
      by (simp add: outcome_def same7 p(3))
    then show ?thesis using False i(1) interrupting
      by (simp add: deliverMessage_def c(2,3) qs Let_def)
  next
    case True
    have k7: "keyed run_id (db_runs (st_db st7))" and w7: "pq_wf (db_pending (st_db st7))" and m7: "mr_wf (db_messages (st_db st7))"
      using c(4,5) same7 same6 p(2) s7(3) by simp_all
    have o7: "pq_order (db_pending (st_db st7)) sid = r # Q" by (simp add: same7 p(3))
    obtain st8 q' where d: "dispatchNextQueuedRun sid st7 = (Inr (Some r), st8)"
       "view st8 = (db_runs (st_db st7), q', db_sessions (st_db st7), st_dispatched st7 @ [(sid, r)], st_cancelRequests st7)"
       "pq_order q' = (pq_order (db_pending (st_db st7)))(sid := Q)"
      using dispatch_head [OF k7 w7 m7 _ o7] fly7 True by blast
    have same8: "db_runs (st_db st8) = db_runs (st_db st4)" "db_pending (st_db st8) = q'"
      "st_dispatched st8 = st_dispatched st @ [(sid, r)]" "st_cancelRequests st8 = st_cancelRequests st"
      using d(2) by (simp_all add: view_def same7)
    have "flying sid st8 = {r}" using True F rQ by (auto simp: flying_def same8 c(6) d(3) fly4)
    then have "outcome sid st st8 {r} Q [(sid, r)] {}" by (simp add: outcome_def same8 d(3))
    then show ?thesis using True that d(1) interrupting by (simp add: deliverMessage_def c(2,3) qs Let_def)
  qed
  have create: "createSessionMessage sid subj inp st = deliverMessage (or_else (mi_runningRunBehavior inp) BehaviorQueue) sm st4"
    by (simp add: createSessionMessage_def c(1))
  have acc: "acc_runId (accepted sm d q) = r" "acc_delivery (accepted sm d q) = d" for d q
    by (simp_all add: accepted_def c(3))
  show ?thesis
    unfolding F_def [symmetric] Q_def [symmetric] r_def [symmetric] Let_def create
  proof (cases "F = {} \<and> Q = []")
    case True
    with idle acc show "\<exists>a st'. deliverMessage (or_else (mi_runningRunBehavior inp) BehaviorQueue) sm st4 = (Inr a, st') \<and> acc_runId a = r \<and>
     (if F = {} \<and> Q = [] then acc_delivery a = ActiveRunDelivery \<and> outcome sid st st' {r} [] [(sid, r)] {}
      else acc_delivery a = SessionQueueDelivery \<and>
        (if or_else (mi_runningRunBehavior inp) BehaviorQueue = BehaviorQueue then outcome sid st st' F (Q @ [r]) [] {}
         else if F \<noteq> {} then outcome sid st st' F (r # Q) [] F else outcome sid st st' {r} Q [(sid, r)] {}))" by metis
  next
    case False
    then have busy: "F \<noteq> {} \<or> Q \<noteq> []" by blast
    show "\<exists>a st'. deliverMessage (or_else (mi_runningRunBehavior inp) BehaviorQueue) sm st4 = (Inr a, st') \<and> acc_runId a = r \<and>
     (if F = {} \<and> Q = [] then acc_delivery a = ActiveRunDelivery \<and> outcome sid st st' {r} [] [(sid, r)] {}
      else acc_delivery a = SessionQueueDelivery \<and>
        (if or_else (mi_runningRunBehavior inp) BehaviorQueue = BehaviorQueue then outcome sid st st' F (Q @ [r]) [] {}
         else if F \<noteq> {} then outcome sid st st' F (r # Q) [] F else outcome sid st st' {r} Q [(sid, r)] {}))"
      using False queued [OF busy] front [OF busy] acc
      by (cases "or_else (mi_runningRunBehavior inp) BehaviorQueue") (simp_all only: if_False simp_thms running_run_behavior.distinct, metis+)
  qed
qed

theorem message_delivery_is_single_flight_witness:
  "\<exists>acc st'. createSessionMessage ''a'' ''u'' \<lparr>mi_content = ContentText ''hi'', mi_metadata = None, mi_workspaceMemory = None,
       mi_runningRunBehavior = None\<rparr> queue_example = (Inr acc, st') \<and> acc_delivery acc = SessionQueueDelivery \<and>
     pq_order (db_pending (st_db st')) ''a'' = [''r1'', ''gone'', ''run_2'']"
proof -
  let ?inp = "\<lparr>mi_content = ContentText ''hi'', mi_metadata = None, mi_workspaceMemory = None, mi_runningRunBehavior = None\<rparr>"
  let ?s = "the (ssr_getById ''a'' (db_sessions (st_db queue_example)))"
  have s: "ssr_getById ''a'' (db_sessions (st_db queue_example)) = Some ?s" "session_id ?s = ''a''" by code_simp+
  have o: "pq_order (db_pending (st_db queue_example)) ''a'' = [''r1'', ''gone'']" by code_simp
  have ids: "new_run_id queue_example = ''run_2''" "new_message_id queue_example = ''msg_1''" by code_simp+
  have f: "map_of (db_runs (st_db queue_example)) (new_run_id queue_example) = None"
    "map_of (mr_items (db_messages (st_db queue_example))) (new_message_id queue_example) = None" by code_simp+
  have "map fst (db_pending (st_db queue_example)) = [''a'']" by code_simp
  then have "pq_order (db_pending (st_db queue_example)) s = []" if "s \<noteq> ''a''" for s
    using that by (cases "map_of (db_pending (st_db queue_example)) s")
      (auto simp: pq_order_def pq_listBySessionId_def dest!: map_of_SomeD)
  then have g: "new_run_id queue_example \<notin> set (pq_order (db_pending (st_db queue_example)) s)" for s
    by (cases "s = ''a''") (simp_all add: o ids)
  from message_delivery_is_single_flight [OF queue_example_wf s f g, of "''u''" ?inp]
  obtain acc st' where "createSessionMessage ''a'' ''u'' ?inp queue_example = (Inr acc, st')"
      "acc_delivery acc = SessionQueueDelivery" "outcome ''a'' queue_example st' (flying ''a'' queue_example) ([''r1'', ''gone''] @ [''run_2'']) [] {}"
    by (auto simp: Let_def o ids queue_example_flying)
  then show ?thesis by (auto simp: outcome_def)
qed

end
