(* ===== verification/Redis_Server.thy ===== *)
theory Redis_Server
  imports Js_Prelude "HOL-Library.State_Monad"
begin

text \<open>
  The Redis server the coordination code of \<open>packages/storage-redis/src\<close> talks to. The server
  is not part of the repository: it is a parameter \<open>exec\<close>, a function that answers a command
  and changes the server's own state, of any type. What the code relies on is the documented
  behaviour of the commands it sends, written once in \<open>redis_law\<close> over what a client can
  observe of the server (its clock and its live keys); the locale \<open>redis_server\<close> says that
  \<open>exec\<close> answers accordingly, and its predicate is the hypothesis of the theorems about the
  scripts. A command on a key of another type answers an error and changes nothing, a list or a
  set that becomes empty is removed, and a key whose time to live has passed is absent.
\<close>

subsection \<open>Commands, replies and what a client observes\<close>

datatype redis_cmd =
    Get string
  | MGet "string list"
  | SetKey string string
  | SetNX string string
  | SetNXPX string string nat
  | SetPX string string nat
  | Del "string list"
  | Exists string
  | PExpire string nat
  | LPush string string
  | RPush string string
  | LPop string
  | LLen string
  | LRange string nat nat
  | LIndex string nat
  | SAdd string string
  | SRem string string
  | SRemAll string "string list"
  | SMembers string
  | HSet string "(string \<times> string) list"
  | HDel string string
  | HGetAll string

datatype redis_reply =
    RNil
  | ROk
  | RInt nat
  | RBulk string
  | RMulti "redis_reply list"
  | RErr

datatype redis_value = VString string | VList "string list" | VSet "string list" | VHash "(string, string) jmap"

record redis_view =
  rv_now :: nat
  rv_keys :: "string \<Rightarrow> (redis_value \<times> nat option) option"

definition rv_live :: "redis_view \<Rightarrow> string \<Rightarrow> redis_value option" where
  "rv_live v k =
     (case rv_keys v k of
        None \<Rightarrow> None
      | Some (x, None) \<Rightarrow> Some x
      | Some (x, Some deadline) \<Rightarrow> if rv_now v < deadline then Some x else None)"

definition rv_put :: "string \<Rightarrow> redis_value \<Rightarrow> nat option \<Rightarrow> redis_view \<Rightarrow> redis_view" where
  "rv_put k x deadline v = v\<lparr>rv_keys := (rv_keys v)(k := Some (x, deadline))\<rparr>"

definition rv_remove :: "string list \<Rightarrow> redis_view \<Rightarrow> redis_view" where
  "rv_remove ks v = v\<lparr>rv_keys := (\<lambda>k. if k \<in> set ks then None else rv_keys v k)\<rparr>"

definition rv_deadline :: "string \<Rightarrow> redis_view \<Rightarrow> nat option" where
  "rv_deadline k v = (case rv_keys v k of None \<Rightarrow> None | Some (x, d) \<Rightarrow> d)"

text \<open>Storing a collection keeps the key's time to live and drops the key when it is empty.\<close>

definition rv_put_list :: "string \<Rightarrow> string list \<Rightarrow> redis_view \<Rightarrow> redis_view" where
  "rv_put_list k xs v =
     (if xs = [] then rv_remove [k] v
      else rv_put k (VList xs) (if rv_live v k = None then None else rv_deadline k v) v)"

definition rv_put_set :: "string \<Rightarrow> string list \<Rightarrow> redis_view \<Rightarrow> redis_view" where
  "rv_put_set k xs v =
     (if xs = [] then rv_remove [k] v
      else rv_put k (VSet xs) (if rv_live v k = None then None else rv_deadline k v) v)"

definition as_list :: "redis_value option \<Rightarrow> string list option" where
  "as_list x = (case x of None \<Rightarrow> Some [] | Some (VList xs) \<Rightarrow> Some xs | _ \<Rightarrow> None)"

definition as_set :: "redis_value option \<Rightarrow> string list option" where
  "as_set x = (case x of None \<Rightarrow> Some [] | Some (VSet xs) \<Rightarrow> Some xs | _ \<Rightarrow> None)"

definition as_hash :: "redis_value option \<Rightarrow> (string, string) jmap option" where
  "as_hash x = (case x of None \<Rightarrow> Some [] | Some (VHash h) \<Rightarrow> Some h | _ \<Rightarrow> None)"

definition rv_put_hash :: "string \<Rightarrow> (string, string) jmap \<Rightarrow> redis_view \<Rightarrow> redis_view" where
  "rv_put_hash k h v =
     (if h = [] then rv_remove [k] v
      else rv_put k (VHash h) (if rv_live v k = None then None else rv_deadline k v) v)"

definition set_fields :: "(string \<times> string) list \<Rightarrow> (string, string) jmap \<Rightarrow> (string, string) jmap" where
  "set_fields kvs h = foldl (\<lambda>h (f, x). AList.update f x h) h kvs"

definition flat_fields :: "(string, string) jmap \<Rightarrow> redis_reply list" where
  "flat_fields h = concat (map (\<lambda>(f, x). [RBulk f, RBulk x]) h)"

definition get_reply :: "redis_value option \<Rightarrow> redis_reply" where
  "get_reply x = (case x of None \<Rightarrow> RNil | Some (VString w) \<Rightarrow> RBulk w | _ \<Rightarrow> RErr)"

definition mget_reply :: "redis_value option \<Rightarrow> redis_reply" where
  "mget_reply x = (case x of Some (VString w) \<Rightarrow> RBulk w | _ \<Rightarrow> RNil)"

subsection \<open>The documented behaviour of the commands\<close>

definition on_list :: "string \<Rightarrow> redis_view \<Rightarrow> (string list \<Rightarrow> redis_reply \<times> redis_view) \<Rightarrow> redis_reply \<times> redis_view" where
  "on_list k v f = (case as_list (rv_live v k) of None \<Rightarrow> (RErr, v) | Some xs \<Rightarrow> f xs)"

definition on_set :: "string \<Rightarrow> redis_view \<Rightarrow> (string list \<Rightarrow> redis_reply \<times> redis_view) \<Rightarrow> redis_reply \<times> redis_view" where
  "on_set k v f = (case as_set (rv_live v k) of None \<Rightarrow> (RErr, v) | Some xs \<Rightarrow> f xs)"

definition on_hash ::
    "string \<Rightarrow> redis_view \<Rightarrow> ((string, string) jmap \<Rightarrow> redis_reply \<times> redis_view) \<Rightarrow> redis_reply \<times> redis_view" where
  "on_hash k v f = (case as_hash (rv_live v k) of None \<Rightarrow> (RErr, v) | Some h \<Rightarrow> f h)"

fun redis_law :: "redis_cmd \<Rightarrow> redis_view \<Rightarrow> redis_reply \<times> redis_view" where
  "redis_law (Get k) v = (get_reply (rv_live v k), v)"
| "redis_law (MGet ks) v = (RMulti (map (\<lambda>k. mget_reply (rv_live v k)) ks), v)"
| "redis_law (SetKey k x) v = (ROk, rv_put k (VString x) None v)"
| "redis_law (SetNX k x) v =
     (if rv_live v k = None then (ROk, rv_put k (VString x) None v) else (RNil, v))"
| "redis_law (SetNXPX k x ttl) v =
     (if rv_live v k = None then (ROk, rv_put k (VString x) (Some (rv_now v + ttl)) v) else (RNil, v))"
| "redis_law (SetPX k x ttl) v = (ROk, rv_put k (VString x) (Some (rv_now v + ttl)) v)"
| "redis_law (Del ks) v =
     (RInt (length (filter (\<lambda>k. rv_live v k \<noteq> None) (remdups ks))), rv_remove ks v)"
| "redis_law (Exists k) v = (RInt (if rv_live v k = None then 0 else 1), v)"
| "redis_law (PExpire k ttl) v =
     (case rv_live v k of
        None \<Rightarrow> (RInt 0, v)
      | Some x \<Rightarrow> (RInt 1, rv_put k x (Some (rv_now v + ttl)) v))"
| "redis_law (LPush k x) v = on_list k v (\<lambda>xs. (RInt (Suc (length xs)), rv_put_list k (x # xs) v))"
| "redis_law (RPush k x) v = on_list k v (\<lambda>xs. (RInt (Suc (length xs)), rv_put_list k (xs @ [x]) v))"
| "redis_law (LPop k) v =
     on_list k v (\<lambda>xs. case xs of [] \<Rightarrow> (RNil, v) | x # ys \<Rightarrow> (RBulk x, rv_put_list k ys v))"
| "redis_law (LLen k) v = on_list k v (\<lambda>xs. (RInt (length xs), v))"
| "redis_law (LRange k i j) v = on_list k v (\<lambda>xs. (RMulti (map RBulk (js_slice i (Suc j) xs)), v))"
| "redis_law (LIndex k i) v = on_list k v (\<lambda>xs. (if i < length xs then RBulk (xs ! i) else RNil, v))"
| "redis_law (SAdd k x) v =
     on_set k v (\<lambda>xs. if x \<in> set xs then (RInt 0, v) else (RInt 1, rv_put_set k (xs @ [x]) v))"
| "redis_law (SRem k x) v =
     on_set k v (\<lambda>xs. if x \<in> set xs then (RInt 1, rv_put_set k (removeAll x xs) v) else (RInt 0, v))"
| "redis_law (SRemAll k ys) v =
     on_set k v (\<lambda>xs. (RInt (length (filter (\<lambda>x. x \<in> set ys) xs)), rv_put_set k (filter (\<lambda>x. x \<notin> set ys) xs) v))"
| "redis_law (SMembers k) v = on_set k v (\<lambda>xs. (RMulti (map RBulk xs), v))"
| "redis_law (HSet k kvs) v =
     on_hash k v (\<lambda>h. (RInt (length (set_fields kvs h) - length h), rv_put_hash k (set_fields kvs h) v))"
| "redis_law (HDel k f) v =
     on_hash k v (\<lambda>h. if map_of h f = None then (RInt 0, v) else (RInt 1, rv_put_hash k (AList.delete f h) v))"
| "redis_law (HGetAll k) v = on_hash k v (\<lambda>h. (RMulti (flat_fields h), v))"

subsection \<open>Calls and their replies\<close>

text \<open>A call of a command, as a step on the server's state; a script is a sequence of such steps.\<close>

type_synonym 's redis = "redis_cmd \<Rightarrow> 's \<Rightarrow> redis_reply \<times> 's"

definition redis_call :: "(redis_cmd \<Rightarrow> 's \<Rightarrow> redis_reply \<times> 's) \<Rightarrow> redis_cmd \<Rightarrow> ('s, redis_reply) state" where
  "redis_call exec c = State (exec c)"

definition reply_count :: "redis_reply \<Rightarrow> nat" where
  "reply_count r = (case r of RInt n \<Rightarrow> n | _ \<Rightarrow> 0)"

definition bulk_strings :: "redis_reply \<Rightarrow> string list" where
  "bulk_strings r =
     (case r of RMulti xs \<Rightarrow> List.map_filter (\<lambda>x. case x of RBulk s \<Rightarrow> Some s | _ \<Rightarrow> None) xs | _ \<Rightarrow> [])"

definition string_reply :: "redis_reply \<Rightarrow> string option" where
  "string_reply r = (case r of RBulk x \<Rightarrow> Some x | _ \<Rightarrow> None)"

definition replies_of :: "redis_reply \<Rightarrow> redis_reply list" where
  "replies_of r = (case r of RMulti xs \<Rightarrow> xs | _ \<Rightarrow> [])"

subsection \<open>The interface\<close>

text \<open>
  A program over the commands runs on the server as it runs on the laws: what it returns is a
  function of what the client observes (\<open>tracks\<close>). So a script is analysed on
  \<open>redis_law\<close>, and the result holds for every server that keeps the laws.
\<close>

locale redis_server =
  fixes exec :: "redis_cmd \<Rightarrow> 's \<Rightarrow> redis_reply \<times> 's"
    and view :: "'s \<Rightarrow> redis_view"
  assumes exec_reply: "fst (exec c s) = fst (redis_law c (view s))"
    and exec_view: "view (snd (exec c s)) = snd (redis_law c (view s))"
begin

lemma exec_cases:
  obtains t where "exec c s = (fst (redis_law c (view s)), t)" "view t = snd (redis_law c (view s))"
  using exec_reply [of c s] exec_view [of c s] by (metis prod.collapse)

definition tracks :: "('s, 'a) state \<Rightarrow> (redis_view, 'a) state \<Rightarrow> bool" where
  "tracks m n \<longleftrightarrow>
     (\<forall>s. fst (run_state m s) = fst (run_state n (view s)) \<and>
          view (snd (run_state m s)) = snd (run_state n (view s)))"

lemma tracks_return [intro]: "tracks (State_Monad.return x) (State_Monad.return x)"
  by (simp add: tracks_def)

lemma tracks_call [intro]: "tracks (redis_call exec c) (redis_call redis_law c)"
  by (simp add: tracks_def redis_call_def exec_reply exec_view)

lemma tracks_bind [intro]:
  assumes "tracks m n" "\<And>x. tracks (f x) (g x)"
  shows "tracks (State_Monad.bind m f) (State_Monad.bind n g)"
  using assms by (auto simp: tracks_def split: prod.splits) (metis fst_conv snd_conv)+

lemma tracks_if [intro]:
  "tracks m n \<Longrightarrow> tracks m' n' \<Longrightarrow> tracks (if b then m else m') (if b then n else n')"
  by simp

lemma tracks_run:
  assumes "tracks m n" "run_state n (view s) = (x, v)"
  shows "fst (run_state m s) = x" "view (snd (run_state m s)) = v"
  using assms by (auto simp: tracks_def)

end

text \<open>
  Time passes between the commands of a client. \<open>wait n\<close> is the server \<open>n\<close>
  milliseconds later.
\<close>

locale redis_clock = redis_server exec view
  for exec :: "redis_cmd \<Rightarrow> 's \<Rightarrow> redis_reply \<times> 's" and view :: "'s \<Rightarrow> redis_view" +
  fixes wait :: "nat \<Rightarrow> 's \<Rightarrow> 's"
  assumes wait_view: "view (wait n s) = (view s)\<lparr>rv_now := rv_now (view s) + n\<rparr>"
begin

lemma wait_live: "rv_live (view (wait n s)) k = rv_live ((view s)\<lparr>rv_now := rv_now (view s) + n\<rparr>) k"
  by (simp add: wait_view)

end

text \<open>
  The laws have a model: a server whose state is what a client observes of it. The theorems'
  witnesses run on it.
\<close>

definition redis_wait :: "nat \<Rightarrow> redis_view \<Rightarrow> redis_view" where
  "redis_wait n v = v\<lparr>rv_now := rv_now v + n\<rparr>"

interpretation redis_model: redis_clock redis_law "\<lambda>v. v" redis_wait
  by unfold_locales (auto simp: redis_wait_def)

definition redis_empty :: "nat \<Rightarrow> redis_view" where
  "redis_empty t = \<lparr>rv_now = t, rv_keys = (\<lambda>_. None)\<rparr>"

subsection \<open>Keys of one kind\<close>

text \<open>
  A key that only holds values of one kind is a slot of that kind; of these only a lease has a deadline.
\<close>

definition list_at :: "redis_view \<Rightarrow> string \<Rightarrow> string list" where
  "list_at v k = (case rv_live v k of Some (VList xs) \<Rightarrow> xs | _ \<Rightarrow> [])"

definition items_at :: "redis_view \<Rightarrow> string \<Rightarrow> string list" where
  "items_at v k = (case rv_live v k of Some (VSet xs) \<Rightarrow> xs | _ \<Rightarrow> [])"

definition set_at :: "redis_view \<Rightarrow> string \<Rightarrow> string set" where
  "set_at v k = set (items_at v k)"

definition string_at :: "redis_view \<Rightarrow> string \<Rightarrow> string option" where
  "string_at v k = (case rv_live v k of Some (VString x) \<Rightarrow> Some x | _ \<Rightarrow> None)"

definition list_slot :: "redis_view \<Rightarrow> string \<Rightarrow> bool" where
  "list_slot v k =
     (case rv_keys v k of None \<Rightarrow> True | Some (VList xs, d) \<Rightarrow> xs \<noteq> [] \<and> d = None | _ \<Rightarrow> False)"

definition set_slot :: "redis_view \<Rightarrow> string \<Rightarrow> bool" where
  "set_slot v k =
     (case rv_keys v k of None \<Rightarrow> True | Some (VSet xs, d) \<Rightarrow> xs \<noteq> [] \<and> d = None | _ \<Rightarrow> False)"

definition string_slot :: "redis_view \<Rightarrow> string \<Rightarrow> bool" where
  "string_slot v k =
     (case rv_keys v k of None \<Rightarrow> True | Some (VString x, d) \<Rightarrow> d = None | _ \<Rightarrow> False)"

definition lease_slot :: "redis_view \<Rightarrow> string \<Rightarrow> bool" where
  "lease_slot v k = (case rv_keys v k of None \<Rightarrow> True | Some (VString x, d) \<Rightarrow> True | _ \<Rightarrow> False)"

lemmas slot_defs = list_slot_def set_slot_def string_slot_def lease_slot_def

lemmas at_defs = list_at_def set_at_def items_at_def string_at_def rv_live_def

text \<open>The commands on a key of the right kind, as reads and writes of its value.\<close>

definition put_list :: "string \<Rightarrow> string list \<Rightarrow> redis_view \<Rightarrow> redis_view" where
  "put_list k xs v = (if xs = [] then rv_remove [k] v else rv_put k (VList xs) None v)"

definition put_set :: "string \<Rightarrow> string list \<Rightarrow> redis_view \<Rightarrow> redis_view" where
  "put_set k xs v = (if xs = [] then rv_remove [k] v else rv_put k (VSet xs) None v)"

definition put_string :: "string \<Rightarrow> string \<Rightarrow> nat option \<Rightarrow> redis_view \<Rightarrow> redis_view" where
  "put_string k x d v = rv_put k (VString x) d v"

lemma list_commands:
  assumes "list_slot v k"
  shows "redis_law (LPush k x) v = (RInt (Suc (length (list_at v k))), put_list k (x # list_at v k) v)"
    and "redis_law (RPush k x) v = (RInt (Suc (length (list_at v k))), put_list k (list_at v k @ [x]) v)"
    and "redis_law (LPop k) v =
      (case list_at v k of [] \<Rightarrow> (RNil, v) | y # ys \<Rightarrow> (RBulk y, put_list k ys v))"
    and "redis_law (LLen k) v = (RInt (length (list_at v k)), v)"
    and "redis_law (LRange k i j) v = (RMulti (map RBulk (js_slice i (Suc j) (list_at v k))), v)"
    and "redis_law (LIndex k i) v = (if i < length (list_at v k) then RBulk (list_at v k ! i) else RNil, v)"
  using assms
  by (auto simp: list_slot_def at_defs on_list_def as_list_def put_list_def rv_put_list_def rv_deadline_def
      split: option.splits redis_value.splits list.splits)

lemma set_commands:
  assumes "set_slot v k"
  shows "redis_law (SAdd k x) v =
      (if x \<in> set_at v k then (RInt 0, v) else (RInt 1, put_set k (items_at v k @ [x]) v))"
    and "redis_law (SRem k x) v =
      (if x \<in> set_at v k then (RInt 1, put_set k (removeAll x (items_at v k)) v) else (RInt 0, v))"
    and "redis_law (SMembers k) v = (RMulti (map RBulk (items_at v k)), v)"
  using assms
  by (auto simp: set_slot_def at_defs on_set_def as_set_def put_set_def rv_put_set_def rv_deadline_def
      split: option.splits redis_value.splits)

lemma string_commands:
  assumes "lease_slot v k"
  shows "redis_law (Get k) v = (case string_at v k of None \<Rightarrow> RNil | Some x \<Rightarrow> RBulk x, v)"
    and "redis_law (SetKey k x) v = (ROk, put_string k x None v)"
    and "redis_law (SetNX k x) v = (if string_at v k = None then (ROk, put_string k x None v) else (RNil, v))"
    and "redis_law (SetNXPX k x ttl) v =
      (if string_at v k = None then (ROk, put_string k x (Some (rv_now v + ttl)) v) else (RNil, v))"
    and "redis_law (PExpire k ttl) v =
      (case string_at v k of None \<Rightarrow> (RInt 0, v)
       | Some x \<Rightarrow> (RInt 1, put_string k x (Some (rv_now v + ttl)) v))"
    and "redis_law (Exists k) v = (RInt (if string_at v k = None then 0 else 1), v)"
    and "redis_law (Del [k]) v = (RInt (if string_at v k = None then 0 else 1), rv_remove [k] v)"
  using assms
  by (auto simp: lease_slot_def at_defs get_reply_def put_string_def split: option.splits redis_value.splits)

lemma string_slot_lease: "string_slot v k \<Longrightarrow> lease_slot v k"
  by (auto simp: slot_defs split: option.splits redis_value.splits)

lemma set_items_at [simp]: "set (items_at v k) = set_at v k"
  by (simp add: set_at_def)

text \<open>A write changes its own key.\<close>

lemma live_put:
  "rv_live (rv_put k x d v) k' =
     (if k' = k then (case d of None \<Rightarrow> Some x | Some t \<Rightarrow> if rv_now v < t then Some x else None)
      else rv_live v k')"
  "rv_live (rv_remove ks v) k' = (if k' \<in> set ks then None else rv_live v k')"
  by (auto simp: rv_live_def rv_put_def rv_remove_def split: option.splits)

lemmas put_defs = put_list_def put_set_def put_string_def list_at_def set_at_def items_at_def string_at_def live_put

lemma at_other [simp]:
  "k' \<noteq> k \<Longrightarrow> list_at (put_list k xs v) k' = list_at v k'"
  "k' \<noteq> k \<Longrightarrow> list_at (put_set k xs v) k' = list_at v k'"
  "k' \<noteq> k \<Longrightarrow> list_at (put_string k x d v) k' = list_at v k'"
  "k' \<notin> set ks \<Longrightarrow> list_at (rv_remove ks v) k' = list_at v k'"
  "k' \<noteq> k \<Longrightarrow> items_at (put_list k xs v) k' = items_at v k'"
  "k' \<noteq> k \<Longrightarrow> items_at (put_set k xs v) k' = items_at v k'"
  "k' \<noteq> k \<Longrightarrow> items_at (put_string k x d v) k' = items_at v k'"
  "k' \<notin> set ks \<Longrightarrow> items_at (rv_remove ks v) k' = items_at v k'"
  "k' \<noteq> k \<Longrightarrow> set_at (put_list k xs v) k' = set_at v k'"
  "k' \<noteq> k \<Longrightarrow> set_at (put_set k xs v) k' = set_at v k'"
  "k' \<noteq> k \<Longrightarrow> set_at (put_string k x d v) k' = set_at v k'"
  "k' \<notin> set ks \<Longrightarrow> set_at (rv_remove ks v) k' = set_at v k'"
  "k' \<noteq> k \<Longrightarrow> string_at (put_list k xs v) k' = string_at v k'"
  "k' \<noteq> k \<Longrightarrow> string_at (put_set k xs v) k' = string_at v k'"
  "k' \<noteq> k \<Longrightarrow> string_at (put_string k x d v) k' = string_at v k'"
  "k' \<notin> set ks \<Longrightarrow> string_at (rv_remove ks v) k' = string_at v k'"
  by (simp_all add: put_defs)

lemma at_same [simp]:
  "list_at (put_list k xs v) k = xs"
  "set_at (put_set k xs v) k = set xs"
  "items_at (put_set k xs v) k = xs"
  "string_at (put_string k x None v) k = Some x"
  "string_at (put_string k x (Some d) v) k = (if rv_now v < d then Some x else None)"
  "k \<in> set ks \<Longrightarrow> string_at (rv_remove ks v) k = None"
  by (simp_all add: put_defs)

lemma put_now [simp]:
  "rv_now (put_list k xs v) = rv_now v" "rv_now (put_set k xs v) = rv_now v"
  "rv_now (put_string k x d v) = rv_now v" "rv_now (rv_remove ks v) = rv_now v"
  by (simp_all add: put_list_def put_set_def put_string_def rv_put_def rv_remove_def)

lemma deadline_put [simp]:
  "k' \<noteq> k \<Longrightarrow> rv_deadline k' (put_list k xs v) = rv_deadline k' v"
  "k' \<noteq> k \<Longrightarrow> rv_deadline k' (put_set k xs v) = rv_deadline k' v"
  "rv_deadline k' (put_string k x d v) = (if k' = k then d else rv_deadline k' v)"
  "rv_deadline k' (rv_remove ks v) = (if k' \<in> set ks then None else rv_deadline k' v)"
  by (simp_all add: rv_deadline_def put_list_def put_set_def put_string_def rv_put_def rv_remove_def)

lemma slot_put [simp]:
  "list_slot (put_list k xs v) k' = (k' = k \<or> list_slot v k')"
  "k' \<noteq> k \<Longrightarrow> list_slot (put_set k xs v) k' = list_slot v k'"
  "k' \<noteq> k \<Longrightarrow> list_slot (put_string k x d v) k' = list_slot v k'"
  "list_slot (rv_remove ks v) k' = (k' \<in> set ks \<or> list_slot v k')"
  "k' \<noteq> k \<Longrightarrow> set_slot (put_list k xs v) k' = set_slot v k'"
  "set_slot (put_set k xs v) k' = (k' = k \<or> set_slot v k')"
  "k' \<noteq> k \<Longrightarrow> set_slot (put_string k x d v) k' = set_slot v k'"
  "set_slot (rv_remove ks v) k' = (k' \<in> set ks \<or> set_slot v k')"
  "k' \<noteq> k \<Longrightarrow> string_slot (put_list k xs v) k' = string_slot v k'"
  "k' \<noteq> k \<Longrightarrow> string_slot (put_set k xs v) k' = string_slot v k'"
  "k' \<noteq> k \<Longrightarrow> string_slot (put_string k x d v) k' = string_slot v k'"
  "string_slot (put_string k x None v) k"
  "string_slot (rv_remove ks v) k' = (k' \<in> set ks \<or> string_slot v k')"
  "k' \<noteq> k \<Longrightarrow> lease_slot (put_list k xs v) k' = lease_slot v k'"
  "k' \<noteq> k \<Longrightarrow> lease_slot (put_set k xs v) k' = lease_slot v k'"
  "lease_slot (put_string k x d v) k' = (k' = k \<or> lease_slot v k')"
  "lease_slot (rv_remove ks v) k' = (k' \<in> set ks \<or> lease_slot v k')"
  by (auto simp: slot_defs put_list_def put_set_def put_string_def rv_put_def rv_remove_def)

declare redis_law.simps [simp del]

end
