(* ===== verification/Run_Queue.thy ===== *)
theory Run_Queue
  imports Redis_Server
begin

text \<open>
  The distributed run queue, \<open>packages/storage-redis/src/run-queue.ts\<close>: the Lua scripts the
  server runs atomically, as programs over its commands, and the methods of
  \<open>RedisSessionRunQueue\<close> that call them. A session has a list of queued runs, a lock with a
  time to live, and the keys ready-at, ready-priority and preferred-worker; the sessions with work are in the
  ready list and in the ready set. The abstract queue of the second half says what the scripts
  mean, and the methods refine it.
\<close>

subsection \<open>Keys\<close>

definition readyQueueKey :: "string \<Rightarrow> string" where
  "readyQueueKey keyPrefix = keyPrefix @ '':runs:ready''"

definition readyQueueSetKey :: "string \<Rightarrow> string" where
  "readyQueueSetKey keyPrefix = keyPrefix @ '':runs:ready:set''"

definition sessionQueueKey :: "string \<Rightarrow> string \<Rightarrow> string" where
  "sessionQueueKey keyPrefix sessionId = keyPrefix @ '':session:'' @ sessionId @ '':queue''"

definition lockKey :: "string \<Rightarrow> string \<Rightarrow> string" where
  "lockKey keyPrefix sessionId = keyPrefix @ '':session:'' @ sessionId @ '':lock''"

definition readyPriorityKey :: "string \<Rightarrow> string \<Rightarrow> string" where
  "readyPriorityKey keyPrefix sessionId = keyPrefix @ '':session:'' @ sessionId @ '':ready-priority''"

definition readyAtKey :: "string \<Rightarrow> string \<Rightarrow> string" where
  "readyAtKey keyPrefix sessionId = keyPrefix @ '':session:'' @ sessionId @ '':ready_at''"

definition preferredWorkerKey :: "string \<Rightarrow> string \<Rightarrow> string" where
  "preferredWorkerKey keyPrefix sessionId = keyPrefix @ '':session:'' @ sessionId @ '':preferred-worker''"

subsection \<open>The scripts\<close>

text \<open>
  \<open>redis.call\<close> is \<open>redis_call exec\<close>; \<open>KEYS[1]\<close> is \<open>KEYS ! 0\<close> and so on. A
  reply of nil (\<open>false\<close> in Lua) is \<^const>\<open>RNil\<close>.
\<close>

definition compareAndDeleteScript :: "'s redis \<Rightarrow> string list \<Rightarrow> string list \<Rightarrow> ('s, redis_reply) state" where
  "compareAndDeleteScript exec KEYS ARGV = do {
     holder \<leftarrow> redis_call exec (Get (KEYS ! 0));
     if holder = RBulk (ARGV ! 0) then redis_call exec (Del [KEYS ! 0])
     else State_Monad.return (RInt 0)
   }"

definition compareAndExpireScript :: "'s redis \<Rightarrow> string list \<Rightarrow> string list \<Rightarrow> nat \<Rightarrow> ('s, redis_reply) state" where
  "compareAndExpireScript exec KEYS ARGV ttl = do {
     holder \<leftarrow> redis_call exec (Get (KEYS ! 0));
     if holder = RBulk (ARGV ! 0) then redis_call exec (PExpire (KEYS ! 0) ttl)
     else State_Monad.return (RInt 0)
   }"

definition enqueueSessionRunScript :: "'s redis \<Rightarrow> string list \<Rightarrow> string list \<Rightarrow> ('s, redis_reply) state" where
  "enqueueSessionRunScript exec KEYS ARGV = do {
     queueLength \<leftarrow> redis_call exec (RPush (KEYS ! 0) (ARGV ! 0));
     _ \<leftarrow> (if ARGV ! 4 \<noteq> [] then redis_call exec (SetKey (KEYS ! 4) (ARGV ! 4))
          else redis_call exec (Del [KEYS ! 4]));
     if queueLength = RInt 1 then do {
       _ \<leftarrow> redis_call exec (SetNX (KEYS ! 2) (ARGV ! 2));
       _ \<leftarrow> redis_call exec (SetKey (KEYS ! 3) (ARGV ! 3));
       added \<leftarrow> redis_call exec (SAdd (KEYS ! 5) (ARGV ! 1));
       _ \<leftarrow> (if added = RInt 1 then
              (if ARGV ! 3 = ''subagent'' then redis_call exec (LPush (KEYS ! 1) (ARGV ! 1))
               else redis_call exec (RPush (KEYS ! 1) (ARGV ! 1)))
            else State_Monad.return RNil);
       State_Monad.return queueLength
     } else State_Monad.return queueLength
   }"

text \<open>
  The claim script pops the ready list at most \<open>scanLimit\<close> times; a session that prefers
  another worker goes to its end.
\<close>

definition compatible_reply :: "string \<Rightarrow> string \<Rightarrow> redis_reply \<Rightarrow> bool" where
  "compatible_reply workerId runtimeInstanceId preferredWorkerId \<longleftrightarrow>
     workerId = [] \<or> preferredWorkerId = RNil \<or> preferredWorkerId = RBulk [] \<or>
     preferredWorkerId = RBulk workerId \<or>
     (runtimeInstanceId \<noteq> [] \<and> preferredWorkerId = RBulk runtimeInstanceId)"

primrec claim_scan :: "'s redis \<Rightarrow> string list \<Rightarrow> string list \<Rightarrow> nat \<Rightarrow> ('s, string option) state" where
  "claim_scan exec KEYS ARGV 0 = State_Monad.return None"
| "claim_scan exec KEYS ARGV (Suc iterations) = do {
     popped \<leftarrow> redis_call exec (LPop (KEYS ! 0));
     case popped of
       RBulk sessionId \<Rightarrow> do {
         preferredWorkerId \<leftarrow> redis_call exec (Get (ARGV ! 0 @ sessionId @ ARGV ! 1));
         if compatible_reply (ARGV ! 2) (ARGV ! 3) preferredWorkerId then do {
           _ \<leftarrow> redis_call exec (SRem (KEYS ! 1) sessionId);
           State_Monad.return (Some sessionId)
         } else do {
           _ \<leftarrow> redis_call exec (RPush (KEYS ! 0) sessionId);
           claim_scan exec KEYS ARGV iterations
         }
       }
     | _ \<Rightarrow> State_Monad.return None
   }"

definition claimCompatibleSessionScript ::
    "'s redis \<Rightarrow> string list \<Rightarrow> string list \<Rightarrow> nat \<Rightarrow> ('s, string option) state" where
  "claimCompatibleSessionScript exec KEYS ARGV limit = do {
     let scanLimit = (if limit < 1 then 100 else limit);
     readyQueueDepth \<leftarrow> redis_call exec (LLen (KEYS ! 0));
     claim_scan exec KEYS ARGV (min scanLimit (reply_count readyQueueDepth))
   }"

definition requeuePendingSessionScript :: "'s redis \<Rightarrow> string list \<Rightarrow> string list \<Rightarrow> ('s, redis_reply) state" where
  "requeuePendingSessionScript exec KEYS ARGV = do {
     queueLength \<leftarrow> redis_call exec (LLen (KEYS ! 0));
     if reply_count queueLength > 0 then do {
       _ \<leftarrow> (if ARGV ! 1 \<noteq> [] then redis_call exec (SetKey (KEYS ! 2) (ARGV ! 1))
            else State_Monad.return RNil);
       added \<leftarrow> redis_call exec (SAdd (KEYS ! 3) (ARGV ! 0));
       if added = RInt 1 then do {
         _ \<leftarrow> redis_call exec (RPush (KEYS ! 1) (ARGV ! 0));
         State_Monad.return (RInt 1)
       } else State_Monad.return (RInt 0)
     } else State_Monad.return (RInt 0)
   }"

definition dequeueSessionRunScript :: "'s redis \<Rightarrow> string list \<Rightarrow> string list \<Rightarrow> ('s, redis_reply) state" where
  "dequeueSessionRunScript exec KEYS ARGV = do {
     runId \<leftarrow> redis_call exec (LPop (KEYS ! 0));
     if runId = RNil then State_Monad.return RNil
     else do {
       queueLength \<leftarrow> redis_call exec (LLen (KEYS ! 0));
       if queueLength = RInt 0 then do {
         _ \<leftarrow> redis_call exec (Del [KEYS ! 1, KEYS ! 2, KEYS ! 3]);
         _ \<leftarrow> redis_call exec (SRem (KEYS ! 4) (ARGV ! 0));
         State_Monad.return runId
       } else State_Monad.return runId
     }
   }"

text \<open>
  The pressure script walks over the head of the ready list. A session is counted once, as
  stale (nothing queued), locked or schedulable; the depth counters count every entry.
  \<open>tonumber\<close> is needed on decimal strings only.
\<close>

record pressure =
  pr_uniqueReady :: nat
  pr_schedulable :: nat
  pr_subagentReadyQueueDepth :: nat
  pr_subagentSchedulable :: nat
  pr_preferredReadyQueueDepth :: nat
  pr_preferredSchedulable :: nat
  pr_preferredSubagentReadyQueueDepth :: nat
  pr_preferredSubagentSchedulable :: nat
  pr_lockedReady :: nat
  pr_staleReady :: nat
  pr_oldestSchedulableReadyAgeMs :: int

definition no_pressure :: pressure where
  "no_pressure = \<lparr>pr_uniqueReady = 0, pr_schedulable = 0, pr_subagentReadyQueueDepth = 0,
     pr_subagentSchedulable = 0, pr_preferredReadyQueueDepth = 0, pr_preferredSchedulable = 0,
     pr_preferredSubagentReadyQueueDepth = 0, pr_preferredSubagentSchedulable = 0,
     pr_lockedReady = 0, pr_staleReady = 0, pr_oldestSchedulableReadyAgeMs = 0\<rparr>"

definition lua_tonumber :: "redis_reply \<Rightarrow> int option" where
  "lua_tonumber r =
     (case r of
        RBulk s \<Rightarrow> if s \<noteq> [] \<and> list_all (\<lambda>c. digit_value c \<noteq> None) s then Some (int (parse_digits 0 s)) else None
      | _ \<Rightarrow> None)"

definition count_depths :: "bool \<Rightarrow> bool \<Rightarrow> pressure \<Rightarrow> pressure" where
  "count_depths isSubagent hasPreferredWorker p = p\<lparr>
     pr_subagentReadyQueueDepth := pr_subagentReadyQueueDepth p + (if isSubagent then 1 else 0),
     pr_preferredReadyQueueDepth := pr_preferredReadyQueueDepth p + (if hasPreferredWorker then 1 else 0),
     pr_preferredSubagentReadyQueueDepth := pr_preferredSubagentReadyQueueDepth p +
       (if hasPreferredWorker \<and> isSubagent then 1 else 0)\<rparr>"

definition count_schedulable :: "bool \<Rightarrow> bool \<Rightarrow> int option \<Rightarrow> nat \<Rightarrow> pressure \<Rightarrow> pressure" where
  "count_schedulable isSubagent hasPreferredWorker readyAtMs nowMs p = p\<lparr>
     pr_schedulable := pr_schedulable p + 1,
     pr_subagentSchedulable := pr_subagentSchedulable p + (if isSubagent then 1 else 0),
     pr_preferredSchedulable := pr_preferredSchedulable p + (if hasPreferredWorker then 1 else 0),
     pr_preferredSubagentSchedulable := pr_preferredSubagentSchedulable p +
       (if hasPreferredWorker \<and> isSubagent then 1 else 0),
     pr_oldestSchedulableReadyAgeMs :=
       (case readyAtMs of
          None \<Rightarrow> pr_oldestSchedulableReadyAgeMs p
        | Some at \<Rightarrow> if int nowMs - at > pr_oldestSchedulableReadyAgeMs p then int nowMs - at
                    else pr_oldestSchedulableReadyAgeMs p)\<rparr>"

primrec pressure_scan ::
    "'s redis \<Rightarrow> string list \<Rightarrow> nat \<Rightarrow> string list \<Rightarrow> string list \<Rightarrow> pressure \<Rightarrow> ('s, pressure) state" where
  "pressure_scan exec ARGV nowMs [] seen p = State_Monad.return p"
| "pressure_scan exec ARGV nowMs (sessionId # rest) seen p = do {
     readyPriority \<leftarrow> redis_call exec (Get (ARGV ! 0 @ sessionId @ ARGV ! 4));
     preferredWorkerId \<leftarrow> redis_call exec (Get (ARGV ! 0 @ sessionId @ ARGV ! 7));
     let isSubagent = (readyPriority = RBulk ''subagent'');
     let hasPreferredWorker = (preferredWorkerId \<noteq> RNil \<and> preferredWorkerId \<noteq> RBulk []);
     let p1 = count_depths isSubagent hasPreferredWorker p;
     if sessionId \<in> set seen then pressure_scan exec ARGV nowMs rest seen p1
     else do {
       let p2 = p1\<lparr>pr_uniqueReady := pr_uniqueReady p1 + 1\<rparr>;
       pendingRunCount \<leftarrow> redis_call exec (LLen (ARGV ! 0 @ sessionId @ ARGV ! 1));
       if reply_count pendingRunCount \<le> 0 then
         pressure_scan exec ARGV nowMs rest (sessionId # seen) (p2\<lparr>pr_staleReady := pr_staleReady p2 + 1\<rparr>)
       else do {
         locked \<leftarrow> redis_call exec (Exists (ARGV ! 0 @ sessionId @ ARGV ! 2));
         if locked = RInt 1 then
           pressure_scan exec ARGV nowMs rest (sessionId # seen) (p2\<lparr>pr_lockedReady := pr_lockedReady p2 + 1\<rparr>)
         else do {
           readyAt \<leftarrow> redis_call exec (Get (ARGV ! 0 @ sessionId @ ARGV ! 3));
           pressure_scan exec ARGV nowMs rest (sessionId # seen)
             (count_schedulable isSubagent hasPreferredWorker (lua_tonumber readyAt) nowMs p2)
         }
       }
     }
   }"

text \<open>
  \<open>lrange key 0 (n - 1)\<close> with \<open>n = 0\<close> asks for the whole list, which is then empty: the
  ready list is sampled with \<open>n \<le> readyQueueDepth\<close>.
\<close>

definition sample_ready :: "'s redis \<Rightarrow> string \<Rightarrow> nat \<Rightarrow> ('s, string list) state" where
  "sample_ready exec k n =
     (if n = 0 then State_Monad.return []
      else do { entries \<leftarrow> redis_call exec (LRange k 0 (n - 1)); State_Monad.return (bulk_strings entries) })"

record scheduling_pressure =
  sp_readySessionCount :: nat
  sp_readyQueueDepth :: nat
  sp_counts :: pressure

definition inspectSchedulingPressureScript ::
    "'s redis \<Rightarrow> string list \<Rightarrow> string list \<Rightarrow> nat \<Rightarrow> nat \<Rightarrow> ('s, scheduling_pressure) state" where
  "inspectSchedulingPressureScript exec KEYS ARGV nowMs limit = do {
     let scanLimit = (if limit < 1 then 100 else limit);
     depth \<leftarrow> redis_call exec (LLen (KEYS ! 0));
     let readyQueueDepth = reply_count depth;
     readyEntries \<leftarrow> sample_ready exec (KEYS ! 0) (min scanLimit readyQueueDepth);
     p \<leftarrow> pressure_scan exec ARGV nowMs readyEntries [] no_pressure;
     State_Monad.return
       \<lparr>sp_readySessionCount =
          (if readyQueueDepth > length readyEntries then readyQueueDepth else pr_schedulable p),
        sp_readyQueueDepth = readyQueueDepth,
        sp_counts = p\<rparr>
   }"

subsection \<open>The methods of \<open>RedisSessionRunQueue\<close>\<close>

datatype run_queue_priority = PriorityNormal | PrioritySubagent

definition priority_string :: "run_queue_priority \<Rightarrow> string" where
  "priority_string p = (case p of PriorityNormal \<Rightarrow> ''normal'' | PrioritySubagent \<Rightarrow> ''subagent'')"

definition trimmed_option :: "string option \<Rightarrow> string" where
  "trimmed_option x = or_else (map_option js_trim x) []"

definition rq_enqueue ::
    "'s redis \<Rightarrow> string \<Rightarrow> nat \<Rightarrow> string \<Rightarrow> string \<Rightarrow> run_queue_priority option \<Rightarrow> string option \<Rightarrow> ('s, unit) state" where
  "rq_enqueue exec keyPrefix nowMs sessionId runId priority preferredWorkerId = do {
     _ \<leftarrow> enqueueSessionRunScript exec
       [sessionQueueKey keyPrefix sessionId, readyQueueKey keyPrefix, readyAtKey keyPrefix sessionId,
        readyPriorityKey keyPrefix sessionId, preferredWorkerKey keyPrefix sessionId, readyQueueSetKey keyPrefix]
       [runId, sessionId, js_show nowMs, priority_string (or_else priority PriorityNormal),
        trimmed_option preferredWorkerId];
     State_Monad.return ()
   }"

definition claimOnce :: "'s redis \<Rightarrow> string \<Rightarrow> nat \<Rightarrow> string \<Rightarrow> string \<Rightarrow> ('s, string option) state" where
  "claimOnce exec keyPrefix claimScanLimit workerId runtimeInstanceId = do {
     claimed \<leftarrow> claimCompatibleSessionScript exec [readyQueueKey keyPrefix, readyQueueSetKey keyPrefix]
       [keyPrefix @ '':session:'', '':preferred-worker'', workerId, runtimeInstanceId] claimScanLimit;
     State_Monad.return (if claimed = Some [] then None else claimed)
   }"

text \<open>
  \<open>claimNextSession\<close> polls until its deadline. \<open>now\<close> reads the caller's clock and
  \<open>sleep\<close> waits; each is an argument, as the clock is outside the process. The fuel bounds the
  number of polls.
\<close>

fun claim_until ::
    "'s redis \<Rightarrow> ('s \<Rightarrow> nat) \<Rightarrow> (nat \<Rightarrow> 's \<Rightarrow> 's) \<Rightarrow> string \<Rightarrow> nat \<Rightarrow> string \<Rightarrow> string \<Rightarrow> nat \<Rightarrow> nat \<Rightarrow> 's \<Rightarrow>
     (string option \<times> 's) option" where
  "claim_until exec now sleep keyPrefix limit workerId runtimeInstanceId deadline 0 s = None"
| "claim_until exec now sleep keyPrefix limit workerId runtimeInstanceId deadline (Suc fuel) s =
     (if now s < deadline then
        let (claimed, s1) = run_state (claimOnce exec keyPrefix limit workerId runtimeInstanceId) s
        in if claimed \<noteq> None then Some (claimed, s1)
           else if deadline \<le> now s1 then Some (None, s1)
           else claim_until exec now sleep keyPrefix limit workerId runtimeInstanceId deadline fuel
                  (sleep (min 250 (deadline - now s1)) s1)
      else Some (None, s))"

definition claimNextSession ::
    "'s redis \<Rightarrow> ('s \<Rightarrow> nat) \<Rightarrow> (nat \<Rightarrow> 's \<Rightarrow> 's) \<Rightarrow> string \<Rightarrow> nat \<Rightarrow> nat \<Rightarrow> string option \<Rightarrow> string option \<Rightarrow> nat \<Rightarrow> 's \<Rightarrow>
     (string option \<times> 's) option" where
  "claimNextSession exec now sleep keyPrefix limit timeoutMs workerId runtimeInstanceId fuel s =
     claim_until exec now sleep keyPrefix limit (trimmed_option workerId) (trimmed_option runtimeInstanceId)
       (now s + max 1 timeoutMs) fuel s"

definition tryAcquireSessionLock :: "'s redis \<Rightarrow> string \<Rightarrow> string \<Rightarrow> string \<Rightarrow> nat \<Rightarrow> ('s, bool) state" where
  "tryAcquireSessionLock exec keyPrefix sessionId token ttlMs = do {
     result \<leftarrow> redis_call exec (SetNXPX (lockKey keyPrefix sessionId) token ttlMs);
     State_Monad.return (result = ROk)
   }"

definition renewSessionLock :: "'s redis \<Rightarrow> string \<Rightarrow> string \<Rightarrow> string \<Rightarrow> nat \<Rightarrow> ('s, bool) state" where
  "renewSessionLock exec keyPrefix sessionId token ttlMs = do {
     result \<leftarrow> compareAndExpireScript exec [lockKey keyPrefix sessionId] [token] ttlMs;
     State_Monad.return (result = RInt 1)
   }"

definition releaseSessionLock :: "'s redis \<Rightarrow> string \<Rightarrow> string \<Rightarrow> string \<Rightarrow> ('s, bool) state" where
  "releaseSessionLock exec keyPrefix sessionId token = do {
     result \<leftarrow> compareAndDeleteScript exec [lockKey keyPrefix sessionId] [token];
     State_Monad.return (result = RInt 1)
   }"

definition peekRun :: "'s redis \<Rightarrow> string \<Rightarrow> string \<Rightarrow> ('s, string option) state" where
  "peekRun exec keyPrefix sessionId = do {
     runId \<leftarrow> redis_call exec (LIndex (sessionQueueKey keyPrefix sessionId) 0);
     State_Monad.return (string_reply runId)
   }"

definition dequeueRun :: "'s redis \<Rightarrow> string \<Rightarrow> string \<Rightarrow> ('s, string option) state" where
  "dequeueRun exec keyPrefix sessionId = do {
     runId \<leftarrow> dequeueSessionRunScript exec
       [sessionQueueKey keyPrefix sessionId, readyAtKey keyPrefix sessionId, readyPriorityKey keyPrefix sessionId,
        preferredWorkerKey keyPrefix sessionId, readyQueueSetKey keyPrefix] [sessionId];
     State_Monad.return (string_reply runId)
   }"

definition requeueSessionIfPending :: "'s redis \<Rightarrow> string \<Rightarrow> string \<Rightarrow> string option \<Rightarrow> ('s, bool) state" where
  "requeueSessionIfPending exec keyPrefix sessionId preferredWorkerId = do {
     result \<leftarrow> requeuePendingSessionScript exec
       [sessionQueueKey keyPrefix sessionId, readyQueueKey keyPrefix, preferredWorkerKey keyPrefix sessionId,
        readyQueueSetKey keyPrefix] [sessionId, trimmed_option preferredWorkerId];
     State_Monad.return (result = RInt 1)
   }"

definition readyQueueLength :: "'s redis \<Rightarrow> string \<Rightarrow> ('s, nat) state" where
  "readyQueueLength exec keyPrefix = do {
     n \<leftarrow> redis_call exec (LLen (readyQueueKey keyPrefix));
     State_Monad.return (reply_count n)
   }"

definition getSchedulingPressure :: "'s redis \<Rightarrow> string \<Rightarrow> nat \<Rightarrow> nat \<Rightarrow> ('s, scheduling_pressure) state" where
  "getSchedulingPressure exec keyPrefix pressureScanLimit nowMs =
     inspectSchedulingPressureScript exec [readyQueueKey keyPrefix]
       [keyPrefix @ '':session:'', '':queue'', '':lock'', '':ready_at'', '':ready-priority'', js_show nowMs,
        js_show pressureScanLimit, '':preferred-worker''] nowMs pressureScanLimit"

text \<open>
  \<open>inspectReadyQueue\<close> samples the ready list and reports the ages of the sampled entries; the
  average is rounded to the nearest integer, halves upwards.
\<close>

record ready_queue_report =
  rq_length :: nat
  rq_subagentLength :: nat
  rq_oldestReadyAgeMs :: int
  rq_averageReadyAgeMs :: int

definition ready_age :: "nat \<Rightarrow> redis_reply \<Rightarrow> int option" where
  "ready_age nowMs r =
     (case r of RBulk x \<Rightarrow> if x = [] then None else map_option (\<lambda>since. max 0 (int nowMs - since)) (js_parseInt x)
      | _ \<Rightarrow> None)"

definition round_div :: "int \<Rightarrow> int \<Rightarrow> int" where
  "round_div a n = (2 * a + n) div (2 * n)"

definition inspectReadyQueue :: "'s redis \<Rightarrow> string \<Rightarrow> nat \<Rightarrow> nat \<Rightarrow> ('s, ready_queue_report) state" where
  "inspectReadyQueue exec keyPrefix inspectLimit nowMs = do {
     n \<leftarrow> readyQueueLength exec keyPrefix;
     sessionIds \<leftarrow> sample_ready exec (readyQueueKey keyPrefix) (min inspectLimit n);
     if n = 0 \<or> sessionIds = [] then
       State_Monad.return \<lparr>rq_length = n, rq_subagentLength = 0, rq_oldestReadyAgeMs = 0, rq_averageReadyAgeMs = 0\<rparr>
     else do {
       readySinceValues \<leftarrow> redis_call exec (MGet (map (readyAtKey keyPrefix) sessionIds));
       readyPriorityValues \<leftarrow> redis_call exec (MGet (map (readyPriorityKey keyPrefix) sessionIds));
       let ages = List.map_filter (ready_age nowMs) (replies_of readySinceValues);
       let subagents = length (filter (\<lambda>x. x = RBulk ''subagent'') (replies_of readyPriorityValues));
       State_Monad.return
         (if ages = [] then
            \<lparr>rq_length = n, rq_subagentLength = subagents, rq_oldestReadyAgeMs = 0, rq_averageReadyAgeMs = 0\<rparr>
          else
            \<lparr>rq_length = n, rq_subagentLength = subagents, rq_oldestReadyAgeMs = Max (set ages),
             rq_averageReadyAgeMs = round_div (sum_list ages) (int (length ages))\<rparr>)
     }
   }"

subsection \<open>The keys are distinct\<close>

text \<open>Keys of different kinds or of different sessions are different.\<close>

lemmas key_defs = readyQueueKey_def readyQueueSetKey_def sessionQueueKey_def lockKey_def readyPriorityKey_def
  readyAtKey_def preferredWorkerKey_def

lemma last_neq: "last xs \<noteq> last ys \<Longrightarrow> xs \<noteq> ys"
  by auto

lemma queue_keys_distinct [simp]:
  "sessionQueueKey p a = sessionQueueKey p b \<longleftrightarrow> a = b" "lockKey p a = lockKey p b \<longleftrightarrow> a = b"
  "readyPriorityKey p a = readyPriorityKey p b \<longleftrightarrow> a = b" "readyAtKey p a = readyAtKey p b \<longleftrightarrow> a = b"
  "preferredWorkerKey p a = preferredWorkerKey p b \<longleftrightarrow> a = b"
  "sessionQueueKey p a \<noteq> lockKey p b" "lockKey p b \<noteq> sessionQueueKey p a"
  "sessionQueueKey p a \<noteq> readyPriorityKey p b" "readyPriorityKey p b \<noteq> sessionQueueKey p a"
  "sessionQueueKey p a \<noteq> readyAtKey p b" "readyAtKey p b \<noteq> sessionQueueKey p a"
  "sessionQueueKey p a \<noteq> preferredWorkerKey p b" "preferredWorkerKey p b \<noteq> sessionQueueKey p a"
  "lockKey p a \<noteq> readyPriorityKey p b" "readyPriorityKey p b \<noteq> lockKey p a"
  "lockKey p a \<noteq> readyAtKey p b" "readyAtKey p b \<noteq> lockKey p a"
  "lockKey p a \<noteq> preferredWorkerKey p b" "preferredWorkerKey p b \<noteq> lockKey p a"
  "readyPriorityKey p a \<noteq> readyAtKey p b" "readyAtKey p b \<noteq> readyPriorityKey p a"
  "readyPriorityKey p a \<noteq> preferredWorkerKey p b" "preferredWorkerKey p b \<noteq> readyPriorityKey p a"
  "readyAtKey p a \<noteq> preferredWorkerKey p b" "preferredWorkerKey p b \<noteq> readyAtKey p a"
  by (simp_all add: key_defs last_neq)

lemma ready_keys_distinct [simp]:
  "readyQueueKey p \<noteq> readyQueueSetKey p" "readyQueueSetKey p \<noteq> readyQueueKey p"
  "readyQueueKey p \<noteq> sessionQueueKey p a" "sessionQueueKey p a \<noteq> readyQueueKey p"
  "readyQueueKey p \<noteq> lockKey p a" "lockKey p a \<noteq> readyQueueKey p"
  "readyQueueKey p \<noteq> readyPriorityKey p a" "readyPriorityKey p a \<noteq> readyQueueKey p"
  "readyQueueKey p \<noteq> readyAtKey p a" "readyAtKey p a \<noteq> readyQueueKey p"
  "readyQueueKey p \<noteq> preferredWorkerKey p a" "preferredWorkerKey p a \<noteq> readyQueueKey p"
  "readyQueueSetKey p \<noteq> sessionQueueKey p a" "sessionQueueKey p a \<noteq> readyQueueSetKey p"
  "readyQueueSetKey p \<noteq> lockKey p a" "lockKey p a \<noteq> readyQueueSetKey p"
  "readyQueueSetKey p \<noteq> readyPriorityKey p a" "readyPriorityKey p a \<noteq> readyQueueSetKey p"
  "readyQueueSetKey p \<noteq> readyAtKey p a" "readyAtKey p a \<noteq> readyQueueSetKey p"
  "readyQueueSetKey p \<noteq> preferredWorkerKey p a" "preferredWorkerKey p a \<noteq> readyQueueSetKey p"
  by (simp_all add: key_defs)

subsection \<open>The abstract queue\<close>

text \<open>
  What the keys of one prefix mean: the runs queued per session, the ready list and the set of
  its advertised sessions, the three hints of a session, and its lock.
\<close>

record ready_queue =
  aq_now :: nat
  aq_runs :: "string \<Rightarrow> string list"
  aq_ready :: "string list"
  aq_members :: "string set"
  aq_since :: "string \<Rightarrow> string option"
  aq_priority :: "string \<Rightarrow> string option"
  aq_preferred :: "string \<Rightarrow> string option"
  aq_lock :: "string \<Rightarrow> string option"
  aq_deadline :: "string \<Rightarrow> nat option"

definition queue_abs :: "string \<Rightarrow> redis_view \<Rightarrow> ready_queue" where
  "queue_abs p v =
     \<lparr>aq_now = rv_now v,
      aq_runs = (\<lambda>sid. list_at v (sessionQueueKey p sid)),
      aq_ready = list_at v (readyQueueKey p),
      aq_members = set_at v (readyQueueSetKey p),
      aq_since = (\<lambda>sid. string_at v (readyAtKey p sid)),
      aq_priority = (\<lambda>sid. string_at v (readyPriorityKey p sid)),
      aq_preferred = (\<lambda>sid. string_at v (preferredWorkerKey p sid)),
      aq_lock = (\<lambda>sid. string_at v (lockKey p sid)),
      aq_deadline = (\<lambda>sid. rv_deadline (lockKey p sid) v)\<rparr>"

definition queue_keys_ok :: "string \<Rightarrow> redis_view \<Rightarrow> bool" where
  "queue_keys_ok p v \<longleftrightarrow>
     list_slot v (readyQueueKey p) \<and> set_slot v (readyQueueSetKey p) \<and>
     (\<forall>sid. list_slot v (sessionQueueKey p sid) \<and> string_slot v (readyAtKey p sid) \<and>
        string_slot v (readyPriorityKey p sid) \<and> string_slot v (preferredWorkerKey p sid) \<and>
        lease_slot v (lockKey p sid))"

definition string_of :: "string \<Rightarrow> string option" where
  "string_of w = (if w = [] then None else Some w)"

definition advertise :: "bool \<Rightarrow> string \<Rightarrow> ready_queue \<Rightarrow> ready_queue" where
  "advertise first sid a =
     (if sid \<in> aq_members a then a
      else a\<lparr>aq_members := insert sid (aq_members a),
             aq_ready := (if first then sid # aq_ready a else aq_ready a @ [sid])\<rparr>)"

definition aq_enqueue :: "nat \<Rightarrow> string \<Rightarrow> string \<Rightarrow> run_queue_priority \<Rightarrow> string \<Rightarrow> ready_queue \<Rightarrow> ready_queue" where
  "aq_enqueue now sid r priority preferred a =
     (let b = a\<lparr>aq_runs := (aq_runs a)(sid := aq_runs a sid @ [r]),
               aq_preferred := (aq_preferred a)(sid := string_of preferred)\<rparr>
      in if aq_runs a sid = []
         then advertise (priority = PrioritySubagent) sid
                (b\<lparr>aq_since := (aq_since a)(sid := (case aq_since a sid of None \<Rightarrow> Some (js_show now) | Some t \<Rightarrow> Some t)),
                   aq_priority := (aq_priority a)(sid \<mapsto> priority_string priority)\<rparr>)
         else b)"

definition compatible :: "string \<Rightarrow> string \<Rightarrow> ready_queue \<Rightarrow> string \<Rightarrow> bool" where
  "compatible worker runtime a sid \<longleftrightarrow>
     worker = [] \<or> aq_preferred a sid = None \<or> aq_preferred a sid = Some [] \<or>
     aq_preferred a sid = Some worker \<or> (runtime \<noteq> [] \<and> aq_preferred a sid = Some runtime)"

text \<open>The claimed session is the first compatible one among the first \<open>n\<close>; those before it move behind.\<close>

definition aq_claim :: "nat \<Rightarrow> string \<Rightarrow> string \<Rightarrow> ready_queue \<Rightarrow> string option \<times> ready_queue" where
  "aq_claim n worker runtime a =
     (case find_index (compatible worker runtime a) (take n (aq_ready a)) of
        None \<Rightarrow> (None, a\<lparr>aq_ready := rotate (min n (length (aq_ready a))) (aq_ready a)\<rparr>)
      | Some i \<Rightarrow>
          (Some (aq_ready a ! i),
           a\<lparr>aq_ready := drop (Suc i) (aq_ready a) @ take i (aq_ready a),
             aq_members := aq_members a - {aq_ready a ! i}\<rparr>))"

definition aq_dequeue :: "string \<Rightarrow> ready_queue \<Rightarrow> string option \<times> ready_queue" where
  "aq_dequeue sid a =
     (case aq_runs a sid of
        [] \<Rightarrow> (None, a)
      | r # rs \<Rightarrow>
          (Some r,
           if rs = [] then
             a\<lparr>aq_runs := (aq_runs a)(sid := []), aq_since := (aq_since a)(sid := None),
               aq_priority := (aq_priority a)(sid := None), aq_preferred := (aq_preferred a)(sid := None),
               aq_members := aq_members a - {sid}\<rparr>
           else a\<lparr>aq_runs := (aq_runs a)(sid := rs)\<rparr>))"

definition aq_requeue :: "string \<Rightarrow> string \<Rightarrow> ready_queue \<Rightarrow> bool \<times> ready_queue" where
  "aq_requeue sid preferred a =
     (if aq_runs a sid = [] then (False, a)
      else (sid \<notin> aq_members a,
            advertise False sid
              (if preferred = [] then a else a\<lparr>aq_preferred := (aq_preferred a)(sid \<mapsto> preferred)\<rparr>)))"

definition aq_acquire :: "string \<Rightarrow> string \<Rightarrow> nat \<Rightarrow> ready_queue \<Rightarrow> bool \<times> ready_queue" where
  "aq_acquire sid token ttl a =
     (if aq_lock a sid = None
      then (True, a\<lparr>aq_lock := (aq_lock a)(sid := (if ttl = 0 then None else Some token)),
                    aq_deadline := (aq_deadline a)(sid := Some (aq_now a + ttl))\<rparr>)
      else (False, a))"

definition aq_renew :: "string \<Rightarrow> string \<Rightarrow> nat \<Rightarrow> ready_queue \<Rightarrow> bool \<times> ready_queue" where
  "aq_renew sid token ttl a =
     (if aq_lock a sid = Some token
      then (True, a\<lparr>aq_lock := (aq_lock a)(sid := (if ttl = 0 then None else Some token)),
                    aq_deadline := (aq_deadline a)(sid := Some (aq_now a + ttl))\<rparr>)
      else (False, a))"

definition aq_release :: "string \<Rightarrow> string \<Rightarrow> ready_queue \<Rightarrow> bool \<times> ready_queue" where
  "aq_release sid token a =
     (if aq_lock a sid = Some token
      then (True, a\<lparr>aq_lock := (aq_lock a)(sid := None), aq_deadline := (aq_deadline a)(sid := None)\<rparr>)
      else (False, a))"

subsection \<open>Operations of the queue and their meaning\<close>

datatype rq_op =
    OpEnqueue nat string string "run_queue_priority option" "string option"
  | OpClaim string string
  | OpAcquire string string nat
  | OpRenew string string nat
  | OpRelease string string
  | OpPeek string
  | OpDequeue string
  | OpRequeue string "string option"
  | OpReadyLength

datatype rq_result = ResUnit | ResId "string option" | ResBool bool | ResCount nat

fun rq_run :: "'s redis \<Rightarrow> string \<Rightarrow> nat \<Rightarrow> rq_op \<Rightarrow> ('s, rq_result) state" where
  "rq_run exec p limit (OpEnqueue now sid r priority preferred) =
     do { _ \<leftarrow> rq_enqueue exec p now sid r priority preferred; State_Monad.return ResUnit }"
| "rq_run exec p limit (OpClaim worker runtime) =
     do { x \<leftarrow> claimOnce exec p limit worker runtime; State_Monad.return (ResId x) }"
| "rq_run exec p limit (OpAcquire sid token ttl) =
     do { x \<leftarrow> tryAcquireSessionLock exec p sid token ttl; State_Monad.return (ResBool x) }"
| "rq_run exec p limit (OpRenew sid token ttl) =
     do { x \<leftarrow> renewSessionLock exec p sid token ttl; State_Monad.return (ResBool x) }"
| "rq_run exec p limit (OpRelease sid token) =
     do { x \<leftarrow> releaseSessionLock exec p sid token; State_Monad.return (ResBool x) }"
| "rq_run exec p limit (OpPeek sid) =
     do { x \<leftarrow> peekRun exec p sid; State_Monad.return (ResId x) }"
| "rq_run exec p limit (OpDequeue sid) =
     do { x \<leftarrow> dequeueRun exec p sid; State_Monad.return (ResId x) }"
| "rq_run exec p limit (OpRequeue sid preferred) =
     do { x \<leftarrow> requeueSessionIfPending exec p sid preferred; State_Monad.return (ResBool x) }"
| "rq_run exec p limit OpReadyLength =
     do { x \<leftarrow> readyQueueLength exec p; State_Monad.return (ResCount x) }"

definition nonempty_id :: "string option \<Rightarrow> string option" where
  "nonempty_id x = (if x = Some [] then None else x)"

fun aq_step :: "nat \<Rightarrow> rq_op \<Rightarrow> ready_queue \<Rightarrow> rq_result \<times> ready_queue" where
  "aq_step limit (OpEnqueue now sid r priority preferred) a =
     (ResUnit, aq_enqueue now sid r (or_else priority PriorityNormal) (trimmed_option preferred) a)"
| "aq_step limit (OpClaim worker runtime) a =
     apfst (\<lambda>x. ResId (nonempty_id x)) (aq_claim (if limit < 1 then 100 else limit) worker runtime a)"
| "aq_step limit (OpAcquire sid token ttl) a = apfst ResBool (aq_acquire sid token ttl a)"
| "aq_step limit (OpRenew sid token ttl) a = apfst ResBool (aq_renew sid token ttl a)"
| "aq_step limit (OpRelease sid token) a = apfst ResBool (aq_release sid token a)"
| "aq_step limit (OpPeek sid) a =
     (ResId (case aq_runs a sid of [] \<Rightarrow> None | r # rs \<Rightarrow> Some r), a)"
| "aq_step limit (OpDequeue sid) a = apfst ResId (aq_dequeue sid a)"
| "aq_step limit (OpRequeue sid preferred) a = apfst ResBool (aq_requeue sid (trimmed_option preferred) a)"
| "aq_step limit OpReadyLength a = (ResCount (length (aq_ready a)), a)"

subsection \<open>Reads and writes of the queue's keys\<close>

lemma queue_keys_okD:
  assumes "queue_keys_ok p v"
  shows "list_slot v (readyQueueKey p)" "set_slot v (readyQueueSetKey p)" "list_slot v (sessionQueueKey p sid)"
    "lease_slot v (readyAtKey p sid)" "lease_slot v (readyPriorityKey p sid)"
    "lease_slot v (preferredWorkerKey p sid)" "lease_slot v (lockKey p sid)"
  using assms by (auto simp: queue_keys_ok_def intro: string_slot_lease)

lemma string_slot_put_any [simp]:
  "string_slot (put_string k x None v) k' = (k' = k \<or> string_slot v k')"
  by (auto simp: slot_defs put_string_def rv_put_def)

lemma queue_keys_ok_put [simp]:
  assumes "queue_keys_ok p v"
  shows "queue_keys_ok p (put_list (sessionQueueKey p sid) xs v)"
    "queue_keys_ok p (put_list (readyQueueKey p) xs v)"
    "queue_keys_ok p (put_set (readyQueueSetKey p) xs v)"
    "queue_keys_ok p (put_string (readyAtKey p sid) x None v)"
    "queue_keys_ok p (put_string (readyPriorityKey p sid) x None v)"
    "queue_keys_ok p (put_string (preferredWorkerKey p sid) x None v)"
    "queue_keys_ok p (put_string (lockKey p sid) x d v)"
    "queue_keys_ok p (rv_remove ks v)"
  using assms by (auto simp: queue_keys_ok_def)

lemma queue_abs_sel [simp]:
  "aq_now (queue_abs p v) = rv_now v"
  "aq_runs (queue_abs p v) sid = list_at v (sessionQueueKey p sid)"
  "aq_ready (queue_abs p v) = list_at v (readyQueueKey p)"
  "aq_members (queue_abs p v) = set_at v (readyQueueSetKey p)"
  "aq_since (queue_abs p v) sid = string_at v (readyAtKey p sid)"
  "aq_priority (queue_abs p v) sid = string_at v (readyPriorityKey p sid)"
  "aq_preferred (queue_abs p v) sid = string_at v (preferredWorkerKey p sid)"
  "aq_lock (queue_abs p v) sid = string_at v (lockKey p sid)"
  "aq_deadline (queue_abs p v) sid = rv_deadline (lockKey p sid) v"
  by (simp_all add: queue_abs_def)

lemma queue_abs_put [simp]:
  "queue_abs p (put_list (sessionQueueKey p sid) xs v) =
     (queue_abs p v)\<lparr>aq_runs := (aq_runs (queue_abs p v))(sid := xs)\<rparr>"
  "queue_abs p (put_list (readyQueueKey p) xs v) = (queue_abs p v)\<lparr>aq_ready := xs\<rparr>"
  "queue_abs p (put_set (readyQueueSetKey p) xs v) = (queue_abs p v)\<lparr>aq_members := set xs\<rparr>"
  "queue_abs p (put_string (readyAtKey p sid) x None v) =
     (queue_abs p v)\<lparr>aq_since := (aq_since (queue_abs p v))(sid \<mapsto> x)\<rparr>"
  "queue_abs p (put_string (readyPriorityKey p sid) x None v) =
     (queue_abs p v)\<lparr>aq_priority := (aq_priority (queue_abs p v))(sid \<mapsto> x)\<rparr>"
  "queue_abs p (put_string (preferredWorkerKey p sid) x None v) =
     (queue_abs p v)\<lparr>aq_preferred := (aq_preferred (queue_abs p v))(sid \<mapsto> x)\<rparr>"
  "queue_abs p (put_string (lockKey p sid) x (Some d) v) =
     (queue_abs p v)\<lparr>aq_lock := (aq_lock (queue_abs p v))(sid := (if rv_now v < d then Some x else None)),
                     aq_deadline := (aq_deadline (queue_abs p v))(sid := Some d)\<rparr>"
  "queue_abs p (rv_remove [preferredWorkerKey p sid] v) =
     (queue_abs p v)\<lparr>aq_preferred := (aq_preferred (queue_abs p v))(sid := None)\<rparr>"
  "queue_abs p (rv_remove [readyAtKey p sid, readyPriorityKey p sid, preferredWorkerKey p sid] v) =
     (queue_abs p v)\<lparr>aq_since := (aq_since (queue_abs p v))(sid := None),
                     aq_priority := (aq_priority (queue_abs p v))(sid := None),
                     aq_preferred := (aq_preferred (queue_abs p v))(sid := None)\<rparr>"
  "queue_abs p (rv_remove [lockKey p sid] v) =
     (queue_abs p v)\<lparr>aq_lock := (aq_lock (queue_abs p v))(sid := None),
                     aq_deadline := (aq_deadline (queue_abs p v))(sid := None)\<rparr>"
  by (auto simp: queue_abs_def fun_eq_iff)

text \<open>A command on a key of the queue is a read or a write of that key.\<close>

lemmas queue_run = redis_call_def queue_keys_okD list_commands set_commands string_commands

definition means :: "string \<Rightarrow> (redis_view, 'a) state \<Rightarrow> redis_view \<Rightarrow> 'a \<times> ready_queue \<Rightarrow> bool" where
  "means p m v xa \<longleftrightarrow>
     (\<exists>v'. run_state m v = (fst xa, v') \<and> queue_keys_ok p v' \<and> queue_abs p v' = snd xa)"

lemma meansI: "run_state m v = (x, v') \<Longrightarrow> queue_keys_ok p v' \<Longrightarrow> queue_abs p v' = a \<Longrightarrow> means p m v (x, a)"
  by (auto simp: means_def)

lemma means_bind:
  assumes "means p m v (x, a)"
    and "\<And>v'. queue_keys_ok p v' \<Longrightarrow> queue_abs p v' = a \<Longrightarrow> means p (f x) v' yb"
  shows "means p (State_Monad.bind m f) v yb"
  using assms by (fastforce simp: means_def)

lemma means_return: "queue_keys_ok p v \<Longrightarrow> queue_abs p v = a \<Longrightarrow> means p (State_Monad.return x) v (x, a)"
  by (simp add: means_def)

lemma enqueue_means:
  assumes "queue_keys_ok p v"
  shows "means p (rq_enqueue redis_law p now sid r priority preferred) v
    ((), aq_enqueue now sid r (or_else priority PriorityNormal) (trimmed_option preferred) (queue_abs p v))"
  unfolding means_def
  using assms
  by (cases "or_else priority PriorityNormal"; cases "string_at v (readyAtKey p sid)";
      cases "sid \<in> set_at v (readyQueueSetKey p)"; cases "list_at v (sessionQueueKey p sid)")
    (simp_all add: rq_enqueue_def enqueueSessionRunScript_def queue_run aq_enqueue_def advertise_def string_of_def
      priority_string_def fun_upd_idem Let_def)

lemma dequeue_means:
  assumes "queue_keys_ok p v"
  shows "means p (dequeueRun redis_law p sid) v (aq_dequeue sid (queue_abs p v))"
  unfolding means_def
  using assms
  by (cases "sid \<in> set_at v (readyQueueSetKey p)"; cases "list_at v (sessionQueueKey p sid)")
    (auto simp add: dequeueRun_def dequeueSessionRunScript_def queue_run redis_law.simps(7) aq_dequeue_def string_reply_def
      split: list.splits)

lemma requeue_means:
  assumes "queue_keys_ok p v"
  shows "means p (requeueSessionIfPending redis_law p sid preferred) v
    (aq_requeue sid (trimmed_option preferred) (queue_abs p v))"
  unfolding means_def
  using assms
  by (cases "sid \<in> set_at v (readyQueueSetKey p)"; cases "list_at v (sessionQueueKey p sid)")
    (simp_all add: requeueSessionIfPending_def requeuePendingSessionScript_def queue_run aq_requeue_def advertise_def
      reply_count_def)

lemma lock_means:
  assumes "queue_keys_ok p v"
  shows "means p (tryAcquireSessionLock redis_law p sid token ttl) v (aq_acquire sid token ttl (queue_abs p v))"
    and "means p (renewSessionLock redis_law p sid token ttl) v (aq_renew sid token ttl (queue_abs p v))"
    and "means p (releaseSessionLock redis_law p sid token) v (aq_release sid token (queue_abs p v))"
  unfolding means_def
  using assms
  by (cases "string_at v (lockKey p sid)"; simp add: tryAcquireSessionLock_def renewSessionLock_def
      releaseSessionLock_def compareAndExpireScript_def compareAndDeleteScript_def queue_run aq_acquire_def
      aq_renew_def aq_release_def)+

lemma peek_means:
  assumes "queue_keys_ok p v"
  shows "means p (peekRun redis_law p sid) v
      (case list_at v (sessionQueueKey p sid) of [] \<Rightarrow> None | r # rs \<Rightarrow> Some r, queue_abs p v)"
    and "means p (readyQueueLength redis_law p) v (length (list_at v (readyQueueKey p)), queue_abs p v)"
  unfolding means_def
  using assms
  by (cases "list_at v (sessionQueueKey p sid)"; simp add: peekRun_def readyQueueLength_def queue_run string_reply_def
      reply_count_def)+

lemmas preferred_key = preferredWorkerKey_def [simplified, symmetric]

lemma compatible_reply_iff:
  "compatible_reply w rt (case aq_preferred a sid of None \<Rightarrow> RNil | Some x \<Rightarrow> RBulk x) \<longleftrightarrow> compatible w rt a sid"
  by (auto simp: compatible_reply_def compatible_def split: option.splits)

lemma aq_claim_hit:
  assumes "aq_ready a = x # xs" "compatible w rt a x"
  shows "aq_claim (Suc n) w rt a = (Some x, a\<lparr>aq_ready := xs, aq_members := aq_members a - {x}\<rparr>)"
  using assms by (simp add: aq_claim_def)

lemma aq_claim_skip:
  assumes "aq_ready a = x # xs" "\<not> compatible w rt a x" "n \<le> length xs"
  shows "aq_claim (Suc n) w rt a = aq_claim n w rt (a\<lparr>aq_ready := xs @ [x]\<rparr>)"
proof -
  have c: "compatible w rt (a\<lparr>aq_ready := xs @ [x]\<rparr>) = compatible w rt a"
    by (simp add: fun_eq_iff compatible_def)
  show ?thesis
  proof (cases "find_index (compatible w rt a) (take n xs)")
    case None
    then show ?thesis using assms c
      by (simp add: aq_claim_def min_def rotate1_rotate_swap del: find_index_None)
  next
    case (Some i)
    then have "i < n" "i < length xs" using find_index_Some [OF Some] assms(3) by auto
    then show ?thesis using Some assms c
      by (simp add: aq_claim_def nth_append)
  qed
qed

lemma claim_scan_means:
  assumes "queue_keys_ok p v" "n \<le> length (list_at v (readyQueueKey p))"
  shows "means p (claim_scan redis_law [readyQueueKey p, readyQueueSetKey p]
      [p @ '':session:'', '':preferred-worker'', w, rt] n) v (aq_claim n w rt (queue_abs p v))"
  using assms
proof (induction n arbitrary: v)
  case 0
  then show ?case by (simp add: means_def aq_claim_def)
next
  case (Suc n)
  then obtain x xs where xs: "list_at v (readyQueueKey p) = x # xs" "n \<le> length xs"
    by (cases "list_at v (readyQueueKey p)") auto
  note ok = \<open>queue_keys_ok p v\<close>
  have pref: "redis_law (Get (preferredWorkerKey p x)) (put_list (readyQueueKey p) xs v) =
      (case aq_preferred (queue_abs p v) x of None \<Rightarrow> RNil | Some x \<Rightarrow> RBulk x, put_list (readyQueueKey p) xs v)"
    using ok by (simp add: queue_run)
  let ?v = "put_list (readyQueueKey p) (xs @ [x]) (put_list (readyQueueKey p) xs v)"
  show ?case
  proof (cases "compatible w rt (queue_abs p v) x")
    case True
    then show ?thesis
      using xs ok pref aq_claim_hit [of "queue_abs p v" x xs w rt n]
      by (cases "x \<in> set_at v (readyQueueSetKey p)")
        (simp_all add: means_def queue_run preferred_key compatible_reply_iff del: queue_abs_sel(7))
  next
    case False
    have "means p (claim_scan redis_law [readyQueueKey p, readyQueueSetKey p]
        [p @ '':session:'', '':preferred-worker'', w, rt] n) ?v (aq_claim n w rt (queue_abs p ?v))"
      using Suc.IH [of ?v] ok xs(2) by simp
    then show ?thesis
      using False xs ok pref aq_claim_skip [of "queue_abs p v" x xs w rt n]
      by (simp add: means_def queue_run preferred_key compatible_reply_iff del: queue_abs_sel(7))
  qed
qed

lemma aq_claim_min: "aq_claim (min n (length (aq_ready a))) w rt a = aq_claim n w rt a"
  by (auto simp: aq_claim_def min_def simp del: find_index_None split: option.split)

lemma claim_means:
  assumes "queue_keys_ok p v"
  shows "means p (claimOnce redis_law p limit w rt) v
    (apfst nonempty_id (aq_claim (if limit < 1 then 100 else limit) w rt (queue_abs p v)))"
proof -
  let ?n = "if limit < 1 then 100 else limit"
  let ?m = "min ?n (length (list_at v (readyQueueKey p)))"
  have "means p (claim_scan redis_law [readyQueueKey p, readyQueueSetKey p]
      [p @ '':session:'', '':preferred-worker'', w, rt] ?m) v (aq_claim ?n w rt (queue_abs p v))"
    using claim_scan_means [OF assms, of ?m w rt] aq_claim_min [of ?n "queue_abs p v" w rt] by simp
  then show ?thesis
    using assms by (auto simp: means_def claimOnce_def claimCompatibleSessionScript_def queue_run reply_count_def
        nonempty_id_def Let_def)
qed

lemma rq_run_means:
  assumes "queue_keys_ok p v"
  shows "means p (rq_run redis_law p limit op) v (aq_step limit op (queue_abs p v))"
proof (cases op)
  case (OpEnqueue now sid r priority preferred)
  then show ?thesis using enqueue_means [OF assms, of now sid r priority preferred] by (auto simp: means_def)
next
  case (OpClaim worker runtime)
  then show ?thesis using claim_means [OF assms, of limit worker runtime] by (auto simp: means_def apfst_def map_prod_def split: prod.splits)
next
  case (OpAcquire sid token ttl)
  then show ?thesis using lock_means(1) [OF assms, of sid token ttl] by (auto simp: means_def)
next
  case (OpRenew sid token ttl)
  then show ?thesis using lock_means(2) [OF assms, of sid token ttl] by (auto simp: means_def)
next
  case (OpRelease sid token)
  then show ?thesis using lock_means(3) [OF assms, of sid token] by (auto simp: means_def)
next
  case (OpPeek sid)
  then show ?thesis using peek_means(1) [OF assms, of sid] by (auto simp: means_def split: list.splits)
next
  case (OpDequeue sid)
  then show ?thesis using dequeue_means [OF assms, of sid] by (auto simp: means_def)
next
  case (OpRequeue sid preferred)
  then show ?thesis using requeue_means [OF assms, of sid preferred] by (auto simp: means_def)
next
  case OpReadyLength
  then show ?thesis using peek_means(2) [OF assms] by (auto simp: means_def)
qed

text \<open>The same program on any server that keeps the laws.\<close>

context redis_server
begin

lemma tracks_bulk:
  assumes "\<And>x. tracks (f x) (g x)" "tracks m n"
  shows "tracks (case r of RBulk x \<Rightarrow> f x | _ \<Rightarrow> m) (case r of RBulk x \<Rightarrow> g x | _ \<Rightarrow> n)"
  using assms by (cases r) auto

lemmas tracks_rules = tracks_bind tracks_if tracks_bulk tracks_call tracks_return

lemma tracks_claim_scan: "tracks (claim_scan exec ks as n) (claim_scan redis_law ks as n)"
  by (induction n) (simp_all only: claim_scan.simps, (intro tracks_rules | assumption)+)

lemma tracks_rq_run: "tracks (rq_run exec p limit op) (rq_run redis_law p limit op)"
  by (cases op; simp only: rq_run.simps rq_enqueue_def enqueueSessionRunScript_def claimOnce_def
      claimCompatibleSessionScript_def tryAcquireSessionLock_def renewSessionLock_def releaseSessionLock_def
      compareAndExpireScript_def compareAndDeleteScript_def peekRun_def dequeueRun_def dequeueSessionRunScript_def
      requeueSessionIfPending_def requeuePendingSessionScript_def readyQueueLength_def Let_def;
      intro tracks_rules tracks_claim_scan)

end

end
