(* ===== verification/Run_Queue_Safety.thy ===== *)
theory Run_Queue_Safety
  imports Run_Queue
begin

text \<open>
  What the run queue guarantees to the workers that share it: any interleaving of the operations
  of any number of clients, with time passing in between, is a run of the abstract queue; the
  runs of a session leave in the order they came; a claim respects the preferred worker; a session
  lock excludes; and a session with queued runs is advertised until a worker claims it.
\<close>

subsection \<open>Interleaved operations\<close>

datatype rq_event = Do rq_op | Elapse nat

fun rq_exec :: "'s redis \<Rightarrow> (nat \<Rightarrow> 's \<Rightarrow> 's) \<Rightarrow> string \<Rightarrow> nat \<Rightarrow> rq_event list \<Rightarrow> 's \<Rightarrow> rq_result list \<times> 's" where
  "rq_exec exec wait p limit [] s = ([], s)"
| "rq_exec exec wait p limit (Do op # es) s =
     (let (x, s1) = run_state (rq_run exec p limit op) s;
          (xs, s2) = rq_exec exec wait p limit es s1
      in (x # xs, s2))"
| "rq_exec exec wait p limit (Elapse n # es) s = rq_exec exec wait p limit es (wait n s)"

definition aq_elapse :: "nat \<Rightarrow> ready_queue \<Rightarrow> ready_queue" where
  "aq_elapse n a =
     a\<lparr>aq_now := aq_now a + n,
       aq_lock := (\<lambda>sid. case aq_deadline a sid of
                     Some d \<Rightarrow> if d \<le> aq_now a + n then None else aq_lock a sid
                   | None \<Rightarrow> aq_lock a sid)\<rparr>"

fun aq_exec :: "nat \<Rightarrow> rq_event list \<Rightarrow> ready_queue \<Rightarrow> rq_result list \<times> ready_queue" where
  "aq_exec limit [] a = ([], a)"
| "aq_exec limit (Do op # es) a =
     (let (x, b) = aq_step limit op a; (xs, c) = aq_exec limit es b in (x # xs, c))"
| "aq_exec limit (Elapse n # es) a = aq_exec limit es (aq_elapse n a)"

lemma elapse_abs:
  assumes "queue_keys_ok p v"
  shows "queue_keys_ok p (v\<lparr>rv_now := rv_now v + n\<rparr>)"
    and "queue_abs p (v\<lparr>rv_now := rv_now v + n\<rparr>) = aq_elapse n (queue_abs p v)"
proof -
  let ?w = "v\<lparr>rv_now := rv_now v + n\<rparr>"
  show "queue_keys_ok p ?w"
    using assms by (simp add: queue_keys_ok_def slot_defs)
  have plain: "list_slot v k \<Longrightarrow> list_at ?w k = list_at v k" "set_slot v k \<Longrightarrow> set_at ?w k = set_at v k"
    "string_slot v k \<Longrightarrow> string_at ?w k = string_at v k" for k
    by (auto simp: slot_defs at_defs split: option.splits redis_value.splits)
  have lock: "lease_slot v k \<Longrightarrow> string_at ?w k =
      (case rv_deadline k v of Some d \<Rightarrow> if d \<le> rv_now v + n then None else string_at v k | None \<Rightarrow> string_at v k)" for k
    by (auto simp: slot_defs at_defs rv_deadline_def split: option.splits redis_value.splits)
  show "queue_abs p ?w = aq_elapse n (queue_abs p v)"
    using assms by (auto simp: queue_abs_def aq_elapse_def queue_keys_ok_def plain lock rv_deadline_def fun_eq_iff
        split: option.splits)
qed

context redis_clock
begin

lemma rq_exec_abs:
  assumes "queue_keys_ok p (view s)"
  shows "fst (rq_exec exec wait p limit es s) = fst (aq_exec limit es (queue_abs p (view s))) \<and>
    queue_abs p (view (snd (rq_exec exec wait p limit es s))) = snd (aq_exec limit es (queue_abs p (view s))) \<and>
    queue_keys_ok p (view (snd (rq_exec exec wait p limit es s)))"
  using assms
proof (induction es arbitrary: s)
  case (Cons e es)
  show ?case
  proof (cases e)
    case (Do op)
    obtain v' where v': "run_state (rq_run redis_law p limit op) (view s) =
        (fst (aq_step limit op (queue_abs p (view s))), v')" "queue_keys_ok p v'"
        "queue_abs p v' = snd (aq_step limit op (queue_abs p (view s)))"
      using rq_run_means [OF Cons.prems, of limit op] by (auto simp: means_def)
    obtain x s1 where s1: "run_state (rq_run exec p limit op) s = (x, s1)" by fastforce
    have "x = fst (aq_step limit op (queue_abs p (view s)))" "view s1 = v'"
      using tracks_run [OF tracks_rq_run v'(1)] s1 by auto
    then show ?thesis
      using Cons.IH [of s1] v' s1 Do by (auto split: prod.splits)
  next
    case (Elapse n)
    then show ?thesis
      using Cons.IH [of "wait n s"] Cons.prems by (simp add: wait_view elapse_abs)
  qed
qed simp

end

subsection \<open>The abstract queue implements the keys\<close>

text \<open>
  C1: any interleaving of the operations of the run queue, by any number of clients and with any
  passing of time, returns what the abstract queue returns, and leaves the keys of the queue
  meaning what the abstract queue then holds; every key keeps holding a value of its kind.
\<close>

theorem run_queue_refines:
  assumes "redis_clock exec view wait" "queue_keys_ok p (view s)"
    and "rq_exec exec wait p limit es s = (xs, t)"
  shows "aq_exec limit es (queue_abs p (view s)) = (xs, queue_abs p (view t)) \<and> queue_keys_ok p (view t)"
  using redis_clock.rq_exec_abs [OF assms(1,2), of limit es] assms(3) by (auto simp: prod_eq_iff)

subsection \<open>The runs of a session are first in, first out\<close>

definition rq_ops :: "rq_event list \<Rightarrow> rq_op list" where
  "rq_ops es = List.map_filter (\<lambda>e. case e of Do op \<Rightarrow> Some op | Elapse n \<Rightarrow> None) es"

definition op_in :: "string \<Rightarrow> rq_op \<Rightarrow> string list" where
  "op_in sid op = (case op of OpEnqueue now s r priority preferred \<Rightarrow> if s = sid then [r] else [] | _ \<Rightarrow> [])"

definition op_out :: "string \<Rightarrow> rq_op \<Rightarrow> rq_result \<Rightarrow> string list" where
  "op_out sid op x =
     (case op of
        OpDequeue s \<Rightarrow> (case x of ResId (Some r) \<Rightarrow> if s = sid then [r] else [] | _ \<Rightarrow> [])
      | _ \<Rightarrow> [])"

definition runs_in :: "string \<Rightarrow> rq_event list \<Rightarrow> string list" where
  "runs_in sid es = concat (map (op_in sid) (rq_ops es))"

definition runs_out :: "string \<Rightarrow> rq_event list \<Rightarrow> rq_result list \<Rightarrow> string list" where
  "runs_out sid es xs = concat (map (\<lambda>(op, x). op_out sid op x) (zip (rq_ops es) xs))"

lemma rq_ops_simps [simp]:
  "rq_ops [] = []" "rq_ops (Do op # es) = op # rq_ops es" "rq_ops (Elapse n # es) = rq_ops es"
  by (simp_all add: rq_ops_def map_filter_simps)

lemma aq_runs_advertise [simp]: "aq_runs (advertise first sid a) = aq_runs a"
  by (simp add: advertise_def)

lemma aq_step_runs:
  "aq_runs a sid @ op_in sid op = op_out sid op (fst (aq_step limit op a)) @ aq_runs (snd (aq_step limit op a)) sid"
  by (cases op) (auto simp: op_in_def op_out_def aq_enqueue_def aq_claim_def aq_acquire_def aq_renew_def aq_release_def
      aq_dequeue_def aq_requeue_def Let_def split: option.splits list.splits)

lemma aq_exec_runs:
  "aq_exec limit es a = (xs, b) \<Longrightarrow> aq_runs a sid @ runs_in sid es = runs_out sid es xs @ aq_runs b sid"
proof (induction es arbitrary: a xs)
  case (Cons e es)
  show ?case
  proof (cases e)
    case (Do op)
    with Cons.prems obtain c ys where c: "snd (aq_step limit op a) = c" "aq_exec limit es c = (ys, b)"
      "xs = fst (aq_step limit op a) # ys"
      by (auto split: prod.splits)
    show ?thesis
      using Cons.IH [OF c(2)] aq_step_runs [of a sid op limit] Do c
      by (simp add: runs_in_def runs_out_def) (metis append.assoc)
  next
    case (Elapse n)
    with Cons.IH [of "aq_elapse n a" xs] Cons.prems show ?thesis
      by (simp add: runs_in_def runs_out_def aq_elapse_def)
  qed
qed (simp add: runs_in_def runs_out_def)

text \<open>
  C18: whoever enqueues, claims and dequeues, the runs of a session leave its queue in the order
  they entered it, and none is lost or invented: the runs dequeued so far followed by the runs
  still queued are the runs queued at the start followed by the runs enqueued since.
\<close>

theorem session_runs_are_fifo:
  assumes "redis_clock exec view wait" "queue_keys_ok p (view s)"
    and "rq_exec exec wait p limit es s = (xs, t)"
  shows "list_at (view s) (sessionQueueKey p sid) @ runs_in sid es =
    runs_out sid es xs @ list_at (view t) (sessionQueueKey p sid)"
proof -
  have "aq_exec limit es (queue_abs p (view s)) = (xs, queue_abs p (view t))"
    using redis_clock.rq_exec_abs [OF assms(1,2), of limit es] assms(3) by (auto simp: prod_eq_iff)
  from aq_exec_runs [OF this, of sid] show ?thesis by simp
qed

subsection \<open>Claims\<close>

definition prefers :: "redis_view \<Rightarrow> string \<Rightarrow> string \<Rightarrow> string" where
  "prefers v p sid = or_else (string_at v (preferredWorkerKey p sid)) []"

lemma compatible_iff:
  "compatible w rt (queue_abs p v) sid \<longleftrightarrow>
     w = [] \<or> prefers v p sid = [] \<or> prefers v p sid = w \<or> (rt \<noteq> [] \<and> prefers v p sid = rt)"
  by (auto simp: compatible_def prefers_def or_else_def split: option.splits)

lemma aq_claim_Some:
  assumes "aq_claim n w rt a = (Some sid, b)"
  shows "\<exists>i. i < n \<and> i < length (aq_ready a) \<and> aq_ready a ! i = sid \<and> compatible w rt a sid \<and>
    (\<forall>j<i. \<not> compatible w rt a (aq_ready a ! j)) \<and> aq_members b = aq_members a - {sid} \<and>
    aq_ready b = drop (Suc i) (aq_ready a) @ take i (aq_ready a)"
proof (cases "find_index (compatible w rt a) (take n (aq_ready a))")
  case None
  then show ?thesis using assms by (simp add: aq_claim_def del: find_index_None)
next
  case (Some i)
  then show ?thesis using assms find_index_Some [OF Some]
    by (intro exI [of _ i]) (auto simp: aq_claim_def)
qed

lemma aq_claim_None:
  assumes "aq_claim n w rt a = (None, b)"
  shows "(\<forall>j<min n (length (aq_ready a)). \<not> compatible w rt a (aq_ready a ! j)) \<and>
    set (aq_ready b) = set (aq_ready a) \<and> aq_members b = aq_members a"
proof (cases "find_index (compatible w rt a) (take n (aq_ready a))")
  case None
  then have skip: "\<not> compatible w rt a x" if "x \<in> set (take n (aq_ready a))" for x
    using that by simp
  have "\<not> compatible w rt a (aq_ready a ! j)" if "j < n" "j < length (aq_ready a)" for j
  proof (rule skip)
    show "aq_ready a ! j \<in> set (take n (aq_ready a))"
      using that by (auto simp: in_set_conv_nth intro: exI [of _ j])
  qed
  then show ?thesis using assms None
    by (auto simp: aq_claim_def simp del: find_index_None)
next
  case (Some i)
  then show ?thesis using assms by (simp add: aq_claim_def)
qed

lemma aq_claim_members:
  assumes "aq_claim n a b q = (found, q')" "aq_members q \<subseteq> set (aq_ready q)"
  shows "aq_members q' \<subseteq> set (aq_ready q')"
    and "sid \<in> aq_members q \<Longrightarrow> sid \<in> aq_members q' \<or> found = Some sid"
proof -
  have "aq_members q' \<subseteq> set (aq_ready q') \<and> (sid \<in> aq_members q \<longrightarrow> sid \<in> aq_members q' \<or> found = Some sid)" for sid
  proof (cases found)
    case None
    from aq_claim_None [OF assms(1) [unfolded None]] have "set (aq_ready q') = set (aq_ready q)" "aq_members q' = aq_members q"
      by auto
    with assms(2) show ?thesis by simp
  next
    case (Some y)
    from aq_claim_Some [OF assms(1) [unfolded Some]] obtain i where i: "i < length (aq_ready q)" "aq_ready q ! i = y"
      "aq_members q' = aq_members q - {y}" "aq_ready q' = drop (Suc i) (aq_ready q) @ take i (aq_ready q)" by auto
    have "set (aq_ready q) = insert y (set (aq_ready q'))"
      using arg_cong [OF id_take_nth_drop [OF i(1)], of set] by (simp add: i(2,4) Un_commute)
    with assms(2) i(3) Some show ?thesis by auto
  qed
  then show "aq_members q' \<subseteq> set (aq_ready q')" "sid \<in> aq_members q \<Longrightarrow> sid \<in> aq_members q' \<or> found = Some sid"
    by blast+
qed

context redis_server
begin

lemma claimOnce_abs:
  assumes "queue_keys_ok p (view s)" "run_state (claimOnce exec p limit w rt) s = (x, t)"
  shows "apfst nonempty_id (aq_claim (if limit < 1 then 100 else limit) w rt (queue_abs p (view s))) =
    (x, queue_abs p (view t)) \<and> queue_keys_ok p (view t)"
proof -
  have "run_state (rq_run exec p limit (OpClaim w rt)) s = (ResId x, t)"
    using assms(2) by simp
  moreover obtain v' where v': "run_state (rq_run redis_law p limit (OpClaim w rt)) (view s) =
      (fst (aq_step limit (OpClaim w rt) (queue_abs p (view s))), v')" "queue_keys_ok p v'"
      "queue_abs p v' = snd (aq_step limit (OpClaim w rt) (queue_abs p (view s)))"
    using rq_run_means [OF assms(1), of limit "OpClaim w rt"] by (auto simp: means_def)
  ultimately have "ResId x = fst (aq_step limit (OpClaim w rt) (queue_abs p (view s)))" "view t = v'"
    using tracks_run [OF tracks_rq_run v'(1)] by auto
  with v' show ?thesis by (auto simp: prod_eq_iff)
qed

end

text \<open>
  A worker only claims a session it may run. A claim returns the first session of the ready
  list, within the scan limit, that prefers no worker, this worker or this worker's runtime; it
  withdraws exactly that session from the ready list and the ready set, and the sessions before it,
  which are all for other workers, go behind the rest.
\<close>

theorem claim_respects_preferred_worker:
  assumes "redis_server exec view" "queue_keys_ok p (view s)" "0 < limit"
    and "run_state (claimOnce exec p limit worker runtime) s = (Some sid, t)"
  shows "\<exists>i. i < limit \<and> i < length (list_at (view s) (readyQueueKey p)) \<and>
      list_at (view s) (readyQueueKey p) ! i = sid \<and>
      (worker = [] \<or> prefers (view s) p sid \<in> {[], worker, runtime}) \<and>
      (\<forall>j<i. let other = prefers (view s) p (list_at (view s) (readyQueueKey p) ! j)
             in worker \<noteq> [] \<and> other \<noteq> [] \<and> other \<noteq> worker \<and> (runtime = [] \<or> other \<noteq> runtime)) \<and>
      list_at (view t) (readyQueueKey p) =
        drop (Suc i) (list_at (view s) (readyQueueKey p)) @ take i (list_at (view s) (readyQueueKey p)) \<and>
      set_at (view t) (readyQueueSetKey p) = set_at (view s) (readyQueueSetKey p) - {sid}"
proof -
  obtain b where b: "aq_claim limit worker runtime (queue_abs p (view s)) = (Some sid, b)" "b = queue_abs p (view t)"
    using redis_server.claimOnce_abs [OF assms(1,2,4)] assms(3)
    by (cases "aq_claim limit worker runtime (queue_abs p (view s))")
      (auto simp: nonempty_id_def split: if_splits)
  from aq_claim_Some [OF b(1)] show ?thesis
    unfolding b(2) compatible_iff Let_def by (elim exE, intro exI) auto
qed

subsection \<open>Session locks\<close>

definition lock_op :: "string \<Rightarrow> rq_op \<Rightarrow> bool" where
  "lock_op sid op =
     (case op of OpAcquire s token ttl \<Rightarrow> s = sid | OpRenew s token ttl \<Rightarrow> s = sid
      | OpRelease s token \<Rightarrow> s = sid | _ \<Rightarrow> False)"

definition lock_op_of :: "string \<Rightarrow> string \<Rightarrow> rq_op \<Rightarrow> bool" where
  "lock_op_of sid t op =
     (case op of OpRenew s token ttl \<Rightarrow> s = sid \<and> token = t | OpRelease s token \<Rightarrow> s = sid \<and> token = t
      | _ \<Rightarrow> False)"

definition elapsed :: "rq_event list \<Rightarrow> nat" where
  "elapsed es = sum_list (map (\<lambda>e. case e of Do op \<Rightarrow> 0 | Elapse n \<Rightarrow> n) es)"

definition held_until :: "string \<Rightarrow> string \<Rightarrow> nat \<Rightarrow> ready_queue \<Rightarrow> bool" where
  "held_until sid t d a \<longleftrightarrow> aq_lock a sid = Some t \<and> aq_deadline a sid = Some d \<and> aq_now a < d"

lemma aq_lock_advertise [simp]:
  "aq_lock (advertise first sid a) = aq_lock a" "aq_deadline (advertise first sid a) = aq_deadline a"
  "aq_now (advertise first sid a) = aq_now a"
  by (simp_all add: advertise_def)

lemma held_acquire:
  assumes "aq_acquire sid token ttl a = (True, b)" "0 < ttl"
  shows "held_until sid token (aq_now b + ttl) b"
  using assms by (auto simp: aq_acquire_def held_until_def split: if_splits)

lemma held_step:
  assumes "held_until sid t d a" "\<not> lock_op_of sid t op"
  shows "held_until sid t d (snd (aq_step limit op a)) \<and> aq_now (snd (aq_step limit op a)) = aq_now a \<and>
    (lock_op sid op \<longrightarrow> fst (aq_step limit op a) = ResBool False)"
  using assms
  by (cases op) (auto simp: held_until_def lock_op_of_def lock_op_def aq_enqueue_def aq_claim_def aq_acquire_def
      aq_renew_def aq_release_def aq_dequeue_def aq_requeue_def Let_def split: option.splits list.splits)

lemma held_exec:
  assumes "aq_exec limit es a = (xs, b)" "held_until sid t d a" "aq_now a + elapsed es < d"
    and "\<forall>op \<in> set (rq_ops es). \<not> lock_op_of sid t op"
  shows "held_until sid t d b \<and> (\<forall>(op, x) \<in> set (zip (rq_ops es) xs). lock_op sid op \<longrightarrow> x = ResBool False)"
  using assms
proof (induction es arbitrary: a xs)
  case (Cons e es)
  show ?case
  proof (cases e)
    case (Do op)
    with Cons.prems(1) obtain c ys where c: "snd (aq_step limit op a) = c" "aq_exec limit es c = (ys, b)"
      "xs = fst (aq_step limit op a) # ys"
      by (auto split: prod.splits)
    have h: "held_until sid t d c" "aq_now c = aq_now a" "lock_op sid op \<longrightarrow> fst (aq_step limit op a) = ResBool False"
      using held_step [OF Cons.prems(2), of op limit] Cons.prems(4) Do c(1) by auto
    have "held_until sid t d b \<and> (\<forall>(op, x) \<in> set (zip (rq_ops es) ys). lock_op sid op \<longrightarrow> x = ResBool False)"
      by (rule Cons.IH [OF c(2) h(1)]) (use Cons.prems(3,4) h(2) Do in \<open>auto simp: elapsed_def\<close>)
    with h(3) show ?thesis using Do c(3) by auto
  next
    case (Elapse n)
    have "held_until sid t d (aq_elapse n a)"
      using Cons.prems(2,3) Elapse by (auto simp: held_until_def aq_elapse_def elapsed_def)
    with Cons.IH [of "aq_elapse n a" xs] Cons.prems Elapse show ?thesis
      by (simp add: aq_elapse_def elapsed_def add.assoc)
  qed
qed simp

text \<open>
  C19: the session lock excludes. After a worker has acquired the lock of a session with a time to
  live, and as long as less time has passed and it has neither renewed nor released the lock, it
  still holds it, every other attempt to acquire it fails, and renewing or releasing it with
  another token fails, whatever else any client does.
\<close>

theorem session_lock_excludes:
  assumes "redis_clock exec view wait" "queue_keys_ok p (view s)"
    and "run_state (tryAcquireSessionLock exec p sid token ttl) s = (True, s1)"
    and "rq_exec exec wait p limit es s1 = (xs, t)" "elapsed es < ttl"
    and "\<forall>op \<in> set (rq_ops es). \<not> lock_op_of sid token op"
  shows "string_at (view t) (lockKey p sid) = Some token \<and>
    (\<forall>(op, x) \<in> set (zip (rq_ops es) xs). lock_op sid op \<longrightarrow> x = ResBool False)"
proof -
  have 1: "rq_exec exec wait p limit [Do (OpAcquire sid token ttl)] s = ([ResBool True], s1)"
    using assms(3) by simp
  have r1: "aq_acquire sid token ttl (queue_abs p (view s)) = (True, queue_abs p (view s1))" "queue_keys_ok p (view s1)"
    using redis_clock.rq_exec_abs [OF assms(1,2), of limit "[Do (OpAcquire sid token ttl)]", unfolded 1]
    by (auto simp: prod_eq_iff split: prod.splits)
  have held: "held_until sid token (rv_now (view s1) + ttl) (queue_abs p (view s1))"
    using held_acquire [OF r1(1)] assms(5) by simp
  have "aq_exec limit es (queue_abs p (view s1)) = (xs, queue_abs p (view t))"
    using redis_clock.rq_exec_abs [OF assms(1) r1(2), of limit es] assms(4) by (auto simp: prod_eq_iff)
  from held_exec [OF this held] assms(5,6) show ?thesis
    by (simp add: held_until_def)
qed

subsection \<open>Sessions with queued runs are advertised\<close>

definition hides :: "string \<Rightarrow> bool \<Rightarrow> rq_op \<Rightarrow> rq_result \<Rightarrow> bool" where
  "hides sid h op x =
     (case op of
        OpClaim worker runtime \<Rightarrow> (if x = ResId (Some sid) then True else h)
      | OpRequeue s preferred \<Rightarrow> (if s = sid then False else h)
      | _ \<Rightarrow> h)"

definition claimed :: "string \<Rightarrow> rq_event list \<Rightarrow> rq_result list \<Rightarrow> bool" where
  "claimed sid es xs = foldl (\<lambda>h (op, x). hides sid h op x) False (zip (rq_ops es) xs)"

definition advertised :: "string \<Rightarrow> bool \<Rightarrow> ready_queue \<Rightarrow> bool" where
  "advertised sid h a \<longleftrightarrow>
     aq_members a \<subseteq> set (aq_ready a) \<and> (aq_runs a sid \<noteq> [] \<and> \<not> h \<longrightarrow> sid \<in> aq_members a)"

lemma advertised_claim:
  assumes "advertised sid h a" "aq_claim n w rt a = (x, b)" "sid \<noteq> []"
  shows "advertised sid (if nonempty_id x = Some sid then True else h) b"
proof -
  have "aq_runs b = aq_runs a" using assms(2) by (auto simp: aq_claim_def split: option.splits)
  with aq_claim_members(1) [OF assms(2)] aq_claim_members(2) [OF assms(2), of sid] assms(1,3) show ?thesis
    by (cases x) (auto simp: advertised_def nonempty_id_def)
qed

lemma advertised_step:
  assumes "advertised sid h a" "sid \<noteq> []"
  shows "advertised sid (hides sid h op (fst (aq_step limit op a))) (snd (aq_step limit op a))"
proof (cases op)
  case (OpClaim w rt)
  then show ?thesis using advertised_claim [OF assms(1) _ assms(2)]
    by (cases "aq_claim (if limit < 1 then 100 else limit) w rt a") (auto simp: hides_def)
qed (use assms in \<open>auto simp: hides_def advertised_def aq_enqueue_def advertise_def aq_dequeue_def aq_requeue_def
    aq_acquire_def aq_renew_def aq_release_def Let_def split: list.splits\<close>)

lemma advertised_exec:
  assumes "aq_exec limit es a = (xs, b)" "advertised sid h a" "sid \<noteq> []"
  shows "advertised sid (foldl (\<lambda>h (op, x). hides sid h op x) h (zip (rq_ops es) xs)) b"
  using assms
proof (induction es arbitrary: a xs h)
  case (Cons e es)
  show ?case
  proof (cases e)
    case (Do op)
    with Cons.prems(1) obtain c ys where c: "snd (aq_step limit op a) = c" "aq_exec limit es c = (ys, b)"
      "xs = fst (aq_step limit op a) # ys"
      by (auto split: prod.splits)
    show ?thesis
      using Cons.IH [OF c(2) _ Cons.prems(3)] advertised_step [OF Cons.prems(2,3), of op limit] c Do by auto
  next
    case (Elapse n)
    with Cons.IH [of "aq_elapse n a" xs h] Cons.prems show ?thesis
      by (simp add: advertised_def aq_elapse_def)
  qed
qed simp

text \<open>
  C20: no session with queued runs is forgotten by the queue. Starting from an empty queue, after
  any interleaving of operations a session that has queued runs is in the ready set and in the
  ready list, unless a worker has claimed it and not handed it back since.
\<close>

theorem pending_session_is_advertised:
  assumes "redis_clock exec view wait" "rv_keys (view s) = (\<lambda>_. None)"
    and "rq_exec exec wait p limit es s = (xs, t)" "sid \<noteq> []"
    and "list_at (view t) (sessionQueueKey p sid) \<noteq> []" "\<not> claimed sid es xs"
  shows "sid \<in> set_at (view t) (readyQueueSetKey p) \<and> sid \<in> set (list_at (view t) (readyQueueKey p))"
proof -
  have ok: "queue_keys_ok p (view s)" using assms(2) by (simp add: queue_keys_ok_def slot_defs)
  have start: "advertised sid False (queue_abs p (view s))"
    using assms(2) by (simp add: advertised_def at_defs)
  have "aq_exec limit es (queue_abs p (view s)) = (xs, queue_abs p (view t))"
    using redis_clock.rq_exec_abs [OF assms(1) ok, of limit es] assms(3) by (auto simp: prod_eq_iff)
  from advertised_exec [OF this start assms(4)] assms(5,6) show ?thesis
    by (auto simp: advertised_def claimed_def)
qed

subsection \<open>An example\<close>

text \<open>
  Two sessions, the first preferring worker \<open>w2\<close>: worker \<open>w1\<close> is offered the second one,
  worker \<open>w2\<close> takes the first, locks it, runs its two runs and releases it; in the meantime
  \<open>w1\<close> tries the lock in vain.
\<close>

definition queue_example :: "rq_event list" where
  "queue_example =
     [Do (OpEnqueue 5 ''s1'' ''r1'' None (Some ''w2'')),
      Do (OpEnqueue 6 ''s1'' ''r2'' None (Some ''w2'')),
      Do (OpEnqueue 7 ''s2'' ''r3'' (Some PrioritySubagent) None),
      Elapse 10,
      Do (OpClaim ''w1'' []),
      Do (OpClaim ''w2'' []),
      Do (OpDequeue ''s1'')]"

definition lock_example :: "rq_event list" where
  "lock_example =
     [Do (OpAcquire ''s1'' ''w1:l2'' 30), Elapse 20, Do (OpRelease ''s1'' ''w1:l2''), Do (OpDequeue ''s1'')]"

lemma run_queue_refines_witness:
  "aq_exec 100 queue_example (queue_abs ''oah'' (redis_empty 0)) =
     (fst (rq_exec redis_law redis_wait ''oah'' 100 queue_example (redis_empty 0)),
      queue_abs ''oah'' (snd (rq_exec redis_law redis_wait ''oah'' 100 queue_example (redis_empty 0)))) \<and>
   queue_keys_ok ''oah'' (snd (rq_exec redis_law redis_wait ''oah'' 100 queue_example (redis_empty 0)))"
  by (rule run_queue_refines [where view = "\<lambda>v. v", OF redis_model.redis_clock_axioms])
    (simp_all add: redis_empty_def queue_keys_ok_def slot_defs)

lemma session_runs_are_fifo_witness:
  "runs_out ''s1'' queue_example (fst (rq_exec redis_law redis_wait ''oah'' 100 queue_example (redis_empty 0))) = [''r1''] \<and>
   runs_in ''s1'' queue_example = [''r1'', ''r2''] \<and>
   list_at (snd (rq_exec redis_law redis_wait ''oah'' 100 queue_example (redis_empty 0))) (sessionQueueKey ''oah'' ''s1'') = [''r2'']"
proof -
  let ?e = "rq_exec redis_law redis_wait ''oah'' 100 queue_example (redis_empty 0)"
  have "list_at (redis_empty 0) (sessionQueueKey ''oah'' ''s1'') @ runs_in ''s1'' queue_example =
      runs_out ''s1'' queue_example (fst ?e) @ list_at (snd ?e) (sessionQueueKey ''oah'' ''s1'')"
    by (rule session_runs_are_fifo [where view = "\<lambda>v. v", OF redis_model.redis_clock_axioms])
      (simp_all add: redis_empty_def queue_keys_ok_def slot_defs)
  moreover have "list_at (redis_empty 0) (sessionQueueKey ''oah'' ''s1'') = []"
    "runs_in ''s1'' queue_example = [''r1'', ''r2'']" "runs_out ''s1'' queue_example (fst ?e) = [''r1'']"
    by code_simp+
  ultimately show ?thesis by simp
qed

definition queue_example_state :: redis_view where
  "queue_example_state = snd (rq_exec redis_law redis_wait ''oah'' 100 (take 4 queue_example) (redis_empty 0))"

lemma queue_example_ok: "queue_keys_ok ''oah'' queue_example_state"
  unfolding queue_example_state_def
  by (rule redis_model.rq_exec_abs [THEN conjunct2, THEN conjunct2])
    (simp add: redis_empty_def queue_keys_ok_def slot_defs)

lemma claim_respects_preferred_worker_witness:
  "\<exists>t i. run_state (claimOnce redis_law ''oah'' 100 ''w1'' []) queue_example_state = (Some ''s2'', t) \<and>
     list_at queue_example_state (readyQueueKey ''oah'') ! i = ''s2'' \<and>
     prefers queue_example_state ''oah'' ''s2'' \<in> {[], ''w1'', []}"
proof -
  let ?r = "run_state (claimOnce redis_law ''oah'' 100 ''w1'' []) queue_example_state"
  have "fst ?r = Some ''s2''" by code_simp
  then have r: "?r = (Some ''s2'', snd ?r)" by (simp add: prod_eq_iff)
  from claim_respects_preferred_worker [where view = "\<lambda>v. v", OF redis_model.redis_server_axioms queue_example_ok _ r]
  show ?thesis using r by (auto simp del: run_state_bind)
qed

lemma session_lock_excludes_witness:
  "\<exists>s1 xs t. run_state (tryAcquireSessionLock redis_law ''oah'' ''s1'' ''w2:l1'' 30) queue_example_state = (True, s1) \<and>
     rq_exec redis_law redis_wait ''oah'' 100 lock_example s1 = (xs, t) \<and>
     string_at t (lockKey ''oah'' ''s1'') = Some ''w2:l1'' \<and> xs = [ResBool False, ResBool False, ResId (Some ''r1'')]"
proof -
  let ?r = "run_state (tryAcquireSessionLock redis_law ''oah'' ''s1'' ''w2:l1'' 30) queue_example_state"
  let ?e = "rq_exec redis_law redis_wait ''oah'' 100 lock_example (snd ?r)"
  have "fst ?r" by code_simp
  then have r: "?r = (True, snd ?r)" by (simp add: prod_eq_iff)
  have e: "?e = (fst ?e, snd ?e)" by simp
  have l: "elapsed lock_example < 30" "\<forall>op \<in> set (rq_ops lock_example). \<not> lock_op_of ''s1'' ''w2:l1'' op"
    by code_simp+
  have "string_at (snd ?e) (lockKey ''oah'' ''s1'') = Some ''w2:l1''"
    using session_lock_excludes [where view = "\<lambda>v. v", OF redis_model.redis_clock_axioms queue_example_ok r e l]
    by blast
  moreover have "fst ?e = [ResBool False, ResBool False, ResId (Some ''r1'')]" by code_simp
  ultimately show ?thesis using r e by blast
qed

lemma pending_session_is_advertised_witness:
  "''s2'' \<in> set_at queue_example_state (readyQueueSetKey ''oah'') \<and>
   ''s2'' \<in> set (list_at queue_example_state (readyQueueKey ''oah''))"
proof -
  let ?e = "rq_exec redis_law redis_wait ''oah'' 100 (take 4 queue_example) (redis_empty 0)"
  have e: "?e = (fst ?e, queue_example_state)" by (simp add: queue_example_state_def)
  have "list_at queue_example_state (sessionQueueKey ''oah'' ''s2'') \<noteq> []"
    "\<not> claimed ''s2'' (take 4 queue_example) (fst ?e)" by code_simp+
  then show ?thesis
    using pending_session_is_advertised [where view = "\<lambda>v. v", OF redis_model.redis_clock_axioms _ e]
    by (simp add: redis_empty_def)
qed

text \<open>
  A claimed session is not advertised again by a later \<open>enqueue\<close> while runs are left in its
  queue: only \<open>requeueSessionIfPending\<close> hands it back.
\<close>

lemma claimed_session_stays_hidden:
  assumes "queue_keys_ok p v" "list_at v (sessionQueueKey p sid) \<noteq> []"
  shows "set_at (snd (run_state (rq_enqueue redis_law p now sid r priority preferred) v)) (readyQueueSetKey p) =
    set_at v (readyQueueSetKey p)"
proof -
  from enqueue_means [OF assms(1), of now sid r priority preferred] obtain v' where
    v': "run_state (rq_enqueue redis_law p now sid r priority preferred) v = ((), v')"
    "queue_abs p v' = aq_enqueue now sid r (or_else priority PriorityNormal) (trimmed_option preferred) (queue_abs p v)"
    by (auto simp: means_def)
  have "aq_members (queue_abs p v') = aq_members (queue_abs p v)"
    unfolding v'(2) using assms(2) by (simp add: aq_enqueue_def Let_def)
  with v'(1) show ?thesis by simp
qed

end
