(* ===== verification/Run_Queue_Pressure.thy ===== *)
theory Run_Queue_Pressure
  imports Run_Queue_Safety
begin

text \<open>
  The reports of the run queue: what the counters of \<open>getSchedulingPressure\<close> mean, and that a
  polling \<open>claimNextSession\<close> returns by its deadline.
\<close>

subsection \<open>Scheduling pressure\<close>

definition is_subagent :: "redis_view \<Rightarrow> string \<Rightarrow> string \<Rightarrow> bool" where
  "is_subagent v p sid \<longleftrightarrow> string_at v (readyPriorityKey p sid) = Some ''subagent''"

definition is_stale :: "redis_view \<Rightarrow> string \<Rightarrow> string \<Rightarrow> bool" where
  "is_stale v p sid \<longleftrightarrow> list_at v (sessionQueueKey p sid) = []"

definition is_locked :: "redis_view \<Rightarrow> string \<Rightarrow> string \<Rightarrow> bool" where
  "is_locked v p sid \<longleftrightarrow> \<not> is_stale v p sid \<and> string_at v (lockKey p sid) \<noteq> None"

definition is_schedulable :: "redis_view \<Rightarrow> string \<Rightarrow> string \<Rightarrow> bool" where
  "is_schedulable v p sid \<longleftrightarrow> \<not> is_stale v p sid \<and> string_at v (lockKey p sid) = None"

definition pressure_args :: "string \<Rightarrow> nat \<Rightarrow> nat \<Rightarrow> string list" where
  "pressure_args p nowMs limit =
     [p @ '':session:'', '':queue'', '':lock'', '':ready_at'', '':ready-priority'', js_show nowMs,
      js_show limit, '':preferred-worker'']"

definition adds :: "nat \<Rightarrow> string list \<Rightarrow> string list \<Rightarrow> (string \<Rightarrow> bool) \<Rightarrow> nat \<Rightarrow> bool" where
  "adds n entries seen P m \<longleftrightarrow> m = n + card {x \<in> set entries - set seen. P x}"

lemmas session_keys = sessionQueueKey_def [simplified, symmetric] lockKey_def [simplified, symmetric]
  readyAtKey_def [simplified, symmetric] readyPriorityKey_def [simplified, symmetric] preferred_key

lemma adds_Nil [simp]: "adds n [] seen P m \<longleftrightarrow> m = n"
  by (simp add: adds_def)

lemma adds_seen: "x \<in> set seen \<Longrightarrow> adds n (x # entries) seen P m = adds n entries seen P m"
  by (simp add: adds_def insert_absorb insert_Diff_if)

lemma adds_new:
  assumes "x \<notin> set seen"
  shows "adds n (x # entries) seen P m = adds (if P x then Suc n else n) entries (x # seen) P m"
proof -
  have "{y \<in> set (x # entries) - set seen. P y} =
      (if P x then insert x {y \<in> set entries - set (x # seen). P y} else {y \<in> set entries - set (x # seen). P y})"
    using assms by auto
  then show ?thesis by (auto simp: adds_def)
qed

definition ready_at :: "redis_view \<Rightarrow> string \<Rightarrow> string \<Rightarrow> int option" where
  "ready_at v p sid =
     lua_tonumber (case string_at v (readyAtKey p sid) of None \<Rightarrow> RNil | Some x \<Rightarrow> RBulk x)"

definition count_session :: "redis_view \<Rightarrow> string \<Rightarrow> nat \<Rightarrow> string \<Rightarrow> pressure \<Rightarrow> pressure" where
  "count_session v p nowMs x q =
     (let q2 = q\<lparr>pr_uniqueReady := pr_uniqueReady q + 1\<rparr> in
      if is_stale v p x then q2\<lparr>pr_staleReady := pr_staleReady q2 + 1\<rparr>
      else if is_locked v p x then q2\<lparr>pr_lockedReady := pr_lockedReady q2 + 1\<rparr>
      else count_schedulable (is_subagent v p x) (prefers v p x \<noteq> []) (ready_at v p x) nowMs q2)"

lemma subagent_reply:
  "(case string_at v (readyPriorityKey p x) of None \<Rightarrow> RNil | Some y \<Rightarrow> RBulk y) = RBulk ''subagent'' \<longleftrightarrow>
     is_subagent v p x"
  by (auto simp: is_subagent_def split: option.splits)

lemma preferred_reply:
  "(case string_at v (preferredWorkerKey p x) of None \<Rightarrow> RNil | Some y \<Rightarrow> RBulk y) \<noteq> RNil \<and>
   (case string_at v (preferredWorkerKey p x) of None \<Rightarrow> RNil | Some y \<Rightarrow> RBulk y) \<noteq> RBulk [] \<longleftrightarrow>
     prefers v p x \<noteq> []"
  by (auto simp: prefers_def split: option.splits)

lemma pressure_step:
  assumes "queue_keys_ok p v"
  shows "run_state (pressure_scan redis_law (pressure_args p nowMs limit) nowMs (x # entries) seen q) v =
    (let q1 = count_depths (is_subagent v p x) (prefers v p x \<noteq> []) q in
     if x \<in> set seen
     then run_state (pressure_scan redis_law (pressure_args p nowMs limit) nowMs entries seen q1) v
     else run_state (pressure_scan redis_law (pressure_args p nowMs limit) nowMs entries (x # seen)
            (count_session v p nowMs x q1)) v)"
  using assms
  by (simp add: pressure_args_def session_keys queue_run subagent_reply preferred_reply Let_def count_session_def
      is_stale_def is_locked_def reply_count_def ready_at_def)

lemma count_depths_sel [simp]:
  "pr_uniqueReady (count_depths a b q) = pr_uniqueReady q" "pr_staleReady (count_depths a b q) = pr_staleReady q"
  "pr_lockedReady (count_depths a b q) = pr_lockedReady q" "pr_schedulable (count_depths a b q) = pr_schedulable q"
  "pr_subagentSchedulable (count_depths a b q) = pr_subagentSchedulable q"
  "pr_preferredSchedulable (count_depths a b q) = pr_preferredSchedulable q"
  "pr_subagentReadyQueueDepth (count_depths a b q) = (if a then Suc else id) (pr_subagentReadyQueueDepth q)"
  by (simp_all add: count_depths_def)

lemma count_session_sel [simp]:
  "pr_uniqueReady (count_session v p now x q) = Suc (pr_uniqueReady q)"
  "pr_staleReady (count_session v p now x q) = (if is_stale v p x then Suc (pr_staleReady q) else pr_staleReady q)"
  "pr_lockedReady (count_session v p now x q) = (if is_locked v p x then Suc (pr_lockedReady q) else pr_lockedReady q)"
  "pr_schedulable (count_session v p now x q) =
     (if is_schedulable v p x then Suc (pr_schedulable q) else pr_schedulable q)"
  "pr_subagentSchedulable (count_session v p now x q) =
     (if is_schedulable v p x \<and> is_subagent v p x then Suc (pr_subagentSchedulable q) else pr_subagentSchedulable q)"
  "pr_preferredSchedulable (count_session v p now x q) =
     (if is_schedulable v p x \<and> prefers v p x \<noteq> [] then Suc (pr_preferredSchedulable q) else pr_preferredSchedulable q)"
  "pr_subagentReadyQueueDepth (count_session v p now x q) = pr_subagentReadyQueueDepth q"
  by (auto simp: count_session_def count_schedulable_def is_locked_def is_schedulable_def Let_def)

lemma pressure_scan_counts:
  assumes "queue_keys_ok p v"
  shows "\<exists>r. run_state (pressure_scan redis_law (pressure_args p nowMs limit) nowMs entries seen q) v = (r, v) \<and>
    adds (pr_uniqueReady q) entries seen (\<lambda>_. True) (pr_uniqueReady r) \<and>
    adds (pr_staleReady q) entries seen (is_stale v p) (pr_staleReady r) \<and>
    adds (pr_lockedReady q) entries seen (is_locked v p) (pr_lockedReady r) \<and>
    adds (pr_schedulable q) entries seen (is_schedulable v p) (pr_schedulable r) \<and>
    adds (pr_subagentSchedulable q) entries seen (\<lambda>x. is_schedulable v p x \<and> is_subagent v p x) (pr_subagentSchedulable r) \<and>
    adds (pr_preferredSchedulable q) entries seen (\<lambda>x. is_schedulable v p x \<and> prefers v p x \<noteq> []) (pr_preferredSchedulable r) \<and>
    pr_subagentReadyQueueDepth r = pr_subagentReadyQueueDepth q + length (filter (is_subagent v p) entries)"
proof (induction entries arbitrary: seen q)
  case Nil
  then show ?case by simp
next
  case (Cons x entries)
  let ?q1 = "count_depths (is_subagent v p x) (prefers v p x \<noteq> []) q"
  show ?case
  proof (cases "x \<in> set seen")
    case True
    with Cons.IH [of seen ?q1] show ?thesis
      by (auto simp: pressure_step [OF assms] Let_def adds_seen simp del: pressure_scan.simps)
  next
    case False
    with Cons.IH [of "x # seen" "count_session v p nowMs x ?q1"] show ?thesis
      by (auto simp: pressure_step [OF assms] Let_def adds_new simp del: pressure_scan.simps)
  qed
qed

context redis_server
begin

lemma tracks_pressure_scan: "tracks (pressure_scan exec as now es seen q) (pressure_scan redis_law as now es seen q)"
  by (induction es arbitrary: seen q) (simp_all only: pressure_scan.simps Let_def, (intro tracks_rules | assumption)+)

lemma tracks_getSchedulingPressure:
  "tracks (getSchedulingPressure exec p limit now) (getSchedulingPressure redis_law p limit now)"
  unfolding getSchedulingPressure_def inspectSchedulingPressureScript_def sample_ready_def Let_def
  by (intro tracks_rules tracks_pressure_scan)

end

lemma sample_ready_run:
  assumes "queue_keys_ok p v"
  shows "run_state (sample_ready redis_law (readyQueueKey p) n) v = (take n (list_at v (readyQueueKey p)), v)"
proof -
  have "bulk_strings (RMulti (map RBulk xs)) = xs" for xs
    by (induction xs) (simp_all add: bulk_strings_def map_filter_simps)
  then show ?thesis using assms
    by (cases n) (simp_all add: sample_ready_def queue_run js_slice_def)
qed

lemma card_three_classes:
  assumes "finite S" "\<And>x. P x \<or> Q x \<or> R x" "\<And>x. \<not> (P x \<and> Q x)" "\<And>x. \<not> (P x \<and> R x)" "\<And>x. \<not> (Q x \<and> R x)"
  shows "card S = card {x \<in> S. P x} + card {x \<in> S. Q x} + card {x \<in> S. R x}"
proof -
  have "card S = card ({x \<in> S. P x} \<union> ({x \<in> S. Q x} \<union> {x \<in> S. R x}))"
    by (rule arg_cong [of _ _ card]) (use assms(2) in auto)
  also have "\<dots> = card {x \<in> S. P x} + card ({x \<in> S. Q x} \<union> {x \<in> S. R x})"
    by (rule card_Un_disjoint) (use assms in auto)
  also have "card ({x \<in> S. Q x} \<union> {x \<in> S. R x}) = card {x \<in> S. Q x} + card {x \<in> S. R x}"
    by (rule card_Un_disjoint) (use assms in auto)
  finally show ?thesis by simp
qed

definition sampled :: "string \<Rightarrow> nat \<Rightarrow> redis_view \<Rightarrow> string list" where
  "sampled p limit v = take limit (list_at v (readyQueueKey p))"

text \<open>
  The scheduling pressure counts what it names. Over the sampled head of the ready list, each
  session counts once, and it is stale when it has no queued run, locked when it has one and a
  lock, and schedulable when it has one and no lock, so the three counters add up to the number of
  sessions; the subagent and preferred counters are the schedulable sessions of that kind, and the depths
  count entries. The query changes nothing.
\<close>

theorem scheduling_pressure_counts:
  assumes "redis_server exec view" "queue_keys_ok p (view s)" "0 < limit"
    and "run_state (getSchedulingPressure exec p limit now) s = (r, t)"
  shows "let v = view s; S = set (sampled p limit v); c = sp_counts r in
    view t = v \<and> sp_readyQueueDepth r = length (list_at v (readyQueueKey p)) \<and>
    pr_staleReady c = card {x \<in> S. is_stale v p x} \<and>
    pr_lockedReady c = card {x \<in> S. is_locked v p x} \<and>
    pr_schedulable c = card {x \<in> S. is_schedulable v p x} \<and>
    pr_uniqueReady c = pr_staleReady c + pr_lockedReady c + pr_schedulable c \<and>
    pr_subagentSchedulable c = card {x \<in> S. is_schedulable v p x \<and> is_subagent v p x} \<and>
    pr_preferredSchedulable c = card {x \<in> S. is_schedulable v p x \<and> prefers v p x \<noteq> []} \<and>
    pr_subagentReadyQueueDepth c = length (filter (is_subagent v p) (sampled p limit v)) \<and>
    sp_readySessionCount r =
      (if limit < sp_readyQueueDepth r then sp_readyQueueDepth r else pr_schedulable c)"
proof -
  let ?v = "view s"
  obtain c where c: "run_state (pressure_scan redis_law (pressure_args p now limit) now (sampled p limit ?v) [] no_pressure) ?v = (c, ?v)"
    and n: "pr_uniqueReady c = card (set (sampled p limit ?v))"
    "pr_staleReady c = card {x \<in> set (sampled p limit ?v). is_stale ?v p x}"
    "pr_lockedReady c = card {x \<in> set (sampled p limit ?v). is_locked ?v p x}"
    "pr_schedulable c = card {x \<in> set (sampled p limit ?v). is_schedulable ?v p x}"
    "pr_subagentSchedulable c = card {x \<in> set (sampled p limit ?v). is_schedulable ?v p x \<and> is_subagent ?v p x}"
    "pr_preferredSchedulable c = card {x \<in> set (sampled p limit ?v). is_schedulable ?v p x \<and> prefers ?v p x \<noteq> []}"
    "pr_subagentReadyQueueDepth c = length (filter (is_subagent ?v p) (sampled p limit ?v))"
    using pressure_scan_counts [OF assms(2), of now limit "sampled p limit ?v" "[]" no_pressure]
    by (auto simp: adds_def no_pressure_def)
  let ?S = "set (sampled p limit ?v)"
  have sum: "card ?S = card {x \<in> ?S. is_stale ?v p x} + card {x \<in> ?S. is_locked ?v p x} + card {x \<in> ?S. is_schedulable ?v p x}"
    by (rule card_three_classes) (auto simp: is_locked_def is_schedulable_def)
  have depth: "run_state (redis_call redis_law (LLen (readyQueueKey p))) ?v =
      (RInt (length (list_at ?v (readyQueueKey p))), ?v)"
    using assms(2) by (simp add: queue_run)
  have sample: "run_state (sample_ready redis_law (readyQueueKey p) (min limit (length (list_at ?v (readyQueueKey p))))) ?v =
      (sampled p limit ?v, ?v)"
    using sample_ready_run [OF assms(2)] by (simp add: sampled_def min_def)
  have "run_state (getSchedulingPressure redis_law p limit now) ?v =
      (\<lparr>sp_readySessionCount = (if length (list_at ?v (readyQueueKey p)) > length (sampled p limit ?v)
          then length (list_at ?v (readyQueueKey p)) else pr_schedulable c),
        sp_readyQueueDepth = length (list_at ?v (readyQueueKey p)), sp_counts = c\<rparr>, ?v)"
    using assms(3) unfolding getSchedulingPressure_def inspectSchedulingPressureScript_def
    by (simp add: depth sample c [unfolded pressure_args_def] reply_count_def Let_def)
  from redis_server.tracks_run [OF assms(1) redis_server.tracks_getSchedulingPressure [OF assms(1)] this] assms(4)
  show ?thesis using n sum by (auto simp: Let_def sampled_def)
qed

definition pressure_example :: "rq_event list" where
  "pressure_example =
     [Do (OpEnqueue 5 ''s1'' ''r1'' None (Some ''w2'')),
      Do (OpEnqueue 7 ''s2'' ''r3'' (Some PrioritySubagent) None),
      Do (OpEnqueue 8 ''s3'' ''r4'' None None),
      Do (OpAcquire ''s1'' ''w2:l1'' 1000),
      Do (OpDequeue ''s3'')]"

definition pressure_example_state :: redis_view where
  "pressure_example_state = snd (rq_exec redis_law redis_wait ''oah'' 100 pressure_example (redis_empty 0))"

lemma scheduling_pressure_counts_witness:
  "\<exists>r. run_state (getSchedulingPressure redis_law ''oah'' 100 20) pressure_example_state = (r, pressure_example_state) \<and>
     pr_uniqueReady (sp_counts r) = 3 \<and>
     pr_uniqueReady (sp_counts r) =
       pr_staleReady (sp_counts r) + pr_lockedReady (sp_counts r) + pr_schedulable (sp_counts r) \<and>
     pr_staleReady (sp_counts r) = 1 \<and> pr_lockedReady (sp_counts r) = 1"
proof -
  let ?r = "run_state (getSchedulingPressure redis_law ''oah'' 100 20) pressure_example_state"
  have ok: "queue_keys_ok ''oah'' pressure_example_state"
    unfolding pressure_example_state_def
    by (rule redis_model.rq_exec_abs [THEN conjunct2, THEN conjunct2])
      (simp add: redis_empty_def queue_keys_ok_def slot_defs)
  have r: "?r = (fst ?r, snd ?r)" by simp
  have n: "pr_uniqueReady (sp_counts (fst ?r)) = 3" "pr_staleReady (sp_counts (fst ?r)) = 1"
    "pr_lockedReady (sp_counts (fst ?r)) = 1"
    by code_simp+
  from scheduling_pressure_counts [where view = "\<lambda>v. v", OF redis_model.redis_server_axioms ok _ r]
  have "snd ?r = pressure_example_state" "pr_uniqueReady (sp_counts (fst ?r)) =
      pr_staleReady (sp_counts (fst ?r)) + pr_lockedReady (sp_counts (fst ?r)) + pr_schedulable (sp_counts (fst ?r))"
    unfolding Let_def by simp_all
  with n show ?thesis by (intro exI [of _ "fst ?r"]) (simp add: prod_eq_iff)
qed

subsection \<open>Polling\<close>

text \<open>
  What the polling loop needs of the clock: a command never turns it back, and \<open>setTimeout\<close>
  waits at least as long as it is asked to.
\<close>

locale polling_clock =
  fixes exec :: "'s redis" and now :: "'s \<Rightarrow> nat" and sleep :: "nat \<Rightarrow> 's \<Rightarrow> 's"
  assumes exec_time: "now s \<le> now (snd (exec c s))"
    and sleep_time: "now s + n \<le> now (sleep n s)"
begin

definition onward :: "('s, 'a) state \<Rightarrow> bool" where
  "onward m \<longleftrightarrow> (\<forall>s. now s \<le> now (snd (run_state m s)))"

lemma onward_return: "onward (State_Monad.return x)"
  by (simp add: onward_def)

lemma onward_call: "onward (redis_call exec c)"
  by (simp add: onward_def redis_call_def exec_time)

lemma onward_bind:
  assumes "onward m" "\<And>x. onward (f x)"
  shows "onward (State_Monad.bind m f)"
  unfolding onward_def
proof
  fix s
  obtain x t where t: "run_state m s = (x, t)" by fastforce
  have "now s \<le> now t" using assms(1) t unfolding onward_def by (metis snd_conv)
  also have "\<dots> \<le> now (snd (run_state (f x) t))" using assms(2) [of x] unfolding onward_def by blast
  finally show "now s \<le> now (snd (run_state (State_Monad.bind m f) s))" by (simp add: t)
qed

lemma onward_if: "onward m \<Longrightarrow> onward n \<Longrightarrow> onward (if b then m else n)"
  by simp

lemma onward_bulk: "(\<And>x. onward (f x)) \<Longrightarrow> onward m \<Longrightarrow> onward (case r of RBulk x \<Rightarrow> f x | _ \<Rightarrow> m)"
  by (cases r) auto

lemmas onward_rules = onward_bind onward_if onward_bulk onward_call onward_return

lemma onward_claim_scan: "onward (claim_scan exec ks as n)"
  by (induction n) (simp_all only: claim_scan.simps, (intro onward_rules | assumption)+)

lemma onward_claimOnce: "onward (claimOnce exec p limit w rt)"
  unfolding claimOnce_def claimCompatibleSessionScript_def Let_def
  by (intro onward_rules onward_claim_scan)

lemma claim_until_returns:
  assumes "deadline < now s + fuel" "0 < fuel"
  shows "\<exists>x t. claim_until exec now sleep p limit w rt deadline fuel s = Some (x, t) \<and>
    (x = None \<longrightarrow> deadline \<le> now t)"
  using assms
proof (induction fuel arbitrary: s)
  case (Suc fuel)
  obtain x s1 where s1: "run_state (claimOnce exec p limit w rt) s = (x, s1)" by fastforce
  have "now s \<le> now s1" using onward_claimOnce [of p limit w rt] s1 unfolding onward_def by (metis snd_conv)
  show ?case
  proof (cases "now s < deadline \<and> x = None \<and> now s1 < deadline")
    case True
    let ?s2 = "sleep (min 250 (deadline - now s1)) s1"
    have "now s1 + min 250 (deadline - now s1) \<le> now ?s2" by (rule sleep_time)
    then have "deadline < now ?s2 + fuel" using Suc.prems True \<open>now s \<le> now s1\<close> by linarith
    moreover have "0 < fuel" using Suc.prems True by (cases fuel) auto
    ultimately show ?thesis using Suc.IH [of ?s2] True s1 by (simp add: not_le)
  next
    case False
    then show ?thesis using s1 by auto
  qed
qed simp

end

interpretation model_polling: polling_clock redis_law rv_now redis_wait
proof
  show "rv_now s \<le> rv_now (snd (redis_law c s))" for c s
    by (cases c) (auto simp: redis_law.simps on_list_def on_set_def on_hash_def rv_put_hash_def rv_put_def rv_remove_def rv_put_list_def
        rv_put_set_def split: option.splits list.splits)
  show "rv_now s + n \<le> rv_now (redis_wait n s)" for s n
    by (simp add: redis_wait_def)
qed

text \<open>
  C31: \<open>claimNextSession\<close> returns. Whatever the other clients do, the polling loop ends with a
  claimed session or, without one, not before its deadline; one poll more than the milliseconds of the
  time-out is enough fuel.
\<close>

theorem claim_returns_by_deadline:
  assumes "polling_clock exec now sleep" "max 1 timeoutMs < fuel"
  shows "\<exists>claimed t. claimNextSession exec now sleep p limit timeoutMs worker runtime fuel s = Some (claimed, t) \<and>
    (claimed = None \<longrightarrow> now s + max 1 timeoutMs \<le> now t)"
  unfolding claimNextSession_def
  by (rule polling_clock.claim_until_returns [OF assms(1)]) (use assms(2) in auto)

lemma claim_returns_by_deadline_witness:
  "\<exists>claimed t. claimNextSession redis_law rv_now redis_wait ''oah'' 100 300 (Some ''w1'') None 301 (redis_empty 5) =
     Some (claimed, t) \<and> (claimed = None \<longrightarrow> 305 \<le> rv_now t)"
  using claim_returns_by_deadline [OF model_polling.polling_clock_axioms, of 300 301 "''oah''" 100 "Some ''w1''" None
      "redis_empty 5"]
  by (simp add: redis_empty_def)

end
