(* ===== verification/Worker_Policy.thy ===== *)
theory Worker_Policy
  imports Complex_Main Js_Prelude
begin

text \<open>
  The pure decisions of the worker pool (\<open>packages/storage-redis/src\<close>): how many workers a
  pool should have (\<open>worker-pool-policy.ts\<close>), how the load is summarised
  (\<open>worker-pool-pressure.ts\<close>) and which worker a session prefers
  (\<open>worker-pool-affinity.ts\<close>). Counts are integers; the busy ratio and its threshold are
  rational numbers, where the code has floating point.
\<close>

datatype worker_state = WStarting | WIdle | WBusy | WStopping

datatype worker_health = HHealthy | HLate

datatype process_kind = PEmbedded | PStandalone

subsection \<open>Load and pool size\<close>

record worker_load =
  wl_globalSuggestedWorkers :: int
  wl_globalActiveWorkers :: int
  wl_globalBusyWorkers :: int
  wl_remoteActiveWorkers :: int
  wl_remoteBusyWorkers :: int

record active_worker =
  aw_workerId :: string
  aw_processKind :: process_kind
  aw_state :: worker_state
  aw_health :: worker_health
  aw_currentSessionId :: "string option"
  aw_currentWorkspaceId :: "string option"

text \<open>The optional counters of \<open>SessionRunQueuePressure\<close>.\<close>

record queue_pressure =
  qp_readySessionCount :: "int option"
  qp_readyQueueDepth :: "int option"
  qp_uniqueReadySessionCount :: "int option"
  qp_subagentReadySessionCount :: "int option"
  qp_subagentReadyQueueDepth :: "int option"
  qp_preferredReadySessionCount :: "int option"
  qp_preferredReadyQueueDepth :: "int option"
  qp_preferredSubagentReadySessionCount :: "int option"
  qp_preferredSubagentReadyQueueDepth :: "int option"
  qp_lockedReadySessionCount :: "int option"
  qp_staleReadySessionCount :: "int option"
  qp_oldestSchedulableReadyAgeMs :: "int option"

record sizing_input =
  si_minWorkers :: int
  si_maxWorkers :: int
  si_readySessionsPerCapacityUnit :: int
  si_reservedSubagentCapacity :: int
  si_localActiveWorkers :: int
  si_localBusyWorkers :: int
  si_scaleUpBusyRatioThreshold :: rat
  si_scaleUpMaxReadyAgeMs :: int
  si_schedulingPressure :: "queue_pressure option"
  si_globalWorkerLoad :: "worker_load option"

record sizing_result =
  sr_pressureWorkers :: int
  sr_saturatedWorkers :: int
  sr_reservedWorkers :: int
  sr_ageBoostWorkers :: int
  sr_globalSuggestedWorkers :: int
  sr_localSuggestedWorkers :: int

definition summarizeRedisWorkerLoad :: "active_worker list \<Rightarrow> string list \<Rightarrow> int \<Rightarrow> int \<Rightarrow> worker_load" where
  "summarizeRedisWorkerLoad activeWorkers localWorkerIds localActiveWorkers localBusyWorkers =
     (let remoteHealthyWorkers =
            filter (\<lambda>w. aw_workerId w \<notin> set localWorkerIds \<and> aw_health w = HHealthy) activeWorkers;
          remoteActiveWorkers = int (length remoteHealthyWorkers);
          remoteBusyWorkers = int (length (filter (\<lambda>w. aw_state w = WBusy) remoteHealthyWorkers))
      in \<lparr>wl_globalSuggestedWorkers = 0,
          wl_globalActiveWorkers = remoteActiveWorkers + localActiveWorkers,
          wl_globalBusyWorkers = remoteBusyWorkers + localBusyWorkers,
          wl_remoteActiveWorkers = remoteActiveWorkers,
          wl_remoteBusyWorkers = remoteBusyWorkers\<rparr>)"

text \<open>\<open>Math.ceil(a / b)\<close> for a positive \<open>b\<close>.\<close>

definition ceil_div :: "int \<Rightarrow> int \<Rightarrow> int" where
  "ceil_div a b = (a + b - 1) div b"

definition busyRatio :: "int \<Rightarrow> int \<Rightarrow> rat" where
  "busyRatio activeWorkers busyWorkers =
     (if activeWorkers \<le> 0 then 0 else of_int busyWorkers / of_int activeWorkers)"

definition pressure_of :: "(queue_pressure \<Rightarrow> int option) \<Rightarrow> sizing_input \<Rightarrow> int option" where
  "pressure_of f input = Option.bind (si_schedulingPressure input) f"

definition calculateRedisWorkerPoolSuggestion :: "sizing_input \<Rightarrow> sizing_result" where
  "calculateRedisWorkerPoolSuggestion input =
     (let readySessionCount = pressure_of qp_readySessionCount input;
          subagentReadySessionCount = pressure_of qp_subagentReadySessionCount input;
          preferredReadySessionCount = pressure_of qp_preferredReadySessionCount input;
          preferredSubagentReadySessionCount = pressure_of qp_preferredSubagentReadySessionCount input;
          localBusyWorkers = si_localBusyWorkers input;
          busyWorkers = or_else (map_option wl_globalBusyWorkers (si_globalWorkerLoad input)) localBusyWorkers;
          activeWorkers = or_else (map_option wl_globalActiveWorkers (si_globalWorkerLoad input)) (si_localActiveWorkers input);
          perUnit = max 1 (si_readySessionsPerCapacityUnit input);
          pressureWorkers = (case readySessionCount of Some n \<Rightarrow> ceil_div n perUnit | None \<Rightarrow> si_minWorkers input);
          saturatedWorkers =
            (case readySessionCount of Some n \<Rightarrow> ceil_div (n + busyWorkers) perUnit | None \<Rightarrow> busyWorkers);
          reservedWorkers =
            (case subagentReadySessionCount of
               Some n \<Rightarrow> if n > 0 then busyWorkers + si_reservedSubagentCapacity input else 0
             | None \<Rightarrow> 0);
          preferredPressureWorkers =
            (case preferredReadySessionCount of Some n \<Rightarrow> ceil_div n perUnit | None \<Rightarrow> 0);
          preferredSaturatedWorkers =
            (case preferredReadySessionCount of Some n \<Rightarrow> ceil_div (n + localBusyWorkers) perUnit | None \<Rightarrow> 0);
          preferredReservedWorkers =
            (case preferredSubagentReadySessionCount of
               Some n \<Rightarrow> if n > 0 then localBusyWorkers + si_reservedSubagentCapacity input else 0
             | None \<Rightarrow> 0);
          ageBoostWorkers =
            (case readySessionCount of
               Some n \<Rightarrow>
                 if n > 0 \<and> busyRatio activeWorkers busyWorkers \<ge> si_scaleUpBusyRatioThreshold input \<and>
                    or_else (pressure_of qp_oldestSchedulableReadyAgeMs input) 0 \<ge> si_scaleUpMaxReadyAgeMs input
                 then activeWorkers + 1 else 0
             | None \<Rightarrow> 0);
          globalSuggestedWorkers = max pressureWorkers (max saturatedWorkers (max reservedWorkers ageBoostWorkers));
          localSuggestedWorkers =
            (case si_globalWorkerLoad input of
               Some load \<Rightarrow>
                 max (si_minWorkers input)
                   (max (globalSuggestedWorkers - wl_remoteActiveWorkers load)
                     (max preferredPressureWorkers (max preferredSaturatedWorkers preferredReservedWorkers)))
             | None \<Rightarrow> globalSuggestedWorkers)
      in \<lparr>sr_pressureWorkers = pressureWorkers,
          sr_saturatedWorkers = saturatedWorkers,
          sr_reservedWorkers = reservedWorkers,
          sr_ageBoostWorkers = ageBoostWorkers,
          sr_globalSuggestedWorkers = globalSuggestedWorkers,
          sr_localSuggestedWorkers = max (si_minWorkers input) (min (si_maxWorkers input) localSuggestedWorkers)\<rparr>)"

text \<open>
  The ratio of ready sessions per worker, rounded to two decimals for display, is kept exact.
\<close>

record pool_pressure =
  pp_availableIdleCapacity :: int
  pp_readySessionsPerActiveWorker :: "rat option"
  pp_subagentReserveTarget :: int
  pp_subagentReserveDeficit :: int

definition summarizeRedisRunWorkerPoolPressure :: "int \<Rightarrow> int \<Rightarrow> int \<Rightarrow> queue_pressure option \<Rightarrow> pool_pressure" where
  "summarizeRedisRunWorkerPoolPressure activeWorkers busyWorkers reservedSubagentCapacity schedulingPressure =
     (let availableIdleCapacity = max 0 (activeWorkers - busyWorkers);
          subagentBacklogPresent =
            (or_else (Option.bind schedulingPressure qp_subagentReadySessionCount) 0 > 0 \<or>
             or_else (Option.bind schedulingPressure qp_subagentReadyQueueDepth) 0 > 0);
          subagentReserveTarget = (if subagentBacklogPresent then reservedSubagentCapacity else 0)
      in \<lparr>pp_availableIdleCapacity = availableIdleCapacity,
          pp_readySessionsPerActiveWorker =
            (if activeWorkers > 0
             then map_option (\<lambda>n. of_int n / of_int activeWorkers) (Option.bind schedulingPressure qp_readySessionCount)
             else None),
          pp_subagentReserveTarget = subagentReserveTarget,
          pp_subagentReserveDeficit = max 0 (subagentReserveTarget - availableIdleCapacity)\<rparr>)"

lemma ceil_div_covers:
  assumes "0 < b"
  shows "a \<le> b * ceil_div a b"
proof -
  have "(a + b - 1) mod b < b" using assms by (rule pos_mod_bound)
  moreover have "b * ((a + b - 1) div b) + (a + b - 1) mod b = a + b - 1" by (rule mult_div_mod_eq)
  ultimately show ?thesis unfolding ceil_div_def by linarith
qed

definition remote_workers :: "sizing_input \<Rightarrow> int" where
  "remote_workers input = or_else (map_option wl_remoteActiveWorkers (si_globalWorkerLoad input)) 0"

definition busy_workers :: "sizing_input \<Rightarrow> int" where
  "busy_workers input =
     or_else (map_option wl_globalBusyWorkers (si_globalWorkerLoad input)) (si_localBusyWorkers input)"

lemmas sizing_unfold = calculateRedisWorkerPoolSuggestion_def Let_def sizing_result.select_convs

lemma sizing_global:
  "sr_globalSuggestedWorkers (calculateRedisWorkerPoolSuggestion input) =
     max (sr_pressureWorkers (calculateRedisWorkerPoolSuggestion input))
       (max (sr_saturatedWorkers (calculateRedisWorkerPoolSuggestion input))
         (max (sr_reservedWorkers (calculateRedisWorkerPoolSuggestion input))
           (sr_ageBoostWorkers (calculateRedisWorkerPoolSuggestion input))))"
  by (simp only: sizing_unfold)

lemma sizing_saturated:
  "pressure_of qp_readySessionCount input = Some n \<Longrightarrow>
     sr_saturatedWorkers (calculateRedisWorkerPoolSuggestion input) =
     ceil_div (n + busy_workers input) (max 1 (si_readySessionsPerCapacityUnit input))"
  by (simp only: sizing_unfold busy_workers_def option.case if_True)

lemma sizing_reserved:
  "pressure_of qp_subagentReadySessionCount input = Some n \<Longrightarrow> 0 < n \<Longrightarrow>
     sr_reservedWorkers (calculateRedisWorkerPoolSuggestion input) =
     busy_workers input + si_reservedSubagentCapacity input"
  by (simp only: sizing_unfold busy_workers_def option.case if_True)

lemma sizing_local:
  "\<exists>wanted. sr_localSuggestedWorkers (calculateRedisWorkerPoolSuggestion input) =
       max (si_minWorkers input) (min (si_maxWorkers input) wanted) \<and>
     sr_globalSuggestedWorkers (calculateRedisWorkerPoolSuggestion input) - remote_workers input \<le> wanted"
proof (cases "si_globalWorkerLoad input")
  case None
  then show ?thesis
    by (intro exI [of _ "sr_globalSuggestedWorkers (calculateRedisWorkerPoolSuggestion input)"] conjI)
      (simp_all only: sizing_unfold option.case remote_workers_def option.map or_else_simps diff_0_right order.refl)
next
  case (Some load)
  then show ?thesis
    unfolding sizing_unfold remote_workers_def
    by (intro exI conjI, simp only: option.case)
      (simp only: option.map or_else_simps max.cobounded1 max.cobounded2 le_max_iff_disj order.refl simp_thms)
qed

text \<open>
  The suggested pool size is within the limits of the pool, and unless the upper limit cuts
  it off, this pool together with the healthy workers elsewhere has capacity for the ready
  sessions beside the busy workers, and, when subagent sessions are ready, for the busy workers
  and the reserve.
\<close>

theorem pool_suggestion_covers_demand:
  fixes input :: sizing_input
  assumes "si_minWorkers input \<le> si_maxWorkers input"
  defines "suggested \<equiv> sr_localSuggestedWorkers (calculateRedisWorkerPoolSuggestion input)"
  shows "si_minWorkers input \<le> suggested \<and> suggested \<le> si_maxWorkers input \<and>
    (\<forall>n. pressure_of qp_readySessionCount input = Some n \<and> suggested < si_maxWorkers input \<longrightarrow>
       n + busy_workers input \<le>
         max 1 (si_readySessionsPerCapacityUnit input) * (suggested + remote_workers input)) \<and>
    (\<forall>n. pressure_of qp_subagentReadySessionCount input = Some n \<and> 0 < n \<and> suggested < si_maxWorkers input \<longrightarrow>
       busy_workers input + si_reservedSubagentCapacity input \<le> suggested + remote_workers input)"
proof (intro conjI allI impI)
  let ?r = "calculateRedisWorkerPoolSuggestion input" and ?u = "max 1 (si_readySessionsPerCapacityUnit input)"
  obtain wanted where wanted: "suggested = max (si_minWorkers input) (min (si_maxWorkers input) wanted)"
    "sr_globalSuggestedWorkers ?r - remote_workers input \<le> wanted"
    using sizing_local [of input] by (auto simp: suggested_def)
  show "si_minWorkers input \<le> suggested" "suggested \<le> si_maxWorkers input"
    using assms(1) wanted(1) by auto
  have global: "sr_globalSuggestedWorkers ?r \<le> suggested + remote_workers input" if "suggested < si_maxWorkers input"
    using that wanted by linarith
  { fix n assume n: "pressure_of qp_readySessionCount input = Some n \<and> suggested < si_maxWorkers input"
    have "n + busy_workers input \<le> ?u * sr_saturatedWorkers ?r"
      unfolding sizing_saturated [OF conjunct1 [OF n]] by (rule ceil_div_covers) simp
    also have "\<dots> \<le> ?u * sr_globalSuggestedWorkers ?r"
      unfolding sizing_global by (intro mult_left_mono) auto
    also have "\<dots> \<le> ?u * (suggested + remote_workers input)" using n global by (intro mult_left_mono) auto
    finally show "n + busy_workers input \<le> ?u * (suggested + remote_workers input)" . }
  { fix n assume n: "pressure_of qp_subagentReadySessionCount input = Some n \<and> 0 < n \<and> suggested < si_maxWorkers input"
    then have "busy_workers input + si_reservedSubagentCapacity input \<le> sr_globalSuggestedWorkers ?r"
      unfolding sizing_global using sizing_reserved [of input n] by simp
    with n global show "busy_workers input + si_reservedSubagentCapacity input \<le> suggested + remote_workers input"
      by force }
qed

definition sizing_example :: sizing_input where
  "sizing_example =
     \<lparr>si_minWorkers = 1, si_maxWorkers = 6, si_readySessionsPerCapacityUnit = 2, si_reservedSubagentCapacity = 1,
      si_localActiveWorkers = 2, si_localBusyWorkers = 2, si_scaleUpBusyRatioThreshold = 3 / 4,
      si_scaleUpMaxReadyAgeMs = 2000,
      si_schedulingPressure = Some \<lparr>qp_readySessionCount = Some 5, qp_readyQueueDepth = None,
        qp_uniqueReadySessionCount = None, qp_subagentReadySessionCount = Some 1, qp_subagentReadyQueueDepth = None,
        qp_preferredReadySessionCount = None, qp_preferredReadyQueueDepth = None,
        qp_preferredSubagentReadySessionCount = None, qp_preferredSubagentReadyQueueDepth = None,
        qp_lockedReadySessionCount = None, qp_staleReadySessionCount = None,
        qp_oldestSchedulableReadyAgeMs = Some 100\<rparr>,
      si_globalWorkerLoad = Some \<lparr>wl_globalSuggestedWorkers = 0, wl_globalActiveWorkers = 3,
        wl_globalBusyWorkers = 2, wl_remoteActiveWorkers = 1, wl_remoteBusyWorkers = 0\<rparr>\<rparr>"

lemma pool_suggestion_covers_demand_witness:
  "sr_localSuggestedWorkers (calculateRedisWorkerPoolSuggestion sizing_example) = 3 \<and>
   5 + busy_workers sizing_example \<le> 2 * (3 + remote_workers sizing_example)"
proof -
  have n: "sr_localSuggestedWorkers (calculateRedisWorkerPoolSuggestion sizing_example) = 3"
    "pressure_of qp_readySessionCount sizing_example = Some 5"
    "si_minWorkers sizing_example = 1" "si_maxWorkers sizing_example = 6"
    "si_readySessionsPerCapacityUnit sizing_example = 2"
    by code_simp+
  from pool_suggestion_covers_demand [of sizing_example] show ?thesis
    unfolding n by simp
qed

subsection \<open>Affinity\<close>

datatype affinity_reason =
    ControllerTarget | OwnerWorker | SameSession | SameWorkspace | SameOwner | Healthy | Late | IdleWorker
  | BusyWorker | StartingWorker | StoppingWorker | IdleSlotCapacity | SlotSaturated

record affinity_slot =
  as_workerId :: string
  as_state :: worker_state
  as_currentSessionId :: "string option"
  as_currentWorkspaceId :: "string option"

record slot_summary =
  ss_slotCapacity :: int
  ss_idleSlots :: int
  ss_busySlots :: int
  ss_matchingSessionSlots :: int
  ss_matchingWorkspaceSlots :: int

record affinity_candidate =
  ac_workerId :: string
  ac_processKind :: process_kind
  ac_state :: worker_state
  ac_health :: worker_health
  ac_score :: int
  ac_slotCapacity :: "int option"
  ac_idleSlots :: "int option"
  ac_busySlots :: "int option"
  ac_matchingSessionSlots :: int
  ac_matchingWorkspaceSlots :: int
  ac_matchingOwnerWorkspaces :: int
  ac_reasons :: "affinity_reason list"

record affinity_input =
  ai_activeWorkers :: "active_worker list"
  ai_slots :: "affinity_slot list"
  ai_sessionId :: "string option"
  ai_workspaceId :: "string option"
  ai_ownerId :: "string option"
  ai_workerOwnerAffinities :: "(string \<times> int) list"
  ai_ownerWorkerId :: "string option"
  ai_preferredWorkerId :: "string option"

record affinity_summary =
  af_preferredWorkerId :: "string option"
  af_controllerTargetWorkerId :: "string option"
  af_sessionAffinityWorkerId :: "string option"
  af_workspaceAffinityWorkerId :: "string option"
  af_ownerAffinityWorkerId :: "string option"
  af_ownerWorkerId :: "string option"
  af_candidates :: "affinity_candidate list"

definition no_slots :: slot_summary where
  "no_slots = \<lparr>ss_slotCapacity = 0, ss_idleSlots = 0, ss_busySlots = 0, ss_matchingSessionSlots = 0,
     ss_matchingWorkspaceSlots = 0\<rparr>"

text \<open>\<open>x && y === x\<close>: both are there and equal, and the first is not empty.\<close>

definition matches :: "string option \<Rightarrow> string option \<Rightarrow> bool" where
  "matches wanted actual \<longleftrightarrow> truthy wanted \<and> actual = wanted"

definition add_slot ::
    "string option \<Rightarrow> string option \<Rightarrow> affinity_slot \<Rightarrow> (string, slot_summary) jmap \<Rightarrow> (string, slot_summary) jmap" where
  "add_slot sessionId workspaceId slot summaries =
     (let current = or_else (map_of summaries (as_workerId slot)) no_slots
      in AList.update (as_workerId slot)
           \<lparr>ss_slotCapacity = ss_slotCapacity current + 1,
            ss_idleSlots = ss_idleSlots current + (if as_state slot = WIdle then 1 else 0),
            ss_busySlots = ss_busySlots current + (if as_state slot = WBusy then 1 else 0),
            ss_matchingSessionSlots = ss_matchingSessionSlots current +
              (if matches sessionId (as_currentSessionId slot) then 1 else 0),
            ss_matchingWorkspaceSlots = ss_matchingWorkspaceSlots current +
              (if matches workspaceId (as_currentWorkspaceId slot) then 1 else 0)\<rparr> summaries)"

definition summarizeSlotsByWorker ::
    "affinity_slot list \<Rightarrow> string option \<Rightarrow> string option \<Rightarrow> (string, slot_summary) jmap" where
  "summarizeSlotsByWorker slots sessionId workspaceId =
     foldl (\<lambda>summaries slot. add_slot sessionId workspaceId slot summaries) [] slots"

text \<open>The reasons and the points of one worker, in the order the code adds them.\<close>

definition affinity_matches :: "active_worker \<Rightarrow> slot_summary option \<Rightarrow> affinity_input \<Rightarrow> int \<times> int \<times> int" where
  "affinity_matches worker slotSummary input =
     ((case slotSummary of
         Some s \<Rightarrow> ss_matchingSessionSlots s
       | None \<Rightarrow> if matches (ai_sessionId input) (aw_currentSessionId worker) then 1 else 0),
      (case slotSummary of
         Some s \<Rightarrow> ss_matchingWorkspaceSlots s
       | None \<Rightarrow> if matches (ai_workspaceId input) (aw_currentWorkspaceId worker) then 1 else 0),
      (if truthy (ai_ownerId input)
       then or_else (map_of (rev (ai_workerOwnerAffinities input)) (aw_workerId worker)) 0 else 0))"

definition worker_points :: "active_worker \<Rightarrow> slot_summary option \<Rightarrow> affinity_input \<Rightarrow> (affinity_reason \<times> int) list" where
  "worker_points worker slotSummary input =
     (let (matchingSessionSlots, matchingWorkspaceSlots, matchingOwnerWorkspaces) =
            affinity_matches worker slotSummary input;
          idleSlots = or_else (map_option ss_idleSlots slotSummary) 0;
          busySlots = or_else (map_option ss_busySlots slotSummary) 0
      in (if matches (ai_preferredWorkerId input) (Some (aw_workerId worker)) then [(ControllerTarget, 320)] else []) @
         (if matches (ai_ownerWorkerId input) (Some (aw_workerId worker)) then [(OwnerWorker, 700)] else []) @
         (if matchingSessionSlots > 0 then [(SameSession, 500 + matchingSessionSlots * 25)] else []) @
         (if matchingWorkspaceSlots > 0 then [(SameWorkspace, 250 + matchingWorkspaceSlots * 10)] else []) @
         (if matchingOwnerWorkspaces > 0 then [(SameOwner, 140 + matchingOwnerWorkspaces * 15)] else []) @
         (if aw_health worker = HHealthy then [(Healthy, 100)] else [(Late, - 200)]) @
         (if idleSlots > 0 then [(IdleSlotCapacity, 80 + idleSlots * 5)]
          else if busySlots > 0 then [(SlotSaturated, - (40 + busySlots * 5))]
          else case aw_state worker of
            WIdle \<Rightarrow> [(IdleWorker, 70)]
          | WBusy \<Rightarrow> [(BusyWorker, - 20)]
          | WStarting \<Rightarrow> [(StartingWorker, 10)]
          | WStopping \<Rightarrow> [(StoppingWorker, - 250)]))"

definition buildRedisWorkerAffinityCandidate ::
    "active_worker \<Rightarrow> slot_summary option \<Rightarrow> affinity_input \<Rightarrow> affinity_candidate" where
  "buildRedisWorkerAffinityCandidate worker slotSummary input =
     (let (matchingSessionSlots, matchingWorkspaceSlots, matchingOwnerWorkspaces) =
            affinity_matches worker slotSummary input;
          points = worker_points worker slotSummary input
      in \<lparr>ac_workerId = aw_workerId worker,
          ac_processKind = aw_processKind worker,
          ac_state = aw_state worker,
          ac_health = aw_health worker,
          ac_score = sum_list (map snd points),
          ac_slotCapacity = map_option ss_slotCapacity slotSummary,
          ac_idleSlots = map_option ss_idleSlots slotSummary,
          ac_busySlots = map_option ss_busySlots slotSummary,
          ac_matchingSessionSlots = matchingSessionSlots,
          ac_matchingWorkspaceSlots = matchingWorkspaceSlots,
          ac_matchingOwnerWorkspaces = matchingOwnerWorkspaces,
          ac_reasons = map fst points\<rparr>)"

definition compareRedisWorkerAffinityCandidates :: "affinity_candidate \<Rightarrow> affinity_candidate \<Rightarrow> int" where
  "compareRedisWorkerAffinityCandidates left right =
     js_or (ac_score right - ac_score left)
       (js_or (ac_matchingSessionSlots right - ac_matchingSessionSlots left)
         (js_or (ac_matchingWorkspaceSlots right - ac_matchingWorkspaceSlots left)
           (js_or (or_else (ac_idleSlots right) 0 - or_else (ac_idleSlots left) 0)
             (localeCompare (ac_workerId left) (ac_workerId right)))))"

definition worker_candidate :: "affinity_input \<Rightarrow> active_worker \<Rightarrow> affinity_candidate" where
  "worker_candidate input worker =
     buildRedisWorkerAffinityCandidate worker
       (map_of (summarizeSlotsByWorker (ai_slots input) (ai_sessionId input) (ai_workspaceId input))
         (aw_workerId worker)) input"

definition first_id :: "(affinity_candidate \<Rightarrow> bool) \<Rightarrow> affinity_candidate list \<Rightarrow> string option" where
  "first_id P candidates = map_option ac_workerId (find P candidates)"

definition buildRedisWorkerAffinitySummary :: "affinity_input \<Rightarrow> affinity_summary" where
  "buildRedisWorkerAffinitySummary input =
     (let candidates = js_sort compareRedisWorkerAffinityCandidates (map (worker_candidate input) (ai_activeWorkers input));
          preferredWorkerId =
            or_opt (first_id (\<lambda>c. ac_health c = HHealthy \<and> ac_state c \<noteq> WStopping) candidates)
              (first_id (\<lambda>_. True) candidates)
      in \<lparr>af_preferredWorkerId = keep_truthy preferredWorkerId,
          af_controllerTargetWorkerId = keep_truthy (first_id (\<lambda>c. ControllerTarget \<in> set (ac_reasons c)) candidates),
          af_sessionAffinityWorkerId = keep_truthy (first_id (\<lambda>c. ac_matchingSessionSlots c > 0) candidates),
          af_workspaceAffinityWorkerId = keep_truthy (first_id (\<lambda>c. ac_matchingWorkspaceSlots c > 0) candidates),
          af_ownerAffinityWorkerId = keep_truthy (first_id (\<lambda>c. ac_matchingOwnerWorkspaces c > 0) candidates),
          af_ownerWorkerId = keep_truthy (ai_ownerWorkerId input),
          af_candidates = candidates\<rparr>)"

interpretation affinity: comparator compareRedisWorkerAffinityCandidates
  unfolding compareRedisWorkerAffinityCandidates_def
  by (intro comparator_or comparator_diff_desc [of ac_score] comparator_diff_desc [of ac_matchingSessionSlots]
      comparator_diff_desc [of ac_matchingWorkspaceSlots] comparator_diff_desc [of "\<lambda>c. or_else (ac_idleSlots c) 0"]
      comparator_on [OF lc.comparator_axioms])

subsection \<open>What the summary says\<close>

definition count_slots :: "(affinity_slot \<Rightarrow> bool) \<Rightarrow> string \<Rightarrow> affinity_slot list \<Rightarrow> int" where
  "count_slots P w slots = int (length (filter (\<lambda>s. as_workerId s = w \<and> P s) slots))"

definition slot_counts :: "string option \<Rightarrow> string option \<Rightarrow> string \<Rightarrow> affinity_slot list \<Rightarrow> slot_summary" where
  "slot_counts sessionId workspaceId w slots =
     \<lparr>ss_slotCapacity = count_slots (\<lambda>_. True) w slots,
      ss_idleSlots = count_slots (\<lambda>s. as_state s = WIdle) w slots,
      ss_busySlots = count_slots (\<lambda>s. as_state s = WBusy) w slots,
      ss_matchingSessionSlots = count_slots (\<lambda>s. matches sessionId (as_currentSessionId s)) w slots,
      ss_matchingWorkspaceSlots = count_slots (\<lambda>s. matches workspaceId (as_currentWorkspaceId s)) w slots\<rparr>"

lemma count_slots_snoc:
  "count_slots P w (slots @ [s]) = count_slots P w slots + (if as_workerId s = w \<and> P s then 1 else 0)"
  by (simp add: count_slots_def)

lemma count_slots_none: "w \<notin> as_workerId ` set slots \<Longrightarrow> count_slots P w slots = 0"
  by (auto simp: count_slots_def filter_empty_conv)

text \<open>
  The slot summary counts. A worker has a summary exactly when it has slots, and the summary
  holds the number of its slots, of the idle and the busy ones, and of those that work on the
  given session and workspace.
\<close>

theorem slot_summaries_count:
  "map_of (summarizeSlotsByWorker slots sessionId workspaceId) w =
     (if w \<in> as_workerId ` set slots then Some (slot_counts sessionId workspaceId w slots) else None)"
proof (induction slots rule: rev_induct)
  case Nil
  then show ?case by (simp add: summarizeSlotsByWorker_def)
next
  case (snoc s slots)
  have step: "summarizeSlotsByWorker (slots @ [s]) sessionId workspaceId =
      add_slot sessionId workspaceId s (summarizeSlotsByWorker slots sessionId workspaceId)"
    by (simp add: summarizeSlotsByWorker_def)
  show ?case
  proof (cases "as_workerId s = w")
    case True
    have "or_else (map_of (summarizeSlotsByWorker slots sessionId workspaceId) w) no_slots =
        slot_counts sessionId workspaceId w slots"
      by (simp add: snoc.IH no_slots_def slot_counts_def count_slots_none)
    then show ?thesis
      by (simp add: step add_slot_def Let_def jmap_get_set True slot_counts_def count_slots_snoc)
  next
    case False
    then show ?thesis
      by (simp add: step add_slot_def Let_def jmap_get_set snoc.IH slot_counts_def count_slots_snoc)
  qed
qed

definition eligible :: "active_worker \<Rightarrow> bool" where
  "eligible w \<longleftrightarrow> aw_health w = HHealthy \<and> aw_state w \<noteq> WStopping"

lemma worker_candidate_sel [simp]:
  "ac_workerId (worker_candidate input w) = aw_workerId w"
  "ac_health (worker_candidate input w) = aw_health w"
  "ac_state (worker_candidate input w) = aw_state w"
  by (simp_all add: worker_candidate_def buildRedisWorkerAffinityCandidate_def Let_def split: prod.splits)

lemma score_least:
  "compareRedisWorkerAffinityCandidates c d \<le> 0 \<Longrightarrow> ac_score d \<le> ac_score c"
  by (auto simp: compareRedisWorkerAffinityCandidates_def js_or_def split: if_splits)

lemma first_id_best:
  assumes "first_id P (js_sort compareRedisWorkerAffinityCandidates (map (worker_candidate input) ws)) = Some i"
  shows "\<exists>w\<in>set ws. aw_workerId w = i \<and> P (worker_candidate input w) \<and>
    (\<forall>w'\<in>set ws. P (worker_candidate input w') \<longrightarrow>
       ac_score (worker_candidate input w') \<le> ac_score (worker_candidate input w))"
proof -
  obtain c where c: "find P (js_sort compareRedisWorkerAffinityCandidates (map (worker_candidate input) ws)) = Some c"
    "ac_workerId c = i"
    using assms by (auto simp: first_id_def)
  from affinity.find_js_sort_least [OF c(1)] obtain w where w: "w \<in> set ws" "c = worker_candidate input w"
    "P c" "\<forall>d\<in>set (map (worker_candidate input) ws). P d \<longrightarrow> compareRedisWorkerAffinityCandidates c d \<le> 0"
    by auto
  show ?thesis using w c(2) score_least by (intro bexI [OF _ w(1)]) auto
qed

lemma first_id_None: "first_id P cs = None \<longleftrightarrow> (\<forall>c\<in>set cs. \<not> P c)"
  by (auto simp: first_id_def find_None_iff)

text \<open>
  The preferred worker is the best healthy one. Whenever some active worker is healthy and
  not stopping, the preferred worker is such a worker and no other such worker has a higher score;
  otherwise it is the best of all workers, and there is none only when no worker is active. The
  candidates are exactly the active workers.
\<close>

theorem preferred_worker_is_best:
  assumes "\<forall>w\<in>set (ai_activeWorkers input). aw_workerId w \<noteq> []"
  defines "summary \<equiv> buildRedisWorkerAffinitySummary input"
    and "allowed \<equiv> (\<lambda>w. eligible w \<or> \<not> (\<exists>v\<in>set (ai_activeWorkers input). eligible v))"
  shows "(ai_activeWorkers input \<noteq> [] \<longrightarrow>
      (\<exists>w\<in>set (ai_activeWorkers input). af_preferredWorkerId summary = Some (aw_workerId w) \<and> allowed w \<and>
        (\<forall>w'\<in>set (ai_activeWorkers input). allowed w' \<longrightarrow>
           ac_score (worker_candidate input w') \<le> ac_score (worker_candidate input w)))) \<and>
    (ai_activeWorkers input = [] \<longrightarrow> af_preferredWorkerId summary = None) \<and>
    mset (map ac_workerId (af_candidates summary)) = mset (map aw_workerId (ai_activeWorkers input))"
proof (intro conjI impI)
  let ?ws = "ai_activeWorkers input"
  let ?cs = "js_sort compareRedisWorkerAffinityCandidates (map (worker_candidate input) ?ws)"
  let ?P = "\<lambda>c. ac_health c = HHealthy \<and> ac_state c \<noteq> WStopping"
  have pref: "af_preferredWorkerId summary = keep_truthy (or_opt (first_id ?P ?cs) (first_id (\<lambda>_. True) ?cs))"
    by (simp add: summary_def buildRedisWorkerAffinitySummary_def Let_def)
  show "mset (map ac_workerId (af_candidates summary)) = mset (map aw_workerId ?ws)"
    by (simp add: summary_def buildRedisWorkerAffinitySummary_def Let_def multiset.map_comp comp_def)
  show "af_preferredWorkerId summary = None" if "?ws = []"
    using that by (simp add: pref first_id_def)
  assume ne: "?ws \<noteq> []"
  show "\<exists>w\<in>set ?ws. af_preferredWorkerId summary = Some (aw_workerId w) \<and> allowed w \<and>
      (\<forall>w'\<in>set ?ws. allowed w' \<longrightarrow> ac_score (worker_candidate input w') \<le> ac_score (worker_candidate input w))"
  proof (cases "first_id ?P ?cs")
    case None
    then have none: "\<not> (\<exists>v\<in>set ?ws. eligible v)" by (auto simp: first_id_None eligible_def)
    obtain i where i: "first_id (\<lambda>_. True) ?cs = Some i"
      using ne first_id_None [of "\<lambda>_. True" ?cs] by (cases "first_id (\<lambda>_. True) ?cs") auto
    from first_id_best [OF i] obtain w where "w \<in> set ?ws" "aw_workerId w = i"
      "\<forall>w'\<in>set ?ws. ac_score (worker_candidate input w') \<le> ac_score (worker_candidate input w)" by auto
    with None i none assms(1) show ?thesis
      by (intro bexI [of _ w]) (auto simp: pref allowed_def)
  next
    case (Some i)
    from first_id_best [OF Some] obtain w where w: "w \<in> set ?ws" "aw_workerId w = i" "eligible w"
      "\<forall>w'\<in>set ?ws. eligible w' \<longrightarrow> ac_score (worker_candidate input w') \<le> ac_score (worker_candidate input w)"
      by (auto simp: eligible_def)
    with Some assms(1) show ?thesis
      by (intro bexI [of _ w]) (auto simp: pref allowed_def)
  qed
qed

definition affinity_example :: affinity_input where
  "affinity_example =
     \<lparr>ai_activeWorkers =
        [\<lparr>aw_workerId = ''w1'', aw_processKind = PStandalone, aw_state = WIdle, aw_health = HLate,
          aw_currentSessionId = None, aw_currentWorkspaceId = None\<rparr>,
         \<lparr>aw_workerId = ''w2'', aw_processKind = PStandalone, aw_state = WBusy, aw_health = HHealthy,
          aw_currentSessionId = Some ''s1'', aw_currentWorkspaceId = Some ''ws1''\<rparr>,
         \<lparr>aw_workerId = ''w3'', aw_processKind = PEmbedded, aw_state = WIdle, aw_health = HHealthy,
          aw_currentSessionId = None, aw_currentWorkspaceId = None\<rparr>],
      ai_slots = [], ai_sessionId = Some ''s1'', ai_workspaceId = Some ''ws1'', ai_ownerId = None,
      ai_workerOwnerAffinities = [], ai_ownerWorkerId = Some ''w1'', ai_preferredWorkerId = None\<rparr>"

lemma preferred_worker_is_best_witness:
  "af_preferredWorkerId (buildRedisWorkerAffinitySummary affinity_example) = Some ''w2'' \<and>
   (\<exists>w\<in>set (ai_activeWorkers affinity_example).
      Some ''w2'' = Some (aw_workerId w) \<and> ac_score (worker_candidate affinity_example w) = 865)"
proof -
  have ids: "\<forall>w\<in>set (ai_activeWorkers affinity_example). aw_workerId w \<noteq> []"
    "ai_activeWorkers affinity_example \<noteq> []"
    by (simp_all add: affinity_example_def)
  have pref: "af_preferredWorkerId (buildRedisWorkerAffinitySummary affinity_example) = Some ''w2''" by code_simp
  from preferred_worker_is_best [OF ids(1), THEN conjunct1, rule_format, OF ids(2)] obtain w
    where w: "w \<in> set (ai_activeWorkers affinity_example)" "Some ''w2'' = Some (aw_workerId w)"
    unfolding pref by blast
  then have "w = ai_activeWorkers affinity_example ! 1" by (auto simp: affinity_example_def)
  moreover have "ac_score (worker_candidate affinity_example (ai_activeWorkers affinity_example ! 1)) = 865"
    by code_simp
  ultimately show ?thesis using w pref by blast
qed

end
