(* ===== verification/Worker_Pool.thy ===== *)
theory Worker_Pool
  imports Worker_Policy
begin

text \<open>
  The autoscaling worker pool, \<open>packages/storage-redis/src/run-worker-pool.ts\<close>, and what it
  reports (\<open>worker-pool-observability.ts\<close>). A rebalance reads the scheduling pressure and the
  active workers, decides how many workers to have, and starts or closes workers; it is one step of
  the model, with what it reads, and which of its calls reject, as its argument. A worker calls back when its state changes. The log
  lines, and a \<open>close\<close> while a rebalance is under way, are not modelled.
\<close>

subsection \<open>Options and state\<close>

datatype rebalance_reason = RStartup | RSteady | RScaleUp | RScaleDown | RCooldownHold | RShutdown

record pool_options =
  po_runtimeInstanceId :: "string option"
  po_processKind :: "process_kind option"
  po_hasQueueFactory :: bool
  po_minWorkers :: "int option"
  po_maxWorkers :: "int option"
  po_scaleIntervalMs :: "int option"
  po_readySessionsPerCapacityUnit :: "int option"
  po_reservedSubagentCapacity :: "int option"
  po_scaleUpCooldownMs :: "int option"
  po_scaleDownCooldownMs :: "int option"
  po_scaleUpSampleSize :: "int option"
  po_scaleDownSampleSize :: "int option"
  po_scaleUpBusyRatioThreshold :: "rat option"
  po_scaleUpMaxReadyAgeMs :: "int option"

record pool_config =
  pc_processKind :: process_kind
  pc_hasQueueFactory :: bool
  pc_minWorkers :: int
  pc_maxWorkers :: int
  pc_scaleIntervalMs :: int
  pc_readySessionsPerCapacityUnit :: int
  pc_reservedSubagentCapacity :: int
  pc_scaleUpCooldownMs :: int
  pc_scaleDownCooldownMs :: int
  pc_scaleUpSampleSize :: int
  pc_scaleDownSampleSize :: int
  pc_scaleUpBusyRatioThreshold :: rat
  pc_scaleUpMaxReadyAgeMs :: int

record pool_slot =
  sl_slotId :: string
  sl_workerId :: string
  sl_processKind :: process_kind
  sl_state :: worker_state
  sl_currentSessionId :: "string option"
  sl_currentRunId :: "string option"
  sl_currentWorkspaceId :: "string option"

record pool_decision =
  de_timestamp :: int
  de_reason :: rebalance_reason
  de_suggestedWorkers :: int
  de_globalSuggestedWorkers :: "int option"
  de_reservedSubagentCapacity :: int
  de_reservedWorkers :: "int option"
  de_pressureSummary :: pool_pressure
  de_desiredWorkers :: int
  de_activeWorkers :: int
  de_busyWorkers :: "int option"
  de_globalActiveWorkers :: "int option"
  de_globalBusyWorkers :: "int option"
  de_remoteActiveWorkers :: "int option"
  de_remoteBusyWorkers :: "int option"
  de_pressure :: queue_pressure

text \<open>The twelve \<open>#last...\<close> counters of the pressure are one record, the five of the load another.\<close>

record pool_state =
  ps_workers :: "string list"
  ps_workerSlots :: "(string, pool_slot) jmap"
  ps_active :: bool
  ps_lastPressure :: queue_pressure
  ps_lastLoad :: "worker_load option"
  ps_lastReservedWorkers :: "int option"
  ps_lastRebalanceAtMs :: "int option"
  ps_lastRebalanceReason :: "rebalance_reason option"
  ps_lastScaleUpAtMs :: "int option"
  ps_lastScaleDownAtMs :: "int option"
  ps_scaleUpPressureStreak :: int
  ps_scaleDownPressureStreak :: int
  ps_suggestedWorkers :: int
  ps_desiredWorkers :: int
  ps_recentDecisions :: "pool_decision list"

definition pool_config_of :: "pool_options \<Rightarrow> pool_config" where
  "pool_config_of options =
     (let minWorkers = max 1 (or_else (po_minWorkers options) 1) in
      \<lparr>pc_processKind = or_else (po_processKind options) PEmbedded,
       pc_hasQueueFactory = po_hasQueueFactory options,
       pc_minWorkers = minWorkers,
       pc_maxWorkers = max minWorkers (or_else (po_maxWorkers options) minWorkers),
       pc_scaleIntervalMs = max 1000 (or_else (po_scaleIntervalMs options) 5000),
       pc_readySessionsPerCapacityUnit = max 1 (or_else (po_readySessionsPerCapacityUnit options) 1),
       pc_reservedSubagentCapacity = max 0 (or_else (po_reservedSubagentCapacity options) 1),
       pc_scaleUpCooldownMs = max 0 (or_else (po_scaleUpCooldownMs options) 1000),
       pc_scaleDownCooldownMs = max 0 (or_else (po_scaleDownCooldownMs options) 15000),
       pc_scaleUpSampleSize = max 1 (or_else (po_scaleUpSampleSize options) 2),
       pc_scaleDownSampleSize = max 1 (or_else (po_scaleDownSampleSize options) 3),
       pc_scaleUpBusyRatioThreshold = min 1 (max 0 (or_else (po_scaleUpBusyRatioThreshold options) (3 / 4))),
       pc_scaleUpMaxReadyAgeMs = max 0 (or_else (po_scaleUpMaxReadyAgeMs options) 2000)\<rparr>)"

definition unknown_pressure :: queue_pressure where
  "unknown_pressure =
     \<lparr>qp_readySessionCount = None, qp_readyQueueDepth = None, qp_uniqueReadySessionCount = None,
      qp_subagentReadySessionCount = None, qp_subagentReadyQueueDepth = None, qp_preferredReadySessionCount = None,
      qp_preferredReadyQueueDepth = None, qp_preferredSubagentReadySessionCount = None,
      qp_preferredSubagentReadyQueueDepth = None, qp_lockedReadySessionCount = None,
      qp_staleReadySessionCount = None, qp_oldestSchedulableReadyAgeMs = None\<rparr>"

definition new_pool :: pool_state where
  "new_pool =
     \<lparr>ps_workers = [], ps_workerSlots = [], ps_active = False, ps_lastPressure = unknown_pressure,
      ps_lastLoad = None, ps_lastReservedWorkers = None, ps_lastRebalanceAtMs = None,
      ps_lastRebalanceReason = None, ps_lastScaleUpAtMs = None, ps_lastScaleDownAtMs = None,
      ps_scaleUpPressureStreak = 0, ps_scaleDownPressureStreak = 0, ps_suggestedWorkers = 0,
      ps_desiredWorkers = 0, ps_recentDecisions = []\<rparr>"

subsection \<open>Reading the pressure and the load\<close>

text \<open>
  An absent method is \<^const>\<open>None\<close>, a failed call \<open>Some (Inl e)\<close>.
\<close>

definition readSchedulingPressure ::
    "queue_pressure js_result option \<Rightarrow> int js_result option \<Rightarrow> queue_pressure option" where
  "readSchedulingPressure getSchedulingPressure getReadySessionCount =
     (case getSchedulingPressure of
        Some (Inr p) \<Rightarrow> Some p
      | _ \<Rightarrow>
          (case getReadySessionCount of
             Some (Inr n) \<Rightarrow> Some (unknown_pressure\<lparr>qp_readySessionCount := Some n\<rparr>)
           | _ \<Rightarrow> None))"

definition slotSnapshots :: "pool_state \<Rightarrow> pool_slot list" where
  "slotSnapshots st = js_sort (\<lambda>l r. localeCompare (sl_slotId l) (sl_slotId r)) (jmap_values (ps_workerSlots st))"

definition busyWorkerCount :: "pool_state \<Rightarrow> int" where
  "busyWorkerCount st = int (length (filter (\<lambda>s. sl_state s = WBusy) (slotSnapshots st)))"

lemma busyWorkerCount_unsorted [code]:
  "busyWorkerCount st = int (length (filter (\<lambda>s. sl_state s = WBusy) (jmap_values (ps_workerSlots st))))"
  unfolding busyWorkerCount_def slotSnapshots_def
  by (metis mset_filter mset_js_sort size_mset)

definition activeWorkerCount :: "pool_state \<Rightarrow> int" where
  "activeWorkerCount st = int (length (ps_workers st))"

definition readGlobalWorkerLoad :: "active_worker list js_result option \<Rightarrow> pool_state \<Rightarrow> worker_load option" where
  "readGlobalWorkerLoad listActive st =
     (case listActive of
        Some (Inr activeWorkers) \<Rightarrow>
          Some (summarizeRedisWorkerLoad activeWorkers (ps_workers st) (activeWorkerCount st) (busyWorkerCount st))
      | _ \<Rightarrow> None)"

text \<open>The pressure as the report reads it back: none when no counter is known.\<close>

definition lastSchedulingPressure :: "pool_state \<Rightarrow> queue_pressure option" where
  "lastSchedulingPressure st =
     (let p = ps_lastPressure st in
      if p = unknown_pressure then None
      else Some (p\<lparr>qp_readySessionCount := Some (or_else (qp_readySessionCount p) 0)\<rparr>))"

subsection \<open>How many workers\<close>

definition cooldownRemainingMs :: "int option \<Rightarrow> int \<Rightarrow> int \<Rightarrow> int" where
  "cooldownRemainingMs lastChangeAtMs cooldownMs nowMs =
     (case lastChangeAtMs of
        None \<Rightarrow> 0
      | Some t \<Rightarrow> if t = 0 \<or> cooldownMs \<le> 0 then 0 else max 0 (t + cooldownMs - nowMs))"

definition lastCapacityChangeAtMs :: "pool_state \<Rightarrow> int option" where
  "lastCapacityChangeAtMs st =
     (let latest = max (or_else (ps_lastScaleUpAtMs st) 0) (or_else (ps_lastScaleDownAtMs st) 0)
      in if latest > 0 then Some latest else None)"

definition desiredWorkerCount :: "pool_config \<Rightarrow> int \<Rightarrow> int \<Rightarrow> bool \<Rightarrow> int \<Rightarrow> pool_state \<Rightarrow> int \<times> pool_state" where
  "desiredWorkerCount cfg suggestedWorkers currentWorkers startup nowMs st =
     (if \<not> pc_hasQueueFactory cfg then (1, st)
      else
        let upStreak = (if suggestedWorkers > currentWorkers then ps_scaleUpPressureStreak st + 1 else 0);
            downStreak = (if suggestedWorkers < currentWorkers then ps_scaleDownPressureStreak st + 1 else 0);
            st' = st\<lparr>ps_scaleUpPressureStreak := upStreak, ps_scaleDownPressureStreak := downStreak\<rparr>;
            targetWorkers =
              (if suggestedWorkers > currentWorkers then
                 (if upStreak \<ge> pc_scaleUpSampleSize cfg then suggestedWorkers else currentWorkers)
               else if suggestedWorkers < currentWorkers then
                 (if downStreak \<ge> pc_scaleDownSampleSize cfg then suggestedWorkers else currentWorkers)
               else suggestedWorkers)
        in if startup then (suggestedWorkers, st')
           else if targetWorkers > currentWorkers \<and>
                   cooldownRemainingMs (ps_lastScaleUpAtMs st') (pc_scaleUpCooldownMs cfg) nowMs > 0
             then (currentWorkers, st')
           else if targetWorkers < currentWorkers \<and>
                   cooldownRemainingMs (lastCapacityChangeAtMs st') (pc_scaleDownCooldownMs cfg) nowMs > 0
             then (currentWorkers, st')
           else (targetWorkers, st'))"

definition rawDesiredWorkerCount ::
    "pool_config \<Rightarrow> queue_pressure option \<Rightarrow> worker_load option \<Rightarrow> pool_state \<Rightarrow> int \<times> worker_load option \<times> pool_state" where
  "rawDesiredWorkerCount cfg schedulingPressure globalWorkerLoad st =
     (let sizing = calculateRedisWorkerPoolSuggestion
            \<lparr>si_minWorkers = pc_minWorkers cfg,
             si_maxWorkers = pc_maxWorkers cfg,
             si_readySessionsPerCapacityUnit = pc_readySessionsPerCapacityUnit cfg,
             si_reservedSubagentCapacity = pc_reservedSubagentCapacity cfg,
             si_localActiveWorkers = activeWorkerCount st,
             si_localBusyWorkers = busyWorkerCount st,
             si_scaleUpBusyRatioThreshold = pc_scaleUpBusyRatioThreshold cfg,
             si_scaleUpMaxReadyAgeMs = pc_scaleUpMaxReadyAgeMs cfg,
             si_schedulingPressure = schedulingPressure,
             si_globalWorkerLoad = globalWorkerLoad\<rparr>
      in (sr_localSuggestedWorkers sizing,
          map_option (\<lambda>l. l\<lparr>wl_globalSuggestedWorkers := sr_globalSuggestedWorkers sizing\<rparr>) globalWorkerLoad,
          st\<lparr>ps_lastReservedWorkers := Some (sr_reservedWorkers sizing)\<rparr>))"

subsection \<open>Reports\<close>

definition pressureSummary :: "pool_config \<Rightarrow> pool_state \<Rightarrow> pool_pressure" where
  "pressureSummary cfg st =
     summarizeRedisRunWorkerPoolPressure (activeWorkerCount st) (busyWorkerCount st)
       (pc_reservedSubagentCapacity cfg) (lastSchedulingPressure st)"

definition buildRedisRunWorkerPoolDecision :: "pool_config \<Rightarrow> rebalance_reason \<Rightarrow> int \<Rightarrow> pool_state \<Rightarrow> pool_decision" where
  "buildRedisRunWorkerPoolDecision cfg reason nowMs st =
     \<lparr>de_timestamp = or_else (ps_lastRebalanceAtMs st) nowMs,
      de_reason = reason,
      de_suggestedWorkers = ps_suggestedWorkers st,
      de_globalSuggestedWorkers = map_option wl_globalSuggestedWorkers (ps_lastLoad st),
      de_reservedSubagentCapacity = pc_reservedSubagentCapacity cfg,
      de_reservedWorkers = ps_lastReservedWorkers st,
      de_pressureSummary = pressureSummary cfg st,
      de_desiredWorkers = ps_desiredWorkers st,
      de_activeWorkers = activeWorkerCount st,
      de_busyWorkers = (if busyWorkerCount st > 0 then Some (busyWorkerCount st) else None),
      de_globalActiveWorkers = map_option wl_globalActiveWorkers (ps_lastLoad st),
      de_globalBusyWorkers = map_option wl_globalBusyWorkers (ps_lastLoad st),
      de_remoteActiveWorkers = map_option wl_remoteActiveWorkers (ps_lastLoad st),
      de_remoteBusyWorkers = map_option wl_remoteBusyWorkers (ps_lastLoad st),
      de_pressure = ps_lastPressure st\<rparr>"

text \<open>Two decisions are equivalent when they differ in their time at most.\<close>

definition areDecisionsEquivalent :: "pool_decision \<Rightarrow> pool_decision \<Rightarrow> bool" where
  "areDecisionsEquivalent left right \<longleftrightarrow> left\<lparr>de_timestamp := 0\<rparr> = right\<lparr>de_timestamp := 0\<rparr>"

definition appendRedisRunWorkerPoolDecision :: "pool_decision list \<Rightarrow> pool_decision \<Rightarrow> nat \<Rightarrow> pool_decision list" where
  "appendRedisRunWorkerPoolDecision decisions nextDecision maxEntries =
     (if decisions \<noteq> [] \<and> areDecisionsEquivalent (last decisions) nextDecision then decisions
      else let next = decisions @ [nextDecision]
           in if length next > maxEntries then drop (length next - maxEntries) next else next)"

definition recordDecision :: "pool_config \<Rightarrow> rebalance_reason \<Rightarrow> int \<Rightarrow> pool_state \<Rightarrow> pool_state" where
  "recordDecision cfg reason nowMs st =
     st\<lparr>ps_recentDecisions :=
         appendRedisRunWorkerPoolDecision (ps_recentDecisions st) (buildRedisRunWorkerPoolDecision cfg reason nowMs st) 8\<rparr>"

record pool_snapshot =
  sn_config :: pool_config
  sn_running :: bool
  sn_suggestedWorkers :: int
  sn_pressureSummary :: pool_pressure
  sn_desiredWorkers :: int
  sn_slots :: "pool_slot list"
  sn_activeWorkers :: int
  sn_busySlots :: int
  sn_idleSlots :: int
  sn_load :: "worker_load option"
  sn_pressure :: queue_pressure
  sn_lastRebalanceAt :: "int option"
  sn_lastRebalanceReason :: "rebalance_reason option"
  sn_scaleUpPressureStreak :: int
  sn_scaleDownPressureStreak :: int
  sn_scaleUpCooldownRemainingMs :: int
  sn_scaleDownCooldownRemainingMs :: int
  sn_recentDecisions :: "pool_decision list"

definition pool_snapshot_at :: "pool_config \<Rightarrow> int \<Rightarrow> pool_state \<Rightarrow> pool_snapshot" where
  "pool_snapshot_at cfg nowMs st =
     (let slots = slotSnapshots st in
      \<lparr>sn_config = cfg,
       sn_running = ps_active st,
       sn_suggestedWorkers = ps_suggestedWorkers st,
       sn_pressureSummary = pressureSummary cfg st,
       sn_desiredWorkers = ps_desiredWorkers st,
       sn_slots = slots,
       sn_activeWorkers = int (length slots),
       sn_busySlots = int (length (filter (\<lambda>s. sl_state s = WBusy) slots)),
       sn_idleSlots = int (length (filter (\<lambda>s. sl_state s = WIdle) slots)),
       sn_load = ps_lastLoad st,
       sn_pressure = ps_lastPressure st,
       sn_lastRebalanceAt = ps_lastRebalanceAtMs st,
       sn_lastRebalanceReason = ps_lastRebalanceReason st,
       sn_scaleUpPressureStreak = ps_scaleUpPressureStreak st,
       sn_scaleDownPressureStreak = ps_scaleDownPressureStreak st,
       sn_scaleUpCooldownRemainingMs =
         cooldownRemainingMs (ps_lastScaleUpAtMs st) (pc_scaleUpCooldownMs cfg) nowMs,
       sn_scaleDownCooldownRemainingMs =
         cooldownRemainingMs (lastCapacityChangeAtMs st) (pc_scaleDownCooldownMs cfg) nowMs,
       sn_recentDecisions = ps_recentDecisions st\<rparr>)"

subsection \<open>Starting, rebalancing and closing\<close>

definition starting_slot :: "pool_config \<Rightarrow> string \<Rightarrow> pool_slot" where
  "starting_slot cfg workerId =
     \<lparr>sl_slotId = workerId, sl_workerId = workerId, sl_processKind = pc_processKind cfg, sl_state = WStarting,
      sl_currentSessionId = None, sl_currentRunId = None, sl_currentWorkspaceId = None\<rparr>"

text \<open>
  Two calls may reject while the pool is resized: \<open>queueFactory\<close>, before a worker is created, and the close of a removed worker or
  of its queue, after the worker was taken off the list and before its slot is deleted. Either ends the rebalance where it is. The rejections are
  an argument: of the \<open>k\<close>-th call of the factory, and of the close of a worker. The second component of a result says whether the call
  rejected. The worker ids come from \<open>createId\<close>: the supply \<open>ids\<close> is an argument. Starting a worker reports its state
  \<open>starting\<close> at once, closing one its state \<open>stopping\<close>. The loop runs \<open>desired - workers\<close> times when the
  pool is active.
\<close>

definition queue_rejects :: "pool_config \<Rightarrow> (nat \<Rightarrow> bool) \<Rightarrow> bool" where
  "queue_rejects cfg factoryRejects \<longleftrightarrow> pc_hasQueueFactory cfg \<and> factoryRejects 0"

fun start_workers ::
    "pool_config \<Rightarrow> (nat \<Rightarrow> bool) \<Rightarrow> string list \<Rightarrow> nat \<Rightarrow> pool_state \<Rightarrow> pool_state \<times> bool" where
  "start_workers cfg factoryRejects (workerId # ids) (Suc n) st =
     (if queue_rejects cfg factoryRejects then (st, True)
      else start_workers cfg (\<lambda>k. factoryRejects (Suc k)) ids n
        (st\<lparr>ps_workers := ps_workers st @ [workerId],
            ps_workerSlots := AList.update workerId (starting_slot cfg workerId) (ps_workerSlots st)\<rparr>))"
| "start_workers cfg factoryRejects ids n st = (st, False)"

definition stopping_slot :: "pool_config \<Rightarrow> string \<Rightarrow> pool_slot" where
  "stopping_slot cfg workerId = (starting_slot cfg workerId)\<lparr>sl_state := WStopping\<rparr>"

primrec stop_workers :: "pool_config \<Rightarrow> (string \<Rightarrow> bool) \<Rightarrow> nat \<Rightarrow> pool_state \<Rightarrow> pool_state \<times> bool" where
  "stop_workers cfg closeRejects 0 st = (st, False)"
| "stop_workers cfg closeRejects (Suc n) st =
     (if ps_workers st = [] then (st, False)
      else
        let removed = last (ps_workers st);
            popped = st\<lparr>ps_workers := butlast (ps_workers st)\<rparr>
        in if closeRejects removed
           then (popped\<lparr>ps_workerSlots := AList.update removed (stopping_slot cfg removed) (ps_workerSlots popped)\<rparr>, True)
           else stop_workers cfg closeRejects n (popped\<lparr>ps_workerSlots := AList.delete removed (ps_workerSlots popped)\<rparr>))"

record rebalance_input =
  ri_startup :: bool
  ri_nowMs :: int
  ri_getSchedulingPressure :: "queue_pressure js_result option"
  ri_getReadySessionCount :: "int js_result option"
  ri_listActive :: "active_worker list js_result option"
  ri_ids :: "string list"
  ri_factoryRejects :: "nat \<Rightarrow> bool"
  ri_closeRejects :: "string \<Rightarrow> bool"

definition rebalance_reason_of :: "bool \<Rightarrow> int \<Rightarrow> int \<Rightarrow> bool \<Rightarrow> int \<Rightarrow> int \<Rightarrow> rebalance_reason" where
  "rebalance_reason_of startup activeWorkers currentWorkers scaledDown desiredWorkers suggestedWorkers =
     (if startup then RStartup
      else if activeWorkers > currentWorkers then RScaleUp
      else if scaledDown then RScaleDown
      else if desiredWorkers \<noteq> suggestedWorkers then RCooldownHold
      else RSteady)"

definition decide :: "pool_config \<Rightarrow> rebalance_input \<Rightarrow> pool_state \<Rightarrow> int \<times> worker_load option \<times> pool_state" where
  "decide cfg i st =
     (let schedulingPressure = readSchedulingPressure (ri_getSchedulingPressure i) (ri_getReadySessionCount i);
          globalWorkerLoad = readGlobalWorkerLoad (ri_listActive i) st;
          currentWorkers = activeWorkerCount st;
          (suggestedWorkers, load, st1) = rawDesiredWorkerCount cfg schedulingPressure globalWorkerLoad st;
          (desiredWorkers, st2) = desiredWorkerCount cfg suggestedWorkers currentWorkers (ri_startup i) (ri_nowMs i) st1
      in (desiredWorkers, load,
          st2\<lparr>ps_suggestedWorkers := suggestedWorkers,
              ps_desiredWorkers := desiredWorkers,
              ps_lastPressure := or_else schedulingPressure unknown_pressure,
              ps_lastLoad := load\<rparr>))"

definition resize :: "pool_config \<Rightarrow> rebalance_input \<Rightarrow> int \<Rightarrow> pool_state \<Rightarrow> pool_state \<times> bool" where
  "resize cfg i desiredWorkers st =
     (let (st1, rejected) =
            (if ps_active st
             then start_workers cfg (ri_factoryRejects i) (ri_ids i) (nat (desiredWorkers - activeWorkerCount st)) st
             else (st, False))
      in if rejected then (st1, True)
         else stop_workers cfg (ri_closeRejects i) (nat (activeWorkerCount st1 - desiredWorkers)) st1)"

definition conclude ::
    "pool_config \<Rightarrow> rebalance_input \<Rightarrow> int \<Rightarrow> bool \<Rightarrow> worker_load option \<Rightarrow> pool_state \<Rightarrow> pool_state" where
  "conclude cfg i currentWorkers scaledDown load st =
     (let activeWorkers = activeWorkerCount st;
          reason = rebalance_reason_of (ri_startup i) activeWorkers currentWorkers scaledDown
                     (ps_desiredWorkers st) (ps_suggestedWorkers st);
          nowMs = ri_nowMs i
      in recordDecision cfg reason nowMs
           (st\<lparr>ps_lastScaleUpAtMs := (if activeWorkers > currentWorkers then Some nowMs else ps_lastScaleUpAtMs st),
               ps_lastScaleDownAtMs := (if scaledDown then Some nowMs else ps_lastScaleDownAtMs st),
               ps_lastRebalanceAtMs := Some nowMs,
               ps_lastRebalanceReason := Some reason,
               ps_lastLoad := map_option (\<lambda>l. l\<lparr>wl_globalActiveWorkers := wl_remoteActiveWorkers l + activeWorkers,
                                 wl_globalBusyWorkers := wl_remoteBusyWorkers l + busyWorkerCount st\<rparr>) load\<rparr>))"

text \<open>A rebalance that rejects has set what \<open>decide\<close> sets and concludes nothing.\<close>

definition rebalance :: "pool_config \<Rightarrow> rebalance_input \<Rightarrow> pool_state \<Rightarrow> pool_state \<times> bool" where
  "rebalance cfg i st =
     (let currentWorkers = activeWorkerCount st;
          (desiredWorkers, load, st1) = decide cfg i st;
          (st2, rejected) = resize cfg i desiredWorkers st1;
          scaledDown = activeWorkerCount st1 > desiredWorkers
      in if rejected then (st2, True) else (conclude cfg i currentWorkers scaledDown load st2, False))"

text \<open>
  \<open>start\<close> activates the pool and rebalances; later rebalances come from the timer. A worker's
  callback replaces its slot, whether the pool still has the worker or not. \<open>close\<close> takes all workers off the list and closes them together; when one of these
  closes rejects, the slots and the wanted number stay as they are.
\<close>

definition pool_start :: "pool_config \<Rightarrow> rebalance_input \<Rightarrow> pool_state \<Rightarrow> pool_state \<times> bool" where
  "pool_start cfg i st =
     (if ps_active st then (st, False) else rebalance cfg (i\<lparr>ri_startup := True\<rparr>) (st\<lparr>ps_active := True\<rparr>))"

definition pool_callback :: "pool_config \<Rightarrow> string \<Rightarrow> worker_state \<Rightarrow> string option \<Rightarrow> string option \<Rightarrow> string option \<Rightarrow>
    pool_state \<Rightarrow> pool_state" where
  "pool_callback cfg workerId s sid rid wid st =
     st\<lparr>ps_workerSlots := AList.update workerId
         \<lparr>sl_slotId = workerId, sl_workerId = workerId, sl_processKind = pc_processKind cfg, sl_state = s,
          sl_currentSessionId = keep_truthy sid, sl_currentRunId = keep_truthy rid,
          sl_currentWorkspaceId = keep_truthy wid\<rparr> (ps_workerSlots st)\<rparr>"

definition pool_close :: "pool_config \<Rightarrow> (string \<Rightarrow> bool) \<Rightarrow> int \<Rightarrow> pool_state \<Rightarrow> pool_state \<times> bool" where
  "pool_close cfg closeRejects nowMs st =
     (if \<exists>w\<in>set (ps_workers st). closeRejects w
      then (st\<lparr>ps_active := False, ps_workers := [],
               ps_workerSlots := fold (\<lambda>w. AList.update w (stopping_slot cfg w)) (rev (ps_workers st)) (ps_workerSlots st)\<rparr>, True)
      else (recordDecision cfg RShutdown nowMs
             (st\<lparr>ps_active := False, ps_workers := [], ps_workerSlots := [], ps_desiredWorkers := 0,
                 ps_lastRebalanceAtMs := Some nowMs, ps_lastRebalanceReason := Some RShutdown\<rparr>), False))"

datatype pool_event =
    PoolStart rebalance_input
  | PoolInterval rebalance_input
  | PoolCallback string worker_state "string option" "string option" "string option"
  | PoolClose "string \<Rightarrow> bool" int

fun pool_step :: "pool_config \<Rightarrow> pool_event \<Rightarrow> pool_state \<Rightarrow> pool_state \<times> bool" where
  "pool_step cfg (PoolStart i) st = pool_start cfg i st"
| "pool_step cfg (PoolInterval i) st =
     (if ps_active st then rebalance cfg (i\<lparr>ri_startup := False\<rparr>) st else (st, False))"
| "pool_step cfg (PoolCallback w s sid rid wid) st = (pool_callback cfg w s sid rid wid st, False)"
| "pool_step cfg (PoolClose closeRejects now) st = pool_close cfg closeRejects now st"

text \<open>The state of a pool after a sequence of events, the first one new; the process goes on after a rejection.\<close>

definition pool_run :: "pool_config \<Rightarrow> pool_event list \<Rightarrow> pool_state" where
  "pool_run cfg es = foldl (\<lambda>st e. fst (pool_step cfg e st)) new_pool es"

lemma pool_run_snoc: "pool_run cfg (es @ [e]) = fst (pool_step cfg e (pool_run cfg es))"
  by (simp add: pool_run_def)

text \<open>
  What happened on the way: whether the latest rebalance or close completed, and whether all did, with callbacks from workers of the pool only.
\<close>

definition resizes :: "pool_event \<Rightarrow> pool_state \<Rightarrow> bool" where
  "resizes e st =
     (case e of PoolStart i \<Rightarrow> \<not> ps_active st | PoolInterval i \<Rightarrow> ps_active st | PoolClose r now \<Rightarrow> True | _ \<Rightarrow> False)"

fun pool_settled_from :: "pool_config \<Rightarrow> pool_event list \<Rightarrow> pool_state \<Rightarrow> bool \<Rightarrow> bool" where
  "pool_settled_from cfg [] st b = b"
| "pool_settled_from cfg (e # es) st b =
     pool_settled_from cfg es (fst (pool_step cfg e st)) (if resizes e st then \<not> snd (pool_step cfg e st) else b)"

definition pool_settled :: "pool_config \<Rightarrow> pool_event list \<Rightarrow> bool" where
  "pool_settled cfg es = pool_settled_from cfg es new_pool True"

fun pool_undisturbed_from :: "pool_config \<Rightarrow> pool_event list \<Rightarrow> pool_state \<Rightarrow> bool" where
  "pool_undisturbed_from cfg [] st = True"
| "pool_undisturbed_from cfg (e # es) st =
     (\<not> snd (pool_step cfg e st) \<and>
      (case e of PoolCallback w s sid rid wid \<Rightarrow> w \<in> set (ps_workers st) | _ \<Rightarrow> True) \<and>
      pool_undisturbed_from cfg es (fst (pool_step cfg e st)))"

definition pool_undisturbed :: "pool_config \<Rightarrow> pool_event list \<Rightarrow> bool" where
  "pool_undisturbed cfg es = pool_undisturbed_from cfg es new_pool"

lemma pool_settled_snoc:
  "pool_settled cfg (es @ [e]) =
    (let st = pool_run cfg es in if resizes e st then \<not> snd (pool_step cfg e st) else pool_settled cfg es)"
proof -
  have "pool_settled_from cfg (es @ [e]) st b =
      (let st' = foldl (\<lambda>st e. fst (pool_step cfg e st)) st es
       in if resizes e st' then \<not> snd (pool_step cfg e st') else pool_settled_from cfg es st b)" for st b
    by (induction es arbitrary: st b) (simp_all add: Let_def)
  then show ?thesis by (simp add: pool_settled_def pool_run_def)
qed

lemma pool_undisturbed_snoc:
  "pool_undisturbed cfg (es @ [e]) \<longleftrightarrow>
    pool_undisturbed cfg es \<and> \<not> snd (pool_step cfg e (pool_run cfg es)) \<and>
    (case e of PoolCallback w s sid rid wid \<Rightarrow> w \<in> set (ps_workers (pool_run cfg es)) | _ \<Rightarrow> True)"
proof -
  have "pool_undisturbed_from cfg (es @ [e]) st \<longleftrightarrow>
      pool_undisturbed_from cfg es st \<and>
      (let st' = foldl (\<lambda>st e. fst (pool_step cfg e st)) st es
       in \<not> snd (pool_step cfg e st') \<and> (case e of PoolCallback w s sid rid wid \<Rightarrow> w \<in> set (ps_workers st') | _ \<Rightarrow> True))" for st
    by (induction es arbitrary: st) (simp_all add: Let_def conj_assoc)
  from this [of new_pool] show ?thesis unfolding pool_undisturbed_def pool_run_def Let_def .
qed

subsection \<open>The size of the pool\<close>

lemma count_active [simp]: "activeWorkerCount (st\<lparr>ps_active := b\<rparr>) = activeWorkerCount st"
  by (simp add: activeWorkerCount_def)

lemma count_start_workers:
  "n \<le> length ids \<Longrightarrow>
    activeWorkerCount st \<le> activeWorkerCount (fst (start_workers cfg r ids n st)) \<and>
    activeWorkerCount (fst (start_workers cfg r ids n st)) \<le> activeWorkerCount st + int n \<and>
    (\<not> snd (start_workers cfg r ids n st) \<longrightarrow>
      activeWorkerCount (fst (start_workers cfg r ids n st)) = activeWorkerCount st + int n)"
  by (induction cfg r ids n st rule: start_workers.induct) (auto simp: activeWorkerCount_def)

lemma count_stop_workers:
  "int n \<le> activeWorkerCount st \<Longrightarrow>
    activeWorkerCount st - int n \<le> activeWorkerCount (fst (stop_workers cfg r n st)) \<and>
    activeWorkerCount (fst (stop_workers cfg r n st)) \<le> activeWorkerCount st \<and>
    (\<not> snd (stop_workers cfg r n st) \<longrightarrow>
      activeWorkerCount (fst (stop_workers cfg r n st)) = activeWorkerCount st - int n)"
proof (induction n arbitrary: st)
  case (Suc n)
  let ?st = "st\<lparr>ps_workers := butlast (ps_workers st),
      ps_workerSlots := AList.delete (last (ps_workers st)) (ps_workerSlots st)\<rparr>"
  have ne: "ps_workers st \<noteq> []" using Suc.prems by (auto simp: activeWorkerCount_def)
  then have len: "int (length (ps_workers st) - Suc 0) = int (length (ps_workers st)) - 1"
    by (simp add: of_nat_diff Suc_leI)
  then have c: "activeWorkerCount ?st = activeWorkerCount st - 1" by (simp add: activeWorkerCount_def)
  then have "int n \<le> activeWorkerCount ?st" using Suc.prems by simp
  from Suc.IH [OF this] Suc.prems c len ne show ?case by (auto simp: Let_def activeWorkerCount_def)
qed simp

text \<open>Fields a resize leaves alone.\<close>

lemma start_workers_frame [simp]:
  "ps_active (fst (start_workers cfg r ids n st)) = ps_active st"
  "ps_desiredWorkers (fst (start_workers cfg r ids n st)) = ps_desiredWorkers st"
  "ps_suggestedWorkers (fst (start_workers cfg r ids n st)) = ps_suggestedWorkers st"
  "ps_lastScaleUpAtMs (fst (start_workers cfg r ids n st)) = ps_lastScaleUpAtMs st"
  "ps_lastScaleDownAtMs (fst (start_workers cfg r ids n st)) = ps_lastScaleDownAtMs st"
  "ps_scaleUpPressureStreak (fst (start_workers cfg r ids n st)) = ps_scaleUpPressureStreak st"
  "ps_scaleDownPressureStreak (fst (start_workers cfg r ids n st)) = ps_scaleDownPressureStreak st"
  by (induction cfg r ids n st rule: start_workers.induct) auto

lemma stop_workers_frame [simp]:
  "ps_active (fst (stop_workers cfg r n st)) = ps_active st"
  "ps_desiredWorkers (fst (stop_workers cfg r n st)) = ps_desiredWorkers st"
  "ps_suggestedWorkers (fst (stop_workers cfg r n st)) = ps_suggestedWorkers st"
  "ps_lastScaleUpAtMs (fst (stop_workers cfg r n st)) = ps_lastScaleUpAtMs st"
  "ps_lastScaleDownAtMs (fst (stop_workers cfg r n st)) = ps_lastScaleDownAtMs st"
  "ps_scaleUpPressureStreak (fst (stop_workers cfg r n st)) = ps_scaleUpPressureStreak st"
  "ps_scaleDownPressureStreak (fst (stop_workers cfg r n st)) = ps_scaleDownPressureStreak st"
  by (induction n arbitrary: st) (auto simp: Let_def)

lemma resize_frame [simp]:
  "ps_active (fst (resize cfg i d st)) = ps_active st"
  "ps_desiredWorkers (fst (resize cfg i d st)) = ps_desiredWorkers st"
  "ps_suggestedWorkers (fst (resize cfg i d st)) = ps_suggestedWorkers st"
  "ps_lastScaleUpAtMs (fst (resize cfg i d st)) = ps_lastScaleUpAtMs st"
  "ps_lastScaleDownAtMs (fst (resize cfg i d st)) = ps_lastScaleDownAtMs st"
  "ps_scaleUpPressureStreak (fst (resize cfg i d st)) = ps_scaleUpPressureStreak st"
  "ps_scaleDownPressureStreak (fst (resize cfg i d st)) = ps_scaleDownPressureStreak st"
  by (simp_all add: resize_def split_def Let_def)

lemma conclude_frame [simp]:
  "ps_active (conclude cfg i c s l st) = ps_active st"
  "ps_workers (conclude cfg i c s l st) = ps_workers st"
  "ps_workerSlots (conclude cfg i c s l st) = ps_workerSlots st"
  "ps_desiredWorkers (conclude cfg i c s l st) = ps_desiredWorkers st"
  "ps_scaleUpPressureStreak (conclude cfg i c s l st) = ps_scaleUpPressureStreak st"
  "ps_scaleDownPressureStreak (conclude cfg i c s l st) = ps_scaleDownPressureStreak st"
  "ps_lastScaleUpAtMs (conclude cfg i c s l st) =
     (if activeWorkerCount st > c then Some (ri_nowMs i) else ps_lastScaleUpAtMs st)"
  "ps_lastScaleDownAtMs (conclude cfg i c s l st) = (if s then Some (ri_nowMs i) else ps_lastScaleDownAtMs st)"
  "activeWorkerCount (conclude cfg i c s l st) = activeWorkerCount st"
  by (simp_all add: conclude_def recordDecision_def activeWorkerCount_def Let_def)

lemma decide_frame:
  assumes "decide cfg i st = (d, load, st1)"
  shows "ps_active st1 = ps_active st" "ps_workers st1 = ps_workers st" "ps_workerSlots st1 = ps_workerSlots st"
    "ps_desiredWorkers st1 = d" "ps_lastScaleUpAtMs st1 = ps_lastScaleUpAtMs st"
    "ps_lastScaleDownAtMs st1 = ps_lastScaleDownAtMs st"
  using assms
  by (auto simp: decide_def rawDesiredWorkerCount_def desiredWorkerCount_def Let_def split: prod.splits if_splits)

lemma count_resize:
  assumes "ps_active st" "nat (d - activeWorkerCount st) \<le> length (ri_ids i)" "0 \<le> d"
  shows "activeWorkerCount (fst (resize cfg i d st)) \<le> max d (activeWorkerCount st)"
    "\<not> snd (resize cfg i d st) \<Longrightarrow> activeWorkerCount (fst (resize cfg i d st)) = d"
proof -
  let ?r = "start_workers cfg (ri_factoryRejects i) (ri_ids i) (nat (d - activeWorkerCount st)) st"
  let ?n = "nat (activeWorkerCount (fst ?r) - d)"
  note c = count_start_workers [OF assms(2), of st cfg "ri_factoryRejects i"]
  have "int ?n \<le> activeWorkerCount (fst ?r)" using assms(3) by (simp add: activeWorkerCount_def)
  note c = c count_stop_workers [OF this, of cfg "ri_closeRejects i"]
  show "activeWorkerCount (fst (resize cfg i d st)) \<le> max d (activeWorkerCount st)"
    using c assms(1) by (auto simp: resize_def split_def Let_def)
  show "activeWorkerCount (fst (resize cfg i d st)) = d" if "\<not> snd (resize cfg i d st)"
    using c assms(1) that by (auto simp: resize_def split_def Let_def split: if_splits)
qed

lemma suggestion_bounds:
  assumes "rawDesiredWorkerCount cfg p load st = (n, load', st')" "pc_minWorkers cfg \<le> pc_maxWorkers cfg"
  shows "pc_minWorkers cfg \<le> n \<and> n \<le> pc_maxWorkers cfg"
proof -
  obtain input where "n = sr_localSuggestedWorkers (calculateRedisWorkerPoolSuggestion input)"
    "si_minWorkers input = pc_minWorkers cfg" "si_maxWorkers input = pc_maxWorkers cfg"
    using assms(1) unfolding rawDesiredWorkerCount_def Let_def
    by (metis (no_types, lifting) fst_conv sizing_input.select_convs(1,2))
  with sizing_local [of input] assms(2) show ?thesis by auto
qed

lemma pool_config_bounds [simp]:
  "1 \<le> pc_minWorkers (pool_config_of options)"
  "pc_minWorkers (pool_config_of options) \<le> pc_maxWorkers (pool_config_of options)"
  "1 \<le> pc_scaleUpSampleSize (pool_config_of options)" "1 \<le> pc_scaleDownSampleSize (pool_config_of options)"
  "0 \<le> pc_scaleUpCooldownMs (pool_config_of options)" "0 \<le> pc_scaleDownCooldownMs (pool_config_of options)"
  by (simp_all add: pool_config_of_def Let_def)

definition in_limits :: "pool_config \<Rightarrow> int \<Rightarrow> bool" where
  "in_limits cfg n \<longleftrightarrow>
     (if pc_hasQueueFactory cfg then pc_minWorkers cfg \<le> n \<and> n \<le> pc_maxWorkers cfg else n = 1)"

lemma desired_cases:
  assumes "desiredWorkerCount cfg s c startup now st = (d, st')"
  shows "(\<not> pc_hasQueueFactory cfg \<and> d = 1) \<or> (pc_hasQueueFactory cfg \<and> (d = s \<or> (d = c \<and> \<not> startup)))"
  using assms by (auto simp: desiredWorkerCount_def Let_def split: if_splits)

lemma decide_in_limits:
  assumes "decide cfg i st = (d, load, st1)" "pc_minWorkers cfg \<le> pc_maxWorkers cfg"
    and "ri_startup i \<or> in_limits cfg (activeWorkerCount st)"
  shows "in_limits cfg d"
proof -
  obtain s l st0 where raw: "rawDesiredWorkerCount cfg
      (readSchedulingPressure (ri_getSchedulingPressure i) (ri_getReadySessionCount i))
      (readGlobalWorkerLoad (ri_listActive i) st) st = (s, l, st0)" by (metis prod_cases3)
  with assms(1) obtain st2 where
    "desiredWorkerCount cfg s (activeWorkerCount st) (ri_startup i) (ri_nowMs i) st0 = (d, st2)"
    by (auto simp: decide_def Let_def split: prod.splits)
  from desired_cases [OF this] suggestion_bounds [OF raw assms(2)] assms(3) show ?thesis
    by (auto simp: in_limits_def)
qed

text \<open>Whatever rejects, a pool never has more workers than its maximum.\<close>

definition most_workers :: "pool_config \<Rightarrow> int" where
  "most_workers cfg = (if pc_hasQueueFactory cfg then pc_maxWorkers cfg else 1)"

lemma decide_at_most:
  assumes "decide cfg i st = (d, load, st1)" "pc_minWorkers cfg \<le> pc_maxWorkers cfg" "1 \<le> pc_minWorkers cfg"
    and "activeWorkerCount st \<le> most_workers cfg"
  shows "0 \<le> d" "d \<le> most_workers cfg"
proof -
  obtain s l st0 where raw: "rawDesiredWorkerCount cfg
      (readSchedulingPressure (ri_getSchedulingPressure i) (ri_getReadySessionCount i))
      (readGlobalWorkerLoad (ri_listActive i) st) st = (s, l, st0)" by (metis prod_cases3)
  with assms(1) obtain st2 where
    d: "desiredWorkerCount cfg s (activeWorkerCount st) (ri_startup i) (ri_nowMs i) st0 = (d, st2)"
    by (auto simp: decide_def Let_def split: prod.splits)
  have "0 \<le> activeWorkerCount st" by (simp add: activeWorkerCount_def)
  with desired_cases [OF d] suggestion_bounds [OF raw assms(2)] assms(3,4)
  show "0 \<le> d" "d \<le> most_workers cfg" by (auto simp: most_workers_def)
qed

lemma rebalance_size:
  assumes "ps_active st" "pc_minWorkers cfg \<le> pc_maxWorkers cfg" "1 \<le> pc_minWorkers cfg"
    and "activeWorkerCount st \<le> most_workers cfg" "nat (pc_maxWorkers cfg) \<le> length (ri_ids i)"
    and r: "rebalance cfg i st = (st', rejected)"
  shows "ps_active st'" "activeWorkerCount st' \<le> most_workers cfg"
    "\<not> rejected \<Longrightarrow> activeWorkerCount st' = ps_desiredWorkers st'"
    "\<not> rejected \<Longrightarrow> ri_startup i \<or> in_limits cfg (activeWorkerCount st) \<Longrightarrow> in_limits cfg (activeWorkerCount st')"
proof -
  obtain d load st1 where dec: "decide cfg i st = (d, load, st1)" by (metis prod_cases3)
  note f = decide_frame [OF dec]
  note d = decide_at_most [OF dec assms(2-4)]
  have same: "activeWorkerCount st1 = activeWorkerCount st" using f(2) by (simp add: activeWorkerCount_def)
  have "d \<le> pc_maxWorkers cfg" using d assms(2,3) by (auto simp: most_workers_def split: if_splits)
  moreover have "0 \<le> activeWorkerCount st" by (simp add: activeWorkerCount_def)
  ultimately have enough: "nat (d - activeWorkerCount st1) \<le> length (ri_ids i)" using same assms(5) by linarith
  have on: "ps_active st1" using assms(1) f(1) by simp
  note c = count_resize [OF on enough d(1), of cfg]
  have rej: "rejected = snd (resize cfg i d st1)" using r by (auto simp: rebalance_def dec Let_def split: prod.splits if_splits)
  have st': "ps_active st' = ps_active st1" "ps_desiredWorkers st' = d"
    "activeWorkerCount st' = activeWorkerCount (fst (resize cfg i d st1))"
    using r f(4) resize_frame(1,2) [of cfg i d st1] by (auto simp: rebalance_def dec split_def Let_def split: if_splits)
  show "ps_active st'" using st'(1) on by simp
  show "activeWorkerCount st' \<le> most_workers cfg" using c(1) d(2) assms(4) same st'(3) by linarith
  show size: "activeWorkerCount st' = ps_desiredWorkers st'" if "\<not> rejected" using c(2) that st' rej by simp
  show "in_limits cfg (activeWorkerCount st')" if "\<not> rejected" "ri_startup i \<or> in_limits cfg (activeWorkerCount st)"
    using size [OF that(1)] st'(2) decide_in_limits [OF dec assms(2) that(2)] by simp
qed

subsection \<open>Runs of the pool\<close>

fun event_input :: "pool_event \<Rightarrow> rebalance_input option" where
  "event_input (PoolStart i) = Some i"
| "event_input (PoolInterval i) = Some i"
| "event_input (PoolCallback w s sid rid wid) = None"
| "event_input (PoolClose r now) = None"

definition event_ids :: "pool_event \<Rightarrow> string list" where
  "event_ids e = (case event_input e of None \<Rightarrow> [] | Some i \<Rightarrow> ri_ids i)"

definition event_times :: "pool_event list \<Rightarrow> int list" where
  "event_times es = List.map_filter (\<lambda>e. map_option ri_nowMs (event_input e)) es"

text \<open>\<open>createId\<close> never gives an id twice, and never runs out.\<close>

definition fresh_ids :: "pool_config \<Rightarrow> pool_event list \<Rightarrow> bool" where
  "fresh_ids cfg es \<longleftrightarrow>
     distinct (concat (map event_ids es)) \<and>
     list_all (\<lambda>e. case event_input e of None \<Rightarrow> True | Some i \<Rightarrow> nat (pc_maxWorkers cfg) \<le> length (ri_ids i)) es"











text \<open>A step of the pool. A start that does something and a rebalance of the timer are rebalances.\<close>

lemma step_cases:
  obtains (Same) "fst (pool_step cfg e st) = st" "\<not> snd (pool_step cfg e st)" "\<not> resizes e st"
      "event_input e \<noteq> None"
    | (Rebalance) i st0 where "pool_step cfg e st = rebalance cfg i st0" "resizes e st" "ri_ids i = event_ids e" "ps_active st0"
      "st0 = st \<or> st0 = st\<lparr>ps_active := True\<rparr>" "ri_startup i \<or> (ps_active st \<and> st0 = st)"
      "\<exists>j. event_input e = Some j \<and> ri_nowMs j = ri_nowMs i"
    | (Callback) w s sid rid wid where "e = PoolCallback w s sid rid wid" "\<not> resizes e st"
    | (Close) r now where "e = PoolClose r now" "resizes e st"
proof (cases e)
  case (PoolStart i)
  show thesis
  proof (cases "ps_active st")
    case True
    then show thesis using Same PoolStart by (simp add: pool_start_def resizes_def)
  next
    case False
    show thesis
      by (rule Rebalance [of "i\<lparr>ri_startup := True\<rparr>" "st\<lparr>ps_active := True\<rparr>"])
        (use PoolStart False in \<open>simp_all add: pool_start_def resizes_def event_ids_def\<close>)
  qed
next
  case (PoolInterval i)
  show thesis
  proof (cases "ps_active st")
    case True
    show thesis
      by (rule Rebalance [of "i\<lparr>ri_startup := False\<rparr>" st])
        (use PoolInterval True in \<open>simp_all add: resizes_def event_ids_def\<close>)
  next
    case False
    then show thesis using Same PoolInterval by (simp add: resizes_def)
  qed
qed (use Callback Close in \<open>simp_all add: resizes_def\<close>)

lemma close_drops_workers:
  "ps_workers (fst (pool_close cfg r now st)) = []" "\<not> ps_active (fst (pool_close cfg r now st))"
  "\<not> snd (pool_close cfg r now st) \<Longrightarrow> ps_workerSlots (fst (pool_close cfg r now st)) = []"
  "\<not> snd (pool_close cfg r now st) \<Longrightarrow> ps_desiredWorkers (fst (pool_close cfg r now st)) = 0"
  by (simp_all add: pool_close_def recordDecision_def split: if_splits)



text \<open>What holds of the size whatever rejects, and what holds as long as nothing does.\<close>

definition size_bounded :: "pool_config \<Rightarrow> pool_state \<Rightarrow> bool" where
  "size_bounded cfg st \<longleftrightarrow>
     activeWorkerCount st \<le> most_workers cfg \<and> (ps_active st \<or> ps_workers st = [])"

definition size_ok :: "pool_config \<Rightarrow> pool_state \<Rightarrow> bool" where
  "size_ok cfg st \<longleftrightarrow>
     activeWorkerCount st = ps_desiredWorkers st \<and>
     (if ps_active st then in_limits cfg (activeWorkerCount st) else ps_workers st = [])"

lemma size_step:
  assumes "size_bounded cfg st" "pc_minWorkers cfg \<le> pc_maxWorkers cfg" "1 \<le> pc_minWorkers cfg"
    and "case event_input e of None \<Rightarrow> True | Some i \<Rightarrow> nat (pc_maxWorkers cfg) \<le> length (ri_ids i)"
  shows "size_bounded cfg (fst (pool_step cfg e st))"
    "resizes e st \<Longrightarrow> \<not> snd (pool_step cfg e st) \<Longrightarrow>
      activeWorkerCount (fst (pool_step cfg e st)) = ps_desiredWorkers (fst (pool_step cfg e st))"
    "\<not> resizes e st \<Longrightarrow> activeWorkerCount (fst (pool_step cfg e st)) = activeWorkerCount st \<and>
      ps_desiredWorkers (fst (pool_step cfg e st)) = ps_desiredWorkers st"
    "size_ok cfg st \<Longrightarrow> \<not> snd (pool_step cfg e st) \<Longrightarrow> size_ok cfg (fst (pool_step cfg e st))"
proof -
  let ?st = "fst (pool_step cfg e st)"
  have "size_bounded cfg ?st \<and>
      (resizes e st \<and> \<not> snd (pool_step cfg e st) \<longrightarrow> activeWorkerCount ?st = ps_desiredWorkers ?st) \<and>
      (\<not> resizes e st \<longrightarrow> activeWorkerCount ?st = activeWorkerCount st \<and> ps_desiredWorkers ?st = ps_desiredWorkers st) \<and>
      (size_ok cfg st \<and> \<not> snd (pool_step cfg e st) \<longrightarrow> size_ok cfg ?st)"
  proof (cases rule: step_cases [of cfg e st])
    case Same
    with assms(1) show ?thesis by simp
  next
    case (Rebalance i st0)
    have count: "activeWorkerCount st0 = activeWorkerCount st" using Rebalance(5) by auto
    have "nat (pc_maxWorkers cfg) \<le> length (ri_ids i)"
      using assms(4) Rebalance(3,7) by (auto simp: event_ids_def split: option.splits)
    moreover have "activeWorkerCount st0 \<le> most_workers cfg" using assms(1) count by (simp add: size_bounded_def)
    moreover have "rebalance cfg i st0 = (?st, snd (pool_step cfg e st))" using Rebalance(1) by simp
    ultimately have r: "ps_active ?st" "activeWorkerCount ?st \<le> most_workers cfg"
      "\<not> snd (pool_step cfg e st) \<Longrightarrow> activeWorkerCount ?st = ps_desiredWorkers ?st"
      "\<not> snd (pool_step cfg e st) \<Longrightarrow> ri_startup i \<or> in_limits cfg (activeWorkerCount st0) \<Longrightarrow> in_limits cfg (activeWorkerCount ?st)"
      using rebalance_size [OF Rebalance(4) assms(2,3)] by blast+
    then show ?thesis using Rebalance(2,6) count by (auto simp: size_bounded_def size_ok_def)
  next
    case (Callback w s sid rid wid)
    then show ?thesis using assms(1) by (auto simp: pool_callback_def size_bounded_def size_ok_def activeWorkerCount_def)
  next
    case (Close r now)
    have "0 \<le> most_workers cfg" using assms(2,3) by (simp add: most_workers_def)
    then show ?thesis using Close close_drops_workers by (simp add: size_bounded_def size_ok_def activeWorkerCount_def)
  qed
  then show "size_bounded cfg (fst (pool_step cfg e st))"
    "resizes e st \<Longrightarrow> \<not> snd (pool_step cfg e st) \<Longrightarrow> activeWorkerCount ?st = ps_desiredWorkers ?st"
    "\<not> resizes e st \<Longrightarrow> activeWorkerCount ?st = activeWorkerCount st \<and> ps_desiredWorkers ?st = ps_desiredWorkers st"
    "size_ok cfg st \<Longrightarrow> \<not> snd (pool_step cfg e st) \<Longrightarrow> size_ok cfg (fst (pool_step cfg e st))"
    by blast+
qed

lemma size_run:
  fixes options :: pool_options
  defines "cfg \<equiv> pool_config_of options"
  assumes "fresh_ids cfg es"
  shows "size_bounded cfg (pool_run cfg es)"
    "pool_settled cfg es \<Longrightarrow> activeWorkerCount (pool_run cfg es) = ps_desiredWorkers (pool_run cfg es)"
    "pool_undisturbed cfg es \<Longrightarrow> size_ok cfg (pool_run cfg es)"
proof -
  have limits: "pc_minWorkers cfg \<le> pc_maxWorkers cfg" "1 \<le> pc_minWorkers cfg" by (simp_all add: cfg_def)
  have "list_all (\<lambda>e. case event_input e of None \<Rightarrow> True | Some i \<Rightarrow> nat (pc_maxWorkers cfg) \<le> length (ri_ids i)) es"
    using assms(2) by (simp add: fresh_ids_def)
  then have "size_bounded cfg (pool_run cfg es) \<and>
      (pool_settled cfg es \<longrightarrow> activeWorkerCount (pool_run cfg es) = ps_desiredWorkers (pool_run cfg es)) \<and>
      (pool_undisturbed cfg es \<longrightarrow> size_ok cfg (pool_run cfg es))"
  proof (induction es rule: rev_induct)
    case Nil
    then show ?case using limits
      by (simp add: pool_run_def new_pool_def size_bounded_def size_ok_def activeWorkerCount_def most_workers_def)
  next
    case (snoc e es)
    then have IH: "size_bounded cfg (pool_run cfg es)"
      "pool_settled cfg es \<Longrightarrow> activeWorkerCount (pool_run cfg es) = ps_desiredWorkers (pool_run cfg es)"
      "pool_undisturbed cfg es \<Longrightarrow> size_ok cfg (pool_run cfg es)"
      and ids: "case event_input e of None \<Rightarrow> True | Some i \<Rightarrow> nat (pc_maxWorkers cfg) \<le> length (ri_ids i)"
      by auto
    note step = size_step [OF IH(1) limits ids]
    have "pool_settled cfg (es @ [e]) \<longrightarrow>
        activeWorkerCount (pool_run cfg (es @ [e])) = ps_desiredWorkers (pool_run cfg (es @ [e]))"
      unfolding pool_settled_snoc pool_run_snoc Let_def using step(2,3) IH(2) by metis
    then show ?case using step(1,4) IH(3) by (simp add: pool_run_snoc pool_undisturbed_snoc)
  qed
  then show "size_bounded cfg (pool_run cfg es)"
    "pool_settled cfg es \<Longrightarrow> activeWorkerCount (pool_run cfg es) = ps_desiredWorkers (pool_run cfg es)"
    "pool_undisturbed cfg es \<Longrightarrow> size_ok cfg (pool_run cfg es)" by blast+
qed


subsection \<open>Scaling is damped\<close>

definition size_change :: "pool_config \<Rightarrow> pool_event \<Rightarrow> pool_state \<Rightarrow> (int \<times> int) list" where
  "size_change cfg e st =
     (case event_input e of
        None \<Rightarrow> []
      | Some i \<Rightarrow>
          let d = activeWorkerCount (fst (pool_step cfg e st)) - activeWorkerCount st
          in if d = 0 then [] else [(ri_nowMs i, d)])"

text \<open>The rebalances of a run that changed the size of the pool: their times and by how much.\<close>

fun changes_from :: "pool_config \<Rightarrow> pool_event list \<Rightarrow> pool_state \<Rightarrow> (int \<times> int) list" where
  "changes_from cfg [] st = []"
| "changes_from cfg (e # es) st = size_change cfg e st @ changes_from cfg es (fst (pool_step cfg e st))"

lemma changes_snoc:
  "changes_from cfg (es @ [e]) st =
     changes_from cfg es st @ size_change cfg e (foldl (\<lambda>st e. fst (pool_step cfg e st)) st es)"
  by (induction es arbitrary: st) auto

lemma rebalance_marks:
  assumes "ps_active st" "pc_minWorkers cfg \<le> pc_maxWorkers cfg" "1 \<le> pc_minWorkers cfg"
    and "activeWorkerCount st \<le> most_workers cfg" "nat (pc_maxWorkers cfg) \<le> length (ri_ids i)"
    and r: "rebalance cfg i st = (st', False)"
  shows "\<exists>d load st1. decide cfg i st = (d, load, st1) \<and> activeWorkerCount st' = d \<and>
    ps_lastScaleUpAtMs st' = (if d > activeWorkerCount st then Some (ri_nowMs i) else ps_lastScaleUpAtMs st) \<and>
    ps_lastScaleDownAtMs st' = (if d < activeWorkerCount st then Some (ri_nowMs i) else ps_lastScaleDownAtMs st) \<and>
    ps_scaleUpPressureStreak st' = ps_scaleUpPressureStreak st1 \<and>
    ps_scaleDownPressureStreak st' = ps_scaleDownPressureStreak st1"
proof -
  obtain d load st1 where dec: "decide cfg i st = (d, load, st1)" by (metis prod_cases3)
  note f = decide_frame [OF dec]
  obtain st2 where st2: "resize cfg i d st1 = (st2, False)"
    "st' = conclude cfg i (activeWorkerCount st) (activeWorkerCount st1 > d) load st2"
    using r by (auto simp: rebalance_def dec Let_def split: prod.splits if_splits)
  note frame = resize_frame [of cfg i d st1, unfolded st2(1) fst_conv]
  have "activeWorkerCount st' = d"
    using rebalance_size(3) [OF assms] f(4) frame(2) by (simp add: st2(2))
  moreover have "activeWorkerCount st1 = activeWorkerCount st" using f(2) by (simp add: activeWorkerCount_def)
  ultimately show ?thesis using dec f frame by (simp add: st2(2))
qed

lemma desired_change:
  assumes "desiredWorkerCount cfg s c False now st = (d, st')" "pc_hasQueueFactory cfg"
  shows "(d > c \<longrightarrow> cooldownRemainingMs (ps_lastScaleUpAtMs st) (pc_scaleUpCooldownMs cfg) now \<le> 0 \<and>
      pc_scaleUpSampleSize cfg \<le> ps_scaleUpPressureStreak st') \<and>
    (d < c \<longrightarrow> cooldownRemainingMs (lastCapacityChangeAtMs st) (pc_scaleDownCooldownMs cfg) now \<le> 0 \<and>
      pc_scaleDownSampleSize cfg \<le> ps_scaleDownPressureStreak st')"
  using assms by (auto simp: desiredWorkerCount_def lastCapacityChangeAtMs_def Let_def split: if_splits)

lemma decide_change:
  assumes "decide cfg i st = (d, load, st1)" "pc_hasQueueFactory cfg" "\<not> ri_startup i"
  shows "(d > activeWorkerCount st \<longrightarrow>
      cooldownRemainingMs (ps_lastScaleUpAtMs st) (pc_scaleUpCooldownMs cfg) (ri_nowMs i) \<le> 0 \<and>
      pc_scaleUpSampleSize cfg \<le> ps_scaleUpPressureStreak st1) \<and>
    (d < activeWorkerCount st \<longrightarrow>
      cooldownRemainingMs (lastCapacityChangeAtMs st) (pc_scaleDownCooldownMs cfg) (ri_nowMs i) \<le> 0 \<and>
      pc_scaleDownSampleSize cfg \<le> ps_scaleDownPressureStreak st1)"
proof -
  obtain s l st0 where raw: "rawDesiredWorkerCount cfg
      (readSchedulingPressure (ri_getSchedulingPressure i) (ri_getReadySessionCount i))
      (readGlobalWorkerLoad (ri_listActive i) st) st = (s, l, st0)" by (metis prod_cases3)
  then have same: "ps_lastScaleUpAtMs st0 = ps_lastScaleUpAtMs st" "lastCapacityChangeAtMs st0 = lastCapacityChangeAtMs st"
    by (auto simp: rawDesiredWorkerCount_def Let_def lastCapacityChangeAtMs_def)
  obtain st2 where st2: "desiredWorkerCount cfg s (activeWorkerCount st) False (ri_nowMs i) st0 = (d, st2)"
    "ps_scaleUpPressureStreak st1 = ps_scaleUpPressureStreak st2"
    "ps_scaleDownPressureStreak st1 = ps_scaleDownPressureStreak st2"
    using assms(1,3) raw by (auto simp: decide_def Let_def split: prod.splits)
  from desired_change [OF st2(1) assms(2)] show ?thesis unfolding st2(2,3) same .
qed

definition marks_ok :: "pool_state \<Rightarrow> int list \<Rightarrow> (int \<times> int) list \<Rightarrow> bool" where
  "marks_ok st ts cs \<longleftrightarrow>
     (\<forall>(t, d) \<in> set cs. (0 < d \<longrightarrow> (\<exists>u. ps_lastScaleUpAtMs st = Some u \<and> t \<le> u)) \<and>
                        (d < 0 \<longrightarrow> (\<exists>u. ps_lastScaleDownAtMs st = Some u \<and> t \<le> u)) \<and> d \<noteq> 0) \<and>
     (\<forall>u. ps_lastScaleUpAtMs st = Some u \<longrightarrow> u \<in> set ts) \<and>
     (\<forall>u. ps_lastScaleDownAtMs st = Some u \<longrightarrow> u \<in> set ts)"

lemma marks_advance:
  assumes "marks_ok st ts cs" "\<forall>t \<in> set ts. t \<le> now"
    and "ps_lastScaleUpAtMs st' = (if 0 < d then Some now else ps_lastScaleUpAtMs st)"
    and "ps_lastScaleDownAtMs st' = (if d < 0 then Some now else ps_lastScaleDownAtMs st)"
  shows "marks_ok st' (ts @ [now]) (cs @ (if d = 0 then [] else [(now, d)]))"
proof -
  have "(0 < e \<longrightarrow> (\<exists>u. ps_lastScaleUpAtMs st' = Some u \<and> t \<le> u)) \<and>
      (e < 0 \<longrightarrow> (\<exists>u. ps_lastScaleDownAtMs st' = Some u \<and> t \<le> u)) \<and> e \<noteq> 0" if "(t, e) \<in> set cs" for t e
  proof -
    have m: "(0 < e \<longrightarrow> (\<exists>u. ps_lastScaleUpAtMs st = Some u \<and> t \<le> u)) \<and>
        (e < 0 \<longrightarrow> (\<exists>u. ps_lastScaleDownAtMs st = Some u \<and> t \<le> u)) \<and> e \<noteq> 0"
      using that assms(1) unfolding marks_ok_def by auto
    have b: "ps_lastScaleUpAtMs st = Some u \<or> ps_lastScaleDownAtMs st = Some u \<Longrightarrow> u \<le> now" for u
      using assms(1,2) unfolding marks_ok_def by blast
    show ?thesis unfolding assms(3,4) using m b order_trans by (auto split: if_splits)
  qed
  then show ?thesis using assms by (auto simp: marks_ok_def)
qed

lemma event_times_snoc:
  "event_times (es @ [e]) = event_times es @ (case event_input e of None \<Rightarrow> [] | Some i \<Rightarrow> [ri_nowMs i])"
  by (induction es) (auto simp: event_times_def split: option.splits)

lemma marks_rebalance:
  assumes "marks_ok st ts cs" "\<forall>t \<in> set ts. t \<le> ri_nowMs i" "ps_active st"
    and "pc_minWorkers cfg \<le> pc_maxWorkers cfg" "1 \<le> pc_minWorkers cfg"
    and "activeWorkerCount st \<le> most_workers cfg" "nat (pc_maxWorkers cfg) \<le> length (ri_ids i)"
    and r: "rebalance cfg i st = (st', False)"
  defines "d \<equiv> activeWorkerCount st' - activeWorkerCount st"
  shows "marks_ok st' (ts @ [ri_nowMs i]) (cs @ (if d = 0 then [] else [(ri_nowMs i, d)]))"
proof (rule marks_advance [OF assms(1,2)])
  from rebalance_marks [OF assms(3-8)]
  show "ps_lastScaleUpAtMs st' = (if 0 < d then Some (ri_nowMs i) else ps_lastScaleUpAtMs st)"
    "ps_lastScaleDownAtMs st' = (if d < 0 then Some (ri_nowMs i) else ps_lastScaleDownAtMs st)"
    by (auto simp: d_def)
qed

lemma marks_same:
  "marks_ok st ts cs \<Longrightarrow> ps_lastScaleUpAtMs st' = ps_lastScaleUpAtMs st \<Longrightarrow>
     ps_lastScaleDownAtMs st' = ps_lastScaleDownAtMs st \<Longrightarrow> set ts \<subseteq> set ts' \<Longrightarrow> marks_ok st' ts' cs"
  by (auto simp: marks_ok_def)

lemma marks_run:
  assumes "fresh_ids (pool_config_of options) es" "sorted (event_times es)" "pool_undisturbed (pool_config_of options) es"
  shows "marks_ok (pool_run (pool_config_of options) es) (event_times es)
    (changes_from (pool_config_of options) es new_pool)"
  using assms
proof (induction es rule: rev_induct)
  case Nil
  then show ?case by (simp add: marks_ok_def pool_run_def new_pool_def)
next
  case (snoc e es)
  let ?cfg = "pool_config_of options"
  let ?st = "pool_run ?cfg es"
  have fresh: "fresh_ids ?cfg es" using snoc.prems(1) by (auto simp: fresh_ids_def)
  have ts: "sorted (event_times es)" "\<And>i. event_input e = Some i \<Longrightarrow> \<forall>t \<in> set (event_times es). t \<le> ri_nowMs i"
    using snoc.prems(2) by (auto simp: event_times_snoc sorted_append split: option.splits)
  have quiet: "pool_undisturbed ?cfg es" "\<not> snd (pool_step ?cfg e ?st)" using snoc.prems(3) by (simp_all add: pool_undisturbed_snoc)
  note IH = snoc.IH [OF fresh ts(1) quiet(1)]
  have size: "activeWorkerCount ?st \<le> most_workers ?cfg" using size_run(1) [OF fresh] by (simp add: size_bounded_def)
  note snoc_simps = pool_run_snoc changes_snoc event_times_snoc size_change_def pool_run_def [symmetric] Let_def
  show ?case
  proof (cases rule: step_cases [of ?cfg e ?st])
    case Same
    then obtain j where "event_input e = Some j" by blast
    with Same show ?thesis using marks_same [OF IH, of ?st "event_times es @ [ri_nowMs j]"] by (auto simp: snoc_simps)
  next
    case (Rebalance i st0)
    then obtain j where j: "event_input e = Some j" "ri_nowMs j = ri_nowMs i" by blast
    have same: "activeWorkerCount st0 = activeWorkerCount ?st" using Rebalance(5) by auto
    have marks: "marks_ok st0 (event_times es) (changes_from ?cfg es new_pool)"
      using marks_same [OF IH, of st0] Rebalance(5) by auto
    have ids: "nat (pc_maxWorkers ?cfg) \<le> length (ri_ids i)"
      using snoc.prems(1) Rebalance(3) j(1) by (auto simp: fresh_ids_def event_ids_def)
    have "rebalance ?cfg i st0 = (fst (pool_step ?cfg e ?st), False)"
      using Rebalance(1) quiet(2) by (metis prod.collapse)
    from marks_rebalance [OF marks _ Rebalance(4) _ _ _ ids this, unfolded same] ts(2) [OF j(1)] size j show ?thesis
      by (simp add: snoc_simps split: if_splits)
  next
    case (Callback w s sid rid wid)
    then show ?thesis using marks_same [OF IH] by (auto simp: snoc_simps pool_callback_def)
  next
    case (Close r now)
    then show ?thesis using marks_same [OF IH] by (auto simp: snoc_simps pool_close_def recordDecision_def)
  qed
qed

lemma last_change:
  assumes "\<And>u. ps_lastScaleUpAtMs st = Some u \<or> ps_lastScaleDownAtMs st = Some u \<Longrightarrow> 0 < u \<and> u \<le> n"
    and "ps_lastScaleUpAtMs st = Some u \<or> ps_lastScaleDownAtMs st = Some u"
  shows "\<exists>l. lastCapacityChangeAtMs st = Some l \<and> u \<le> l \<and> 0 < l \<and> l \<le> n"
  using assms
  by (cases "ps_lastScaleUpAtMs st"; cases "ps_lastScaleDownAtMs st")
    (auto simp: lastCapacityChangeAtMs_def Let_def max_def)

lemma cooldown_over:
  assumes "cooldownRemainingMs (Some u) cd now \<le> 0" "0 < u" "u \<le> now" "0 \<le> cd"
  shows "u + cd \<le> now"
  using assms by (auto simp: cooldownRemainingMs_def split: if_splits)

text \<open>
  Scaling is damped. As long as no call has rejected, a timed rebalance that adds workers comes at least the scale-up
  cool-down after every earlier rebalance that added some, and one that removes workers comes at
  least the scale-down cool-down after every earlier change of the size in either direction; and it only
  changes the size after as many readings in a row as the sample size asks for. A rebalance that rejects leaves no mark
  of the workers it added or removed (\<open>rejected_rebalance_leaves_no_mark\<close>).
\<close>

theorem pool_scaling_is_damped:
  fixes options :: pool_options
  defines "cfg \<equiv> pool_config_of options"
  assumes "fresh_ids cfg (es @ [PoolInterval i])" "sorted (event_times (es @ [PoolInterval i]))"
    and "\<forall>t \<in> set (event_times es). 0 < t" "po_hasQueueFactory options" "pool_undisturbed cfg (es @ [PoolInterval i])"
  defines "before \<equiv> pool_run cfg es" and "after \<equiv> pool_run cfg (es @ [PoolInterval i])"
  shows "(activeWorkerCount before < activeWorkerCount after \<longrightarrow>
      (\<forall>(t, d) \<in> set (changes_from cfg es new_pool). 0 < d \<longrightarrow> t + pc_scaleUpCooldownMs cfg \<le> ri_nowMs i) \<and>
      pc_scaleUpSampleSize cfg \<le> ps_scaleUpPressureStreak after) \<and>
    (activeWorkerCount after < activeWorkerCount before \<longrightarrow>
      (\<forall>(t, d) \<in> set (changes_from cfg es new_pool). t + pc_scaleDownCooldownMs cfg \<le> ri_nowMs i) \<and>
      pc_scaleDownSampleSize cfg \<le> ps_scaleDownPressureStreak after)"
proof (cases "ps_active before")
  case False
  then show ?thesis by (simp add: after_def before_def pool_run_snoc)
next
  case True
  let ?i = "i\<lparr>ri_startup := False\<rparr>"
  have fresh: "fresh_ids cfg es" "nat (pc_maxWorkers cfg) \<le> length (ri_ids ?i)"
    using assms(2) by (auto simp: fresh_ids_def)
  have ts: "sorted (event_times es)" "\<forall>t \<in> set (event_times es). t \<le> ri_nowMs i"
    using assms(3) by (auto simp: event_times_snoc sorted_append)
  have quiet: "pool_undisturbed cfg es" "\<not> snd (rebalance cfg ?i before)"
    using assms(6) True by (simp_all add: pool_undisturbed_snoc before_def)
  have marks: "marks_ok before (event_times es) (changes_from cfg es new_pool)"
    using marks_run [of options es] fresh(1) ts(1) quiet(1) by (simp add: before_def cfg_def)
  have after: "rebalance cfg ?i before = (after, False)"
    using True quiet(2) by (simp add: after_def before_def pool_run_snoc prod_eq_iff)
  have lim: "activeWorkerCount before \<le> most_workers cfg"
    using size_run(1) [of options es] fresh(1) by (simp add: cfg_def before_def size_bounded_def)
  obtain d load st1 where dec: "decide cfg ?i before = (d, load, st1)" "activeWorkerCount after = d"
    "ps_scaleUpPressureStreak after = ps_scaleUpPressureStreak st1"
    "ps_scaleDownPressureStreak after = ps_scaleDownPressureStreak st1"
    using rebalance_marks [OF True _ _ lim fresh(2) after] by (auto simp: cfg_def)
  have factory: "pc_hasQueueFactory cfg" using assms(5) by (simp add: cfg_def pool_config_of_def Let_def)
  note change = decide_change [OF dec(1) factory, simplified]
  have up: "u + pc_scaleUpCooldownMs cfg \<le> ri_nowMs i"
    if "ps_lastScaleUpAtMs before = Some u" "activeWorkerCount before < d" for u
    using change that marks ts(2) assms(4) cooldown_over [of u "pc_scaleUpCooldownMs cfg" "ri_nowMs i"]
    by (auto simp: marks_ok_def cfg_def)
  have down: "u + pc_scaleDownCooldownMs cfg \<le> ri_nowMs i"
    if "ps_lastScaleUpAtMs before = Some u \<or> ps_lastScaleDownAtMs before = Some u" "d < activeWorkerCount before" for u
  proof -
    have "0 < u \<and> u \<le> ri_nowMs i" if "ps_lastScaleUpAtMs before = Some u \<or> ps_lastScaleDownAtMs before = Some u" for u
      using that marks ts(2) assms(4) unfolding marks_ok_def by blast
    from last_change [OF this that(1)] obtain l where
      l: "lastCapacityChangeAtMs before = Some l" "u \<le> l" "0 < l" "l \<le> ri_nowMs i" by blast
    then have "l + pc_scaleDownCooldownMs cfg \<le> ri_nowMs i"
      using change that(2) cooldown_over [of l "pc_scaleDownCooldownMs cfg" "ri_nowMs i"] by (auto simp: cfg_def)
    with l(2) show ?thesis by linarith
  qed
  have m: "(0 < e \<longrightarrow> (\<exists>u. ps_lastScaleUpAtMs before = Some u \<and> t \<le> u)) \<and>
      (e < 0 \<longrightarrow> (\<exists>u. ps_lastScaleDownAtMs before = Some u \<and> t \<le> u)) \<and> e \<noteq> 0"
    if "(t, e) \<in> set (changes_from cfg es new_pool)" for t e
    using marks that by (auto simp: marks_ok_def)
  show ?thesis
  proof (intro conjI impI ballI; (clarify)?)
    fix t e assume "activeWorkerCount before < activeWorkerCount after"
      "(t, e) \<in> set (changes_from cfg es new_pool)" "0 < e"
    then show "t + pc_scaleUpCooldownMs cfg \<le> ri_nowMs i" using m up dec(2) by fastforce
  next
    fix t e assume *: "activeWorkerCount after < activeWorkerCount before"
      "(t, e) \<in> set (changes_from cfg es new_pool)"
    then obtain u where "ps_lastScaleUpAtMs before = Some u \<or> ps_lastScaleDownAtMs before = Some u" "t \<le> u"
      using m [OF *(2)] by (cases "0 < e") auto
    then show "t + pc_scaleDownCooldownMs cfg \<le> ri_nowMs i" using down [of u] dec(2) *(1) by auto
  qed (use change dec in auto)
qed

subsection \<open>An example\<close>

definition example_options :: pool_options where
  "example_options =
     \<lparr>po_runtimeInstanceId = None, po_processKind = None, po_hasQueueFactory = True, po_minWorkers = Some 1,
      po_maxWorkers = Some 3, po_scaleIntervalMs = None, po_readySessionsPerCapacityUnit = None,
      po_reservedSubagentCapacity = None, po_scaleUpCooldownMs = None, po_scaleDownCooldownMs = None,
      po_scaleUpSampleSize = None, po_scaleDownSampleSize = Some 1, po_scaleUpBusyRatioThreshold = None,
      po_scaleUpMaxReadyAgeMs = None\<rparr>"

definition example_input :: "int \<Rightarrow> int \<Rightarrow> string list \<Rightarrow> rebalance_input" where
  "example_input now ready ids =
     \<lparr>ri_startup = False, ri_nowMs = now, ri_getSchedulingPressure = None,
      ri_getReadySessionCount = Some (Inr ready), ri_listActive = None, ri_ids = ids,
      ri_factoryRejects = (\<lambda>k. False), ri_closeRejects = (\<lambda>w. False)\<rparr>"

definition example_start :: "pool_event list" where
  "example_start = [PoolStart (example_input 1000 2 [''w1'', ''w2'', ''w3''])]"

definition example_quiet :: rebalance_input where
  "example_quiet = example_input 20000 0 [''w4'', ''w5'', ''w6'']"

lemma example_fresh: "fresh_ids (pool_config_of example_options) (example_start @ [PoolInterval example_quiet])"
  by code_simp

lemma example_pool_undisturbed: "pool_undisturbed (pool_config_of example_options) (example_start @ [PoolInterval example_quiet])"
  by code_simp

text \<open>The second queue of a start-up cannot be opened: the pool has one worker and wants two.\<close>

definition short_start :: "pool_event list" where
  "short_start = [PoolStart ((example_input 1000 2 [''w1'', ''w2'', ''w3''])\<lparr>ri_factoryRejects := (\<lambda>k. k = 1)\<rparr>)]"

text \<open>The worker removed cannot be closed: it is off the list, its slot stays.\<close>

definition stuck_close :: "pool_event list" where
  "stuck_close = example_start @ [PoolInterval (example_quiet\<lparr>ri_closeRejects := (\<lambda>w. w = ''w2'')\<rparr>)]"


lemma pool_scaling_is_damped_witness:
  "changes_from (pool_config_of example_options) example_start new_pool = [(1000, 2)] \<and>
   activeWorkerCount (pool_run (pool_config_of example_options) (example_start @ [PoolInterval example_quiet])) <
     activeWorkerCount (pool_run (pool_config_of example_options) example_start) \<and>
   1000 + pc_scaleDownCooldownMs (pool_config_of example_options) \<le> ri_nowMs example_quiet"
proof -
  have c: "changes_from (pool_config_of example_options) example_start new_pool = [(1000, 2)]"
    and l: "activeWorkerCount (pool_run (pool_config_of example_options) (example_start @ [PoolInterval example_quiet])) <
      activeWorkerCount (pool_run (pool_config_of example_options) example_start)"
    and s: "sorted (event_times (example_start @ [PoolInterval example_quiet]))"
      "\<forall>t \<in> set (event_times example_start). 0 < t" "po_hasQueueFactory example_options"
    by code_simp+
  from pool_scaling_is_damped [OF example_fresh s example_pool_undisturbed, THEN conjunct2, rule_format, OF l] c l show ?thesis by simp
qed

text \<open>
  What a rejection leaves. A pool whose queue could not be opened has fewer workers than it wants. One whose worker could not be
  closed keeps the slot of it, which a snapshot counts as an active worker, until the pool is closed. Neither keeps the time of the
  change, so the next change need not wait for the cool-down.
\<close>

lemma rejected_queue_leaves_pool_short:
  "ps_workers (pool_run (pool_config_of example_options) short_start) = [''w1''] \<and>
   ps_active (pool_run (pool_config_of example_options) short_start) \<and>
   ps_desiredWorkers (pool_run (pool_config_of example_options) short_start) = 2"
  by code_simp

lemma rejected_close_leaves_slot:
  "ps_workers (pool_run (pool_config_of example_options) stuck_close) = [''w1''] \<and>
   sn_activeWorkers (pool_snapshot_at (pool_config_of example_options) 20001 (pool_run (pool_config_of example_options) stuck_close)) = 2 \<and>
   sn_activeWorkers (pool_snapshot_at (pool_config_of example_options) 30000
     (pool_run (pool_config_of example_options) (stuck_close @ [PoolInterval (example_input 30000 0 [''w7'', ''w8'', ''w9''])]))) = 2"
  by code_simp

lemma rejected_rebalance_leaves_no_mark:
  "ps_lastScaleUpAtMs (pool_run (pool_config_of example_options) short_start) = None \<and>
   ps_lastScaleDownAtMs (pool_run (pool_config_of example_options) stuck_close) = None"
  by code_simp

end
