(* ===== verification/Run_Worker.thy ===== *)
theory Run_Worker
  imports Run_Queue_Safety Worker_Policy
begin

text \<open>
  The run workers, \<open>packages/storage-redis/src/run-worker.ts\<close>. The loop of a worker is a state
  machine with a control point before each call it awaits; any number of workers share one run queue,
  in the abstract form that \<open>Run_Queue\<close> proves the Redis queue to implement, together with
  clients that enqueue runs, heartbeats that renew locks, and time. A call of the queue that
  throws has no effect on the queue. Publishing leases and recovering runs at the start of a
  worker are not modelled here.
\<close>

subsection \<open>A worker\<close>

datatype worker_pc =
    AtTop
  | AtAcquire string
  | AtRestore string
  | AtInner string string
  | AtDescribe string string string
  | AtDequeue string string string "string option"
  | AtProcess string string string
  | AtRestoreLocked string string "string option"
  | AtRelease string string bool
  | Stopped

record run_worker =
  rw_workerId :: string
  rw_runtimeInstanceId :: "string option"
  rw_lockTtlMs :: nat
  rw_active :: bool
  rw_pc :: worker_pc
  rw_state :: worker_state
  rw_currentSessionId :: "string option"
  rw_currentRunId :: "string option"
  rw_currentWorkspaceId :: "string option"

definition setState :: "worker_state \<Rightarrow> string option \<Rightarrow> string option \<Rightarrow> string option \<Rightarrow> run_worker \<Rightarrow> run_worker" where
  "setState nextState sid rid wid w =
     w\<lparr>rw_state := nextState, rw_currentSessionId := sid, rw_currentRunId := rid, rw_currentWorkspaceId := wid\<rparr>"

definition goto :: "worker_pc \<Rightarrow> run_worker \<Rightarrow> run_worker" where
  "goto l w = w\<lparr>rw_pc := l\<rparr>"

text \<open>The worker of the constructor and \<open>start\<close>, idle at the top of its loop.\<close>

definition new_run_worker :: "string \<Rightarrow> string option \<Rightarrow> nat option \<Rightarrow> run_worker" where
  "new_run_worker workerId runtimeInstanceId lockTtlMs =
     \<lparr>rw_workerId = workerId, rw_runtimeInstanceId = runtimeInstanceId,
      rw_lockTtlMs = max 1000 (or_else lockTtlMs 30000),
      rw_active = True, rw_pc = AtTop, rw_state = WIdle,
      rw_currentSessionId = None, rw_currentRunId = None, rw_currentWorkspaceId = None\<rparr>"

text \<open>Whatever ends the inner loop, the worker leaves the session and goes on to release its lock.\<close>

definition leave_inner :: "string \<Rightarrow> string \<Rightarrow> bool \<Rightarrow> run_worker \<Rightarrow> run_worker" where
  "leave_inner sid tok dying w =
     goto (AtRelease sid tok dying)
       (setState (if rw_active w then WIdle else WStopping) None None None w)"

definition matchesWorker :: "string \<Rightarrow> run_worker \<Rightarrow> bool" where
  "matchesWorker preferredWorkerId w \<longleftrightarrow>
     preferredWorkerId = rw_workerId w \<or>
     (truthy (rw_runtimeInstanceId w) \<and> Some preferredWorkerId = rw_runtimeInstanceId w)"

text \<open>
  What \<open>describeQueuedRun\<close> may answer: the workspace and the preferred worker of the run.
\<close>

record run_info =
  in_workspaceId :: "string option"
  in_preferredWorkerId :: "string option"

text \<open>
  The outcomes of the awaited calls. \<open>EFail\<close> is the call that threw; the token is what
  \<open>createId\<close> makes of the worker.
\<close>

datatype worker_event =
    EGo
  | EFail
  | EToken string
  | EInfo "run_info option"

text \<open>
  One step of a worker: the call at its control point and the code up to the next awaited call.
  The third component lists the run handed to \<open>processQueuedRun\<close>, if any. A step that the
  control point does not offer is \<^const>\<open>None\<close>.
\<close>

definition step_top :: "nat \<Rightarrow> worker_event \<Rightarrow> run_worker \<Rightarrow> ready_queue \<Rightarrow> (run_worker \<times> ready_queue) option" where
  "step_top limit e w q =
     (if \<not> rw_active w then Some (goto Stopped w, q)
      else case e of
        EGo \<Rightarrow>
          (case aq_claim limit (trimmed_option (Some (rw_workerId w))) (trimmed_option (keep_truthy (rw_runtimeInstanceId w))) q of
             (found, q') \<Rightarrow>
               (case nonempty_id found of
                  None \<Rightarrow> Some (w, q')
                | Some sid \<Rightarrow> Some (goto (AtAcquire sid) w, q')))
      | EFail \<Rightarrow> Some (w, q)
      | _ \<Rightarrow> None)"

definition step_acquire :: "worker_event \<Rightarrow> string \<Rightarrow> run_worker \<Rightarrow> ready_queue \<Rightarrow> (run_worker \<times> ready_queue) option" where
  "step_acquire e sid w q =
     (case e of
        EToken lockToken \<Rightarrow>
          (case aq_acquire sid lockToken (rw_lockTtlMs w) q of
             (acquired, q') \<Rightarrow>
               if acquired then Some (goto (AtInner sid lockToken) (setState WBusy (Some sid) None None w), q')
               else Some (goto (AtRestore sid) w, q'))
      | EFail \<Rightarrow> Some (goto AtTop w, q)
      | _ \<Rightarrow> None)"

definition step_restore :: "worker_event \<Rightarrow> string \<Rightarrow> string option \<Rightarrow> (run_worker \<Rightarrow> run_worker) \<Rightarrow> run_worker \<Rightarrow>
    ready_queue \<Rightarrow> (run_worker \<times> ready_queue) option" where
  "step_restore e sid preferred next w q =
     (case e of
        EGo \<Rightarrow> Some (next w, snd (aq_requeue sid (trimmed_option preferred) q))
      | EFail \<Rightarrow> Some (next w, q)
      | _ \<Rightarrow> None)"

definition step_inner :: "worker_event \<Rightarrow> string \<Rightarrow> string \<Rightarrow> run_worker \<Rightarrow> ready_queue \<Rightarrow> (run_worker \<times> ready_queue) option" where
  "step_inner e sid tok w q =
     (if \<not> rw_active w then Some (leave_inner sid tok False w, q)
      else case e of
        EGo \<Rightarrow>
          (case aq_runs q sid of
             [] \<Rightarrow> Some (leave_inner sid tok False w, q)
           | candidateRunId # rest \<Rightarrow>
               if candidateRunId = [] then Some (leave_inner sid tok False w, q)
               else Some (goto (AtDescribe sid tok candidateRunId) w, q))
      | EFail \<Rightarrow> Some (leave_inner sid tok True w, q)
      | _ \<Rightarrow> None)"

definition step_describe :: "worker_event \<Rightarrow> string \<Rightarrow> string \<Rightarrow> string \<Rightarrow> run_worker \<Rightarrow> ready_queue \<Rightarrow>
    (run_worker \<times> ready_queue) option" where
  "step_describe e sid tok r w q =
     (case e of
        EInfo queuedRun \<Rightarrow>
          (let preferredWorkerId = map_option js_trim (Option.bind queuedRun in_preferredWorkerId) in
           case preferredWorkerId of
             Some p \<Rightarrow>
               if p \<noteq> [] \<and> \<not> matchesWorker p w
               then Some (goto (AtRestoreLocked sid tok (Some p)) w, q)
               else Some (goto (AtDequeue sid tok r (Option.bind queuedRun in_workspaceId)) w, q)
           | None \<Rightarrow> Some (goto (AtDequeue sid tok r (Option.bind queuedRun in_workspaceId)) w, q))
      | EFail \<Rightarrow> Some (goto (AtRestoreLocked sid tok None) w, q)
      | _ \<Rightarrow> None)"

definition step_dequeue :: "worker_event \<Rightarrow> string \<Rightarrow> string \<Rightarrow> string option \<Rightarrow> run_worker \<Rightarrow> ready_queue \<Rightarrow>
    (run_worker \<times> ready_queue \<times> string list) option" where
  "step_dequeue e sid tok wid w q =
     (case e of
        EGo \<Rightarrow>
          (case aq_dequeue sid q of
             (runId, q') \<Rightarrow>
               if truthy runId
               then Some (goto (AtProcess sid tok (the runId)) (setState WBusy (Some sid) runId wid w), q', [the runId])
               else Some (leave_inner sid tok False w, q', []))
      | EFail \<Rightarrow> Some (leave_inner sid tok True w, q, [])
      | _ \<Rightarrow> None)"

text \<open>An error of \<open>processQueuedRun\<close> is logged; the loop goes on either way.\<close>

definition step_process :: "worker_event \<Rightarrow> string \<Rightarrow> string \<Rightarrow> run_worker \<Rightarrow> ready_queue \<Rightarrow> (run_worker \<times> ready_queue) option" where
  "step_process e sid tok w q =
     (if e = EGo \<or> e = EFail then Some (goto (AtInner sid tok) (setState WBusy (Some sid) None None w), q) else None)"

text \<open>
  The lock is released whatever ended the inner loop. \<open>dying\<close> says that a call of the queue threw
  inside it: nothing catches that error, so the loop of the worker ends.
\<close>

definition step_release :: "worker_event \<Rightarrow> string \<Rightarrow> string \<Rightarrow> bool \<Rightarrow> run_worker \<Rightarrow> ready_queue \<Rightarrow>
    (run_worker \<times> ready_queue) option" where
  "step_release e sid tok dying w q =
     (let w' = goto (if dying then Stopped else AtTop) w
      in case e of
           EGo \<Rightarrow> Some (w', snd (aq_release sid tok q))
         | EFail \<Rightarrow> Some (w', q)
         | _ \<Rightarrow> None)"

definition quiet :: "(run_worker \<times> ready_queue) option \<Rightarrow> (run_worker \<times> ready_queue \<times> string list) option" where
  "quiet x = map_option (\<lambda>(w, q). (w, q, [])) x"

definition worker_step :: "nat \<Rightarrow> worker_event \<Rightarrow> run_worker \<Rightarrow> ready_queue \<Rightarrow>
    (run_worker \<times> ready_queue \<times> string list) option" where
  "worker_step limit e w q =
     (case rw_pc w of
        AtTop \<Rightarrow> quiet (step_top limit e w q)
      | AtAcquire sid \<Rightarrow> quiet (step_acquire e sid w q)
      | AtRestore sid \<Rightarrow> quiet (step_restore e sid None (goto AtTop) w q)
      | AtInner sid tok \<Rightarrow> quiet (step_inner e sid tok w q)
      | AtDescribe sid tok r \<Rightarrow> quiet (step_describe e sid tok r w q)
      | AtDequeue sid tok r wid \<Rightarrow> step_dequeue e sid tok wid w q
      | AtProcess sid tok r \<Rightarrow> quiet (step_process e sid tok w q)
      | AtRestoreLocked sid tok preferred \<Rightarrow> quiet (step_restore e sid preferred (leave_inner sid tok False) w q)
      | AtRelease sid tok dying \<Rightarrow> quiet (step_release e sid tok dying w q)
      | Stopped \<Rightarrow> None)"

subsection \<open>Workers that share a queue\<close>

text \<open>
  \<open>wo_in\<close> and \<open>wo_started\<close> are the history: the runs enqueued and the runs handed to
  \<open>processQueuedRun\<close>, with their sessions; \<open>wo_tokens\<close> are the tokens used.
\<close>

record world =
  wo_queue :: ready_queue
  wo_workers :: "string \<Rightarrow> run_worker option"
  wo_tokens :: "string set"
  wo_in :: "(string \<times> string) list"
  wo_started :: "(string \<times> string) list"

datatype world_event =
    Work string worker_event
  | StopWorker string
  | Heartbeat string
  | ClientEnqueue nat string string "run_queue_priority option" "string option"
  | Pass nat

fun pc_session :: "worker_pc \<Rightarrow> string option" where
  "pc_session AtTop = None"
| "pc_session (AtAcquire sid) = Some sid"
| "pc_session (AtRestore sid) = Some sid"
| "pc_session (AtInner sid tok) = Some sid"
| "pc_session (AtDescribe sid tok r) = Some sid"
| "pc_session (AtDequeue sid tok r wid) = Some sid"
| "pc_session (AtProcess sid tok r) = Some sid"
| "pc_session (AtRestoreLocked sid tok preferred) = Some sid"
| "pc_session (AtRelease sid tok dying) = Some sid"
| "pc_session Stopped = None"

text \<open>The session lock a worker holds, from acquiring it up to its release, and its token.\<close>

fun pc_lock :: "worker_pc \<Rightarrow> (string \<times> string) option" where
  "pc_lock (AtInner sid tok) = Some (sid, tok)"
| "pc_lock (AtDescribe sid tok r) = Some (sid, tok)"
| "pc_lock (AtDequeue sid tok r wid) = Some (sid, tok)"
| "pc_lock (AtProcess sid tok r) = Some (sid, tok)"
| "pc_lock (AtRestoreLocked sid tok preferred) = Some (sid, tok)"
| "pc_lock (AtRelease sid tok dying) = Some (sid, tok)"
| "pc_lock _ = None"

abbreviation holding :: "run_worker \<Rightarrow> (string \<times> string) option" where
  "holding w \<equiv> pc_lock (rw_pc w)"

definition world_step :: "nat \<Rightarrow> world_event \<Rightarrow> world \<Rightarrow> world option" where
  "world_step limit e g =
     (case e of
        Work i we \<Rightarrow>
          (case wo_workers g i of
             None \<Rightarrow> None
           | Some w \<Rightarrow>
               if (case we of EToken tok \<Rightarrow> tok \<in> wo_tokens g | _ \<Rightarrow> False) then None
               else (case worker_step limit we w (wo_queue g) of
                 None \<Rightarrow> None
               | Some (w', q', started) \<Rightarrow>
                   Some (g\<lparr>wo_queue := q', wo_workers := (wo_workers g)(i \<mapsto> w'),
                           wo_tokens := (case we of EToken tok \<Rightarrow> insert tok (wo_tokens g) | _ \<Rightarrow> wo_tokens g),
                           wo_started := wo_started g @ map (\<lambda>r. (the (pc_session (rw_pc w)), r)) started\<rparr>)))
      | StopWorker i \<Rightarrow>
          (case wo_workers g i of
             None \<Rightarrow> None
           | Some w \<Rightarrow> Some (g\<lparr>wo_workers :=
               (wo_workers g)(i \<mapsto> setState WStopping None None None (w\<lparr>rw_active := False\<rparr>))\<rparr>))
      | Heartbeat i \<Rightarrow>
          (case wo_workers g i of
             None \<Rightarrow> None
           | Some w \<Rightarrow>
               (case holding w of
                  None \<Rightarrow> None
                | Some (sid, tok) \<Rightarrow>
                    Some (g\<lparr>wo_queue := snd (aq_renew sid tok (rw_lockTtlMs w) (wo_queue g))\<rparr>)))
      | ClientEnqueue now sid r priority preferred \<Rightarrow>
          Some (g\<lparr>wo_queue := aq_enqueue now sid r (or_else priority PriorityNormal) (trimmed_option preferred) (wo_queue g),
                  wo_in := wo_in g @ [(sid, r)]\<rparr>)
      | Pass n \<Rightarrow> Some (g\<lparr>wo_queue := aq_elapse n (wo_queue g)\<rparr>))"

definition world_init :: "world \<Rightarrow> bool" where
  "world_init g \<longleftrightarrow>
     (\<forall>sid. aq_runs (wo_queue g) sid = [] \<and> aq_lock (wo_queue g) sid = None) \<and>
     aq_members (wo_queue g) \<subseteq> set (aq_ready (wo_queue g)) \<and> wo_tokens g = {} \<and>
     wo_in g = [] \<and> wo_started g = [] \<and>
     (\<forall>i w. wo_workers g i = Some w \<longrightarrow> (\<exists>x y z. w = new_run_worker x y z))"

text \<open>The worlds reached by events that satisfy \<open>ok\<close>.\<close>

inductive reach :: "nat \<Rightarrow> (world \<Rightarrow> world_event \<Rightarrow> bool) \<Rightarrow> world \<Rightarrow> bool"
  for limit :: nat and ok :: "world \<Rightarrow> world_event \<Rightarrow> bool"
where
  start: "world_init g \<Longrightarrow> reach limit ok g"
| step: "reach limit ok g \<Longrightarrow> ok g e \<Longrightarrow> world_step limit e g = Some g' \<Longrightarrow> reach limit ok g'"

inductive_cases worker_reachE: "reach limit ok g"

subsection \<open>What a step of a worker does to the queue\<close>

lemmas worker_steps = worker_step_def quiet_def step_top_def step_acquire_def step_restore_def step_inner_def
  step_describe_def step_dequeue_def step_process_def step_release_def

lemma goto_sel [simp]:
  "rw_pc (goto l w) = l" "rw_lockTtlMs (goto l w) = rw_lockTtlMs w" "rw_active (goto l w) = rw_active w"
  by (simp_all add: goto_def)

lemma leave_inner_sel [simp]:
  "rw_pc (leave_inner sid tok d w) = AtRelease sid tok d" "rw_lockTtlMs (leave_inner sid tok d w) = rw_lockTtlMs w"
  "rw_active (leave_inner sid tok d w) = rw_active w"
  by (simp_all add: leave_inner_def goto_def setState_def)

lemma new_run_worker_sel [simp]:
  "rw_pc (new_run_worker a b c) = AtTop" "1000 \<le> rw_lockTtlMs (new_run_worker a b c)" "rw_active (new_run_worker a b c)"
  by (simp_all add: new_run_worker_def)

lemma setState_sel [simp]:
  "rw_pc (setState s a b c w) = rw_pc w" "rw_lockTtlMs (setState s a b c w) = rw_lockTtlMs w"
  "rw_active (setState s a b c w) = rw_active w"
  by (simp_all add: setState_def)

lemma aq_sel_claim [simp]:
  "aq_runs (snd (aq_claim n a b q)) = aq_runs q" "aq_lock (snd (aq_claim n a b q)) = aq_lock q"
  "aq_deadline (snd (aq_claim n a b q)) = aq_deadline q" "aq_now (snd (aq_claim n a b q)) = aq_now q"
  by (auto simp: aq_claim_def split: option.splits)

lemma aq_sel_requeue [simp]:
  "aq_runs (snd (aq_requeue sid x q)) = aq_runs q" "aq_lock (snd (aq_requeue sid x q)) = aq_lock q"
  "aq_deadline (snd (aq_requeue sid x q)) = aq_deadline q" "aq_now (snd (aq_requeue sid x q)) = aq_now q"
  by (auto simp: aq_requeue_def)

lemma aq_sel_locks [simp]:
  "aq_runs (snd (aq_acquire sid t n q)) = aq_runs q" "aq_runs (snd (aq_renew sid t n q)) = aq_runs q"
  "aq_runs (snd (aq_release sid t q)) = aq_runs q"
  "aq_members (snd (aq_acquire sid t n q)) = aq_members q" "aq_members (snd (aq_renew sid t n q)) = aq_members q"
  "aq_members (snd (aq_release sid t q)) = aq_members q"
  "aq_ready (snd (aq_acquire sid t n q)) = aq_ready q" "aq_ready (snd (aq_renew sid t n q)) = aq_ready q"
  "aq_ready (snd (aq_release sid t q)) = aq_ready q"
  by (auto simp: aq_acquire_def aq_renew_def aq_release_def)

lemma aq_sel_dequeue [simp]:
  "aq_lock (snd (aq_dequeue sid q)) = aq_lock q" "aq_deadline (snd (aq_dequeue sid q)) = aq_deadline q"
  "aq_now (snd (aq_dequeue sid q)) = aq_now q" "aq_ready (snd (aq_dequeue sid q)) = aq_ready q"
  by (auto simp: aq_dequeue_def split: list.splits)

lemma aq_sel_enqueue [simp]:
  "aq_lock (aq_enqueue now sid r p x q) = aq_lock q" "aq_deadline (aq_enqueue now sid r p x q) = aq_deadline q"
  "aq_now (aq_enqueue now sid r p x q) = aq_now q"
  "aq_runs (aq_enqueue now sid r p x q) = (aq_runs q)(sid := aq_runs q sid @ [r])"
  by (auto simp: aq_enqueue_def Let_def)

lemma aq_sel_elapse [simp]:
  "aq_runs (aq_elapse n q) = aq_runs q" "aq_members (aq_elapse n q) = aq_members q"
  "aq_ready (aq_elapse n q) = aq_ready q" "aq_deadline (aq_elapse n q) = aq_deadline q"
  by (simp_all add: aq_elapse_def)

lemma worker_step_runs:
  assumes "worker_step limit e w q = Some (w', q', started)" "\<forall>sid. [] \<notin> set (aq_runs q sid)"
  shows "aq_runs q sid = (if pc_session (rw_pc w) = Some sid then started else []) @ aq_runs q' sid"
proof (cases "rw_pc w")
  case (AtDequeue s tok r wid)
  show ?thesis
  proof (cases "aq_runs q s")
    case Nil
    then show ?thesis using assms(1) AtDequeue
      by (auto simp: worker_step_def step_dequeue_def aq_dequeue_def split: worker_event.splits)
  next
    case (Cons x xs)
    then have "x \<noteq> []" using assms(2) by (metis list.set_intros(1))
    then show ?thesis using assms(1) AtDequeue Cons
      by (auto simp: worker_step_def step_dequeue_def aq_dequeue_def split: worker_event.splits if_splits)
  qed
next
  case AtTop
  then show ?thesis using assms(1)
    by (auto simp: worker_step_def quiet_def step_top_def split: if_splits worker_event.splits prod.splits option.splits
        dest: arg_cong [of _ _ "\<lambda>x. aq_runs (snd x)"])
next
  case (AtAcquire s)
  then show ?thesis using assms(1)
    by (auto simp: worker_step_def quiet_def step_acquire_def split: if_splits worker_event.splits prod.splits
        dest: arg_cong [of _ _ "\<lambda>x. aq_runs (snd x)"])
qed (use assms(1) in \<open>auto simp: worker_step_def quiet_def step_restore_def step_inner_def step_describe_def step_process_def
    step_release_def Let_def split: if_splits worker_event.splits list.splits option.splits\<close>)

text \<open>What an event of the world is, in terms of the step of the worker it belongs to.\<close>

lemma world_step_cases:
  assumes "world_step limit e g = Some g'"
  obtains
    (work) i we w w' q' started where "e = Work i we" "wo_workers g i = Some w"
      "\<And>tok. we = EToken tok \<Longrightarrow> tok \<notin> wo_tokens g"
      "worker_step limit we w (wo_queue g) = Some (w', q', started)"
      "wo_queue g' = q'" "wo_workers g' = (wo_workers g)(i \<mapsto> w')" "wo_in g' = wo_in g"
      "wo_tokens g' = (case we of EToken tok \<Rightarrow> insert tok (wo_tokens g) | _ \<Rightarrow> wo_tokens g)"
      "wo_started g' = wo_started g @ map (\<lambda>r. (the (pc_session (rw_pc w)), r)) started"
  | (stop) i w where "e = StopWorker i" "wo_workers g i = Some w"
      "g' = g\<lparr>wo_workers := (wo_workers g)(i \<mapsto> setState WStopping None None None (w\<lparr>rw_active := False\<rparr>))\<rparr>"
  | (beat) i w sid tok where "e = Heartbeat i" "wo_workers g i = Some w" "holding w = Some (sid, tok)"
      "g' = g\<lparr>wo_queue := snd (aq_renew sid tok (rw_lockTtlMs w) (wo_queue g))\<rparr>"
  | (enq) now sid r priority preferred where "e = ClientEnqueue now sid r priority preferred"
      "g' = g\<lparr>wo_queue := aq_enqueue now sid r (or_else priority PriorityNormal) (trimmed_option preferred) (wo_queue g),
              wo_in := wo_in g @ [(sid, r)]\<rparr>"
  | (pass) n where "e = Pass n" "g' = g\<lparr>wo_queue := aq_elapse n (wo_queue g)\<rparr>"
proof (cases e)
  case (Work i we)
  from assms Work obtain w where w: "wo_workers g i = Some w" by (auto simp: world_step_def split: option.splits)
  have fresh: "tok \<notin> wo_tokens g" if "we = EToken tok" for tok
    using assms Work w that by (auto simp: world_step_def split: if_splits)
  with assms Work w obtain w' q' started where s: "worker_step limit we w (wo_queue g) = Some (w', q', started)"
    by (auto simp: world_step_def split: option.splits if_splits)
  with assms Work w have "g' = g\<lparr>wo_queue := q', wo_workers := (wo_workers g)(i \<mapsto> w'),
      wo_tokens := (case we of EToken tok \<Rightarrow> insert tok (wo_tokens g) | _ \<Rightarrow> wo_tokens g),
      wo_started := wo_started g @ map (\<lambda>r. (the (pc_session (rw_pc w)), r)) started\<rparr>"
    by (auto simp: world_step_def split: if_splits)
  then show ?thesis by (intro work [OF Work w fresh s]) simp_all
next
  case (StopWorker i)
  with assms show ?thesis by (auto simp: world_step_def split: option.splits intro: stop)
next
  case (Heartbeat i)
  with assms show ?thesis by (auto simp: world_step_def split: option.splits intro: beat)
next
  case (ClientEnqueue now sid r priority preferred)
  with assms show ?thesis by (auto simp: world_step_def intro: enq)
next
  case (Pass n)
  with assms show ?thesis by (auto simp: world_step_def intro: pass)
qed

subsection \<open>Runs are started once, in order\<close>

definition real_ids :: "world \<Rightarrow> world_event \<Rightarrow> bool" where
  "real_ids g e = (case e of ClientEnqueue now sid r priority preferred \<Rightarrow> r \<noteq> [] | _ \<Rightarrow> True)"

definition of_session :: "string \<Rightarrow> (string \<times> string) list \<Rightarrow> string list" where
  "of_session sid xs = map snd (filter (\<lambda>x. fst x = sid) xs)"

lemma of_session_simps [simp]:
  "of_session sid [] = []" "of_session sid (xs @ ys) = of_session sid xs @ of_session sid ys"
  "of_session sid [(s, r)] = (if s = sid then [r] else [])"
  "of_session sid (map (Pair s) rs) = (if s = sid then rs else [])"
proof -
  show "of_session sid (map (Pair s) rs) = (if s = sid then rs else [])"
    by (induction rs) (auto simp: of_session_def)
qed (simp_all add: of_session_def)

lemma worker_step_starts_own:
  assumes "worker_step limit e w q = Some (w', q', started)" "started \<noteq> []"
  shows "pc_session (rw_pc w) \<noteq> None"
  using assms by (cases "rw_pc w") (auto simp: worker_step_def quiet_def)

lemma reach_mono:
  assumes "reach limit ok g" "\<And>g e. ok g e \<Longrightarrow> ok' g e"
  shows "reach limit ok' g"
  using assms by (induction rule: reach.induct) (auto intro: reach.intros)

lemma runs_in_order_step:
  assumes "world_step limit e g = Some g'" "real_ids g e"
    and "\<forall>sid. of_session sid (wo_in g) = of_session sid (wo_started g) @ aq_runs (wo_queue g) sid \<and>
          [] \<notin> set (aq_runs (wo_queue g) sid)"
  shows "\<forall>sid. of_session sid (wo_in g') = of_session sid (wo_started g') @ aq_runs (wo_queue g') sid \<and>
          [] \<notin> set (aq_runs (wo_queue g') sid)"
  using assms(1)
proof (cases rule: world_step_cases)
  case (work i we w w' q' started)
  have runs: "aq_runs (wo_queue g) sid =
      (if pc_session (rw_pc w) = Some sid then started else []) @ aq_runs q' sid" for sid
    using worker_step_runs [OF work(4)] assms(3) by blast
  have started: "of_session sid (map (\<lambda>r. (the (pc_session (rw_pc w)), r)) started) =
      (if pc_session (rw_pc w) = Some sid then started else [])" for sid
    using worker_step_starts_own [OF work(4)] by (cases "pc_session (rw_pc w)") auto
  show ?thesis
  proof
    fix sid
    from assms(3) have inv: "of_session sid (wo_in g) = of_session sid (wo_started g) @ aq_runs (wo_queue g) sid"
      "[] \<notin> set (aq_runs (wo_queue g) sid)" by auto
    then show "of_session sid (wo_in g') = of_session sid (wo_started g') @ aq_runs (wo_queue g') sid \<and>
          [] \<notin> set (aq_runs (wo_queue g') sid)"
      unfolding work(5,7,9) of_session_simps(2) started runs [of sid] by simp
  qed
next
  case (stop i w)
  with assms(3) show ?thesis by simp
next
  case (beat i w sid tok)
  with assms(3) show ?thesis by simp
next
  case (enq now sid r priority preferred)
  with assms(2,3) show ?thesis by (simp add: real_ids_def)
next
  case (pass n)
  with assms(3) show ?thesis by simp
qed

lemma runs_in_order:
  assumes "reach limit real_ids g"
  shows "\<forall>sid. of_session sid (wo_in g) = of_session sid (wo_started g) @ aq_runs (wo_queue g) sid \<and>
          [] \<notin> set (aq_runs (wo_queue g) sid)"
  using assms
proof (induction rule: reach.induct)
  case (start g)
  then show ?case by (simp add: world_init_def)
next
  case (step g e g')
  then show ?case using runs_in_order_step by blast
qed

text \<open>
  C3: every run is processed once, in order, whatever the interleaving of any number of workers,
  clients, lost locks, errors and shut-downs: the runs enqueued for a session are the runs handed to
  \<open>processQueuedRun\<close>, in that order, followed by those still queued. (Run ids are not empty.)
\<close>

theorem runs_start_once_in_order:
  assumes "reach limit real_ids g"
  shows "of_session sid (wo_in g) = of_session sid (wo_started g) @ aq_runs (wo_queue g) sid"
  using runs_in_order [OF assms] by blast

subsection \<open>One worker per session\<close>

text \<open>
  Locks are renewed in time: whenever time passes, no lock that a worker holds runs out.
\<close>

definition timely :: "world \<Rightarrow> world_event \<Rightarrow> bool" where
  "timely g e = (case e of
     Pass n \<Rightarrow> (\<forall>i w sid tok. wo_workers g i = Some w \<and> holding w = Some (sid, tok) \<longrightarrow>
                  (\<exists>d. aq_deadline (wo_queue g) sid = Some d \<and> aq_now (wo_queue g) + n < d))
   | _ \<Rightarrow> real_ids g e)"

text \<open>How a step of a worker changes the lock it holds and the locks of the queue.\<close>

lemma worker_step_lock:
  assumes "worker_step limit e w q = Some (w', q', started)" "1000 \<le> rw_lockTtlMs w"
  obtains
    (keeps) "holding w' = holding w" "aq_lock q' = aq_lock q"
  | (takes) sid tok where "holding w = None" "holding w' = Some (sid, tok)" "e = EToken tok"
      "aq_lock q sid = None" "aq_lock q' = (aq_lock q)(sid \<mapsto> tok)" "aq_runs q' = aq_runs q"
  | (drops) sid tok where "holding w = Some (sid, tok)" "holding w' = None" "aq_runs q' = aq_runs q"
      "aq_lock q' = (if aq_lock q sid = Some tok then (aq_lock q)(sid := None) else aq_lock q) \<or> aq_lock q' = aq_lock q"
proof (cases "rw_pc w")
  case AtTop
  with assms(1) show ?thesis
    by (auto simp: worker_step_def quiet_def step_top_def split: if_splits worker_event.splits prod.splits option.splits
        dest: arg_cong [of _ _ "\<lambda>x. aq_lock (snd x)"] intro!: keeps)
next
  case (AtAcquire sid)
  then have ttl: "rw_lockTtlMs w \<noteq> 0" using assms(2) by simp
  show ?thesis
  proof (cases "\<exists>tok. e = EToken tok \<and> aq_lock q sid = None")
    case True
    then obtain tok where "e = EToken tok" "aq_lock q sid = None" by blast
    with AtAcquire assms(1) ttl show ?thesis
      by (intro takes [of sid tok]) (auto simp: worker_step_def quiet_def step_acquire_def aq_acquire_def)
  next
    case False
    with AtAcquire assms(1) show ?thesis
      by (intro keeps) (auto simp: worker_step_def quiet_def step_acquire_def aq_acquire_def split: worker_event.splits if_splits)
  qed
next
  case (AtRelease sid tok dying)
  with assms(1) show ?thesis
    by (intro drops [of sid tok])
      (auto simp: worker_step_def quiet_def step_release_def aq_release_def Let_def split: worker_event.splits if_splits)
next
  case (AtDequeue sid tok r wid)
  with assms(1) show ?thesis
    by (intro keeps) (auto simp: worker_step_def step_dequeue_def split: worker_event.splits if_splits prod.splits
        dest: arg_cong [of _ _ "\<lambda>x. aq_lock (snd x)"])
qed (use assms(1) in \<open>auto simp: worker_step_def quiet_def step_restore_def step_inner_def step_describe_def
    step_process_def Let_def split: if_splits worker_event.splits list.splits option.splits intro!: keeps\<close>)

fun pc_candidate :: "worker_pc \<Rightarrow> (string \<times> string) option" where
  "pc_candidate (AtDescribe sid tok r) = Some (sid, r)"
| "pc_candidate (AtDequeue sid tok r wid) = Some (sid, r)"
| "pc_candidate _ = None"

lemma candidate_holds:
  assumes "pc_candidate l = Some (sid, r)"
  obtains tok where "pc_lock l = Some (sid, tok)"
  using assms by (cases l) auto

lemma started_holds:
  assumes "worker_step limit e w q = Some (w', q', started)" "started \<noteq> []"
  obtains sid tok where "holding w = Some (sid, tok)" "pc_session (rw_pc w) = Some sid"
  using assms by (cases "rw_pc w") (auto simp: worker_step_def quiet_def)

lemma worker_step_candidate:
  assumes "worker_step limit e w q = Some (w', q', started)" "pc_candidate (rw_pc w') = Some (sid, r)"
  shows "aq_runs q' = aq_runs q \<and> (pc_candidate (rw_pc w) = Some (sid, r) \<or> (\<exists>rest. aq_runs q sid = r # rest))"
  using assms by (cases "rw_pc w")
    (auto simp: worker_steps Let_def split: if_splits worker_event.splits list.splits option.splits prod.splits)

definition locks_held :: "world \<Rightarrow> bool" where
  "locks_held g \<longleftrightarrow>
     (\<forall>i w sid tok. wo_workers g i = Some w \<longrightarrow> holding w = Some (sid, tok) \<longrightarrow>
        aq_lock (wo_queue g) sid = Some tok \<and> tok \<in> wo_tokens g)"

definition tokens_differ :: "world \<Rightarrow> bool" where
  "tokens_differ g \<longleftrightarrow>
     (\<forall>i j w w' sid sid' tok. wo_workers g i = Some w \<longrightarrow> wo_workers g j = Some w' \<longrightarrow>
        holding w = Some (sid, tok) \<longrightarrow> holding w' = Some (sid', tok) \<longrightarrow> i = j)"

definition candidates_current :: "world \<Rightarrow> bool" where
  "candidates_current g \<longleftrightarrow>
     (\<forall>i w sid r. wo_workers g i = Some w \<longrightarrow> pc_candidate (rw_pc w) = Some (sid, r) \<longrightarrow>
        (\<exists>rest. aq_runs (wo_queue g) sid = r # rest))"

definition lasting_locks :: "world \<Rightarrow> bool" where
  "lasting_locks g \<longleftrightarrow> (\<forall>i w. wo_workers g i = Some w \<longrightarrow> 1000 \<le> rw_lockTtlMs w)"

lemma worker_step_ttl: "worker_step limit e w q = Some (w', q', started) \<Longrightarrow> rw_lockTtlMs w' = rw_lockTtlMs w"
  by (cases "rw_pc w")
    (auto simp: worker_steps Let_def split: if_splits worker_event.splits list.splits option.splits prod.splits)

lemma lasting_locks_step:
  assumes "world_step limit e g = Some g'" "lasting_locks g"
  shows "lasting_locks g'"
  using assms(1)
proof (cases rule: world_step_cases)
  case (work i we w w' q' started)
  with worker_step_ttl [OF work(4)] assms(2) show ?thesis by (auto simp: lasting_locks_def)
qed (use assms(2) in \<open>auto simp: lasting_locks_def\<close>)

lemma locks_heldD:
  assumes "locks_held g" "wo_workers g i = Some w" "holding w = Some (sid, tok)"
  shows "aq_lock (wo_queue g) sid = Some tok" "tok \<in> wo_tokens g"
  using assms unfolding locks_held_def by blast+

lemma tokens_differD:
  assumes "tokens_differ g" "wo_workers g i = Some w" "wo_workers g j = Some w'"
    and "holding w = Some (sid, tok)" "holding w' = Some (sid', tok)"
  shows "i = j"
  using assms unfolding tokens_differ_def by blast

text \<open>Two holders of one session are the same worker.\<close>

lemma one_holder:
  assumes "locks_held g" "tokens_differ g" "wo_workers g i = Some w" "wo_workers g j = Some w'"
    and "holding w = Some (sid, tok)" "holding w' = Some (sid, tok')"
  shows "i = j"
proof -
  have "tok = tok'"
    using locks_heldD(1) [OF assms(1,3,5)] locks_heldD(1) [OF assms(1,4,6)] by simp
  with assms(5) have "holding w = Some (sid, tok')" by simp
  from tokens_differD [OF assms(2,3,4) this assms(6)] show ?thesis .
qed

lemma tokens_differ_step:
  assumes "world_step limit e g = Some g'" "locks_held g" "tokens_differ g" "lasting_locks g"
  shows "tokens_differ g'"
  using assms(1)
proof (cases rule: world_step_cases)
  case (work i we w w' q' started)
  have ttl: "1000 \<le> rw_lockTtlMs w" using assms(4) work(2) by (simp add: lasting_locks_def)
  have new: "a = i" if "holding w' = Some (sid, tok)" "wo_workers g a = Some v" "holding v = Some (sid', tok)" for a v sid sid' tok
    using work(4) ttl
  proof (cases rule: worker_step_lock)
    case keeps
    with that(1) have "holding w = Some (sid, tok)" by simp
    from tokens_differD [OF assms(3) that(2) work(2) that(3) this] show ?thesis .
  next
    case (takes s t)
    with that have "we = EToken tok" by simp
    with work(3) locks_heldD(2) [OF assms(2) that(2,3)] show ?thesis by blast
  next
    case (drops s t)
    with that show ?thesis by simp
  qed
  have old: "a = b" if "wo_workers g a = Some u" "wo_workers g b = Some v" "holding u = Some (sid, tok)"
    "holding v = Some (sid', tok)" for a b u v sid sid' tok
    using tokens_differD [OF assms(3) that] .
  show ?thesis unfolding tokens_differ_def work(6)
    by (auto split: if_splits dest: new old)
qed (use assms(3) in \<open>auto simp: tokens_differ_def split: if_splits\<close>)

lemma locks_held_step:
  assumes "world_step limit e g = Some g'" "timely g e" "locks_held g" "tokens_differ g" "lasting_locks g"
  shows "locks_held g'"
  using assms(1)
proof (cases rule: world_step_cases)
  case (work i we w w' q' started)
  have ttl: "1000 \<le> rw_lockTtlMs w" using assms(5) work(2) by (simp add: lasting_locks_def)
  have more: "wo_tokens g \<subseteq> wo_tokens g'" using work(8) by (auto split: worker_event.splits)
  have own: "aq_lock q' sid = Some tok \<and> tok \<in> wo_tokens g'" if h: "holding w' = Some (sid, tok)" for sid tok
    using work(4) ttl
  proof (cases rule: worker_step_lock)
    case keeps
    with h have "holding w = Some (sid, tok)" by simp
    from locks_heldD [OF assms(3) work(2) this] keeps more show ?thesis by auto
  next
    case (takes s t)
    with h work(8) show ?thesis by simp
  next
    case (drops s t)
    with h show ?thesis by simp
  qed
  have other: "aq_lock q' sid = Some tok \<and> tok \<in> wo_tokens g'"
    if "a \<noteq> i" "wo_workers g a = Some v" "holding v = Some (sid, tok)" for a v sid tok
  proof -
    note old = locks_heldD [OF assms(3) that(2,3)]
    from work(4) ttl have "aq_lock q' sid = Some tok"
    proof (cases rule: worker_step_lock)
      case keeps
      with old show ?thesis by simp
    next
      case (takes s t)
      with old show ?thesis by auto
    next
      case (drops s t)
      then have "s \<noteq> sid" using one_holder [OF assms(3,4) that(2) work(2) that(3)] that(1) by blast
      with drops old show ?thesis by auto
    qed
    with old more show ?thesis by blast
  qed
  show ?thesis unfolding locks_held_def work(5,6)
    by (auto split: if_splits simp: own other)
next
  case (stop i w)
  with assms(3) show ?thesis by (auto simp: locks_held_def)
next
  case (beat i w sid tok)
  then have "rw_lockTtlMs w \<noteq> 0" using assms(5) by (force simp: lasting_locks_def)
  then have "aq_lock (snd (aq_renew sid tok (rw_lockTtlMs w) (wo_queue g))) = aq_lock (wo_queue g)"
    by (auto simp: aq_renew_def)
  with assms(3) beat(4) show ?thesis by (simp add: locks_held_def)
next
  case (enq now sid r priority preferred)
  with assms(3) show ?thesis by (simp add: locks_held_def)
next
  case (pass n)
  show ?thesis unfolding locks_held_def
  proof (intro allI impI)
    fix i w sid tok
    assume w: "wo_workers g' i = Some w" "holding w = Some (sid, tok)"
    then have "wo_workers g i = Some w" using pass(2) by simp
    note old = locks_heldD [OF assms(3) this w(2)]
    from assms(2) pass(1) \<open>wo_workers g i = Some w\<close> w(2) obtain d
      where "aq_deadline (wo_queue g) sid = Some d" "aq_now (wo_queue g) + n < d"
      unfolding timely_def by simp blast
    with old pass(2) show "aq_lock (wo_queue g') sid = Some tok \<and> tok \<in> wo_tokens g'"
      by (simp add: aq_elapse_def)
  qed
qed

lemma candidates_currentD:
  assumes "candidates_current g" "wo_workers g i = Some w" "pc_candidate (rw_pc w) = Some (sid, r)"
  obtains rest where "aq_runs (wo_queue g) sid = r # rest"
  using assms unfolding candidates_current_def by blast

lemma candidates_current_step:
  assumes "world_step limit e g = Some g'" "locks_held g" "tokens_differ g" "candidates_current g"
    and ids: "\<forall>sid. [] \<notin> set (aq_runs (wo_queue g) sid)"
  shows "candidates_current g'"
  using assms(1)
proof (cases rule: world_step_cases)
  case (work i we w w' q' started)
  have own: "\<exists>rest. aq_runs q' sid = r # rest" if "pc_candidate (rw_pc w') = Some (sid, r)" for sid r
    using worker_step_candidate [OF work(4) that] candidates_currentD [OF assms(4) work(2)] by metis
  have other: "\<exists>rest. aq_runs q' sid = r # rest"
    if ow: "a \<noteq> i" "wo_workers g a = Some v" "pc_candidate (rw_pc v) = Some (sid, r)" for a v sid r
  proof -
    obtain tok where tok: "holding v = Some (sid, tok)" using candidate_holds [OF ow(3)] .
    have "started = [] \<or> pc_session (rw_pc w) \<noteq> Some sid"
      using started_holds [OF work(4)] one_holder [OF assms(2,3) ow(2) work(2) tok] ow(1)
      by (metis option.inject)
    then have "aq_runs q' sid = aq_runs (wo_queue g) sid"
      using worker_step_runs [OF work(4) ids, of sid] by auto
    then show ?thesis using candidates_currentD [OF assms(4) ow(2,3)] by metis
  qed
  show ?thesis unfolding candidates_current_def work(5,6)
    by (auto split: if_splits simp: own other)
next
  case (enq now sid r priority preferred)
  show ?thesis unfolding candidates_current_def
  proof (intro allI impI)
    fix i w s c
    assume w: "wo_workers g' i = Some w" "pc_candidate (rw_pc w) = Some (s, c)"
    with enq(2) have "wo_workers g i = Some w" by simp
    then obtain rest where rest: "aq_runs (wo_queue g) s = c # rest"
      using candidates_currentD [OF assms(4) _ w(2)] by blast
    have "aq_runs (wo_queue g') s = c # (if s = sid then rest @ [r] else rest)"
      unfolding enq(2) using rest by auto
    then show "\<exists>rest. aq_runs (wo_queue g') s = c # rest" by blast
  qed
next
  case (stop i w)
  with assms(4) show ?thesis by (auto simp: candidates_current_def)
qed (use assms(4) in \<open>auto simp: candidates_current_def\<close>)

lemma timely_world:
  assumes "reach limit timely g"
  shows "locks_held g \<and> tokens_differ g \<and> candidates_current g \<and> lasting_locks g"
  using assms
proof (induction rule: reach.induct)
  case (start g)
  then show ?case
    by (force simp: world_init_def locks_held_def tokens_differ_def candidates_current_def lasting_locks_def)
next
  case (step g e g')
  have "reach limit real_ids g"
    using step(1) by (rule reach_mono) (auto simp: timely_def real_ids_def split: world_event.splits)
  from runs_in_order [OF this] have "\<forall>sid. [] \<notin> set (aq_runs (wo_queue g) sid)" by blast
  with step locks_held_step tokens_differ_step candidates_current_step lasting_locks_step show ?case by blast
qed

text \<open>
  C2: one worker per session. As long as no held lock runs out, whatever the interleaving of
  workers, clients, errors and shut-downs: two workers never work on the same session, the lock of
  the session carries the token of the worker that does, and the run it takes from the queue is the
  one it inspected, so that the preferred worker was checked for that run.
\<close>

theorem one_worker_per_session:
  assumes "reach limit timely g" "wo_workers g i = Some w" "holding w = Some (sid, tok)"
  shows "aq_lock (wo_queue g) sid = Some tok \<and>
    (\<forall>j w' tok'. wo_workers g j = Some w' \<and> holding w' = Some (sid, tok') \<longrightarrow> j = i) \<and>
    (\<forall>r wid. rw_pc w = AtDequeue sid tok r wid \<longrightarrow> (\<exists>rest. aq_runs (wo_queue g) sid = r # rest))"
proof -
  from timely_world [OF assms(1)] have inv: "locks_held g" "tokens_differ g" "candidates_current g" by auto
  have "j = i" if "wo_workers g j = Some w'" "holding w' = Some (sid, tok')" for j w' tok'
    using one_holder [OF inv(1,2) that(1) assms(2) that(2) assms(3)] .
  moreover have "\<exists>rest. aq_runs (wo_queue g) sid = r # rest" if "rw_pc w = AtDequeue sid tok r wid" for r wid
    using candidates_currentD [OF inv(3) assms(2), of sid r] that by auto
  ultimately show ?thesis using locks_heldD(1) [OF inv(1) assms(2,3)] by blast
qed

subsection \<open>No pending session is forgotten\<close>

text \<open>The session a worker will either go on with or hand back.\<close>

fun pc_serves :: "worker_pc \<Rightarrow> string option" where
  "pc_serves (AtRelease sid tok dying) = None"
| "pc_serves l = pc_session l"

text \<open>
  The calls of the queue after whose failure the worker drops the session it claimed:
  \<open>tryAcquireSessionLock\<close>, \<open>peekRun\<close>, \<open>dequeueRun\<close> and \<open>requeueSessionIfPending\<close> itself.
\<close>

fun drops_claim :: "worker_pc \<Rightarrow> bool" where
  "drops_claim (AtAcquire sid) = True"
| "drops_claim (AtRestore sid) = True"
| "drops_claim (AtInner sid tok) = True"
| "drops_claim (AtDequeue sid tok r wid) = True"
| "drops_claim (AtRestoreLocked sid tok preferred) = True"
| "drops_claim _ = False"

definition undisturbed :: "world \<Rightarrow> world_event \<Rightarrow> bool" where
  "undisturbed g e \<longleftrightarrow> real_ids g e \<and>
     (case e of
        StopWorker i \<Rightarrow> False
      | Work i EFail \<Rightarrow> (\<forall>w. wo_workers g i = Some w \<longrightarrow> \<not> drops_claim (rw_pc w))
      | _ \<Rightarrow> True)"

lemma worker_step_active: "worker_step limit e w q = Some (w', q', started) \<Longrightarrow> rw_active w' = rw_active w"
  by (cases "rw_pc w")
    (auto simp: worker_steps Let_def split: if_splits worker_event.splits list.splits option.splits prod.splits)

lemma aq_enqueue_members:
  "aq_members q \<subseteq> set (aq_ready q) \<Longrightarrow>
     aq_members (aq_enqueue now sid r p x q) \<subseteq> set (aq_ready (aq_enqueue now sid r p x q))"
  "aq_members q \<subseteq> aq_members (aq_enqueue now sid r p x q)"
  "aq_runs q sid = [] \<Longrightarrow> sid \<in> aq_members (aq_enqueue now sid r p x q)"
  by (auto simp: aq_enqueue_def advertise_def Let_def)

lemma aq_dequeue_members:
  "aq_members q \<subseteq> set (aq_ready q) \<Longrightarrow> aq_members (snd (aq_dequeue sid q)) \<subseteq> set (aq_ready (snd (aq_dequeue sid q)))"
  "s \<in> aq_members q \<Longrightarrow> aq_runs (snd (aq_dequeue sid q)) s \<noteq> [] \<Longrightarrow> s \<in> aq_members (snd (aq_dequeue sid q))"
  by (auto simp: aq_dequeue_def split: list.splits if_splits)

lemma worker_step_serves:
  assumes step: "worker_step limit e w q = Some (w', q', started)" and active: "rw_active w"
    and careful: "e = EFail \<Longrightarrow> \<not> drops_claim (rw_pc w)" and ids: "\<forall>sid. [] \<notin> set (aq_runs q sid)"
    and ready: "aq_members q \<subseteq> set (aq_ready q)"
  shows "aq_members q' \<subseteq> set (aq_ready q') \<and>
    (\<forall>sid. sid \<noteq> [] \<and> aq_runs q' sid \<noteq> [] \<and> (sid \<in> aq_members q \<or> pc_serves (rw_pc w) = Some sid) \<longrightarrow>
       sid \<in> aq_members q' \<or> pc_serves (rw_pc w') = Some sid)"
proof (cases "rw_pc w")
  case AtTop
  show ?thesis
  proof (cases "e = EGo")
    case True
    obtain found q'' where c: "aq_claim limit (trimmed_option (Some (rw_workerId w)))
        (trimmed_option (keep_truthy (rw_runtimeInstanceId w))) q = (found, q'')" by fastforce
    with step AtTop active True have q: "q'' = q'" "nonempty_id found = Some s \<Longrightarrow> rw_pc w' = AtAcquire s" for s
      by (auto simp: worker_step_def quiet_def step_top_def split: option.splits)
    show ?thesis using aq_claim_members [OF c [unfolded q(1)] ready] AtTop q(2)
      by (fastforce simp: nonempty_id_def)
  next
    case False
    with step AtTop active ready show ?thesis
      by (auto simp: worker_step_def quiet_def step_top_def split: worker_event.splits)
  qed
next
  case (AtDequeue s tok r wid)
  have own: "aq_runs q s = [] # rest \<Longrightarrow> False" for rest using ids by (metis list.set_intros(1))
  have "e = EGo" using step careful AtDequeue by (auto simp: worker_step_def step_dequeue_def split: worker_event.splits)
  then have "q' = snd (aq_dequeue s q)" "aq_runs q s \<noteq> [] \<Longrightarrow> rw_pc w' = AtProcess s tok (hd (aq_runs q s))"
    using step AtDequeue ids
    by (auto simp: worker_step_def step_dequeue_def aq_dequeue_def split: list.splits if_splits prod.splits
        dest: own)
  moreover have "aq_runs q' s \<noteq> [] \<Longrightarrow> aq_runs q s \<noteq> []"
    using \<open>q' = _\<close> by (auto simp: aq_dequeue_def split: list.splits)
  ultimately show ?thesis using aq_dequeue_members [where q = q and sid = s] ready AtDequeue by auto
next
  case (AtInner s tok)
  then have "e = EGo" using step careful active
    by (auto simp: worker_step_def quiet_def step_inner_def split: worker_event.splits)
  have "\<forall>rest. aq_runs q s \<noteq> [] # rest" using ids by (metis list.set_intros(1))
  with \<open>e = EGo\<close> step AtInner active ready show ?thesis
    by (auto simp: worker_step_def quiet_def step_inner_def split: list.splits if_splits)
qed (use step careful ready in \<open>auto simp: worker_step_def quiet_def step_acquire_def step_restore_def
    step_describe_def step_process_def step_release_def aq_acquire_def aq_requeue_def advertise_def Let_def
    split: if_splits worker_event.splits option.splits\<close>)

definition sessions_covered :: "world \<Rightarrow> bool" where
  "sessions_covered g \<longleftrightarrow>
     (\<forall>sid. sid \<noteq> [] \<and> aq_runs (wo_queue g) sid \<noteq> [] \<longrightarrow>
        sid \<in> aq_members (wo_queue g) \<or>
        (\<exists>i w. wo_workers g i = Some w \<and> pc_serves (rw_pc w) = Some sid))"

definition all_active :: "world \<Rightarrow> bool" where
  "all_active g \<longleftrightarrow> (\<forall>i w. wo_workers g i = Some w \<longrightarrow> rw_active w)"

lemma sessions_coveredI:
  assumes "sessions_covered g"
    and "\<And>sid. sid \<noteq> [] \<Longrightarrow> aq_runs (wo_queue g') sid \<noteq> [] \<Longrightarrow>
      aq_runs (wo_queue g) sid \<noteq> [] \<or> sid \<in> aq_members (wo_queue g')"
    and "aq_members (wo_queue g) \<subseteq> aq_members (wo_queue g')"
    and "\<And>i w. wo_workers g i = Some w \<Longrightarrow> \<exists>w'. wo_workers g' i = Some w' \<and> rw_pc w' = rw_pc w"
  shows "sessions_covered g'"
  using assms unfolding sessions_covered_def by (metis subsetD)

lemma sessions_covered_step:
  assumes "world_step limit e g = Some g'" "undisturbed g e" "sessions_covered g" "all_active g"
    and ready: "aq_members (wo_queue g) \<subseteq> set (aq_ready (wo_queue g))"
    and ids: "\<forall>sid. [] \<notin> set (aq_runs (wo_queue g) sid)"
  shows "sessions_covered g' \<and> all_active g' \<and> aq_members (wo_queue g') \<subseteq> set (aq_ready (wo_queue g'))"
  using assms(1)
proof (cases rule: world_step_cases)
  case (work i we w w' q' started)
  have active: "rw_active w" using assms(4) work(2) by (simp add: all_active_def)
  have careful: "we = EFail \<Longrightarrow> \<not> drops_claim (rw_pc w)" using assms(2) work(1,2) by (simp add: undisturbed_def)
  note q' = worker_step_serves [OF work(4) active careful ids ready]
  have "all_active g'" using assms(4) work(6) worker_step_active [OF work(4)] active by (auto simp: all_active_def)
  moreover have "sessions_covered g'"
    unfolding sessions_covered_def work(5,6)
  proof (intro allI impI)
    fix sid assume sid: "sid \<noteq> [] \<and> aq_runs q' sid \<noteq> []"
    then have "aq_runs (wo_queue g) sid \<noteq> []" using worker_step_runs [OF work(4) ids, of sid] by auto
    with sid assms(3) have "sid \<in> aq_members (wo_queue g) \<or>
        (\<exists>j v. wo_workers g j = Some v \<and> pc_serves (rw_pc v) = Some sid)"
      by (simp add: sessions_covered_def)
    then consider "sid \<in> aq_members (wo_queue g) \<or> pc_serves (rw_pc w) = Some sid"
      | j v where "j \<noteq> i" "wo_workers g j = Some v" "pc_serves (rw_pc v) = Some sid"
      using work(2) by (metis option.inject)
    then show "sid \<in> aq_members q' \<or>
        (\<exists>j v. ((wo_workers g)(i \<mapsto> w')) j = Some v \<and> pc_serves (rw_pc v) = Some sid)"
    proof cases
      case 1
      then show ?thesis using q' sid by (metis fun_upd_same)
    next
      case (2 j v)
      then show ?thesis by (metis fun_upd_other)
    qed
  qed
  ultimately show ?thesis using q' work(5) by simp
next
  case (stop i w)
  with assms(2) show ?thesis by (simp add: undisturbed_def)
next
  case (beat i w sid tok)
  with assms(3-5) show ?thesis by (auto simp: sessions_covered_def all_active_def)
next
  case (enq now sid r priority preferred)
  have "sessions_covered g'"
    by (rule sessions_coveredI [OF assms(3)])
      (use enq(2) aq_enqueue_members in \<open>auto split: if_splits\<close>)
  with enq(2) assms(4) aq_enqueue_members(1) [OF ready] show ?thesis by (simp add: all_active_def)
next
  case (pass n)
  with assms(3-5) show ?thesis by (auto simp: sessions_covered_def all_active_def)
qed

lemma undisturbed_world:
  assumes "reach limit undisturbed g"
  shows "sessions_covered g \<and> all_active g \<and> aq_members (wo_queue g) \<subseteq> set (aq_ready (wo_queue g))"
  using assms
proof (induction rule: reach.induct)
  case (start g)
  then show ?case by (force simp: world_init_def sessions_covered_def all_active_def)
next
  case (step g e g')
  have "reach limit real_ids g"
    using step(1) by (rule reach_mono) (simp add: undisturbed_def)
  from runs_in_order [OF this] have "\<forall>sid. [] \<notin> set (aq_runs (wo_queue g) sid)" by blast
  with step sessions_covered_step show ?case by blast
qed

text \<open>
  C4: no session waits for ever unseen. While no worker is shut down and no call of the queue fails
  after which a worker drops the session it claimed, a session with queued runs is at every moment
  either advertised, in the ready set and the ready list from which workers claim, or claimed by a worker
  that will go on with it or hand it back. Locks may run out and runs may fail.
\<close>

theorem pending_session_is_served:
  assumes "reach limit undisturbed g" "aq_runs (wo_queue g) sid \<noteq> []" "sid \<noteq> []"
  shows "sid \<in> aq_members (wo_queue g) \<and> sid \<in> set (aq_ready (wo_queue g)) \<or>
    (\<exists>i w. wo_workers g i = Some w \<and> pc_serves (rw_pc w) = Some sid)"
  using undisturbed_world [OF assms(1)] assms(2,3) unfolding sessions_covered_def by blast

subsection \<open>What a worker does with a session\<close>

fun world_run :: "nat \<Rightarrow> world_event list \<Rightarrow> world \<Rightarrow> world option" where
  "world_run limit [] g = Some g"
| "world_run limit (e # es) g = (case world_step limit e g of None \<Rightarrow> None | Some g' \<Rightarrow> world_run limit es g')"

lemma world_step_Work:
  assumes "wo_workers g i = Some w"
  shows "world_step limit (Work i we) g =
    (if case we of EToken tok \<Rightarrow> tok \<in> wo_tokens g | _ \<Rightarrow> False then None
     else map_option (\<lambda>(w', q', started).
       g\<lparr>wo_queue := q', wo_workers := (wo_workers g)(i \<mapsto> w'),
         wo_tokens := (case we of EToken tok \<Rightarrow> insert tok (wo_tokens g) | _ \<Rightarrow> wo_tokens g),
         wo_started := wo_started g @ map (\<lambda>r. (the (pc_session (rw_pc w)), r)) started\<rparr>)
       (worker_step limit we w (wo_queue g)))"
  using assms by (auto simp: world_step_def split: option.splits)

text \<open>The preferred worker that \<open>describeQueuedRun\<close> names, if it is not this one.\<close>

definition rejected_for :: "run_worker \<Rightarrow> run_info option \<Rightarrow> string option" where
  "rejected_for w info =
     (case Option.bind info in_preferredWorkerId of
        None \<Rightarrow> None
      | Some p \<Rightarrow> if js_trim p \<noteq> [] \<and> \<not> matchesWorker (js_trim p) w then Some (js_trim p) else None)"

lemma matchesWorker_goto [simp]:
  "matchesWorker p (goto l w) = matchesWorker p w" "matchesWorker p (setState s a b c w) = matchesWorker p w"
  by (simp_all add: matchesWorker_def goto_def setState_def)

text \<open>
  An idle worker makes progress. When the ready list offers it a session whose lock is free
  and whose first run may run on it, five steps of the worker take it from the top of its loop to
  \<open>processQueuedRun\<close> of that run, which is the run removed from the queue.
\<close>

theorem idle_worker_starts_head_run:
  assumes "wo_workers g i = Some w" "rw_pc w = AtTop" "rw_active w" "rw_lockTtlMs w \<noteq> 0"
    and "find_index (compatible (trimmed_option (Some (rw_workerId w))) (trimmed_option (keep_truthy (rw_runtimeInstanceId w)))
           (wo_queue g)) (take limit (aq_ready (wo_queue g))) = Some k"
    and "sid = aq_ready (wo_queue g) ! k" "sid \<noteq> []" "aq_lock (wo_queue g) sid = None"
    and "aq_runs (wo_queue g) sid = r # rest" "r \<noteq> []" "tok \<notin> wo_tokens g" "rejected_for w info = None"
  shows "\<exists>g' w'. world_run limit [Work i EGo, Work i (EToken tok), Work i EGo, Work i (EInfo info), Work i EGo] g = Some g' \<and>
    wo_workers g' i = Some w' \<and> rw_pc w' = AtProcess sid tok r \<and> rw_currentRunId w' = Some r \<and>
    wo_started g' = wo_started g @ [(sid, r)] \<and> aq_runs (wo_queue g') = (aq_runs (wo_queue g))(sid := rest) \<and>
    aq_lock (wo_queue g') sid = Some tok"
proof -
  obtain q1 where q1: "aq_claim limit (trimmed_option (Some (rw_workerId w))) (trimmed_option (keep_truthy (rw_runtimeInstanceId w)))
      (wo_queue g) = (Some sid, q1)" "aq_runs q1 = aq_runs (wo_queue g)" "aq_lock q1 = aq_lock (wo_queue g)"
    using assms(5,6) by (simp add: aq_claim_def)
  define q2 where "q2 = snd (aq_acquire sid tok (rw_lockTtlMs w) q1)"
  have q2: "aq_acquire sid tok (rw_lockTtlMs w) q1 = (True, q2)" "aq_runs q2 = aq_runs (wo_queue g)"
    "aq_lock q2 sid = Some tok"
    using q1(2,3) assms(4,8) by (auto simp: q2_def aq_acquire_def)
  define q3 where "q3 = snd (aq_dequeue sid q2)"
  have q3: "aq_dequeue sid q2 = (Some r, q3)" "aq_runs q3 = (aq_runs (wo_queue g))(sid := rest)" "aq_lock q3 = aq_lock q2"
    using q2(2) assms(9) by (auto simp: q3_def aq_dequeue_def)
  have described: "step_describe (EInfo info) sid tok r v q = Some (goto (AtDequeue sid tok r (Option.bind info in_workspaceId)) v, q)"
    if "\<And>p. matchesWorker p v = matchesWorker p w" for v q
    using assms(12) that by (auto simp: step_describe_def rejected_for_def Let_def split: option.splits if_splits)
  show ?thesis
    using assms(1,2,3,7,9,10,11) q1(1) q2 q3
    by (simp add: world_step_Work worker_step_def quiet_def step_top_def step_acquire_def step_inner_def
        described step_dequeue_def nonempty_id_def truthy_def goto_def setState_def matchesWorker_def)
qed

text \<open>
  A run the worker cannot inspect, or that another worker is to run, is handed back: the worker
  returns to the top of its loop, the session is advertised again with all its runs, its lock is free
  and no run was started; when another worker was named, the session now prefers that one.
\<close>

theorem refused_run_is_handed_back:
  assumes "wo_workers g i = Some w" "rw_pc w = AtDescribe sid tok r" "aq_lock (wo_queue g) sid = Some tok"
    and "aq_runs (wo_queue g) sid \<noteq> []"
    and "ev = EFail \<and> to = None \<or> (\<exists>info. ev = EInfo info \<and> rejected_for w info = to \<and> to \<noteq> None)"
  shows "\<exists>g' w'. world_run limit [Work i ev, Work i EGo, Work i EGo] g = Some g' \<and>
    wo_workers g' i = Some w' \<and> rw_pc w' = AtTop \<and> wo_started g' = wo_started g \<and>
    aq_runs (wo_queue g') = aq_runs (wo_queue g) \<and> sid \<in> aq_members (wo_queue g') \<and> aq_lock (wo_queue g') sid = None \<and>
    aq_preferred (wo_queue g') sid = (case to of None \<Rightarrow> aq_preferred (wo_queue g) sid | Some p \<Rightarrow> Some p)"
proof -
  have step: "step_describe ev sid tok r w (wo_queue g) = Some (goto (AtRestoreLocked sid tok to) w, wo_queue g)"
    using assms(5) by (auto simp: step_describe_def rejected_for_def Let_def
        split: option.splits if_splits)
  have to: "to = Some p \<Longrightarrow> js_trim p = p \<and> p \<noteq> []" for p
    using assms(5) by (auto simp: rejected_for_def split: option.splits if_splits)
  define q1 where "q1 = snd (aq_requeue sid (trimmed_option to) (wo_queue g))"
  have q1: "aq_runs q1 = aq_runs (wo_queue g)" "sid \<in> aq_members q1" "aq_lock q1 sid = Some tok"
    "aq_preferred q1 sid = (case to of None \<Rightarrow> aq_preferred (wo_queue g) sid | Some p \<Rightarrow> Some p)"
    using assms(3,4) to by (auto simp: q1_def aq_requeue_def advertise_def trimmed_option_def split: option.splits)
  have ev: "(case ev of EToken tok \<Rightarrow> tok \<in> wo_tokens g | _ \<Rightarrow> False) = False"
    "(case ev of EToken tok \<Rightarrow> insert tok (wo_tokens g) | _ \<Rightarrow> wo_tokens g) = wo_tokens g"
    using assms(5) by auto
  show ?thesis
    using assms(1,2) q1
    by (simp add: world_step_Work step ev worker_step_def quiet_def step_restore_def
        step_release_def q1_def [symmetric] aq_release_def)
qed

subsection \<open>Where a session is dropped\<close>

text \<open>
  A worker that is shut down while it holds a session leaves without handing the session back: the
  session keeps its queued runs, but it is not advertised, and a later \<open>enqueue\<close> does not
  advertise it either. Only \<open>requeueSessionIfPending\<close> would, and nothing calls it.
\<close>

lemma closed_worker_strands_session:
  assumes "wo_workers g i = Some w" "rw_pc w = AtInner sid tok" "\<not> rw_active w"
    and "aq_lock (wo_queue g) sid = Some tok" "sid \<notin> aq_members (wo_queue g)" "aq_runs (wo_queue g) sid \<noteq> []"
  shows "\<exists>g' w'. world_run limit [Work i EGo, Work i EGo, Work i EGo] g = Some g' \<and>
    wo_workers g' i = Some w' \<and> rw_pc w' = Stopped \<and> aq_runs (wo_queue g') = aq_runs (wo_queue g) \<and>
    aq_lock (wo_queue g') sid = None \<and>
    (\<forall>now r priority x. sid \<notin> aq_members (aq_enqueue now sid r priority x (wo_queue g')))"
  using assms
  by (simp add: world_step_Work worker_step_def quiet_def step_inner_def step_release_def step_top_def aq_release_def
      aq_enqueue_def Let_def)

text \<open>
  An error of \<open>peekRun\<close> or \<open>dequeueRun\<close> is not caught: it ends the loop of a worker that is
  not shut down, which never claims a session again.
\<close>

lemma failed_queue_call_ends_worker:
  assumes "wo_workers g i = Some w" "rw_pc w = AtInner sid tok \<or> rw_pc w = AtDequeue sid tok r wid" "rw_active w"
  shows "\<exists>g' w'. world_run limit [Work i EFail, Work i EGo] g = Some g' \<and>
    wo_workers g' i = Some w' \<and> rw_pc w' = Stopped \<and> rw_active w'"
  using assms(2,1,3)
  by (elim disjE)
    (simp_all add: world_step_Work worker_step_def quiet_def step_inner_def step_dequeue_def step_release_def)

subsection \<open>An example\<close>

text \<open>
  Two workers, and a session with two runs: \<open>w1\<close> claims the session, locks it and starts its first
  run, while \<open>w2\<close> finds nothing to claim.
\<close>

definition example_world :: world where
  "example_world =
     \<lparr>wo_queue = \<lparr>aq_now = 0, aq_runs = (\<lambda>_. []), aq_ready = [], aq_members = {}, aq_since = (\<lambda>_. None),
        aq_priority = (\<lambda>_. None), aq_preferred = (\<lambda>_. None), aq_lock = (\<lambda>_. None), aq_deadline = (\<lambda>_. None)\<rparr>,
      wo_workers = [''w1'' \<mapsto> new_run_worker ''w1'' None None, ''w2'' \<mapsto> new_run_worker ''w2'' None (Some 5)],
      wo_tokens = {}, wo_in = [], wo_started = []\<rparr>"

definition example_queued :: "world_event list" where
  "example_queued = [ClientEnqueue 1 ''s1'' ''r1'' None None, ClientEnqueue 2 ''s1'' ''r2'' None None]"

definition example_claimed :: "world_event list" where
  "example_claimed = example_queued @
     [Work ''w1'' EGo, Work ''w2'' EGo, Work ''w1'' (EToken ''w1:l1''), Work ''w1'' EGo]"

definition example_inspected :: "world_event list" where
  "example_inspected = example_claimed @ [Heartbeat ''w1'', Work ''w1'' (EInfo None)]"

lemma example_init: "world_init example_world"
  by (auto simp: world_init_def example_world_def split: if_splits)

lemma reach_run:
  "reach limit ok g \<Longrightarrow> world_run limit es g = Some g' \<Longrightarrow> \<forall>e\<in>set es. \<forall>h. ok h e \<Longrightarrow> reach limit ok g'"
  by (induction es arbitrary: g) (auto split: option.splits intro: reach.step)

lemma example_reach:
  assumes "world_run 100 es example_world = Some g" "\<forall>e\<in>set es. \<forall>h. ok h e"
  shows "reach 100 ok g"
  using reach_run [OF reach.start [OF example_init] assms] .

lemmas example_events = example_queued_def example_claimed_def example_inspected_def

lemmas example_steps = world_step_def worker_steps example_events example_world_def new_run_worker_def
  goto_def setState_def leave_inner_def aq_claim_def aq_acquire_def aq_renew_def aq_dequeue_def aq_enqueue_def
  advertise_def compatible_def trimmed_option_def keep_truthy_def nonempty_id_def truthy_def Let_def
  js_trim_def is_js_space_def string_of_def priority_string_def

lemma example_inspected_run:
  "map_option (\<lambda>g. (map_option rw_pc (wo_workers g ''w1''), aq_runs (wo_queue g) ''s1''))
     (world_run 100 example_inspected example_world) =
   Some (Some (AtDequeue ''s1'' ''w1:l1'' ''r1'' None), [''r1'', ''r2''])"
  by (simp add: example_steps)

lemma runs_start_once_in_order_witness:
  "\<exists>g. world_run 100 (example_inspected @ [Work ''w1'' EGo]) example_world = Some g \<and>
     of_session ''s1'' (wo_in g) = [''r1''] @ [''r2'']"
proof -
  have "map_option (\<lambda>g. (of_session ''s1'' (wo_started g), aq_runs (wo_queue g) ''s1''))
      (world_run 100 (example_inspected @ [Work ''w1'' EGo]) example_world) = Some ([''r1''], [''r2''])"
    by (simp add: example_steps)
  then obtain g where g: "world_run 100 (example_inspected @ [Work ''w1'' EGo]) example_world = Some g"
    "of_session ''s1'' (wo_started g) = [''r1'']" "aq_runs (wo_queue g) ''s1'' = [''r2'']" by auto
  from example_reach [OF g(1), of real_ids] have "reach 100 real_ids g"
    by (simp add: example_events real_ids_def)
  from runs_start_once_in_order [OF this, of "''s1''"] g show ?thesis by auto
qed

lemma one_worker_per_session_witness:
  "\<exists>g. world_run 100 example_inspected example_world = Some g \<and>
     aq_lock (wo_queue g) ''s1'' = Some ''w1:l1'' \<and> (\<exists>rest. aq_runs (wo_queue g) ''s1'' = ''r1'' # rest)"
proof -
  from example_inspected_run obtain g w where g: "world_run 100 example_inspected example_world = Some g"
    "wo_workers g ''w1'' = Some w" "rw_pc w = AtDequeue ''s1'' ''w1:l1'' ''r1'' None" by auto
  from example_reach [OF g(1), of timely] have "reach 100 timely g"
    by (simp add: example_events real_ids_def timely_def)
  from one_worker_per_session [OF this g(2), of "''s1''" "''w1:l1''"] g show ?thesis by auto
qed

lemma pending_session_is_served_witness:
  "\<exists>g. world_run 100 example_inspected example_world = Some g \<and>
    (''s1'' \<in> aq_members (wo_queue g) \<and> ''s1'' \<in> set (aq_ready (wo_queue g)) \<or>
     (\<exists>i w. wo_workers g i = Some w \<and> pc_serves (rw_pc w) = Some ''s1''))"
proof -
  from example_inspected_run obtain g where g: "world_run 100 example_inspected example_world = Some g"
    "aq_runs (wo_queue g) ''s1'' \<noteq> []" by auto
  from example_reach [OF g(1), of undisturbed] have "reach 100 undisturbed g"
    by (simp add: example_events real_ids_def undisturbed_def)
  from pending_session_is_served [OF this g(2)] g show ?thesis by auto
qed

lemma idle_worker_starts_head_run_witness:
  "\<exists>g. world_run 100 example_queued example_world = Some g \<and>
     (\<exists>g'. world_run 100 [Work ''w1'' EGo, Work ''w1'' (EToken ''w1:l1''), Work ''w1'' EGo, Work ''w1'' (EInfo None),
          Work ''w1'' EGo] g = Some g' \<and> wo_started g' = [(''s1'', ''r1'')])"
proof -
  let ?w = "new_run_worker ''w1'' None None"
  have "map_option (\<lambda>g. (wo_workers g ''w1'' = Some ?w,
        find_index (compatible (trimmed_option (Some (rw_workerId ?w))) (trimmed_option (keep_truthy (rw_runtimeInstanceId ?w)))
          (wo_queue g)) (take 100 (aq_ready (wo_queue g))), aq_ready (wo_queue g), aq_lock (wo_queue g) ''s1'',
        aq_runs (wo_queue g) ''s1'', ''w1:l1'' \<in> wo_tokens g, wo_started g))
      (world_run 100 example_queued example_world) = Some (True, Some 0, [''s1''], None, [''r1'', ''r2''], False, [])"
    by (simp add: example_steps)
  then obtain g where g: "world_run 100 example_queued example_world = Some g" "wo_workers g ''w1'' = Some ?w"
      "find_index (compatible (trimmed_option (Some (rw_workerId ?w))) (trimmed_option (keep_truthy (rw_runtimeInstanceId ?w)))
         (wo_queue g)) (take 100 (aq_ready (wo_queue g))) = Some 0" "aq_ready (wo_queue g) = [''s1'']"
      "aq_lock (wo_queue g) ''s1'' = None" "aq_runs (wo_queue g) ''s1'' = [''r1'', ''r2'']" "''w1:l1'' \<notin> wo_tokens g"
      "wo_started g = []"
    by auto
  have ttl: "rw_lockTtlMs ?w \<noteq> 0" by (simp add: new_run_worker_def)
  have free: "rejected_for ?w None = None" by (simp add: rejected_for_def)
  from idle_worker_starts_head_run [OF g(2) _ _ ttl g(3) _ _ _ _ _ g(7) free, of "''s1''" "''r1''" "[''r2'']"] g
  show ?thesis by auto
qed

lemma refused_run_is_handed_back_witness:
  "\<exists>g. world_run 100 example_claimed example_world = Some g \<and>
     (\<exists>g'. world_run 100 [Work ''w1'' EFail, Work ''w1'' EGo, Work ''w1'' EGo] g = Some g' \<and>
        ''s1'' \<in> aq_members (wo_queue g') \<and> aq_lock (wo_queue g') ''s1'' = None)"
proof -
  have "map_option (\<lambda>g. (map_option rw_pc (wo_workers g ''w1''), aq_lock (wo_queue g) ''s1'', aq_runs (wo_queue g) ''s1''))
      (world_run 100 example_claimed example_world) =
    Some (Some (AtDescribe ''s1'' ''w1:l1'' ''r1''), Some ''w1:l1'', [''r1'', ''r2''])"
    by (simp add: example_steps)
  then obtain g w where g: "world_run 100 example_claimed example_world = Some g" "wo_workers g ''w1'' = Some w"
    "rw_pc w = AtDescribe ''s1'' ''w1:l1'' ''r1''" "aq_lock (wo_queue g) ''s1'' = Some ''w1:l1''"
    "aq_runs (wo_queue g) ''s1'' \<noteq> []"
    by auto
  have "EFail = EFail \<and> (None :: string option) = None \<or>
      (\<exists>info. EFail = EInfo info \<and> rejected_for w info = None \<and> (None :: string option) \<noteq> None)" by simp
  from refused_run_is_handed_back [OF g(2-5) this] g(1) show ?thesis by blast
qed

end
