(* ===== verification/Run_Recovery.thy ===== *)
theory Run_Recovery
  imports Run_State Session_Records
begin

text \<open>
  Recovery of runs whose worker is gone: \<open>packages/engine-core/src/engine/run-recovery.ts\<close>. At the
  start of a worker the stale active runs are cancelled, queued again or failed; a run that does not
  end before a drain times out is taken from its worker; an operator may queue a failed run again.
  The attempts and the outcome are kept in the metadata of the run. Numbers in the metadata are
  integers.
\<close>

subsection \<open>Recovery metadata\<close>

datatype recovery_strategy = StrategyFail | RequeueRunning | RequeueAll

datatype recovery_actor =
  WorkerStartup | WorkerStartupRequeue | WorkerDrainTimeout | WorkerDrainTimeoutRequeue | ManualOperatorRequeue

record recovery_service =
  rc_hasRunQueue :: bool
  rc_strategy :: recovery_strategy
  rc_maxAttempts :: int

fun strategy_string :: "recovery_strategy \<Rightarrow> string" where
  "strategy_string StrategyFail = ''fail''"
| "strategy_string RequeueRunning = ''requeue_running''"
| "strategy_string RequeueAll = ''requeue_all''"

fun actor_string :: "recovery_actor \<Rightarrow> string" where
  "actor_string WorkerStartup = ''worker_startup''"
| "actor_string WorkerStartupRequeue = ''worker_startup_requeue''"
| "actor_string WorkerDrainTimeout = ''worker_drain_timeout''"
| "actor_string WorkerDrainTimeoutRequeue = ''worker_drain_timeout_requeue''"
| "actor_string ManualOperatorRequeue = ''manual_operator_requeue''"

fun run_status_string :: "run_status \<Rightarrow> string" where
  "run_status_string Queued = ''queued''"
| "run_status_string Running = ''running''"
| "run_status_string WaitingTool = ''waiting_tool''"
| "run_status_string Completed = ''completed''"
| "run_status_string Failed = ''failed''"
| "run_status_string Cancelled = ''cancelled''"
| "run_status_string TimedOut = ''timed_out''"

text \<open>\<open>isRecord(x) ? x : {}\<close> and \<open>{ ...base, k: v, ... }\<close>.\<close>

definition record_fields :: "json option \<Rightarrow> (string \<times> json) list" where
  "record_fields x = (case x of Some (JObj kvs) \<Rightarrow> kvs | _ \<Rightarrow> [])"

definition spread :: "(string \<times> json) list \<Rightarrow> (string \<times> json) list \<Rightarrow> (string \<times> json) list" where
  "spread base kvs = foldl (\<lambda>acc (k, v). AList.update k v acc) base kvs"

text \<open>The operator \<open>??\<close>, for which \<open>null\<close> is absent too.\<close>

definition nullish :: "json option \<Rightarrow> json option \<Rightarrow> json option" where
  "nullish x y = (if x = None \<or> x = Some JNull then y else x)"

definition readRecoveryAttempts :: "json option \<Rightarrow> nat" where
  "readRecoveryAttempts metadata =
     (let rootMetadata = record_fields metadata;
          recoveryMetadata = record_fields (map_of rootMetadata ''recovery'')
      in case nullish (map_of rootMetadata ''recoveryAttempts'') (map_of recoveryMetadata ''attempts'') of
           Some (JNum n) \<Rightarrow> if n \<ge> 0 then nat n else 0
         | _ \<Rightarrow> 0)"

record recovery_note =
  rn_attempts :: nat
  rn_requeued :: bool
  rn_recoveredBy :: recovery_actor
  rn_recoveredAt :: string
  rn_reason :: string
  rn_quarantined :: bool
  rn_strategy :: "recovery_strategy option"
  rn_requestedBy :: "string option"

definition strategy_name :: "recovery_strategy option \<Rightarrow> string" where
  "strategy_name s = (case s of None \<Rightarrow> ''manual'' | Some x \<Rightarrow> strategy_string x)"

definition manual_requeue_count :: "recovery_actor \<Rightarrow> json option \<Rightarrow> int option" where
  "manual_requeue_count recoveredBy previous =
     (let earlier = (case previous of Some (JNum n) \<Rightarrow> Some (max 0 n) | _ \<Rightarrow> None)
      in if recoveredBy = ManualOperatorRequeue
         then Some (case earlier of Some n \<Rightarrow> n + 1 | None \<Rightarrow> 1) else earlier)"

definition optional :: "string \<Rightarrow> string option \<Rightarrow> (string \<times> json) list" where
  "optional k x = (if truthy x then [(k, JStr (the x))] else [])"

definition buildRecoveryMetadata :: "recovery_service \<Rightarrow> run \<Rightarrow> recovery_note \<Rightarrow> json" where
  "buildRecoveryMetadata svc run inp =
     (let rootMetadata = record_fields (run_metadata run);
          previousRecovery = record_fields (map_of rootMetadata ''recovery'');
          manual = (rn_recoveredBy inp = ManualOperatorRequeue);
          outcome = (if rn_requeued inp then ''requeued'' else ''failed'');
          at = JStr (rn_recoveredAt inp);
          recoveryMetadata = spread (AList.delete ''deadLetter'' previousRecovery)
            ([(''state'', JStr (if rn_quarantined inp then ''quarantined'' else outcome)),
              (''strategy'', JStr (strategy_name (rn_strategy inp))),
              (''attempts'', JNum (int (rn_attempts inp))),
              (''maxAttempts'', JNum (rc_maxAttempts svc)),
              (''lastOutcome'', JStr outcome),
              (''lastRecoveredBy'', JStr (actor_string (rn_recoveredBy inp))),
              (''lastRecoveredAt'', at),
              (''reason'', JStr (rn_reason inp))] @
             (case manual_requeue_count (rn_recoveredBy inp) (map_of previousRecovery ''manualRequeueCount'') of
                Some n \<Rightarrow> [(''manualRequeueCount'', JNum n)] | None \<Rightarrow> []) @
             (if manual then (''lastManualRequeueAt'', at) # optional ''lastManualRequeueBy'' (rn_requestedBy inp) else []) @
             (if rn_quarantined inp
              then [(''deadLetter'', JObj [(''status'', JStr ''quarantined''), (''reason'', JStr (rn_reason inp)), (''at'', at)])]
              else []))
      in JObj (spread rootMetadata
            ([(''recoveryAttempts'', JNum (int (rn_attempts inp))),
              (''recoveredBy'', JStr (actor_string (rn_recoveredBy inp))),
              (''recoveredAt'', at),
              (''recovery'', JObj recoveryMetadata)] @
             optional ''recoveryRequestedBy'' (rn_requestedBy inp))))"

definition isRecoveryManagedRun :: "run \<Rightarrow> bool" where
  "isRecoveryManagedRun run \<longleftrightarrow>
     run_errorCode run = Some ''worker_recovery_failed'' \<or>
     (let rootMetadata = record_fields (run_metadata run);
          recoveryState = map_of (record_fields (map_of rootMetadata ''recovery'')) ''state''
      in recoveryState = Some (JStr ''quarantined'') \<or> recoveryState = Some (JStr ''failed'') \<or>
         recoveryState = Some (JStr ''requeued'') \<or>
         (case map_of rootMetadata ''recoveryAttempts'' of Some (JNum n) \<Rightarrow> True | _ \<Rightarrow> False))"

text \<open>The attempts, the reason and the quarantine of a run that is given up.\<close>

definition resolveRecoveryFailureContext :: "recovery_service \<Rightarrow> run \<Rightarrow> recovery_strategy \<Rightarrow> nat \<times> string \<times> bool" where
  "resolveRecoveryFailureContext svc run strategy =
     (let recoveryAttempts = readRecoveryAttempts (run_metadata run) in
      if strategy = StrategyFail then (recoveryAttempts, ''fail_closed'', False)
      else if \<not> rc_hasRunQueue svc then (recoveryAttempts, ''requeue_unavailable'', True)
      else if \<not> truthy (run_sessionId run) then (recoveryAttempts, ''session_missing'', True)
      else if strategy = RequeueRunning \<and> run_status run = WaitingTool
           then (recoveryAttempts, ''waiting_tool_manual_resume_required'', True)
      else if int recoveryAttempts \<ge> rc_maxAttempts svc then (recoveryAttempts, ''max_attempts_exhausted'', True)
      else (recoveryAttempts, ''requeue_not_possible'', True))"

subsection \<open>The service\<close>

text \<open>What the run becomes when it is queued again: its outcome so far is forgotten.\<close>

definition requeue_patch :: "json \<Rightarrow> run \<Rightarrow> run" where
  "requeue_patch metadata r =
     r\<lparr>run_status := Queued, run_startedAt := None, run_heartbeatAt := None, run_endedAt := None,
       run_cancelRequestedAt := None, run_errorCode := None, run_errorMessage := None,
       run_metadata := Some metadata\<rparr>"

definition requeueRun :: "recovery_service \<Rightarrow> string \<Rightarrow> string option \<Rightarrow> (string \<times> run_status) eng" where
  "requeueRun svc rid requestedBy =
     act_bind (getRun rid) (\<lambda>run.
       if run_status run \<noteq> Failed \<and> run_status run \<noteq> TimedOut
       then act_throw (AppError 409 ''run_requeue_invalid_status'')
       else if \<not> isRecoveryManagedRun run then act_throw (AppError 409 ''run_requeue_not_supported'')
       else if \<not> rc_hasRunQueue svc \<or> \<not> truthy (run_sessionId run)
       then act_throw (AppError 409 ''run_requeue_unavailable'')
       else
         (let sid = the (run_sessionId run); previousStatus = run_status run in
          act_bind (getSession sid) (\<lambda>_. act_bind nowIso (\<lambda>recoveredAt.
          act_bind (updateRun run (requeue_patch (buildRecoveryMetadata svc run
              \<lparr>rn_attempts = readRecoveryAttempts (run_metadata run), rn_requeued = True,
               rn_recoveredBy = ManualOperatorRequeue, rn_recoveredAt = recoveredAt,
               rn_reason = ''manual_operator_requeue'', rn_quarantined = False, rn_strategy = None,
               rn_requestedBy = requestedBy\<rparr>))) (\<lambda>queuedRun.
            let details = [(''recoveredBy'', JStr ''manual_operator_requeue''),
                  (''recoveryAttempt'', JNum (int (readRecoveryAttempts (run_metadata queuedRun)))),
                  (''recoveryState'', JStr ''requeued''), (''recoveryReason'', JStr ''manual_operator_requeue''),
                  (''recoveryStrategy'', JStr ''manual''),
                  (''previousStatus'', JStr (run_status_string previousStatus))] @ optional ''requestedBy'' requestedBy
            in act_bind (appendEvent \<lparr>evi_sessionId = sid, evi_runId = Some (run_id queuedRun), evi_event = EvRunQueued,
                 evi_data = JObj ([(''runId'', JStr (run_id queuedRun)), (''sessionId'', JStr sid),
                   (''status'', JStr (run_status_string (run_status queuedRun)))] @ details)\<rparr>) (\<lambda>_.
               act_bind (recordSystemStep queuedRun ''run.requeued''
                 (Some (JObj ((''status'', JStr (run_status_string (run_status queuedRun))) # details)))) (\<lambda>_.
               act_bind (enqueueRun sid (run_id queuedRun)) (\<lambda>_.
               act_return (run_id queuedRun, previousStatus)))))))))"

definition tryRequeueRecoveredRun :: "recovery_service \<Rightarrow> run \<Rightarrow> recovery_strategy \<Rightarrow> recovery_actor \<Rightarrow> bool eng" where
  "tryRequeueRecoveredRun svc run strategy recoveredBy =
     (if \<not> rc_hasRunQueue svc \<or> \<not> truthy (run_sessionId run) then act_return False
      else if strategy = RequeueRunning \<and> run_status run \<noteq> Running then act_return False
      else
        (let recoveryAttempts = readRecoveryAttempts (run_metadata run); sid = the (run_sessionId run) in
         if int recoveryAttempts \<ge> rc_maxAttempts svc then act_return False
         else act_bind nowIso (\<lambda>recoveredAt.
           act_bind (updateRun run (requeue_patch (buildRecoveryMetadata svc run
              \<lparr>rn_attempts = recoveryAttempts + 1, rn_requeued = True, rn_recoveredBy = recoveredBy,
               rn_recoveredAt = recoveredAt, rn_reason = ''automatic_requeue'', rn_quarantined = False,
               rn_strategy = Some strategy, rn_requestedBy = None\<rparr>))) (\<lambda>queuedRun.
             let details = [(''status'', JStr (run_status_string (run_status queuedRun))),
                   (''recoveredBy'', JStr (actor_string recoveredBy)),
                   (''recoveryAttempt'', JNum (int (recoveryAttempts + 1))),
                   (''recoveryState'', JStr ''requeued''), (''recoveryReason'', JStr ''automatic_requeue''),
                   (''recoveryStrategy'', JStr (strategy_string strategy))]
             in act_bind (appendEvent \<lparr>evi_sessionId = sid, evi_runId = Some (run_id queuedRun), evi_event = EvRunQueued,
                  evi_data = JObj ([(''runId'', JStr (run_id queuedRun)), (''sessionId'', JStr sid)] @ details)\<rparr>) (\<lambda>_.
                act_bind (recordSystemStep queuedRun ''run.requeued'' (Some (JObj details))) (\<lambda>_.
                act_bind (enqueueRun sid (run_id queuedRun)) (\<lambda>_. act_return True)))))))"

text \<open>The run is failed, with the event when it has a session, and the step.\<close>

definition fail_recovered_run ::
    "recovery_service \<Rightarrow> run \<Rightarrow> recovery_strategy \<Rightarrow> recovery_actor \<Rightarrow> string \<Rightarrow> (string \<times> json) list \<Rightarrow> run eng" where
  "fail_recovered_run svc run strategy recoveredBy errorMessage extra =
     act_bind nowIso (\<lambda>endedAt.
       case resolveRecoveryFailureContext svc run strategy of (recoveryAttempts, reason, quarantined) \<Rightarrow>
       act_bind (updateRun run (\<lambda>r. r\<lparr>run_status := Failed, run_endedAt := Some endedAt,
           run_errorCode := Some ''worker_recovery_failed'', run_errorMessage := Some errorMessage,
           run_metadata := Some (buildRecoveryMetadata svc run
             \<lparr>rn_attempts = recoveryAttempts, rn_requeued = False, rn_recoveredBy = recoveredBy,
              rn_recoveredAt = endedAt, rn_reason = reason, rn_quarantined = quarantined,
              rn_strategy = Some strategy, rn_requestedBy = None\<rparr>)\<rparr>)) (\<lambda>failedRun.
         let details = [(''status'', JStr (run_status_string (run_status failedRun))),
               (''errorCode'', JStr ''worker_recovery_failed''), (''errorMessage'', JStr errorMessage),
               (''recoveredBy'', JStr (actor_string recoveredBy)),
               (''recoveryAttempt'', JNum (int recoveryAttempts)),
               (''recoveryState'', JStr (if quarantined then ''quarantined'' else ''failed'')),
               (''recoveryReason'', JStr reason)] @ extra
         in act_bind (if truthy (run_sessionId failedRun)
              then act_bind (appendEvent \<lparr>evi_sessionId = the (run_sessionId failedRun), evi_runId = Some (run_id failedRun),
                evi_event = EvRunFailed, evi_data = JObj ([(''runId'', JStr (run_id failedRun)),
                  (''sessionId'', JStr (the (run_sessionId failedRun)))] @ details)\<rparr>) (\<lambda>_. act_return ())
              else act_return ()) (\<lambda>_.
            act_bind (recordSystemStep failedRun ''run.failed'' (Some (JObj details))) (\<lambda>_.
            act_return failedRun))))"

definition abortRun :: "string \<Rightarrow> unit eng" where
  "abortRun rid st =
     (Inr (), case map_of (st_runAbortControllers st) rid of
        None \<Rightarrow> st
      | Some _ \<Rightarrow> st\<lparr>st_drainTimeoutRecoveredRuns := List.insert rid (st_drainTimeoutRecoveredRuns st),
                     st_runAbortControllers := AList.update rid True (st_runAbortControllers st)\<rparr>)"

datatype drain_outcome = DrainFailed | DrainRequeued | DrainIgnored

definition recoverRunAfterDrainTimeout :: "recovery_service \<Rightarrow> string \<Rightarrow> recovery_strategy \<Rightarrow> drain_outcome eng" where
  "recoverRunAfterDrainTimeout svc rid strategy =
     act_bind (read_db (\<lambda>db. rr_getById rid (db_runs db))) (\<lambda>found.
       case found of
         None \<Rightarrow> act_return DrainIgnored
       | Some run \<Rightarrow>
           if run_status run \<noteq> Running \<and> run_status run \<noteq> WaitingTool then act_return DrainIgnored
           else act_bind (abortRun (run_id run)) (\<lambda>_.
             act_bind (if strategy \<noteq> StrategyFail
                       then tryRequeueRecoveredRun svc run strategy WorkerDrainTimeoutRequeue
                       else act_return False) (\<lambda>requeued.
               if requeued then act_return DrainRequeued
               else act_bind (fail_recovered_run svc run strategy WorkerDrainTimeout
                   ''Run was recovered as failed after worker drain timed out.''
                   [(''recoveryStrategy'', JStr (strategy_string strategy))]) (\<lambda>_. act_return DrainFailed))))"

datatype cancel_reason = CancelRequested | ParentTerminal

definition isTerminalParentCancellation :: "run_status \<Rightarrow> bool" where
  "isTerminalParentCancellation s \<longleftrightarrow> s = Cancelled \<or> s = TimedOut \<or> s = Failed"

definition recoverCancelledRun :: "run \<Rightarrow> recovery_actor \<Rightarrow> cancel_reason \<Rightarrow> run eng" where
  "recoverCancelledRun run recoveredBy reason =
     act_bind nowIso (\<lambda>endedAt.
       let rootMetadata = record_fields (run_metadata run);
           reason_name = (if reason = ParentTerminal then ''parent_terminal'' else ''cancel_requested'');
           actor = JStr (actor_string recoveredBy);
           recovery = spread (record_fields (map_of rootMetadata ''recovery''))
             [(''state'', JStr ''cancelled''), (''lastOutcome'', JStr ''cancelled''), (''lastRecoveredBy'', actor),
              (''lastRecoveredAt'', JStr endedAt), (''reason'', JStr reason_name)];
           details = [(''status'', JStr ''cancelled''), (''recoveredBy'', actor),
             (''recoveryState'', JStr ''cancelled''), (''recoveryReason'', JStr reason_name)]
       in act_bind (updateRun run (\<lambda>r. r\<lparr>run_status := Cancelled, run_endedAt := Some endedAt,
              run_cancelRequestedAt := Some (or_else (run_cancelRequestedAt run) endedAt),
              run_errorCode := (if reason = ParentTerminal then Some ''parent_run_cancelled'' else None),
              run_errorMessage := (if reason = ParentTerminal
                then Some ''Run was cancelled because its parent run reached a terminal state.'' else None),
              run_metadata := Some (JObj (spread rootMetadata [(''recoveredBy'', actor), (''recoveredAt'', JStr endedAt),
                (''recovery'', JObj recovery)]))\<rparr>)) (\<lambda>cancelledRun.
          act_bind (if truthy (run_sessionId cancelledRun)
            then act_bind (appendEvent \<lparr>evi_sessionId = the (run_sessionId cancelledRun), evi_runId = Some (run_id cancelledRun),
              evi_event = EvRunCancelled, evi_data = JObj ([(''runId'', JStr (run_id cancelledRun)),
                (''sessionId'', JStr (the (run_sessionId cancelledRun)))] @ details)\<rparr>) (\<lambda>_. act_return ())
            else act_return ()) (\<lambda>_.
          act_bind (recordSystemStep cancelledRun ''run.cancelled'' (Some (JObj details))) (\<lambda>_.
          act_return cancelledRun))))"

text \<open>One stale run of the loop: the runs it recovered and the runs it queued again.\<close>

definition parent_ended :: "run \<Rightarrow> memory_db \<Rightarrow> bool" where
  "parent_ended run db \<longleftrightarrow>
     truthy (run_parentRunId run) \<and>
     (case rr_getById (the (run_parentRunId run)) (db_runs db) of
        None \<Rightarrow> False
      | Some parentRun \<Rightarrow> isTerminalParentCancellation (run_status parentRun))"

definition recover_stale_run :: "recovery_service \<Rightarrow> string \<Rightarrow> (string list \<times> string list) eng" where
  "recover_stale_run svc rid =
     act_bind (read_db (\<lambda>db. rr_getById rid (db_runs db))) (\<lambda>found.
       case found of
         None \<Rightarrow> act_return ([], [])
       | Some currentRun \<Rightarrow>
           if run_status currentRun \<noteq> Running \<and> run_status currentRun \<noteq> WaitingTool then act_return ([], [])
           else if truthy (run_cancelRequestedAt currentRun)
           then act_bind (recoverCancelledRun currentRun WorkerStartup CancelRequested) (\<lambda>r. act_return ([run_id r], []))
           else act_bind (read_db (parent_ended currentRun)) (\<lambda>ended.
             if ended
             then act_bind (recoverCancelledRun currentRun WorkerStartup ParentTerminal) (\<lambda>r. act_return ([run_id r], []))
             else act_bind (if rc_strategy svc \<noteq> StrategyFail
                            then tryRequeueRecoveredRun svc currentRun (rc_strategy svc) WorkerStartupRequeue
                            else act_return False) (\<lambda>requeued.
               if requeued then act_return ([], [run_id currentRun])
               else act_bind (fail_recovered_run svc currentRun (rc_strategy svc) WorkerStartup
                   ''Run was recovered as failed after worker heartbeat expired.'' []) (\<lambda>r. act_return ([run_id r], [])))))"

fun recover_each :: "recovery_service \<Rightarrow> string list \<Rightarrow> (string list \<times> string list) eng" where
  "recover_each svc [] = act_return ([], [])"
| "recover_each svc (rid # rids) =
     act_bind (recover_stale_run svc rid) (\<lambda>(recovered, requeued).
     act_bind (recover_each svc rids) (\<lambda>(recovered', requeued').
     act_return (recovered @ recovered', requeued @ requeued')))"

text \<open>
  \<open>timeoutAgo\<close> is the time \<open>staleRunTimeoutMs\<close> before the call, the default of \<open>staleBefore\<close>.
\<close>

definition recoverStaleRuns ::
    "recovery_service \<Rightarrow> string \<Rightarrow> string option \<Rightarrow> int option \<Rightarrow> (string list \<times> string list) eng" where
  "recoverStaleRuns svc timeoutAgo staleBefore limit =
     act_bind (read_db (\<lambda>db. rr_listRecoverableActiveRuns (or_else staleBefore timeoutAgo) (or_else limit 100) (db_runs db)))
       (\<lambda>recoverableRuns. recover_each svc (map run_id recoverableRuns))"

subsection \<open>Reading back the metadata\<close>

lemma map_of_spread: "map_of (spread base kvs) k = (case map_of (rev kvs) k of Some v \<Rightarrow> Some v | None \<Rightarrow> map_of base k)"
proof (induction kvs arbitrary: base)
  case (Cons x kvs)
  obtain a b where "x = (a, b)" by (cases x)
  with Cons [of "AList.update a b base"] show ?case
    by (simp add: spread_def jmap_get_set map_add_def split: option.split)
qed (simp add: spread_def)

lemma map_of_optional: "map_of (optional k x) j = (if j = k \<and> truthy x then Some (JStr (the x)) else None)"
  by (simp add: optional_def)

lemma rev_optional [simp]: "rev (optional k x) = optional k x"
  by (simp add: optional_def)

lemma attempts_build [simp]:
  "readRecoveryAttempts (Some (buildRecoveryMetadata svc run inp)) = rn_attempts inp"
  by (simp add: readRecoveryAttempts_def buildRecoveryMetadata_def Let_def record_fields_def map_of_spread
      map_add_def map_of_optional nullish_def)

lemma attempts_cancelled:
  "readRecoveryAttempts (Some (JObj (spread (record_fields md)
      [(''recoveredBy'', a), (''recoveredAt'', b), (''recovery'', JObj (spread (record_fields (map_of (record_fields md) ''recovery''))
        [(''state'', c), (''lastOutcome'', d), (''lastRecoveredBy'', f), (''lastRecoveredAt'', g), (''reason'', h)]))]))) =
   readRecoveryAttempts md"
  by (simp add: readRecoveryAttempts_def Let_def record_fields_def map_of_spread map_add_def)

subsection \<open>What an operation leaves of the runs\<close>

text \<open>Events and steps are logged: the runs, the sessions and the dispatched runs stay.\<close>

definition only_logs :: "engine_state \<Rightarrow> engine_state \<Rightarrow> bool" where
  "only_logs st st' \<longleftrightarrow> runs_of st' = runs_of st \<and> st_dispatched st' = st_dispatched st \<and>
     db_sessions (st_db st') = db_sessions (st_db st)"

lemma appendEvent_logs: "\<exists>e st'. appendEvent inp st = (Inr e, st') \<and> only_logs st st'"
  using appendEvent_run [of inp st] by (auto simp: only_logs_def runs_of_def)

lemma recordSystemStep_logs: "\<exists>s st'. recordSystemStep run name out st = (Inr s, st') \<and> only_logs st st'"
  by (auto simp: recordSystemStep_def startRunStep_def completeRunStep_def on_steps_def total_def sr_create_def
      sr_update_def jmap_get_set Let_def only_logs_def runs_of_def split_def)

lemma only_logs_trans: "only_logs a b \<Longrightarrow> only_logs b c \<Longrightarrow> only_logs a c"
  by (simp add: only_logs_def)

lemma only_logs_tick [simp]: "only_logs (st\<lparr>st_tick := n\<rparr>) st' \<longleftrightarrow> only_logs st st'"
  by (simp add: only_logs_def runs_of_def)

text \<open>
  The effect of one recovery: the run is replaced by one of the same id, and perhaps dispatched.
\<close>

definition replaces :: "run \<Rightarrow> run \<Rightarrow> (string \<times> string) list \<Rightarrow> engine_state \<Rightarrow> engine_state \<Rightarrow> bool" where
  "replaces run run' dispatched st st' \<longleftrightarrow>
     run_id run' = run_id run \<and> runs_of st' = AList.update (run_id run) run' (runs_of st) \<and>
     st_dispatched st' = st_dispatched st @ dispatched \<and> db_sessions (st_db st') = db_sessions (st_db st)"

lemma replaces_tick [simp]: "replaces run run' d (st\<lparr>st_tick := n\<rparr>) st' \<longleftrightarrow> replaces run run' d st st'"
  by (simp add: replaces_def)

lemma replaces_logs: "replaces run run' d st st' \<Longrightarrow> only_logs st' st'' \<Longrightarrow> replaces run run' d st st''"
  by (simp add: replaces_def only_logs_def)

lemma replaces_dispatch:
  "replaces run run' [] st st' \<Longrightarrow> replaces run run' [x] st (st'\<lparr>st_dispatched := st_dispatched st' @ [x]\<rparr>)"
  by (simp add: replaces_def runs_of_def)

text \<open>An action that returns, in a state of which \<open>P\<close> holds with its result.\<close>

definition leads :: "'a eng \<Rightarrow> engine_state \<Rightarrow> ('a \<Rightarrow> engine_state \<Rightarrow> bool) \<Rightarrow> bool" where
  "leads m st P \<longleftrightarrow> (\<exists>x st'. m st = (Inr x, st') \<and> P x st')"

lemma leads_bind: "leads m st (\<lambda>x st'. leads (f x) st' P) \<Longrightarrow> leads (act_bind m f) st P"
  by (auto simp: leads_def)

lemma leads_return: "P x st \<Longrightarrow> leads (act_return x) st P"
  by (simp add: leads_def)

lemma leads_nowIso: "P (st_clock st (st_tick st)) (st\<lparr>st_tick := st_tick st + 1\<rparr>) \<Longrightarrow> leads nowIso st P"
  by (simp add: leads_def)

lemma leads_appendEvent: "(\<And>e st'. only_logs st st' \<Longrightarrow> P e st') \<Longrightarrow> leads (appendEvent inp) st P"
  using appendEvent_logs [of inp st] unfolding leads_def by blast

lemma leads_recordSystemStep: "(\<And>s st'. only_logs st st' \<Longrightarrow> P s st') \<Longrightarrow> leads (recordSystemStep run name out) st P"
  using recordSystemStep_logs [of run name out st] unfolding leads_def by blast

lemma leads_enqueueRun:
  "P () (st\<lparr>st_dispatched := st_dispatched st @ [(sid, rid)]\<rparr>) \<Longrightarrow> leads (enqueueRun sid rid) st P"
  by (simp add: leads_def)

lemma leads_updateRun:
  assumes "map_of (runs_of st) (run_id run) \<noteq> None" "run_id (patch run) = run_id run"
    and "\<And>st'. replaces run (patch run) [] st st' \<Longrightarrow> P (patch run) st'"
  shows "leads (updateRun run patch) st P"
  unfolding leads_def updateRun_stored [of st run patch, OF assms(1,2)]
  by (intro exI conjI, rule refl, rule assms(3)) (simp add: assms(2) replaces_def runs_of_def)

text \<open>The event a run with a session appends.\<close>

lemma leads_event_if:
  "(\<And>st'. only_logs st st' \<Longrightarrow> P () st') \<Longrightarrow>
    leads (if c then act_bind (appendEvent e) (\<lambda>_. act_return ()) else act_return ()) st P"
  by (cases c) (auto intro!: leads_bind leads_appendEvent leads_return simp: only_logs_def)

lemma leads_if: "(c \<Longrightarrow> leads a st P) \<Longrightarrow> (\<not> c \<Longrightarrow> leads b st P) \<Longrightarrow> leads (if c then a else b) st P"
  by simp

lemmas leads_rules = leads_bind leads_return leads_nowIso leads_appendEvent leads_recordSystemStep leads_enqueueRun
  leads_event_if

text \<open>A run may be queued again by a strategy.\<close>

definition requeueable :: "recovery_service \<Rightarrow> recovery_strategy \<Rightarrow> run \<Rightarrow> bool" where
  "requeueable svc strategy run \<longleftrightarrow> rc_hasRunQueue svc \<and> truthy (run_sessionId run) \<and>
     (strategy = RequeueRunning \<longrightarrow> run_status run = Running) \<and>
     int (readRecoveryAttempts (run_metadata run)) < rc_maxAttempts svc"

definition attempts :: "run \<Rightarrow> nat" where
  "attempts run = readRecoveryAttempts (run_metadata run)"

lemma leads_mono: "leads m st P \<Longrightarrow> (\<And>x st'. P x st' \<Longrightarrow> Q x st') \<Longrightarrow> leads m st Q"
  by (auto simp: leads_def)

lemma requeue_patch_sel [simp]:
  "run_id (requeue_patch md run) = run_id run" "run_status (requeue_patch md run) = Queued"
  "run_sessionId (requeue_patch md run) = run_sessionId run" "run_metadata (requeue_patch md run) = Some md"
  "run_cancelRequestedAt (requeue_patch md run) = None"
  by (simp_all add: requeue_patch_def)

lemma tryRequeue_effect:
  assumes "map_of (runs_of st) (run_id run) \<noteq> None" "requeueable svc strategy run"
  shows "leads (tryRequeueRecoveredRun svc run strategy actor) st (\<lambda>b st'. b \<and>
    (\<exists>run'. replaces run run' [(the (run_sessionId run), run_id run)] st st' \<and> run_status run' = Queued \<and>
      run_cancelRequestedAt run' = None \<and> attempts run' = attempts run + 1))"
proof -
  let ?md = "buildRecoveryMetadata svc run
      \<lparr>rn_attempts = readRecoveryAttempts (run_metadata run) + 1, rn_requeued = True, rn_recoveredBy = actor,
       rn_recoveredAt = st_clock st (st_tick st), rn_reason = ''automatic_requeue'', rn_quarantined = False,
       rn_strategy = Some strategy, rn_requestedBy = None\<rparr>"
  have "leads (tryRequeueRecoveredRun svc run strategy actor) st (\<lambda>b st'. b \<and>
      replaces run (requeue_patch ?md run) [(the (run_sessionId run), run_id run)] st st')"
    using assms unfolding tryRequeueRecoveredRun_def requeueable_def Let_def
    by (intro leads_if leads_rules leads_updateRun) (auto simp: replaces_def only_logs_def runs_of_def)
  then show ?thesis
    by (rule leads_mono) (auto simp: attempts_def intro!: exI [of _ "requeue_patch ?md run"])
qed

lemma tryRequeue_refuses:
  "\<not> requeueable svc strategy run \<Longrightarrow> tryRequeueRecoveredRun svc run strategy actor st = (Inr False, st)"
  by (auto simp: tryRequeueRecoveredRun_def requeueable_def Let_def)

lemma fail_effect:
  assumes "map_of (runs_of st) (run_id run) \<noteq> None"
  shows "leads (fail_recovered_run svc run strategy actor msg extra) st (\<lambda>run' st'.
    replaces run run' [] st st' \<and> run_status run' = Failed \<and> run_errorCode run' = Some ''worker_recovery_failed'' \<and>
    attempts run' = attempts run \<and> run_sessionId run' = run_sessionId run)"
proof -
  obtain a reason quarantined where ctx: "resolveRecoveryFailureContext svc run strategy = (a, reason, quarantined)"
    by (metis surj_pair)
  have a: "a = attempts run"
    using ctx by (auto simp: resolveRecoveryFailureContext_def attempts_def Let_def split: if_splits)
  show ?thesis
    using assms unfolding fail_recovered_run_def ctx Let_def prod.case
    by (intro leads_rules leads_updateRun) (auto simp: replaces_def only_logs_def runs_of_def attempts_def a)
qed

lemma cancel_effect:
  assumes "map_of (runs_of st) (run_id run) \<noteq> None"
  shows "leads (recoverCancelledRun run actor reason) st (\<lambda>run' st'.
    replaces run run' [] st st' \<and> run_status run' = Cancelled \<and> attempts run' = attempts run)"
  using assms unfolding recoverCancelledRun_def Let_def
  by (intro leads_rules leads_updateRun)
    (auto simp: replaces_def only_logs_def runs_of_def attempts_def attempts_cancelled)

subsection \<open>Stale runs\<close>

text \<open>What the recovery of stale runs decides for a stored run.\<close>

datatype verdict = LeaveAlone | CancelRun | QueueAgain | GiveUp

definition verdict :: "recovery_service \<Rightarrow> run \<Rightarrow> memory_db \<Rightarrow> verdict" where
  "verdict svc run db =
     (if run_status run \<noteq> Running \<and> run_status run \<noteq> WaitingTool then LeaveAlone
      else if truthy (run_cancelRequestedAt run) \<or> parent_ended run db then CancelRun
      else if rc_strategy svc \<noteq> StrategyFail \<and> requeueable svc (rc_strategy svc) run then QueueAgain
      else GiveUp)"

text \<open>The answer that goes with a verdict, and what it does to the run.\<close>

fun carried_out :: "verdict \<Rightarrow> run \<Rightarrow> string list \<times> string list \<Rightarrow> engine_state \<Rightarrow> engine_state \<Rightarrow> bool" where
  "carried_out LeaveAlone run res st st' \<longleftrightarrow> res = ([], []) \<and> st' = st"
| "carried_out CancelRun run res st st' \<longleftrightarrow> res = ([run_id run], []) \<and>
     (\<exists>run'. replaces run run' [] st st' \<and> run_status run' = Cancelled \<and> attempts run' = attempts run)"
| "carried_out QueueAgain run res st st' \<longleftrightarrow> res = ([], [run_id run]) \<and>
     (\<exists>run'. replaces run run' [(the (run_sessionId run), run_id run)] st st' \<and> run_status run' = Queued \<and>
       run_cancelRequestedAt run' = None \<and> attempts run' = attempts run + 1)"
| "carried_out GiveUp run res st st' \<longleftrightarrow> res = ([run_id run], []) \<and>
     (\<exists>run'. replaces run run' [] st st' \<and> run_status run' = Failed \<and> attempts run' = attempts run)"

lemma leads_refuses:
  "\<not> requeueable svc strategy run \<Longrightarrow> P False st \<Longrightarrow> leads (tryRequeueRecoveredRun svc run strategy actor) st P"
  by (auto simp: leads_def tryRequeue_refuses)

lemma leads_read_db: "leads (act_bind (read_db f) g) st P \<longleftrightarrow> leads (g (f (st_db st))) st P"
  by (simp add: leads_def)

lemma recover_stale_effect:
  assumes k: "keyed run_id (runs_of st)" and r: "map_of (runs_of st) rid = Some run"
  shows "leads (recover_stale_run svc rid) st (\<lambda>res st'. carried_out (verdict svc run (st_db st)) run res st st')"
proof -
  have i: "run_id run = rid" by (rule keyed_id [OF k r])
  then have stored: "map_of (runs_of st) (run_id run) \<noteq> None" using r by simp
  have found: "rr_getById rid (db_runs (st_db st)) = Some run" using r by (simp add: rr_getById_def runs_of_def)
  have cancel: "leads (act_bind (recoverCancelledRun run actor reason) (\<lambda>r. act_return ([run_id r], []))) st
      (\<lambda>res st'. carried_out CancelRun run res st st')" for actor reason
    by (rule leads_bind, rule leads_mono [OF cancel_effect [OF stored]])
      (auto intro!: leads_return simp: replaces_def)
  have give_up: "leads (act_bind (fail_recovered_run svc run strategy actor msg extra) (\<lambda>r. act_return ([run_id r], []))) st
      (\<lambda>res st'. carried_out GiveUp run res st st')" for strategy actor msg extra
    by (rule leads_bind, rule leads_mono [OF fail_effect [OF stored]])
      (auto intro!: leads_return simp: replaces_def)
  let ?attempt = "if rc_strategy svc \<noteq> StrategyFail
      then tryRequeueRecoveredRun svc run (rc_strategy svc) WorkerStartupRequeue else act_return False"
  let ?rest = "\<lambda>requeued. if requeued then act_return ([], [run_id run])
      else act_bind (fail_recovered_run svc run (rc_strategy svc) WorkerStartup
        ''Run was recovered as failed after worker heartbeat expired.'' []) (\<lambda>r. act_return ([run_id r], []))"
  have requeue: "leads (act_bind ?attempt ?rest) st (\<lambda>res st'. carried_out QueueAgain run res st st')"
    if "verdict svc run (st_db st) = QueueAgain"
  proof -
    from that have "requeueable svc (rc_strategy svc) run" "rc_strategy svc \<noteq> StrategyFail"
      by (auto simp: verdict_def split: if_splits)
    with tryRequeue_effect [OF stored]
    have tried: "leads ?attempt st (\<lambda>b st'. b \<and> carried_out QueueAgain run ([], [run_id run]) st st')" by simp
    show ?thesis
      by (rule leads_bind, rule leads_mono [OF tried]) (auto intro!: leads_return simp del: carried_out.simps)
  qed
  have refuse: "leads (act_bind ?attempt ?rest) st (\<lambda>res st'. carried_out GiveUp run res st st')"
    if "verdict svc run (st_db st) = GiveUp"
  proof -
    from that have "\<not> requeueable svc (rc_strategy svc) run \<or> rc_strategy svc = StrategyFail"
      by (auto simp: verdict_def split: if_splits)
    then have "leads ?attempt st P" if "P False st" for P using that by (auto intro: leads_refuses leads_return)
    then show ?thesis using give_up by (intro leads_bind) (simp del: carried_out.simps)
  qed
  show ?thesis
  proof (cases "run_status run = Running \<or> run_status run = WaitingTool")
    case False
    then show ?thesis by (auto simp: recover_stale_run_def leads_read_db found verdict_def intro: leads_return)
  next
    case active: True
    show ?thesis
    proof (cases "truthy (run_cancelRequestedAt run) \<or> parent_ended run (st_db st)")
      case True
      with active cancel show ?thesis
        by (auto simp: recover_stale_run_def leads_read_db found verdict_def simp del: carried_out.simps)
    next
      case False
      then have "leads (recover_stale_run svc rid) st P \<longleftrightarrow> leads (act_bind ?attempt ?rest) st P" for P
        using active by (auto simp only: recover_stale_run_def leads_read_db found option.case simp_thms if_True if_False)
      moreover have "verdict svc run (st_db st) = QueueAgain \<or> verdict svc run (st_db st) = GiveUp"
        using active False by (auto simp: verdict_def)
      ultimately show ?thesis using requeue refuse by (auto simp del: carried_out.simps)
    qed
  qed
qed

text \<open>How a run that was recovered has changed.\<close>

definition settled :: "recovery_service \<Rightarrow> bool \<Rightarrow> run \<Rightarrow> run \<Rightarrow> bool" where
  "settled svc requeued run run' \<longleftrightarrow>
     (if requeued
      then run_status run' = Queued \<and> requeueable svc (rc_strategy svc) run \<and> rc_strategy svc \<noteq> StrategyFail \<and>
        \<not> truthy (run_cancelRequestedAt run) \<and> attempts run' = attempts run + 1
      else attempts run' = attempts run \<and>
        (run_status run' = Cancelled \<and> (truthy (run_cancelRequestedAt run) \<or> truthy (run_parentRunId run)) \<or>
         run_status run' = Failed \<and> \<not> truthy (run_cancelRequestedAt run) \<and>
           (rc_strategy svc = StrategyFail \<or> \<not> requeueable svc (rc_strategy svc) run)))"

lemma replaces_runs:
  assumes "keyed run_id (runs_of st)" "replaces run run' d st st'"
  shows "keyed run_id (runs_of st')"
    and "map_of (runs_of st') k = (if k = run_id run then Some run' else map_of (runs_of st) k)"
  using assms keyed_update [OF assms(1), of run'] by (auto simp: replaces_def jmap_get_set)

lemma recover_stale_settles:
  assumes k: "keyed run_id (runs_of st)" and r: "map_of (runs_of st) rid = Some run"
    and active: "run_status run = Running \<or> run_status run = WaitingTool"
  shows "leads (recover_stale_run svc rid) st (\<lambda>(recovered, requeued) st'.
    (recovered = [rid] \<and> requeued = [] \<or> recovered = [] \<and> requeued = [rid]) \<and> keyed run_id (runs_of st') \<and>
    (\<exists>run'. settled svc (requeued \<noteq> []) run run' \<and>
       (\<forall>k. map_of (runs_of st') k = (if k = rid then Some run' else map_of (runs_of st) k))) \<and>
    st_dispatched st' = st_dispatched st @ map (\<lambda>i. (the (run_sessionId run), i)) requeued)"
proof (rule leads_mono [OF recover_stale_effect [OF k r]])
  fix res st'
  have i: "run_id run = rid" by (rule keyed_id [OF k r])
  assume c: "carried_out (verdict svc run (st_db st)) run res st st'"
  obtain recovered requeued where res: "res = (recovered, requeued)" by fastforce
  have v: "verdict svc run (st_db st) = v \<Longrightarrow> (case v of
      LeaveAlone \<Rightarrow> False
    | CancelRun \<Rightarrow> truthy (run_cancelRequestedAt run) \<or> truthy (run_parentRunId run)
    | QueueAgain \<Rightarrow> \<not> truthy (run_cancelRequestedAt run) \<and> rc_strategy svc \<noteq> StrategyFail \<and>
        requeueable svc (rc_strategy svc) run
    | GiveUp \<Rightarrow> \<not> truthy (run_cancelRequestedAt run) \<and>
        (rc_strategy svc = StrategyFail \<or> \<not> requeueable svc (rc_strategy svc) run))" for v
    using active by (auto simp: verdict_def parent_ended_def split: if_splits)
  from c v have "(recovered = [rid] \<and> requeued = [] \<or> recovered = [] \<and> requeued = [rid]) \<and>
      (\<exists>run'. settled svc (requeued \<noteq> []) run run' \<and>
        replaces run run' (map (\<lambda>i. (the (run_sessionId run), i)) requeued) st st')"
    by (cases "verdict svc run (st_db st)") (auto simp: i settled_def res)
  then obtain run' where out: "recovered = [rid] \<and> requeued = [] \<or> recovered = [] \<and> requeued = [rid]"
    "settled svc (requeued \<noteq> []) run run'"
    "replaces run run' (map (\<lambda>i. (the (run_sessionId run), i)) requeued) st st'" by blast
  note runs = replaces_runs [OF k out(3)]
  have "\<forall>k. map_of (runs_of st') k = (if k = rid then Some run' else map_of (runs_of st) k)"
    using runs(2) i by blast
  then show "(case res of (recovered, requeued) \<Rightarrow> (\<lambda>st'.
    (recovered = [rid] \<and> requeued = [] \<or> recovered = [] \<and> requeued = [rid]) \<and> keyed run_id (runs_of st') \<and>
    (\<exists>run'. settled svc (requeued \<noteq> []) run run' \<and>
       (\<forall>k. map_of (runs_of st') k = (if k = rid then Some run' else map_of (runs_of st) k))) \<and>
    st_dispatched st' = st_dispatched st @ map (\<lambda>i. (the (run_sessionId run), i)) requeued)) st'"
    unfolding res prod.case using out runs(1) by (auto simp: replaces_def)
qed

text \<open>The session a stored run belongs to.\<close>

definition session_of_run :: "engine_state \<Rightarrow> string \<Rightarrow> string" where
  "session_of_run st rid = the (Option.bind (map_of (runs_of st) rid) run_sessionId)"

definition settles_all :: "recovery_service \<Rightarrow> string list \<Rightarrow> engine_state \<Rightarrow> string list \<times> string list \<Rightarrow> engine_state \<Rightarrow> bool" where
  "settles_all svc rids st res st' \<longleftrightarrow>
     mset (fst res) + mset (snd res) = mset rids \<and>
     (\<forall>rid. rid \<notin> set rids \<longrightarrow> map_of (runs_of st') rid = map_of (runs_of st) rid) \<and>
     (\<forall>rid\<in>set rids. \<exists>run run'. map_of (runs_of st) rid = Some run \<and> map_of (runs_of st') rid = Some run' \<and>
        settled svc (rid \<in> set (snd res)) run run') \<and>
     st_dispatched st' = st_dispatched st @ map (\<lambda>rid. (session_of_run st rid, rid)) (snd res)"

lemma settles_all_Cons:
  assumes "rid \<notin> set rids" "map_of (runs_of st) rid = Some run"
    and "a = [rid] \<and> b = [] \<or> a = [] \<and> b = [rid]" "settled svc (b \<noteq> []) run run'"
    and "\<forall>k. map_of (runs_of st1) k = (if k = rid then Some run' else map_of (runs_of st) k)"
    and "st_dispatched st1 = st_dispatched st @ map (\<lambda>i. (the (run_sessionId run), i)) b"
    and "settles_all svc rids st1 (c, d) st2"
  shows "settles_all svc (rid # rids) st (a @ c, b @ d) st2"
proof -
  have "mset c + mset d = mset rids" using assms(7) by (simp add: settles_all_def)
  from arg_cong [OF this, of set_mset] have d: "set d \<subseteq> set rids" by auto
  with assms(1) have "rid \<notin> set d" by blast
  have "map (\<lambda>k. (session_of_run st1 k, k)) d = map (\<lambda>k. (session_of_run st k, k)) d"
    using d assms(1,5) by (auto simp: session_of_run_def)
  moreover have "map (\<lambda>i. (the (run_sessionId run), i)) b = map (\<lambda>k. (session_of_run st k, k)) b"
    using assms(2,3) by (auto simp: session_of_run_def)
  ultimately have "st_dispatched st2 = st_dispatched st @ map (\<lambda>k. (session_of_run st k, k)) (b @ d)"
    using assms(6,7) by (simp add: settles_all_def)
  moreover have "\<exists>run run'. map_of (runs_of st) k = Some run \<and> map_of (runs_of st2) k = Some run' \<and>
      settled svc (k \<in> set (b @ d)) run run'" if "k \<in> set (rid # rids)" for k
  proof (cases "k = rid")
    case True
    have "map_of (runs_of st2) rid = Some run'" using assms(1,5,7) by (simp add: settles_all_def)
    moreover have "(k \<in> set (b @ d)) = (b \<noteq> [])" using True assms(3) \<open>rid \<notin> set d\<close> by auto
    ultimately show ?thesis using True assms(2,4) by auto
  next
    case False
    then have "k \<in> set rids" "(k \<in> set (b @ d)) = (k \<in> set d)" using that assms(3) by auto
    then show ?thesis using assms(5,7) False unfolding settles_all_def by fastforce
  qed
  ultimately show ?thesis using assms(3,5,7) unfolding settles_all_def by auto
qed

lemma recover_each_settles:
  assumes "keyed run_id (runs_of st)" "distinct rids"
    and "\<And>rid. rid \<in> set rids \<Longrightarrow> \<exists>run. map_of (runs_of st) rid = Some run \<and>
      (run_status run = Running \<or> run_status run = WaitingTool)"
  shows "leads (recover_each svc rids) st (\<lambda>res st'. keyed run_id (runs_of st') \<and> settles_all svc rids st res st')"
  using assms
proof (induction rids arbitrary: st)
  case Nil
  then show ?case by (simp add: settles_all_def leads_def)
next
  case (Cons rid rids)
  from Cons.prems(3) [of rid] obtain run where run: "map_of (runs_of st) rid = Some run"
    "run_status run = Running \<or> run_status run = WaitingTool" by auto
  from Cons.prems(2) have rid: "rid \<notin> set rids" "distinct rids" by auto
  obtain a b st1 run' where one: "recover_stale_run svc rid st = (Inr (a, b), st1)" "keyed run_id (runs_of st1)"
    "a = [rid] \<and> b = [] \<or> a = [] \<and> b = [rid]" "settled svc (b \<noteq> []) run run'"
    "\<forall>k. map_of (runs_of st1) k = (if k = rid then Some run' else map_of (runs_of st) k)"
    "st_dispatched st1 = st_dispatched st @ map (\<lambda>i. (the (run_sessionId run), i)) b"
    using recover_stale_settles [OF Cons.prems(1) run, of svc] unfolding leads_def by (clarsimp split: prod.splits)
  have "\<exists>run. map_of (runs_of st1) k = Some run \<and> (run_status run = Running \<or> run_status run = WaitingTool)"
    if "k \<in> set rids" for k
  proof -
    have "k \<noteq> rid" using that rid(1) by auto
    then show ?thesis using Cons.prems(3) [of k] one(5) that by simp
  qed
  from Cons.IH [OF one(2) rid(2) this] obtain c d st2 where rest: "recover_each svc rids st1 = (Inr (c, d), st2)"
    "keyed run_id (runs_of st2)" "settles_all svc rids st1 (c, d) st2"
    unfolding leads_def by auto
  have "recover_each svc (rid # rids) st = (Inr (a @ c, b @ d), st2)" using one(1) rest(1) by simp
  with rest(2) settles_all_Cons [OF rid(1) run(1) one(3-6) rest(3)] show ?case unfolding leads_def by blast
qed

lemma keyed_values_distinct: "keyed f m \<Longrightarrow> distinct (map f (jmap_values m))"
proof -
  assume k: "keyed f m"
  then have "map f (jmap_values m) = map fst m"
    by (auto simp: keyed_def jmap_wf_def jmap_values_def map_of_eq_Some_iff)
  with k show ?thesis by (simp add: keyed_def jmap_wf_def)
qed

lemma recoverable_listed:
  assumes "keyed run_id m"
  shows "distinct (map run_id (rr_listRecoverableActiveRuns t n m))"
    and "rid \<in> set (map run_id (rr_listRecoverableActiveRuns t n m)) \<Longrightarrow>
      \<exists>run. map_of m rid = Some run \<and> (run_status run = Running \<or> run_status run = WaitingTool)"
proof -
  let ?xs = "filter (\<lambda>r. (run_status r = Running \<or> run_status r = WaitingTool) \<and> js_string_le (rr_candidateTimestamp r) t)
      (jmap_values m)"
  have "distinct (map run_id ?xs)" by (rule distinct_map_filter [OF keyed_values_distinct [OF assms]])
  moreover have "mset (map run_id (js_sort cmp ?xs)) = mset (map run_id ?xs)" for cmp by simp
  ultimately have "distinct (map run_id (js_sort cmp ?xs))" for cmp
    using mset_eq_imp_distinct_iff [of "map run_id (js_sort cmp ?xs)" "map run_id ?xs"] by blast
  then show "distinct (map run_id (rr_listRecoverableActiveRuns t n m))"
    by (simp only: rr_listRecoverableActiveRuns_def take_map [symmetric] distinct_take)
  assume "rid \<in> set (map run_id (rr_listRecoverableActiveRuns t n m))"
  moreover have "set (rr_listRecoverableActiveRuns t n m) \<subseteq> set ?xs"
    unfolding rr_listRecoverableActiveRuns_def by (rule order_trans [OF set_take_subset]) simp
  ultimately obtain r where "r \<in> set ?xs" "run_id r = rid" by auto
  then show "\<exists>run. map_of m rid = Some run \<and> (run_status run = Running \<or> run_status run = WaitingTool)"
    using assms jmap_get_values [of m r] by (auto simp: keyed_def)
qed

text \<open>
  C10: no stale run stays active. \<open>recoverStaleRuns\<close> returns; it names every stale active run it
  listed exactly once, as recovered or as requeued, and changes no other run. A requeued run is queued and dispatched
  to its session, with one attempt more, only while attempts are left and no cancellation was
  requested; a recovered run is cancelled when that was requested (or its parent ended), and failed only when it
  cannot be queued again.
\<close>

theorem stale_runs_are_settled:
  assumes "keyed run_id (runs_of st)"
  shows "\<exists>recovered requeued st'. recoverStaleRuns svc timeoutAgo staleBefore limit st = (Inr (recovered, requeued), st') \<and>
    settles_all svc (map run_id (rr_listRecoverableActiveRuns (or_else staleBefore timeoutAgo) (or_else limit 100) (runs_of st)))
      st (recovered, requeued) st'"
proof -
  let ?rids = "map run_id (rr_listRecoverableActiveRuns (or_else staleBefore timeoutAgo) (or_else limit 100) (runs_of st))"
  have "leads (recover_each svc ?rids) st (\<lambda>res st'. keyed run_id (runs_of st') \<and> settles_all svc ?rids st res st')"
    by (rule recover_each_settles [OF assms recoverable_listed [OF assms]])
  then show ?thesis
    unfolding recoverStaleRuns_def leads_def by (auto simp: runs_of_def)
qed

subsection \<open>Drain time-outs and manual requeues\<close>

lemma abortRun_run: "abortRun rid st = (Inr (), snd (abortRun rid st))"
  by (simp add: abortRun_def)

lemma abortRun_keeps [simp]:
  "runs_of (snd (abortRun rid st)) = runs_of st" "st_dispatched (snd (abortRun rid st)) = st_dispatched st"
  "st_db (snd (abortRun rid st)) = st_db st"
  by (auto simp: abortRun_def runs_of_def split: option.split)

lemma drain_effect:
  assumes k: "keyed run_id (runs_of st)" and r: "map_of (runs_of st) rid = Some run"
  shows "leads (recoverRunAfterDrainTimeout svc rid strategy) st (\<lambda>out st'.
    if run_status run \<noteq> Running \<and> run_status run \<noteq> WaitingTool then out = DrainIgnored \<and> st' = st
    else if strategy \<noteq> StrategyFail \<and> requeueable svc strategy run
    then out = DrainRequeued \<and> (\<exists>run'. replaces run run' [(the (run_sessionId run), rid)] st st' \<and>
      run_status run' = Queued \<and> run_cancelRequestedAt run' = None \<and> attempts run' = attempts run + 1)
    else out = DrainFailed \<and> (\<exists>run'. replaces run run' [] st st' \<and> run_status run' = Failed \<and>
      attempts run' = attempts run))"
proof (cases "run_status run = Running \<or> run_status run = WaitingTool")
  case False
  have found: "rr_getById rid (db_runs (st_db st)) = Some run" using r by (simp add: rr_getById_def runs_of_def)
  show ?thesis unfolding recoverRunAfterDrainTimeout_def leads_read_db found option.case
    using False by (auto intro: leads_return)
next
  case True
  have found: "rr_getById rid (db_runs (st_db st)) = Some run" using r by (simp add: rr_getById_def runs_of_def)
  have i: "run_id run = rid" by (rule keyed_id [OF k r])
  let ?st = "snd (abortRun rid st)"
  have stored: "map_of (runs_of ?st) (run_id run) \<noteq> None" using r i by simp
  have same: "replaces run run' d ?st st' \<longleftrightarrow> replaces run run' d st st'" for run' d st'
    by (simp add: replaces_def)
  have abort: "leads (act_bind (abortRun rid) f) st P \<longleftrightarrow> leads (f ()) ?st P" for f P
    unfolding leads_def by (subst act_bind_run, subst abortRun_run) simp
  show ?thesis
  proof (cases "strategy \<noteq> StrategyFail \<and> requeueable svc strategy run")
    case True
    with \<open>run_status run = Running \<or> run_status run = WaitingTool\<close> show ?thesis
      unfolding recoverRunAfterDrainTimeout_def leads_read_db found option.case
      by (auto simp: abort i same intro!: leads_bind [of "tryRequeueRecoveredRun _ _ _ _"] leads_return
          leads_mono [OF tryRequeue_effect [OF stored]] simp del: act_bind_run)
  next
    case False
    have fail: "leads (act_bind (fail_recovered_run svc run strategy WorkerDrainTimeout msg extra) (\<lambda>_. act_return DrainFailed)) ?st
        (\<lambda>out st'. out = DrainFailed \<and> (\<exists>run'. replaces run run' [] st st' \<and> run_status run' = Failed \<and>
          attempts run' = attempts run))" for msg extra
      by (rule leads_bind, rule leads_mono [OF fail_effect [OF stored]]) (auto simp: same intro!: leads_return)
    have refuse: "leads (if strategy \<noteq> StrategyFail
        then tryRequeueRecoveredRun svc run strategy WorkerDrainTimeoutRequeue else act_return False) ?st P"
      if "P False ?st" for P
      using False that by (auto intro: leads_refuses leads_return)
    have c: "(run_status run \<noteq> Running \<and> run_status run \<noteq> WaitingTool) = False"
      "(strategy \<noteq> StrategyFail \<and> requeueable svc strategy run) = False"
      using True False by blast+
    show ?thesis
      unfolding recoverRunAfterDrainTimeout_def leads_read_db found option.case c if_False i abort
      by (rule leads_bind, rule refuse, simp only: if_False, rule fail)
  qed
qed

text \<open>When an operator may queue a run again.\<close>

definition requeue_allowed :: "recovery_service \<Rightarrow> run \<Rightarrow> memory_db \<Rightarrow> bool" where
  "requeue_allowed svc run db \<longleftrightarrow>
     (run_status run = Failed \<or> run_status run = TimedOut) \<and> isRecoveryManagedRun run \<and>
     rc_hasRunQueue svc \<and> truthy (run_sessionId run) \<and> map_of (db_sessions db) (the (run_sessionId run)) \<noteq> None"

lemma managed_build: "run_metadata run = Some (buildRecoveryMetadata svc r inp) \<Longrightarrow> isRecoveryManagedRun run"
  by (simp add: isRecoveryManagedRun_def buildRecoveryMetadata_def Let_def record_fields_def map_of_spread
      map_add_def map_of_optional)

lemma requeueRun_allowed:
  assumes k: "keyed run_id (runs_of st)" and r: "map_of (runs_of st) rid = Some run"
    and allowed: "requeue_allowed svc run (st_db st)"
  shows "leads (requeueRun svc rid requestedBy) st (\<lambda>res st'. res = (rid, run_status run) \<and>
    (\<exists>run'. replaces run run' [(the (run_sessionId run), rid)] st st' \<and> run_status run' = Queued \<and>
      run_endedAt run' = None \<and> run_errorCode run' = None \<and> run_cancelRequestedAt run' = None \<and>
      attempts run' = attempts run \<and> isRecoveryManagedRun run'))"
proof -
  have i: "run_id run = rid" by (rule keyed_id [OF k r])
  have stored: "map_of (runs_of st) (run_id run) \<noteq> None" using r i by simp
  let ?md = "buildRecoveryMetadata svc run
      \<lparr>rn_attempts = readRecoveryAttempts (run_metadata run), rn_requeued = True,
       rn_recoveredBy = ManualOperatorRequeue, rn_recoveredAt = st_clock st (st_tick st),
       rn_reason = ''manual_operator_requeue'', rn_quarantined = False, rn_strategy = None,
       rn_requestedBy = requestedBy\<rparr>"
  have get: "leads (getRun rid) st P \<longleftrightarrow> P run st" for P using r by (simp add: leads_def getRun_run)
  from allowed obtain s where "map_of (db_sessions (st_db st)) (the (run_sessionId run)) = Some s"
    by (auto simp: requeue_allowed_def)
  then have session: "leads (getSession (the (run_sessionId run))) st P \<longleftrightarrow> P s st" for P
    by (simp add: leads_def getSession_def ssr_getById_def)
  have guards: "(run_status run \<noteq> Failed \<and> run_status run \<noteq> TimedOut) = False" "(\<not> isRecoveryManagedRun run) = False"
    "(\<not> rc_hasRunQueue svc \<or> \<not> truthy (run_sessionId run)) = False"
    using allowed by (auto simp: requeue_allowed_def)
  have "leads (requeueRun svc rid requestedBy) st (\<lambda>res st'. res = (rid, run_status run) \<and>
      replaces run (requeue_patch ?md run) [(the (run_sessionId run), rid)] st st')"
    unfolding requeueRun_def Let_def
    by (rule leads_bind, unfold get guards if_False, rule leads_bind, unfold session)
      (intro leads_rules leads_updateRun, auto simp: stored [simplified] i replaces_def only_logs_def runs_of_def r [unfolded runs_of_def])
  then show ?thesis
    by (rule leads_mono) (auto intro!: exI [of _ "requeue_patch ?md run"] simp: attempts_def managed_build,
      auto simp: requeue_patch_def)
qed

lemma requeueRun_refused:
  assumes "map_of (runs_of st) rid = Some run" "\<not> requeue_allowed svc run (st_db st)"
  shows "\<exists>e. requeueRun svc rid requestedBy st = (Inl e, st) \<and> getErrorStatusCode e \<in> {404, 409}"
  using assms by (auto simp: requeueRun_def requeue_allowed_def getRun_run getSession_def ssr_getById_def Let_def)

text \<open>
  C30: a manual requeue is guarded. It succeeds exactly for a failed or timed-out run that recovery gave up or
  touched, when there is a run queue and the session still exists; the run is then queued and dispatched again, with its
  outcome cleared and its automatic attempts kept. Otherwise it throws 404 or 409 and nothing changes.
\<close>

theorem manual_requeue_is_guarded:
  assumes "keyed run_id (runs_of st)" "map_of (runs_of st) rid = Some run"
  shows "if requeue_allowed svc run (st_db st)
    then \<exists>st' run'. requeueRun svc rid requestedBy st = (Inr (rid, run_status run), st') \<and>
      replaces run run' [(the (run_sessionId run), rid)] st st' \<and> run_status run' = Queued \<and>
      run_endedAt run' = None \<and> run_errorCode run' = None \<and> run_cancelRequestedAt run' = None \<and>
      attempts run' = attempts run \<and> isRecoveryManagedRun run'
    else \<exists>e. requeueRun svc rid requestedBy st = (Inl e, st) \<and> getErrorStatusCode e \<in> {404, 409}"
proof (cases "requeue_allowed svc run (st_db st)")
  case True
  with requeueRun_allowed [OF assms True, of requestedBy] show ?thesis unfolding leads_def by fastforce
next
  case False
  with requeueRun_refused [OF assms(2) False, of requestedBy] show ?thesis by simp
qed

subsection \<open>Automatic attempts are bounded\<close>

lemma count_list_1_if_distinct: "distinct xs \<Longrightarrow> x \<in> set xs \<Longrightarrow> count_list xs x = 1"
  by (induction xs) auto

text \<open>
  A history of recoveries, manual requeues and work on the runs, which leaves their ids and
  metadata; each step lists the runs it queued again automatically.
\<close>

datatype recovery_op =
    RecoverStale string "int option"
  | DrainTimeout string recovery_strategy
  | ManualRequeue string "string option"
  | WorkOn string "run \<Rightarrow> run"

fun recovery_exec :: "recovery_service \<Rightarrow> recovery_op \<Rightarrow> engine_state \<Rightarrow> string list \<times> engine_state" where
  "recovery_exec svc (RecoverStale staleBefore limit) st =
     (case recoverStaleRuns svc staleBefore None limit st of
        (Inr (recovered, requeued), st') \<Rightarrow> (requeued, st') | (Inl e, st') \<Rightarrow> ([], st'))"
| "recovery_exec svc (DrainTimeout rid strategy) st =
     (case recoverRunAfterDrainTimeout svc rid strategy st of
        (Inr DrainRequeued, st') \<Rightarrow> ([rid], st') | (_, st') \<Rightarrow> ([], st'))"
| "recovery_exec svc (ManualRequeue rid requestedBy) st = ([], snd (requeueRun svc rid requestedBy st))"
| "recovery_exec svc (WorkOn rid f) st =
     ([], snd (act_bind (getRun rid)
       (\<lambda>run. updateRun run (\<lambda>r. (f r)\<lparr>run_id := run_id r, run_metadata := run_metadata r\<rparr>)) st))"

fun recovery_history :: "recovery_service \<Rightarrow> recovery_op list \<Rightarrow> engine_state \<Rightarrow> string list" where
  "recovery_history svc [] st = []"
| "recovery_history svc (x # xs) st =
     (case recovery_exec svc x st of (ids, st') \<Rightarrow> ids @ recovery_history svc xs st')"

definition counts_attempts :: "recovery_service \<Rightarrow> engine_state \<Rightarrow> string list \<Rightarrow> engine_state \<Rightarrow> bool" where
  "counts_attempts svc st ids st' \<longleftrightarrow> keyed run_id (runs_of st') \<and>
     (\<forall>rid run. map_of (runs_of st) rid = Some run \<longrightarrow>
        (\<exists>run'. map_of (runs_of st') rid = Some run' \<and> attempts run' = attempts run + count_list ids rid \<and>
           (rid \<in> set ids \<longrightarrow> int (attempts run') \<le> rc_maxAttempts svc)))"

lemma counts_attempts_same:
  "keyed run_id (runs_of st) \<Longrightarrow> runs_of st' = runs_of st \<Longrightarrow> counts_attempts svc st [] st'"
  by (simp add: counts_attempts_def)

lemma counts_attempts_replaces:
  assumes "keyed run_id (runs_of st)" "map_of (runs_of st) rid = Some run" "replaces run run' d st st'"
    and "ids = [] \<or> ids = [rid] \<and> int (attempts run') \<le> rc_maxAttempts svc"
    and "attempts run' = attempts run + length ids"
  shows "counts_attempts svc st ids st'"
proof -
  have i: "run_id run = rid" by (rule keyed_id [OF assms(1,2)])
  show ?thesis
    using replaces_runs [OF assms(1,3)] assms(2,4,5) i by (auto simp: counts_attempts_def)
qed

lemma recovery_exec_counts:
  assumes k: "keyed run_id (runs_of st)"
  shows "counts_attempts svc st (fst (recovery_exec svc x st)) (snd (recovery_exec svc x st))"
proof (cases x)
  case (RecoverStale t n)
  let ?rids = "map run_id (rr_listRecoverableActiveRuns t (or_else n 100) (runs_of st))"
  have d: "distinct ?rids" by (rule recoverable_listed [OF k])
  have "leads (recover_each svc ?rids) st (\<lambda>res st'. keyed run_id (runs_of st') \<and> settles_all svc ?rids st res st')"
    by (rule recover_each_settles [OF k d recoverable_listed(2) [OF k]])
  then obtain a b st' where out: "recoverStaleRuns svc t None n st = (Inr (a, b), st')"
    "keyed run_id (runs_of st')" "settles_all svc ?rids st (a, b) st'"
    unfolding recoverStaleRuns_def leads_def by (auto simp: runs_of_def)
  have m: "mset a + mset b = mset ?rids" using out(3) by (simp add: settles_all_def)
  have once: "count_list b rid = (if rid \<in> set b then 1 else 0)" for rid
  proof -
    have "distinct (a @ b)" using m d mset_eq_imp_distinct_iff [of "a @ b" ?rids] by simp
    then show ?thesis by (metis count_list_0_iff count_list_1_if_distinct distinct_append)
  qed
  have b: "set b \<subseteq> set ?rids" using arg_cong [OF m, of set_mset] by auto
  have "\<exists>run'. map_of (runs_of st') rid = Some run' \<and> attempts run' = attempts run + count_list b rid \<and>
      (rid \<in> set b \<longrightarrow> int (attempts run') \<le> rc_maxAttempts svc)" if r: "map_of (runs_of st) rid = Some run" for rid run
  proof (cases "rid \<in> set ?rids")
    case True
    with out(3) r show ?thesis unfolding settles_all_def once
      by (fastforce simp: settled_def requeueable_def attempts_def split: if_splits)
  next
    case False
    with out(3) r b show ?thesis unfolding settles_all_def once by auto
  qed
  with out(1,2) RecoverStale show ?thesis by (simp add: counts_attempts_def)
next
  case (DrainTimeout rid strategy)
  show ?thesis
  proof (cases "map_of (runs_of st) rid")
    case None
    then show ?thesis using DrainTimeout k
      by (simp add: recoverRunAfterDrainTimeout_def rr_getById_def runs_of_def counts_attempts_def)
  next
    case (Some run)
    from drain_effect [OF k Some, of svc strategy] DrainTimeout show ?thesis
      unfolding leads_def
      by (auto simp: requeueable_def attempts_def counts_attempts_same [OF k] split: if_splits
          intro: counts_attempts_replaces [OF k Some])
  qed
next
  case (ManualRequeue rid requestedBy)
  show ?thesis
  proof (cases "map_of (runs_of st) rid")
    case None
    then show ?thesis using ManualRequeue k by (simp add: requeueRun_def getRun_run counts_attempts_def)
  next
    case (Some run)
    show ?thesis
    proof (cases "requeue_allowed svc run (st_db st)")
      case True
      from requeueRun_allowed [OF k Some True, of requestedBy] ManualRequeue show ?thesis
        unfolding leads_def by (auto intro: counts_attempts_replaces [OF k Some])
    next
      case False
      from requeueRun_refused [OF Some False, of requestedBy] ManualRequeue show ?thesis
        by (auto simp: counts_attempts_same [OF k])
    qed
  qed
next
  case (WorkOn rid f)
  show ?thesis
  proof (cases "map_of (runs_of st) rid")
    case None
    then show ?thesis using WorkOn k by (simp add: getRun_run counts_attempts_def)
  next
    case (Some run)
    have i: "run_id run = rid" by (rule keyed_id [OF k Some])
    let ?run' = "(f run)\<lparr>run_id := run_id run, run_metadata := run_metadata run\<rparr>"
    have "replaces run ?run' [] st (snd (recovery_exec svc x st))"
      using updateRun_stored [of st run "\<lambda>r. (f r)\<lparr>run_id := run_id r, run_metadata := run_metadata r\<rparr>"] Some i WorkOn
      by (simp add: getRun_run replaces_def runs_of_def)
    from counts_attempts_replaces [OF k Some this, of "[]"] show ?thesis
      using WorkOn by (simp add: attempts_def)
  qed
qed

lemma recovery_history_bounded:
  "keyed run_id (runs_of st) \<Longrightarrow> map_of (runs_of st) rid = Some run \<Longrightarrow>
    int (attempts run + count_list (recovery_history svc ops st) rid) \<le> max (int (attempts run)) (rc_maxAttempts svc)"
proof (induction ops arbitrary: st run)
  case (Cons x ops)
  obtain ids st1 where e: "recovery_exec svc x st = (ids, st1)" by fastforce
  from recovery_exec_counts [OF Cons.prems(1), of svc x] e have "counts_attempts svc st ids st1" by simp
  with Cons.prems(2) obtain run1 where one: "keyed run_id (runs_of st1)" "map_of (runs_of st1) rid = Some run1"
    "attempts run1 = attempts run + count_list ids rid" "rid \<in> set ids \<longrightarrow> int (attempts run1) \<le> rc_maxAttempts svc"
    unfolding counts_attempts_def by blast
  have "rid \<notin> set ids \<Longrightarrow> attempts run1 = attempts run" using one(3) by (simp add: count_list_0_iff)
  with Cons.IH [OF one(1,2)] one(3,4) e show ?case by (cases "rid \<in> set ids") auto
qed simp

text \<open>
  C21: automatic recovery ends. Over any history of recoveries of stale runs, drain time-outs with
  any strategy, manual requeues and work on the runs, a run is queued again automatically at most as often as it has
  attempts left.
\<close>

theorem automatic_requeues_are_bounded:
  assumes "keyed run_id (runs_of st)" "map_of (runs_of st) rid = Some run"
  shows "int (attempts run + count_list (recovery_history svc ops st) rid) \<le> max (int (attempts run)) (rc_maxAttempts svc)"
  using recovery_history_bounded [OF assms] .

text \<open>
  The drain time-out, unlike the recovery of stale runs, does not look at the cancellation: a run
  whose cancellation was requested is queued again and the request is erased.
\<close>

lemma drain_requeue_forgets_cancellation:
  assumes "keyed run_id (runs_of st)" "map_of (runs_of st) rid = Some run" "run_status run = Running"
    and "truthy (run_cancelRequestedAt run)" "strategy \<noteq> StrategyFail" "requeueable svc strategy run"
  shows "\<exists>st' run'. recoverRunAfterDrainTimeout svc rid strategy st = (Inr DrainRequeued, st') \<and>
    map_of (runs_of st') rid = Some run' \<and> run_status run' = Queued \<and> run_cancelRequestedAt run' = None"
  using drain_effect [OF assms(1,2), of svc strategy] assms(3,5,6) replaces_runs(2) [OF assms(1)]
    keyed_id [OF assms(1,2)]
  unfolding leads_def by fastforce

subsection \<open>An example\<close>

definition recovery_example :: engine_state where
  "recovery_example = run_exec (SetStatus example_run Running id) engine_example"

definition recovery_config :: recovery_service where
  "recovery_config = \<lparr>rc_hasRunQueue = True, rc_strategy = RequeueRunning, rc_maxAttempts = 1\<rparr>"

lemma recovery_example_keyed: "keyed run_id (runs_of recovery_example)"
proof -
  have "keyed run_id (runs_of engine_example)"
    using db_wf_store_example by (simp add: runs_of_def engine_example_def db_wf_def)
  from run_exec_step [OF this] show ?thesis unfolding recovery_example_def by blast
qed

lemma stale_runs_are_settled_witness:
  "\<exists>recovered requeued st'. recoverStaleRuns recovery_config ''z'' None None recovery_example = (Inr (recovered, requeued), st') \<and>
    settles_all recovery_config [''r1''] recovery_example (recovered, requeued) st'"
proof -
  have "map run_id (rr_listRecoverableActiveRuns (or_else None ''z'') (or_else None 100) (runs_of recovery_example)) = [''r1'']"
    by code_simp
  with stale_runs_are_settled [OF recovery_example_keyed, of recovery_config "''z''" None None] show ?thesis by simp
qed

lemma automatic_requeues_are_bounded_witness:
  "\<exists>run. map_of (runs_of recovery_example) ''r1'' = Some run \<and>
     int (attempts run + count_list (recovery_history recovery_config
       [RecoverStale ''z'' None, WorkOn ''r1'' (run_status_update (\<lambda>_. Running)), RecoverStale ''z'' None] recovery_example) ''r1'')
     \<le> max (int (attempts run)) (rc_maxAttempts recovery_config)"
proof -
  have "map_option run_id (map_of (runs_of recovery_example) ''r1'') = Some ''r1''" by code_simp
  then obtain run where "map_of (runs_of recovery_example) ''r1'' = Some run" by auto
  from automatic_requeues_are_bounded [OF recovery_example_keyed this] this show ?thesis by blast
qed

definition given_up_example :: engine_state where
  "given_up_example =
     run_exec (SetStatus (example_run\<lparr>run_status := Running\<rparr>) Failed (\<lambda>r. r\<lparr>run_errorCode := Some ''worker_recovery_failed''\<rparr>)) recovery_example"

lemma manual_requeue_is_guarded_witness:
  "\<exists>st' run'. requeueRun recovery_config ''r1'' None given_up_example = (Inr (''r1'', Failed), st') \<and>
     map_of (runs_of st') ''r1'' = Some run' \<and> run_status run' = Queued"
proof -
  have k: "keyed run_id (runs_of given_up_example)"
    using run_exec_step [OF recovery_example_keyed] unfolding given_up_example_def by blast
  have "map_option (\<lambda>run. (run_id run, run_status run, requeue_allowed recovery_config run (st_db given_up_example)))
      (map_of (runs_of given_up_example) ''r1'') = Some (''r1'', Failed, True)" by code_simp
  then obtain run where run: "map_of (runs_of given_up_example) ''r1'' = Some run" "run_id run = ''r1''" "run_status run = Failed"
    "requeue_allowed recovery_config run (st_db given_up_example)" by auto
  from manual_requeue_is_guarded [OF k run(1), of recovery_config None] run(3,4) obtain st' run'
    where "requeueRun recovery_config ''r1'' None given_up_example = (Inr (''r1'', Failed), st')"
      "replaces run run' [(the (run_sessionId run), ''r1'')] given_up_example st'" "run_status run' = Queued"
    by auto
  with replaces_runs(2) [OF k this(2)] run(2) show ?thesis by auto
qed

end
