(* ===== verification/Leader_Election.thy ===== *)
theory Leader_Election
  imports Js_Prelude
begin

text \<open>
  The leader election of the controllers, \<open>apps/controller/src/leader-election.ts\<close>: every
  controller polls one Kubernetes lease, takes it when it is free or expired and renews it while it holds
  it. The API server is a parameter with its documented behaviour. Any number of electors run with it,
  one step per request served, per reply handled and per callback; times are milliseconds of one clock.
\<close>

subsection \<open>The lease and the API server\<close>

text \<open>A time in the lease, or a string that \<open>Date.parse\<close> does not read.\<close>

datatype lease_time = LeaseTime nat | BadTime

record parsed_lease =
  pl_resourceVersion :: "nat option"
  pl_holderIdentity :: "string option"
  pl_renewTime :: "lease_time option"
  pl_acquireTime :: "lease_time option"
  pl_leaseDurationSeconds :: "nat option"
  pl_leaseTransitions :: "nat option"

definition isLeaseExpired :: "parsed_lease \<Rightarrow> nat \<Rightarrow> bool" where
  "isLeaseExpired lease nowMs \<longleftrightarrow>
     (if \<not> truthy (pl_holderIdentity lease) then True
      else case (or_opt (pl_renewTime lease) (pl_acquireTime lease), pl_leaseDurationSeconds lease) of
        (Some (LeaseTime renewMs), Some seconds) \<Rightarrow> seconds = 0 \<or> renewMs + seconds * 1000 \<le> nowMs
      | _ \<Rightarrow> True)"

text \<open>What a create or a merge patch writes; a field that is \<^const>\<open>None\<close> is left as it is.\<close>

record lease_write =
  lw_holderIdentity :: string
  lw_leaseDurationSeconds :: nat
  lw_renewTime :: nat
  lw_acquireTime :: "nat option"
  lw_leaseTransitions :: "nat option"

datatype api_reply = ApiReply nat "parsed_lease option"

text \<open>A body that is no lease is read as one without fields.\<close>

definition parseLease :: "api_reply \<Rightarrow> parsed_lease" where
  "parseLease r =
     (case r of
        ApiReply st (Some lease) \<Rightarrow> lease
      | ApiReply st None \<Rightarrow>
          \<lparr>pl_resourceVersion = None, pl_holderIdentity = None, pl_renewTime = None, pl_acquireTime = None,
           pl_leaseDurationSeconds = None, pl_leaseTransitions = None\<rparr>)"

fun api_status :: "api_reply \<Rightarrow> nat" where
  "api_status (ApiReply st lease) = st"

definition api_success :: "api_reply \<Rightarrow> bool" where
  "api_success r \<longleftrightarrow> 200 \<le> api_status r \<and> api_status r < 300"

record 's lease_api =
  api_get :: "'s \<Rightarrow> api_reply \<times> 's"
  api_create :: "lease_write \<Rightarrow> 's \<Rightarrow> api_reply \<times> 's"
  api_patch :: "nat option \<Rightarrow> lease_write \<Rightarrow> 's \<Rightarrow> api_reply \<times> 's"

definition wrote :: "lease_write \<Rightarrow> parsed_lease \<Rightarrow> bool" where
  "wrote w l \<longleftrightarrow> pl_holderIdentity l = Some (lw_holderIdentity w) \<and>
     pl_renewTime l = Some (LeaseTime (lw_renewTime w)) \<and>
     pl_leaseDurationSeconds l = Some (lw_leaseDurationSeconds w)"

text \<open>
  The documented behaviour: a read answers with the lease, a create fails with 409 when there is one, and a patch that
  names a resource version fails with 409 unless the stored lease has that version, and otherwise
  gives it a later one. A request may also be refused, with another status, without effect.
\<close>

locale lease_server =
  fixes api :: "'s lease_api" and stored :: "'s \<Rightarrow> parsed_lease option"
  assumes get_keeps: "stored (snd (api_get api s)) = stored s"
    and get_reads: "api_success (fst (api_get api s)) \<Longrightarrow> \<exists>l st v. fst (api_get api s) = ApiReply st (Some l) \<and> stored s = Some l \<and> pl_resourceVersion l = Some v"
    and get_missing: "api_status (fst (api_get api s)) = 404 \<Longrightarrow> stored s = None"
    and create_writes: "api_success (fst (api_create api w s)) \<Longrightarrow>
      stored s = None \<and>
      (\<exists>l v. stored (snd (api_create api w s)) = Some l \<and> pl_resourceVersion l = Some v \<and> wrote w l)"
    and create_refuses: "\<not> api_success (fst (api_create api w s)) \<Longrightarrow> stored (snd (api_create api w s)) = stored s"
    and patch_writes: "api_success (fst (api_patch api (Some v) w s)) \<Longrightarrow>
      \<exists>l l' v'. stored s = Some l \<and> pl_resourceVersion l = Some v \<and> stored (snd (api_patch api (Some v) w s)) = Some l' \<and>
        pl_resourceVersion l' = Some v' \<and> v < v' \<and> wrote w l'"
    and patch_refuses: "\<not> api_success (fst (api_patch api (Some v) w s)) \<Longrightarrow>
      stored (snd (api_patch api (Some v) w s)) = stored s"

subsection \<open>An elector\<close>

datatype leadership_call = GainedLeadership | LostLeadership

datatype elector_pc =
    Waiting
  | AtGet nat
  | GotLease nat api_reply
  | AtCreate nat
  | AtPatch nat parsed_lease
  | Written nat api_reply
  | InCallback bool
  | Dead

record elector =
  el_identity :: string
  el_leaseDurationMs :: nat
  el_renewIntervalMs :: nat
  el_retryIntervalMs :: nat
  el_running :: bool
  el_closed :: bool
  el_leader :: bool
  el_timer :: "nat option"
  el_pc :: elector_pc
  el_leadershipChanges :: nat
  el_lastAttemptAt :: "nat option"
  el_lastRenewAt :: "nat option"
  el_lastLeadershipChangeAt :: "nat option"
  el_observedHolderIdentity :: "string option"
  el_failed :: bool
  el_calls :: "leadership_call list"

text \<open>\<open>start()\<close> and \<open>close()\<close>; the first tick runs up to its first request at once.\<close>

definition begin_tick :: "nat \<Rightarrow> elector \<Rightarrow> elector" where
  "begin_tick now e =
     (if \<not> el_running e \<or> el_closed e then e\<lparr>el_pc := Waiting\<rparr> else e\<lparr>el_pc := AtGet now\<rparr>)"

definition elector_start :: "nat \<Rightarrow> elector \<Rightarrow> elector" where
  "elector_start now e =
     (if el_running e \<or> el_closed e then e else begin_tick now (e\<lparr>el_running := True\<rparr>))"

definition elector_close :: "elector \<Rightarrow> elector" where
  "elector_close e =
     (let e' = e\<lparr>el_closed := True, el_running := False, el_timer := None\<rparr>
      in if el_leader e' then e'\<lparr>el_leader := False, el_calls := el_calls e' @ [LostLeadership]\<rparr> else e')"

text \<open>The end of a tick: the next timer, unless the elector stopped meanwhile.\<close>

definition schedule_tick :: "nat \<Rightarrow> bool \<Rightarrow> elector \<Rightarrow> elector" where
  "schedule_tick now leader e =
     (let e' = e\<lparr>el_pc := Waiting\<rparr>
      in if \<not> el_running e \<or> el_closed e then e'
         else e'\<lparr>el_timer := Some (now + (if leader then el_renewIntervalMs e else el_retryIntervalMs e))\<rparr>)"

text \<open>What the tick does with the outcome of its attempt; \<open>failed\<close> says that it threw.\<close>

definition conclude_tick :: "nat \<Rightarrow> nat \<Rightarrow> bool \<Rightarrow> bool \<Rightarrow> elector \<Rightarrow> elector" where
  "conclude_tick now attemptAt leader failed e =
     (let wasLeader = el_leader e;
          e' = e\<lparr>el_leader := leader, el_lastAttemptAt := Some attemptAt, el_failed := failed\<rparr>
      in if \<not> wasLeader \<and> leader
         then e'\<lparr>el_leadershipChanges := el_leadershipChanges e + 1, el_lastLeadershipChangeAt := Some now,
                el_calls := el_calls e @ [GainedLeadership], el_pc := InCallback leader\<rparr>
         else if wasLeader \<and> \<not> leader
         then e'\<lparr>el_lastLeadershipChangeAt := Some now, el_calls := el_calls e @ [LostLeadership],
                el_pc := InCallback leader\<rparr>
         else schedule_tick now leader e')"

definition lease_seconds :: "elector \<Rightarrow> nat" where
  "lease_seconds e = (el_leaseDurationMs e + 999) div 1000"

text \<open>The reply to the read: create, renew or take over, or leave the lease to its holder.\<close>

definition handle_lease :: "nat \<Rightarrow> nat \<Rightarrow> api_reply \<Rightarrow> elector \<Rightarrow> elector" where
  "handle_lease now t reply e =
     (if api_status reply = 404 then e\<lparr>el_pc := AtCreate t\<rparr>
      else if \<not> api_success reply then conclude_tick now t False True e
      else
        (let lease = parseLease reply;
             e' = e\<lparr>el_observedHolderIdentity := pl_holderIdentity lease\<rparr>;
             sameHolder = (pl_holderIdentity lease = Some (el_identity e));
             expired = isLeaseExpired lease now
         in if \<not> sameHolder \<and> \<not> expired then conclude_tick now t False False e'
            else e'\<lparr>el_pc := AtPatch t lease\<rparr>))"

definition create_request :: "nat \<Rightarrow> elector \<Rightarrow> lease_write" where
  "create_request t e =
     \<lparr>lw_holderIdentity = el_identity e, lw_leaseDurationSeconds = lease_seconds e, lw_renewTime = t,
      lw_acquireTime = Some t, lw_leaseTransitions = Some 1\<rparr>"

definition patch_request :: "nat \<Rightarrow> parsed_lease \<Rightarrow> elector \<Rightarrow> lease_write" where
  "patch_request t lease e =
     (let sameHolder = (pl_holderIdentity lease = Some (el_identity e)) in
      \<lparr>lw_holderIdentity = el_identity e, lw_leaseDurationSeconds = lease_seconds e, lw_renewTime = t,
       lw_acquireTime = (if sameHolder then None else Some t),
       lw_leaseTransitions = (if sameHolder then None else Some (or_else (pl_leaseTransitions lease) 0 + 1))\<rparr>)"

definition handle_written :: "nat \<Rightarrow> nat \<Rightarrow> api_reply \<Rightarrow> elector \<Rightarrow> elector" where
  "handle_written now t reply e =
     (if api_status reply = 409 then conclude_tick now t False False e
      else if \<not> api_success reply then conclude_tick now t False True e
      else conclude_tick now t True False
        (e\<lparr>el_lastRenewAt := Some t, el_observedHolderIdentity := Some (el_identity e)\<rparr>))"

text \<open>The reply to the request an elector waits for; \<^const>\<open>None\<close> when it waits for none.\<close>

definition serve_request :: "'s lease_api \<Rightarrow> elector \<Rightarrow> 's \<Rightarrow> (elector \<times> 's) option" where
  "serve_request api e s =
     (case el_pc e of
        AtGet t \<Rightarrow> (case api_get api s of (reply, s') \<Rightarrow> Some (e\<lparr>el_pc := GotLease t reply\<rparr>, s'))
      | AtCreate t \<Rightarrow> (case api_create api (create_request t e) s of (reply, s') \<Rightarrow> Some (e\<lparr>el_pc := Written t reply\<rparr>, s'))
      | AtPatch t lease \<Rightarrow>
          (case api_patch api (pl_resourceVersion lease) (patch_request t lease e) s of
             (reply, s') \<Rightarrow> Some (e\<lparr>el_pc := Written t reply\<rparr>, s'))
      | _ \<Rightarrow> None)"

fun request_time :: "elector_pc \<Rightarrow> nat option" where
  "request_time (AtGet t) = Some t"
| "request_time (AtCreate t) = Some t"
| "request_time (AtPatch t lease) = Some t"
| "request_time _ = None"

definition handle_reply :: "nat \<Rightarrow> elector \<Rightarrow> elector option" where
  "handle_reply now e =
     (case el_pc e of
        GotLease t reply \<Rightarrow> Some (handle_lease now t reply e)
      | Written t reply \<Rightarrow> Some (handle_written now t reply e)
      | _ \<Rightarrow> None)"

subsection \<open>Electors that share a lease\<close>

record 's election =
  en_server :: 's
  en_now :: nat
  en_electors :: "nat \<Rightarrow> elector option"

datatype election_event =
    Start nat
  | Fire nat
  | Serve nat
  | LoseRequest nat
  | LoseReply nat
  | Handle nat
  | CallbackDone nat
  | CallbackFails nat
  | Close nat
  | Elapse nat

text \<open>
  A step of one elector, with the server and the time. A request that is lost, or whose reply is,
  throws. A callback that throws ends the tick: nothing catches it, so no timer is set.
\<close>

definition elector_step :: "'s lease_api \<Rightarrow> election_event \<Rightarrow> nat \<Rightarrow> elector \<Rightarrow> 's \<Rightarrow> (elector \<times> 's) option" where
  "elector_step api ev now e s =
     (case ev of
        Start i \<Rightarrow> if el_pc e = Waiting then Some (elector_start now e, s) else None
      | Fire i \<Rightarrow>
          (case el_timer e of
             None \<Rightarrow> None
           | Some due \<Rightarrow> if due \<le> now \<and> el_pc e = Waiting then Some (begin_tick now (e\<lparr>el_timer := None\<rparr>), s) else None)
      | Serve i \<Rightarrow> serve_request api e s
      | LoseRequest i \<Rightarrow>
          (case request_time (el_pc e) of None \<Rightarrow> None | Some t \<Rightarrow> Some (conclude_tick now t False True e, s))
      | LoseReply i \<Rightarrow>
          (case (request_time (el_pc e), serve_request api e s) of
             (Some t, Some (e', s')) \<Rightarrow> Some (conclude_tick now t False True e, s')
           | _ \<Rightarrow> None)
      | Handle i \<Rightarrow> map_option (\<lambda>e'. (e', s)) (handle_reply now e)
      | CallbackDone i \<Rightarrow>
          (case el_pc e of InCallback leader \<Rightarrow> Some (schedule_tick now leader e, s) | _ \<Rightarrow> None)
      | CallbackFails i \<Rightarrow>
          (case el_pc e of InCallback leader \<Rightarrow> Some (e\<lparr>el_pc := Dead\<rparr>, s) | _ \<Rightarrow> None)
      | Close i \<Rightarrow> Some (elector_close e, s)
      | Elapse n \<Rightarrow> None)"

fun event_elector :: "election_event \<Rightarrow> nat" where
  "event_elector (Start i) = i"
| "event_elector (Fire i) = i"
| "event_elector (Serve i) = i"
| "event_elector (LoseRequest i) = i"
| "event_elector (LoseReply i) = i"
| "event_elector (Handle i) = i"
| "event_elector (CallbackDone i) = i"
| "event_elector (CallbackFails i) = i"
| "event_elector (Close i) = i"
| "event_elector (Elapse n) = 0"

definition election_step :: "'s lease_api \<Rightarrow> election_event \<Rightarrow> 's election \<Rightarrow> 's election option" where
  "election_step api ev g =
     (case ev of
        Elapse n \<Rightarrow> Some (g\<lparr>en_now := en_now g + n\<rparr>)
      | _ \<Rightarrow>
          (case en_electors g (event_elector ev) of
             None \<Rightarrow> None
           | Some e \<Rightarrow>
               (case elector_step api ev (en_now g) e (en_server g) of
                  None \<Rightarrow> None
                | Some (e', s') \<Rightarrow>
                    Some (g\<lparr>en_server := s', en_electors := (en_electors g)(event_elector ev \<mapsto> e')\<rparr>))))"

text \<open>
  An elector claims the lease when it is leader, or when the reply that makes it leader has been sent; the
  lease it claims dates from its last successful attempt.
\<close>

definition claim_time :: "elector \<Rightarrow> nat option" where
  "claim_time e =
     (case el_pc e of
        Written t reply \<Rightarrow> if api_success reply then Some t else if el_leader e then el_lastRenewAt e else None
      | _ \<Rightarrow> if el_leader e then el_lastRenewAt e else None)"

text \<open>No claim is older than the lease it took: the renewals are in time.\<close>

definition claims_fresh :: "'s election \<Rightarrow> bool" where
  "claims_fresh g \<longleftrightarrow>
     (\<forall>i e t. en_electors g i = Some e \<longrightarrow> claim_time e = Some t \<longrightarrow> en_now g < t + lease_seconds e * 1000)"

definition new_elector :: "string \<Rightarrow> nat \<Rightarrow> nat \<Rightarrow> nat \<Rightarrow> elector" where
  "new_elector identity leaseDurationMs renewIntervalMs retryIntervalMs =
     \<lparr>el_identity = identity, el_leaseDurationMs = leaseDurationMs, el_renewIntervalMs = renewIntervalMs,
      el_retryIntervalMs = retryIntervalMs, el_running = False, el_closed = False, el_leader = False,
      el_timer = None, el_pc = Waiting, el_leadershipChanges = 0, el_lastAttemptAt = None, el_lastRenewAt = None,
      el_lastLeadershipChangeAt = None, el_observedHolderIdentity = None, el_failed = False, el_calls = []\<rparr>"

definition election_init :: "'s election \<Rightarrow> bool" where
  "election_init g \<longleftrightarrow>
     (\<forall>i e. en_electors g i = Some e \<longrightarrow> (\<exists>identity d r t. identity \<noteq> [] \<and> 0 < d \<and> e = new_elector identity d r t)) \<and>
     (\<forall>i j e e'. en_electors g i = Some e \<longrightarrow> en_electors g j = Some e' \<longrightarrow> el_identity e = el_identity e' \<longrightarrow> i = j)"

inductive elected :: "'s lease_api \<Rightarrow> 's election \<Rightarrow> bool" for api :: "'s lease_api" where
  init: "election_init g \<Longrightarrow> elected api g"
| step: "elected api g \<Longrightarrow> election_step api ev g = Some g' \<Longrightarrow> claims_fresh g' \<Longrightarrow> elected api g'"

subsection \<open>What a step changes\<close>

text \<open>The lease an elector has read in this tick.\<close>

definition copy_of :: "elector_pc \<Rightarrow> parsed_lease option" where
  "copy_of l =
     (case l of
        GotLease t reply \<Rightarrow> if api_success reply then Some (parseLease reply) else None
      | AtPatch t lease \<Rightarrow> Some lease
      | _ \<Rightarrow> None)"

definition may_patch :: "nat \<Rightarrow> elector \<Rightarrow> bool" where
  "may_patch now e \<longleftrightarrow>
     (\<forall>t l. el_pc e = AtPatch t l \<longrightarrow> pl_holderIdentity l = Some (el_identity e) \<or> isLeaseExpired l now)"

definition renewed :: "elector \<Rightarrow> bool" where
  "renewed e \<longleftrightarrow> (el_leader e \<longrightarrow> el_lastRenewAt e \<noteq> None)"

definition written_by :: "elector \<Rightarrow> nat \<Rightarrow> parsed_lease \<Rightarrow> bool" where
  "written_by e t l \<longleftrightarrow> pl_holderIdentity l = Some (el_identity e) \<and> pl_renewTime l = Some (LeaseTime t) \<and>
     pl_leaseDurationSeconds l = Some (lease_seconds e)"

lemmas tick_defs = begin_tick_def elector_start_def elector_close_def schedule_tick_def conclude_tick_def
  handle_lease_def handle_written_def handle_reply_def Let_def

lemma conclude_tick_sel [simp]:
  "el_identity (conclude_tick now t b f e) = el_identity e"
  "el_leaseDurationMs (conclude_tick now t b f e) = el_leaseDurationMs e"
  "el_leader (conclude_tick now t b f e) = b"
  "el_lastRenewAt (conclude_tick now t b f e) = el_lastRenewAt e"
  "copy_of (el_pc (conclude_tick now t b f e)) = None"
  "claim_time (conclude_tick now t b f e) = (if b then el_lastRenewAt e else None)"
  by (auto simp: conclude_tick_def schedule_tick_def copy_of_def claim_time_def Let_def)

lemma conclude_tick_pc [simp]:
  "el_pc (conclude_tick now t b f e) \<noteq> AtPatch t' l" "el_pc (conclude_tick now t b f e) \<noteq> Written t' r"
  by (auto simp: conclude_tick_def schedule_tick_def Let_def)

text \<open>A step that is no request leaves the server, and claims nothing new.\<close>

definition calm :: "nat \<Rightarrow> elector \<Rightarrow> elector \<Rightarrow> bool" where
  "calm now e e' \<longleftrightarrow> el_identity e' = el_identity e \<and> lease_seconds e' = lease_seconds e \<and>
     (renewed e \<longrightarrow> renewed e') \<and> (claim_time e' \<noteq> None \<longrightarrow> claim_time e' = claim_time e) \<and>
     (copy_of (el_pc e') \<noteq> None \<longrightarrow> copy_of (el_pc e') = copy_of (el_pc e)) \<and> (may_patch now e \<longrightarrow> may_patch now e')"

lemma calm_conclude: "calm now e (conclude_tick now t False f e)"
  by (simp add: calm_def renewed_def may_patch_def lease_seconds_def)

lemma claim_time_pc:
  "el_pc e = Written t reply \<Longrightarrow>
     claim_time e = (if api_success reply then Some t else if el_leader e then el_lastRenewAt e else None)"
  "el_pc e = GotLease t reply \<Longrightarrow> claim_time e = (if el_leader e then el_lastRenewAt e else None)"
  "el_pc e = AtPatch t lease \<Longrightarrow> claim_time e = (if el_leader e then el_lastRenewAt e else None)"
  "el_pc e = AtCreate t \<Longrightarrow> claim_time e = (if el_leader e then el_lastRenewAt e else None)"
  by (simp_all add: claim_time_def)

lemma copy_of_pc [simp]:
  "copy_of (GotLease t reply) = (if api_success reply then Some (parseLease reply) else None)"
  "copy_of (AtPatch t lease) = Some lease" "copy_of (AtCreate t) = None" "copy_of (Written t reply) = None"
  by (simp_all add: copy_of_def)

lemma success_not_404: "api_success reply \<Longrightarrow> api_status reply \<noteq> 404 \<and> api_status reply \<noteq> 409"
  by (simp add: api_success_def)

lemma calm_handle_lease: "el_pc e = GotLease t reply \<Longrightarrow> calm now e (handle_lease now t reply e)"
  using success_not_404 [of reply]
  by (auto simp: handle_lease_def Let_def calm_def renewed_def may_patch_def lease_seconds_def claim_time_pc)

lemma calm_handle_written: "el_pc e = Written t reply \<Longrightarrow> calm now e (handle_written now t reply e)"
  by (auto simp: handle_written_def calm_def renewed_def may_patch_def lease_seconds_def claim_time_pc success_not_404)

lemma calm_schedule: "el_pc e = InCallback b \<Longrightarrow> calm now e (schedule_tick now b e)"
  by (auto simp: schedule_tick_def Let_def calm_def renewed_def may_patch_def lease_seconds_def copy_of_def claim_time_def)

lemma calm_dead: "el_pc e = InCallback b \<Longrightarrow> calm now e (e\<lparr>el_pc := Dead\<rparr>)"
  by (auto simp: calm_def renewed_def may_patch_def lease_seconds_def copy_of_def claim_time_def)

lemma calm_begin: "el_pc e = Waiting \<Longrightarrow> calm now e (begin_tick now (e\<lparr>el_timer := x\<rparr>))"
  by (auto simp: begin_tick_def calm_def renewed_def may_patch_def lease_seconds_def copy_of_def claim_time_def)

lemma calm_start: "el_pc e = Waiting \<Longrightarrow> calm now e (elector_start now e)"
  by (auto simp: elector_start_def begin_tick_def calm_def renewed_def may_patch_def lease_seconds_def copy_of_def claim_time_def)

lemma calm_close: "calm now e (elector_close e)"
  by (auto simp: elector_close_def Let_def calm_def renewed_def may_patch_def lease_seconds_def claim_time_def
      split: elector_pc.splits)

lemma quiet_step:
  assumes "elector_step api ev now e s = Some (e', s')" "\<And>i. ev \<noteq> Serve i" "\<And>i. ev \<noteq> LoseReply i"
  shows "s' = s \<and> calm now e e'"
  using assms
  by (cases ev)
    (auto simp: elector_step_def handle_reply_def calm_conclude calm_handle_lease calm_handle_written calm_schedule
      calm_dead calm_begin calm_start calm_close split: if_splits option.splits elector_pc.splits)

text \<open>A request that was served either changed nothing or wrote the lease of the elector.\<close>

context lease_server
begin

lemma served:
  assumes serve: "serve_request api e s = Some (e', s')"
    and copy: "\<And>l. copy_of (el_pc e) = Some l \<Longrightarrow> \<exists>v. pl_resourceVersion l = Some v"
  shows "e' = e\<lparr>el_pc := el_pc e'\<rparr> \<and> (\<forall>t l. el_pc e' \<noteq> AtPatch t l) \<and>
    (copy_of (el_pc e') = None \<or> copy_of (el_pc e') = stored s \<and> (\<exists>l v. stored s = Some l \<and> pl_resourceVersion l = Some v)) \<and>
    (stored s' = stored s \<and> (claim_time e' \<noteq> None \<longrightarrow> claim_time e' = claim_time e) \<or>
     (\<exists>t l v. stored s' = Some l \<and> pl_resourceVersion l = Some v \<and> written_by e t l \<and> claim_time e' = Some t \<and>
        copy_of (el_pc e') = None \<and>
        (stored s = None \<or>
         (\<exists>t' c u. el_pc e = AtPatch t' c \<and> pl_resourceVersion c = Some u \<and>
            (\<exists>cur. stored s = Some cur \<and> pl_resourceVersion cur = Some u) \<and> u < v))))"
proof (cases "el_pc e")
  case (AtGet t)
  then show ?thesis
    using serve get_keeps [of s] get_reads [of s]
    by (cases "api_success (fst (api_get api s))")
      (auto simp: serve_request_def copy_of_def claim_time_def parseLease_def split: prod.splits)
next
  case (AtCreate t)
  then show ?thesis
    using serve create_writes [of "create_request t e" s] create_refuses [of "create_request t e" s]
    by (cases "api_success (fst (api_create api (create_request t e) s))")
      (auto simp: serve_request_def copy_of_def claim_time_def wrote_def written_by_def create_request_def split: prod.splits)
next
  case (AtPatch t c)
  then obtain u where u: "pl_resourceVersion c = Some u" using copy by (auto simp: copy_of_def)
  show ?thesis
    using AtPatch u serve patch_writes [of u "patch_request t c e" s] patch_refuses [of u "patch_request t c e" s]
    by (cases "api_success (fst (api_patch api (Some u) (patch_request t c e) s))")
      (auto simp: serve_request_def copy_of_def claim_time_def wrote_def written_by_def patch_request_def Let_def split: prod.splits)
qed (use serve in \<open>auto simp: serve_request_def\<close>)

end

subsection \<open>One leader\<close>

definition proper :: "'s election \<Rightarrow> bool" where
  "proper g \<longleftrightarrow>
     (\<forall>i e. en_electors g i = Some e \<longrightarrow> el_identity e \<noteq> [] \<and> 0 < lease_seconds e \<and> renewed e \<and> may_patch (en_now g) e) \<and>
     (\<forall>i j e e'. en_electors g i = Some e \<longrightarrow> en_electors g j = Some e' \<longrightarrow> el_identity e = el_identity e' \<longrightarrow> i = j)"

definition claims_hold :: "('s \<Rightarrow> parsed_lease option) \<Rightarrow> 's election \<Rightarrow> bool" where
  "claims_hold stored g \<longleftrightarrow>
     (\<forall>i e t. en_electors g i = Some e \<longrightarrow> claim_time e = Some t \<longrightarrow>
        (\<exists>l r. stored (en_server g) = Some l \<and> written_by e r l \<and> t \<le> r))"

definition older_copy :: "parsed_lease \<Rightarrow> parsed_lease option \<Rightarrow> bool" where
  "older_copy c cur \<longleftrightarrow>
     (\<exists>l u v. cur = Some l \<and> pl_resourceVersion c = Some u \<and> pl_resourceVersion l = Some v \<and> u \<le> v \<and> (u = v \<longrightarrow> c = l))"

definition copies_older :: "('s \<Rightarrow> parsed_lease option) \<Rightarrow> 's election \<Rightarrow> bool" where
  "copies_older stored g \<longleftrightarrow>
     (\<forall>i e c. en_electors g i = Some e \<longrightarrow> copy_of (el_pc e) = Some c \<longrightarrow> older_copy c (stored (en_server g)))"

lemma isLeaseExpired_mono: "isLeaseExpired l now \<Longrightarrow> now \<le> now' \<Longrightarrow> isLeaseExpired l now'"
  by (auto simp: isLeaseExpired_def split: option.splits lease_time.splits if_splits)

lemma may_patch_mono: "may_patch now e \<Longrightarrow> now \<le> now' \<Longrightarrow> may_patch now' e"
  unfolding may_patch_def using isLeaseExpired_mono by blast

lemma held_not_expired:
  assumes "written_by e r l" "el_identity e \<noteq> []" "0 < lease_seconds e" "now < r + lease_seconds e * 1000"
  shows "\<not> isLeaseExpired l now"
  using assms by (simp add: written_by_def isLeaseExpired_def truthy_def)

text \<open>While an elector claims the lease, no other one writes it.\<close>

lemma claim_excludes_patch:
  assumes "proper g" "claims_fresh g" "claims_hold stored g" "copies_older stored g"
    and i: "en_electors g i = Some e" "claim_time e = Some t"
    and j: "en_electors g j = Some p" "el_pc p = AtPatch t' c" "pl_resourceVersion c = Some u"
    and cur: "stored (en_server g) = Some cur" "pl_resourceVersion cur = Some u"
  shows "i = j"
proof -
  have "older_copy c (stored (en_server g))" using assms(4) j(1,2) unfolding copies_older_def by fastforce
  then have "c = cur" using cur j(3) by (auto simp: older_copy_def)
  from assms(3) i obtain r where r: "written_by e r cur" "t \<le> r" unfolding claims_hold_def using cur(1) by fastforce
  have e: "el_identity e \<noteq> []" "0 < lease_seconds e" using assms(1) i(1) by (auto simp: proper_def)
  have "en_now g < t + lease_seconds e * 1000" using assms(2) i by (simp add: claims_fresh_def)
  then have "\<not> isLeaseExpired cur (en_now g)" using held_not_expired [OF r(1) e] r(2) by simp
  moreover have "may_patch (en_now g) p" using assms(1) j(1) by (simp add: proper_def)
  ultimately have "pl_holderIdentity cur = Some (el_identity p)"
    using j(2) \<open>c = cur\<close> by (auto simp: may_patch_def)
  then have "el_identity e = el_identity p" using r(1) by (simp add: written_by_def)
  then show "i = j" using assms(1) i(1) j(1) unfolding proper_def by blast
qed

definition sound :: "('s \<Rightarrow> parsed_lease option) \<Rightarrow> 's election \<Rightarrow> bool" where
  "sound stored g \<longleftrightarrow> proper g \<and> claims_hold stored g \<and> copies_older stored g"

context lease_server
begin

text \<open>The elector that steps, and the lease, after the step.\<close>

lemma elector_step_effect:
  assumes "elector_step api ev now e s = Some (e', s')" "\<And>l. copy_of (el_pc e) = Some l \<Longrightarrow> older_copy l (stored s)"
    "renewed e" "may_patch now e"
  shows "el_identity e' = el_identity e \<and> lease_seconds e' = lease_seconds e \<and> renewed e' \<and> may_patch now e' \<and>
    (stored s' = stored s \<and> (claim_time e' \<noteq> None \<longrightarrow> claim_time e' = claim_time e) \<and>
       (\<forall>c. copy_of (el_pc e') = Some c \<longrightarrow> older_copy c (stored s)) \<or>
     (\<exists>t l v. stored s' = Some l \<and> pl_resourceVersion l = Some v \<and> written_by e t l \<and>
        (claim_time e' = None \<or> claim_time e' = Some t) \<and> copy_of (el_pc e') = None \<and>
        (stored s = None \<or>
         (\<exists>t' c u. el_pc e = AtPatch t' c \<and> pl_resourceVersion c = Some u \<and>
            (\<exists>cur. stored s = Some cur \<and> pl_resourceVersion cur = Some u) \<and> u < v))))"
proof -
  have versions: "\<exists>v. pl_resourceVersion l = Some v" if "copy_of (el_pc e) = Some l" for l
    using assms(2) [OF that] by (auto simp: older_copy_def)
  have lost: "renewed (conclude_tick now t False f e) \<and> may_patch now (conclude_tick now t False f e) \<and>
      lease_seconds (conclude_tick now t False f e) = lease_seconds e" for t f
    by (simp add: renewed_def may_patch_def lease_seconds_def)
  show ?thesis
  proof (cases "(\<exists>i. ev = Serve i) \<or> (\<exists>i. ev = LoseReply i)")
    case False
    then have "s' = s \<and> calm now e e'" using quiet_step [OF assms(1)] by blast
    then show ?thesis using assms(2-4) unfolding calm_def by (metis option.distinct(1))
  next
    case True
    then consider i where "ev = Serve i" | i where "ev = LoseReply i" by blast
    then show ?thesis
    proof cases
      case 1
      then have serve: "serve_request api e s = Some (e', s')" using assms(1) by (simp add: elector_step_def)
      note eff = served [OF serve versions]
      have pc: "e' = e\<lparr>el_pc := el_pc e'\<rparr>" using eff by blast
      have "el_identity e' = el_identity e" "lease_seconds e' = lease_seconds e" "el_leader e' = el_leader e"
        "el_lastRenewAt e' = el_lastRenewAt e"
        by (subst pc, simp add: lease_seconds_def)+
      then have "el_identity e' = el_identity e" "lease_seconds e' = lease_seconds e" "renewed e'"
        using assms(3) by (simp_all add: renewed_def)
      moreover have "may_patch now e'" using eff by (simp add: may_patch_def)
      moreover have "older_copy c (stored s)" if "copy_of (el_pc e') = Some c" for c
        using eff that by (auto simp: older_copy_def)
      ultimately show ?thesis using eff by auto
    next
      case 2
      then obtain t e1 where e1: "serve_request api e s = Some (e1, s')" "e' = conclude_tick now t False True e"
        using assms(1) by (auto simp: elector_step_def split: option.splits)
      note eff = served [OF e1(1) versions]
      show ?thesis using eff lost unfolding e1(2) by auto
    qed
  qed
qed

lemma election_step_cases:
  assumes "election_step api ev g = Some g'"
  obtains (pass) n where "ev = Elapse n" "g' = g\<lparr>en_now := en_now g + n\<rparr>"
  | (step) j e e' s' where "en_electors g j = Some e" "elector_step api ev (en_now g) e (en_server g) = Some (e', s')"
      "g' = g\<lparr>en_server := s', en_electors := (en_electors g)(j \<mapsto> e')\<rparr>"
proof (cases "\<exists>n. ev = Elapse n")
  case True
  then show ?thesis using assms by (auto simp: election_step_def intro: pass)
next
  case False
  then have "election_step api ev g =
      (case en_electors g (event_elector ev) of
         None \<Rightarrow> None
       | Some e \<Rightarrow>
           (case elector_step api ev (en_now g) e (en_server g) of
              None \<Rightarrow> None
            | Some (e', s') \<Rightarrow>
                Some (g\<lparr>en_server := s', en_electors := (en_electors g)(event_elector ev \<mapsto> e')\<rparr>)))"
    by (cases ev) (auto simp: election_step_def)
  with assms show ?thesis by (auto split: option.splits intro: step)
qed

lemma older_copy_later:
  "older_copy c (Some cur) \<Longrightarrow> pl_resourceVersion cur = Some u \<Longrightarrow> pl_resourceVersion l = Some v \<Longrightarrow> u < v \<Longrightarrow>
    older_copy c (Some l)"
  by (auto simp: older_copy_def)

lemma sound_step:
  assumes "election_step api ev g = Some g'" "sound stored g" "claims_fresh g"
  shows "sound stored g'"
  using assms(1)
proof (cases rule: election_step_cases)
  case (pass n)
  have "may_patch (en_now g + n) e" if "may_patch (en_now g) e" for e
    by (rule may_patch_mono [OF that]) simp
  then show ?thesis using assms(2) pass(2) by (auto simp: sound_def proper_def claims_hold_def copies_older_def)
next
  case (step j e e' s')
  from assms(2) have inv: "proper g" "claims_hold stored g" "copies_older stored g" by (auto simp: sound_def)
  have own: "el_identity e \<noteq> []" "0 < lease_seconds e" "renewed e" "may_patch (en_now g) e"
    using inv(1) step(1) by (auto simp: proper_def)
  have copy: "\<And>l. copy_of (el_pc e) = Some l \<Longrightarrow> older_copy l (stored (en_server g))"
    using inv(3) step(1) unfolding copies_older_def by blast
  note eff = elector_step_effect [OF step(2) copy own(3,4)]
  have "proper g'" using inv(1) eff own(1,2) step(1,3) unfolding proper_def by (auto split: if_splits)
  moreover have "claims_hold stored g' \<and> copies_older stored g'"
  proof (cases "stored s' = stored (en_server g) \<and> (claim_time e' \<noteq> None \<longrightarrow> claim_time e' = claim_time e) \<and>
       (\<forall>c. copy_of (el_pc e') = Some c \<longrightarrow> older_copy c (stored (en_server g)))")
    case True
    have "written_by e' r l = written_by e r l" for r l using eff by (simp add: written_by_def)
    then show ?thesis using True inv(2,3) step(1,3) unfolding claims_hold_def copies_older_def
      by (auto split: if_splits)
  next
    case False
    with eff obtain t l v where w: "stored s' = Some l" "pl_resourceVersion l = Some v" "written_by e t l"
      "claim_time e' = None \<or> claim_time e' = Some t" "copy_of (el_pc e') = None"
      "stored (en_server g) = None \<or> (\<exists>t' c u. el_pc e = AtPatch t' c \<and> pl_resourceVersion c = Some u \<and>
         (\<exists>cur. stored (en_server g) = Some cur \<and> pl_resourceVersion cur = Some u) \<and> u < v)" by blast
    have same: "written_by e' t l" using w(3) eff by (simp add: written_by_def)
    have alone: "claim_time p = None" if "i \<noteq> j" "en_electors g i = Some p" for i p
    proof (rule ccontr)
      assume "claim_time p \<noteq> None"
      then obtain t0 where t0: "claim_time p = Some t0" by blast
      with inv(2) that(2) obtain cur where cur: "stored (en_server g) = Some cur" unfolding claims_hold_def by blast
      with w(6) obtain t' c u where "el_pc e = AtPatch t' c" "pl_resourceVersion c = Some u" "pl_resourceVersion cur = Some u"
        by auto
      from claim_excludes_patch [OF inv(1) assms(3) inv(2,3) that(2) t0 step(1) this(1,2) cur this(3)] that(1)
      show False by simp
    qed
    have later: "older_copy c (Some l)" if "older_copy c (stored (en_server g))" for c
      using w(2,6) that by (auto intro: older_copy_later simp: older_copy_def)
    have "claims_hold stored g'"
      unfolding claims_hold_def
    proof (intro allI impI)
      fix i p t0
      assume p: "en_electors g' i = Some p" "claim_time p = Some t0"
      then have "i = j" "p = e'" using alone step(3) by (auto split: if_splits)
      then have "t0 = t" using w(4) p(2) by auto
      then show "\<exists>l r. stored (en_server g') = Some l \<and> written_by p r l \<and> t0 \<le> r"
        using w(1) same \<open>p = e'\<close> step(3) by auto
    qed
    moreover have "copies_older stored g'"
      using inv(3) w(1,5) later step(3) unfolding copies_older_def by (auto split: if_splits)
    ultimately show ?thesis by blast
  qed
  ultimately show ?thesis by (simp add: sound_def)
qed

lemma elected_sound:
  assumes "elected api g"
  shows "sound stored g \<and> claims_fresh g"
  using assms
proof (induction rule: elected.induct)
  case (init g)
  have e: "el_identity e \<noteq> [] \<and> 0 < lease_seconds e \<and> renewed e \<and> claim_time e = None \<and> copy_of (el_pc e) = None \<and>
      (\<forall>now. may_patch now e)" if "en_electors g i = Some e" for i e
    using init that unfolding election_init_def
    by (fastforce simp: new_elector_def lease_seconds_def renewed_def claim_time_def copy_of_def may_patch_def)
  have "proper g" using e init unfolding proper_def election_init_def by blast
  moreover have "claims_hold stored g" "copies_older stored g" "claims_fresh g"
    using e unfolding claims_hold_def copies_older_def claims_fresh_def by fastforce+
  ultimately show ?case by (simp add: sound_def)
next
  case (step g ev g')
  then show ?case using sound_step by blast
qed

text \<open>Two leaders are one, and the lease names it.\<close>

lemma leaders_agree:
  assumes "elected api g" "en_electors g i = Some e" "el_leader e"
  shows "\<exists>l. stored (en_server g) = Some l \<and> pl_holderIdentity l = Some (el_identity e) \<and> \<not> isLeaseExpired l (en_now g)"
    and "en_electors g j = Some e' \<Longrightarrow> el_leader e' \<Longrightarrow> i = j"
proof -
  from elected_sound [OF assms(1)] have inv: "proper g" "claims_hold stored g" "claims_fresh g" by (auto simp: sound_def)
  have held: "\<exists>l. stored (en_server g) = Some l \<and> pl_holderIdentity l = Some (el_identity p) \<and> \<not> isLeaseExpired l (en_now g)"
    if k: "en_electors g k = Some p" "el_leader p" for k p
  proof -
    have p: "el_identity p \<noteq> []" "0 < lease_seconds p" "renewed p" using inv(1) k(1) by (auto simp: proper_def)
    then have "claim_time p \<noteq> None"
      using k(2) by (cases "el_pc p") (auto simp: renewed_def claim_time_def)
    then obtain t where t: "claim_time p = Some t" by blast
    with inv(2) k(1) obtain l r where l: "stored (en_server g) = Some l" "written_by p r l" "t \<le> r"
      unfolding claims_hold_def by blast
    have "en_now g < r + lease_seconds p * 1000"
      using inv(3) k(1) t l(3) unfolding claims_fresh_def by fastforce
    from held_not_expired [OF l(2) p(1,2) this] l show ?thesis by (auto simp: written_by_def)
  qed
  show "\<exists>l. stored (en_server g) = Some l \<and> pl_holderIdentity l = Some (el_identity e) \<and> \<not> isLeaseExpired l (en_now g)"
    by (rule held [OF assms(2,3)])
  show "i = j" if "en_electors g j = Some e'" "el_leader e'"
    using held [OF assms(2,3)] held [OF that] inv(1) assms(2) that(1) unfolding proper_def by (metis option.inject)
qed

end

text \<open>A server that keeps one lease in memory and counts its versions.\<close>

definition written_lease :: "nat \<Rightarrow> lease_write \<Rightarrow> parsed_lease option \<Rightarrow> parsed_lease" where
  "written_lease v w old =
     \<lparr>pl_resourceVersion = Some v, pl_holderIdentity = Some (lw_holderIdentity w),
      pl_renewTime = Some (LeaseTime (lw_renewTime w)),
      pl_acquireTime = (case lw_acquireTime w of Some t \<Rightarrow> Some (LeaseTime t) | None \<Rightarrow> Option.bind old pl_acquireTime),
      pl_leaseDurationSeconds = Some (lw_leaseDurationSeconds w),
      pl_leaseTransitions = or_opt (lw_leaseTransitions w) (Option.bind old pl_leaseTransitions)\<rparr>"

definition kube_api :: "parsed_lease option lease_api" where
  "kube_api =
     \<lparr>api_get = (\<lambda>s. (case s of None \<Rightarrow> ApiReply 404 None
                        | Some l \<Rightarrow> ApiReply (if pl_resourceVersion l = None then 500 else 200) (Some l), s)),
      api_create = (\<lambda>w s. case s of
        None \<Rightarrow> (ApiReply 201 None, Some (written_lease 1 w None)) | Some l \<Rightarrow> (ApiReply 409 None, s)),
      api_patch = (\<lambda>v w s. case s of
        None \<Rightarrow> (ApiReply 404 None, s)
      | Some l \<Rightarrow>
          (case (v, pl_resourceVersion l) of
             (Some u, Some u') \<Rightarrow>
               if u = u' then (ApiReply 200 None, Some (written_lease (u + 1) w s)) else (ApiReply 409 None, s)
           | _ \<Rightarrow> (ApiReply 500 None, s)))\<rparr>"

interpretation kube: lease_server kube_api "\<lambda>s. s"
  by unfold_locales
    (auto simp: kube_api_def api_success_def written_lease_def wrote_def split: option.splits if_splits)

text \<open>
  C12: one leader. Whatever the interleaving of any number of electors with different identities,
  lost requests and replies, failing callbacks and shut-downs, and whatever the speed of their requests: while no elector
  counts itself leader longer than the duration of its lease after its last successful attempt, at most one elector is
  leader, and the stored lease names it and has not expired.
\<close>

theorem one_leader:
  assumes "lease_server api stored" "elected api g" "en_electors g i = Some e" "el_leader e"
  shows "(\<exists>l. stored (en_server g) = Some l \<and> pl_holderIdentity l = Some (el_identity e) \<and> \<not> isLeaseExpired l (en_now g)) \<and>
    (\<forall>j e'. en_electors g j = Some e' \<and> el_leader e' \<longrightarrow> j = i)"
  using lease_server.leaders_agree [OF assms] by blast

subsection \<open>Where leadership is kept or taken wrongly\<close>

text \<open>
  A tick that is in flight when the elector is closed makes it leader afterwards: \<open>tick\<close> does not look at \<open>closed\<close> again
  before it sets the flag and calls \<open>onGainedLeadership\<close>.
\<close>

lemma closed_elector_gains_leadership:
  assumes "el_pc e = Written t reply" "api_success reply" "\<not> el_leader e"
  shows "\<exists>e1 e2. elector_step api (Close i) now e s = Some (e1, s) \<and> elector_step api (Handle i) now e1 s = Some (e2, s) \<and>
    el_closed e2 \<and> el_leader e2 \<and> el_calls e2 = el_calls e @ [GainedLeadership]"
  using assms success_not_404 [OF assms(2)]
  by (simp add: elector_step_def elector_close_def handle_reply_def handle_written_def conclude_tick_def Let_def)

text \<open>
  When \<open>onGainedLeadership\<close> throws, the tick ends without a timer: the elector stays leader and never renews.
\<close>

lemma failed_callback_keeps_leader:
  assumes "el_pc e = InCallback True" "el_leader e" "el_timer e = None"
  shows "\<exists>e'. elector_step api (CallbackFails i) now e s = Some (e', s) \<and> el_leader e' \<and> el_running e' = el_running e \<and>
    (\<forall>ev now' s'. (\<forall>k. ev \<noteq> Close k) \<longrightarrow> elector_step api ev now' e' s' = None)"
proof -
  let ?e = "e\<lparr>el_pc := Dead\<rparr>"
  have "elector_step api ev now' ?e s' = None" if "\<forall>k. ev \<noteq> Close k" for ev now' s'
    using that assms(3) by (cases ev) (auto simp: elector_step_def serve_request_def handle_reply_def)
  then show ?thesis using assms(1,2) by (intro exI [of _ ?e]) (auto simp: elector_step_def)
qed

subsection \<open>An example\<close>

definition fresh_at :: "'s election \<Rightarrow> nat \<Rightarrow> bool" where
  "fresh_at g i =
     (case en_electors g i of
        None \<Rightarrow> True
      | Some e \<Rightarrow> (case claim_time e of None \<Rightarrow> True | Some t \<Rightarrow> en_now g < t + lease_seconds e * 1000))"

text \<open>A run of events, when \<open>strict\<close> with all claims fresh after each one.\<close>

fun election_run :: "'s lease_api \<Rightarrow> bool \<Rightarrow> nat list \<Rightarrow> election_event list \<Rightarrow> 's election \<Rightarrow> 's election option" where
  "election_run api strict ids [] g = Some g"
| "election_run api strict ids (ev # evs) g =
     (case election_step api ev g of
        None \<Rightarrow> None
      | Some g' \<Rightarrow> if strict \<longrightarrow> list_all (fresh_at g') ids then election_run api strict ids evs g' else None)"

lemma election_run_elected:
  assumes "elected api g" "\<forall>i. i \<notin> set ids \<longrightarrow> en_electors g i = None"
    and "election_run api True ids evs g = Some g'"
  shows "elected api g'"
  using assms
proof (induction evs arbitrary: g)
  case (Cons ev evs)
  then obtain g1 where g1: "election_step api ev g = Some g1" "list_all (fresh_at g1) ids"
    "election_run api True ids evs g1 = Some g'"
    by (auto split: option.splits if_splits)
  have none: "\<forall>i. i \<notin> set ids \<longrightarrow> en_electors g1 i = None"
    using Cons.prems(2) g1(1) by (cases ev) (auto simp: election_step_def split: option.splits)
  have "claims_fresh g1" unfolding claims_fresh_def
  proof (intro allI impI)
    fix i e t assume e: "en_electors g1 i = Some e" "claim_time e = Some t"
    then have "i \<in> set ids" using none by fastforce
    then have "fresh_at g1 i" using g1(2) by (simp add: list_all_iff)
    with e show "en_now g1 < t + lease_seconds e * 1000" by (simp add: fresh_at_def)
  qed
  with Cons.IH [OF elected.step [OF Cons.prems(1) g1(1)] none g1(3)] show ?case .
qed simp

definition election_example :: "parsed_lease option election" where
  "election_example =
     \<lparr>en_server = None, en_now = 5,
      en_electors = [0 \<mapsto> new_elector ''c1'' 2000 500 300, 1 \<mapsto> new_elector ''c2'' 2000 500 300]\<rparr>"

definition first_elected :: "election_event list" where
  "first_elected = [Start 0, Start 1, Serve 0, Serve 1, Handle 0, Handle 1, Serve 0, Serve 1, Handle 0, Handle 1]"

lemmas election_steps = election_step_def elector_step_def serve_request_def tick_defs kube_api_def election_example_def
  new_elector_def first_elected_def api_success_def parseLease_def written_lease_def create_request_def patch_request_def
  lease_seconds_def fresh_at_def claim_time_def isLeaseExpired_def truthy_def

lemma one_leader_witness:
  "\<exists>g e. election_run kube_api True [0, 1] first_elected election_example = Some g \<and> en_electors g 0 = Some e \<and>
     el_leader e \<and> (\<forall>j e'. en_electors g j = Some e' \<and> el_leader e' \<longrightarrow> j = 0)"
proof -
  have init: "election_init election_example"
    by (auto simp: election_init_def election_example_def new_elector_def split: if_splits)
  have "map_option (\<lambda>g. map_option el_leader (en_electors g 0))
      (election_run kube_api True [0, 1] first_elected election_example) = Some (Some True)"
    by (simp add: election_steps)
  then obtain g e where g: "election_run kube_api True [0, 1] first_elected election_example = Some g"
    "en_electors g 0 = Some e" "el_leader e" by auto
  have "elected kube_api g"
    by (rule election_run_elected [OF elected.init [OF init] _ g(1)]) (simp add: election_example_def)
  from one_leader [OF kube.lease_server_axioms this g(2,3)] g show ?thesis by blast
qed

text \<open>After a failed callback the lease runs out and the other elector takes it: two leaders.\<close>

lemma failed_callback_allows_two_leaders:
  "map_option (\<lambda>g. (map_option el_leader (en_electors g 0), map_option el_leader (en_electors g 1)))
     (election_run kube_api False [0, 1]
       (first_elected @ [CallbackFails 0, Elapse 3000, Fire 1, Serve 1, Handle 1, Serve 1, Handle 1]) election_example) =
   Some (Some True, Some True)"
  by (simp add: election_steps)

end
