(* ===== verification/Js_Collections.thy ===== *)
theory Js_Collections
  imports Js_Prelude "HOL-Library.Sublist"
begin

text \<open>
  More of the JavaScript library: a \<open>Map\<close> built from its entries, the insertion-ordered
  \<open>Set\<close>, \<open>Math.max(...xs)\<close>, and the two loops the summaries are made of: one that adds
  amounts up per key (\<open>tally\<close>) and one that collects a set per key (\<open>js_group\<close>), each with
  what it computes.
\<close>

subsection \<open>Maps from entries\<close>

text \<open>\<open>new Map(entries)\<close>: a later entry replaces the value of an earlier one.\<close>

definition jmap_from :: "('k \<times> 'v) list \<Rightarrow> ('k, 'v) jmap" where
  "jmap_from kvs = foldl (\<lambda>m (k, v). AList.update k v m) [] kvs"

lemma jmap_from_snoc: "jmap_from (kvs @ [(k, v)]) = AList.update k v (jmap_from kvs)"
  by (simp add: jmap_from_def)

lemma jmap_wf_from [simp]: "jmap_wf (jmap_from kvs)"
  by (induction kvs rule: rev_induct) (auto simp: jmap_from_snoc jmap_from_def)

lemma map_of_jmap_from: "map_of (jmap_from kvs) k = map_of (rev kvs) k"
proof (induction kvs rule: rev_induct)
  case Nil
  show ?case by (simp add: jmap_from_def)
next
  case (snoc kv kvs)
  obtain k' v' where "kv = (k', v')" by (cases kv)
  with snoc show ?case by (simp add: jmap_from_snoc jmap_get_set)
qed

lemma map_of_jmap_from_None: "map_of (jmap_from kvs) k = None \<longleftrightarrow> k \<notin> fst ` set kvs"
  by (simp add: map_of_jmap_from map_of_eq_None_iff)

lemma map_of_jmap_from_SomeD: "map_of (jmap_from kvs) k = Some v \<Longrightarrow> (k, v) \<in> set kvs"
  by (metis map_of_jmap_from map_of_SomeD set_rev)

subsection \<open>Sets\<close>

definition jset_add :: "'a \<Rightarrow> 'a list \<Rightarrow> 'a list" where
  "jset_add x xs = (if x \<in> set xs then xs else xs @ [x])"

definition jset_from :: "'a list \<Rightarrow> 'a list" where
  "jset_from xs = foldl (\<lambda>s x. jset_add x s) [] xs"

lemma set_jset_add [simp]: "set (jset_add x xs) = insert x (set xs)"
  by (auto simp: jset_add_def)

lemma distinct_jset_add [simp]: "distinct (jset_add x xs) = distinct xs"
  by (auto simp: jset_add_def)

lemma jset_from_Nil [simp]: "jset_from [] = []"
  by (simp add: jset_from_def)

lemma jset_from_snoc: "jset_from (xs @ [x]) = jset_add x (jset_from xs)"
  by (simp add: jset_from_def)

lemma set_jset_from [simp]: "set (jset_from xs) = set xs"
  by (induction xs rule: rev_induct) (auto simp: jset_from_snoc)

lemma distinct_jset_from [simp]: "distinct (jset_from xs)"
  by (induction xs rule: rev_induct) (auto simp: jset_from_snoc)

lemma length_jset_from: "length (jset_from xs) = card (set xs)"
  by (metis distinct_card distinct_jset_from set_jset_from)

lemma length_jset_from_le: "length (jset_from xs) \<le> length xs"
  by (metis card_length length_jset_from)

lemma subseq_set: "subseq xs ys \<Longrightarrow> set xs \<subseteq> set ys"
  by (auto simp: subseq_conv_nths dest: in_set_nthsD)

lemma subseq_drop: "subseq (drop n xs) xs"
  by (intro suffix_imp_subseq suffix_drop)

subsection \<open>Numbers\<close>

text \<open>\<open>xs.length > 0 ? Math.max(...xs) : d\<close>.\<close>

definition max_or :: "'a::linorder \<Rightarrow> 'a list \<Rightarrow> 'a" where
  "max_or d xs = (case xs of [] \<Rightarrow> d | x # ys \<Rightarrow> foldl max x ys)"

lemma foldl_max: "foldl max x ys = Max (insert x (set ys))"
proof (induction ys arbitrary: x)
  case (Cons y ys)
  have "foldl max x (y # ys) = Max (insert (max x y) (set ys))" using Cons by simp
  also have "\<dots> = Max (insert x (insert y (set ys)))"
  proof (cases "ys = []")
    case False
    then show ?thesis by (simp add: max.assoc)
  qed simp
  finally show ?case by simp
qed simp

lemma max_or_Max: "xs \<noteq> [] \<Longrightarrow> max_or d xs = Max (set xs)"
  by (cases xs) (simp_all add: max_or_def foldl_max)

lemma max_or_Nil [simp]: "max_or d [] = d"
  by (simp add: max_or_def)

definition count_if :: "('a \<Rightarrow> bool) \<Rightarrow> 'a list \<Rightarrow> int" where
  "count_if P xs = int (length (filter P xs))"

lemma count_if_simps [simp]:
  "count_if P [] = 0" "count_if P (x # xs) = (if P x then 1 else 0) + count_if P xs"
  "count_if P (xs @ ys) = count_if P xs + count_if P ys"
  by (auto simp: count_if_def)

lemma count_if_nonneg [simp]: "0 \<le> count_if P xs"
  by (simp add: count_if_def)

lemma count_if_pos: "0 < count_if P xs \<longleftrightarrow> (\<exists>x\<in>set xs. P x)"
  by (auto simp: count_if_def filter_empty_conv)

lemma count_if_le: "count_if P xs \<le> int (length xs)"
  by (simp add: count_if_def)

lemma count_if_split: "count_if P xs + count_if (\<lambda>x. \<not> P x) xs = int (length xs)"
  by (induction xs) auto

lemma count_if_filter: "count_if P (filter Q xs) = count_if (\<lambda>x. Q x \<and> P x) xs"
  by (induction xs) auto

lemma count_if_disj:
  assumes "\<And>x. x \<in> set xs \<Longrightarrow> \<not> (P x \<and> Q x)"
  shows "count_if (\<lambda>x. P x \<or> Q x) xs = count_if P xs + count_if Q xs"
  using assms by (induction xs) auto

lemma count_if_cong: "(\<And>x. x \<in> set xs \<Longrightarrow> P x = Q x) \<Longrightarrow> count_if P xs = count_if Q xs"
  by (simp add: count_if_def cong: filter_cong)

subsection \<open>Sums per key\<close>

text \<open>\<open>for (x of xs) if (...) m.set(k, (m.get(k) ?? 0) + n)\<close>, where \<open>f x\<close> gives the key and the amount.\<close>

definition tally :: "('a \<Rightarrow> ('k \<times> int) option) \<Rightarrow> 'a list \<Rightarrow> ('k, int) jmap" where
  "tally f xs = foldl (\<lambda>m x. case f x of
       None \<Rightarrow> m
     | Some (k, n) \<Rightarrow> AList.update k (or_else (map_of m k) 0 + n) m) [] xs"

definition amount_for :: "('a \<Rightarrow> ('k \<times> int) option) \<Rightarrow> 'k \<Rightarrow> 'a \<Rightarrow> int" where
  "amount_for f k x = (case f x of Some (k', n) \<Rightarrow> if k' = k then n else 0 | None \<Rightarrow> 0)"

lemma tally_Nil [simp]: "tally f [] = []"
  by (simp add: tally_def)

lemma tally_snoc:
  "tally f (xs @ [x]) = (case f x of
       None \<Rightarrow> tally f xs
     | Some (k, n) \<Rightarrow> AList.update k (or_else (map_of (tally f xs) k) 0 + n) (tally f xs))"
  by (cases "f x") (auto simp: tally_def)

lemma jmap_wf_tally [simp]: "jmap_wf (tally f xs)"
  by (induction xs rule: rev_induct) (auto simp: tally_snoc split: option.splits)

lemma tally_get: "or_else (map_of (tally f xs) k) 0 = sum_list (map (amount_for f k) xs)"
proof (induction xs rule: rev_induct)
  case (snoc x xs)
  then show ?case
    by (cases "f x") (auto simp: tally_snoc amount_for_def jmap_get_set split: if_splits)
qed simp

lemma tally_keys: "map_of (tally f xs) k \<noteq> None \<longleftrightarrow> (\<exists>x\<in>set xs. \<exists>n. f x = Some (k, n))"
proof (induction xs rule: rev_induct)
  case (snoc x xs)
  then show ?case
    by (cases "f x") (auto simp: tally_snoc jmap_get_set split: if_splits)
qed simp

lemma tally_SomeD: "map_of (tally f xs) k = Some n \<Longrightarrow> n = sum_list (map (amount_for f k) xs)"
  using tally_get [of f xs k] by simp

lemma sum_update_values:
  assumes "jmap_wf (m :: ('k, int) jmap)"
  shows "sum_list (jmap_values (AList.update k v m)) = sum_list (jmap_values m) + v - or_else (map_of m k) 0"
  using assms
proof (induction m)
  case (Cons kv m)
  obtain k' v' where kv: "kv = (k', v')" by (cases kv)
  with Cons show ?case by (auto simp: jmap_values_def jmap_wf_def)
qed (simp add: jmap_values_def)

lemma tally_total:
  "sum_list (jmap_values (tally f xs)) = sum_list (map (\<lambda>x. case f x of Some (k, n) \<Rightarrow> n | None \<Rightarrow> 0) xs)"
proof (induction xs rule: rev_induct)
  case (snoc x xs)
  then show ?case
    by (cases "f x") (auto simp: tally_snoc sum_update_values split: prod.splits)
qed (simp add: jmap_values_def)

subsection \<open>Sets per key\<close>

definition js_group :: "('a \<Rightarrow> ('k \<times> 'v) option) \<Rightarrow> 'a list \<Rightarrow> ('k, 'v list) jmap" where
  "js_group f xs = foldl (\<lambda>m x. case f x of
       None \<Rightarrow> m
     | Some (k, v) \<Rightarrow> AList.update k (jset_add v (or_else (map_of m k) [])) m) [] xs"

lemma js_group_Nil [simp]: "js_group f [] = []"
  by (simp add: js_group_def)

lemma js_group_snoc:
  "js_group f (xs @ [x]) = (case f x of
       None \<Rightarrow> js_group f xs
     | Some (k, v) \<Rightarrow> AList.update k (jset_add v (or_else (map_of (js_group f xs) k) [])) (js_group f xs))"
  by (cases "f x") (auto simp: js_group_def)

lemma jmap_wf_js_group [simp]: "jmap_wf (js_group f xs)"
  by (induction xs rule: rev_induct) (auto simp: js_group_snoc split: option.splits)

lemma js_group_get: "set (or_else (map_of (js_group f xs) k) []) = {v. \<exists>x\<in>set xs. f x = Some (k, v)}"
proof (induction xs rule: rev_induct)
  case (snoc x xs)
  then show ?case
    by (cases "f x") (auto simp: js_group_snoc jmap_get_set split: if_splits)
qed simp

lemma js_group_distinct: "distinct (or_else (map_of (js_group f xs) k) [])"
proof (induction xs rule: rev_induct)
  case (snoc x xs)
  then show ?case
    by (cases "f x") (auto simp: js_group_snoc jmap_get_set split: if_splits)
qed simp

lemma js_group_size:
  "length (or_else (map_of (js_group f xs) k) []) = card {v. \<exists>x\<in>set xs. f x = Some (k, v)}"
  by (metis distinct_card js_group_distinct js_group_get)

lemma js_group_keys: "map_of (js_group f xs) k \<noteq> None \<longleftrightarrow> (\<exists>x\<in>set xs. \<exists>v. f x = Some (k, v))"
proof (induction xs rule: rev_induct)
  case (snoc x xs)
  then show ?case
    by (cases "f x") (auto simp: js_group_snoc jmap_get_set split: if_splits)
qed simp

text \<open>\<open>strings.join(sep)\<close>.\<close>

fun js_join :: "string \<Rightarrow> string list \<Rightarrow> string" where
  "js_join sep [] = []"
| "js_join sep [x] = x"
| "js_join sep (x # y # xs) = x @ sep @ js_join sep (y # xs)"

end
