(* ===== verification/Controller_Fleet.thy ===== *)
theory Controller_Fleet
  imports Js_Collections Worker_Policy
begin

text \<open>
  What the standalone controller reads and how it sums it up (\<open>apps/controller/src\<close>): the
  entries of the worker registry and of the workspace placements
  (\<open>packages/storage-redis-control/src/contracts.ts\<close>), the fleet of standalone workers and how
  many replicas it should have, the owners of the workspaces, and the fleet of sandboxes
  (\<open>controller-placement.ts\<close>). Counts are integers; loads of resources and thresholds are
  rational numbers.
\<close>

subsection \<open>Registry entries\<close>

record worker_entry =
  we_workerId :: string
  we_runtimeInstanceId :: "string option"
  we_ownerBaseUrl :: "string option"
  we_processKind :: process_kind
  we_state :: worker_state
  we_lastSeenAt :: string
  we_resourceCpuLoadRatio :: "rat option"
  we_resourceMemoryUsedRatio :: "rat option"
  we_resourceDiskUsedRatio :: "rat option"
  we_currentSessionId :: "string option"
  we_currentRunId :: "string option"
  we_currentWorkspaceId :: "string option"
  we_health :: worker_health

datatype placement_state = PUnassigned | PActive | PIdle | PDraining | PEvicted

datatype preferred_reason = ControllerTargetReason

datatype source_kind = ObjectStore | LocalDirectory

record placement =
  pe_workspaceId :: string
  pe_version :: string
  pe_ownerId :: "string option"
  pe_ownerWorkerId :: "string option"
  pe_ownerBaseUrl :: "string option"
  pe_preferredWorkerId :: "string option"
  pe_preferredWorkerReason :: "preferred_reason option"
  pe_state :: placement_state
  pe_sourceKind :: "source_kind option"
  pe_localPath :: "string option"
  pe_remotePrefix :: "string option"
  pe_dirty :: "bool option"
  pe_refCount :: "int option"
  pe_lastActivityAt :: "string option"
  pe_materializedAt :: "string option"
  pe_updatedAt :: string

definition placementOwnerAffinityId :: "placement \<Rightarrow> string option" where
  "placementOwnerAffinityId p = keep_truthy (map_option js_trim (pe_ownerId p))"

definition workerPlacementReference :: "worker_entry \<Rightarrow> string" where
  "workerPlacementReference w = or_else (we_runtimeInstanceId w) (we_workerId w)"

definition workspacePlacementLoad :: "placement \<Rightarrow> int" where
  "workspacePlacementLoad p =
     (if pe_state p = PEvicted \<or> pe_state p = PUnassigned then 0
      else case pe_refCount p of Some n \<Rightarrow> max 0 n | None \<Rightarrow> 1)"

lemma workspacePlacementLoad_nonneg [simp]: "0 \<le> workspacePlacementLoad p"
  by (simp add: workspacePlacementLoad_def split: option.split)

text \<open>\<open>new Map(activeWorkers.map((worker) => [workerPlacementReference(worker), field]))\<close>.\<close>

definition worker_map :: "(worker_entry \<Rightarrow> 'v) \<Rightarrow> worker_entry list \<Rightarrow> (string, 'v) jmap" where
  "worker_map field workers = jmap_from (map (\<lambda>w. (workerPlacementReference w, field w)) workers)"

lemma worker_map_None:
  "map_of (worker_map field workers) r = None \<longleftrightarrow> r \<notin> workerPlacementReference ` set workers"
  by (auto simp: worker_map_def map_of_jmap_from_None image_iff)

lemma worker_map_SomeD:
  "map_of (worker_map field workers) r = Some v \<Longrightarrow> \<exists>w\<in>set workers. workerPlacementReference w = r \<and> field w = v"
  by (auto simp: worker_map_def dest!: map_of_jmap_from_SomeD)

subsection \<open>Pressure on the resources of a worker\<close>

record resource_thresholds =
  rt_cpu :: rat
  rt_memory :: rat
  rt_disk :: rat

record resource_pressure =
  rp_pressure :: rat
  rp_pressureExceeded :: bool
  rp_hasMetrics :: bool

definition relative_load :: "rat option \<Rightarrow> rat \<Rightarrow> rat option" where
  "relative_load ratio threshold = map_option (\<lambda>r. r / max (1 / 100) threshold) ratio"

definition workerResourcePressure :: "worker_entry \<Rightarrow> resource_thresholds \<Rightarrow> resource_pressure" where
  "workerResourcePressure worker config =
     (let cpuPressure = relative_load (we_resourceCpuLoadRatio worker) (rt_cpu config);
          memoryPressure = relative_load (we_resourceMemoryUsedRatio worker) (rt_memory config);
          diskPressure = relative_load (we_resourceDiskUsedRatio worker) (rt_disk config);
          pressures = List.map_filter id [cpuPressure, memoryPressure, diskPressure];
          pressure = max_or 0 pressures
      in \<lparr>rp_pressure = pressure, rp_pressureExceeded = (pressure > 1), rp_hasMetrics = (pressures \<noteq> [])\<rparr>)"

text \<open>Pressure is exceeded exactly when some reported load is above its threshold.\<close>

lemma pressure_exceeded_iff:
  assumes "1 / 100 \<le> rt_cpu t" "1 / 100 \<le> rt_memory t" "1 / 100 \<le> rt_disk t"
  shows "rp_pressureExceeded (workerResourcePressure w t) \<longleftrightarrow>
    (\<exists>r. we_resourceCpuLoadRatio w = Some r \<and> rt_cpu t < r) \<or>
    (\<exists>r. we_resourceMemoryUsedRatio w = Some r \<and> rt_memory t < r) \<or>
    (\<exists>r. we_resourceDiskUsedRatio w = Some r \<and> rt_disk t < r)"
proof -
  let ?ps = "List.map_filter id [relative_load (we_resourceCpuLoadRatio w) (rt_cpu t),
      relative_load (we_resourceMemoryUsedRatio w) (rt_memory t), relative_load (we_resourceDiskUsedRatio w) (rt_disk t)]"
  have over: "1 < r / max (1 / 100) d \<longleftrightarrow> d < r" if "1 / 100 \<le> d" for r d :: rat
    using that by (simp add: max_absorb2 less_divide_eq)
  have "rp_pressureExceeded (workerResourcePressure w t) \<longleftrightarrow> 1 < max_or 0 ?ps"
    by (simp add: workerResourcePressure_def Let_def)
  also have "\<dots> \<longleftrightarrow> (\<exists>p\<in>set ?ps. 1 < p)"
    by (cases "?ps = []") (simp_all add: max_or_Max Max_gr_iff del: List.map_filter_simps)
  also have "\<dots> \<longleftrightarrow> (\<exists>r. we_resourceCpuLoadRatio w = Some r \<and> rt_cpu t < r) \<or>
      (\<exists>r. we_resourceMemoryUsedRatio w = Some r \<and> rt_memory t < r) \<or>
      (\<exists>r. we_resourceDiskUsedRatio w = Some r \<and> rt_disk t < r)"
    using over [OF assms(1)] over [OF assms(2)] over [OF assms(3)]
    by (cases "we_resourceCpuLoadRatio w"; cases "we_resourceMemoryUsedRatio w"; cases "we_resourceDiskUsedRatio w")
      (simp_all add: relative_load_def List.map_filter_simps)
  finally show ?thesis .
qed

subsection \<open>The fleet of standalone workers\<close>

record worker_fleet =
  wf_activeReplicas :: int
  wf_busyReplicas :: int
  wf_activeSlots :: int
  wf_busySlots :: int
  wf_idleSlots :: int
  wf_effectiveCapacityPerReplica :: int
  wf_healthyWorkers :: "worker_entry list"

definition effectiveCapacityPerReplica :: "int \<Rightarrow> int \<Rightarrow> int" where
  "effectiveCapacityPerReplica activeReplicas activeSlots =
     (if activeReplicas \<le> 0 \<or> activeSlots \<le> 0 then 1 else max 1 (ceil_div activeSlots activeReplicas))"

definition summarizeStandaloneWorkerFleet :: "worker_entry list \<Rightarrow> worker_fleet" where
  "summarizeStandaloneWorkerFleet activeWorkers =
     (let healthyStandaloneWorkers = filter (\<lambda>w. we_processKind w = PStandalone \<and> we_health w = HHealthy) activeWorkers;
          replicaIds = jset_from (map workerPlacementReference healthyStandaloneWorkers);
          busyReplicaIds = jset_from (map workerPlacementReference (filter (\<lambda>w. we_state w = WBusy) healthyStandaloneWorkers));
          activeSlots = int (length healthyStandaloneWorkers);
          busySlots = int (length (filter (\<lambda>w. we_state w = WBusy) healthyStandaloneWorkers))
      in \<lparr>wf_activeReplicas = int (length replicaIds),
          wf_busyReplicas = int (length busyReplicaIds),
          wf_activeSlots = activeSlots,
          wf_busySlots = busySlots,
          wf_idleSlots = max 0 (activeSlots - busySlots),
          wf_effectiveCapacityPerReplica = effectiveCapacityPerReplica (int (length replicaIds)) activeSlots,
          wf_healthyWorkers = healthyStandaloneWorkers\<rparr>)"

text \<open>
  The fleet's slots fit into its replicas at the effective capacity, and no more replicas or slots are busy
  than there are.
\<close>

lemma fleet_consistent:
  fixes ws :: "worker_entry list"
  defines "f \<equiv> summarizeStandaloneWorkerFleet ws"
  shows "wf_busyReplicas f \<le> wf_activeReplicas f" "wf_idleSlots f = wf_activeSlots f - wf_busySlots f"
    "1 \<le> wf_effectiveCapacityPerReplica f"
    "wf_activeSlots f \<le> wf_activeReplicas f * wf_effectiveCapacityPerReplica f"
proof -
  let ?h = "filter (\<lambda>w. we_processKind w = PStandalone \<and> we_health w = HHealthy) ws"
  let ?n = "int (card (workerPlacementReference ` set ?h))" and ?s = "int (length ?h)"
  have sel: "wf_activeReplicas f = ?n" "wf_activeSlots f = ?s" "wf_effectiveCapacityPerReplica f = effectiveCapacityPerReplica ?n ?s"
    "wf_busyReplicas f = int (card (workerPlacementReference ` set (filter (\<lambda>w. we_state w = WBusy) ?h)))"
    by (simp_all only: f_def summarizeStandaloneWorkerFleet_def Let_def worker_fleet.select_convs length_jset_from set_map)
  show "wf_busyReplicas f \<le> wf_activeReplicas f"
    unfolding sel by (intro of_nat_mono card_mono) auto
  have "length (filter (\<lambda>w. we_state w = WBusy) ?h) \<le> length ?h" by (rule length_filter_le)
  then show "wf_idleSlots f = wf_activeSlots f - wf_busySlots f"
    by (simp only: f_def summarizeStandaloneWorkerFleet_def Let_def worker_fleet.select_convs)
  show "1 \<le> wf_effectiveCapacityPerReplica f"
    unfolding sel by (simp add: effectiveCapacityPerReplica_def)
  show "wf_activeSlots f \<le> wf_activeReplicas f * wf_effectiveCapacityPerReplica f"
  proof (cases "?h = []")
    case True
    then show ?thesis unfolding sel by simp
  next
    case False
    then have "set ?h \<noteq> {}" by (metis set_empty)
    then have "0 < ?n" by (simp add: card_gt_0_iff del: set_filter)
    then have "?s \<le> ?n * ceil_div ?s ?n" by (rule ceil_div_covers)
    also have "\<dots> \<le> ?n * max 1 (ceil_div ?s ?n)" by (intro mult_left_mono) auto
    finally show ?thesis
      using False \<open>0 < ?n\<close> unfolding sel by (simp add: effectiveCapacityPerReplica_def)
  qed
qed

subsection \<open>How many replicas\<close>

text \<open>
  The controller's own copy of the sizing (\<open>packages/storage-redis-control/src/worker-pool-policy.ts\<close>) does not
  count the sessions that prefer a worker.
\<close>

definition calculateControlPoolSuggestion :: "sizing_input \<Rightarrow> sizing_result" where
  "calculateControlPoolSuggestion input =
     (let readySessionCount = pressure_of qp_readySessionCount input;
          subagentReadySessionCount = pressure_of qp_subagentReadySessionCount input;
          busyWorkers = or_else (map_option wl_globalBusyWorkers (si_globalWorkerLoad input)) (si_localBusyWorkers input);
          activeWorkers = or_else (map_option wl_globalActiveWorkers (si_globalWorkerLoad input)) (si_localActiveWorkers input);
          perUnit = max 1 (si_readySessionsPerCapacityUnit input);
          pressureWorkers = (case readySessionCount of Some n \<Rightarrow> ceil_div n perUnit | None \<Rightarrow> si_minWorkers input);
          saturatedWorkers =
            (case readySessionCount of Some n \<Rightarrow> ceil_div (n + busyWorkers) perUnit | None \<Rightarrow> busyWorkers);
          reservedWorkers =
            (case subagentReadySessionCount of
               Some n \<Rightarrow> if n > 0 then busyWorkers + si_reservedSubagentCapacity input else 0
             | None \<Rightarrow> 0);
          ageBoostWorkers =
            (case readySessionCount of
               Some n \<Rightarrow>
                 if n > 0 \<and> busyRatio activeWorkers busyWorkers \<ge> si_scaleUpBusyRatioThreshold input \<and>
                    or_else (pressure_of qp_oldestSchedulableReadyAgeMs input) 0 \<ge> si_scaleUpMaxReadyAgeMs input
                 then activeWorkers + 1 else 0
             | None \<Rightarrow> 0);
          globalSuggestedWorkers = max pressureWorkers (max saturatedWorkers (max reservedWorkers ageBoostWorkers));
          localSuggestedWorkers =
            (case si_globalWorkerLoad input of
               Some load \<Rightarrow> max (si_minWorkers input) (globalSuggestedWorkers - wl_remoteActiveWorkers load)
             | None \<Rightarrow> globalSuggestedWorkers)
      in \<lparr>sr_pressureWorkers = pressureWorkers,
          sr_saturatedWorkers = saturatedWorkers,
          sr_reservedWorkers = reservedWorkers,
          sr_ageBoostWorkers = ageBoostWorkers,
          sr_globalSuggestedWorkers = globalSuggestedWorkers,
          sr_localSuggestedWorkers = max (si_minWorkers input) (min (si_maxWorkers input) localSuggestedWorkers)\<rparr>)"

record controller_config =
  cc_minReplicas :: int
  cc_maxReplicas :: int
  cc_readySessionsPerCapacityUnit :: int
  cc_reservedSubagentCapacity :: int
  cc_scaleIntervalMs :: int
  cc_scaleUpCooldownMs :: int
  cc_scaleDownCooldownMs :: int
  cc_scaleUpSampleSize :: int
  cc_scaleDownSampleSize :: int
  cc_scaleUpBusyRatioThreshold :: rat
  cc_scaleUpMaxReadyAgeMs :: int

record replica_suggestion =
  rs_fleet :: worker_fleet
  rs_suggestedWorkers :: int
  rs_suggestedReplicas :: int

definition replica_sizing :: "controller_config \<Rightarrow> worker_fleet \<Rightarrow> queue_pressure option \<Rightarrow> sizing_input" where
  "replica_sizing config fleet schedulingPressure =
     (let capacityPerReplica = wf_effectiveCapacityPerReplica fleet
      in \<lparr>si_minWorkers = cc_minReplicas config * capacityPerReplica,
          si_maxWorkers = cc_maxReplicas config * capacityPerReplica,
          si_readySessionsPerCapacityUnit = max 1 (cc_readySessionsPerCapacityUnit config),
          si_reservedSubagentCapacity = cc_reservedSubagentCapacity config,
          si_localActiveWorkers = wf_activeSlots fleet,
          si_localBusyWorkers = wf_busySlots fleet,
          si_scaleUpBusyRatioThreshold = cc_scaleUpBusyRatioThreshold config,
          si_scaleUpMaxReadyAgeMs = cc_scaleUpMaxReadyAgeMs config,
          si_schedulingPressure = schedulingPressure,
          si_globalWorkerLoad = None\<rparr>)"

definition calculateStandaloneWorkerReplicas ::
    "controller_config \<Rightarrow> worker_entry list \<Rightarrow> queue_pressure option \<Rightarrow> replica_suggestion" where
  "calculateStandaloneWorkerReplicas config activeWorkers schedulingPressure =
     (let fleet = summarizeStandaloneWorkerFleet activeWorkers;
          capacityPerReplica = wf_effectiveCapacityPerReplica fleet;
          suggestedWorkers =
            sr_localSuggestedWorkers (calculateControlPoolSuggestion (replica_sizing config fleet schedulingPressure))
      in \<lparr>rs_fleet = fleet,
          rs_suggestedWorkers = suggestedWorkers,
          rs_suggestedReplicas =
            max (cc_minReplicas config) (min (cc_maxReplicas config) (ceil_div suggestedWorkers capacityPerReplica))\<rparr>)"

text \<open>What the worker pool adds for the ready sessions that prefer one of its own workers, which the controller's copy does not look at.\<close>

definition preferred_demand :: "sizing_input \<Rightarrow> int" where
  "preferred_demand input =
     (let perUnit = max 1 (si_readySessionsPerCapacityUnit input)
      in max (case pressure_of qp_preferredReadySessionCount input of
                None \<Rightarrow> 0
              | Some n \<Rightarrow> max (ceil_div n perUnit) (ceil_div (n + si_localBusyWorkers input) perUnit))
             (case pressure_of qp_preferredSubagentReadySessionCount input of
                None \<Rightarrow> 0
              | Some n \<Rightarrow> if 0 < n then si_localBusyWorkers input + si_reservedSubagentCapacity input else 0))"

definition within_limits :: "sizing_input \<Rightarrow> int \<Rightarrow> int" where
  "within_limits input n = max (si_minWorkers input) (min (si_maxWorkers input) n)"

text \<open>What both copies compute from the pressure, and how each goes on from there.\<close>

lemma sizing_same_demand:
  "sr_pressureWorkers (calculateRedisWorkerPoolSuggestion input) = sr_pressureWorkers (calculateControlPoolSuggestion input)"
  "sr_saturatedWorkers (calculateRedisWorkerPoolSuggestion input) = sr_saturatedWorkers (calculateControlPoolSuggestion input)"
  "sr_reservedWorkers (calculateRedisWorkerPoolSuggestion input) = sr_reservedWorkers (calculateControlPoolSuggestion input)"
  "sr_ageBoostWorkers (calculateRedisWorkerPoolSuggestion input) = sr_ageBoostWorkers (calculateControlPoolSuggestion input)"
  "sr_globalSuggestedWorkers (calculateRedisWorkerPoolSuggestion input) =
    sr_globalSuggestedWorkers (calculateControlPoolSuggestion input)"
  by (simp_all only: calculateControlPoolSuggestion_def sizing_unfold)

lemma control_sizing_local:
  "sr_localSuggestedWorkers (calculateControlPoolSuggestion input) =
    within_limits input (case si_globalWorkerLoad input of
      None \<Rightarrow> sr_globalSuggestedWorkers (calculateControlPoolSuggestion input)
    | Some load \<Rightarrow> max (si_minWorkers input)
        (sr_globalSuggestedWorkers (calculateControlPoolSuggestion input) - wl_remoteActiveWorkers load))"
  by (simp only: calculateControlPoolSuggestion_def Let_def sizing_result.select_convs within_limits_def)

lemma pool_sizing_local:
  "sr_localSuggestedWorkers (calculateRedisWorkerPoolSuggestion input) =
    within_limits input (case si_globalWorkerLoad input of
      None \<Rightarrow> sr_globalSuggestedWorkers (calculateRedisWorkerPoolSuggestion input)
    | Some load \<Rightarrow> max (si_minWorkers input)
        (max (sr_globalSuggestedWorkers (calculateRedisWorkerPoolSuggestion input) - wl_remoteActiveWorkers load)
          (preferred_demand input)))"
proof -
  have preferred: "max (case p of Some n \<Rightarrow> a n | None \<Rightarrow> 0) (max (case p of Some n \<Rightarrow> b n | None \<Rightarrow> 0) c) =
      max (case p of None \<Rightarrow> 0 | Some n \<Rightarrow> max (a n) (b n)) c" for p :: "int option" and a b :: "int \<Rightarrow> int" and c
    by (cases p) (simp_all add: max.assoc)
  show ?thesis
    unfolding preferred_demand_def within_limits_def sizing_unfold preferred
    by (cases "pressure_of qp_preferredSubagentReadySessionCount input") (simp_all only: option.case)
qed

lemma within_limits_max:
  "within_limits input (max (si_minWorkers input) (max a p)) =
    max (within_limits input (max (si_minWorkers input) a)) (within_limits input p)"
  unfolding within_limits_def by linarith

text \<open>
  C37: the two copies of the sizing agree as the controller uses its own. On any pressure, with or without sessions that prefer a
  worker, they compute the same as long as no global load is given, and so the controller, which never gives one, would suggest the
  same number of workers with the copy of the worker pool. With a global load the pool's copy differs in the number suggested for the pool alone,
  which it raises, within the limits, to the demand of the sessions that prefer one of its workers.
\<close>

theorem sizing_copies_agree:
  "calculateRedisWorkerPoolSuggestion input =
    (let c = calculateControlPoolSuggestion input
     in case si_globalWorkerLoad input of
          None \<Rightarrow> c
        | Some load \<Rightarrow>
            c\<lparr>sr_localSuggestedWorkers := max (sr_localSuggestedWorkers c) (within_limits input (preferred_demand input))\<rparr>) \<and>
   rs_suggestedWorkers (calculateStandaloneWorkerReplicas config activeWorkers pressure) =
    sr_localSuggestedWorkers (calculateRedisWorkerPoolSuggestion
      (replica_sizing config (summarizeStandaloneWorkerFleet activeWorkers) pressure))"
proof -
  have agree: "calculateRedisWorkerPoolSuggestion i =
      (case si_globalWorkerLoad i of
         None \<Rightarrow> calculateControlPoolSuggestion i
       | Some load \<Rightarrow> (calculateControlPoolSuggestion i)\<lparr>sr_localSuggestedWorkers :=
           max (sr_localSuggestedWorkers (calculateControlPoolSuggestion i)) (within_limits i (preferred_demand i))\<rparr>)" for i
    by (rule sizing_result.equality)
      (simp_all add: sizing_same_demand pool_sizing_local control_sizing_local within_limits_max split: option.split)
  have "si_globalWorkerLoad (replica_sizing config f pressure) = None" for f by (simp add: replica_sizing_def Let_def)
  then show ?thesis
    unfolding calculateStandaloneWorkerReplicas_def Let_def replica_suggestion.select_convs by (subst (1 2) agree) simp
qed

text \<open>
  They do differ where a load is given: five idle workers elsewhere, three busy ones here, no session ready and none that prefers a worker. The
  pool's copy keeps three workers, as its busy ones alone fill them, the controller's none.
\<close>

lemma sizing_copies_differ:
  "\<exists>input. pressure_of qp_preferredReadySessionCount input = Some 0 \<and>
     sr_localSuggestedWorkers (calculateControlPoolSuggestion input) = 0 \<and>
     sr_localSuggestedWorkers (calculateRedisWorkerPoolSuggestion input) = 3"
proof -
  define input where "input = sizing_example
    \<lparr>si_minWorkers := 0, si_maxWorkers := 5, si_readySessionsPerCapacityUnit := 1, si_localActiveWorkers := 3, si_localBusyWorkers := 3,
     si_schedulingPressure := map_option (\<lambda>p. p\<lparr>qp_readySessionCount := Some 0, qp_subagentReadySessionCount := Some 0,
       qp_preferredReadySessionCount := Some 0, qp_preferredSubagentReadySessionCount := Some 0\<rparr>) (si_schedulingPressure sizing_example),
     si_globalWorkerLoad := Some \<lparr>wl_globalSuggestedWorkers = 0, wl_globalActiveWorkers = 8,
        wl_globalBusyWorkers = 3, wl_remoteActiveWorkers = 5, wl_remoteBusyWorkers = 0\<rparr>\<rparr>"
  have "pressure_of qp_preferredReadySessionCount input = Some 0 \<and>
     sr_localSuggestedWorkers (calculateControlPoolSuggestion input) = 0 \<and>
     sr_localSuggestedWorkers (calculateRedisWorkerPoolSuggestion input) = 3"
    unfolding input_def by code_simp
  then show ?thesis by blast
qed

lemma control_local:
  assumes "si_globalWorkerLoad input = None"
  shows "sr_localSuggestedWorkers (calculateControlPoolSuggestion input) =
    max (si_minWorkers input) (min (si_maxWorkers input)
      (sr_globalSuggestedWorkers (calculateControlPoolSuggestion input)))"
  by (simp only: calculateControlPoolSuggestion_def Let_def sizing_result.select_convs assms option.case)

lemma control_saturated:
  assumes "pressure_of qp_readySessionCount input = Some n" "si_globalWorkerLoad input = None"
  shows "ceil_div (n + si_localBusyWorkers input) (max 1 (si_readySessionsPerCapacityUnit input))
    \<le> sr_globalSuggestedWorkers (calculateControlPoolSuggestion input)"
  by (simp only: calculateControlPoolSuggestion_def Let_def sizing_result.select_convs assms option.case option.map
      or_else_simps le_max_iff_disj order.refl simp_thms)

lemma control_reserved:
  assumes "pressure_of qp_subagentReadySessionCount input = Some n" "0 < n" "si_globalWorkerLoad input = None"
  shows "si_localBusyWorkers input + si_reservedSubagentCapacity input
    \<le> sr_globalSuggestedWorkers (calculateControlPoolSuggestion input)"
  by (simp only: calculateControlPoolSuggestion_def Let_def sizing_result.select_convs assms option.case option.map
      or_else_simps if_True le_max_iff_disj order.refl simp_thms)

text \<open>The slots of the suggested replicas hold the suggested workers unless the upper limit cuts them off.\<close>

lemma replicas_hold_demand:
  fixes config :: controller_config
  assumes c: "1 \<le> c" and "minR \<le> maxR"
    and w: "w = max (minR * c) (min (maxR * c) wanted)"
    and r: "r = max minR (min maxR (ceil_div w c))" and cut: "r < maxR"
  shows "wanted \<le> r * c"
proof -
  have pos: "0 < c" using c by simp
  have "ceil_div w c \<le> r" using cut r by linarith
  then have "c * ceil_div w c \<le> c * r" using pos by simp
  with ceil_div_covers [OF pos, of w] have w_le: "w \<le> r * c" by (simp add: mult.commute)
  also have "\<dots> < maxR * c" using cut pos by simp
  finally have "w < maxR * c" .
  with w have "wanted \<le> w" by linarith
  with w_le show ?thesis by simp
qed

text \<open>
  The suggested number of replicas lies within the configured limits, and unless the upper limit cuts
  it off, that many replicas at the effective capacity have room for the ready sessions beside the busy
  slots, and for the busy slots and the reserve when subagent sessions are ready.
\<close>

theorem replica_suggestion_covers_demand:
  fixes config :: controller_config and activeWorkers :: "worker_entry list" and pressure :: "queue_pressure option"
  assumes "cc_minReplicas config \<le> cc_maxReplicas config"
  defines "s \<equiv> calculateStandaloneWorkerReplicas config activeWorkers pressure"
  shows "cc_minReplicas config \<le> rs_suggestedReplicas s \<and> rs_suggestedReplicas s \<le> cc_maxReplicas config \<and>
    (rs_suggestedReplicas s < cc_maxReplicas config \<longrightarrow>
      (\<forall>n. Option.bind pressure qp_readySessionCount = Some n \<longrightarrow>
        n + wf_busySlots (rs_fleet s) \<le> max 1 (cc_readySessionsPerCapacityUnit config) *
          (rs_suggestedReplicas s * wf_effectiveCapacityPerReplica (rs_fleet s))) \<and>
      (\<forall>n. Option.bind pressure qp_subagentReadySessionCount = Some n \<and> 0 < n \<longrightarrow>
        wf_busySlots (rs_fleet s) + cc_reservedSubagentCapacity config
          \<le> rs_suggestedReplicas s * wf_effectiveCapacityPerReplica (rs_fleet s)))"
proof -
  define f where "f = summarizeStandaloneWorkerFleet activeWorkers"
  define i where "i = replica_sizing config f pressure"
  let ?c = "wf_effectiveCapacityPerReplica f" and ?u = "max 1 (cc_readySessionsPerCapacityUnit config)"
  let ?g = "sr_globalSuggestedWorkers (calculateControlPoolSuggestion i)" and ?r = "rs_suggestedReplicas s"
  have i: "si_minWorkers i = cc_minReplicas config * ?c" "si_maxWorkers i = cc_maxReplicas config * ?c"
    "si_globalWorkerLoad i = None" "si_localBusyWorkers i = wf_busySlots f"
    "si_reservedSubagentCapacity i = cc_reservedSubagentCapacity config"
    "max 1 (si_readySessionsPerCapacityUnit i) = ?u"
    "\<And>q. pressure_of q i = Option.bind pressure q"
    by (simp_all add: i_def replica_sizing_def Let_def pressure_of_def)
  have s: "rs_fleet s = f" "?r = max (cc_minReplicas config) (min (cc_maxReplicas config)
      (ceil_div (sr_localSuggestedWorkers (calculateControlPoolSuggestion i)) ?c))"
    by (simp_all only: s_def calculateStandaloneWorkerReplicas_def Let_def replica_suggestion.select_convs f_def i_def)
  have g: "?g \<le> ?r * ?c" if "?r < cc_maxReplicas config"
    using replicas_hold_demand [OF _ assms(1) control_local [OF i(3), unfolded i(1,2)] s(2) that]
      fleet_consistent(3) [of activeWorkers] by (simp add: f_def)
  have ready: "n + wf_busySlots f \<le> ?u * (?r * ?c)"
    if "?r < cc_maxReplicas config" "Option.bind pressure qp_readySessionCount = Some n" for n
  proof -
    have "n + wf_busySlots f \<le> ?u * ceil_div (n + wf_busySlots f) ?u" by (rule ceil_div_covers) simp
    also have "\<dots> \<le> ?u * (?r * ?c)"
      using control_saturated [of i n] that g by (intro mult_left_mono) (auto simp: i)
    finally show ?thesis .
  qed
  have reserve: "wf_busySlots f + cc_reservedSubagentCapacity config \<le> ?r * ?c"
    if "?r < cc_maxReplicas config" "Option.bind pressure qp_subagentReadySessionCount = Some n" "0 < n" for n
    using control_reserved [of i n] that g by (simp add: i)
  show ?thesis using assms(1) ready reserve by (auto simp: s)
qed

definition example_worker :: "string \<Rightarrow> string \<Rightarrow> worker_state \<Rightarrow> worker_health \<Rightarrow> worker_entry" where
  "example_worker i r st h =
     \<lparr>we_workerId = i, we_runtimeInstanceId = Some r, we_ownerBaseUrl = None, we_processKind = PStandalone,
      we_state = st, we_lastSeenAt = ''t'', we_resourceCpuLoadRatio = None, we_resourceMemoryUsedRatio = None,
      we_resourceDiskUsedRatio = None, we_currentSessionId = None, we_currentRunId = None,
      we_currentWorkspaceId = None, we_health = h\<rparr>"

definition example_config :: controller_config where
  "example_config =
     \<lparr>cc_minReplicas = 1, cc_maxReplicas = 5, cc_readySessionsPerCapacityUnit = 2, cc_reservedSubagentCapacity = 1,
      cc_scaleIntervalMs = 1000, cc_scaleUpCooldownMs = 0, cc_scaleDownCooldownMs = 0, cc_scaleUpSampleSize = 1,
      cc_scaleDownSampleSize = 3, cc_scaleUpBusyRatioThreshold = 3 / 4, cc_scaleUpMaxReadyAgeMs = 500\<rparr>"

lemma replica_suggestion_covers_demand_witness:
  "rs_suggestedReplicas (calculateStandaloneWorkerReplicas example_config
     [example_worker ''w1'' ''r1'' WBusy HHealthy, example_worker ''w2'' ''r1'' WBusy HHealthy]
     (si_schedulingPressure sizing_example)) = 2 \<and>
   (5::int) + 2 \<le> 2 * (2 * 2)"
proof -
  let ?ws = "[example_worker ''w1'' ''r1'' WBusy HHealthy, example_worker ''w2'' ''r1'' WBusy HHealthy]"
  let ?s = "calculateStandaloneWorkerReplicas example_config ?ws (si_schedulingPressure sizing_example)"
  have v: "rs_suggestedReplicas ?s = 2" "wf_busySlots (rs_fleet ?s) = 2"
    "wf_effectiveCapacityPerReplica (rs_fleet ?s) = 2" "cc_minReplicas example_config = 1"
    "cc_maxReplicas example_config = 5" "cc_readySessionsPerCapacityUnit example_config = 2"
    "Option.bind (si_schedulingPressure sizing_example) qp_readySessionCount = Some 5"
    by code_simp+
  have "cc_minReplicas example_config \<le> cc_maxReplicas example_config" by (simp add: v)
  from replica_suggestion_covers_demand [OF this, of ?ws "si_schedulingPressure sizing_example"]
  show ?thesis by (simp add: v)
qed

end
