(* ===== verification/Placement_Summary.thy ===== *)
theory Placement_Summary
  imports Controller_Fleet
begin

text \<open>
  The summaries of workspace placements and of the sandbox fleet
  (\<open>summarizeWorkspacePlacements\<close> and \<open>summarizeSandboxFleet\<close> of
  \<open>apps/controller/src/controller-placement.ts\<close>). An absent list of placements behaves as an
  empty one and is not told apart from it.
\<close>

subsection \<open>Who owns the workspaces\<close>

record placement_summary =
  pls_totalWorkspaces :: int
  pls_assignedOwners :: int
  pls_unassignedOwners :: int
  pls_ownedWorkspaces :: int
  pls_workersWithPlacements :: int
  pls_ownedByActiveWorkers :: int
  pls_ownedByLateWorkers :: int
  pls_ownedByMissingWorkers :: int
  pls_workersWithLatePlacements :: int
  pls_workersWithMissingPlacements :: int
  pls_active :: int
  pls_idle :: int
  pls_draining :: int
  pls_evicted :: int
  pls_unassigned :: int

definition owned :: "placement \<Rightarrow> bool" where
  "owned p \<longleftrightarrow> truthy (pe_ownerWorkerId p)"

definition owner_of :: "placement \<Rightarrow> string" where
  "owner_of p = or_else (pe_ownerWorkerId p) []"

definition trackedPlacements :: "placement list \<Rightarrow> placement list" where
  "trackedPlacements placements = filter (\<lambda>p. pe_state p \<noteq> PEvicted) placements"

definition owner_health :: "worker_entry list \<Rightarrow> placement \<Rightarrow> worker_health option" where
  "owner_health activeWorkers p = map_of (worker_map we_health activeWorkers) (owner_of p)"

definition summarizeWorkspacePlacements ::
    "placement list \<Rightarrow> worker_entry list \<Rightarrow> placement_summary option" where
  "summarizeWorkspacePlacements placements activeWorkers =
     (if placements = [] then None
      else let tracked = trackedPlacements placements;
               ownedPlacements = filter owned tracked;
               health = owner_health activeWorkers;
               ownerWorkers = jset_from (map owner_of ownedPlacements);
               lateOwnerWorkers = jset_from (map owner_of (filter (\<lambda>p. health p = Some HLate) ownedPlacements));
               missingOwnerWorkers = jset_from (map owner_of (filter (\<lambda>p. health p = None) ownedPlacements));
               assignedOwners = count_if (\<lambda>p. placementOwnerAffinityId p \<noteq> None) tracked
           in Some \<lparr>pls_totalWorkspaces = int (length tracked),
                    pls_assignedOwners = assignedOwners,
                    pls_unassignedOwners = max 0 (int (length tracked) - assignedOwners),
                    pls_ownedWorkspaces = int (length ownedPlacements),
                    pls_workersWithPlacements = int (length ownerWorkers),
                    pls_ownedByActiveWorkers = count_if (\<lambda>p. health p = Some HHealthy) ownedPlacements,
                    pls_ownedByLateWorkers = count_if (\<lambda>p. health p = Some HLate) ownedPlacements,
                    pls_ownedByMissingWorkers = count_if (\<lambda>p. health p = None) ownedPlacements,
                    pls_workersWithLatePlacements = int (length lateOwnerWorkers),
                    pls_workersWithMissingPlacements = int (length missingOwnerWorkers),
                    pls_active = count_if (\<lambda>p. pe_state p = PActive) placements,
                    pls_idle = count_if (\<lambda>p. pe_state p = PIdle) placements,
                    pls_draining = count_if (\<lambda>p. pe_state p = PDraining) placements,
                    pls_evicted = count_if (\<lambda>p. pe_state p = PEvicted) placements,
                    pls_unassigned = count_if (\<lambda>p. pe_state p = PUnassigned) placements\<rparr>)"

lemma count_by_state:
  "count_if (\<lambda>p. pe_state p = PActive) ps + count_if (\<lambda>p. pe_state p = PIdle) ps +
   count_if (\<lambda>p. pe_state p = PDraining) ps + count_if (\<lambda>p. pe_state p = PUnassigned) ps =
   int (length (trackedPlacements ps))"
proof (induction ps)
  case (Cons p ps)
  then show ?case by (cases "pe_state p") (simp_all add: trackedPlacements_def)
qed (simp add: trackedPlacements_def)

lemma count_by_health:
  "count_if (\<lambda>p. h p = Some HHealthy) ps + count_if (\<lambda>p. h p = Some HLate) ps + count_if (\<lambda>p. h p = None) ps =
   int (length ps)"
proof (induction ps)
  case (Cons p ps)
  show ?case
  proof (cases "h p")
    case (Some x)
    with Cons show ?thesis by (cases x) simp_all
  qed (use Cons in simp)
qed simp

lemma owners_le_count: "int (length (jset_from (map f (filter P ps)))) \<le> count_if P ps"
  using length_jset_from_le [of "map f (filter P ps)"] by (simp add: count_if_def)

lemmas placement_summary_unfold = summarizeWorkspacePlacements_def Let_def

text \<open>
  The summary adds up: the states of the placements that are not evicted make up the total, so do the
  placements with and without an owner, and every owned workspace is counted by the health of its owner.
\<close>

lemma placement_summary_adds_up:
  assumes "summarizeWorkspacePlacements ps ws = Some s"
  shows "pls_totalWorkspaces s = pls_active s + pls_idle s + pls_draining s + pls_unassigned s"
    "pls_totalWorkspaces s = pls_assignedOwners s + pls_unassignedOwners s"
    "pls_ownedWorkspaces s = pls_ownedByActiveWorkers s + pls_ownedByLateWorkers s + pls_ownedByMissingWorkers s"
    "pls_workersWithLatePlacements s \<le> pls_ownedByLateWorkers s"
    "pls_workersWithMissingPlacements s \<le> pls_ownedByMissingWorkers s"
proof -
  from assms have s: "s = the (summarizeWorkspacePlacements ps ws)" and ne: "ps \<noteq> []"
    by (simp_all add: summarizeWorkspacePlacements_def split: if_splits)
  note sel = s placement_summary_unfold if_not_P [OF ne] option.sel placement_summary.select_convs
  show "pls_totalWorkspaces s = pls_active s + pls_idle s + pls_draining s + pls_unassigned s"
    by (simp only: sel count_by_state)
  show "pls_totalWorkspaces s = pls_assignedOwners s + pls_unassignedOwners s"
    by (simp only: sel) (use count_if_le [of _ "trackedPlacements ps"] in \<open>simp add: max_absorb2\<close>)
  show "pls_ownedWorkspaces s = pls_ownedByActiveWorkers s + pls_ownedByLateWorkers s + pls_ownedByMissingWorkers s"
    by (simp only: sel count_by_health)
  show "pls_workersWithLatePlacements s \<le> pls_ownedByLateWorkers s"
    "pls_workersWithMissingPlacements s \<le> pls_ownedByMissingWorkers s"
    by (simp_all only: sel owners_le_count)
qed

subsection \<open>The sandbox fleet\<close>

datatype provider_kind = PrEmbedded | PrSelfHosted | PrE2b

datatype ownerless_pool = SharedPool | DedicatedPool

record sandbox_config =
  sc_providerKind :: provider_kind
  sc_managedByController :: bool
  sc_minCount :: int
  sc_maxCount :: int
  sc_maxWorkspacesPerSandbox :: int
  sc_ownerlessPool :: ownerless_pool
  sc_warmEmptyCount :: int
  sc_thresholds :: resource_thresholds

record sandbox_fleet =
  sf_config :: sandbox_config
  sf_warmEmptySandboxes :: int
  sf_observedSandboxes :: int
  sf_healthySandboxes :: int
  sf_pressuredSandboxes :: int
  sf_emptySandboxes :: int
  sf_pressureReserveSandboxes :: int
  sf_trackedWorkspaces :: int
  sf_ownerScopedWorkspaces :: int
  sf_ownerlessWorkspaces :: int
  sf_ownerGroups :: int
  sf_ownerScopedSandboxes :: int
  sf_ownerlessSandboxes :: int
  sf_sharedSandboxes :: int
  sf_logicalSandboxes :: int
  sf_desiredSandboxes :: int
  sf_capped :: bool

text \<open>The loads of the workers: \<open>workerRefLoads\<close> of several functions of the file.\<close>

definition workerRefLoads :: "placement list \<Rightarrow> (string, int) jmap" where
  "workerRefLoads placements =
     tally (\<lambda>p. if owned p \<and> pe_state p \<noteq> PUnassigned then Some (owner_of p, workspacePlacementLoad p) else None) placements"

definition load_of :: "(string, int) jmap \<Rightarrow> string \<Rightarrow> int" where
  "load_of loads r = or_else (map_of loads r) 0"

definition summarizeSandboxFleet :: "placement list \<Rightarrow> worker_entry list \<Rightarrow> sandbox_config \<Rightarrow> sandbox_fleet" where
  "summarizeSandboxFleet placements activeWorkers config =
     (let tracked = trackedPlacements placements;
          maxPer = sc_maxWorkspacesPerSandbox config;
          ownerWorkspaceCounts = tally (\<lambda>p. map_option (\<lambda>ownerId. (ownerId, 1)) (placementOwnerAffinityId p)) tracked;
          ownerlessWorkspaces = count_if (\<lambda>p. placementOwnerAffinityId p = None) tracked;
          loads = workerRefLoads tracked;
          sandboxWorkers = filter (\<lambda>w. we_processKind w = PStandalone) activeWorkers;
          healthyWorkers = filter (\<lambda>w. we_health w = HHealthy) sandboxWorkers;
          observedSandboxRefs = jset_from (map workerPlacementReference sandboxWorkers);
          healthySandboxRefs = jset_from (map workerPlacementReference healthyWorkers);
          pressuredSandboxRefs = jset_from (map workerPlacementReference
            (filter (\<lambda>w. rp_pressureExceeded (workerResourcePressure w (sc_thresholds config))) healthyWorkers));
          emptySandboxRefs = jset_from (map workerPlacementReference
            (filter (\<lambda>w. or_else (or_opt (map_of loads (workerPlacementReference w)) (map_of loads (we_workerId w))) 0 = 0)
              healthyWorkers));
          ownerScopedWorkspaces = sum_list (jmap_values ownerWorkspaceCounts);
          ownerScopedSandboxes = sum_list (map (\<lambda>n. max 1 (ceil_div n maxPer)) (jmap_values ownerWorkspaceCounts));
          ownerlessSandboxes =
            (if ownerlessWorkspaces = 0 then 0
             else if sc_ownerlessPool config = DedicatedPool then ownerlessWorkspaces
             else ceil_div ownerlessWorkspaces maxPer);
          logicalSandboxes = ownerScopedSandboxes + ownerlessSandboxes;
          warmEmptySandboxes = (if sc_managedByController config then max 0 (sc_warmEmptyCount config) else 0);
          loadedPressuredSandboxRefs = filter (\<lambda>r. load_of loads r > 0) pressuredSandboxRefs;
          pressureReserveSandboxes =
            (if sc_managedByController config then int (length loadedPressuredSandboxRefs) else 0);
          targetSandboxes = logicalSandboxes + warmEmptySandboxes + pressureReserveSandboxes;
          desiredSandboxes =
            (if sc_managedByController config
             then max (sc_minCount config) (min (sc_maxCount config) targetSandboxes) else 0)
      in \<lparr>sf_config = config,
          sf_warmEmptySandboxes = warmEmptySandboxes,
          sf_observedSandboxes = int (length observedSandboxRefs),
          sf_healthySandboxes = int (length healthySandboxRefs),
          sf_pressuredSandboxes = int (length pressuredSandboxRefs),
          sf_emptySandboxes = int (length emptySandboxRefs),
          sf_pressureReserveSandboxes = pressureReserveSandboxes,
          sf_trackedWorkspaces = int (length tracked),
          sf_ownerScopedWorkspaces = ownerScopedWorkspaces,
          sf_ownerlessWorkspaces = ownerlessWorkspaces,
          sf_ownerGroups = int (length ownerWorkspaceCounts),
          sf_ownerScopedSandboxes = ownerScopedSandboxes,
          sf_ownerlessSandboxes = ownerlessSandboxes,
          sf_sharedSandboxes = (if sc_ownerlessPool config = SharedPool then ownerlessSandboxes else 0),
          sf_logicalSandboxes = logicalSandboxes,
          sf_desiredSandboxes = desiredSandboxes,
          sf_capped = (sc_managedByController config \<and> targetSandboxes > sc_maxCount config)\<rparr>)"

lemma sandboxes_hold_groups:
  assumes "0 < b"
  shows "sum_list ns \<le> b * sum_list (map (\<lambda>n. max 1 (ceil_div n b)) ns)"
proof (induction ns)
  case (Cons n ns)
  have "n \<le> b * ceil_div n b" using assms by (rule ceil_div_covers)
  also have "\<dots> \<le> b * max 1 (ceil_div n b)" using assms by (intro mult_left_mono) auto
  finally show ?case using Cons by (simp add: distrib_left)
qed simp

lemma ownerless_sandboxes_hold:
  fixes n b :: int
  assumes "0 < b" "0 \<le> n"
  shows "n \<le> b * (if n = 0 then 0 else if d then n else ceil_div n b)"
proof -
  have "1 * n \<le> b * n" using assms by (intro mult_right_mono) auto
  with ceil_div_covers [OF assms(1), of n] show ?thesis by simp
qed

lemmas sandbox_fleet_sel = summarizeSandboxFleet_def Let_def sandbox_fleet.select_convs

lemma sandbox_workspaces:
  "sf_trackedWorkspaces (summarizeSandboxFleet ps ws c) =
   sf_ownerScopedWorkspaces (summarizeSandboxFleet ps ws c) + sf_ownerlessWorkspaces (summarizeSandboxFleet ps ws c)"
proof -
  have "sum_list (map (\<lambda>p. case map_option (\<lambda>ownerId. (ownerId, 1)) (placementOwnerAffinityId p) of
          Some (k, n) \<Rightarrow> n | None \<Rightarrow> 0) qs) + count_if (\<lambda>p. placementOwnerAffinityId p = None) qs = int (length qs)" for qs
    by (induction qs) (auto split: option.split)
  then show ?thesis by (simp only: sandbox_fleet_sel tally_total)
qed

lemma sandbox_logical_holds:
  assumes "0 < sc_maxWorkspacesPerSandbox c"
  shows "sf_trackedWorkspaces (summarizeSandboxFleet ps ws c) \<le>
    sc_maxWorkspacesPerSandbox c * sf_logicalSandboxes (summarizeSandboxFleet ps ws c)"
  unfolding sandbox_workspaces
  by (simp only: sandbox_fleet_sel distrib_left)
    (intro add_mono sandboxes_hold_groups ownerless_sandboxes_hold assms count_if_nonneg)

lemma sandbox_target_parts:
  fixes c :: sandbox_config and ps :: "placement list" and ws :: "worker_entry list"
  defines "f \<equiv> summarizeSandboxFleet ps ws c"
  shows "0 \<le> sf_warmEmptySandboxes f" "0 \<le> sf_pressureReserveSandboxes f"
    "sf_capped f \<longleftrightarrow> sc_managedByController c \<and>
       sf_logicalSandboxes f + sf_warmEmptySandboxes f + sf_pressureReserveSandboxes f > sc_maxCount c"
    "sf_desiredSandboxes f = (if sc_managedByController c then max (sc_minCount c) (min (sc_maxCount c)
       (sf_logicalSandboxes f + sf_warmEmptySandboxes f + sf_pressureReserveSandboxes f)) else 0)"
  unfolding f_def by (simp_all only: sandbox_fleet_sel) simp_all

text \<open>
  The number of sandboxes the controller asks for lies within the configured limits, and unless it is
  reported as capped, it has room for all tracked workspaces, for the warm empty sandboxes and for one more sandbox
  per loaded sandbox under pressure.
\<close>

theorem sandbox_fleet_has_room:
  fixes config :: sandbox_config and placements :: "placement list" and activeWorkers :: "worker_entry list"
  assumes "sc_managedByController config" and "sc_minCount config \<le> sc_maxCount config"
    and "0 < sc_maxWorkspacesPerSandbox config"
  defines "f \<equiv> summarizeSandboxFleet placements activeWorkers config"
  shows "sc_minCount config \<le> sf_desiredSandboxes f \<and> sf_desiredSandboxes f \<le> sc_maxCount config \<and>
    (\<not> sf_capped f \<longrightarrow>
       int (length (trackedPlacements placements)) \<le> sc_maxWorkspacesPerSandbox config *
         (sf_desiredSandboxes f - sf_warmEmptySandboxes f - sf_pressureReserveSandboxes f))"
proof (intro conjI impI)
  note parts = sandbox_target_parts [of placements activeWorkers config, folded f_def]
  show "sc_minCount config \<le> sf_desiredSandboxes f" "sf_desiredSandboxes f \<le> sc_maxCount config"
    using assms(1,2) by (simp_all add: parts(4))
  assume "\<not> sf_capped f"
  then have enough: "sf_logicalSandboxes f \<le> sf_desiredSandboxes f - sf_warmEmptySandboxes f - sf_pressureReserveSandboxes f"
    using assms(1) by (auto simp: parts(3,4))
  have "int (length (trackedPlacements placements)) = sf_trackedWorkspaces f"
    unfolding f_def by (simp only: sandbox_fleet_sel)
  also have "\<dots> \<le> sc_maxWorkspacesPerSandbox config * sf_logicalSandboxes f"
    unfolding f_def by (rule sandbox_logical_holds [OF assms(3)])
  also have "\<dots> \<le> sc_maxWorkspacesPerSandbox config *
      (sf_desiredSandboxes f - sf_warmEmptySandboxes f - sf_pressureReserveSandboxes f)"
    using enough assms(3) by (intro mult_left_mono) auto
  finally show "int (length (trackedPlacements placements)) \<le> sc_maxWorkspacesPerSandbox config *
      (sf_desiredSandboxes f - sf_warmEmptySandboxes f - sf_pressureReserveSandboxes f)" .
qed

definition example_placement :: "string \<Rightarrow> string option \<Rightarrow> string option \<Rightarrow> placement_state \<Rightarrow> placement" where
  "example_placement wid ownerId worker st =
     \<lparr>pe_workspaceId = wid, pe_version = ''live'', pe_ownerId = ownerId, pe_ownerWorkerId = worker,
      pe_ownerBaseUrl = None, pe_preferredWorkerId = None, pe_preferredWorkerReason = None, pe_state = st,
      pe_sourceKind = None, pe_localPath = None, pe_remotePrefix = None, pe_dirty = None, pe_refCount = None,
      pe_lastActivityAt = None, pe_materializedAt = None, pe_updatedAt = ''t''\<rparr>"

definition example_sandboxes :: sandbox_config where
  "example_sandboxes =
     \<lparr>sc_providerKind = PrSelfHosted, sc_managedByController = True, sc_minCount = 1, sc_maxCount = 6,
      sc_maxWorkspacesPerSandbox = 2, sc_ownerlessPool = SharedPool, sc_warmEmptyCount = 1,
      sc_thresholds = \<lparr>rt_cpu = 4 / 5, rt_memory = 4 / 5, rt_disk = 17 / 20\<rparr>\<rparr>"

lemma sandbox_fleet_has_room_witness:
  "sf_desiredSandboxes (summarizeSandboxFleet
     [example_placement ''a'' (Some ''u1'') (Some ''r1'') PActive,
      example_placement ''b'' (Some ''u1'') (Some ''r1'') PIdle,
      example_placement ''c'' (Some ''u1'') None PUnassigned,
      example_placement ''d'' None None PUnassigned] [example_worker ''w1'' ''r1'' WBusy HHealthy] example_sandboxes) = 4 \<and>
   (4::int) \<le> 2 * (4 - 1 - 0)"
proof -
  let ?ps = "[example_placement ''a'' (Some ''u1'') (Some ''r1'') PActive,
      example_placement ''b'' (Some ''u1'') (Some ''r1'') PIdle,
      example_placement ''c'' (Some ''u1'') None PUnassigned,
      example_placement ''d'' None None PUnassigned]"
  let ?ws = "[example_worker ''w1'' ''r1'' WBusy HHealthy]"
  let ?f = "summarizeSandboxFleet ?ps ?ws example_sandboxes"
  have v: "sf_desiredSandboxes ?f = 4" "\<not> sf_capped ?f" "sf_warmEmptySandboxes ?f = 1"
    "sf_pressureReserveSandboxes ?f = 0" "length (trackedPlacements ?ps) = 4"
    by code_simp+
  have c: "sc_managedByController example_sandboxes" "sc_minCount example_sandboxes \<le> sc_maxCount example_sandboxes"
    "0 < sc_maxWorkspacesPerSandbox example_sandboxes" "sc_maxWorkspacesPerSandbox example_sandboxes = 2"
    by code_simp+
  from sandbox_fleet_has_room [OF c(1-3), of ?ps ?ws] show ?thesis by (simp add: v c(4))
qed

end
