(* ===== verification/Placement_Policy.thy ===== *)
theory Placement_Policy
  imports Placement_Summary
begin

text \<open>
  What is wrong with the placements, what the controller recommends, and the plan it derives
  (\<open>summarizePlacementPolicy\<close>, \<open>summarizePlacementRecommendations\<close>,
  \<open>summarizePlacementActionPlan\<close> of \<open>apps/controller/src/controller-placement.ts\<close>). The texts of
  the messages are not modelled.
\<close>

subsection \<open>The policy summary\<close>

record placement_policy =
  pp_attentionRequired :: bool
  pp_unassignedWorkspaces :: int
  pp_missingOwnerWorkspaces :: int
  pp_lateOwnerWorkspaces :: int
  pp_drainingOwnerWorkspaces :: int
  pp_ownersSpanningWorkers :: int
  pp_maxWorkersPerOwner :: int
  pp_sandboxesAboveWorkspaceCapacity :: int
  pp_maxWorkspaceRefsPerSandbox :: int

text \<open>The branches of the loop: each leaves the body with \<open>continue\<close>, so a later one excludes the earlier ones.\<close>

definition without_owner :: "placement \<Rightarrow> bool" where
  "without_owner p \<longleftrightarrow> pe_state p = PUnassigned \<or> \<not> owned p"

definition missing_owner :: "worker_entry list \<Rightarrow> placement \<Rightarrow> bool" where
  "missing_owner workers p \<longleftrightarrow> \<not> without_owner p \<and> owner_health workers p = None"

definition attached :: "worker_entry list \<Rightarrow> placement \<Rightarrow> bool" where
  "attached workers p \<longleftrightarrow> \<not> without_owner p \<and> owner_health workers p \<noteq> None"

definition late_owner :: "worker_entry list \<Rightarrow> placement \<Rightarrow> bool" where
  "late_owner workers p \<longleftrightarrow> attached workers p \<and> owner_health workers p = Some HLate"

definition draining_owner :: "worker_entry list \<Rightarrow> placement \<Rightarrow> bool" where
  "draining_owner workers p \<longleftrightarrow>
     attached workers p \<and>
     (map_of (worker_map we_state workers) (owner_of p) = Some WStopping \<or> pe_state p = PDraining)"

definition owner_affinity :: "placement \<Rightarrow> (string \<times> string) option" where
  "owner_affinity p = map_option (\<lambda>ownerId. (ownerId, owner_of p)) (placementOwnerAffinityId p)"

definition summarizePlacementPolicy ::
    "placement list \<Rightarrow> worker_entry list \<Rightarrow> int \<Rightarrow> placement_policy option" where
  "summarizePlacementPolicy placements activeWorkers maxWorkspacesPerSandbox =
     (if placements = [] then None
      else let tracked = trackedPlacements placements;
               attachedPlacements = filter (attached activeWorkers) tracked;
               unassignedWorkspaces = count_if without_owner tracked;
               missingOwnerWorkspaces = count_if (missing_owner activeWorkers) tracked;
               lateOwnerWorkspaces = count_if (late_owner activeWorkers) tracked;
               drainingOwnerWorkspaces = count_if (draining_owner activeWorkers) tracked;
               ownerAffinityWorkers = js_group owner_affinity attachedPlacements;
               loads = tally (\<lambda>p. Some (owner_of p, workspacePlacementLoad p)) attachedPlacements;
               ownerWorkerCounts = map (\<lambda>workers. int (length workers)) (jmap_values ownerAffinityWorkers);
               ownersSpanningWorkers = count_if (\<lambda>n. n > 1) ownerWorkerCounts;
               workspaceCapacity = max 1 maxWorkspacesPerSandbox;
               sandboxesAboveWorkspaceCapacity = count_if (\<lambda>n. n > workspaceCapacity) (jmap_values loads)
           in Some \<lparr>pp_attentionRequired =
                      (unassignedWorkspaces > 0 \<or> missingOwnerWorkspaces > 0 \<or> lateOwnerWorkspaces > 0 \<or>
                       drainingOwnerWorkspaces > 0 \<or> ownersSpanningWorkers > 0 \<or> sandboxesAboveWorkspaceCapacity > 0),
                    pp_unassignedWorkspaces = unassignedWorkspaces,
                    pp_missingOwnerWorkspaces = missingOwnerWorkspaces,
                    pp_lateOwnerWorkspaces = lateOwnerWorkspaces,
                    pp_drainingOwnerWorkspaces = drainingOwnerWorkspaces,
                    pp_ownersSpanningWorkers = ownersSpanningWorkers,
                    pp_maxWorkersPerOwner = max_or 0 ownerWorkerCounts,
                    pp_sandboxesAboveWorkspaceCapacity = sandboxesAboveWorkspaceCapacity,
                    pp_maxWorkspaceRefsPerSandbox = max_or 0 (jmap_values loads)\<rparr>)"

subsection \<open>Recommendations\<close>

datatype placement_kind =
    AssignUnassigned | RecoverMissingOwner | ReassignLateOwner | FinishDrainingOwner
  | ConsolidateOwnerAffinity | RebalanceWorkspaceCapacity

datatype placement_priority = HighPriority | MediumPriority

record recommendation =
  rec_kind :: placement_kind
  rec_priority :: placement_priority
  rec_workspaceCount :: int
  rec_workerCount :: "int option"
  rec_ownerCount :: "int option"
  rec_sampleWorkspaceIds :: "string list option"
  rec_sampleWorkerIds :: "string list option"
  rec_sampleOwnerIds :: "string list option"

definition sampleWorkspaceIds :: "placement list \<Rightarrow> (placement \<Rightarrow> bool) \<Rightarrow> string list" where
  "sampleWorkspaceIds placements P = take 5 (jset_from (map pe_workspaceId (filter P placements)))"

definition sampleWorkerIds :: "placement list \<Rightarrow> (placement \<Rightarrow> bool) \<Rightarrow> string list" where
  "sampleWorkerIds placements P =
     take 5 (jset_from (map owner_of (filter (\<lambda>p. P p \<and> owned p) placements)))"

definition sampleOwnerIds :: "placement list \<Rightarrow> (placement \<Rightarrow> bool) \<Rightarrow> string list" where
  "sampleOwnerIds placements P =
     take 5 (jset_from (List.map_filter placementOwnerAffinityId (filter P placements)))"

definition spanningOwners :: "placement list \<Rightarrow> string list" where
  "spanningOwners placements =
     (let placed = filter (\<lambda>p. owned p \<and> pe_state p \<noteq> PEvicted \<and> pe_state p \<noteq> PUnassigned) placements
      in map fst (filter (\<lambda>(ownerId, workers). length workers > 1) (js_group owner_affinity placed)))"

definition overloadedWorkers :: "placement list \<Rightarrow> int \<Rightarrow> string list" where
  "overloadedWorkers placements workspaceCapacity =
     map fst (filter (\<lambda>(workerId, load). load > workspaceCapacity) (workerRefLoads (trackedPlacements placements)))"

definition recommend :: "bool \<Rightarrow> recommendation \<Rightarrow> recommendation list" where
  "recommend b r = (if b then [r] else [])"

definition policy_count :: "(placement_policy \<Rightarrow> int) \<Rightarrow> placement_policy option \<Rightarrow> int" where
  "policy_count f policy = or_else (map_option f policy) 0"

definition summarizePlacementRecommendations ::
    "placement_summary option \<Rightarrow> placement_policy option \<Rightarrow> placement list \<Rightarrow> worker_entry list \<Rightarrow> int option \<Rightarrow>
     recommendation list option" where
  "summarizePlacementRecommendations placementSummary placementPolicy placements activeWorkers maxWorkspacesPerSandbox =
     (if placementSummary = None \<and> placementPolicy = None then None
      else
        let workspaceCapacity = max 1 (or_else maxWorkspacesPerSandbox 1);
            unassigned = policy_count pp_unassignedWorkspaces placementPolicy;
            missing = policy_count pp_missingOwnerWorkspaces placementPolicy;
            late = policy_count pp_lateOwnerWorkspaces placementPolicy;
            draining = policy_count pp_drainingOwnerWorkspaces placementPolicy;
            spanning = policy_count pp_ownersSpanningWorkers placementPolicy;
            overloaded = policy_count pp_sandboxesAboveWorkspaceCapacity placementPolicy;
            isMissing = (\<lambda>p. pe_state p \<noteq> PEvicted \<and> owned p \<and> owner_health activeWorkers p = None);
            isLate = (\<lambda>p. pe_state p \<noteq> PEvicted \<and> owner_health activeWorkers p = Some HLate);
            isDraining = (\<lambda>p. pe_state p = PDraining);
            recommendations =
              recommend (unassigned > 0)
                \<lparr>rec_kind = AssignUnassigned, rec_priority = HighPriority, rec_workspaceCount = unassigned,
                 rec_workerCount = None, rec_ownerCount = None,
                 rec_sampleWorkspaceIds = Some (sampleWorkspaceIds placements (\<lambda>p. pe_state p = PUnassigned \<or> \<not> owned p)),
                 rec_sampleWorkerIds = None, rec_sampleOwnerIds = None\<rparr> @
              recommend (missing > 0)
                \<lparr>rec_kind = RecoverMissingOwner, rec_priority = HighPriority, rec_workspaceCount = missing,
                 rec_workerCount = map_option pls_workersWithMissingPlacements placementSummary, rec_ownerCount = None,
                 rec_sampleWorkspaceIds = Some (sampleWorkspaceIds placements isMissing),
                 rec_sampleWorkerIds = Some (sampleWorkerIds placements isMissing), rec_sampleOwnerIds = None\<rparr> @
              recommend (late > 0)
                \<lparr>rec_kind = ReassignLateOwner, rec_priority = HighPriority, rec_workspaceCount = late,
                 rec_workerCount = map_option pls_workersWithLatePlacements placementSummary, rec_ownerCount = None,
                 rec_sampleWorkspaceIds = Some (sampleWorkspaceIds placements isLate),
                 rec_sampleWorkerIds = Some (sampleWorkerIds placements isLate), rec_sampleOwnerIds = None\<rparr> @
              recommend (draining > 0)
                \<lparr>rec_kind = FinishDrainingOwner, rec_priority = MediumPriority, rec_workspaceCount = draining,
                 rec_workerCount = None, rec_ownerCount = None,
                 rec_sampleWorkspaceIds = Some (sampleWorkspaceIds placements isDraining),
                 rec_sampleWorkerIds = Some (sampleWorkerIds placements isDraining), rec_sampleOwnerIds = None\<rparr> @
              recommend (spanning > 0)
                \<lparr>rec_kind = ConsolidateOwnerAffinity, rec_priority = MediumPriority, rec_workspaceCount = 0,
                 rec_workerCount = None, rec_ownerCount = Some spanning,
                 rec_sampleWorkspaceIds = None, rec_sampleWorkerIds = None,
                 rec_sampleOwnerIds = Some (sampleOwnerIds placements
                   (\<lambda>p. case placementOwnerAffinityId p of
                          Some ownerId \<Rightarrow> ownerId \<in> set (spanningOwners placements) | None \<Rightarrow> False))\<rparr> @
              recommend (overloaded > 0)
                \<lparr>rec_kind = RebalanceWorkspaceCapacity, rec_priority = MediumPriority, rec_workspaceCount = 0,
                 rec_workerCount = Some overloaded, rec_ownerCount = None, rec_sampleWorkspaceIds = None,
                 rec_sampleWorkerIds = Some (sampleWorkerIds placements
                   (\<lambda>p. owner_of p \<in> set (overloadedWorkers placements workspaceCapacity))),
                 rec_sampleOwnerIds = None\<rparr>
        in if recommendations \<noteq> [] then Some recommendations else None)"

subsection \<open>The action plan\<close>

datatype action_phase = StabilizePhase | HandoffPhase | OptimizePhase

datatype blocker =
  OwnerUnassigned | OwnerMissing | OwnerLate | WorkerDraining | OwnerAffinitySplit | WorkspaceCapacityExceeded

record action_item =
  item_id :: string
  item_phase :: action_phase
  item_kind :: placement_kind
  item_priority :: placement_priority
  item_blockers :: "blocker list"
  item_workspaceIds :: "string list option"
  item_workerIds :: "string list option"
  item_ownerIds :: "string list option"

record action_plan =
  plan_totalItems :: int
  plan_highPriorityItems :: int
  plan_nextItem :: "action_item option"
  plan_items :: "action_item list"

definition kind_name :: "placement_kind \<Rightarrow> string" where
  "kind_name k =
     (case k of
        AssignUnassigned \<Rightarrow> ''assign_unassigned''
      | RecoverMissingOwner \<Rightarrow> ''recover_missing_owner''
      | ReassignLateOwner \<Rightarrow> ''reassign_late_owner''
      | FinishDrainingOwner \<Rightarrow> ''finish_draining_owner''
      | ConsolidateOwnerAffinity \<Rightarrow> ''consolidate_owner_affinity''
      | RebalanceWorkspaceCapacity \<Rightarrow> ''rebalance_workspace_capacity'')"

definition placementActionPhase :: "placement_kind \<Rightarrow> action_phase" where
  "placementActionPhase k =
     (case k of
        AssignUnassigned \<Rightarrow> StabilizePhase
      | RecoverMissingOwner \<Rightarrow> StabilizePhase
      | ReassignLateOwner \<Rightarrow> StabilizePhase
      | FinishDrainingOwner \<Rightarrow> HandoffPhase
      | _ \<Rightarrow> OptimizePhase)"

definition placementActionBlockers :: "placement_kind \<Rightarrow> blocker list" where
  "placementActionBlockers k =
     (case k of
        AssignUnassigned \<Rightarrow> [OwnerUnassigned]
      | RecoverMissingOwner \<Rightarrow> [OwnerMissing]
      | ReassignLateOwner \<Rightarrow> [OwnerLate]
      | FinishDrainingOwner \<Rightarrow> [WorkerDraining]
      | ConsolidateOwnerAffinity \<Rightarrow> [OwnerAffinitySplit]
      | RebalanceWorkspaceCapacity \<Rightarrow> [WorkspaceCapacityExceeded])"

definition action_item_of :: "recommendation \<Rightarrow> nat \<Rightarrow> action_item" where
  "action_item_of r index =
     \<lparr>item_id = kind_name (rec_kind r) @ '':'' @ js_show (index + 1),
      item_phase = placementActionPhase (rec_kind r),
      item_kind = rec_kind r,
      item_priority = rec_priority r,
      item_blockers = placementActionBlockers (rec_kind r),
      item_workspaceIds = rec_sampleWorkspaceIds r,
      item_workerIds = rec_sampleWorkerIds r,
      item_ownerIds = rec_sampleOwnerIds r\<rparr>"

definition summarizePlacementActionPlan :: "recommendation list option \<Rightarrow> action_plan option" where
  "summarizePlacementActionPlan recommendations =
     (case recommendations of
        None \<Rightarrow> None
      | Some rs \<Rightarrow>
          if rs = [] then None
          else let items = map2 action_item_of rs [0..<length rs]
               in Some \<lparr>plan_totalItems = int (length items),
                        plan_highPriorityItems = count_if (\<lambda>i. item_priority i = HighPriority) items,
                        plan_nextItem = Some (hd items),
                        plan_items = items\<rparr>)"

subsection \<open>The plan answers the problems\<close>

text \<open>What each kind of recommendation is about, said of the placements themselves.\<close>

definition placement_problem :: "placement list \<Rightarrow> worker_entry list \<Rightarrow> int \<Rightarrow> placement_kind \<Rightarrow> bool" where
  "placement_problem ps ws capacity k =
     (let tracked = trackedPlacements ps; placed = filter (attached ws) tracked
      in case k of
        AssignUnassigned \<Rightarrow> \<exists>p\<in>set tracked. without_owner p
      | RecoverMissingOwner \<Rightarrow> \<exists>p\<in>set tracked. missing_owner ws p
      | ReassignLateOwner \<Rightarrow> \<exists>p\<in>set tracked. late_owner ws p
      | FinishDrainingOwner \<Rightarrow> \<exists>p\<in>set tracked. draining_owner ws p
      | ConsolidateOwnerAffinity \<Rightarrow> \<exists>p\<in>set placed. \<exists>q\<in>set placed.
          placementOwnerAffinityId p \<noteq> None \<and> placementOwnerAffinityId p = placementOwnerAffinityId q \<and> owner_of p \<noteq> owner_of q
      | RebalanceWorkspaceCapacity \<Rightarrow> \<exists>p\<in>set placed.
          sum_list (map workspacePlacementLoad (filter (\<lambda>q. owner_of q = owner_of p) placed)) > max 1 capacity)"

definition policy_field :: "placement_kind \<Rightarrow> placement_policy \<Rightarrow> int" where
  "policy_field k =
     (case k of
        AssignUnassigned \<Rightarrow> pp_unassignedWorkspaces
      | RecoverMissingOwner \<Rightarrow> pp_missingOwnerWorkspaces
      | ReassignLateOwner \<Rightarrow> pp_lateOwnerWorkspaces
      | FinishDrainingOwner \<Rightarrow> pp_drainingOwnerWorkspaces
      | ConsolidateOwnerAffinity \<Rightarrow> pp_ownersSpanningWorkers
      | RebalanceWorkspaceCapacity \<Rightarrow> pp_sandboxesAboveWorkspaceCapacity)"

lemma two_in_set: "distinct xs \<Longrightarrow> 1 < length xs \<longleftrightarrow> (\<exists>x\<in>set xs. \<exists>y\<in>set xs. x \<noteq> y)"
proof (cases xs)
  case (Cons x ys)
  assume "distinct xs"
  with Cons show ?thesis by (cases ys) auto
qed simp

lemma spanning_iff:
  "(\<exists>workers\<in>set (jmap_values (js_group owner_affinity ps)). 1 < length workers) \<longleftrightarrow>
   (\<exists>p\<in>set ps. \<exists>q\<in>set ps. placementOwnerAffinityId p \<noteq> None \<and>
      placementOwnerAffinityId p = placementOwnerAffinityId q \<and> owner_of p \<noteq> owner_of q)" (is "?L \<longleftrightarrow> ?R")
proof -
  let ?g = "js_group owner_affinity ps"
  have len: "1 < length ws \<longleftrightarrow>
      (\<exists>p\<in>set ps. \<exists>q\<in>set ps. placementOwnerAffinityId p = Some k \<and> placementOwnerAffinityId q = Some k \<and> owner_of p \<noteq> owner_of q)"
    if "map_of ?g k = Some ws" for k ws
  proof -
    have "ws = or_else (map_of ?g k) []" using that by simp
    then have "distinct ws" "set ws = {v. \<exists>x\<in>set ps. owner_affinity x = Some (k, v)}"
      by (simp_all only: js_group_distinct js_group_get)
    then show ?thesis unfolding two_in_set [OF \<open>distinct ws\<close>] by (auto simp: owner_affinity_def)
  qed
  have "?L \<longleftrightarrow> (\<exists>k ws. map_of ?g k = Some ws \<and> 1 < length ws)"
    using jmap_get_values [OF jmap_wf_js_group, of _ owner_affinity ps] by blast
  also have "\<dots> \<longleftrightarrow> ?R"
  proof
    assume ?R
    then obtain p q k where pq: "p \<in> set ps" "q \<in> set ps" "placementOwnerAffinityId p = Some k"
      "placementOwnerAffinityId q = Some k" "owner_of p \<noteq> owner_of q" by auto
    then have "owner_affinity p = Some (k, owner_of p)" by (simp add: owner_affinity_def)
    with pq(1) have "map_of ?g k \<noteq> None" unfolding js_group_keys by blast
    then obtain ws where "map_of ?g k = Some ws" by blast
    with len [OF this] pq show "\<exists>k ws. map_of ?g k = Some ws \<and> 1 < length ws" by blast
  next
    assume "\<exists>k ws. map_of ?g k = Some ws \<and> 1 < length ws"
    then obtain k ws where k: "map_of ?g k = Some ws" "1 < length ws" by blast
    with len [OF k(1)] obtain p q where pq: "p \<in> set ps" "q \<in> set ps" "placementOwnerAffinityId p = Some k"
      "placementOwnerAffinityId q = Some k" "owner_of p \<noteq> owner_of q" by blast
    then show ?R by (intro bexI [of _ p] bexI [of _ q]) simp_all
  qed
  finally show ?thesis .
qed

lemma owner_load:
  "sum_list (map (amount_for (\<lambda>p. Some (owner_of p, workspacePlacementLoad p)) r) ps) =
   sum_list (map workspacePlacementLoad (filter (\<lambda>q. owner_of q = r) ps))"
  by (induction ps) (auto simp: amount_for_def)

lemma overloaded_iff:
  "(\<exists>n\<in>set (jmap_values (tally (\<lambda>p. Some (owner_of p, workspacePlacementLoad p)) ps)). c < n) \<longleftrightarrow>
   (\<exists>p\<in>set ps. c < sum_list (map workspacePlacementLoad (filter (\<lambda>q. owner_of q = owner_of p) ps)))" (is "?L \<longleftrightarrow> ?R")
proof -
  let ?t = "tally (\<lambda>p. Some (owner_of p, workspacePlacementLoad p)) ps"
  have get: "map_of ?t k = Some n \<longleftrightarrow> (\<exists>p\<in>set ps. owner_of p = k) \<and>
      n = sum_list (map workspacePlacementLoad (filter (\<lambda>q. owner_of q = k) ps))" for k n
    using tally_keys [of "\<lambda>p. Some (owner_of p, workspacePlacementLoad p)" ps k]
      tally_get [of "\<lambda>p. Some (owner_of p, workspacePlacementLoad p)" ps k]
    by (cases "map_of ?t k") (auto simp: owner_load)
  show ?thesis
    using jmap_get_values [OF jmap_wf_tally, of _ "\<lambda>p. Some (owner_of p, workspacePlacementLoad p)" ps]
    by (auto simp: get)
qed

lemma policy_counts_problems:
  "0 < policy_count (policy_field k) (summarizePlacementPolicy ps ws capacity) \<longleftrightarrow> placement_problem ps ws capacity k"
proof (cases "ps = []")
  case True
  then show ?thesis
    by (cases k) (simp_all add: placement_problem_def summarizePlacementPolicy_def policy_count_def trackedPlacements_def)
next
  case False
  note sel = summarizePlacementPolicy_def Let_def if_not_P [OF False] policy_count_def policy_field_def option.map
    or_else_simps placement_policy.select_convs placement_kind.case placement_problem_def
  show ?thesis
  proof (cases k)
    case ConsolidateOwnerAffinity
    then show ?thesis by (simp only: sel count_if_pos flip: spanning_iff) auto
  qed (simp_all only: sel count_if_pos overloaded_iff)
qed

lemma ex_kind:
  "(\<exists>k. P k) \<longleftrightarrow> P AssignUnassigned \<or> P RecoverMissingOwner \<or> P ReassignLateOwner \<or> P FinishDrainingOwner \<or>
     P ConsolidateOwnerAffinity \<or> P RebalanceWorkspaceCapacity"
  by (metis placement_kind.exhaust)

lemma policy_attention:
  assumes "summarizePlacementPolicy ps ws capacity = Some pol"
  shows "pp_attentionRequired pol \<longleftrightarrow> (\<exists>k. 0 < policy_count (policy_field k) (Some pol))"
proof -
  from assms have ne: "ps \<noteq> []" and pol: "pol = the (summarizePlacementPolicy ps ws capacity)"
    by (auto simp: summarizePlacementPolicy_def)
  show ?thesis
    by (simp only: pol summarizePlacementPolicy_def Let_def if_not_P [OF ne] option.sel ex_kind policy_count_def policy_field_def
        option.map or_else_simps placement_policy.select_convs placement_kind.case)
qed

definition all_kinds :: "placement_kind list" where
  "all_kinds = [AssignUnassigned, RecoverMissingOwner, ReassignLateOwner, FinishDrainingOwner,
     ConsolidateOwnerAffinity, RebalanceWorkspaceCapacity]"

lemma set_all_kinds: "set all_kinds = UNIV"
  using placement_kind.exhaust by (auto simp: all_kinds_def)

lemma recommended_kinds:
  fixes summary :: "placement_summary option" and policy :: "placement_policy option" and ps :: "placement list"
    and ws :: "worker_entry list" and cap :: "int option"
  assumes "\<not> (summary = None \<and> policy = None)"
  defines "rs \<equiv> summarizePlacementRecommendations summary policy ps ws cap"
  shows "map rec_kind (or_else rs []) = filter (\<lambda>k. 0 < policy_count (policy_field k) policy) all_kinds"
    "\<forall>r\<in>set (or_else rs []). rec_priority r = HighPriority \<longleftrightarrow> placementActionPhase (rec_kind r) = StabilizePhase"
    "rs \<noteq> Some []"
  using assms(1)
  by (simp_all only: rs_def summarizePlacementRecommendations_def Let_def if_False)
    (simp_all add: recommend_def all_kinds_def policy_field_def placementActionPhase_def or_else_def)

definition phase_rank :: "action_phase \<Rightarrow> nat" where
  "phase_rank ph = (case ph of StabilizePhase \<Rightarrow> 0 | HandoffPhase \<Rightarrow> 1 | OptimizePhase \<Rightarrow> 2)"

lemma kinds_in_phases:
  "sorted_wrt (\<lambda>a b. phase_rank (placementActionPhase a) \<le> phase_rank (placementActionPhase b)) all_kinds"
  by (simp add: all_kinds_def placementActionPhase_def phase_rank_def)

lemma distinct_kinds: "distinct all_kinds"
  by (simp add: all_kinds_def)

lemma kind_name_inj: "kind_name k = kind_name k' \<Longrightarrow> k = k'"
  by (cases k; cases k') (simp_all add: kind_name_def)

lemma item_id_kind: "takeWhile (\<lambda>c. c \<noteq> CHR '':'') (item_id (action_item_of r i)) = kind_name (rec_kind r)"
  by (cases "rec_kind r") (simp_all add: action_item_of_def kind_name_def)

lemma plan_items_map:
  "map f (map2 action_item_of rs [0..<length rs]) = map (\<lambda>i. f (action_item_of (rs ! i) i)) [0..<length rs]"
  by (intro nth_equalityI) simp_all

lemma plan_kinds: "map item_kind (map2 action_item_of rs [0..<length rs]) = map rec_kind rs"
  unfolding plan_items_map by (intro nth_equalityI) (simp_all add: action_item_of_def)

lemma plan_phases:
  "map item_phase (map2 action_item_of rs [0..<length rs]) = map placementActionPhase (map rec_kind rs)"
  unfolding plan_items_map by (intro nth_equalityI) (simp_all add: action_item_of_def)

lemma plan_item_fields:
  "i \<in> set (map2 action_item_of rs [0..<length rs]) \<Longrightarrow>
     item_phase i = placementActionPhase (item_kind i) \<and>
     (\<exists>r\<in>set rs. item_kind i = rec_kind r \<and> item_priority i = rec_priority r)"
  by (auto simp: in_set_zip action_item_of_def intro: bexI [OF _ nth_mem])

lemma plan_ids_distinct:
  assumes "distinct (map rec_kind rs)"
  shows "distinct (map item_id (map2 action_item_of rs [0..<length rs]))"
proof -
  let ?items = "map2 action_item_of rs [0..<length rs]"
  let ?kind = "takeWhile (\<lambda>c. c \<noteq> CHR '':'')"
  have "map ?kind (map item_id ?items) = map kind_name (map rec_kind rs)"
    unfolding plan_items_map by (intro nth_equalityI) (simp_all add: item_id_kind)
  moreover have "distinct (map kind_name (map rec_kind rs))"
    using assms by (auto simp: distinct_map inj_on_def dest!: kind_name_inj simp del: map_map)
  ultimately have "distinct (map ?kind (map item_id ?items))" by simp
  then show ?thesis by (simp only: distinct_map)
qed

text \<open>
  The action plan answers exactly the problems of the placements. There is a plan when, and only when, some
  placement has no owner, a missing, late or draining one, some owner affinity spans two workers, or some worker is
  above the workspace capacity; then it has one item for each of these problems, with distinct ids, those that stabilize
  first, then the handoff, then the optimizations; the high priority items are those that stabilize, and the next item is
  the first.
\<close>

theorem action_plan_answers_problems:
  fixes ps :: "placement list" and ws :: "worker_entry list" and capacity :: int
  shows "case summarizePlacementActionPlan (summarizePlacementRecommendations (summarizeWorkspacePlacements ps ws)
      (summarizePlacementPolicy ps ws capacity) ps ws (Some capacity)) of
      None \<Rightarrow> (\<forall>k. \<not> placement_problem ps ws capacity k)
    | Some plan \<Rightarrow>
        plan_items plan \<noteq> [] \<and> plan_nextItem plan = Some (hd (plan_items plan)) \<and>
        map item_kind (plan_items plan) = filter (placement_problem ps ws capacity) all_kinds \<and>
        sorted_wrt (\<lambda>a b. phase_rank (item_phase a) \<le> phase_rank (item_phase b)) (plan_items plan) \<and>
        distinct (map item_id (plan_items plan)) \<and>
        plan_totalItems plan = int (length (plan_items plan)) \<and>
        plan_highPriorityItems plan = count_if (\<lambda>i. item_phase i = StabilizePhase) (plan_items plan)"
proof -
  let ?pol = "summarizePlacementPolicy ps ws capacity" and ?sum = "summarizeWorkspacePlacements ps ws"
  define recs where "recs = summarizePlacementRecommendations ?sum ?pol ps ws (Some capacity)"
  let ?problems = "filter (placement_problem ps ws capacity) all_kinds"
  have problems: "(\<lambda>k. 0 < policy_count (policy_field k) ?pol) = placement_problem ps ws capacity"
    by (rule ext) (rule policy_counts_problems)
  show ?thesis
  proof (cases "?sum = None \<and> ?pol = None")
    case True
    then have "recs = None" by (simp add: recs_def summarizePlacementRecommendations_def)
    moreover have "\<not> placement_problem ps ws capacity k" for k
      using policy_counts_problems [of k ps ws capacity] True by (simp add: policy_count_def)
    ultimately show ?thesis by (simp add: recs_def summarizePlacementActionPlan_def)
  next
    case False
    note recs = recommended_kinds [OF False, of ps ws "Some capacity", folded recs_def, unfolded problems]
    show ?thesis
    proof (cases recs)
      case None
      with recs(1) have "?problems = []" by simp
      then have "\<not> placement_problem ps ws capacity k" for k
        using set_all_kinds by (simp add: filter_empty_conv)
      with None show ?thesis by (simp add: recs_def [symmetric] summarizePlacementActionPlan_def)
    next
      case (Some rs)
      let ?items = "map2 action_item_of rs [0..<length rs]"
      have rs: "rs \<noteq> []" "map rec_kind rs = ?problems" using recs Some by auto
      then have kinds: "map item_kind ?items = ?problems" by (simp only: plan_kinds)
      have phase: "item_phase i = placementActionPhase (item_kind i)"
        "item_priority i = HighPriority \<longleftrightarrow> item_phase i = StabilizePhase" if "i \<in> set ?items" for i
        using plan_item_fields [OF that] recs(2) Some by auto
      have "sorted_wrt (\<lambda>a b. phase_rank a \<le> phase_rank b) (map item_phase ?items)"
        by (simp only: plan_phases rs(2) sorted_wrt_map sorted_wrt_filter [OF kinds_in_phases])
      then have "sorted_wrt (\<lambda>a b. phase_rank (item_phase a) \<le> phase_rank (item_phase b)) ?items"
        by (simp only: sorted_wrt_map)
      moreover have "distinct (map item_id ?items)"
        by (rule plan_ids_distinct) (simp only: rs(2) distinct_filter distinct_kinds)
      moreover have "?items \<noteq> []" using rs(1) by simp
      moreover have "count_if (\<lambda>i. item_priority i = HighPriority) ?items = count_if (\<lambda>i. item_phase i = StabilizePhase) ?items"
        by (rule count_if_cong) (rule phase(2))
      ultimately show ?thesis
        unfolding recs_def [symmetric] Some summarizePlacementActionPlan_def option.case if_not_P [OF rs(1)] Let_def
          action_plan.select_convs
        by (intro conjI kinds refl)
    qed
  qed
qed

text \<open>
  The sample of \<open>assign_unassigned\<close> does not leave out evicted placements, which the count beside it does: here
  one workspace is without an owner and the recommendation names two.
\<close>

lemma assign_sample_names_evicted:
  defines "ps \<equiv> [example_placement ''a'' None None PEvicted, example_placement ''b'' None None PUnassigned]"
  shows "map_option (map (\<lambda>r. (rec_workspaceCount r, rec_sampleWorkspaceIds r)))
     (summarizePlacementRecommendations (summarizeWorkspacePlacements ps []) (summarizePlacementPolicy ps [] 2) ps [] (Some 2)) =
   Some [(1, Some [''a'', ''b''])]"
  unfolding ps_def by code_simp

end
