(* ===== verification/Placement_Operations.thy ===== *)
theory Placement_Operations
  imports Placement_Policy
begin

text \<open>
  The operations on workspace ownership the controller carries out
  (\<open>buildPlacementExecutionOperations\<close> of \<open>apps/controller/src/controller-placement.ts\<close>): the
  choice of a target worker, the three loops that schedule operations, and what the resulting list promises.
\<close>

subsection \<open>Operations\<close>

datatype placement_action = ReleaseOwnership | SetPreferredWorker

datatype operation_reason =
    ROwnerMissing | ROwnerLate | RWorkerDraining | RUnassignedWorkspace | ROwnerAffinitySplit
  | RWorkspaceCapacityExceeded

datatype target_reason =
    AffinityReason affinity_reason
  | ResourcePressure | ResourceAvailable | ResourceUnknown
  | WorkspaceCapacityPressure | WorkspaceCapacityAvailable
  | EmptySandbox | LowerWorkspaceLoad

record placement_operation =
  op_id :: string
  op_kind :: placement_kind
  op_workspaceId :: string
  op_ownerWorkerId :: "string option"
  op_state :: placement_state
  op_action :: placement_action
  op_reason :: operation_reason
  op_targetWorkerId :: "string option"
  op_targetWorkerReasons :: "target_reason list option"

record operation_config =
  oc_maxWorkspacesPerSandbox :: "int option"
  oc_resourceCpuPressureThreshold :: "rat option"
  oc_resourceMemoryPressureThreshold :: "rat option"
  oc_resourceDiskPressureThreshold :: "rat option"

definition resourceThresholds :: "operation_config \<Rightarrow> resource_thresholds" where
  "resourceThresholds config =
     \<lparr>rt_cpu = max (1 / 100) (or_else (oc_resourceCpuPressureThreshold config) (4 / 5)),
      rt_memory = max (1 / 100) (or_else (oc_resourceMemoryPressureThreshold config) (4 / 5)),
      rt_disk = max (1 / 100) (or_else (oc_resourceDiskPressureThreshold config) (17 / 20))\<rparr>"

definition workspaceCapacity :: "operation_config \<Rightarrow> int" where
  "workspaceCapacity config = max 1 (or_else (oc_maxWorkspacesPerSandbox config) 1)"

subsection \<open>The target worker\<close>

text \<open>What the closure \<open>selectTargetWorker\<close> reads besides its arguments; the scheduled loads change as operations are added.\<close>

record target_context =
  tx_activeWorkers :: "worker_entry list"
  tx_nonEvictedPlacements :: "placement list"
  tx_workerRefLoads :: "(string, int) jmap"
  tx_workspaceCapacity :: int
  tx_resourceThresholds :: resource_thresholds

record target_candidate =
  tc_candidate :: affinity_candidate
  tc_placementReference :: string
  tc_placementLoad :: int
  tc_projectedLoad :: int
  tc_capacityPressure :: int
  tc_resource :: resource_pressure
  tc_warmReserveRank :: int
  tc_loadAdjustedScore :: int

record target_worker =
  tw_workerId :: string
  tw_placementReference :: string
  tw_reasons :: "target_reason list"

definition candidateWorkers :: "worker_entry list \<Rightarrow> string list \<Rightarrow> worker_entry list" where
  "candidateWorkers activeWorkers excluded =
     filter (\<lambda>w. we_health w = HHealthy \<and> we_state w \<noteq> WStopping \<and>
        we_workerId w \<notin> set excluded \<and> workerPlacementReference w \<notin> set excluded) activeWorkers"

definition workerOwnerAffinities :: "worker_entry list \<Rightarrow> placement list \<Rightarrow> placement \<Rightarrow> string option \<Rightarrow> (string \<times> int) list" where
  "workerOwnerAffinities candidates nonEvictedPlacements p ownerId =
     (if ownerId = None then []
      else filter (\<lambda>(w, n). n > 0)
        (map (\<lambda>w. (we_workerId w, count_if (\<lambda>item. placementOwnerAffinityId item = ownerId \<and>
             pe_workspaceId item \<noteq> pe_workspaceId p \<and> pe_ownerWorkerId item = Some (workerPlacementReference w) \<and>
             pe_state item \<noteq> PUnassigned) nonEvictedPlacements)) candidates))"

definition active_worker_of :: "worker_entry \<Rightarrow> active_worker" where
  "active_worker_of w =
     \<lparr>aw_workerId = we_workerId w, aw_processKind = we_processKind w, aw_state = we_state w, aw_health = we_health w,
      aw_currentSessionId = keep_truthy (we_currentSessionId w),
      aw_currentWorkspaceId = keep_truthy (we_currentWorkspaceId w)\<rparr>"

definition affinity_slot_of :: "worker_entry \<Rightarrow> affinity_slot" where
  "affinity_slot_of w =
     \<lparr>as_workerId = we_workerId w, as_state = we_state w,
      as_currentSessionId = keep_truthy (we_currentSessionId w),
      as_currentWorkspaceId = keep_truthy (we_currentWorkspaceId w)\<rparr>"

definition target_affinity_input :: "worker_entry list \<Rightarrow> placement list \<Rightarrow> placement \<Rightarrow> affinity_input" where
  "target_affinity_input candidates nonEvictedPlacements p =
     \<lparr>ai_activeWorkers = map active_worker_of candidates,
      ai_slots = map affinity_slot_of candidates,
      ai_sessionId = None,
      ai_workspaceId = Some (pe_workspaceId p),
      ai_ownerId = placementOwnerAffinityId p,
      ai_workerOwnerAffinities = workerOwnerAffinities candidates nonEvictedPlacements p (placementOwnerAffinityId p),
      ai_ownerWorkerId = None,
      ai_preferredWorkerId = None\<rparr>"

definition target_candidate_of ::
    "target_context \<Rightarrow> (string, int) jmap \<Rightarrow> bool \<Rightarrow> bool \<Rightarrow> worker_entry list \<Rightarrow> affinity_candidate \<Rightarrow> target_candidate" where
  "target_candidate_of ctx scheduledWorkerLoads loadAware reserveEmptyForOwnerless candidates candidate =
     (let worker = find (\<lambda>item. we_workerId item = ac_workerId candidate) candidates;
          placementReference = (case worker of Some w \<Rightarrow> workerPlacementReference w | None \<Rightarrow> ac_workerId candidate);
          placementLoad = load_of (tx_workerRefLoads ctx) placementReference + load_of scheduledWorkerLoads placementReference;
          projectedLoad = placementLoad + 1;
          capacityPressure = max 0 (projectedLoad - tx_workspaceCapacity ctx);
          resource = (case worker of
              Some w \<Rightarrow> workerResourcePressure w (tx_resourceThresholds ctx)
            | None \<Rightarrow> \<lparr>rp_pressure = 0, rp_pressureExceeded = False, rp_hasMetrics = False\<rparr>);
          loadAdjustedScore =
            (if loadAware then ac_score candidate - placementLoad * 35 - capacityPressure * 160 else ac_score candidate);
          warmReserveRank =
            (if \<not> reserveEmptyForOwnerless then 0
             else if placementLoad > 0 \<and> capacityPressure = 0 \<and> \<not> rp_pressureExceeded resource then 2
             else if placementLoad = 0 then 1 else 0)
      in \<lparr>tc_candidate = candidate,
          tc_placementReference = placementReference,
          tc_placementLoad = placementLoad,
          tc_projectedLoad = projectedLoad,
          tc_capacityPressure = capacityPressure,
          tc_resource = resource,
          tc_warmReserveRank = warmReserveRank,
          tc_loadAdjustedScore = loadAdjustedScore\<rparr>)"

text \<open>The sign of the difference of two numbers that need not be integers.\<close>

definition rat_diff :: "rat \<Rightarrow> rat \<Rightarrow> int" where
  "rat_diff a b = (if a < b then -1 else if b < a then 1 else 0)"

definition compareTargetCandidates :: "bool \<Rightarrow> target_candidate \<Rightarrow> target_candidate \<Rightarrow> int" where
  "compareTargetCandidates loadAware left right =
     js_or (tc_warmReserveRank right - tc_warmReserveRank left)
    (js_or (if loadAware then rat_diff (rp_pressure (tc_resource left)) (rp_pressure (tc_resource right)) else 0)
    (js_or (tc_loadAdjustedScore right - tc_loadAdjustedScore left)
    (js_or (if loadAware then tc_capacityPressure left - tc_capacityPressure right else 0)
    (js_or (if loadAware then tc_projectedLoad left - tc_projectedLoad right else 0)
    (js_or (ac_matchingOwnerWorkspaces (tc_candidate right) - ac_matchingOwnerWorkspaces (tc_candidate left))
    (js_or (or_else (ac_idleSlots (tc_candidate right)) 0 - or_else (ac_idleSlots (tc_candidate left)) 0)
       (localeCompare (ac_workerId (tc_candidate left)) (ac_workerId (tc_candidate right)))))))))"

definition target_reasons :: "target_candidate \<Rightarrow> target_reason list" where
  "target_reasons c =
     map AffinityReason (ac_reasons (tc_candidate c)) @
     [if rp_hasMetrics (tc_resource c)
      then if rp_pressureExceeded (tc_resource c) then ResourcePressure else ResourceAvailable else ResourceUnknown,
      if tc_capacityPressure c > 0 then WorkspaceCapacityPressure else WorkspaceCapacityAvailable,
      if tc_placementLoad c = 0 then EmptySandbox else LowerWorkspaceLoad]"

definition selectTargetWorker ::
    "target_context \<Rightarrow> (string, int) jmap \<Rightarrow> placement \<Rightarrow> string list \<Rightarrow> bool option \<Rightarrow> target_worker option" where
  "selectTargetWorker ctx scheduledWorkerLoads p excludeWorkerIds loadAwareOption =
     (let candidates = candidateWorkers (tx_activeWorkers ctx) excludeWorkerIds;
          ownerId = placementOwnerAffinityId p;
          loadAware = or_else loadAwareOption (ownerId = None);
          reserveEmptyForOwnerless = (loadAware \<and> ownerId = None);
          affinity = buildRedisWorkerAffinitySummary (target_affinity_input candidates (tx_nonEvictedPlacements ctx) p);
          sorted = js_sort (compareTargetCandidates loadAware)
            (map (target_candidate_of ctx scheduledWorkerLoads loadAware reserveEmptyForOwnerless candidates)
              (filter (\<lambda>c. ac_health c = HHealthy \<and> ac_state c \<noteq> WStopping) (af_candidates affinity)))
      in if candidates = [] then None
         else case sorted of
           [] \<Rightarrow> None
         | preferredCandidate # _ \<Rightarrow>
             (case find (\<lambda>w. we_workerId w = ac_workerId (tc_candidate preferredCandidate)) candidates of
                None \<Rightarrow> None
              | Some selectedWorker \<Rightarrow>
                  Some \<lparr>tw_workerId = ac_workerId (tc_candidate preferredCandidate),
                        tw_placementReference = workerPlacementReference selectedWorker,
                        tw_reasons = target_reasons preferredCandidate\<rparr>))"

subsection \<open>Scheduling\<close>

record schedule_state =
  ss_operations :: "placement_operation list"
  ss_scheduledWorkspaceIds :: "string list"
  ss_scheduledWorkerLoads :: "(string, int) jmap"

definition add_load :: "target_worker option \<Rightarrow> (string, int) jmap \<Rightarrow> (string, int) jmap" where
  "add_load target loads =
     (case target of
        None \<Rightarrow> loads
      | Some t \<Rightarrow> AList.update (tw_placementReference t) (load_of loads (tw_placementReference t) + 1) loads)"

definition schedule_op :: "placement_operation \<Rightarrow> target_worker option \<Rightarrow> schedule_state \<Rightarrow> schedule_state" where
  "schedule_op op target st =
     st\<lparr>ss_operations := ss_operations st @ [op],
        ss_scheduledWorkspaceIds := jset_add (op_workspaceId op) (ss_scheduledWorkspaceIds st),
        ss_scheduledWorkerLoads := add_load target (ss_scheduledWorkerLoads st)\<rparr>"

definition operation_id :: "placement_kind \<Rightarrow> placement \<Rightarrow> string" where
  "operation_id k p = kind_name k @ '':'' @ pe_workspaceId p"

definition prefer_operation ::
    "placement_kind \<Rightarrow> operation_reason \<Rightarrow> string option \<Rightarrow> placement \<Rightarrow> target_worker \<Rightarrow> placement_operation" where
  "prefer_operation k reason ownerWorkerId p target =
     \<lparr>op_id = operation_id k p, op_kind = k, op_workspaceId = pe_workspaceId p, op_ownerWorkerId = ownerWorkerId,
      op_state = pe_state p, op_action = SetPreferredWorker, op_reason = reason,
      op_targetWorkerId = Some (tw_placementReference target), op_targetWorkerReasons = Some (tw_reasons target)\<rparr>"

definition release_operation ::
    "placement_kind \<Rightarrow> operation_reason \<Rightarrow> placement \<Rightarrow> target_worker option \<Rightarrow> placement_operation" where
  "release_operation k reason p target =
     \<lparr>op_id = operation_id k p, op_kind = k, op_workspaceId = pe_workspaceId p, op_ownerWorkerId = pe_ownerWorkerId p,
      op_state = pe_state p, op_action = ReleaseOwnership, op_reason = reason,
      op_targetWorkerId = map_option tw_workerId target, op_targetWorkerReasons = map_option tw_reasons target\<rparr>"

text \<open>\<open>target.placementReference !== placement.preferredWorkerId && target.workerId !== placement.preferredWorkerId\<close>.\<close>

definition not_preferred_yet :: "target_worker \<Rightarrow> placement \<Rightarrow> bool" where
  "not_preferred_yet target p \<longleftrightarrow>
     pe_preferredWorkerId p \<noteq> Some (tw_placementReference target) \<and> pe_preferredWorkerId p \<noteq> Some (tw_workerId target)"

text \<open>The operation for a placement that has an owner.\<close>

definition owned_operation ::
    "worker_entry list \<Rightarrow> placement \<Rightarrow> target_worker option \<Rightarrow> placement_operation option" where
  "owned_operation activeWorkers p target =
     (let workerHealth = map_of (worker_map we_health activeWorkers) (owner_of p);
          workerState = map_of (worker_map we_state activeWorkers) (owner_of p)
      in if workerHealth = None then Some (release_operation RecoverMissingOwner ROwnerMissing p target)
         else if pe_state p = PDraining \<or> workerState = Some WStopping
         then Some (release_operation FinishDrainingOwner RWorkerDraining p target)
         else if workerHealth = Some HLate then
           if pe_state p = PActive then
             (case target of
                Some t \<Rightarrow> if not_preferred_yet t p
                  then Some (prefer_operation ReassignLateOwner ROwnerLate (pe_ownerWorkerId p) p t) else None
              | None \<Rightarrow> None)
           else Some (release_operation ReassignLateOwner ROwnerLate p target)
         else None)"

definition stabilize_step :: "target_context \<Rightarrow> schedule_state \<Rightarrow> placement \<Rightarrow> schedule_state" where
  "stabilize_step ctx st p =
     (if pe_state p = PEvicted then st
      else if \<not> owned p \<or> pe_state p = PUnassigned then
        (case selectTargetWorker ctx (ss_scheduledWorkerLoads st) p [] None of
           Some target \<Rightarrow>
             if not_preferred_yet target p
             then schedule_op (prefer_operation AssignUnassigned RUnassignedWorkspace None p target) (Some target) st
             else st
         | None \<Rightarrow> st)
      else
        let target = selectTargetWorker ctx (ss_scheduledWorkerLoads st) p [owner_of p] None
        in case owned_operation (tx_activeWorkers ctx) p target of
             None \<Rightarrow> st
           | Some operation \<Rightarrow> schedule_op operation target st)"

definition spans_workers :: "placement list \<Rightarrow> placement \<Rightarrow> bool" where
  "spans_workers nonEvictedPlacements p =
     (case placementOwnerAffinityId p of
        None \<Rightarrow> False
      | Some ownerId \<Rightarrow>
          1 < length (or_else (map_of (js_group owner_affinity
                (filter (\<lambda>q. owned q \<and> pe_state q \<noteq> PUnassigned) nonEvictedPlacements)) ownerId) []))"

definition consolidate_step :: "target_context \<Rightarrow> schedule_state \<Rightarrow> placement \<Rightarrow> schedule_state" where
  "consolidate_step ctx st p =
     (if pe_workspaceId p \<in> set (ss_scheduledWorkspaceIds st) \<or> \<not> spans_workers (tx_nonEvictedPlacements ctx) p \<or>
         (pe_state p \<noteq> PIdle \<and> pe_state p \<noteq> PUnassigned)
      then st
      else case selectTargetWorker ctx (ss_scheduledWorkerLoads st) p [] None of
        None \<Rightarrow> st
      | Some target \<Rightarrow>
          if pe_ownerWorkerId p = Some (tw_placementReference target) \<or> \<not> not_preferred_yet target p then st
          else schedule_op (prefer_operation ConsolidateOwnerAffinity ROwnerAffinitySplit
                 (keep_truthy (pe_ownerWorkerId p)) p target) (Some target) st)"

text \<open>The last loop does not mark the workspace as scheduled.\<close>

definition rebalance_step :: "target_context \<Rightarrow> string list \<Rightarrow> schedule_state \<Rightarrow> placement \<Rightarrow> schedule_state" where
  "rebalance_step ctx heavy st p =
     (if pe_workspaceId p \<in> set (ss_scheduledWorkspaceIds st) \<or> \<not> owned p \<or> owner_of p \<notin> set heavy \<or>
         pe_state p \<noteq> PIdle
      then st
      else case selectTargetWorker ctx (ss_scheduledWorkerLoads st) p (heavy @ [owner_of p]) (Some True) of
        None \<Rightarrow> st
      | Some target \<Rightarrow>
          if \<not> not_preferred_yet target p then st
          else st\<lparr>ss_operations := ss_operations st @
                   [prefer_operation RebalanceWorkspaceCapacity RWorkspaceCapacityExceeded (pe_ownerWorkerId p) p target],
                  ss_scheduledWorkerLoads := add_load (Some target) (ss_scheduledWorkerLoads st)\<rparr>)"

definition operations_context :: "placement list \<Rightarrow> worker_entry list \<Rightarrow> operation_config \<Rightarrow> target_context" where
  "operations_context placements activeWorkers config =
     \<lparr>tx_activeWorkers = activeWorkers,
      tx_nonEvictedPlacements = trackedPlacements placements,
      tx_workerRefLoads = workerRefLoads (trackedPlacements placements),
      tx_workspaceCapacity = workspaceCapacity config,
      tx_resourceThresholds = resourceThresholds config\<rparr>"

definition scheduled_operations :: "placement list \<Rightarrow> worker_entry list \<Rightarrow> operation_config \<Rightarrow> placement_operation list" where
  "scheduled_operations placements activeWorkers config =
     (let ctx = operations_context placements activeWorkers config;
          heavy = overloadedWorkers placements (workspaceCapacity config);
          st0 = \<lparr>ss_operations = [], ss_scheduledWorkspaceIds = [], ss_scheduledWorkerLoads = []\<rparr>;
          st1 = foldl (stabilize_step ctx) st0 placements;
          st2 = foldl (consolidate_step ctx) st1 (trackedPlacements placements);
          st3 = foldl (rebalance_step ctx heavy) st2 (trackedPlacements placements)
      in ss_operations st3)"

definition buildPlacementExecutionOperations ::
    "placement list \<Rightarrow> worker_entry list \<Rightarrow> operation_config \<Rightarrow> placement_operation list" where
  "buildPlacementExecutionOperations placements activeWorkers config =
     (if placements = [] then []
      else js_sort (\<lambda>left right. localeCompare (op_id left) (op_id right))
             (scheduled_operations placements activeWorkers config))"

subsection \<open>The target\<close>

lemma comparator_const: "comparator (\<lambda>x y. 0)"
  by unfold_locales auto

lemma comparator_if: "comparator c \<Longrightarrow> comparator (\<lambda>x y. if b then c x y else 0)"
  by (cases b) (simp_all add: comparator_const)

lemma comparator_rat: "comparator (\<lambda>x y. rat_diff (f x) (f y))"
  by unfold_locales (auto simp: rat_diff_def split: if_splits)

interpretation target_order: comparator "compareTargetCandidates loadAware" for loadAware
  unfolding compareTargetCandidates_def
  by (intro comparator_or comparator_diff_desc [of tc_warmReserveRank] comparator_if comparator_diff_desc [of tc_loadAdjustedScore]
      comparator_rat [of "\<lambda>c. rp_pressure (tc_resource c)"] comparator_diff [of tc_capacityPressure]
      comparator_diff [of tc_projectedLoad] comparator_diff_desc [of "\<lambda>c. ac_matchingOwnerWorkspaces (tc_candidate c)"]
      comparator_diff_desc [of "\<lambda>c. or_else (ac_idleSlots (tc_candidate c)) 0"]
      comparator_on [OF lc.comparator_axioms, of "\<lambda>c. ac_workerId (tc_candidate c)"])

lemma affinity_candidates:
  "set (af_candidates (buildRedisWorkerAffinitySummary input)) = worker_candidate input ` set (ai_activeWorkers input)"
  by (simp add: buildRedisWorkerAffinitySummary_def Let_def)

lemma active_worker_of_sel [simp]:
  "aw_workerId (active_worker_of w) = we_workerId w" "aw_health (active_worker_of w) = we_health w"
  "aw_state (active_worker_of w) = we_state w"
  by (simp_all add: active_worker_of_def)

lemma candidateWorkers_iff:
  "w \<in> set (candidateWorkers ws excluded) \<longleftrightarrow> w \<in> set ws \<and> we_health w = HHealthy \<and> we_state w \<noteq> WStopping \<and>
     we_workerId w \<notin> set excluded \<and> workerPlacementReference w \<notin> set excluded"
  by (auto simp: candidateWorkers_def)

text \<open>The candidates that are sorted, as a set.\<close>

definition targets_of ::
    "target_context \<Rightarrow> (string, int) jmap \<Rightarrow> placement \<Rightarrow> string list \<Rightarrow> bool \<Rightarrow> target_candidate list" where
  "targets_of ctx scheduled p excluded loadAware =
     (let candidates = candidateWorkers (tx_activeWorkers ctx) excluded
      in map (target_candidate_of ctx scheduled loadAware (loadAware \<and> placementOwnerAffinityId p = None) candidates)
           (filter (\<lambda>c. ac_health c = HHealthy \<and> ac_state c \<noteq> WStopping)
             (af_candidates (buildRedisWorkerAffinitySummary
               (target_affinity_input candidates (tx_nonEvictedPlacements ctx) p)))))"

lemma tc_candidate_of [simp]: "tc_candidate (target_candidate_of ctx scheduled la res cs c) = c"
  by (simp add: target_candidate_of_def Let_def)

lemma targets_of_workers:
  "tc_candidate ` set (targets_of ctx scheduled p excluded la) =
   (\<lambda>w. worker_candidate (target_affinity_input (candidateWorkers (tx_activeWorkers ctx) excluded)
      (tx_nonEvictedPlacements ctx) p) (active_worker_of w)) ` set (candidateWorkers (tx_activeWorkers ctx) excluded)"
  by (auto simp: targets_of_def Let_def affinity_candidates target_affinity_input_def image_image image_iff candidateWorkers_iff)

lemma target_has_worker:
  assumes "c \<in> set (targets_of ctx scheduled p excluded la)"
  shows "\<exists>w. find (\<lambda>w. we_workerId w = ac_workerId (tc_candidate c)) (candidateWorkers (tx_activeWorkers ctx) excluded) = Some w"
proof -
  from assms have "tc_candidate c \<in> tc_candidate ` set (targets_of ctx scheduled p excluded la)" by (rule imageI)
  then obtain w where "w \<in> set (candidateWorkers (tx_activeWorkers ctx) excluded)" "ac_workerId (tc_candidate c) = we_workerId w"
    unfolding targets_of_workers by auto
  then show ?thesis by (metis (mono_tags, lifting) find_None_iff not_Some_eq)
qed

lemma selectTargetWorker_eq:
  "selectTargetWorker ctx scheduled p excluded opt =
   (let la = or_else opt (placementOwnerAffinityId p = None);
        candidates = candidateWorkers (tx_activeWorkers ctx) excluded
    in case js_sort (compareTargetCandidates la) (targets_of ctx scheduled p excluded la) of
         [] \<Rightarrow> None
       | c # _ \<Rightarrow>
           map_option (\<lambda>w. \<lparr>tw_workerId = ac_workerId (tc_candidate c), tw_placementReference = workerPlacementReference w,
                            tw_reasons = target_reasons c\<rparr>)
             (find (\<lambda>w. we_workerId w = ac_workerId (tc_candidate c)) candidates))"
proof -
  have "targets_of ctx scheduled p excluded la = []" if "candidateWorkers (tx_activeWorkers ctx) excluded = []" for la
    using targets_of_workers [of ctx scheduled p excluded la] that by simp
  then show ?thesis
    by (auto simp: selectTargetWorker_def targets_of_def Let_def split: list.split option.split)
qed

lemma selectTargetWorker_Some:
  assumes "selectTargetWorker ctx scheduled p excluded opt = Some t"
  shows "\<exists>w\<in>set (candidateWorkers (tx_activeWorkers ctx) excluded).
    tw_workerId t = we_workerId w \<and> tw_placementReference t = workerPlacementReference w"
  using assms by (auto simp: selectTargetWorker_eq Let_def find_Some_iff split: list.splits) (metis nth_mem)

text \<open>A target is found exactly when some candidate is left.\<close>

lemma selectTargetWorker_None:
  "selectTargetWorker ctx scheduled p excluded opt = None \<longleftrightarrow> candidateWorkers (tx_activeWorkers ctx) excluded = []"
proof
  let ?la = "or_else opt (placementOwnerAffinityId p = None)"
  assume none: "selectTargetWorker ctx scheduled p excluded opt = None"
  have "targets_of ctx scheduled p excluded ?la = []"
  proof (rule ccontr)
    assume "targets_of ctx scheduled p excluded ?la \<noteq> []"
    then obtain c cs where c: "js_sort (compareTargetCandidates ?la) (targets_of ctx scheduled p excluded ?la) = c # cs"
      by (metis js_sort_Nil_iff list.exhaust)
    then have "c \<in> set (targets_of ctx scheduled p excluded ?la)" by (metis list.set_intros(1) set_js_sort)
    from target_has_worker [OF this] none c show False by (auto simp: selectTargetWorker_eq Let_def)
  qed
  then show "candidateWorkers (tx_activeWorkers ctx) excluded = []"
    using targets_of_workers [of ctx scheduled p excluded ?la] by simp
qed (simp add: selectTargetWorker_def Let_def)
subsection \<open>What the operations promise\<close>

text \<open>A placement whose owner is to be released: the owner is missing, draining or stopping, or late while the workspace is not active.\<close>

definition lost_owner :: "worker_entry list \<Rightarrow> placement \<Rightarrow> bool" where
  "lost_owner ws p \<longleftrightarrow> pe_state p \<noteq> PEvicted \<and> \<not> without_owner p \<and>
     (owner_health ws p = None \<or> pe_state p = PDraining \<or>
      map_of (worker_map we_state ws) (owner_of p) = Some WStopping \<or>
      (owner_health ws p = Some HLate \<and> pe_state p \<noteq> PActive))"

definition good_target :: "worker_entry list \<Rightarrow> string option \<Rightarrow> string \<Rightarrow> bool" where
  "good_target ws owner t \<longleftrightarrow>
     (\<exists>w\<in>set ws. we_health w = HHealthy \<and> we_state w \<noteq> WStopping \<and>
        (t = workerPlacementReference w \<or> t = we_workerId w) \<and> owner \<noteq> Some (workerPlacementReference w))"

definition no_other_worker :: "worker_entry list \<Rightarrow> string option \<Rightarrow> bool" where
  "no_other_worker ws owner \<longleftrightarrow>
     (\<forall>w\<in>set ws. we_health w = HHealthy \<and> we_state w \<noteq> WStopping \<longrightarrow>
        owner = Some (workerPlacementReference w) \<or> owner = Some (we_workerId w))"

definition justified :: "worker_entry list \<Rightarrow> placement \<Rightarrow> placement_operation \<Rightarrow> bool" where
  "justified ws p op \<longleftrightarrow>
     pe_state p \<noteq> PEvicted \<and> op_workspaceId op = pe_workspaceId p \<and> op_state op = pe_state p \<and>
     (op_action op = ReleaseOwnership \<longrightarrow> lost_owner ws p \<and> op_ownerWorkerId op = pe_ownerWorkerId p) \<and>
     (op_action op = SetPreferredWorker \<longrightarrow>
        op_targetWorkerId op \<noteq> None \<and> op_targetWorkerId op \<noteq> pe_preferredWorkerId p) \<and>
     (\<forall>t. op_targetWorkerId op = Some t \<longrightarrow> good_target ws (op_ownerWorkerId op) t) \<and>
     (op_targetWorkerId op = None \<longrightarrow> no_other_worker ws (op_ownerWorkerId op))"

lemma good_targetI:
  assumes "selectTargetWorker ctx scheduled p excluded opt = Some t"
    and "\<And>o'. owner = Some o' \<Longrightarrow> o' \<in> set excluded \<or> o' \<noteq> tw_placementReference t"
  shows "good_target (tx_activeWorkers ctx) owner (tw_placementReference t)"
    "good_target (tx_activeWorkers ctx) owner (tw_workerId t)"
  using selectTargetWorker_Some [OF assms(1)] assms(2)
  by (fastforce simp: good_target_def candidateWorkers_iff)+

lemma prefer_operation_sel [simp]:
  "op_workspaceId (prefer_operation k r own p t) = pe_workspaceId p" "op_state (prefer_operation k r own p t) = pe_state p"
  "op_action (prefer_operation k r own p t) = SetPreferredWorker"
  "op_targetWorkerId (prefer_operation k r own p t) = Some (tw_placementReference t)"
  "op_ownerWorkerId (prefer_operation k r own p t) = own"
  by (simp_all add: prefer_operation_def)

lemma release_operation_sel [simp]:
  "op_workspaceId (release_operation k r p t) = pe_workspaceId p" "op_state (release_operation k r p t) = pe_state p"
  "op_action (release_operation k r p t) = ReleaseOwnership"
  "op_targetWorkerId (release_operation k r p t) = map_option tw_workerId t"
  "op_ownerWorkerId (release_operation k r p t) = pe_ownerWorkerId p"
  by (simp_all add: release_operation_def)

lemma justified_prefer:
  assumes "selectTargetWorker ctx scheduled p excluded opt = Some t" "not_preferred_yet t p" "pe_state p \<noteq> PEvicted"
    and "\<And>o'. owner = Some o' \<Longrightarrow> o' \<in> set excluded \<or> o' \<noteq> tw_placementReference t"
  shows "justified (tx_activeWorkers ctx) p (prefer_operation k r owner p t)"
  using assms(2,3) good_targetI(1) [OF assms(1,4)] by (auto simp: justified_def not_preferred_yet_def)

lemma owned_owner: "owned p \<Longrightarrow> pe_ownerWorkerId p = Some (owner_of p)"
  by (cases "pe_ownerWorkerId p") (simp_all add: owned_def owner_of_def)

text \<open>A release is made for a lost owner and for no other placement.\<close>

lemma owned_operation_cases:
  assumes "owned p" "pe_state p \<noteq> PEvicted" "pe_state p \<noteq> PUnassigned"
  shows "lost_owner ws p \<longleftrightarrow> (\<exists>k r. owned_operation ws p target = Some (release_operation k r p target))"
    "owned_operation ws p target = Some op \<Longrightarrow> \<not> lost_owner ws p \<Longrightarrow>
       \<exists>t. target = Some t \<and> not_preferred_yet t p \<and>
         op = prefer_operation ReassignLateOwner ROwnerLate (pe_ownerWorkerId p) p t"
  using assms
  by (auto simp: owned_operation_def lost_owner_def without_owner_def owner_health_def Let_def
      prefer_operation_def release_operation_def split: option.splits if_splits)

lemma owned_operation_release:
  "lost_owner ws p \<Longrightarrow> \<exists>k r. owned_operation ws p target = Some (release_operation k r p target)"
  using owned_operation_cases(1) [of p ws target] by (auto simp: lost_owner_def without_owner_def)

text \<open>Each step of a loop leaves the operations or appends one that is justified.\<close>

definition appends :: "worker_entry list \<Rightarrow> placement \<Rightarrow> schedule_state \<Rightarrow> schedule_state \<Rightarrow> bool" where
  "appends ws p st st' \<longleftrightarrow>
     ss_operations st' = ss_operations st \<and> ss_scheduledWorkspaceIds st' = ss_scheduledWorkspaceIds st \<or>
     (\<exists>op. ss_operations st' = ss_operations st @ [op] \<and> justified ws p op \<and>
        ss_scheduledWorkspaceIds st' = jset_add (pe_workspaceId p) (ss_scheduledWorkspaceIds st))"

lemma appends_refl [simp]: "appends ws p st st"
  by (simp add: appends_def)

lemma appends_schedule:
  "justified ws p op \<Longrightarrow> appends ws p st (schedule_op op t st)"
  by (auto simp: appends_def schedule_op_def justified_def)

lemma stabilize_step_appends: "appends (tx_activeWorkers ctx) p st (stabilize_step ctx st p)"
proof (cases "pe_state p = PEvicted \<or> \<not> owned p \<or> pe_state p = PUnassigned")
  case True
  then show ?thesis
    by (auto simp: stabilize_step_def split: option.split intro!: appends_schedule justified_prefer)
next
  case False
  let ?t = "selectTargetWorker ctx (ss_scheduledWorkerLoads st) p [owner_of p] None"
  from False have p: "owned p" "pe_state p \<noteq> PEvicted" "pe_state p \<noteq> PUnassigned" by auto
  have good: "good_target (tx_activeWorkers ctx) (pe_ownerWorkerId p) (tw_workerId t)"
    "not_preferred_yet t p \<Longrightarrow>
       justified (tx_activeWorkers ctx) p (prefer_operation ReassignLateOwner ROwnerLate (pe_ownerWorkerId p) p t)"
    if "?t = Some t" for t
    using good_targetI(2) [OF that, of "pe_ownerWorkerId p"] justified_prefer [OF that _ p(2), of "pe_ownerWorkerId p"] owned_owner [OF p(1)]
    by auto
  have none: "no_other_worker (tx_activeWorkers ctx) (pe_ownerWorkerId p)" if "?t = None"
    using that unfolding selectTargetWorker_None
    by (auto simp: no_other_worker_def candidateWorkers_def filter_empty_conv owned_owner [OF p(1)])
  have "justified (tx_activeWorkers ctx) p op" if op: "owned_operation (tx_activeWorkers ctx) p ?t = Some op" for op
  proof (cases "lost_owner (tx_activeWorkers ctx) p")
    case True
    with owned_operation_release [OF True, of ?t] op good(1) none show ?thesis
      using p(2) by (auto simp: justified_def)
  next
    case False
    with owned_operation_cases(2) [OF p op False] good(2) show ?thesis by auto
  qed
  then show ?thesis
    using False by (auto simp: stabilize_step_def Let_def split: option.split intro: appends_schedule)
qed

lemma keep_truthy_Some: "keep_truthy x = Some y \<longleftrightarrow> x = Some y \<and> y \<noteq> []"
  by (cases x) auto

lemma consolidate_step_appends:
  assumes "pe_state p \<noteq> PEvicted"
  shows "appends (tx_activeWorkers ctx) p st (consolidate_step ctx st p)"
  using assms
  by (auto simp: consolidate_step_def keep_truthy_Some split: option.split intro!: appends_schedule justified_prefer)

lemma rebalance_step_operations:
  assumes "pe_state p \<noteq> PEvicted"
  shows "ss_scheduledWorkspaceIds (rebalance_step ctx heavy st p) = ss_scheduledWorkspaceIds st"
    "ss_operations (rebalance_step ctx heavy st p) = ss_operations st \<or>
     (pe_workspaceId p \<notin> set (ss_scheduledWorkspaceIds st) \<and>
      (\<exists>op. ss_operations (rebalance_step ctx heavy st p) = ss_operations st @ [op] \<and>
         justified (tx_activeWorkers ctx) p op))"
  using assms
  by (auto simp: rebalance_step_def owned_owner split: option.split intro!: justified_prefer)
definition sound_schedule :: "worker_entry list \<Rightarrow> placement list \<Rightarrow> schedule_state \<Rightarrow> bool" where
  "sound_schedule ws ps st \<longleftrightarrow>
     (\<forall>op\<in>set (ss_operations st). \<exists>p\<in>set ps. justified ws p op) \<and>
     op_workspaceId ` set (ss_operations st) = set (ss_scheduledWorkspaceIds st) \<and>
     distinct (map op_workspaceId (ss_operations st))"

lemma justified_workspace: "justified ws p op \<Longrightarrow> op_workspaceId op = pe_workspaceId p"
  by (simp add: justified_def)

lemma appends_sound:
  assumes "appends ws p st st'" "sound_schedule ws ps st" "p \<in> set ps" "pe_workspaceId p \<notin> set (ss_scheduledWorkspaceIds st)"
  shows "sound_schedule ws ps st'"
  using assms unfolding appends_def sound_schedule_def
  by (elim disjE exE) (auto dest: justified_workspace)

lemma stabilize_loop_sound:
  fixes ctx :: target_context and ps seen :: "placement list"
  assumes "distinct (map pe_workspaceId seen)" "set seen \<subseteq> set ps"
  defines "st \<equiv> foldl (stabilize_step ctx)
     \<lparr>ss_operations = [], ss_scheduledWorkspaceIds = [], ss_scheduledWorkerLoads = []\<rparr> seen"
  shows "sound_schedule (tx_activeWorkers ctx) ps st \<and> set (ss_scheduledWorkspaceIds st) \<subseteq> pe_workspaceId ` set seen"
  using assms(1,2) unfolding st_def
proof (induction seen rule: rev_induct)
  case Nil
  then show ?case by (simp add: sound_schedule_def)
next
  case (snoc p ps')
  let ?st = "foldl (stabilize_step ctx)
     \<lparr>ss_operations = [], ss_scheduledWorkspaceIds = [], ss_scheduledWorkerLoads = []\<rparr> ps'"
  from snoc have IH: "sound_schedule (tx_activeWorkers ctx) ps ?st" "set (ss_scheduledWorkspaceIds ?st) \<subseteq> pe_workspaceId ` set ps'"
    and p: "p \<in> set ps" "pe_workspaceId p \<notin> set (ss_scheduledWorkspaceIds ?st)"
    by auto
  have step: "appends (tx_activeWorkers ctx) p ?st (stabilize_step ctx ?st p)" by (rule stabilize_step_appends)
  from appends_sound [OF step IH(1) p] step IH(2) show ?case
    by (auto simp: appends_def)
qed

lemma consolidate_loop_sound:
  assumes "sound_schedule (tx_activeWorkers ctx) ps st" "\<forall>p\<in>set todo. p \<in> set ps \<and> pe_state p \<noteq> PEvicted"
  shows "sound_schedule (tx_activeWorkers ctx) ps (foldl (consolidate_step ctx) st todo)"
  using assms
proof (induction todo arbitrary: st)
  case (Cons p todo)
  have "sound_schedule (tx_activeWorkers ctx) ps (consolidate_step ctx st p)"
  proof (cases "pe_workspaceId p \<in> set (ss_scheduledWorkspaceIds st)")
    case True
    with Cons.prems show ?thesis by (simp add: consolidate_step_def)
  next
    case False
    with Cons.prems show ?thesis by (intro appends_sound [OF consolidate_step_appends]) auto
  qed
  with Cons show ?case by simp
qed simp

lemma rebalance_loop_sound:
  fixes ctx :: target_context and ps seen :: "placement list" and heavy :: "string list" and st :: schedule_state
  assumes "sound_schedule (tx_activeWorkers ctx) ps st"
    and "distinct (map pe_workspaceId seen)" "\<forall>p\<in>set seen. p \<in> set ps \<and> pe_state p \<noteq> PEvicted"
  defines "st' \<equiv> foldl (rebalance_step ctx heavy) st seen"
  shows "(\<forall>op\<in>set (ss_operations st'). \<exists>p\<in>set ps. justified (tx_activeWorkers ctx) p op) \<and>
    distinct (map op_workspaceId (ss_operations st')) \<and> ss_scheduledWorkspaceIds st' = ss_scheduledWorkspaceIds st \<and>
    op_workspaceId ` set (ss_operations st') \<subseteq> set (ss_scheduledWorkspaceIds st) \<union> pe_workspaceId ` set seen"
  using assms(2,3) unfolding st'_def
proof (induction seen rule: rev_induct)
  case Nil
  with assms(1) show ?case by (auto simp: sound_schedule_def)
next
  case (snoc p ps')
  let ?st = "foldl (rebalance_step ctx heavy) st ps'"
  from snoc.prems have p: "pe_state p \<noteq> PEvicted" "p \<in> set ps" "pe_workspaceId p \<notin> pe_workspaceId ` set ps'" by auto
  note step = rebalance_step_operations [OF p(1), of ctx heavy ?st]
  from snoc have IH: "(\<forall>op\<in>set (ss_operations ?st). \<exists>p\<in>set ps. justified (tx_activeWorkers ctx) p op) \<and>
    distinct (map op_workspaceId (ss_operations ?st)) \<and> ss_scheduledWorkspaceIds ?st = ss_scheduledWorkspaceIds st \<and>
    op_workspaceId ` set (ss_operations ?st) \<subseteq> set (ss_scheduledWorkspaceIds st) \<union> pe_workspaceId ` set ps'"
    by simp
  from step(2) show ?case
  proof (elim disjE conjE exE)
    assume "ss_operations (rebalance_step ctx heavy ?st p) = ss_operations ?st"
    with IH step(1) show ?thesis by auto
  next
    fix op
    assume fresh: "pe_workspaceId p \<notin> set (ss_scheduledWorkspaceIds ?st)"
      and op: "ss_operations (rebalance_step ctx heavy ?st p) = ss_operations ?st @ [op]"
      "justified (tx_activeWorkers ctx) p op"
    from fresh IH p(3) justified_workspace [OF op(2)] have "op_workspaceId op \<notin> op_workspaceId ` set (ss_operations ?st)"
      by auto
    with IH op step(1) p(2) justified_workspace [OF op(2)] show ?thesis by auto
  qed
qed

lemma operations_context_sel [simp]:
  "tx_activeWorkers (operations_context ps ws config) = ws"
  "tx_nonEvictedPlacements (operations_context ps ws config) = trackedPlacements ps"
  by (simp_all add: operations_context_def)

lemma set_trackedPlacements: "set (trackedPlacements ps) = {p \<in> set ps. pe_state p \<noteq> PEvicted}"
  by (auto simp: trackedPlacements_def)

lemma scheduled_operations_sound:
  assumes "distinct (map pe_workspaceId ps)"
  shows "distinct (map op_workspaceId (scheduled_operations ps ws config))"
    "\<forall>op\<in>set (scheduled_operations ps ws config). \<exists>p\<in>set ps. justified ws p op"
proof -
  let ?ctx = "operations_context ps ws config"
  let ?st0 = "\<lparr>ss_operations = [], ss_scheduledWorkspaceIds = [], ss_scheduledWorkerLoads = []\<rparr>"
  let ?st2 = "foldl (consolidate_step ?ctx) (foldl (stabilize_step ?ctx) ?st0 ps) (trackedPlacements ps)"
  have "sound_schedule (tx_activeWorkers ?ctx) ps ?st2"
    using stabilize_loop_sound [OF assms subset_refl, of ?ctx]
    by (intro consolidate_loop_sound) (auto simp: set_trackedPlacements)
  moreover have "distinct (map pe_workspaceId (trackedPlacements ps))"
    using assms by (simp add: trackedPlacements_def distinct_map_filter)
  ultimately have "(\<forall>op\<in>set (scheduled_operations ps ws config). \<exists>p\<in>set ps. justified (tx_activeWorkers ?ctx) p op) \<and>
      distinct (map op_workspaceId (scheduled_operations ps ws config))"
    using rebalance_loop_sound [of ?ctx ps ?st2 "trackedPlacements ps" "overloadedWorkers ps (workspaceCapacity config)"]
    by (simp add: scheduled_operations_def Let_def set_trackedPlacements)
  then show "distinct (map op_workspaceId (scheduled_operations ps ws config))"
    "\<forall>op\<in>set (scheduled_operations ps ws config). \<exists>p\<in>set ps. justified ws p op"
    by simp_all
qed

lemma built_sound:
  assumes "distinct (map pe_workspaceId ps)"
  shows "distinct (map op_workspaceId (buildPlacementExecutionOperations ps ws config))"
    "\<forall>op\<in>set (buildPlacementExecutionOperations ps ws config). \<exists>p\<in>set ps. justified ws p op"
proof -
  have "distinct (map op_workspaceId (js_sort c (scheduled_operations ps ws config)))" for c
    using scheduled_operations_sound(1) [OF assms]
      mset_eq_imp_distinct_iff [of "map op_workspaceId (js_sort c (scheduled_operations ps ws config))"
        "map op_workspaceId (scheduled_operations ps ws config)"] by simp
  then show "distinct (map op_workspaceId (buildPlacementExecutionOperations ps ws config))"
    by (simp add: buildPlacementExecutionOperations_def)
  show "\<forall>op\<in>set (buildPlacementExecutionOperations ps ws config). \<exists>p\<in>set ps. justified ws p op"
    using scheduled_operations_sound(2) [OF assms] by (simp add: buildPlacementExecutionOperations_def)
qed

interpretation operation_order: comparator "\<lambda>left right. localeCompare (op_id left) (op_id right)"
  by (rule comparator_on [OF lc.comparator_axioms])

text \<open>
  C16: the controller's operations are safe. Of placements with distinct workspaces it makes at most one operation per
  workspace, in the order of their ids, and each is justified by the placement: the workspace is not evicted; an ownership is released
  only when its owner is missing, draining, stopping, or late while the workspace is not active; a preferred worker is set only to one
  that is not preferred yet; a target is a healthy worker that is not stopping and not the owner; and an operation
  goes without a target only when there is no other such worker.
\<close>

theorem operations_are_safe:
  fixes placements :: "placement list" and activeWorkers :: "worker_entry list" and config :: operation_config
  assumes "distinct (map pe_workspaceId placements)"
  defines "ops \<equiv> buildPlacementExecutionOperations placements activeWorkers config"
  shows "distinct (map op_workspaceId ops) \<and>
    sorted_wrt (\<lambda>a b. localeCompare (op_id a) (op_id b) \<le> 0) ops \<and>
    (\<forall>op\<in>set ops. \<exists>p\<in>set placements. justified activeWorkers p op)"
proof -
  have "sorted_wrt (\<lambda>a b. localeCompare (op_id a) (op_id b) \<le> 0) ops"
    by (cases "placements = []")
      (simp_all add: ops_def buildPlacementExecutionOperations_def operation_order.sorted_js_sort)
  then show ?thesis using built_sound [OF assms(1), of activeWorkers config] by (simp add: ops_def)
qed

subsection \<open>Which ownerships are released\<close>

definition releases :: "placement_operation list \<Rightarrow> string set" where
  "releases ops = op_workspaceId ` {op \<in> set ops. op_action op = ReleaseOwnership}"

lemma releases_simps [simp]:
  "releases [] = {}"
  "releases (ops @ [op]) = (if op_action op = ReleaseOwnership then insert (op_workspaceId op) (releases ops) else releases ops)"
  by (auto simp: releases_def)

lemma schedule_op_operations [simp]: "ss_operations (schedule_op op t st) = ss_operations st @ [op]"
  by (simp add: schedule_op_def)

lemma stabilize_step_releases:
  "releases (ss_operations (stabilize_step ctx st p)) =
   (if lost_owner (tx_activeWorkers ctx) p then insert (pe_workspaceId p) (releases (ss_operations st))
    else releases (ss_operations st))"
proof (cases "pe_state p = PEvicted \<or> \<not> owned p \<or> pe_state p = PUnassigned")
  case True
  then have "\<not> lost_owner (tx_activeWorkers ctx) p" by (auto simp: lost_owner_def without_owner_def)
  with True show ?thesis by (auto simp: stabilize_step_def split: option.split)
next
  case False
  then have p: "owned p" "pe_state p \<noteq> PEvicted" "pe_state p \<noteq> PUnassigned" by auto
  let ?t = "selectTargetWorker ctx (ss_scheduledWorkerLoads st) p [owner_of p] None"
  show ?thesis
  proof (cases "lost_owner (tx_activeWorkers ctx) p")
    case True
    with owned_operation_release [OF True, of ?t] False show ?thesis
      by (auto simp: stabilize_step_def Let_def)
  next
    case kept: False
    have "op_action op = SetPreferredWorker" if "owned_operation (tx_activeWorkers ctx) p ?t = Some op" for op
      using owned_operation_cases(2) [OF p that kept] by auto
    with False kept show ?thesis by (auto simp: stabilize_step_def Let_def split: option.split)
  qed
qed

lemma stabilize_loop_releases:
  "releases (ss_operations (foldl (stabilize_step ctx) st ps)) =
   releases (ss_operations st) \<union> pe_workspaceId ` {p \<in> set ps. lost_owner (tx_activeWorkers ctx) p}"
  by (induction ps arbitrary: st) (auto simp: stabilize_step_releases)

lemma consolidate_loop_releases:
  "releases (ss_operations (foldl (consolidate_step ctx) st ps)) = releases (ss_operations st)"
  by (induction ps arbitrary: st) (auto simp: consolidate_step_def split: option.split)

lemma rebalance_loop_releases:
  "releases (ss_operations (foldl (rebalance_step ctx heavy) st ps)) = releases (ss_operations st)"
  by (induction ps arbitrary: st) (auto simp: rebalance_step_def split: option.split)

lemma releases_mset: "mset ops = mset ops' \<Longrightarrow> releases ops = releases ops'"
  unfolding releases_def by (metis set_mset_mset)

lemma built_releases:
  "releases (buildPlacementExecutionOperations placements activeWorkers config) =
   pe_workspaceId ` {p \<in> set placements. lost_owner activeWorkers p}"
proof -
  have "releases (scheduled_operations placements activeWorkers config) =
      pe_workspaceId ` {p \<in> set placements. lost_owner activeWorkers p}"
    by (simp add: scheduled_operations_def Let_def rebalance_loop_releases consolidate_loop_releases stabilize_loop_releases)
  then show ?thesis
    unfolding buildPlacementExecutionOperations_def
    by (cases "placements = []") (simp_all add: releases_mset [OF mset_js_sort])
qed

text \<open>
  C17: no workspace is left with a lost owner. The ownerships released are exactly those of the workspaces whose
  owner is missing, draining or stopping, or late while the workspace is not active.
\<close>

theorem lost_owners_are_released:
  "op_workspaceId ` {op \<in> set (buildPlacementExecutionOperations placements activeWorkers config). op_action op = ReleaseOwnership} =
   pe_workspaceId ` {p \<in> set placements. lost_owner activeWorkers p}"
  using built_releases [of placements activeWorkers config] by (simp only: releases_def)

definition operation_example :: "placement list" where
  "operation_example =
     [example_placement ''a'' None (Some ''gone'') PActive, example_placement ''b'' None (Some ''r1'') PDraining,
      example_placement ''c'' None (Some ''r2'') PActive, example_placement ''d'' None None PUnassigned]"

definition default_operations :: operation_config where
  "default_operations =
     \<lparr>oc_maxWorkspacesPerSandbox = Some 2, oc_resourceCpuPressureThreshold = None,
      oc_resourceMemoryPressureThreshold = None, oc_resourceDiskPressureThreshold = None\<rparr>"

lemma operations_are_safe_witness:
  "map (\<lambda>op. (op_workspaceId op, op_action op, op_targetWorkerId op))
     (buildPlacementExecutionOperations operation_example
       [example_worker ''w1'' ''r1'' WBusy HHealthy, example_worker ''w2'' ''r2'' WIdle HHealthy] default_operations) =
     [(''d'', SetPreferredWorker, Some ''r1''), (''b'', ReleaseOwnership, Some ''w2''), (''a'', ReleaseOwnership, Some ''w2'')] \<and>
   distinct [''d'', ''b'', ''a'' :: string]"
proof -
  let ?ops = "buildPlacementExecutionOperations operation_example
       [example_worker ''w1'' ''r1'' WBusy HHealthy, example_worker ''w2'' ''r2'' WIdle HHealthy] default_operations"
  have d: "distinct (map pe_workspaceId operation_example)" by code_simp
  have v: "map (\<lambda>op. (op_workspaceId op, op_action op, op_targetWorkerId op)) ?ops =
     [(''d'', SetPreferredWorker, Some ''r1''), (''b'', ReleaseOwnership, Some ''w2''), (''a'', ReleaseOwnership, Some ''w2'')]"
    by code_simp
  then have "map fst (map (\<lambda>op. (op_workspaceId op, op_action op, op_targetWorkerId op)) ?ops) = [''d'', ''b'', ''a'']" by simp
  then have "map op_workspaceId ?ops = [''d'', ''b'', ''a'']" by (simp add: comp_def)
  with operations_are_safe [OF d, of "[example_worker ''w1'' ''r1'' WBusy HHealthy, example_worker ''w2'' ''r2'' WIdle HHealthy]"
      default_operations] v show ?thesis by metis
qed

subsection \<open>Workspaces without an owner are packed\<close>

definition current_load :: "target_context \<Rightarrow> (string, int) jmap \<Rightarrow> worker_entry \<Rightarrow> int" where
  "current_load ctx scheduled w =
     load_of (tx_workerRefLoads ctx) (workerPlacementReference w) + load_of scheduled (workerPlacementReference w)"

text \<open>A worker that holds workspaces already, has room for one more and is not under pressure.\<close>

definition packable :: "target_context \<Rightarrow> (string, int) jmap \<Rightarrow> worker_entry \<Rightarrow> bool" where
  "packable ctx scheduled w \<longleftrightarrow> 0 < current_load ctx scheduled w \<and>
     current_load ctx scheduled w < tx_workspaceCapacity ctx \<and>
     \<not> rp_pressureExceeded (workerResourcePressure w (tx_resourceThresholds ctx))"

lemma find_distinct_id:
  assumes "distinct (map we_workerId ws)" "w \<in> set ws"
  shows "find (\<lambda>v. we_workerId v = we_workerId w) ws = Some w"
  using assms by (induction ws) auto

lemma distinct_candidateWorkers: "distinct (map we_workerId ws) \<Longrightarrow> distinct (map we_workerId (candidateWorkers ws excluded))"
  by (simp add: candidateWorkers_def distinct_map_filter)

lemma warm_rank:
  assumes "find (\<lambda>item. we_workerId item = ac_workerId c) ws = Some w"
  shows "tc_warmReserveRank (target_candidate_of ctx scheduled True True ws c) =
    (if packable ctx scheduled w then 2 else if current_load ctx scheduled w = 0 then 1 else 0)"
  using assms by (auto simp: target_candidate_of_def Let_def packable_def current_load_def)

text \<open>
  Workspaces without an owner are packed. Among workers with distinct ids, the target of such a workspace is a worker
  that holds workspaces, has room and is not under pressure, whenever there is one; otherwise an empty worker, whenever
  there is one; only if every candidate is full or under pressure does it go to such a worker.
\<close>

theorem ownerless_workspaces_are_packed:
  assumes "distinct (map we_workerId (tx_activeWorkers ctx))" and "placementOwnerAffinityId p = None"
    and "selectTargetWorker ctx scheduled p excluded None = Some t"
  shows "\<exists>v\<in>set (candidateWorkers (tx_activeWorkers ctx) excluded). tw_workerId t = we_workerId v \<and>
    (\<forall>w\<in>set (candidateWorkers (tx_activeWorkers ctx) excluded).
       (packable ctx scheduled w \<longrightarrow> packable ctx scheduled v) \<and>
       (current_load ctx scheduled w = 0 \<longrightarrow> packable ctx scheduled v \<or> current_load ctx scheduled v = 0))"
proof -
  let ?ws = "candidateWorkers (tx_activeWorkers ctx) excluded"
  let ?input = "target_affinity_input ?ws (tx_nonEvictedPlacements ctx) p"
  let ?ts = "targets_of ctx scheduled p excluded True"
  let ?tc = "\<lambda>w. target_candidate_of ctx scheduled True True ?ws (worker_candidate ?input (active_worker_of w))"
  have ts: "set ?ts = ?tc ` set ?ws"
    using assms(2) by (auto simp: targets_of_def Let_def affinity_candidates target_affinity_input_def image_iff candidateWorkers_iff)
  have rank: "tc_warmReserveRank (?tc w) =
      (if packable ctx scheduled w then 2 else if current_load ctx scheduled w = 0 then 1 else 0)" if "w \<in> set ?ws" for w
    using find_distinct_id [OF distinct_candidateWorkers [OF assms(1)] that] by (intro warm_rank) simp
  from assms(2,3) obtain c cs where c: "js_sort (compareTargetCandidates True) ?ts = c # cs"
    "tw_workerId t = ac_workerId (tc_candidate c)"
    by (auto simp: selectTargetWorker_eq Let_def split: list.splits)
  from c(1) have "c \<in> set ?ts" by (metis list.set_intros(1) set_js_sort)
  then obtain v where v: "v \<in> set ?ws" "c = ?tc v" unfolding ts by auto
  have best: "tc_warmReserveRank (?tc w) \<le> tc_warmReserveRank (?tc v)" if "w \<in> set ?ws" for w
    using target_order.hd_js_sort_least [of "?tc w" ?ts True] that
    by (auto simp: c(1) v(2) ts compareTargetCandidates_def js_or_def split: if_splits)
  show ?thesis
  proof (intro bexI [OF _ v(1)] conjI ballI impI)
    show "tw_workerId t = we_workerId v" using c(2) v(2) by simp
    fix w assume w: "w \<in> set ?ws"
    show "packable ctx scheduled v" if "packable ctx scheduled w"
      using best [OF w] that by (simp add: rank w v(1) split: if_splits)
    show "packable ctx scheduled v \<or> current_load ctx scheduled v = 0" if "current_load ctx scheduled w = 0"
      using best [OF w] that by (simp add: rank w v(1) packable_def split: if_splits)
  qed
qed

definition packing_example :: target_context where
  "packing_example = operations_context operation_example
     [example_worker ''w1'' ''r1'' WBusy HHealthy, example_worker ''w3'' ''r3'' WIdle HHealthy] default_operations"

lemma ownerless_workspaces_are_packed_witness:
  "map_option tw_workerId (selectTargetWorker packing_example [] (example_placement ''d'' None None PUnassigned) [] None) =
     Some ''w1'' \<and>
   (\<exists>v\<in>set (candidateWorkers (tx_activeWorkers packing_example) []). we_workerId v = ''w1'' \<and> packable packing_example [] v)"
proof -
  let ?w1 = "example_worker ''w1'' ''r1'' WBusy HHealthy" and ?p = "example_placement ''d'' None None PUnassigned"
  have h: "distinct (map we_workerId (tx_activeWorkers packing_example))" "placementOwnerAffinityId ?p = None"
    "map_option tw_workerId (selectTargetWorker packing_example [] ?p [] None) = Some ''w1''" "packable packing_example [] ?w1"
    by code_simp+
  have w1: "?w1 \<in> set (candidateWorkers (tx_activeWorkers packing_example) [])"
    by (simp add: packing_example_def candidateWorkers_iff example_worker_def)
  from h(3) obtain t where t: "selectTargetWorker packing_example [] ?p [] None = Some t" "tw_workerId t = ''w1''" by auto
  from ownerless_workspaces_are_packed [OF h(1,2) t(1)] w1 h(4) t(2) show ?thesis
    unfolding h(3) by (metis (no_types, lifting))
qed

end
