(* ===== verification/Controller_Decisions.thy ===== *)
theory Controller_Decisions
  imports Placement_Operations
begin

text \<open>
  The decisions of the controller (\<open>apps/controller/src/controller.ts\<close> and
  \<open>controller-rebalance-state.ts\<close>): how many replicas it wants, given the suggestion, the
  streaks and the cooldowns; the gate that health probes and placements put before a scale-down; the history of
  decisions; and when a rebalance is logged. Times are milliseconds; \<open>Date.now()\<close> is an argument.
\<close>

subsection \<open>Types\<close>

datatype trigger = OnStartup | OnInterval

datatype control_reason =
    CStartup | CSteady | CScaleUp | CScaleDown | CCooldownHold | CScaleDownBlocked | CPlacementAttention

datatype blocker_reason = MissingOwnerBaseUrl | ProbeFailed | ReplicaDraining | MaterializationBlocked

record scale_down_blocker =
  sb_replicaId :: string
  sb_workerIds :: "string list"
  sb_ownerBaseUrl :: "string option"
  sb_reason :: blocker_reason
  sb_materializationBlockerCount :: "int option"
  sb_materializationFailureCount :: "int option"

datatype placement_blocker_reason = MissingOwnerWorker | LateOwnerWorker

record placement_blocker =
  pb_reason :: placement_blocker_reason
  pb_workspaceCount :: int
  pb_workerCount :: int

record scale_down_gate =
  gt_allowed :: bool
  gt_checkedReplicas :: int
  gt_blockedReplicas :: int
  gt_blockers :: "scale_down_blocker list"
  gt_placementBlockers :: "placement_blocker list"
  gt_evaluatedAt :: string

record worker_health_report =
  wh_draining :: bool
  wh_materializationBlockerCount :: int
  wh_materializationFailureCount :: int

record control_decision =
  cd_timestamp :: string
  cd_reason :: control_reason
  cd_suggestedReplicas :: int
  cd_desiredReplicas :: int
  cd_suggestedWorkers :: int
  cd_activeReplicas :: int
  cd_activeSlots :: int
  cd_busySlots :: int
  cd_scaleDownAllowed :: "bool option"
  cd_scaleDownBlockedReplicas :: "int option"
  cd_readySessionCount :: "int option"
  cd_oldestSchedulableReadyAgeMs :: "int option"

subsection \<open>Streaks and cooldowns\<close>

text \<open>What the controller remembers between two evaluations for its decision.\<close>

record scale_memory =
  sm_lastScaleUpAtMs :: "int option"
  sm_lastScaleDownAtMs :: "int option"
  sm_scaleUpPressureStreak :: int
  sm_scaleDownPressureStreak :: int

definition controllerCooldownMs :: "int option \<Rightarrow> int \<Rightarrow> int \<Rightarrow> int" where
  "controllerCooldownMs lastChangeAtMs cooldownMs nowMs =
     (case lastChangeAtMs of
        None \<Rightarrow> 0
      | Some t \<Rightarrow> if t = 0 \<or> cooldownMs \<le> 0 then 0 else max 0 (t + cooldownMs - nowMs))"

definition ctrl_lastCapacityChangeAtMs :: "scale_memory \<Rightarrow> int option" where
  "ctrl_lastCapacityChangeAtMs mem =
     (let latest = max (or_else (sm_lastScaleUpAtMs mem) 0) (or_else (sm_lastScaleDownAtMs mem) 0)
      in if latest > 0 then Some latest else None)"

definition scaleDownTargetReplicas :: "controller_config \<Rightarrow> int \<Rightarrow> int \<Rightarrow> scale_memory \<Rightarrow> int \<times> scale_memory" where
  "scaleDownTargetReplicas config suggestedReplicas currentReplicas mem =
     (let up = (if suggestedReplicas > currentReplicas then sm_scaleUpPressureStreak mem + 1 else 0);
          down = (if suggestedReplicas < currentReplicas then sm_scaleDownPressureStreak mem + 1 else 0);
          mem' = mem\<lparr>sm_scaleUpPressureStreak := up, sm_scaleDownPressureStreak := down\<rparr>
      in (if suggestedReplicas < currentReplicas \<and> down \<ge> cc_scaleDownSampleSize config then suggestedReplicas
          else currentReplicas, mem'))"

definition ctrl_desiredReplicas ::
    "controller_config \<Rightarrow> int \<Rightarrow> int \<Rightarrow> trigger \<Rightarrow> int \<Rightarrow> bool \<Rightarrow> int \<Rightarrow> scale_memory \<Rightarrow> int \<times> scale_memory" where
  "ctrl_desiredReplicas config suggestedReplicas currentReplicas reason scaleDownTarget allowScaleDown nowMs mem =
     (if reason = OnStartup then
        (if suggestedReplicas < currentReplicas \<and> \<not> allowScaleDown then (currentReplicas, mem) else (suggestedReplicas, mem))
      else if suggestedReplicas > currentReplicas then
        let targetReplicas =
              (if sm_scaleUpPressureStreak mem \<ge> cc_scaleUpSampleSize config then suggestedReplicas else currentReplicas)
        in if targetReplicas \<le> currentReplicas then (currentReplicas, mem)
           else if controllerCooldownMs (sm_lastScaleUpAtMs mem) (cc_scaleUpCooldownMs config) nowMs > 0 then (currentReplicas, mem)
           else (targetReplicas, mem\<lparr>sm_lastScaleUpAtMs := Some nowMs\<rparr>)
      else if scaleDownTarget < currentReplicas then
        if \<not> allowScaleDown then (currentReplicas, mem)
        else if controllerCooldownMs (ctrl_lastCapacityChangeAtMs mem) (cc_scaleDownCooldownMs config) nowMs > 0
        then (currentReplicas, mem)
        else (scaleDownTarget, mem\<lparr>sm_lastScaleDownAtMs := Some nowMs\<rparr>)
      else (if suggestedReplicas > currentReplicas then currentReplicas else suggestedReplicas, mem))"

definition ctrl_rebalanceReason ::
    "trigger \<Rightarrow> int \<Rightarrow> int \<Rightarrow> int \<Rightarrow> scale_down_gate option \<Rightarrow> placement_policy option \<Rightarrow> control_reason" where
  "ctrl_rebalanceReason reason desiredReplicas suggestedReplicas activeReplicas scaleDownGate placementPolicy =
     (let held = (suggestedReplicas < activeReplicas \<and> map_option gt_allowed scaleDownGate = Some False)
      in if reason = OnStartup then (if held then CScaleDownBlocked else CStartup)
         else if desiredReplicas > activeReplicas then CScaleUp
         else if desiredReplicas < activeReplicas then CScaleDown
         else if held then CScaleDownBlocked
         else if desiredReplicas \<noteq> suggestedReplicas then CCooldownHold
         else if map_option pp_attentionRequired placementPolicy = Some True then CPlacementAttention
         else CSteady)"

subsection \<open>The scale-down gate\<close>

text \<open>\<open>strings.sort()\<close> without a comparator: by code units.\<close>

definition code_unit_order :: "string \<Rightarrow> string \<Rightarrow> int" where
  "code_unit_order a b = lex_compare (map of_char a) (map of_char b)"

text \<open>The workers of each replica, in the order in which the replicas are met.\<close>

definition replicaWorkers :: "worker_entry list \<Rightarrow> (string \<times> worker_entry list) list" where
  "replicaWorkers activeWorkers =
     (let eligible = filter (\<lambda>w. we_processKind w = PStandalone \<and> we_health w = HHealthy) activeWorkers
      in map (\<lambda>replicaId. (replicaId, filter (\<lambda>w. workerPlacementReference w = replicaId) eligible))
           (jset_from (map workerPlacementReference eligible)))"

text \<open>
  A probe either reports the health of a replica or throws; \<open>Inl\<close> is the error. The messages of
  the blockers are not modelled.
\<close>

type_synonym health_probe = "string \<Rightarrow> string \<Rightarrow> worker_entry list \<Rightarrow> string + worker_health_report"

definition replica_blocker :: "health_probe \<Rightarrow> string \<times> worker_entry list \<Rightarrow> scale_down_blocker option" where
  "replica_blocker healthProbe = (\<lambda>(replicaId, workers).
     let workerIds = js_sort code_unit_order (map we_workerId workers);
         blocked = (\<lambda>url reason blockers failures.
           Some \<lparr>sb_replicaId = replicaId, sb_workerIds = workerIds, sb_ownerBaseUrl = url, sb_reason = reason,
                 sb_materializationBlockerCount = blockers, sb_materializationFailureCount = failures\<rparr>)
     in case List.find (\<lambda>w. truthy (we_ownerBaseUrl w)) workers of
          None \<Rightarrow> blocked None MissingOwnerBaseUrl None None
        | Some worker \<Rightarrow>
            let ownerBaseUrl = or_else (we_ownerBaseUrl worker) []
            in case healthProbe replicaId ownerBaseUrl workers of
                 Inl e \<Rightarrow> blocked (Some ownerBaseUrl) ProbeFailed None None
               | Inr health \<Rightarrow>
                   if wh_draining health then blocked (Some ownerBaseUrl) ReplicaDraining None None
                   else if wh_materializationBlockerCount health > 0 \<or> wh_materializationFailureCount health > 0
                   then blocked (Some ownerBaseUrl) MaterializationBlocked
                          (Some (wh_materializationBlockerCount health)) (Some (wh_materializationFailureCount health))
                   else None)"

definition summary_count :: "(placement_summary \<Rightarrow> int) \<Rightarrow> placement_summary option \<Rightarrow> int" where
  "summary_count f placementSummary = or_else (map_option f placementSummary) 0"

definition placement_blockers :: "placement_summary option \<Rightarrow> placement_blocker list" where
  "placement_blockers placementSummary =
     (if summary_count pls_ownedByMissingWorkers placementSummary > 0
      then [\<lparr>pb_reason = MissingOwnerWorker, pb_workspaceCount = summary_count pls_ownedByMissingWorkers placementSummary,
             pb_workerCount = summary_count pls_workersWithMissingPlacements placementSummary\<rparr>]
      else []) @
     (if summary_count pls_ownedByLateWorkers placementSummary > 0
      then [\<lparr>pb_reason = LateOwnerWorker, pb_workspaceCount = summary_count pls_ownedByLateWorkers placementSummary,
             pb_workerCount = summary_count pls_workersWithLatePlacements placementSummary\<rparr>]
      else [])"

definition evaluateScaleDownGate ::
    "health_probe \<Rightarrow> worker_entry list \<Rightarrow> placement_summary option \<Rightarrow> string \<Rightarrow> scale_down_gate" where
  "evaluateScaleDownGate healthProbe activeWorkers placementSummary evaluatedAt =
     (let replicas = replicaWorkers activeWorkers;
          blockers = js_sort (\<lambda>left right. localeCompare (sb_replicaId left) (sb_replicaId right))
            (List.map_filter (replica_blocker healthProbe) replicas);
          placementBlockers = placement_blockers placementSummary
      in \<lparr>gt_allowed = (blockers = [] \<and> placementBlockers = []),
          gt_checkedReplicas = int (length replicas),
          gt_blockedReplicas = int (length blockers),
          gt_blockers = blockers,
          gt_placementBlockers = placementBlockers,
          gt_evaluatedAt = evaluatedAt\<rparr>)"

subsection \<open>The history of decisions\<close>

text \<open>A decision that says the same as the last one, but for its time and the suggested workers, is not added.\<close>

definition same_decision :: "control_decision \<Rightarrow> control_decision \<Rightarrow> bool" where
  "same_decision a b \<longleftrightarrow>
     cd_reason a = cd_reason b \<and> cd_suggestedReplicas a = cd_suggestedReplicas b \<and>
     cd_desiredReplicas a = cd_desiredReplicas b \<and> cd_activeReplicas a = cd_activeReplicas b \<and>
     cd_activeSlots a = cd_activeSlots b \<and> cd_busySlots a = cd_busySlots b \<and>
     cd_scaleDownAllowed a = cd_scaleDownAllowed b \<and> cd_scaleDownBlockedReplicas a = cd_scaleDownBlockedReplicas b \<and>
     cd_readySessionCount a = cd_readySessionCount b \<and>
     cd_oldestSchedulableReadyAgeMs a = cd_oldestSchedulableReadyAgeMs b"

definition appendDecision :: "control_decision list \<Rightarrow> control_decision \<Rightarrow> nat \<Rightarrow> control_decision list" where
  "appendDecision decisions nextDecision maxEntries =
     (if decisions \<noteq> [] \<and> same_decision (last decisions) nextDecision then decisions
      else let next = decisions @ [nextDecision]
           in if length next > maxEntries then drop (length next - maxEntries) next else next)"

subsection \<open>One decision\<close>

text \<open>
  The part of \<open>evaluateNow\<close> that decides: the streaks are updated, the gate is evaluated only when the
  sampled target is below the active replicas, and a gate that was not evaluated allows the scale-down.
\<close>

definition decideReplicas ::
    "controller_config \<Rightarrow> int \<Rightarrow> int \<Rightarrow> trigger \<Rightarrow> scale_down_gate \<Rightarrow> int \<Rightarrow> scale_memory \<Rightarrow>
     int \<times> scale_down_gate option \<times> scale_memory" where
  "decideReplicas config suggestedReplicas activeReplicas reason gate nowMs mem =
     (let (target, mem1) = scaleDownTargetReplicas config suggestedReplicas activeReplicas mem;
          scaleDownGate = (if target < activeReplicas then Some gate else None);
          (desired, mem2) = ctrl_desiredReplicas config suggestedReplicas activeReplicas reason target
            (or_else (map_option gt_allowed scaleDownGate) True) nowMs mem1
      in (desired, scaleDownGate, mem2))"

lemmas decide_defs = decideReplicas_def scaleDownTargetReplicas_def ctrl_desiredReplicas_def

text \<open>What a decision says about the number of replicas, and what it leaves in the memory.\<close>

lemma decide_desired:
  "fst (decideReplicas config suggested active reason gate now mem) \<in> {active, suggested}"
  by (auto simp: decide_defs Let_def)

lemma cooldown_nonpos: "controllerCooldownMs t c now \<le> 0 \<longleftrightarrow> controllerCooldownMs t c now = 0"
  by (auto simp: controllerCooldownMs_def split: option.splits)


lemma last_change_simps:
  "ctrl_lastCapacityChangeAtMs (mem\<lparr>sm_scaleUpPressureStreak := a, sm_scaleDownPressureStreak := b\<rparr>) =
    ctrl_lastCapacityChangeAtMs mem"
  by (simp add: ctrl_lastCapacityChangeAtMs_def)

text \<open>One decision, for any memory: the streak counted so far decides whether the gate and the cooldown are asked.\<close>

lemma decide_scales_down:
  "fst (decideReplicas config suggested active reason gate now mem) < active \<longleftrightarrow>
    suggested < active \<and>
    (sm_scaleDownPressureStreak mem + 1 < cc_scaleDownSampleSize config \<or>
     gt_allowed gate \<and>
     (reason = OnStartup \<or> controllerCooldownMs (ctrl_lastCapacityChangeAtMs mem) (cc_scaleDownCooldownMs config) now \<le> 0))"
  by (cases reason) (auto simp: decide_defs Let_def last_change_simps not_less)

lemma decide_memory:
  fixes mem :: scale_memory and config :: controller_config
  defines "m \<equiv> (\<lambda>suggested active reason gate now. snd (snd (decideReplicas config suggested active reason gate now mem)))"
  shows "sm_lastScaleUpAtMs (m s a r g t) \<in> {sm_lastScaleUpAtMs mem, Some t}"
    "sm_lastScaleDownAtMs (m s a r g t) \<in> {sm_lastScaleDownAtMs mem, Some t}"
    "sm_scaleUpPressureStreak (m s a r g t) = (if s > a then sm_scaleUpPressureStreak mem + 1 else 0)"
    "sm_scaleDownPressureStreak (m s a r g t) = (if s < a then sm_scaleDownPressureStreak mem + 1 else 0)"
  unfolding m_def by (auto simp: decide_defs Let_def)

subsection \<open>Sequences of decisions\<close>

record decision_input =
  di_suggested :: int
  di_active :: int
  di_reason :: trigger
  di_gate :: scale_down_gate
  di_nowMs :: int

definition decide_on :: "controller_config \<Rightarrow> scale_memory \<Rightarrow> decision_input \<Rightarrow> int \<times> scale_down_gate option \<times> scale_memory" where
  "decide_on config mem i = decideReplicas config (di_suggested i) (di_active i) (di_reason i) (di_gate i) (di_nowMs i) mem"


text \<open>The memory of a new controller, after a history of decisions, and the samples with fewer replicas suggested at the end of it.\<close>

definition no_memory :: scale_memory where
  "no_memory =
     \<lparr>sm_lastScaleUpAtMs = None, sm_lastScaleDownAtMs = None, sm_scaleUpPressureStreak = 0, sm_scaleDownPressureStreak = 0\<rparr>"

definition memory_after :: "controller_config \<Rightarrow> decision_input list \<Rightarrow> scale_memory" where
  "memory_after config history = fold (\<lambda>i mem. snd (snd (decide_on config mem i))) history no_memory"

definition low_samples :: "decision_input list \<Rightarrow> int" where
  "low_samples history = int (length (takeWhile (\<lambda>i. di_suggested i < di_active i) (rev history)))"

lemma streak_counts_low_samples: "sm_scaleDownPressureStreak (memory_after config history) = low_samples history"
proof (induction history rule: rev_induct)
  case (snoc i history)
  then show ?case by (simp add: memory_after_def low_samples_def decide_on_def decide_memory(4))
qed (simp add: memory_after_def low_samples_def no_memory_def)

text \<open>
  C27: when the controller asks for fewer replicas. \<open>low_samples history\<close> counts the decisions just before this one that suggested
  fewer replicas without a break. From the sample the window asks for on, the controller scales down exactly when fewer
  replicas are suggested, the gate allows it and, except for the evaluation at start-up, the cooldown since the latest change is over. On the samples
  before, while the window is filling, it scales down whenever fewer are suggested, at once and without asking the gate or the cooldown. The
  documentation says that the window is the number of consecutive samples required before scaling down: the code does the opposite there.
\<close>

theorem scale_down_condition:
  "fst (decide_on config (memory_after config history) i) < di_active i \<longleftrightarrow>
    (if cc_scaleDownSampleSize config \<le> low_samples history + 1
     then di_suggested i < di_active i \<and> gt_allowed (di_gate i) \<and>
       (di_reason i = OnStartup \<or>
        controllerCooldownMs (ctrl_lastCapacityChangeAtMs (memory_after config history)) (cc_scaleDownCooldownMs config) (di_nowMs i) \<le> 0)
     else di_suggested i < di_active i)"
  by (auto simp: decide_on_def decide_scales_down streak_counts_low_samples)















subsection \<open>What the gate guarantees\<close>

definition replica_url :: "worker_entry list \<Rightarrow> string option" where
  "replica_url workers = Option.bind (List.find (\<lambda>w. truthy (we_ownerBaseUrl w)) workers) we_ownerBaseUrl"

definition may_stop :: "health_probe \<Rightarrow> string \<Rightarrow> worker_entry list \<Rightarrow> bool" where
  "may_stop healthProbe replicaId workers \<longleftrightarrow>
     (\<exists>url health. replica_url workers = Some url \<and> healthProbe replicaId url workers = Inr health \<and>
        \<not> wh_draining health \<and> wh_materializationBlockerCount health \<le> 0 \<and> wh_materializationFailureCount health \<le> 0)"

lemma no_blocker_iff: "replica_blocker healthProbe (replicaId, workers) = None \<longleftrightarrow> may_stop healthProbe replicaId workers"
proof (cases "List.find (\<lambda>w. truthy (we_ownerBaseUrl w)) workers")
  case None
  then show ?thesis by (simp add: replica_blocker_def may_stop_def replica_url_def Let_def)
next
  case (Some w)
  then have "truthy (we_ownerBaseUrl w)" by (auto simp: find_Some_iff)
  then obtain url where "we_ownerBaseUrl w = Some url" by (auto simp: truthy_def)
  with Some show ?thesis
    by (auto simp: replica_blocker_def may_stop_def replica_url_def Let_def not_less split: sum.splits)
qed

lemma map_filter_Nil_iff: "List.map_filter f xs = [] \<longleftrightarrow> (\<forall>x\<in>set xs. f x = None)"
  by (induction xs) (auto simp: List.map_filter_simps split: option.splits)

lemma no_placement_blocker_iff:
  "placement_blockers (summarizeWorkspacePlacements ps ws) = [] \<longleftrightarrow>
    (\<forall>p\<in>set ps. pe_state p \<noteq> PEvicted \<and> owned p \<longrightarrow> owner_health ws p = Some HHealthy)"
proof (cases "ps = []")
  case False
  have "placement_blockers (summarizeWorkspacePlacements ps ws) = [] \<longleftrightarrow>
      \<not> (\<exists>p\<in>set (filter owned (trackedPlacements ps)). owner_health ws p = None) \<and>
      \<not> (\<exists>p\<in>set (filter owned (trackedPlacements ps)). owner_health ws p = Some HLate)"
    using False
    by (simp add: placement_blockers_def summary_count_def summarizeWorkspacePlacements_def Let_def count_if_pos [symmetric]
        del: set_filter)
  also have "\<dots> \<longleftrightarrow> (\<forall>p\<in>set ps. pe_state p \<noteq> PEvicted \<and> owned p \<longrightarrow> owner_health ws p = Some HHealthy)"
    by (auto simp: trackedPlacements_def) (metis (full_types) not_None_eq worker_health.exhaust)
  finally show ?thesis .
qed (simp add: placement_blockers_def summary_count_def summarizeWorkspacePlacements_def)

text \<open>
  C25: the gate opens exactly when stopping a replica is safe. Every replica of healthy standalone workers
  has an address, answers the probe, is not draining and has nothing left to materialise, and every workspace
  that is not evicted and has an owner is owned by a worker that is alive and in time.
\<close>

theorem gate_opens_when_safe:
  "gt_allowed (evaluateScaleDownGate healthProbe activeWorkers (summarizeWorkspacePlacements placements activeWorkers) t) \<longleftrightarrow>
    (\<forall>(replicaId, workers)\<in>set (replicaWorkers activeWorkers). may_stop healthProbe replicaId workers) \<and>
    (\<forall>p\<in>set placements. pe_state p \<noteq> PEvicted \<and> owned p \<longrightarrow> owner_health activeWorkers p = Some HHealthy)"
proof -
  have "js_sort c xs = [] \<longleftrightarrow> xs = []" for c and xs :: "scale_down_blocker list"
    by (metis js_sort_Nil mset_js_sort mset_zero_iff)
  then show ?thesis
    by (auto simp: evaluateScaleDownGate_def Let_def no_placement_blocker_iff map_filter_Nil_iff no_blocker_iff [symmetric])
qed

definition stoppable_worker :: worker_entry where
  "stoppable_worker = (example_worker ''w1'' ''r1'' WIdle HHealthy)\<lparr>we_ownerBaseUrl := Some ''http://w1''\<rparr>"

definition idle_probe :: health_probe where
  "idle_probe = (\<lambda>r u ws. Inr \<lparr>wh_draining = False, wh_materializationBlockerCount = 0, wh_materializationFailureCount = 0\<rparr>)"

lemma gate_opens_when_safe_witness:
  "gt_allowed (evaluateScaleDownGate idle_probe [stoppable_worker]
     (summarizeWorkspacePlacements [example_placement ''a'' None (Some ''r1'') PActive] [stoppable_worker]) ''t'')"
proof -
  have "replicaWorkers [stoppable_worker] = [(''r1'', [stoppable_worker])]"
    "owner_health [stoppable_worker] (example_placement ''a'' None (Some ''r1'') PActive) = Some HHealthy"
    "replica_url [stoppable_worker] = Some ''http://w1''"
    by code_simp+
  then show ?thesis
    unfolding gate_opens_when_safe by (simp add: may_stop_def idle_probe_def)
qed

text \<open>The replicas are those of the healthy standalone workers, each with all of its workers.\<close>

lemma replicaWorkers_iff:
  "(r, vs) \<in> set (replicaWorkers ws) \<longleftrightarrow>
    vs = filter (\<lambda>w. we_processKind w = PStandalone \<and> we_health w = HHealthy \<and> workerPlacementReference w = r) ws \<and> vs \<noteq> []"
proof -
  have "filter (\<lambda>w. workerPlacementReference w = r) (filter (\<lambda>w. we_processKind w = PStandalone \<and> we_health w = HHealthy) ws) =
      filter (\<lambda>w. we_processKind w = PStandalone \<and> we_health w = HHealthy \<and> workerPlacementReference w = r) ws" for r
    by (simp add: conj_ac)
  then show ?thesis by (auto simp: replicaWorkers_def Let_def filter_empty_conv image_iff)
qed

subsection \<open>The history\<close>

definition tidy_history :: "control_decision list \<Rightarrow> bool" where
  "tidy_history ds \<longleftrightarrow> length ds \<le> 8 \<and> (\<forall>k. Suc k < length ds \<longrightarrow> \<not> same_decision (ds ! k) (ds ! Suc k))"

lemma tidy_drop: "length ds = 9 \<Longrightarrow> (\<forall>k. Suc k < length ds \<longrightarrow> \<not> same_decision (ds ! k) (ds ! Suc k)) \<Longrightarrow> tidy_history (drop 1 ds)"
  by (auto simp: tidy_history_def)

lemma appendDecision_tidy:
  assumes "tidy_history ds"
  shows "tidy_history (appendDecision ds d 8)"
proof (cases "ds \<noteq> [] \<and> same_decision (last ds) d")
  case False
  have step: "\<not> same_decision ((ds @ [d]) ! k) ((ds @ [d]) ! Suc k)" if "Suc k < length (ds @ [d])" for k
  proof (cases "Suc k < length ds")
    case True
    then show ?thesis using assms by (simp add: tidy_history_def nth_append)
  next
    case f: False
    with that have "k = length ds - 1" "ds \<noteq> []" by auto
    then show ?thesis using False by (simp add: nth_append last_conv_nth)
  qed
  show ?thesis
  proof (cases "length ds = 8")
    case True
    then show ?thesis using False tidy_drop [of "ds @ [d]"] step by (auto simp: appendDecision_def Let_def)
  next
    case f: False
    then show ?thesis using False assms step by (auto simp: appendDecision_def Let_def tidy_history_def)
  qed
next
  case True
  with assms show ?thesis by (simp add: appendDecision_def)
qed

end
