(* ===== verification/Js_Json.thy ===== *)
theory Js_Json
  imports Js_Collections Complex_Main
begin

text \<open>
  JSON values as the sources handle values of type \<open>unknown\<close>: the tests \<open>typeof\<close> and
  \<open>Array.isArray\<close>, \<open>Reflect.get\<close>, and operations that may throw, which are
  functions on a state that return an error (\<open>Inl\<close>) or a value. Numbers are rational: JSON has no
  infinities and no NaN.
\<close>

datatype json_value =
    JNull
  | JBool bool
  | JNum rat
  | JStr string
  | JArr "json_value list"
  | JObj "(string \<times> json_value) list"

text \<open>\<open>undefined\<close> is \<open>None\<close>. A property of an array other than an index is \<open>undefined\<close>.\<close>

definition json_get :: "string \<Rightarrow> json_value option \<Rightarrow> json_value option" where
  "json_get k v = (case v of Some (JObj kvs) \<Rightarrow> map_of kvs k | _ \<Rightarrow> None)"

definition json_items :: "json_value option \<Rightarrow> json_value list option" where
  "json_items v = (case v of Some (JArr xs) \<Rightarrow> Some xs | _ \<Rightarrow> None)"

definition json_number :: "json_value option \<Rightarrow> rat option" where
  "json_number v = (case v of Some (JNum n) \<Rightarrow> Some n | _ \<Rightarrow> None)"

definition json_string :: "json_value option \<Rightarrow> string option" where
  "json_string v = (case v of Some (JStr s) \<Rightarrow> Some s | _ \<Rightarrow> None)"

definition json_bool :: "json_value option \<Rightarrow> bool option" where
  "json_bool v = (case v of Some (JBool b) \<Rightarrow> Some b | _ \<Rightarrow> None)"

text \<open>\<open>value !== null && typeof value === "object"\<close>, which holds of arrays too.\<close>

definition json_is_object :: "json_value option \<Rightarrow> bool" where
  "json_is_object v = (case v of Some (JArr xs) \<Rightarrow> True | Some (JObj kvs) \<Rightarrow> True | _ \<Rightarrow> False)"

lemma json_get_simps [simp]:
  "json_get k None = None" "json_get k (Some (JObj kvs)) = map_of kvs k" "json_get k (Some JNull) = None"
  "json_get k (Some (JStr s)) = None" "json_get k (Some (JArr xs)) = None"
  by (simp_all add: json_get_def)

lemma json_reads [simp]:
  "json_number (Some (JNum n)) = Some n" "json_number None = None"
  "json_string (Some (JStr s)) = Some s" "json_string None = None"
  "json_items (Some (JArr xs)) = Some xs" "json_items None = None"
  by (simp_all add: json_number_def json_string_def json_items_def)

subsection \<open>Operations that may throw\<close>

type_synonym ('s, 'e, 'a) fallible = "'s \<Rightarrow> ('e + 'a) \<times> 's"

definition ok :: "'a \<Rightarrow> ('s, 'e, 'a) fallible" where
  "ok x s = (Inr x, s)"

definition throw :: "'e \<Rightarrow> ('s, 'e, 'a) fallible" where
  "throw e s = (Inl e, s)"

definition then_do :: "('s, 'e, 'a) fallible \<Rightarrow> ('a \<Rightarrow> ('s, 'e, 'b) fallible) \<Rightarrow> ('s, 'e, 'b) fallible" where
  "then_do m f s = (case m s of (Inl e, s') \<Rightarrow> (Inl e, s') | (Inr x, s') \<Rightarrow> f x s')"

text \<open>\<open>try { m } catch (e) { h }\<close>, for the value only: a handler never throws in the sources modelled here.\<close>

definition catching :: "('s, 'e, 'a) fallible \<Rightarrow> ('e \<Rightarrow> 's \<Rightarrow> 'a \<times> 's) \<Rightarrow> 's \<Rightarrow> 'a \<times> 's" where
  "catching m h s = (case m s of (Inl e, s') \<Rightarrow> h e s' | (Inr x, s') \<Rightarrow> (x, s'))"

lemma fallible_simps [simp]:
  "ok x s = (Inr x, s)" "throw e s = (Inl e, s)"
  "then_do (ok x) f = f x" "then_do (throw e) f = throw e"
  by (simp_all add: ok_def throw_def then_do_def fun_eq_iff)

lemma then_do_Inr: "m s = (Inr x, s') \<Longrightarrow> then_do m f s = f x s'"
  by (simp add: then_do_def)

lemma then_do_Inl: "m s = (Inl e, s') \<Longrightarrow> then_do m f s = (Inl e, s')"
  by (simp add: then_do_def)

end
