(* ===== verification/Scale_Targets.thy ===== *)
theory Scale_Targets
  imports Js_Json
begin

text \<open>
  The targets that the controller scales (\<open>packages/scale-target-control/src\<close>): a workload of
  Kubernetes (\<open>kubernetes-target.ts\<close>), the service of a local Docker Compose project
  (\<open>docker-compose-target.ts\<close>) and none (\<open>index.ts\<close>). The HTTP requests, the commands of
  Docker and the token file are parameters; a URL is kept as the components it is built from. The remote Compose
  target and the default transports are not modelled.
\<close>

subsection \<open>Inputs and results\<close>

record target_input =
  ti_timestamp :: string
  ti_reason :: string
  ti_desiredReplicas :: int
  ti_suggestedReplicas :: int
  ti_activeReplicas :: int
  ti_activeSlots :: int
  ti_busySlots :: int
  ti_readySessionCount :: "int option"
  ti_oldestSchedulableReadyAgeMs :: "int option"

datatype target_platform = TpKubernetes | TpDockerCompose | TpNoop

datatype target_discovery = DiscoveredExplicitly | DiscoveredByLabel

record target_ref =
  tf_platform :: target_platform
  tf_kind :: "string option"
  tf_namespace :: "string option"
  tf_name :: "string option"
  tf_discovery :: "target_discovery option"
  tf_selector :: "string option"

datatype target_outcome = OutDisabled | OutSteady | OutScaled | OutBlockedScaleDown | OutError

datatype target_phase = PhDisabled | PhSteady | PhAccepted | PhProgressing | PhReady | PhBlocked | PhError

datatype target_stage = StDiscoverTarget | StReadState | StApplyScale | StObserveRollout

record deployment_observation =
  do_specReplicas :: "rat option"
  do_statusReplicas :: "rat option"
  do_readyReplicas :: "rat option"
  do_updatedReplicas :: "rat option"
  do_availableReplicas :: "rat option"
  do_unavailableReplicas :: "rat option"
  do_generation :: "rat option"
  do_observedGeneration :: "rat option"

record target_result =
  tr_kind :: string
  tr_attempted :: bool
  tr_applied :: bool
  tr_desiredReplicas :: int
  tr_observedReplicas :: "rat option"
  tr_appliedReplicas :: "rat option"
  tr_outcome :: target_outcome
  tr_at :: string
  tr_phase :: "target_phase option"
  tr_stage :: "target_stage option"
  tr_reasonCode :: "string option"
  tr_targetRef :: "target_ref option"
  tr_generation :: "rat option"
  tr_observedGeneration :: "rat option"
  tr_readyReplicas :: "rat option"
  tr_updatedReplicas :: "rat option"
  tr_availableReplicas :: "rat option"
  tr_unavailableReplicas :: "rat option"
  tr_message :: "string option"

text \<open>A result with the fields that all share; the optional ones are absent.\<close>

definition plain_result :: "string \<Rightarrow> bool \<Rightarrow> bool \<Rightarrow> target_input \<Rightarrow> target_outcome \<Rightarrow> target_phase \<Rightarrow> target_result" where
  "plain_result kind attempted applied input out phase =
     \<lparr>tr_kind = kind, tr_attempted = attempted, tr_applied = applied, tr_desiredReplicas = ti_desiredReplicas input,
      tr_observedReplicas = None, tr_appliedReplicas = None, tr_outcome = out, tr_at = ti_timestamp input,
      tr_phase = Some phase, tr_stage = None, tr_reasonCode = None, tr_targetRef = None, tr_generation = None,
      tr_observedGeneration = None, tr_readyReplicas = None, tr_updatedReplicas = None, tr_availableReplicas = None,
      tr_unavailableReplicas = None, tr_message = None\<rparr>"

definition with_observation :: "deployment_observation option \<Rightarrow> target_result \<Rightarrow> target_result" where
  "with_observation observed r =
     (case observed of
        None \<Rightarrow> r
      | Some d \<Rightarrow>
          r\<lparr>tr_generation := do_generation d, tr_observedGeneration := do_observedGeneration d,
            tr_readyReplicas := do_readyReplicas d, tr_updatedReplicas := do_updatedReplicas d,
            tr_availableReplicas := do_availableReplicas d, tr_unavailableReplicas := do_unavailableReplicas d\<rparr>)"

subsection \<open>No target\<close>

definition noop_reconcile :: "target_input \<Rightarrow> target_result" where
  "noop_reconcile input =
     (plain_result ''noop'' False False input OutDisabled PhDisabled)
       \<lparr>tr_targetRef := Some \<lparr>tf_platform = TpNoop, tf_kind = None, tf_namespace = None, tf_name = None,
                              tf_discovery = None, tf_selector = None\<rparr>,
        tr_message := Some ''scale target disabled''\<rparr>"

subsection \<open>Kubernetes: requests and replies\<close>

datatype workload_kind = DeploymentKind | StatefulSetKind

record workload_resource =
  wr_kind :: workload_kind
  wr_kindName :: string
  wr_plural :: string
  wr_displayName :: string

definition kubernetesWorkloadResource :: "workload_kind \<Rightarrow> workload_resource" where
  "kubernetesWorkloadResource kind =
     (if kind = StatefulSetKind
      then \<lparr>wr_kind = kind, wr_kindName = ''StatefulSet'', wr_plural = ''statefulsets'', wr_displayName = ''statefulset''\<rparr>
      else \<lparr>wr_kind = kind, wr_kindName = ''Deployment'', wr_plural = ''deployments'', wr_displayName = ''deployment''\<rparr>)"

record kube_config =
  kc_allowScaleDown :: bool
  kc_namespace :: string
  kc_workloadKind :: "workload_kind option"
  kc_workloadName :: "string option"
  kc_deployment :: "string option"
  kc_labelSelector :: "string option"
  kc_apiUrl :: string
  kc_tokenFile :: string
  kc_caFile :: "string option"
  kc_skipTlsVerify :: bool

text \<open>
  The requests: the collection of workloads that match a selector, one workload, and its scale. \<open>GET\<close>
  reads, the only \<open>PATCH\<close> sets the replicas of the scale.
\<close>

datatype kube_action =
    ListWorkloads string
  | ReadWorkload string
  | PatchScale string int

record kube_request =
  kr_action :: kube_action
  kr_config :: kube_config
  kr_plural :: string
  kr_authorization :: string

record http_reply =
  hr_status :: int
  hr_body :: "json_value option"
  hr_text :: string

datatype kube_failure =
    KubeError string string target_stage "int option"
  | OtherFailure string

type_synonym 's kube_transport = "kube_request \<Rightarrow> ('s, string, http_reply) fallible"

definition parseReplicas :: "json_value option \<Rightarrow> rat option" where
  "parseReplicas payload = json_number (json_get ''replicas'' (json_get ''spec'' payload))"

definition readNestedNumber :: "json_value option \<Rightarrow> string list \<Rightarrow> rat option" where
  "readNestedNumber payload segments = json_number (foldl (\<lambda>current segment. json_get segment current) payload segments)"

definition parseKubernetesDeploymentObservation :: "json_value option \<Rightarrow> deployment_observation" where
  "parseKubernetesDeploymentObservation payload =
     \<lparr>do_specReplicas = readNestedNumber payload [''spec'', ''replicas''],
      do_statusReplicas = readNestedNumber payload [''status'', ''replicas''],
      do_readyReplicas = readNestedNumber payload [''status'', ''readyReplicas''],
      do_updatedReplicas = readNestedNumber payload [''status'', ''updatedReplicas''],
      do_availableReplicas = readNestedNumber payload [''status'', ''availableReplicas''],
      do_unavailableReplicas = readNestedNumber payload [''status'', ''unavailableReplicas''],
      do_generation = readNestedNumber payload [''metadata'', ''generation''],
      do_observedGeneration = readNestedNumber payload [''status'', ''observedGeneration'']\<rparr>"

definition isKubernetesDeploymentReady :: "deployment_observation \<Rightarrow> int \<Rightarrow> bool" where
  "isKubernetesDeploymentReady observation desiredReplicas =
     (let desired = of_int (max 0 desiredReplicas);
          readyReplicas = or_else (do_readyReplicas observation) 0;
          updatedReplicas = or_else (do_updatedReplicas observation) desired;
          availableReplicas = or_else (do_availableReplicas observation) readyReplicas;
          unavailableReplicas = or_else (do_unavailableReplicas observation) (max 0 (desired - availableReplicas))
      in (case do_specReplicas observation of Some n \<Rightarrow> n = desired | None \<Rightarrow> True) \<and>
         (case (do_generation observation, do_observedGeneration observation) of
            (Some g, Some seen) \<Rightarrow> seen \<ge> g
          | _ \<Rightarrow> True) \<and>
         (if desired = 0 then readyReplicas = 0 \<and> availableReplicas = 0 \<and> unavailableReplicas = 0
          else readyReplicas \<ge> desired \<and> updatedReplicas \<ge> desired \<and> availableReplicas \<ge> desired \<and> unavailableReplicas = 0))"

definition extractWorkloadNames :: "json_value option \<Rightarrow> string list" where
  "extractWorkloadNames payload =
     (case json_items (json_get ''items'' payload) of
        None \<Rightarrow> []
      | Some items \<Rightarrow>
          List.map_filter (\<lambda>item.
            case json_string (json_get ''name'' (json_get ''metadata'' (Some item))) of
              Some name \<Rightarrow> if js_trim name \<noteq> [] then Some name else None
            | None \<Rightarrow> None) items)"

definition extractStatusMessage :: "json_value option \<Rightarrow> string option" where
  "extractStatusMessage body =
     or_opt (keep_truthy (map_option js_trim (json_string (json_get ''error'' body))))
       (keep_truthy (map_option js_trim (json_string (json_get ''message'' body))))"

definition classifyKubernetesStatusCode :: "int \<Rightarrow> string" where
  "classifyKubernetesStatusCode status =
     (if status = 401 then ''unauthorized''
      else if status = 403 then ''forbidden''
      else if status = 404 then ''not_found''
      else if status = 409 then ''conflict''
      else if status = 429 then ''rate_limited''
      else if status \<ge> 500 then ''api_unavailable''
      else if status \<ge> 400 then ''invalid_request''
      else ''unexpected_status'')"

text \<open>\<open>/text/iu.test(message)\<close>.\<close>

definition mentions :: "string \<Rightarrow> string \<Rightarrow> bool" where
  "mentions message phrase \<longleftrightarrow>
     (\<exists>k\<in>set [0..<Suc (length message)].
        take (length phrase) (drop k (map to_lower message)) = map to_lower phrase)"

text \<open>The code and the stage that \<open>classifyKubernetesError\<close> gives, with the message.\<close>

definition classifyKubernetesError :: "kube_failure \<Rightarrow> string \<times> string \<times> target_stage" where
  "classifyKubernetesError failure =
     (case failure of
        KubeError message code stage status \<Rightarrow> (message, code, stage)
      | OtherFailure message \<Rightarrow>
          if mentions message ''timed out'' \<or> mentions message ''timeout'' \<or> mentions message ''abort''
          then (message, ''timeout'', StReadState)
          else if (\<exists>phrase\<in>set [''ENOTFOUND'', ''EAI_AGAIN'', ''ECONNREFUSED'', ''ECONNRESET'', ''EHOSTUNREACH'', ''socket hang up''].
                     mentions message phrase)
          then (message, ''network_error'', StReadState)
          else (message, ''unexpected_error'', StReadState))"

definition lift_transport :: "('s, string, 'a) fallible \<Rightarrow> ('s, kube_failure, 'a) fallible" where
  "lift_transport m s = (case m s of (Inl message, s') \<Rightarrow> (Inl (OtherFailure message), s') | (Inr x, s') \<Rightarrow> (Inr x, s'))"

definition assertKubernetesSuccess :: "string \<Rightarrow> http_reply \<Rightarrow> target_stage \<Rightarrow> ('s, kube_failure, unit) fallible" where
  "assertKubernetesSuccess operation response stage =
     (if 200 \<le> hr_status response \<and> hr_status response < 300 then ok ()
      else let failed = operation @ '' failed with status '' @ js_show (nat (hr_status response));
               message = or_else (extractStatusMessage (hr_body response))
                 (if js_trim (hr_text response) \<noteq> [] then js_trim (hr_text response) else failed)
           in throw (KubeError (failed @ '': '' @ message) (classifyKubernetesStatusCode (hr_status response)) stage
                (Some (hr_status response))))"

text \<open>The token file is read by \<open>readToken\<close>, which may fail.\<close>

definition buildKubernetesAuthHeaders :: "(string \<Rightarrow> ('s, string, string) fallible) \<Rightarrow> string \<Rightarrow> ('s, kube_failure, string) fallible" where
  "buildKubernetesAuthHeaders readToken tokenFile =
     then_do (lift_transport (readToken tokenFile))
       (\<lambda>content. let token = js_trim content
          in if token = [] then throw (OtherFailure (''Kubernetes service account token file is empty: '' @ tokenFile))
             else ok (''Bearer '' @ token))"

definition discoverKubernetesWorkloadName ::
    "'s kube_transport \<Rightarrow> (string \<Rightarrow> ('s, string, string) fallible) \<Rightarrow> kube_config \<Rightarrow> workload_resource \<Rightarrow>
     ('s, kube_failure, string) fallible" where
  "discoverKubernetesWorkloadName request readToken config workload =
     (let selector = or_else (kc_labelSelector config) []
      in then_do (buildKubernetesAuthHeaders readToken (kc_tokenFile config)) (\<lambda>authorization.
         then_do (lift_transport (request
             \<lparr>kr_action = ListWorkloads selector, kr_config = config, kr_plural = wr_plural workload,
              kr_authorization = authorization\<rparr>)) (\<lambda>response.
         then_do (assertKubernetesSuccess (''discover target '' @ wr_displayName workload) response StDiscoverTarget) (\<lambda>_.
         case extractWorkloadNames (hr_body response) of
           [] \<Rightarrow> throw (KubeError (''no '' @ wr_displayName workload @ '' matched label selector '' @ selector)
                   ''selector_no_match'' StDiscoverTarget None)
         | [name] \<Rightarrow> ok name
         | names \<Rightarrow> throw (KubeError (''label selector '' @ selector @ '' matched multiple '' @ wr_plural workload @ '': '' @
                     js_join '', '' names) ''selector_multiple_matches'' StDiscoverTarget None)))))"

definition readKubernetesDeploymentState ::
    "'s kube_transport \<Rightarrow> kube_config \<Rightarrow> workload_resource \<Rightarrow> string \<Rightarrow> string \<Rightarrow> target_stage \<Rightarrow>
     ('s, kube_failure, deployment_observation) fallible" where
  "readKubernetesDeploymentState request config workload authorization name stage =
     then_do (lift_transport (request
         \<lparr>kr_action = ReadWorkload name, kr_config = config, kr_plural = wr_plural workload,
          kr_authorization = authorization\<rparr>)) (\<lambda>response.
     then_do (assertKubernetesSuccess (''read '' @ wr_displayName workload @ '' state'') response stage) (\<lambda>_.
     ok (parseKubernetesDeploymentObservation (hr_body response))))"

subsection \<open>Kubernetes: one reconciliation\<close>

definition buildKubernetesResult ::
    "target_input \<Rightarrow> target_ref \<Rightarrow> bool \<Rightarrow> rat option \<Rightarrow> rat option \<Rightarrow> target_outcome \<Rightarrow> target_phase \<Rightarrow>
     target_stage option \<Rightarrow> string option \<Rightarrow> string option \<Rightarrow> deployment_observation option \<Rightarrow> target_result" where
  "buildKubernetesResult input targetRef applied observedReplicas appliedReplicas out phase stage reasonCode message observed =
     with_observation observed
       ((plain_result ''kubernetes'' True applied input out phase)
          \<lparr>tr_observedReplicas := observedReplicas, tr_appliedReplicas := appliedReplicas, tr_stage := stage,
           tr_reasonCode := reasonCode, tr_targetRef := Some targetRef, tr_message := message\<rparr>)"

definition buildKubernetesErrorResult ::
    "target_input \<Rightarrow> kube_failure \<Rightarrow> target_ref option \<Rightarrow> rat option \<Rightarrow> deployment_observation option \<Rightarrow> target_result" where
  "buildKubernetesErrorResult input failure targetRef observedReplicas observed =
     (case classifyKubernetesError failure of (message, code, stage) \<Rightarrow>
        with_observation observed
          ((plain_result ''kubernetes'' True False input OutError PhError)
             \<lparr>tr_observedReplicas := observedReplicas, tr_stage := Some stage, tr_reasonCode := Some code,
              tr_targetRef := targetRef, tr_message := Some message\<rparr>))"

text \<open>After an accepted \<open>PATCH\<close>, the workload is read again; a failure to read it is reported, not thrown.\<close>

definition observe_rollout ::
    "'s kube_transport \<Rightarrow> kube_config \<Rightarrow> workload_resource \<Rightarrow> string \<Rightarrow> target_input \<Rightarrow> target_ref \<Rightarrow> string \<Rightarrow>
     deployment_observation \<Rightarrow> rat option \<Rightarrow> rat \<Rightarrow> ('s, kube_failure, target_result) fallible" where
  "observe_rollout request config workload authorization input targetRef name observed observedReplicas appliedReplicas s =
     (case readKubernetesDeploymentState request config workload authorization name StObserveRollout s of
        (Inl (KubeError message code stage status), s') \<Rightarrow>
          (Inr (buildKubernetesResult input targetRef True observedReplicas (Some appliedReplicas) OutScaled PhAccepted
             (Some StObserveRollout) (Some ''post_patch_observation_unavailable'')
             (Some (''scale request accepted but rollout observation is unavailable: '' @ message)) (Some observed)), s')
      | (Inl e, s') \<Rightarrow> (Inl e, s')
      | (Inr post, s') \<Rightarrow>
          let postPatchReplicas = or_else (or_opt (do_specReplicas post) (do_statusReplicas post)) appliedReplicas;
              built = (\<lambda>phase stage reasonCode message.
                buildKubernetesResult input targetRef True observedReplicas (Some postPatchReplicas) OutScaled phase
                  (Some stage) (Some reasonCode) (Some message) (Some post))
          in (Inr (if postPatchReplicas \<noteq> of_int (ti_desiredReplicas input)
                   then built PhAccepted StApplyScale ''scale_request_accepted''
                          ''scale request accepted and waiting for deployment spec to converge''
                   else if isKubernetesDeploymentReady post (ti_desiredReplicas input)
                   then built PhReady StObserveRollout ''rollout_ready''
                          (wr_displayName workload @ '' reached the desired replica target and is ready'')
                   else built PhProgressing StObserveRollout ''rollout_in_progress''
                          (wr_displayName workload @ '' accepted the new replica target and rollout is progressing'')), s'))"

definition target_ref_of :: "kube_config \<Rightarrow> workload_resource \<Rightarrow> string \<Rightarrow> target_ref" where
  "target_ref_of config workload name =
     \<lparr>tf_platform = TpKubernetes, tf_kind = Some (wr_kindName workload), tf_namespace = Some (kc_namespace config),
      tf_name = Some name,
      tf_discovery = Some (if truthy (kc_workloadName config) \<or> truthy (kc_deployment config)
        then DiscoveredExplicitly else DiscoveredByLabel),
      tf_selector = keep_truthy (kc_labelSelector config)\<rparr>"

definition scale_workload ::
    "'s kube_transport \<Rightarrow> kube_config \<Rightarrow> workload_resource \<Rightarrow> string \<Rightarrow> target_input \<Rightarrow> target_ref \<Rightarrow> string \<Rightarrow>
     deployment_observation \<Rightarrow> rat option \<Rightarrow> ('s, kube_failure, target_result) fallible" where
  "scale_workload request config workload authorization input targetRef name observed observedReplicas =
     then_do (lift_transport (request
         \<lparr>kr_action = PatchScale name (ti_desiredReplicas input), kr_config = config, kr_plural = wr_plural workload,
          kr_authorization = authorization\<rparr>)) (\<lambda>response.
     then_do (assertKubernetesSuccess (''patch '' @ wr_displayName workload @ '' scale'') response StApplyScale) (\<lambda>_.
     observe_rollout request config workload authorization input targetRef name observed observedReplicas
       (or_else (parseReplicas (hr_body response)) (of_int (ti_desiredReplicas input)))))"

text \<open>What is done once the workload has been read: hold a scale-down back, report, or scale.\<close>

definition decide_target ::
    "'s kube_transport \<Rightarrow> kube_config \<Rightarrow> workload_resource \<Rightarrow> string \<Rightarrow> target_input \<Rightarrow> target_ref \<Rightarrow> string \<Rightarrow>
     deployment_observation \<Rightarrow> rat option \<Rightarrow> ('s, kube_failure, target_result) fallible" where
  "decide_target request config workload authorization input targetRef name observed observedReplicas =
     (let desired = of_int (ti_desiredReplicas input)
      in case observedReplicas of
           Some n \<Rightarrow>
             if \<not> kc_allowScaleDown config \<and> desired < n
             then ok (buildKubernetesResult input targetRef False observedReplicas observedReplicas OutBlockedScaleDown PhBlocked
                    None (Some ''scale_down_disabled'') (Some ''scale down blocked by controller policy'') (Some observed))
             else if desired = n
             then if isKubernetesDeploymentReady observed (ti_desiredReplicas input)
                  then ok (buildKubernetesResult input targetRef False observedReplicas observedReplicas OutSteady PhReady
                         None None None (Some observed))
                  else ok (buildKubernetesResult input targetRef False observedReplicas observedReplicas OutSteady PhProgressing
                         (Some StObserveRollout) (Some ''rollout_in_progress'')
                         (Some (wr_displayName workload @ '' already targets desired replicas but rollout is still progressing''))
                         (Some observed))
             else scale_workload request config workload authorization input targetRef name observed observedReplicas
         | None \<Rightarrow> scale_workload request config workload authorization input targetRef name observed observedReplicas)"

definition kube_reconcile ::
    "'s kube_transport \<Rightarrow> (string \<Rightarrow> ('s, string, string) fallible) \<Rightarrow> kube_config \<Rightarrow> target_input \<Rightarrow> 's \<Rightarrow>
     target_result \<times> 's" where
  "kube_reconcile request readToken config input s =
     (let workload = kubernetesWorkloadResource (or_else (kc_workloadKind config) DeploymentKind)
      in case (case or_opt (kc_workloadName config) (kc_deployment config) of
                 Some name \<Rightarrow> ok name s
               | None \<Rightarrow> discoverKubernetesWorkloadName request readToken config workload s) of
           (Inl e, s1) \<Rightarrow> (buildKubernetesErrorResult input e None None None, s1)
         | (Inr name, s1) \<Rightarrow>
             let targetRef = target_ref_of config workload name
             in case buildKubernetesAuthHeaders readToken (kc_tokenFile config) s1 of
                  (Inl e, s2) \<Rightarrow> (buildKubernetesErrorResult input e (Some targetRef) None None, s2)
                | (Inr authorization, s2) \<Rightarrow>
                    case readKubernetesDeploymentState request config workload authorization name StReadState s2 of
                      (Inl e, s3) \<Rightarrow> (buildKubernetesErrorResult input e (Some targetRef) None None, s3)
                    | (Inr observed, s3) \<Rightarrow>
                        let observedReplicas = or_opt (do_specReplicas observed) (do_statusReplicas observed)
                        in case decide_target request config workload authorization input targetRef name observed observedReplicas s3 of
                             (Inl e, s4) \<Rightarrow> (buildKubernetesErrorResult input e (Some targetRef) observedReplicas (Some observed), s4)
                           | (Inr r, s4) \<Rightarrow> (r, s4))"


subsection \<open>What a reconciliation does to the workload\<close>

text \<open>
  What the Kubernetes API documents of the three requests: a workload that is read reports the replicas of its
  specification, only a scale request changes them, and one that is accepted sets them. A scale request whose
  reply is lost may or may not have been applied. Reading the token file does not touch the workload.
\<close>

locale kube_api =
  fixes request :: "'s kube_transport" and readToken :: "string \<Rightarrow> ('s, string, string) fallible"
    and replicas :: "string \<Rightarrow> 's \<Rightarrow> int"
  assumes token_keeps: "replicas w (snd (readToken f s)) = replicas w s"
    and list_keeps: "kr_action r = ListWorkloads sel \<Longrightarrow> replicas w (snd (request r s)) = replicas w s"
    and read_keeps: "kr_action r = ReadWorkload n \<Longrightarrow> replicas w (snd (request r s)) = replicas w s"
    and read_spec: "kr_action r = ReadWorkload n \<Longrightarrow> request r s = (Inr reply, s') \<Longrightarrow>
      200 \<le> hr_status reply \<Longrightarrow> hr_status reply < 300 \<Longrightarrow>
      readNestedNumber (hr_body reply) [''spec'', ''replicas''] = Some (of_int (replicas n s))"
    and patch_sets: "kr_action r = PatchScale n k \<Longrightarrow> request r s = (Inr reply, s') \<Longrightarrow>
      200 \<le> hr_status reply \<Longrightarrow> hr_status reply < 300 \<Longrightarrow> replicas n s' = k"
    and patch_may_set: "kr_action r = PatchScale n k \<Longrightarrow> replicas n (snd (request r s)) \<in> {replicas n s, k}"
    and patch_other: "kr_action r = PatchScale n k \<Longrightarrow> w \<noteq> n \<Longrightarrow> replicas w (snd (request r s)) = replicas w s"
begin

lemma token_headers: "replicas w (snd (buildKubernetesAuthHeaders readToken f s)) = replicas w s"
  using token_keeps [of w f s]
  by (auto simp: buildKubernetesAuthHeaders_def then_do_def lift_transport_def Let_def split: prod.splits sum.splits)

lemma assert_state: "assertKubernetesSuccess operation reply stage s = (r, s') \<Longrightarrow> s' = s"
  by (auto simp: assertKubernetesSuccess_def Let_def split: if_splits)

lemma assert_ok: "assertKubernetesSuccess operation reply stage s = (Inr x, s') \<Longrightarrow>
    200 \<le> hr_status reply \<and> hr_status reply < 300 \<and> s' = s"
  by (auto simp: assertKubernetesSuccess_def Let_def split: if_splits)

lemma read_state:
  assumes "readKubernetesDeploymentState request config workload authorization n stage s = (r, s')"
  shows "replicas w s' = replicas w s" and "r = Inr d \<Longrightarrow> do_specReplicas d = Some (of_int (replicas n s))"
proof -
  let ?r = "\<lparr>kr_action = ReadWorkload n, kr_config = config, kr_plural = wr_plural workload, kr_authorization = authorization\<rparr>"
  obtain x t where x: "request ?r s = (x, t)" by force
  have keep: "replicas w t = replicas w s" using read_keeps [of ?r n w s] x by simp
  show "replicas w s' = replicas w s"
    using assms keep
    by (cases x) (auto simp: readKubernetesDeploymentState_def then_do_def lift_transport_def x split: prod.splits sum.splits
        dest!: assert_state)
  show "do_specReplicas d = Some (of_int (replicas n s))" if "r = Inr d"
    using assms that read_spec [of ?r n s _ t] x
    by (cases x) (auto simp: readKubernetesDeploymentState_def then_do_def lift_transport_def
        parseKubernetesDeploymentObservation_def split: prod.splits sum.splits dest!: assert_ok)
qed

lemma discover_keeps: "replicas w (snd (discoverKubernetesWorkloadName request readToken config workload s)) = replicas w s"
proof -
  let ?sel = "or_else (kc_labelSelector config) []"
  let ?r = "\<lambda>a. \<lparr>kr_action = ListWorkloads ?sel, kr_config = config, kr_plural = wr_plural workload, kr_authorization = a\<rparr>"
  obtain x t where x: "buildKubernetesAuthHeaders readToken (kc_tokenFile config) s = (x, t)" by force
  then have t: "replicas w t = replicas w s" using token_headers [of w "kc_tokenFile config" s] by simp
  show ?thesis
  proof (cases x)
    case (Inl e)
    then show ?thesis by (simp add: discoverKubernetesWorkloadName_def Let_def then_do_def x t)
  next
    case (Inr a)
    obtain y u where y: "request (?r a) t = (y, u)" by force
    then have "replicas w u = replicas w s" using list_keeps [of "?r a" ?sel w t] t by simp
    then show ?thesis
      by (cases y) (auto simp: discoverKubernetesWorkloadName_def Let_def then_do_def x Inr y lift_transport_def
          split: prod.splits sum.splits list.splits dest!: assert_state)
  qed
qed

lemma observe_keeps:
  "replicas w (snd (observe_rollout request config workload authorization input targetRef n observed m k s)) = replicas w s"
proof -
  obtain r t where r: "readKubernetesDeploymentState request config workload authorization n StObserveRollout s = (r, t)" by force
  then have "replicas w t = replicas w s" by (rule read_state(1))
  then show ?thesis by (auto simp: observe_rollout_def r Let_def split: sum.splits kube_failure.splits)
qed

text \<open>A scale request leaves the old or the desired number; when it is reported as accepted, the desired one.\<close>

lemma scale_workload_replicas:
  fixes n :: string and input :: target_input
  assumes "scale_workload request config workload authorization input targetRef n observed m s = (r, s')"
  shows "replicas n s' \<in> {replicas n s, ti_desiredReplicas input}"
    and "r = Inr res \<Longrightarrow> replicas n s' = ti_desiredReplicas input \<and> tr_outcome res = OutScaled"
proof -
  let ?r = "\<lparr>kr_action = PatchScale n (ti_desiredReplicas input), kr_config = config, kr_plural = wr_plural workload,
      kr_authorization = authorization\<rparr>"
  obtain x t where x: "request ?r s = (x, t)" by force
  have t: "replicas n t \<in> {replicas n s, ti_desiredReplicas input}"
    using patch_may_set [of ?r n "ti_desiredReplicas input" s] x by simp
  have "replicas n s' = replicas n t \<and>
      (r = Inr res \<longrightarrow> replicas n t = ti_desiredReplicas input \<and> tr_outcome res = OutScaled)"
  proof (cases x)
    case (Inl e)
    then show ?thesis using assms by (auto simp: scale_workload_def then_do_def lift_transport_def x)
  next
    case (Inr reply)
    obtain a u where a: "assertKubernetesSuccess (''patch '' @ wr_displayName workload @ '' scale'') reply StApplyScale t = (a, u)"
      by force
    then have u: "u = t" by (rule assert_state)
    show ?thesis
    proof (cases a)
      case i: (Inl e)
      then show ?thesis using assms a u by (auto simp: scale_workload_def then_do_def lift_transport_def x Inr)
    next
      case i: (Inr b)
      have "200 \<le> hr_status reply" "hr_status reply < 300" using assert_ok [OF a [unfolded i]] by auto
      with x Inr have k: "replicas n t = ti_desiredReplicas input"
        using patch_sets [of ?r n "ti_desiredReplicas input" s reply t] by simp
      have o: "observe_rollout request config workload authorization input targetRef n observed m
          (or_else (parseReplicas (hr_body reply)) (of_int (ti_desiredReplicas input))) t = (r, s')"
        using assms a u i by (simp add: scale_workload_def then_do_def lift_transport_def x Inr)
      then have "replicas n s' = replicas n t" using observe_keeps by (metis snd_conv)
      moreover have "tr_outcome res = OutScaled" if "r = Inr res"
        using o that
        by (auto simp: observe_rollout_def Let_def buildKubernetesResult_def with_observation_def plain_result_def
            split: prod.splits sum.splits kube_failure.splits if_splits option.splits)
      ultimately show ?thesis using k by simp
    qed
  qed
  then show "replicas n s' \<in> {replicas n s, ti_desiredReplicas input}"
    "r = Inr res \<Longrightarrow> replicas n s' = ti_desiredReplicas input \<and> tr_outcome res = OutScaled"
    using t by auto
qed

lemma outcome_built [simp]:
  "tr_outcome (buildKubernetesResult input targetRef applied m k out phase stage reason message observed) = out"
  "tr_outcome (buildKubernetesErrorResult input failure ref m observed) = OutError"
  by (auto simp: buildKubernetesResult_def buildKubernetesErrorResult_def with_observation_def plain_result_def
      split: option.splits prod.splits)

lemma decide_target_replicas:
  assumes "do_specReplicas observed = Some (of_int (replicas n s))"
    and "decide_target request config workload authorization input targetRef n observed
      (or_opt (do_specReplicas observed) (do_statusReplicas observed)) s = (r, s')"
  shows "replicas n s' = replicas n s \<or>
      replicas n s' = ti_desiredReplicas input \<and> (kc_allowScaleDown config \<or> replicas n s \<le> ti_desiredReplicas input)"
    and "r = Inr res \<Longrightarrow> (if tr_outcome res = OutScaled then replicas n s' = ti_desiredReplicas input
      else replicas n s' = replicas n s \<and> (tr_outcome res = OutSteady \<longleftrightarrow> ti_desiredReplicas input = replicas n s))"
proof -
  consider (blocked) "\<not> kc_allowScaleDown config" "ti_desiredReplicas input < replicas n s"
    | (steady) "ti_desiredReplicas input = replicas n s"
    | (scaled) "kc_allowScaleDown config \<or> replicas n s \<le> ti_desiredReplicas input" "ti_desiredReplicas input \<noteq> replicas n s"
    by linarith
  note cases = this
  show "replicas n s' = replicas n s \<or>
      replicas n s' = ti_desiredReplicas input \<and> (kc_allowScaleDown config \<or> replicas n s \<le> ti_desiredReplicas input)"
    using cases
  proof cases
    case scaled
    then have "scale_workload request config workload authorization input targetRef n observed (Some (of_int (replicas n s))) s = (r, s')"
      using assms by (auto simp: decide_target_def Let_def split: if_splits)
    then show ?thesis using scale_workload_replicas(1) scaled(1) by blast
  qed (use assms in \<open>auto simp: decide_target_def Let_def split: if_splits\<close>)
  show "if tr_outcome res = OutScaled then replicas n s' = ti_desiredReplicas input
      else replicas n s' = replicas n s \<and> (tr_outcome res = OutSteady \<longleftrightarrow> ti_desiredReplicas input = replicas n s)"
    if "r = Inr res"
    using cases
  proof cases
    case scaled
    then have "scale_workload request config workload authorization input targetRef n observed (Some (of_int (replicas n s))) s = (r, s')"
      using assms by (auto simp: decide_target_def Let_def split: if_splits)
    then show ?thesis using scale_workload_replicas(2) that by auto
  qed (use assms that in \<open>auto simp: decide_target_def Let_def split: if_splits\<close>)
qed

lemma scale_workload_other:
  assumes "scale_workload request config workload authorization input targetRef n observed m s = (r, s')" "w \<noteq> n"
  shows "replicas w s' = replicas w s"
proof -
  let ?r = "\<lparr>kr_action = PatchScale n (ti_desiredReplicas input), kr_config = config, kr_plural = wr_plural workload,
      kr_authorization = authorization\<rparr>"
  obtain x t where x: "request ?r s = (x, t)" by force
  then have t: "replicas w t = replicas w s" using patch_other [of ?r n "ti_desiredReplicas input" w s] assms(2) by simp
  have "replicas w s' = replicas w t"
    using assms(1) observe_keeps [of w config workload authorization input targetRef n observed m _ t]
    by (cases x) (auto simp: scale_workload_def then_do_def lift_transport_def x split: prod.splits sum.splits dest!: assert_state,
        metis snd_conv)
  with t show ?thesis by simp
qed

lemma decide_target_other:
  assumes "decide_target request config workload authorization input targetRef n observed m s = (r, s')" "w \<noteq> n"
  shows "replicas w s' = replicas w s"
  using assms scale_workload_other by (auto simp: decide_target_def Let_def split: option.splits if_splits)

lemma reconcile_replicas:
  assumes "kube_reconcile request readToken config input s = (res, s')"
  shows "(replicas w s' = replicas w s \<or>
      replicas w s' = ti_desiredReplicas input \<and> (kc_allowScaleDown config \<or> replicas w s \<le> ti_desiredReplicas input)) \<and>
    (or_opt (kc_workloadName config) (kc_deployment config) = Some n \<and> tr_outcome res \<in> {OutScaled, OutSteady} \<longrightarrow>
      replicas n s' = ti_desiredReplicas input)"
proof -
  let ?wl = "kubernetesWorkloadResource (or_else (kc_workloadKind config) DeploymentKind)"
  define named where "named = (case or_opt (kc_workloadName config) (kc_deployment config) of
      Some name \<Rightarrow> ok name s | None \<Rightarrow> discoverKubernetesWorkloadName request readToken config ?wl s)"
  obtain x s1 where x: "named = (x, s1)" by force
  have s1: "replicas w s1 = replicas w s" for w
    using x discover_keeps [of w config ?wl s] by (auto simp: named_def split: option.splits)
  note run = assms [unfolded kube_reconcile_def Let_def, folded named_def, unfolded x]
  show ?thesis
  proof (cases x)
    case (Inl e)
    then show ?thesis using run s1 by auto
  next
    case name: (Inr k)
    obtain y s2 where y: "buildKubernetesAuthHeaders readToken (kc_tokenFile config) s1 = (y, s2)" by force
    have s2: "replicas w s2 = replicas w s" for w using token_headers [of w "kc_tokenFile config" s1] y s1 by simp
    show ?thesis
    proof (cases y)
      case (Inl e)
      then show ?thesis using run s2 by (auto simp: name y)
    next
      case auth: (Inr a)
      obtain z s3 where z: "readKubernetesDeploymentState request config ?wl a k StReadState s2 = (z, s3)" by force
      have s3: "replicas w s3 = replicas w s" for w using read_state(1) [OF z] s2 by simp
      show ?thesis
      proof (cases z)
        case (Inl e)
        then show ?thesis using run s3 by (auto simp: name y auth z)
      next
        case obs: (Inr d)
        have spec: "do_specReplicas d = Some (of_int (replicas k s3))" using read_state(2) [OF z obs] s2 s3 by simp
        let ?m = "or_opt (do_specReplicas d) (do_statusReplicas d)"
        obtain r t where r: "decide_target request config ?wl a input (target_ref_of config ?wl k) k d ?m s3 = (r, t)" by force
        have t: "s' = t" "tr_outcome res = (case r of Inl e \<Rightarrow> OutError | Inr q \<Rightarrow> tr_outcome q)"
          using run by (auto simp: name y auth z obs r split: sum.splits)
        have "replicas w t = replicas w s \<or>
            replicas w t = ti_desiredReplicas input \<and> (kc_allowScaleDown config \<or> replicas w s \<le> ti_desiredReplicas input)"
          using decide_target_replicas(1) [OF spec r] decide_target_other [OF r, of w] s3 by (cases "w = k") auto
        moreover have "replicas n t = ti_desiredReplicas input"
          if "or_opt (kc_workloadName config) (kc_deployment config) = Some n" "tr_outcome res \<in> {OutScaled, OutSteady}"
        proof -
          have "n = k" using that(1) x name by (simp add: named_def)
          then show ?thesis
            using decide_target_replicas(2) [OF spec r] that(2) t s3 by (cases r) (auto split: if_splits)
        qed
        ultimately show ?thesis using t by blast
      qed
    qed
  qed
qed

end

text \<open>
  C24: a reconciliation keeps to the policy. Whatever fails on the way, every workload has the replicas it had or
  the desired number, and fewer than it had only where scaling down is allowed; when the result says that the
  named workload was scaled or is steady, it has the desired number.
\<close>

theorem reconciliation_keeps_policy:
  assumes "kube_api request readToken replicas" "kube_reconcile request readToken config input s = (res, s')"
  shows "(replicas w s' = replicas w s \<or>
      replicas w s' = ti_desiredReplicas input \<and> (kc_allowScaleDown config \<or> replicas w s \<le> ti_desiredReplicas input)) \<and>
    (or_opt (kc_workloadName config) (kc_deployment config) = Some n \<and> tr_outcome res \<in> {OutScaled, OutSteady} \<longrightarrow>
      replicas n s' = ti_desiredReplicas input)"
  by (rule kube_api.reconcile_replicas [OF assms])

text \<open>A cluster that answers every request as documented: one map from workloads to replicas.\<close>

definition cluster_replicas :: "string \<Rightarrow> (string, int) jmap \<Rightarrow> int" where
  "cluster_replicas w cluster = or_else (map_of cluster w) 0"

definition cluster_reply :: "string \<Rightarrow> (string, int) jmap \<Rightarrow> http_reply" where
  "cluster_reply n cluster =
     \<lparr>hr_status = 200,
      hr_body = Some (JObj [(''spec'', JObj [(''replicas'', JNum (of_int (cluster_replicas n cluster)))])]), hr_text = []\<rparr>"

definition cluster_request :: "(string, int) jmap kube_transport" where
  "cluster_request r cluster =
     (case kr_action r of
        ListWorkloads sel \<Rightarrow>
          (Inr \<lparr>hr_status = 200,
                hr_body = Some (JObj [(''items'', JArr (map (\<lambda>(n, k). JObj [(''metadata'', JObj [(''name'', JStr n)])]) cluster))]),
                hr_text = []\<rparr>,
           cluster)
      | ReadWorkload n \<Rightarrow> (Inr (cluster_reply n cluster), cluster)
      | PatchScale n k \<Rightarrow> let cluster' = AList.update n k cluster in (Inr (cluster_reply n cluster'), cluster'))"

interpretation cluster: kube_api cluster_request "\<lambda>f s. (Inr ''token'', s)" cluster_replicas
  by unfold_locales
    (auto simp: cluster_request_def cluster_reply_def cluster_replicas_def readNestedNumber_def jmap_get_set Let_def)

definition kube_example :: kube_config where
  "kube_example =
     \<lparr>kc_allowScaleDown = False, kc_namespace = ''oah'', kc_workloadKind = None, kc_workloadName = Some ''sandbox'',
      kc_deployment = None, kc_labelSelector = None, kc_apiUrl = ''https://k'', kc_tokenFile = ''/t'', kc_caFile = None,
      kc_skipTlsVerify = False\<rparr>"

definition target_example :: "int \<Rightarrow> target_input" where
  "target_example k =
     \<lparr>ti_timestamp = ''t'', ti_reason = ''steady'', ti_desiredReplicas = k, ti_suggestedReplicas = k, ti_activeReplicas = 2, ti_activeSlots = 4,
      ti_busySlots = 1, ti_readySessionCount = None, ti_oldestSchedulableReadyAgeMs = None\<rparr>"

lemma reconciliation_keeps_policy_witness:
  "tr_outcome (fst (kube_reconcile cluster_request (\<lambda>f s. (Inr ''token'', s)) kube_example (target_example 5) [(''sandbox'', 2)])) = OutScaled \<and>
   cluster_replicas ''sandbox''
     (snd (kube_reconcile cluster_request (\<lambda>f s. (Inr ''token'', s)) kube_example (target_example 5) [(''sandbox'', 2)])) = 5"
proof -
  let ?run = "kube_reconcile cluster_request (\<lambda>f s. (Inr ''token'', s)) kube_example (target_example 5) [(''sandbox'', 2)]"
  have scaled: "tr_outcome (fst ?run) = OutScaled" by code_simp
  have "or_opt (kc_workloadName kube_example) (kc_deployment kube_example) = Some ''sandbox''"
    "ti_desiredReplicas (target_example 5) = 5"
    by (simp_all add: kube_example_def target_example_def)
  with scaled reconciliation_keeps_policy [OF cluster.kube_api_axioms, of kube_example "target_example 5" "[(''sandbox'', 2)]"
      "fst ?run" "snd ?run" _ "''sandbox''"]
  show ?thesis by simp
qed

text \<open>The policy that forbids scaling down holds a lower target back.\<close>

lemma scale_down_held_back:
  "tr_outcome (fst (kube_reconcile cluster_request (\<lambda>f s. (Inr ''token'', s)) kube_example (target_example 1) [(''sandbox'', 2)]))
    = OutBlockedScaleDown"
  by code_simp

subsection \<open>Docker Compose\<close>

text \<open>
  The local Compose target. \<open>listContainers\<close> stands for the two commands that list and inspect the
  containers of the service, \<open>run\<close> runs a command with its arguments; both may fail.
\<close>

record compose_config =
  dc_allowScaleDown :: bool
  dc_composeFile :: "string option"
  dc_projectName :: string
  dc_service :: string
  dc_command :: string

record managed_container =
  mc_id :: string
  mc_name :: string
  mc_running :: bool

record command_result =
  cr_code :: int
  cr_stdout :: string
  cr_stderr :: string

definition composeArgs :: "compose_config \<Rightarrow> string list \<Rightarrow> string list" where
  "composeArgs config args =
     [dc_command config, ''compose''] @
     (case keep_truthy (dc_composeFile config) of Some file \<Rightarrow> [''-f'', file] | None \<Rightarrow> []) @
     [''-p'', dc_projectName config] @ args"

definition compose_reconcile ::
    "('s, string, managed_container list) fallible \<Rightarrow> (string list \<Rightarrow> ('s, string, command_result) fallible) \<Rightarrow>
     compose_config \<Rightarrow> target_input \<Rightarrow> ('s, string, target_result) fallible" where
  "compose_reconcile listContainers run config input =
     then_do listContainers (\<lambda>containers.
       let running = int (length (filter mc_running containers));
           desired = ti_desiredReplicas input;
           targetRef = \<lparr>tf_platform = TpDockerCompose, tf_kind = Some ''service'', tf_namespace = None,
                        tf_name = Some (dc_service config), tf_discovery = None, tf_selector = None\<rparr>;
           result = (\<lambda>applied out phase reasonCode applied_to message.
             (plain_result ''docker_compose'' True applied input out phase)
               \<lparr>tr_observedReplicas := Some (of_int running), tr_appliedReplicas := Some (of_int applied_to),
                tr_reasonCode := reasonCode, tr_targetRef := Some targetRef, tr_message := message\<rparr>)
       in if \<not> dc_allowScaleDown config \<and> desired < running
          then ok (result False OutBlockedScaleDown PhBlocked (Some ''scale_down_disabled'') running
                 (Some ''scale down blocked by controller policy''))
          else if desired = running
          then ok (result False OutSteady PhSteady None running None)
          else then_do (run (composeArgs config
                 [''up'', ''-d'', ''--no-deps'', ''--scale'', dc_service config @ ''='' @ js_show (nat desired), dc_service config]))
                 (\<lambda>r. if cr_code r \<noteq> 0
                    then throw (if js_trim (cr_stderr r) \<noteq> [] then js_trim (cr_stderr r)
                           else if js_trim (cr_stdout r) \<noteq> [] then js_trim (cr_stdout r)
                           else ''docker compose reconcile failed'')
                    else ok (result True OutScaled PhAccepted (Some ''scale_request_accepted'') desired
                           (keep_truthy (Some (js_trim (cr_stdout r)))))))"

text \<open>The policy holds here too: a lower target runs no command where scaling down is not allowed.\<close>

lemma compose_holds_back:
  assumes "listContainers s = (Inr containers, s')" "\<not> dc_allowScaleDown config"
    and "ti_desiredReplicas input < int (length (filter mc_running containers))"
  shows "\<exists>r. compose_reconcile listContainers run config input s = (Inr r, s') \<and> tr_outcome r = OutBlockedScaleDown"
  using assms by (simp add: compose_reconcile_def then_do_def plain_result_def)

end
