(* ===== verification/Controller.thy ===== *)
theory Controller
  imports Controller_Decisions Scale_Targets
begin

text \<open>
  The controller itself (\<open>apps/controller/src/controller.ts\<close>): executing the operations on the
  placements through a placement registry, one evaluation (\<open>evaluateNow\<close>) with all that it reads and
  calls, the snapshot it leaves, and the log. The registry, the health probe and the scale target are parameters;
  what the clock says is an argument. The text of the log line and the timer are not modelled.
\<close>

subsection \<open>Executing the operations\<close>

record 's ownership_ports =
  po_setPreferredWorker :: "string \<Rightarrow> string \<Rightarrow> string \<Rightarrow> ('s, string, unit) fallible"
  po_releaseOwnership :: "string \<Rightarrow> string option \<Rightarrow> string \<Rightarrow> ('s, string, unit) fallible"

datatype execution_status = Applied | Skipped | Failed

record execution_result =
  er_operation :: placement_operation
  er_status :: execution_status
  er_message :: string

record execution_report =
  ex_attempted :: int
  ex_applied :: int
  ex_skipped :: int
  ex_failed :: int
  ex_operations :: "execution_result list"

text \<open>One round of the loop; an error of the registry is caught and reported.\<close>

definition execute_operation :: "'s ownership_ports \<Rightarrow> string \<Rightarrow> placement_operation \<Rightarrow> 's \<Rightarrow> execution_result \<times> 's" where
  "execute_operation ports timestamp operation =
     (let result = (\<lambda>status message. \<lparr>er_operation = operation, er_status = status, er_message = message\<rparr>);
          target = keep_truthy (op_targetWorkerId operation)
      in catching
           (case (op_action operation, target) of
              (SetPreferredWorker, None) \<Rightarrow>
                ok (result Skipped ''no healthy target worker was available for the requested placement hint update'')
            | (SetPreferredWorker, Some workerId) \<Rightarrow>
                then_do (po_setPreferredWorker ports (op_workspaceId operation) workerId timestamp)
                  (\<lambda>_. ok (result Applied (''controller preferred worker hint was updated to '' @ workerId)))
            | (ReleaseOwnership, _) \<Rightarrow>
                then_do (po_releaseOwnership ports (op_workspaceId operation) target timestamp)
                  (\<lambda>_. ok (result Applied
                     (case target of
                        Some workerId \<Rightarrow> ''workspace ownership was released for controller-driven reassignment toward '' @ workerId
                      | None \<Rightarrow> ''workspace ownership was released for controller-driven reassignment''))))
           (\<lambda>message s. (result Failed message, s)))"

primrec execute_operations ::
    "'s ownership_ports \<Rightarrow> string \<Rightarrow> placement_operation list \<Rightarrow> 's \<Rightarrow> execution_result list \<times> 's" where
  "execute_operations ports timestamp [] s = ([], s)"
| "execute_operations ports timestamp (operation # operations) s =
     (let (result, s1) = execute_operation ports timestamp operation s;
          (results, s2) = execute_operations ports timestamp operations s1
      in (result # results, s2))"

definition report_of :: "execution_result list \<Rightarrow> execution_report" where
  "report_of results =
     \<lparr>ex_attempted = int (length results),
      ex_applied = count_if (\<lambda>r. er_status r = Applied) results,
      ex_skipped = count_if (\<lambda>r. er_status r = Skipped) results,
      ex_failed = count_if (\<lambda>r. er_status r = Failed) results,
      ex_operations = results\<rparr>"

definition execute_placement_actions ::
    "'s ownership_ports \<Rightarrow> operation_config \<Rightarrow> string \<Rightarrow> placement list \<Rightarrow> worker_entry list \<Rightarrow> 's \<Rightarrow>
     execution_report option \<times> 's" where
  "execute_placement_actions ports config timestamp placements activeWorkers s =
     (let operations = buildPlacementExecutionOperations placements activeWorkers config
      in if operations = [] then (None, s)
         else let (results, s') = execute_operations ports timestamp operations s in (Some (report_of results), s'))"

lemma report_adds_up:
  "ex_attempted (report_of rs) = ex_applied (report_of rs) + ex_skipped (report_of rs) + ex_failed (report_of rs)"
proof -
  have "int (length rs) = count_if (\<lambda>r. er_status r = Applied) rs + count_if (\<lambda>r. er_status r = Skipped) rs +
      count_if (\<lambda>r. er_status r = Failed) rs"
  proof (induction rs)
    case (Cons r rs)
    then show ?case by (cases "er_status r") simp_all
  qed simp
  then show ?thesis by (simp add: report_of_def)
qed

subsection \<open>What is logged\<close>

record logged_state =
  lg_reason :: control_reason
  lg_desiredReplicas :: int
  lg_suggestedReplicas :: int
  lg_activeReplicas :: int
  lg_activeSlots :: int
  lg_busySlots :: int
  lg_effectiveCapacityPerReplica :: int
  lg_readySessionCount :: "int option"
  lg_scaleDownAllowed :: "bool option"
  lg_scaleDownBlockedReplicas :: int
  lg_sandboxProvider :: provider_kind
  lg_sandboxDesired :: int
  lg_sandboxLogical :: int
  lg_sandboxOwnerGroups :: int
  lg_placementMissingOwners :: int
  lg_placementLateOwners :: int
  lg_placementOwnersSpanningWorkers :: int
  lg_placementSandboxesAboveWorkspaceCapacity :: int
  lg_placementRecommendations :: int
  lg_placementActionItems :: int
  lg_placementExecutionAttempted :: int
  lg_placementExecutionApplied :: int
  lg_placementExecutionSkipped :: int
  lg_placementExecutionFailed :: int
  lg_targetKind :: string
  lg_targetOutcome :: "target_outcome option"

record control_snapshot =
  sn_running :: bool
  sn_minReplicas :: int
  sn_maxReplicas :: int
  sn_suggestedReplicas :: int
  sn_desiredReplicas :: int
  sn_suggestedWorkers :: int
  sn_activeReplicas :: int
  sn_busyReplicas :: int
  sn_activeSlots :: int
  sn_busySlots :: int
  sn_idleSlots :: int
  sn_effectiveCapacityPerReplica :: int
  sn_readySessionsPerCapacityUnit :: int
  sn_reservedSubagentCapacity :: int
  sn_readySessionCount :: "int option"
  sn_subagentReadySessionCount :: "int option"
  sn_oldestSchedulableReadyAgeMs :: "int option"
  sn_lastRebalanceAt :: "string option"
  sn_lastRebalanceReason :: "control_reason option"
  sn_scaleUpPressureStreak :: int
  sn_scaleDownPressureStreak :: int
  sn_scaleUpCooldownRemainingMs :: int
  sn_scaleDownCooldownRemainingMs :: int
  sn_sandboxFleet :: "sandbox_fleet option"
  sn_placement :: "placement_summary option"
  sn_placementPolicy :: "placement_policy option"
  sn_placementRecommendations :: "recommendation list option"
  sn_placementActionPlan :: "action_plan option"
  sn_placementExecution :: "execution_report option"
  sn_scaleDownGate :: "scale_down_gate option"
  sn_scaleTarget :: "target_result option"
  sn_recentDecisions :: "control_decision list"

text \<open>An execution report, or none, gives the counts \<open>0\<close>; so do the other optional parts.\<close>

definition count_of :: "('a \<Rightarrow> int) \<Rightarrow> 'a option \<Rightarrow> int" where
  "count_of f x = or_else (map_option f x) 0"

text \<open>\<open>buildControllerLoggedState\<close> reads what the snapshot of the same evaluation holds.\<close>

definition buildControllerLoggedState :: "control_reason \<Rightarrow> sandbox_fleet \<Rightarrow> control_snapshot \<Rightarrow> logged_state" where
  "buildControllerLoggedState reason sandboxFleet sn =
     \<lparr>lg_reason = reason,
      lg_desiredReplicas = sn_desiredReplicas sn,
      lg_suggestedReplicas = sn_suggestedReplicas sn,
      lg_activeReplicas = sn_activeReplicas sn,
      lg_activeSlots = sn_activeSlots sn,
      lg_busySlots = sn_busySlots sn,
      lg_effectiveCapacityPerReplica = sn_effectiveCapacityPerReplica sn,
      lg_readySessionCount = sn_readySessionCount sn,
      lg_scaleDownAllowed = map_option gt_allowed (sn_scaleDownGate sn),
      lg_scaleDownBlockedReplicas = count_of gt_blockedReplicas (sn_scaleDownGate sn),
      lg_sandboxProvider = sc_providerKind (sf_config sandboxFleet),
      lg_sandboxDesired = sf_desiredSandboxes sandboxFleet,
      lg_sandboxLogical = sf_logicalSandboxes sandboxFleet,
      lg_sandboxOwnerGroups = sf_ownerGroups sandboxFleet,
      lg_placementMissingOwners = count_of pls_ownedByMissingWorkers (sn_placement sn),
      lg_placementLateOwners = count_of pls_ownedByLateWorkers (sn_placement sn),
      lg_placementOwnersSpanningWorkers = count_of pp_ownersSpanningWorkers (sn_placementPolicy sn),
      lg_placementSandboxesAboveWorkspaceCapacity = count_of pp_sandboxesAboveWorkspaceCapacity (sn_placementPolicy sn),
      lg_placementRecommendations = count_of (\<lambda>rs. int (length rs)) (sn_placementRecommendations sn),
      lg_placementActionItems = count_of plan_totalItems (sn_placementActionPlan sn),
      lg_placementExecutionAttempted = count_of ex_attempted (sn_placementExecution sn),
      lg_placementExecutionApplied = count_of ex_applied (sn_placementExecution sn),
      lg_placementExecutionSkipped = count_of ex_skipped (sn_placementExecution sn),
      lg_placementExecutionFailed = count_of ex_failed (sn_placementExecution sn),
      lg_targetKind = or_else (map_option tr_kind (sn_scaleTarget sn)) ''none'',
      lg_targetOutcome = map_option tr_outcome (sn_scaleTarget sn)\<rparr>"

definition controllerRebalanceLogHeartbeatMs :: "control_reason \<Rightarrow> int \<Rightarrow> int" where
  "controllerRebalanceLogHeartbeatMs reason scaleIntervalMs = max scaleIntervalMs (if reason = CSteady then 60000 else 15000)"

text \<open>The comparison of the two states goes over all of their fields.\<close>

definition shouldLogControllerRebalance ::
    "logged_state option \<Rightarrow> int option \<Rightarrow> logged_state \<Rightarrow> int \<Rightarrow> int \<Rightarrow> bool" where
  "shouldLogControllerRebalance lastLoggedState lastLoggedAtMs nextLoggedState nowMs scaleIntervalMs =
     (case (lastLoggedState, lastLoggedAtMs) of
        (Some logged, Some loggedAt) \<Rightarrow>
          logged \<noteq> nextLoggedState \<or>
          nowMs - loggedAt \<ge> controllerRebalanceLogHeartbeatMs (lg_reason nextLoggedState) scaleIntervalMs
      | _ \<Rightarrow> True)"

subsection \<open>One evaluation\<close>

record 's control_ports =
  cp_listPlacements :: "('s \<Rightarrow> placement list \<times> 's) option"
  cp_execute :: "(string \<Rightarrow> placement list \<Rightarrow> worker_entry list \<Rightarrow> 's \<Rightarrow> execution_report option \<times> 's) option"
  cp_healthProbe :: health_probe
  cp_scaleTarget :: "(string \<times> (target_input \<Rightarrow> ('s, string, target_result) fallible)) option"

text \<open>What an evaluation reads besides the ports: the active workers, the queue, and the clock at four places.\<close>

record evaluation_input =
  ei_activeWorkers :: "worker_entry list"
  ei_schedulingPressure :: "queue_pressure option"
  ei_timestamp :: string
  ei_gateEvaluatedAt :: string
  ei_decideMs :: int
  ei_nowMs :: int

record controller_state =
  ct_running :: bool
  ct_memory :: scale_memory
  ct_lastLoggedAtMs :: "int option"
  ct_lastLoggedState :: "logged_state option"
  ct_snapshot :: control_snapshot

text \<open>The four summaries of the placements that are made before and, if operations were applied, again after.\<close>

record placement_view =
  pv_summary :: "placement_summary option"
  pv_policy :: "placement_policy option"
  pv_recommendations :: "recommendation list option"
  pv_actionPlan :: "action_plan option"

definition placement_view_of :: "sandbox_config \<Rightarrow> placement list \<Rightarrow> worker_entry list \<Rightarrow> placement_view" where
  "placement_view_of sandboxes placements activeWorkers =
     (let capacity = sc_maxWorkspacesPerSandbox sandboxes;
          summary = summarizeWorkspacePlacements placements activeWorkers;
          policy = summarizePlacementPolicy placements activeWorkers capacity;
          recommendations =
            (if map_option pp_attentionRequired policy = Some True
             then summarizePlacementRecommendations summary policy placements activeWorkers (Some capacity) else None)
      in \<lparr>pv_summary = summary, pv_policy = policy, pv_recommendations = recommendations,
          pv_actionPlan = (if recommendations = None then None else summarizePlacementActionPlan recommendations)\<rparr>)"

definition list_placements :: "'s control_ports \<Rightarrow> 's \<Rightarrow> placement list option \<times> 's" where
  "list_placements ports s =
     (case cp_listPlacements ports of None \<Rightarrow> (None, s) | Some list \<Rightarrow> (case list s of (placements, s') \<Rightarrow> (Some placements, s')))"

text \<open>Reading the placements, executing operations when attention is required, and reading again.\<close>

definition attend_placements ::
    "'s control_ports \<Rightarrow> sandbox_config \<Rightarrow> string \<Rightarrow> worker_entry list \<Rightarrow> 's \<Rightarrow>
     (placement list \<times> placement_view \<times> execution_report option) \<times> 's" where
  "attend_placements ports sandboxes timestamp activeWorkers s =
     (let (listed, s1) = list_placements ports s;
          placements = or_else listed [];
          view = placement_view_of sandboxes placements activeWorkers;
          (report, s2) =
            (case cp_execute ports of
               Some execute \<Rightarrow>
                 if listed \<noteq> None \<and> map_option pp_attentionRequired (pv_policy view) = Some True
                 then execute timestamp placements activeWorkers s1 else (None, s1)
             | None \<Rightarrow> (None, s1))
      in if count_of ex_applied report > 0 \<and> cp_listPlacements ports \<noteq> None
         then let (relisted, s3) = list_placements ports s2;
                  placements' = or_else relisted []
              in ((placements', placement_view_of sandboxes placements' activeWorkers, report), s3)
         else ((placements, view, report), s2))"

definition control_reason_name :: "control_reason \<Rightarrow> string" where
  "control_reason_name r =
     (case r of
        CStartup \<Rightarrow> ''startup'' | CSteady \<Rightarrow> ''steady'' | CScaleUp \<Rightarrow> ''scale_up'' | CScaleDown \<Rightarrow> ''scale_down''
      | CCooldownHold \<Rightarrow> ''cooldown_hold'' | CScaleDownBlocked \<Rightarrow> ''scale_down_blocked''
      | CPlacementAttention \<Rightarrow> ''placement_attention'')"

definition reconcileScaleTarget :: "'s control_ports \<Rightarrow> target_input \<Rightarrow> 's \<Rightarrow> target_result option \<times> 's" where
  "reconcileScaleTarget ports input s =
     (case cp_scaleTarget ports of
        None \<Rightarrow> (None, s)
      | Some (kind, reconcile) \<Rightarrow>
          catching (then_do (reconcile input) (\<lambda>r. ok (Some r)))
            (\<lambda>message s'.
               (Some ((plain_result kind True False input OutError PhError)
                   \<lparr>tr_reasonCode := Some ''target_reconcile_exception'', tr_message := Some message\<rparr>), s')) s)"

definition suggestedReplicas_of :: "controller_config \<Rightarrow> sandbox_fleet \<Rightarrow> int \<Rightarrow> int" where
  "suggestedReplicas_of config sandboxFleet workloadSuggestedReplicas =
     max workloadSuggestedReplicas
       (if sc_managedByController (sf_config sandboxFleet)
        then max (cc_minReplicas config) (min (cc_maxReplicas config) (max 0 (sf_desiredSandboxes sandboxFleet)))
        else cc_minReplicas config)"

definition evaluateNow ::
    "'s control_ports \<Rightarrow> controller_config \<Rightarrow> sandbox_config \<Rightarrow> trigger \<Rightarrow> evaluation_input \<Rightarrow> controller_state \<Rightarrow> 's \<Rightarrow>
     controller_state \<times> 's" where
  "evaluateNow ports config sandboxes reason ei ct s =
     (let activeWorkers = ei_activeWorkers ei;
          pressure = ei_schedulingPressure ei;
          sized = calculateStandaloneWorkerReplicas config activeWorkers pressure;
          fleet = rs_fleet sized;
          active = wf_activeReplicas fleet;
          ((placements, view, execution), s1) = attend_placements ports sandboxes (ei_timestamp ei) activeWorkers s;
          sandboxFleet = summarizeSandboxFleet placements activeWorkers sandboxes;
          suggested = suggestedReplicas_of config sandboxFleet (rs_suggestedReplicas sized);
          gate = evaluateScaleDownGate (cp_healthProbe ports) activeWorkers (pv_summary view) (ei_gateEvaluatedAt ei);
          (desired, scaleDownGate, memory) = decideReplicas config suggested active reason gate (ei_decideMs ei) (ct_memory ct);
          rebalanceReason = ctrl_rebalanceReason reason desired suggested active scaleDownGate (pv_policy view);
          (scaleTarget, s2) = reconcileScaleTarget ports
            \<lparr>ti_timestamp = ei_timestamp ei, ti_reason = control_reason_name rebalanceReason, ti_desiredReplicas = desired,
             ti_suggestedReplicas = suggested, ti_activeReplicas = active, ti_activeSlots = wf_activeSlots fleet,
             ti_busySlots = wf_busySlots fleet, ti_readySessionCount = Option.bind pressure qp_readySessionCount,
             ti_oldestSchedulableReadyAgeMs = Option.bind pressure qp_oldestSchedulableReadyAgeMs\<rparr> s1;
          decision = \<lparr>cd_timestamp = ei_timestamp ei, cd_reason = rebalanceReason, cd_suggestedReplicas = suggested,
             cd_desiredReplicas = desired, cd_suggestedWorkers = rs_suggestedWorkers sized, cd_activeReplicas = active,
             cd_activeSlots = wf_activeSlots fleet, cd_busySlots = wf_busySlots fleet,
             cd_scaleDownAllowed = map_option gt_allowed scaleDownGate,
             cd_scaleDownBlockedReplicas = map_option gt_blockedReplicas scaleDownGate,
             cd_readySessionCount = Option.bind pressure qp_readySessionCount,
             cd_oldestSchedulableReadyAgeMs = Option.bind pressure qp_oldestSchedulableReadyAgeMs\<rparr>;
          snapshot = \<lparr>sn_running = ct_running ct, sn_minReplicas = cc_minReplicas config, sn_maxReplicas = cc_maxReplicas config,
             sn_suggestedReplicas = suggested, sn_desiredReplicas = desired, sn_suggestedWorkers = rs_suggestedWorkers sized,
             sn_activeReplicas = active, sn_busyReplicas = wf_busyReplicas fleet, sn_activeSlots = wf_activeSlots fleet,
             sn_busySlots = wf_busySlots fleet, sn_idleSlots = wf_idleSlots fleet,
             sn_effectiveCapacityPerReplica = wf_effectiveCapacityPerReplica fleet,
             sn_readySessionsPerCapacityUnit = cc_readySessionsPerCapacityUnit config,
             sn_reservedSubagentCapacity = cc_reservedSubagentCapacity config,
             sn_readySessionCount = Option.bind pressure qp_readySessionCount,
             sn_subagentReadySessionCount = Option.bind pressure qp_subagentReadySessionCount,
             sn_oldestSchedulableReadyAgeMs = Option.bind pressure qp_oldestSchedulableReadyAgeMs,
             sn_lastRebalanceAt = Some (ei_timestamp ei), sn_lastRebalanceReason = Some rebalanceReason,
             sn_scaleUpPressureStreak = sm_scaleUpPressureStreak memory,
             sn_scaleDownPressureStreak = sm_scaleDownPressureStreak memory,
             sn_scaleUpCooldownRemainingMs =
               controllerCooldownMs (sm_lastScaleUpAtMs memory) (cc_scaleUpCooldownMs config) (ei_nowMs ei),
             sn_scaleDownCooldownRemainingMs =
               controllerCooldownMs (ctrl_lastCapacityChangeAtMs memory) (cc_scaleDownCooldownMs config) (ei_nowMs ei),
             sn_sandboxFleet = Some sandboxFleet, sn_placement = pv_summary view, sn_placementPolicy = pv_policy view,
             sn_placementRecommendations = pv_recommendations view, sn_placementActionPlan = pv_actionPlan view,
             sn_placementExecution = execution, sn_scaleDownGate = scaleDownGate, sn_scaleTarget = scaleTarget,
             sn_recentDecisions = appendDecision (sn_recentDecisions (ct_snapshot ct)) decision 8\<rparr>;
          loggedState = buildControllerLoggedState rebalanceReason sandboxFleet snapshot;
          ct1 = ct\<lparr>ct_memory := memory, ct_snapshot := snapshot\<rparr>
      in (if shouldLogControllerRebalance (ct_lastLoggedState ct) (ct_lastLoggedAtMs ct) loggedState (ei_nowMs ei)
               (cc_scaleIntervalMs config)
          then ct1\<lparr>ct_lastLoggedState := Some loggedState, ct_lastLoggedAtMs := Some (ei_nowMs ei)\<rparr>
          else ct1, s2))"

definition initial_controller :: "controller_config \<Rightarrow> controller_state" where
  "initial_controller config =
     \<lparr>ct_running = False, ct_memory = no_memory, ct_lastLoggedAtMs = None, ct_lastLoggedState = None,
      ct_snapshot =
        \<lparr>sn_running = False, sn_minReplicas = cc_minReplicas config, sn_maxReplicas = cc_maxReplicas config,
         sn_suggestedReplicas = cc_minReplicas config, sn_desiredReplicas = cc_minReplicas config,
         sn_suggestedWorkers = cc_minReplicas config, sn_activeReplicas = 0, sn_busyReplicas = 0, sn_activeSlots = 0,
         sn_busySlots = 0, sn_idleSlots = 0, sn_effectiveCapacityPerReplica = 1,
         sn_readySessionsPerCapacityUnit = cc_readySessionsPerCapacityUnit config,
         sn_reservedSubagentCapacity = cc_reservedSubagentCapacity config, sn_readySessionCount = None,
         sn_subagentReadySessionCount = None, sn_oldestSchedulableReadyAgeMs = None, sn_lastRebalanceAt = None,
         sn_lastRebalanceReason = None, sn_scaleUpPressureStreak = 0, sn_scaleDownPressureStreak = 0,
         sn_scaleUpCooldownRemainingMs = 0, sn_scaleDownCooldownRemainingMs = 0, sn_sandboxFleet = None, sn_placement = None,
         sn_placementPolicy = None, sn_placementRecommendations = None, sn_placementActionPlan = None,
         sn_placementExecution = None, sn_scaleDownGate = None, sn_scaleTarget = None, sn_recentDecisions = []\<rparr>\<rparr>"

text \<open>\<open>start\<close> and \<open>stop\<close>, without the timer and the first evaluation, which the timer and the caller run.\<close>

definition start_controller :: "controller_state \<Rightarrow> controller_state" where
  "start_controller ct = ct\<lparr>ct_running := True\<rparr>"

definition stop_controller :: "controller_state \<Rightarrow> controller_state" where
  "stop_controller ct = ct\<lparr>ct_running := False\<rparr>"

subsection \<open>What every evaluation keeps\<close>

definition controller_ok :: "controller_state \<Rightarrow> bool" where
  "controller_ok ct \<longleftrightarrow>
     (let sn = ct_snapshot ct; mem = ct_memory ct
      in sn_minReplicas sn \<le> sn_suggestedReplicas sn \<and> sn_suggestedReplicas sn \<le> sn_maxReplicas sn \<and>
         sn_desiredReplicas sn \<in> {sn_activeReplicas sn, sn_suggestedReplicas sn} \<and>
         tidy_history (sn_recentDecisions sn) \<and>
         sn_scaleUpPressureStreak sn = sm_scaleUpPressureStreak mem \<and>
         sn_scaleDownPressureStreak sn = sm_scaleDownPressureStreak mem \<and>
         0 \<le> sm_scaleUpPressureStreak mem \<and> 0 \<le> sm_scaleDownPressureStreak mem \<and>
         (sm_scaleUpPressureStreak mem = 0 \<or> sm_scaleDownPressureStreak mem = 0))"

lemma suggested_within:
  assumes "cc_minReplicas config \<le> cc_maxReplicas config"
    and "cc_minReplicas config \<le> w" "w \<le> cc_maxReplicas config"
  shows "cc_minReplicas config \<le> suggestedReplicas_of config f w" "suggestedReplicas_of config f w \<le> cc_maxReplicas config"
  using assms by (auto simp: suggestedReplicas_of_def)

lemma replicas_within:
  assumes "cc_minReplicas config \<le> cc_maxReplicas config"
  shows "cc_minReplicas config \<le> rs_suggestedReplicas (calculateStandaloneWorkerReplicas config ws p)"
    "rs_suggestedReplicas (calculateStandaloneWorkerReplicas config ws p) \<le> cc_maxReplicas config"
  using assms by (simp_all add: calculateStandaloneWorkerReplicas_def Let_def)

text \<open>What an evaluation leaves behind, in terms of its parts.\<close>

lemma evaluateNow_cases:
  obtains placements view execution s1 desired gate memory f where
    "attend_placements ports sandboxes (ei_timestamp ei) (ei_activeWorkers ei) s = ((placements, view, execution), s1)"
    "f = wf_activeReplicas (rs_fleet (calculateStandaloneWorkerReplicas config (ei_activeWorkers ei) (ei_schedulingPressure ei)))"
    "decideReplicas config (suggestedReplicas_of config (summarizeSandboxFleet placements (ei_activeWorkers ei) sandboxes)
        (rs_suggestedReplicas (calculateStandaloneWorkerReplicas config (ei_activeWorkers ei) (ei_schedulingPressure ei))))
      f reason (evaluateScaleDownGate (cp_healthProbe ports) (ei_activeWorkers ei) (pv_summary view) (ei_gateEvaluatedAt ei))
      (ei_decideMs ei) (ct_memory ct) = (desired, gate, memory)"
    "ct_memory (fst (evaluateNow ports config sandboxes reason ei ct s)) = memory"
    "sn_suggestedReplicas (ct_snapshot (fst (evaluateNow ports config sandboxes reason ei ct s))) =
      suggestedReplicas_of config (summarizeSandboxFleet placements (ei_activeWorkers ei) sandboxes)
        (rs_suggestedReplicas (calculateStandaloneWorkerReplicas config (ei_activeWorkers ei) (ei_schedulingPressure ei)))"
    "sn_desiredReplicas (ct_snapshot (fst (evaluateNow ports config sandboxes reason ei ct s))) = desired"
    "sn_activeReplicas (ct_snapshot (fst (evaluateNow ports config sandboxes reason ei ct s))) = f"
    "sn_minReplicas (ct_snapshot (fst (evaluateNow ports config sandboxes reason ei ct s))) = cc_minReplicas config"
    "sn_maxReplicas (ct_snapshot (fst (evaluateNow ports config sandboxes reason ei ct s))) = cc_maxReplicas config"
    "sn_scaleUpPressureStreak (ct_snapshot (fst (evaluateNow ports config sandboxes reason ei ct s))) = sm_scaleUpPressureStreak memory"
    "sn_scaleDownPressureStreak (ct_snapshot (fst (evaluateNow ports config sandboxes reason ei ct s))) = sm_scaleDownPressureStreak memory"
    "\<exists>d. sn_recentDecisions (ct_snapshot (fst (evaluateNow ports config sandboxes reason ei ct s))) =
      appendDecision (sn_recentDecisions (ct_snapshot ct)) d 8"
proof -
  let ?sized = "calculateStandaloneWorkerReplicas config (ei_activeWorkers ei) (ei_schedulingPressure ei)"
  obtain placements view execution s1 where
    a: "attend_placements ports sandboxes (ei_timestamp ei) (ei_activeWorkers ei) s = ((placements, view, execution), s1)"
    by (metis prod.exhaust)
  obtain desired gate memory where
    d: "decideReplicas config (suggestedReplicas_of config (summarizeSandboxFleet placements (ei_activeWorkers ei) sandboxes)
        (rs_suggestedReplicas ?sized)) (wf_activeReplicas (rs_fleet ?sized)) reason
        (evaluateScaleDownGate (cp_healthProbe ports) (ei_activeWorkers ei) (pv_summary view) (ei_gateEvaluatedAt ei))
        (ei_decideMs ei) (ct_memory ct) = (desired, gate, memory)"
    by (metis prod.exhaust)
  show ?thesis
    by (rule that [OF a refl d])
      (simp_all add: evaluateNow_def Let_def a d split: prod.split, blast)
qed

lemma decide_streaks:
  assumes "decideReplicas config suggested active reason gate now mem = (desired, g, m)"
    and "0 \<le> sm_scaleUpPressureStreak mem" "0 \<le> sm_scaleDownPressureStreak mem"
  shows "0 \<le> sm_scaleUpPressureStreak m \<and> 0 \<le> sm_scaleDownPressureStreak m \<and>
    (sm_scaleUpPressureStreak m = 0 \<or> sm_scaleDownPressureStreak m = 0)"
proof -
  have m: "m = snd (snd (decideReplicas config suggested active reason gate now mem))" by (simp add: assms(1))
  show ?thesis using assms(2,3) by (simp add: m decide_memory(3,4))
qed

text \<open>
  C28: every evaluation keeps the controller in order. The suggestion lies within the limits, the wanted number
  is the present one or the suggested one, never both streaks count at once and the snapshot shows them, and the
  history holds at most eight decisions of which no two neighbours say the same.
\<close>

theorem evaluation_keeps_controller_ok:
  assumes "cc_minReplicas config \<le> cc_maxReplicas config" "controller_ok ct"
  shows "controller_ok (fst (evaluateNow ports config sandboxes reason ei ct s))"
proof (cases rule: evaluateNow_cases [of ports sandboxes ei s config reason ct, case_names parts])
  case (parts placements view execution s1 desired gate memory f)
  have "desired \<in> {f, sn_suggestedReplicas (ct_snapshot (fst (evaluateNow ports config sandboxes reason ei ct s)))}"
    using decide_desired [of config _ f reason] parts(3,5) by (metis fst_conv)
  moreover have "0 \<le> sm_scaleUpPressureStreak memory \<and> 0 \<le> sm_scaleDownPressureStreak memory \<and>
      (sm_scaleUpPressureStreak memory = 0 \<or> sm_scaleDownPressureStreak memory = 0)"
    by (rule decide_streaks [OF parts(3)]) (use assms(2) in \<open>simp_all add: controller_ok_def Let_def\<close>)
  moreover have "tidy_history (sn_recentDecisions (ct_snapshot (fst (evaluateNow ports config sandboxes reason ei ct s))))"
    using parts(12) appendDecision_tidy assms(2) by (auto simp: controller_ok_def Let_def)
  ultimately show ?thesis
    using suggested_within [OF assms(1) replicas_within [OF assms(1)]]
    by (simp add: controller_ok_def Let_def parts(4-11))
qed

definition unit_ports :: "unit control_ports" where
  "unit_ports =
     \<lparr>cp_listPlacements = None, cp_execute = None, cp_healthProbe = idle_probe, cp_scaleTarget = None\<rparr>"

definition evaluation_example :: "int \<Rightarrow> evaluation_input" where
  "evaluation_example t =
     \<lparr>ei_activeWorkers = [stoppable_worker], ei_schedulingPressure = si_schedulingPressure sizing_example,
      ei_timestamp = ''t'', ei_gateEvaluatedAt = ''t'', ei_decideMs = t, ei_nowMs = t\<rparr>"

lemma evaluation_keeps_controller_ok_witness:
  "controller_ok (fst (evaluateNow unit_ports example_config example_sandboxes OnInterval (evaluation_example 7)
     (initial_controller example_config) ()))"
  by (rule evaluation_keeps_controller_ok)
    (simp_all add: controller_ok_def initial_controller_def no_memory_def example_config_def tidy_history_def)

text \<open>The example wants more replicas than the one that is there.\<close>

lemma evaluation_scales_up:
  "sn_desiredReplicas (ct_snapshot (fst (evaluateNow unit_ports example_config example_sandboxes OnInterval (evaluation_example 7)
     (initial_controller example_config) ()))) > 1"
  by code_simp

end
