(* ===== verification/Redis_Hashes.thy ===== *)
theory Redis_Hashes
  imports Redis_Server
begin

text \<open>
  Hashes of the Redis server: what a client sees of them (\<open>hash_at\<close>), keys that only hold hashes
  (\<open>hash_slot\<close>), the effect of the commands on such a key, and transactions
  (\<open>multi().\<dots>.exec()\<close>), which run their commands in order with nothing in between.
\<close>

definition hash_at :: "redis_view \<Rightarrow> string \<Rightarrow> (string, string) jmap" where
  "hash_at v k = (case rv_live v k of Some (VHash h) \<Rightarrow> h | _ \<Rightarrow> [])"

definition hash_slot :: "redis_view \<Rightarrow> string \<Rightarrow> bool" where
  "hash_slot v k =
     (case rv_keys v k of None \<Rightarrow> True | Some (VHash h, d) \<Rightarrow> h \<noteq> [] \<and> jmap_wf h \<and> d = None | _ \<Rightarrow> False)"

definition put_hash :: "string \<Rightarrow> (string, string) jmap \<Rightarrow> redis_view \<Rightarrow> redis_view" where
  "put_hash k h v = (if h = [] then rv_remove [k] v else rv_put k (VHash h) None v)"

text \<open>The reply of \<open>HGETALL\<close> as the client's object.\<close>

fun pair_up :: "string list \<Rightarrow> (string \<times> string) list" where
  "pair_up (f # x # rest) = (f, x) # pair_up rest"
| "pair_up _ = []"

definition reply_fields :: "redis_reply \<Rightarrow> (string, string) jmap" where
  "reply_fields r = pair_up (bulk_strings r)"

lemma reply_fields_flat [simp]: "reply_fields (RMulti (flat_fields h)) = h"
  unfolding reply_fields_def
  by (induction h) (auto simp: flat_fields_def bulk_strings_def List.map_filter_simps)

lemma bulk_strings_bulks: "bulk_strings (RMulti (map RBulk xs)) = xs"
  by (induction xs) (simp_all add: bulk_strings_def List.map_filter_simps)

lemma set_fields_simps [simp]:
  "set_fields [] h = h" "set_fields ((f, x) # kvs) h = set_fields kvs (AList.update f x h)"
  by (simp_all add: set_fields_def)

lemma set_fields_get: "map_of (set_fields kvs h) f = (case map_of (rev kvs) f of Some x \<Rightarrow> Some x | None \<Rightarrow> map_of h f)"
proof (induction kvs arbitrary: h)
  case (Cons kv kvs)
  obtain k x where "kv = (k, x)" by (cases kv)
  with Cons show ?case by (auto simp: jmap_get_set map_add_def split: option.splits)
qed simp

lemma jmap_wf_set_fields [simp]: "jmap_wf h \<Longrightarrow> jmap_wf (set_fields kvs h)"
  by (induction kvs arbitrary: h) auto

lemma update_not_Nil [simp]: "AList.update f x h \<noteq> []"
  by (cases h) auto

lemma set_fields_Nil: "set_fields kvs h = [] \<longleftrightarrow> kvs = [] \<and> h = []"
proof (induction kvs arbitrary: h)
  case (Cons kv kvs)
  then show ?case by (cases kv) simp
qed simp

lemma hash_wf: "hash_slot v k \<Longrightarrow> jmap_wf (hash_at v k)"
  by (auto simp: hash_slot_def hash_at_def rv_live_def split: option.splits redis_value.splits)

lemma hash_commands:
  assumes "hash_slot v k"
  shows "snd (redis_law (HSet k kvs) v) = put_hash k (set_fields kvs (hash_at v k)) v"
    and "snd (redis_law (HDel k f) v) = put_hash k (AList.delete f (hash_at v k)) v"
    and "redis_law (HGetAll k) v = (RMulti (flat_fields (hash_at v k)), v)"
    and "snd (redis_law (Del [k]) v) = rv_remove [k] v"
proof -
  have wf: "AList.delete f (hash_at v k) = hash_at v k" if "map_of (hash_at v k) f = None"
    using that by (simp add: map_of_eq_None_iff delete_id)
  have same: "put_hash k (hash_at v k) v = v"
    using assms by (auto simp: hash_slot_def hash_at_def put_hash_def rv_live_def rv_put_def rv_remove_def fun_upd_idem
        split: option.splits redis_value.splits intro!: redis_view.equality)
  show "snd (redis_law (HSet k kvs) v) = put_hash k (set_fields kvs (hash_at v k)) v"
    using assms
    by (auto simp: redis_law.simps hash_slot_def hash_at_def on_hash_def as_hash_def put_hash_def rv_put_hash_def
        rv_live_def rv_deadline_def split: option.splits redis_value.splits)
  show "snd (redis_law (HDel k f) v) = put_hash k (AList.delete f (hash_at v k)) v"
  proof (cases "map_of (hash_at v k) f")
    case None
    then have "redis_law (HDel k f) v = (RInt 0, v)"
      using assms by (auto simp: redis_law.simps hash_slot_def hash_at_def on_hash_def as_hash_def rv_live_def
          split: option.splits redis_value.splits)
    with wf [OF None] same show ?thesis by simp
  next
    case (Some x)
    then show ?thesis
      using assms by (auto simp: redis_law.simps hash_slot_def hash_at_def on_hash_def as_hash_def put_hash_def rv_put_hash_def
          rv_live_def rv_deadline_def split: option.splits redis_value.splits)
  qed
  show "redis_law (HGetAll k) v = (RMulti (flat_fields (hash_at v k)), v)"
    using assms by (auto simp: redis_law.simps hash_slot_def hash_at_def on_hash_def as_hash_def rv_live_def
        split: option.splits redis_value.splits)
  show "snd (redis_law (Del [k]) v) = rv_remove [k] v" by (simp add: redis_law.simps)
qed

lemma hash_put [simp]:
  "hash_at (put_hash k h v) k = h"
  "k' \<noteq> k \<Longrightarrow> hash_at (put_hash k h v) k' = hash_at v k'"
  "k' \<noteq> k \<Longrightarrow> hash_at (put_set k xs v) k' = hash_at v k'"
  "hash_at (rv_remove ks v) k' = (if k' \<in> set ks then [] else hash_at v k')"
  "k' \<noteq> k \<Longrightarrow> items_at (put_hash k h v) k' = items_at v k'"
  "k' \<noteq> k \<Longrightarrow> set_at (put_hash k h v) k' = set_at v k'"
  by (simp_all add: hash_at_def put_hash_def put_set_def set_at_def items_at_def live_put)

lemma hash_slot_put [simp]:
  "jmap_wf h \<Longrightarrow> hash_slot (put_hash k h v) k"
  "k' \<noteq> k \<Longrightarrow> hash_slot (put_hash k h v) k' = hash_slot v k'"
  "k' \<noteq> k \<Longrightarrow> hash_slot (put_set k xs v) k' = hash_slot v k'"
  "hash_slot (rv_remove ks v) k' = (k' \<in> set ks \<or> hash_slot v k')"
  "k' \<noteq> k \<Longrightarrow> set_slot (put_hash k h v) k' = set_slot v k'"
  by (auto simp: hash_slot_def set_slot_def put_hash_def put_set_def rv_put_def rv_remove_def)

lemma set_command_effects:
  assumes "set_slot v k"
  shows "set_at (snd (redis_law (SAdd k x) v)) k = insert x (set_at v k)"
    "set_at (snd (redis_law (SRem k x) v)) k = set_at v k - {x}"
    "set_slot (snd (redis_law (SAdd k x) v)) k" "set_slot (snd (redis_law (SRem k x) v)) k"
    "k' \<noteq> k \<Longrightarrow> hash_at (snd (redis_law (SAdd k x) v)) k' = hash_at v k'"
    "k' \<noteq> k \<Longrightarrow> hash_at (snd (redis_law (SRem k x) v)) k' = hash_at v k'"
    "k' \<noteq> k \<Longrightarrow> hash_slot (snd (redis_law (SAdd k x) v)) k' = hash_slot v k'"
    "k' \<noteq> k \<Longrightarrow> hash_slot (snd (redis_law (SRem k x) v)) k' = hash_slot v k'"
  using assms by (auto simp: set_commands [OF assms])

subsection \<open>Transactions\<close>

primrec exec_all :: "'s redis \<Rightarrow> redis_cmd list \<Rightarrow> ('s, unit) state" where
  "exec_all exec [] = State_Monad.return ()"
| "exec_all exec (c # cs) = do { _ \<leftarrow> redis_call exec c; exec_all exec cs }"

definition law_all :: "redis_cmd list \<Rightarrow> redis_view \<Rightarrow> redis_view" where
  "law_all cs v = foldl (\<lambda>v c. snd (redis_law c v)) v cs"

lemma law_all_simps [simp]:
  "law_all [] v = v" "law_all (c # cs) v = law_all cs (snd (redis_law c v))"
  by (simp_all add: law_all_def)

lemma run_exec_all [simp]: "run_state (exec_all redis_law cs) v = ((), law_all cs v)"
  by (induction cs arbitrary: v) (auto simp: redis_call_def split: prod.split)

lemma law_all_hdel:
  assumes "hash_slot v k"
  shows "law_all (map (HDel k) fs) v = (if fs = [] then v else put_hash k (fold AList.delete fs (hash_at v k)) v)"
  using assms
proof (induction fs arbitrary: v)
  case (Cons f fs)
  have wf: "jmap_wf (hash_at v k)" by (rule hash_wf [OF Cons.prems])
  have twice: "put_hash k h (put_hash k h' v) = put_hash k h v" for h h'
    by (auto simp: put_hash_def rv_put_def rv_remove_def fun_eq_iff intro!: redis_view.equality)
  show ?case
    using Cons wf by (simp add: hash_commands(2) twice)
qed simp

context redis_server
begin

lemma tracks_exec_all [intro]: "tracks (exec_all exec cs) (exec_all redis_law cs)"
  by (induction cs) auto

end

end
