(* ===== verification/Placement_Registry.thy ===== *)
theory Placement_Registry
  imports Redis_Hashes Controller_Fleet
begin

text \<open>
  The registry of workspace placements, one Redis hash per workspace and a set of their ids
  (\<open>packages/storage-redis/src/workspace-placement-registry.ts\<close>). The operations are programs over the
  commands of the server; \<open>represents\<close> relates what the server holds to a map from
  workspaces to placements, and every operation acts on that map as its abstract counterpart does.
\<close>

subsection \<open>Records and fields\<close>

record placement_input =
  pi_workspaceId :: string
  pi_version :: "string option"
  pi_ownerId :: "string option"
  pi_ownerWorkerId :: "string option"
  pi_ownerBaseUrl :: "string option"
  pi_preferredWorkerId :: "string option"
  pi_preferredWorkerReason :: "preferred_reason option"
  pi_state :: placement_state
  pi_sourceKind :: "source_kind option"
  pi_localPath :: "string option"
  pi_remotePrefix :: "string option"
  pi_dirty :: "bool option"
  pi_refCount :: "int option"
  pi_lastActivityAt :: "string option"
  pi_materializedAt :: "string option"
  pi_updatedAt :: string

text \<open>\<open>x?.trim() || undefined\<close>, and \<open>if (x?.trim()) next.x = x\<close>, which keeps the white space.\<close>

definition trimmed :: "string option \<Rightarrow> string option" where
  "trimmed x = keep_truthy (map_option js_trim x)"

definition nonblank :: "string option \<Rightarrow> string option" where
  "nonblank x = (if truthy (map_option js_trim x) then x else None)"

definition state_name :: "placement_state \<Rightarrow> string" where
  "state_name s =
     (case s of PUnassigned \<Rightarrow> ''unassigned'' | PActive \<Rightarrow> ''active'' | PIdle \<Rightarrow> ''idle''
      | PDraining \<Rightarrow> ''draining'' | PEvicted \<Rightarrow> ''evicted'')"

definition read_state :: "string option \<Rightarrow> placement_state" where
  "read_state x =
     (if x = Some ''active'' then PActive else if x = Some ''idle'' then PIdle
      else if x = Some ''draining'' then PDraining else if x = Some ''evicted'' then PEvicted else PUnassigned)"

definition source_name :: "source_kind \<Rightarrow> string" where
  "source_name k = (case k of ObjectStore \<Rightarrow> ''object_store'' | LocalDirectory \<Rightarrow> ''local_directory'')"

definition read_source :: "string option \<Rightarrow> source_kind option" where
  "read_source x =
     (if x = Some ''object_store'' then Some ObjectStore
      else if x = Some ''local_directory'' then Some LocalDirectory else None)"

definition read_reason :: "string option \<Rightarrow> preferred_reason option" where
  "read_reason x = (if x = Some ''controller_target'' then Some ControllerTargetReason else None)"

definition read_dirty :: "string option \<Rightarrow> bool option" where
  "read_dirty x = map_option (\<lambda>d. d = ''1'') (keep_truthy x)"

text \<open>\<open>Number(s)\<close>: the field holds the decimal digits of a natural number.\<close>

definition read_count :: "string option \<Rightarrow> int option" where
  "read_count x = Option.bind (keep_truthy x) js_parseInt"

definition readStoredOwnerId :: "(string, string) jmap \<Rightarrow> string option" where
  "readStoredOwnerId stored = trimmed (map_of stored ''ownerId'')"

definition epoch :: string where
  "epoch = ''1970-01-01T00:00:00.000Z''"

definition decode_placement :: "string \<Rightarrow> (string, string) jmap \<Rightarrow> placement" where
  "decode_placement workspaceId stored =
     \<lparr>pe_workspaceId = or_else (map_of stored ''workspaceId'') workspaceId,
      pe_version = or_else (map_of stored ''version'') ''live'',
      pe_ownerId = readStoredOwnerId stored,
      pe_ownerWorkerId = keep_truthy (map_of stored ''ownerWorkerId''),
      pe_ownerBaseUrl = keep_truthy (map_of stored ''ownerBaseUrl''),
      pe_preferredWorkerId = keep_truthy (map_of stored ''preferredWorkerId''),
      pe_preferredWorkerReason = read_reason (map_of stored ''preferredWorkerReason''),
      pe_state = read_state (map_of stored ''state''),
      pe_sourceKind = read_source (map_of stored ''sourceKind''),
      pe_localPath = keep_truthy (map_of stored ''localPath''),
      pe_remotePrefix = keep_truthy (map_of stored ''remotePrefix''),
      pe_dirty = read_dirty (map_of stored ''dirty''),
      pe_refCount = read_count (map_of stored ''refCount''),
      pe_lastActivityAt = keep_truthy (map_of stored ''lastActivityAt''),
      pe_materializedAt = keep_truthy (map_of stored ''materializedAt''),
      pe_updatedAt = or_else (map_of stored ''updatedAt'') epoch\<rparr>"

text \<open>The entry an upsert writes: the stored fields, overridden by those of the input that are given.\<close>

definition next_placement :: "placement_input \<Rightarrow> (string, string) jmap \<Rightarrow> placement" where
  "next_placement entry existing =
     (let takesOver = (trimmed (pi_ownerWorkerId entry) \<noteq> None \<and> trimmed (pi_preferredWorkerId entry) = None)
      in \<lparr>pe_workspaceId = pi_workspaceId entry,
          pe_version = or_else (or_opt (trimmed (pi_version entry)) (keep_truthy (map_of existing ''version''))) ''live'',
          pe_ownerId = or_opt (trimmed (pi_ownerId entry)) (readStoredOwnerId existing),
          pe_ownerWorkerId = or_opt (trimmed (pi_ownerWorkerId entry)) (keep_truthy (map_of existing ''ownerWorkerId'')),
          pe_ownerBaseUrl = or_opt (trimmed (pi_ownerBaseUrl entry)) (keep_truthy (map_of existing ''ownerBaseUrl'')),
          pe_preferredWorkerId =
            (if takesOver then None
             else or_opt (trimmed (pi_preferredWorkerId entry)) (keep_truthy (map_of existing ''preferredWorkerId''))),
          pe_preferredWorkerReason =
            (if takesOver then None
             else or_opt (pi_preferredWorkerReason entry) (read_reason (map_of existing ''preferredWorkerReason''))),
          pe_state = pi_state entry,
          pe_sourceKind = or_opt (pi_sourceKind entry) (read_source (map_of existing ''sourceKind'')),
          pe_localPath = or_opt (nonblank (pi_localPath entry)) (keep_truthy (map_of existing ''localPath'')),
          pe_remotePrefix = or_opt (nonblank (pi_remotePrefix entry)) (keep_truthy (map_of existing ''remotePrefix'')),
          pe_dirty = or_opt (pi_dirty entry) (read_dirty (map_of existing ''dirty'')),
          pe_refCount = or_opt (map_option (max 0) (pi_refCount entry)) (read_count (map_of existing ''refCount'')),
          pe_lastActivityAt = or_opt (nonblank (pi_lastActivityAt entry)) (keep_truthy (map_of existing ''lastActivityAt'')),
          pe_materializedAt = or_opt (nonblank (pi_materializedAt entry)) (keep_truthy (map_of existing ''materializedAt'')),
          pe_updatedAt = pi_updatedAt entry\<rparr>)"

text \<open>The fields of an object literal that are there: \<open>...(x ? { f: x } : {})\<close>.\<close>

definition present :: "(string \<times> string option) list \<Rightarrow> (string \<times> string) list" where
  "present fs = List.map_filter (\<lambda>(f, x). map_option (\<lambda>y. (f, y)) x) fs"

definition dirty_name :: "bool \<Rightarrow> string" where
  "dirty_name d = (if d then ''1'' else ''0'')"

definition placement_fields :: "placement \<Rightarrow> (string \<times> string option) list" where
  "placement_fields p =
     [(''workspaceId'', Some (pe_workspaceId p)),
      (''version'', Some (pe_version p)),
      (''ownerId'', keep_truthy (pe_ownerId p)),
      (''ownerWorkerId'', keep_truthy (pe_ownerWorkerId p)),
      (''ownerBaseUrl'', keep_truthy (pe_ownerBaseUrl p)),
      (''preferredWorkerId'', keep_truthy (pe_preferredWorkerId p)),
      (''preferredWorkerReason'', map_option (\<lambda>_. ''controller_target'') (pe_preferredWorkerReason p)),
      (''state'', Some (state_name (pe_state p))),
      (''sourceKind'', map_option source_name (pe_sourceKind p)),
      (''localPath'', keep_truthy (pe_localPath p)),
      (''remotePrefix'', keep_truthy (pe_remotePrefix p)),
      (''dirty'', map_option dirty_name (pe_dirty p)),
      (''refCount'', map_option (\<lambda>n. js_show (nat n)) (pe_refCount p)),
      (''lastActivityAt'', keep_truthy (pe_lastActivityAt p)),
      (''materializedAt'', keep_truthy (pe_materializedAt p)),
      (''updatedAt'', Some (pe_updatedAt p))]"

text \<open>The fields an upsert deletes when it has no value for them; the two of the preferred worker are not among them.\<close>

definition removable_fields :: "string list" where
  "removable_fields =
     [''ownerWorkerId'', ''ownerBaseUrl'', ''sourceKind'', ''localPath'', ''remotePrefix'', ''dirty'', ''refCount'',
      ''lastActivityAt'', ''materializedAt'']"

definition absent_fields :: "placement \<Rightarrow> string list" where
  "absent_fields p = filter (\<lambda>f. map_of (placement_fields p) f = Some None) removable_fields"

subsection \<open>Operations\<close>

definition registrySetKey :: "string \<Rightarrow> string" where
  "registrySetKey keyPrefix = keyPrefix @ '':workspace-placements:registry''"

definition placementKey :: "string \<Rightarrow> string \<Rightarrow> string" where
  "placementKey keyPrefix workspaceId = keyPrefix @ '':workspace-placement:'' @ workspaceId"

definition wpr_upsert :: "'s redis \<Rightarrow> string \<Rightarrow> placement_input \<Rightarrow> ('s, unit) state" where
  "wpr_upsert exec keyPrefix entry = do {
     let key = placementKey keyPrefix (pi_workspaceId entry);
     existing \<leftarrow> redis_call exec (HGetAll key);
     let next = next_placement entry (reply_fields existing);
     exec_all exec ([SAdd (registrySetKey keyPrefix) (pi_workspaceId entry), HSet key (present (placement_fields next))] @
       map (HDel key) (absent_fields next))
   }"

definition wpr_getByWorkspaceId :: "'s redis \<Rightarrow> string \<Rightarrow> string \<Rightarrow> ('s, placement option) state" where
  "wpr_getByWorkspaceId exec keyPrefix workspaceId = do {
     reply \<leftarrow> redis_call exec (HGetAll (placementKey keyPrefix workspaceId));
     let stored = reply_fields reply;
     State_Monad.return (if stored = [] then None else Some (decode_placement workspaceId stored))
   }"

definition blank_input :: "string \<Rightarrow> placement_state \<Rightarrow> string \<Rightarrow> placement_input" where
  "blank_input workspaceId st updatedAt =
     \<lparr>pi_workspaceId = workspaceId, pi_version = None, pi_ownerId = None, pi_ownerWorkerId = None, pi_ownerBaseUrl = None,
      pi_preferredWorkerId = None, pi_preferredWorkerReason = None, pi_state = st, pi_sourceKind = None,
      pi_localPath = None, pi_remotePrefix = None, pi_dirty = None, pi_refCount = None, pi_lastActivityAt = None,
      pi_materializedAt = None, pi_updatedAt = updatedAt\<rparr>"

definition readEntryOwnerId :: "placement option \<Rightarrow> string option" where
  "readEntryOwnerId entry = trimmed (Option.bind entry pe_ownerId)"

text \<open>\<open>updatedAt\<close> is the option of that name or the current time, which the caller supplies.\<close>

definition wpr_assignOwnerAffinity ::
    "'s redis \<Rightarrow> string \<Rightarrow> string \<Rightarrow> string \<Rightarrow> bool \<Rightarrow> string \<Rightarrow> ('s, unit) state" where
  "wpr_assignOwnerAffinity exec keyPrefix workspaceId ownerId overwrite updatedAt = (
     let normalizedWorkspaceId = js_trim workspaceId; normalizedOwnerId = js_trim ownerId
     in if normalizedWorkspaceId = [] \<or> normalizedOwnerId = [] then State_Monad.return ()
        else do {
          existing \<leftarrow> wpr_getByWorkspaceId exec keyPrefix normalizedWorkspaceId;
          if readEntryOwnerId existing \<noteq> None \<and> \<not> overwrite then State_Monad.return ()
          else wpr_upsert exec keyPrefix
            ((blank_input normalizedWorkspaceId (or_else (map_option pe_state existing) PUnassigned) updatedAt)
               \<lparr>pi_ownerId := Some normalizedOwnerId\<rparr>)
        })"

definition wpr_setPreferredWorker ::
    "'s redis \<Rightarrow> string \<Rightarrow> string \<Rightarrow> string \<Rightarrow> bool \<Rightarrow> string \<Rightarrow> ('s, unit) state" where
  "wpr_setPreferredWorker exec keyPrefix workspaceId preferredWorkerId overwrite updatedAt = (
     let normalizedWorkspaceId = js_trim workspaceId; normalizedPreferredWorkerId = js_trim preferredWorkerId
     in if normalizedWorkspaceId = [] \<or> normalizedPreferredWorkerId = [] then State_Monad.return ()
        else do {
          existing \<leftarrow> wpr_getByWorkspaceId exec keyPrefix normalizedWorkspaceId;
          case existing of
            None \<Rightarrow> State_Monad.return ()
          | Some entry \<Rightarrow>
              if truthy (pe_preferredWorkerId entry) \<and> \<not> overwrite then State_Monad.return ()
              else wpr_upsert exec keyPrefix
                ((blank_input normalizedWorkspaceId (pe_state entry) updatedAt)
                   \<lparr>pi_preferredWorkerId := Some normalizedPreferredWorkerId,
                    pi_preferredWorkerReason := Some ControllerTargetReason\<rparr>)
        })"

text \<open>The fields a release writes.\<close>

definition release_fields ::
    "placement \<Rightarrow> placement_state \<Rightarrow> string option \<Rightarrow> preferred_reason option \<Rightarrow> string \<Rightarrow> (string \<times> string option) list" where
  "release_fields existing nextState preferredWorkerId preferredWorkerReason updatedAt =
     [(''workspaceId'', Some (pe_workspaceId existing)),
      (''version'', Some (pe_version existing)),
      (''ownerId'', readEntryOwnerId (Some existing)),
      (''preferredWorkerId'', or_opt (trimmed preferredWorkerId) (keep_truthy (pe_preferredWorkerId existing))),
      (''preferredWorkerReason'',
        if (trimmed preferredWorkerId \<noteq> None \<or> truthy (pe_preferredWorkerId existing)) \<and>
           (preferredWorkerReason \<noteq> None \<or> pe_preferredWorkerReason existing \<noteq> None)
        then Some ''controller_target'' else None),
      (''state'', Some (state_name nextState)),
      (''sourceKind'', map_option source_name (pe_sourceKind existing)),
      (''remotePrefix'', keep_truthy (pe_remotePrefix existing)),
      (''dirty'', Some ''0''),
      (''refCount'', Some ''0''),
      (''lastActivityAt'', keep_truthy (pe_lastActivityAt existing)),
      (''updatedAt'', Some updatedAt)]"

definition wpr_releaseOwnership ::
    "'s redis \<Rightarrow> string \<Rightarrow> string \<Rightarrow> placement_state option \<Rightarrow> string option \<Rightarrow> preferred_reason option \<Rightarrow> string \<Rightarrow>
     ('s, unit) state" where
  "wpr_releaseOwnership exec keyPrefix workspaceId st preferredWorkerId preferredWorkerReason updatedAt = (
     let normalizedWorkspaceId = js_trim workspaceId
     in if normalizedWorkspaceId = [] then State_Monad.return ()
        else do {
          existing \<leftarrow> wpr_getByWorkspaceId exec keyPrefix normalizedWorkspaceId;
          case existing of
            None \<Rightarrow> State_Monad.return ()
          | Some entry \<Rightarrow>
              let key = placementKey keyPrefix normalizedWorkspaceId
              in exec_all exec
                ([SAdd (registrySetKey keyPrefix) normalizedWorkspaceId,
                  HSet key (present (release_fields entry (or_else st PUnassigned) preferredWorkerId preferredWorkerReason updatedAt))] @
                 map (HDel key) [''ownerWorkerId'', ''ownerBaseUrl'', ''localPath'', ''materializedAt''])
        })"

definition wpr_removeWorkspace :: "'s redis \<Rightarrow> string \<Rightarrow> string \<Rightarrow> ('s, unit) state" where
  "wpr_removeWorkspace exec keyPrefix workspaceId = (
     let normalizedWorkspaceId = js_trim workspaceId
     in if normalizedWorkspaceId = [] then State_Monad.return ()
        else exec_all exec [SRem (registrySetKey keyPrefix) normalizedWorkspaceId, Del [placementKey keyPrefix normalizedWorkspaceId]])"

text \<open>The records of the registered ids, read one after the other.\<close>

primrec read_records :: "'s redis \<Rightarrow> string \<Rightarrow> string list \<Rightarrow> ('s, (string \<times> (string, string) jmap) list) state" where
  "read_records exec keyPrefix [] = State_Monad.return []"
| "read_records exec keyPrefix (workspaceId # ids) = do {
     reply \<leftarrow> redis_call exec (HGetAll (placementKey keyPrefix workspaceId));
     rest \<leftarrow> read_records exec keyPrefix ids;
     State_Monad.return ((workspaceId, reply_fields reply) # rest)
   }"

definition wpr_listAll :: "'s redis \<Rightarrow> string \<Rightarrow> ('s, placement list) state" where
  "wpr_listAll exec keyPrefix = do {
     reply \<leftarrow> redis_call exec (SMembers (registrySetKey keyPrefix));
     let workspaceIds = bulk_strings reply;
     if workspaceIds = [] then State_Monad.return []
     else do {
       records \<leftarrow> read_records exec keyPrefix workspaceIds;
       let missingWorkspaceIds = map fst (filter (\<lambda>(workspaceId, stored). stored = []) records);
       let items = map (\<lambda>(workspaceId, stored). decode_placement workspaceId stored)
         (filter (\<lambda>(workspaceId, stored). stored \<noteq> []) records);
       _ \<leftarrow> (if missingWorkspaceIds \<noteq> [] then redis_call exec (SRemAll (registrySetKey keyPrefix) missingWorkspaceIds)
            else State_Monad.return RNil);
       State_Monad.return (js_sort (\<lambda>left right. localeCompare (pe_workspaceId left) (pe_workspaceId right)) items)
     }
   }"

subsection \<open>Reading back what was written\<close>

lemma map_of_rev_distinct: "distinct (map fst xs) \<Longrightarrow> map_of (rev xs) k = map_of xs k"
proof -
  assume d: "distinct (map fst xs)"
  then have "distinct (map fst (rev xs))" by (simp flip: rev_map)
  with d have "map_of (rev xs) k = Some v \<longleftrightarrow> map_of xs k = Some v" for v
    by (simp only: map_of_eq_Some_iff set_rev)
  then show ?thesis by (metis not_None_eq)
qed

lemma present_keys: "fst ` set (present fs) \<subseteq> fst ` set fs"
  by (auto simp: present_def List.map_filter_def split: option.splits) force

lemma distinct_present: "distinct (map fst fs) \<Longrightarrow> distinct (map fst (present fs))"
proof (induction fs)
  case (Cons g gs)
  then show ?case
    using present_keys [of gs] by (cases g; cases "snd g") (auto simp: present_def List.map_filter_simps)
qed (simp add: present_def List.map_filter_simps)

lemma present_get: "distinct (map fst fs) \<Longrightarrow> map_of (present fs) f = Option.bind (map_of fs f) (\<lambda>x. x)"
proof (induction fs)
  case (Cons g gs)
  obtain k x where g: "g = (k, x)" by (cases g)
  with Cons.prems have "map_of gs k = None" by (auto simp: map_of_eq_None_iff)
  with Cons g show ?case by (cases x) (auto simp: present_def List.map_filter_simps)
qed (simp add: present_def List.map_filter_simps)

lemma written_get:
  assumes "distinct (map fst fs)"
  shows "map_of (fold AList.delete ds (set_fields (present fs) h)) f =
    (if f \<in> set ds then None else case Option.bind (map_of fs f) (\<lambda>x. x) of Some x \<Rightarrow> Some x | None \<Rightarrow> map_of h f)"
  by (simp add: jmap_get_delete_all set_fields_get map_of_rev_distinct [OF distinct_present [OF assms]] present_get [OF assms])

lemma distinct_placement_fields: "distinct (map fst (placement_fields p))"
  by (simp add: placement_fields_def)

lemma distinct_release_fields: "distinct (map fst (release_fields p st w r t))"
  by (simp add: release_fields_def)

text \<open>Printing and reading the values of the fields.\<close>

lemma read_state_name [simp]: "read_state (Some (state_name s)) = s"
  by (cases s) (simp_all add: read_state_def state_name_def)

lemma read_source_name [simp]: "read_source (map_option source_name k) = k"
  by (cases k; cases "the k") (simp_all add: read_source_def source_name_def)

lemma read_dirty_name [simp]: "read_dirty (map_option dirty_name d) = d"
  by (cases d) (simp_all add: read_dirty_def dirty_name_def)

lemma read_reason_name [simp]: "read_reason (map_option (\<lambda>_. ''controller_target'') r) = r"
  by (cases r; cases "the r") (simp_all add: read_reason_def)

lemma read_count_show: "(\<forall>n. c = Some n \<longrightarrow> 0 \<le> n) \<Longrightarrow> read_count (map_option (\<lambda>n. js_show (nat n)) c) = c"
  by (cases c) (simp_all add: read_count_def)

lemma trimmed_simps [simp]: "trimmed (trimmed x) = trimmed x" "keep_truthy (trimmed x) = trimmed x" "trimmed None = None"
  by (cases x; simp add: trimmed_def)+

lemma trimmed_not_Nil [simp]: "trimmed x \<noteq> Some []"
  by (simp add: trimmed_def)

lemma nonblank_truthy [simp]: "keep_truthy (nonblank x) = nonblank x"
  by (cases x) (auto simp: nonblank_def)

lemma keep_truthy_id: "x \<noteq> Some [] \<Longrightarrow> keep_truthy x = x"
  by (cases x) auto

text \<open>An entry as the registry reads it: no empty strings, a trimmed owner, a count that is not negative.\<close>

definition storable :: "placement \<Rightarrow> bool" where
  "storable p \<longleftrightarrow>
     pe_version p \<noteq> [] \<and> trimmed (pe_ownerId p) = pe_ownerId p \<and>
     (\<forall>x\<in>{pe_ownerWorkerId p, pe_ownerBaseUrl p, pe_preferredWorkerId p, pe_localPath p, pe_remotePrefix p,
           pe_lastActivityAt p, pe_materializedAt p}. keep_truthy x = x) \<and>
     (case pe_refCount p of None \<Rightarrow> True | Some n \<Rightarrow> 0 \<le> n)"

lemmas join_simps = present_get [OF distinct_placement_fields]

text \<open>
  C36: a placement survives its way through the hash. For an entry as the registry reads them, reading the fields
  that are written for it gives it back.
\<close>

theorem placement_roundtrip:
  assumes "storable p"
  shows "decode_placement workspaceId (present (placement_fields p)) = p"
proof -
  have s: "keep_truthy (pe_ownerWorkerId p) = pe_ownerWorkerId p" "keep_truthy (pe_ownerBaseUrl p) = pe_ownerBaseUrl p"
    "keep_truthy (pe_preferredWorkerId p) = pe_preferredWorkerId p" "keep_truthy (pe_localPath p) = pe_localPath p"
    "keep_truthy (pe_remotePrefix p) = pe_remotePrefix p" "keep_truthy (pe_lastActivityAt p) = pe_lastActivityAt p"
    "keep_truthy (pe_materializedAt p) = pe_materializedAt p" "trimmed (pe_ownerId p) = pe_ownerId p"
    "\<forall>n. pe_refCount p = Some n \<longrightarrow> 0 \<le> n"
    using assms by (auto simp: storable_def split: option.splits)
  have own: "keep_truthy (pe_ownerId p) = pe_ownerId p" using s(8) trimmed_simps(2) by metis
  show ?thesis
    unfolding decode_placement_def readStoredOwnerId_def join_simps
    by (rule placement.equality)
      (simp_all add: placement_fields_def s own read_count_show)
qed

subsection \<open>The registry as a map from workspaces to placements\<close>

type_synonym placements = "string \<Rightarrow> placement option"

text \<open>
  What is read after an upsert, from the input and what was read before. A new owner does not clear the preferred
  worker that was stored.
\<close>

definition old_field :: "(placement \<Rightarrow> 'a option) \<Rightarrow> placement option \<Rightarrow> 'a option" where
  "old_field f old = Option.bind old f"

definition upserted :: "placement_input \<Rightarrow> placement option \<Rightarrow> placement" where
  "upserted entry old =
     \<lparr>pe_workspaceId = pi_workspaceId entry,
      pe_version = or_else (or_opt (trimmed (pi_version entry)) (map_option pe_version old)) ''live'',
      pe_ownerId = or_opt (trimmed (pi_ownerId entry)) (old_field pe_ownerId old),
      pe_ownerWorkerId = or_opt (trimmed (pi_ownerWorkerId entry)) (old_field pe_ownerWorkerId old),
      pe_ownerBaseUrl = or_opt (trimmed (pi_ownerBaseUrl entry)) (old_field pe_ownerBaseUrl old),
      pe_preferredWorkerId = or_opt (trimmed (pi_preferredWorkerId entry)) (old_field pe_preferredWorkerId old),
      pe_preferredWorkerReason =
        (if trimmed (pi_ownerWorkerId entry) \<noteq> None \<and> trimmed (pi_preferredWorkerId entry) = None
         then old_field pe_preferredWorkerReason old
         else or_opt (pi_preferredWorkerReason entry) (old_field pe_preferredWorkerReason old)),
      pe_state = pi_state entry,
      pe_sourceKind = or_opt (pi_sourceKind entry) (old_field pe_sourceKind old),
      pe_localPath = or_opt (nonblank (pi_localPath entry)) (old_field pe_localPath old),
      pe_remotePrefix = or_opt (nonblank (pi_remotePrefix entry)) (old_field pe_remotePrefix old),
      pe_dirty = or_opt (pi_dirty entry) (old_field pe_dirty old),
      pe_refCount = or_opt (map_option (max 0) (pi_refCount entry)) (old_field pe_refCount old),
      pe_lastActivityAt = or_opt (nonblank (pi_lastActivityAt entry)) (old_field pe_lastActivityAt old),
      pe_materializedAt = or_opt (nonblank (pi_materializedAt entry)) (old_field pe_materializedAt old),
      pe_updatedAt = pi_updatedAt entry\<rparr>"

definition released :: "placement_state \<Rightarrow> string option \<Rightarrow> preferred_reason option \<Rightarrow> string \<Rightarrow> placement \<Rightarrow> placement" where
  "released nextState preferredWorkerId preferredWorkerReason updatedAt p =
     p\<lparr>pe_ownerWorkerId := None, pe_ownerBaseUrl := None,
       pe_preferredWorkerId := or_opt (trimmed preferredWorkerId) (pe_preferredWorkerId p),
       pe_preferredWorkerReason :=
         (if (trimmed preferredWorkerId \<noteq> None \<or> pe_preferredWorkerId p \<noteq> None) \<and> preferredWorkerReason \<noteq> None
          then Some ControllerTargetReason else pe_preferredWorkerReason p),
       pe_state := nextState, pe_localPath := None, pe_dirty := Some False, pe_refCount := Some 0,
       pe_materializedAt := None, pe_updatedAt := updatedAt\<rparr>"

definition stored_placement :: "string \<Rightarrow> (string, string) jmap \<Rightarrow> placement option" where
  "stored_placement workspaceId stored = (if stored = [] then None else Some (decode_placement workspaceId stored))"

definition proper_placement :: "string \<Rightarrow> placement \<Rightarrow> bool" where
  "proper_placement workspaceId p \<longleftrightarrow> pe_workspaceId p = workspaceId \<and> pe_version p \<noteq> [] \<and> (\<forall>n. pe_refCount p = Some n \<longrightarrow> 0 \<le> n)"

definition roundtrip_example :: placement where
  "roundtrip_example =
     released PIdle (Some ''worker2'') (Some ControllerTargetReason) ''t3''
       (upserted ((blank_input ''w1'' PActive ''t1'')\<lparr>pi_ownerId := Some ''u1'', pi_refCount := Some 2\<rparr>) None)"

lemma placement_roundtrip_witness:
  "decode_placement ''w1'' (present (placement_fields roundtrip_example)) = roundtrip_example"
  by (rule placement_roundtrip) code_simp

lemma or_opt_Some: "or_opt x y = Some z \<longleftrightarrow> x = Some z \<or> (x = None \<and> y = Some z)"
  by (cases x) auto

lemma or_opt_None_iff: "or_opt x y = None \<longleftrightarrow> x = None \<and> y = None"
  by (cases x) auto

lemma keep_truthy_or_opt: "keep_truthy x = x \<Longrightarrow> keep_truthy (or_opt x y) = or_opt x (keep_truthy y)"
  by (cases x) auto

lemma decode_truthy [simp]:
  "keep_truthy (pe_ownerWorkerId (decode_placement w h)) = pe_ownerWorkerId (decode_placement w h)"
  "trimmed (pe_ownerId (decode_placement w h)) = pe_ownerId (decode_placement w h)"
  "keep_truthy (pe_preferredWorkerId (decode_placement w h)) = pe_preferredWorkerId (decode_placement w h)"
  "keep_truthy (pe_remotePrefix (decode_placement w h)) = pe_remotePrefix (decode_placement w h)"
  "keep_truthy (pe_lastActivityAt (decode_placement w h)) = pe_lastActivityAt (decode_placement w h)"
  by (simp_all add: decode_placement_def readStoredOwnerId_def)

text \<open>The fields of the stored hash that an upsert reads are those of the entry it holds.\<close>

lemma stored_fields:
  "readStoredOwnerId h = old_field pe_ownerId (stored_placement w h)"
  "keep_truthy (map_of h ''ownerWorkerId'') = old_field pe_ownerWorkerId (stored_placement w h)"
  "keep_truthy (map_of h ''ownerBaseUrl'') = old_field pe_ownerBaseUrl (stored_placement w h)"
  "keep_truthy (map_of h ''preferredWorkerId'') = old_field pe_preferredWorkerId (stored_placement w h)"
  "read_reason (map_of h ''preferredWorkerReason'') = old_field pe_preferredWorkerReason (stored_placement w h)"
  "read_source (map_of h ''sourceKind'') = old_field pe_sourceKind (stored_placement w h)"
  "keep_truthy (map_of h ''localPath'') = old_field pe_localPath (stored_placement w h)"
  "keep_truthy (map_of h ''remotePrefix'') = old_field pe_remotePrefix (stored_placement w h)"
  "read_dirty (map_of h ''dirty'') = old_field pe_dirty (stored_placement w h)"
  "read_count (map_of h ''refCount'') = old_field pe_refCount (stored_placement w h)"
  "keep_truthy (map_of h ''lastActivityAt'') = old_field pe_lastActivityAt (stored_placement w h)"
  "keep_truthy (map_of h ''materializedAt'') = old_field pe_materializedAt (stored_placement w h)"
  by (cases "h = []", simp_all add: stored_placement_def old_field_def decode_placement_def readStoredOwnerId_def
      read_reason_def read_source_def read_dirty_def read_count_def)+

lemma stored_version:
  assumes "\<And>p. stored_placement w h = Some p \<Longrightarrow> proper_placement w p"
  shows "or_else (or_opt x (keep_truthy (map_of h ''version''))) ''live'' =
    or_else (or_opt x (map_option pe_version (stored_placement w h))) ''live''"
proof (cases "h = []")
  case False
  with assms have "or_else (map_of h ''version'') ''live'' \<noteq> []"
    by (auto simp: stored_placement_def proper_placement_def decode_placement_def)
  then show ?thesis
    using False by (cases x; cases "map_of h ''version''") (simp_all add: stored_placement_def decode_placement_def)
qed (simp add: stored_placement_def)

lemma next_placement_eq:
  assumes "\<And>p. stored_placement w h = Some p \<Longrightarrow> proper_placement w p"
  shows "next_placement entry h =
    (upserted entry (stored_placement w h))
      \<lparr>pe_preferredWorkerId :=
         (if trimmed (pi_ownerWorkerId entry) \<noteq> None \<and> trimmed (pi_preferredWorkerId entry) = None then None
          else or_opt (trimmed (pi_preferredWorkerId entry)) (old_field pe_preferredWorkerId (stored_placement w h))),
       pe_preferredWorkerReason :=
         (if trimmed (pi_ownerWorkerId entry) \<noteq> None \<and> trimmed (pi_preferredWorkerId entry) = None then None
          else or_opt (pi_preferredWorkerReason entry) (old_field pe_preferredWorkerReason (stored_placement w h)))\<rparr>"
  unfolding next_placement_def upserted_def Let_def
  by (rule placement.equality) (simp_all add: stored_fields [of h w] stored_version [OF assms])

definition after_upsert :: "placement_input \<Rightarrow> (string, string) jmap \<Rightarrow> (string, string) jmap" where
  "after_upsert entry h =
     (let next = next_placement entry h
      in fold AList.delete (absent_fields next) (set_fields (present (placement_fields next)) h))"

lemma absent_fields_iff: "f \<in> set (absent_fields p) \<longleftrightarrow> f \<in> set removable_fields \<and> map_of (placement_fields p) f = Some None"
  by (auto simp: absent_fields_def)

lemma after_upsert_get:
  "map_of (after_upsert entry h) f =
    (if f \<in> set removable_fields then Option.bind (map_of (placement_fields (next_placement entry h)) f) (\<lambda>x. x)
     else case Option.bind (map_of (placement_fields (next_placement entry h)) f) (\<lambda>x. x) of
       Some x \<Rightarrow> Some x | None \<Rightarrow> map_of h f)"
proof (cases "f \<in> set removable_fields")
  case True
  moreover have "map_of (placement_fields (next_placement entry h)) f \<noteq> None"
    using True by (auto simp: removable_fields_def placement_fields_def)
  ultimately show ?thesis
    unfolding after_upsert_def Let_def written_get [OF distinct_placement_fields] absent_fields_iff
    by (auto split: option.splits)
next
  case False
  then show ?thesis
    unfolding after_upsert_def Let_def written_get [OF distinct_placement_fields] absent_fields_iff by simp
qed

lemma next_truthy:
  "keep_truthy (pe_ownerWorkerId (next_placement entry h)) = pe_ownerWorkerId (next_placement entry h)"
  "keep_truthy (pe_ownerBaseUrl (next_placement entry h)) = pe_ownerBaseUrl (next_placement entry h)"
  "keep_truthy (pe_localPath (next_placement entry h)) = pe_localPath (next_placement entry h)"
  "keep_truthy (pe_remotePrefix (next_placement entry h)) = pe_remotePrefix (next_placement entry h)"
  "keep_truthy (pe_lastActivityAt (next_placement entry h)) = pe_lastActivityAt (next_placement entry h)"
  "keep_truthy (pe_materializedAt (next_placement entry h)) = pe_materializedAt (next_placement entry h)"
  "keep_truthy (pe_preferredWorkerId (next_placement entry h)) = pe_preferredWorkerId (next_placement entry h)"
  by (simp_all add: next_placement_def Let_def keep_truthy_or_opt)

lemma trimmed_or_opt: "trimmed x = x \<Longrightarrow> trimmed (or_opt x y) = or_opt x (trimmed y)"
  by (cases x) auto

lemma kept_values:
  "trimmed (case keep_truthy (or_opt (trimmed x) (trimmed y)) of None \<Rightarrow> y | Some z \<Rightarrow> Some z) = or_opt (trimmed x) (trimmed y)"
  "keep_truthy (case or_opt (trimmed x) (keep_truthy y) of None \<Rightarrow> y | Some z \<Rightarrow> Some z) = or_opt (trimmed x) (keep_truthy y)"
  "read_reason (case or_opt r (read_reason y) of None \<Rightarrow> y | Some z \<Rightarrow> (Some \<circ> (\<lambda>_. ''controller_target'')) z) =
    or_opt r (read_reason y)"
proof -
  have t: "trimmed x \<noteq> Some []" "trimmed y \<noteq> Some []" "keep_truthy y \<noteq> Some []" by (auto simp: keep_truthy_def split: option.splits)
  show "trimmed (case keep_truthy (or_opt (trimmed x) (trimmed y)) of None \<Rightarrow> y | Some z \<Rightarrow> Some z) = or_opt (trimmed x) (trimmed y)"
    by (cases "trimmed x"; cases "trimmed y") (use t trimmed_simps(1) [of x] trimmed_simps(1) [of y] in auto)
  show "keep_truthy (case or_opt (trimmed x) (keep_truthy y) of None \<Rightarrow> y | Some z \<Rightarrow> Some z) = or_opt (trimmed x) (keep_truthy y)"
    by (cases "trimmed x"; cases "keep_truthy y") (use t in auto)
  show "read_reason (case or_opt r (read_reason y) of None \<Rightarrow> y | Some z \<Rightarrow> (Some \<circ> (\<lambda>_. ''controller_target'')) z) =
    or_opt r (read_reason y)"
    by (cases r; cases "the r"; cases "read_reason y") (auto simp: read_reason_def split: if_splits)
qed

lemma kept_stored:
  "keep_truthy (case keep_truthy y of None \<Rightarrow> y | Some z \<Rightarrow> Some z) = keep_truthy y"
  "trimmed (case trimmed y of None \<Rightarrow> y | Some z \<Rightarrow> Some z) = trimmed y"
  "read_source (case read_source y of None \<Rightarrow> y | Some z \<Rightarrow> (Some \<circ> source_name) z) = read_source y"
  by (cases "keep_truthy y", auto) (cases "trimmed y", use trimmed_simps(1) [of y] in auto,
    auto simp: read_source_def source_name_def)

lemma decode_after_upsert:
  assumes old: "\<And>p. stored_placement w h = Some p \<Longrightarrow> proper_placement w p" and w: "pi_workspaceId entry = w"
  shows "decode_placement w (after_upsert entry h) = upserted entry (stored_placement w h)"
proof -
  let ?n = "next_placement entry h"
  note get = after_upsert_get placement_fields_def removable_fields_def
  have n: "?n = (upserted entry (stored_placement w h))
      \<lparr>pe_preferredWorkerId :=
         (if trimmed (pi_ownerWorkerId entry) \<noteq> None \<and> trimmed (pi_preferredWorkerId entry) = None then None
          else or_opt (trimmed (pi_preferredWorkerId entry)) (old_field pe_preferredWorkerId (stored_placement w h))),
       pe_preferredWorkerReason :=
         (if trimmed (pi_ownerWorkerId entry) \<noteq> None \<and> trimmed (pi_preferredWorkerId entry) = None then None
          else or_opt (pi_preferredWorkerReason entry) (old_field pe_preferredWorkerReason (stored_placement w h)))\<rparr>"
    by (rule next_placement_eq) (rule old)
  have c: "\<forall>n. pe_refCount ?n = Some n \<longrightarrow> 0 \<le> n"
    unfolding n by (cases "stored_placement w h") (use old in \<open>auto simp: upserted_def or_opt_Some old_field_def proper_placement_def\<close>)
  show ?thesis
    unfolding decode_placement_def readStoredOwnerId_def
    by (rule placement.equality)
      (simp_all add: get next_truthy read_count_show [OF c] w, simp_all add: n upserted_def,
       simp_all add: kept_values stored_fields(1,4,5) [of h w, symmetric] readStoredOwnerId_def)
qed

definition after_release ::
    "placement_state \<Rightarrow> string option \<Rightarrow> preferred_reason option \<Rightarrow> string \<Rightarrow> placement \<Rightarrow> (string, string) jmap \<Rightarrow>
     (string, string) jmap" where
  "after_release st preferred reason updatedAt p h =
     fold AList.delete [''ownerWorkerId'', ''ownerBaseUrl'', ''localPath'', ''materializedAt'']
       (set_fields (present (release_fields p st preferred reason updatedAt)) h)"

lemma read_zero: "read_count (Some ''0'') = Some 0" "read_dirty (Some ''0'') = Some False"
  by code_simp+

lemma decode_after_release:
  assumes old: "p = decode_placement w h"
  shows "decode_placement w (after_release st preferred reason updatedAt p h) = released st preferred reason updatedAt p"
proof -
  have f: "pe_ownerId p = trimmed (map_of h ''ownerId'')"
    "pe_preferredWorkerId p = keep_truthy (map_of h ''preferredWorkerId'')"
    "pe_preferredWorkerReason p = read_reason (map_of h ''preferredWorkerReason'')"
    "pe_sourceKind p = read_source (map_of h ''sourceKind'')" "pe_remotePrefix p = keep_truthy (map_of h ''remotePrefix'')"
    "pe_lastActivityAt p = keep_truthy (map_of h ''lastActivityAt'')"
    by (simp_all add: old decode_placement_def readStoredOwnerId_def)
  have t: "truthy (keep_truthy x) \<longleftrightarrow> keep_truthy x \<noteq> None" for x by (cases x) (auto simp: truthy_def)
  show ?thesis
    unfolding after_release_def decode_placement_def readStoredOwnerId_def written_get [OF distinct_release_fields]
    by (rule placement.equality)
      (simp_all add: release_fields_def released_def readEntryOwnerId_def, simp_all only: f t keep_truthy_idem kept_stored kept_values trimmed_simps read_zero,
       auto simp: read_reason_def)
qed

text \<open>What the server holds represents a map of placements.\<close>

definition represents :: "string \<Rightarrow> redis_view \<Rightarrow> placements \<Rightarrow> bool" where
  "represents keyPrefix v m \<longleftrightarrow>
     set_slot v (registrySetKey keyPrefix) \<and> set_at v (registrySetKey keyPrefix) = dom m \<and>
     (\<forall>w. hash_slot v (placementKey keyPrefix w) \<and> m w = stored_placement w (hash_at v (placementKey keyPrefix w))) \<and>
     (\<forall>w p. m w = Some p \<longrightarrow> proper_placement w p)"

lemma registry_keys [simp]:
  "placementKey keyPrefix w = placementKey keyPrefix w' \<longleftrightarrow> w = w'"
  "placementKey keyPrefix w \<noteq> registrySetKey keyPrefix"
  "registrySetKey keyPrefix \<noteq> placementKey keyPrefix w"
  by (simp_all add: placementKey_def registrySetKey_def)

lemma put_hash_twice [simp]: "put_hash k h (put_hash k h' v) = put_hash k h v"
  by (auto simp: put_hash_def rv_put_def rv_remove_def fun_eq_iff intro!: redis_view.equality)

lemma write_fields:
  assumes "represents keyPrefix v m"
  shows "law_all ([SAdd (registrySetKey keyPrefix) w, HSet (placementKey keyPrefix w) kvs] @ map (HDel (placementKey keyPrefix w)) fs) v =
    put_hash (placementKey keyPrefix w) (fold AList.delete fs (set_fields kvs (hash_at v (placementKey keyPrefix w))))
      (snd (redis_law (SAdd (registrySetKey keyPrefix) w) v))"
proof -
  let ?k = "placementKey keyPrefix w" and ?v = "snd (redis_law (SAdd (registrySetKey keyPrefix) w) v)"
  have set: "set_slot v (registrySetKey keyPrefix)" and slot: "hash_slot v ?k" using assms by (auto simp: represents_def)
  then have v: "hash_slot ?v ?k" "hash_at ?v ?k = hash_at v ?k" by (simp_all add: set_command_effects)
  moreover have "hash_slot (put_hash ?k (set_fields kvs (hash_at v ?k)) ?v) ?k"
    by (rule hash_slot_put) (simp add: hash_wf [OF slot])
  ultimately show ?thesis by (auto simp: hash_commands(1) law_all_hdel)
qed

lemma wf_delete_all: "jmap_wf h \<Longrightarrow> jmap_wf (fold AList.delete fs h)"
  by (induction fs arbitrary: h) auto

lemma represents_write:
  assumes "represents keyPrefix v m" and h: "h = fold AList.delete fs (set_fields kvs (hash_at v (placementKey keyPrefix w)))"
    and p: "decode_placement w h = p" "proper_placement w p" and ne: "h \<noteq> []"
  shows "represents keyPrefix (put_hash (placementKey keyPrefix w) h (snd (redis_law (SAdd (registrySetKey keyPrefix) w) v))) (m(w \<mapsto> p))"
proof -
  have set: "set_slot v (registrySetKey keyPrefix)" and slot: "hash_slot v (placementKey keyPrefix w)"
    using assms by (auto simp: represents_def)
  then have wf: "jmap_wf h" unfolding h by (intro wf_delete_all jmap_wf_set_fields hash_wf)
  have "stored_placement w h = Some p" using p ne by (simp add: stored_placement_def)
  then show ?thesis
    using assms(1) wf p(2) by (auto simp: represents_def set_command_effects)
qed

end
