(* ===== verification/Registry_Refinement.thy ===== *)
theory Registry_Refinement
  imports Placement_Registry
begin

text \<open>
  The placement registry implements a map from workspaces to placements: whatever sequence of operations
  the engine and the controller run against the server, the entry of a workspace is what the operations on the
  map leave there. The list of all entries is the range of the map.
\<close>

subsection \<open>The operations as operations on a map\<close>

datatype registry_op =
    RUpsert placement_input
  | RAssignOwner string string bool string
  | RSetPreferred string string bool string
  | RRelease string "placement_state option" "string option" "preferred_reason option" string
  | RRemove string

primrec run_registry :: "'s redis \<Rightarrow> string \<Rightarrow> registry_op \<Rightarrow> ('s, unit) state" where
  "run_registry exec keyPrefix (RUpsert entry) = wpr_upsert exec keyPrefix entry"
| "run_registry exec keyPrefix (RAssignOwner workspaceId ownerId overwrite updatedAt) =
     wpr_assignOwnerAffinity exec keyPrefix workspaceId ownerId overwrite updatedAt"
| "run_registry exec keyPrefix (RSetPreferred workspaceId workerId overwrite updatedAt) =
     wpr_setPreferredWorker exec keyPrefix workspaceId workerId overwrite updatedAt"
| "run_registry exec keyPrefix (RRelease workspaceId st preferred reason updatedAt) =
     wpr_releaseOwnership exec keyPrefix workspaceId st preferred reason updatedAt"
| "run_registry exec keyPrefix (RRemove workspaceId) = wpr_removeWorkspace exec keyPrefix workspaceId"

primrec run_registry_ops :: "'s redis \<Rightarrow> string \<Rightarrow> registry_op list \<Rightarrow> ('s, unit) state" where
  "run_registry_ops exec keyPrefix [] = State_Monad.return ()"
| "run_registry_ops exec keyPrefix (op # ops) =
     do { _ \<leftarrow> run_registry exec keyPrefix op; run_registry_ops exec keyPrefix ops }"

definition with_owner :: "string \<Rightarrow> string \<Rightarrow> string \<Rightarrow> placement option \<Rightarrow> placement" where
  "with_owner workspaceId ownerId updatedAt old =
     (case old of
        Some p \<Rightarrow> p\<lparr>pe_ownerId := Some ownerId, pe_updatedAt := updatedAt\<rparr>
      | None \<Rightarrow>
          \<lparr>pe_workspaceId = workspaceId, pe_version = ''live'', pe_ownerId = Some ownerId, pe_ownerWorkerId = None,
           pe_ownerBaseUrl = None, pe_preferredWorkerId = None, pe_preferredWorkerReason = None, pe_state = PUnassigned,
           pe_sourceKind = None, pe_localPath = None, pe_remotePrefix = None, pe_dirty = None, pe_refCount = None,
           pe_lastActivityAt = None, pe_materializedAt = None, pe_updatedAt = updatedAt\<rparr>)"

definition with_preferred :: "string \<Rightarrow> string \<Rightarrow> placement \<Rightarrow> placement" where
  "with_preferred workerId updatedAt p =
     p\<lparr>pe_preferredWorkerId := Some workerId, pe_preferredWorkerReason := Some ControllerTargetReason,
       pe_updatedAt := updatedAt\<rparr>"

fun apply_registry :: "registry_op \<Rightarrow> placements \<Rightarrow> placements" where
  "apply_registry (RUpsert entry) m = m(pi_workspaceId entry \<mapsto> upserted entry (m (pi_workspaceId entry)))"
| "apply_registry (RAssignOwner workspaceId ownerId overwrite updatedAt) m =
     (let w = js_trim workspaceId; a = js_trim ownerId
      in if w = [] \<or> a = [] \<or> (old_field pe_ownerId (m w) \<noteq> None \<and> \<not> overwrite) then m
         else m(w \<mapsto> with_owner w a updatedAt (m w)))"
| "apply_registry (RSetPreferred workspaceId workerId overwrite updatedAt) m =
     (let w = js_trim workspaceId; a = js_trim workerId
      in if w = [] \<or> a = [] \<or> (old_field pe_preferredWorkerId (m w) \<noteq> None \<and> \<not> overwrite) then m
         else m(w := map_option (with_preferred a updatedAt) (m w)))"
| "apply_registry (RRelease workspaceId st preferred reason updatedAt) m =
     (let w = js_trim workspaceId
      in if w = [] then m else m(w := map_option (released (or_else st PUnassigned) preferred reason updatedAt) (m w)))"
| "apply_registry (RRemove workspaceId) m =
     (let w = js_trim workspaceId in if w = [] then m else m(w := None))"

subsection \<open>Each operation against the server's documented behaviour\<close>

lemma represents_slots:
  assumes "represents keyPrefix v m"
  shows "hash_slot v (placementKey keyPrefix w)" "stored_placement w (hash_at v (placementKey keyPrefix w)) = m w"
    "m w = Some p \<Longrightarrow> proper_placement w p" "set_slot v (registrySetKey keyPrefix)"
  using assms by (auto simp: represents_def)

lemma run_get:
  assumes "represents keyPrefix v m"
  shows "run_state (wpr_getByWorkspaceId redis_law keyPrefix w) v = (m w, v)"
  using represents_slots(1,2) [OF assms, of w]
  by (simp add: wpr_getByWorkspaceId_def redis_call_def hash_commands(3) stored_placement_def)

lemma after_upsert_not_Nil: "after_upsert entry h \<noteq> []"
proof -
  have "map_of (after_upsert entry h) ''workspaceId'' \<noteq> None"
    by (simp add: after_upsert_get placement_fields_def removable_fields_def)
  then show ?thesis by auto
qed

lemma after_release_not_Nil: "after_release st preferred reason updatedAt p h \<noteq> []"
proof -
  have fs: "map_of (release_fields p st preferred reason updatedAt) ''workspaceId'' = Some (Some (pe_workspaceId p))"
    by (simp add: release_fields_def)
  have "map_of (after_release st preferred reason updatedAt p h) ''workspaceId'' \<noteq> None"
    unfolding after_release_def written_get [OF distinct_release_fields] fs by simp
  then show ?thesis by auto
qed

lemma trimmed_Some: "trimmed x = Some y \<Longrightarrow> y \<noteq> []"
  using trimmed_not_Nil by metis

lemma proper_upserted:
  assumes "\<And>p. old = Some p \<Longrightarrow> proper_placement w p" "pi_workspaceId entry = w"
  shows "proper_placement w (upserted entry old)"
proof -
  have "pe_version (upserted entry old) \<noteq> []"
    by (cases old; cases "trimmed (pi_version entry)") (use assms(1) in \<open>auto simp: upserted_def proper_placement_def dest: trimmed_Some\<close>)
  moreover have "0 \<le> n" if "pe_refCount (upserted entry old) = Some n" for n
    using that assms(1) by (cases old) (auto simp: upserted_def proper_placement_def old_field_def or_opt_Some)
  ultimately show ?thesis by (simp add: proper_placement_def upserted_def assms(2))
qed

lemma run_upsert:
  assumes r: "represents keyPrefix v m" and w: "pi_workspaceId entry = w"
  shows "\<exists>v'. run_state (wpr_upsert redis_law keyPrefix entry) v = ((), v') \<and>
    represents keyPrefix v' (m(w \<mapsto> upserted entry (m w)))"
proof -
  let ?h = "hash_at v (placementKey keyPrefix w)"
  let ?n = "next_placement entry ?h"
  have old: "stored_placement w ?h = Some p \<Longrightarrow> proper_placement w p" for p
    using represents_slots(2,3) [OF r] by simp
  have "decode_placement w (after_upsert entry ?h) = upserted entry (m w)"
    using decode_after_upsert [of w ?h entry] old w represents_slots(2) [OF r] by metis
  moreover have "proper_placement w (upserted entry (m w))"
    by (rule proper_upserted) (use represents_slots(3) [OF r] w in auto)
  moreover have "after_upsert entry ?h =
      fold AList.delete (absent_fields ?n) (set_fields (present (placement_fields ?n)) ?h)"
    by (simp add: after_upsert_def Let_def)
  ultimately have "represents keyPrefix (put_hash (placementKey keyPrefix w) (after_upsert entry ?h)
      (snd (redis_law (SAdd (registrySetKey keyPrefix) w) v))) (m(w \<mapsto> upserted entry (m w)))"
    using represents_write [OF r _ _ _ after_upsert_not_Nil] by blast
  moreover have "run_state (wpr_upsert redis_law keyPrefix entry) v =
      ((), put_hash (placementKey keyPrefix w) (after_upsert entry ?h) (snd (redis_law (SAdd (registrySetKey keyPrefix) w) v)))"
    using represents_slots(1) [OF r, of w] write_fields [OF r]
    by (simp add: wpr_upsert_def w redis_call_def hash_commands(3) after_upsert_def Let_def case_prod_unfold)
  ultimately show ?thesis by blast
qed

lemma upserted_blank:
  assumes "trimmed (Some a) = Some a" "\<And>p. old = Some p \<Longrightarrow> proper_placement w p"
  shows "upserted ((blank_input w (or_else (map_option pe_state old) PUnassigned) t)\<lparr>pi_ownerId := Some a\<rparr>) old = with_owner w a t old"
  using assms
  by (cases old) (auto simp: upserted_def with_owner_def blank_input_def old_field_def proper_placement_def nonblank_def intro!: placement.equality)

lemma upserted_preferred:
  assumes "trimmed (Some a) = Some a" "proper_placement w p"
  shows "upserted ((blank_input w (pe_state p) t)\<lparr>pi_preferredWorkerId := Some a, pi_preferredWorkerReason := Some ControllerTargetReason\<rparr>)
      (Some p) = with_preferred a t p"
  using assms
  by (auto simp: upserted_def with_preferred_def blank_input_def old_field_def proper_placement_def nonblank_def intro!: placement.equality)

lemma trimmed_trim: "js_trim x \<noteq> [] \<Longrightarrow> trimmed (Some (js_trim x)) = Some (js_trim x)"
  by (simp add: trimmed_def)

lemma stored_truthy:
  assumes "represents keyPrefix v m" "m w = Some p"
  shows "trimmed (pe_ownerId p) = pe_ownerId p" "keep_truthy (pe_preferredWorkerId p) = pe_preferredWorkerId p"
proof -
  have "p = decode_placement w (hash_at v (placementKey keyPrefix w))"
    using represents_slots(2) [OF assms(1), of w] assms(2) by (auto simp: stored_placement_def split: if_splits)
  then show "trimmed (pe_ownerId p) = pe_ownerId p" "keep_truthy (pe_preferredWorkerId p) = pe_preferredWorkerId p" by simp_all
qed

lemma run_release:
  assumes r: "represents keyPrefix v m" and p: "m w = Some p"
  shows "represents keyPrefix
    (law_all ([SAdd (registrySetKey keyPrefix) w,
        HSet (placementKey keyPrefix w) (present (release_fields p st preferred reason t))] @
      map (HDel (placementKey keyPrefix w)) [''ownerWorkerId'', ''ownerBaseUrl'', ''localPath'', ''materializedAt'']) v)
    (m(w \<mapsto> released st preferred reason t p))"
proof -
  let ?h = "hash_at v (placementKey keyPrefix w)"
  have "p = decode_placement w ?h"
    using represents_slots(2) [OF r, of w] p by (auto simp: stored_placement_def split: if_splits)
  moreover have "proper_placement w (released st preferred reason t p)"
    using represents_slots(3) [OF r p] by (simp add: proper_placement_def released_def)
  ultimately show ?thesis
    unfolding write_fields [OF r] after_release_def [symmetric]
    by (intro represents_write [OF r after_release_def _ _ after_release_not_Nil] decode_after_release)
qed

lemma run_remove:
  assumes r: "represents keyPrefix v m"
  shows "represents keyPrefix (law_all [SRem (registrySetKey keyPrefix) w, Del [placementKey keyPrefix w]] v) (m(w := None))"
proof -
  have "set_slot v (registrySetKey keyPrefix)" by (rule represents_slots(4) [OF r])
  then show ?thesis
    using r by (auto simp: represents_def set_command_effects hash_commands(4) stored_placement_def)
qed

lemma run_registry_op:
  assumes r: "represents keyPrefix v m"
  shows "\<exists>v'. run_state (run_registry redis_law keyPrefix op) v = ((), v') \<and> represents keyPrefix v' (apply_registry op m)"
proof (cases op)
  case (RUpsert entry)
  then show ?thesis using run_upsert [OF r refl, of entry] by simp
next
  case (RAssignOwner w a overwrite t)
  let ?w = "js_trim w" and ?a = "js_trim a"
  have own: "readEntryOwnerId (m ?w) = old_field pe_ownerId (m ?w)"
    using stored_truthy(1) [OF r] by (cases "m ?w") (auto simp: readEntryOwnerId_def old_field_def)
  have up: "?a \<noteq> [] \<Longrightarrow> upserted ((blank_input ?w (or_else (map_option pe_state (m ?w)) PUnassigned) t)\<lparr>pi_ownerId := Some ?a\<rparr>) (m ?w) =
      with_owner ?w ?a t (m ?w)"
    by (rule upserted_blank [OF trimmed_trim]) (use represents_slots(3) [OF r] in auto)
  show ?thesis
    using r up own run_upsert [OF r, of "(blank_input ?w (or_else (map_option pe_state (m ?w)) PUnassigned) t)\<lparr>pi_ownerId := Some ?a\<rparr>" ?w]
    by (auto simp: RAssignOwner wpr_assignOwnerAffinity_def Let_def run_get [OF r] blank_input_def)
next
  case (RSetPreferred w a overwrite t)
  let ?w = "js_trim w" and ?a = "js_trim a"
  show ?thesis
  proof (cases "m ?w")
    case None
    then have "m(?w := map_option f (m ?w)) = m" for f by auto
    with None r show ?thesis
      by (auto simp: RSetPreferred wpr_setPreferredWorker_def Let_def run_get [OF r])
  next
    case (Some p)
    let ?i = "(blank_input ?w (pe_state p) t)\<lparr>pi_preferredWorkerId := Some ?a, pi_preferredWorkerReason := Some ControllerTargetReason\<rparr>"
    have up: "?a \<noteq> [] \<Longrightarrow> upserted ?i (m ?w) = with_preferred ?a t p"
      unfolding Some by (rule upserted_preferred [OF trimmed_trim represents_slots(3) [OF r Some]])
    have pref: "truthy (pe_preferredWorkerId p) \<longleftrightarrow> old_field pe_preferredWorkerId (m ?w) \<noteq> None"
      using stored_truthy(2) [OF r Some] by (auto simp: Some old_field_def truthy_def)
    show ?thesis
      using r up pref Some run_upsert [OF r, of ?i ?w]
      by (auto simp: RSetPreferred wpr_setPreferredWorker_def Let_def run_get [OF r] blank_input_def)
  qed
next
  case (RRelease w st preferred reason t)
  show ?thesis
  proof (cases "m (js_trim w)")
    case None
    then have "m(js_trim w := map_option f (m (js_trim w))) = m" for f by auto
    with None r show ?thesis
      by (auto simp: RRelease wpr_releaseOwnership_def Let_def run_get [OF r])
  next
    case (Some p)
    then show ?thesis
      using r run_release [OF r Some]
      by (simp add: RRelease wpr_releaseOwnership_def Let_def run_get [OF r] del: exec_all.simps law_all_simps append_Cons list.map)
  qed
next
  case (RRemove w)
  then show ?thesis
    using r run_remove [OF r, of "js_trim w"] by (simp add: wpr_removeWorkspace_def Let_def del: exec_all.simps law_all_simps)
qed

lemma run_registry_sequence:
  assumes "represents keyPrefix v m"
  shows "\<exists>v'. run_state (run_registry_ops redis_law keyPrefix ops) v = ((), v') \<and> represents keyPrefix v' (fold apply_registry ops m)"
  using assms
proof (induction ops arbitrary: v m)
  case (Cons op ops)
  from run_registry_op [OF Cons.prems, of op] obtain v1 where
    v1: "run_state (run_registry redis_law keyPrefix op) v = ((), v1)" "represents keyPrefix v1 (apply_registry op m)"
    by blast
  with Cons.IH [OF v1(2)] show ?case by auto
qed simp

subsection \<open>The list of all entries\<close>

lemma run_read_records:
  assumes "represents keyPrefix v m"
  shows "run_state (read_records redis_law keyPrefix ws) v = (map (\<lambda>w. (w, hash_at v (placementKey keyPrefix w))) ws, v)"
proof (induction ws)
  case (Cons w ws)
  then show ?case
    using represents_slots(1) [OF assms, of w] by (simp add: redis_call_def hash_commands(3))
qed simp

lemma run_listAll:
  assumes r: "represents keyPrefix v m"
  shows "\<exists>ps. run_state (wpr_listAll redis_law keyPrefix) v = (ps, v) \<and> set ps = ran m"
proof -
  let ?reg = "registrySetKey keyPrefix"
  obtain x where x: "redis_law (SMembers ?reg) v = (x, v)" "bulk_strings x = items_at v ?reg"
    using set_commands(3) [OF represents_slots(4) [OF r]] by (simp add: bulk_strings_bulks)
  have members: "set (items_at v ?reg) = dom m" using r by (simp add: represents_def)
  let ?rs = "map (\<lambda>w. (w, hash_at v (placementKey keyPrefix w))) (items_at v ?reg)"
  have stored: "m w = Some (decode_placement w (hash_at v (placementKey keyPrefix w))) \<and> hash_at v (placementKey keyPrefix w) \<noteq> []"
    if "w \<in> dom m" for w
    using that represents_slots(2) [OF r, of w] by (auto simp: stored_placement_def split: if_splits)
  then have missing: "filter (\<lambda>(w, h). h = []) ?rs = []" and kept: "filter (\<lambda>(w, h). h \<noteq> []) ?rs = ?rs"
    using members by (auto simp: filter_empty_conv filter_id_conv)
  have "set (map (\<lambda>(w, h). decode_placement w h) ?rs) = ran m"
    using members stored by (force simp: ran_def image_iff)
  moreover have "ran m = {}" if "items_at v ?reg = []"
  proof -
    have "dom m = {}" using that members by simp
    then show ?thesis by (auto simp: ran_def dom_def)
  qed
  moreover have "run_state (wpr_listAll redis_law keyPrefix) v =
      (if items_at v ?reg = [] then []
       else js_sort (\<lambda>left right. localeCompare (pe_workspaceId left) (pe_workspaceId right)) (map (\<lambda>(w, h). decode_placement w h) ?rs), v)"
    using x unfolding wpr_listAll_def
    by (simp add: redis_call_def Let_def run_read_records [OF r] missing kept del: list.map_comp filter_map map_map)
  ultimately show ?thesis by (auto split: if_splits)
qed

subsection \<open>Refinement\<close>

context redis_server
begin

lemma tracks_get [intro]: "tracks (wpr_getByWorkspaceId exec keyPrefix w) (wpr_getByWorkspaceId redis_law keyPrefix w)"
  unfolding wpr_getByWorkspaceId_def Let_def by blast

lemma tracks_upsert [intro]: "tracks (wpr_upsert exec keyPrefix entry) (wpr_upsert redis_law keyPrefix entry)"
  unfolding wpr_upsert_def Let_def by blast

lemma tracks_option [intro]:
  "tracks m n \<Longrightarrow> (\<And>x. tracks (f x) (g x)) \<Longrightarrow>
    tracks (case r of None \<Rightarrow> m | Some x \<Rightarrow> f x) (case r of None \<Rightarrow> n | Some x \<Rightarrow> g x)"
  by (cases r) auto

lemma tracks_registry [intro]: "tracks (run_registry exec keyPrefix op) (run_registry redis_law keyPrefix op)"
  by (cases op)
    (simp_all add: wpr_assignOwnerAffinity_def wpr_setPreferredWorker_def wpr_releaseOwnership_def wpr_removeWorkspace_def
      Let_def tracks_upsert tracks_get tracks_return tracks_bind tracks_option tracks_exec_all del: exec_all.simps)

lemma tracks_registry_ops [intro]: "tracks (run_registry_ops exec keyPrefix ops) (run_registry_ops redis_law keyPrefix ops)"
  by (induction ops) auto

lemma tracks_read_records [intro]: "tracks (read_records exec keyPrefix ws) (read_records redis_law keyPrefix ws)"
  by (induction ws) auto

lemma tracks_listAll [intro]: "tracks (wpr_listAll exec keyPrefix) (wpr_listAll redis_law keyPrefix)"
  unfolding wpr_listAll_def Let_def by (intro tracks_bind tracks_if tracks_return tracks_call tracks_read_records)

end

text \<open>
  C5: the registry is a map. From a server whose keys represent a map of placements, any sequence of upserts,
  owner assignments, preferences, releases and removals leaves keys that represent the map those operations
  make, and reading an entry then returns what the map holds.
\<close>

theorem placement_registry_refines:
  assumes "redis_server exec view" "represents keyPrefix (view s) m"
  shows "represents keyPrefix (view (snd (run_state (run_registry_ops exec keyPrefix ops) s))) (fold apply_registry ops m) \<and>
    fst (run_state (wpr_getByWorkspaceId exec keyPrefix w) (snd (run_state (run_registry_ops exec keyPrefix ops) s))) =
      fold apply_registry ops m w"
proof -
  obtain v' where v': "run_state (run_registry_ops redis_law keyPrefix ops) (view s) = ((), v')"
    "represents keyPrefix v' (fold apply_registry ops m)"
    using run_registry_sequence [OF assms(2)] by blast
  have view: "view (snd (run_state (run_registry_ops exec keyPrefix ops) s)) = v'"
    by (rule redis_server.tracks_run(2) [OF assms(1) redis_server.tracks_registry_ops [OF assms(1)] v'(1)])
  show ?thesis
    unfolding view
    using v'(2) redis_server.tracks_run(1) [OF assms(1) redis_server.tracks_get [OF assms(1)]] run_get [OF v'(2)]
    by (simp add: view)
qed

lemma represents_empty: "represents keyPrefix (redis_empty now) (\<lambda>_. None)"
  by (simp add: represents_def redis_empty_def set_slot_def hash_slot_def set_at_def items_at_def hash_at_def rv_live_def
      stored_placement_def)

lemma placement_registry_refines_witness:
  "fst (run_state (wpr_getByWorkspaceId redis_law ''oah'' ''w1'')
      (snd (run_state (run_registry_ops redis_law ''oah''
        [RAssignOwner ''w1'' ''u1'' False ''t1'', RSetPreferred ''w1'' ''worker2'' False ''t2'',
         RRelease ''w1'' (Some PIdle) None None ''t3''])
        (redis_empty 0)))) =
    Some (released PIdle None None ''t3'' (with_preferred ''worker2'' ''t2'' (with_owner ''w1'' ''u1'' ''t1'' None)))"
proof -
  have "js_trim ''w1'' = ''w1''" "js_trim ''u1'' = ''u1''" "js_trim ''worker2'' = ''worker2''" by code_simp+
  then show ?thesis
    using placement_registry_refines [OF redis_model.redis_server_axioms represents_empty, of "''oah''"
        "[RAssignOwner ''w1'' ''u1'' False ''t1'', RSetPreferred ''w1'' ''worker2'' False ''t2'',
          RRelease ''w1'' (Some PIdle) None None ''t3'']" 0 "''w1''"]
    by (simp add: old_field_def with_owner_def Let_def del: run_registry_ops.simps)
qed

text \<open>
  A worker that takes a workspace over clears the preferred worker of the entry it writes, but not the one that
  is stored: the field is neither written nor deleted.
\<close>

lemma takeover_keeps_stored_preference:
  assumes "\<And>p. stored_placement w h = Some p \<Longrightarrow> proper_placement w p" "pi_workspaceId entry = w"
    and "trimmed (pi_ownerWorkerId entry) = Some a" "trimmed (pi_preferredWorkerId entry) = None"
  shows "pe_preferredWorkerId (next_placement entry h) = None"
    and "pe_preferredWorkerId (decode_placement w (after_upsert entry h)) = keep_truthy (map_of h ''preferredWorkerId'')"
proof -
  show "pe_preferredWorkerId (next_placement entry h) = None" using assms(3,4) by (simp add: next_placement_def)
  show "pe_preferredWorkerId (decode_placement w (after_upsert entry h)) = keep_truthy (map_of h ''preferredWorkerId'')"
    using assms(4) decode_after_upsert [of w h entry] assms(1,2)
    by (simp add: upserted_def stored_fields(4) [of h w])
qed

end
