(* ===== verification/Controller_Registry.thy ===== *)
theory Controller_Registry
  imports Controller Registry_Refinement
begin

text \<open>
  The controller over the placement registry. The executor relies on a small contract of the registry
  (\<open>placement_ownership\<close>: a call that succeeds acts on the map of placements as documented, one
  that fails acts or does not); the registry on Redis meets it. Executing the operations of an evaluation takes
  the ownership of every workspace with a lost owner away, in the registry itself.
\<close>

subsection \<open>The contract the executor relies on\<close>

definition release_op :: "string \<Rightarrow> string option \<Rightarrow> string \<Rightarrow> registry_op" where
  "release_op workspaceId target timestamp =
     RRelease workspaceId (Some PUnassigned) target (map_option (\<lambda>_. ControllerTargetReason) target) timestamp"

locale placement_ownership =
  fixes ports :: "'s ownership_ports" and entries :: "'s \<Rightarrow> placements" and good :: "'s \<Rightarrow> bool"
  assumes set_preferred: "good s \<Longrightarrow> po_setPreferredWorker ports w t ts s = (r, s') \<Longrightarrow>
      good s' \<and> entries s' \<in> {entries s, apply_registry (RSetPreferred w t True ts) (entries s)} \<and>
      (r = Inr () \<longrightarrow> entries s' = apply_registry (RSetPreferred w t True ts) (entries s))"
    and release: "good s \<Longrightarrow> po_releaseOwnership ports w target ts s = (r, s') \<Longrightarrow>
      good s' \<and> entries s' \<in> {entries s, apply_registry (release_op w target ts) (entries s)} \<and>
      (r = Inr () \<longrightarrow> entries s' = apply_registry (release_op w target ts) (entries s))"

definition effect_of :: "string \<Rightarrow> placement_operation \<Rightarrow> placements \<Rightarrow> placements" where
  "effect_of ts op =
     (case (op_action op, keep_truthy (op_targetWorkerId op)) of
        (SetPreferredWorker, None) \<Rightarrow> (\<lambda>m. m)
      | (SetPreferredWorker, Some t) \<Rightarrow> apply_registry (RSetPreferred (op_workspaceId op) t True ts)
      | (ReleaseOwnership, target) \<Rightarrow> apply_registry (release_op (op_workspaceId op) target ts))"

text \<open>An operation changes the entry of its workspace only, and depends on that entry only.\<close>

lemma effect_elsewhere:
  "js_trim (op_workspaceId op) \<noteq> w \<Longrightarrow> effect_of ts op m w = m w"
  by (auto simp: effect_of_def release_op_def Let_def split: placement_action.splits option.splits)

lemma effect_cong:
  "m (js_trim (op_workspaceId op)) = m' (js_trim (op_workspaceId op)) \<Longrightarrow> m w = m' w \<Longrightarrow>
    effect_of ts op m w = effect_of ts op m' w"
  by (auto simp: effect_of_def release_op_def Let_def split: placement_action.splits option.splits)

context placement_ownership
begin

lemma execute_operation_effect:
  assumes "good s" "execute_operation ports ts op s = (res, s')"
  shows "good s'" "er_operation res = op" "js_trim (op_workspaceId op) \<noteq> w \<Longrightarrow> entries s' w = entries s w"
    "er_status res = Applied \<Longrightarrow> entries s' = effect_of ts op (entries s)"
    "er_status res = Skipped \<Longrightarrow> op_action op = SetPreferredWorker \<and> keep_truthy (op_targetWorkerId op) = None \<and> s' = s"
proof -
  consider (skip) "op_action op = SetPreferredWorker" "keep_truthy (op_targetWorkerId op) = None"
    | (set) t where "op_action op = SetPreferredWorker" "keep_truthy (op_targetWorkerId op) = Some t"
    | (rel) "op_action op = ReleaseOwnership"
    by (metis not_None_eq placement_action.exhaust)
  then have "good s' \<and> er_operation res = op \<and> entries s' \<in> {entries s, effect_of ts op (entries s)} \<and>
      (er_status res = Applied \<longrightarrow> entries s' = effect_of ts op (entries s)) \<and>
      (er_status res = Skipped \<longrightarrow> op_action op = SetPreferredWorker \<and> keep_truthy (op_targetWorkerId op) = None \<and> s' = s)"
  proof cases
    case skip
    then show ?thesis using assms by (auto simp: execute_operation_def catching_def Let_def)
  next
    case set
    obtain r t' where r: "po_setPreferredWorker ports (op_workspaceId op) t ts s = (r, t')" by force
    show ?thesis
      using assms set set_preferred [OF assms(1) r]
      by (cases r) (auto simp: execute_operation_def catching_def Let_def then_do_def r effect_of_def)
  next
    case rel
    obtain r t' where r: "po_releaseOwnership ports (op_workspaceId op) (keep_truthy (op_targetWorkerId op)) ts s = (r, t')" by force
    show ?thesis
      using assms rel release [OF assms(1) r]
      by (cases r) (auto simp: execute_operation_def catching_def Let_def then_do_def r effect_of_def)
  qed
  then show "good s'" "er_operation res = op" "js_trim (op_workspaceId op) \<noteq> w \<Longrightarrow> entries s' w = entries s w"
    "er_status res = Applied \<Longrightarrow> entries s' = effect_of ts op (entries s)"
    "er_status res = Skipped \<Longrightarrow> op_action op = SetPreferredWorker \<and> keep_truthy (op_targetWorkerId op) = None \<and> s' = s"
    by (auto simp: effect_elsewhere)
qed

text \<open>
  Over a list of operations on distinct workspaces: an entry that no operation is about stays, and an applied
  operation has had its effect on the entry as it was at the start.
\<close>

lemma execute_operations_effect:
  assumes "good s" "execute_operations ports ts ops s = (results, s')"
    and "distinct (map (\<lambda>op. js_trim (op_workspaceId op)) ops)"
  shows "good s' \<and> map er_operation results = ops \<and>
    (\<forall>w. w \<notin> (\<lambda>op. js_trim (op_workspaceId op)) ` set ops \<longrightarrow> entries s' w = entries s w) \<and>
    (\<forall>res\<in>set results. er_status res = Applied \<longrightarrow>
      entries s' (js_trim (op_workspaceId (er_operation res))) =
      effect_of ts (er_operation res) (entries s) (js_trim (op_workspaceId (er_operation res)))) \<and>
    (\<forall>res\<in>set results. er_status res = Skipped \<longrightarrow>
      op_action (er_operation res) = SetPreferredWorker \<and>
      entries s' (js_trim (op_workspaceId (er_operation res))) = entries s (js_trim (op_workspaceId (er_operation res))))"
  using assms
proof (induction ops arbitrary: s s' results)
  case (Cons op ops)
  let ?k = "\<lambda>op. js_trim (op_workspaceId op)"
  obtain res s1 where one: "execute_operation ports ts op s = (res, s1)" by force
  obtain rest s2 where more: "execute_operations ports ts ops s1 = (rest, s2)" by force
  have out: "results = res # rest" "s' = s2" using Cons.prems(2) by (simp_all add: one more)
  note eff = execute_operation_effect [OF Cons.prems(1) one]
  have IH: "good s2" "map er_operation rest = ops" "\<And>w. w \<notin> ?k ` set ops \<Longrightarrow> entries s2 w = entries s1 w"
    "\<And>r. r \<in> set rest \<Longrightarrow> er_status r = Applied \<Longrightarrow> entries s2 (?k (er_operation r)) =
      effect_of ts (er_operation r) (entries s1) (?k (er_operation r))"
    "\<And>r. r \<in> set rest \<Longrightarrow> er_status r = Skipped \<Longrightarrow> op_action (er_operation r) = SetPreferredWorker \<and>
      entries s2 (?k (er_operation r)) = entries s1 (?k (er_operation r))"
    using Cons.IH [OF eff(1) more] Cons.prems(3) by auto
  have fresh: "?k op \<notin> ?k ` set ops" using Cons.prems(3) by auto
  have same: "entries s1 (?k (er_operation r)) = entries s (?k (er_operation r))" if "r \<in> set rest" for r
  proof -
    have "er_operation r \<in> set ops" using that IH(2) by (metis image_eqI set_map)
    then have "?k (er_operation r) \<noteq> ?k op" using fresh by (metis image_eqI)
    then show ?thesis using eff(3) by metis
  qed
  have "entries s2 (?k (er_operation r)) = effect_of ts (er_operation r) (entries s) (?k (er_operation r))"
    if r: "r \<in> set results" "er_status r = Applied" for r
  proof (cases "r = res")
    case True
    then show ?thesis using eff(2,4) IH(3) [OF fresh] r(2) by simp
  next
    case False
    with r out have rest: "r \<in> set rest" by auto
    show ?thesis unfolding IH(4) [OF rest r(2)] by (rule effect_cong) (rule same [OF rest])+
  qed
  moreover have "op_action (er_operation r) = SetPreferredWorker \<and> entries s2 (?k (er_operation r)) = entries s (?k (er_operation r))"
    if r: "r \<in> set results" "er_status r = Skipped" for r
  proof (cases "r = res")
    case True
    then show ?thesis using eff(2,5) IH(3) [OF fresh] r(2) by simp
  next
    case False
    with r out have rest: "r \<in> set rest" by auto
    then show ?thesis using IH(5) [OF rest r(2)] same [OF rest] by simp
  qed
  ultimately show ?case using IH(1-3) eff(2,3) out by auto
qed simp

end

subsection \<open>The registry on Redis meets it\<close>

definition stored_placements :: "string \<Rightarrow> redis_view \<Rightarrow> placements" where
  "stored_placements keyPrefix v = (\<lambda>w. stored_placement w (hash_at v (placementKey keyPrefix w)))"

lemma represents_stored: "represents keyPrefix v m \<Longrightarrow> stored_placements keyPrefix v = m"
  by (auto simp: stored_placements_def represents_def)

definition redis_ownership :: "'s redis \<Rightarrow> string \<Rightarrow> 's ownership_ports" where
  "redis_ownership exec keyPrefix =
     \<lparr>po_setPreferredWorker = (\<lambda>w t ts s.
        (Inr (), snd (run_state (wpr_setPreferredWorker exec keyPrefix w t True ts) s))),
      po_releaseOwnership = (\<lambda>w target ts s.
        (Inr (), snd (run_state (wpr_releaseOwnership exec keyPrefix w (Some PUnassigned) target
           (map_option (\<lambda>_. ControllerTargetReason) target) ts) s)))\<rparr>"

locale redis_registry = redis_server exec view
  for exec :: "redis_cmd \<Rightarrow> 's \<Rightarrow> redis_reply \<times> 's" and view :: "'s \<Rightarrow> redis_view" +
  fixes keyPrefix :: string
begin

lemma registry_step:
  assumes "represents keyPrefix (view s) m"
  shows "represents keyPrefix (view (snd (run_state (run_registry exec keyPrefix op) s))) (apply_registry op m)"
proof -
  obtain v' where v': "run_state (run_registry redis_law keyPrefix op) (view s) = ((), v')" "represents keyPrefix v' (apply_registry op m)"
    using run_registry_op [OF assms] by blast
  show ?thesis using tracks_run(2) [OF tracks_registry v'(1)] v'(2) by simp
qed

end

sublocale redis_registry \<subseteq> ownership: placement_ownership "redis_ownership exec keyPrefix"
  "\<lambda>s. stored_placements keyPrefix (view s)" "\<lambda>s. represents keyPrefix (view s) (stored_placements keyPrefix (view s))"
proof unfold_locales
  fix s w t ts r s'
  assume good: "represents keyPrefix (view s) (stored_placements keyPrefix (view s))"
    and run: "po_setPreferredWorker (redis_ownership exec keyPrefix) w t ts s = (r, s')"
  have "represents keyPrefix (view s') (apply_registry (RSetPreferred w t True ts) (stored_placements keyPrefix (view s)))"
    using registry_step [OF good, of "RSetPreferred w t True ts"] run by (auto simp: redis_ownership_def)
  then show "represents keyPrefix (view s') (stored_placements keyPrefix (view s')) \<and>
      stored_placements keyPrefix (view s') \<in>
        {stored_placements keyPrefix (view s), apply_registry (RSetPreferred w t True ts) (stored_placements keyPrefix (view s))} \<and>
      (r = Inr () \<longrightarrow> stored_placements keyPrefix (view s') =
        apply_registry (RSetPreferred w t True ts) (stored_placements keyPrefix (view s)))"
    using represents_stored by (metis insertCI)
next
  fix s w target ts r s'
  assume good: "represents keyPrefix (view s) (stored_placements keyPrefix (view s))"
    and run: "po_releaseOwnership (redis_ownership exec keyPrefix) w target ts s = (r, s')"
  have "represents keyPrefix (view s') (apply_registry (release_op w target ts) (stored_placements keyPrefix (view s)))"
    using registry_step [OF good, of "release_op w target ts"] run by (auto simp: redis_ownership_def release_op_def)
  then show "represents keyPrefix (view s') (stored_placements keyPrefix (view s')) \<and>
      stored_placements keyPrefix (view s') \<in>
        {stored_placements keyPrefix (view s), apply_registry (release_op w target ts) (stored_placements keyPrefix (view s))} \<and>
      (r = Inr () \<longrightarrow> stored_placements keyPrefix (view s') =
        apply_registry (release_op w target ts) (stored_placements keyPrefix (view s)))"
    using represents_stored by (metis insertCI)
qed

context redis_registry
begin

lemmas execution_effect = ownership.execute_operations_effect

end

interpretation model_registry: redis_registry redis_law "\<lambda>v. v" keyPrefix for keyPrefix
  by unfold_locales

subsection \<open>Lost owners lose their ownership\<close>

definition owner_settled :: "worker_entry list \<Rightarrow> placement \<Rightarrow> placement option \<Rightarrow> bool" where
  "owner_settled workers p entry \<longleftrightarrow>
     (case entry of
        None \<Rightarrow> False
      | Some q \<Rightarrow>
          if lost_owner workers p then pe_ownerWorkerId q = None \<and> pe_state q = PUnassigned
          else pe_ownerWorkerId q = pe_ownerWorkerId p \<and> pe_state q = pe_state p)"

lemma settled_effect:
  assumes "m w = Some p" "js_trim w = w" "w \<noteq> []" "op_workspaceId op = w"
    and "op_action op = ReleaseOwnership \<longleftrightarrow> lost_owner workers p"
  shows "owner_settled workers p (effect_of ts op m w)"
proof (cases "op_action op")
  case ReleaseOwnership
  then show ?thesis using assms by (simp add: owner_settled_def effect_of_def release_op_def released_def)
next
  case SetPreferredWorker
  then show ?thesis
    using assms by (cases "keep_truthy (op_targetWorkerId op)") (auto simp: owner_settled_def effect_of_def with_preferred_def Let_def)
qed

lemma never_fails: "execute_operations (redis_ownership exec keyPrefix) ts ops s = (results, s') \<Longrightarrow>
    \<forall>res\<in>set results. er_status res \<noteq> Failed"
proof (induction ops arbitrary: s results)
  case (Cons op ops)
  then show ?case
    by (auto simp: execute_operation_def catching_def Let_def then_do_def redis_ownership_def
        split: prod.splits placement_action.splits option.splits)
qed auto

text \<open>
  C8: no workspace keeps a lost owner. When the controller lists the placements of the registry on Redis and
  executes its operations, every workspace whose owner is missing, draining or stopping, or late while the workspace is
  not active, is afterwards without an owner and unassigned in the registry, and every other workspace has the
  owner and the state it had.
\<close>

theorem executor_settles_lost_owners:
  assumes "redis_server exec view" "represents keyPrefix (view s) m"
    and "set placements = ran m" "distinct (map pe_workspaceId placements)"
    and "\<forall>w\<in>dom m. js_trim w = w \<and> w \<noteq> []"
    and "execute_placement_actions (redis_ownership exec keyPrefix) config ts placements activeWorkers s = (report, s')"
    and "m w = Some p"
  shows "owner_settled activeWorkers p (stored_placements keyPrefix (view s') w)"
proof -
  let ?ops = "buildPlacementExecutionOperations placements activeWorkers config"
  have entries: "stored_placements keyPrefix (view s) = m" by (rule represents_stored [OF assms(2)])
  have p: "p \<in> set placements" "pe_workspaceId p = w" "js_trim w = w" "w \<noteq> []"
    using assms(2,3,5,7) by (auto simp: represents_def proper_placement_def ran_def)
  have same: "q = p" if "q \<in> set placements" "pe_workspaceId q = w" for q
    using assms(4) that p(1,2) by (metis inj_onD distinct_map)
  note sound = built_sound [OF assms(4), of activeWorkers config]
  have released: "op_workspaceId ` {op \<in> set ?ops. op_action op = ReleaseOwnership} =
      pe_workspaceId ` {p \<in> set placements. lost_owner activeWorkers p}"
    using built_releases [of placements activeWorkers config] by (simp add: releases_def)
  have lost: "\<exists>op\<in>set ?ops. op_workspaceId op = w \<and> op_action op = ReleaseOwnership" if "lost_owner activeWorkers p"
  proof -
    have "w \<in> op_workspaceId ` {op \<in> set ?ops. op_action op = ReleaseOwnership}"
      unfolding released using that p(1,2) by auto
    then show ?thesis by auto
  qed
  have owner: "op_action op = ReleaseOwnership \<longleftrightarrow> lost_owner activeWorkers p" if op: "op \<in> set ?ops" "op_workspaceId op = w" for op
  proof
    assume "op_action op = ReleaseOwnership"
    moreover obtain q where "q \<in> set placements" "justified activeWorkers q op" using sound(2) op(1) by blast
    ultimately show "lost_owner activeWorkers p" using same op(2) by (auto simp: justified_def)
  next
    assume "lost_owner activeWorkers p"
    then obtain op' where "op' \<in> set ?ops" "op_workspaceId op' = w" "op_action op' = ReleaseOwnership" using lost by blast
    moreover from this op have "op' = op" using sound(1) by (metis inj_onD distinct_map)
    ultimately show "op_action op = ReleaseOwnership" by simp
  qed
  have keys: "js_trim (op_workspaceId op) = op_workspaceId op" if op: "op \<in> set ?ops" for op
  proof -
    obtain q where j: "q \<in> set placements" "justified activeWorkers q op" using sound(2) op by blast
    then have q: "op_workspaceId op = pe_workspaceId q" by (simp add: justified_workspace)
    have "q \<in> ran m" using j(1) assms(3) by simp
    then obtain k where k: "m k = Some q" unfolding ran_def by blast
    have "pe_workspaceId q = k" using represents_slots(3) [OF assms(2) k] by (simp add: proper_placement_def)
    moreover have "js_trim k = k" using assms(5) k by blast
    ultimately show ?thesis by (simp add: q)
  qed
  then have distinct: "distinct (map (\<lambda>op. js_trim (op_workspaceId op)) ?ops)"
    using sound(1) by (simp cong: map_cong)
  show ?thesis
  proof (cases "?ops = []")
    case True
    then have "\<not> lost_owner activeWorkers p" "s' = s" using lost assms(6) by (auto simp: execute_placement_actions_def)
    then show ?thesis using assms(7) entries by (simp add: owner_settled_def)
  next
    case False
    obtain results where run: "execute_operations (redis_ownership exec keyPrefix) ts ?ops s = (results, s')"
      using assms(6) False by (auto simp: execute_placement_actions_def Let_def split: prod.splits)
    have reg: "redis_registry exec view" using assms(1) by (simp add: redis_registry_def)
    from redis_registry.execution_effect [OF reg _ run distinct] assms(2)
    have eff: "map er_operation results = ?ops"
      "\<And>w. w \<notin> (\<lambda>op. js_trim (op_workspaceId op)) ` set ?ops \<Longrightarrow> stored_placements keyPrefix (view s') w = m w"
      "\<And>res. res \<in> set results \<Longrightarrow> er_status res = Applied \<Longrightarrow>
        stored_placements keyPrefix (view s') (js_trim (op_workspaceId (er_operation res))) =
        effect_of ts (er_operation res) m (js_trim (op_workspaceId (er_operation res)))"
      "\<And>res. res \<in> set results \<Longrightarrow> er_status res = Skipped \<Longrightarrow> op_action (er_operation res) = SetPreferredWorker \<and>
        stored_placements keyPrefix (view s') (js_trim (op_workspaceId (er_operation res))) =
        m (js_trim (op_workspaceId (er_operation res)))"
      by (auto simp: entries)
    show ?thesis
    proof (cases "w \<in> op_workspaceId ` set ?ops")
      case True
      then obtain op where op: "op \<in> set ?ops" "op_workspaceId op = w" by blast
      then obtain res where res: "res \<in> set results" "er_operation res = op" using eff(1) by (metis (mono_tags) imageE set_map)
      have "er_status res = Applied \<or> er_status res = Skipped"
        using never_fails [OF run] res(1) by (metis execution_status.exhaust)
      then show ?thesis
      proof
        assume "er_status res = Applied"
        then have "stored_placements keyPrefix (view s') w = effect_of ts op m w" using eff(3) [OF res(1)] res(2) op(2) p(3) by simp
        then show ?thesis
          using settled_effect [of m w p op activeWorkers ts] owner [OF op] op(2) p(3,4) assms(7) by simp
      next
        assume "er_status res = Skipped"
        then have "stored_placements keyPrefix (view s') w = m w" "\<not> lost_owner activeWorkers p"
          using eff(4) [OF res(1)] res(2) op(2) p(3) owner [OF op] by simp_all
        then show ?thesis using assms(7) by (simp add: owner_settled_def)
      qed
    next
      case False
      then have "\<not> lost_owner activeWorkers p" using lost by blast
      moreover have "stored_placements keyPrefix (view s') w = m w" using False keys eff(2) [of w] by force
      ultimately show ?thesis using assms(7) by (simp add: owner_settled_def)
    qed
  qed
qed

text \<open>A registry with one workspace whose owner is gone.\<close>

definition orphan_ops :: "registry_op list" where
  "orphan_ops = [RUpsert ((blank_input ''w1'' PActive ''t1'')\<lparr>pi_ownerWorkerId := Some ''gone''\<rparr>)]"

definition orphan :: placement where
  "orphan = upserted ((blank_input ''w1'' PActive ''t1'')\<lparr>pi_ownerWorkerId := Some ''gone''\<rparr>) None"

lemma executor_settles_lost_owners_witness:
  "owner_settled [] orphan (stored_placements ''oah''
     (snd (execute_placement_actions (redis_ownership redis_law ''oah'') default_operations ''t2'' [orphan] []
       (snd (run_state (run_registry_ops redis_law ''oah'' orphan_ops) (redis_empty 0))))) ''w1'') \<and>
   lost_owner [] orphan"
proof
  let ?v = "snd (run_state (run_registry_ops redis_law ''oah'' orphan_ops) (redis_empty 0))"
  have rep: "represents ''oah'' ?v (fold apply_registry orphan_ops (\<lambda>_. None))"
    using run_registry_sequence [OF represents_empty, of "''oah''" orphan_ops 0] by auto
  have m: "fold apply_registry orphan_ops (\<lambda>_. None) = [''w1'' \<mapsto> orphan]"
    by (simp add: orphan_ops_def orphan_def blank_input_def)
  have trim: "js_trim ''w1'' = ''w1''" by code_simp
  show "owner_settled [] orphan (stored_placements ''oah''
     (snd (execute_placement_actions (redis_ownership redis_law ''oah'') default_operations ''t2'' [orphan] [] ?v)) ''w1'')"
  proof (rule executor_settles_lost_owners [OF redis_model.redis_server_axioms rep [unfolded m] _ _ _ prod.collapse [symmetric]])
    show "\<forall>w\<in>dom [''w1'' \<mapsto> orphan]. js_trim w = w \<and> w \<noteq> []" using trim by simp
  qed (simp_all add: ran_def)
  show "lost_owner [] orphan" by code_simp
qed

end
