(* ===== verification/Controller_Config.thy ===== *)
theory Controller_Config
  imports Controller
begin

text \<open>
  The controller's settings (\<open>apps/controller/src/controller-config.ts\<close>,
  \<open>packages/scale-target-control/src/config.ts\<close>): what the environment and the server configuration
  resolve to. The environment is a function from names to values. What the configuration may hold is the part of
  \<open>docs/schemas/server-config.schema.json\<close> that the loader validates.
\<close>

subsection \<open>Reading the environment\<close>

type_synonym environment = "string \<Rightarrow> string option"

definition readEnv :: "environment \<Rightarrow> string \<Rightarrow> string option" where
  "readEnv env name = keep_truthy (map_option js_trim (env name))"

definition readIntEnv :: "int \<Rightarrow> environment \<Rightarrow> string \<Rightarrow> int \<Rightarrow> int" where
  "readIntEnv minimum env name fallback =
     (case readEnv env name of
        None \<Rightarrow> fallback
      | Some raw \<Rightarrow> (case js_parseInt raw of Some n \<Rightarrow> if n \<ge> minimum then n else fallback | None \<Rightarrow> fallback))"

definition readPositiveIntEnv :: "environment \<Rightarrow> string \<Rightarrow> int \<Rightarrow> int" where
  "readPositiveIntEnv = readIntEnv 1"

definition readNonNegativeIntEnv :: "environment \<Rightarrow> string \<Rightarrow> int \<Rightarrow> int" where
  "readNonNegativeIntEnv = readIntEnv 0"

text \<open>
  \<open>Number.parseFloat\<close> on the decimal notation, \<open>None\<close> for \<open>NaN\<close> and for what
  overflows to an infinity; the value is not rounded to a double.
\<close>

definition digit_values :: "string \<Rightarrow> nat list" where
  "digit_values s = List.map_filter digit_value s"

definition is_digit :: "char \<Rightarrow> bool" where
  "is_digit c \<longleftrightarrow> digit_value c \<noteq> None"

definition parse_exponent :: "string \<Rightarrow> int" where
  "parse_exponent s =
     (if s = [] \<or> \<not> (hd s = CHR ''e'' \<or> hd s = CHR ''E'') then 0
      else let t = tl s;
               negative = (t \<noteq> [] \<and> hd t = CHR ''-'');
               u = (if t \<noteq> [] \<and> (hd t = CHR ''-'' \<or> hd t = CHR ''+'') then tl t else t);
               ds = takeWhile is_digit u
           in if ds = [] then 0
              else let n = int (foldl (\<lambda>n d. 10 * n + d) 0 (digit_values ds)) in if negative then - n else n)"

definition js_parseFloat :: "string \<Rightarrow> rat option" where
  "js_parseFloat s =
     (let t = dropWhile is_js_space s;
          negative = (t \<noteq> [] \<and> hd t = CHR ''-'');
          u = (if t \<noteq> [] \<and> (hd t = CHR ''-'' \<or> hd t = CHR ''+'') then tl t else t);
          whole = takeWhile is_digit u;
          r = dropWhile is_digit u;
          fraction = (if r \<noteq> [] \<and> hd r = CHR ''.'' then takeWhile is_digit (tl r) else []);
          rest = (if r \<noteq> [] \<and> hd r = CHR ''.'' then dropWhile is_digit (tl r) else r);
          n = of_nat (foldl (\<lambda>n d. 10 * n + d) 0 (digit_values (whole @ fraction)));
          e = parse_exponent rest - int (length fraction);
          v = (if 0 \<le> e then n * 10 ^ nat e else n / 10 ^ nat (- e))
      in if whole = [] \<and> fraction = [] then None
         else if v \<ge> 2 ^ 1024 - 2 ^ 970 then None
         else Some (if negative then - v else v))"

definition readRatioEnv :: "environment \<Rightarrow> string \<Rightarrow> rat \<Rightarrow> rat" where
  "readRatioEnv env name fallback =
     (case readEnv env name of
        None \<Rightarrow> fallback
      | Some raw \<Rightarrow> (case js_parseFloat raw of Some v \<Rightarrow> min 1 (max 0 v) | None \<Rightarrow> fallback))"

definition readEnumEnv :: "environment \<Rightarrow> string \<Rightarrow> (string \<Rightarrow> 'a option) \<Rightarrow> 'a \<Rightarrow> 'a" where
  "readEnumEnv env name allowed fallback =
     (case readEnv env name of None \<Rightarrow> fallback | Some raw \<Rightarrow> or_else (allowed raw) fallback)"

definition readBooleanEnv :: "environment \<Rightarrow> string \<Rightarrow> bool \<Rightarrow> bool" where
  "readBooleanEnv env name fallback =
     (case readEnv env name of
        None \<Rightarrow> fallback
      | Some raw \<Rightarrow>
          let normalized = map to_lower raw
          in if normalized \<in> set [''1'', ''true'', ''yes'', ''on''] then True
             else if normalized \<in> set [''0'', ''false'', ''no'', ''off''] then False
             else fallback)"

text \<open>A value read is in range, whatever the environment holds, if the fallback is.\<close>

lemma readIntEnv_ge: "m \<le> fallback \<Longrightarrow> m \<le> minimum \<Longrightarrow> m \<le> readIntEnv minimum env name fallback"
  by (auto simp: readIntEnv_def split: option.split)

lemma readPositive_ge: "1 \<le> fallback \<Longrightarrow> 1 \<le> readPositiveIntEnv env name fallback"
  unfolding readPositiveIntEnv_def by (rule readIntEnv_ge) auto

lemma readNonNegative_ge: "0 \<le> fallback \<Longrightarrow> 0 \<le> readNonNegativeIntEnv env name fallback"
  unfolding readNonNegativeIntEnv_def by (rule readIntEnv_ge) auto

lemma readRatio_range: "0 \<le> fallback \<Longrightarrow> fallback \<le> 1 \<Longrightarrow> 0 \<le> readRatioEnv env name fallback \<and> readRatioEnv env name fallback \<le> 1"
  by (auto simp: readRatioEnv_def split: option.split)

subsection \<open>The server configuration\<close>

record standalone_settings =
  st_min_replicas :: "int option"
  st_max_replicas :: "int option"
  st_ready_sessions_per_capacity_unit :: "int option"
  st_reserved_capacity_for_subagent :: "int option"

record controller_settings =
  cs_scale_interval_ms :: "int option"
  cs_cooldown_ms :: "int option"
  cs_scale_up_window :: "int option"
  cs_scale_down_window :: "int option"
  cs_scale_up_busy_ratio_threshold :: "rat option"
  cs_scale_up_max_ready_age_ms :: "int option"

record sandbox_settings =
  bs_provider :: "provider_kind option"
  bs_self_hosted_base_url :: "string option"
  bs_min_count :: "int option"
  bs_max_count :: "int option"
  bs_warm_empty_count :: "int option"
  bs_resource_cpu_pressure_threshold :: "rat option"
  bs_resource_memory_pressure_threshold :: "rat option"
  bs_resource_disk_pressure_threshold :: "rat option"
  bs_max_workspaces_per_sandbox :: "int option"
  bs_ownerless_pool :: "ownerless_pool option"

definition at_least :: "'a::order \<Rightarrow> 'a option \<Rightarrow> bool" where
  "at_least m x = (case x of None \<Rightarrow> True | Some n \<Rightarrow> m \<le> n)"

definition ratio_ok :: "rat option \<Rightarrow> bool" where
  "ratio_ok x = (case x of None \<Rightarrow> True | Some r \<Rightarrow> 0 \<le> r \<and> r \<le> 1)"

definition settings_ok :: "standalone_settings \<Rightarrow> controller_settings \<Rightarrow> sandbox_settings \<Rightarrow> bool" where
  "settings_ok st cs bs \<longleftrightarrow>
     at_least 0 (st_min_replicas st) \<and> at_least 1 (st_max_replicas st) \<and>
     at_least 1 (st_ready_sessions_per_capacity_unit st) \<and> at_least 0 (st_reserved_capacity_for_subagent st) \<and>
     at_least 250 (cs_scale_interval_ms cs) \<and> at_least 250 (cs_cooldown_ms cs) \<and>
     at_least 1 (cs_scale_up_window cs) \<and> at_least 1 (cs_scale_down_window cs) \<and>
     ratio_ok (cs_scale_up_busy_ratio_threshold cs) \<and> at_least 1 (cs_scale_up_max_ready_age_ms cs) \<and>
     at_least 0 (bs_min_count bs) \<and> at_least 1 (bs_max_count bs) \<and> at_least 0 (bs_warm_empty_count bs) \<and>
     ratio_ok (bs_resource_cpu_pressure_threshold bs) \<and> ratio_ok (bs_resource_memory_pressure_threshold bs) \<and>
     ratio_ok (bs_resource_disk_pressure_threshold bs) \<and> at_least 1 (bs_max_workspaces_per_sandbox bs)"

subsection \<open>Resolving it\<close>

definition resolveSandboxProviderKind :: "sandbox_settings \<Rightarrow> provider_kind" where
  "resolveSandboxProviderKind bs =
     or_else (bs_provider bs) (if truthy (map_option js_trim (bs_self_hosted_base_url bs)) then PrSelfHosted else PrEmbedded)"

definition read_pool :: "string \<Rightarrow> ownerless_pool option" where
  "read_pool s = (if s = ''shared'' then Some SharedPool else if s = ''dedicated'' then Some DedicatedPool else None)"

definition resolveSandboxFleetConfig :: "environment \<Rightarrow> sandbox_settings \<Rightarrow> sandbox_config" where
  "resolveSandboxFleetConfig env bs =
     (let providerKind = resolveSandboxProviderKind bs;
          managedByController = (providerKind \<noteq> PrEmbedded);
          minCount = readNonNegativeIntEnv env ''OAH_SANDBOX_FLEET_MIN_COUNT''
            (or_else (bs_min_count bs) (if managedByController then 1 else 0));
          defaultMaxCount = (if managedByController then max minCount 64 else max 1 minCount);
          maxCount = max minCount
            (readPositiveIntEnv env ''OAH_SANDBOX_FLEET_MAX_COUNT'' (or_else (bs_max_count bs) defaultMaxCount));
          warmEmptyCount = readNonNegativeIntEnv env ''OAH_SANDBOX_FLEET_WARM_EMPTY_COUNT''
            (or_else (bs_warm_empty_count bs) (if managedByController then 1 else 0))
      in \<lparr>sc_providerKind = providerKind, sc_managedByController = managedByController,
          sc_minCount = minCount, sc_maxCount = maxCount,
          sc_maxWorkspacesPerSandbox = readPositiveIntEnv env ''OAH_SANDBOX_FLEET_MAX_WORKSPACES_PER_SANDBOX''
            (or_else (bs_max_workspaces_per_sandbox bs) 32),
          sc_ownerlessPool = readEnumEnv env ''OAH_SANDBOX_FLEET_OWNERLESS_POOL'' read_pool
            (or_else (bs_ownerless_pool bs) SharedPool),
          sc_warmEmptyCount = warmEmptyCount,
          sc_thresholds =
            \<lparr>rt_cpu = readRatioEnv env ''OAH_SANDBOX_FLEET_RESOURCE_CPU_PRESSURE_THRESHOLD''
               (or_else (bs_resource_cpu_pressure_threshold bs) (4 / 5)),
             rt_memory = readRatioEnv env ''OAH_SANDBOX_FLEET_RESOURCE_MEMORY_PRESSURE_THRESHOLD''
               (or_else (bs_resource_memory_pressure_threshold bs) (4 / 5)),
             rt_disk = readRatioEnv env ''OAH_SANDBOX_FLEET_RESOURCE_DISK_PRESSURE_THRESHOLD''
               (or_else (bs_resource_disk_pressure_threshold bs) (17 / 20))\<rparr>\<rparr>)"

definition resolveStandaloneControllerConfig ::
    "environment \<Rightarrow> standalone_settings \<Rightarrow> controller_settings \<Rightarrow> sandbox_settings \<Rightarrow> controller_config" where
  "resolveStandaloneControllerConfig env st cs bs =
     (let sandboxFleet = resolveSandboxFleetConfig env bs;
          defaultMinReplicas = or_else (st_min_replicas st)
            (if sc_managedByController sandboxFleet then sc_minCount sandboxFleet else 1);
          minReplicas = readNonNegativeIntEnv env ''OAH_STANDALONE_WORKER_MIN_REPLICAS'' defaultMinReplicas;
          maxReplicas = max minReplicas (readPositiveIntEnv env ''OAH_STANDALONE_WORKER_MAX_REPLICAS''
            (or_else (st_max_replicas st)
              (if sc_managedByController sandboxFleet then max minReplicas (sc_maxCount sandboxFleet) else minReplicas)));
          latencyFirst = (readBooleanEnv env ''OAH_LATENCY_FIRST_PROFILE'' False \<or> minReplicas = maxReplicas)
      in \<lparr>cc_minReplicas = minReplicas,
          cc_maxReplicas = maxReplicas,
          cc_readySessionsPerCapacityUnit = readPositiveIntEnv env ''OAH_STANDALONE_WORKER_READY_SESSIONS_PER_CAPACITY_UNIT''
            (or_else (st_ready_sessions_per_capacity_unit st) 1),
          cc_reservedSubagentCapacity = readNonNegativeIntEnv env ''OAH_STANDALONE_WORKER_RESERVED_CAPACITY_FOR_SUBAGENT''
            (or_else (st_reserved_capacity_for_subagent st) 1),
          cc_scaleIntervalMs = readPositiveIntEnv env ''OAH_CONTROLLER_SCALE_INTERVAL_MS''
            (or_else (cs_scale_interval_ms cs) (if latencyFirst then 1000 else 5000)),
          cc_scaleUpCooldownMs = readNonNegativeIntEnv env ''OAH_CONTROLLER_SCALE_UP_COOLDOWN_MS''
            (or_else (cs_cooldown_ms cs) (if latencyFirst then 0 else 1000)),
          cc_scaleDownCooldownMs = readNonNegativeIntEnv env ''OAH_CONTROLLER_SCALE_DOWN_COOLDOWN_MS''
            (or_else (cs_cooldown_ms cs) (if latencyFirst then 0 else 15000)),
          cc_scaleUpSampleSize = readPositiveIntEnv env ''OAH_CONTROLLER_SCALE_UP_SAMPLE_SIZE''
            (or_else (cs_scale_up_window cs) (if latencyFirst then 1 else 2)),
          cc_scaleDownSampleSize = readPositiveIntEnv env ''OAH_CONTROLLER_SCALE_DOWN_SAMPLE_SIZE''
            (or_else (cs_scale_down_window cs) (if latencyFirst then 1 else 3)),
          cc_scaleUpBusyRatioThreshold = readRatioEnv env ''OAH_CONTROLLER_SCALE_UP_BUSY_RATIO_THRESHOLD''
            (or_else (cs_scale_up_busy_ratio_threshold cs) (3 / 4)),
          cc_scaleUpMaxReadyAgeMs = readPositiveIntEnv env ''OAH_CONTROLLER_SCALE_UP_MAX_READY_AGE_MS''
            (or_else (cs_scale_up_max_ready_age_ms cs) (if latencyFirst then 500 else 2000))\<rparr>)"

definition controller_config_ok :: "controller_config \<Rightarrow> bool" where
  "controller_config_ok c \<longleftrightarrow>
     0 \<le> cc_minReplicas c \<and> cc_minReplicas c \<le> cc_maxReplicas c \<and> 1 \<le> cc_readySessionsPerCapacityUnit c \<and>
     0 \<le> cc_reservedSubagentCapacity c \<and> 1 \<le> cc_scaleIntervalMs c \<and> 0 \<le> cc_scaleUpCooldownMs c \<and>
     0 \<le> cc_scaleDownCooldownMs c \<and> 1 \<le> cc_scaleUpSampleSize c \<and> 1 \<le> cc_scaleDownSampleSize c \<and>
     0 \<le> cc_scaleUpBusyRatioThreshold c \<and> cc_scaleUpBusyRatioThreshold c \<le> 1 \<and> 1 \<le> cc_scaleUpMaxReadyAgeMs c"

definition sandbox_config_ok :: "sandbox_config \<Rightarrow> bool" where
  "sandbox_config_ok c \<longleftrightarrow>
     0 \<le> sc_minCount c \<and> sc_minCount c \<le> sc_maxCount c \<and> 1 \<le> sc_maxWorkspacesPerSandbox c \<and> 0 \<le> sc_warmEmptyCount c \<and>
     (\<forall>r\<in>{rt_cpu (sc_thresholds c), rt_memory (sc_thresholds c), rt_disk (sc_thresholds c)}. 0 \<le> r \<and> r \<le> 1)"

lemma or_else_least: "at_least m x \<Longrightarrow> m \<le> d \<Longrightarrow> m \<le> or_else x d"
  by (cases x) (auto simp: at_least_def)

lemma or_else_ratio: "ratio_ok x \<Longrightarrow> 0 \<le> d \<Longrightarrow> d \<le> 1 \<Longrightarrow> 0 \<le> or_else x d \<and> or_else x d \<le> 1"
  by (cases x) (auto simp: ratio_ok_def)

lemma sandbox_resolved_ok:
  assumes "settings_ok st cs bs"
  shows "sandbox_config_ok (resolveSandboxFleetConfig env bs)"
proof -
  note s = assms [unfolded settings_ok_def]
  have ratio: "0 \<le> readRatioEnv env name (or_else x d) \<and> readRatioEnv env name (or_else x d) \<le> 1"
    if "ratio_ok x" "0 \<le> d" "d \<le> 1" for name x d
    using or_else_ratio [OF that] by (intro readRatio_range) auto
  show ?thesis
    using s
    by (simp add: sandbox_config_ok_def resolveSandboxFleetConfig_def Let_def ratio readNonNegative_ge readPositive_ge or_else_least)
qed

text \<open>
  C35: whatever the environment holds, a configuration that the schema accepts resolves to settings in range: the
  limits of replicas and sandboxes are ordered, windows and capacities positive, cooldowns not
  negative, and ratios between zero and one.
\<close>

theorem resolved_settings_in_range:
  assumes "settings_ok st cs bs"
  shows "controller_config_ok (resolveStandaloneControllerConfig env st cs bs) \<and> sandbox_config_ok (resolveSandboxFleetConfig env bs)"
proof
  show "sandbox_config_ok (resolveSandboxFleetConfig env bs)" by (rule sandbox_resolved_ok [OF assms])
  then have min: "0 \<le> sc_minCount (resolveSandboxFleetConfig env bs)" by (simp add: sandbox_config_ok_def)
  note s = assms [unfolded settings_ok_def]
  have pos: "1 \<le> readPositiveIntEnv env name (or_else x d)" if "at_least 1 x" "1 \<le> d" for name x d
    by (intro readPositive_ge or_else_least that)
  have nn: "0 \<le> readNonNegativeIntEnv env name (or_else x d)" if "at_least 0 x" "0 \<le> d" for name x d
    by (intro readNonNegative_ge or_else_least that)
  have weak: "at_least 1 (cs_scale_interval_ms cs)" "at_least 0 (cs_cooldown_ms cs)"
    using s by (auto simp: at_least_def split: option.splits)
  have ratio: "0 \<le> readRatioEnv env name (or_else (cs_scale_up_busy_ratio_threshold cs) (3 / 4)) \<and>
      readRatioEnv env name (or_else (cs_scale_up_busy_ratio_threshold cs) (3 / 4)) \<le> 1" for name
    using or_else_ratio [of "cs_scale_up_busy_ratio_threshold cs" "3 / 4"] s by (intro readRatio_range) auto
  show "controller_config_ok (resolveStandaloneControllerConfig env st cs bs)"
    using s weak min
    by (simp add: controller_config_ok_def resolveStandaloneControllerConfig_def Let_def pos nn ratio)
qed

definition default_settings :: "standalone_settings \<times> controller_settings \<times> sandbox_settings" where
  "default_settings =
     (\<lparr>st_min_replicas = Some 2, st_max_replicas = None, st_ready_sessions_per_capacity_unit = None,
       st_reserved_capacity_for_subagent = None\<rparr>,
      \<lparr>cs_scale_interval_ms = None, cs_cooldown_ms = None, cs_scale_up_window = None, cs_scale_down_window = None,
       cs_scale_up_busy_ratio_threshold = None, cs_scale_up_max_ready_age_ms = None\<rparr>,
      \<lparr>bs_provider = Some PrSelfHosted, bs_self_hosted_base_url = None, bs_min_count = None, bs_max_count = Some 4,
       bs_warm_empty_count = None, bs_resource_cpu_pressure_threshold = None, bs_resource_memory_pressure_threshold = None,
       bs_resource_disk_pressure_threshold = None, bs_max_workspaces_per_sandbox = None, bs_ownerless_pool = None\<rparr>)"

lemma resolved_settings_in_range_witness:
  "(case default_settings of (st, cs, bs) \<Rightarrow>
      controller_config_ok (resolveStandaloneControllerConfig
        [''OAH_STANDALONE_WORKER_MIN_REPLICAS'' \<mapsto> '' 7 '', ''OAH_STANDALONE_WORKER_MAX_REPLICAS'' \<mapsto> ''many''] st cs bs))"
proof -
  have "settings_ok (fst default_settings) (fst (snd default_settings)) (snd (snd default_settings))"
    by (simp add: default_settings_def settings_ok_def at_least_def ratio_ok_def)
  from resolved_settings_in_range [OF this, of "[''OAH_STANDALONE_WORKER_MIN_REPLICAS'' \<mapsto> '' 7 '',
      ''OAH_STANDALONE_WORKER_MAX_REPLICAS'' \<mapsto> ''many'']"]
  show ?thesis by (simp add: case_prod_unfold)
qed

subsection \<open>The scale target\<close>

record kubernetes_settings =
  ks_namespace :: "string option"
  ks_workload_kind :: "string option"
  ks_workload_name :: "string option"
  ks_deployment :: "string option"
  ks_statefulset :: "string option"
  ks_label_selector :: "string option"
  ks_api_url :: "string option"
  ks_token_file :: "string option"
  ks_ca_file :: "string option"
  ks_skip_tls_verify :: "bool option"

record compose_settings =
  ds_compose_file :: "string option"
  ds_project_name :: "string option"
  ds_service :: "string option"
  ds_command :: "string option"
  ds_endpoint :: "string option"
  ds_auth_token :: "string option"
  ds_timeout_ms :: "int option"

record scale_target_settings =
  ss_type :: "string option"
  ss_allow_scale_down :: "bool option"
  ss_kubernetes :: kubernetes_settings
  ss_docker_compose :: compose_settings

record remote_compose =
  rc_endpoint :: string
  rc_authToken :: "string option"
  rc_timeoutMs :: int

datatype resolved_target =
    NoopTarget bool
  | KubernetesTarget kube_config
  | ComposeTarget compose_config "remote_compose option"

definition readStringEnv :: "environment \<Rightarrow> string \<Rightarrow> string option \<Rightarrow> string option" where
  "readStringEnv env name fallback = or_opt (readEnv env name) fallback"

definition resolveKubernetesApiUrl :: "environment \<Rightarrow> string option \<Rightarrow> string option" where
  "resolveKubernetesApiUrl env raw =
     (case keep_truthy (map_option js_trim raw) of
        Some url \<Rightarrow> Some url
      | None \<Rightarrow>
          (case (readEnv env ''KUBERNETES_SERVICE_HOST'',
                 or_opt (readEnv env ''KUBERNETES_SERVICE_PORT_HTTPS'') (readEnv env ''KUBERNETES_SERVICE_PORT'')) of
             (Some host, Some port) \<Rightarrow> Some (''https://'' @ host @ '':'' @ port)
           | _ \<Rightarrow> None))"

definition resolveKubernetesWorkloadKind :: "string option \<Rightarrow> string + workload_kind" where
  "resolveKubernetesWorkloadKind raw =
     (case keep_truthy (map_option (\<lambda>s. map to_lower (js_trim s)) raw) of
        None \<Rightarrow> Inr DeploymentKind
      | Some normalized \<Rightarrow>
          if normalized = ''deployment'' \<or> normalized = ''deployments'' then Inr DeploymentKind
          else if normalized = ''statefulset'' \<or> normalized = ''statefulsets'' then Inr StatefulSetKind
          else Inl (''controller kubernetes scale target workload_kind must be Deployment or StatefulSet, got '' @
                 or_else raw [] @ ''.''))"

definition resolve_compose_target :: "environment \<Rightarrow> bool \<Rightarrow> compose_settings \<Rightarrow> string + resolved_target" where
  "resolve_compose_target env allowScaleDown ds =
     (let composeFile = readStringEnv env ''OAH_CONTROLLER_TARGET_COMPOSE_FILE'' (ds_compose_file ds);
          projectName = readStringEnv env ''OAH_CONTROLLER_TARGET_PROJECT_NAME'' (ds_project_name ds);
          service = readStringEnv env ''OAH_CONTROLLER_TARGET_COMPOSE_SERVICE'' (Some (or_else (ds_service ds) ''oah-sandbox''));
          command = or_else (readStringEnv env ''OAH_CONTROLLER_TARGET_COMPOSE_COMMAND'' (Some (or_else (ds_command ds) ''docker''))) ''docker'';
          endpoint = readStringEnv env ''OAH_CONTROLLER_TARGET_COMPOSE_ENDPOINT'' (ds_endpoint ds);
          authToken = readStringEnv env ''OAH_CONTROLLER_TARGET_COMPOSE_AUTH_TOKEN'' (ds_auth_token ds);
          timeoutMs = readIntEnv 100 env ''OAH_CONTROLLER_TARGET_COMPOSE_TIMEOUT_MS'' (or_else (ds_timeout_ms ds) 5000)
      in if \<not> truthy service then Inl ''controller docker_compose scale target requires service.''
         else if \<not> truthy projectName then Inl ''controller docker_compose scale target requires project_name.''
         else Inr (ComposeTarget
           \<lparr>dc_allowScaleDown = allowScaleDown, dc_composeFile = keep_truthy composeFile,
            dc_projectName = or_else projectName [], dc_service = or_else service [], dc_command = command\<rparr>
           (map_option (\<lambda>url. \<lparr>rc_endpoint = url, rc_authToken = keep_truthy authToken, rc_timeoutMs = timeoutMs\<rparr>)
              (keep_truthy endpoint))))"

definition resolve_kubernetes_target :: "environment \<Rightarrow> bool \<Rightarrow> kubernetes_settings \<Rightarrow> string + resolved_target" where
  "resolve_kubernetes_target env allowScaleDown ks =
     (let namespace = readStringEnv env ''OAH_CONTROLLER_TARGET_NAMESPACE'' (ks_namespace ks);
          kind = resolveKubernetesWorkloadKind (readStringEnv env ''OAH_CONTROLLER_TARGET_WORKLOAD_KIND''
            (or_opt (ks_workload_kind ks) (if truthy (ks_statefulset ks) then Some ''StatefulSet'' else None)));
          workloadName = readStringEnv env ''OAH_CONTROLLER_TARGET_WORKLOAD_NAME'' (ks_workload_name ks);
          deployment = readStringEnv env ''OAH_CONTROLLER_TARGET_DEPLOYMENT'' (ks_deployment ks);
          statefulset = readStringEnv env ''OAH_CONTROLLER_TARGET_STATEFULSET'' (ks_statefulset ks);
          labelSelector = readStringEnv env ''OAH_CONTROLLER_TARGET_LABEL_SELECTOR'' (ks_label_selector ks);
          apiUrl = resolveKubernetesApiUrl env (readStringEnv env ''OAH_CONTROLLER_KUBE_API_URL'' (ks_api_url ks));
          tokenFile = readStringEnv env ''OAH_CONTROLLER_KUBE_TOKEN_FILE''
            (Some (or_else (ks_token_file ks) ''/var/run/secrets/kubernetes.io/serviceaccount/token''));
          caFile = readStringEnv env ''OAH_CONTROLLER_KUBE_CA_FILE''
            (Some (or_else (ks_ca_file ks) ''/var/run/secrets/kubernetes.io/serviceaccount/ca.crt''));
          skipTlsVerify = readBooleanEnv env ''OAH_CONTROLLER_KUBE_SKIP_TLS_VERIFY'' (or_else (ks_skip_tls_verify ks) False)
      in case kind of
           Inl message \<Rightarrow> Inl message
         | Inr workloadKind \<Rightarrow>
             let explicit = or_opt workloadName (if workloadKind = StatefulSetKind then statefulset else deployment)
             in if \<not> truthy namespace then Inl ''controller kubernetes scale target requires namespace.''
                else if \<not> truthy explicit \<and> \<not> truthy labelSelector
                then Inl ''controller kubernetes scale target requires workload_name, deployment, statefulset, or label_selector.''
                else if \<not> truthy apiUrl
                then Inl ''controller kubernetes scale target requires api_url or in-cluster service env.''
                else if \<not> truthy tokenFile then Inl ''controller kubernetes scale target requires token_file.''
                else Inr (KubernetesTarget
                  \<lparr>kc_allowScaleDown = allowScaleDown, kc_namespace = or_else namespace [],
                   kc_workloadKind = Some workloadKind, kc_workloadName = keep_truthy explicit,
                   kc_deployment = (if workloadKind = DeploymentKind then keep_truthy deployment else None),
                   kc_labelSelector = keep_truthy labelSelector, kc_apiUrl = or_else apiUrl [],
                   kc_tokenFile = or_else tokenFile [], kc_caFile = keep_truthy caFile, kc_skipTlsVerify = skipTlsVerify\<rparr>))"

definition resolveWorkerReplicaTargetConfig :: "environment \<Rightarrow> scale_target_settings \<Rightarrow> string + resolved_target" where
  "resolveWorkerReplicaTargetConfig env ss =
     (let targetType = readStringEnv env ''OAH_CONTROLLER_TARGET_TYPE'' (Some (or_else (ss_type ss) ''noop''));
          allowScaleDown = readBooleanEnv env ''OAH_CONTROLLER_ALLOW_SCALE_DOWN'' (or_else (ss_allow_scale_down ss) True)
      in if targetType = Some ''kubernetes'' then resolve_kubernetes_target env allowScaleDown (ss_kubernetes ss)
         else if targetType = Some ''docker_compose'' then resolve_compose_target env allowScaleDown (ss_docker_compose ss)
         else Inr (NoopTarget allowScaleDown))"

text \<open>A resolved Kubernetes target always has a workload to scale: a name, or a selector to find it by.\<close>

lemma truthy_read: "truthy x \<Longrightarrow> or_else x [] \<noteq> []" "truthy (keep_truthy x) = truthy x"
  by (cases x; simp add: truthy_def)+

lemma all_checks_passed:
  "(if \<not> a then Inl e1 else if \<not> b \<and> \<not> c then Inl e2 else if \<not> d then Inl e3 else if \<not> f then Inl e4 else Inr x) = Inr y \<Longrightarrow>
    a \<and> (b \<or> c) \<and> d \<and> f \<and> y = x"
  by (simp split: if_splits)

lemma kubernetes_target_has_workload:
  assumes "resolveWorkerReplicaTargetConfig env ss = Inr (KubernetesTarget kc)"
  shows "kc_namespace kc \<noteq> [] \<and> kc_apiUrl kc \<noteq> [] \<and> kc_tokenFile kc \<noteq> [] \<and>
    (truthy (kc_workloadName kc) \<or> truthy (kc_labelSelector kc))"
proof -
  have "\<exists>allow. resolve_kubernetes_target env allow (ss_kubernetes ss) = Inr (KubernetesTarget kc)"
    using assms by (auto simp: resolveWorkerReplicaTargetConfig_def resolve_compose_target_def Let_def split: if_splits)
  then obtain allow where k: "resolve_kubernetes_target env allow (ss_kubernetes ss) = Inr (KubernetesTarget kc)" by blast
  show ?thesis
  proof (cases "resolveKubernetesWorkloadKind (readStringEnv env ''OAH_CONTROLLER_TARGET_WORKLOAD_KIND''
      (or_opt (ks_workload_kind (ss_kubernetes ss)) (if truthy (ks_statefulset (ss_kubernetes ss)) then Some ''StatefulSet'' else None)))")
    case (Inl message)
    with k show ?thesis by (simp only: resolve_kubernetes_target_def Let_def sum.case) simp
  next
    case (Inr kind)
    from k [unfolded resolve_kubernetes_target_def Let_def Inr sum.case, THEN all_checks_passed]
    show ?thesis by (simp only: resolved_target.inject) (simp only: kube_config.select_convs truthy_read simp_thms)
  qed
qed

text \<open>The target that the controller runs, for the two kinds whose transport is modelled here.\<close>

definition createWorkerReplicaTarget ::
    "'s kube_transport \<Rightarrow> (string \<Rightarrow> ('s, string, string) fallible) \<Rightarrow> ('s, string, managed_container list) fallible \<Rightarrow>
     (string list \<Rightarrow> ('s, string, command_result) fallible) \<Rightarrow> (remote_compose \<Rightarrow> target_input \<Rightarrow> ('s, string, target_result) fallible) \<Rightarrow>
     resolved_target \<Rightarrow> string \<times> (target_input \<Rightarrow> ('s, string, target_result) fallible)" where
  "createWorkerReplicaTarget request readToken listContainers run remote target =
     (case target of
        NoopTarget allowScaleDown \<Rightarrow> (''noop'', \<lambda>input. ok (noop_reconcile input))
      | KubernetesTarget config \<Rightarrow>
          (''kubernetes'', \<lambda>input s. (case kube_reconcile request readToken config input s of (r, s') \<Rightarrow> (Inr r, s')))
      | ComposeTarget config None \<Rightarrow> (''docker_compose'', compose_reconcile listContainers run config)
      | ComposeTarget config (Some endpoint) \<Rightarrow> (''docker_compose'', remote endpoint))"

end
