(* ===== verification/Message_Content.thy ===== *)
theory Message_Content
  imports Contracts Js_Collections
begin

text \<open>
  The contents of messages (\<open>packages/engine-core/src/execution-message-content.ts\<close>): the guards that
  tell what a value of unknown type is, and the contents the engine builds from what a model and its tools
  return. A value of type \<open>unknown\<close> is \<open>json\<close>, \<open>undefined\<close> is \<open>None\<close>; a guard that may throw
  returns an option, \<open>None\<close> when it throws.
\<close>

subsection \<open>Guards\<close>

definition isJsonObject :: "json \<Rightarrow> bool" where
  "isJsonObject v = (case v of JObj _ \<Rightarrow> True | _ \<Rightarrow> False)"

definition has_type :: "string \<Rightarrow> json \<Rightarrow> bool" where
  "has_type t v \<longleftrightarrow> isJsonObject v \<and> json_field ''type'' v = Some (JStr t)"

definition string_field :: "string \<Rightarrow> json \<Rightarrow> bool" where
  "string_field k v = (case json_field k v of Some (JStr _) \<Rightarrow> True | _ \<Rightarrow> False)"

definition bool_field :: "string \<Rightarrow> json \<Rightarrow> bool" where
  "bool_field k v = (case json_field k v of Some (JBool _) \<Rightarrow> True | _ \<Rightarrow> False)"

definition isStructuredToolResultOutput :: "json \<Rightarrow> bool" where
  "isStructuredToolResultOutput v \<longleftrightarrow>
     has_type ''text'' v \<and> string_field ''value'' v \<or>
     has_type ''json'' v \<and> json_field ''value'' v \<noteq> None \<or>
     has_type ''execution-denied'' v \<and> (json_field ''reason'' v = None \<or> string_field ''reason'' v) \<or>
     has_type ''error-text'' v \<and> string_field ''value'' v \<or>
     has_type ''error-json'' v \<and> json_field ''value'' v \<noteq> None \<or>
     has_type ''content'' v \<and> (case json_field ''value'' v of Some (JArr _) \<Rightarrow> True | _ \<Rightarrow> False)"

text \<open>\<open>part.type === "text"\<close> reads a property, which throws on \<open>null\<close>; it does not look at the text.\<close>

definition isTextMessagePart :: "json \<Rightarrow> bool option" where
  "isTextMessagePart v = (if v = JNull then None else Some (json_field ''type'' v = Some (JStr ''text'')))"

definition isImageMessagePart :: "json \<Rightarrow> bool" where
  "isImageMessagePart v \<longleftrightarrow> has_type ''image'' v \<and> string_field ''image'' v"

definition isFileMessagePart :: "json \<Rightarrow> bool" where
  "isFileMessagePart v \<longleftrightarrow> has_type ''file'' v \<and> string_field ''data'' v \<and> string_field ''mediaType'' v"

definition isReasoningMessagePart :: "json \<Rightarrow> bool" where
  "isReasoningMessagePart v \<longleftrightarrow> has_type ''reasoning'' v \<and> string_field ''text'' v"

definition isToolCallMessagePart :: "json \<Rightarrow> bool" where
  "isToolCallMessagePart v \<longleftrightarrow> has_type ''tool-call'' v \<and> string_field ''toolCallId'' v \<and> string_field ''toolName'' v"

definition isToolResultMessagePart :: "json \<Rightarrow> bool" where
  "isToolResultMessagePart v \<longleftrightarrow>
     has_type ''tool-result'' v \<and> string_field ''toolCallId'' v \<and> string_field ''toolName'' v \<and>
     (case json_field ''output'' v of Some x \<Rightarrow> isStructuredToolResultOutput x | None \<Rightarrow> False)"

definition isToolApprovalRequestMessagePart :: "json \<Rightarrow> bool" where
  "isToolApprovalRequestMessagePart v \<longleftrightarrow>
     has_type ''tool-approval-request'' v \<and> string_field ''approvalId'' v \<and> string_field ''toolCallId'' v"

definition isToolApprovalResponseMessagePart :: "json \<Rightarrow> bool" where
  "isToolApprovalResponseMessagePart v \<longleftrightarrow>
     has_type ''tool-approval-response'' v \<and> string_field ''approvalId'' v \<and> bool_field ''approved'' v"

text \<open>\<open>xs.every(p)\<close> and \<open>a || b\<close> stop at the first answer, or where the guard throws.\<close>

fun js_every :: "('a \<Rightarrow> bool option) \<Rightarrow> 'a list \<Rightarrow> bool option" where
  "js_every p [] = Some True"
| "js_every p (x # xs) = (case p x of None \<Rightarrow> None | Some False \<Rightarrow> Some False | Some True \<Rightarrow> js_every p xs)"

definition else_test :: "bool option \<Rightarrow> bool \<Rightarrow> bool option" where
  "else_test a b = (case a of None \<Rightarrow> None | Some True \<Rightarrow> Some True | Some False \<Rightarrow> Some b)"

definition isMessagePartList :: "json \<Rightarrow> bool" where
  "isMessagePartList v =
     (case v of
        JArr parts \<Rightarrow>
          (\<forall>part\<in>set parts.
             isTextMessagePart part = Some True \<or> isImageMessagePart part \<or> isFileMessagePart part \<or>
             isReasoningMessagePart part \<or> isToolCallMessagePart part \<or> isToolResultMessagePart part \<or>
             isToolApprovalRequestMessagePart part \<or> isToolApprovalResponseMessagePart part)
      | _ \<Rightarrow> False)"

definition isMessageContentForRole :: "role \<Rightarrow> json \<Rightarrow> bool option" where
  "isMessageContentForRole r content =
     (case (r, content) of
        (RoleSystem, JStr _) \<Rightarrow> Some True
      | (RoleUser, JStr _) \<Rightarrow> Some True
      | (RoleAssistant, JStr _) \<Rightarrow> Some True
      | (RoleUser, JArr parts) \<Rightarrow>
          js_every (\<lambda>part. else_test (isTextMessagePart part) (isImageMessagePart part \<or> isFileMessagePart part)) parts
      | (RoleAssistant, JArr parts) \<Rightarrow>
          js_every (\<lambda>part. else_test (isTextMessagePart part)
            (isFileMessagePart part \<or> isReasoningMessagePart part \<or> isToolCallMessagePart part \<or>
             isToolResultMessagePart part \<or> isToolApprovalRequestMessagePart part)) parts
      | (RoleTool, JArr parts) \<Rightarrow>
          js_every (\<lambda>part. Some (isToolResultMessagePart part \<or> isToolApprovalResponseMessagePart part)) parts
      | _ \<Rightarrow> Some False)"

text \<open>What the guard lets through becomes a prompt message, the rest an error.\<close>

definition contentToPromptMessage :: "role \<Rightarrow> json \<Rightarrow> string + role \<times> json" where
  "contentToPromptMessage r content =
     (if isMessageContentForRole r content = Some True then Inr (r, content)
      else if isMessageContentForRole r content = None then Inl ''Cannot read properties of null (reading 'type')''
      else Inl (case r of
        RoleSystem \<Rightarrow> ''Invalid system content.'' | RoleUser \<Rightarrow> ''Invalid user content.''
      | RoleAssistant \<Rightarrow> ''Invalid assistant content.'' | RoleTool \<Rightarrow> ''Invalid tool content.''))"

subsection \<open>Contents built from the output of a model\<close>

record model_output =
  mo_text :: "string option"
  mo_content :: "json list option"
  mo_reasoning :: "json list option"

definition normalizeAssistantMessagePart :: "json \<Rightarrow> json option" where
  "normalizeAssistantMessagePart v =
     (if has_type ''text'' v \<and> string_field ''text'' v \<or> isFileMessagePart v \<or> isReasoningMessagePart v \<or>
         isToolCallMessagePart v \<or> isToolResultMessagePart v \<or> isToolApprovalRequestMessagePart v
      then Some v else None)"

definition normalizeNarrativeAssistantMessagePart :: "json \<Rightarrow> json option" where
  "normalizeNarrativeAssistantMessagePart v =
     (if has_type ''text'' v \<and> string_field ''text'' v \<or> isFileMessagePart v \<or> isReasoningMessagePart v
      then Some v else None)"

text \<open>
  \<open>pushPart\<close> drops a part whose \<open>JSON.stringify\<close> was seen before; on JSON values, whose properties are kept
  in order, that is a part that is there already.
\<close>

definition text_part :: "string \<Rightarrow> json" where
  "text_part t = JObj [(''type'', JStr ''text''), (''text'', JStr t)]"

definition has_text_part :: "json list \<Rightarrow> bool" where
  "has_text_part parts \<longleftrightarrow>
     (\<exists>part\<in>set parts. has_type ''text'' part \<and> (case json_field ''text'' part of Some (JStr t) \<Rightarrow> t \<noteq> [] | _ \<Rightarrow> False))"

definition output_parts :: "(json \<Rightarrow> json option) \<Rightarrow> model_output \<Rightarrow> json list" where
  "output_parts pick out =
     (let parts = jset_from (List.map_filter pick (or_else (mo_content out) []) @
                    filter isReasoningMessagePart (or_else (mo_reasoning out) []))
      in case keep_truthy (mo_text out) of
           Some t \<Rightarrow> if has_text_part parts then parts else jset_add (text_part t) parts
         | None \<Rightarrow> parts)"

definition assistantContentFromModelOutput :: "model_output \<Rightarrow> json" where
  "assistantContentFromModelOutput out =
     (let parts = output_parts normalizeAssistantMessagePart out
      in if parts \<noteq> [] then JArr parts else JStr (or_else (mo_text out) []))"

definition assistantNarrativeContentFromModelOutput :: "model_output \<Rightarrow> json option" where
  "assistantNarrativeContentFromModelOutput out =
     (let parts = output_parts normalizeNarrativeAssistantMessagePart out
      in if parts \<noteq> [] then Some (JArr parts) else map_option JStr (keep_truthy (mo_text out)))"

subsection \<open>Contents built from tool calls and their results\<close>

definition normalizeToolResultOutput :: "json option \<Rightarrow> json" where
  "normalizeToolResultOutput x =
     (case x of
        None \<Rightarrow> JObj [(''type'', JStr ''json''), (''value'', JNull)]
      | Some v \<Rightarrow>
          if isStructuredToolResultOutput v then v
          else (case v of
            JStr s \<Rightarrow> JObj [(''type'', JStr ''text''), (''value'', JStr s)]
          | _ \<Rightarrow> JObj [(''type'', JStr ''json''), (''value'', v)]))"

text \<open>What a tool throws: an \<open>Error\<close> with its message, or any other value.\<close>

datatype thrown = ThrownError string | ThrownValue "json option"

definition normalizeToolErrorOutput :: "thrown \<Rightarrow> json" where
  "normalizeToolErrorOutput e =
     (case e of
        ThrownError message \<Rightarrow> JObj [(''type'', JStr ''error-text''), (''value'', JStr message)]
      | ThrownValue None \<Rightarrow> JObj [(''type'', JStr ''error-json''), (''value'', JNull)]
      | ThrownValue (Some v) \<Rightarrow>
          if isStructuredToolResultOutput v then v
          else (case v of
            JStr s \<Rightarrow> JObj [(''type'', JStr ''error-text''), (''value'', JStr s)]
          | _ \<Rightarrow> JObj [(''type'', JStr ''error-json''), (''value'', v)]))"

definition toolCallContent :: "(string \<times> string \<times> json option) list \<Rightarrow> json" where
  "toolCallContent toolCalls =
     JArr (map (\<lambda>(toolCallId, toolName, input).
       JObj [(''type'', JStr ''tool-call''), (''toolCallId'', JStr toolCallId), (''toolName'', JStr toolName),
             (''input'', or_else input JNull)]) toolCalls)"

definition tool_result_part :: "string \<Rightarrow> string \<Rightarrow> json \<Rightarrow> json" where
  "tool_result_part toolCallId toolName x =
     JObj [(''type'', JStr ''tool-result''), (''toolCallId'', JStr toolCallId), (''toolName'', JStr toolName), (''output'', x)]"

definition toolResultParts :: "string \<Rightarrow> string \<Rightarrow> json option \<Rightarrow> json" where
  "toolResultParts toolCallId toolName x = JArr [tool_result_part toolCallId toolName (normalizeToolResultOutput x)]"

definition toolErrorResultContent :: "string \<Rightarrow> string \<Rightarrow> thrown \<Rightarrow> json" where
  "toolErrorResultContent toolCallId toolName e = JArr [tool_result_part toolCallId toolName (normalizeToolErrorOutput e)]"

subsection \<open>The text of a content\<close>

definition text_of_part :: "message_part \<Rightarrow> string option" where
  "text_of_part part = (case part of TextPart t _ \<Rightarrow> Some t | _ \<Rightarrow> None)"

definition extractTextFromContent :: "content \<Rightarrow> string" where
  "extractTextFromContent c =
     (case c of
        ContentText t \<Rightarrow> t
      | ContentParts parts \<Rightarrow> js_join [CHR 0x0A, CHR 0x0A] (List.map_filter text_of_part parts))"

subsection \<open>What the contents are\<close>

text \<open>
  The parts a content of a role may have (\<open>packages/api-contracts/src/messages.ts\<close>), up to the
  optional properties. A content is a text, but for tools, or a list of such parts, but for the system.
\<close>

definition typed_part :: "role \<Rightarrow> json \<Rightarrow> bool" where
  "typed_part r v \<longleftrightarrow>
     (case r of
        RoleSystem \<Rightarrow> False
      | RoleUser \<Rightarrow> has_type ''text'' v \<and> string_field ''text'' v \<or> isImageMessagePart v \<or> isFileMessagePart v
      | RoleAssistant \<Rightarrow>
          has_type ''text'' v \<and> string_field ''text'' v \<or> isFileMessagePart v \<or> isReasoningMessagePart v \<or>
          isToolCallMessagePart v \<or> isToolResultMessagePart v \<or> isToolApprovalRequestMessagePart v
      | RoleTool \<Rightarrow> isToolResultMessagePart v \<or> isToolApprovalResponseMessagePart v)"

definition typed_content :: "role \<Rightarrow> json \<Rightarrow> bool" where
  "typed_content r c \<longleftrightarrow>
     (case c of
        JStr _ \<Rightarrow> r \<noteq> RoleTool
      | JArr parts \<Rightarrow> r \<noteq> RoleSystem \<and> (\<forall>part\<in>set parts. typed_part r part)
      | _ \<Rightarrow> False)"

lemmas part_defs = has_type_def string_field_def bool_field_def isJsonObject_def

lemma js_every_True: "js_every p xs = Some True \<longleftrightarrow> (\<forall>x\<in>set xs. p x = Some True)"
  by (induction xs) (auto split: option.split bool.split)

lemma else_test_True: "else_test a b = Some True \<longleftrightarrow> a = Some True \<or> a = Some False \<and> b"
  by (auto simp: else_test_def split: option.split bool.split)

lemma has_type_not_null: "has_type t v \<Longrightarrow> v \<noteq> JNull"
  by (auto simp: part_defs)

lemma isTextMessagePart_object: "isJsonObject v \<Longrightarrow> isTextMessagePart v = Some (has_type ''text'' v)"
  by (auto simp: isTextMessagePart_def has_type_def isJsonObject_def)

lemma typed_part_object: "typed_part r v \<Longrightarrow> isJsonObject v"
  by (cases r) (auto simp: typed_part_def isImageMessagePart_def isFileMessagePart_def isReasoningMessagePart_def
      isToolCallMessagePart_def isToolResultMessagePart_def isToolApprovalRequestMessagePart_def
      isToolApprovalResponseMessagePart_def has_type_def)

text \<open>The guard accepts every typed content, and turns it into a prompt message.\<close>

lemma typed_content_accepted:
  assumes "typed_content r c"
  shows "isMessageContentForRole r c = Some True" "contentToPromptMessage r c = Inr (r, c)"
proof -
  have is_text: "isTextMessagePart part = Some (has_type ''text'' part)" if "typed_part r part" for part
    using that by (intro isTextMessagePart_object typed_part_object)
  show g: "isMessageContentForRole r c = Some True"
  proof (cases c)
    case (JArr parts)
    with assms have "r \<noteq> RoleSystem" and typed: "\<And>part. part \<in> set parts \<Longrightarrow> typed_part r part"
      by (auto simp: typed_content_def)
    then show ?thesis
      using is_text JArr by (cases r) (auto simp: isMessageContentForRole_def js_every_True else_test_True typed_part_def)
  qed (use assms in \<open>cases r; auto simp: typed_content_def isMessageContentForRole_def\<close>)+
  then show "contentToPromptMessage r c = Inr (r, c)" by (simp add: contentToPromptMessage_def)
qed

text \<open>The guard accepts no more than that, except text parts without a text.\<close>

lemma accepted_is_typed:
  assumes "isMessageContentForRole r c = Some True"
    and "\<And>parts part. c = JArr parts \<Longrightarrow> part \<in> set parts \<Longrightarrow> has_type ''text'' part \<Longrightarrow> string_field ''text'' part"
  shows "typed_content r c"
proof (cases c)
  case (JArr parts)
  have obj: "json_field ''type'' v = Some (JStr t) \<Longrightarrow> has_type t v" for v t by (cases v) (auto simp: part_defs)
  show ?thesis
    using assms(1) assms(2) [OF JArr] JArr
    by (cases r) (auto simp: isMessageContentForRole_def js_every_True else_test_True typed_content_def typed_part_def
        isTextMessagePart_def dest!: bspec obj split: if_splits)
qed (use assms(1) in \<open>cases r; auto simp: typed_content_def isMessageContentForRole_def\<close>)+

lemma guard_accepts_text_without_text:
  "isMessageContentForRole RoleUser (JArr [JObj [(''type'', JStr ''text'')]]) = Some True \<and>
   \<not> typed_content RoleUser (JArr [JObj [(''type'', JStr ''text'')]])"
  by code_simp

lemma guard_throws_on_null:
  "isMessageContentForRole RoleUser (JArr [JNull]) = None \<and> isMessageContentForRole RoleAssistant (JArr [JNull]) = None"
  by code_simp

text \<open>What is kept of the output of a model: each part that is one, once and in order, and the text if no part has any.\<close>

lemma map_filter_Some_if: "List.map_filter (\<lambda>v. if P v then Some v else None) xs = filter P xs"
  by (induction xs) (simp_all add: List.map_filter_simps)

lemma output_parts_set:
  assumes "pick = (\<lambda>v. if P v then Some v else None)"
  shows "set (output_parts pick out) =
      {v \<in> set (or_else (mo_content out) []). P v} \<union> {v \<in> set (or_else (mo_reasoning out) []). isReasoningMessagePart v} \<union>
      (case keep_truthy (mo_text out) of
         Some t \<Rightarrow> if has_text_part (filter P (or_else (mo_content out) [])) then {} else {text_part t}
       | None \<Rightarrow> {})"
    and "distinct (output_parts pick out)"
proof -
  let ?c = "filter P (or_else (mo_content out) [])" and ?r = "filter isReasoningMessagePart (or_else (mo_reasoning out) [])"
  have r: "\<not> has_type ''text'' v" if "isReasoningMessagePart v" for v
    using that by (auto simp: isReasoningMessagePart_def has_type_def)
  have ht: "has_text_part (jset_from (?c @ ?r)) = has_text_part ?c"
    using r by (auto simp: has_text_part_def)
  show "set (output_parts pick out) =
      {v \<in> set (or_else (mo_content out) []). P v} \<union> {v \<in> set (or_else (mo_reasoning out) []). isReasoningMessagePart v} \<union>
      (case keep_truthy (mo_text out) of
         Some t \<Rightarrow> if has_text_part (filter P (or_else (mo_content out) [])) then {} else {text_part t} | None \<Rightarrow> {})"
    by (auto simp: output_parts_def assms map_filter_Some_if Let_def ht split: option.split)
  show "distinct (output_parts pick out)"
    by (auto simp: output_parts_def Let_def split: option.split)
qed

lemma narrative_pick: "normalizeNarrativeAssistantMessagePart =
    (\<lambda>v. if has_type ''text'' v \<and> string_field ''text'' v \<or> isFileMessagePart v \<or> isReasoningMessagePart v then Some v else None)"
  by (simp add: fun_eq_iff normalizeNarrativeAssistantMessagePart_def)

lemma assistant_pick: "normalizeAssistantMessagePart = (\<lambda>v. if typed_part RoleAssistant v then Some v else None)"
  by (simp add: fun_eq_iff normalizeAssistantMessagePart_def typed_part_def)

lemma typed_text_part [simp]: "typed_part RoleAssistant (text_part t)" "typed_part RoleUser (text_part t)"
  by (simp_all add: typed_part_def text_part_def part_defs)

lemma reasoning_typed: "isReasoningMessagePart v \<Longrightarrow> typed_part RoleAssistant v"
  by (simp add: typed_part_def)

lemma structured_outputs [simp]:
  "isStructuredToolResultOutput (JObj [(''type'', JStr ''text''), (''value'', JStr t)])"
  "isStructuredToolResultOutput (JObj [(''type'', JStr ''json''), (''value'', v)])"
  "isStructuredToolResultOutput (JObj [(''type'', JStr ''error-text''), (''value'', JStr t)])"
  "isStructuredToolResultOutput (JObj [(''type'', JStr ''error-json''), (''value'', v)])"
  by (simp_all add: isStructuredToolResultOutput_def part_defs)

lemma structured_result [simp]: "isStructuredToolResultOutput (normalizeToolResultOutput x)"
  unfolding normalizeToolResultOutput_def by (simp split: option.split json.split)

lemma structured_error [simp]: "isStructuredToolResultOutput (normalizeToolErrorOutput e)"
  unfolding normalizeToolErrorOutput_def by (simp split: option.split json.split thrown.split)

lemma typed_tool_result_part: "isStructuredToolResultOutput x \<Longrightarrow> typed_part RoleTool (tool_result_part i n x)"
  by (simp add: typed_part_def tool_result_part_def isToolResultMessagePart_def part_defs)

text \<open>For tools, the guard accepts the typed contents and nothing else.\<close>

lemma tool_guard_is_exact: "isMessageContentForRole RoleTool c = Some (typed_content RoleTool c)"
proof (cases c)
  case (JArr parts)
  have "js_every (\<lambda>part. Some (p part)) parts = Some (\<forall>part\<in>set parts. p part)" for p
    by (induction parts) (auto split: bool.split)
  then show ?thesis by (simp add: JArr isMessageContentForRole_def typed_content_def typed_part_def)
qed (simp_all add: isMessageContentForRole_def typed_content_def)

text \<open>A content of a role: typed, let through by the guard, and turned into a prompt message as it is.\<close>

definition becomes_prompt :: "role \<Rightarrow> json \<Rightarrow> bool" where
  "becomes_prompt r c \<longleftrightarrow>
     typed_content r c \<and> isMessageContentForRole r c = Some True \<and> contentToPromptMessage r c = Inr (r, c)"

lemma typed_becomes_prompt: "typed_content r c \<Longrightarrow> becomes_prompt r c"
  by (simp add: becomes_prompt_def typed_content_accepted)

text \<open>
  C38: what the engine stores is typed. Whatever a model and its tools return, the content of the assistant message, its
  narrative part (when there is one), the tool calls, the results and the errors of tools are contents of their roles; the guard accepts each
  of them and each becomes a prompt message unchanged. For the role of tools the guard accepts the typed contents and no other, and never throws.
\<close>

theorem built_contents_are_typed:
  "becomes_prompt RoleAssistant (assistantContentFromModelOutput out) \<and>
   (case assistantNarrativeContentFromModelOutput out of None \<Rightarrow> True | Some c \<Rightarrow> becomes_prompt RoleAssistant c) \<and>
   becomes_prompt RoleAssistant (toolCallContent calls) \<and>
   becomes_prompt RoleTool (toolResultParts i n x) \<and>
   becomes_prompt RoleTool (toolErrorResultContent i n e) \<and>
   isMessageContentForRole RoleTool content = Some (typed_content RoleTool content)"
proof -
  note parts = output_parts_set(1) [OF assistant_pick, of out] output_parts_set(1) [OF narrative_pick, of out]
  have full: "typed_content RoleAssistant (assistantContentFromModelOutput out)"
    using parts(1) reasoning_typed
    by (auto simp: assistantContentFromModelOutput_def typed_content_def Let_def split: option.splits if_splits)
  have "\<forall>v\<in>set (output_parts normalizeNarrativeAssistantMessagePart out). typed_part RoleAssistant v"
    using parts(2) reasoning_typed by (auto simp: typed_part_def text_part_def part_defs split: option.splits if_splits)
  then have "\<And>c. assistantNarrativeContentFromModelOutput out = Some c \<Longrightarrow> typed_content RoleAssistant c"
    by (auto simp: assistantNarrativeContentFromModelOutput_def typed_content_def Let_def split: if_splits)
  then have narrative: "case assistantNarrativeContentFromModelOutput out of None \<Rightarrow> True | Some c \<Rightarrow> becomes_prompt RoleAssistant c"
    using typed_becomes_prompt by (auto split: option.split)
  have "typed_content RoleAssistant (toolCallContent calls)"
    by (auto simp: toolCallContent_def typed_content_def typed_part_def isToolCallMessagePart_def part_defs)
  moreover have "typed_content RoleTool (toolResultParts i n x)" "typed_content RoleTool (toolErrorResultContent i n e)"
    by (simp_all add: toolResultParts_def toolErrorResultContent_def typed_content_def typed_tool_result_part)
  ultimately show ?thesis using full narrative tool_guard_is_exact typed_becomes_prompt by blast
qed

end
