(* ===== verification/Js_Date.thy ===== *)
theory Js_Date
  imports Js_Prelude
begin

text \<open>
  \<open>Date.parse\<close> and \<open>new Date(ms).toISOString()\<close>. Times are milliseconds since 1970; of the formats that
  \<open>Date.parse\<close> reads only the one that \<open>toISOString\<close> writes for the years 0 to 9999 is modelled, any other string
  is \<open>None\<close>, which stands for \<open>NaN\<close>.
\<close>

subsection \<open>Days and dates\<close>

text \<open>Years are counted from March, in cycles of 400, 100, 4 and 1 years.\<close>

definition date_of_days :: "int \<Rightarrow> int \<times> int \<times> int" where
  "date_of_days days =
     (let z = days + 719468;
          r = z mod 146097;
          n100 = min 3 (r div 36524);
          r1 = r - 36524 * n100;
          n4 = r1 div 1461;
          r2 = r1 mod 1461;
          n1 = min 3 (r2 div 365);
          doy = r2 - 365 * n1;
          mp = (5 * doy + 2) div 153;
          day = doy - (153 * mp + 2) div 5 + 1;
          month = (if mp < 10 then mp + 3 else mp - 9);
          year = 400 * (z div 146097) + 100 * n100 + 4 * n4 + n1
      in (if month \<le> 2 then year + 1 else year, month, day))"

definition days_of_date :: "int \<Rightarrow> int \<Rightarrow> int \<Rightarrow> int" where
  "days_of_date year month day =
     (let y = (if month \<le> 2 then year - 1 else year);
          yoe = y mod 400;
          doy = (153 * (if month > 2 then month - 3 else month + 9) + 2) div 5 + day - 1
      in 146097 * (y div 400) + 365 * yoe + yoe div 4 - yoe div 100 + doy - 719468)"

lemma days_of_date_of_days:
  assumes "date_of_days n = (y, m, d)"
  shows "days_of_date y m d = n" "1 \<le> m" "m \<le> 12" "1 \<le> d" "d \<le> 31"
proof -
  define z r where "z = n + 719468" and "r = z mod 146097"
  define n100 where "n100 = min 3 (r div 36524)"
  define r1 where "r1 = r - 36524 * n100"
  define n4 r2 where "n4 = r1 div 1461" and "r2 = r1 mod 1461"
  define n1 where "n1 = min 3 (r2 div 365)"
  define doy where "doy = r2 - 365 * n1"
  define mp where "mp = (5 * doy + 2) div 153"
  have r: "0 \<le> r" "r < 146097" "z = 146097 * (z div 146097) + r" by (simp_all add: r_def)
  have n100: "0 \<le> n100" "n100 \<le> 3" using r by (simp_all add: n100_def)
  have r1: "0 \<le> r1" "r1 \<le> 36524" using r by (auto simp: r1_def n100_def min_def)
  have n4: "0 \<le> n4" "n4 \<le> 24" using r1 by (simp_all add: n4_def)
  have r2: "0 \<le> r2" "r2 \<le> 1460" "r1 = 1461 * n4 + r2" by (simp_all add: n4_def r2_def)
  have n1: "0 \<le> n1" "n1 \<le> 3" using r2 by (simp_all add: n1_def)
  have doy: "0 \<le> doy" "doy \<le> 365" using r2 by (auto simp: doy_def n1_def min_def)
  have mp: "0 \<le> mp" "mp \<le> 11" using doy by (simp_all add: mp_def)
  define y0 where "y0 = 400 * (z div 146097) + 100 * n100 + 4 * n4 + n1"
  have "y0 = 100 * n100 + 4 * n4 + n1 + z div 146097 * 400" "0 \<le> 100 * n100 + 4 * n4 + n1" "100 * n100 + 4 * n4 + n1 < 400"
    using n100 n4 n1 by (simp_all add: y0_def)
  then have yoe: "y0 mod 400 = 100 * n100 + 4 * n4 + n1" "y0 div 400 = z div 146097"
    by (simp_all only: mod_mult_self1 div_mult_self1 mod_pos_pos_trivial div_pos_pos_trivial)
  have quarters: "(100 * n100 + 4 * n4 + n1) div 4 = 25 * n100 + n4" "(100 * n100 + 4 * n4 + n1) div 100 = n100"
    using n100 n4 n1 by simp_all
  let ?m = "if mp < 10 then mp + 3 else mp - 9"
  have "date_of_days n = (if ?m \<le> 2 then y0 + 1 else y0, ?m, doy - (153 * mp + 2) div 5 + 1)"
    unfolding date_of_days_def Let_def y0_def mp_def doy_def n1_def n4_def r2_def r1_def n100_def r_def z_def by (rule refl)
  then have m: "m = ?m" and d: "d = doy - (153 * mp + 2) div 5 + 1" and y: "y = (if m \<le> 2 then y0 + 1 else y0)"
    using assms by simp_all
  show "1 \<le> m" "m \<le> 12" using mp by (auto simp: m)
  have "153 * mp \<le> 5 * doy + 2" "5 * doy + 2 < 153 * mp + 153" by (simp_all add: mp_def)
  then show "1 \<le> d" "d \<le> 31" by (simp_all add: d)
  have march: "(if m \<le> 2 then y - 1 else y) = y0" "(if m > 2 then m - 3 else m + 9) = mp"
    using mp by (auto simp: y m)
  show "days_of_date y m d = n"
    unfolding days_of_date_def Let_def march yoe quarters using r(3) r2(3)
    by (simp add: d doy_def r1_def z_def)
qed

subsection \<open>Digits\<close>

fun fixed :: "nat \<Rightarrow> int \<Rightarrow> string" where
  "fixed 0 n = []"
| "fixed (Suc w) n = fixed w (n div 10) @ [digit_char (nat (n mod 10))]"

definition read_fixed :: "string \<Rightarrow> int option" where
  "read_fixed s =
     (if list_all (\<lambda>c. digit_value c \<noteq> None) s
      then Some (foldl (\<lambda>n d. 10 * n + int d) 0 (List.map_filter digit_value s)) else None)"

lemma length_fixed [simp]: "length (fixed w n) = w"
  by (induction w arbitrary: n) auto

lemma fixed_digits: "list_all (\<lambda>c. digit_value c \<noteq> None) (fixed w n)"
proof (induction w arbitrary: n)
  case (Suc w)
  have "nat (n mod 10) < 10" by simp
  with Suc show ?case by simp
qed simp

lemma map_filter_append: "List.map_filter f (xs @ ys) = List.map_filter f xs @ List.map_filter f ys"
  by (induction xs) (simp_all add: List.map_filter_simps split: option.split)

lemma read_fixed_fixed: "read_fixed (fixed w n) = Some (n mod 10 ^ w)"
proof -
  have "foldl (\<lambda>n d. 10 * n + int d) 0 (List.map_filter digit_value (fixed w n)) = n mod 10 ^ w"
  proof (induction w arbitrary: n)
    case (Suc w)
    have "nat (n mod 10) < 10" by simp
    moreover have "n mod (10 * 10 ^ w) = 10 * (n div 10 mod 10 ^ w) + n mod 10" by (rule zmod_zmult2_eq) simp
    ultimately show ?case using Suc [of "n div 10"] by (simp add: map_filter_append List.map_filter_simps)
  qed (simp add: List.map_filter_simps)
  then show ?thesis using fixed_digits by (simp add: read_fixed_def)
qed

lemma read_fixed_small [simp]: "0 \<le> n \<Longrightarrow> n < 10 ^ w \<Longrightarrow> read_fixed (fixed w n) = Some n"
  by (simp add: read_fixed_fixed)

subsection \<open>ISO strings\<close>

definition toISOString :: "int \<Rightarrow> string" where
  "toISOString ms =
     (case date_of_days (ms div 86400000) of (year, month, day) \<Rightarrow>
        let t = ms mod 86400000
        in fixed 4 year @ ''-'' @ fixed 2 month @ ''-'' @ fixed 2 day @ ''T'' @
           fixed 2 (t div 3600000) @ '':'' @ fixed 2 (t div 60000 mod 60) @ '':'' @ fixed 2 (t div 1000 mod 60) @ ''.'' @
           fixed 3 (t mod 1000) @ ''Z'')"

text \<open>What is between the digits.\<close>

definition iso_separators :: "string \<Rightarrow> string" where
  "iso_separators s = map ((!) s) [4, 7, 10, 13, 16, 19, 23]"

definition parseDate :: "string \<Rightarrow> int option" where
  "parseDate s =
     (if length s = 24 \<and> iso_separators s = ''--T::.Z'' then
        case map (\<lambda>(i, w). read_fixed (take w (drop i s))) [(0, 4), (5, 2), (8, 2), (11, 2), (14, 2), (17, 2), (20, 3)] of
          [Some year, Some month, Some day, Some hour, Some minute, Some second, Some milli] \<Rightarrow>
            if 1 \<le> month \<and> month \<le> 12 \<and> 1 \<le> day \<and> day \<le> 31 \<and> hour < 24 \<and> minute < 60 \<and> second < 60
            then Some (86400000 * days_of_date year month day + 3600000 * hour + 60000 * minute + 1000 * second + milli)
            else None
        | _ \<Rightarrow> None
      else None)"

definition iso_time :: "int \<Rightarrow> bool" where
  "iso_time ms \<longleftrightarrow> (case date_of_days (ms div 86400000) of (year, _) \<Rightarrow> 0 \<le> year \<and> year \<le> 9999)"

text \<open>What is written is read back.\<close>

lemma time_of_day: "3600000 * (t div 3600000) + 60000 * (t div 60000 mod 60) + 1000 * (t div 1000 mod 60) + t mod 1000 = (t::int)"
proof -
  have "t div 1000 = 60 * (t div 60000) + t div 1000 mod 60" "t div 60000 = 60 * (t div 3600000) + t div 60000 mod 60"
    using mult_div_mod_eq [of 60 "t div 1000"] mult_div_mod_eq [of 60 "t div 60000"] by (simp_all flip: zdiv_zmult2_eq)
  then show ?thesis using mult_div_mod_eq [of 1000 t] by linarith
qed

definition iso_string :: "int \<Rightarrow> int \<Rightarrow> int \<Rightarrow> int \<Rightarrow> int \<Rightarrow> int \<Rightarrow> int \<Rightarrow> string" where
  "iso_string y m d hr mi se ms = fixed 4 y @ ''-'' @ fixed 2 m @ ''-'' @ fixed 2 d @ ''T'' @
     fixed 2 hr @ '':'' @ fixed 2 mi @ '':'' @ fixed 2 se @ ''.'' @ fixed 3 ms @ ''Z''"

lemma iso_string_fields:
  assumes "0 \<le> y" "y < 10000" "0 \<le> m" "m < 100" "0 \<le> d" "d < 100" "0 \<le> hr" "hr < 100" "0 \<le> mi" "mi < 100"
    "0 \<le> se" "se < 100" "0 \<le> ms" "ms < 1000"
  shows "length (iso_string y m d hr mi se ms) = 24" "iso_separators (iso_string y m d hr mi se ms) = ''--T::.Z''"
    "map (\<lambda>(i, w). read_fixed (take w (drop i (iso_string y m d hr mi se ms))))
       [(0, 4), (5, 2), (8, 2), (11, 2), (14, 2), (17, 2), (20, 3)] = [Some y, Some m, Some d, Some hr, Some mi, Some se, Some ms]"
  using assms by (simp_all add: iso_string_def iso_separators_def nth_append)

lemma parseDate_toISOString [simp]:
  assumes "iso_time ms"
  shows "parseDate (toISOString ms) = Some ms"
proof -
  obtain y m d where date: "date_of_days (ms div 86400000) = (y, m, d)" by (cases "date_of_days (ms div 86400000)")
  note valid = days_of_date_of_days [OF date]
  define t where "t = ms mod 86400000"
  have y: "0 \<le> y" "y \<le> 9999" using assms by (simp_all add: iso_time_def date)
  have t: "0 \<le> t" "t < 86400000" by (simp_all add: t_def)
  have parts: "0 \<le> t div 3600000" "t div 3600000 < 24" using t by simp_all
  have s: "toISOString ms = iso_string y m d (t div 3600000) (t div 60000 mod 60) (t div 1000 mod 60) (t mod 1000)"
    by (simp only: toISOString_def date Let_def t_def iso_string_def prod.case)
  have bounds: "0 \<le> t div 60000 mod 60" "t div 60000 mod 60 < 100" "0 \<le> t div 1000 mod 60" "t div 1000 mod 60 < 100"
    "0 \<le> t mod 1000" "t mod 1000 < 1000"
    using pos_mod_bound [of 60 "t div 60000"] pos_mod_bound [of 60 "t div 1000"] pos_mod_sign [of 60 "t div 60000"]
      pos_mod_sign [of 60 "t div 1000"] by linarith+
  have bounds': "y < 10000" "0 \<le> m" "m < 100" "0 \<le> d" "d < 100" "t div 3600000 < 100" using y valid(2-) parts by linarith+
  note iso = iso_string_fields [OF y(1) bounds'(1-5) parts(1) bounds'(6) bounds]
  have c: "1 \<le> m \<and> m \<le> 12 \<and> 1 \<le> d \<and> d \<le> 31 \<and> t div 3600000 < 24 \<and> t div 60000 mod 60 < 60 \<and> t div 1000 mod 60 < 60"
    using valid(2-) parts by (intro conjI pos_mod_bound) simp_all
  have "86400000 * (ms div 86400000) + t = ms" unfolding t_def by (rule mult_div_mod_eq)
  then have "86400000 * (ms div 86400000) + 3600000 * (t div 3600000) + 60000 * (t div 60000 mod 60) +
      1000 * (t div 1000 mod 60) + t mod 1000 = ms"
    using time_of_day [of t] by linarith
  then show ?thesis
    unfolding s parseDate_def if_P [OF conjI [OF iso(1,2)]] iso(3) list.case option.case valid(1) if_P [OF c] by (rule arg_cong)
qed

lemma iso_epoch: "iso_time 0" "toISOString 0 = ''1970-01-01T00:00:00.000Z''"
  by code_simp+

lemma iso_example: "toISOString 1709210096789 = ''2024-02-29T12:34:56.789Z''"
  by code_simp

end
