(* ===== verification/History_Normalization.thy ===== *)
theory History_Normalization
  imports Message_Content Js_Date
begin

text \<open>
  The repair of a stored history before it is used (\<open>packages/engine-core/src/persisted-history-normalization.ts\<close>):
  results of tools that are not structured are wrapped, and a tool call without any result in the history gets a
  synthetic one. A stored message has a content of unknown shape; a function that may throw on it (a \<open>null\<close> part)
  returns an option.
\<close>

subsection \<open>Messages\<close>

record persisted_message =
  sm_id :: string
  sm_sessionId :: string
  sm_runId :: "string option"
  sm_role :: role
  sm_origin :: "message_origin option"
  sm_mode :: "message_mode option"
  sm_content :: json
  sm_metadata :: "json option"
  sm_createdAt :: string

definition stored_parts :: "persisted_message \<Rightarrow> json list" where
  "stored_parts m = (case sm_content m of JArr parts \<Rightarrow> parts | _ \<Rightarrow> [])"

definition is_list_content :: "persisted_message \<Rightarrow> bool" where
  "is_list_content m = (case sm_content m of JArr _ \<Rightarrow> True | _ \<Rightarrow> False)"

definition call_id_of :: "json \<Rightarrow> string" where
  "call_id_of part = (case json_field ''toolCallId'' part of Some (JStr i) \<Rightarrow> i | _ \<Rightarrow> [])"

definition tool_name_of :: "json \<Rightarrow> string" where
  "tool_name_of part = (case json_field ''toolName'' part of Some (JStr n) \<Rightarrow> n | _ \<Rightarrow> [])"

text \<open>Here a result need not be structured: \<open>"output" in value\<close>.\<close>

definition isStoredToolResult :: "json \<Rightarrow> bool" where
  "isStoredToolResult v \<longleftrightarrow>
     has_type ''tool-result'' v \<and> string_field ''toolCallId'' v \<and> string_field ''toolName'' v \<and> json_field ''output'' v \<noteq> None"

definition needs_wrapping :: "json \<Rightarrow> bool" where
  "needs_wrapping part \<longleftrightarrow>
     isStoredToolResult part \<and> (case json_field ''output'' part of Some x \<Rightarrow> \<not> isStructuredToolResultOutput x | None \<Rightarrow> False)"

definition set_field :: "string \<Rightarrow> json \<Rightarrow> json \<Rightarrow> json" where
  "set_field k x v = (case v of JObj kvs \<Rightarrow> JObj (AList.update k x kvs) | _ \<Rightarrow> v)"

definition wrap_result :: "json \<Rightarrow> json" where
  "wrap_result part =
     (if needs_wrapping part then set_field ''output'' (normalizeToolResultOutput (json_field ''output'' part)) part else part)"

definition normalizeMessageContentParts :: "json \<Rightarrow> json \<times> bool" where
  "normalizeMessageContentParts content =
     (case content of
        JArr parts \<Rightarrow> if list_ex needs_wrapping parts then (JArr (map wrap_result parts), True) else (content, False)
      | _ \<Rightarrow> (content, False))"

definition normalizePersistedMessageRecord :: "persisted_message \<Rightarrow> (persisted_message \<times> bool) option" where
  "normalizePersistedMessageRecord m =
     (case normalizeMessageContentParts (sm_content m) of
        (content, changed) \<Rightarrow>
          if \<not> changed then Some (m, False)
          else map_option (\<lambda>accepted. if accepted then (m\<lparr>sm_content := content\<rparr>, True) else (m, False))
                 (isMessageContentForRole (sm_role m) content))"

subsection \<open>Missing results\<close>

definition missing_result_text :: string where
  "missing_result_text =
     ''Tool result unavailable because the original run ended before this tool call result was recorded.''"

definition buildSyntheticToolMessage ::
    "persisted_message \<Rightarrow> (string \<times> string) list \<Rightarrow> persisted_message option \<Rightarrow> persisted_message" where
  "buildSyntheticToolMessage anchor toolCalls nextMessage =
     \<lparr>sm_id = sm_id anchor @ ''~missing-tool-result'',
      sm_sessionId = sm_sessionId anchor,
      sm_runId = keep_truthy (sm_runId anchor),
      sm_role = RoleTool,
      sm_origin = None,
      sm_mode = None,
      sm_content = JArr (map (\<lambda>(toolCallId, toolName).
        tool_result_part toolCallId toolName (JObj [(''type'', JStr ''text''), (''value'', JStr missing_result_text)])) toolCalls),
      sm_metadata = None,
      sm_createdAt =
        (case (parseDate (sm_createdAt anchor), Option.bind nextMessage (\<lambda>n. parseDate (sm_createdAt n))) of
           (Some afterTime, Some beforeTime) \<Rightarrow>
             if beforeTime > afterTime + 1 then toISOString (afterTime + 1) else sm_createdAt anchor
         | _ \<Rightarrow> sm_createdAt anchor)\<rparr>"

definition persistedToolResultIds :: "persisted_message list \<Rightarrow> string list" where
  "persistedToolResultIds messages =
     concat (map (\<lambda>m. map call_id_of (filter isStoredToolResult (stored_parts m))) messages)"

record repair_state =
  rs_result :: "persisted_message list"
  rs_changed :: bool
  rs_pendingToolCalls :: "(string, string) jmap"
  rs_pendingAnchor :: "persisted_message option"

definition flushPendingToolCalls :: "string list \<Rightarrow> persisted_message option \<Rightarrow> repair_state \<Rightarrow> repair_state" where
  "flushPendingToolCalls known nextMessage st =
     (case (rs_pendingToolCalls st, rs_pendingAnchor st) of
        ([], _) \<Rightarrow> st
      | (_, None) \<Rightarrow> st
      | (pending, Some anchor) \<Rightarrow>
          let missing = filter (\<lambda>(toolCallId, _). toolCallId \<notin> set known) pending
          in st\<lparr>rs_result := rs_result st @ (if missing = [] then [] else [buildSyntheticToolMessage anchor missing nextMessage]),
                rs_changed := rs_changed st \<or> missing \<noteq> [],
                rs_pendingToolCalls := [],
                rs_pendingAnchor := None\<rparr>)"

definition repair_message :: "string list \<Rightarrow> persisted_message \<Rightarrow> repair_state \<Rightarrow> repair_state option" where
  "repair_message known message st =
     (case normalizePersistedMessageRecord message of
        None \<Rightarrow> None
      | Some (m, changed) \<Rightarrow>
          let st1 = st\<lparr>rs_changed := rs_changed st \<or> changed\<rparr>;
              toolCalls = (if sm_role m = RoleAssistant then filter isToolCallMessagePart (stored_parts m) else [])
          in if sm_role m = RoleTool \<and> is_list_content m then
               if JNull \<in> set (stored_parts m) then None
               else
                 let pending = fold AList.delete (map call_id_of
                       (filter (\<lambda>part. json_field ''type'' part = Some (JStr ''tool-result'') \<and> string_field ''toolCallId'' part)
                          (stored_parts m))) (rs_pendingToolCalls st1)
                 in Some (st1\<lparr>rs_result := rs_result st1 @ [m],
                              rs_pendingToolCalls := pending,
                              rs_pendingAnchor := (if pending = [] then None else rs_pendingAnchor st1)\<rparr>)
             else if toolCalls = [] then
               let st2 = flushPendingToolCalls known (Some m) st1
               in Some (st2\<lparr>rs_result := rs_result st2 @ [m]\<rparr>)
             else
               Some (st1\<lparr>rs_result := rs_result st1 @ [m],
                         rs_pendingToolCalls :=
                           fold (\<lambda>part. AList.update (call_id_of part) (tool_name_of part)) toolCalls (rs_pendingToolCalls st1),
                         rs_pendingAnchor := (case rs_pendingAnchor st1 of None \<Rightarrow> Some m | Some a \<Rightarrow> Some a)\<rparr>))"

primrec repair_messages :: "string list \<Rightarrow> persisted_message list \<Rightarrow> repair_state \<Rightarrow> repair_state option" where
  "repair_messages known [] st = Some st"
| "repair_messages known (m # ms) st = Option.bind (repair_message known m st) (repair_messages known ms)"

definition normalizePersistedMessages :: "persisted_message list \<Rightarrow> (persisted_message list \<times> bool) option" where
  "normalizePersistedMessages messages =
     map_option
       (\<lambda>st. let st' = flushPendingToolCalls (persistedToolResultIds messages) None st
             in (if rs_changed st' then rs_result st' else messages, rs_changed st'))
       (repair_messages (persistedToolResultIds messages) messages
          \<lparr>rs_result = [], rs_changed = False, rs_pendingToolCalls = [], rs_pendingAnchor = None\<rparr>)"

subsection \<open>What the repair does\<close>

text \<open>
  A readable message has no \<open>null\<close> part, and each of its parts that claims to be the result of a call is
  a result. The normal form of a record, and the tool calls of a history.
\<close>

definition readable :: "persisted_message \<Rightarrow> bool" where
  "readable m \<longleftrightarrow>
     (\<forall>part\<in>set (stored_parts m). part \<noteq> JNull \<and>
        (json_field ''type'' part = Some (JStr ''tool-result'') \<and> string_field ''toolCallId'' part \<longrightarrow> isStoredToolResult part))"

definition normal_record :: "persisted_message \<Rightarrow> persisted_message" where
  "normal_record m = (case normalizePersistedMessageRecord m of Some (m', _) \<Rightarrow> m' | None \<Rightarrow> m)"

definition tool_calls :: "persisted_message \<Rightarrow> json list" where
  "tool_calls m = (if sm_role m = RoleAssistant then filter isToolCallMessagePart (stored_parts m) else [])"

definition tool_call_ids :: "persisted_message list \<Rightarrow> string list" where
  "tool_call_ids ms = concat (map (\<lambda>m. map call_id_of (tool_calls m)) ms)"

text \<open>A message made up by the repair: only results that say so, for calls without a result in the history.\<close>

definition made_up :: "string list \<Rightarrow> persisted_message \<Rightarrow> bool" where
  "made_up known m \<longleftrightarrow>
     sm_role m = RoleTool \<and> suffix ''~missing-tool-result'' (sm_id m) \<and>
     (\<exists>calls. calls \<noteq> [] \<and> (\<forall>(i, _)\<in>set calls. i \<notin> set known) \<and>
        sm_content m = JArr (map (\<lambda>(i, n). tool_result_part i n (normalizeToolResultOutput (Some (JStr missing_result_text)))) calls))"

lemma tool_call_ids_simps [simp]:
  "tool_call_ids [] = []" "tool_call_ids (xs @ ys) = tool_call_ids xs @ tool_call_ids ys"
  "tool_call_ids [m] = map call_id_of (tool_calls m)"
  by (simp_all add: tool_call_ids_def)

lemma persistedToolResultIds_simps [simp]:
  "persistedToolResultIds [] = []" "persistedToolResultIds (xs @ ys) = persistedToolResultIds xs @ persistedToolResultIds ys"
  by (simp_all add: persistedToolResultIds_def)

lemma persistedToolResultIds_set: "set (persistedToolResultIds ms) = (\<Union>m\<in>set ms. set (persistedToolResultIds [m]))"
  by (auto simp: persistedToolResultIds_def)

subsubsection \<open>Wrapped results\<close>

lemma json_field_set_field: "isJsonObject v \<Longrightarrow> json_field k (set_field k' x v) = (if k = k' then Some x else json_field k v)"
  by (cases v) (simp_all add: isJsonObject_def set_field_def update_conv')

lemma needs_wrapping_object: "needs_wrapping v \<Longrightarrow> isJsonObject v"
  by (simp add: needs_wrapping_def isStoredToolResult_def has_type_def)

lemma wrap_result_object [simp]: "isJsonObject (wrap_result v) = isJsonObject v"
  by (cases v) (simp_all add: wrap_result_def set_field_def isJsonObject_def)

lemma wrap_result_null [simp]: "wrap_result v = JNull \<longleftrightarrow> v = JNull"
  by (cases v) (simp_all add: wrap_result_def set_field_def)

lemma wrap_result_field [simp]: "k \<noteq> ''output'' \<Longrightarrow> json_field k (wrap_result v) = json_field k v"
  by (simp add: wrap_result_def json_field_set_field needs_wrapping_object)

lemma wrap_result_output: "json_field ''output'' (wrap_result v) =
    (if needs_wrapping v then Some (normalizeToolResultOutput (json_field ''output'' v)) else json_field ''output'' v)"
  by (simp add: wrap_result_def json_field_set_field needs_wrapping_object)

lemma wrap_result_reads [simp]:
  "has_type t (wrap_result v) = has_type t v"
  "string_field ''toolCallId'' (wrap_result v) = string_field ''toolCallId'' v"
  "string_field ''toolName'' (wrap_result v) = string_field ''toolName'' v"
  "call_id_of (wrap_result v) = call_id_of v"
  by (simp_all add: has_type_def string_field_def call_id_of_def)

lemma wrap_result_stored [simp]: "isStoredToolResult (wrap_result v) = isStoredToolResult v"
  by (auto simp: isStoredToolResult_def wrap_result_output needs_wrapping_def)

lemma wrap_result_wrapped [simp]: "\<not> needs_wrapping (wrap_result v)"
proof (cases "needs_wrapping v")
  case True
  then show ?thesis by (simp add: needs_wrapping_def [of "wrap_result v"] wrap_result_output)
qed (simp add: wrap_result_def)

lemma wrapped_parts: "\<not> list_ex needs_wrapping (map wrap_result parts)"
  by (simp add: list_ex_iff)

subsubsection \<open>Normal records\<close>

lemma js_every_answers: "\<forall>x\<in>set xs. p x \<noteq> None \<Longrightarrow> js_every p xs \<noteq> None"
  by (induction xs) (auto split: option.split bool.split)

lemma guard_answers: "(\<And>parts. c = JArr parts \<Longrightarrow> JNull \<notin> set parts) \<Longrightarrow> isMessageContentForRole r c \<noteq> None"
proof (cases c)
  case (JArr parts)
  assume "\<And>parts. c = JArr parts \<Longrightarrow> JNull \<notin> set parts"
  with JArr have no_null: "JNull \<notin> set parts" by simp
  have "\<exists>y. else_test (isTextMessagePart part) q = Some y" if "part \<in> set parts" for part q
    using no_null that by (auto simp: else_test_def isTextMessagePart_def split: bool.split)
  with JArr show ?thesis
    by (cases r) (auto simp: isMessageContentForRole_def simp del: not_None_eq intro!: js_every_answers)
qed (cases r; simp add: isMessageContentForRole_def)+

lemma normal_record_cases:
  assumes "readable m"
  obtains (same) "normalizePersistedMessageRecord m = Some (m, False)" "normal_record m = m"
  | (wrapped) parts where "sm_content m = JArr parts" "normal_record m = m\<lparr>sm_content := JArr (map wrap_result parts)\<rparr>"
      "normalizePersistedMessageRecord m = Some (m\<lparr>sm_content := JArr (map wrap_result parts)\<rparr>, True)"
proof (cases "normalizeMessageContentParts (sm_content m)")
  case (Pair content changed)
  show thesis
  proof (cases changed)
    case False
    with Pair show ?thesis by (intro same) (simp_all add: normalizePersistedMessageRecord_def normal_record_def)
  next
    case True
    with Pair obtain parts where parts: "sm_content m = JArr parts" "content = JArr (map wrap_result parts)"
      by (auto simp: normalizeMessageContentParts_def split: json.splits if_splits)
    have "JNull \<notin> set parts" using assms parts(1) by (auto simp: readable_def stored_parts_def)
    then have "JNull \<notin> set (map wrap_result parts)" by (simp add: image_iff) (metis wrap_result_null)
    then have "isMessageContentForRole (sm_role m) content \<noteq> None" by (intro guard_answers) (auto simp: parts(2))
    then obtain accepted where "isMessageContentForRole (sm_role m) content = Some accepted" by blast
    then have r: "normalizePersistedMessageRecord m =
        Some (if accepted then (m\<lparr>sm_content := content\<rparr>, True) else (m, False))"
      by (simp add: normalizePersistedMessageRecord_def Pair True)
    show ?thesis
    proof (cases accepted)
      case False
      with r show ?thesis by (intro same) (simp_all add: normal_record_def)
    next
      case True
      with r parts show ?thesis by (intro wrapped) (simp_all add: normal_record_def)
    qed
  qed
qed

lemma stored_parts_update [simp]: "stored_parts (m\<lparr>sm_content := JArr parts\<rparr>) = parts"
  by (simp add: stored_parts_def)

lemma nothing_to_wrap:
  "\<not> list_ex needs_wrapping (stored_parts m) \<Longrightarrow> normalizePersistedMessageRecord m = Some (m, False)"
  unfolding normalizePersistedMessageRecord_def normalizeMessageContentParts_def stored_parts_def
  by (cases "sm_content m") simp_all

lemma normal_record_facts:
  assumes "readable m"
  shows "sm_role (normal_record m) = sm_role m" "readable (normal_record m)"
    "is_list_content (normal_record m) = is_list_content m"
    "persistedToolResultIds [normal_record m] = persistedToolResultIds [m]"
    "normalizePersistedMessageRecord (normal_record m) = Some (normal_record m, False)"
proof -
  have "sm_role (normal_record m) = sm_role m \<and> readable (normal_record m) \<and>
      is_list_content (normal_record m) = is_list_content m \<and>
      persistedToolResultIds [normal_record m] = persistedToolResultIds [m] \<and>
      normalizePersistedMessageRecord (normal_record m) = Some (normal_record m, False)"
    using assms
  proof (cases rule: normal_record_cases)
    case same
    with assms show ?thesis by simp
  next
    case (wrapped parts)
    let ?w = "m\<lparr>sm_content := JArr (map wrap_result parts)\<rparr>"
    have "readable ?w" using assms wrapped(1) by (simp add: readable_def stored_parts_def)
    moreover have "persistedToolResultIds [?w] = persistedToolResultIds [m]"
      by (simp add: persistedToolResultIds_def stored_parts_def wrapped(1) filter_map o_def)
    moreover have "normalizePersistedMessageRecord ?w = Some (?w, False)"
      using wrapped_parts by (intro nothing_to_wrap) simp
    moreover have "is_list_content ?w = is_list_content m" by (simp add: is_list_content_def wrapped(1))
    ultimately show ?thesis by (simp add: wrapped(2))
  qed
  then show "sm_role (normal_record m) = sm_role m" "readable (normal_record m)"
    "is_list_content (normal_record m) = is_list_content m"
    "persistedToolResultIds [normal_record m] = persistedToolResultIds [m]"
    "normalizePersistedMessageRecord (normal_record m) = Some (normal_record m, False)"
    by simp_all
qed

subsubsection \<open>The messages made up\<close>

lemma call_id_of_result [simp]: "call_id_of (tool_result_part i n x) = i"
  by (simp add: call_id_of_def tool_result_part_def)

lemma stored_result [simp]: "isStoredToolResult (tool_result_part i n x)"
  by (simp add: isStoredToolResult_def tool_result_part_def part_defs)

lemma structured_kept [simp]: "isStructuredToolResultOutput x \<Longrightarrow> \<not> needs_wrapping (tool_result_part i n x)"
  by (simp add: needs_wrapping_def) (simp add: tool_result_part_def)

lemma made_up_facts:
  assumes "made_up known m"
  shows "readable m" "tool_calls m = []" "sm_role m = RoleTool" "is_list_content m"
    "normalizePersistedMessageRecord m = Some (m, False)"
proof -
  obtain calls where m: "sm_role m = RoleTool" and parts: "stored_parts m =
      map (\<lambda>(i, n). tool_result_part i n (normalizeToolResultOutput (Some (JStr missing_result_text)))) calls"
    and "is_list_content m"
    using assms by (auto simp: made_up_def stored_parts_def is_list_content_def)
  then show "sm_role m = RoleTool" "is_list_content m" "tool_calls m = []" by (simp_all add: tool_calls_def)
  show "readable m" by (auto simp: readable_def parts) (simp add: tool_result_part_def)
  show "normalizePersistedMessageRecord m = Some (m, False)"
    by (intro nothing_to_wrap) (auto simp: parts list_ex_iff)
qed

lemma missing_output: "JObj [(''type'', JStr ''text''), (''value'', JStr missing_result_text)] =
    normalizeToolResultOutput (Some (JStr missing_result_text))"
  by (simp add: normalizeToolResultOutput_def isStructuredToolResultOutput_def part_defs)

lemma synthetic_made_up:
  assumes "calls \<noteq> []" "\<forall>(i, _)\<in>set calls. i \<notin> set known"
  shows "made_up known (buildSyntheticToolMessage anchor calls next_message)"
proof -
  have "sm_content (buildSyntheticToolMessage anchor calls next_message) =
      JArr (map (\<lambda>(i, n). tool_result_part i n (normalizeToolResultOutput (Some (JStr missing_result_text)))) calls)"
    by (simp add: buildSyntheticToolMessage_def missing_output)
  then show ?thesis using assms
    by (auto simp: made_up_def intro!: exI [of _ calls] simp add: buildSyntheticToolMessage_def suffix_def)
qed

lemma synthetic_results: "persistedToolResultIds [buildSyntheticToolMessage anchor calls next_message] = map fst calls"
  by (simp add: persistedToolResultIds_def stored_parts_def buildSyntheticToolMessage_def filter_map o_def case_prod_beta)

subsubsection \<open>The state of the repair\<close>

definition repaired :: "string list \<Rightarrow> persisted_message list \<Rightarrow> repair_state \<Rightarrow> bool" where
  "repaired known ms st \<longleftrightarrow>
     set (tool_call_ids (rs_result st)) \<subseteq>
       set known \<union> set (persistedToolResultIds (rs_result st)) \<union> fst ` set (rs_pendingToolCalls st) \<and>
     (rs_pendingToolCalls st = [] \<or> rs_pendingAnchor st \<noteq> None) \<and>
     (rs_changed st \<or> rs_result st = ms) \<and>
     subseq (map normal_record ms) (rs_result st) \<and>
     (\<forall>m\<in>set (rs_result st). m \<in> normal_record ` set ms \<or> made_up known m)"

lemma pending_updates: "fst ` set (fold (\<lambda>part. AList.update (f part) (g part)) parts kvs) = f ` set parts \<union> fst ` set kvs"
  by (induction parts arbitrary: kvs) (auto simp: dom_update)

lemma pending_deletes: "fst ` set (fold AList.delete ks kvs) = fst ` set kvs - set ks"
proof (induction ks arbitrary: kvs)
  case (Cons k ks)
  have "fst ` set (AList.delete k kvs) = fst ` set kvs - {k}" by (metis delete_keys set_map set_removeAll)
  with Cons.IH show ?case by auto
qed simp

lemma no_pending_deletes [simp]: "fold AList.delete ks [] = []"
  by (induction ks) simp_all

lemma flush_pending: "rs_pendingToolCalls st = [] \<or> rs_pendingAnchor st \<noteq> None \<Longrightarrow>
    rs_pendingToolCalls (flushPendingToolCalls known n st) = []"
  by (auto simp: flushPendingToolCalls_def Let_def split: list.split option.split)

lemma flush_repaired:
  assumes "repaired known ms st"
  shows "repaired known ms (flushPendingToolCalls known n st)" "rs_pendingToolCalls (flushPendingToolCalls known n st) = []"
proof -
  show "rs_pendingToolCalls (flushPendingToolCalls known n st) = []"
    using assms by (intro flush_pending) (simp add: repaired_def)
  show "repaired known ms (flushPendingToolCalls known n st)"
  proof (cases "rs_pendingToolCalls st = []")
    case True
    then show ?thesis using assms by (simp add: flushPendingToolCalls_def)
  next
    case False
    with assms obtain a where a: "rs_pendingAnchor st = Some a" by (auto simp: repaired_def)
    let ?missing = "filter (\<lambda>(i, _). i \<notin> set known) (rs_pendingToolCalls st)"
    define added where "added = (if ?missing = [] then [] else [buildSyntheticToolMessage a ?missing n])"
    have st': "flushPendingToolCalls known n st = st\<lparr>rs_result := rs_result st @ added,
        rs_changed := rs_changed st \<or> added \<noteq> [], rs_pendingToolCalls := [], rs_pendingAnchor := None\<rparr>"
      using False a by (simp add: flushPendingToolCalls_def Let_def added_def split: list.split)
    have made: "\<forall>m\<in>set added. made_up known m" by (auto simp: added_def intro!: synthetic_made_up)
    then have calls: "tool_call_ids added = []" by (auto simp: tool_call_ids_def made_up_facts(2))
    have "set (persistedToolResultIds added) = fst ` set ?missing"
      by (cases "?missing = []") (simp_all add: added_def synthetic_results del: set_filter)
    moreover have "i \<in> set known \<or> i \<in> fst ` set ?missing" if "i \<in> fst ` set (rs_pendingToolCalls st)" for i
      using that by force
    ultimately have "fst ` set (rs_pendingToolCalls st) \<subseteq> set known \<union> set (persistedToolResultIds added)" by blast
    with assms calls have "set (tool_call_ids (rs_result st @ added)) \<subseteq>
        set known \<union> set (persistedToolResultIds (rs_result st @ added))"
      unfolding repaired_def by (simp del: set_filter) blast
    with assms made show ?thesis
      by (auto simp: repaired_def st' simp del: tool_call_ids_simps persistedToolResultIds_simps intro: subseq_rev_drop_many)
  qed
qed

lemma normal_record_answer:
  assumes "readable m"
  obtains changed where "normalizePersistedMessageRecord m = Some (normal_record m, changed)" "changed \<or> normal_record m = m"
  using assms by (cases rule: normal_record_cases) auto

lemma push_repaired:
  assumes "repaired known ms st" "changed \<or> normal_record m = m"
    and "call_id_of ` set (tool_calls (normal_record m)) \<union> fst ` set (rs_pendingToolCalls st) \<subseteq>
      fst ` set pending \<union> set (persistedToolResultIds [normal_record m])"
    and "pending = [] \<or> anchor \<noteq> None"
  shows "repaired known (ms @ [m]) (st\<lparr>rs_result := rs_result st @ [normal_record m], rs_changed := rs_changed st \<or> changed,
    rs_pendingToolCalls := pending, rs_pendingAnchor := anchor\<rparr>)"
proof -
  let ?rs = "rs_result st @ [normal_record m]"
  have "set (tool_call_ids ?rs) \<subseteq> set known \<union> set (persistedToolResultIds ?rs) \<union> fst ` set pending"
    using assms(1, 3) unfolding repaired_def by (simp only: tool_call_ids_simps persistedToolResultIds_simps set_append set_map) blast
  with assms(1, 2, 4) show ?thesis
    by (auto simp: repaired_def simp del: tool_call_ids_simps persistedToolResultIds_simps)
qed

lemma repair_message_repaired:
  assumes "repaired known ms st" "readable m"
  obtains st' where "repair_message known m st = Some st'" "repaired known (ms @ [m]) st'"
proof -
  let ?n = "normal_record m"
  obtain changed where n: "normalizePersistedMessageRecord m = Some (?n, changed)" "changed \<or> ?n = m"
    using assms(2) by (rule normal_record_answer)
  have readable: "readable ?n" using assms(2) by (rule normal_record_facts)
  let ?st1 = "st\<lparr>rs_changed := rs_changed st \<or> changed\<rparr>"
  consider (tool) "sm_role ?n = RoleTool" "is_list_content ?n"
    | (none) "\<not> (sm_role ?n = RoleTool \<and> is_list_content ?n)" "tool_calls ?n = []"
    | (calls) "\<not> (sm_role ?n = RoleTool \<and> is_list_content ?n)" "tool_calls ?n \<noteq> []" by blast
  then show thesis
  proof cases
    case tool
    let ?results = "filter (\<lambda>part. json_field ''type'' part = Some (JStr ''tool-result'') \<and> string_field ''toolCallId'' part)
        (stored_parts ?n)"
    let ?pending = "fold AList.delete (map call_id_of ?results) (rs_pendingToolCalls st)"
    have "call_id_of ` set ?results \<subseteq> set (persistedToolResultIds [?n])"
      using readable by (auto simp: readable_def persistedToolResultIds_def)
    then have cover: "call_id_of ` set (tool_calls ?n) \<union> fst ` set (rs_pendingToolCalls st) \<subseteq>
        fst ` set ?pending \<union> set (persistedToolResultIds [?n])"
      using tool(1) by (auto simp: tool_calls_def pending_deletes)
    have anchor: "?pending = [] \<or> (if ?pending = [] then None else rs_pendingAnchor st) \<noteq> None"
      using assms(1) by (auto simp: repaired_def)
    have "JNull \<notin> set (stored_parts ?n)" using readable by (auto simp: readable_def)
    then show ?thesis
      using tool push_repaired [OF assms(1) n(2) cover anchor]
      by (intro that) (simp_all add: repair_message_def n Let_def)
  next
    case none
    have st1: "flushPendingToolCalls known (Some ?n) ?st1 =
        (flushPendingToolCalls known (Some ?n) st)\<lparr>rs_changed := rs_changed (flushPendingToolCalls known (Some ?n) st) \<or> changed\<rparr>"
      by (auto simp: flushPendingToolCalls_def Let_def split: list.split option.split)
    let ?st = "flushPendingToolCalls known (Some ?n) st"
    have pending: "rs_pendingToolCalls ?st = []" by (rule flush_repaired(2) [OF assms(1)])
    have eq: "repair_message known m st = Some (?st\<lparr>rs_result := rs_result ?st @ [?n], rs_changed := rs_changed ?st \<or> changed,
        rs_pendingToolCalls := [], rs_pendingAnchor := rs_pendingAnchor ?st\<rparr>)"
      unfolding repair_message_def n(1)
      by (simp add: none(1) Let_def none(2) st1 flip: tool_calls_def) (intro repair_state.equality; simp add: pending)
    show ?thesis
      by (intro that [OF eq] push_repaired [OF flush_repaired(1) [OF assms(1)] n(2)]) (simp_all add: none(2) pending)
  next
    case calls
    let ?pending = "fold (\<lambda>part. AList.update (call_id_of part) (tool_name_of part)) (tool_calls ?n) (rs_pendingToolCalls st)"
    have cover: "call_id_of ` set (tool_calls ?n) \<union> fst ` set (rs_pendingToolCalls st) \<subseteq>
        fst ` set ?pending \<union> set (persistedToolResultIds [?n])"
      by (simp add: pending_updates)
    have anchor: "?pending = [] \<or> (case rs_pendingAnchor st of None \<Rightarrow> Some ?n | Some a \<Rightarrow> Some a) \<noteq> None"
      by (simp split: option.split)
    have "repair_message known m st = Some (st\<lparr>rs_result := rs_result st @ [?n], rs_changed := rs_changed st \<or> changed,
        rs_pendingToolCalls := ?pending, rs_pendingAnchor := (case rs_pendingAnchor st of None \<Rightarrow> Some ?n | Some a \<Rightarrow> Some a)\<rparr>)"
      unfolding repair_message_def n(1) by (simp add: calls(1) Let_def calls(2) flip: tool_calls_def)
    then show ?thesis using push_repaired [OF assms(1) n(2) cover anchor] by (rule that)
  qed
qed

lemma repair_messages_repaired:
  assumes "repaired known done_ms st" "\<forall>m\<in>set ms. readable m"
  shows "\<exists>st'. repair_messages known ms st = Some st' \<and> repaired known (done_ms @ ms) st'"
  using assms
proof (induction ms arbitrary: done_ms st)
  case (Cons m ms)
  from Cons.prems obtain st1 where "repair_message known m st = Some st1" "repaired known (done_ms @ [m]) st1"
    by (auto intro: repair_message_repaired)
  with Cons.IH [of "done_ms @ [m]" st1] Cons.prems show ?case by simp
qed simp

lemma normalize_repaired:
  assumes "\<forall>m\<in>set ms. readable m"
  obtains st where "repaired (persistedToolResultIds ms) ms st" "rs_pendingToolCalls st = []"
    "normalizePersistedMessages ms = Some (rs_result st, rs_changed st)"
proof -
  let ?known = "persistedToolResultIds ms"
  let ?st0 = "\<lparr>rs_result = [], rs_changed = False, rs_pendingToolCalls = [], rs_pendingAnchor = None\<rparr>"
  have "repaired ?known [] ?st0" by (simp add: repaired_def)
  from repair_messages_repaired [OF this assms] obtain st where
    st: "repair_messages ?known ms ?st0 = Some st" "repaired ?known ms st" by auto
  let ?st' = "flushPendingToolCalls ?known None st"
  from flush_repaired [OF st(2)] have st': "repaired ?known ms ?st'" "rs_pendingToolCalls ?st' = []" .
  then have "rs_changed ?st' \<or> rs_result ?st' = ms" by (simp add: repaired_def)
  then have "normalizePersistedMessages ms = Some (rs_result ?st', rs_changed ?st')"
    by (auto simp: normalizePersistedMessages_def st(1) Let_def)
  with st' show thesis by (rule that)
qed

lemma normal_results:
  assumes "\<forall>m\<in>set ms. readable m"
  shows "set (persistedToolResultIds (map normal_record ms)) = set (persistedToolResultIds ms)"
  using assms normal_record_facts(4)
  by (subst (1 2) persistedToolResultIds_set) auto

lemma repaired_results:
  assumes "repaired known ms st" "\<forall>m\<in>set ms. readable m"
  shows "set (persistedToolResultIds ms) \<subseteq> set (persistedToolResultIds (rs_result st))"
proof -
  have "set (map normal_record ms) \<subseteq> set (rs_result st)" using assms(1) by (intro subseq_set) (simp add: repaired_def)
  then have "set (persistedToolResultIds (map normal_record ms)) \<subseteq> set (persistedToolResultIds (rs_result st))"
    by (subst (1 2) persistedToolResultIds_set) auto
  with normal_results [OF assms(2)] show ?thesis by simp
qed

text \<open>
  C14: a repaired history is answered. Whatever the order of its messages, a readable history is repaired without an
  error; every tool call of an assistant message has a result in the repaired history; each message is there in its
  normal form and in order; and what is added are only tool messages that say that a result is missing, for calls
  that had none.
\<close>

theorem history_is_answered:
  assumes "\<forall>m\<in>set ms. readable m"
  shows "\<exists>ms' changed. normalizePersistedMessages ms = Some (ms', changed) \<and>
           set (tool_call_ids ms') \<subseteq> set (persistedToolResultIds ms') \<and>
           subseq (map normal_record ms) ms' \<and>
           (\<forall>m\<in>set ms'. m \<in> normal_record ` set ms \<or> made_up (persistedToolResultIds ms) m)"
proof -
  obtain st where st: "repaired (persistedToolResultIds ms) ms st" "rs_pendingToolCalls st = []"
    "normalizePersistedMessages ms = Some (rs_result st, rs_changed st)"
    using assms by (rule normalize_repaired)
  with repaired_results [OF st(1) assms] show ?thesis by (auto simp: repaired_def)
qed

subsubsection \<open>A repaired history is left alone\<close>

definition settled_message :: "string list \<Rightarrow> persisted_message \<Rightarrow> bool" where
  "settled_message known m \<longleftrightarrow> readable m \<and> normalizePersistedMessageRecord m = Some (m, False) \<and>
     call_id_of ` set (tool_calls m) \<subseteq> set known"

definition untouched :: "string list \<Rightarrow> persisted_message list \<Rightarrow> repair_state \<Rightarrow> bool" where
  "untouched known ms st \<longleftrightarrow>
     rs_result st = ms \<and> \<not> rs_changed st \<and> fst ` set (rs_pendingToolCalls st) \<subseteq> set known"

lemma flush_untouched: "untouched known ms st \<Longrightarrow> untouched known ms (flushPendingToolCalls known n st)"
proof -
  assume st: "untouched known ms st"
  then have "filter (\<lambda>(i, _). i \<notin> set known) (rs_pendingToolCalls st) = []"
    by (auto simp: untouched_def filter_empty_conv)
  with st show ?thesis
    by (cases "rs_pendingToolCalls st"; cases "rs_pendingAnchor st")
       (auto simp: untouched_def flushPendingToolCalls_def Let_def split: if_splits)
qed

lemma repair_message_untouched:
  assumes "untouched known ms st" "settled_message known m"
  obtains st' where "repair_message known m st = Some st'" "untouched known (ms @ [m]) st'"
proof -
  from assms(2) have m: "normalizePersistedMessageRecord m = Some (m, False)" "JNull \<notin> set (stored_parts m)"
    "call_id_of ` set (tool_calls m) \<subseteq> set known"
    by (auto simp: settled_message_def readable_def)
  have st1: "st\<lparr>rs_changed := rs_changed st \<or> False\<rparr> = st" by simp
  show thesis
  proof (cases "sm_role m = RoleTool \<and> is_list_content m")
    case True
    have "a \<in> set known" if "(a, b) \<in> set (fold AList.delete ks (rs_pendingToolCalls st))" for a b ks
    proof -
      have "a \<in> fst ` set (fold AList.delete ks (rs_pendingToolCalls st))" using that by (rule image_eqI [rotated]) simp
      then show ?thesis using assms(1) unfolding pending_deletes untouched_def by blast
    qed
    with True assms(1) m show ?thesis
      by (intro that) (auto simp: repair_message_def untouched_def Let_def)
  next
    case no_tool: False
    show ?thesis
    proof (cases "tool_calls m = []")
      case True
      have eq: "repair_message known m st =
          Some ((flushPendingToolCalls known (Some m) st)\<lparr>rs_result := rs_result (flushPendingToolCalls known (Some m) st) @ [m]\<rparr>)"
        unfolding repair_message_def m(1) by (simp add: no_tool Let_def True flip: tool_calls_def)
      show ?thesis using flush_untouched [OF assms(1), of "Some m"] by (intro that [OF eq]) (simp add: untouched_def)
    next
      case False
      have eq: "repair_message known m st = Some (st\<lparr>rs_result := rs_result st @ [m],
          rs_pendingToolCalls :=
            fold (\<lambda>part. AList.update (call_id_of part) (tool_name_of part)) (tool_calls m) (rs_pendingToolCalls st),
          rs_pendingAnchor := (case rs_pendingAnchor st of None \<Rightarrow> Some m | Some a \<Rightarrow> Some a)\<rparr>)"
        unfolding repair_message_def m(1) by (simp add: no_tool Let_def False flip: tool_calls_def)
      show ?thesis using assms(1) m(3) by (intro that [OF eq]) (simp add: untouched_def pending_updates)
    qed
  qed
qed

lemma repair_messages_untouched:
  assumes "untouched known done_ms st" "\<forall>m\<in>set ms. settled_message known m"
  shows "\<exists>st'. repair_messages known ms st = Some st' \<and> untouched known (done_ms @ ms) st'"
  using assms
proof (induction ms arbitrary: done_ms st)
  case (Cons m ms)
  from Cons.prems obtain st1 where "repair_message known m st = Some st1" "untouched known (done_ms @ [m]) st1"
    by (auto intro: repair_message_untouched)
  with Cons.IH [of "done_ms @ [m]" st1] Cons.prems show ?case by simp
qed simp

lemma settled_history:
  assumes "\<forall>m\<in>set ms. settled_message (persistedToolResultIds ms) m"
  shows "normalizePersistedMessages ms = Some (ms, False)"
proof -
  let ?known = "persistedToolResultIds ms"
  let ?st0 = "\<lparr>rs_result = [], rs_changed = False, rs_pendingToolCalls = [], rs_pendingAnchor = None\<rparr>"
  have "untouched ?known [] ?st0" by (simp add: untouched_def)
  from repair_messages_untouched [OF this assms] obtain st where
    st: "repair_messages ?known ms ?st0 = Some st" "untouched ?known ms st" by auto
  from flush_untouched [OF st(2), of None] show ?thesis
    by (simp add: normalizePersistedMessages_def st(1) Let_def untouched_def)
qed

text \<open>
  C40: the repair is idempotent. Normalising a repaired history changes nothing and reports that it did not, so reading
  a history again neither adds a second synthetic result nor wraps one twice.
\<close>

theorem repair_is_idempotent:
  assumes "\<forall>m\<in>set ms. readable m" "normalizePersistedMessages ms = Some (ms', changed)"
  shows "normalizePersistedMessages ms' = Some (ms', False)"
proof -
  obtain st where st: "repaired (persistedToolResultIds ms) ms st" "rs_pendingToolCalls st = []" "ms' = rs_result st"
    using normalize_repaired [OF assms(1)] assms(2) by (metis Pair_inject option.inject)
  have calls: "set (tool_call_ids ms') \<subseteq> set (persistedToolResultIds ms')"
    using repaired_results [OF st(1) assms(1)] st by (auto simp: repaired_def)
  have "settled_message (persistedToolResultIds ms') m" if m: "m \<in> set ms'" for m
  proof -
    have "call_id_of ` set (tool_calls m) \<subseteq> set (tool_call_ids ms')" using m by (auto simp: tool_call_ids_def)
    moreover from m st have "m \<in> normal_record ` set ms \<or> made_up (persistedToolResultIds ms) m" by (simp add: repaired_def)
    then have "readable m \<and> normalizePersistedMessageRecord m = Some (m, False)"
      using assms(1) normal_record_facts(2, 5) made_up_facts(1, 5) by blast
    ultimately show ?thesis using calls by (auto simp: settled_message_def)
  qed
  then show ?thesis by (intro settled_history) blast
qed

subsubsection \<open>A history with a missing result\<close>

definition example_message :: "string \<Rightarrow> role \<Rightarrow> json \<Rightarrow> string \<Rightarrow> persisted_message" where
  "example_message i r content at_time =
     \<lparr>sm_id = i, sm_sessionId = ''s'', sm_runId = Some ''r'', sm_role = r, sm_origin = None, sm_mode = None,
      sm_content = content, sm_metadata = None, sm_createdAt = at_time\<rparr>"

definition example_history :: "persisted_message list" where
  "example_history =
     [example_message ''m1'' RoleAssistant (toolCallContent [(''c1'', ''Read'', None), (''c2'', ''Bash'', None)]) ''2024-01-01T00:00:00.000Z'',
      example_message ''m2'' RoleTool (JArr [tool_result_part ''c1'' ''Read'' (JStr ''ok'')]) ''2024-01-01T00:00:01.000Z'',
      example_message ''m3'' RoleUser (JStr ''next'') ''2024-01-01T00:00:02.000Z'']"

definition repaired_example :: "persisted_message list" where
  "repaired_example =
     [example_message ''m1'' RoleAssistant (toolCallContent [(''c1'', ''Read'', None), (''c2'', ''Bash'', None)]) ''2024-01-01T00:00:00.000Z'',
      example_message ''m2'' RoleTool (toolResultParts ''c1'' ''Read'' (Some (JStr ''ok''))) ''2024-01-01T00:00:01.000Z'',
      example_message ''m1~missing-tool-result'' RoleTool
        (toolResultParts ''c2'' ''Bash'' (Some (JStr missing_result_text))) ''2024-01-01T00:00:00.001Z'',
      example_message ''m3'' RoleUser (JStr ''next'') ''2024-01-01T00:00:02.000Z'']"

lemma readable_example: "\<forall>m\<in>set example_history. readable m"
  by code_simp

lemma example_repair: "normalizePersistedMessages example_history = Some (repaired_example, True)"
  by code_simp

theorem history_is_answered_witness:
  "\<exists>ms' changed. normalizePersistedMessages example_history = Some (ms', changed) \<and>
     set (tool_call_ids ms') \<subseteq> set (persistedToolResultIds ms')"
  using history_is_answered [OF readable_example] by blast

theorem repair_is_idempotent_witness: "normalizePersistedMessages repaired_example = Some (repaired_example, False)"
  by (rule repair_is_idempotent [OF readable_example example_repair])

end
