(* ===== verification/Model_Snapshots.thy ===== *)
theory Model_Snapshots
  imports History_Normalization Js_Stringify
begin

text \<open>
  What is stored of a call of a model (\<open>packages/engine-core/src/engine/model-call-serialization.ts\<close>) and how stored
  calls are brought up to date (\<open>persisted-history-normalization.ts\<close>): a request whose text is too long is cut
  down to some of its messages with shortened contents. The properties of an object are an association list in
  their order, without the index keys that JavaScript would move to the front; a property that is
  \<open>undefined\<close> is left out, as \<open>JSON.stringify\<close> does.
\<close>

subsection \<open>Snapshots\<close>

definition MODEL_CALL_SNAPSHOT_MAX_CHARS :: nat where "MODEL_CALL_SNAPSHOT_MAX_CHARS = 128 * 1024"
definition MODEL_CALL_SNAPSHOT_HEAD_MESSAGES :: nat where "MODEL_CALL_SNAPSHOT_HEAD_MESSAGES = 4"
definition MODEL_CALL_SNAPSHOT_TAIL_MESSAGES :: nat where "MODEL_CALL_SNAPSHOT_TAIL_MESSAGES = 12"
definition MODEL_CALL_SNAPSHOT_MAX_STRING_CHARS :: nat where "MODEL_CALL_SNAPSHOT_MAX_STRING_CHARS = 4096"
definition MODEL_CALL_SNAPSHOT_MAX_ARRAY_ITEMS :: nat where "MODEL_CALL_SNAPSHOT_MAX_ARRAY_ITEMS = 40"
definition MODEL_CALL_SNAPSHOT_MAX_OBJECT_KEYS :: nat where "MODEL_CALL_SNAPSHOT_MAX_OBJECT_KEYS = 80"
definition MODEL_CALL_SNAPSHOT_MAX_DEPTH :: nat where "MODEL_CALL_SNAPSHOT_MAX_DEPTH = 6"

text \<open>A JSON value has no cycle, so \<open>JSON.stringify\<close> never throws on it.\<close>

definition safeJsonLength :: "json \<Rightarrow> nat" where
  "safeJsonLength v = length (json_text v)"

text \<open>\<open>Math.floor(maxChars * 0.6)\<close>; \<open>value.slice(-0)\<close> would be all of it, but no caller cuts that much.\<close>

definition truncateSnapshotString :: "string \<Rightarrow> nat \<Rightarrow> string" where
  "truncateSnapshotString s maxChars =
     (if length s \<le> maxChars then s
      else let kept_head = maxChars * 6 div 10; kept_tail = maxChars - kept_head
           in take kept_head s @ [CHR 0x0A] @ ''[truncated '' @ js_show (length s - maxChars) @ '' chars]'' @ [CHR 0x0A] @
              drop (length s - kept_tail) s)"

function compactSnapshotValue :: "nat \<Rightarrow> json \<Rightarrow> json" where
  "compactSnapshotValue depth v =
     (case v of
        JStr s \<Rightarrow> JStr (truncateSnapshotString s MODEL_CALL_SNAPSHOT_MAX_STRING_CHARS)
      | JArr xs \<Rightarrow>
          if MODEL_CALL_SNAPSHOT_MAX_DEPTH \<le> depth then JStr ''[truncated:max-depth]''
          else let items = map (compactSnapshotValue (Suc depth)) (take MODEL_CALL_SNAPSHOT_MAX_ARRAY_ITEMS xs)
               in JArr (if length xs > MODEL_CALL_SNAPSHOT_MAX_ARRAY_ITEMS
                        then items @ [JObj [(''truncated'', JBool True),
                               (''omittedItems'', JNum (int (length xs - MODEL_CALL_SNAPSHOT_MAX_ARRAY_ITEMS)))]]
                        else items)
      | JObj kvs \<Rightarrow>
          if MODEL_CALL_SNAPSHOT_MAX_DEPTH \<le> depth then JStr ''[truncated:max-depth]''
          else let compacted = map (\<lambda>kv. (fst kv, compactSnapshotValue (Suc depth) (snd kv))) (take MODEL_CALL_SNAPSHOT_MAX_OBJECT_KEYS kvs)
               in JObj (if length kvs > MODEL_CALL_SNAPSHOT_MAX_OBJECT_KEYS
                        then AList.update ''__truncated''
                               (JObj [(''omittedKeys'', JNum (int (length kvs - MODEL_CALL_SNAPSHOT_MAX_OBJECT_KEYS)))]) compacted
                        else compacted)
      | _ \<Rightarrow> v)"
  by pat_completeness auto

termination compactSnapshotValue
  by (relation "measure (\<lambda>(depth, _). MODEL_CALL_SNAPSHOT_MAX_DEPTH - depth)") auto

declare compactSnapshotValue.simps [simp del]

text \<open>\<open>{ ...value }\<close> of any JSON value.\<close>

definition spread_json :: "json \<Rightarrow> (string \<times> json) list" where
  "spread_json v =
     (case v of
        JObj kvs \<Rightarrow> kvs
      | JArr xs \<Rightarrow> map (\<lambda>(i, x). (js_show i, x)) (List.enumerate 0 xs)
      | JStr s \<Rightarrow> map (\<lambda>(i, c). (js_show i, JStr [c])) (List.enumerate 0 s)
      | _ \<Rightarrow> [])"

text \<open>Reading the content of a message that is \<open>null\<close> throws.\<close>

definition compact_message :: "json \<Rightarrow> json option" where
  "compact_message m =
     (if m = JNull then None
      else Some (JObj (case json_field ''content'' m of
        None \<Rightarrow> spread_json m
      | Some c \<Rightarrow> AList.update ''content'' (compactSnapshotValue 0 c) (spread_json m))))"

definition retained_indexes :: "nat \<Rightarrow> nat list" where
  "retained_indexes n =
     sort (jset_from ([0..<min MODEL_CALL_SNAPSHOT_HEAD_MESSAGES n] @ [n - MODEL_CALL_SNAPSHOT_TAIL_MESSAGES..<n]))"

definition compactModelCallMessages :: "json list \<Rightarrow> (nat list \<times> json list) option" where
  "compactModelCallMessages messages =
     (let indexes = retained_indexes (length messages); compacted = map (\<lambda>i. compact_message (messages ! i)) indexes
      in if None \<in> set compacted then None else Some (indexes, map the compacted))"

definition compactModelCallRequestSnapshot :: "(string \<times> json) list \<Rightarrow> json list \<Rightarrow> ((string \<times> json) list \<times> bool) option" where
  "compactModelCallRequestSnapshot request messages =
     (if safeJsonLength (JObj request) \<le> MODEL_CALL_SNAPSHOT_MAX_CHARS then Some (request, False)
      else map_option
        (\<lambda>(indexes, compacted).
           (AList.update ''messagesCompacted''
              (JObj [(''originalCount'', JNum (int (length messages))),
                     (''retainedCount'', JNum (int (length compacted))),
                     (''retainedIndexes'', JArr (map (\<lambda>i. JNum (int i)) indexes)),
                     (''maxSnapshotChars'', JNum (int MODEL_CALL_SNAPSHOT_MAX_CHARS)),
                     (''maxStringChars'', JNum (int MODEL_CALL_SNAPSHOT_MAX_STRING_CHARS))])
              (AList.update ''messages'' (JArr compacted) request), True))
        (compactModelCallMessages messages))"

subsection \<open>Stored run steps\<close>

definition MODEL_CALL_RUNTIME_INPUT_KEYS :: "string list" where
  "MODEL_CALL_RUNTIME_INPUT_KEYS = [''messageCount'', ''engineToolNames'', ''engineTools'', ''activeToolNames'', ''toolServers'']"

definition MODEL_CALL_RUNTIME_OUTPUT_KEYS :: "string list" where
  "MODEL_CALL_RUNTIME_OUTPUT_KEYS = [''toolCallsCount'', ''toolResultsCount'', ''toolErrorsCount'']"

definition object_field :: "string \<Rightarrow> (string \<times> json) list \<Rightarrow> (string \<times> json) list option" where
  "object_field k kvs = (case map_of kvs k of Some (JObj x) \<Rightarrow> Some x | _ \<Rightarrow> None)"

text \<open>Old records had one object; the keys of the runtime are told by their names.\<close>

definition two_parts :: "string \<Rightarrow> string list \<Rightarrow> (string \<times> json) list \<Rightarrow> (string \<times> json) list \<times> (string \<times> json) list \<times> bool" where
  "two_parts k runtime_keys kvs =
     (case (object_field k kvs, object_field ''runtime'' kvs) of
        (Some x, Some r) \<Rightarrow> (x, r, False)
      | _ \<Rightarrow> (filter (\<lambda>kv. fst kv \<notin> set runtime_keys) kvs, filter (\<lambda>kv. fst kv \<in> set runtime_keys) kvs, True))"

definition chat_message_role :: "json \<Rightarrow> bool" where
  "chat_message_role m \<longleftrightarrow> isJsonObject m \<and> string_field ''role'' m"

definition normalize_chat_message :: "json \<Rightarrow> json \<times> bool" where
  "normalize_chat_message m =
     (if \<not> chat_message_role m then (m, False)
      else case json_field ''content'' m of
        None \<Rightarrow> (m, False)
      | Some c \<Rightarrow> (case normalizeMessageContentParts c of (c', changed) \<Rightarrow>
          if changed then (set_field ''content'' c' m, True) else (m, False)))"

definition normalizeChatMessages :: "json option \<Rightarrow> json option \<times> bool" where
  "normalizeChatMessages messages =
     (case messages of
        Some (JArr ms) \<Rightarrow>
          (if list_ex (snd \<circ> normalize_chat_message) ms
           then (Some (JArr (map (fst \<circ> normalize_chat_message) ms)), True) else (messages, False))
      | _ \<Rightarrow> (messages, False))"

definition normalizeModelCallInput :: "json option \<Rightarrow> (json option \<times> bool) option" where
  "normalizeModelCallInput x =
     (case x of
        Some (JObj kvs) \<Rightarrow>
          (case two_parts ''request'' MODEL_CALL_RUNTIME_INPUT_KEYS kvs of (request, runtime, split) \<Rightarrow>
             let (messages, mended) = normalizeChatMessages (map_of request ''messages'');
                 request' = (if mended then AList.update ''messages'' (the messages) request else request)
             in (case messages of
                   Some (JArr ms) \<Rightarrow>
                     map_option (\<lambda>(request'', cut).
                         (Some (JObj [(''request'', JObj request''), (''runtime'', JObj runtime)]), split \<or> mended \<or> cut))
                       (compactModelCallRequestSnapshot request' ms)
                 | _ \<Rightarrow> Some (Some (JObj [(''request'', JObj request'), (''runtime'', JObj runtime)]), split \<or> mended)))
      | _ \<Rightarrow> Some (x, False))"

definition unstructured_entry :: "json \<Rightarrow> bool" where
  "unstructured_entry e \<longleftrightarrow>
     isJsonObject e \<and> (case json_field ''output'' e of None \<Rightarrow> False | Some x \<Rightarrow> \<not> isStructuredToolResultOutput x)"

definition structure_entry :: "json \<Rightarrow> json" where
  "structure_entry e =
     (if unstructured_entry e then set_field ''output'' (normalizeToolResultOutput (json_field ''output'' e)) e else e)"

definition normalizeModelCallOutput :: "json option \<Rightarrow> json option \<times> bool" where
  "normalizeModelCallOutput x =
     (case x of
        Some (JObj kvs) \<Rightarrow>
          (case two_parts ''response'' MODEL_CALL_RUNTIME_OUTPUT_KEYS kvs of (response, runtime, split) \<Rightarrow>
             let results = (case map_of response ''toolResults'' of Some (JArr es) \<Rightarrow> es | _ \<Rightarrow> []);
                 mended = list_ex unstructured_entry results;
                 response' = (if mended then AList.update ''toolResults'' (JArr (map structure_entry results)) response
                              else response)
             in (Some (JObj [(''response'', JObj response'), (''runtime'', JObj runtime)]), split \<or> mended))
      | _ \<Rightarrow> (x, False))"

definition normalizePersistedRunStep :: "run_step \<Rightarrow> (run_step \<times> bool) option" where
  "normalizePersistedRunStep s =
     (if step_stepType s \<noteq> StepModelCall then Some (s, False)
      else map_option
        (\<lambda>(x, input_changed).
           let (y, output_changed) = normalizeModelCallOutput (step_output s)
           in if \<not> input_changed \<and> \<not> output_changed then (s, False)
              else (s\<lparr>step_input := or_opt x (step_input s), step_output := or_opt y (step_output s)\<rparr>, True))
        (normalizeModelCallInput (step_input s)))"

subsection \<open>What a snapshot keeps\<close>

text \<open>The shape of a shortened value: how deep it nests and how many entries a level has; and the strings of a value.\<close>

fun fits :: "nat \<Rightarrow> json \<Rightarrow> bool" where
  "fits n (JArr xs) = (case n of 0 \<Rightarrow> False
     | Suc m \<Rightarrow> length xs \<le> Suc MODEL_CALL_SNAPSHOT_MAX_ARRAY_ITEMS \<and> (\<forall>x\<in>set xs. fits m x))"
| "fits n (JObj kvs) = (case n of 0 \<Rightarrow> False
     | Suc m \<Rightarrow> length kvs \<le> Suc MODEL_CALL_SNAPSHOT_MAX_OBJECT_KEYS \<and> (\<forall>kv\<in>set kvs. fits m (snd kv)))"
| "fits n _ = True"

fun json_strings :: "json \<Rightarrow> string set" where
  "json_strings (JStr s) = {s}"
| "json_strings (JArr xs) = (\<Union>x\<in>set xs. json_strings x)"
| "json_strings (JObj kvs) = (\<Union>kv\<in>set kvs. json_strings (snd kv))"
| "json_strings _ = {}"

lemma set_update: "set (AList.update k x kvs) \<subseteq> insert (k, x) (set kvs)"
  by (induction kvs) auto

lemma set_updateD: "kv \<in> set (AList.update k x kvs) \<Longrightarrow> kv = (k, x) \<or> kv \<in> set kvs"
  using set_update by fastforce

lemma length_update: "length (AList.update k x kvs) \<le> Suc (length kvs)"
  by (induction kvs) auto

lemma length_truncated: "length (truncateSnapshotString s n) \<le> n \<or>
    n < length s \<and> length (truncateSnapshotString s n) = n + 20 + length (js_show (length s - n))"
proof (cases "length s \<le> n")
  case False
  have "n * 6 div 10 \<le> n" by linarith
  with False show ?thesis by (simp add: truncateSnapshotString_def Let_def min_def)
qed (simp add: truncateSnapshotString_def)

lemma compact_object:
  assumes "\<not> MODEL_CALL_SNAPSHOT_MAX_DEPTH \<le> depth"
  obtains kvs' where "compactSnapshotValue depth (JObj kvs) = JObj kvs'" "length kvs' \<le> Suc MODEL_CALL_SNAPSHOT_MAX_OBJECT_KEYS"
    "\<And>kv. kv \<in> set kvs' \<Longrightarrow> (\<exists>n. snd kv = JObj [(''omittedKeys'', JNum n)]) \<or>
       (\<exists>kv'\<in>set (take MODEL_CALL_SNAPSHOT_MAX_OBJECT_KEYS kvs). snd kv = compactSnapshotValue (Suc depth) (snd kv'))"
proof -
  let ?kept = "map (\<lambda>kv. (fst kv, compactSnapshotValue (Suc depth) (snd kv))) (take MODEL_CALL_SNAPSHOT_MAX_OBJECT_KEYS kvs)"
  let ?n = "JNum (int (length kvs - MODEL_CALL_SNAPSHOT_MAX_OBJECT_KEYS))"
  let ?all = "AList.update ''__truncated'' (JObj [(''omittedKeys'', ?n)]) ?kept"
  have kept: "length ?kept \<le> MODEL_CALL_SNAPSHOT_MAX_OBJECT_KEYS" by simp
  show thesis
  proof (cases "length kvs > MODEL_CALL_SNAPSHOT_MAX_OBJECT_KEYS")
    case True
    with assms have "compactSnapshotValue depth (JObj kvs) = JObj ?all"
      by (simp add: compactSnapshotValue.simps [of depth] Let_def)
    moreover have "length ?all \<le> Suc MODEL_CALL_SNAPSHOT_MAX_OBJECT_KEYS"
      using length_update [of "''__truncated''" "JObj [(''omittedKeys'', ?n)]" ?kept] kept by linarith
    ultimately show ?thesis by (rule that) (force dest!: set_updateD)
  next
    case False
    with assms have "compactSnapshotValue depth (JObj kvs) = JObj ?kept"
      by (simp add: compactSnapshotValue.simps [of depth] Let_def)
    then show ?thesis using kept by (rule that [OF _ le_SucI]) force
  qed
qed

lemma room:
  assumes "\<not> MODEL_CALL_SNAPSHOT_MAX_DEPTH \<le> depth"
  obtains m where "Suc MODEL_CALL_SNAPSHOT_MAX_DEPTH - depth = Suc (Suc m)" "Suc MODEL_CALL_SNAPSHOT_MAX_DEPTH - Suc depth = Suc m"
  using assms that [of "MODEL_CALL_SNAPSHOT_MAX_DEPTH - Suc depth"] by force

lemma compact_fits: "depth \<le> MODEL_CALL_SNAPSHOT_MAX_DEPTH \<Longrightarrow> fits (Suc MODEL_CALL_SNAPSHOT_MAX_DEPTH - depth) (compactSnapshotValue depth v)"
proof (induction depth v rule: compactSnapshotValue.induct)
  case (1 depth v)
  show ?case
  proof (cases v)
    case (JArr xs)
    show ?thesis
    proof (cases "MODEL_CALL_SNAPSHOT_MAX_DEPTH \<le> depth")
      case False
      then obtain m where m: "Suc MODEL_CALL_SNAPSHOT_MAX_DEPTH - depth = Suc (Suc m)" "Suc MODEL_CALL_SNAPSHOT_MAX_DEPTH - Suc depth = Suc m"
        by (rule room)
      have "fits (Suc m) (compactSnapshotValue (Suc depth) x)" if "x \<in> set (take MODEL_CALL_SNAPSHOT_MAX_ARRAY_ITEMS xs)" for x
        using 1(1) [OF JArr False that] False m(2) by simp
      then show ?thesis
        by (simp add: compactSnapshotValue.simps [of depth] JArr False m(1) Let_def MODEL_CALL_SNAPSHOT_MAX_ARRAY_ITEMS_def MODEL_CALL_SNAPSHOT_MAX_OBJECT_KEYS_def)
    qed (simp add: compactSnapshotValue.simps [of depth] JArr)
  next
    case (JObj kvs)
    show ?thesis
    proof (cases "MODEL_CALL_SNAPSHOT_MAX_DEPTH \<le> depth")
      case False
      then obtain m where m: "Suc MODEL_CALL_SNAPSHOT_MAX_DEPTH - depth = Suc (Suc m)" "Suc MODEL_CALL_SNAPSHOT_MAX_DEPTH - Suc depth = Suc m"
        by (rule room)
      obtain kvs' where kvs': "compactSnapshotValue depth v = JObj kvs'" "length kvs' \<le> Suc MODEL_CALL_SNAPSHOT_MAX_OBJECT_KEYS"
        "\<And>kv. kv \<in> set kvs' \<Longrightarrow> (\<exists>n. snd kv = JObj [(''omittedKeys'', JNum n)]) \<or>
          (\<exists>kv'\<in>set (take MODEL_CALL_SNAPSHOT_MAX_OBJECT_KEYS kvs). snd kv = compactSnapshotValue (Suc depth) (snd kv'))"
        using compact_object [OF False] unfolding JObj by metis
      have "fits (Suc m) (snd kv)" if "kv \<in> set kvs'" for kv
        using kvs'(3) [OF that] 1(2) [OF JObj False] False m(2) by (auto simp: MODEL_CALL_SNAPSHOT_MAX_OBJECT_KEYS_def)
      with kvs'(1, 2) show ?thesis by (simp add: m(1))
    qed (simp add: compactSnapshotValue.simps [of depth] JObj)
  qed (simp_all add: compactSnapshotValue.simps [of depth])
qed

text \<open>A string of the shortened value is one of the value, its two ends, or the notice of a cut.\<close>

lemma compact_strings:
  "s \<in> json_strings (compactSnapshotValue depth v) \<Longrightarrow>
   s = ''[truncated:max-depth]'' \<or> (\<exists>s'\<in>json_strings v. s = truncateSnapshotString s' MODEL_CALL_SNAPSHOT_MAX_STRING_CHARS)"
proof (induction depth v rule: compactSnapshotValue.induct)
  case (1 depth v)
  show ?case
  proof (cases v)
    case (JArr xs)
    show ?thesis
    proof (cases "MODEL_CALL_SNAPSHOT_MAX_DEPTH \<le> depth")
      case False
      with 1(3) obtain x where "x \<in> set (take MODEL_CALL_SNAPSHOT_MAX_ARRAY_ITEMS xs)" "s \<in> json_strings (compactSnapshotValue (Suc depth) x)"
        by (auto simp: compactSnapshotValue.simps [of depth] JArr Let_def split: if_splits)
      with 1(1) [OF JArr False] show ?thesis by (auto simp: JArr dest: in_set_takeD)
    qed (use 1(3) in \<open>simp add: compactSnapshotValue.simps [of depth] JArr\<close>)
  next
    case (JObj kvs)
    show ?thesis
    proof (cases "MODEL_CALL_SNAPSHOT_MAX_DEPTH \<le> depth")
      case False
      obtain kvs' where kvs': "compactSnapshotValue depth v = JObj kvs'"
        "\<And>kv. kv \<in> set kvs' \<Longrightarrow> (\<exists>n. snd kv = JObj [(''omittedKeys'', JNum n)]) \<or>
          (\<exists>kv'\<in>set (take MODEL_CALL_SNAPSHOT_MAX_OBJECT_KEYS kvs). snd kv = compactSnapshotValue (Suc depth) (snd kv'))"
        using compact_object [OF False] unfolding JObj by metis
      from 1(3) kvs'(1) obtain kv where "kv \<in> set kvs'" and s: "s \<in> json_strings (snd kv)" by auto
      with kvs'(2) [of kv] obtain kv' where kv': "kv' \<in> set (take MODEL_CALL_SNAPSHOT_MAX_OBJECT_KEYS kvs)"
        "s \<in> json_strings (compactSnapshotValue (Suc depth) (snd kv'))" by force
      from 1(2) [OF JObj False kv'] have "s = ''[truncated:max-depth]'' \<or>
          (\<exists>s'\<in>json_strings (snd kv'). s = truncateSnapshotString s' MODEL_CALL_SNAPSHOT_MAX_STRING_CHARS)" .
      with in_set_takeD [OF kv'(1)] show ?thesis by (auto simp: JObj)
    qed (use 1(3) in \<open>simp add: compactSnapshotValue.simps [of depth] JObj\<close>)
  qed (use 1(3) in \<open>simp_all add: compactSnapshotValue.simps [of depth]\<close>)
qed

lemma retained_indexes:
  "sorted (retained_indexes n)" "distinct (retained_indexes n)"
  "set (retained_indexes n) = {i. i < n \<and> (i < MODEL_CALL_SNAPSHOT_HEAD_MESSAGES \<or> n \<le> i + MODEL_CALL_SNAPSHOT_TAIL_MESSAGES)}"
  by (auto simp: retained_indexes_def)

lemma length_retained: "length (retained_indexes n) = min n (MODEL_CALL_SNAPSHOT_HEAD_MESSAGES + MODEL_CALL_SNAPSHOT_TAIL_MESSAGES)"
proof -
  have "length (retained_indexes n) = card (set (retained_indexes n))"
    using retained_indexes(2) by (rule distinct_card [symmetric])
  also have "set (retained_indexes n) = {..<min 4 n} \<union> {max 4 (n - 12)..<n}"
    by (auto simp: retained_indexes(3) MODEL_CALL_SNAPSHOT_HEAD_MESSAGES_def MODEL_CALL_SNAPSHOT_TAIL_MESSAGES_def)
  also have "card \<dots> = min 4 n + (n - max 4 (n - 12))"
    by (subst card_Un_disjoint) auto
  finally show ?thesis by (auto simp: MODEL_CALL_SNAPSHOT_HEAD_MESSAGES_def MODEL_CALL_SNAPSHOT_TAIL_MESSAGES_def)
qed

text \<open>
  A snapshot is bounded. A request that is too long is stored with at most sixteen of its messages, the first four
  and the last twelve, in order and listed by their indexes; and the content of each nests at most seven levels, of at most 41
  items or 81 properties, with strings of at most 4096 characters besides the notice of the cut.
\<close>

theorem snapshot_is_bounded:
  assumes "compactModelCallRequestSnapshot request messages = Some (request', True)"
  shows "\<exists>indexes compacted.
     map_of request' ''messages'' = Some (JArr compacted) \<and> length compacted = length indexes \<and>
     length indexes = min (length messages) 16 \<and> sorted indexes \<and> distinct indexes \<and>
     set indexes = {i. i < length messages \<and> (i < 4 \<or> length messages \<le> i + 12)} \<and>
     (\<forall>(i, m)\<in>set (zip indexes compacted). \<forall>k. k \<noteq> ''content'' \<longrightarrow> map_of (spread_json m) k = map_of (spread_json (messages ! i)) k) \<and>
     (\<forall>m\<in>set compacted. case json_field ''content'' m of None \<Rightarrow> True
        | Some c \<Rightarrow> fits 7 c \<and> (\<forall>s\<in>json_strings c. length s \<le> 4096 \<or> (\<exists>n. length s = 4116 + length (js_show n))))"
proof -
  let ?is = "retained_indexes (length messages)"
  let ?ms = "map (\<lambda>i. compact_message (messages ! i)) ?is"
  from assms have some: "None \<notin> set ?ms" and request': "map_of request' ''messages'' = Some (JArr (map the ?ms))"
    by (auto simp: compactModelCallRequestSnapshot_def compactModelCallMessages_def Let_def update_conv' split: if_splits)
  have compacted: "\<exists>c. compact_message (messages ! i) = Some c" if "i \<in> set ?is" for i
    using some that by (cases "compact_message (messages ! i)") (auto simp: image_iff)
  have rest: "map_of (spread_json m) k = map_of (spread_json (messages ! i)) k"
    if "(i, m) \<in> set (zip ?is (map the ?ms))" "k \<noteq> ''content''" for i m k
  proof -
    from that(1) have "i \<in> set ?is" "m = the (compact_message (messages ! i))" by (auto simp: set_zip)
    with compacted [of i] that(2) show ?thesis
      by (auto simp: compact_message_def spread_json_def update_conv' split: if_splits option.splits)
  qed
  have content: "case json_field ''content'' m of None \<Rightarrow> True
      | Some c \<Rightarrow> fits 7 c \<and> (\<forall>s\<in>json_strings c. length s \<le> 4096 \<or> (\<exists>n. length s = 4116 + length (js_show n)))"
    if "m \<in> set (map the ?ms)" for m
  proof -
    from that obtain i where "i \<in> set ?is" "m = the (compact_message (messages ! i))" by auto
    with compacted [of i] have "json_field ''content'' m = map_option (compactSnapshotValue 0) (json_field ''content'' (messages ! i)) \<or>
        json_field ''content'' (messages ! i) = None \<and> m = JObj (spread_json (messages ! i))"
      by (auto simp: compact_message_def update_conv' split: if_splits option.splits)
    moreover have "json_field ''content'' (JObj (spread_json v)) = None" if "json_field ''content'' v = None" for v
    proof -
      have no: "''content'' \<noteq> js_show n" for n
      proof -
        have "js_parseInt ''content'' = None" by code_simp
        then show ?thesis using js_parseInt_show [of n] by auto
      qed
      with that show ?thesis by (cases v) (auto simp: spread_json_def map_of_eq_None_iff no)
    qed
    ultimately consider "json_field ''content'' m = None" | v where "json_field ''content'' m = Some (compactSnapshotValue 0 v)"
      by (cases "json_field ''content'' (messages ! i)") auto
    then show ?thesis
    proof cases
      case 2
      have "fits 7 (compactSnapshotValue 0 v)"
        using compact_fits [of 0 v] by (simp add: MODEL_CALL_SNAPSHOT_MAX_DEPTH_def)
      moreover have "length s \<le> 4096 \<or> (\<exists>n. length s = 4116 + length (js_show n))"
        if s: "s \<in> json_strings (compactSnapshotValue 0 v)" for s
        using compact_strings [OF s] length_truncated [of _ 4096]
        by (auto simp: MODEL_CALL_SNAPSHOT_MAX_STRING_CHARS_def)
      ultimately show ?thesis using 2 by simp
    qed simp
  qed
  show ?thesis
    by (intro exI [of _ ?is] exI [of _ "map the ?ms"] conjI ballI allI impI)
       (use request' retained_indexes [of "length messages"] length_retained [of "length messages"] rest content in
        \<open>auto simp: MODEL_CALL_SNAPSHOT_HEAD_MESSAGES_def MODEL_CALL_SNAPSHOT_TAIL_MESSAGES_def\<close>)
qed

definition long_messages :: "json list" where
  "long_messages = [JObj [(''role'', JStr ''user''), (''content'', JStr (replicate (MODEL_CALL_SNAPSHOT_MAX_CHARS + 1) (CHR ''a'')))]]"

lemma long_request_is_long: "safeJsonLength (JObj [(''messages'', JArr long_messages)]) > MODEL_CALL_SNAPSHOT_MAX_CHARS"
proof -
  have "length (concat (map escape_char (replicate n (CHR ''a'')))) = n" for n
    by (induction n) (simp_all add: escape_char_def of_char_def)
  then show ?thesis by (simp add: safeJsonLength_def long_messages_def quoted_def del: map_replicate replicate_add replicate.simps)
qed

lemma long_request_is_cut: "compactModelCallRequestSnapshot [(''messages'', JArr long_messages)] long_messages =
    Some (fst (the (compactModelCallRequestSnapshot [(''messages'', JArr long_messages)] long_messages)), True)"
proof -
  have "retained_indexes (Suc 0) = [0]" by code_simp
  then have "compactModelCallMessages long_messages = Some ([0], [the (compact_message (hd long_messages))])"
    by (simp add: compactModelCallMessages_def long_messages_def compact_message_def)
  then show ?thesis using long_request_is_long by (simp add: compactModelCallRequestSnapshot_def)
qed

theorem snapshot_is_bounded_witness:
  "\<exists>compacted. map_of (fst (the (compactModelCallRequestSnapshot [(''messages'', JArr long_messages)] long_messages))) ''messages'' =
     Some (JArr compacted) \<and> length compacted = 1"
  using snapshot_is_bounded [OF long_request_is_cut] by (auto simp: long_messages_def)

text \<open>
  The cut is not stable. A snapshot that is still too long after it is cut again when it is normalised the next time: the
  count of the original messages is then that of the snapshot, and the ends of a long string are cut once more.
\<close>

lemma cut_again_forgets_the_count:
  assumes "compactModelCallRequestSnapshot request messages = Some (request', True)"
    and "compactModelCallRequestSnapshot request' compacted = Some (request'', True)"
  shows "\<exists>kvs. map_of request'' ''messagesCompacted'' = Some (JObj ((''originalCount'', JNum (int (length compacted))) # kvs))"
  using assms(2) by (auto simp: compactModelCallRequestSnapshot_def update_conv' split: if_splits)

lemma cut_again_cuts:
  assumes "length s = 5096"
  shows "truncateSnapshotString (truncateSnapshotString s 4096) 4096 \<noteq> truncateSnapshotString s 4096"
proof
  assume same: "truncateSnapshotString (truncateSnapshotString s 4096) 4096 = truncateSnapshotString s 4096"
  have len: "length (truncateSnapshotString t 4096) = 4116 + length (js_show (length t - 4096))" if "4096 < length t" for t
    using that by (simp add: truncateSnapshotString_def Let_def min_def)
  have shown: "js_show 1000 = ''1000''" "js_show 24 = ''24''" by code_simp+
  from len [of s] have once: "length (truncateSnapshotString s 4096) = 4120" by (simp add: assms shown)
  with len [of "truncateSnapshotString s 4096"] show False by (simp add: same shown)
qed

subsection \<open>Normalised steps\<close>

lemma stored_parts_once:
  "normalizeMessageContentParts (fst (normalizeMessageContentParts c)) = (fst (normalizeMessageContentParts c), False)"
  using wrapped_parts unfolding normalizeMessageContentParts_def by (cases c) (simp_all add: list_ex_iff)

lemma set_field_fields [simp]:
  "isJsonObject (set_field k x v) = isJsonObject v"
  "isJsonObject v \<Longrightarrow> json_field k (set_field k x v) = Some x"
  "k' \<noteq> k \<Longrightarrow> json_field k' (set_field k x v) = json_field k' v"
  by (cases v; simp add: set_field_def isJsonObject_def update_conv')+

lemma chat_message_once: "snd (normalize_chat_message (fst (normalize_chat_message m))) = False"
proof (cases "snd (normalize_chat_message m)")
  case True
  then obtain c where m: "chat_message_role m" "json_field ''content'' m = Some c"
    "normalize_chat_message m = (set_field ''content'' (fst (normalizeMessageContentParts c)) m, True)"
    by (auto simp: normalize_chat_message_def split: if_splits option.splits prod.splits)
  then show ?thesis using stored_parts_once [of c]
    by (simp add: normalize_chat_message_def chat_message_role_def string_field_def)
next
  case False
  then have "fst (normalize_chat_message m) = m"
    by (auto simp: normalize_chat_message_def split: if_splits option.splits prod.splits)
  with False show ?thesis by simp
qed

lemma chat_messages_once:
  "normalizeChatMessages (fst (normalizeChatMessages messages)) = (fst (normalizeChatMessages messages), False)"
  using chat_message_once
  by (auto simp: normalizeChatMessages_def list_ex_iff split: option.splits json.splits)

lemma structure_entry_once [simp]: "\<not> unstructured_entry (structure_entry e)"
  by (cases "unstructured_entry e") (simp_all add: structure_entry_def unstructured_entry_def)

definition stored_request :: "run_step \<Rightarrow> json" where
  "stored_request s = or_else (Option.bind (step_input s) (json_field ''request'')) JNull"

lemma two_parts_once: "two_parts k ks [(k, JObj x), (''runtime'', JObj r)] = (x, r, False)" if "k \<noteq> ''runtime''"
  using that by (simp add: two_parts_def object_field_def)

lemma cut_is_marked:
  assumes "compactModelCallRequestSnapshot request messages = Some (request', changed)" "map_of request' ''messagesCompacted'' = None"
  shows "request' = request" "\<not> changed" "safeJsonLength (JObj request) \<le> MODEL_CALL_SNAPSHOT_MAX_CHARS"
  using assms by (auto simp: compactModelCallRequestSnapshot_def update_conv' split: if_splits)

lemma chat_messages_shape:
  "normalizeChatMessages (Some (JArr ms)) = (messages, mended) \<Longrightarrow> \<exists>ms'. messages = Some (JArr ms') \<and> (mended \<or> ms' = ms)"
  "\<nexists>ms. x = Some (JArr ms) \<Longrightarrow> normalizeChatMessages x = (x, False)"
  by (auto simp: normalizeChatMessages_def split: if_splits option.splits json.splits)

lemma input_once:
  assumes "normalizeModelCallInput x = Some (y, changed)"
    and "json_field ''messagesCompacted'' (or_else (Option.bind y (json_field ''request'')) JNull) = None"
  shows "normalizeModelCallInput y = Some (y, False) \<or> y = x \<and> \<not> changed"
proof (cases "\<exists>kvs. x = Some (JObj kvs)")
  case True
  then obtain kvs where x: "x = Some (JObj kvs)" by blast
  obtain request runtime split where parts: "two_parts ''request'' MODEL_CALL_RUNTIME_INPUT_KEYS kvs = (request, runtime, split)"
    by (cases "two_parts ''request'' MODEL_CALL_RUNTIME_INPUT_KEYS kvs")
  show ?thesis
  proof (cases "\<exists>ms. map_of request ''messages'' = Some (JArr ms)")
    case True
    then obtain ms0 where ms0: "map_of request ''messages'' = Some (JArr ms0)" by blast
    obtain messages mended where msgs: "normalizeChatMessages (Some (JArr ms0)) = (messages, mended)" by force
    then obtain ms where ms: "messages = Some (JArr ms)" "mended \<or> ms = ms0" using chat_messages_shape(1) by blast
    define request1 where "request1 = (if mended then AList.update ''messages'' (JArr ms) request else request)"
    from assms(1) obtain request2 cut where compacted: "compactModelCallRequestSnapshot request1 ms = Some (request2, cut)"
      and y: "y = Some (JObj [(''request'', JObj request2), (''runtime'', JObj runtime)])"
      by (cases mended) (auto simp: normalizeModelCallInput_def x parts ms0 msgs ms(1) request1_def)
    with assms(2) have "map_of request2 ''messagesCompacted'' = None" by (simp add: or_else_def)
    with compacted have same: "request2 = request1" "safeJsonLength (JObj request1) \<le> MODEL_CALL_SNAPSHOT_MAX_CHARS"
      by (rule cut_is_marked)+
    have "map_of request1 ''messages'' = messages" using ms ms0 by (auto simp: request1_def update_conv')
    moreover have "normalizeChatMessages messages = (messages, False)"
      using chat_messages_once [of "Some (JArr ms0)"] msgs by simp
    moreover have "compactModelCallRequestSnapshot request1 ms = Some (request1, False)"
      using same(2) by (simp add: compactModelCallRequestSnapshot_def)
    ultimately have "normalizeModelCallInput y = Some (y, False)"
      by (simp add: normalizeModelCallInput_def y same(1) two_parts_once ms(1))
    then show ?thesis ..
  next
    case False
    from assms(1) have "y = Some (JObj [(''request'', JObj request), (''runtime'', JObj runtime)])"
      using chat_messages_shape(2) [OF False] False
      by (auto simp: normalizeModelCallInput_def x parts split: option.splits json.splits)
    then have "normalizeModelCallInput y = Some (y, False)"
      using chat_messages_shape(2) [OF False] False
      by (auto simp: normalizeModelCallInput_def two_parts_once split: option.splits json.splits)
    then show ?thesis ..
  qed
next
  case False
  with assms(1) show ?thesis by (auto simp: normalizeModelCallInput_def split: option.splits json.splits)
qed

lemma output_once:
  assumes "normalizeModelCallOutput x = (y, changed)"
  shows "normalizeModelCallOutput y = (y, False) \<or> y = x \<and> \<not> changed"
proof (cases "\<exists>kvs. x = Some (JObj kvs)")
  case True
  then obtain kvs where x: "x = Some (JObj kvs)" by blast
  obtain response runtime split where parts: "two_parts ''response'' MODEL_CALL_RUNTIME_OUTPUT_KEYS kvs = (response, runtime, split)"
    by (cases "two_parts ''response'' MODEL_CALL_RUNTIME_OUTPUT_KEYS kvs")
  define results where "results = (case map_of response ''toolResults'' of Some (JArr es) \<Rightarrow> es | _ \<Rightarrow> [])"
  define mended where "mended = list_ex unstructured_entry results"
  define response1 where
    "response1 = (if mended then AList.update ''toolResults'' (JArr (map structure_entry results)) response else response)"
  have y: "y = Some (JObj [(''response'', JObj response1), (''runtime'', JObj runtime)])"
    using assms unfolding normalizeModelCallOutput_def x Let_def response1_def mended_def results_def by (simp add: parts del: list_ex_iff split del: if_split)
  have "\<not> list_ex unstructured_entry (case map_of response1 ''toolResults'' of Some (JArr es) \<Rightarrow> es | _ \<Rightarrow> [])"
  proof (cases mended)
    case True
    then show ?thesis by (simp add: response1_def update_conv' list_ex_iff)
  next
    case False
    then show ?thesis by (simp add: response1_def mended_def results_def)
  qed
  then have "normalizeModelCallOutput y = (y, False)"
    by (simp add: normalizeModelCallOutput_def y two_parts_once Let_def)
  then show ?thesis ..
next
  case False
  with assms show ?thesis by (auto simp: normalizeModelCallOutput_def split: option.splits json.splits)
qed

lemma kept_parts:
  "normalizeModelCallInput x = Some (y, changed) \<Longrightarrow> y = None \<longleftrightarrow> x = None"
  "normalizeModelCallOutput x = (y, changed') \<Longrightarrow> y = None \<longleftrightarrow> x = None"
  by (auto simp: normalizeModelCallInput_def normalizeModelCallOutput_def Let_def
      split: option.splits json.splits prod.splits if_splits)

text \<open>
  The repair of a stored run step is idempotent when its request was not cut. Normalising a normalised step again
  changes nothing and reports so: an old record is split into its parts once, and a result is wrapped once.
\<close>

theorem step_repair_is_idempotent:
  assumes "normalizePersistedRunStep s = Some (s', changed)" "json_field ''messagesCompacted'' (stored_request s') = None"
  shows "normalizePersistedRunStep s' = Some (s', False)"
proof (cases "step_stepType s = StepModelCall \<and> changed")
  case True
  obtain y cy where out: "normalizeModelCallOutput (step_output s) = (y, cy)" by force
  from assms(1) True out obtain x cx where inp: "normalizeModelCallInput (step_input s) = Some (x, cx)"
    and s': "s' = s\<lparr>step_input := or_opt x (step_input s), step_output := or_opt y (step_output s)\<rparr>"
    by (auto simp: normalizePersistedRunStep_def split: if_splits)
  have fields: "step_input s' = x" "step_output s' = y" "step_stepType s' = StepModelCall"
    using kept_parts(1) [OF inp] kept_parts(2) [OF out] True by (auto simp: s' or_opt_def split: option.split)
  have "normalizeModelCallInput x = Some (x, False)"
    using input_once [OF inp] inp assms(2) fields(1) by (auto simp: stored_request_def)
  moreover have "normalizeModelCallOutput y = (y, False)" using output_once [OF out] out by auto
  ultimately show ?thesis by (simp add: normalizePersistedRunStep_def fields)
next
  case False
  obtain y cy where "normalizeModelCallOutput (step_output s) = (y, cy)" by force
  with False assms(1) have "s' = s" "\<not> changed" by (auto simp: normalizePersistedRunStep_def split: if_splits)
  with assms(1) show ?thesis by simp
qed

definition old_step :: run_step where
  "old_step =
     \<lparr>step_id = ''p1'', step_runId = ''r1'', step_seq = 1, step_stepType = StepModelCall, step_name = None, step_agentName = None,
      step_status = StepCompleted,
      step_input = Some (JObj [(''model'', JStr ''m''),
        (''messages'', JArr [JObj [(''role'', JStr ''tool''), (''content'', JArr [tool_result_part ''c1'' ''Read'' (JStr ''ok'')])]]),
        (''messageCount'', JNum 1)]),
      step_output = Some (JObj [(''toolResults'', JArr [JObj [(''toolCallId'', JStr ''c1''), (''output'', JNull)]]), (''toolCallsCount'', JNum 1)]),
      step_startedAt = None, step_endedAt = None\<rparr>"

definition new_step :: run_step where
  "new_step = old_step
     \<lparr>step_input := Some (JObj [(''request'', JObj [(''model'', JStr ''m''),
          (''messages'', JArr [JObj [(''role'', JStr ''tool''), (''content'', toolResultParts ''c1'' ''Read'' (Some (JStr ''ok'')))]])]),
        (''runtime'', JObj [(''messageCount'', JNum 1)])]),
      step_output := Some (JObj [(''response'', JObj [(''toolResults'', JArr [JObj [(''toolCallId'', JStr ''c1''),
          (''output'', normalizeToolResultOutput (Some JNull))]])]),
        (''runtime'', JObj [(''toolCallsCount'', JNum 1)])])\<rparr>"

lemma old_step_repaired: "normalizePersistedRunStep old_step = Some (new_step, True)"
proof -
  let ?request = "[(''model'', JStr ''m''),
          (''messages'', JArr [JObj [(''role'', JStr ''tool''), (''content'', toolResultParts ''c1'' ''Read'' (Some (JStr ''ok'')))]])]"
  have "length (json_text (JObj ?request)) \<le> 1000" by code_simp
  then have small: "compactModelCallRequestSnapshot ?request ms = Some (?request, False)" for ms
    by (simp add: compactModelCallRequestSnapshot_def safeJsonLength_def MODEL_CALL_SNAPSHOT_MAX_CHARS_def)
  have "two_parts ''request'' MODEL_CALL_RUNTIME_INPUT_KEYS
        [(''model'', JStr ''m''), (''messages'', JArr [JObj [(''role'', JStr ''tool''), (''content'', JArr [tool_result_part ''c1'' ''Read'' (JStr ''ok'')])]]),
         (''messageCount'', JNum 1)] =
      ([(''model'', JStr ''m''), (''messages'', JArr [JObj [(''role'', JStr ''tool''), (''content'', JArr [tool_result_part ''c1'' ''Read'' (JStr ''ok'')])]])],
       [(''messageCount'', JNum 1)], True)" by code_simp
  moreover have "normalizeChatMessages (Some (JArr [JObj [(''role'', JStr ''tool''), (''content'', JArr [tool_result_part ''c1'' ''Read'' (JStr ''ok'')])]])) =
      (Some (JArr [JObj [(''role'', JStr ''tool''), (''content'', toolResultParts ''c1'' ''Read'' (Some (JStr ''ok'')))]]), True)"
    by code_simp
  ultimately have "normalizeModelCallInput (step_input old_step) = Some (step_input new_step, True)"
    using small by (simp add: normalizeModelCallInput_def old_step_def new_step_def)
  moreover have "normalizeModelCallOutput (step_output old_step) = (step_output new_step, True)" by code_simp
  ultimately show ?thesis
    by (simp add: normalizePersistedRunStep_def) (simp add: old_step_def new_step_def)
qed

theorem step_repair_is_idempotent_witness: "normalizePersistedRunStep new_step = Some (new_step, False)"
  by (rule step_repair_is_idempotent [OF old_step_repaired]) code_simp

end
