(* ===== verification/Compaction_Thresholds.thy ===== *)
theory Compaction_Thresholds
  imports Js_Json
begin

text \<open>
  When a context is compacted (\<open>packages/engine-core/src/engine/context-compaction.ts\<close>): the context window, the
  threshold and the number of recent groups, read from the metadata of a model. Numbers are exact rationals where the code has
  floating point.
\<close>

definition DEFAULT_CONTEXT_WINDOW_RATIO :: rat where "DEFAULT_CONTEXT_WINDOW_RATIO = 7 / 10"
definition DEFAULT_CONTEXT_WINDOW_TOKENS :: rat where "DEFAULT_CONTEXT_WINDOW_TOKENS = 250000"
definition DEFAULT_UNKNOWN_MODEL_COMPACT_THRESHOLD_TOKENS :: rat where "DEFAULT_UNKNOWN_MODEL_COMPACT_THRESHOLD_TOKENS = 200000"
definition DEFAULT_RECENT_GROUP_COUNT :: nat where "DEFAULT_RECENT_GROUP_COUNT = 3"
definition COMPACT_ESTIMATION_MIN_RESERVE_TOKENS :: int where "COMPACT_ESTIMATION_MIN_RESERVE_TOKENS = 1024"
definition COMPACT_ESTIMATION_RESERVE_RATIO :: rat where "COMPACT_ESTIMATION_RESERVE_RATIO = 5 / 100"

text \<open>The first key with a positive number.\<close>

fun readNumericMetadataValue :: "json_value option \<Rightarrow> string list \<Rightarrow> rat option" where
  "readNumericMetadataValue metadata [] = None"
| "readNumericMetadataValue metadata (k # ks) =
     (case json_number (json_get k metadata) of
        Some candidate \<Rightarrow> if candidate > 0 then Some candidate else readNumericMetadataValue metadata ks
      | None \<Rightarrow> readNumericMetadataValue metadata ks)"

definition readContextWindowTokens :: "json_value option \<Rightarrow> rat option" where
  "readContextWindowTokens metadata = readNumericMetadataValue metadata
     [''max_model_len'', ''contextWindowTokens'', ''context_window_tokens'', ''maxInputTokens'', ''max_input_tokens'',
      ''contextWindow'', ''context_window'']"

text \<open>The window and whether it is known from the metadata.\<close>

definition resolveContextWindowTokens :: "json_value option \<Rightarrow> rat \<times> bool" where
  "resolveContextWindowTokens metadata =
     (case readContextWindowTokens metadata of Some t \<Rightarrow> (t, True) | None \<Rightarrow> (DEFAULT_CONTEXT_WINDOW_TOKENS, False))"

definition readCompactThresholdTokens :: "json_value option \<Rightarrow> rat \<times> bool \<Rightarrow> rat" where
  "readCompactThresholdTokens metadata window =
     (case readNumericMetadataValue metadata [''compactThresholdTokens'', ''compact_threshold_tokens''] of
        Some explicit \<Rightarrow> explicit
      | None \<Rightarrow>
          let explicitRatio = readNumericMetadataValue metadata [''compactThresholdRatio'', ''compact_threshold_ratio'']
          in if explicitRatio = None \<and> \<not> snd window then DEFAULT_UNKNOWN_MODEL_COMPACT_THRESHOLD_TOKENS
             else let ratio = (case explicitRatio of Some r \<Rightarrow> if r < 1 then r else DEFAULT_CONTEXT_WINDOW_RATIO
                                 | None \<Rightarrow> DEFAULT_CONTEXT_WINDOW_RATIO)
                  in of_int (max 1 \<lfloor>fst window * ratio\<rfloor>))"

definition readRecentGroupCount :: "json_value option \<Rightarrow> nat" where
  "readRecentGroupCount metadata =
     (case readNumericMetadataValue metadata [''compactRecentGroupCount'', ''compact_recent_group_count''] of
        Some configured \<Rightarrow> nat (max 1 \<lfloor>configured\<rfloor>)
      | None \<Rightarrow> DEFAULT_RECENT_GROUP_COUNT)"

definition readCompactionReserveTokens :: "rat \<Rightarrow> int" where
  "readCompactionReserveTokens window = max COMPACT_ESTIMATION_MIN_RESERVE_TOKENS \<lfloor>window * COMPACT_ESTIMATION_RESERVE_RATIO\<rfloor>"

lemma readNumericMetadataValue_pos: "readNumericMetadataValue metadata ks = Some x \<Longrightarrow> 0 < x"
  by (induction metadata ks rule: readNumericMetadataValue.induct) (auto split: option.splits if_splits)

declare readNumericMetadataValue.simps [simp del]

lemma window_positive: "0 < fst (resolveContextWindowTokens metadata)"
  using readNumericMetadataValue_pos
  by (auto simp: resolveContextWindowTokens_def readContextWindowTokens_def DEFAULT_CONTEXT_WINDOW_TOKENS_def split: option.split)

lemma recent_positive: "1 \<le> readRecentGroupCount metadata"
  by (auto simp: readRecentGroupCount_def DEFAULT_RECENT_GROUP_COUNT_def split: option.split)

text \<open>
  The thresholds make sense. Whatever the metadata of a model, the window and the threshold are positive and at least one group is
  kept; and without an explicit threshold the threshold is a whole number that does not exceed the window, unless that is below one token.
\<close>

theorem thresholds_are_sane:
  "0 < fst (resolveContextWindowTokens metadata) \<and>
   0 < readCompactThresholdTokens metadata (resolveContextWindowTokens metadata) \<and>
   1 \<le> readRecentGroupCount metadata \<and>
   (readNumericMetadataValue metadata [''compactThresholdTokens'', ''compact_threshold_tokens''] = None \<longrightarrow>
     readCompactThresholdTokens metadata (resolveContextWindowTokens metadata) \<le> max 1 (fst (resolveContextWindowTokens metadata)) \<and>
     readCompactThresholdTokens metadata (resolveContextWindowTokens metadata) \<in> \<int>)"
proof -
  let ?w = "resolveContextWindowTokens metadata"
  have part: "of_int (max 1 \<lfloor>w * r\<rfloor>) \<le> max 1 w" if "0 < w" "0 < r" "r < 1" for w r :: rat
  proof -
    have le: "w * r \<le> w" using that by (simp add: mult_left_le)
    then have "of_int \<lfloor>w * r\<rfloor> \<le> w" by (meson of_int_floor_le order_trans)
    with le show ?thesis by (auto simp: max_def)
  qed
  have ratio: "0 < r \<and> r < 1"
    if "r = (case readNumericMetadataValue metadata ks of Some r \<Rightarrow> if r < 1 then r else DEFAULT_CONTEXT_WINDOW_RATIO
        | None \<Rightarrow> DEFAULT_CONTEXT_WINDOW_RATIO)" for r ks
    using that readNumericMetadataValue_pos [of metadata ks]
    by (auto simp: DEFAULT_CONTEXT_WINDOW_RATIO_def split: option.splits)
  have unknown: "\<not> snd ?w \<Longrightarrow> fst ?w = 250000"
    by (auto simp: resolveContextWindowTokens_def DEFAULT_CONTEXT_WINDOW_TOKENS_def split: option.splits)
  show ?thesis
  proof (cases "readNumericMetadataValue metadata [''compactThresholdTokens'', ''compact_threshold_tokens'']")
    case None
    define r where "r = (case readNumericMetadataValue metadata [''compactThresholdRatio'', ''compact_threshold_ratio''] of
        Some r \<Rightarrow> if r < 1 then r else DEFAULT_CONTEXT_WINDOW_RATIO | None \<Rightarrow> DEFAULT_CONTEXT_WINDOW_RATIO)"
    have cases: "readCompactThresholdTokens metadata ?w = 200000 \<and> fst ?w = 250000 \<or>
        readCompactThresholdTokens metadata ?w = of_int (max 1 \<lfloor>fst ?w * r\<rfloor>)"
      using unknown by (auto simp: readCompactThresholdTokens_def None Let_def r_def DEFAULT_UNKNOWN_MODEL_COMPACT_THRESHOLD_TOKENS_def)
    have "(0 :: rat) < of_int (max 1 k)" for k by (simp add: less_max_iff_disj)
    moreover have "of_int (max 1 \<lfloor>fst ?w * r\<rfloor>) \<le> max 1 (fst ?w)"
      using part [OF window_positive, of r metadata] ratio [OF r_def] by simp
    moreover have "(200000 :: rat) \<in> \<int>" "of_int k \<in> \<int>" for k by simp_all
    ultimately have "0 < readCompactThresholdTokens metadata ?w \<and> readCompactThresholdTokens metadata ?w \<le> max 1 (fst ?w) \<and>
        readCompactThresholdTokens metadata ?w \<in> \<int>"
      using cases by (elim disjE conjE) simp_all
    with window_positive [of metadata] recent_positive [of metadata] show ?thesis by blast
  next
    case (Some x)
    with readNumericMetadataValue_pos [OF Some] window_positive [of metadata] recent_positive [of metadata] show ?thesis
      by (simp add: readCompactThresholdTokens_def)
  qed
qed

theorem thresholds_are_sane_witness:
  "readCompactThresholdTokens (Some (JObj [(''contextWindow'', JNum 1000)])) (1000, True) = 700 \<and> (700 :: rat) \<le> max 1 1000"
proof -
  let ?m = "Some (JObj [(''contextWindow'', JNum 1000)])"
  have w: "resolveContextWindowTokens ?m = (1000, True)"
    by (simp add: resolveContextWindowTokens_def readContextWindowTokens_def readNumericMetadataValue.simps)
  have t: "readCompactThresholdTokens ?m (1000, True) = 700"
    by (simp add: readCompactThresholdTokens_def Let_def DEFAULT_CONTEXT_WINDOW_RATIO_def readNumericMetadataValue.simps)
  have "readNumericMetadataValue ?m [''compactThresholdTokens'', ''compact_threshold_tokens''] = None" by (simp add: readNumericMetadataValue.simps)
  then show ?thesis using thresholds_are_sane [of ?m] unfolding w t by simp
qed

end
