(* ===== verification/Engine_Messages.thy ===== *)
theory Engine_Messages
  imports Message_Content
begin

text \<open>
  From stored messages and session events to the messages of the engine
  (\<open>packages/engine-core/src/engine/engine-messages.ts\<close>): the metadata and the kind of a message, the segments a
  streamed message is cut into, and the messages of a session in order. A content that an event carries is cast, not checked;
  \<open>cast\<close> stands for reading its parts. A metadata field of a wrong type, which the code keeps and its readers
  compare with values of the right type, is left out, except \<open>runtimeKind\<close>, which becomes the kind.
\<close>

subsection \<open>Kinds and metadata\<close>

definition RUNTIME_MESSAGE_KINDS :: "(string \<times> engine_kind) list" where
  "RUNTIME_MESSAGE_KINDS =
     [(''system_note'', KSystemNote), (''user_input'', KUserInput), (''assistant_text'', KAssistantText),
      (''assistant_reasoning'', KAssistantReasoning), (''tool_call'', KToolCall), (''tool_result'', KToolResult),
      (''tool_approval_request'', KToolApprovalRequest), (''tool_approval_response'', KToolApprovalResponse),
      (''task_notification'', KTaskNotification), (''compact_boundary'', KCompactBoundary),
      (''compact_summary'', KCompactSummary), (''runtime_reminder'', KRuntimeReminder),
      (''handoff_summary'', KHandoffSummary), (''agent_switch_note'', KAgentSwitchNote)]"

definition isEngineMessageKind :: "json \<Rightarrow> bool" where
  "isEngineMessageKind v = (case v of JStr s \<Rightarrow> map_of RUNTIME_MESSAGE_KINDS s \<noteq> None | _ \<Rightarrow> False)"

definition kind_of_json :: "json \<Rightarrow> engine_kind" where
  "kind_of_json v = (if isEngineMessageKind v then (case v of JStr s \<Rightarrow> the (map_of RUNTIME_MESSAGE_KINDS s) | _ \<Rightarrow> KOther v) else KOther v)"

definition truthy_json :: "json \<Rightarrow> bool" where
  "truthy_json v = (case v of JNull \<Rightarrow> False | JBool b \<Rightarrow> b | JNum n \<Rightarrow> n \<noteq> 0 | JStr s \<Rightarrow> s \<noteq> [] | _ \<Rightarrow> True)"

definition str_at :: "string \<Rightarrow> json \<Rightarrow> string option" where
  "str_at k v = (case json_field k v of Some (JStr s) \<Rightarrow> Some s | _ \<Rightarrow> None)"

definition bool_at :: "string \<Rightarrow> json \<Rightarrow> bool option" where
  "bool_at k v = (case json_field k v of Some (JBool b) \<Rightarrow> Some b | _ \<Rightarrow> None)"

definition source_names :: "(string \<times> message_origin) list" where
  "source_names = [(''user'', OriginUser), (''engine'', OriginEngine), (''hook'', OriginHook), (''tool'', OriginTool), (''system'', OriginSystem)]"

definition strings_of :: "json list \<Rightarrow> string list option" where
  "strings_of xs = those (map (\<lambda>x. case x of JStr s \<Rightarrow> Some s | _ \<Rightarrow> None) xs)"

definition normalizeEngineMessageMetadata :: "json option \<Rightarrow> engine_metadata option" where
  "normalizeEngineMessageMetadata metadata =
     (case metadata of
        Some (JObj kvs) \<Rightarrow>
          (let v = JObj kvs in Some
             \<lparr>em_runtimeKind = map_option kind_of_json (json_field ''runtimeKind'' v),
              em_agentName = str_at ''agentName'' v, em_effectiveAgentName = str_at ''effectiveAgentName'' v,
              em_synthetic = bool_at ''synthetic'' v, em_visibleInTranscript = bool_at ''visibleInTranscript'' v,
              em_eligibleForModelContext = bool_at ''eligibleForModelContext'' v,
              em_compactedAt = str_at ''compactedAt'' v, em_compactBoundaryId = str_at ''compactBoundaryId'' v,
              em_summaryForBoundaryId = str_at ''summaryForBoundaryId'' v,
              em_source = Option.bind (str_at ''source'' v) (map_of source_names),
              em_tags = (case json_field ''tags'' v of Some (JArr xs) \<Rightarrow> strings_of xs | _ \<Rightarrow> None),
              em_modelCallStepSeq = (case json_field ''modelCallStepSeq'' v of Some (JNum n) \<Rightarrow> Some n | _ \<Rightarrow> None),
              em_extra = (case json_field ''extra'' v of Some (JObj x) \<Rightarrow> Some (JObj x) | _ \<Rightarrow> None)\<rparr>)
      | _ \<Rightarrow> None)"

definition has_part :: "(message_part \<Rightarrow> bool) \<Rightarrow> content \<Rightarrow> bool" where
  "has_part P c = (case c of ContentText _ \<Rightarrow> False | ContentParts ps \<Rightarrow> list_ex P ps)"

definition inferAssistantKind :: "content \<Rightarrow> engine_kind" where
  "inferAssistantKind c =
     (if has_part (\<lambda>p. case p of ToolCallPart _ _ _ _ _ \<Rightarrow> True | _ \<Rightarrow> False) c then KToolCall
      else if has_part (\<lambda>p. case p of ToolApprovalRequestPart _ _ \<Rightarrow> True | _ \<Rightarrow> False) c then KToolApprovalRequest
      else if has_part (\<lambda>p. case p of ReasoningPart _ _ \<Rightarrow> True | _ \<Rightarrow> False) c then KAssistantReasoning
      else KAssistantText)"

definition inferToolKind :: "content \<Rightarrow> engine_kind" where
  "inferToolKind c =
     (if has_part (\<lambda>p. case p of ToolApprovalResponsePart _ _ _ _ \<Rightarrow> True | _ \<Rightarrow> False) c then KToolApprovalResponse else KToolResult)"

definition kind_truthy :: "engine_kind \<Rightarrow> bool" where
  "kind_truthy k = (case k of KOther v \<Rightarrow> truthy_json v | _ \<Rightarrow> True)"

definition inferEngineMessageKind :: "message \<Rightarrow> engine_metadata option \<Rightarrow> engine_kind" where
  "inferEngineMessageKind m metadata =
     (if msg_mode m = Some ModeTaskNotification \<or> Option.bind (msg_metadata m) (json_field ''taskNotification'') = Some (JBool True)
      then KTaskNotification
      else case Option.bind metadata em_runtimeKind of
        Some k \<Rightarrow> if kind_truthy k then k else (case msg_role m of
            RoleSystem \<Rightarrow> KSystemNote | RoleUser \<Rightarrow> KUserInput
          | RoleAssistant \<Rightarrow> inferAssistantKind (msg_content m) | RoleTool \<Rightarrow> inferToolKind (msg_content m))
      | None \<Rightarrow> (case msg_role m of
            RoleSystem \<Rightarrow> KSystemNote | RoleUser \<Rightarrow> KUserInput
          | RoleAssistant \<Rightarrow> inferAssistantKind (msg_content m) | RoleTool \<Rightarrow> inferToolKind (msg_content m)))"

definition toEngineMessage :: "message \<Rightarrow> engine_message" where
  "toEngineMessage m =
     (let metadata = normalizeEngineMessageMetadata (msg_metadata m)
      in \<lparr>eng_id = msg_id m, eng_sessionId = msg_sessionId m, eng_runId = keep_truthy (msg_runId m), eng_role = msg_role m,
          eng_origin = msg_origin m, eng_mode = msg_mode m, eng_kind = inferEngineMessageKind m metadata,
          eng_content = msg_content m, eng_createdAt = msg_createdAt m, eng_metadata = metadata\<rparr>)"

definition toEngineMessages :: "message list \<Rightarrow> engine_message list" where
  "toEngineMessages messages = map toEngineMessage messages"

subsection \<open>Events\<close>

definition readSessionEventCursorValue :: "session_event \<Rightarrow> int" where
  "readSessionEventCursorValue e = or_else (js_parseInt (ev_cursor e)) (2 ^ 53 - 1)"

definition readSessionEventMessageId :: "session_event \<Rightarrow> string option" where
  "readSessionEventMessageId e = str_at ''messageId'' (evi_data e)"

definition doesSessionEventAffectEngineMessages :: "session_event \<Rightarrow> bool" where
  "doesSessionEventAffectEngineMessages e \<longleftrightarrow>
     evi_event e \<in> {EvRunQueued, EvMessageCompleted, EvRunCompleted, EvRunFailed, EvRunCancelled}"

definition filterSessionEventsForEngineMessages :: "session_event list \<Rightarrow> session_event list" where
  "filterSessionEventsForEngineMessages events =
     filter (\<lambda>e. doesSessionEventAffectEngineMessages e \<or> evi_event e = EvMessageDelta) events"

definition plain_text_of_part :: "message_part \<Rightarrow> string option" where
  "plain_text_of_part p =
     (case p of
        TextPart t _ \<Rightarrow> Some t | ReasoningPart t _ \<Rightarrow> Some t
      | ToolResultPart _ _ (OutText t _) _ \<Rightarrow> Some t | ToolResultPart _ _ (OutErrorText t _) _ \<Rightarrow> Some t
      | _ \<Rightarrow> None)"

definition contentText :: "content \<Rightarrow> string" where
  "contentText c =
     (case c of ContentText t \<Rightarrow> t
      | ContentParts ps \<Rightarrow> js_join [CHR 0x0A, CHR 0x0A] (List.map_filter plain_text_of_part ps))"

text \<open>The content of a delta, and whether it replaces what there is.\<close>

definition readDeltaContent :: "(json list \<Rightarrow> message_part list) \<Rightarrow> session_event \<Rightarrow> bool \<times> content" where
  "readDeltaContent cast e =
     (case json_field ''delta'' (evi_data e) of
        Some (JStr d) \<Rightarrow> (False, ContentText d)
      | _ \<Rightarrow> (case json_field ''content'' (evi_data e) of
            Some (JStr t) \<Rightarrow> (True, ContentText t)
          | Some (JArr xs) \<Rightarrow> (True, ContentParts (cast xs))
          | _ \<Rightarrow> (False, ContentText [])))"

definition appendDeltaContent :: "content \<Rightarrow> content \<Rightarrow> content" where
  "appendDeltaContent existing delta =
     (case (existing, delta) of
        (ContentText s, ContentText d) \<Rightarrow> ContentText (s @ d)
      | (ContentParts ps, ContentText d) \<Rightarrow>
          (if ps = [] then ContentParts [TextPart d None]
           else case last ps of
             TextPart t options \<Rightarrow> ContentParts (butlast ps @ [TextPart (t @ d) options])
           | _ \<Rightarrow> ContentParts (ps @ [TextPart d None]))
      | (ContentText s, ContentParts ds) \<Rightarrow> ContentParts ((if s \<noteq> [] then [TextPart s None] else []) @ ds)
      | (ContentParts ps, ContentParts ds) \<Rightarrow> ContentParts (ps @ ds))"

definition blank :: "content \<Rightarrow> bool" where
  "blank c \<longleftrightarrow> js_trim (contentText c) = []"

definition isStreamedAssistantTextMessage :: "message \<Rightarrow> string list \<Rightarrow> bool" where
  "isStreamedAssistantTextMessage m deltaMessageIds \<longleftrightarrow>
     msg_role m = RoleAssistant \<and> msg_id m \<in> set deltaMessageIds \<and> \<not> blank (msg_content m)"

subsection \<open>Segments\<close>

definition segment_id :: "string \<Rightarrow> nat \<Rightarrow> string" where
  "segment_id i n = i @ '':segment:'' @ js_show n"

definition no_engine_metadata :: engine_metadata where
  "no_engine_metadata = \<lparr>em_runtimeKind = None, em_agentName = None, em_effectiveAgentName = None,
     em_synthetic = None, em_visibleInTranscript = None, em_eligibleForModelContext = None,
     em_compactedAt = None, em_compactBoundaryId = None, em_summaryForBoundaryId = None,
     em_source = None, em_tags = None, em_modelCallStepSeq = None, em_extra = None\<rparr>"

definition buildSegmentEngineMessage ::
    "message \<Rightarrow> nat \<Rightarrow> content \<Rightarrow> string \<Rightarrow> string option \<Rightarrow> string option \<Rightarrow> engine_message" where
  "buildSegmentEngineMessage m n c createdAt startCursor endCursor =
     (let metadata = or_else (normalizeEngineMessageMetadata (msg_metadata m)) no_engine_metadata;
          extra = (case em_extra metadata of Some (JObj x) \<Rightarrow> x | _ \<Rightarrow> []);
          cursor = (\<lambda>k x. case keep_truthy x of None \<Rightarrow> id | Some t \<Rightarrow> AList.update k (JStr t));
          nextExtra = cursor ''endCursor'' endCursor (cursor ''startCursor'' startCursor
            (AList.update ''segmentIndex'' (JNum (int n)) (AList.update ''sourceMessageId'' (JStr (msg_id m)) extra)))
      in \<lparr>eng_id = segment_id (msg_id m) n, eng_sessionId = msg_sessionId m, eng_runId = keep_truthy (msg_runId m),
          eng_role = RoleAssistant, eng_origin = None, eng_mode = None, eng_kind = KAssistantText, eng_content = c,
          eng_createdAt = createdAt,
          eng_metadata = Some (metadata\<lparr>em_runtimeKind := Some KAssistantText, em_extra := Some (JObj nextExtra)\<rparr>)\<rparr>)"

record segment =
  seg_index :: nat
  seg_content :: content
  seg_createdAt :: string
  seg_startCursor :: string
  seg_endCursor :: string

text \<open>The ids in \<open>seenEngineMessageIds\<close> are those of the messages pushed.\<close>

record run_projection =
  rp_projected :: "engine_message list"
  rp_counts :: "(string, nat) jmap"
  rp_active :: "(string, segment) jmap"

definition pushEngineMessage :: "engine_message \<Rightarrow> run_projection \<Rightarrow> run_projection" where
  "pushEngineMessage e st =
     (if eng_id e \<in> eng_id ` set (rp_projected st) then st else st\<lparr>rp_projected := rp_projected st @ [e]\<rparr>)"

definition flushSegment :: "message list \<Rightarrow> string \<Rightarrow> run_projection \<Rightarrow> run_projection" where
  "flushSegment messages i st =
     (let st' = (case (map_of (rp_active st) i, map_of (jmap_from (map (\<lambda>m. (msg_id m, m)) messages)) i) of
          (Some s, Some m) \<Rightarrow>
            if blank (seg_content s) then st
            else pushEngineMessage (buildSegmentEngineMessage m (seg_index s) (seg_content s) (seg_createdAt s)
                   (Some (seg_startCursor s)) (Some (seg_endCursor s))) st
        | _ \<Rightarrow> st)
      in st'\<lparr>rp_active := AList.delete i (rp_active st')\<rparr>)"

definition flushAllSegments :: "message list \<Rightarrow> run_projection \<Rightarrow> run_projection" where
  "flushAllSegments messages st = fold (flushSegment messages) (js_sort localeCompare (map fst (rp_active st))) st"

definition delta_event :: "(json list \<Rightarrow> message_part list) \<Rightarrow> string \<Rightarrow> session_event \<Rightarrow> run_projection \<Rightarrow> run_projection" where
  "delta_event cast i e st =
     (let (replaces, c) = readDeltaContent cast e
      in case map_of (rp_active st) i of
           Some s \<Rightarrow> st\<lparr>rp_active := AList.update i
               (s\<lparr>seg_content := (if replaces then c else appendDeltaContent (seg_content s) c), seg_endCursor := ev_cursor e\<rparr>) (rp_active st)\<rparr>
         | None \<Rightarrow>
             let nextIndex = or_else (map_of (rp_counts st) i) 0 + 1
             in st\<lparr>rp_counts := AList.update i nextIndex (rp_counts st),
                  rp_active := AList.update i
                    \<lparr>seg_index = nextIndex, seg_content = c, seg_createdAt = ev_createdAt e,
                     seg_startCursor = ev_cursor e, seg_endCursor = ev_cursor e\<rparr> (rp_active st)\<rparr>)"

definition completed_event :: "message list \<Rightarrow> string list \<Rightarrow> string \<Rightarrow> session_event \<Rightarrow> run_projection \<Rightarrow> run_projection" where
  "completed_event messages deltaMessageIds i e st =
     (let st1 = fold (flushSegment messages) (filter (\<lambda>k. k \<noteq> i) (map fst (rp_active st))) st
      in case map_of (jmap_from (map (\<lambda>m. (msg_id m, m)) messages)) i of
           None \<Rightarrow> st1
         | Some m \<Rightarrow>
             if isStreamedAssistantTextMessage m deltaMessageIds then
               (case map_of (rp_active st1) i of
                  Some s \<Rightarrow> flushSegment messages i (st1\<lparr>rp_active := AList.update i (s\<lparr>seg_endCursor := ev_cursor e\<rparr>) (rp_active st1)\<rparr>)
                | None \<Rightarrow>
                    let nextIndex = or_else (map_of (rp_counts st1) i) 0 + 1
                    in pushEngineMessage (buildSegmentEngineMessage m nextIndex (ContentText (contentText (msg_content m)))
                         (msg_createdAt m) None (Some (ev_cursor e)))
                       (st1\<lparr>rp_counts := AList.update i nextIndex (rp_counts st1)\<rparr>))
             else pushEngineMessage (toEngineMessage m) st1)"

definition run_event ::
    "(json list \<Rightarrow> message_part list) \<Rightarrow> message list \<Rightarrow> string list \<Rightarrow> session_event \<Rightarrow> run_projection \<Rightarrow> run_projection" where
  "run_event cast messages deltaMessageIds e st =
     (case keep_truthy (readSessionEventMessageId e) of
        Some i \<Rightarrow>
          if evi_event e = EvMessageDelta \<and> i \<in> msg_id ` set messages then delta_event cast i e st
          else if evi_event e = EvMessageCompleted \<and> i \<in> msg_id ` set messages
          then completed_event messages deltaMessageIds i e st
          else if evi_event e \<in> {EvRunCompleted, EvRunFailed, EvRunCancelled} then flushAllSegments messages st else st
      | None \<Rightarrow> if evi_event e \<in> {EvRunCompleted, EvRunFailed, EvRunCancelled} then flushAllSegments messages st else st)"

definition delta_message_ids :: "session_event list \<Rightarrow> string list" where
  "delta_message_ids events =
     List.map_filter (\<lambda>e. if evi_event e = EvMessageDelta then keep_truthy (readSessionEventMessageId e) else None) events"

definition projectRunEngineMessages ::
    "(json list \<Rightarrow> message_part list) \<Rightarrow> message list \<Rightarrow> session_event list \<Rightarrow> engine_message list" where
  "projectRunEngineMessages cast messages events =
     (if messages = [] then []
      else if events = [] then toEngineMessages messages
      else
        let deltaMessageIds = delta_message_ids events;
            st = flushAllSegments messages (fold (run_event cast messages deltaMessageIds) events
                   \<lparr>rp_projected = [], rp_counts = [], rp_active = []\<rparr>)
        in rp_projected (fold (\<lambda>m st. if isStreamedAssistantTextMessage m deltaMessageIds then st
                                      else pushEngineMessage (toEngineMessage m) st) messages st))"

subsection \<open>The messages of a session\<close>

definition compare_messages :: "message \<Rightarrow> message \<Rightarrow> int" where
  "compare_messages a b = js_or (localeCompare (msg_createdAt a) (msg_createdAt b)) (localeCompare (msg_id a) (msg_id b))"

definition compare_engine_messages :: "engine_message \<Rightarrow> engine_message \<Rightarrow> int" where
  "compare_engine_messages a b = js_or (localeCompare (eng_createdAt a) (eng_createdAt b)) (localeCompare (eng_id a) (eng_id b))"

text \<open>The groups by run: what the two maps by run id hold for a run.\<close>

definition of_run :: "('a \<Rightarrow> string option) \<Rightarrow> string \<Rightarrow> 'a list \<Rightarrow> 'a list" where
  "of_run f r xs = filter (\<lambda>x. keep_truthy (f x) = Some r) xs"

fun project_runs :: "(string \<Rightarrow> engine_message list) \<Rightarrow> string list \<Rightarrow> message list \<Rightarrow> engine_message list" where
  "project_runs runs seen [] = []"
| "project_runs runs seen (m # ms) =
     (case keep_truthy (msg_runId m) of
        None \<Rightarrow> toEngineMessage m # project_runs runs seen ms
      | Some r \<Rightarrow> if r \<in> set seen then project_runs runs seen ms else runs r @ project_runs runs (r # seen) ms)"

definition buildSessionEngineMessages ::
    "(json list \<Rightarrow> message_part list) \<Rightarrow> message list \<Rightarrow> session_event list \<Rightarrow> engine_message list" where
  "buildSessionEngineMessages cast messages events =
     (let orderedMessages = js_sort compare_messages messages;
          orderedEvents = js_sort (\<lambda>a b. readSessionEventCursorValue a - readSessionEventCursorValue b)
            (filterSessionEventsForEngineMessages events);
          runs = (\<lambda>r. projectRunEngineMessages cast (of_run msg_runId r orderedMessages) (of_run evi_runId r orderedEvents))
      in js_sort compare_engine_messages (project_runs runs [] orderedMessages))"

subsection \<open>Text that is there\<close>

lemma js_trim_empty: "js_trim s = [] \<longleftrightarrow> (\<forall>c\<in>set s. is_js_space c)"
  unfolding js_trim_def by (metis dropWhile_eq_Nil_conv list.set_intros(1) neq_Nil_conv rev_is_Nil_conv set_dropWhileD set_rev hd_dropWhile list.sel(1))

lemma blank_iff: "blank c \<longleftrightarrow> (\<forall>x\<in>set (contentText c). is_js_space x)"
  by (simp add: blank_def js_trim_empty)

lemma set_js_join: "x \<in> set xs \<Longrightarrow> set x \<subseteq> set (js_join sep xs)"
  by (induction sep xs rule: js_join.induct) auto

lemma text_of_part_in: "p \<in> set ps \<Longrightarrow> plain_text_of_part p = Some t \<Longrightarrow> set t \<subseteq> set (contentText (ContentParts ps))"
  unfolding contentText_def by (simp, rule set_js_join) (force simp: List.map_filter_def)

lemma append_shows_delta: "set d \<subseteq> set (contentText (appendDeltaContent c (ContentText d)))"
proof (cases c)
  case (ContentText t)
  then show ?thesis by (simp add: appendDeltaContent_def contentText_def)
next
  case (ContentParts ps)
  have one: "set d \<subseteq> set (contentText (ContentParts (qs @ [TextPart (t @ d) options])))" for qs t options
    using text_of_part_in [of "TextPart (t @ d) options" "qs @ [TextPart (t @ d) options]" "t @ d"]
    by (simp add: plain_text_of_part_def)
  from one [of _ "[]"] have none: "set d \<subseteq> set (contentText (ContentParts (qs @ [TextPart d None])))" for qs
    by simp
  from none [of "[]"] none [of ps] one show ?thesis
    by (simp add: appendDeltaContent_def ContentParts split: message_part.split)
qed

lemma append_not_blank: "\<not> blank (ContentText d) \<Longrightarrow> \<not> blank (appendDeltaContent c (ContentText d))"
  using append_shows_delta [of d c] by (auto simp: blank_iff contentText_def)

lemma appended_delta: "readDeltaContent cast e = (False, c) \<Longrightarrow> \<exists>d. c = ContentText d"
  by (auto simp: readDeltaContent_def split: option.splits json.splits)

subsection \<open>Where the messages of a run go\<close>

definition pushed_ids :: "run_projection \<Rightarrow> string set" where
  "pushed_ids st = eng_id ` set (rp_projected st)"

lemma push_facts [simp]:
  "rp_active (pushEngineMessage e st) = rp_active st" "rp_counts (pushEngineMessage e st) = rp_counts st"
  "pushed_ids (pushEngineMessage e st) = insert (eng_id e) (pushed_ids st)"
  by (auto simp: pushEngineMessage_def pushed_ids_def)

lemma pushed_updates [simp]:
  "pushed_ids (st\<lparr>rp_active := a\<rparr>) = pushed_ids st" "pushed_ids (st\<lparr>rp_counts := c\<rparr>) = pushed_ids st"
  "pushed_ids (st\<lparr>rp_counts := c, rp_active := a\<rparr>) = pushed_ids st"
  by (simp_all add: pushed_ids_def)

lemma segment_message_id [simp]: "eng_id (buildSegmentEngineMessage m n c t a b) = segment_id (msg_id m) n"
  by (simp add: buildSegmentEngineMessage_def Let_def)

lemma source_message: "map_of (jmap_from (map (\<lambda>m. (msg_id m, m)) messages)) i = Some m \<Longrightarrow> m \<in> set messages \<and> msg_id m = i"
  by (auto dest: map_of_jmap_from_SomeD)

lemma source_message_exists: "i \<in> msg_id ` set messages \<Longrightarrow> \<exists>m. map_of (jmap_from (map (\<lambda>m. (msg_id m, m)) messages)) i = Some m"
  using map_of_jmap_from_None [of "map (\<lambda>m. (msg_id m, m)) messages" i] by (fastforce simp: image_iff)

lemma flush_active [simp]: "map_of (rp_active (flushSegment messages j st)) i = (if i = j then None else map_of (rp_active st) i)"
  by (auto simp: flushSegment_def Let_def jmap_simps split: option.splits)

lemma flush_pushed: "pushed_ids st \<subseteq> pushed_ids (flushSegment messages j st)"
  by (auto simp: flushSegment_def Let_def split: option.splits)

lemma flush_all_active: "map_of (rp_active (fold (flushSegment messages) ks st)) i = (if i \<in> set ks then None else map_of (rp_active st) i)"
  by (induction ks arbitrary: st) auto

lemma flush_all_pushed: "pushed_ids st \<subseteq> pushed_ids (fold (flushSegment messages) ks st)"
  by (induction ks arbitrary: st) (auto dest: subsetD [OF flush_pushed])

text \<open>A message whose deltas so far were not blank has a segment: one that is open, and not blank, or one that is pushed.\<close>

definition has_segment :: "string \<Rightarrow> run_projection \<Rightarrow> bool" where
  "has_segment i st \<longleftrightarrow> map_of (rp_active st) i \<noteq> None \<or> (\<exists>n. segment_id i n \<in> pushed_ids st)"

definition solid :: "string \<Rightarrow> run_projection \<Rightarrow> bool" where
  "solid i st \<longleftrightarrow> (\<forall>s. map_of (rp_active st) i = Some s \<longrightarrow> \<not> blank (seg_content s))"

lemma flush_pushes:
  assumes "map_of (rp_active st) i = Some s" "\<not> blank (seg_content s)" "i \<in> msg_id ` set messages"
  shows "segment_id i (seg_index s) \<in> pushed_ids (flushSegment messages i st)"
proof -
  obtain m where m: "map_of (jmap_from (map (\<lambda>m. (msg_id m, m)) messages)) i = Some m"
    using source_message_exists [OF assms(3)] by blast
  with assms show ?thesis using source_message [OF m] by (simp add: flushSegment_def Let_def)
qed

lemma flush_keeps:
  assumes "i \<in> msg_id ` set messages" "solid i st"
  shows "solid i (flushSegment messages j st)" "has_segment i st \<Longrightarrow> has_segment i (flushSegment messages j st)"
proof -
  show "solid i (flushSegment messages j st)" using assms(2) by (simp add: solid_def)
  assume has: "has_segment i st"
  show "has_segment i (flushSegment messages j st)"
  proof (cases "j = i \<and> map_of (rp_active st) i \<noteq> None")
    case True
    then obtain s where "map_of (rp_active st) i = Some s" by auto
    with flush_pushes [OF this _ assms(1)] assms(2) True show ?thesis by (auto simp: has_segment_def solid_def)
  next
    case False
    with has flush_pushed [of st messages j] show ?thesis by (auto simp: has_segment_def)
  qed
qed

lemma flush_all_keeps:
  assumes "i \<in> msg_id ` set messages" "solid i st"
  shows "solid i (fold (flushSegment messages) ks st)" "has_segment i st \<Longrightarrow> has_segment i (fold (flushSegment messages) ks st)"
  using assms(2) by (induction ks arbitrary: st) (simp_all add: flush_keeps [OF assms(1)])

lemma flushed_segment:
  assumes "i \<in> msg_id ` set messages" "solid i st" "has_segment i st"
  shows "\<exists>n. segment_id i n \<in> pushed_ids (flushAllSegments messages st)"
proof (cases "map_of (rp_active st) i")
  case None
  with assms(3) flush_all_pushed [of st messages] show ?thesis by (auto simp: has_segment_def flushAllSegments_def)
next
  case (Some s)
  then have "i \<in> set (js_sort localeCompare (map fst (rp_active st)))" by (force dest: map_of_SomeD)
  with flush_all_keeps(2) [OF assms, of "js_sort localeCompare (map fst (rp_active st))"] show ?thesis
    by (auto simp: has_segment_def flushAllSegments_def flush_all_active)
qed

definition solid_delta :: "(json list \<Rightarrow> message_part list) \<Rightarrow> string \<Rightarrow> session_event \<Rightarrow> bool" where
  "solid_delta cast i e \<longleftrightarrow>
     (evi_event e = EvMessageDelta \<and> keep_truthy (readSessionEventMessageId e) = Some i \<longrightarrow> \<not> blank (snd (readDeltaContent cast e)))"

lemma delta_keeps:
  assumes "solid i st" "\<not> blank (snd (readDeltaContent cast e)) \<or> j \<noteq> i"
  shows "solid i (delta_event cast j e st)" "has_segment i st \<or> j = i \<Longrightarrow> has_segment i (delta_event cast j e st)"
proof -
  obtain r c where rc: "readDeltaContent cast e = (r, c)" by force
  have "\<not> blank (appendDeltaContent x c)" if "j = i" "\<not> r" for x
    using assms(2) that appended_delta [of cast e c] append_not_blank rc by auto
  then show "solid i (delta_event cast j e st)"
    using assms rc by (auto simp: solid_def delta_event_def Let_def jmap_simps split: option.splits if_splits)
  show "has_segment i st \<or> j = i \<Longrightarrow> has_segment i (delta_event cast j e st)"
    by (auto simp: has_segment_def delta_event_def Let_def rc jmap_simps split: option.splits)
qed

lemma completed_keeps:
  assumes "i \<in> msg_id ` set messages" "solid i st"
  shows "solid i (completed_event messages ds j e st)" "has_segment i st \<Longrightarrow> has_segment i (completed_event messages ds j e st)"
proof -
  define st1 where "st1 = fold (flushSegment messages) (filter (\<lambda>k. k \<noteq> j) (map fst (rp_active st))) st"
  have st1: "solid i st1" and has1: "has_segment i st \<Longrightarrow> has_segment i st1"
    using flush_all_keeps [OF assms] by (auto simp: st1_def)
  have push: "solid i (pushEngineMessage m s) = solid i s" "has_segment i s \<Longrightarrow> has_segment i (pushEngineMessage m s)" for m s
    by (auto simp: solid_def has_segment_def)
  have close: "solid i (st1\<lparr>rp_active := AList.update j (s\<lparr>seg_endCursor := x\<rparr>) (rp_active st1)\<rparr>)"
    "has_segment i st1 \<Longrightarrow> has_segment i (st1\<lparr>rp_active := AList.update j (s\<lparr>seg_endCursor := x\<rparr>) (rp_active st1)\<rparr>)"
    if "map_of (rp_active st1) j = Some s" for s x
    using st1 that by (auto simp: solid_def has_segment_def jmap_simps)
  have count: "solid i (st1\<lparr>rp_counts := c\<rparr>) = solid i st1" "has_segment i (st1\<lparr>rp_counts := c\<rparr>) = has_segment i st1" for c
    by (simp_all add: solid_def has_segment_def)
  show "solid i (completed_event messages ds j e st)"
    unfolding completed_event_def Let_def st1_def [symmetric]
    using st1 by (auto simp: push count intro!: flush_keeps(1) [OF assms(1)] close split: option.split)
  assume "has_segment i st"
  with has1 have "has_segment i st1" by blast
  then show "has_segment i (completed_event messages ds j e st)"
    unfolding completed_event_def Let_def st1_def [symmetric]
    by (auto simp: count intro!: push(2) flush_keeps(2) [OF assms(1)] close split: option.split)
qed

lemma run_event_keeps:
  assumes "i \<in> msg_id ` set messages" "solid i st" "solid_delta cast i e"
  shows "solid i (run_event cast messages ds e st)"
    "has_segment i st \<or> evi_event e = EvMessageDelta \<and> keep_truthy (readSessionEventMessageId e) = Some i \<Longrightarrow>
     has_segment i (run_event cast messages ds e st)"
proof -
  have all: "solid i (flushAllSegments messages st)" "has_segment i st \<Longrightarrow> has_segment i (flushAllSegments messages st)"
    using flush_all_keeps [OF assms(1, 2)] by (simp_all add: flushAllSegments_def)
  have delta: "\<not> blank (snd (readDeltaContent cast e)) \<or> j \<noteq> i"
    if "evi_event e = EvMessageDelta" "keep_truthy (readSessionEventMessageId e) = Some j" for j
    using assms(3) that by (auto simp: solid_delta_def)
  show "solid i (run_event cast messages ds e st)"
    using all(1) assms(2) delta
    by (auto simp: run_event_def intro!: delta_keeps(1) completed_keeps(1) [OF assms(1, 2)] split: option.split)
  show "has_segment i st \<or> evi_event e = EvMessageDelta \<and> keep_truthy (readSessionEventMessageId e) = Some i \<Longrightarrow>
      has_segment i (run_event cast messages ds e st)"
    using all(2) delta
    by (auto simp: assms run_event_def intro!: delta_keeps(2) completed_keeps(2) [OF assms(1, 2)] split: option.split)
qed

lemma run_events_keep:
  assumes "i \<in> msg_id ` set messages" "solid i st" "\<forall>e\<in>set es. solid_delta cast i e"
  shows "solid i (fold (run_event cast messages ds) es st)"
    "has_segment i st \<or> i \<in> set (delta_message_ids es) \<Longrightarrow> has_segment i (fold (run_event cast messages ds) es st)"
proof -
  have "solid i (fold (run_event cast messages ds) es st) \<and>
      (has_segment i st \<or> i \<in> set (delta_message_ids es) \<longrightarrow> has_segment i (fold (run_event cast messages ds) es st))"
    using assms(2, 3)
  proof (induction es arbitrary: st)
    case Nil
    then show ?case by (simp add: delta_message_ids_def List.map_filter_simps)
  next
    case (Cons e es)
    have "i \<in> set (delta_message_ids (e # es)) \<Longrightarrow>
        (evi_event e = EvMessageDelta \<and> keep_truthy (readSessionEventMessageId e) = Some i) \<or> i \<in> set (delta_message_ids es)"
      by (auto simp: delta_message_ids_def List.map_filter_simps split: if_splits option.splits)
    moreover have "solid_delta cast i e" using Cons.prems by simp
    note step = run_event_keeps [OF assms(1) Cons.prems(1) this, of ds]
    ultimately show ?case using Cons.IH [OF step(1)] Cons.prems(2) step(2) by auto
  qed
  then show "solid i (fold (run_event cast messages ds) es st)"
    "has_segment i st \<or> i \<in> set (delta_message_ids es) \<Longrightarrow> has_segment i (fold (run_event cast messages ds) es st)" by blast+
qed

definition rest_step :: "string list \<Rightarrow> message \<Rightarrow> run_projection \<Rightarrow> run_projection" where
  "rest_step ds m st = (if isStreamedAssistantTextMessage m ds then st else pushEngineMessage (toEngineMessage m) st)"

lemma engine_message_id [simp]: "eng_id (toEngineMessage m) = msg_id m" "eng_createdAt (toEngineMessage m) = msg_createdAt m"
  by (simp_all add: toEngineMessage_def Let_def)

lemma rest_pushed: "pushed_ids (fold (rest_step ds) ms st) =
    pushed_ids st \<union> msg_id ` {m \<in> set ms. \<not> isStreamedAssistantTextMessage m ds}"
  by (induction ms arbitrary: st) (auto simp: rest_step_def)

lemma run_projection_unfold:
  assumes "messages \<noteq> []" "events \<noteq> []"
  shows "eng_id ` set (projectRunEngineMessages cast messages events) =
    pushed_ids (fold (rest_step (delta_message_ids events)) messages (flushAllSegments messages
      (fold (run_event cast messages (delta_message_ids events)) events \<lparr>rp_projected = [], rp_counts = [], rp_active = []\<rparr>)))"
  using assms unfolding projectRunEngineMessages_def rest_step_def [abs_def] by (simp add: Let_def pushed_ids_def)

lemma run_loses_nothing:
  assumes "m \<in> set messages" "\<forall>e\<in>set events. solid_delta cast (msg_id m) e"
  shows "\<exists>e\<in>set (projectRunEngineMessages cast messages events). eng_id e = msg_id m \<or> (\<exists>n. eng_id e = segment_id (msg_id m) n)"
proof (cases "events = []")
  case True
  with assms(1) show ?thesis
    by (auto simp: projectRunEngineMessages_def toEngineMessages_def intro!: bexI [of _ "toEngineMessage m"])
next
  case False
  let ?ds = "delta_message_ids events" and ?i = "msg_id m"
  let ?init = "\<lparr>rp_projected = [], rp_counts = [], rp_active = []\<rparr>"
  let ?st = "fold (run_event cast messages ?ds) events ?init"
  have i: "?i \<in> msg_id ` set messages" using assms(1) by blast
  have "messages \<noteq> []" using assms(1) by auto
  note out = run_projection_unfold [OF this False, of cast]
  have "?i \<in> eng_id ` set (projectRunEngineMessages cast messages events) \<or>
      (\<exists>n. segment_id ?i n \<in> eng_id ` set (projectRunEngineMessages cast messages events))"
  proof (cases "isStreamedAssistantTextMessage m ?ds")
    case True
    then have "?i \<in> set ?ds" by (simp add: isStreamedAssistantTextMessage_def)
    moreover have s0: "solid ?i ?init" by (simp add: solid_def)
    ultimately have "solid ?i ?st" "has_segment ?i ?st" using run_events_keep [OF i s0 assms(2), of ?ds] by auto
    from flushed_segment [OF i this] show ?thesis by (auto simp: out rest_pushed)
  next
    case False
    with assms(1) show ?thesis by (auto simp: out rest_pushed)
  qed
  then show ?thesis by (auto simp: image_iff dest: sym)
qed

subsection \<open>Where the messages of the engine come from\<close>

definition sourced :: "message list \<Rightarrow> engine_message \<Rightarrow> bool" where
  "sourced messages e \<longleftrightarrow>
     (\<exists>m\<in>set messages. e = toEngineMessage m \<or> (\<exists>n c t a b. e = buildSegmentEngineMessage m n c t a b \<and> \<not> blank c))"

definition all_sourced :: "message list \<Rightarrow> run_projection \<Rightarrow> bool" where
  "all_sourced messages st \<longleftrightarrow> (\<forall>e\<in>set (rp_projected st). sourced messages e)"

lemma push_sourced: "all_sourced messages st \<Longrightarrow> sourced messages e \<Longrightarrow> all_sourced messages (pushEngineMessage e st)"
  by (auto simp: all_sourced_def pushEngineMessage_def)

lemma all_sourced_updates [simp]:
  "all_sourced messages (st\<lparr>rp_active := a\<rparr>) = all_sourced messages st" "all_sourced messages (st\<lparr>rp_counts := c\<rparr>) = all_sourced messages st"
  "all_sourced messages (st\<lparr>rp_counts := c, rp_active := a\<rparr>) = all_sourced messages st"
  by (simp_all add: all_sourced_def)

lemma sourced_message: "m \<in> set messages \<Longrightarrow> sourced messages (toEngineMessage m)"
  by (auto simp: sourced_def)

lemma sourced_segment: "m \<in> set messages \<Longrightarrow> \<not> blank c \<Longrightarrow> sourced messages (buildSegmentEngineMessage m n c t a b)"
  unfolding sourced_def by blast

lemma flush_sourced: "all_sourced messages st \<Longrightarrow> all_sourced messages (flushSegment messages i st)"
  by (auto simp: flushSegment_def Let_def split: option.split
      intro!: push_sourced sourced_segment dest!: source_message)

lemma flush_list_sourced: "all_sourced messages st \<Longrightarrow> all_sourced messages (fold (flushSegment messages) ks st)"
  by (induction ks arbitrary: st) (simp_all add: flush_sourced)

lemma completed_sourced:
  assumes "all_sourced messages st"
  shows "all_sourced messages (completed_event messages ds i e st)"
proof -
  define st1 where "st1 = fold (flushSegment messages) (filter (\<lambda>k. k \<noteq> i) (map fst (rp_active st))) st"
  have st1: "all_sourced messages st1" using assms by (simp add: st1_def flush_list_sourced)
  have text_kept: "blank (ContentText (contentText c)) = blank c" for c
    by (simp add: blank_def) (simp add: contentText_def)
  have close: "all_sourced messages (flushSegment messages i (st1\<lparr>rp_active := a\<rparr>))" for a
    using st1 by (intro flush_sourced) simp
  show ?thesis
  proof (cases "map_of (jmap_from (map (\<lambda>m. (msg_id m, m)) messages)) i")
    case None
    then show ?thesis unfolding completed_event_def Let_def st1_def [symmetric] by (simp add: st1)
  next
    case (Some m)
    then have m: "m \<in> set messages" by (auto dest: source_message)
    have plain: "all_sourced messages (pushEngineMessage (toEngineMessage m) st1)"
      using st1 m by (intro push_sourced sourced_message)
    have whole: "all_sourced messages (pushEngineMessage (buildSegmentEngineMessage m n (ContentText (contentText (msg_content m))) t a b)
        (st1\<lparr>rp_counts := c\<rparr>))" if "isStreamedAssistantTextMessage m ds" for n t a b c
      using st1 m that by (intro push_sourced sourced_segment) (simp_all add: text_kept isStreamedAssistantTextMessage_def)
    show ?thesis
      unfolding completed_event_def Let_def st1_def [symmetric]
      using plain whole close by (simp add: Some split: option.split)
  qed
qed

lemma run_event_sourced: "all_sourced messages st \<Longrightarrow> all_sourced messages (run_event cast messages ds e st)"
  by (auto simp: run_event_def flushAllSegments_def delta_event_def Let_def intro!: completed_sourced flush_list_sourced
      split: option.split prod.split)

lemma run_sourced: "e \<in> set (projectRunEngineMessages cast messages events) \<Longrightarrow> sourced messages e"
proof -
  have events: "all_sourced messages st \<Longrightarrow> all_sourced messages (fold (run_event cast messages ds) es st)" for st ds es
    by (induction es arbitrary: st) (simp_all add: run_event_sourced)
  have rest: "set ms \<subseteq> set messages \<Longrightarrow> all_sourced messages st \<Longrightarrow> all_sourced messages (fold (rest_step ds) ms st)" for ms st ds
    by (induction ms arbitrary: st) (simp_all add: rest_step_def push_sourced sourced_message)
  assume "e \<in> set (projectRunEngineMessages cast messages events)"
  moreover have "all_sourced messages (fold (rest_step ds) messages (flushAllSegments messages (fold (run_event cast messages ds) events
      \<lparr>rp_projected = [], rp_counts = [], rp_active = []\<rparr>)))" for ds
    by (intro rest events order_refl) (simp_all add: flushAllSegments_def flush_list_sourced events all_sourced_def [of _ "\<lparr>rp_projected = [], rp_counts = [], rp_active = []\<rparr>"])
  ultimately show ?thesis
    unfolding projectRunEngineMessages_def rest_step_def [abs_def]
    by (auto simp: toEngineMessages_def sourced_message all_sourced_def Let_def split: if_splits)
qed

subsection \<open>The messages of a session\<close>

interpretation emc: comparator compare_engine_messages
  unfolding compare_engine_messages_def by (intro comparator_intros)

lemma project_runs_from:
  "e \<in> set (project_runs runs seen ms) \<Longrightarrow> \<exists>m\<in>set ms. (keep_truthy (msg_runId m) = None \<and> e = toEngineMessage m) \<or>
     (\<exists>r. keep_truthy (msg_runId m) = Some r \<and> e \<in> set (runs r))"
  by (induction ms arbitrary: seen) (auto split: option.splits if_splits)

lemma project_runs_all:
  "m \<in> set ms \<Longrightarrow> keep_truthy (msg_runId m) = None \<Longrightarrow> toEngineMessage m \<in> set (project_runs runs seen ms)"
  "m \<in> set ms \<Longrightarrow> keep_truthy (msg_runId m) = Some r \<Longrightarrow> r \<notin> set seen \<Longrightarrow> set (runs r) \<subseteq> set (project_runs runs seen ms)"
proof -
  show "m \<in> set ms \<Longrightarrow> keep_truthy (msg_runId m) = None \<Longrightarrow> toEngineMessage m \<in> set (project_runs runs seen ms)"
    by (induction ms arbitrary: seen) (auto split: option.splits)
  show "m \<in> set ms \<Longrightarrow> keep_truthy (msg_runId m) = Some r \<Longrightarrow> r \<notin> set seen \<Longrightarrow> set (runs r) \<subseteq> set (project_runs runs seen ms)"
  proof (induction ms arbitrary: seen)
    case (Cons a ms)
    show ?case
    proof (cases "keep_truthy (msg_runId a) = Some r")
      case True
      with Cons.prems show ?thesis by simp
    next
      case False
      with Cons.prems have m: "m \<in> set ms" by auto
      show ?thesis
      proof (cases "keep_truthy (msg_runId a)")
        case None
        with Cons.IH [OF m Cons.prems(2, 3)] show ?thesis by auto
      next
        case (Some r')
        with False Cons.prems have "r \<notin> set (r' # seen)" by simp
        with Cons.IH [OF m Cons.prems(2) this] Cons.IH [OF m Cons.prems(2, 3)] Some show ?thesis by auto
      qed
    qed
  qed simp
qed

text \<open>
  C15: no message is lost. Every stored message is among the messages of the engine, itself or as a segment of it, whatever
  the order of the events and whether they were cut off, as long as none of its deltas is only white space.
\<close>

theorem no_message_is_lost:
  assumes "m \<in> set messages" "\<forall>e\<in>set events. solid_delta cast (msg_id m) e"
  shows "\<exists>e\<in>set (buildSessionEngineMessages cast messages events).
     eng_id e = msg_id m \<or> (\<exists>n. eng_id e = segment_id (msg_id m) n)"
proof -
  let ?ms = "js_sort compare_messages messages"
  let ?es = "js_sort (\<lambda>a b. readSessionEventCursorValue a - readSessionEventCursorValue b) (filterSessionEventsForEngineMessages events)"
  let ?runs = "\<lambda>r. projectRunEngineMessages cast (of_run msg_runId r ?ms) (of_run evi_runId r ?es)"
  have "\<exists>e\<in>set (project_runs ?runs [] ?ms). eng_id e = msg_id m \<or> (\<exists>n. eng_id e = segment_id (msg_id m) n)"
  proof (cases "keep_truthy (msg_runId m)")
    case None
    with assms(1) project_runs_all(1) [of m ?ms ?runs "[]"] show ?thesis by (auto intro!: bexI [of _ "toEngineMessage m"])
  next
    case (Some r)
    have "\<exists>e\<in>set (?runs r). eng_id e = msg_id m \<or> (\<exists>n. eng_id e = segment_id (msg_id m) n)"
      by (rule run_loses_nothing) (use assms Some in \<open>auto simp: of_run_def filterSessionEventsForEngineMessages_def\<close>)
    with assms(1) Some project_runs_all(2) [of m ?ms r "[]" ?runs] show ?thesis by auto
  qed
  then show ?thesis by (simp add: buildSessionEngineMessages_def Let_def)
qed

text \<open>
  Nothing is made up, and the order is that of creation. The messages of the engine are sorted by their time and their id, and
  each is a stored message with its content, or a segment of one that shows some text.
\<close>

theorem engine_messages_are_sourced:
  "sorted_wrt (\<lambda>a b. compare_engine_messages a b \<le> 0) (buildSessionEngineMessages cast messages events) \<and>
   list_all (sourced messages) (buildSessionEngineMessages cast messages events)"
proof -
  have mono: "sourced ms e \<Longrightarrow> set ms \<subseteq> set messages \<Longrightarrow> sourced messages e" for ms e
    unfolding sourced_def by blast
  have "set (of_run msg_runId r (js_sort compare_messages messages)) \<subseteq> set messages" for r
    by (auto simp: of_run_def)
  then have "sourced messages e" if "e \<in> set (buildSessionEngineMessages cast messages events)" for e
    using that mono [OF run_sourced]
    by (fastforce simp: buildSessionEngineMessages_def Let_def sourced_message dest!: project_runs_from)
  moreover have "sorted_wrt (\<lambda>a b. compare_engine_messages a b \<le> 0) (buildSessionEngineMessages cast messages events)"
    by (simp add: buildSessionEngineMessages_def Let_def emc.sorted_js_sort)
  ultimately show ?thesis by (simp add: list_all_iff)
qed

subsection \<open>A streamed message\<close>

definition example_stored :: "string \<Rightarrow> message" where
  "example_stored t = \<lparr>msg_id = ''m'', msg_sessionId = ''s'', msg_runId = Some ''r'', msg_role = RoleAssistant, msg_origin = None,
     msg_mode = None, msg_content = ContentText t, msg_metadata = None, msg_createdAt = ''t1''\<rparr>"

definition example_event :: "event_name \<Rightarrow> string \<Rightarrow> (string \<times> json) list \<Rightarrow> session_event" where
  "example_event name cursor kvs = \<lparr>evi_sessionId = ''s'', evi_runId = Some ''r'', evi_event = name,
     evi_data = JObj ((''messageId'', JStr ''m'') # kvs), ev_id = cursor, ev_cursor = cursor, ev_createdAt = ''t2''\<rparr>"

theorem no_message_is_lost_witness:
  "\<exists>e\<in>set (buildSessionEngineMessages (\<lambda>_. []) [example_stored ''hello'']
       [example_event EvMessageDelta ''1'' [(''delta'', JStr ''hel'')], example_event EvMessageDelta ''2'' [(''delta'', JStr ''lo'')]]).
     eng_id e = ''m'' \<or> (\<exists>n. eng_id e = segment_id ''m'' n)"
proof -
  have "\<forall>e\<in>set [example_event EvMessageDelta ''1'' [(''delta'', JStr ''hel'')], example_event EvMessageDelta ''2'' [(''delta'', JStr ''lo'')]].
      solid_delta (\<lambda>_. []) (msg_id (example_stored ''hello'')) e" by code_simp
  from no_message_is_lost [OF _ this, of "[example_stored ''hello'']"] show ?thesis by (simp add: example_stored_def)
qed

text \<open>A message whose only delta is white space is lost, even after it was completed.\<close>

lemma blank_delta_loses_the_message:
  "projectRunEngineMessages (\<lambda>_. []) [example_stored ''hello'']
     [example_event EvMessageDelta ''1'' [(''delta'', JStr '' '')], example_event EvMessageCompleted ''2'' []] = []"
  by code_simp

text \<open>A \<open>runtimeKind\<close> that is no kind becomes the kind of the message.\<close>

lemma unknown_kind_is_kept:
  "eng_kind (toEngineMessage ((example_stored ''hello'')\<lparr>msg_metadata := Some (JObj [(''runtimeKind'', JStr ''note'')])\<rparr>)) = KOther (JStr ''note'')"
  by code_simp

end
