(* ===== verification/Context_Compaction.thy ===== *)
theory Context_Compaction
  imports Compaction_Thresholds Js_Stringify Message_Projection Engine_Messages
begin

text \<open>
  The compaction of a context (\<open>packages/engine-core/src/engine/context-compaction.ts\<close>): what is in the context is put
  into groups, the older groups are summarised by a model, and a boundary and the summary are stored, which the projection to
  the model applies from then on (\<open>Message_Projection\<close>). The model's context before the compaction, the summary text (the answer of
  the model after its sanitising, which is left out), the hooks and the rebuilding of the engine's messages are arguments.
\<close>

subsection \<open>Text and its size\<close>

definition COMPACT_TOOL_RESULT_SOFT_LIMIT_CHARS :: nat where "COMPACT_TOOL_RESULT_SOFT_LIMIT_CHARS = 4000"
definition COMPACT_SUMMARY_MAX_TOKENS :: int where "COMPACT_SUMMARY_MAX_TOKENS = 1200"

definition truncateText :: "string \<Rightarrow> nat \<Rightarrow> string" where
  "truncateText s maxChars = (if length s \<le> maxChars then s else take maxChars s @ ''...'')"

definition stringify_output :: "tool_output \<Rightarrow> string" where
  "stringify_output x =
     (case x of
        OutText t _ \<Rightarrow> t | OutErrorText t _ \<Rightarrow> t
      | OutJson v _ \<Rightarrow> json_text v | OutErrorJson v _ \<Rightarrow> json_text v
      | OutExecutionDenied reason _ \<Rightarrow> or_else reason ''Execution denied.''
      | OutContent vs _ \<Rightarrow> json_text (json.JArr vs))"

definition stringify_part :: "message_part \<Rightarrow> string" where
  "stringify_part p =
     (case p of
        TextPart t _ \<Rightarrow> t
      | ReasoningPart t _ \<Rightarrow> t
      | ToolCallPart _ name input _ _ \<Rightarrow> ''tool-call '' @ name @ '': '' @ json_text input
      | ToolResultPart _ name x _ \<Rightarrow> ''tool-result '' @ name @ '': '' @ stringify_output x
      | ToolApprovalRequestPart _ callId \<Rightarrow> ''tool-approval-request '' @ callId
      | ToolApprovalResponsePart approvalId approved _ _ \<Rightarrow>
          ''tool-approval-response '' @ approvalId @ '': '' @ (if approved then ''approved'' else ''denied'')
      | ImagePart _ _ _ \<Rightarrow> ''[image]''
      | FilePart _ filename _ _ \<Rightarrow> ''[file:'' @ or_else filename ''unnamed'' @ '']'')"

definition stringifyContent :: "content \<Rightarrow> string" where
  "stringifyContent c =
     (case c of ContentText t \<Rightarrow> t | ContentParts ps \<Rightarrow> js_join [CHR 0x0A, CHR 0x0A] (map stringify_part ps))"

definition role_name :: "role \<Rightarrow> string" where
  "role_name r = (case r of RoleSystem \<Rightarrow> ''system'' | RoleUser \<Rightarrow> ''user'' | RoleAssistant \<Rightarrow> ''assistant'' | RoleTool \<Rightarrow> ''tool'')"

text \<open>A kind in a template; a value that is no kind is written as JavaScript would, up to arrays.\<close>

definition engine_kind_name :: "engine_kind \<Rightarrow> string" where
  "engine_kind_name k =
     (case k of
        KOther v \<Rightarrow> (case v of json.JStr s \<Rightarrow> s | json.JObj _ \<Rightarrow> ''[object Object]'' | _ \<Rightarrow> json_text v)
      | _ \<Rightarrow> or_else (map_option fst (find (\<lambda>kv. snd kv = k) RUNTIME_MESSAGE_KINDS)) [])"

definition renderChatMessages :: "(role \<times> content) list \<Rightarrow> string" where
  "renderChatMessages messages =
     js_join [CHR 0x0A, CHR 0x0A] (map (\<lambda>(i, r, c).
       js_trim (''#'' @ js_show (Suc i) @ '' '' @ role_name r @ [CHR 0x0A] @ stringifyContent c)) (List.enumerate 0 messages))"

definition renderCompactMessages :: "projected_message list \<Rightarrow> string" where
  "renderCompactMessages messages =
     js_join [CHR 0x0A, CHR 0x0A] (map (\<lambda>(i, m).
       js_trim (''#'' @ js_show (Suc i) @ '' '' @ engine_kind_name (pj_semanticType m) @ '' ('' @ role_name (pj_role m) @ '')'' @ [CHR 0x0A] @
         truncateText (stringifyContent (pj_content m)) COMPACT_TOOL_RESULT_SOFT_LIMIT_CHARS)) (List.enumerate 0 messages))"

text \<open>\<open>Math.max(1, Math.ceil(n / 4))\<close>.\<close>

definition text_tokens :: "string \<Rightarrow> int" where
  "text_tokens s = max 1 ((int (length s) + 3) div 4)"

definition estimateCompactTokenUsage :: "projected_message list \<Rightarrow> int" where
  "estimateCompactTokenUsage messages = text_tokens (renderCompactMessages messages)"

definition estimateChatMessageTokenUsage :: "(role \<times> content) list \<Rightarrow> int" where
  "estimateChatMessageTokenUsage messages = text_tokens (renderChatMessages messages)"

subsection \<open>Groups\<close>

definition readCompactionGroupKey :: "projected_message \<Rightarrow> engine_message option \<Rightarrow> string" where
  "readCompactionGroupKey m source =
     (case Option.bind (Option.bind source eng_metadata) em_modelCallStepSeq of
        Some n \<Rightarrow> ''step:'' @ json_text (json.JNum n)
      | None \<Rightarrow>
          (case source of
             Some s \<Rightarrow>
               if eng_kind s = KUserInput then ''user:'' @ eng_id s
               else if eng_kind s = KCompactSummary then ''summary:'' @ eng_id s
               else if truthy (eng_runId s) then ''run:'' @ the (eng_runId s) @ '':'' @ engine_kind_name (eng_kind s) @ '':'' @ eng_id s
               else ''message:'' @ eng_id s
           | None \<Rightarrow> ''message:'' @ (case pj_sourceMessageIds m of i # _ \<Rightarrow> i | [] \<Rightarrow> engine_kind_name (pj_semanticType m))))"

text \<open>The loop over the messages, with the group that is open and its key.\<close>

fun group_loop :: "(projected_message \<Rightarrow> string) \<Rightarrow> projected_message list \<Rightarrow> string option \<Rightarrow> projected_message list list \<Rightarrow>
    projected_message list \<Rightarrow> projected_message list list" where
  "group_loop key current currentKey groups [] = (if current \<noteq> [] then groups @ [current] else groups)"
| "group_loop key current currentKey groups (m # ms) =
     (if current \<noteq> [] \<and> Some (key m) \<noteq> currentKey
      then group_loop key [m] (Some (key m)) (groups @ [current]) ms
      else group_loop key (current @ [m]) (Some (key m)) groups ms)"

definition source_of :: "engine_message list \<Rightarrow> projected_message \<Rightarrow> engine_message option" where
  "source_of engineMessages m =
     map_of (jmap_from (map (\<lambda>e. (eng_id e, e)) engineMessages)) (case pj_sourceMessageIds m of i # _ \<Rightarrow> i | [] \<Rightarrow> [])"

definition groupMessagesForCompaction :: "projected_message list \<Rightarrow> engine_message list \<Rightarrow> projected_message list list" where
  "groupMessagesForCompaction messages engineMessages =
     group_loop (\<lambda>m. readCompactionGroupKey m (source_of engineMessages m)) [] None [] messages"

subsection \<open>What is summarised\<close>

text \<open>The loop that keeps fewer groups while the estimate is too high.\<close>

fun keep_fewer :: "(nat \<Rightarrow> int) \<Rightarrow> rat \<Rightarrow> nat \<Rightarrow> nat" where
  "keep_fewer estimate threshold keep =
     (if keep > 1 \<and> of_int (estimate keep) \<ge> threshold then keep_fewer estimate threshold (keep - 1) else keep)"

declare keep_fewer.simps [simp del]

record compaction_plan =
  cp_configured :: nat
  cp_keep :: nat
  cp_estimatedInput :: int
  cp_estimatedPost :: int
  cp_summarized :: "projected_message list"
  cp_kept :: "projected_message list"
  cp_through :: "string option"

datatype not_compacted = BelowThreshold | InsufficientHistory | SummaryEmpty

definition compaction_context :: "string \<Rightarrow> string \<Rightarrow> string option \<Rightarrow> string option \<Rightarrow> projection_context" where
  "compaction_context sid agent modelRef provider =
     \<lparr>pc_sessionId = sid, pc_activeAgentName = agent, pc_modelRef = keep_truthy modelRef, pc_provider = keep_truthy provider,
      pc_includeReasoning = Some True, pc_includeToolResults = Some True,
      pc_toolResultSoftLimitChars = Some (int COMPACT_TOOL_RESULT_SOFT_LIMIT_CHARS), pc_applyCompactBoundary = Some True,
      pc_injectRuntimeReminder = None\<rparr>"

text \<open>How many groups are kept, of more than one; the first half of \<open>#compactContext\<close>, on the messages without the transient notes.\<close>

definition cut_groups :: "json_value option \<Rightarrow> int \<Rightarrow> int \<Rightarrow> projected_message list list \<Rightarrow> not_compacted + compaction_plan" where
  "cut_groups metadata estimatedInputTokens projectedTokens groups =
     (let window = resolveContextWindowTokens metadata;
          threshold = readCompactThresholdTokens metadata window;
          configured = readRecentGroupCount metadata;
          usage = map estimateCompactTokenUsage groups;
          overhead = max 0 (estimatedInputTokens - projectedTokens);
          most = max 1 (min configured (length groups - 1));
          estimate = (\<lambda>keep. overhead + sum_list (drop (length usage - keep) usage) + COMPACT_SUMMARY_MAX_TOKENS +
                        readCompactionReserveTokens (fst window));
          keep = keep_fewer estimate threshold most;
          summarized = concat (take (length groups - keep) groups)
      in if summarized = [] then Inl InsufficientHistory
         else Inr \<lparr>cp_configured = configured, cp_keep = keep, cp_estimatedInput = estimatedInputTokens,
                   cp_estimatedPost = estimate keep, cp_summarized = summarized,
                   cp_kept = concat (drop (length groups - keep) groups),
                   cp_through = (case pj_sourceMessageIds (last summarized) of i # _ \<Rightarrow> Some i | [] \<Rightarrow> None)\<rparr>)"

definition plan_compaction ::
    "bool \<Rightarrow> json_value option \<Rightarrow> (role \<times> content) list \<Rightarrow> projection_context \<Rightarrow> engine_message list \<Rightarrow> not_compacted + compaction_plan" where
  "plan_compaction force metadata modelContext ctx messages =
     (let projected = pr_messages (projectToCompact messages ctx);
          estimatedInputTokens = max (estimateCompactTokenUsage projected) (estimateChatMessageTokenUsage modelContext)
      in if \<not> force \<and> of_int estimatedInputTokens < readCompactThresholdTokens metadata (resolveContextWindowTokens metadata)
         then Inl BelowThreshold
         else
           let groups = groupMessagesForCompaction projected messages
           in if length groups \<le> 1 then Inl InsufficientHistory
              else cut_groups metadata estimatedInputTokens (estimateCompactTokenUsage projected) groups)"

subsection \<open>What is stored\<close>

text \<open>
  The two messages of a compaction, before the hooks. \<open>stats\<close> are the entries that say who compacted and the
  numbers, which no code reads again.
\<close>

definition compaction_extra :: "(string \<times> json) list \<Rightarrow> compaction_plan \<Rightarrow> json" where
  "compaction_extra stats plan =
     json.JObj (case keep_truthy (cp_through plan) of
       None \<Rightarrow> stats | Some i \<Rightarrow> AList.update ''compactThroughMessageId'' (json.JStr i) stats)"

definition boundary_message :: "string \<Rightarrow> string \<Rightarrow> string \<Rightarrow> string \<Rightarrow> (string \<times> json) list \<Rightarrow> compaction_plan \<Rightarrow> message" where
  "boundary_message i sid rid now stats plan =
     \<lparr>msg_id = i, msg_sessionId = sid, msg_runId = Some rid, msg_role = RoleSystem, msg_origin = None, msg_mode = None,
      msg_content = ContentText ''Conversation compacted'',
      msg_metadata = Some (json.JObj
        [(''runtimeKind'', json.JStr ''compact_boundary''), (''source'', json.JStr ''engine''),
         (''eligibleForModelContext'', json.JBool False), (''extra'', compaction_extra stats plan)]),
      msg_createdAt = now\<rparr>"

definition summary_message ::
    "string \<Rightarrow> string \<Rightarrow> string \<Rightarrow> string \<Rightarrow> string \<Rightarrow> (string \<times> json) list \<Rightarrow> compaction_plan \<Rightarrow> string \<Rightarrow> message" where
  "summary_message i boundaryId sid rid now stats plan summaryText =
     \<lparr>msg_id = i, msg_sessionId = sid, msg_runId = Some rid, msg_role = RoleSystem, msg_origin = None, msg_mode = None,
      msg_content = ContentText summaryText,
      msg_metadata = Some (json.JObj
        [(''runtimeKind'', json.JStr ''compact_summary''), (''source'', json.JStr ''engine''),
         (''compactBoundaryId'', json.JStr boundaryId), (''summaryForBoundaryId'', json.JStr boundaryId),
         (''eligibleForModelContext'', json.JBool True), (''extra'', compaction_extra stats plan)]),
      msg_createdAt = now\<rparr>"

text \<open>What the hooks after the compaction may change of a message.\<close>

record message_patch =
  mp_content :: "string option"
  mp_metadata :: "(string \<times> json) list option"

definition apply_patch :: "message_patch option \<Rightarrow> message \<Rightarrow> message" where
  "apply_patch p m =
     (case p of
        None \<Rightarrow> m
      | Some p \<Rightarrow>
          let m' = (case mp_content p of None \<Rightarrow> m | Some t \<Rightarrow> m\<lparr>msg_content := ContentText t\<rparr>)
          in (case mp_metadata p of
                None \<Rightarrow> m'
              | Some kvs \<Rightarrow> m'\<lparr>msg_metadata := Some (json.JObj
                  (fold (\<lambda>(k, v). AList.update k v) kvs (case msg_metadata m' of Some (json.JObj old) \<Rightarrow> old | _ \<Rightarrow> [])))\<rparr>))"

definition mergeEphemeralContextNotes :: "engine_message list \<Rightarrow> engine_message list \<Rightarrow> engine_message list" where
  "mergeEphemeralContextNotes engineMessages ephemeralNotes =
     foldl (\<lambda>merged note. if eng_id note \<in> eng_id ` set merged then merged else merged @ [note]) engineMessages ephemeralNotes"

text \<open>
  The steps that store a compaction; \<open>fails\<close> is the number of the step that throws, the seventh being the rebuilding of
  the engine's messages.
\<close>

datatype compaction_step = CreateMessage message | CompletedEvent message | ScheduleSync | RecordStep

record compaction_result =
  cr_engineMessages :: "engine_message list"
  cr_compacted :: bool
  cr_reason :: "not_compacted option"
  cr_boundaryMessageId :: "string option"
  cr_summaryMessageId :: "string option"
  cr_summarizedMessageCount :: "nat option"

definition left_alone :: "engine_message list \<Rightarrow> not_compacted option \<Rightarrow> compaction_result" where
  "left_alone ms reason = \<lparr>cr_engineMessages = ms, cr_compacted = False, cr_reason = reason, cr_boundaryMessageId = None,
     cr_summaryMessageId = None, cr_summarizedMessageCount = None\<rparr>"

record compaction_world =
  cw_before :: "string option"
  cw_summary :: "string + string"
  cw_after :: "string + (message_patch option \<times> message_patch option \<times> string option)"
  cw_fails :: "(nat \<times> string) option"
  cw_rebuild :: "message list \<Rightarrow> engine_message list"

definition store_compaction :: "compaction_world \<Rightarrow> message \<Rightarrow> message \<Rightarrow> compaction_step list \<times> string option" where
  "store_compaction w b s =
     (let steps = [CreateMessage b, CompletedEvent b, CreateMessage s, CompletedEvent s, ScheduleSync, RecordStep]
      in case cw_fails w of
           Some (k, e) \<Rightarrow> if k \<le> 6 then (take k steps, Some e) else (steps, None)
         | None \<Rightarrow> (steps, None))"

text \<open>
  \<open>#compactContext\<close>: the result or what it throws, and the steps that were done. \<open>build\<close> makes the two messages from
  the plan and the text of the summary.
\<close>

definition compactContext ::
    "bool \<Rightarrow> json_value option \<Rightarrow> (role \<times> content) list \<Rightarrow> projection_context \<Rightarrow> engine_message list \<Rightarrow> message list \<Rightarrow>
     compaction_world \<Rightarrow> (compaction_plan \<Rightarrow> string \<Rightarrow> message \<times> message) \<Rightarrow> (string + compaction_result) \<times> compaction_step list" where
  "compactContext manual metadata modelContext ctx engineMessages messages w build =
     (let notes = filter isTransientMemoryContextNote engineMessages;
          compactionSource = filter (\<lambda>m. \<not> isTransientMemoryContextNote m) engineMessages;
          failed = (\<lambda>e. if manual then Inl e else Inr (left_alone engineMessages None))
      in case plan_compaction manual metadata modelContext ctx compactionSource of
           Inl reason \<Rightarrow> (Inr (left_alone engineMessages (if reason = BelowThreshold then None else Some reason)), [])
         | Inr plan \<Rightarrow>
             (case cw_before w of
                Some e \<Rightarrow> (Inl e, [])
              | None \<Rightarrow>
                  (case cw_summary w of
                     Inl e \<Rightarrow> (failed e, [])
                   | Inr summaryText \<Rightarrow>
                       if summaryText = [] then (Inr (left_alone engineMessages (Some SummaryEmpty)), [])
                       else case cw_after w of
                         Inl e \<Rightarrow> (failed e, [])
                       | Inr (boundaryPatch, summaryPatch, text_patch) \<Rightarrow>
                           let (b0, s0) = build plan summaryText;
                               b = apply_patch boundaryPatch b0;
                               s1 = apply_patch summaryPatch s0;
                               s = (case text_patch of None \<Rightarrow> s1 | Some t \<Rightarrow> s1\<lparr>msg_content := ContentText t\<rparr>);
                               (steps, thrown) = store_compaction w b s
                           in (case thrown of
                                 Some e \<Rightarrow> (failed e, steps)
                               | None \<Rightarrow> (Inr \<lparr>cr_engineMessages = mergeEphemeralContextNotes (cw_rebuild w (messages @ [b, s])) notes,
                                           cr_compacted = True, cr_reason = None, cr_boundaryMessageId = Some (msg_id b),
                                           cr_summaryMessageId = Some (msg_id s),
                                           cr_summarizedMessageCount = Some (length (cp_summarized plan))\<rparr>, steps)))))"

subsection \<open>The groups\<close>

definition same_keys :: "('a \<Rightarrow> 'k) \<Rightarrow> 'a list \<Rightarrow> bool" where
  "same_keys key g \<longleftrightarrow> g \<noteq> [] \<and> (\<forall>x\<in>set g. \<forall>y\<in>set g. key x = key y)"

lemma group_loop_facts:
  assumes "\<forall>x\<in>set current. currentKey = Some (key x)" "\<forall>g\<in>set groups. same_keys key g"
  shows "concat (group_loop key current currentKey groups ms) = concat groups @ current @ ms \<and>
    (\<forall>g\<in>set (group_loop key current currentKey groups ms). same_keys key g)"
  using assms
proof (induction ms arbitrary: current currentKey groups)
  case Nil
  have "same_keys key current" if "current \<noteq> []"
    unfolding same_keys_def using Nil(1) that by (metis option.inject)
  with Nil(2) show ?case by simp
next
  case (Cons m ms)
  show ?case
  proof (cases "current \<noteq> [] \<and> Some (key m) \<noteq> currentKey")
    case True
    then have "same_keys key current" unfolding same_keys_def using Cons.prems(1) by (metis option.inject)
    with Cons.prems(2) have "\<forall>g\<in>set (groups @ [current]). same_keys key g" by simp
    from Cons.IH [of "[m]" "Some (key m)", OF _ this] True show ?thesis by simp
  next
    case False
    with Cons.prems(1) have "\<forall>x\<in>set (current @ [m]). Some (key m) = Some (key x)" by (cases "current = []") auto
    note rest = Cons.IH [OF this Cons.prems(2)]
    have "group_loop key current currentKey groups (m # ms) = group_loop key (current @ [m]) (Some (key m)) groups ms"
      by (simp only: group_loop.simps if_not_P [OF False])
    with rest show ?thesis by simp
  qed
qed

lemma groups_facts:
  "concat (groupMessagesForCompaction ms es) = ms"
  "\<forall>g\<in>set (groupMessagesForCompaction ms es). same_keys (\<lambda>m. readCompactionGroupKey m (source_of es m)) g"
  using group_loop_facts [of "[]" None "\<lambda>m. readCompactionGroupKey m (source_of es m)" "[]" ms]
  by (simp_all add: groupMessagesForCompaction_def)

lemma keep_fewer_facts:
  "1 \<le> keep \<Longrightarrow> 1 \<le> keep_fewer f t keep \<and> keep_fewer f t keep \<le> keep \<and>
     (keep_fewer f t keep = 1 \<or> of_int (f (keep_fewer f t keep)) < t)"
proof (induction f t keep rule: keep_fewer.induct)
  case (1 f t keep)
  show ?case
  proof (cases "keep > 1 \<and> of_int (f keep) \<ge> t")
    case True
    then have "keep_fewer f t keep = keep_fewer f t (keep - 1)" by (subst keep_fewer.simps) (simp only: True if_True simp_thms)
    moreover from True have "1 \<le> keep - 1" by linarith
    from 1(1) [OF True this] have "1 \<le> keep_fewer f t (keep - 1)" "keep_fewer f t (keep - 1) \<le> keep"
      "keep_fewer f t (keep - 1) = 1 \<or> of_int (f (keep_fewer f t (keep - 1))) < t" by linarith+
    ultimately show ?thesis by simp
  next
    case False
    then have "keep_fewer f t keep = keep" by (subst keep_fewer.simps) (simp only: False if_False)
    with False 1(2) show ?thesis by auto
  qed
qed

lemma if_Inr: "(if b then Inl e else Inr r) = Inr p \<Longrightarrow> \<not> b \<and> p = r"
  by (simp split: if_splits)

lemma plan_facts:
  assumes "plan_compaction force metadata modelContext ctx messages = Inr plan"
  shows "cp_summarized plan @ cp_kept plan = pr_messages (projectToCompact messages ctx)"
    "cp_summarized plan \<noteq> []" "cp_kept plan \<noteq> []"
    "cp_through plan = (case pj_sourceMessageIds (last (cp_summarized plan)) of i # _ \<Rightarrow> Some i | [] \<Rightarrow> None)"
    "1 \<le> cp_keep plan \<and> cp_keep plan \<le> cp_configured plan"
    "\<exists>old recent. groupMessagesForCompaction (pr_messages (projectToCompact messages ctx)) messages = old @ recent \<and>
       length recent = cp_keep plan \<and> concat old = cp_summarized plan \<and> concat recent = cp_kept plan"
    "cp_keep plan = 1 \<or> of_int (cp_estimatedPost plan) < readCompactThresholdTokens metadata (resolveContextWindowTokens metadata)"
proof -
  let ?groups = "groupMessagesForCompaction (pr_messages (projectToCompact messages ctx)) messages"
  have len: "1 < length ?groups"
    using assms by (auto simp: plan_compaction_def Let_def split: if_splits)
  let ?most = "max 1 (min (readRecentGroupCount metadata) (length ?groups - 1))"
  have most: "1 \<le> ?most" "?most \<le> length ?groups - 1" "?most \<le> readRecentGroupCount metadata"
    using len recent_positive [of metadata] by auto
  define f where "f = (\<lambda>keep. max 0 (max (estimateCompactTokenUsage (pr_messages (projectToCompact messages ctx)))
      (estimateChatMessageTokenUsage modelContext) - estimateCompactTokenUsage (pr_messages (projectToCompact messages ctx))) +
      sum_list (drop (length (map estimateCompactTokenUsage ?groups) - keep) (map estimateCompactTokenUsage ?groups)) +
      COMPACT_SUMMARY_MAX_TOKENS + readCompactionReserveTokens (fst (resolveContextWindowTokens metadata)))"
  define t where "t = readCompactThresholdTokens metadata (resolveContextWindowTokens metadata)"
  have "cut_groups metadata (max (estimateCompactTokenUsage (pr_messages (projectToCompact messages ctx)))
      (estimateChatMessageTokenUsage modelContext)) (estimateCompactTokenUsage (pr_messages (projectToCompact messages ctx))) ?groups = Inr plan"
    using assms by (auto simp: plan_compaction_def Let_def split: if_splits)
  note made = if_Inr [OF this [unfolded cut_groups_def Let_def, folded f_def t_def]]
  note peq = made [THEN conjunct2]
  have plan: "cp_keep plan = keep_fewer f t ?most" "cp_configured plan = readRecentGroupCount metadata"
    "cp_summarized plan = concat (take (length ?groups - cp_keep plan) ?groups)"
    "cp_kept plan = concat (drop (length ?groups - cp_keep plan) ?groups)"
    and through: "cp_through plan = (case pj_sourceMessageIds (last (cp_summarized plan)) of i # _ \<Rightarrow> Some i | [] \<Rightarrow> None)"
    by (simp_all only: peq compaction_plan.simps)
  have some: "cp_summarized plan \<noteq> []" using made [THEN conjunct1] by (simp only: peq compaction_plan.simps not_False_eq_True)
  have post: "cp_estimatedPost plan = f (cp_keep plan)" by (simp only: peq compaction_plan.simps) (simp only: f_def)
  have keep: "1 \<le> cp_keep plan" "cp_keep plan \<le> ?most" using keep_fewer_facts [OF most(1), of f t] plan(1) by simp_all
  show "cp_summarized plan @ cp_kept plan = pr_messages (projectToCompact messages ctx)"
    using groups_facts(1) [of "pr_messages (projectToCompact messages ctx)" messages] plan(3, 4)
    by (metis append_take_drop_id concat_append)
  show "cp_summarized plan \<noteq> []" by (rule some)
  show "cp_kept plan \<noteq> []"
  proof -
    obtain g gs where "drop (length ?groups - cp_keep plan) ?groups = g # gs"
      using keep most len by (cases "drop (length ?groups - cp_keep plan) ?groups") auto
    moreover from this have "g \<in> set ?groups" by (metis in_set_dropD list.set_intros(1))
    ultimately show ?thesis using groups_facts(2) plan(4) by (auto simp: same_keys_def)
  qed
  show "cp_through plan = (case pj_sourceMessageIds (last (cp_summarized plan)) of i # _ \<Rightarrow> Some i | [] \<Rightarrow> None)" by (rule through)
  show "1 \<le> cp_keep plan \<and> cp_keep plan \<le> cp_configured plan" using keep most plan(2) by linarith
  have room: "cp_keep plan \<le> length ?groups" using keep most len by linarith
  show "\<exists>old recent. ?groups = old @ recent \<and> length recent = cp_keep plan \<and> concat old = cp_summarized plan \<and> concat recent = cp_kept plan"
    by (rule exI [of _ "take (length ?groups - cp_keep plan) ?groups"], rule exI [of _ "drop (length ?groups - cp_keep plan) ?groups"])
       (use room plan(3, 4) in simp)
  show "cp_keep plan = 1 \<or> of_int (cp_estimatedPost plan) < readCompactThresholdTokens metadata (resolveContextWindowTokens metadata)"
    using keep_fewer_facts [OF most(1), of f t] plan(1) post by (simp add: t_def)
qed

text \<open>
  C39: a compaction cuts between groups. What is in the context is what is summarised followed by what is kept; neither is empty;
  the kept part consists of at least one and at most the configured number of whole groups, the messages of a model's step
  among them; and more than one group is kept only if the estimate afterwards is below the threshold.
\<close>

theorem compaction_cuts_between_groups:
  assumes "plan_compaction force metadata modelContext ctx messages = Inr plan"
  shows "cp_summarized plan @ cp_kept plan = pr_messages (projectToCompact messages ctx) \<and>
    cp_summarized plan \<noteq> [] \<and> cp_kept plan \<noteq> [] \<and> 1 \<le> cp_keep plan \<and> cp_keep plan \<le> cp_configured plan \<and>
    (\<exists>old recent. groupMessagesForCompaction (pr_messages (projectToCompact messages ctx)) messages = old @ recent \<and>
       length recent = cp_keep plan \<and> concat old = cp_summarized plan \<and> concat recent = cp_kept plan) \<and>
    (\<forall>g\<in>set (groupMessagesForCompaction (pr_messages (projectToCompact messages ctx)) messages).
       same_keys (\<lambda>m. readCompactionGroupKey m (source_of messages m)) g) \<and>
    (cp_keep plan = 1 \<or> of_int (cp_estimatedPost plan) < readCompactThresholdTokens metadata (resolveContextWindowTokens metadata))"
  using plan_facts [OF assms] groups_facts(2) by blast

subsection \<open>The context after a compaction\<close>

lemma hoist_nothing: "\<forall>m\<in>set ms. \<not> isTransientMemoryContextNote m \<Longrightarrow> hoistTransientMemoryContextNotes ms = ms"
  by (simp add: hoistTransientMemoryContextNotes_def filter_empty_conv)

lemma duplicates_subseq: "subseq (removeDuplicateCompositeToolCallMessages ms) ms"
  unfolding removeDuplicateCompositeToolCallMessages_def Let_def by (split if_split) simp

lemma boundary_shape:
  "\<exists>pre rest. fst (applyLatestCompactBoundary ms) = pre @ rest \<and> subseq rest ms \<and> set pre \<subseteq> set ms \<and>
     (\<forall>m\<in>set pre. eng_kind m = KCompactSummary)"
proof -
  have dropped: "subseq (drop n ms) ms" for n by (rule subseq_drop)
  have filtered: "subseq (filter P (drop n ms)) ms" for P n
    using subseq_filter_left dropped by (rule subseq_order.order_trans)
  have plain: "\<exists>pre rest. rs = pre @ rest \<and> subseq rest ms \<and> set pre \<subseteq> set ms \<and> (\<forall>m\<in>set pre. eng_kind m = KCompactSummary)"
    if "subseq rs ms" for rs
    using that by (intro exI [of _ "[]"] exI [of _ rs]) simp
  show ?thesis
  proof (cases "findLatestCompactBoundaryIndex ms")
    case None
    then show ?thesis using plain [of ms] by (simp add: applyLatestCompactBoundary_def)
  next
    case (Some k)
    show ?thesis
    proof (cases "truthy (readCompactThroughMessageId (ms ! k)) \<and>
        find_index (\<lambda>m. Some (eng_id m) = readCompactThroughMessageId (ms ! k)) ms \<noteq> None")
      case False
      have "fst (applyLatestCompactBoundary ms) = drop (k + 1) ms"
      proof (cases "truthy (readCompactThroughMessageId (ms ! k))")
        case True
        with False have none: "find_index (\<lambda>m. Some (eng_id m) = readCompactThroughMessageId (ms ! k)) ms = None" by blast
        show ?thesis by (simp only: applyLatestCompactBoundary_def Some option.case Let_def True none not_True_eq_False if_False fst_conv)
      next
        case False
        show ?thesis by (simp only: applyLatestCompactBoundary_def Some option.case Let_def False not_False_eq_True if_True fst_conv)
      qed
      with plain [OF dropped [of "k + 1"]] show ?thesis by simp
    next
      case True
      then obtain j where j: "find_index (\<lambda>m. Some (eng_id m) = readCompactThroughMessageId (ms ! k)) ms = Some j" by blast
      define summary where "summary = findSummaryForBoundary ms (eng_id (ms ! k))"
      define pre where "pre = (case summary of None \<Rightarrow> [] | Some s \<Rightarrow> [s])"
      define rest where "rest = filter (\<lambda>m. eng_kind m \<noteq> KCompactBoundary \<and> Some (eng_id m) \<noteq> map_option eng_id summary) (drop (j + 1) ms)"
      have "fst (applyLatestCompactBoundary ms) = pre @ rest"
        using True j by (simp add: applyLatestCompactBoundary_def Some Let_def pre_def rest_def summary_def)
      moreover have "set pre \<subseteq> set ms \<and> (\<forall>m\<in>set pre. eng_kind m = KCompactSummary)"
      proof -
        have "x \<in> set ms \<and> eng_kind x = KCompactSummary" if "summary = Some x" for x
          using that by (auto simp: summary_def findSummaryForBoundary_def find_Some_iff)
        then show ?thesis by (auto simp: pre_def split: option.splits)
      qed
      ultimately show ?thesis using filtered unfolding rest_def by blast
    qed
  qed
qed

lemma window_shape:
  assumes "\<forall>m\<in>set ms. \<not> isTransientMemoryContextNote m"
  obtains pre rest where "fst (model_selection ms ctx) = pre @ rest" "subseq rest ms" "\<forall>m\<in>set pre. eng_kind m = KCompactSummary"
    "set pre \<subseteq> set ms"
proof -
  obtain pre rest where shape: "fst (applyLatestCompactBoundary ms) = pre @ rest" "subseq rest ms" "set pre \<subseteq> set ms"
    "\<forall>m\<in>set pre. eng_kind m = KCompactSummary" using boundary_shape by blast
  define bounded where "bounded = (if pc_applyCompactBoundary ctx \<noteq> Some False then fst (applyLatestCompactBoundary ms) else ms)"
  obtain pre' rest' where bounded: "bounded = pre' @ rest'" "subseq rest' ms" "\<forall>m\<in>set pre'. eng_kind m = KCompactSummary"
    "set bounded \<subseteq> set ms"
  proof (cases "pc_applyCompactBoundary ctx \<noteq> Some False")
    case True
    moreover have "set rest \<subseteq> set ms" using shape(2) by (rule subseq_set)
    ultimately show ?thesis using shape by (intro that [of pre rest]) (simp_all add: bounded_def)
  next
    case False
    then show ?thesis by (intro that [of "[]" ms]) (simp_all add: bounded_def)
  qed
  let ?W = "removeDuplicateCompositeToolCallMessages bounded"
  have sub: "subseq ?W bounded" by (rule duplicates_subseq)
  then obtain p r where W: "?W = p @ r" "subseq p pre'" "subseq r rest'"
    unfolding bounded(1) by (auto simp: subseq_append_iff)
  have "\<forall>m\<in>set ?W. \<not> isTransientMemoryContextNote m"
    using assms bounded(4) subseq_set [OF sub] by blast
  then have "hoistTransientMemoryContextNotes ?W = p @ r" using W(1) by (metis hoist_nothing)
  then have "fst (model_selection ms ctx) = p @ r"
    by (cases "pc_applyCompactBoundary ctx \<noteq> Some False") (simp_all add: model_selection_def bounded_def split_def)
  moreover have "subseq r ms" using W(3) bounded(2) by (rule subseq_order.order_trans)
  moreover have "\<forall>m\<in>set p. eng_kind m = KCompactSummary" using subseq_set [OF W(2)] bounded(3) by blast
  moreover have "set p \<subseteq> set ms" using W(1) subseq_set [OF sub] bounded(4) by auto
  ultimately show thesis by (rule that)
qed

lemma compact_sources:
  "concat (map pj_sourceMessageIds (pr_messages (projectToCompact ms ctx))) =
     map eng_id (filter (\<lambda>m. fst (project_one (ctx\<lparr>pc_injectRuntimeReminder := Some False\<rparr>) m) \<noteq> None)
       (fst (model_selection ms (ctx\<lparr>pc_injectRuntimeReminder := Some False\<rparr>))))"
  by (simp add: projectToCompact_def projectToModel_def mergeAdjacentPureToolCallModelMessages_def split_def Let_def
      sources_foldl_merge sources_map_filter o_def)

lemma boundaries_are_hidden: "eng_kind m = KCompactBoundary \<Longrightarrow> fst (project_one ctx m) = None"
  by (simp add: project_one_def buildModelMessage_def)

lemma boundary_engine_message:
  assumes b_def: "b = toEngineMessage (boundary_message i sid rid now stats plan)"
  shows "eng_id b = i" "eng_kind b = KCompactBoundary" "readCompactThroughMessageId b = keep_truthy (cp_through plan) \<or> keep_truthy (cp_through plan) = None"
proof -
  have meta: "normalizeEngineMessageMetadata (msg_metadata (boundary_message i sid rid now stats plan)) =
      Some (no_engine_metadata\<lparr>em_runtimeKind := Some KCompactBoundary, em_source := Some OriginEngine,
        em_eligibleForModelContext := Some False, em_extra := Some (compaction_extra stats plan)\<rparr>)"
    by (simp add: boundary_message_def normalizeEngineMessageMetadata_def no_engine_metadata_def kind_of_json_def isEngineMessageKind_def
        RUNTIME_MESSAGE_KINDS_def str_at_def bool_at_def source_names_def compaction_extra_def Let_def)
  show "eng_id b = i" by (simp add: b_def boundary_message_def)
  show "eng_kind b = KCompactBoundary"
    by (simp add: b_def toEngineMessage_def Let_def meta inferEngineMessageKind_def kind_truthy_def) (simp add: boundary_message_def)
  show "readCompactThroughMessageId b = keep_truthy (cp_through plan) \<or> keep_truthy (cp_through plan) = None"
    by (auto simp: b_def toEngineMessage_def Let_def readCompactThroughMessageId_def Message_Projection.meta_def meta compaction_extra_def
        update_conv' split: option.split)
qed

lemma summary_engine_message:
  assumes s_def: "s = toEngineMessage (summary_message i boundaryId sid rid now stats plan summaryText)"
  shows "eng_id s = i" "eng_kind s = KCompactSummary" "meta em_summaryForBoundaryId s = Some boundaryId"
    "eng_content s = ContentText summaryText"
proof -
  have meta: "normalizeEngineMessageMetadata (msg_metadata (summary_message i boundaryId sid rid now stats plan summaryText)) =
      Some (no_engine_metadata\<lparr>em_runtimeKind := Some KCompactSummary, em_source := Some OriginEngine,
        em_compactBoundaryId := Some boundaryId, em_summaryForBoundaryId := Some boundaryId,
        em_eligibleForModelContext := Some True, em_extra := Some (compaction_extra stats plan)\<rparr>)"
    by (simp add: summary_message_def normalizeEngineMessageMetadata_def no_engine_metadata_def kind_of_json_def isEngineMessageKind_def
        RUNTIME_MESSAGE_KINDS_def str_at_def bool_at_def source_names_def compaction_extra_def Let_def)
  show "eng_id s = i" "eng_content s = ContentText summaryText" by (simp_all add: s_def toEngineMessage_def Let_def summary_message_def)
  show "eng_kind s = KCompactSummary"
    by (simp add: s_def toEngineMessage_def Let_def meta inferEngineMessageKind_def kind_truthy_def) (simp add: summary_message_def)
  show "meta em_summaryForBoundaryId s = Some boundaryId"
    by (simp add: s_def toEngineMessage_def Let_def Message_Projection.meta_def meta)
qed

lemma map_split: "map f xs = A @ i # B \<Longrightarrow> \<exists>P t Q. xs = P @ t # Q \<and> f t = i \<and> map f Q = B"
  by (auto simp: map_eq_append_conv map_eq_Cons_conv)

lemma tail_split:
  assumes "xs @ ys = A @ t # B" "t \<notin> set xs"
  shows "\<exists>A'. ys = A' @ t # B"
proof -
  from assms(1) consider us where "xs = A @ us" "us @ ys = t # B" | us where "ys = us @ t # B"
    by (auto simp: append_eq_append_conv2)
  then show ?thesis
  proof cases
    case 1
    with assms(2) show ?thesis by (cases us) auto
  qed blast
qed

lemma find_skip: "\<forall>x\<in>set xs. \<not> P x \<Longrightarrow> find P (xs @ ys) = find P ys"
  by (induction xs) auto

text \<open>Every projected message has a source.\<close>

lemma merged_have_sources:
  "\<forall>m\<in>set acc \<union> set ms. pj_sourceMessageIds m \<noteq> [] \<Longrightarrow> \<forall>m\<in>set (foldl merge_step acc ms). pj_sourceMessageIds m \<noteq> []"
proof (induction ms arbitrary: acc)
  case (Cons m ms)
  have "\<forall>x\<in>set (merge_step acc m). pj_sourceMessageIds x \<noteq> []"
    using Cons.prems by (auto simp: merge_step_def dest: in_set_butlastD)
  with Cons.prems have "\<forall>x\<in>set (merge_step acc m) \<union> set ms. pj_sourceMessageIds x \<noteq> []" by auto
  from Cons.IH [OF this] show ?case by simp
qed simp

lemma compact_messages_have_sources: "m \<in> set (pr_messages (projectToCompact ms ctx)) \<Longrightarrow> pj_sourceMessageIds m \<noteq> []"
proof -
  assume m: "m \<in> set (pr_messages (projectToCompact ms ctx))"
  let ?ctx = "ctx\<lparr>pc_injectRuntimeReminder := Some False\<rparr>"
  have "\<forall>p\<in>set (List.map_filter (\<lambda>m. fst (project_one ?ctx m)) xs). pj_sourceMessageIds p \<noteq> []" for xs
    using project_one_source [of ?ctx] by (auto simp: List.map_filter_def)
  from merged_have_sources [of "[]", simplified, OF this] m show ?thesis
    by (auto simp: projectToCompact_def projectToModel_def mergeAdjacentPureToolCallModelMessages_def split_def Let_def)
qed

text \<open>
  C13: what a compaction does to the next context. \<open>messages\<close> is the history without the transient notes, as
  \<open>#compactContext\<close> plans on it. When the boundary and the summary of a plan are stored as they are built (no hook changes
  them), with ids that are new, the model sees the summary followed by all messages after the one the boundary names, the first source of the
  last message summarised. Every message of the groups kept is among them, unless the one named is the summary of an earlier
  compaction: then the kept messages may be lost (\<open>second_compaction_loses_the_recent\<close>).
\<close>

theorem compaction_keeps_the_recent:
  assumes messages: "messages = filter (\<lambda>m. \<not> isTransientMemoryContextNote m) engineMessages"
    and plan: "plan_compaction force metadata modelContext ctx messages = Inr plan"
    and ids: "distinct (map eng_id messages @ [boundaryId, summaryId])" "\<forall>m\<in>set messages. eng_id m \<noteq> []"
    and fresh: "\<forall>m\<in>set messages. meta em_summaryForBoundaryId m \<noteq> Some boundaryId \<and> meta em_compactBoundaryId m \<noteq> Some boundaryId"
    and b: "b = toEngineMessage (boundary_message boundaryId sid rid now stats plan)"
    and s: "s = toEngineMessage (summary_message summaryId boundaryId sid rid now' stats plan summaryText)"
  shows "\<exists>before t after. messages = before @ t # after \<and> cp_through plan = Some (eng_id t) \<and>
    fst (applyLatestCompactBoundary (messages @ [b, s])) = s # filter (\<lambda>m. eng_kind m \<noteq> KCompactBoundary) after \<and>
    (eng_kind t \<noteq> KCompactSummary \<longrightarrow>
      (\<forall>m\<in>set (cp_kept plan). set (pj_sourceMessageIds m) \<subseteq> eng_id ` set (filter (\<lambda>m. eng_kind m \<noteq> KCompactBoundary) after)))"
proof -
  let ?ctx = "ctx\<lparr>pc_injectRuntimeReminder := Some False\<rparr>"
  let ?shown = "\<lambda>m. fst (project_one ?ctx m) \<noteq> None"
  have no_notes: "\<forall>m\<in>set messages. \<not> isTransientMemoryContextNote m" by (simp add: messages)
  obtain pre rest where window: "fst (model_selection messages ?ctx) = pre @ rest" "subseq rest messages"
    "\<forall>m\<in>set pre. eng_kind m = KCompactSummary" "set pre \<subseteq> set messages"
    using window_shape [OF no_notes, of ?ctx] by blast
  obtain old where old: "cp_summarized plan = old @ [last (cp_summarized plan)]"
    using plan_facts(2) [OF plan] by (metis append_butlast_last_id)
  have "last (cp_summarized plan) \<in> set (pr_messages (projectToCompact messages ctx))"
    using plan_facts(1,2) [OF plan] by (metis Un_iff last_in_set set_append)
  from compact_messages_have_sources [OF this] obtain i more where last: "pj_sourceMessageIds (last (cp_summarized plan)) = i # more"
    by (auto simp: neq_Nil_conv)
  let ?sources = "\<lambda>ms. concat (map pj_sourceMessageIds ms)"
  have "map eng_id (filter ?shown (pre @ rest)) = ?sources (cp_summarized plan @ cp_kept plan)"
    unfolding plan_facts(1) [OF plan] by (simp add: compact_sources window(1))
  also have "\<dots> = ?sources old @ i # more @ ?sources (cp_kept plan)"
    by (subst old) (simp add: last)
  finally have "map eng_id (filter ?shown (pre @ rest)) = ?sources old @ i # more @ ?sources (cp_kept plan)" .
  from map_split [OF this] obtain A t B where split: "filter ?shown (pre @ rest) = A @ t # B" "eng_id t = i"
    "map eng_id B = more @ ?sources (cp_kept plan)"
    by blast
  obtain before after where at: "messages = before @ t # after"
    and B: "t \<notin> set pre \<Longrightarrow> subseq B after \<and> set B \<subseteq> set (filter ?shown rest)"
  proof (cases "t \<in> set pre")
    case True
    then have "t \<in> set messages" using window(4) by blast
    with True that show thesis by (metis split_list)
  next
    case False
    then have "t \<notin> set (filter ?shown pre)" by simp
    with tail_split [of "filter ?shown pre" "filter ?shown rest" A t B] split(1)
    obtain A' where rest: "filter ?shown rest = A' @ t # B" unfolding filter_append by blast
    have "subseq (t # B) (filter ?shown rest)" unfolding rest by (intro suffix_imp_subseq suffixI) (rule refl)
    then have "subseq (t # B) messages"
      using subseq_filter_left window(2) by (metis subseq_order.order_trans)
    then obtain before after where "messages = before @ t # after" "subseq B after"
      using list_emb_ConsD [of "(=)" t B messages] by blast
    moreover have "set B \<subseteq> set (filter ?shown rest)" unfolding rest by auto
    ultimately show thesis using that by blast
  qed
  have i: "i \<noteq> []" using ids(2) split(2) by (auto simp: at)
  have kinds: "eng_kind b = KCompactBoundary" "eng_id b = boundaryId" "eng_kind s = KCompactSummary" "eng_id s = summaryId"
    "meta em_summaryForBoundaryId s = Some boundaryId"
    using boundary_engine_message [OF b] summary_engine_message [OF s] by simp_all
  have named: "cp_through plan = Some i" using plan_facts(4) [OF plan] last by simp
  then have through: "readCompactThroughMessageId b = Some (eng_id t)"
    using boundary_engine_message(3) [OF b] i split(2) by simp
  have all: "messages @ [b, s] = before @ t # after @ b # [s]" by (simp add: at)
  have distinct: "distinct (map eng_id (before @ t # after @ b # [s]))" using ids(1) kinds by (auto simp: at)
  have found: "findSummaryForBoundary (messages @ [b, s]) boundaryId = Some s"
    unfolding findSummaryForBoundary_def using fresh kinds by (subst find_skip) auto
  then have "summary_list (before @ t # after @ b # [s]) b = [s]" unfolding all [symmetric] by (simp add: summary_list_def kinds)
  moreover have "s \<notin> set after" using distinct by auto
  then have "filter (\<lambda>m. eng_kind m \<noteq> KCompactBoundary \<and> m \<notin> {s}) (after @ [s]) = filter (\<lambda>m. eng_kind m \<noteq> KCompactBoundary) after"
    by (auto intro: filter_cong)
  ultimately have "fst (applyLatestCompactBoundary (messages @ [b, s])) = s # filter (\<lambda>m. eng_kind m \<noteq> KCompactBoundary) after"
    unfolding all using compact_boundary_window [of b "[s]" before t after] kinds distinct through i split(2) by simp
  moreover have "set (pj_sourceMessageIds m) \<subseteq> eng_id ` set (filter (\<lambda>m. eng_kind m \<noteq> KCompactBoundary) after)"
    if "m \<in> set (cp_kept plan)" "eng_kind t \<noteq> KCompactSummary" for m
  proof -
    have sub: "subseq B after" "set B \<subseteq> set (filter ?shown rest)" using B window(3) that(2) by blast+
    have "eng_kind x \<noteq> KCompactBoundary" if "x \<in> set B" for x using that sub(2) boundaries_are_hidden by force
    with subseq_set [OF sub(1)] have "set B \<subseteq> set (filter (\<lambda>m. eng_kind m \<noteq> KCompactBoundary) after)" by auto
    moreover have "set (pj_sourceMessageIds m) \<subseteq> eng_id ` set B"
      using that(1) arg_cong [OF split(3), of set] by auto
    ultimately show ?thesis by blast
  qed
  ultimately show ?thesis using at split(2) named by blast
qed

subsection \<open>Two compactions\<close>

definition example_context :: projection_context where
  "example_context = compaction_context ''s'' ''a'' None None"

definition example_user :: "string \<Rightarrow> engine_message" where
  "example_user i = projection_example i RoleUser KUserInput (ContentText i)"

definition example_users :: "engine_message list" where
  "example_users = map example_user [''u1'', ''u2'', ''u3'', ''u4'']"

lemma example_plan:
  obtains plan where "plan_compaction True None [] example_context example_users = Inr plan"
    "map pj_sourceMessageIds (cp_summarized plan) = [[''u1'']]"
proof -
  have "case plan_compaction True None [] example_context example_users of
      Inl _ \<Rightarrow> False | Inr plan \<Rightarrow> map pj_sourceMessageIds (cp_summarized plan) = [[''u1'']]"
    by code_simp
  then show thesis using that by (auto split: sum.splits)
qed

theorem compaction_cuts_between_groups_witness:
  "\<exists>plan. plan_compaction True None [] example_context example_users = Inr plan \<and>
     cp_kept plan \<noteq> [] \<and> 1 \<le> cp_keep plan \<and> cp_keep plan \<le> cp_configured plan"
proof -
  obtain plan where plan: "plan_compaction True None [] example_context example_users = Inr plan" by (rule example_plan)
  from compaction_cuts_between_groups [OF plan] plan show ?thesis by blast
qed

theorem compaction_keeps_the_recent_witness:
  "\<exists>plan before t after. plan_compaction True None [] example_context example_users = Inr plan \<and>
     example_users = before @ t # after \<and> eng_id t = ''u1'' \<and>
     fst (applyLatestCompactBoundary (example_users @
       [toEngineMessage (boundary_message ''b'' ''s'' ''r'' ''t'' [] plan), toEngineMessage (summary_message ''c'' ''b'' ''s'' ''r'' ''t'' [] plan ''sum'')])) =
       toEngineMessage (summary_message ''c'' ''b'' ''s'' ''r'' ''t'' [] plan ''sum'') # filter (\<lambda>m. eng_kind m \<noteq> KCompactBoundary) after"
proof -
  obtain plan where plan: "plan_compaction True None [] example_context example_users = Inr plan"
    "map pj_sourceMessageIds (cp_summarized plan) = [[''u1'']]" by (rule example_plan)
  have "pj_sourceMessageIds (last (cp_summarized plan)) = [''u1'']"
    using plan(2) by (cases "cp_summarized plan" rule: rev_cases) auto
  then have through: "cp_through plan = Some ''u1''" using plan_facts(4) [OF plan(1)] by simp
  have facts: "example_users = filter (\<lambda>m. \<not> isTransientMemoryContextNote m) example_users"
    "distinct (map eng_id example_users @ [''b'', ''c''])" "\<forall>m\<in>set example_users. eng_id m \<noteq> []"
    "\<forall>m\<in>set example_users. meta em_summaryForBoundaryId m \<noteq> Some ''b'' \<and> meta em_compactBoundaryId m \<noteq> Some ''b''"
    by code_simp+
  from compaction_keeps_the_recent [OF facts(1) plan(1) facts(2-4) refl refl, of "''s''" "''r''" "''t''" "[]" "''t''" "''sum''"]
  obtain before t after where "example_users = before @ t # after" "cp_through plan = Some (eng_id t)"
    "fst (applyLatestCompactBoundary (example_users @
        [toEngineMessage (boundary_message ''b'' ''s'' ''r'' ''t'' [] plan), toEngineMessage (summary_message ''c'' ''b'' ''s'' ''r'' ''t'' [] plan ''sum'')])) =
       toEngineMessage (summary_message ''c'' ''b'' ''s'' ''r'' ''t'' [] plan ''sum'') # filter (\<lambda>m. eng_kind m \<noteq> KCompactBoundary) after"
    by blast
  with plan(1) through show ?thesis by (metis option.inject)
qed

text \<open>
  After a first compaction (boundary \<open>b\<close>, summary \<open>s\<close>, three groups kept) a second one without any new message summarises the summary
  only and names it as the last message summarised. As the summary comes after the messages kept, these are then before
  the window: the model sees the new summary and none of them.
\<close>

definition compacted_once :: "engine_message list" where
  "compacted_once = map example_user [''t'', ''k1'', ''k2'', ''k3''] @ [boundary_example, summary_example]"

definition second_boundary :: engine_message where
  "second_boundary = boundary_example
     \<lparr>eng_id := ''b2'', eng_metadata := Some (example_metadata\<lparr>em_extra := Some (json.JObj [(''compactThroughMessageId'', json.JStr ''s'')])\<rparr>)\<rparr>"

definition second_summary :: engine_message where
  "second_summary = summary_example
     \<lparr>eng_id := ''s2'', eng_metadata := Some (example_metadata\<lparr>em_summaryForBoundaryId := Some ''b2''\<rparr>)\<rparr>"

lemma second_compaction_loses_the_recent:
  "(case plan_compaction True None [] example_context compacted_once of
      Inl _ \<Rightarrow> False
    | Inr plan \<Rightarrow> cp_through plan = Some ''s'' \<and> map pj_sourceMessageIds (cp_kept plan) = [[''k1''], [''k2''], [''k3'']]) \<and>
   map eng_id (fst (applyLatestCompactBoundary (compacted_once @ [second_boundary, second_summary]))) = [''s2'']"
  by code_simp

text \<open>A compaction that fails after the boundary was stored leaves a boundary without a summary.\<close>

lemma boundary_without_summary:
  "store_compaction \<lparr>cw_before = None, cw_summary = Inr ''sum'', cw_after = Inr (None, None, None), cw_fails = Some (2, ''io''), cw_rebuild = toEngineMessages\<rparr> b s =
     ([CreateMessage b, CompletedEvent b], Some ''io'')"
  "map eng_id (fst (applyLatestCompactBoundary (map example_user [''a'', ''t'', ''k''] @ [boundary_example]))) = [''k'']"
  by (simp add: store_compaction_def numeral_2_eq_2, code_simp)

end
