(* ===== verification/Js_Number.thy ===== *)
theory Js_Number
  imports Js_Prelude Complex_Main
begin

text \<open>
  \<open>String(x)\<close> and \<open>Number(s)\<close> of JavaScript for decimal numerals: a number is a rational whose numeral ends within the given number of digits,
  which is how a floating point number is printed. Any other string is \<open>None\<close>, which stands for \<open>NaN\<close>.
\<close>

fun fraction_digits :: "nat \<Rightarrow> rat \<Rightarrow> string" where
  "fraction_digits 0 f = []"
| "fraction_digits (Suc n) f =
     (if f = 0 then [] else digit_char (nat \<lfloor>10 * f\<rfloor>) # fraction_digits n (10 * f - of_int \<lfloor>10 * f\<rfloor>))"

fun read_fraction :: "string \<Rightarrow> rat option" where
  "read_fraction [] = Some 0"
| "read_fraction (c # cs) =
     (case digit_value c of
        None \<Rightarrow> None
      | Some d \<Rightarrow> map_option (\<lambda>r. (of_nat d + r) / 10) (read_fraction cs))"

definition js_decimal :: "rat \<Rightarrow> string" where
  "js_decimal x =
     (let f = x - of_int \<lfloor>x\<rfloor>
      in js_show (nat \<lfloor>x\<rfloor>) @ (if f = 0 then [] else CHR ''.'' # fraction_digits 20 f))"

definition js_number_text :: "rat \<Rightarrow> string" where
  "js_number_text x = (if x < 0 then CHR ''-'' # js_decimal (- x) else js_decimal x)"

definition decimal_digit :: "char \<Rightarrow> bool" where
  "decimal_digit c \<longleftrightarrow> digit_value c \<noteq> None"

definition read_decimal :: "string \<Rightarrow> rat option" where
  "read_decimal s =
     (case (takeWhile decimal_digit s, dropWhile decimal_digit s) of
        ([], _) \<Rightarrow> None
      | (ds, []) \<Rightarrow> Some (of_nat (parse_digits 0 ds))
      | (ds, c # cs) \<Rightarrow>
          if c = CHR ''.'' then map_option (\<lambda>f. of_nat (parse_digits 0 ds) + f) (read_fraction cs) else None)"

definition js_number :: "string \<Rightarrow> rat option" where
  "js_number s = (case s of [] \<Rightarrow> None | c # cs \<Rightarrow> if c = CHR ''-'' then map_option uminus (read_decimal cs) else read_decimal s)"

definition decimal_in :: "nat \<Rightarrow> rat \<Rightarrow> bool" where
  "decimal_in n x \<longleftrightarrow> x * 10 ^ n \<in> \<int>"

lemma read_fraction_digits:
  assumes "0 \<le> f" "f < 1" "decimal_in n f"
  shows "read_fraction (fraction_digits n f) = Some f"
  using assms
proof (induction n arbitrary: f)
  case 0
  then obtain k where "f = of_int k" by (auto simp: decimal_in_def Ints_def)
  with 0 have "f = 0" by auto
  then show ?case by simp
next
  case (Suc n)
  show ?case
  proof (cases "f = 0")
    case False
    let ?d = "\<lfloor>10 * f\<rfloor>" and ?f = "10 * f - of_int \<lfloor>10 * f\<rfloor>"
    have d: "0 \<le> ?d" "?d < 10" using Suc.prems by (auto simp: floor_less_iff)
    have "?f * 10 ^ n = f * 10 ^ Suc n - of_int ?d * 10 ^ n" by (simp add: algebra_simps)
    moreover have "of_int ?d * (10 ^ n :: rat) \<in> \<int>" by simp
    ultimately have "decimal_in n ?f" using Suc.prems(3) unfolding decimal_in_def by (metis Ints_diff)
    moreover have "0 \<le> ?f" "?f < 1" by linarith+
    ultimately have "read_fraction (fraction_digits n ?f) = Some ?f" by (intro Suc.IH)
    moreover have "nat ?d < 10" "(of_nat (nat ?d) :: rat) = of_int ?d" using d by linarith+
    ultimately show ?thesis using False by simp
  qed simp
qed

lemma show_digits: "list_all decimal_digit (js_show n)"
proof (induction n rule: js_show.induct)
  case (1 n)
  then show ?case by (cases "n < 10") (simp_all add: js_show.simps [of n] decimal_digit_def)
qed

lemma parse_digits_show [simp]: "parse_digits 0 (js_show n) = n"
  using parse_digits_show_append [of n "[]"] by simp

lemma js_show_cases: "(case js_show n of [] \<Rightarrow> a | c # cs \<Rightarrow> f c cs) = f (hd (js_show n)) (tl (js_show n))"
  using js_show_hd [of n] by auto

lemma read_decimal_show:
  assumes "\<not> decimal_digit c"
  shows "read_decimal (js_show n) = Some (of_nat n)"
    and "read_decimal (js_show n @ c # cs) =
      (if c = CHR ''.'' then map_option (\<lambda>f. of_nat n + f) (read_fraction cs) else None)"
proof -
  have all: "\<forall>d\<in>set (js_show n). decimal_digit d" using show_digits [of n] by (simp add: list_all_iff)
  have s: "takeWhile decimal_digit (js_show n) = js_show n" "dropWhile decimal_digit (js_show n) = []"
    using all by (simp_all only: takeWhile_eq_all_conv dropWhile_eq_Nil_conv)
  show "read_decimal (js_show n) = Some (of_nat n)"
    unfolding read_decimal_def s prod.case js_show_cases by simp
  have t: "takeWhile decimal_digit (js_show n @ c # cs) = js_show n" "dropWhile decimal_digit (js_show n @ c # cs) = c # cs"
    using all assms by (simp_all add: takeWhile_append2 dropWhile_append2)
  show "read_decimal (js_show n @ c # cs) =
      (if c = CHR ''.'' then map_option (\<lambda>f. of_nat n + f) (read_fraction cs) else None)"
    unfolding read_decimal_def t prod.case js_show_cases by simp
qed

lemma dot_no_digit: "\<not> decimal_digit (CHR ''.'')"
  by (simp add: decimal_digit_def digit_value_def)

lemma read_decimal_text:
  assumes "0 \<le> x" "decimal_in 20 x"
  shows "read_decimal (js_decimal x) = Some x"
proof -
  let ?f = "x - of_int \<lfloor>x\<rfloor>"
  have n: "(of_nat (nat \<lfloor>x\<rfloor>) :: rat) = of_int \<lfloor>x\<rfloor>" using assms(1) by simp
  have "?f * 10 ^ 20 = x * 10 ^ 20 - of_int \<lfloor>x\<rfloor> * 10 ^ 20" by (simp add: algebra_simps)
  moreover have "of_int \<lfloor>x\<rfloor> * (10 ^ 20 :: rat) \<in> \<int>" by simp
  ultimately have "decimal_in 20 ?f" using assms(2) unfolding decimal_in_def by (metis Ints_diff)
  moreover have "0 \<le> ?f" "?f < 1" by linarith+
  ultimately have "read_fraction (fraction_digits 20 ?f) = Some ?f" by (intro read_fraction_digits)
  then show ?thesis
    using n by (simp add: js_decimal_def Let_def read_decimal_show [OF dot_no_digit] del: fraction_digits.simps)
qed

lemma js_number_text [simp]:
  assumes "decimal_in 20 x"
  shows "js_number (js_number_text x) = Some x"
proof (cases "x < 0")
  case True
  have "decimal_in 20 (- x)" using assms by (simp add: decimal_in_def)
  with True show ?thesis using read_decimal_text [of "- x"] by (simp add: js_number_def js_number_text_def)
next
  case False
  obtain d cs where d: "js_decimal x = digit_char d # cs" "d < 10"
    using js_show_hd [of "nat \<lfloor>x\<rfloor>"] by (auto simp: js_decimal_def Let_def)
  then show ?thesis
    using False read_decimal_text [OF _ assms] digit_char_plain(2) [OF d(2)] by (simp add: js_number_def js_number_text_def)
qed

lemma js_number_show [simp]: "js_number (js_show n) = Some (of_nat n)"
proof -
  obtain d cs where d: "js_show n = digit_char d # cs" "d < 10" using js_show_hd [of n] by auto
  then show ?thesis
    using read_decimal_show(1) [OF dot_no_digit, of n] digit_char_plain(2) [OF d(2)] by (simp add: js_number_def)
qed

lemma js_number_text_not_Nil [simp]: "js_number_text x \<noteq> []"
  by (simp add: js_number_text_def js_decimal_def Let_def)

lemma decimal_int [simp]: "decimal_in n (of_int k)" "decimal_in n (numeral w)" "decimal_in n 0" "decimal_in n 1"
  by (simp_all add: decimal_in_def)

end
