(* ===== verification/Lease_Hashes.thy ===== *)
theory Lease_Hashes
  imports Placement_Registry Js_Date Js_Number
begin

text \<open>
  Leases in Redis: a hash per lease that expires unless a heartbeat renews it, and a set of the ids of the leases, from
  which a listing removes those it finds no hash for. The registries of workers and of workspace leases
  (\<open>packages/storage-redis/src/worker-registry.ts\<close>, \<open>workspace-lease-registry.ts\<close>) share this scheme and the
  derivation of the times of an entry; the locale \<open>lease_registry\<close> holds the lemmas of the scheme.
\<close>

subsection \<open>Commands\<close>

text \<open>The hash of a lease: written by one transaction, so it has a deadline whenever it is seen.\<close>

definition lease_hash_slot :: "redis_view \<Rightarrow> string \<Rightarrow> bool" where
  "lease_hash_slot v k =
     (case rv_keys v k of None \<Rightarrow> True | Some (VHash h, Some d) \<Rightarrow> h \<noteq> [] \<and> jmap_wf h | _ \<Rightarrow> False)"

lemma lease_hash_wf [intro]: "lease_hash_slot v k \<Longrightarrow> jmap_wf (hash_at v k)"
  by (auto simp: lease_hash_slot_def hash_at_def rv_live_def split: option.splits redis_value.splits)

lemma read_lease:
  assumes "lease_hash_slot v k"
  shows "redis_law (HGetAll k) v = (RMulti (flat_fields (hash_at v k)), v)"
  using assms by (auto simp: redis_law.simps lease_hash_slot_def hash_at_def on_hash_def as_hash_def rv_live_def
      split: option.splits redis_value.splits)

lemma HSet_live:
  assumes "lease_hash_slot v k" "kvs \<noteq> []"
  shows "\<exists>d. snd (redis_law (HSet k kvs) v) = rv_put k (VHash (set_fields kvs (hash_at v k))) d v \<and>
    (case d of None \<Rightarrow> True | Some t \<Rightarrow> rv_now v < t)"
  using assms
  by (auto simp: redis_law.simps lease_hash_slot_def hash_at_def on_hash_def as_hash_def rv_put_hash_def rv_live_def
      rv_deadline_def set_fields_Nil split: option.splits redis_value.splits)

lemma HDel_live:
  assumes "case d of None \<Rightarrow> True | Some t \<Rightarrow> rv_now v < t" "AList.delete f h \<noteq> []" "jmap_wf h"
  shows "snd (redis_law (HDel k f) (rv_put k (VHash h) d v)) = rv_put k (VHash (AList.delete f h)) d v"
proof -
  have live: "rv_live (rv_put k (VHash h) d v) k = Some (VHash h)" using assms(1) by (cases d) (simp_all add: live_put)
  have "AList.delete f h = h" if "map_of h f = None" using that by (simp add: map_of_eq_None_iff delete_id)
  then show ?thesis
    using assms(2)
    by (auto simp: redis_law.simps on_hash_def as_hash_def live rv_put_hash_def)
      (simp_all add: rv_put_def rv_deadline_def)
qed

lemma HDels_live:
  assumes "case d of None \<Rightarrow> True | Some t \<Rightarrow> rv_now v < t" "map_of h f = Some x" "f \<notin> set fs" "jmap_wf h"
  shows "law_all (map (HDel k) fs) (rv_put k (VHash h) d v) = rv_put k (VHash (fold AList.delete fs h)) d v"
  using assms(2-)
proof (induction fs arbitrary: h)
  case (Cons g fs)
  then have g: "map_of (AList.delete g h) f = Some x" by (simp add: jmap_get_delete)
  then have "AList.delete g h \<noteq> []" by auto
  then have "snd (redis_law (HDel k g) (rv_put k (VHash h) d v)) = rv_put k (VHash (AList.delete g h)) d v"
    by (intro HDel_live assms(1) Cons.prems(3))
  with Cons.IH [OF g] Cons.prems show ?case by simp
qed simp

lemma law_all_append [simp]: "law_all (xs @ ys) v = law_all ys (law_all xs v)"
  by (simp add: law_all_def)

text \<open>What a heartbeat writes: the fields that are given, without those that are not, until the deadline.\<close>

definition beat_commands :: "string \<Rightarrow> (string \<times> string) list \<Rightarrow> string list \<Rightarrow> nat \<Rightarrow> redis_cmd list" where
  "beat_commands k kvs absent ttl = [HSet k kvs] @ map (HDel k) absent @ [PExpire k ttl]"

lemma fold_delete_get: "map_of (fold AList.delete fs h) f = (if f \<in> set fs then None else map_of h f)"
  by (rule jmap_get_delete_all)

lemma write_lease:
  assumes slot: "lease_hash_slot v k" and f: "map_of (rev kvs) f = Some x" "f \<notin> set absent"
  shows "law_all (beat_commands k kvs absent ttl) v =
    rv_put k (VHash (fold AList.delete absent (set_fields kvs (hash_at v k)))) (Some (rv_now v + ttl)) v"
proof -
  have ne: "kvs \<noteq> []" using f by auto
  obtain d where d: "snd (redis_law (HSet k kvs) v) = rv_put k (VHash (set_fields kvs (hash_at v k))) d v"
    "case d of None \<Rightarrow> True | Some t \<Rightarrow> rv_now v < t"
    using HSet_live [OF slot ne] by blast
  let ?h = "set_fields kvs (hash_at v k)"
  have h: "map_of ?h f = Some x" "jmap_wf ?h" using f(1) lease_hash_wf [OF slot] by (simp_all add: set_fields_get)
  have w: "law_all (map (HDel k) absent) (rv_put k (VHash ?h) d v) = rv_put k (VHash (fold AList.delete absent ?h)) d v"
    by (rule HDels_live [OF d(2) h(1) f(2) h(2)])
  have live: "rv_live (rv_put k y d v) k = Some y" for y using d(2) by (cases d) (simp_all add: live_put)
  show ?thesis
    unfolding beat_commands_def law_all_append law_all_simps d(1) w by (simp add: redis_law.simps live) (simp add: rv_put_def)
qed

primrec read_hashes :: "'s redis \<Rightarrow> (string \<Rightarrow> string) \<Rightarrow> string list \<Rightarrow> ('s, (string \<times> (string, string) jmap) list) state" where
  "read_hashes exec keyOf [] = State_Monad.return []"
| "read_hashes exec keyOf (i # is) = do {
     reply \<leftarrow> redis_call exec (HGetAll (keyOf i));
     rest \<leftarrow> read_hashes exec keyOf is;
     State_Monad.return ((i, reply_fields reply) # rest)
   }"

lemma run_read_hashes:
  assumes "\<And>i. lease_hash_slot v (keyOf i)"
  shows "run_state (read_hashes redis_law keyOf is) v = (map (\<lambda>i. (i, hash_at v (keyOf i))) is, v)"
  by (induction "is") (simp_all add: redis_call_def read_lease [OF assms])

context redis_server
begin

lemma tracks_read_hashes [intro]: "tracks (read_hashes exec keyOf is) (read_hashes redis_law keyOf is)"
  by (induction "is") auto

end

text \<open>The fields of a heartbeat that are not there are deleted, so nothing is left of the fields before it.\<close>

definition absent_of :: "(string \<times> string option) list \<Rightarrow> string list \<Rightarrow> string list" where
  "absent_of fs names = filter (\<lambda>f. map_of fs f = Some None) names"

lemma stored_field:
  assumes "distinct (map fst fs)" "map_of fs f = Some x" "x = None \<Longrightarrow> f \<in> set names"
  shows "map_of (fold AList.delete (absent_of fs names) (set_fields (present fs) h)) f = x"
  using assms(2,3) by (cases x) (simp_all add: written_get [OF assms(1)] absent_of_def)

subsection \<open>The set of the ids and their hashes\<close>

definition leases_ok :: "string \<Rightarrow> (string \<Rightarrow> string) \<Rightarrow> redis_view \<Rightarrow> bool" where
  "leases_ok setKey leaseKey v \<longleftrightarrow>
     set_slot v setKey \<and> distinct (items_at v setKey) \<and> (\<forall>i. lease_hash_slot v (leaseKey i)) \<and>
     (\<forall>i. hash_at v (leaseKey i) \<noteq> [] \<longrightarrow> i \<in> set_at v setKey)"

text \<open>The leases that live, with their deadlines.\<close>

definition live_leases :: "(string \<Rightarrow> string) \<Rightarrow> redis_view \<Rightarrow> string \<Rightarrow> ((string, string) jmap \<times> nat) option" where
  "live_leases leaseKey v i =
     (case rv_keys v (leaseKey i) of
        Some (VHash h, Some d) \<Rightarrow> if rv_now v < d then Some (h, d) else None
      | _ \<Rightarrow> None)"

definition unexpired :: "nat \<Rightarrow> (string \<Rightarrow> ('a \<times> nat) option) \<Rightarrow> string \<Rightarrow> ('a \<times> nat) option" where
  "unexpired now m i = (case m i of Some (x, d) \<Rightarrow> if now < d then Some (x, d) else None | None \<Rightarrow> None)"

lemma live_leases_hash:
  assumes "lease_hash_slot v (leaseKey i)"
  shows "live_leases leaseKey v i = None \<longleftrightarrow> hash_at v (leaseKey i) = []"
    "live_leases leaseKey v i = Some (h, d) \<Longrightarrow> hash_at v (leaseKey i) = h"
  using assms by (auto simp: lease_hash_slot_def live_leases_def hash_at_def rv_live_def
      split: option.splits redis_value.splits if_splits)

lemma live_leases_wait: "live_leases leaseKey (redis_wait n v) = unexpired (rv_now v + n) (live_leases leaseKey v)"
  by (auto simp: live_leases_def unexpired_def redis_wait_def fun_eq_iff split: option.splits redis_value.splits)

text \<open>What is seen of a key depends on that key and the clock.\<close>

lemma key_frame:
  assumes "rv_now w = rv_now v" "rv_keys w k = rv_keys v k"
  shows "hash_at w k = hash_at v k" "items_at w k = items_at v k" "set_at w k = set_at v k"
    "set_slot w k = set_slot v k" "lease_hash_slot w k = lease_hash_slot v k"
  by (simp_all only: hash_at_def items_at_def set_at_def rv_live_def set_slot_def lease_hash_slot_def assms)

lemma lease_frame:
  assumes "rv_now w = rv_now v" "rv_keys w (leaseKey i) = rv_keys v (leaseKey i)"
  shows "live_leases leaseKey w i = live_leases leaseKey v i"
  by (simp only: live_leases_def assms)

lemma now_put [simp]: "rv_now (rv_put k x d v) = rv_now v"
  by (simp add: rv_put_def)

lemma keys_put [simp]:
  "rv_keys (rv_put k x d v) k' = (if k' = k then Some (x, d) else rv_keys v k')"
  "rv_keys (rv_remove ks v) k' = (if k' \<in> set ks then None else rv_keys v k')"
  by (simp_all add: rv_put_def rv_remove_def)

lemma wait_frame:
  "set_slot (redis_wait n v) k = set_slot v k"
  "lease_hash_slot (redis_wait n v) k = lease_hash_slot v k"
  "hash_at (redis_wait n v) k \<noteq> [] \<Longrightarrow> hash_at v k \<noteq> []"
  "set_slot v k \<Longrightarrow> set_at (redis_wait n v) k = set_at v k"
  "set_slot v k \<Longrightarrow> items_at (redis_wait n v) k = items_at v k"
  by (auto simp: redis_wait_def set_slot_def lease_hash_slot_def hash_at_def rv_live_def set_at_def items_at_def
      split: option.splits redis_value.splits if_splits)

lemma distinct_commands:
  assumes "set_slot v k"
  shows "distinct (items_at v k) \<Longrightarrow> distinct (items_at (snd (redis_law (SAdd k i) v)) k)"
    "distinct (items_at v k) \<Longrightarrow> distinct (items_at (snd (redis_law (SRem k i) v)) k)"
  by (simp_all add: set_commands [OF assms] distinct_removeAll)

lemma SRemAll_effect:
  assumes "set_slot v k"
  shows "snd (redis_law (SRemAll k is) v) = put_set k (filter (\<lambda>x. x \<notin> set is) (items_at v k)) v"
  using assms
  by (auto simp: redis_law.simps set_slot_def at_defs on_set_def as_set_def put_set_def rv_put_set_def rv_deadline_def
      split: option.splits redis_value.splits)

text \<open>A command on another key changes nothing here.\<close>

definition same_leases :: "string \<Rightarrow> (string \<Rightarrow> string) \<Rightarrow> redis_view \<Rightarrow> redis_view \<Rightarrow> bool" where
  "same_leases setKey leaseKey v w \<longleftrightarrow>
     rv_now w = rv_now v \<and> rv_keys w setKey = rv_keys v setKey \<and> (\<forall>i. rv_keys w (leaseKey i) = rv_keys v (leaseKey i))"

lemma same_leases_ok:
  assumes "same_leases setKey leaseKey v w"
  shows "leases_ok setKey leaseKey w = leases_ok setKey leaseKey v" "live_leases leaseKey w = live_leases leaseKey v"
    "items_at w setKey = items_at v setKey"
proof -
  have now: "rv_now w = rv_now v" and keys: "rv_keys w setKey = rv_keys v setKey" "rv_keys w (leaseKey i) = rv_keys v (leaseKey i)" for i
    using assms by (simp_all add: same_leases_def)
  note frames = key_frame [OF now keys(1)] key_frame [OF now keys(2)] lease_frame [where leaseKey = leaseKey, OF now keys(2)]
  show "live_leases leaseKey w = live_leases leaseKey v" "items_at w setKey = items_at v setKey"
    "leases_ok setKey leaseKey w = leases_ok setKey leaseKey v"
    by (simp_all add: leases_ok_def frames fun_eq_iff)
qed

locale lease_registry =
  fixes setKey :: string and leaseKey :: "string \<Rightarrow> string"
  assumes leaseKey_inj: "leaseKey i = leaseKey j \<longleftrightarrow> i = j"
    and leaseKey_not_set: "leaseKey i \<noteq> setKey"
begin

lemmas key_simps = leaseKey_inj leaseKey_not_set leaseKey_not_set [symmetric]

lemma add_id:
  assumes "leases_ok setKey leaseKey v"
  shows "leases_ok setKey leaseKey (snd (redis_law (SAdd setKey i) v))" (is ?ok)
    and "live_leases leaseKey (snd (redis_law (SAdd setKey i) v)) = live_leases leaseKey v" (is ?live)
    and "set_at (snd (redis_law (SAdd setKey i) v)) setKey = insert i (set_at v setKey)" (is ?ids)
    and "rv_now (snd (redis_law (SAdd setKey i) v)) = rv_now v" (is ?now)
    and "hash_at (snd (redis_law (SAdd setKey i) v)) (leaseKey j) = hash_at v (leaseKey j)"
proof -
  have s: "set_slot v setKey" using assms by (simp add: leases_ok_def)
  let ?w = "snd (redis_law (SAdd setKey i) v)"
  have keys: "rv_keys ?w (leaseKey j) = rv_keys v (leaseKey j)" for j
    by (auto simp: set_commands(1) [OF s] put_set_def rv_put_def key_simps)
  show now: ?now by (simp add: set_commands(1) [OF s])
  note frames = key_frame [OF now keys] lease_frame [where leaseKey = leaseKey, OF now keys]
  show "hash_at ?w (leaseKey j) = hash_at v (leaseKey j)" by (rule frames)
  show ?live by (simp add: fun_eq_iff frames)
  show ids: ?ids by (rule set_command_effects(1) [OF s])
  show ?ok
    using assms set_command_effects(3) [OF s, of i] distinct_commands(1) [OF s, of i] unfolding leases_ok_def
    by (simp add: frames ids)
qed

lemma remove_id:
  assumes "leases_ok setKey leaseKey v"
  shows "leases_ok setKey leaseKey (rv_remove [leaseKey i] v)"
    "live_leases leaseKey (rv_remove [leaseKey i] v) = (live_leases leaseKey v)(i := None)"
proof -
  let ?w = "rv_remove [leaseKey i] v"
  have gone: "rv_keys ?w (leaseKey i) = None" by simp
  have j: "rv_keys ?w (leaseKey j) = rv_keys v (leaseKey j)" if "j \<noteq> i" for j using that by (simp add: leaseKey_inj)
  note frames = key_frame [OF put_now(4) j] lease_frame [where leaseKey = leaseKey, OF put_now(4) j]
  have lost: "hash_at ?w (leaseKey i) = []" "lease_hash_slot ?w (leaseKey i)" "live_leases leaseKey ?w i = None"
    by (simp_all only: hash_at_def lease_hash_slot_def live_leases_def rv_live_def gone option.case)
  have s: "set_slot ?w setKey = set_slot v setKey" "set_at ?w setKey = set_at v setKey" "items_at ?w setKey = items_at v setKey"
    by (simp_all add: leaseKey_not_set [symmetric])
  show "live_leases leaseKey ?w = (live_leases leaseKey v)(i := None)" by (auto simp: fun_eq_iff lost frames)
  show "leases_ok setKey leaseKey ?w"
    using assms unfolding leases_ok_def s by (metis frames(1,5) lost(1,2))
qed

lemma beat:
  assumes ok: "leases_ok setKey leaseKey v" and i: "i \<in> set_at v setKey"
    and f: "map_of (rev kvs) f = Some x" "f \<notin> set absent" and ttl: "0 < ttl"
  defines "w \<equiv> law_all (beat_commands (leaseKey i) kvs absent ttl) v"
    and "h \<equiv> fold AList.delete absent (set_fields kvs (hash_at v (leaseKey i)))"
  shows "leases_ok setKey leaseKey w" "live_leases leaseKey w = (live_leases leaseKey v)(i \<mapsto> (h, rv_now v + ttl))"
    "set_at w setKey = set_at v setKey"
proof -
  have slot: "lease_hash_slot v (leaseKey i)" using ok by (simp add: leases_ok_def)
  have w: "w = rv_put (leaseKey i) (VHash h) (Some (rv_now v + ttl)) v"
    unfolding w_def h_def by (rule write_lease [OF slot f])
  have "map_of h f = Some x" using f by (simp add: h_def fold_delete_get set_fields_get)
  then have h: "h \<noteq> []" by auto
  have wf: "jmap_wf h"
    unfolding h_def by (induction absent rule: rev_induct) (auto simp: lease_hash_wf [OF slot])
  have now: "rv_now w = rv_now v" by (simp add: w)
  have k: "rv_keys w setKey = rv_keys v setKey" "rv_keys w (leaseKey i) = Some (VHash h, Some (rv_now v + ttl))"
    by (simp_all add: w key_simps)
  have j: "rv_keys w (leaseKey j) = rv_keys v (leaseKey j)" if "j \<noteq> i" for j
    using that by (simp add: w key_simps)
  note frames = key_frame [OF now j] lease_frame [where leaseKey = leaseKey, OF now j] key_frame [OF now k(1)]
  show ids: "set_at w setKey = set_at v setKey" by (rule frames)
  have new: "lease_hash_slot w (leaseKey i)" "live_leases leaseKey w i = Some (h, rv_now v + ttl)"
    using ttl h wf by (simp_all add: lease_hash_slot_def live_leases_def k now)
  show "live_leases leaseKey w = (live_leases leaseKey v)(i \<mapsto> (h, rv_now v + ttl))" by (auto simp: fun_eq_iff new frames)
  show "leases_ok setKey leaseKey w"
    using ok i unfolding leases_ok_def frames(8,10) ids by (metis frames(1,5) new(1))
qed

lemma wait_ok:
  assumes "leases_ok setKey leaseKey v"
  shows "leases_ok setKey leaseKey (redis_wait n v)" "set_at (redis_wait n v) setKey = set_at v setKey"
proof -
  have s: "set_slot v setKey" using assms by (simp add: leases_ok_def)
  show ids: "set_at (redis_wait n v) setKey = set_at v setKey" by (rule wait_frame(4) [OF s])
  show "leases_ok setKey leaseKey (redis_wait n v)"
    using assms unfolding leases_ok_def ids wait_frame(1,2) wait_frame(5) [OF s] by (metis wait_frame(3))
qed

lemma drop_ids:
  assumes ok: "leases_ok setKey leaseKey v" and dead: "\<And>i. i \<in> set is \<Longrightarrow> live_leases leaseKey v i = None"
  defines "w \<equiv> snd (redis_law (SRemAll setKey is) v)"
  shows "leases_ok setKey leaseKey w" "live_leases leaseKey w = live_leases leaseKey v" "set_at w setKey = set_at v setKey - set is"
    "rv_now w = rv_now v" "\<And>k. k \<noteq> setKey \<Longrightarrow> rv_keys w k = rv_keys v k"
proof -
  have s: "set_slot v setKey" using ok by (simp add: leases_ok_def)
  have w: "w = put_set setKey (filter (\<lambda>x. x \<notin> set is) (items_at v setKey)) v"
    unfolding w_def by (rule SRemAll_effect [OF s])
  show keys: "rv_keys w k = rv_keys v k" if "k \<noteq> setKey" for k
    using that by (simp add: w put_set_def rv_put_def rv_remove_def)
  show now: "rv_now w = rv_now v" by (simp add: w)
  have lk: "rv_keys w (leaseKey i) = rv_keys v (leaseKey i)" for i by (rule keys) (rule leaseKey_not_set)
  note frames = key_frame [OF now lk] lease_frame [where leaseKey = leaseKey, OF now lk]
  show ids: "set_at w setKey = set_at v setKey - set is" by (auto simp: w)
  show "live_leases leaseKey w = live_leases leaseKey v" by (simp add: fun_eq_iff frames)
  have "set_slot w setKey" "distinct (items_at w setKey)" using s ok by (simp_all add: w leases_ok_def)
  moreover have "hash_at v (leaseKey i) = []" if "i \<in> set is" for i
    using dead [OF that] live_leases_hash(1) [of v leaseKey i] ok by (simp add: leases_ok_def)
  ultimately show "leases_ok setKey leaseKey w"
    using ok unfolding leases_ok_def ids by (auto simp: frames)
qed

end

subsection \<open>Removing an id and listing\<close>

context lease_registry
begin

lemma forget_id:
  fixes i :: string
  assumes ok: "leases_ok setKey leaseKey v"
  defines "w \<equiv> law_all [SRem setKey i, Del [leaseKey i]] v"
  shows "leases_ok setKey leaseKey w" "live_leases leaseKey w = (live_leases leaseKey v)(i := None)" "rv_now w = rv_now v"
    "\<And>k. k \<noteq> setKey \<Longrightarrow> k \<noteq> leaseKey i \<Longrightarrow> rv_keys w k = rv_keys v k"
proof -
  have s: "set_slot v setKey" using ok by (simp add: leases_ok_def)
  define u where "u = rv_remove [leaseKey i] v"
  have u: "leases_ok setKey leaseKey u" "live_leases leaseKey u = (live_leases leaseKey v)(i := None)"
    unfolding u_def by (rule remove_id [OF ok])+
  have su: "set_slot u setKey" "items_at u setKey = items_at v setKey" using s by (simp_all add: u_def leaseKey_not_set [symmetric])
  have w: "w = snd (redis_law (SRemAll setKey [i]) u)"
  proof -
    have "w = rv_remove [leaseKey i] (if i \<in> set_at v setKey then put_set setKey (removeAll i (items_at v setKey)) v else v)"
      unfolding w_def law_all_simps set_commands(2) [OF s] by (simp add: redis_law.simps)
    also have "\<dots> = put_set setKey (removeAll i (items_at v setKey)) u"
    proof -
      have "put_set setKey (items_at v setKey) u = u"
        using s su(1) unfolding su(2) [symmetric]
        by (auto simp: set_slot_def put_set_def items_at_def rv_live_def rv_put_def rv_remove_def fun_upd_idem
            split: option.splits redis_value.splits intro!: redis_view.equality)
      moreover have "removeAll i (items_at v setKey) = items_at v setKey" if "i \<notin> set_at v setKey"
        using that by (simp flip: set_items_at)
      ultimately show ?thesis
        by (auto simp: u_def put_set_def rv_put_def rv_remove_def fun_eq_iff leaseKey_not_set
            intro!: redis_view.equality)
    qed
    also have "removeAll i (items_at v setKey) = filter (\<lambda>x. x \<notin> set [i]) (items_at v setKey)" by (simp add: removeAll_filter_not_eq eq_commute)
    also have "put_set setKey (filter (\<lambda>x. x \<notin> set [i]) (items_at v setKey)) u = snd (redis_law (SRemAll setKey [i]) u)"
      unfolding su(2) [symmetric] by (rule SRemAll_effect [OF su(1), symmetric])
    finally show ?thesis .
  qed
  have dead: "live_leases leaseKey u j = None" if "j \<in> set [i]" for j using that u(2) by simp
  note d = drop_ids [OF u(1) dead]
  show "leases_ok setKey leaseKey w" unfolding w by (rule d(1)) simp
  show "live_leases leaseKey w = (live_leases leaseKey v)(i := None)" unfolding w u(2) [symmetric] by (rule d(2)) simp
  show "rv_now w = rv_now v" using d(4) [of "[i]"] by (simp add: w u_def)
  show "rv_keys w k = rv_keys v k" if "k \<noteq> setKey" "k \<noteq> leaseKey i" for k
    using d(5) [of "[i]" k] that by (simp add: w u_def)
qed

lemma listed:
  assumes "leases_ok setKey leaseKey v"
  defines "records \<equiv> map (\<lambda>i. (i, hash_at v (leaseKey i))) (items_at v setKey)"
  shows "set (filter (\<lambda>(i, h). h \<noteq> []) records) = {(i, h). \<exists>d. live_leases leaseKey v i = Some (h, d)}"
    and "distinct (map fst (filter (\<lambda>(i, h). h \<noteq> []) records))"
    and "set (map fst (filter (\<lambda>(i, h). h = []) records)) = set_at v setKey - dom (live_leases leaseKey v)"
proof -
  have slots: "lease_hash_slot v (leaseKey i)" for i using assms(1) by (simp add: leases_ok_def)
  note live = live_leases_hash [where leaseKey = leaseKey, OF slots]
  have reg: "i \<in> set_at v setKey" if "hash_at v (leaseKey i) \<noteq> []" for i using assms(1) that by (simp add: leases_ok_def)
  have some: "(\<exists>d. live_leases leaseKey v i = Some (h, d)) \<longleftrightarrow> h \<noteq> [] \<and> hash_at v (leaseKey i) = h" for i h
    using live(1) [of i] live(2) [of i] by (cases "live_leases leaseKey v i") auto
  show "set (filter (\<lambda>(i, h). h \<noteq> []) records) = {(i, h). \<exists>d. live_leases leaseKey v i = Some (h, d)}"
    unfolding some using reg by (auto simp: records_def image_iff)
  have "map fst records = items_at v setKey" by (simp add: records_def comp_def)
  then have "distinct (map fst records)" using assms(1) by (simp add: leases_ok_def)
  then show "distinct (map fst (filter (\<lambda>(i, h). h \<noteq> []) records))" by (rule distinct_map_filter)
  show "set (map fst (filter (\<lambda>(i, h). h = []) records)) = set_at v setKey - dom (live_leases leaseKey v)"
  proof -
    have "dom (live_leases leaseKey v) = {i. hash_at v (leaseKey i) \<noteq> []}" unfolding dom_def live(1) by (rule refl)
    then show ?thesis by (auto simp: records_def image_iff)
  qed
qed

end

lemma leases_ok_empty: "leases_ok setKey leaseKey (redis_empty now)" "live_leases leaseKey (redis_empty now) = (\<lambda>_. None)"
  by (simp_all add: leases_ok_def redis_empty_def set_slot_def items_at_def lease_hash_slot_def hash_at_def rv_live_def live_leases_def fun_eq_iff)

context redis_clock
begin

lemma tracks_wait [intro]: "tracks (State (\<lambda>s. ((), wait n s))) (State (\<lambda>v. ((), redis_wait n v)))"
  by (simp add: tracks_def wait_view redis_wait_def)

end

subsection \<open>The times of an entry\<close>

record lease_times =
  lt_lastSeenAt :: string
  lt_leaseTtlMs :: int
  lt_expiresAt :: string
  lt_lastSeenAgeMs :: int
  lt_late :: bool

text \<open>\<open>Number.isFinite(ms) ? ms : 0\<close> of a date.\<close>

definition date_or_epoch :: "string \<Rightarrow> int" where
  "date_or_epoch s = or_else (parseDate s) 0"

definition lease_expiry :: "int \<Rightarrow> int \<Rightarrow> string option \<Rightarrow> int" where
  "lease_expiry lastSeenAtMs leaseTtlMs expiresAt =
     (case Option.bind (keep_truthy expiresAt) parseDate of
        Some t \<Rightarrow> if t \<ge> lastSeenAtMs then t else lastSeenAtMs + leaseTtlMs
      | None \<Rightarrow> lastSeenAtMs + leaseTtlMs)"

definition derive_times :: "int \<Rightarrow> string \<Rightarrow> rat option \<Rightarrow> string option \<Rightarrow> int \<Rightarrow> lease_times" where
  "derive_times defaultTtlMs lastSeenAt leaseTtl expiresAt nowMs =
     (let lastSeenAtMs = date_or_epoch lastSeenAt;
          leaseTtlMs = (case leaseTtl of Some t \<Rightarrow> if t > 0 then \<lfloor>t\<rfloor> else defaultTtlMs | None \<Rightarrow> defaultTtlMs);
          expiresAtMs = lease_expiry lastSeenAtMs leaseTtlMs expiresAt;
          lateThresholdMs = max 1000 (leaseTtlMs div 3)
      in \<lparr>lt_lastSeenAt = toISOString lastSeenAtMs,
          lt_leaseTtlMs = leaseTtlMs,
          lt_expiresAt = toISOString expiresAtMs,
          lt_lastSeenAgeMs = max 0 (nowMs - lastSeenAtMs),
          lt_late = (expiresAtMs - nowMs \<le> lateThresholdMs)\<rparr>)"

text \<open>What a heartbeat writes for the times.\<close>

definition beat_ttl :: "rat \<Rightarrow> int" where
  "beat_ttl ttlMs = max 1000 \<lfloor>ttlMs\<rfloor>"

definition beat_expiry :: "string \<Rightarrow> rat \<Rightarrow> string" where
  "beat_expiry lastSeenAt ttlMs = toISOString (date_or_epoch lastSeenAt + beat_ttl ttlMs)"

text \<open>Read back, they are the time of the heartbeat and its time to live.\<close>

lemma times_of_beat:
  assumes "iso_time t" "iso_time (t + beat_ttl ttlMs)"
  shows "derive_times defaultTtlMs (toISOString t) (Some (of_int (beat_ttl ttlMs)))
      (Some (beat_expiry (toISOString t) ttlMs)) nowMs =
    \<lparr>lt_lastSeenAt = toISOString t, lt_leaseTtlMs = beat_ttl ttlMs, lt_expiresAt = toISOString (t + beat_ttl ttlMs),
     lt_lastSeenAgeMs = max 0 (nowMs - t), lt_late = (t + beat_ttl ttlMs - nowMs \<le> max 1000 (beat_ttl ttlMs div 3))\<rparr>"
proof -
  have ttl: "beat_ttl ttlMs > 0" by (simp add: beat_ttl_def)
  have ne: "toISOString s \<noteq> []" for s
    by (simp add: toISOString_def Let_def split: prod.split)
  have t: "date_or_epoch (toISOString t) = t" using assms by (simp add: date_or_epoch_def)
  have e: "lease_expiry t (beat_ttl ttlMs) (Some (beat_expiry (toISOString t) ttlMs)) = t + beat_ttl ttlMs"
    using assms ttl by (simp add: lease_expiry_def beat_expiry_def t keep_truthy_def ne truthy_def)
  show ?thesis using ttl by (simp add: derive_times_def t e Let_def)
qed

text \<open>A lease is reported as late for at least a second before it expires.\<close>

lemma late_before_expiry:
  assumes "iso_time t" "iso_time (t + beat_ttl ttlMs)" "t + beat_ttl ttlMs - 1000 \<le> nowMs"
  shows "lt_late (derive_times defaultTtlMs (toISOString t) (Some (of_int (beat_ttl ttlMs)))
      (Some (beat_expiry (toISOString t) ttlMs)) nowMs)"
  using assms(3) by (simp add: times_of_beat [OF assms(1,2)])

end
