(* ===== verification/Worker_Registry.thy ===== *)
theory Worker_Registry
  imports Lease_Hashes
begin

text \<open>
  The registry of workers (\<open>packages/storage-redis/src/worker-registry.ts\<close>, and its copy in \<open>storage-redis-control\<close>):
  workers renew a lease with each heartbeat, and the controller lists those whose lease is alive. A record of what a
  heartbeat says and of what a listing returns, the operations, and their refinement of a map from workers to leases.
\<close>

subsection \<open>Records\<close>

record worker_metrics =
  wm_resourceCpuLoadRatio :: "rat option"
  wm_resourceMemoryUsedRatio :: "rat option"
  wm_resourceDiskUsedRatio :: "rat option"
  wm_resourceLoadAverage1m :: "rat option"
  wm_resourceMemoryUsedBytes :: "rat option"
  wm_resourceMemoryTotalBytes :: "rat option"
  wm_resourceDiskUsedBytes :: "rat option"
  wm_resourceDiskTotalBytes :: "rat option"
  wm_processMemoryRssBytes :: "rat option"

record worker_lease_input =
  wl_workerId :: string
  wl_runtimeInstanceId :: "string option"
  wl_ownerBaseUrl :: "string option"
  wl_processKind :: process_kind
  wl_state :: worker_state
  wl_lastSeenAt :: string
  wl_metrics :: worker_metrics
  wl_currentSessionId :: "string option"
  wl_currentRunId :: "string option"
  wl_currentWorkspaceId :: "string option"

text \<open>The lease as it is stored, and the entry that is listed: the entry the controller reads and what it leaves aside.\<close>

record stored_worker = worker_lease_input +
  sw_leaseTtlMs :: "rat option"
  sw_expiresAt :: "string option"

record worker_registry_entry = worker_entry +
  wre_metrics :: worker_metrics
  wre_leaseTtlMs :: int
  wre_expiresAt :: string
  wre_lastSeenAgeMs :: int

definition DEFAULT_WORKER_LEASE_TTL_MS :: int where "DEFAULT_WORKER_LEASE_TTL_MS = 5000"

definition optionalFiniteNumber :: "string option \<Rightarrow> rat option" where
  "optionalFiniteNumber x = Option.bind (keep_truthy x) js_number"

definition deriveRedisWorkerRegistryEntry :: "stored_worker \<Rightarrow> int \<Rightarrow> worker_registry_entry" where
  "deriveRedisWorkerRegistryEntry entry nowMs =
     (let times = derive_times DEFAULT_WORKER_LEASE_TTL_MS (wl_lastSeenAt entry) (sw_leaseTtlMs entry) (sw_expiresAt entry) nowMs
      in \<lparr>we_workerId = wl_workerId entry,
          we_runtimeInstanceId = keep_truthy (wl_runtimeInstanceId entry),
          we_ownerBaseUrl = keep_truthy (wl_ownerBaseUrl entry),
          we_processKind = wl_processKind entry,
          we_state = wl_state entry,
          we_lastSeenAt = lt_lastSeenAt times,
          we_resourceCpuLoadRatio = wm_resourceCpuLoadRatio (wl_metrics entry),
          we_resourceMemoryUsedRatio = wm_resourceMemoryUsedRatio (wl_metrics entry),
          we_resourceDiskUsedRatio = wm_resourceDiskUsedRatio (wl_metrics entry),
          we_currentSessionId = keep_truthy (wl_currentSessionId entry),
          we_currentRunId = keep_truthy (wl_currentRunId entry),
          we_currentWorkspaceId = keep_truthy (wl_currentWorkspaceId entry),
          we_health = (if lt_late times then HLate else HHealthy),
          wre_metrics = wl_metrics entry,
          wre_leaseTtlMs = lt_leaseTtlMs times,
          wre_expiresAt = lt_expiresAt times,
          wre_lastSeenAgeMs = lt_lastSeenAgeMs times\<rparr>)"

definition calculateWorkerLeaseTtlMs :: "int \<Rightarrow> int \<Rightarrow> int" where
  "calculateWorkerLeaseTtlMs lockTtlMs pollTimeoutMs = max DEFAULT_WORKER_LEASE_TTL_MS (max (lockTtlMs * 2) (pollTimeoutMs * 4))"

subsection \<open>Fields\<close>

definition process_kind_name :: "process_kind \<Rightarrow> string" where
  "process_kind_name k = (case k of PEmbedded \<Rightarrow> ''embedded'' | PStandalone \<Rightarrow> ''standalone'')"

definition worker_state_name :: "worker_state \<Rightarrow> string" where
  "worker_state_name s =
     (case s of WStarting \<Rightarrow> ''starting'' | WIdle \<Rightarrow> ''idle'' | WBusy \<Rightarrow> ''busy'' | WStopping \<Rightarrow> ''stopping'')"

definition read_process_kind :: "string option \<Rightarrow> process_kind" where
  "read_process_kind x = (if x = Some ''standalone'' then PStandalone else PEmbedded)"

definition read_worker_state :: "string option \<Rightarrow> worker_state" where
  "read_worker_state x =
     (if x = Some ''starting'' then WStarting else if x = Some ''busy'' then WBusy
      else if x = Some ''stopping'' then WStopping else WIdle)"

definition metric_fields :: "worker_metrics \<Rightarrow> (string \<times> string option) list" where
  "metric_fields m =
     [(''resourceCpuLoadRatio'', map_option js_number_text (wm_resourceCpuLoadRatio m)),
      (''resourceMemoryUsedRatio'', map_option js_number_text (wm_resourceMemoryUsedRatio m)),
      (''resourceDiskUsedRatio'', map_option js_number_text (wm_resourceDiskUsedRatio m)),
      (''resourceLoadAverage1m'', map_option js_number_text (wm_resourceLoadAverage1m m)),
      (''resourceMemoryUsedBytes'', map_option js_number_text (wm_resourceMemoryUsedBytes m)),
      (''resourceMemoryTotalBytes'', map_option js_number_text (wm_resourceMemoryTotalBytes m)),
      (''resourceDiskUsedBytes'', map_option js_number_text (wm_resourceDiskUsedBytes m)),
      (''resourceDiskTotalBytes'', map_option js_number_text (wm_resourceDiskTotalBytes m)),
      (''processMemoryRssBytes'', map_option js_number_text (wm_processMemoryRssBytes m))]"

definition worker_fields :: "worker_lease_input \<Rightarrow> rat \<Rightarrow> (string \<times> string option) list" where
  "worker_fields entry ttlMs =
     [(''workerId'', Some (wl_workerId entry)),
      (''runtimeInstanceId'', keep_truthy (wl_runtimeInstanceId entry)),
      (''ownerBaseUrl'', keep_truthy (wl_ownerBaseUrl entry)),
      (''processKind'', Some (process_kind_name (wl_processKind entry))),
      (''state'', Some (worker_state_name (wl_state entry))),
      (''lastSeenAt'', Some (wl_lastSeenAt entry)),
      (''leaseTtlMs'', Some (js_show (nat (beat_ttl ttlMs)))),
      (''expiresAt'', Some (beat_expiry (wl_lastSeenAt entry) ttlMs))] @
     metric_fields (wl_metrics entry) @
     [(''currentSessionId'', keep_truthy (wl_currentSessionId entry)),
      (''currentRunId'', keep_truthy (wl_currentRunId entry)),
      (''currentWorkspaceId'', keep_truthy (wl_currentWorkspaceId entry))]"

definition optional_worker_fields :: "string list" where
  "optional_worker_fields =
     [''currentSessionId'', ''currentRunId'', ''currentWorkspaceId'', ''runtimeInstanceId'', ''ownerBaseUrl'',
      ''resourceCpuLoadRatio'', ''resourceMemoryUsedRatio'', ''resourceDiskUsedRatio'', ''resourceLoadAverage1m'',
      ''resourceMemoryUsedBytes'', ''resourceMemoryTotalBytes'', ''resourceDiskUsedBytes'', ''resourceDiskTotalBytes'',
      ''processMemoryRssBytes'']"

definition decode_metrics :: "(string, string) jmap \<Rightarrow> worker_metrics" where
  "decode_metrics h =
     \<lparr>wm_resourceCpuLoadRatio = optionalFiniteNumber (map_of h ''resourceCpuLoadRatio''),
      wm_resourceMemoryUsedRatio = optionalFiniteNumber (map_of h ''resourceMemoryUsedRatio''),
      wm_resourceDiskUsedRatio = optionalFiniteNumber (map_of h ''resourceDiskUsedRatio''),
      wm_resourceLoadAverage1m = optionalFiniteNumber (map_of h ''resourceLoadAverage1m''),
      wm_resourceMemoryUsedBytes = optionalFiniteNumber (map_of h ''resourceMemoryUsedBytes''),
      wm_resourceMemoryTotalBytes = optionalFiniteNumber (map_of h ''resourceMemoryTotalBytes''),
      wm_resourceDiskUsedBytes = optionalFiniteNumber (map_of h ''resourceDiskUsedBytes''),
      wm_resourceDiskTotalBytes = optionalFiniteNumber (map_of h ''resourceDiskTotalBytes''),
      wm_processMemoryRssBytes = optionalFiniteNumber (map_of h ''processMemoryRssBytes'')\<rparr>"

text \<open>What a listing makes of a hash.\<close>

definition decode_worker :: "string \<Rightarrow> (string, string) jmap \<Rightarrow> stored_worker" where
  "decode_worker workerId h =
     \<lparr>wl_workerId = or_else (map_of h ''workerId'') workerId,
      wl_runtimeInstanceId = keep_truthy (map_of h ''runtimeInstanceId''),
      wl_ownerBaseUrl = keep_truthy (map_of h ''ownerBaseUrl''),
      wl_processKind = read_process_kind (map_of h ''processKind''),
      wl_state = read_worker_state (map_of h ''state''),
      wl_lastSeenAt = or_else (map_of h ''lastSeenAt'') (toISOString 0),
      wl_metrics = decode_metrics h,
      wl_currentSessionId = keep_truthy (map_of h ''currentSessionId''),
      wl_currentRunId = keep_truthy (map_of h ''currentRunId''),
      wl_currentWorkspaceId = keep_truthy (map_of h ''currentWorkspaceId''),
      sw_leaseTtlMs = Option.bind (keep_truthy (map_of h ''leaseTtlMs'')) js_number,
      sw_expiresAt = map_of h ''expiresAt''\<rparr>"

subsection \<open>Operations\<close>

definition workerRegistrySetKey :: "string \<Rightarrow> string" where
  "workerRegistrySetKey keyPrefix = keyPrefix @ '':workers:registry''"

definition workerKey :: "string \<Rightarrow> string \<Rightarrow> string" where
  "workerKey keyPrefix workerId = keyPrefix @ '':worker:'' @ workerId"

definition wr_heartbeat :: "'s redis \<Rightarrow> string \<Rightarrow> worker_lease_input \<Rightarrow> rat \<Rightarrow> ('s, unit) state" where
  "wr_heartbeat exec keyPrefix entry ttlMs =
     exec_all exec (SAdd (workerRegistrySetKey keyPrefix) (wl_workerId entry) #
       beat_commands (workerKey keyPrefix (wl_workerId entry)) (present (worker_fields entry ttlMs))
         (absent_of (worker_fields entry ttlMs) optional_worker_fields) (nat (beat_ttl ttlMs)))"

definition wr_remove :: "'s redis \<Rightarrow> string \<Rightarrow> string \<Rightarrow> ('s, unit) state" where
  "wr_remove exec keyPrefix workerId =
     exec_all exec [SRem (workerRegistrySetKey keyPrefix) workerId, Del [workerKey keyPrefix workerId]]"

text \<open>A listing reads, and then removes the ids of the workers it found nothing of.\<close>

definition wr_read :: "'s redis \<Rightarrow> string \<Rightarrow> ('s, (string \<times> (string, string) jmap) list) state" where
  "wr_read exec keyPrefix = do {
     reply \<leftarrow> redis_call exec (SMembers (workerRegistrySetKey keyPrefix));
     read_hashes exec (workerKey keyPrefix) (bulk_strings reply)
   }"

definition wr_clean :: "'s redis \<Rightarrow> string \<Rightarrow> (string \<times> (string, string) jmap) list \<Rightarrow> ('s, unit) state" where
  "wr_clean exec keyPrefix records = (
     let missingWorkerIds = map fst (filter (\<lambda>(workerId, h). h = []) records)
     in if missingWorkerIds \<noteq> []
        then do { _ \<leftarrow> redis_call exec (SRemAll (workerRegistrySetKey keyPrefix) missingWorkerIds); State_Monad.return () }
        else State_Monad.return ())"

definition active_workers :: "int \<Rightarrow> (string \<times> (string, string) jmap) list \<Rightarrow> worker_registry_entry list" where
  "active_workers nowMs records =
     js_sort (\<lambda>left right. localeCompare (we_workerId left) (we_workerId right))
       (map (\<lambda>(workerId, h). deriveRedisWorkerRegistryEntry (decode_worker workerId h) nowMs)
         (filter (\<lambda>(workerId, h). h \<noteq> []) records))"

definition wr_listActive :: "'s redis \<Rightarrow> string \<Rightarrow> int \<Rightarrow> ('s, worker_registry_entry list) state" where
  "wr_listActive exec keyPrefix nowMs = do {
     records \<leftarrow> wr_read exec keyPrefix;
     _ \<leftarrow> wr_clean exec keyPrefix records;
     State_Monad.return (active_workers nowMs records)
   }"

interpretation worker_leases: lease_registry "workerRegistrySetKey keyPrefix" "workerKey keyPrefix"
  by unfold_locales (simp_all add: workerRegistrySetKey_def workerKey_def)

subsection \<open>Reading back a heartbeat\<close>

lemma distinct_worker_fields: "distinct (map fst (worker_fields e ttl))"
  by (simp add: worker_fields_def metric_fields_def)

text \<open>The numbers of a heartbeat have finite numerals.\<close>

definition metrics_ok :: "worker_metrics \<Rightarrow> bool" where
  "metrics_ok m \<longleftrightarrow>
     list_all (\<lambda>x. case x of None \<Rightarrow> True | Some q \<Rightarrow> decimal_in 20 q)
       [wm_resourceCpuLoadRatio m, wm_resourceMemoryUsedRatio m, wm_resourceDiskUsedRatio m, wm_resourceLoadAverage1m m,
        wm_resourceMemoryUsedBytes m, wm_resourceMemoryTotalBytes m, wm_resourceDiskUsedBytes m, wm_resourceDiskTotalBytes m,
        wm_processMemoryRssBytes m]"

lemma read_metric:
  "(case x of None \<Rightarrow> True | Some q \<Rightarrow> decimal_in 20 q) \<Longrightarrow> optionalFiniteNumber (map_option js_number_text x) = x"
  by (cases x) (simp_all add: optionalFiniteNumber_def keep_truthy_def)

lemma read_names [simp]:
  "read_process_kind (Some (process_kind_name k)) = k" "read_worker_state (Some (worker_state_name s)) = s"
  by (cases k; simp add: read_process_kind_def process_kind_name_def)
    (cases s; simp add: read_worker_state_def worker_state_name_def)

text \<open>The lease a heartbeat leaves.\<close>

definition beaten :: "worker_lease_input \<Rightarrow> rat \<Rightarrow> stored_worker" where
  "beaten e ttlMs =
     worker_lease_input.extend
       (e\<lparr>wl_runtimeInstanceId := keep_truthy (wl_runtimeInstanceId e), wl_ownerBaseUrl := keep_truthy (wl_ownerBaseUrl e),
          wl_currentSessionId := keep_truthy (wl_currentSessionId e), wl_currentRunId := keep_truthy (wl_currentRunId e),
          wl_currentWorkspaceId := keep_truthy (wl_currentWorkspaceId e)\<rparr>)
       \<lparr>sw_leaseTtlMs = Some (of_int (beat_ttl ttlMs)), sw_expiresAt = Some (beat_expiry (wl_lastSeenAt e) ttlMs)\<rparr>"

lemma decode_beat:
  assumes "metrics_ok (wl_metrics e)"
  shows "decode_worker i (fold AList.delete (absent_of (worker_fields e ttl) optional_worker_fields)
      (set_fields (present (worker_fields e ttl)) h)) = beaten e ttl"
proof -
  note get = stored_field [OF distinct_worker_fields, where names = optional_worker_fields]
  have m: "map_of (fold AList.delete (absent_of (worker_fields e ttl) optional_worker_fields)
      (set_fields (present (worker_fields e ttl)) h)) f = x" if "map_of (worker_fields e ttl) f = Some x" "x = None \<longrightarrow> f \<in> set optional_worker_fields" for f x
    using get [OF that(1)] that(2) by blast
  let ?h = "fold AList.delete (absent_of (worker_fields e ttl) optional_worker_fields) (set_fields (present (worker_fields e ttl)) h)"
  note fs = worker_fields_def metric_fields_def optional_worker_fields_def
  have texts: "map_of ?h ''workerId'' = Some (wl_workerId e)"
    "map_of ?h ''runtimeInstanceId'' = keep_truthy (wl_runtimeInstanceId e)"
    "map_of ?h ''ownerBaseUrl'' = keep_truthy (wl_ownerBaseUrl e)"
    "map_of ?h ''processKind'' = Some (process_kind_name (wl_processKind e))"
    "map_of ?h ''state'' = Some (worker_state_name (wl_state e))"
    "map_of ?h ''lastSeenAt'' = Some (wl_lastSeenAt e)"
    "map_of ?h ''leaseTtlMs'' = Some (js_show (nat (beat_ttl ttl)))"
    "map_of ?h ''expiresAt'' = Some (beat_expiry (wl_lastSeenAt e) ttl)"
    "map_of ?h ''currentSessionId'' = keep_truthy (wl_currentSessionId e)"
    "map_of ?h ''currentRunId'' = keep_truthy (wl_currentRunId e)"
    "map_of ?h ''currentWorkspaceId'' = keep_truthy (wl_currentWorkspaceId e)"
    by (rule m; simp add: fs)+
  have numbers: "map_of ?h ''resourceCpuLoadRatio'' = map_option js_number_text (wm_resourceCpuLoadRatio (wl_metrics e))"
    "map_of ?h ''resourceMemoryUsedRatio'' = map_option js_number_text (wm_resourceMemoryUsedRatio (wl_metrics e))"
    "map_of ?h ''resourceDiskUsedRatio'' = map_option js_number_text (wm_resourceDiskUsedRatio (wl_metrics e))"
    "map_of ?h ''resourceLoadAverage1m'' = map_option js_number_text (wm_resourceLoadAverage1m (wl_metrics e))"
    "map_of ?h ''resourceMemoryUsedBytes'' = map_option js_number_text (wm_resourceMemoryUsedBytes (wl_metrics e))"
    "map_of ?h ''resourceMemoryTotalBytes'' = map_option js_number_text (wm_resourceMemoryTotalBytes (wl_metrics e))"
    "map_of ?h ''resourceDiskUsedBytes'' = map_option js_number_text (wm_resourceDiskUsedBytes (wl_metrics e))"
    "map_of ?h ''resourceDiskTotalBytes'' = map_option js_number_text (wm_resourceDiskTotalBytes (wl_metrics e))"
    "map_of ?h ''processMemoryRssBytes'' = map_option js_number_text (wm_processMemoryRssBytes (wl_metrics e))"
    by (rule m; simp add: fs)+
  have "decode_metrics ?h = wl_metrics e"
    using assms unfolding decode_metrics_def numbers by (simp add: metrics_ok_def read_metric)
  moreover have "Option.bind (keep_truthy (Some (js_show (nat (beat_ttl ttl))))) js_number = Some (of_int (beat_ttl ttl))"
    by (simp add: keep_truthy_def beat_ttl_def)
  ultimately show ?thesis
    unfolding decode_worker_def texts by (simp add: beaten_def worker_lease_input.defs)
qed

subsection \<open>The registry as a map from workers to leases\<close>

type_synonym worker_leases = "string \<Rightarrow> (stored_worker \<times> nat) option"

definition registered_workers :: "string \<Rightarrow> redis_view \<Rightarrow> worker_leases" where
  "registered_workers keyPrefix v i =
     map_option (\<lambda>(h, d). (decode_worker i h, d)) (live_leases (workerKey keyPrefix) v i)"

text \<open>A hash belongs to the worker its key names.\<close>

definition own_hashes :: "string \<Rightarrow> redis_view \<Rightarrow> bool" where
  "own_hashes keyPrefix v \<longleftrightarrow>
     (\<forall>i h d. live_leases (workerKey keyPrefix) v i = Some (h, d) \<longrightarrow> or_else (map_of h ''workerId'') i = i)"

definition workers_ok :: "string \<Rightarrow> redis_view \<Rightarrow> bool" where
  "workers_ok keyPrefix v \<longleftrightarrow> leases_ok (workerRegistrySetKey keyPrefix) (workerKey keyPrefix) v \<and> own_hashes keyPrefix v"

datatype worker_op =
    WHeartbeat worker_lease_input rat
  | WRemove string
  | WList int
  | WWait nat

fun worker_op_ok :: "worker_op \<Rightarrow> bool" where
  "worker_op_ok (WHeartbeat e ttlMs) = metrics_ok (wl_metrics e)"
| "worker_op_ok _ = True"

fun run_worker_op :: "'s redis \<Rightarrow> (nat \<Rightarrow> 's \<Rightarrow> 's) \<Rightarrow> string \<Rightarrow> worker_op \<Rightarrow> ('s, unit) state" where
  "run_worker_op exec wait keyPrefix (WHeartbeat e ttlMs) = wr_heartbeat exec keyPrefix e ttlMs"
| "run_worker_op exec wait keyPrefix (WRemove i) = wr_remove exec keyPrefix i"
| "run_worker_op exec wait keyPrefix (WList nowMs) =
     do { _ \<leftarrow> wr_listActive exec keyPrefix nowMs; State_Monad.return () }"
| "run_worker_op exec wait keyPrefix (WWait n) = State (\<lambda>s. ((), wait n s))"

primrec run_worker_ops :: "'s redis \<Rightarrow> (nat \<Rightarrow> 's \<Rightarrow> 's) \<Rightarrow> string \<Rightarrow> worker_op list \<Rightarrow> ('s, unit) state" where
  "run_worker_ops exec wait keyPrefix [] = State_Monad.return ()"
| "run_worker_ops exec wait keyPrefix (op # ops) =
     do { _ \<leftarrow> run_worker_op exec wait keyPrefix op; run_worker_ops exec wait keyPrefix ops }"

text \<open>The same on the clock of the server and the map.\<close>

fun apply_worker_op :: "worker_op \<Rightarrow> nat \<times> worker_leases \<Rightarrow> nat \<times> worker_leases" where
  "apply_worker_op (WHeartbeat e ttlMs) (now, m) = (now, m(wl_workerId e \<mapsto> (beaten e ttlMs, now + nat (beat_ttl ttlMs))))"
| "apply_worker_op (WRemove i) (now, m) = (now, m(i := None))"
| "apply_worker_op (WList nowMs) (now, m) = (now, m)"
| "apply_worker_op (WWait n) (now, m) = (now + n, unexpired (now + n) m)"

definition lists_workers :: "worker_leases \<Rightarrow> int \<Rightarrow> worker_registry_entry list \<Rightarrow> bool" where
  "lists_workers m nowMs es \<longleftrightarrow>
     set es = {deriveRedisWorkerRegistryEntry e nowMs |e. \<exists>i d. m i = Some (e, d)} \<and>
     sorted_wrt (\<lambda>a b. localeCompare (we_workerId a) (we_workerId b) \<le> 0) es \<and> distinct (map we_workerId es)"

lemma run_heartbeat:
  fixes ttlMs :: rat
  assumes ok: "workers_ok keyPrefix v" and m: "metrics_ok (wl_metrics e)"
  defines "w \<equiv> snd (run_state (wr_heartbeat redis_law keyPrefix e ttlMs) v)"
  shows "workers_ok keyPrefix w" "rv_now w = rv_now v"
    "registered_workers keyPrefix w = (registered_workers keyPrefix v)(wl_workerId e \<mapsto> (beaten e ttlMs, rv_now v + nat (beat_ttl ttlMs)))"
proof -
  let ?i = "wl_workerId e" and ?reg = "workerRegistrySetKey keyPrefix" and ?key = "workerKey keyPrefix"
  let ?kvs = "present (worker_fields e ttlMs)" and ?absent = "absent_of (worker_fields e ttlMs) optional_worker_fields"
  let ?u = "snd (redis_law (SAdd ?reg ?i) v)"
  have lok: "leases_ok ?reg ?key v" and own: "own_hashes keyPrefix v" using ok by (auto simp: workers_ok_def)
  note add = worker_leases.add_id [OF lok, of ?i]
  have w: "w = law_all (beat_commands (?key ?i) ?kvs ?absent (nat (beat_ttl ttlMs))) ?u"
    unfolding w_def wr_heartbeat_def run_exec_all by simp
  have f: "map_of (rev ?kvs) ''workerId'' = Some ?i" "''workerId'' \<notin> set ?absent"
    by (simp_all add: map_of_rev_distinct [OF distinct_present [OF distinct_worker_fields]] present_get [OF distinct_worker_fields] absent_of_def)
      (simp_all add: worker_fields_def)
  have ttl: "0 < nat (beat_ttl ttlMs)" by (simp add: beat_ttl_def)
  let ?h = "fold AList.delete ?absent (set_fields ?kvs (hash_at ?u (?key ?i)))"
  have b: "leases_ok ?reg ?key w" "live_leases ?key w = (live_leases ?key v)(?i \<mapsto> (?h, rv_now v + nat (beat_ttl ttlMs)))"
    using worker_leases.beat [OF add(1) _ f ttl] add(2-4) by (simp_all add: w)
  have h: "map_of ?h ''workerId'' = Some ?i" using f by (simp add: fold_delete_get set_fields_get)
  show "workers_ok keyPrefix w" using b(1) own by (auto simp: workers_ok_def own_hashes_def b(2) h or_else_def)
  show "registered_workers keyPrefix w = (registered_workers keyPrefix v)(?i \<mapsto> (beaten e ttlMs, rv_now v + nat (beat_ttl ttlMs)))"
    by (auto simp: fun_eq_iff registered_workers_def b(2) decode_beat [OF m])
  have "rv_now w = rv_now ?u"
    using write_lease [of ?u "?key ?i" ?kvs "''workerId''" ?i ?absent "nat (beat_ttl ttlMs)"] add(1) f by (simp add: w leases_ok_def)
  then show "rv_now w = rv_now v" by (simp add: add(4))
qed

lemma run_worker_remove:
  fixes i :: string
  assumes ok: "workers_ok keyPrefix v"
  defines "w \<equiv> snd (run_state (wr_remove redis_law keyPrefix i) v)"
  shows "workers_ok keyPrefix w" "rv_now w = rv_now v" "registered_workers keyPrefix w = (registered_workers keyPrefix v)(i := None)"
proof -
  have lok: "leases_ok (workerRegistrySetKey keyPrefix) (workerKey keyPrefix) v" and own: "own_hashes keyPrefix v"
    using ok by (auto simp: workers_ok_def)
  have w: "w = law_all [SRem (workerRegistrySetKey keyPrefix) i, Del [workerKey keyPrefix i]] v"
    unfolding w_def wr_remove_def run_exec_all by simp
  note f = worker_leases.forget_id [OF lok, of i, folded w]
  show "workers_ok keyPrefix w" using f(1) own by (auto simp: workers_ok_def own_hashes_def f(2))
  show "rv_now w = rv_now v" by (rule f(3))
  show "registered_workers keyPrefix w = (registered_workers keyPrefix v)(i := None)"
    by (simp add: fun_eq_iff registered_workers_def f(2))
qed

lemma run_worker_wait:
  assumes ok: "workers_ok keyPrefix v"
  shows "workers_ok keyPrefix (redis_wait n v)"
    "registered_workers keyPrefix (redis_wait n v) = unexpired (rv_now v + n) (registered_workers keyPrefix v)"
proof -
  have lok: "leases_ok (workerRegistrySetKey keyPrefix) (workerKey keyPrefix) v" and own: "own_hashes keyPrefix v"
    using ok by (auto simp: workers_ok_def)
  show "workers_ok keyPrefix (redis_wait n v)"
    using worker_leases.wait_ok(1) [OF lok] own
    by (auto simp: workers_ok_def own_hashes_def live_leases_wait unexpired_def split: option.splits if_splits)
  show "registered_workers keyPrefix (redis_wait n v) = unexpired (rv_now v + n) (registered_workers keyPrefix v)"
    by (auto simp: fun_eq_iff registered_workers_def live_leases_wait unexpired_def split: option.splits)
qed

lemma run_wr_read:
  assumes "workers_ok keyPrefix v"
  shows "run_state (wr_read redis_law keyPrefix) v =
    (map (\<lambda>i. (i, hash_at v (workerKey keyPrefix i))) (items_at v (workerRegistrySetKey keyPrefix)), v)"
proof -
  have s: "set_slot v (workerRegistrySetKey keyPrefix)" and slots: "lease_hash_slot v (workerKey keyPrefix i)" for i
    using assms by (auto simp: workers_ok_def leases_ok_def)
  show ?thesis
    by (simp add: wr_read_def redis_call_def set_commands(3) [OF s] bulk_strings_bulks run_read_hashes [OF slots])
qed

lemma run_worker_list:
  fixes nowMs :: int
  assumes ok: "workers_ok keyPrefix v"
  defines "w \<equiv> snd (run_state (wr_listActive redis_law keyPrefix nowMs) v)"
  shows "workers_ok keyPrefix w" "rv_now w = rv_now v" "registered_workers keyPrefix w = registered_workers keyPrefix v"
    "lists_workers (registered_workers keyPrefix v) nowMs (fst (run_state (wr_listActive redis_law keyPrefix nowMs) v))"
    "set_at w (workerRegistrySetKey keyPrefix) = dom (registered_workers keyPrefix v)"
proof -
  let ?reg = "workerRegistrySetKey keyPrefix" and ?key = "workerKey keyPrefix"
  have lok: "leases_ok ?reg ?key v" and own: "own_hashes keyPrefix v" using ok by (auto simp: workers_ok_def)
  define records where "records = map (\<lambda>i. (i, hash_at v (?key i))) (items_at v ?reg)"
  define missing where "missing = map fst (filter (\<lambda>(i, h). h = []) records)"
  define present_ones where "present_ones = filter (\<lambda>(i, h). h \<noteq> []) records"
  note listed = worker_leases.listed [OF lok, folded records_def, folded missing_def present_ones_def]
  have run: "run_state (wr_listActive redis_law keyPrefix nowMs) v =
      (active_workers nowMs records, if missing = [] then v else snd (redis_law (SRemAll ?reg missing) v))"
    by (simp add: wr_listActive_def run_wr_read [OF ok, folded records_def] wr_clean_def Let_def missing_def redis_call_def
        split: prod.split)
  then have w: "w = (if missing = [] then v else snd (redis_law (SRemAll ?reg missing) v))" by (simp add: w_def)
  have dead: "live_leases ?key v i = None" if "i \<in> set missing" for i using that listed(3) by (auto simp: domIff)
  note d = worker_leases.drop_ids [OF lok dead]
  have live: "live_leases ?key w = live_leases ?key v" using d(2) [of missing] by (simp add: w)
  show "workers_ok keyPrefix w"
    using d(1) [of missing] lok own by (simp add: workers_ok_def own_hashes_def live) (simp add: w)
  show "rv_now w = rv_now v" using d(4) [of missing] by (simp add: w)
  show "registered_workers keyPrefix w = registered_workers keyPrefix v" by (simp add: registered_workers_def live fun_eq_iff)
  have dom: "dom (registered_workers keyPrefix v) = dom (live_leases ?key v)" by (auto simp: registered_workers_def)
  have sub: "dom (live_leases ?key v) \<subseteq> set_at v ?reg"
    using lok live_leases_hash(1) [of v ?key] by (force simp: leases_ok_def domIff)
  have "set_at w ?reg = set_at v ?reg - set missing" using d(3) [of missing] by (simp add: w)
  then show "set_at w ?reg = dom (registered_workers keyPrefix v)" using listed(3) sub by (auto simp: dom)
  have name: "wl_workerId (decode_worker i h) = i" if "(i, h) \<in> set present_ones" for i h
    using that own by (auto simp: listed(1) own_hashes_def decode_worker_def)
  let ?es = "map (\<lambda>(i, h). deriveRedisWorkerRegistryEntry (decode_worker i h) nowMs) present_ones"
  have ids: "map we_workerId ?es = map fst present_ones"
    using name by (auto simp: deriveRedisWorkerRegistryEntry_def Let_def)
  have "set ?es = {deriveRedisWorkerRegistryEntry e nowMs |e. \<exists>i d. registered_workers keyPrefix v i = Some (e, d)}"
    unfolding set_map listed(1) by (force simp: registered_workers_def)
  moreover have "distinct (map we_workerId ?es)" unfolding ids by (rule listed(2))
  ultimately show "lists_workers (registered_workers keyPrefix v) nowMs (fst (run_state (wr_listActive redis_law keyPrefix nowMs) v))"
    unfolding run lists_workers_def active_workers_def present_ones_def [symmetric] fst_conv set_js_sort
    by (auto simp: distinct_map_js_sort intro!: comparator.sorted_js_sort comparator_intros)
qed

subsection \<open>Refinement\<close>

lemma run_worker_step:
  fixes op :: worker_op
  assumes "workers_ok keyPrefix v"
  defines "w \<equiv> snd (run_state (run_worker_op redis_law redis_wait keyPrefix op) v)"
  assumes "worker_op_ok op"
  shows "workers_ok keyPrefix w \<and>
    (rv_now w, registered_workers keyPrefix w) = apply_worker_op op (rv_now v, registered_workers keyPrefix v)"
proof (cases op)
  case (WHeartbeat e ttlMs)
  with assms show ?thesis by (simp add: run_heartbeat)
next
  case (WRemove i)
  with assms show ?thesis by (simp add: run_worker_remove)
next
  case (WList nowMs)
  then have "w = snd (run_state (wr_listActive redis_law keyPrefix nowMs) v)" by (simp add: w_def split: prod.split)
  with WList show ?thesis using run_worker_list [OF assms(1), of nowMs] by simp
next
  case (WWait n)
  with assms show ?thesis by (simp add: run_worker_wait) (simp add: redis_wait_def)
qed

lemma run_worker_sequence:
  fixes ops :: "worker_op list"
  assumes "workers_ok keyPrefix v" "list_all worker_op_ok ops"
  defines "w \<equiv> snd (run_state (run_worker_ops redis_law redis_wait keyPrefix ops) v)"
  shows "workers_ok keyPrefix w \<and>
    (rv_now w, registered_workers keyPrefix w) = fold apply_worker_op ops (rv_now v, registered_workers keyPrefix v)"
  using assms(1,2) unfolding w_def
proof (induction ops arbitrary: v)
  case (Cons op ops)
  have op: "worker_op_ok op" using Cons.prems by simp
  note step = run_worker_step [OF Cons.prems(1) op]
  obtain v1 where v1: "run_state (run_worker_op redis_law redis_wait keyPrefix op) v = ((), v1)"
    by (cases "run_state (run_worker_op redis_law redis_wait keyPrefix op) v") simp
  with step Cons.IH [of v1] Cons.prems show ?case by simp
qed simp

context redis_clock
begin

lemma tracks_wr_read [intro]: "tracks (wr_read exec keyPrefix) (wr_read redis_law keyPrefix)"
  unfolding wr_read_def by blast

lemma tracks_wr_clean [intro]: "tracks (wr_clean exec keyPrefix records) (wr_clean redis_law keyPrefix records)"
  unfolding wr_clean_def Let_def by (intro tracks_if tracks_bind tracks_call tracks_return)

lemma tracks_wr_listActive [intro]: "tracks (wr_listActive exec keyPrefix nowMs) (wr_listActive redis_law keyPrefix nowMs)"
  unfolding wr_listActive_def by (intro tracks_bind tracks_wr_read tracks_wr_clean tracks_return)

lemma tracks_worker_op [intro]:
  "tracks (run_worker_op exec wait keyPrefix op) (run_worker_op redis_law redis_wait keyPrefix op)"
  by (cases op)
    (auto simp: wr_heartbeat_def wr_remove_def simp del: exec_all.simps intro!: tracks_bind tracks_exec_all tracks_return)

lemma tracks_worker_ops [intro]:
  "tracks (run_worker_ops exec wait keyPrefix ops) (run_worker_ops redis_law redis_wait keyPrefix ops)"
  by (induction ops) auto

end

text \<open>
  C6: the registry of workers is a map with deadlines. From a server whose keys are those of the registry, any sequence of
  heartbeats, removals, listings and waits leaves the workers that the map holds after those operations; a listing then
  returns each worker whose lease is alive once, in the order of the ids and with the times derived from its last
  heartbeat, and leaves exactly those ids registered.
\<close>

theorem worker_registry_refines:
  assumes "redis_clock exec view wait" "workers_ok keyPrefix (view s)" "list_all worker_op_ok ops"
  defines "t \<equiv> snd (run_state (run_worker_ops exec wait keyPrefix ops) s)"
    and "m \<equiv> snd (fold apply_worker_op ops (rv_now (view s), registered_workers keyPrefix (view s)))"
  shows "registered_workers keyPrefix (view t) = m \<and>
    lists_workers m nowMs (fst (run_state (wr_listActive exec keyPrefix nowMs) t)) \<and>
    set_at (view (snd (run_state (wr_listActive exec keyPrefix nowMs) t))) (workerRegistrySetKey keyPrefix) = dom m"
proof -
  let ?ops = "run_worker_ops redis_law redis_wait keyPrefix ops" and ?list = "wr_listActive redis_law keyPrefix nowMs"
  have server: "redis_server exec view" using assms(1) by (simp add: redis_clock_def)
  have t: "view t = snd (run_state ?ops (view s))"
    using redis_clock.tracks_worker_ops [OF assms(1), of keyPrefix ops] by (simp add: redis_server.tracks_def [OF server] t_def)
  have list: "fst (run_state (wr_listActive exec keyPrefix nowMs) t) = fst (run_state ?list (view t))"
    "view (snd (run_state (wr_listActive exec keyPrefix nowMs) t)) = snd (run_state ?list (view t))"
    using redis_clock.tracks_wr_listActive [OF assms(1), of keyPrefix nowMs] by (simp_all add: redis_server.tracks_def [OF server])
  have ok: "workers_ok keyPrefix (view t)" and m: "registered_workers keyPrefix (view t) = m"
    using run_worker_sequence [OF assms(2,3)] by (simp_all add: t m_def) (metis snd_conv)
  show ?thesis
    using run_worker_list(4,5) [OF ok, of nowMs] unfolding list m by blast
qed

definition no_metrics :: worker_metrics where
  "no_metrics =
     \<lparr>wm_resourceCpuLoadRatio = None, wm_resourceMemoryUsedRatio = None, wm_resourceDiskUsedRatio = None,
      wm_resourceLoadAverage1m = None, wm_resourceMemoryUsedBytes = None, wm_resourceMemoryTotalBytes = None,
      wm_resourceDiskUsedBytes = None, wm_resourceDiskTotalBytes = None, wm_processMemoryRssBytes = None\<rparr>"

definition example_beat :: "string \<Rightarrow> worker_state \<Rightarrow> worker_lease_input" where
  "example_beat workerId state =
     \<lparr>wl_workerId = workerId, wl_runtimeInstanceId = None, wl_ownerBaseUrl = None, wl_processKind = PStandalone,
      wl_state = state, wl_lastSeenAt = epoch, wl_metrics = no_metrics\<lparr>wm_resourceCpuLoadRatio := Some (1 / 4)\<rparr>,
      wl_currentSessionId = None, wl_currentRunId = None, wl_currentWorkspaceId = None\<rparr>"

lemma workers_ok_empty: "workers_ok keyPrefix (redis_empty now)" "registered_workers keyPrefix (redis_empty now) = (\<lambda>_. None)"
  by (simp_all add: workers_ok_def leases_ok_empty own_hashes_def registered_workers_def fun_eq_iff)

lemma example_metrics: "metrics_ok (wl_metrics (example_beat i st))"
proof -
  have "decimal_in 20 (1 / 4)" by (simp add: decimal_in_def)
  then show ?thesis by (simp add: metrics_ok_def example_beat_def no_metrics_def)
qed

lemma set_singleton_list: "set es = {x} \<Longrightarrow> distinct (map f es) \<Longrightarrow> es = [x]"
  by (cases es; cases "tl es") auto

text \<open>Of two workers the one that stops its heartbeats is gone after its time to live, here 5 seconds.\<close>

lemma worker_registry_refines_witness:
  "\<exists>e. fst (run_state (wr_listActive redis_law ''oah'' 0) (snd (run_state (run_worker_ops redis_law redis_wait ''oah''
      [WHeartbeat (example_beat ''w1'' WIdle) 5000, WHeartbeat (example_beat ''w2'' WIdle) 5000, WWait 3000,
       WHeartbeat (example_beat ''w2'' WBusy) 5000, WWait 3000]) (redis_empty 0)))) = [e] \<and>
    e = deriveRedisWorkerRegistryEntry (beaten (example_beat ''w2'' WBusy) 5000) 0"
proof -
  let ?ops = "[WHeartbeat (example_beat ''w1'' WIdle) 5000, WHeartbeat (example_beat ''w2'' WIdle) 5000, WWait 3000,
       WHeartbeat (example_beat ''w2'' WBusy) 5000, WWait 3000]"
  let ?es = "fst (run_state (wr_listActive redis_law ''oah'' 0) (snd (run_state (run_worker_ops redis_law redis_wait ''oah'' ?ops) (redis_empty 0))))"
    and ?e = "deriveRedisWorkerRegistryEntry (beaten (example_beat ''w2'' WBusy) 5000) 0"
  have ids: "wl_workerId (example_beat i st) = i" for i st by (simp add: example_beat_def)
  have ttl: "nat (beat_ttl 5000) = 5000" by (simp add: beat_ttl_def)
  have m: "snd (fold apply_worker_op ?ops (rv_now (redis_empty 0), registered_workers ''oah'' (redis_empty 0))) =
      [''w2'' \<mapsto> (beaten (example_beat ''w2'' WBusy) 5000, 8000)]"
    by (simp add: ids ttl workers_ok_empty(2) fun_eq_iff unexpired_def) (simp add: redis_empty_def)
  have ok: "list_all worker_op_ok ?ops" by (simp add: example_metrics)
  have "lists_workers [''w2'' \<mapsto> (beaten (example_beat ''w2'' WBusy) 5000, 8000)] 0 ?es"
    using worker_registry_refines [OF redis_model.redis_clock_axioms workers_ok_empty(1) ok, of "''oah''" 0 0] unfolding m by blast
  then have "set ?es = {?e}" "distinct (map we_workerId ?es)" by (auto simp: lists_workers_def)
  then have "?es = [?e]" by (rule set_singleton_list)
  then show ?thesis by blast
qed

text \<open>
  A listing that has read that a worker has no lease removes its id even if the worker has renewed the lease meanwhile: the
  lease lives, but no listing shows the worker until its next heartbeat.
\<close>

lemma listing_hides_a_live_worker:
  fixes ttlMs :: rat
  assumes ok: "workers_ok keyPrefix v" and m: "metrics_ok (wl_metrics e)"
    and dead: "wl_workerId e \<in> set_at v (workerRegistrySetKey keyPrefix)" "registered_workers keyPrefix v (wl_workerId e) = None"
  defines "records \<equiv> fst (run_state (wr_read redis_law keyPrefix) v)"
    and "v2 \<equiv> snd (run_state (wr_heartbeat redis_law keyPrefix e ttlMs) v)"
  defines "v3 \<equiv> snd (run_state (wr_clean redis_law keyPrefix records) v2)"
  shows "registered_workers keyPrefix v3 (wl_workerId e) = Some (beaten e ttlMs, rv_now v + nat (beat_ttl ttlMs))"
    and "wl_workerId e \<notin> set_at v3 (workerRegistrySetKey keyPrefix)"
proof -
  let ?reg = "workerRegistrySetKey keyPrefix" and ?key = "workerKey keyPrefix" and ?i = "wl_workerId e"
  have lok: "leases_ok ?reg ?key v" using ok by (simp add: workers_ok_def)
  define missing where "missing = map fst (filter (\<lambda>(i, h). h = []) records)"
  have i: "?i \<in> set missing"
    using dead worker_leases.listed(3) [OF lok]
    by (simp add: missing_def records_def run_wr_read [OF ok] registered_workers_def domIff)
  note v2 = run_heartbeat [OF ok m, of ttlMs, folded v2_def]
  have s: "set_slot v2 ?reg" using v2(1) by (simp add: workers_ok_def leases_ok_def)
  have v3: "v3 = put_set ?reg (filter (\<lambda>x. x \<notin> set missing) (items_at v2 ?reg)) v2"
  proof -
    have "missing \<noteq> []" using i by auto
    then have "v3 = snd (redis_law (SRemAll ?reg missing) v2)"
      by (simp add: v3_def wr_clean_def Let_def redis_call_def flip: missing_def split: prod.split)
    then show ?thesis by (simp only: SRemAll_effect [OF s])
  qed
  show "?i \<notin> set_at v3 ?reg" using i by (simp add: v3)
  have "rv_keys v3 (?key j) = rv_keys v2 (?key j)" for j
    by (simp add: v3 put_set_def workerRegistrySetKey_def workerKey_def)
  then have "live_leases ?key v3 ?i = live_leases ?key v2 ?i" by (intro lease_frame) (simp_all add: v3)
  then show "registered_workers keyPrefix v3 ?i = Some (beaten e ttlMs, rv_now v + nat (beat_ttl ttlMs))"
    using fun_cong [OF v2(3), of ?i] by (simp add: registered_workers_def)
qed

end
