(* ===== verification/Workspace_Leases.thy ===== *)
theory Workspace_Leases
  imports Lease_Hashes
begin

text \<open>
  The registry of workspace leases (\<open>packages/storage-redis/src/workspace-lease-registry.ts\<close>): the workers that hold a copy of
  a workspace renew a lease for it. Beside the hash of each lease and the set of all ids there is a set of ids per
  workspace, by which the leases of a workspace are removed together. The operations refine a map from ids to leases.
\<close>

subsection \<open>Records\<close>

record workspace_lease_input =
  wi_workspaceId :: string
  wi_version :: string
  wi_ownerWorkerId :: string
  wi_ownerBaseUrl :: "string option"
  wi_sourceKind :: source_kind
  wi_localPath :: string
  wi_remotePrefix :: "string option"
  wi_dirty :: bool
  wi_refCount :: rat
  wi_lastActivityAt :: string
  wi_materializedAt :: "string option"
  wi_lastSeenAt :: string

record stored_lease = workspace_lease_input +
  sl_leaseTtlMs :: "rat option"
  sl_expiresAt :: "string option"

record workspace_lease_entry = workspace_lease_input +
  le_leaseTtlMs :: int
  le_expiresAt :: string
  le_lastSeenAgeMs :: int
  le_health :: worker_health

definition DEFAULT_WORKSPACE_LEASE_TTL_MS :: int where "DEFAULT_WORKSPACE_LEASE_TTL_MS = 15000"

definition deriveRedisWorkspaceLeaseEntry :: "stored_lease \<Rightarrow> int \<Rightarrow> workspace_lease_entry" where
  "deriveRedisWorkspaceLeaseEntry entry nowMs =
     (let times = derive_times DEFAULT_WORKSPACE_LEASE_TTL_MS (wi_lastSeenAt entry) (sl_leaseTtlMs entry) (sl_expiresAt entry) nowMs
      in \<lparr>wi_workspaceId = wi_workspaceId entry,
          wi_version = wi_version entry,
          wi_ownerWorkerId = wi_ownerWorkerId entry,
          wi_ownerBaseUrl = keep_truthy (wi_ownerBaseUrl entry),
          wi_sourceKind = wi_sourceKind entry,
          wi_localPath = wi_localPath entry,
          wi_remotePrefix = keep_truthy (wi_remotePrefix entry),
          wi_dirty = wi_dirty entry,
          wi_refCount = wi_refCount entry,
          wi_lastActivityAt = wi_lastActivityAt entry,
          wi_materializedAt = keep_truthy (wi_materializedAt entry),
          wi_lastSeenAt = lt_lastSeenAt times,
          le_leaseTtlMs = lt_leaseTtlMs times,
          le_expiresAt = lt_expiresAt times,
          le_lastSeenAgeMs = lt_lastSeenAgeMs times,
          le_health = (if lt_late times then HLate else HHealthy)\<rparr>)"

subsection \<open>Keys and fields\<close>

definition leaseRegistrySetKey :: "string \<Rightarrow> string" where
  "leaseRegistrySetKey keyPrefix = keyPrefix @ '':workspace-leases:registry''"

definition workspaceLeaseSetKey :: "string \<Rightarrow> string \<Rightarrow> string" where
  "workspaceLeaseSetKey keyPrefix workspaceId = keyPrefix @ '':workspace-leases:workspace:'' @ workspaceId"

definition leaseKey :: "string \<Rightarrow> string \<Rightarrow> string" where
  "leaseKey keyPrefix leaseId = keyPrefix @ '':workspace-lease:'' @ leaseId"

definition lease_id :: "string \<Rightarrow> string \<Rightarrow> string \<Rightarrow> string" where
  "lease_id workspaceId version ownerWorkerId = workspaceId @ '':'' @ version @ '':'' @ ownerWorkerId"

definition workspaceIdFromLeaseId :: "string \<Rightarrow> string" where
  "workspaceIdFromLeaseId leaseId = takeWhile (\<lambda>c. c \<noteq> CHR '':'') leaseId"

definition lease_fields :: "workspace_lease_input \<Rightarrow> rat \<Rightarrow> (string \<times> string option) list" where
  "lease_fields entry ttlMs =
     [(''workspaceId'', Some (wi_workspaceId entry)),
      (''version'', Some (wi_version entry)),
      (''ownerWorkerId'', Some (wi_ownerWorkerId entry)),
      (''ownerBaseUrl'', keep_truthy (wi_ownerBaseUrl entry)),
      (''sourceKind'', Some (source_name (wi_sourceKind entry))),
      (''localPath'', Some (wi_localPath entry)),
      (''dirty'', Some (dirty_name (wi_dirty entry))),
      (''refCount'', Some (js_show (nat (max 0 \<lfloor>wi_refCount entry\<rfloor>)))),
      (''lastActivityAt'', Some (wi_lastActivityAt entry)),
      (''lastSeenAt'', Some (wi_lastSeenAt entry)),
      (''leaseTtlMs'', Some (js_show (nat (beat_ttl ttlMs)))),
      (''expiresAt'', Some (beat_expiry (wi_lastSeenAt entry) ttlMs)),
      (''remotePrefix'', keep_truthy (wi_remotePrefix entry)),
      (''materializedAt'', keep_truthy (wi_materializedAt entry))]"

definition optional_lease_fields :: "string list" where
  "optional_lease_fields = [''remotePrefix'', ''ownerBaseUrl'', ''materializedAt'']"

text \<open>A count that is no number, which the registry never writes, is read as 0 here.\<close>

definition decode_lease :: "string \<Rightarrow> (string, string) jmap \<Rightarrow> stored_lease" where
  "decode_lease leaseId h =
     \<lparr>wi_workspaceId = or_else (map_of h ''workspaceId'') (workspaceIdFromLeaseId leaseId),
      wi_version = or_else (map_of h ''version'') ''live'',
      wi_ownerWorkerId = or_else (map_of h ''ownerWorkerId'') ''unknown'',
      wi_ownerBaseUrl = keep_truthy (map_of h ''ownerBaseUrl''),
      wi_sourceKind = (if map_of h ''sourceKind'' = Some ''local_directory'' then LocalDirectory else ObjectStore),
      wi_localPath = or_else (map_of h ''localPath'') [],
      wi_remotePrefix = keep_truthy (map_of h ''remotePrefix''),
      wi_dirty = (map_of h ''dirty'' = Some ''1''),
      wi_refCount = (case keep_truthy (map_of h ''refCount'') of Some s \<Rightarrow> or_else (js_number s) 0 | None \<Rightarrow> 0),
      wi_lastActivityAt = or_else (map_of h ''lastActivityAt'') (toISOString 0),
      wi_materializedAt = keep_truthy (map_of h ''materializedAt''),
      wi_lastSeenAt = or_else (map_of h ''lastSeenAt'') (toISOString 0),
      sl_leaseTtlMs = Option.bind (keep_truthy (map_of h ''leaseTtlMs'')) js_number,
      sl_expiresAt = map_of h ''expiresAt''\<rparr>"

subsection \<open>Operations\<close>

definition wlr_heartbeat :: "'s redis \<Rightarrow> string \<Rightarrow> workspace_lease_input \<Rightarrow> rat \<Rightarrow> ('s, unit) state" where
  "wlr_heartbeat exec keyPrefix entry ttlMs = (
     let leaseId = lease_id (wi_workspaceId entry) (wi_version entry) (wi_ownerWorkerId entry)
     in exec_all exec ([SAdd (leaseRegistrySetKey keyPrefix) leaseId,
          SAdd (workspaceLeaseSetKey keyPrefix (wi_workspaceId entry)) leaseId] @
        beat_commands (leaseKey keyPrefix leaseId) (present (lease_fields entry ttlMs))
          (absent_of (lease_fields entry ttlMs) optional_lease_fields) (nat (beat_ttl ttlMs))))"

definition wlr_remove :: "'s redis \<Rightarrow> string \<Rightarrow> string \<Rightarrow> string \<Rightarrow> string \<Rightarrow> ('s, unit) state" where
  "wlr_remove exec keyPrefix workspaceId version ownerWorkerId = (
     let leaseId = lease_id workspaceId version ownerWorkerId
     in exec_all exec [SRem (leaseRegistrySetKey keyPrefix) leaseId, SRem (workspaceLeaseSetKey keyPrefix workspaceId) leaseId,
          Del [leaseKey keyPrefix leaseId]])"

definition wlr_removeWorkspace :: "'s redis \<Rightarrow> string \<Rightarrow> string \<Rightarrow> ('s, unit) state" where
  "wlr_removeWorkspace exec keyPrefix workspaceId = (
     let normalizedWorkspaceId = js_trim workspaceId; workspaceSetKey = workspaceLeaseSetKey keyPrefix normalizedWorkspaceId
     in if normalizedWorkspaceId = [] then State_Monad.return ()
        else do {
          reply \<leftarrow> redis_call exec (SMembers workspaceSetKey);
          let leaseIds = bulk_strings reply;
          exec_all exec (Del [workspaceSetKey] #
            (if leaseIds \<noteq> [] then SRemAll (leaseRegistrySetKey keyPrefix) leaseIds # map (\<lambda>i. Del [leaseKey keyPrefix i]) leaseIds
             else []))
        })"

text \<open>A listing reads all leases, removes the ids without a hash, and then the sets of workspaces that became empty.\<close>

definition wlr_read :: "'s redis \<Rightarrow> string \<Rightarrow> ('s, (string \<times> (string, string) jmap) list) state" where
  "wlr_read exec keyPrefix = do {
     reply \<leftarrow> redis_call exec (SMembers (leaseRegistrySetKey keyPrefix));
     read_hashes exec (leaseKey keyPrefix) (bulk_strings reply)
   }"

definition wlr_clean :: "'s redis \<Rightarrow> string \<Rightarrow> string list \<Rightarrow> ('s, unit) state" where
  "wlr_clean exec keyPrefix missingLeaseIds =
     (if missingLeaseIds \<noteq> []
      then exec_all exec (SRemAll (leaseRegistrySetKey keyPrefix) missingLeaseIds #
        map (\<lambda>i. SRem (workspaceLeaseSetKey keyPrefix (workspaceIdFromLeaseId i)) i)
          (filter (\<lambda>i. workspaceIdFromLeaseId i \<noteq> []) missingLeaseIds))
      else State_Monad.return ())"

primrec wlr_drop_empty :: "'s redis \<Rightarrow> string \<Rightarrow> string list \<Rightarrow> ('s, unit) state" where
  "wlr_drop_empty exec keyPrefix [] = State_Monad.return ()"
| "wlr_drop_empty exec keyPrefix (workspaceId # ws) = do {
     members \<leftarrow> redis_call exec (SMembers (workspaceLeaseSetKey keyPrefix workspaceId));
     _ \<leftarrow> (if bulk_strings members = [] then exec_all exec [Del [workspaceLeaseSetKey keyPrefix workspaceId]]
           else State_Monad.return ());
     wlr_drop_empty exec keyPrefix ws
   }"

definition lease_compare :: "workspace_lease_entry \<Rightarrow> workspace_lease_entry \<Rightarrow> int" where
  "lease_compare left right =
     js_or (localeCompare (wi_workspaceId left) (wi_workspaceId right))
       (js_or (localeCompare (wi_lastActivityAt right) (wi_lastActivityAt left))
         (localeCompare (wi_ownerWorkerId left) (wi_ownerWorkerId right)))"

definition missing_ids :: "(string \<times> (string, string) jmap) list \<Rightarrow> string list" where
  "missing_ids records = map fst (filter (\<lambda>(leaseId, h). h = []) records)"

text \<open>The insertion-ordered set of the workspaces of the missing leases.\<close>

definition missing_workspaces :: "string list \<Rightarrow> string list" where
  "missing_workspaces ids = rev (remdups (rev (filter (\<lambda>w. w \<noteq> []) (map workspaceIdFromLeaseId ids))))"

definition active_leases :: "int \<Rightarrow> (string \<times> (string, string) jmap) list \<Rightarrow> workspace_lease_entry list" where
  "active_leases nowMs records =
     js_sort lease_compare
       (map (\<lambda>(leaseId, h). deriveRedisWorkspaceLeaseEntry (decode_lease leaseId h) nowMs)
         (filter (\<lambda>(leaseId, h). h \<noteq> []) records))"

definition wlr_listActive :: "'s redis \<Rightarrow> string \<Rightarrow> int \<Rightarrow> ('s, workspace_lease_entry list) state" where
  "wlr_listActive exec keyPrefix nowMs = do {
     records \<leftarrow> wlr_read exec keyPrefix;
     _ \<leftarrow> wlr_clean exec keyPrefix (missing_ids records);
     _ \<leftarrow> wlr_drop_empty exec keyPrefix (missing_workspaces (missing_ids records));
     State_Monad.return (active_leases nowMs records)
   }"

definition wlr_getByWorkspaceId :: "'s redis \<Rightarrow> string \<Rightarrow> string \<Rightarrow> int \<Rightarrow> ('s, workspace_lease_entry option) state" where
  "wlr_getByWorkspaceId exec keyPrefix workspaceId nowMs = do {
     activeEntries \<leftarrow> wlr_listActive exec keyPrefix nowMs;
     State_Monad.return (List.find (\<lambda>entry. wi_workspaceId entry = workspaceId) activeEntries)
   }"

interpretation workspace_leases: lease_registry "leaseRegistrySetKey keyPrefix" "leaseKey keyPrefix"
  by unfold_locales (simp_all add: leaseRegistrySetKey_def leaseKey_def)

subsection \<open>Reading back a heartbeat\<close>

lemma distinct_lease_fields: "distinct (map fst (lease_fields e ttl))"
  by (simp add: lease_fields_def)

text \<open>The lease a heartbeat leaves.\<close>

definition beaten_lease :: "workspace_lease_input \<Rightarrow> rat \<Rightarrow> stored_lease" where
  "beaten_lease e ttlMs =
     workspace_lease_input.extend
       (e\<lparr>wi_ownerBaseUrl := keep_truthy (wi_ownerBaseUrl e), wi_remotePrefix := keep_truthy (wi_remotePrefix e),
          wi_materializedAt := keep_truthy (wi_materializedAt e), wi_refCount := of_int (max 0 \<lfloor>wi_refCount e\<rfloor>)\<rparr>)
       \<lparr>sl_leaseTtlMs = Some (of_int (beat_ttl ttlMs)), sl_expiresAt = Some (beat_expiry (wi_lastSeenAt e) ttlMs)\<rparr>"

definition lease_hash :: "workspace_lease_input \<Rightarrow> rat \<Rightarrow> (string, string) jmap \<Rightarrow> (string, string) jmap" where
  "lease_hash e ttl h = fold AList.delete (absent_of (lease_fields e ttl) optional_lease_fields)
      (set_fields (present (lease_fields e ttl)) h)"

lemma lease_hash_get:
  assumes "map_of (lease_fields e ttl) f = Some x" "x = None \<longrightarrow> f \<in> set optional_lease_fields"
  shows "map_of (lease_hash e ttl h) f = x"
  using stored_field [OF distinct_lease_fields assms(1)] assms(2) unfolding lease_hash_def by blast

lemma read_count_text: "(case keep_truthy (Some (js_show n)) of Some s \<Rightarrow> or_else (js_number s) 0 | None \<Rightarrow> 0) = of_nat n"
  by (simp add: keep_truthy_def or_else_def)

lemma decode_lease_beat: "decode_lease i (lease_hash e ttl h) = beaten_lease e ttl"
proof -
  note fs = lease_fields_def optional_lease_fields_def
  have texts: "map_of (lease_hash e ttl h) ''workspaceId'' = Some (wi_workspaceId e)"
    "map_of (lease_hash e ttl h) ''version'' = Some (wi_version e)"
    "map_of (lease_hash e ttl h) ''ownerWorkerId'' = Some (wi_ownerWorkerId e)"
    "map_of (lease_hash e ttl h) ''ownerBaseUrl'' = keep_truthy (wi_ownerBaseUrl e)"
    "map_of (lease_hash e ttl h) ''sourceKind'' = Some (source_name (wi_sourceKind e))"
    "map_of (lease_hash e ttl h) ''localPath'' = Some (wi_localPath e)"
    "map_of (lease_hash e ttl h) ''dirty'' = Some (dirty_name (wi_dirty e))"
    "map_of (lease_hash e ttl h) ''refCount'' = Some (js_show (nat (max 0 \<lfloor>wi_refCount e\<rfloor>)))"
    "map_of (lease_hash e ttl h) ''lastActivityAt'' = Some (wi_lastActivityAt e)"
    "map_of (lease_hash e ttl h) ''lastSeenAt'' = Some (wi_lastSeenAt e)"
    "map_of (lease_hash e ttl h) ''leaseTtlMs'' = Some (js_show (nat (beat_ttl ttl)))"
    "map_of (lease_hash e ttl h) ''expiresAt'' = Some (beat_expiry (wi_lastSeenAt e) ttl)"
    "map_of (lease_hash e ttl h) ''remotePrefix'' = keep_truthy (wi_remotePrefix e)"
    "map_of (lease_hash e ttl h) ''materializedAt'' = keep_truthy (wi_materializedAt e)"
    by (rule lease_hash_get; simp add: fs)+
  have ttl: "Option.bind (keep_truthy (Some (js_show (nat (beat_ttl ttl))))) js_number = Some (of_int (beat_ttl ttl))"
    by (simp add: keep_truthy_def beat_ttl_def)
  have kind: "(if Some (source_name k) = Some ''local_directory'' then LocalDirectory else ObjectStore) = k" for k
    by (cases k) (simp_all add: source_name_def)
  show ?thesis
    unfolding decode_lease_def texts ttl kind read_count_text
    by (simp add: beaten_lease_def workspace_lease_input.defs dirty_name_def)
qed

subsection \<open>What the keys hold\<close>

definition workspace_leases_ok :: "string \<Rightarrow> redis_view \<Rightarrow> bool" where
  "workspace_leases_ok keyPrefix v \<longleftrightarrow>
     leases_ok (leaseRegistrySetKey keyPrefix) (leaseKey keyPrefix) v \<and>
     (\<forall>w. set_slot v (workspaceLeaseSetKey keyPrefix w)) \<and>
     (\<forall>w i. i \<in> set_at v (workspaceLeaseSetKey keyPrefix w) \<longrightarrow> workspaceIdFromLeaseId i = w) \<and>
     (\<forall>i h d. live_leases (leaseKey keyPrefix) v i = Some (h, d) \<longrightarrow>
        i \<in> set_at v (workspaceLeaseSetKey keyPrefix (workspaceIdFromLeaseId i)) \<and>
        map_of h ''workspaceId'' = Some (workspaceIdFromLeaseId i))"

lemma lease_keys [simp]:
  "leaseKey p i \<noteq> leaseRegistrySetKey p" "leaseRegistrySetKey p \<noteq> leaseKey p i"
  "workspaceLeaseSetKey p w \<noteq> leaseRegistrySetKey p" "leaseRegistrySetKey p \<noteq> workspaceLeaseSetKey p w"
  "leaseKey p i \<noteq> workspaceLeaseSetKey p w" "workspaceLeaseSetKey p w \<noteq> leaseKey p i"
  "leaseKey p i = leaseKey p j \<longleftrightarrow> i = j" "workspaceLeaseSetKey p w = workspaceLeaseSetKey p w' \<longleftrightarrow> w = w'"
  by (simp_all add: leaseKey_def leaseRegistrySetKey_def workspaceLeaseSetKey_def)

lemma workspace_of_lease:
  "CHR '':'' \<notin> set w \<Longrightarrow> workspaceIdFromLeaseId (lease_id w version ownerWorkerId) = w"
  by (auto simp: workspaceIdFromLeaseId_def lease_id_def takeWhile_append2 takeWhile_tail)

text \<open>Removing the leases \<open>D\<close>, and what is dead, from the keys.\<close>

lemma shrink:
  assumes ok: "workspace_leases_ok p v" and now: "rv_now v' = rv_now v"
    and reg: "set_slot v' (leaseRegistrySetKey p)" "distinct (items_at v' (leaseRegistrySetKey p))"
      "set_at v (leaseRegistrySetKey p) - D \<subseteq> set_at v' (leaseRegistrySetKey p)"
    and ws: "\<And>w. set_slot v' (workspaceLeaseSetKey p w)"
      "\<And>w. set_at v' (workspaceLeaseSetKey p w) \<subseteq> set_at v (workspaceLeaseSetKey p w)"
      "\<And>w. set_at v (workspaceLeaseSetKey p w) - D \<subseteq> set_at v' (workspaceLeaseSetKey p w)"
    and keys: "\<And>i. rv_keys v' (leaseKey p i) = rv_keys v (leaseKey p i) \<or> i \<in> D \<and> rv_keys v' (leaseKey p i) = None"
    and dead: "\<And>i. i \<in> D \<Longrightarrow> live_leases (leaseKey p) v i = None \<or> rv_keys v' (leaseKey p i) = None"
  shows "workspace_leases_ok p v' \<and> live_leases (leaseKey p) v' = (\<lambda>i. if i \<in> D then None else live_leases (leaseKey p) v i)"
proof -
  have lok: "leases_ok (leaseRegistrySetKey p) (leaseKey p) v" using ok by (simp add: workspace_leases_ok_def)
  have gone: "hash_at v' (leaseKey p i) = []" "lease_hash_slot v' (leaseKey p i)" "live_leases (leaseKey p) v' i = None"
    if "rv_keys v' (leaseKey p i) = None" for i
    using that by (simp_all add: hash_at_def rv_live_def lease_hash_slot_def live_leases_def)
  have same: "hash_at v' (leaseKey p i) = hash_at v (leaseKey p i)" "lease_hash_slot v' (leaseKey p i) = lease_hash_slot v (leaseKey p i)"
    "live_leases (leaseKey p) v' i = live_leases (leaseKey p) v i" if "rv_keys v' (leaseKey p i) = rv_keys v (leaseKey p i)" for i
    by (rule key_frame(1) [OF now that] key_frame(5) [OF now that] lease_frame [where leaseKey = "leaseKey p", OF now that])+
  have live: "live_leases (leaseKey p) v' = (\<lambda>i. if i \<in> D then None else live_leases (leaseKey p) v i)"
  proof
    fix i show "live_leases (leaseKey p) v' i = (if i \<in> D then None else live_leases (leaseKey p) v i)"
      using keys [of i] dead [of i] gone(3) [of i] same(3) [of i] by (cases "i \<in> D") auto
  qed
  have slots: "lease_hash_slot v' (leaseKey p i)" for i
    using keys [of i] gone(2) [of i] same(2) [of i] lok by (auto simp: leases_ok_def)
  have "i \<in> set_at v' (leaseRegistrySetKey p)" if h: "hash_at v' (leaseKey p i) \<noteq> []" for i
  proof -
    have l: "live_leases (leaseKey p) v' i \<noteq> None" using h live_leases_hash(1) [where leaseKey = "leaseKey p", OF slots] by blast
    then have "i \<notin> D" "hash_at v (leaseKey p i) \<noteq> []"
      using h keys [of i] gone(1) [of i] same(1) [of i] by (auto simp: live)
    then show ?thesis using lok reg(3) by (auto simp: leases_ok_def)
  qed
  then have "leases_ok (leaseRegistrySetKey p) (leaseKey p) v'" using reg slots by (simp add: leases_ok_def)
  moreover have "i \<in> set_at v' (workspaceLeaseSetKey p (workspaceIdFromLeaseId i)) \<and> map_of h ''workspaceId'' = Some (workspaceIdFromLeaseId i)"
    if "live_leases (leaseKey p) v' i = Some (h, d)" for i h d
  proof -
    have "i \<notin> D" "live_leases (leaseKey p) v i = Some (h, d)" using that by (simp_all add: live split: if_splits)
    then show ?thesis using ok ws(3) [of "workspaceIdFromLeaseId i"] unfolding workspace_leases_ok_def by blast
  qed
  moreover have "workspaceIdFromLeaseId i = w" if "i \<in> set_at v' (workspaceLeaseSetKey p w)" for w i
    using that ws(2) [of w] ok unfolding workspace_leases_ok_def by blast
  ultimately have "workspace_leases_ok p v'" using ws(1) unfolding workspace_leases_ok_def by blast
  then show ?thesis using live by (rule conjI)
qed

subsection \<open>The registry as a map from ids to leases\<close>

type_synonym workspace_leases = "string \<Rightarrow> (stored_lease \<times> nat) option"

definition held_leases :: "string \<Rightarrow> redis_view \<Rightarrow> workspace_leases" where
  "held_leases keyPrefix v i = map_option (\<lambda>(h, d). (decode_lease i h, d)) (live_leases (leaseKey keyPrefix) v i)"

lemma held_of_live:
  assumes "live_leases (leaseKey p) v' = (\<lambda>i. if i \<in> D then None else live_leases (leaseKey p) v i)"
  shows "held_leases p v' = (\<lambda>i. if i \<in> D then None else held_leases p v i)"
  by (simp add: held_leases_def fun_eq_iff assms)

text \<open>A command on one key leaves the others and the clock.\<close>

lemma set_command_keys:
  assumes "set_slot v k" "k' \<noteq> k"
  shows "rv_keys (snd (redis_law (SAdd k x) v)) k' = rv_keys v k'" "rv_keys (snd (redis_law (SRem k x) v)) k' = rv_keys v k'"
    "rv_keys (snd (redis_law (SRemAll k xs) v)) k' = rv_keys v k'"
  using assms(2) unfolding SRemAll_effect [OF assms(1)] set_commands [OF assms(1)] by (simp_all add: put_set_def)

lemma set_command_now:
  assumes "set_slot v k"
  shows "rv_now (snd (redis_law (SAdd k x) v)) = rv_now v" "rv_now (snd (redis_law (SRem k x) v)) = rv_now v"
    "rv_now (snd (redis_law (SRemAll k xs) v)) = rv_now v"
  unfolding SRemAll_effect [OF assms] set_commands [OF assms] by simp_all

lemma workspace_leasesD:
  assumes "workspace_leases_ok p v"
  shows "leases_ok (leaseRegistrySetKey p) (leaseKey p) v" "set_slot v (workspaceLeaseSetKey p w)"
    "i \<in> set_at v (workspaceLeaseSetKey p w) \<Longrightarrow> workspaceIdFromLeaseId i = w"
    "live_leases (leaseKey p) v i = Some (h, d) \<Longrightarrow>
      i \<in> set_at v (workspaceLeaseSetKey p (workspaceIdFromLeaseId i)) \<and> map_of h ''workspaceId'' = Some (workspaceIdFromLeaseId i)"
    "set_slot v (leaseRegistrySetKey p)" "distinct (items_at v (leaseRegistrySetKey p))"
  using assms unfolding workspace_leases_ok_def leases_ok_def by blast+

lemma run_lease_heartbeat:
  fixes ttlMs :: rat
  assumes ok: "workspace_leases_ok p v" and colon: "CHR '':'' \<notin> set (wi_workspaceId e)"
  defines "w \<equiv> snd (run_state (wlr_heartbeat redis_law p e ttlMs) v)"
    and "i \<equiv> lease_id (wi_workspaceId e) (wi_version e) (wi_ownerWorkerId e)"
  shows "workspace_leases_ok p w" "rv_now w = rv_now v"
    "held_leases p w = (held_leases p v)(i \<mapsto> (beaten_lease e ttlMs, rv_now v + nat (beat_ttl ttlMs)))"
proof -
  let ?reg = "leaseRegistrySetKey p" and ?key = "leaseKey p" and ?ws = "workspaceLeaseSetKey p"
  let ?kvs = "present (lease_fields e ttlMs)" and ?absent = "absent_of (lease_fields e ttlMs) optional_lease_fields"
  let ?id = "wi_workspaceId e" and ?ttl = "nat (beat_ttl ttlMs)"
  note oks = workspace_leasesD [OF ok]
  note lok = oks(1) and slots = oks(2) and of_ws = oks(3) and lives = oks(4)
  have i: "workspaceIdFromLeaseId i = ?id" unfolding i_def by (rule workspace_of_lease [OF colon])
  have regv: "set_slot v ?reg" using lok by (simp add: leases_ok_def)
  define v1 where "v1 = snd (redis_law (SAdd ?reg i) v)"
  note add = workspace_leases.add_id [OF lok, of i, folded v1_def]
  have ws1: "set_slot v1 (?ws x)" "set_at v1 (?ws x) = set_at v (?ws x)" for x
    using key_frame(3,4) [OF add(4) set_command_keys(1) [OF regv, of "?ws x" i, folded v1_def]] slots [of x] by simp_all
  define v2 where "v2 = snd (redis_law (SAdd (?ws ?id) i) v1)"
  note keys2 = set_command_keys(1) [OF ws1(1), of _ ?id i, folded v2_def]
  have now2: "rv_now v2 = rv_now v" using set_command_now(1) [OF ws1(1), of ?id i] add(4) by (simp add: v2_def)
  have "same_leases ?reg ?key v1 v2" using now2 add(4) keys2 by (simp add: same_leases_def)
  note same = same_leases_ok [OF this]
  have ws2: "set_slot v2 (?ws x)" "set_at v2 (?ws x) = (if x = ?id then insert i (set_at v (?ws x)) else set_at v (?ws x))" for x
  proof -
    have now12: "rv_now v2 = rv_now v1" using now2 add(4) by simp
    have "set_slot v2 (?ws x) \<and> set_at v2 (?ws x) = set_at v1 (?ws x)" if "x \<noteq> ?id"
    proof -
      have "?ws x \<noteq> ?ws ?id" using that by simp
      from key_frame(3,4) [OF now12 keys2 [OF this]] show ?thesis by (simp add: ws1(1))
    qed
    moreover have "set_slot v2 (?ws ?id) \<and> set_at v2 (?ws ?id) = insert i (set_at v1 (?ws ?id))"
      using set_command_effects(1,3) [OF ws1(1), of ?id i] by (simp add: v2_def)
    ultimately show "set_slot v2 (?ws x)" "set_at v2 (?ws x) = (if x = ?id then insert i (set_at v (?ws x)) else set_at v (?ws x))"
      by (auto simp: ws1(2))
  qed
  have w: "w = law_all (beat_commands (?key i) ?kvs ?absent ?ttl) v2"
    unfolding w_def wlr_heartbeat_def Let_def run_exec_all by (simp add: v1_def v2_def i_def)
  have f: "map_of (rev ?kvs) ''workspaceId'' = Some ?id" "''workspaceId'' \<notin> set ?absent"
    by (simp_all add: map_of_rev_distinct [OF distinct_present [OF distinct_lease_fields]] present_get [OF distinct_lease_fields] absent_of_def)
      (simp_all add: lease_fields_def)
  have ok2: "leases_ok ?reg ?key v2" using add(1) same(1) by simp
  have i2: "i \<in> set_at v2 ?reg" using add(3) same(3) by (metis insertI1 set_items_at)
  have ttl: "0 < ?ttl" by (simp add: beat_ttl_def)
  let ?h = "lease_hash e ttlMs (hash_at v2 (?key i))"
  note beat = workspace_leases.beat [OF ok2 i2 f ttl, folded w lease_hash_def]
  have live: "live_leases ?key w = (live_leases ?key v)(i \<mapsto> (?h, rv_now v + ?ttl))" using beat(2) same(2) add(2) now2 by simp
  have slot2: "lease_hash_slot v2 (?key i)" using ok2 by (simp add: leases_ok_def)
  have put: "w = rv_put (?key i) (VHash ?h) (Some (rv_now v2 + ?ttl)) v2"
    unfolding w lease_hash_def by (rule write_lease [OF slot2 f])
  then show now: "rv_now w = rv_now v" using now2 by simp
  have ws: "set_slot w (?ws x)" "set_at w (?ws x) = set_at v2 (?ws x)" for x
    using key_frame(3,4) [of w v2 "?ws x"] ws2(1) [of x] by (simp_all add: put)
  have h: "map_of ?h ''workspaceId'' = Some ?id"
    by (rule lease_hash_get) (simp_all add: lease_fields_def)
  show "held_leases p w = (held_leases p v)(i \<mapsto> (beaten_lease e ttlMs, rv_now v + ?ttl))"
    by (simp add: held_leases_def fun_eq_iff live decode_lease_beat)
  have "j \<in> set_at w (?ws (workspaceIdFromLeaseId j)) \<and> map_of g ''workspaceId'' = Some (workspaceIdFromLeaseId j)"
    if "live_leases ?key w j = Some (g, d)" for j g d
    using that lives [of j g d] i h by (cases "j = i") (auto simp: live ws(2) ws2(2))
  moreover have "workspaceIdFromLeaseId j = x" if "j \<in> set_at w (?ws x)" for x j
    using that of_ws [of j x] i by (auto simp: ws(2) ws2(2) split: if_splits)
  ultimately show "workspace_leases_ok p w" using beat(1) ws(1) unfolding workspace_leases_ok_def by blast
qed

lemma run_lease_remove:
  fixes x version owner :: string
  assumes ok: "workspace_leases_ok p v"
  defines "w \<equiv> snd (run_state (wlr_remove redis_law p x version owner) v)"
  shows "workspace_leases_ok p w" "rv_now w = rv_now v" "held_leases p w = (held_leases p v)(lease_id x version owner := None)"
proof -
  let ?reg = "leaseRegistrySetKey p" and ?key = "leaseKey p" and ?ws = "workspaceLeaseSetKey p" and ?i = "lease_id x version owner"
  note oks = workspace_leasesD [OF ok]
  define v1 where "v1 = snd (redis_law (SRem ?reg ?i) v)"
  define v2 where "v2 = snd (redis_law (SRem (?ws x) ?i) v1)"
  note now1 = set_command_now(2) [OF oks(5), of ?i, folded v1_def]
  note keys1 = set_command_keys(2) [OF oks(5), of _ ?i, folded v1_def]
  have ws1: "set_slot v1 (?ws y)" "set_at v1 (?ws y) = set_at v (?ws y)" for y
    using key_frame(3,4) [OF now1 keys1, of "?ws y"] oks(2) by simp_all
  note now2 = set_command_now(2) [OF ws1(1), of x ?i, folded v2_def]
  note keys2 = set_command_keys(2) [OF ws1(1), of _ x ?i, folded v2_def]
  have w: "w = rv_remove [?key ?i] v2"
    unfolding w_def wlr_remove_def Let_def run_exec_all by (simp add: v1_def v2_def redis_law.simps)
  have regs: "set_slot w ?reg" "items_at w ?reg = items_at v1 ?reg" "set_at w ?reg = set_at v1 ?reg"
    using key_frame(2,3,4) [OF now2 keys2, of ?reg] set_command_effects(4) [OF oks(5), of ?i] by (simp_all add: w v1_def)
  have wsx: "set_slot w (?ws x)" "set_at w (?ws x) = set_at v (?ws x) - {?i}"
    using set_command_effects(2,4) [OF ws1(1), of x ?i] by (simp_all add: w v2_def ws1(2))
  have wsy: "set_slot w (?ws y)" "set_at w (?ws y) = set_at v (?ws y)" if "y \<noteq> x" for y
    using key_frame(3,4) [OF now2 keys2, of "?ws y"] that ws1 [of y] by (simp_all add: w)
  have now: "rv_now w = rv_now v" by (simp add: w now2 now1)
  note shrunk = shrink [OF ok now, of "{?i}"]
  have "workspace_leases_ok p w \<and> live_leases ?key w = (\<lambda>j. if j \<in> {?i} then None else live_leases ?key v j)"
  proof (rule shrunk)
    show "distinct (items_at w ?reg)" "set_slot w ?reg" using regs distinct_commands(2) [OF oks(5,6), of ?i] by (simp_all add: v1_def)
    show "set_at v ?reg - {?i} \<subseteq> set_at w ?reg" using set_command_effects(2) [OF oks(5), of ?i] by (simp add: regs v1_def)
    show "set_slot w (?ws y)" "set_at w (?ws y) \<subseteq> set_at v (?ws y)" "set_at v (?ws y) - {?i} \<subseteq> set_at w (?ws y)" for y
      using wsx wsy [of y] by (cases "y = x"; auto)+
    show "rv_keys w (?key j) = rv_keys v (?key j) \<or> j \<in> {?i} \<and> rv_keys w (?key j) = None" for j
      by (simp add: w keys2 keys1)
    show "j \<in> {?i} \<Longrightarrow> live_leases ?key v j = None \<or> rv_keys w (?key j) = None" for j by (simp add: w)
  qed
  then show "workspace_leases_ok p w" "held_leases p w = (held_leases p v)(?i := None)" "rv_now w = rv_now v"
    using held_of_live [of p w "{?i}" v] now by (auto simp: fun_eq_iff)
qed

subsection \<open>Removing the leases of a workspace\<close>

lemma law_all_dels: "law_all (map (\<lambda>i. Del [f i]) is) v = rv_remove (map f is) v"
proof (induction "is" arbitrary: v)
  case Nil
  show ?case by (simp add: rv_remove_def)
next
  case (Cons i "is")
  have "rv_remove (map f is) (rv_remove [f i] v) = rv_remove (map f (i # is)) v"
    by (auto simp: rv_remove_def fun_eq_iff intro!: redis_view.equality)
  then show ?case using Cons by (simp add: redis_law.simps)
qed

lemma run_lease_removeWorkspace:
  fixes workspaceId :: string
  assumes ok: "workspace_leases_ok p v"
  defines "w \<equiv> snd (run_state (wlr_removeWorkspace redis_law p workspaceId) v)" and "x \<equiv> js_trim workspaceId"
  shows "workspace_leases_ok p w \<and> rv_now w = rv_now v \<and>
    held_leases p w = (\<lambda>i. if x \<noteq> [] \<and> workspaceIdFromLeaseId i = x then None else held_leases p v i)"
proof (cases "x = []")
  case True
  then show ?thesis using ok by (simp add: w_def wlr_removeWorkspace_def x_def)
next
  case False
  let ?reg = "leaseRegistrySetKey p" and ?key = "leaseKey p" and ?ws = "workspaceLeaseSetKey p"
  note oks = workspace_leasesD [OF ok]
  define ids where "ids = items_at v (?ws x)"
  have w: "w = law_all (Del [?ws x] # (if ids \<noteq> [] then SRemAll ?reg ids # map (\<lambda>i. Del [?key i]) ids else [])) v"
    using False unfolding w_def wlr_removeWorkspace_def Let_def x_def [symmetric]
    by (simp add: redis_call_def set_commands(3) [OF oks(2)] bulk_strings_bulks flip: ids_def del: exec_all.simps law_all_simps)
  define v1 where "v1 = rv_remove [?ws x] v"
  have reg1: "set_slot v1 ?reg" "items_at v1 ?reg = items_at v ?reg" using oks(5) by (simp_all add: v1_def)
  have removed: "rv_now w = rv_now v" "set_slot w ?reg" "items_at w ?reg = filter (\<lambda>i. i \<notin> set ids) (items_at v ?reg)"
    "rv_keys w (?key j) = (if j \<in> set ids then None else rv_keys v (?key j))"
    "rv_keys w (?ws y) = (if y = x then None else rv_keys v (?ws y))" for j y
  proof -
    have "rv_now w = rv_now v \<and> set_slot w ?reg \<and> items_at w ?reg = filter (\<lambda>i. i \<notin> set ids) (items_at v ?reg) \<and>
        rv_keys w (?key j) = (if j \<in> set ids then None else rv_keys v (?key j)) \<and>
        rv_keys w (?ws y) = (if y = x then None else rv_keys v (?ws y))"
    proof (cases "ids = []")
      case True
      then have "w = v1" by (simp add: w v1_def redis_law.simps)
      then show ?thesis using reg1 True by (simp add: v1_def)
    next
      case False
      then have "w = rv_remove (map ?key ids) (put_set ?reg (filter (\<lambda>i. i \<notin> set ids) (items_at v ?reg)) v1)"
        using SRemAll_effect [OF reg1(1), of ids] by (simp add: w law_all_dels reg1(2) redis_law.simps(7) flip: v1_def)
      moreover from this have "set_slot w ?reg" "items_at w ?reg = filter (\<lambda>i. i \<notin> set ids) (items_at v ?reg)"
        using reg1 by (simp_all add: image_iff)
      ultimately show ?thesis by (simp add: image_iff) (auto simp: put_set_def v1_def)
    qed
    then show "rv_now w = rv_now v" "set_slot w ?reg" "items_at w ?reg = filter (\<lambda>i. i \<notin> set ids) (items_at v ?reg)"
      "rv_keys w (?key j) = (if j \<in> set ids then None else rv_keys v (?key j))"
      "rv_keys w (?ws y) = (if y = x then None else rv_keys v (?ws y))" by blast+
  qed
  have wsx: "set_slot w (?ws x)" "set_at w (?ws x) = {}"
    using removed(5) [of x] by (simp_all add: set_slot_def set_at_def items_at_def rv_live_def del: set_items_at)
  have wsy: "set_slot w (?ws y)" "set_at w (?ws y) = set_at v (?ws y)" if "y \<noteq> x" for y
    using key_frame(3,4) [OF removed(1), of "?ws y"] removed(5) [of y] oks(2) [of y] that by simp_all
  have "workspace_leases_ok p w \<and> live_leases ?key w = (\<lambda>i. if i \<in> set ids then None else live_leases ?key v i)"
  proof (rule shrink [OF ok removed(1,2)])
    show "distinct (items_at w ?reg)" using oks(6) by (simp add: removed(3))
    show "set_at v ?reg - set ids \<subseteq> set_at w ?reg" using arg_cong [OF removed(3), of set] by auto
    show "set_slot w (?ws y)" "set_at w (?ws y) \<subseteq> set_at v (?ws y)" "set_at v (?ws y) - set ids \<subseteq> set_at w (?ws y)" for y
      using wsx wsy [of y] by (cases "y = x"; auto simp: ids_def)+
  qed (simp_all add: removed(4))
  moreover have "(if i \<in> set ids then None else held_leases p v i) = (if workspaceIdFromLeaseId i = x then None else held_leases p v i)" for i
    using oks(3) [of i x] oks(4) [of i] by (cases "live_leases ?key v i") (auto simp: ids_def held_leases_def)
  ultimately show ?thesis
    using removed(1) False held_of_live [of p w "set ids" v] by (simp add: fun_eq_iff)
qed

subsection \<open>Listing\<close>

text \<open>Only the sets of the workspaces change, and lose nothing but \<open>D\<close>.\<close>

definition ws_shrunk :: "string \<Rightarrow> string set \<Rightarrow> redis_view \<Rightarrow> redis_view \<Rightarrow> bool" where
  "ws_shrunk p D v v' \<longleftrightarrow>
     rv_now v' = rv_now v \<and> (\<forall>k. (\<forall>y. k \<noteq> workspaceLeaseSetKey p y) \<longrightarrow> rv_keys v' k = rv_keys v k) \<and>
     (\<forall>y. set_slot v' (workspaceLeaseSetKey p y) \<and>
        set_at v' (workspaceLeaseSetKey p y) \<subseteq> set_at v (workspaceLeaseSetKey p y) \<and>
        set_at v (workspaceLeaseSetKey p y) - D \<subseteq> set_at v' (workspaceLeaseSetKey p y))"

lemma ws_shrunk_refl: "(\<And>y. set_slot v (workspaceLeaseSetKey p y)) \<Longrightarrow> ws_shrunk p D v v"
  by (auto simp: ws_shrunk_def)

lemma ws_shrunk_trans: "ws_shrunk p D u v \<Longrightarrow> ws_shrunk p D v w \<Longrightarrow> ws_shrunk p D u w"
  unfolding ws_shrunk_def by (intro conjI allI impI) (simp, simp, simp, blast+)

lemma ws_shrunk_key:
  assumes "\<And>y. set_slot v (workspaceLeaseSetKey p y)" "rv_now v' = rv_now v"
    "\<And>k. k \<noteq> workspaceLeaseSetKey p x \<Longrightarrow> rv_keys v' k = rv_keys v k" "set_slot v' (workspaceLeaseSetKey p x)"
    "set_at v' (workspaceLeaseSetKey p x) \<subseteq> set_at v (workspaceLeaseSetKey p x)"
    "set_at v (workspaceLeaseSetKey p x) - D \<subseteq> set_at v' (workspaceLeaseSetKey p x)"
  shows "ws_shrunk p D v v'"
proof -
  have "set_slot v' (workspaceLeaseSetKey p y) \<and> set_at v' (workspaceLeaseSetKey p y) = set_at v (workspaceLeaseSetKey p y)" if "y \<noteq> x" for y
  proof -
    have "workspaceLeaseSetKey p y \<noteq> workspaceLeaseSetKey p x" using that by simp
    from key_frame(3,4) [OF assms(2) assms(3) [OF this]] show ?thesis by (simp add: assms(1))
  qed
  then show ?thesis using assms(2-) unfolding ws_shrunk_def by (metis Diff_subset order_refl)
qed

lemma SRems_shrink:
  assumes "\<And>y. set_slot v (workspaceLeaseSetKey p y)" "set is \<subseteq> D"
  shows "ws_shrunk p D v (law_all (map (\<lambda>i. SRem (workspaceLeaseSetKey p (f i)) i) is) v)"
  using assms
proof (induction "is" arbitrary: v)
  case Nil
  then show ?case by (simp add: ws_shrunk_refl)
next
  case (Cons i "is")
  let ?k = "workspaceLeaseSetKey p (f i)"
  let ?u = "snd (redis_law (SRem ?k i) v)"
  have u: "ws_shrunk p D v ?u"
  proof (rule ws_shrunk_key [where x = "f i"])
    note slot = Cons.prems(1) [of "f i"]
    show "set_slot ?u ?k" by (rule set_command_effects(4) [OF slot])
    show "set_at ?u ?k \<subseteq> set_at v ?k" "set_at v ?k - D \<subseteq> set_at ?u ?k"
      using Cons.prems(2) by (auto simp: set_command_effects(2) [OF slot])
    show "rv_now ?u = rv_now v" by (rule set_command_now(2) [OF slot])
    show "k \<noteq> ?k \<Longrightarrow> rv_keys ?u k = rv_keys v k" for k by (rule set_command_keys(2) [OF slot])
  qed (rule Cons.prems(1))
  then have "\<And>y. set_slot ?u (workspaceLeaseSetKey p y)" by (simp add: ws_shrunk_def)
  then show ?case using ws_shrunk_trans [OF u] Cons by simp
qed

lemma drop_empty_shrinks:
  assumes "\<And>y. set_slot v (workspaceLeaseSetKey p y)"
  shows "ws_shrunk p D v (snd (run_state (wlr_drop_empty redis_law p ws) v))"
  using assms
proof (induction ws arbitrary: v)
  case Nil
  then show ?case by (simp add: ws_shrunk_refl)
next
  case (Cons x ws)
  let ?k = "workspaceLeaseSetKey p x"
  define u where "u = (if items_at v ?k = [] then rv_remove [?k] v else v)"
  have "ws_shrunk p D v u"
  proof (cases "items_at v ?k = []")
    case True
    then have e: "set_at v ?k = {}" by (simp flip: set_items_at)
    have "set_at (rv_remove [?k] v) ?k = {}" by (simp add: set_at_def items_at_def live_put del: set_items_at)
    then show ?thesis
      using True e by (intro ws_shrunk_key [where x = x] Cons.prems) (simp_all add: u_def)
  qed (simp add: u_def ws_shrunk_refl Cons.prems)
  moreover from this have "\<And>y. set_slot u (workspaceLeaseSetKey p y)" by (simp add: ws_shrunk_def)
  moreover have "run_state (wlr_drop_empty redis_law p (x # ws)) v = run_state (wlr_drop_empty redis_law p ws) u"
    by (simp add: u_def redis_call_def set_commands(3) [OF Cons.prems] bulk_strings_bulks redis_law.simps(7))
  ultimately show ?case using ws_shrunk_trans Cons.IH by metis
qed

definition lists_leases :: "workspace_leases \<Rightarrow> int \<Rightarrow> workspace_lease_entry list \<Rightarrow> bool" where
  "lists_leases m nowMs es \<longleftrightarrow>
     set es = {deriveRedisWorkspaceLeaseEntry e nowMs |e. \<exists>i d. m i = Some (e, d)} \<and>
     sorted_wrt (\<lambda>a b. lease_compare a b \<le> 0) es \<and> length es = card (dom m)"

interpretation lease_order: comparator lease_compare
  unfolding lease_compare_def by (intro comparator_intros)

lemma run_wlr_read:
  assumes "workspace_leases_ok p v"
  shows "run_state (wlr_read redis_law p) v = (map (\<lambda>i. (i, hash_at v (leaseKey p i))) (items_at v (leaseRegistrySetKey p)), v)"
proof -
  have slots: "lease_hash_slot v (leaseKey p i)" for i using assms by (auto simp: workspace_leases_ok_def leases_ok_def)
  show ?thesis
    by (simp add: wlr_read_def redis_call_def set_commands(3) [OF workspace_leasesD(5) [OF assms]] bulk_strings_bulks
        run_read_hashes [OF slots])
qed

lemma listed_leases:
  assumes ok: "workspace_leases_ok p v"
  shows "lists_leases (held_leases p v) nowMs (active_leases nowMs (fst (run_state (wlr_read redis_law p) v)))"
proof -
  define records where "records = map (\<lambda>i. (i, hash_at v (leaseKey p i))) (items_at v (leaseRegistrySetKey p))"
  define kept where "kept = filter (\<lambda>(i, h). h \<noteq> []) records"
  note listed = workspace_leases.listed [OF workspace_leasesD(1) [OF ok], folded records_def, folded kept_def]
  let ?es = "map (\<lambda>(i, h). deriveRedisWorkspaceLeaseEntry (decode_lease i h) nowMs) kept"
  have "set ?es = {deriveRedisWorkspaceLeaseEntry e nowMs |e. \<exists>i d. held_leases p v i = Some (e, d)}"
    unfolding set_map listed(1) by (force simp: held_leases_def)
  moreover have "length ?es = card (dom (held_leases p v))"
  proof -
    have "dom (held_leases p v) = set (map fst kept)"
      unfolding set_map listed(1) by (force simp: held_leases_def dom_def)
    then have "card (dom (held_leases p v)) = length (map fst kept)"
      using distinct_card [OF listed(2)] by simp
    then show ?thesis by simp
  qed
  ultimately show ?thesis
    unfolding run_wlr_read [OF ok] fst_conv records_def [symmetric] lists_leases_def active_leases_def kept_def [symmetric]
    by (simp add: lease_order.sorted_js_sort del: length_map)
qed

text \<open>Removing ids of dead leases from the set of all ids, and then from the sets of the workspaces.\<close>

lemma forget_dead_leases:
  assumes ok: "workspace_leases_ok p v" and dead: "\<And>i. i \<in> set missing \<Longrightarrow> live_leases (leaseKey p) v i = None"
  defines "v1 \<equiv> snd (redis_law (SRemAll (leaseRegistrySetKey p) missing) v)"
  shows "\<And>y. set_slot v1 (workspaceLeaseSetKey p y)"
    and "ws_shrunk p (set missing) v1 w \<Longrightarrow> workspace_leases_ok p w \<and> rv_now w = rv_now v \<and> held_leases p w = held_leases p v \<and>
      set_at w (leaseRegistrySetKey p) = set_at v (leaseRegistrySetKey p) - set missing"
proof -
  let ?reg = "leaseRegistrySetKey p" and ?key = "leaseKey p" and ?ws = "workspaceLeaseSetKey p"
  note oks = workspace_leasesD [OF ok]
  note v1_eq = v1_def [unfolded SRemAll_effect [OF oks(5)]]
  have v1: "rv_now v1 = rv_now v" "\<And>k. k \<noteq> ?reg \<Longrightarrow> rv_keys v1 k = rv_keys v k" "set_slot v1 ?reg" "distinct (items_at v1 ?reg)"
    "set_at v1 ?reg = set_at v ?reg - set missing"
    using oks(5,6) set_command_now(3) [OF oks(5), of missing] set_command_keys(3) [OF oks(5), of _ missing]
    by (auto simp: v1_def) (simp_all add: SRemAll_effect [OF oks(5)])
  have ws1: "set_slot v1 (?ws y)" "set_at v1 (?ws y) = set_at v (?ws y)" for y
    using key_frame(3,4) [OF v1(1) v1(2), of "?ws y"] oks(2) by simp_all
  show "set_slot v1 (?ws y)" for y by (rule ws1(1))
  assume s: "ws_shrunk p (set missing) v1 w"
  then have now: "rv_now w = rv_now v1" and keys: "\<And>k. (\<And>y. k \<noteq> ?ws y) \<Longrightarrow> rv_keys w k = rv_keys v1 k" by (auto simp: ws_shrunk_def)
  have reg: "set_slot w ?reg" "items_at w ?reg = items_at v1 ?reg" "set_at w ?reg = set_at v1 ?reg"
    using key_frame(2,3,4) [OF now keys, of ?reg] v1(3) by simp_all
  have "workspace_leases_ok p w \<and> live_leases ?key w = (\<lambda>i. if i \<in> set missing then None else live_leases ?key v i)"
  proof (rule shrink [OF ok])
    show "rv_now w = rv_now v" using now v1(1) by simp
    show "set_slot w ?reg" "distinct (items_at w ?reg)" "set_at v ?reg - set missing \<subseteq> set_at w ?reg"
      using v1 by (simp_all add: reg)
    show "set_slot w (?ws y)" "set_at w (?ws y) \<subseteq> set_at v (?ws y)" "set_at v (?ws y) - set missing \<subseteq> set_at w (?ws y)" for y
      using s unfolding ws_shrunk_def ws1(2) by blast+
    show "rv_keys w (?key i) = rv_keys v (?key i) \<or> i \<in> set missing \<and> rv_keys w (?key i) = None" for i
      using keys [of "?key i"] v1(2) [of "?key i"] by simp
    show "i \<in> set missing \<Longrightarrow> live_leases ?key v i = None \<or> rv_keys w (?key i) = None" for i using dead by blast
  qed
  moreover have "(\<lambda>i. if i \<in> set missing then None else live_leases ?key v i) = live_leases ?key v" by (auto simp: fun_eq_iff dead)
  ultimately show "workspace_leases_ok p w \<and> rv_now w = rv_now v \<and> held_leases p w = held_leases p v \<and>
      set_at w ?reg = set_at v ?reg - set missing"
    using now v1(1,5) by (simp add: held_leases_def fun_eq_iff reg(3))
qed

lemma run_lease_list:
  fixes nowMs :: int
  assumes ok: "workspace_leases_ok p v"
  defines "w \<equiv> snd (run_state (wlr_listActive redis_law p nowMs) v)"
  shows "workspace_leases_ok p w \<and> rv_now w = rv_now v \<and> held_leases p w = held_leases p v"
    and "lists_leases (held_leases p v) nowMs (fst (run_state (wlr_listActive redis_law p nowMs) v))"
    and "set_at w (leaseRegistrySetKey p) = dom (held_leases p v)"
proof -
  let ?reg = "leaseRegistrySetKey p" and ?key = "leaseKey p" and ?ws = "workspaceLeaseSetKey p"
  note oks = workspace_leasesD [OF ok]
  define records where "records = map (\<lambda>i. (i, hash_at v (?key i))) (items_at v ?reg)"
  define missing where "missing = missing_ids records"
  note listed = workspace_leases.listed [OF oks(1), folded records_def, folded missing_def [unfolded missing_ids_def]]
  have read: "run_state (wlr_read redis_law p) v = (records, v)" by (simp add: run_wlr_read [OF ok] records_def)
  define v1 where "v1 = snd (redis_law (SRemAll ?reg missing) v)"
  define v2 where "v2 = (if missing = [] then v else
      law_all (map (\<lambda>i. SRem (?ws (workspaceIdFromLeaseId i)) i) (filter (\<lambda>i. workspaceIdFromLeaseId i \<noteq> []) missing)) v1)"
  have clean: "run_state (wlr_clean redis_law p missing) v = ((), v2)"
    by (simp add: wlr_clean_def v1_def v2_def del: exec_all.simps)
  have run: "run_state (wlr_listActive redis_law p nowMs) v =
      (active_leases nowMs records, snd (run_state (wlr_drop_empty redis_law p (missing_workspaces missing)) v2))"
    by (simp add: wlr_listActive_def read clean split: prod.split flip: missing_def)
  show "lists_leases (held_leases p v) nowMs (fst (run_state (wlr_listActive redis_law p nowMs) v))"
    using listed_leases [OF ok, of nowMs] by (simp add: run read)
  have dead: "live_leases ?key v i = None" if "i \<in> set missing" for i using that listed(3) by (auto simp: domIff)
  note forget = forget_dead_leases [OF ok dead, of missing, folded v1_def]
  have "workspace_leases_ok p w \<and> rv_now w = rv_now v \<and> held_leases p w = held_leases p v \<and> set_at w ?reg = set_at v ?reg - set missing"
  proof (cases "missing = []")
    case True
    then show ?thesis using ok by (simp add: w_def run v2_def missing_workspaces_def)
  next
    case False
    then have s: "ws_shrunk p (set missing) v1 v2"
      by (simp add: v2_def) (rule SRems_shrink, auto intro: forget(1))
    then have "\<And>y. set_slot v2 (?ws y)" by (simp add: ws_shrunk_def)
    then have "ws_shrunk p (set missing) v2 w" unfolding w_def run snd_conv by (rule drop_empty_shrinks)
    with s have "ws_shrunk p (set missing) v1 w" by (rule ws_shrunk_trans)
    then show ?thesis by (rule forget(2) [rotated]) simp
  qed
  moreover have "dom (held_leases p v) = dom (live_leases ?key v)" by (auto simp: held_leases_def)
  moreover have "dom (live_leases ?key v) \<subseteq> set_at v ?reg"
    using oks(1) live_leases_hash(1) [of v ?key] by (force simp: leases_ok_def domIff)
  ultimately show "workspace_leases_ok p w \<and> rv_now w = rv_now v \<and> held_leases p w = held_leases p v"
    "set_at w ?reg = dom (held_leases p v)" using listed(3) by auto
qed

lemma run_lease_wait:
  assumes ok: "workspace_leases_ok p v"
  shows "workspace_leases_ok p (redis_wait n v)"
    "held_leases p (redis_wait n v) = unexpired (rv_now v + n) (held_leases p v)"
proof -
  note oks = workspace_leasesD [OF ok]
  have "live_leases (leaseKey p) v i = Some (h, d)" if "live_leases (leaseKey p) (redis_wait n v) i = Some (h, d)" for i h d
    using that by (auto simp: live_leases_wait unexpired_def split: option.splits if_splits)
  then show "workspace_leases_ok p (redis_wait n v)"
    using oks workspace_leases.wait_ok(1) [OF oks(1)] unfolding workspace_leases_ok_def wait_frame(1) wait_frame(4) [OF oks(2)] by blast
  show "held_leases p (redis_wait n v) = unexpired (rv_now v + n) (held_leases p v)"
    by (auto simp: fun_eq_iff held_leases_def live_leases_wait unexpired_def split: option.splits)
qed

subsection \<open>Refinement\<close>

datatype lease_op =
    LHeartbeat workspace_lease_input rat
  | LRemove string string string
  | LRemoveWorkspace string
  | LList int
  | LWait nat

text \<open>Ids of workspaces have no colon, which ends them in the ids of leases.\<close>

fun lease_op_ok :: "lease_op \<Rightarrow> bool" where
  "lease_op_ok (LHeartbeat e ttlMs) = (CHR '':'' \<notin> set (wi_workspaceId e))"
| "lease_op_ok _ = True"

fun run_lease_op :: "'s redis \<Rightarrow> (nat \<Rightarrow> 's \<Rightarrow> 's) \<Rightarrow> string \<Rightarrow> lease_op \<Rightarrow> ('s, unit) state" where
  "run_lease_op exec wait keyPrefix (LHeartbeat e ttlMs) = wlr_heartbeat exec keyPrefix e ttlMs"
| "run_lease_op exec wait keyPrefix (LRemove w version owner) = wlr_remove exec keyPrefix w version owner"
| "run_lease_op exec wait keyPrefix (LRemoveWorkspace w) = wlr_removeWorkspace exec keyPrefix w"
| "run_lease_op exec wait keyPrefix (LList nowMs) =
     do { _ \<leftarrow> wlr_listActive exec keyPrefix nowMs; State_Monad.return () }"
| "run_lease_op exec wait keyPrefix (LWait n) = State (\<lambda>s. ((), wait n s))"

primrec run_lease_ops :: "'s redis \<Rightarrow> (nat \<Rightarrow> 's \<Rightarrow> 's) \<Rightarrow> string \<Rightarrow> lease_op list \<Rightarrow> ('s, unit) state" where
  "run_lease_ops exec wait keyPrefix [] = State_Monad.return ()"
| "run_lease_ops exec wait keyPrefix (op # ops) =
     do { _ \<leftarrow> run_lease_op exec wait keyPrefix op; run_lease_ops exec wait keyPrefix ops }"

text \<open>The same on the clock of the server and the map.\<close>

fun apply_lease_op :: "lease_op \<Rightarrow> nat \<times> workspace_leases \<Rightarrow> nat \<times> workspace_leases" where
  "apply_lease_op (LHeartbeat e ttlMs) (now, m) =
     (now, m(lease_id (wi_workspaceId e) (wi_version e) (wi_ownerWorkerId e) \<mapsto> (beaten_lease e ttlMs, now + nat (beat_ttl ttlMs))))"
| "apply_lease_op (LRemove w version owner) (now, m) = (now, m(lease_id w version owner := None))"
| "apply_lease_op (LRemoveWorkspace w) (now, m) =
     (now, \<lambda>i. if js_trim w \<noteq> [] \<and> workspaceIdFromLeaseId i = js_trim w then None else m i)"
| "apply_lease_op (LList nowMs) (now, m) = (now, m)"
| "apply_lease_op (LWait n) (now, m) = (now + n, unexpired (now + n) m)"

lemma run_lease_step:
  fixes op :: lease_op
  assumes ok: "workspace_leases_ok p v" and op: "lease_op_ok op"
  defines "w \<equiv> snd (run_state (run_lease_op redis_law redis_wait p op) v)"
  shows "workspace_leases_ok p w \<and> (rv_now w, held_leases p w) = apply_lease_op op (rv_now v, held_leases p v)"
proof (cases op)
  case (LHeartbeat e ttlMs)
  with op show ?thesis by (simp add: w_def run_lease_heartbeat [OF ok])
next
  case (LRemove x version owner)
  then show ?thesis by (simp add: w_def run_lease_remove [OF ok])
next
  case (LRemoveWorkspace x)
  then show ?thesis using run_lease_removeWorkspace [OF ok, of x] by (simp add: w_def)
next
  case (LList nowMs)
  then have "w = snd (run_state (wlr_listActive redis_law p nowMs) v)" by (simp add: w_def split: prod.split)
  with LList show ?thesis using run_lease_list(1) [OF ok, of nowMs] by simp
next
  case (LWait n)
  then show ?thesis by (simp add: w_def run_lease_wait [OF ok]) (simp add: redis_wait_def)
qed

lemma run_lease_sequence:
  fixes ops :: "lease_op list"
  assumes "workspace_leases_ok p v" "list_all lease_op_ok ops"
  defines "w \<equiv> snd (run_state (run_lease_ops redis_law redis_wait p ops) v)"
  shows "workspace_leases_ok p w \<and> (rv_now w, held_leases p w) = fold apply_lease_op ops (rv_now v, held_leases p v)"
  using assms(1,2) unfolding w_def
proof (induction ops arbitrary: v)
  case (Cons op ops)
  have "lease_op_ok op" using Cons.prems by simp
  note step = run_lease_step [OF Cons.prems(1) this]
  obtain v1 where v1: "run_state (run_lease_op redis_law redis_wait p op) v = ((), v1)"
    by (cases "run_state (run_lease_op redis_law redis_wait p op) v") simp
  with step Cons.IH [of v1] Cons.prems show ?case by simp
qed simp

context redis_clock
begin

lemma tracks_wlr_clean [intro]: "tracks (wlr_clean exec p ids) (wlr_clean redis_law p ids)"
  unfolding wlr_clean_def by (intro tracks_if tracks_exec_all tracks_return)

lemma tracks_wlr_drop_empty [intro]: "tracks (wlr_drop_empty exec p ws) (wlr_drop_empty redis_law p ws)"
  by (induction ws) (auto simp del: exec_all.simps intro!: tracks_bind tracks_if tracks_exec_all tracks_return tracks_call)

lemma tracks_wlr_listActive [intro]: "tracks (wlr_listActive exec p nowMs) (wlr_listActive redis_law p nowMs)"
  unfolding wlr_listActive_def wlr_read_def
  by (intro tracks_bind tracks_call tracks_read_hashes tracks_wlr_clean tracks_wlr_drop_empty tracks_return)

lemma tracks_wlr_getByWorkspaceId [intro]:
  "tracks (wlr_getByWorkspaceId exec p x nowMs) (wlr_getByWorkspaceId redis_law p x nowMs)"
  unfolding wlr_getByWorkspaceId_def by (intro tracks_bind tracks_wlr_listActive tracks_return)

lemma tracks_lease_op [intro]: "tracks (run_lease_op exec wait p op) (run_lease_op redis_law redis_wait p op)"
  by (cases op)
    (simp_all add: wlr_heartbeat_def wlr_remove_def wlr_removeWorkspace_def Let_def tracks_wait tracks_bind tracks_exec_all tracks_return
      tracks_if tracks_call tracks_wlr_listActive del: exec_all.simps)

lemma tracks_lease_ops [intro]: "tracks (run_lease_ops exec wait p ops) (run_lease_ops redis_law redis_wait p ops)"
  by (induction ops) auto

end

text \<open>
  C7: the registry of workspace leases is a map with deadlines. From a server whose keys are those of the registry, any
  sequence of heartbeats, removals of a lease, removals of a workspace, listings and waits leaves the leases that the map
  holds after those operations; a listing then returns each of them once, in order and with the times derived from its last
  heartbeat, and leaves exactly their ids registered.
\<close>

theorem workspace_leases_refine:
  assumes "redis_clock exec view wait" "workspace_leases_ok keyPrefix (view s)" "list_all lease_op_ok ops"
  defines "t \<equiv> snd (run_state (run_lease_ops exec wait keyPrefix ops) s)"
    and "m \<equiv> snd (fold apply_lease_op ops (rv_now (view s), held_leases keyPrefix (view s)))"
  shows "held_leases keyPrefix (view t) = m \<and>
    lists_leases m nowMs (fst (run_state (wlr_listActive exec keyPrefix nowMs) t)) \<and>
    set_at (view (snd (run_state (wlr_listActive exec keyPrefix nowMs) t))) (leaseRegistrySetKey keyPrefix) = dom m"
proof -
  let ?ops = "run_lease_ops redis_law redis_wait keyPrefix ops" and ?list = "wlr_listActive redis_law keyPrefix nowMs"
  have server: "redis_server exec view" using assms(1) by (simp add: redis_clock_def)
  have t: "view t = snd (run_state ?ops (view s))"
    using redis_clock.tracks_lease_ops [OF assms(1), of keyPrefix ops] by (simp add: redis_server.tracks_def [OF server] t_def)
  have list: "fst (run_state (wlr_listActive exec keyPrefix nowMs) t) = fst (run_state ?list (view t))"
    "view (snd (run_state (wlr_listActive exec keyPrefix nowMs) t)) = snd (run_state ?list (view t))"
    using redis_clock.tracks_wlr_listActive [OF assms(1), of keyPrefix nowMs] by (simp_all add: redis_server.tracks_def [OF server])
  have ok: "workspace_leases_ok keyPrefix (view t)" and m: "held_leases keyPrefix (view t) = m"
    using run_lease_sequence [OF assms(2,3)] by (simp_all add: t m_def) (metis snd_conv)
  show ?thesis
    using run_lease_list(2,3) [OF ok, of nowMs] unfolding list m by blast
qed

text \<open>The owner of a workspace: among its leases the one with the latest activity.\<close>

lemma compare_same_workspace:
  assumes "lease_compare a b \<le> 0" "wi_workspaceId a = wi_workspaceId b"
  shows "localeCompare (wi_lastActivityAt b) (wi_lastActivityAt a) \<le> 0"
  using assms lc.cmp_refl by (auto simp: lease_compare_def js_or_def split: if_splits)

lemma found_lease_is_latest:
  assumes ok: "workspace_leases_ok p v"
  shows "case fst (run_state (wlr_getByWorkspaceId redis_law p x nowMs) v) of
      None \<Rightarrow> (\<forall>i e d. held_leases p v i = Some (e, d) \<longrightarrow> wi_workspaceId e \<noteq> x)
    | Some entry \<Rightarrow> wi_workspaceId entry = x \<and>
        (\<exists>i e d. held_leases p v i = Some (e, d) \<and> entry = deriveRedisWorkspaceLeaseEntry e nowMs) \<and>
        (\<forall>i e d. held_leases p v i = Some (e, d) \<and> wi_workspaceId e = x \<longrightarrow>
           localeCompare (wi_lastActivityAt e) (wi_lastActivityAt entry) \<le> 0)"
proof -
  let ?es = "fst (run_state (wlr_listActive redis_law p nowMs) v)"
  have es: "set ?es = {deriveRedisWorkspaceLeaseEntry e nowMs |e. \<exists>i d. held_leases p v i = Some (e, d)}"
    and sorted: "sorted_wrt (\<lambda>a b. lease_compare a b \<le> 0) ?es"
    using run_lease_list(2) [OF ok, of nowMs] by (simp_all add: lists_leases_def)
  have get: "fst (run_state (wlr_getByWorkspaceId redis_law p x nowMs) v) = List.find (\<lambda>entry. wi_workspaceId entry = x) ?es"
    by (simp add: wlr_getByWorkspaceId_def split: prod.split)
  have fields: "wi_workspaceId (deriveRedisWorkspaceLeaseEntry e t) = wi_workspaceId e"
    "wi_lastActivityAt (deriveRedisWorkspaceLeaseEntry e t) = wi_lastActivityAt e" for e t
    by (simp_all add: deriveRedisWorkspaceLeaseEntry_def Let_def)
  show ?thesis
  proof (cases "List.find (\<lambda>entry. wi_workspaceId entry = x) ?es")
    case None
    then have none: "wi_workspaceId y \<noteq> x" if "y \<in> set ?es" for y using that by (simp add: find_None_iff)
    have "wi_workspaceId e \<noteq> x" if "held_leases p v i = Some (e, d)" for i e d
    proof -
      have "deriveRedisWorkspaceLeaseEntry e nowMs \<in> set ?es" using that unfolding es by blast
      from none [OF this] show ?thesis by (simp only: fields not_False_eq_True)
    qed
    then show ?thesis by (simp add: get None)
  next
    case (Some entry)
    then have "List.find (\<lambda>entry. wi_workspaceId entry = x) (js_sort lease_compare ?es) = Some entry"
      by (simp add: js_sort_id [OF sorted])
    from lease_order.find_js_sort_least [OF this]
    have e: "entry \<in> set ?es" "wi_workspaceId entry = x"
      and least: "\<And>y. y \<in> set ?es \<Longrightarrow> wi_workspaceId y = x \<Longrightarrow> lease_compare entry y \<le> 0" by blast+
    have "localeCompare (wi_lastActivityAt f) (wi_lastActivityAt entry) \<le> 0" if "held_leases p v i = Some (f, d)" "wi_workspaceId f = x" for i f d
    proof -
      have "deriveRedisWorkspaceLeaseEntry f nowMs \<in> set ?es" using that(1) es by blast
      from compare_same_workspace [OF least [OF this]] show ?thesis using that(2) e(2) by (simp add: fields)
    qed
    moreover have "\<exists>i f d. held_leases p v i = Some (f, d) \<and> entry = deriveRedisWorkspaceLeaseEntry f nowMs" using e(1) unfolding es by blast
    ultimately show ?thesis using e(2) by (auto simp: get Some)
  qed
qed

lemma workspace_leases_ok_empty: "workspace_leases_ok p (redis_empty now)" "held_leases p (redis_empty now) = (\<lambda>_. None)"
  using leases_ok_empty
  by (simp_all add: workspace_leases_ok_def held_leases_def fun_eq_iff)
    (simp_all add: redis_empty_def set_slot_def set_at_def items_at_def rv_live_def del: set_items_at)

definition example_lease :: "string \<Rightarrow> string \<Rightarrow> workspace_lease_input" where
  "example_lease workspaceId ownerWorkerId =
     \<lparr>wi_workspaceId = workspaceId, wi_version = ''live'', wi_ownerWorkerId = ownerWorkerId, wi_ownerBaseUrl = None,
      wi_sourceKind = LocalDirectory, wi_localPath = ''/data'', wi_remotePrefix = None, wi_dirty = True, wi_refCount = 2,
      wi_lastActivityAt = epoch, wi_materializedAt = None, wi_lastSeenAt = epoch\<rparr>"

text \<open>Of three leases one is removed with its workspace and one expires.\<close>

lemma workspace_leases_refine_witness:
  "fst (run_state (wlr_listActive redis_law ''oah'' 0) (snd (run_state (run_lease_ops redis_law redis_wait ''oah''
      [LHeartbeat (example_lease ''ws_a'' ''w1'') 15000, LHeartbeat (example_lease ''ws_b'' ''w1'') 5000,
       LHeartbeat (example_lease ''ws_c'' ''w2'') 15000, LWait 6000, LRemoveWorkspace ''ws_a'']) (redis_empty 0)))) =
    [deriveRedisWorkspaceLeaseEntry (beaten_lease (example_lease ''ws_c'' ''w2'') 15000) 0]"
proof -
  let ?ops = "[LHeartbeat (example_lease ''ws_a'' ''w1'') 15000, LHeartbeat (example_lease ''ws_b'' ''w1'') 5000,
       LHeartbeat (example_lease ''ws_c'' ''w2'') 15000, LWait 6000, LRemoveWorkspace ''ws_a'']"
  let ?m = "[''ws_c:live:w2'' \<mapsto> (beaten_lease (example_lease ''ws_c'' ''w2'') 15000, 15000)]"
  let ?es = "fst (run_state (wlr_listActive redis_law ''oah'' 0) (snd (run_state (run_lease_ops redis_law redis_wait ''oah'' ?ops) (redis_empty 0))))"
  have ids: "lease_id (wi_workspaceId (example_lease w o1)) (wi_version (example_lease w o1)) (wi_ownerWorkerId (example_lease w o1)) =
      w @ '':live:'' @ o1" for w o1 by (simp add: example_lease_def lease_id_def)
  have ttl: "nat (beat_ttl 15000) = 15000" "nat (beat_ttl 5000) = 5000" by (simp_all add: beat_ttl_def)
  have trim: "js_trim ''ws_a'' = ''ws_a''" by code_simp
  have "apply_lease_op (LRemoveWorkspace ''ws_a'') (n, [''ws_a:live:w1'' \<mapsto> a, ''ws_c:live:w2'' \<mapsto> c]) = (n, [''ws_c:live:w2'' \<mapsto> c])" for n a c
    by (auto simp: trim workspaceIdFromLeaseId_def fun_eq_iff)
  moreover have "fold apply_lease_op (take 4 ?ops) (0, \<lambda>_. None) =
      (6000, [''ws_a:live:w1'' \<mapsto> (beaten_lease (example_lease ''ws_a'' ''w1'') 15000, 15000),
        ''ws_c:live:w2'' \<mapsto> (beaten_lease (example_lease ''ws_c'' ''w2'') 15000, 15000)])"
    by (auto simp: ids ttl fun_eq_iff unexpired_def)
  ultimately have "fold apply_lease_op ?ops (0, \<lambda>_. None) = (6000, ?m)" by simp
  then have m: "snd (fold apply_lease_op ?ops (rv_now (redis_empty 0), held_leases ''oah'' (redis_empty 0))) = ?m"
    unfolding workspace_leases_ok_empty(2) by (simp add: redis_empty_def)
  have ok: "list_all lease_op_ok ?ops" by (simp add: example_lease_def)
  have "lists_leases ?m 0 ?es"
    using workspace_leases_refine [OF redis_model.redis_clock_axioms workspace_leases_ok_empty(1) ok, of "''oah''" 0 0] unfolding m by blast
  then have "set ?es = {deriveRedisWorkspaceLeaseEntry (beaten_lease (example_lease ''ws_c'' ''w2'') 15000) 0}" "length ?es = 1"
    by (auto simp: lists_leases_def)
  then show ?thesis by (auto simp: length_Suc_conv)
qed

end
