(* ===== verification/Spec2Isabelle.thy ===== *)
theory Spec2Isabelle
  imports Message_Projection Message_Creation Run_Queue_Pressure Worker_Pool Run_Worker Run_Recovery
    Leader_Election Controller_Registry Controller_Config Model_Snapshots Context_Compaction
    Worker_Registry Workspace_Leases
begin

text \<open>
  A verification library for OpenAgentHarness, a TypeScript engine that runs agents for chat sessions.
  A client posts a message to a session; the engine stores it, creates a run and either hands the run to a
  run queue at once or keeps it in the pending queue of the session; a worker claims the session, runs its runs one by
  one, and the run moves through its statuses while steps, messages and events are stored; before each call of a
  model the stored messages are projected to what the model may see. Beside the engine a controller watches the workers, the
  queue and the placements of the workspaces, moves workspaces off lost workers and scales the fleet. The paths below are under \<open>src/\<close>.

  \<^bold>\<open>Conventions.\<close> A record or interface of the code is a \<open>record\<close> whose fields keep their names behind a prefix, an
  enumeration is a \<open>datatype\<close>, an optional field an option. A JavaScript \<open>Map\<close> is an association list in
  insertion order (\<open>jmap\<close>), a thrown \<open>AppError\<close> is \<open>Inl\<close> with its status and code, and a method that reads or
  writes the state is an action \<open>('s, 'a) act\<close>, which also returns the state it leaves when it throws. Strings are lists of
  characters, times are ISO strings or naturals in milliseconds, numbers are naturals or integers (ratios of the pool are
  rationals; JavaScript's floating point is not modelled). \<open>createId\<close> and \<open>nowIso\<close> read arbitrary functions at a counter.

  \<^bold>\<open>Theories, in the order of the imports.\<close>

  \<^item> \<open>Js_Prelude\<close>: errors (\<open>packages/engine-core/src/errors.ts\<close>), truthiness, \<open>trim\<close>, \<open>parseInt\<close>, stable sorting with a
    comparator, \<open>localeCompare\<close> as the collation of ASCII strings, slices, and maps, with the lemmas the components share.
  \<^item> \<open>Contracts\<close>: the data of \<open>packages/api-contracts/src\<close> and of \<open>packages/engine-core/src/types\<close>.
  \<^item> \<open>Pending_Queue\<close>, \<open>Event_Store\<close>, \<open>Memory_Repos\<close>, \<open>Memory_Store\<close>: \<open>packages/storage-memory/src/index.ts\<close>. The pending queue
    refines an abstract list of pairs (a locale of queues, interpreted on it); the event store answers by cursor; the
    repositories keep the keys and indexes of their rows, and deleting a session or a workspace removes its rows and no others.
  \<^item> \<open>Message_Projection\<close>: \<open>packages/engine-core/src/engine/message-projections.ts\<close>: the window after the latest compaction, the merging of tool
    calls, the removal of duplicate calls, the soft limit of tool results, and the accounting of every message as projected or hidden.
  \<^item> \<open>Engine_State\<close>: the state the services of \<open>engine-core\<close> share and the rules that run actions.
  \<^item> \<open>Run_State\<close>: \<open>engine/run-state.ts\<close>, \<open>engine/run-steps.ts\<close>: the life of a run over any sequence of calls, with the calls that may
    break it (a run handed over with an old status, an \<open>updateRun\<close> that sets the status), and the numbering of its steps.
  \<^item> \<open>Run_Recovery\<close>: \<open>engine/run-recovery.ts\<close>: stale runs, drain time-outs and manual requeues. Every stale run is settled once, the
    automatic attempts are bounded over any history, and the manual requeue is guarded. Here \<open>leads m st P\<close> says that an action
    returns in a state with \<open>P\<close>; the rules \<open>leads_rules\<close> carry the proofs.
  \<^item> \<open>Model_Resolver\<close>: \<open>engine/model-resolver.ts\<close>: canonical model references.
  \<^item> \<open>Session_Records\<close>: \<open>engine/session-records.ts\<close>, \<open>engine/session-creation.ts\<close>: creation, update, paging, listing of queued runs, and the
    deletion of a tree of sessions.
  \<^item> \<open>Message_Creation\<close>: \<open>engine/session-message-creation.ts\<close>, \<open>engine/session-engine.ts\<close>: at most one run of a session is put in
    flight, the head of its queue first.
  \<^item> \<open>Redis_Server\<close>: the Redis commands the queue uses. The server is a parameter: the locale \<open>redis_server\<close> assumes an execution
    function and a view of the keys that obey the documented effect of each command, \<open>redis_clock\<close> adds the passing of time;
    \<open>redis_model\<close> interprets both.
  \<^item> \<open>Run_Queue\<close>, \<open>Run_Queue_Safety\<close>, \<open>Run_Queue_Pressure\<close>: \<open>packages/storage-redis/src/run-queue.ts\<close>, its Lua scripts included. Every
    operation is shown to do what one step of an abstract machine of ready queues does (\<open>ready_queue\<close>, operations \<open>aq_*\<close>); from that
    follow refinement of any interleaving, order of runs, exclusion by locks and the advertising of pending sessions.
  \<^item> \<open>Worker_Policy\<close>: \<open>worker-pool-policy.ts\<close>, \<open>worker-pool-pressure.ts\<close>, \<open>worker-pool-affinity.ts\<close>: size suggestions and preferred workers.
  \<^item> \<open>Worker_Pool\<close>: \<open>run-worker-pool.ts\<close>, \<open>worker-pool-observability.ts\<close>: a pool over any history of rebalances, worker state changes
    and shut-downs, of which any call of \<open>queueFactory\<close> and any close of a worker or of its queue may reject.
  \<^item> \<open>Run_Worker\<close>: \<open>run-worker.ts\<close>: any number of workers, one control point per awaited call, sharing the abstract queue with
    clients, heartbeats and time. \<open>reach\<close> is the inductive set of worlds; the invariants are exclusion, exactly-once start in order,
    and that no pending session is forgotten while no worker is shut down.
  \<^item> \<open>Leader_Election\<close>: \<open>apps/controller/src/leader-election.ts\<close>: controllers that poll one Kubernetes lease. The API server is a parameter (locale
    \<open>lease_server\<close>, interpreted on \<open>kube_api\<close>); \<open>elected\<close> is the inductive set of elections reached with renewals in time, and
    \<open>one_leader\<close> the exclusion that follows from the resource versions.

  \<^item> \<open>Js_Collections\<close>, \<open>Js_Json\<close>: JavaScript's maps and sets as the controller uses them, groupings, numeric sorting keys; JSON values and
    operations that may throw (\<open>fallible\<close>).
  \<^item> \<open>Redis_Hashes\<close>, \<open>Placement_Registry\<close>, \<open>Registry_Refinement\<close>: \<open>packages/storage-redis/src/workspace-placement-registry.ts\<close> (and its copy in
    \<open>storage-redis-control\<close>) over the same server interface. \<open>represents\<close> relates the keys of the server to a map of placements, and every
    operation is the operation \<open>apply_registry\<close> on that map.
  \<^item> \<open>Controller_Fleet\<close>, \<open>Placement_Summary\<close>, \<open>Placement_Policy\<close>: \<open>apps/controller/src/controller-placement.ts\<close>, what the controller makes of the workers
    and placements: the fleet and its size, the sandboxes, the problems of the placements, and the plan that answers them.
  \<^item> \<open>Placement_Operations\<close>: \<open>buildPlacementExecutionOperations\<close>, its three passes and the choice of a target: each operation is justified by
    its placement, exactly the lost owners are released, and workspaces of no owner are packed.
  \<^item> \<open>Scale_Targets\<close>: \<open>packages/scale-target-control/src\<close>. The Kubernetes API is a parameter (locale \<open>kube_api\<close>, interpreted on a cluster whose state
    is the replicas of each workload); a reconciliation keeps to the policy whatever fails.
  \<^item> \<open>Controller_Decisions\<close>, \<open>Controller\<close>: \<open>controller.ts\<close> and \<open>controller-rebalance-state.ts\<close>: the decision with its streaks and cool-downs, the gate before a
    scale-down, the executor, and one evaluation from what it reads to the snapshot, with the invariant \<open>controller_ok\<close>.
  \<^item> \<open>Controller_Registry\<close>: the executor on the registry. The locale \<open>placement_ownership\<close> is what the executor relies on; the locale \<open>redis_registry\<close>, a
    registry on a lawful server, is a sublocale of it, interpreted on \<open>redis_model\<close>.
  \<^item> \<open>Controller_Config\<close>: \<open>controller-config.ts\<close> and \<open>scale-target-control/src/config.ts\<close>: what the environment and the configuration resolve to.

  \<^item> \<open>Js_Number\<close>, \<open>Lease_Hashes\<close>, \<open>Worker_Registry\<close>: \<open>packages/storage-redis/src/worker-registry.ts\<close> (and its copy in \<open>storage-redis-control\<close>): numbers
    as text, the scheme of leases in Redis that expire unless they are renewed (locale \<open>lease_registry\<close>), and the registry of workers, which refines a
    map from workers to leases with deadlines while time passes.
  \<^item> \<open>Workspace_Leases\<close>: \<open>packages/storage-redis/src/workspace-lease-registry.ts\<close> over the same scheme: the leases of a workspace, removed one by one
    or together, and the owner found for a workspace.
  \<^item> \<open>Message_Content\<close>, \<open>Js_Date\<close>: \<open>packages/engine-core/src/execution-message-content.ts\<close>, the recognition and the normalisation of the parts of a
    message; the reading and writing of ISO times.
  \<^item> \<open>History_Normalization\<close>: \<open>persisted-history-normalization.ts\<close>: the repair of a stored history, after which every tool call is answered; repairing
    again changes nothing.
  \<^item> \<open>Js_Stringify\<close>, \<open>Model_Snapshots\<close>: \<open>JSON.stringify\<close>, and \<open>engine/model-call-serialization.ts\<close>: the cutting down of the payload stored with a
    step, whose lists and nesting are bounded, and the repair of stored steps.
  \<^item> \<open>Engine_Messages\<close>: \<open>engine/engine-messages.ts\<close>: the messages of the engine, from stored rows and from the text deltas of a run that is still
    going. No stored message is lost, and every engine message comes from a stored one or from an open segment.
  \<^item> \<open>Compaction_Thresholds\<close>, \<open>Context_Compaction\<close>: \<open>engine/context-compaction.ts\<close>: when a context is compacted, which groups of messages are
    summarised and which are kept, and the two messages that record it.

  \<^bold>\<open>How the parts meet.\<close> \<open>Message_Creation\<close> calls the pending queue and the repositories and dispatches with \<open>enqueueRun\<close>, whose calls are
  recorded in order (\<open>st_dispatched\<close>); that call is \<open>rq_enqueue\<close> of \<open>Run_Queue\<close> in a deployment with Redis. \<open>Run_Worker\<close> starts from the abstract
  queue that \<open>run_queue_refines\<close> shows the Redis queue to implement. \<open>Run_Recovery\<close> puts the runs a worker lost back. The controller reads the pressure
  that \<open>Run_Queue_Pressure\<close> computes, sizes its fleet with its own copy of the sizing of \<open>Worker_Policy\<close> (\<open>sizing_copies_agree\<close>: the same
  numbers without a global load, which the controller never gives; with one they may differ, \<open>sizing_copies_differ\<close>), chooses targets with the affinity of
  \<open>Worker_Policy\<close>, and writes placements through \<open>Placement_Registry\<close>; \<open>executor_settles_lost_owners\<close> composes the operations, the executor, the registry and the server.
  The workers it sees are those \<open>Worker_Registry\<close>
  lists (\<open>worker_registry_entry\<close> extends the \<open>worker_entry\<close> of the controller). \<open>Controller_Config\<close> yields the limits that \<open>evaluation_keeps_controller_ok\<close> and the bounds assume. A history is read through \<open>History_Normalization\<close>, whose parts \<open>Message_Content\<close>
  recognises; \<open>Engine_Messages\<close> turns it into the messages of the engine, \<open>Context_Compaction\<close> cuts these between groups, and the boundary it writes is the
  one at which \<open>Message_Projection\<close> starts the window of the next call.

  \<^bold>\<open>Bounds and fuel.\<close> The polling loop of a claim (\<open>claim_until\<close>) has fuel; \<open>claim_returns_by_deadline\<close> shows that one poll more than the
  milliseconds of the time-out is enough. The visit of a tree of sessions has the number of sessions as its depth, which an acyclic
  tree never exceeds. The payload of a step is cut at the
  depth and at the lengths \<open>model-call-serialization.ts\<close> names. All other recursion is structural or has a measure. Locks live at least 1000 milliseconds, as the constructor sees to.

  \<^bold>\<open>What fails.\<close> Lemmas show where the code does not do what it means to: a worker that is closed with a claimed session strands it
  (\<open>closed_worker_strands_session\<close>), a failing \<open>peekRun\<close> or \<open>dequeueRun\<close> ends the worker's loop (\<open>failed_queue_call_ends_worker\<close>), a drain
  time-out forgets a requested cancellation (\<open>drain_requeue_forgets_cancellation\<close>), a closed elector may become leader and a failing callback
  leaves a leader that never renews (\<open>closed_elector_gains_leadership\<close>, \<open>failed_callback_allows_two_leaders\<close>), a stale snapshot restarts a finished run
  (\<open>stale_snapshot_restarts_run\<close>), and removing a composite message can leave a tool result without its call
  (\<open>composite_drop_orphans_result\<close>). A rebalance of the pool that rejects leaves a pool with too few workers or
  a slot without a worker, and no mark for the cool-down (\<open>rejected_queue_leaves_pool_short\<close>, \<open>rejected_close_leaves_slot\<close>,
  \<open>rejected_rebalance_leaves_no_mark\<close>). The controller scales down at once while the window that should hold it back is filling
  (\<open>scale_down_condition\<close>), a plan may name an evicted workspace to assign (\<open>assign_sample_names_evicted\<close>), and a new owner of a workspace leaves the
  stored preference of the old one in place (\<open>takeover_keeps_stored_preference\<close>). A listing of the workers can hide a worker that has
  just renewed its lease (\<open>listing_hides_a_live_worker\<close>). A text delta of blanks can hide the message it belongs to
  (\<open>blank_delta_loses_the_message\<close>), a payload that is cut twice forgets how much was left out (\<open>cut_again_forgets_the_count\<close>), and a second compaction can
  take in messages the first one kept (\<open>second_compaction_loses_the_recent\<close>).

  \<^bold>\<open>Not modelled.\<close> The model call and the tools of a run (\<open>engine/model-run-executor.ts\<close>, \<open>engine/tool-execution.ts\<close>, \<open>native-tools\<close>), which stream from
  a model and run processes and files of a sandbox; memory files, hooks and the delegation of agents; the PostgreSQL and SQLite repositories, whose logic is
  SQL; the HTTP server, the sandbox hosts and object storage; the command line, web and desktop applications. Of the controller: its
  process and metrics, its timer and overlapping evaluations (an evaluation is one step), the health probe, the remote Compose target and the
  transports of Kubernetes and Docker. Of the modelled files: log lines, error messages and details, and host metrics. Ids of
  workspaces are taken to have no colon, as the ids the engine creates.
\<close>

end
